(* ===== verification/Prelude.thy ===== *)
theory Prelude
  imports Main "HOL-Library.Word" "HOL-Library.Monad_Syntax"
begin

text \<open>
  What every component shares: the collections of simplification rules, the bounded
  linear search that the C sources write as a \<open>for\<close> loop over an index, intrusive
  singly linked lists (a \<open>next\<close> field in every element, a head variable), and small
  facts on machine words and C strings.

  Conventions used throughout. A C function that may run into undefined behaviour or
  into \<open>panic\<close> is a function into \<^typ>\<open>'a option\<close>; \<^term>\<open>None\<close> is that outcome and
  \<open>Some\<close> of a result (with the new state) is a normal return. A pointer into a global
  array is the index of the element; a pointer that may be \<open>NULL\<close> is an optional index.
  Loops over \<open>for (i = 0; i < n; i++)\<close> that return at the first hit are
  \<open>primer_indice\<close>.
\<close>

named_theorems fs_simps \<open>unfolding rules of the file-system model\<close>
named_theorems fs_defs \<open>definitions of the file-system calls\<close>
named_theorems mmu_simps \<open>rules for addresses and page-table entries\<close>
named_theorems kern_simps \<open>unfolding rules of the kernel model\<close>

section \<open>Bounded search\<close>

text \<open>The loop \<open>for (i = 0; i < n; i++) if (P(i)) return i;\<close>.\<close>

definition primer_indice :: "(nat \<Rightarrow> bool) \<Rightarrow> nat \<Rightarrow> nat option" where
  "primer_indice P n = find P [0..<n]"

lemma primer_indice_Some:
  "primer_indice P n = Some i \<longleftrightarrow> i < n \<and> P i \<and> (\<forall>j<i. \<not> P j)"
  unfolding primer_indice_def find_Some_iff by auto

lemma primer_indice_None: "primer_indice P n = None \<longleftrightarrow> (\<forall>i<n. \<not> P i)"
  by (auto simp: primer_indice_def find_None_iff)

lemma primer_indiceI:
  "i < n \<Longrightarrow> P i \<Longrightarrow> (\<And>j. j < i \<Longrightarrow> \<not> P j) \<Longrightarrow> primer_indice P n = Some i"
  by (auto simp: primer_indice_Some)

lemma primer_indice_ex: "i < n \<Longrightarrow> P i \<Longrightarrow> \<exists>j. primer_indice P n = Some j"
  using primer_indice_None [of P n] by (cases "primer_indice P n") auto

lemma primer_indice_unique:
  assumes "i < n" "P i" and uniq: "\<And>j. j < n \<Longrightarrow> P j \<Longrightarrow> j = i"
  shows "primer_indice P n = Some i"
proof (rule primer_indiceI [of _ _ P])
  show "i < n" and "P i" by fact+
  fix j assume "j < i"
  with assms(1) have "j < n" by simp
  with uniq [of j] \<open>j < i\<close> show "\<not> P j" by blast
qed

lemma primer_indice_cong:
  assumes "\<And>i. i < n \<Longrightarrow> P i = Q i"
  shows "primer_indice P n = primer_indice Q n"
proof (cases "primer_indice Q n")
  case None
  then have "primer_indice P n = None" by (simp add: primer_indice_None assms)
  with None show ?thesis by simp
next
  case (Some i)
  then have "i < n" and "Q i" and "\<forall>j<i. \<not> Q j" by (simp_all add: primer_indice_Some)
  then have "primer_indice P n = Some i"
    by (simp add: primer_indice_Some assms)
  with Some show ?thesis by simp
qed

section \<open>C strings\<close>

text \<open>
  The value of a \<open>char\<close> array as a string: the characters before the first NUL.
  A string argument of a C function has no NUL inside.
\<close>

definition cstring :: "string \<Rightarrow> bool" where
  "cstring s \<longleftrightarrow> CHR 0x00 \<notin> set s"

lemma cstring_take [simp]: "cstring s \<Longrightarrow> cstring (take n s)"
  by (auto simp: cstring_def dest: in_set_takeD)

lemma cstring_drop [simp]: "cstring s \<Longrightarrow> cstring (drop n s)"
  by (auto simp: cstring_def dest: in_set_dropD)

lemma cstring_append [simp]: "cstring (s @ t) \<longleftrightarrow> cstring s \<and> cstring t"
  by (auto simp: cstring_def)

lemma cstring_Nil [simp]: "cstring []"
  by (simp add: cstring_def)

text \<open>The string held in the \<open>n\<close> bytes from \<open>b\<close> on of a buffer.\<close>

definition cstr_en :: "(nat \<Rightarrow> char) \<Rightarrow> nat \<Rightarrow> nat \<Rightarrow> string" where
  "cstr_en c b n = takeWhile (\<lambda>x. x \<noteq> CHR 0x00) (map (\<lambda>k. c (b + k)) [0..<n])"

lemma cstr_en_cong: "(\<And>k. k < n \<Longrightarrow> c (b + k) = d (b' + k)) \<Longrightarrow> cstr_en c b n = cstr_en d b' n"
proof -
  assume "\<And>k. k < n \<Longrightarrow> c (b + k) = d (b' + k)"
  then have "map (\<lambda>k. c (b + k)) [0..<n] = map (\<lambda>k. d (b' + k)) [0..<n]" by simp
  then show ?thesis by (simp add: cstr_en_def del: map_eq_conv)
qed

lemma cstr_en_eqI:
  assumes "\<And>k. k < length s \<Longrightarrow> c (b + k) = s ! k" "c (b + length s) = CHR 0x00"
    and "cstring s" "length s < n"
  shows "cstr_en c b n = s"
proof -
  have split: "map (\<lambda>k. c (b + k)) [0..<n]
      = map (\<lambda>k. c (b + k)) [0..<length s] @ map (\<lambda>k. c (b + k)) [length s..<n]"
    using assms(4) upt_add_eq_append [of 0 "length s" "n - length s"]
    by (simp flip: map_append)
  have pre: "map (\<lambda>k. c (b + k)) [0..<length s] = s"
    by (rule nth_equalityI) (simp_all add: assms(1))
  have tl: "[length s..<n] = length s # [Suc (length s)..<n]"
    using assms(4) by (rule upt_conv_Cons)
  have all: "\<forall>x\<in>set s. x \<noteq> CHR 0x00"
    using assms(3) by (auto simp: cstring_def)
  show ?thesis
    unfolding cstr_en_def split pre tl
    using all by (subst takeWhile_append2) (auto simp: assms(2))
qed

text \<open>A number in decimal, as \<open>printf\<close> writes it with \<open>%d\<close>.\<close>

definition digito :: "nat \<Rightarrow> char" where
  "digito d = char_of (48 + d)"

fun decimal_nat :: "nat \<Rightarrow> string" where
  "decimal_nat n = (if n < 10 then [digito n] else decimal_nat (n div 10) @ [digito (n mod 10)])"

declare decimal_nat.simps [simp del]

definition decimal :: "int \<Rightarrow> string" where
  "decimal i = (if i < 0 then CHR 0x2D # decimal_nat (nat (- i)) else decimal_nat (nat i))"

lemma decimal_nat_no_vacio [simp]: "decimal_nat n \<noteq> []"
  by (subst decimal_nat.simps) simp

lemma decimal_no_vacio [simp]: "decimal i \<noteq> []"
  by (simp add: decimal_def)

section \<open>Machine integers\<close>

lemma sint_nonneg_unat:
  fixes w :: "'a::len word"
  assumes "0 \<le> sint w"
  shows "sint w = int (unat w)"
proof -
  have "sint w < 2 ^ LENGTH('a)"
    using sint_less [of w] by (rule order.strict_trans2) simp
  with assms have "take_bit LENGTH('a) (sint w) = sint w"
    by (simp add: take_bit_int_eq_self)
  then have "uint w = sint w" by (simp add: uint_sint)
  then show ?thesis by simp
qed

lemma sint_word_of_nat_small:
  assumes "n < 2 ^ 31"
  shows "sint (word_of_nat n :: 32 word) = int n"
proof -
  have "sint (word_of_int (int n) :: 32 word) = int n"
    unfolding int_word_sint using assms by simp
  then show ?thesis by simp
qed

lemma sint_de_unat:
  fixes w :: "64 word"
  assumes "unat w < 2 ^ 63"
  shows "sint w = int (unat w)"
proof -
  have "int (unat w) < int (2 ^ 63)" using assms by (simp only: of_nat_less_iff)
  then have "(uint w + 9223372036854775808) mod 18446744073709551616 = uint w + 9223372036854775808"
    by (intro mod_pos_pos_trivial) auto
  moreover have "sint (word_of_int (uint w) :: 64 word)
      = (uint w + 9223372036854775808) mod 18446744073709551616 - 9223372036854775808"
    unfolding int_word_sint by simp
  ultimately show ?thesis by simp
qed

end
