(* ===== verification/Mmu.thy ===== *)
theory Mmu
  imports Prelude
begin

text \<open>
  Addresses and page-table entries: the macros of \<open>TP2-sched/inc/mmu.h\<close>,
  \<open>inc/types.h\<close> and \<open>inc/memlayout.h\<close> on 32-bit words. A physical page is named by its
  number (\<open>marco\<close> is the page number in an address or an entry).
\<close>

unbundle bit_operations_syntax

type_synonym uint32 = "32 word"

section \<open>Macros\<close>

definition PGNUM :: "uint32 \<Rightarrow> uint32" where "PGNUM la = drop_bit 12 la"
definition PDX :: "uint32 \<Rightarrow> uint32" where "PDX la = drop_bit 22 la AND 0x3FF"
definition PTX :: "uint32 \<Rightarrow> uint32" where "PTX la = drop_bit 12 la AND 0x3FF"
definition PGOFF :: "uint32 \<Rightarrow> uint32" where "PGOFF la = la AND 0xFFF"
definition PGADDR :: "uint32 \<Rightarrow> uint32 \<Rightarrow> uint32 \<Rightarrow> uint32" where
  "PGADDR d t off = push_bit 22 d OR push_bit 12 t OR off"
definition PTE_ADDR :: "uint32 \<Rightarrow> uint32" where "PTE_ADDR pte = pte AND NOT 0xFFF"

definition PGSIZE :: uint32 where "PGSIZE = 4096"
definition PTE_P :: uint32 where "PTE_P = 0x001"
definition PTE_W :: uint32 where "PTE_W = 0x002"
definition PTE_U :: uint32 where "PTE_U = 0x004"
definition PTE_PS :: uint32 where "PTE_PS = 0x080"
definition PTE_AVAIL :: uint32 where "PTE_AVAIL = 0xE00"
definition PTE_SYSCALL :: uint32 where "PTE_SYSCALL = PTE_AVAIL OR PTE_P OR PTE_W OR PTE_U"

lemmas pte_flags = PTE_P_def PTE_W_def PTE_U_def PTE_PS_def PTE_AVAIL_def PTE_SYSCALL_def

definition ROUNDDOWN :: "uint32 \<Rightarrow> uint32 \<Rightarrow> uint32" where "ROUNDDOWN a n = a - a mod n"
definition ROUNDUP :: "uint32 \<Rightarrow> uint32 \<Rightarrow> uint32" where "ROUNDUP a n = ROUNDDOWN (a + n - 1) n"

definition KERNBASE :: uint32 where "KERNBASE = 0xF0000000"
definition IOPHYSMEM :: uint32 where "IOPHYSMEM = 0x0A0000"
definition EXTPHYSMEM :: uint32 where "EXTPHYSMEM = 0x100000"
definition PTSIZE :: uint32 where "PTSIZE = PGSIZE * 1024"
definition KSTACKTOP :: uint32 where "KSTACKTOP = KERNBASE"
definition MMIOLIM :: uint32 where "MMIOLIM = KSTACKTOP - PTSIZE"
definition MMIOBASE :: uint32 where "MMIOBASE = MMIOLIM - PTSIZE"
definition ULIM :: uint32 where "ULIM = MMIOBASE"
definition UVPT :: uint32 where "UVPT = ULIM - PTSIZE"
definition UPAGES :: uint32 where "UPAGES = UVPT - PTSIZE"
definition UENVS :: uint32 where "UENVS = UPAGES - PTSIZE"
definition UTOP :: uint32 where "UTOP = UENVS"
definition UXSTACKTOP :: uint32 where "UXSTACKTOP = UTOP"
definition USTACKTOP :: uint32 where "USTACKTOP = UTOP - 2 * PGSIZE"
definition MPENTRY_PADDR :: uint32 where "MPENTRY_PADDR = 0x7000"

lemmas memlayout = PGSIZE_def KERNBASE_def IOPHYSMEM_def EXTPHYSMEM_def PTSIZE_def KSTACKTOP_def
  MMIOLIM_def MMIOBASE_def ULIM_def UVPT_def UPAGES_def UENVS_def UTOP_def UXSTACKTOP_def
  USTACKTOP_def MPENTRY_PADDR_def

lemma UTOP_valor: "UTOP = 0xEEC00000" "UVPT = 0xEF400000" "USTACKTOP = 0xEEBFE000"
  by (simp_all add: memlayout)

text \<open>\<open>page2pa\<close>: the address of physical page \<open>p\<close>.\<close>

definition page2pa :: "nat \<Rightarrow> uint32" where "page2pa p = push_bit 12 (word_of_nat p)"

section \<open>Taking addresses apart\<close>

lemma mascaras: "(0x3FF :: uint32) = mask 10" "(0xFFF :: uint32) = mask 12"
  by (simp_all add: mask_eq_exp_minus_1)

lemma PGADDR_partes: "PGADDR (PDX la) (PTX la) (PGOFF la) = la"
proof (rule bit_word_eqI)
  fix n assume n: "n < LENGTH(32)"
  consider "n < 12" | "12 \<le> n" "n < 22" | "22 \<le> n" by linarith
  then show "bit (PGADDR (PDX la) (PTX la) (PGOFF la)) n \<longleftrightarrow> bit la n"
    by cases (use n in \<open>auto simp: PGADDR_def PDX_def PTX_def PGOFF_def mascaras bit_simps\<close>)
qed

lemma unat_and_mask: "unat (w AND mask n :: uint32) = unat w mod 2 ^ n"
  unfolding take_bit_eq_mask [symmetric] unsigned_take_bit_eq by (rule take_bit_eq_mod)

lemma unat_cota: "unat (w :: uint32) < 4294967296"
  using unsigned_less [of w, where ?'a = nat] by simp

lemma unat_drop: "unat (drop_bit n (w :: uint32)) = unat w div 2 ^ n"
  unfolding unat_drop_bit_eq by (simp only: drop_bit_eq_div)

lemma unat_PGNUM: "unat (PGNUM la) = unat la div 4096"
  unfolding PGNUM_def unat_drop by simp

lemma unat_PTX: "unat (PTX la) = unat la div 4096 mod 1024"
  unfolding PTX_def mascaras unat_and_mask unat_drop by simp

lemma unat_PDX: "unat (PDX la) = unat la div 4194304"
proof -
  have "unat la div 4194304 < 1024"
    using unat_cota [of la] by (simp add: div_less_iff_less_mult)
  then show ?thesis
    unfolding PDX_def mascaras unat_and_mask unat_drop by simp
qed

lemma PDX_PTX_lt [simp]: "unat (PDX la) < 1024" "unat (PTX la) < 1024"
  using unat_cota [of la] by (simp_all add: unat_PDX unat_PTX div_less_iff_less_mult)

lemma PGNUM_PDX_PTX: "unat (PGNUM la) = unat (PDX la) * 1024 + unat (PTX la)"
proof -
  have "unat la div 4194304 = unat la div 4096 div 1024" by (simp add: div_mult2_eq [symmetric])
  then show ?thesis unfolding unat_PGNUM unat_PDX unat_PTX by presburger
qed

lemma misma_pagina: "PDX a = PDX b \<Longrightarrow> PTX a = PTX b \<Longrightarrow> PGNUM a = PGNUM b"
  using PGNUM_PDX_PTX [of a] PGNUM_PDX_PTX [of b] by (simp add: word_unat_eq_iff)

lemma PDX_de_PGNUM: "unat (PDX la) = unat (PGNUM la) div 1024"
  and PTX_de_PGNUM: "unat (PTX la) = unat (PGNUM la) mod 1024"
  using PDX_PTX_lt(2) [of la] by (simp_all add: PGNUM_PDX_PTX)

lemma PGNUM_iff: "PGNUM a = PGNUM b \<longleftrightarrow> unat (PDX a) = unat (PDX b) \<and> unat (PTX a) = unat (PTX b)"
proof
  assume "PGNUM a = PGNUM b"
  then show "unat (PDX a) = unat (PDX b) \<and> unat (PTX a) = unat (PTX b)"
    by (simp only: PDX_de_PGNUM PTX_de_PGNUM)
qed (simp add: word_unat_eq_iff PGNUM_PDX_PTX)

text \<open>The page number in an entry. Flags below bit 12 do not change it.\<close>

definition marco :: "uint32 \<Rightarrow> nat" where "marco pte = unat (PGNUM (PTE_ADDR pte))"

lemma PGNUM_PTE_ADDR [simp]: "PGNUM (PTE_ADDR pte) = PGNUM pte"
  by (rule bit_word_eqI) (auto simp: PGNUM_def PTE_ADDR_def mascaras bit_simps dest: bit_imp_le_length)

lemma marco_unat: "marco pte = unat pte div 4096"
  by (simp add: marco_def unat_PGNUM)

lemma marco_lt: "marco pte < 2 ^ 20"
  using unat_cota [of pte] by (simp add: marco_unat div_less_iff_less_mult)

definition es_perm :: "uint32 \<Rightarrow> bool" where "es_perm perm \<longleftrightarrow> perm AND NOT 0xFFF = 0"

lemma PGNUM_or: "PGNUM (a OR b) = PGNUM a OR PGNUM b"
  by (simp add: PGNUM_def drop_bit_or)

lemma PGNUM_perm: "es_perm perm \<Longrightarrow> PGNUM perm = 0"
proof -
  assume "es_perm perm"
  then have "PTE_ADDR perm = 0" by (simp add: es_perm_def PTE_ADDR_def)
  then have "PGNUM (PTE_ADDR perm) = 0" by (simp add: PGNUM_def)
  then show ?thesis by simp
qed

lemma PGNUM_page2pa: "p < 2 ^ 20 \<Longrightarrow> PGNUM (page2pa p) = word_of_nat p"
proof -
  assume p: "p < 2 ^ 20"
  have "unat (PGNUM (page2pa p)) = p"
    using p by (simp add: unat_PGNUM page2pa_def unat_word_ariths push_bit_eq_mult unat_of_nat take_bit_nat_eq_self)
  then have "word_of_nat (unat (PGNUM (page2pa p))) = (word_of_nat p :: uint32)" by simp
  then show ?thesis by simp
qed

lemma marco_entrada: "p < 2 ^ 20 \<Longrightarrow> es_perm perm \<Longrightarrow> marco (page2pa p OR perm) = p"
proof -
  assume p: "p < 2 ^ 20" and perm: "es_perm perm"
  have "marco (page2pa p OR perm) = unat (word_of_nat p :: uint32)"
    by (simp add: marco_def PGNUM_or PGNUM_perm [OF perm] PGNUM_page2pa [OF p])
  with p show ?thesis by (simp add: unat_of_nat take_bit_nat_eq_self)
qed

lemma es_perm_or [simp]: "es_perm (a OR b) \<longleftrightarrow> es_perm a \<and> es_perm b"
  unfolding es_perm_def bit.conj_disj_distrib2 or_eq_0_iff ..

lemma es_perm_flags [simp]: "es_perm PTE_P" "es_perm PTE_W" "es_perm PTE_U" "es_perm 0"
  by (simp_all add: es_perm_def pte_flags)

lemma entrada_presente [simp]: "(a OR PTE_P) AND PTE_P = PTE_P" "a OR PTE_P \<noteq> 0"
proof -
  show "(a OR PTE_P) AND PTE_P = PTE_P" by (rule bit_word_eqI) (auto simp: bit_simps)
  then show "a OR PTE_P \<noteq> 0" by (metis PTE_P_def and_zero_eq zero_neq_one and.left_idem bit.conj_zero_left)
qed

text \<open>The permission bits of \<open>page2pa p | perm\<close>.\<close>

lemma page2pa_and_perm: "es_perm m \<Longrightarrow> page2pa p AND m = 0"
proof -
  assume m: "es_perm m"
  have "\<not> bit m n" if "12 \<le> n" "n < 32" for n
  proof
    assume "bit m n"
    with that have "bit (m AND NOT 0xFFF) n" by (simp add: mascaras bit_simps)
    with m show False by (simp add: es_perm_def)
  qed
  then show ?thesis
    by (intro bit_word_eqI) (auto simp: page2pa_def bit_simps)
qed

section \<open>Rounding to pages\<close>

lemma unat_ROUNDDOWN: "unat (ROUNDDOWN a PGSIZE) = 4096 * (unat a div 4096)"
proof -
  have m: "unat (a mod PGSIZE) = unat a mod 4096" by (simp add: unat_mod PGSIZE_def)
  have "a mod PGSIZE \<le> a" by (simp add: word_le_nat_alt m)
  then have "unat (a - a mod PGSIZE) = unat a - unat a mod 4096"
    by (simp add: unat_sub m)
  then show ?thesis by (simp add: ROUNDDOWN_def minus_mod_eq_mult_div)
qed

lemma unat_ROUNDUP:
  assumes "unat a + 4095 < 4294967296"
  shows "unat (ROUNDUP a PGSIZE) = 4096 * ((unat a + 4095) div 4096)"
proof -
  have "unat (a + PGSIZE - 1) = unat a + 4095"
    using assms by (simp add: PGSIZE_def unat_word_ariths)
  then show ?thesis by (simp add: ROUNDUP_def unat_ROUNDDOWN)
qed

lemma unat_de_nat32: "n < 4294967296 \<Longrightarrow> unat (word_of_nat n :: uint32) = n"
  by (simp add: unat_of_nat take_bit_nat_eq_self)

text \<open>The first address of page \<open>q\<close> of an address space.\<close>

definition pagina_va :: "nat \<Rightarrow> uint32" where "pagina_va q = word_of_nat (4096 * q)"

lemma unat_pagina_va: "q < 1048576 \<Longrightarrow> unat (pagina_va q) = 4096 * q"
  unfolding pagina_va_def by (rule unat_de_nat32) simp

lemma pagina_va_suma: "pagina_va q + PGSIZE = pagina_va (Suc q)"
  by (simp add: pagina_va_def PGSIZE_def algebra_simps)

lemma pagina_va_eq: "unat a = 4096 * q \<Longrightarrow> a = pagina_va q"
proof -
  assume "unat a = 4096 * q"
  then have "word_of_nat (unat a) = pagina_va q" by (simp only: pagina_va_def)
  then show ?thesis by simp
qed

lemma PGNUM_pagina_va: "PGNUM (pagina_va (unat a div 4096)) = PGNUM a"
proof -
  have "unat a div 4096 < 1048576" using unat_cota [of a] by (simp add: div_less_iff_less_mult)
  then show ?thesis by (simp add: word_unat_eq_iff unat_PGNUM unat_pagina_va)
qed

lemma ROUNDDOWN_pagina: "ROUNDDOWN a PGSIZE = pagina_va (unat a div 4096)"
  by (rule pagina_va_eq) (rule unat_ROUNDDOWN)

lemma ROUNDUP_pagina:
  "unat a + 4095 < 4294967296 \<Longrightarrow> ROUNDUP a PGSIZE = pagina_va ((unat a + 4095) div 4096)"
  by (rule pagina_va_eq) (rule unat_ROUNDUP)

lemma pagina_va_less: "p < 1048576 \<Longrightarrow> q < 1048576 \<Longrightarrow> pagina_va p < pagina_va q \<longleftrightarrow> p < q"
  by (simp add: word_less_nat_alt unat_pagina_va)

end
