(* ===== verification/Lista.thy ===== *)
theory Lista
  imports Prelude
begin

text \<open>
  The kernel keeps its free pages and its free environments on lists threaded through the
  elements themselves: a head variable and a link field. The locale states what both
  pairs of operations (take the head, put an element in front) owe to the list, and what
  follows from it; \<open>Pmap\<close> and \<open>Env\<close> interpret it.
\<close>

locale lista_libre =
  fixes cabeza :: "'s \<Rightarrow> nat option"
    and enlace :: "'s \<Rightarrow> nat \<Rightarrow> nat option"
    and sacar :: "'s \<Rightarrow> (nat \<times> 's) option"
    and meter :: "nat \<Rightarrow> 's \<Rightarrow> 's option"
  assumes sacar_cabeza: "sacar s = Some (x, s') \<Longrightarrow> cabeza s = Some x"
    and sacar_resto: "sacar s = Some (x, s') \<Longrightarrow> cabeza s' = enlace s x"
    and sacar_enlace: "sacar s = Some (x, s') \<Longrightarrow> y \<noteq> x \<Longrightarrow> enlace s' y = enlace s y"
    and meter_cabeza: "meter x s = Some s' \<Longrightarrow> cabeza s' = Some x"
    and meter_resto: "meter x s = Some s' \<Longrightarrow> enlace s' x = cabeza s"
    and meter_enlace: "meter x s = Some s' \<Longrightarrow> y \<noteq> x \<Longrightarrow> enlace s' y = enlace s y"
begin

text \<open>\<open>cadena s h xs\<close>: following the links from \<open>h\<close> gives exactly \<open>xs\<close>.\<close>

fun cadena :: "'s \<Rightarrow> nat option \<Rightarrow> nat list \<Rightarrow> bool" where
  "cadena s h [] \<longleftrightarrow> h = None"
| "cadena s h (x # xs) \<longleftrightarrow> h = Some x \<and> cadena s (enlace s x) xs"

definition libres :: "'s \<Rightarrow> nat list \<Rightarrow> bool" where
  "libres s xs \<longleftrightarrow> cadena s (cabeza s) xs \<and> distinct xs"

lemma cadena_unica: "cadena s h xs \<Longrightarrow> cadena s h ys \<Longrightarrow> xs = ys"
proof (induction xs arbitrary: h ys)
  case Nil
  then show ?case by (cases ys) auto
next
  case (Cons x xs)
  then show ?case by (cases ys) auto
qed

lemma libres_unica: "libres s xs \<Longrightarrow> libres s ys \<Longrightarrow> xs = ys"
  unfolding libres_def by (blast intro: cadena_unica)

lemma cadena_cong:
  "(\<And>y. y \<in> set xs \<Longrightarrow> enlace s' y = enlace s y) \<Longrightarrow> cadena s' h xs = cadena s h xs"
  by (induction xs arbitrary: h) auto

text \<open>An operation that keeps the head and the links of the listed elements keeps the list.\<close>

lemma libres_cong:
  "cabeza s' = cabeza s \<Longrightarrow> (\<And>y. y \<in> set xs \<Longrightarrow> enlace s' y = enlace s y) \<Longrightarrow> libres s' xs = libres s xs"
  unfolding libres_def using cadena_cong [of xs s' s] by simp

lemma libres_vacia: "libres s [] \<longleftrightarrow> cabeza s = None"
  by (simp add: libres_def)

lemma sacar_libres:
  assumes "libres s xs" "sacar s = Some (x, s')"
  obtains ys where "xs = x # ys" "libres s' ys" "x \<notin> set ys"
proof (cases xs)
  case Nil
  with assms sacar_cabeza [OF assms(2)] show thesis by (simp add: libres_def)
next
  case (Cons y ys)
  with assms sacar_cabeza [OF assms(2)] have x: "xs = x # ys" "x \<notin> set ys" "cadena s (enlace s x) ys" "distinct ys"
    by (auto simp: libres_def)
  have "cadena s' (cabeza s') ys"
    using x(2,3) sacar_resto [OF assms(2)] cadena_cong [of ys s' s] sacar_enlace [OF assms(2)] by metis
  with x that show thesis by (simp add: libres_def)
qed

lemma meter_libres:
  assumes "libres s xs" "x \<notin> set xs" "meter x s = Some s'"
  shows "libres s' (x # xs)"
proof -
  have "cadena s' (enlace s' x) xs"
    using assms(1,2) meter_resto [OF assms(3)] cadena_cong [of xs s' s] meter_enlace [OF assms(3)]
    by (metis libres_def)
  with assms(1,2) meter_cabeza [OF assms(3)] show ?thesis by (simp add: libres_def)
qed

text \<open>What was put last is taken first, and the list is as before.\<close>

lemma meter_sacar:
  assumes "libres s xs" "x \<notin> set xs" "meter x s = Some s1" "sacar s1 = Some (y, s2)"
  shows "y = x" "libres s2 xs"
proof -
  have "libres s1 (x # xs)" using assms(1-3) by (rule meter_libres)
  then obtain ys where "x # xs = y # ys" "libres s2 ys" using assms(4) by (rule sacar_libres)
  then show "y = x" "libres s2 xs" by simp_all
qed

end

end
