(* ===== verification/Kern_State.thy ===== *)
theory Kern_State
  imports Mmu Lista
begin

text \<open>
  The state of the kernel of \<open>TP2-sched\<close>: the variables and structures of
  \<open>kern/pmap.c\<close>, \<open>kern/env.c\<close>, \<open>kern/sched.c\<close> and \<open>kern/cpu.h\<close> that the modelled functions
  read and write.

  A \<open>struct PageInfo *\<close> is the index of the page, a page directory (\<open>pde_t *\<close>) is the
  number of the physical page that holds it, and a \<open>pte_t *\<close> is a page number with an
  index below 1024; \<open>KADDR\<close> and \<open>PADDR\<close> are then the identity, and the check of \<open>KADDR\<close>
  (the page exists) is kept. Physical memory is read and written by 32-bit words. A
  \<open>struct Env *\<close> is an index into \<open>envs\<close>. \<open>curenv\<close> is the one of the CPU that runs;
  environments of other CPUs show as \<open>ENV_RUNNING\<close>. The kernel lock makes every function
  below run alone. \<open>int\<close> fields are 32-bit words read with \<^const>\<open>sint\<close>.
\<close>

section \<open>Pages (inc/memlayout.h)\<close>

record page_info =
  pp_link :: "nat option"
  pp_ref :: "16 word"

section \<open>Environments (inc/trap.h, inc/env.h)\<close>

record push_regs =
  reg_edi :: uint32
  reg_esi :: uint32
  reg_ebp :: uint32
  reg_oesp :: uint32
  reg_ebx :: uint32
  reg_edx :: uint32
  reg_ecx :: uint32
  reg_eax :: uint32

record trapframe =
  tf_regs :: push_regs
  tf_es :: "16 word"
  tf_ds :: "16 word"
  tf_trapno :: uint32
  tf_err :: uint32
  tf_eip :: uint32
  tf_cs :: "16 word"
  tf_eflags :: uint32
  tf_esp :: uint32
  tf_ss :: "16 word"

definition regs_cero :: push_regs where
  "regs_cero = \<lparr>reg_edi = 0, reg_esi = 0, reg_ebp = 0, reg_oesp = 0, reg_ebx = 0, reg_edx = 0,
     reg_ecx = 0, reg_eax = 0\<rparr>"

definition tf_cero :: trapframe where
  "tf_cero = \<lparr>tf_regs = regs_cero, tf_es = 0, tf_ds = 0, tf_trapno = 0, tf_err = 0, tf_eip = 0,
     tf_cs = 0, tf_eflags = 0, tf_esp = 0, tf_ss = 0\<rparr>"

datatype env_status_t = ENV_FREE | ENV_DYING | ENV_RUNNABLE | ENV_RUNNING | ENV_NOT_RUNNABLE

record env =
  env_tf :: trapframe
  env_link :: "nat option"
  env_id :: uint32
  env_parent_id :: uint32
  env_type :: nat
  env_status :: env_status_t
  env_runs :: uint32
  env_cpunum :: uint32
  env_pgdir :: "nat option"
  env_pgfault_upcall :: uint32
  env_ipc_recving :: bool
  env_ipc_dstva :: uint32
  env_ipc_value :: uint32
  env_ipc_from :: uint32
  env_ipc_perm :: uint32
  env_priority :: uint32
  env_start_time :: uint32
  env_finish_time :: uint32
  env_count :: uint32

definition NENV :: nat where "NENV = 1024"
definition ENVX :: "uint32 \<Rightarrow> nat" where "ENVX envid = unat (envid AND 0x3FF)"

section \<open>The kernel\<close>

text \<open>
  \<open>tlb\<close> lists the addresses given to \<open>invlpg\<close>, latest first; \<open>cr3\<close> is the page directory
  in force. \<open>cpu_id\<close> is the number of the CPU that runs.
\<close>

record kernel =
  npages :: nat
  pages :: "nat \<Rightarrow> page_info"
  page_free_list :: "nat option"
  mem :: "nat \<Rightarrow> nat \<Rightarrow> uint32"
  kern_pgdir :: nat
  cr3 :: nat
  tlb :: "uint32 list"
  user_mem_check_addr :: uint32
  envs :: "nat \<Rightarrow> env"
  env_free_list :: "nat option"
  curenv :: "nat option"
  cpu_id :: uint32
  cpu_halted :: bool
  last_env :: "nat option"
  sched_calls :: uint32
  env_executed :: uint32
  sched_time :: uint32

section \<open>Error codes (inc/error.h)\<close>

definition E_BAD_ENV :: int where "E_BAD_ENV = 2"
definition E_INVAL :: int where "E_INVAL = 3"
definition E_NO_MEM :: int where "E_NO_MEM = 4"
definition E_NO_FREE_ENV :: int where "E_NO_FREE_ENV = 5"
definition E_FAULT :: int where "E_FAULT = 6"
definition E_IPC_NOT_RECV :: int where "E_IPC_NOT_RECV = 7"

lemmas kern_errors = E_BAD_ENV_def E_INVAL_def E_NO_MEM_def E_NO_FREE_ENV_def E_FAULT_def E_IPC_NOT_RECV_def

section \<open>Writing one element of an array\<close>

definition con_page :: "nat \<Rightarrow> (page_info \<Rightarrow> page_info) \<Rightarrow> kernel \<Rightarrow> kernel" where
  "con_page p f k = k\<lparr>pages := (pages k)(p := f (pages k p))\<rparr>"

definition con_env :: "nat \<Rightarrow> (env \<Rightarrow> env) \<Rightarrow> kernel \<Rightarrow> kernel" where
  "con_env e f k = k\<lparr>envs := (envs k)(e := f (envs k e))\<rparr>"

definition escribir :: "nat \<Rightarrow> nat \<Rightarrow> uint32 \<Rightarrow> kernel \<Rightarrow> kernel" where
  "escribir f i v k = k\<lparr>mem := (mem k)(f := (mem k f)(i := v))\<rparr>"

lemma con_page_simps [simp]:
  "pages (con_page p f k) q = (if q = p then f (pages k p) else pages k q)"
  "npages (con_page p f k) = npages k" "page_free_list (con_page p f k) = page_free_list k"
  "mem (con_page p f k) = mem k" "kern_pgdir (con_page p f k) = kern_pgdir k"
  "envs (con_page p f k) = envs k" "curenv (con_page p f k) = curenv k" "tlb (con_page p f k) = tlb k"
  "env_free_list (con_page p f k) = env_free_list k" "cr3 (con_page p f k) = cr3 k"
  by (simp_all add: con_page_def)

lemma con_env_simps [simp]:
  "envs (con_env e f k) d = (if d = e then f (envs k e) else envs k d)"
  "npages (con_env e f k) = npages k" "page_free_list (con_env e f k) = page_free_list k"
  "mem (con_env e f k) = mem k" "kern_pgdir (con_env e f k) = kern_pgdir k" "tlb (con_env e f k) = tlb k"
  "pages (con_env e f k) = pages k" "curenv (con_env e f k) = curenv k"
  "env_free_list (con_env e f k) = env_free_list k" "cr3 (con_env e f k) = cr3 k"
  "last_env (con_env e f k) = last_env k" "sched_time (con_env e f k) = sched_time k"
  "sched_calls (con_env e f k) = sched_calls k" "env_executed (con_env e f k) = env_executed k"
  "cpu_id (con_env e f k) = cpu_id k" "cpu_halted (con_env e f k) = cpu_halted k"
  by (simp_all add: con_env_def)

lemma escribir_simps [simp]:
  "mem (escribir f i v k) g j = (if g = f \<and> j = i then v else mem k g j)"
  "npages (escribir f i v k) = npages k" "page_free_list (escribir f i v k) = page_free_list k"
  "pages (escribir f i v k) = pages k" "kern_pgdir (escribir f i v k) = kern_pgdir k"
  "envs (escribir f i v k) = envs k" "curenv (escribir f i v k) = curenv k" "tlb (escribir f i v k) = tlb k"
  "env_free_list (escribir f i v k) = env_free_list k" "cr3 (escribir f i v k) = cr3 k"
  by (simp_all add: escribir_def)

end
