(* ===== verification/Pmap.thy ===== *)
theory Pmap
  imports Kern_State
begin

text \<open>
  Physical pages and page tables: \<open>TP2-sched/kern/pmap.c\<close> and \<open>kern/pmap.h\<close>. A function
  returns \<^term>\<open>None\<close> where the code panics or writes through a null or foreign pointer, and
  otherwise its result with the new kernel. \<open>TP1_PSE\<close> is not defined, as in the build.
\<close>

section \<open>Reading the kernel's addresses\<close>

text \<open>\<open>KADDR\<close> of a physical address, as the number of its page.\<close>

definition KADDR :: "kernel \<Rightarrow> uint32 \<Rightarrow> nat option" where
  "KADDR k pa = (if unat (PGNUM pa) \<ge> npages k then None else Some (unat (PGNUM pa)))"

definition pa2page :: "kernel \<Rightarrow> uint32 \<Rightarrow> nat option" where
  "pa2page k pa = (if unat (PGNUM pa) \<ge> npages k then None else Some (unat (PGNUM pa)))"

definition page2kva :: "kernel \<Rightarrow> nat \<Rightarrow> nat option" where
  "page2kva k pp = KADDR k (page2pa pp)"

definition leer :: "kernel \<Rightarrow> nat \<times> nat \<Rightarrow> uint32" where
  "leer k pte = mem k (fst pte) (snd pte)"

section \<open>Physical pages\<close>

text \<open>
  \<open>boot_alloc\<close>: \<open>nextfree\<close> is the static variable (0 before the first call), \<open>fin\<close> the
  linker's \<open>end\<close>. The result is the address returned and the new \<open>nextfree\<close>.
\<close>

definition boot_alloc :: "uint32 \<Rightarrow> uint32 \<Rightarrow> uint32 \<Rightarrow> uint32 \<Rightarrow> (uint32 \<times> uint32) option" where
  "boot_alloc np fin nextfree n =
     (let nf = (if nextfree = 0 then ROUNDUP fin PGSIZE else nextfree) in
      if nf + n < KERNBASE then None
      else
        let ultimo = nf + n - KERNBASE in
        if ultimo \<ge> PGSIZE * np then None
        else if PGNUM ultimo \<ge> np then None
        else Some (nf, ROUNDUP (ultimo + KERNBASE) PGSIZE))"

definition page_init_paso :: "nat \<Rightarrow> nat \<Rightarrow> kernel \<Rightarrow> kernel" where
  "page_init_paso primera i k =
     (let k1 = con_page i (\<lambda>p. p\<lparr>pp_link := None\<rparr>) k in
      if i = 0 then k1
      else if unat (PGNUM MPENTRY_PADDR) = i then k1
      else if i \<ge> unat (PGNUM IOPHYSMEM) \<and> i < unat (PGNUM EXTPHYSMEM) then k1
      else if i \<ge> unat (PGNUM EXTPHYSMEM) \<and> i < primera then k1
      else (con_page i (\<lambda>p. p\<lparr>pp_link := page_free_list k1, pp_ref := 0\<rparr>) k1)\<lparr>page_free_list := Some i\<rparr>)"

text \<open>\<open>page_init\<close>; \<open>primera\<close> is the page number of \<open>boot_alloc(0)\<close>.\<close>

definition page_init :: "nat \<Rightarrow> kernel \<Rightarrow> kernel" where
  "page_init primera k = fold (page_init_paso primera) [0..<npages k] k"

definition page_alloc :: "bool \<Rightarrow> kernel \<Rightarrow> (nat option \<times> kernel) option" where
  "page_alloc zero k =
     (case page_free_list k of
        None \<Rightarrow> Some (None, k)
      | Some p \<Rightarrow>
          let k1 = k\<lparr>page_free_list := pp_link (pages k p)\<rparr>;
              k2 = con_page p (\<lambda>r. r\<lparr>pp_link := None\<rparr>) k1
          in if zero then
               (case page2kva k2 p of
                  None \<Rightarrow> None
                | Some f \<Rightarrow> Some (Some p, k2\<lparr>mem := (mem k2)(f := (\<lambda>_. 0))\<rparr>))
             else Some (Some p, k2))"

definition page_free :: "nat \<Rightarrow> kernel \<Rightarrow> kernel option" where
  "page_free p k =
     (if pp_ref (pages k p) \<noteq> 0 then None
      else if pp_link (pages k p) \<noteq> None then None
      else Some ((con_page p (\<lambda>r. r\<lparr>pp_link := page_free_list k\<rparr>) k)\<lparr>page_free_list := Some p\<rparr>))"

definition page_decref :: "nat \<Rightarrow> kernel \<Rightarrow> kernel option" where
  "page_decref p k =
     (let k1 = con_page p (\<lambda>r. r\<lparr>pp_ref := pp_ref r - 1\<rparr>) k
      in if pp_ref (pages k1 p) = 0 then page_free p k1 else Some k1)"

definition pp_ref_inc :: "nat \<Rightarrow> kernel \<Rightarrow> kernel" where
  "pp_ref_inc p k = con_page p (\<lambda>r. r\<lparr>pp_ref := pp_ref r + 1\<rparr>) k"

section \<open>Page tables\<close>

text \<open>\<open>pgdir_walk\<close>: the pointer it returns, \<open>NULL\<close> being \<^term>\<open>None\<close> inside \<open>Some\<close>.\<close>

definition pgdir_walk :: "nat \<Rightarrow> uint32 \<Rightarrow> bool \<Rightarrow> kernel \<Rightarrow> ((nat \<times> nat) option \<times> kernel) option" where
  "pgdir_walk pgdir va create k =
     (let pdx = unat (PDX va) in
      do {
        k1 \<leftarrow> (if mem k pgdir pdx = 0 \<and> create then
                 do {
                   (page, k1) \<leftarrow> page_alloc True k;
                   Some (case page of
                      None \<Rightarrow> k1
                    | Some p \<Rightarrow> escribir pgdir pdx (page2pa p OR PTE_P OR PTE_W OR PTE_U) (pp_ref_inc p k1))
                 }
               else Some k);
        if mem k1 pgdir pdx \<noteq> 0 then
          do { f \<leftarrow> KADDR k1 (PTE_ADDR (mem k1 pgdir pdx)); Some (Some (f, unat (PTX va)), k1) }
        else Some (None, k1)
      })"

text \<open>
  \<open>page_lookup\<close>: the page and its entry. The test \<open>!(*pte && PTE_P)\<close> is a logical and of
  two integers, so it asks whether the entry is 0.
\<close>

definition page_lookup :: "nat \<Rightarrow> uint32 \<Rightarrow> kernel \<Rightarrow> ((nat \<times> (nat \<times> nat)) option) option" where
  "page_lookup pgdir va k =
     do {
       (pte, _) \<leftarrow> pgdir_walk pgdir va False k;
       case pte of
         None \<Rightarrow> Some None
       | Some e \<Rightarrow>
           if \<not> (leer k e \<noteq> 0 \<and> PTE_P \<noteq> 0) then Some None
           else do { p \<leftarrow> pa2page k (PTE_ADDR (leer k e)); Some (Some (p, e)) }
     }"

definition tlb_invalidate :: "nat \<Rightarrow> uint32 \<Rightarrow> kernel \<Rightarrow> kernel" where
  "tlb_invalidate pgdir va k =
     (case curenv k of
        None \<Rightarrow> k\<lparr>tlb := va # tlb k\<rparr>
      | Some e \<Rightarrow> if env_pgdir (envs k e) = Some pgdir then k\<lparr>tlb := va # tlb k\<rparr> else k)"

definition page_remove :: "nat \<Rightarrow> uint32 \<Rightarrow> kernel \<Rightarrow> kernel option" where
  "page_remove pgdir va k =
     do {
       (pte, _) \<leftarrow> pgdir_walk pgdir va False k;
       lk \<leftarrow> page_lookup pgdir va k;
       case pte of
         None \<Rightarrow> Some k
       | Some e \<Rightarrow>
           if \<not> (leer k e \<noteq> 0 \<and> PTE_P \<noteq> 0) then Some k
           else
             (case lk of
                None \<Rightarrow> None
              | Some (page_rmv, _) \<Rightarrow>
                  do {
                    k1 \<leftarrow> page_decref page_rmv k;
                    Some (tlb_invalidate pgdir va (escribir (fst e) (snd e) 0 k1))
                  })
     }"

definition page_insert :: "nat \<Rightarrow> nat \<Rightarrow> uint32 \<Rightarrow> uint32 \<Rightarrow> kernel \<Rightarrow> (int \<times> kernel) option" where
  "page_insert pgdir pp va perm k =
     do {
       (pte, k1) \<leftarrow> pgdir_walk pgdir va True k;
       case pte of
         None \<Rightarrow> Some (- E_NO_MEM, k1)
       | Some e \<Rightarrow>
           do {
             k2 \<leftarrow> page_remove pgdir va (pp_ref_inc pp k1);
             Some (0, escribir (fst e) (snd e) (page2pa pp OR perm OR PTE_P) k2)
           }
     }"

text \<open>
  \<open>boot_map_region\<close>, one iteration per page. With a size above \<open>0xFFFFF000\<close> the counter
  wraps around and the loop does not end.
\<close>

fun boot_map_paginas :: "nat \<Rightarrow> uint32 \<Rightarrow> uint32 \<Rightarrow> uint32 \<Rightarrow> nat \<Rightarrow> kernel \<Rightarrow> kernel option" where
  "boot_map_paginas pgdir va pa perm 0 k = Some k"
| "boot_map_paginas pgdir va pa perm (Suc n) k =
     do {
       (pte, k1) \<leftarrow> pgdir_walk pgdir va True k;
       k2 \<leftarrow> page_remove pgdir va k1;
       e \<leftarrow> pte;
       boot_map_paginas pgdir (va + PGSIZE) (pa + PGSIZE) perm n
         (escribir (fst e) (snd e) (pa OR perm OR PTE_P) k2)
     }"

definition boot_map_region ::
    "nat \<Rightarrow> uint32 \<Rightarrow> uint32 \<Rightarrow> uint32 \<Rightarrow> uint32 \<Rightarrow> kernel \<Rightarrow> kernel option" where
  "boot_map_region pgdir va sz pa perm k =
     (if sz > 0xFFFFF000 then None
      else boot_map_paginas pgdir va pa perm ((unat sz + 4095) div 4096) k)"

text \<open>\<open>mmio_map_region\<close>; \<open>base\<close> is the static variable, returned updated.\<close>

definition mmio_map_region ::
    "uint32 \<Rightarrow> uint32 \<Rightarrow> uint32 \<Rightarrow> kernel \<Rightarrow> (uint32 \<times> uint32 \<times> kernel) option" where
  "mmio_map_region base pa sz k =
     (let pa' = ROUNDDOWN pa PGSIZE; sz' = ROUNDUP sz PGSIZE;
          perm = PTE_W OR PTE_P OR 0x010 OR 0x008
      in if base + sz' \<ge> MMIOLIM then None
         else do {
           k' \<leftarrow> boot_map_region (kern_pgdir k) base sz' pa' perm k;
           Some (base + sz' - sz', base + sz', k')
         })"

section \<open>Checks\<close>

text \<open>
  The loop of \<open>user_mem_check\<close>. The last argument bounds the iterations; \<open>2 ^ 20\<close>, the
  number of pages of the address space, is enough since \<open>va_hi\<close> is at most \<open>UTOP\<close>.
\<close>

fun user_mem_bucle :: "nat \<Rightarrow> uint32 \<Rightarrow> uint32 \<Rightarrow> uint32 \<Rightarrow> kernel \<Rightarrow> uint32 \<Rightarrow> nat \<Rightarrow> (int \<times> kernel) option" where
  "user_mem_bucle pgdir va_lo va_hi perm k va_act 0 = None"
| "user_mem_bucle pgdir va_lo va_hi perm k va_act (Suc n) =
     (if va_act < va_hi then
        do {
          (pte, _) \<leftarrow> pgdir_walk pgdir va_act False k;
          if pte = None \<or> leer k (the pte) AND (perm OR PTE_P) \<noteq> (perm OR PTE_P) then
            Some (- E_FAULT, k\<lparr>user_mem_check_addr := (if va_act > va_lo then va_act else va_lo)\<rparr>)
          else user_mem_bucle pgdir va_lo va_hi perm k (va_act + PGSIZE) n
        }
      else Some (0, k))"

definition user_mem_check :: "nat \<Rightarrow> uint32 \<Rightarrow> uint32 \<Rightarrow> uint32 \<Rightarrow> kernel \<Rightarrow> (int \<times> kernel) option" where
  "user_mem_check env va len perm k =
     (let va_lo = va; va_hi = ROUNDUP (va + len) PGSIZE in
      if va_hi > UTOP then Some (- E_FAULT, k\<lparr>user_mem_check_addr := va_lo\<rparr>)
      else if \<not> ROUNDDOWN va_lo PGSIZE < va_hi then Some (0, k)
      else do {
        pgdir \<leftarrow> env_pgdir (envs k env);
        user_mem_bucle pgdir va_lo va_hi perm k (ROUNDDOWN va_lo PGSIZE) (2 ^ 20)
      })"

text \<open>\<open>check_va2pa\<close>: the translation the hardware makes, \<open>~0\<close> when there is none.\<close>

definition check_va2pa :: "nat \<Rightarrow> uint32 \<Rightarrow> kernel \<Rightarrow> uint32 option" where
  "check_va2pa pgdir va k =
     (let pde = mem k pgdir (unat (PDX va)) in
      if pde AND PTE_P = 0 then Some (NOT 0)
      else if pde AND PTE_PS \<noteq> 0 then Some (PGADDR (PDX pde) (PTX va) (PGOFF va))
      else do {
        p \<leftarrow> KADDR k (PTE_ADDR pde);
        if mem k p (unat (PTX va)) AND PTE_P = 0 then Some (NOT 0)
        else Some (PTE_ADDR (mem k p (unat (PTX va))))
      })"

section \<open>The list of free pages\<close>

definition sacar_pagina :: "kernel \<Rightarrow> (nat \<times> kernel) option" where
  "sacar_pagina k = (case page_alloc True k of Some (Some p, k') \<Rightarrow> Some (p, k') | _ \<Rightarrow> None)"

interpretation pag: lista_libre page_free_list "\<lambda>k p. pp_link (pages k p)" sacar_pagina page_free
proof unfold_locales
  fix s s' x y
  show "sacar_pagina s = Some (x, s') \<Longrightarrow> page_free_list s = Some x"
    "sacar_pagina s = Some (x, s') \<Longrightarrow> page_free_list s' = pp_link (pages s x)"
    "sacar_pagina s = Some (x, s') \<Longrightarrow> y \<noteq> x \<Longrightarrow> pp_link (pages s' y) = pp_link (pages s y)"
    by (auto simp: sacar_pagina_def page_alloc_def Let_def split: option.splits)
  show "page_free x s = Some s' \<Longrightarrow> page_free_list s' = Some x"
    "page_free x s = Some s' \<Longrightarrow> pp_link (pages s' x) = page_free_list s"
    "page_free x s = Some s' \<Longrightarrow> y \<noteq> x \<Longrightarrow> pp_link (pages s' y) = pp_link (pages s y)"
    by (auto simp: page_free_def split: if_splits)
qed

section \<open>What the page functions leave alone\<close>

text \<open>Only memory, page descriptors, the free list and the TLB differ.\<close>

definition solo_vm :: "kernel \<Rightarrow> kernel \<Rightarrow> bool" where
  "solo_vm k k' \<longleftrightarrow> k' = k\<lparr>mem := mem k', pages := pages k', page_free_list := page_free_list k', tlb := tlb k'\<rparr>"

lemma solo_vmD:
  assumes "solo_vm k k'"
  shows "npages k' = npages k" "envs k' = envs k" "curenv k' = curenv k" "kern_pgdir k' = kern_pgdir k"
    "env_free_list k' = env_free_list k" "cr3 k' = cr3 k" "last_env k' = last_env k"
    "sched_time k' = sched_time k" "sched_calls k' = sched_calls k" "env_executed k' = env_executed k"
    "cpu_id k' = cpu_id k" "cpu_halted k' = cpu_halted k" "user_mem_check_addr k' = user_mem_check_addr k"
proof -
  have k': "k' = k\<lparr>mem := mem k', pages := pages k', page_free_list := page_free_list k', tlb := tlb k'\<rparr>"
    using assms unfolding solo_vm_def .
  show "npages k' = npages k" "envs k' = envs k" "curenv k' = curenv k" "kern_pgdir k' = kern_pgdir k"
    "env_free_list k' = env_free_list k" "cr3 k' = cr3 k" "last_env k' = last_env k"
    "sched_time k' = sched_time k" "sched_calls k' = sched_calls k" "env_executed k' = env_executed k"
    "cpu_id k' = cpu_id k" "cpu_halted k' = cpu_halted k" "user_mem_check_addr k' = user_mem_check_addr k"
    by (subst k', simp)+
qed

lemma solo_vm_refl [simp]: "solo_vm k k"
  by (simp add: solo_vm_def)

lemma solo_vm_trans: "solo_vm a b \<Longrightarrow> solo_vm b c \<Longrightarrow> solo_vm a c"
  by (simp add: solo_vm_def) (cases a; cases b; cases c; simp)

lemma solo_vm_pasos [simp]:
  "solo_vm k (escribir f i v k')  = solo_vm k k'"
  "solo_vm k (con_page p g k') = solo_vm k k'"
  "solo_vm k (pp_ref_inc p k') = solo_vm k k'"
  "solo_vm k (k'\<lparr>page_free_list := x\<rparr>) = solo_vm k k'"
  "solo_vm k (k'\<lparr>tlb := y\<rparr>) = solo_vm k k'"
  by (cases k; cases k'; simp add: solo_vm_def escribir_def con_page_def pp_ref_inc_def)+

lemma solo_vm_tlb [simp]: "solo_vm k (tlb_invalidate pd va k') = solo_vm k k'"
  by (simp add: tlb_invalidate_def split: option.splits)

lemma page_alloc_solo: "page_alloc zero k = Some (r, k') \<Longrightarrow> solo_vm k k'"
  by (auto simp: page_alloc_def Let_def solo_vm_def con_page_def split: option.splits if_splits)

lemma page_free_solo: "page_free p k = Some k' \<Longrightarrow> solo_vm k k'"
  by (auto simp: page_free_def split: if_splits)

lemma page_decref_solo:
  assumes "page_decref p k = Some k'"
  shows "solo_vm k k'"
proof -
  let ?k1 = "con_page p (\<lambda>r. r\<lparr>pp_ref := pp_ref r - 1\<rparr>) k"
  have s: "solo_vm k ?k1" by simp
  have "k' = ?k1 \<or> solo_vm ?k1 k'"
    using assms page_free_solo [of p ?k1 k'] by (auto simp: page_decref_def Let_def split: if_splits)
  then show ?thesis
  proof
    assume "k' = ?k1"
    with s show ?thesis by simp
  qed (rule solo_vm_trans [OF s])
qed

lemma pgdir_walk_solo:
  assumes "pgdir_walk pd va create k = Some (r, k')"
  shows "solo_vm k k'" "\<not> create \<Longrightarrow> k' = k"
proof -
  show "\<not> create \<Longrightarrow> k' = k"
    using assms by (auto simp: pgdir_walk_def Let_def split: if_splits bind_splits)
  show "solo_vm k k'"
    using assms page_alloc_solo [of True k]
    by (auto simp: pgdir_walk_def Let_def split: if_splits bind_splits option.splits)
qed

lemma page_remove_solo:
  assumes "page_remove pd va k = Some k'"
  shows "solo_vm k k'"
proof -
  have d: "page_decref p k = Some k1 \<Longrightarrow> solo_vm k k1" for p k1 by (rule page_decref_solo)
  show ?thesis
    using assms
    by (auto simp: page_remove_def split: if_splits bind_splits option.splits dest!: d)
qed

lemma page_insert_solo:
  assumes "page_insert pd pp va perm k = Some (r, k')"
  shows "solo_vm k k'"
proof -
  obtain pte k1 where w: "pgdir_walk pd va True k = Some (pte, k1)"
    using assms by (auto simp: page_insert_def split: bind_splits)
  note s1 = pgdir_walk_solo(1) [OF w]
  have rm: "page_remove pd va (pp_ref_inc pp k1) = Some k2 \<Longrightarrow> solo_vm k k2" for k2
    using page_remove_solo [of pd va "pp_ref_inc pp k1" k2] solo_vm_trans [of k "pp_ref_inc pp k1" k2] s1 by simp
  show ?thesis
    using assms s1 by (auto simp: page_insert_def w split: option.splits bind_splits dest!: rm)
qed

end
