(* ===== verification/Env.thy ===== *)
theory Env
  imports Pmap
begin

text \<open>
  Environments: \<open>TP2-sched/kern/env.c\<close>. \<^term>\<open>None\<close> is a panic or an access through a null
  pointer. \<open>env_run\<close> and what calls it do not return: their result is where control goes
  (\<open>destino\<close>) and the kernel left behind. Loading the CPU's registers and printing are
  left out; \<open>env_destroy\<close>, which may reschedule, is in \<open>Sched\<close>.
\<close>

datatype destino = Usuario nat | Detenido | Monitor_kernel

section \<open>Finding an environment\<close>

text \<open>\<open>envid2env\<close>: the error code and what is stored in \<open>*env_store\<close>.\<close>

definition envid2env :: "uint32 \<Rightarrow> bool \<Rightarrow> kernel \<Rightarrow> (int \<times> nat option) option" where
  "envid2env envid checkperm k =
     (if envid = 0 then Some (0, curenv k)
      else
        let e = ENVX envid in
        if env_status (envs k e) = ENV_FREE \<or> env_id (envs k e) \<noteq> envid then Some (- E_BAD_ENV, None)
        else if checkperm \<and> curenv k \<noteq> Some e then
          (case curenv k of
             None \<Rightarrow> None
           | Some c \<Rightarrow>
               if env_parent_id (envs k e) \<noteq> env_id (envs k c) then Some (- E_BAD_ENV, None)
               else Some (0, Some e))
        else Some (0, Some e))"

section \<open>The table of environments\<close>

definition env_init :: "kernel \<Rightarrow> kernel" where
  "env_init k =
     k\<lparr>envs := (\<lambda>i. if i < NENV
         then (envs k i)\<lparr>env_id := 0, env_status := ENV_FREE,
                env_link := (if i = NENV - 1 then None else Some (i + 1))\<rparr>
         else envs k i),
       env_free_list := Some 0\<rparr>"

text \<open>\<open>env_setup_vm\<close>: a page directory copied from \<open>kern_pgdir\<close>, mapping itself at \<open>UVPT\<close>.\<close>

definition env_setup_vm :: "nat \<Rightarrow> kernel \<Rightarrow> (int \<times> kernel) option" where
  "env_setup_vm e k =
     do {
       (p, k1) \<leftarrow> page_alloc True k;
       case p of
         None \<Rightarrow> Some (- E_NO_MEM, k1)
       | Some p \<Rightarrow>
           do {
             dir \<leftarrow> page2kva k1 p;
             let k2 = con_env e (\<lambda>r. r\<lparr>env_pgdir := Some dir\<rparr>) k1;
             let k3 = k2\<lparr>mem := (mem k2)(dir := mem k2 (kern_pgdir k2))\<rparr>;
             let k4 = pp_ref_inc p k3;
             Some (0, escribir dir (unat (PDX UVPT)) (page2pa dir OR PTE_P OR PTE_U) k4)
           }
     }"

text \<open>The identifier of the next environment in slot \<open>i\<close> whose last one was \<open>previo\<close>.\<close>

definition nuevo_env_id :: "uint32 \<Rightarrow> nat \<Rightarrow> uint32" where
  "nuevo_env_id previo i =
     (let generation = (previo + push_bit 12 1) AND NOT (word_of_nat (NENV - 1)) in
      let generation = (if sint generation \<le> 0 then push_bit 12 1 else generation)
      in generation OR word_of_nat i)"

definition tf_inicial :: trapframe where
  "tf_inicial = tf_cero\<lparr>tf_ds := 0x23, tf_es := 0x23, tf_ss := 0x23, tf_esp := USTACKTOP,
     tf_cs := 0x1B, tf_eflags := 0x200\<rparr>"

definition env_alloc :: "uint32 \<Rightarrow> kernel \<Rightarrow> (int \<times> nat option \<times> kernel) option" where
  "env_alloc parent_id k =
     (case env_free_list k of
        None \<Rightarrow> Some (- E_NO_FREE_ENV, None, k)
      | Some e \<Rightarrow>
          do {
            (r, k1) \<leftarrow> env_setup_vm e k;
            if r < 0 then Some (r, None, k1)
            else
              let k2 = con_env e (\<lambda>x. x\<lparr>env_id := nuevo_env_id (env_id x) e, env_parent_id := parent_id,
                         env_type := 0, env_status := ENV_RUNNABLE, env_runs := 0, env_priority := 0,
                         env_tf := tf_inicial, env_pgfault_upcall := 0, env_ipc_recving := False\<rparr>) k1
              in Some (0, Some e, k2\<lparr>env_free_list := env_link (envs k2 e)\<rparr>)
          })"

text \<open>\<open>region_alloc\<close>; the last argument bounds the iterations, \<open>2 ^ 20\<close> pages being all there are.\<close>

fun region_bucle :: "nat \<Rightarrow> uint32 \<Rightarrow> uint32 \<Rightarrow> kernel \<Rightarrow> nat \<Rightarrow> kernel option" where
  "region_bucle pgdir va_act va_hi k 0 = None"
| "region_bucle pgdir va_act va_hi k (Suc n) =
     (if va_act < va_hi then
        do {
          (p, k1) \<leftarrow> page_alloc False k;
          p \<leftarrow> p;
          (r, k2) \<leftarrow> page_insert pgdir p va_act (PTE_U OR PTE_W) k1;
          if r \<noteq> 0 then None else region_bucle pgdir (va_act + PGSIZE) va_hi k2 n
        }
      else Some k)"

definition region_alloc :: "nat \<Rightarrow> uint32 \<Rightarrow> uint32 \<Rightarrow> kernel \<Rightarrow> kernel option" where
  "region_alloc e va len k =
     (let va_lo = ROUNDDOWN va PGSIZE; va_hi = ROUNDUP (va + len) PGSIZE in
      if va_hi > UTOP then None
      else if \<not> va_lo < va_hi then Some k
      else do { pgdir \<leftarrow> env_pgdir (envs k e); region_bucle pgdir va_lo va_hi k (2 ^ 20) })"

section \<open>Freeing an environment\<close>

text \<open>The entries \<open>js\<close> of the table at page \<open>pt\<close>, then the table.\<close>

fun env_free_entradas :: "nat \<Rightarrow> nat \<Rightarrow> nat \<Rightarrow> nat list \<Rightarrow> kernel \<Rightarrow> kernel option" where
  "env_free_entradas pgdir pt i [] k = Some k"
| "env_free_entradas pgdir pt i (j # js) k =
     do {
       k1 \<leftarrow> (if mem k pt j AND PTE_P \<noteq> 0
              then page_remove pgdir (PGADDR (word_of_nat i) (word_of_nat j) 0) k else Some k);
       env_free_entradas pgdir pt i js k1
     }"

fun env_free_tablas :: "nat \<Rightarrow> nat list \<Rightarrow> kernel \<Rightarrow> kernel option" where
  "env_free_tablas pgdir [] k = Some k"
| "env_free_tablas pgdir (i # is) k =
     (if mem k pgdir i AND PTE_P = 0 then env_free_tablas pgdir is k
      else do {
        let pa = PTE_ADDR (mem k pgdir i);
        pt \<leftarrow> KADDR k pa;
        k1 \<leftarrow> env_free_entradas pgdir pt i [0..<1024] k;
        p \<leftarrow> pa2page k1 pa;
        k2 \<leftarrow> page_decref p (escribir pgdir i 0 k1);
        env_free_tablas pgdir is k2
      })"

definition env_free :: "nat \<Rightarrow> kernel \<Rightarrow> kernel option" where
  "env_free e k =
     (let k0 = (if curenv k = Some e then k\<lparr>cr3 := kern_pgdir k\<rparr> else k) in
      do {
        pgdir \<leftarrow> env_pgdir (envs k0 e);
        k1 \<leftarrow> env_free_tablas pgdir [0..<unat (PDX UTOP)] k0;
        let k2 = con_env e (\<lambda>r. r\<lparr>env_pgdir := None\<rparr>) k1;
        p \<leftarrow> pa2page k2 (page2pa pgdir);
        k3 \<leftarrow> page_decref p k2;
        Some ((con_env e (\<lambda>r. r\<lparr>env_status := ENV_FREE, env_link := env_free_list k3\<rparr>) k3)
                \<lparr>env_free_list := Some e\<rparr>)
      })"

section \<open>Running an environment\<close>

definition env_run :: "nat \<Rightarrow> kernel \<Rightarrow> (destino \<times> kernel) option" where
  "env_run e k =
     (let k1 = (case curenv k of
                  Some c \<Rightarrow>
                    if env_status (envs k c) = ENV_RUNNING \<and> c \<noteq> e
                    then con_env c (\<lambda>r. r\<lparr>env_status := ENV_RUNNABLE\<rparr>) k else k
                | None \<Rightarrow> k);
          k2 = con_env e (\<lambda>r. r\<lparr>env_status := ENV_RUNNING, env_runs := env_runs r + 1\<rparr>) (k1\<lparr>curenv := Some e\<rparr>)
      in do {
           pgdir \<leftarrow> env_pgdir (envs k2 e);
           Some (Usuario e, con_env e (\<lambda>r. r\<lparr>env_cpunum := cpu_id k2\<rparr>) (k2\<lparr>cr3 := pgdir\<rparr>))
         })"

section \<open>The list of free environments\<close>

definition sacar_env :: "kernel \<Rightarrow> (nat \<times> kernel) option" where
  "sacar_env k = (case env_alloc 0 k of Some (_, Some e, k') \<Rightarrow> Some (e, k') | _ \<Rightarrow> None)"

text \<open>The functions of this file change the environments only where they say so.\<close>

lemma env_setup_vm_envs:
  assumes "env_setup_vm e k = Some (r, k')"
  shows "env_free_list k' = env_free_list k" "curenv k' = curenv k"
    "\<exists>d. envs k' = (envs k)(e := (envs k e)\<lparr>env_pgdir := d\<rparr>)"
proof -
  obtain p k1 where a: "page_alloc True k = Some (p, k1)"
    using assms by (auto simp: env_setup_vm_def split: bind_splits)
  note s = solo_vmD [OF page_alloc_solo [OF a]]
  have id: "\<exists>d. envs k = (envs k)(e := (envs k e)\<lparr>env_pgdir := d\<rparr>)"
    by (rule exI [of _ "env_pgdir (envs k e)"]) simp
  show "env_free_list k' = env_free_list k" "curenv k' = curenv k"
    "\<exists>d. envs k' = (envs k)(e := (envs k e)\<lparr>env_pgdir := d\<rparr>)"
    using assms s id
    by (auto simp: env_setup_vm_def a Let_def pp_ref_inc_def con_env_def split: option.splits bind_splits)
qed

lemma env_free_entradas_solo:
  "env_free_entradas pgdir pt i js k = Some k' \<Longrightarrow> solo_vm k k'"
proof (induction js arbitrary: k)
  case (Cons j js)
  then obtain k1 where k1: "env_free_entradas pgdir pt i js k1 = Some k'"
    "k1 = k \<or> page_remove pgdir (PGADDR (word_of_nat i) (word_of_nat j) 0) k = Some k1"
    by (auto split: bind_splits if_splits)
  then have "solo_vm k k1" using page_remove_solo by auto
  with Cons.IH [OF k1(1)] show ?case by (blast intro: solo_vm_trans)
qed simp

lemma env_free_tablas_solo:
  "env_free_tablas pgdir is k = Some k' \<Longrightarrow> solo_vm k k'"
proof (induction "is" arbitrary: k)
  case (Cons i "is")
  show ?case
  proof (cases "mem k pgdir i AND PTE_P = 0")
    case True
    with Cons show ?thesis by simp
  next
    case False
    with Cons.prems obtain pt k1 p k2 where k: "env_free_entradas pgdir pt i [0..<1024] k = Some k1"
      "page_decref p (escribir pgdir i 0 k1) = Some k2" "env_free_tablas pgdir is k2 = Some k'"
      by (auto simp: Let_def split: bind_splits)
    have "solo_vm k (escribir pgdir i 0 k1)" using env_free_entradas_solo [OF k(1)] by simp
    with page_decref_solo [OF k(2)] Cons.IH [OF k(3)] show ?thesis by (blast intro: solo_vm_trans)
  qed
qed simp

lemma env_free_envs:
  assumes "env_free e k = Some k'"
  shows "env_free_list k' = Some e" "curenv k' = curenv k"
    "envs k' = (envs k)(e := (envs k e)\<lparr>env_pgdir := None, env_status := ENV_FREE, env_link := env_free_list k\<rparr>)"
proof -
  let ?kz = "if curenv k = Some e then k\<lparr>cr3 := kern_pgdir k\<rparr> else k"
  from assms obtain pgdir k1 p k3 where s: "env_free_tablas pgdir [0..<unat (PDX UTOP)] ?kz = Some k1"
    "page_decref p (con_env e (\<lambda>r. r\<lparr>env_pgdir := None\<rparr>) k1) = Some k3"
    "k' = (con_env e (\<lambda>r. r\<lparr>env_status := ENV_FREE, env_link := env_free_list k3\<rparr>) k3)\<lparr>env_free_list := Some e\<rparr>"
    by (auto simp: env_free_def Let_def split: bind_splits simp del: env_free_tablas.simps)
  note s1 = solo_vmD [OF env_free_tablas_solo [OF s(1)]] and s3 = solo_vmD [OF page_decref_solo [OF s(2)]]
  have "envs ?kz = envs k" "env_free_list ?kz = env_free_list k" "curenv ?kz = curenv k" by simp_all
  with s1 s3 show "env_free_list k' = Some e" "curenv k' = curenv k"
    "envs k' = (envs k)(e := (envs k e)\<lparr>env_pgdir := None, env_status := ENV_FREE, env_link := env_free_list k\<rparr>)"
    by (simp_all add: s(3) con_env_def)
qed

lemma env_alloc_envs:
  assumes "env_alloc parent k = Some (r, Some e, k')"
  shows "r = 0" "env_free_list k = Some e" "env_free_list k' = env_link (envs k e)" "curenv k' = curenv k"
    "\<exists>d. envs k' = (envs k)(e := (envs k e)\<lparr>env_pgdir := d,
       env_id := nuevo_env_id (env_id (envs k e)) e, env_parent_id := parent,
       env_type := 0, env_status := ENV_RUNNABLE, env_runs := 0, env_priority := 0,
       env_tf := tf_inicial, env_pgfault_upcall := 0, env_ipc_recving := False\<rparr>)"
proof -
  from assms obtain k1 r1 where k1: "env_setup_vm e k = Some (r1, k1)" "env_free_list k = Some e" "r = 0"
    "k' = (let k2 = con_env e (\<lambda>x. x\<lparr>env_id := nuevo_env_id (env_id x) e, env_parent_id := parent,
                         env_type := 0, env_status := ENV_RUNNABLE, env_runs := 0, env_priority := 0,
                         env_tf := tf_inicial, env_pgfault_upcall := 0, env_ipc_recving := False\<rparr>) k1
              in k2\<lparr>env_free_list := env_link (envs k2 e)\<rparr>)"
    by (auto simp: env_alloc_def Let_def split: option.splits bind_splits if_splits)
  from env_setup_vm_envs [OF k1(1)] obtain d where
    d: "env_free_list k1 = env_free_list k" "curenv k1 = curenv k" "envs k1 = (envs k)(e := (envs k e)\<lparr>env_pgdir := d\<rparr>)"
    by blast
  show "r = 0" "env_free_list k = Some e" by fact+
  show "env_free_list k' = env_link (envs k e)" "curenv k' = curenv k"
    by (simp_all add: k1(4) Let_def d)
  show "\<exists>d. envs k' = (envs k)(e := (envs k e)\<lparr>env_pgdir := d,
       env_id := nuevo_env_id (env_id (envs k e)) e, env_parent_id := parent,
       env_type := 0, env_status := ENV_RUNNABLE, env_runs := 0, env_priority := 0,
       env_tf := tf_inicial, env_pgfault_upcall := 0, env_ipc_recving := False\<rparr>)"
    by (rule exI [of _ d]) (simp add: k1(4) Let_def d con_env_def)
qed

interpretation amb: lista_libre env_free_list "\<lambda>k e. env_link (envs k e)" sacar_env env_free
proof unfold_locales
  fix s s' x y
  assume "sacar_env s = Some (x, s')"
  then obtain r where "env_alloc 0 s = Some (r, Some x, s')"
    by (auto simp: sacar_env_def split: option.splits)
  note a = env_alloc_envs [OF this]
  from a(5) obtain d where e: "envs s' = (envs s)(x := (envs s x)\<lparr>env_pgdir := d,
       env_id := nuevo_env_id (env_id (envs s x)) x, env_parent_id := 0,
       env_type := 0, env_status := ENV_RUNNABLE, env_runs := 0, env_priority := 0,
       env_tf := tf_inicial, env_pgfault_upcall := 0, env_ipc_recving := False\<rparr>)" by blast
  show "env_free_list s = Some x" "env_free_list s' = env_link (envs s x)" by fact+
  show "y \<noteq> x \<Longrightarrow> env_link (envs s' y) = env_link (envs s y)" by (simp add: e)
next
  fix s s' x y
  assume "env_free x s = Some s'"
  note f = env_free_envs [OF this]
  show "env_free_list s' = Some x" "env_link (envs s' x) = env_free_list s"
    "y \<noteq> x \<Longrightarrow> env_link (envs s' y) = env_link (envs s y)"
    by (simp_all add: f)
qed

end
