(* ===== verification/Sched.thy ===== *)
theory Sched
  imports Env
begin

text \<open>
  The scheduler: \<open>TP2-sched/kern/sched.c\<close>, with the two policies the build chooses from
  (\<open>SCHED_ROUND_ROBIN\<close>, \<open>SCHED_PRIORITIES\<close>) and the code left without either. Printing the
  statistics is left out. \<open>sched_halt\<close> either falls into the kernel monitor for good or
  halts this CPU. \<open>env_destroy\<close>, which calls the scheduler, is here too.
\<close>

datatype planificador = SCHED_ROUND_ROBIN | SCHED_PRIORITIES | SIN_PLANIFICADOR

definition PRIORIDAD_MIN :: int where "PRIORIDAD_MIN = 1"
definition PRIORIDAD_MAX :: int where "PRIORIDAD_MAX = 10"

section \<open>Statistics and halting\<close>

definition actualizar_stats_proceso :: "nat \<Rightarrow> kernel \<Rightarrow> kernel" where
  "actualizar_stats_proceso e k =
     (let k1 = con_env e (\<lambda>r. r\<lparr>env_count := env_count r + 1\<rparr>) k;
          k2 = (if env_runs (envs k1 e) = 0
                then con_env e (\<lambda>r. r\<lparr>env_start_time := sched_time k1\<rparr>)
                       (k1\<lparr>env_executed := env_executed k1 + 1\<rparr>)
                else k1)
      in con_env e (\<lambda>r. r\<lparr>env_runs := env_runs r + 1\<rparr>) k2)"

text \<open>The closing time of the environment that ran before, when it is no longer running.\<close>

definition anotar_fin :: "kernel \<Rightarrow> kernel" where
  "anotar_fin k =
     (case last_env k of
        None \<Rightarrow> k
      | Some l \<Rightarrow>
          if last_env k \<noteq> curenv k \<and> env_status (envs k l) \<noteq> ENV_RUNNING
          then con_env l (\<lambda>r. r\<lparr>env_finish_time := sched_time k\<rparr>) k else k)"

definition sched_halt :: "kernel \<Rightarrow> destino \<times> kernel" where
  "sched_halt k =
     (if primer_indice (\<lambda>i. env_status (envs k i) = ENV_RUNNABLE \<or> env_status (envs k i) = ENV_RUNNING
           \<or> env_status (envs k i) = ENV_DYING) NENV = None
      then (Monitor_kernel, k)
      else (Detenido, k\<lparr>curenv := None, last_env := None, cr3 := kern_pgdir k, cpu_halted := True\<rparr>))"

section \<open>Priorities\<close>

text \<open>One iteration of the search: the chosen environment and its priority so far.\<close>

definition elegir_paso :: "kernel \<Rightarrow> nat \<Rightarrow> nat \<Rightarrow> nat option \<times> int \<Rightarrow> nat option \<times> int" where
  "elegir_paso k inicio i s =
     (let ind = (i + inicio) mod NENV in
      if env_status (envs k ind) = ENV_RUNNABLE then
        if sint (env_priority (envs k ind)) < snd s
        then (Some ind, sint (env_priority (envs k ind))) else s
      else s)"

definition elegir :: "kernel \<Rightarrow> nat \<Rightarrow> nat option" where
  "elegir k inicio = fst (fold (elegir_paso k inicio) [0..<NENV] (None, PRIORIDAD_MAX + 1))"

definition subir_prioridad :: "nat \<Rightarrow> kernel \<Rightarrow> kernel" where
  "subir_prioridad e k =
     (if sint (env_priority (envs k e)) = PRIORIDAD_MAX then
        k\<lparr>envs := (\<lambda>i. if i < NENV \<and> env_status (envs k i) = ENV_RUNNABLE
                        then (envs k i)\<lparr>env_priority := word_of_int PRIORIDAD_MIN\<rparr> else envs k i)\<rparr>
      else if env_runs (envs k e) > 0 then con_env e (\<lambda>r. r\<lparr>env_priority := env_priority r + 1\<rparr>) k
      else k)"

definition sched_prioridades :: "kernel \<Rightarrow> (destino \<times> kernel) option" where
  "sched_prioridades k =
     (let inicio = (case curenv k of None \<Rightarrow> 0 | Some c \<Rightarrow> ENVX (env_id (envs k c)) + 1);
          k1 = anotar_fin (k\<lparr>sched_time := sched_time k + 1\<rparr>)
      in case elegir k1 inicio of
           Some e \<Rightarrow>
             let k2 = actualizar_stats_proceso e (subir_prioridad e k1)
             in env_run e (k2\<lparr>last_env := Some e\<rparr>)
         | None \<Rightarrow>
             (case curenv k1 of
                Some c \<Rightarrow>
                  if env_status (envs k1 c) = ENV_RUNNING \<and> env_cpunum (envs k1 c) = cpu_id k1
                  then env_run c (k1\<lparr>last_env := Some c\<rparr>)
                  else Some (sched_halt k1)
              | None \<Rightarrow> Some (sched_halt k1)))"

section \<open>Round robin and the entry point\<close>

definition siguiente_rr :: "kernel \<Rightarrow> nat \<Rightarrow> nat option" where
  "siguiente_rr k desde =
     map_option (\<lambda>i. (desde + i) mod NENV)
       (primer_indice (\<lambda>i. env_status (envs k ((desde + i) mod NENV)) = ENV_RUNNABLE) NENV)"

definition sched_round_robin :: "kernel \<Rightarrow> (destino \<times> kernel) option" where
  "sched_round_robin k =
     (let k1 = anotar_fin k;
          env_anterior = (case curenv k1 of None \<Rightarrow> 0 | Some c \<Rightarrow> c) mod NENV
      in case siguiente_rr k1 env_anterior of
           Some e \<Rightarrow> env_run e (k1\<lparr>last_env := Some e\<rparr>)
         | None \<Rightarrow>
             (case curenv k1 of
                Some c \<Rightarrow>
                  if env_status (envs k1 c) = ENV_RUNNING then env_run c (k1\<lparr>last_env := Some c\<rparr>)
                  else Some (sched_halt (k1\<lparr>last_env := None\<rparr>))
              | None \<Rightarrow> Some (sched_halt (k1\<lparr>last_env := None\<rparr>))))"

definition sched_yield :: "planificador \<Rightarrow> kernel \<Rightarrow> (destino \<times> kernel) option" where
  "sched_yield plan k =
     (let k1 = k\<lparr>sched_calls := sched_calls k + 1, sched_time := sched_time k + 1\<rparr> in
      case plan of
        SCHED_ROUND_ROBIN \<Rightarrow> sched_round_robin k1
      | SCHED_PRIORITIES \<Rightarrow> sched_prioridades k1
      | SIN_PLANIFICADOR \<Rightarrow>
          (case curenv k1 of
             Some c \<Rightarrow> env_run c (k1\<lparr>last_env := Some c\<rparr>)
           | None \<Rightarrow> Some (sched_halt k1)))"

section \<open>Destroying an environment\<close>

text \<open>
  What a kernel call does: it returns a value, or control goes elsewhere for good, or the
  kernel panics.
\<close>

datatype 'a res = Ret 'a kernel | Va destino kernel | Panico

definition va_a :: "(destino \<times> kernel) option \<Rightarrow> 'a res" where
  "va_a r = (case r of None \<Rightarrow> Panico | Some (d, k) \<Rightarrow> Va d k)"

fun luego :: "'a res \<Rightarrow> ('a \<Rightarrow> kernel \<Rightarrow> 'b res) \<Rightarrow> 'b res" where
  "luego (Ret a k) f = f a k"
| "luego (Va d k) f = Va d k"
| "luego Panico f = Panico"

definition de_opcion :: "('a \<times> kernel) option \<Rightarrow> 'a res" where
  "de_opcion r = (case r of None \<Rightarrow> Panico | Some (a, k) \<Rightarrow> Ret a k)"

definition env_destroy :: "planificador \<Rightarrow> nat \<Rightarrow> kernel \<Rightarrow> unit res" where
  "env_destroy plan e k =
     (if env_status (envs k e) = ENV_RUNNING \<and> curenv k \<noteq> Some e
      then Ret () (con_env e (\<lambda>r. r\<lparr>env_status := ENV_DYING\<rparr>) k)
      else
        case env_free e k of
          None \<Rightarrow> Panico
        | Some k1 \<Rightarrow>
            if curenv k1 = Some e then va_a (sched_yield plan (k1\<lparr>curenv := None\<rparr>)) else Ret () k1)"

text \<open>\<open>user_mem_assert\<close> of \<open>kern/pmap.c\<close>: a failed check destroys the environment.\<close>

definition user_mem_assert :: "planificador \<Rightarrow> nat \<Rightarrow> uint32 \<Rightarrow> uint32 \<Rightarrow> uint32 \<Rightarrow> kernel \<Rightarrow> unit res" where
  "user_mem_assert plan env va len perm k =
     (case user_mem_check env va len (perm OR PTE_U) k of
        None \<Rightarrow> Panico
      | Some (r, k1) \<Rightarrow> if r < 0 then env_destroy plan env k1 else Ret () k1)"

end
