(* ===== verification/Syscall.thy ===== *)
theory Syscall
  imports Sched
begin

text \<open>
  The system calls: \<open>TP2-sched/kern/syscall.c\<close>. A call that the user makes always has a
  current environment; a handler that reads it with none panics. Error codes are returned
  as the C functions return them. \<open>cons_getc\<close> (the console) is the argument \<open>tecla\<close>.
\<close>

section \<open>Helpers\<close>

text \<open>\<open>check_perm(perm, pte)\<close>; \<open>pte\<close> is the value of the entry, when there is one.\<close>

definition check_perm :: "uint32 \<Rightarrow> uint32 option \<Rightarrow> int" where
  "check_perm perm pte =
     (if perm AND NOT PTE_SYSCALL \<noteq> 0 then - E_INVAL
      else if perm AND PTE_P = 0 \<or> perm AND PTE_U = 0 then - E_INVAL
      else
        case pte of
          None \<Rightarrow> 0
        | Some v \<Rightarrow>
            if v \<noteq> 0 \<and> v AND PTE_P = 0 then - E_INVAL
            else if perm AND PTE_W \<noteq> 0 \<and> v AND PTE_W = 0 then - E_INVAL
            else 0)"

definition env_page_alloc :: "nat \<Rightarrow> uint32 \<Rightarrow> uint32 \<Rightarrow> kernel \<Rightarrow> (int \<times> kernel) option" where
  "env_page_alloc env va perm k =
     (let err = check_perm perm None in
      if err < 0 then Some (err, k)
      else do {
        (p, k1) \<leftarrow> page_alloc True k;
        case p of
          None \<Rightarrow> Some (- E_NO_MEM, k1)
        | Some p \<Rightarrow> do { pgdir \<leftarrow> env_pgdir (envs k1 env); page_insert pgdir p va perm k1 }
      })"

definition env_page_map :: "nat \<Rightarrow> uint32 \<Rightarrow> nat \<Rightarrow> uint32 \<Rightarrow> uint32 \<Rightarrow> kernel \<Rightarrow> (int \<times> kernel) option" where
  "env_page_map srcenv srcva dstenv dstva perm k =
     do {
       src \<leftarrow> env_pgdir (envs k srcenv);
       lk \<leftarrow> page_lookup src srcva k;
       case lk of
         None \<Rightarrow> Some (- E_INVAL, k)
       | Some (page, srcpte) \<Rightarrow>
           if (perm AND PTE_W) AND NOT (PTE_W AND leer k srcpte) \<noteq> 0 then Some (- E_INVAL, k)
           else do { dst \<leftarrow> env_pgdir (envs k dstenv); page_insert dst page dstva perm k }
     }"

text \<open>A call on an environment found by its identifier.\<close>

definition con_envid :: "uint32 \<Rightarrow> bool \<Rightarrow> kernel \<Rightarrow> (nat \<Rightarrow> int res) \<Rightarrow> int res" where
  "con_envid envid checkperm k f =
     (case envid2env envid checkperm k of
        None \<Rightarrow> Panico
      | Some (r, e) \<Rightarrow> if r \<noteq> 0 then Ret r k else (case e of None \<Rightarrow> Panico | Some e \<Rightarrow> f e))"

definition mala_va :: "uint32 \<Rightarrow> bool" where
  "mala_va va \<longleftrightarrow> va \<ge> UTOP \<or> va mod PGSIZE \<noteq> 0"

section \<open>The calls\<close>

definition sys_cputs :: "planificador \<Rightarrow> uint32 \<Rightarrow> uint32 \<Rightarrow> kernel \<Rightarrow> int res" where
  "sys_cputs plan s len k =
     (case curenv k of
        None \<Rightarrow> Panico
      | Some c \<Rightarrow> luego (user_mem_assert plan c s len (PTE_P OR PTE_W OR PTE_U) k) (\<lambda>_ k'. Ret 0 k'))"

definition sys_cgetc :: "int \<Rightarrow> kernel \<Rightarrow> int res" where
  "sys_cgetc tecla k = Ret tecla k"

definition sys_getenvid :: "kernel \<Rightarrow> int res" where
  "sys_getenvid k = (case curenv k of None \<Rightarrow> Panico | Some c \<Rightarrow> Ret (sint (env_id (envs k c))) k)"

definition sys_env_destroy :: "planificador \<Rightarrow> uint32 \<Rightarrow> kernel \<Rightarrow> int res" where
  "sys_env_destroy plan envid k =
     con_envid envid True k (\<lambda>e. luego (env_destroy plan e k) (\<lambda>_ k'. Ret 0 k'))"

definition sys_yield :: "planificador \<Rightarrow> kernel \<Rightarrow> int res" where
  "sys_yield plan k = va_a (sched_yield plan k)"

definition sys_exofork :: "kernel \<Rightarrow> int res" where
  "sys_exofork k =
     (case curenv k of
        None \<Rightarrow> Panico
      | Some c \<Rightarrow>
          (case env_alloc (env_id (envs k c)) k of
             None \<Rightarrow> Panico
           | Some (r, newenv, k1) \<Rightarrow>
               if r \<noteq> 0 then Ret r k1
               else
                 case newenv of
                   None \<Rightarrow> Panico
                 | Some n \<Rightarrow>
                     let padre = envs k1 c;
                         tf = env_tf padre;
                         k2 = con_env n (\<lambda>x. x\<lparr>env_status := ENV_NOT_RUNNABLE,
                                env_tf := tf\<lparr>tf_regs := (tf_regs tf)\<lparr>reg_eax := 0\<rparr>\<rparr>,
                                env_priority := env_priority padre\<rparr>) k1
                     in Ret (sint (env_id (envs k2 n))) k2))"

text \<open>The status argument: the C code compares it with the two values of the enumeration.\<close>

definition sys_env_set_status :: "uint32 \<Rightarrow> uint32 \<Rightarrow> kernel \<Rightarrow> int res" where
  "sys_env_set_status envid status k =
     (if status \<noteq> 2 \<and> status \<noteq> 4 then Ret (- E_INVAL) k
      else con_envid envid True k (\<lambda>e. Ret 0
             (con_env e (\<lambda>r. r\<lparr>env_status := (if status = 2 then ENV_RUNNABLE else ENV_NOT_RUNNABLE)\<rparr>) k)))"

definition sys_env_set_pgfault_upcall :: "planificador \<Rightarrow> uint32 \<Rightarrow> uint32 \<Rightarrow> kernel \<Rightarrow> int res" where
  "sys_env_set_pgfault_upcall plan envid func k =
     con_envid envid True k (\<lambda>e.
       luego (user_mem_assert plan e func PGSIZE (PTE_P OR PTE_U) k)
         (\<lambda>_ k'. Ret 0 (con_env e (\<lambda>r. r\<lparr>env_pgfault_upcall := func\<rparr>) k')))"

definition sys_page_alloc :: "uint32 \<Rightarrow> uint32 \<Rightarrow> uint32 \<Rightarrow> kernel \<Rightarrow> int res" where
  "sys_page_alloc envid va perm k =
     (if mala_va va then Ret (- E_INVAL) k
      else con_envid envid True k (\<lambda>e. de_opcion (env_page_alloc e va (perm OR PTE_U OR PTE_P) k)))"

definition sys_page_map :: "uint32 \<Rightarrow> uint32 \<Rightarrow> uint32 \<Rightarrow> uint32 \<Rightarrow> uint32 \<Rightarrow> kernel \<Rightarrow> int res" where
  "sys_page_map srcenvid srcva dstenvid dstva perm k =
     (if mala_va srcva then Ret (- E_INVAL) k
      else if mala_va dstva then Ret (- E_INVAL) k
      else con_envid srcenvid True k (\<lambda>src. con_envid dstenvid True k (\<lambda>dst.
             de_opcion (env_page_map src srcva dst dstva (PTE_P OR PTE_U OR perm) k))))"

definition sys_page_unmap :: "uint32 \<Rightarrow> uint32 \<Rightarrow> kernel \<Rightarrow> int res" where
  "sys_page_unmap envid va k =
     (if mala_va va then Ret (- E_INVAL) k
      else con_envid envid True k (\<lambda>e.
             case env_pgdir (envs k e) of
               None \<Rightarrow> Panico
             | Some pgdir \<Rightarrow> (case page_remove pgdir va k of None \<Rightarrow> Panico | Some k' \<Rightarrow> Ret 0 k')))"

text \<open>The end of a send: the receiver gets the value and can run.\<close>

definition ipc_entregar :: "nat \<Rightarrow> uint32 \<Rightarrow> nat \<Rightarrow> kernel \<Rightarrow> int res" where
  "ipc_entregar dst value c k =
     Ret 0 (con_env dst (\<lambda>r. r\<lparr>env_ipc_from := env_id (envs k c), env_ipc_recving := False,
              env_ipc_value := value, env_tf := (env_tf r)\<lparr>tf_regs := (tf_regs (env_tf r))\<lparr>reg_eax := 0\<rparr>\<rparr>,
              env_status := ENV_RUNNABLE\<rparr>) k)"

text \<open>
  \<open>sys_ipc_try_send\<close>. The entry of \<open>srcva\<close> is read through a pointer that \<open>page_lookup\<close>
  leaves unset when no page is mapped there; that read is the panic of the model.
\<close>

definition sys_ipc_try_send :: "uint32 \<Rightarrow> uint32 \<Rightarrow> uint32 \<Rightarrow> uint32 \<Rightarrow> kernel \<Rightarrow> int res" where
  "sys_ipc_try_send envid value srcva perm k =
     con_envid envid False k (\<lambda>dst.
       if \<not> env_ipc_recving (envs k dst) then Ret (- E_IPC_NOT_RECV) k
       else if srcva < UTOP \<and> srcva mod PGSIZE \<noteq> 0 then Ret (- E_INVAL) k
       else
         case curenv k of
           None \<Rightarrow> Panico
         | Some c \<Rightarrow>
             if srcva \<ge> UTOP then
               ipc_entregar dst value c (con_env dst (\<lambda>r. r\<lparr>env_ipc_perm := 0\<rparr>) k)
             else
               case env_pgdir (envs k c) of
                 None \<Rightarrow> Panico
               | Some pgdir \<Rightarrow>
                   (case page_lookup pgdir srcva k of
                      None \<Rightarrow> Panico
                    | Some None \<Rightarrow> Panico
                    | Some (Some (_, srcpte)) \<Rightarrow>
                        let v = leer k srcpte in
                        if v \<noteq> 0 \<and> v AND PTE_P = 0 then Ret (- E_INVAL) k
                        else if perm AND PTE_W \<noteq> 0 \<and> v AND PTE_W = 0 then Ret (- E_INVAL) k
                        else
                          let perm = perm OR PTE_U OR PTE_P; dstva = env_ipc_dstva (envs k dst) in
                          if dstva = 0 then ipc_entregar dst value c k
                          else luego (de_opcion (env_page_alloc dst dstva perm k)) (\<lambda>r k1.
                                 if r < 0 then Ret r k1
                                 else luego (de_opcion (env_page_map c srcva dst dstva perm k1)) (\<lambda>r k2.
                                   if r < 0 then Ret r k2
                                   else ipc_entregar dst value c
                                          (con_env dst (\<lambda>x. x\<lparr>env_ipc_perm := perm\<rparr>) k2)))))"

definition sys_ipc_recv :: "planificador \<Rightarrow> uint32 \<Rightarrow> kernel \<Rightarrow> int res" where
  "sys_ipc_recv plan dstva k =
     (case curenv k of
        None \<Rightarrow> Panico
      | Some c \<Rightarrow>
          let k1 = con_env c (\<lambda>r. r\<lparr>env_ipc_recving := True\<rparr>) k in
          if mala_va dstva then Ret (- E_INVAL) k1
          else
            let k2 = con_env c (\<lambda>r. r\<lparr>env_ipc_dstva := dstva, env_status := ENV_NOT_RUNNABLE\<rparr>) k1
            in sys_yield plan k2)"

definition sys_obtener_prioridad :: "uint32 \<Rightarrow> kernel \<Rightarrow> int res" where
  "sys_obtener_prioridad envid k =
     (case envid2env envid False k of
        None \<Rightarrow> Panico
      | Some (r, e) \<Rightarrow>
          if r = 0 then (case e of None \<Rightarrow> Panico | Some e \<Rightarrow> Ret (sint (env_priority (envs k e))) k)
          else Ret E_BAD_ENV k)"

definition sys_modificar_prioridad :: "kernel \<Rightarrow> int res" where
  "sys_modificar_prioridad k =
     (case curenv k of
        None \<Rightarrow> Panico
      | Some c \<Rightarrow> Ret 0 (con_env c (\<lambda>r. r\<lparr>env_priority := env_priority r + 1\<rparr>) k))"

section \<open>The dispatcher\<close>

definition syscall :: "planificador \<Rightarrow> int \<Rightarrow> uint32 \<Rightarrow> uint32 \<Rightarrow> uint32 \<Rightarrow> uint32 \<Rightarrow> uint32 \<Rightarrow> uint32
    \<Rightarrow> kernel \<Rightarrow> int res" where
  "syscall plan tecla syscallno a1 a2 a3 a4 a5 k =
     (if syscallno = 0 then sys_cputs plan a1 a2 k
      else if syscallno = 2 then sys_getenvid k
      else if syscallno = 3 then sys_env_destroy plan a1 k
      else if syscallno = 1 then sys_cgetc tecla k
      else if syscallno = 7 then sys_exofork k
      else if syscallno = 8 then sys_env_set_status a1 a2 k
      else if syscallno = 4 then sys_page_alloc a1 a2 a3 k
      else if syscallno = 5 then sys_page_map a1 a2 a3 a4 a5 k
      else if syscallno = 6 then sys_page_unmap a1 a2 k
      else if syscallno = 12 then sys_ipc_recv plan a1 k
      else if syscallno = 11 then sys_ipc_try_send a1 a2 a3 a4 k
      else if syscallno = 9 then sys_env_set_pgfault_upcall plan a1 a2 k
      else if syscallno = 13 then sys_obtener_prioridad a1 k
      else if syscallno = 14 then sys_modificar_prioridad k
      else if syscallno = 10 then sys_yield plan k
      else Ret (- E_INVAL) k)"

end
