(* ===== verification/User_Lib.thy ===== *)
theory User_Lib
  imports Syscall
begin

text \<open>
  The library of user programs: \<open>TP2-sched/lib/fork.c\<close>, \<open>lib/pgfault.c\<close>, \<open>lib/ipc.c\<close> and
  the stubs of \<open>lib/syscall.c\<close>, run by the current environment over the model of the
  kernel. \<^term>\<open>None\<close> means that the program does not go on: it panics, an access faults
  with nothing to resolve it, or the kernel takes the CPU away for good.

  A system call is the kernel's handler on the kernel's state; the trap around it saves and
  restores the registers (\<open>Trap\<close>). Memory is read and written by words, through the page
  tables. The globals of the library that matter are the record \<open>usuario\<close>; local variables
  are the variables of the definitions, so the writes of the compiled code to its own stack
  are not modelled. The addresses of the two functions that the library registers are
  arguments.
\<close>

definition PTE_COW :: uint32 where "PTE_COW = 0x800"
definition PTE_PWT :: uint32 where "PTE_PWT = 0x008"
definition PTE_PCD :: uint32 where "PTE_PCD = 0x010"
definition FEC_WR :: uint32 where "FEC_WR = 0x2"
definition UTEMP :: uint32 where "UTEMP = PTSIZE"
definition PFTEMP :: uint32 where "PFTEMP = UTEMP + PTSIZE - PGSIZE"

lemmas user_flags = PTE_COW_def PTE_PWT_def PTE_PCD_def FEC_WR_def

record usuario =
  thisenv :: nat
  pgfault_handler :: uint32

section \<open>Memory as the program sees it\<close>

text \<open>The translation of the hardware for an access in user mode; \<open>w\<close> asks for a write.\<close>

definition traducir :: "kernel \<Rightarrow> nat \<Rightarrow> bool \<Rightarrow> uint32 \<Rightarrow> nat option" where
  "traducir k pd w va =
     (let pide = (PTE_P OR PTE_U) OR (if w then PTE_W else 0);
          pde = mem k pd (unat (PDX va)); pte = mem k (marco pde) (unat (PTX va))
      in if pde AND pide = pide \<and> pte AND pide = pide then Some (marco pte) else None)"

definition espacio :: "kernel \<Rightarrow> nat option" where
  "espacio k = do { c \<leftarrow> curenv k; env_pgdir (envs k c) }"

definition leer_usuario :: "kernel \<Rightarrow> uint32 \<Rightarrow> uint32 option" where
  "leer_usuario k va =
     do { pd \<leftarrow> espacio k; f \<leftarrow> traducir k pd False va; Some (mem k f (unat (PGOFF va) div 4)) }"

text \<open>\<open>uvpt[n]\<close> and \<open>uvpd[n]\<close>: the page tables seen through the directory's own entry.\<close>

definition uvpt :: "kernel \<Rightarrow> uint32 \<Rightarrow> uint32 option" where
  "uvpt k n = leer_usuario k (UVPT + 4 * n)"

definition uvpd :: "kernel \<Rightarrow> uint32 \<Rightarrow> uint32 option" where
  "uvpd k n = leer_usuario k (UVPT + drop_bit 12 UVPT * 4 + 4 * n)"

text \<open>\<open>memmove(dst, src, PGSIZE)\<close> between two pages.\<close>

definition copiar_pagina :: "uint32 \<Rightarrow> uint32 \<Rightarrow> kernel \<Rightarrow> kernel option" where
  "copiar_pagina dst src k =
     do { pd \<leftarrow> espacio k; fs \<leftarrow> traducir k pd False src; fd \<leftarrow> traducir k pd True dst;
          Some (k\<lparr>mem := (mem k)(fd := mem k fs)\<rparr>) }"

section \<open>System calls\<close>

text \<open>\<open>check\<close> makes a positive result a panic.\<close>

definition int_syscall :: "planificador \<Rightarrow> uint32 \<Rightarrow> bool \<Rightarrow> uint32 \<Rightarrow> uint32 \<Rightarrow> uint32 \<Rightarrow> uint32 \<Rightarrow> uint32
    \<Rightarrow> kernel \<Rightarrow> (int \<times> kernel) option" where
  "int_syscall plan num check a1 a2 a3 a4 a5 k =
     (case syscall plan 0 num a1 a2 a3 a4 a5 k of
        Ret r k' \<Rightarrow> if check \<and> r > 0 then None else Some (r, k')
      | Va _ _ \<Rightarrow> None
      | Panico \<Rightarrow> None)"

definition u_getenvid :: "planificador \<Rightarrow> kernel \<Rightarrow> (int \<times> kernel) option" where
  "u_getenvid plan k = int_syscall plan 2 False 0 0 0 0 0 k"

definition u_page_alloc :: "planificador \<Rightarrow> uint32 \<Rightarrow> uint32 \<Rightarrow> uint32 \<Rightarrow> kernel \<Rightarrow> (int \<times> kernel) option" where
  "u_page_alloc plan envid va perm k = int_syscall plan 4 True envid va perm 0 0 k"

definition u_page_map :: "planificador \<Rightarrow> uint32 \<Rightarrow> uint32 \<Rightarrow> uint32 \<Rightarrow> uint32 \<Rightarrow> uint32 \<Rightarrow> kernel
    \<Rightarrow> (int \<times> kernel) option" where
  "u_page_map plan srcenv srcva dstenv dstva perm k = int_syscall plan 5 True srcenv srcva dstenv dstva perm k"

definition u_page_unmap :: "planificador \<Rightarrow> uint32 \<Rightarrow> uint32 \<Rightarrow> kernel \<Rightarrow> (int \<times> kernel) option" where
  "u_page_unmap plan envid va k = int_syscall plan 6 True envid va 0 0 0 k"

definition u_exofork :: "planificador \<Rightarrow> kernel \<Rightarrow> (int \<times> kernel) option" where
  "u_exofork plan k = int_syscall plan 7 False 0 0 0 0 0 k"

definition u_env_set_status :: "planificador \<Rightarrow> uint32 \<Rightarrow> uint32 \<Rightarrow> kernel \<Rightarrow> (int \<times> kernel) option" where
  "u_env_set_status plan envid status k = int_syscall plan 8 True envid status 0 0 0 k"

definition u_env_set_pgfault_upcall :: "planificador \<Rightarrow> uint32 \<Rightarrow> uint32 \<Rightarrow> kernel \<Rightarrow> (int \<times> kernel) option" where
  "u_env_set_pgfault_upcall plan envid upcall k = int_syscall plan 9 True envid upcall 0 0 0 k"

definition u_ipc_try_send :: "planificador \<Rightarrow> uint32 \<Rightarrow> uint32 \<Rightarrow> uint32 \<Rightarrow> uint32 \<Rightarrow> kernel
    \<Rightarrow> (int \<times> kernel) option" where
  "u_ipc_try_send plan envid value srcva perm k = int_syscall plan 11 False envid value srcva perm 0 k"

text \<open>\<open>if ((r = call) < 0) panic(...);\<close>\<close>

definition exigir :: "(int \<times> kernel) option \<Rightarrow> kernel option" where
  "exigir x = do { (r, k) \<leftarrow> x; if r < 0 then None else Some k }"

section \<open>lib/pgfault.c\<close>

definition set_pgfault_handler :: "planificador \<Rightarrow> uint32 \<Rightarrow> uint32 \<Rightarrow> usuario \<Rightarrow> kernel \<Rightarrow> (usuario \<times> kernel) option" where
  "set_pgfault_handler plan upcall handler u k =
     (if pgfault_handler u = 0 then
        do {
          (r, k1) \<leftarrow> u_page_alloc plan 0 (UXSTACKTOP - PGSIZE) (PTE_U OR PTE_P OR PTE_W) k;
          if r < 0 then Some (u, k1)
          else do {
            (r, k2) \<leftarrow> u_env_set_pgfault_upcall plan 0 upcall k1;
            if r < 0 then Some (u, k2) else Some (u\<lparr>pgfault_handler := handler\<rparr>, k2)
          }
        }
      else Some (u\<lparr>pgfault_handler := handler\<rparr>, k))"

section \<open>lib/fork.c\<close>

text \<open>\<open>pgfault\<close>, the handler of write faults. The \<open>!\<close> in its test gives 0 or 1.\<close>

definition pgfault :: "planificador \<Rightarrow> uint32 \<Rightarrow> uint32 \<Rightarrow> kernel \<Rightarrow> kernel option" where
  "pgfault plan addr err k =
     do {
       fault_pte \<leftarrow> uvpt k (drop_bit 12 addr);
       if (err AND FEC_WR) AND (if fault_pte AND PTE_COW = 0 then 1 else 0) \<noteq> 0 then None
       else
         let perm = PTE_P OR PTE_U OR PTE_W; addr = ROUNDDOWN addr PGSIZE in
         do {
           k1 \<leftarrow> exigir (u_page_alloc plan 0 PFTEMP perm k);
           k2 \<leftarrow> copiar_pagina PFTEMP addr k1;
           k3 \<leftarrow> exigir (u_page_map plan 0 PFTEMP 0 addr perm k2);
           exigir (u_page_unmap plan 0 PFTEMP k3)
         }
     }"

definition duppage :: "planificador \<Rightarrow> uint32 \<Rightarrow> uint32 \<Rightarrow> kernel \<Rightarrow> kernel option" where
  "duppage plan envid pn k =
     (let addr = push_bit 12 pn in
      do {
        pte \<leftarrow> uvpt k pn;
        if pte AND PTE_P = 0 \<or> pte AND PTE_U = 0 then None
        else
          let perm = PTE_U OR PTE_P OR (if pte AND (PTE_PCD OR PTE_PWT) \<noteq> 0 then PTE_PCD OR PTE_PWT else 0) in
          if pte AND PTE_W \<noteq> 0 \<or> pte AND PTE_COW \<noteq> 0 then
            do {
              k1 \<leftarrow> exigir (u_page_map plan 0 addr envid addr (perm OR PTE_COW) k);
              exigir (u_page_map plan 0 addr 0 addr (perm OR PTE_COW) k1)
            }
          else exigir (u_page_map plan 0 addr envid addr perm k)
      })"

definition dup_or_share :: "planificador \<Rightarrow> uint32 \<Rightarrow> uint32 \<Rightarrow> uint32 \<Rightarrow> kernel \<Rightarrow> kernel option" where
  "dup_or_share plan envid pnum perm k =
     (let addr = push_bit 12 pnum in
      do {
        pte \<leftarrow> uvpt k pnum;
        if pte AND PTE_P = 0 then Some k
        else
          let perm = (perm AND (pte AND PTE_W)) AND PTE_SYSCALL;
              perm = (if pte AND (PTE_PCD OR PTE_PWT) \<noteq> 0 then perm OR PTE_PCD OR PTE_PWT else perm)
          in
          if pte AND PTE_W = 0 \<or> pte AND (PTE_PCD OR PTE_PWT) \<noteq> 0 then
            exigir (u_page_map plan 0 addr envid addr perm k)
          else
            do {
              k1 \<leftarrow> exigir (u_page_alloc plan envid addr perm k);
              k2 \<leftarrow> exigir (u_page_map plan envid addr 0 UTEMP perm k1);
              k3 \<leftarrow> copiar_pagina UTEMP addr k2;
              exigir (u_page_unmap plan 0 UTEMP k3)
            }
      })"

text \<open>One iteration of each loop, and the loop over a list of page numbers.\<close>

definition tabla_cerrada :: "kernel \<Rightarrow> uint32 \<Rightarrow> bool option" where
  "tabla_cerrada k pnum = do { pde \<leftarrow> uvpd k (drop_bit 10 pnum); Some (pde AND PTE_P = 0 \<or> pde AND PTE_U = 0) }"

definition fork_pagina :: "planificador \<Rightarrow> uint32 \<Rightarrow> uint32 \<Rightarrow> kernel \<Rightarrow> kernel option" where
  "fork_pagina plan envid pnum k =
     (if pnum = drop_bit 12 UXSTACKTOP - 1 then Some k
      else do {
        cerrada \<leftarrow> tabla_cerrada k pnum;
        if cerrada then Some k
        else do {
          pte \<leftarrow> uvpt k pnum;
          if pte AND PTE_P = 0 \<or> pte AND PTE_U = 0 then Some k else duppage plan envid pnum k
        }
      })"

fun fork_paginas :: "planificador \<Rightarrow> uint32 \<Rightarrow> nat list \<Rightarrow> kernel \<Rightarrow> kernel option" where
  "fork_paginas plan envid [] k = Some k"
| "fork_paginas plan envid (q # qs) k =
     do { k1 \<leftarrow> fork_pagina plan envid (word_of_nat q) k; fork_paginas plan envid qs k1 }"

definition fork_v0_pagina :: "planificador \<Rightarrow> uint32 \<Rightarrow> uint32 \<Rightarrow> kernel \<Rightarrow> kernel option" where
  "fork_v0_pagina plan envid pnum k =
     do {
       cerrada \<leftarrow> tabla_cerrada k pnum;
       if cerrada then Some k else dup_or_share plan envid pnum (PTE_P OR PTE_U OR PTE_W) k
     }"

fun fork_v0_paginas :: "planificador \<Rightarrow> uint32 \<Rightarrow> nat list \<Rightarrow> kernel \<Rightarrow> kernel option" where
  "fork_v0_paginas plan envid [] k = Some k"
| "fork_v0_paginas plan envid (q # qs) k =
     do { k1 \<leftarrow> fork_v0_pagina plan envid (word_of_nat q) k; fork_v0_paginas plan envid qs k1 }"

text \<open>
  What follows \<open>sys_exofork\<close>: the parent goes on with the child's identifier, the child,
  when it first runs, with 0.
\<close>

definition fork_tras :: "planificador \<Rightarrow> int \<Rightarrow> usuario \<Rightarrow> kernel \<Rightarrow> (int \<times> usuario \<times> kernel) option" where
  "fork_tras plan envid u k =
     (if envid < 0 then None
      else if envid = 0 then
        do { (id, k1) \<leftarrow> u_getenvid plan k; Some (0, u\<lparr>thisenv := ENVX (word_of_int id)\<rparr>, k1) }
      else
        let id = word_of_int envid in
        do {
          k1 \<leftarrow> fork_paginas plan id [0..<unat (drop_bit 12 UTOP)] k;
          k2 \<leftarrow> exigir (u_page_alloc plan id (UXSTACKTOP - PGSIZE) (PTE_U OR PTE_P OR PTE_W) k1);
          k3 \<leftarrow> exigir (u_env_set_pgfault_upcall plan id (env_pgfault_upcall (envs k2 (thisenv u))) k2);
          k4 \<leftarrow> exigir (u_env_set_status plan id 2 k3);
          Some (envid, u, k4)
        })"

definition fork :: "planificador \<Rightarrow> uint32 \<Rightarrow> uint32 \<Rightarrow> usuario \<Rightarrow> kernel \<Rightarrow> (int \<times> usuario \<times> kernel) option" where
  "fork plan upcall handler u k =
     do {
       (u1, k1) \<leftarrow> set_pgfault_handler plan upcall handler u k;
       (envid, k2) \<leftarrow> u_exofork plan k1;
       fork_tras plan envid u1 k2
     }"

definition fork_v0_tras :: "planificador \<Rightarrow> int \<Rightarrow> usuario \<Rightarrow> kernel \<Rightarrow> (int \<times> usuario \<times> kernel) option" where
  "fork_v0_tras plan envid u k =
     (if envid < 0 then None
      else if envid = 0 then
        do { (id, k1) \<leftarrow> u_getenvid plan k; Some (0, u\<lparr>thisenv := ENVX (word_of_int id)\<rparr>, k1) }
      else
        let id = word_of_int envid in
        do {
          k1 \<leftarrow> fork_v0_paginas plan id [0..<unat (drop_bit 12 UTOP)] k;
          k2 \<leftarrow> exigir (u_env_set_status plan id 2 k1);
          Some (envid, u, k2)
        })"

definition fork_v0 :: "planificador \<Rightarrow> usuario \<Rightarrow> kernel \<Rightarrow> (int \<times> usuario \<times> kernel) option" where
  "fork_v0 plan u k = do { (envid, k1) \<leftarrow> u_exofork plan k; fork_v0_tras plan envid u k1 }"

section \<open>lib/ipc.c\<close>

text \<open>
  \<open>ipc_recv\<close> after its system call, which gave the CPU away and returned \<open>err\<close>: the value
  returned, and what is stored in \<open>*from_env_store\<close> and \<open>*perm_store\<close>.
\<close>

definition ipc_recv_tras :: "int \<Rightarrow> usuario \<Rightarrow> kernel \<Rightarrow> int \<times> uint32 \<times> uint32" where
  "ipc_recv_tras err u k =
     (let yo = envs k (thisenv u) in
      (if err = 0 then sint (env_ipc_value yo) else err,
       if err = 0 then env_ipc_from yo else 0,
       if err = 0 then env_ipc_perm yo else 0))"

text \<open>
  \<open>ipc_send\<close>; the list holds the kernel at each attempt, the first one and those after
  each \<open>sys_yield\<close>. \<^term>\<open>Some None\<close> means it is still waiting.
\<close>

fun ipc_send :: "planificador \<Rightarrow> uint32 \<Rightarrow> uint32 \<Rightarrow> uint32 \<Rightarrow> uint32 \<Rightarrow> kernel list \<Rightarrow> kernel option option" where
  "ipc_send plan to_env val pg perm [] = Some None"
| "ipc_send plan to_env val pg perm (k # ks) =
     do {
       (r, k1) \<leftarrow> u_ipc_try_send plan to_env val (if pg = 0 then UTOP else pg) perm k;
       if r = - E_IPC_NOT_RECV then ipc_send plan to_env val pg perm ks
       else if r < 0 then None else Some (Some k1)
     }"

definition ipc_find_env :: "nat \<Rightarrow> kernel \<Rightarrow> uint32" where
  "ipc_find_env tipo k =
     (case primer_indice (\<lambda>i. env_type (envs k i) = tipo) NENV of None \<Rightarrow> 0 | Some i \<Rightarrow> env_id (envs k i))"

end
