(* ===== verification/Pmap_Inv.thy ===== *)
theory Pmap_Inv
  imports Pmap
begin

text \<open>
  The invariant of the page tables below \<open>UTOP\<close> and of the reference counts, for a set \<open>D\<close>
  of page directories. The abstract address spaces are the entries \<open>pte_en k pd i j\<close>;
  \<open>page_insert\<close> and \<open>page_remove\<close> are updates of one entry, and the count of a page is the
  number of entries that hold it plus the references \<open>extra\<close> held elsewhere.
\<close>

section \<open>Entries\<close>

definition NPDU :: nat where "NPDU = 955"

lemma NPDU_UTOP: "NPDU = unat (PDX UTOP)"
  by (simp add: unat_PDX UTOP_valor NPDU_def)

lemma PDX_bajo_UTOP: "va < UTOP \<Longrightarrow> unat (PDX va) < NPDU"
proof -
  assume "va < UTOP"
  then have "unat va < 4005560320" by (simp add: word_less_nat_alt UTOP_valor)
  then show ?thesis by (simp add: unat_PDX NPDU_def div_less_iff_less_mult)
qed

definition tabla :: "kernel \<Rightarrow> nat \<Rightarrow> nat \<Rightarrow> nat" where
  "tabla k pd i = marco (mem k pd i)"

definition pte_en :: "kernel \<Rightarrow> nat \<Rightarrow> nat \<Rightarrow> nat \<Rightarrow> uint32" where
  "pte_en k pd i j = (if mem k pd i = 0 then 0 else mem k (tabla k pd i) j)"

definition hay_tabla :: "nat set \<Rightarrow> kernel \<Rightarrow> nat \<Rightarrow> nat \<Rightarrow> bool" where
  "hay_tabla D k pd i \<longleftrightarrow> pd \<in> D \<and> i < NPDU \<and> mem k pd i \<noteq> 0"

definition tablas :: "nat set \<Rightarrow> kernel \<Rightarrow> nat set" where
  "tablas D k = {t. \<exists>pd i. hay_tabla D k pd i \<and> t = tabla k pd i}"

definition mapeos :: "nat set \<Rightarrow> kernel \<Rightarrow> nat \<Rightarrow> (nat \<times> nat \<times> nat) set" where
  "mapeos D k f = {(pd, i, j). pd \<in> D \<and> i < NPDU \<and> j < 1024 \<and> pte_en k pd i j \<noteq> 0
     \<and> marco (pte_en k pd i j) = f}"

definition refs :: "nat set \<Rightarrow> (nat \<Rightarrow> nat) \<Rightarrow> kernel \<Rightarrow> nat \<Rightarrow> nat" where
  "refs D extra k f = card (mapeos D k f) + extra f"

section \<open>The invariant\<close>

definition estructura :: "nat set \<Rightarrow> nat list \<Rightarrow> kernel \<Rightarrow> bool" where
  "estructura D xs k \<longleftrightarrow> npages k \<le> 2 ^ 20 \<and> finite D \<and> pag.libres k xs
     \<and> (\<forall>p\<in>set xs. p < npages k) \<and> (\<forall>p<npages k. p \<notin> set xs \<longrightarrow> pp_link (pages k p) = None)
     \<and> (\<forall>d\<in>D. d < npages k \<and> d \<notin> set xs)
     \<and> (\<forall>pd i. hay_tabla D k pd i \<longrightarrow> tabla k pd i < npages k \<and> tabla k pd i \<notin> set xs
          \<and> tabla k pd i \<notin> D)
     \<and> (\<forall>pd i pd' i'. hay_tabla D k pd i \<longrightarrow> hay_tabla D k pd' i'
          \<longrightarrow> tabla k pd i = tabla k pd' i' \<longrightarrow> pd = pd' \<and> i = i')"

definition conteo :: "nat set \<Rightarrow> (nat \<Rightarrow> nat) \<Rightarrow> nat list \<Rightarrow> kernel \<Rightarrow> bool" where
  "conteo D extra xs k \<longleftrightarrow> (\<forall>p\<in>set xs. pp_ref (pages k p) = 0)
     \<and> (\<forall>pd i j. pd \<in> D \<longrightarrow> i < NPDU \<longrightarrow> j < 1024 \<longrightarrow> pte_en k pd i j \<noteq> 0
          \<longrightarrow> pte_en k pd i j AND PTE_P = PTE_P)
     \<and> (\<forall>f. refs D extra k f > 0 \<longrightarrow> pp_ref (pages k f) = word_of_nat (refs D extra k f)
          \<and> refs D extra k f < 65536 \<and> f < npages k \<and> f \<notin> set xs \<and> f \<notin> D \<and> f \<notin> tablas D k)"

definition vm_ok :: "nat set \<Rightarrow> (nat \<Rightarrow> nat) \<Rightarrow> nat list \<Rightarrow> kernel \<Rightarrow> bool" where
  "vm_ok D extra xs k \<longleftrightarrow> estructura D xs k \<and> conteo D extra xs k"

lemma pte_en_mem: "mem k' = mem k \<Longrightarrow> pte_en k' = pte_en k"
  and tablas_mem: "mem k' = mem k \<Longrightarrow> tablas D k' = tablas D k"
  and mapeos_mem: "mem k' = mem k \<Longrightarrow> mapeos D k' = mapeos D k"
  by (simp_all add: pte_en_def tablas_def hay_tabla_def tabla_def mapeos_def fun_eq_iff)

lemma estructuraD:
  assumes "estructura D xs k"
  shows "npages k \<le> 2 ^ 20" "finite D" "pag.libres k xs"
    "\<And>p. p \<in> set xs \<Longrightarrow> p < npages k"
    "\<And>p. p < npages k \<Longrightarrow> p \<notin> set xs \<Longrightarrow> pp_link (pages k p) = None"
    "\<And>d. d \<in> D \<Longrightarrow> d < npages k \<and> d \<notin> set xs"
    "\<And>pd i. hay_tabla D k pd i \<Longrightarrow> tabla k pd i < npages k \<and> tabla k pd i \<notin> set xs \<and> tabla k pd i \<notin> D"
    "\<And>pd i pd' i'. hay_tabla D k pd i \<Longrightarrow> hay_tabla D k pd' i' \<Longrightarrow> tabla k pd i = tabla k pd' i'
       \<Longrightarrow> pd = pd' \<and> i = i'"
  using assms unfolding estructura_def by blast+

lemma conteoD:
  assumes "conteo D extra xs k"
  shows "\<And>p. p \<in> set xs \<Longrightarrow> pp_ref (pages k p) = 0"
    "\<And>pd i j. pd \<in> D \<Longrightarrow> i < NPDU \<Longrightarrow> j < 1024 \<Longrightarrow> pte_en k pd i j \<noteq> 0
       \<Longrightarrow> pte_en k pd i j AND PTE_P = PTE_P"
    "\<And>f. refs D extra k f > 0 \<Longrightarrow> pp_ref (pages k f) = word_of_nat (refs D extra k f)
       \<and> refs D extra k f < 65536 \<and> f < npages k \<and> f \<notin> set xs \<and> f \<notin> D \<and> f \<notin> tablas D k"
  using assms unfolding conteo_def by blast+

lemma vm_okD: "vm_ok D extra xs k \<Longrightarrow> estructura D xs k" "vm_ok D extra xs k \<Longrightarrow> conteo D extra xs k"
  by (simp_all add: vm_ok_def)

lemma finite_mapeos: "finite D \<Longrightarrow> finite (mapeos D k f)"
  by (rule finite_subset [of _ "D \<times> {..<NPDU} \<times> {..<1024}"]) (auto simp: mapeos_def)

lemma en_mapeos:
  "pd \<in> D \<Longrightarrow> i < NPDU \<Longrightarrow> j < 1024 \<Longrightarrow> pte_en k pd i j \<noteq> 0 \<Longrightarrow> (pd, i, j) \<in> mapeos D k (marco (pte_en k pd i j))"
  by (simp add: mapeos_def)

text \<open>A page held by an entry is counted, so it is neither free nor part of a table.\<close>

lemma entrada_contada:
  assumes "vm_ok D extra xs k" "pd \<in> D" "i < NPDU" "j < 1024" "pte_en k pd i j \<noteq> 0"
  defines "f \<equiv> marco (pte_en k pd i j)"
  shows "refs D extra k f > 0" "pp_ref (pages k f) = word_of_nat (refs D extra k f)"
    "refs D extra k f < 65536" "f < npages k" "f \<notin> set xs" "f \<notin> D" "f \<notin> tablas D k"
proof -
  have "mapeos D k f \<noteq> {}" using en_mapeos [OF assms(2-5)] by (auto simp: f_def)
  then show r: "refs D extra k f > 0"
    using finite_mapeos [of D k f] estructuraD(2) [OF vm_okD(1) [OF assms(1)]]
    by (simp add: refs_def card_gt_0_iff)
  from conteoD(3) [OF vm_okD(2) [OF assms(1)] r]
  show "pp_ref (pages k f) = word_of_nat (refs D extra k f)" "refs D extra k f < 65536" "f < npages k"
    "f \<notin> set xs" "f \<notin> D" "f \<notin> tablas D k" by blast+
qed

text \<open>Frame rule: the invariant only looks at these parts of the kernel.\<close>

lemma vm_ok_cong:
  assumes "npages k' = npages k" "pages k' = pages k" "page_free_list k' = page_free_list k" "mem k' = mem k"
  shows "vm_ok D extra xs k' = vm_ok D extra xs k"
proof -
  have t: "tabla k' = tabla k" by (simp add: tabla_def fun_eq_iff assms)
  have p: "pte_en k' = pte_en k" by (simp add: pte_en_def fun_eq_iff assms t)
  have h: "hay_tabla D k' = hay_tabla D k" by (simp add: hay_tabla_def fun_eq_iff assms)
  have "refs D extra k' = refs D extra k" by (simp add: refs_def mapeos_def fun_eq_iff p)
  moreover have "tablas D k' = tablas D k" by (simp add: tablas_def h t)
  moreover have "pag.libres k' xs = pag.libres k xs" by (rule pag.libres_cong) (simp_all add: assms)
  ultimately show ?thesis
    by (simp add: vm_ok_def estructura_def conteo_def assms t p h)
qed

section \<open>Taking a page from the free list\<close>

lemma page_alloc_vacia: "page_free_list k = None \<Longrightarrow> page_alloc zero k = Some (None, k)"
  by (simp add: page_alloc_def)

lemma page_alloc_forma:
  assumes "page_free_list k = Some p" "p < npages k" "npages k \<le> 2 ^ 20"
  shows "page_alloc zero k = Some (Some p, k\<lparr>page_free_list := pp_link (pages k p),
     pages := (pages k)(p := (pages k p)\<lparr>pp_link := None\<rparr>),
     mem := (if zero then (mem k)(p := (\<lambda>_. 0)) else mem k)\<rparr>)"
proof -
  have "p < 2 ^ 20" using assms(2,3) by simp
  then have "unat (PGNUM (page2pa p)) = p"
    by (simp add: PGNUM_page2pa unat_of_nat take_bit_nat_eq_self)
  with assms show ?thesis
    by (simp add: page_alloc_def Let_def page2kva_def KADDR_def con_page_def)
qed

text \<open>Writing pages that hold no table and no directory does not show in the entries.\<close>

lemma pte_en_otra_pagina:
  assumes e: "estructura D xs k" and m: "\<forall>f\<in>D \<union> tablas D k. mem k' f = mem k f"
    and pd: "pd \<in> D" "i < NPDU"
  shows "pte_en k' pd i j = pte_en k pd i j" "tabla k' pd i = tabla k pd i" "mem k' pd i = mem k pd i"
proof -
  show mm: "mem k' pd i = mem k pd i" using m pd(1) by simp
  then show t: "tabla k' pd i = tabla k pd i" by (simp add: tabla_def)
  show "pte_en k' pd i j = pte_en k pd i j"
  proof (cases "mem k pd i = 0")
    case False
    then have "tabla k pd i \<in> tablas D k" using pd by (auto simp: tablas_def hay_tabla_def)
    with m False show ?thesis by (simp add: pte_en_def mm t)
  qed (simp add: pte_en_def mm)
qed

lemma misma_estructura:
  assumes e: "estructura D xs k" and m: "\<forall>f\<in>D \<union> tablas D k. mem k' f = mem k f"
  shows "hay_tabla D k' = hay_tabla D k" "tablas D k' = tablas D k" "mapeos D k' = mapeos D k"
    "refs D extra k' = refs D extra k"
proof -
  note p = pte_en_otra_pagina [OF e m]
  show h: "hay_tabla D k' = hay_tabla D k"
    using p(3) by (auto simp: hay_tabla_def fun_eq_iff)
  have "tabla k' pd i = tabla k pd i" if "hay_tabla D k pd i" for pd i
    using that p(2) by (simp add: hay_tabla_def)
  then show "tablas D k' = tablas D k"
    unfolding tablas_def h by (intro Collect_cong ex_cong1) auto
  show mp: "mapeos D k' = mapeos D k"
    by (auto simp: mapeos_def fun_eq_iff p(1))
  then show "refs D extra k' = refs D extra k" by (simp add: refs_def fun_eq_iff)
qed

text \<open>What \<open>page_alloc\<close> gives when the free list is \<open>p # ys\<close>.\<close>

lemma page_alloc_vm:
  fixes zero :: bool
  assumes vm: "vm_ok D extra (p # ys) k"
  defines "k' \<equiv> k\<lparr>page_free_list := pp_link (pages k p),
     pages := (pages k)(p := (pages k p)\<lparr>pp_link := None\<rparr>),
     mem := (if zero then (mem k)(p := (\<lambda>_. 0)) else mem k)\<rparr>"
  shows "page_alloc zero k = Some (Some p, k')" "vm_ok D extra ys k'"
    "p < npages k" "p \<notin> set ys" "p \<notin> D" "p \<notin> tablas D k" "refs D extra k p = 0" "pp_ref (pages k p) = 0"
    "\<And>pd i j. pd \<in> D \<Longrightarrow> i < NPDU \<Longrightarrow> pte_en k' pd i j = pte_en k pd i j"
    "hay_tabla D k' = hay_tabla D k" "tablas D k' = tablas D k" "mapeos D k' = mapeos D k"
    "\<And>pd i. pd \<in> D \<Longrightarrow> i < NPDU \<Longrightarrow> tabla k' pd i = tabla k pd i \<and> mem k' pd i = mem k pd i"
proof -
  note e = vm_okD(1) [OF vm] and c = vm_okD(2) [OF vm]
  note E = estructuraD [OF e] and C = conteoD [OF c]
  have hd: "page_free_list k = Some p" using E(3) by (simp add: pag.libres_def)
  show pn: "p < npages k" using E(4) by simp
  show al: "page_alloc zero k = Some (Some p, k')"
    unfolding k'_def using hd pn E(1) by (rule page_alloc_forma)
  have "sacar_pagina k = Some (p, k\<lparr>page_free_list := pp_link (pages k p),
     pages := (pages k)(p := (pages k p)\<lparr>pp_link := None\<rparr>), mem := (mem k)(p := (\<lambda>_. 0))\<rparr>)" (is "_ = Some (p, ?k1)")
    using page_alloc_forma [OF hd pn E(1), of True] by (simp add: sacar_pagina_def)
  with E(3) obtain zs where "p # ys = p # zs" "pag.libres ?k1 zs" "p \<notin> set zs"
    by (rule pag.sacar_libres)
  then show py: "p \<notin> set ys" by simp
  have "pag.libres k' ys = pag.libres ?k1 ys"
    by (rule pag.libres_cong) (simp_all add: k'_def)
  with \<open>p # ys = p # zs\<close> \<open>pag.libres ?k1 zs\<close> have lib: "pag.libres k' ys" by simp
  show pD: "p \<notin> D" using E(6) by auto
  show pt: "p \<notin> tablas D k"
  proof
    assume "p \<in> tablas D k"
    then obtain pd i where "hay_tabla D k pd i" "p = tabla k pd i" by (auto simp: tablas_def)
    with E(7) [of pd i] show False by simp
  qed
  show pr: "refs D extra k p = 0" using C(3) [of p] by (cases "refs D extra k p = 0") auto
  show p0: "pp_ref (pages k p) = 0" using C(1) by simp
  have m: "\<forall>f\<in>D \<union> tablas D k. mem k' f = mem k f"
    using pD pt by (auto simp: k'_def)
  note P = pte_en_otra_pagina [OF e m] and S = misma_estructura [OF e m]
  show "\<And>pd i j. pd \<in> D \<Longrightarrow> i < NPDU \<Longrightarrow> pte_en k' pd i j = pte_en k pd i j"
    using P(1) by blast
  show "hay_tabla D k' = hay_tabla D k" "tablas D k' = tablas D k" "mapeos D k' = mapeos D k"
    using S by blast+
  show "\<And>pd i. pd \<in> D \<Longrightarrow> i < NPDU \<Longrightarrow> tabla k' pd i = tabla k pd i \<and> mem k' pd i = mem k pd i"
    using P(2,3) by blast
  have tt: "hay_tabla D k pd i \<Longrightarrow> tabla k' pd i = tabla k pd i" for pd i
    using P(2) by (auto simp: hay_tabla_def)
  have n: "npages k' = npages k" by (simp add: k'_def)
  have "estructura D ys k'"
    unfolding estructura_def
    using E lib tt S(1) by (auto simp: k'_def)
  moreover have "conteo D extra ys k'"
    unfolding conteo_def S(2,4) n
  proof (intro conjI ballI allI impI)
    fix q assume "q \<in> set ys"
    then show "pp_ref (pages k' q) = 0" using C(1) by (simp add: k'_def)
  next
    fix pd i j assume "pd \<in> D" "i < NPDU" "j < 1024" "pte_en k' pd i j \<noteq> 0"
    then show "pte_en k' pd i j AND PTE_P = PTE_P" using C(2) P(1) by metis
  next
    fix f assume f: "0 < refs D extra k f"
    note cf = C(3) [OF f]
    show "pp_ref (pages k' f) = word_of_nat (refs D extra k f)" using cf by (simp add: k'_def)
    show "refs D extra k f < 65536" "f < npages k" "f \<notin> set ys" "f \<notin> D" "f \<notin> tablas D k"
      using cf by auto
  qed
  ultimately show "vm_ok D extra ys k'" by (simp add: vm_ok_def)
qed

section \<open>Walking to an entry\<close>

lemma KADDR_marco: "marco pte < npages k \<Longrightarrow> KADDR k (PTE_ADDR pte) = Some (marco pte)"
  by (simp add: KADDR_def marco_def)

lemma pa2page_marco: "marco pte < npages k \<Longrightarrow> pa2page k (PTE_ADDR pte) = Some (marco pte)"
  by (simp add: pa2page_def marco_def)

lemma walk_busca_e:
  assumes e: "estructura D xs k" and pd: "pd \<in> D" and va: "unat (PDX va) < NPDU"
  shows "pgdir_walk pd va False k
    = Some (if mem k pd (unat (PDX va)) = 0 then None else Some (tabla k pd (unat (PDX va)), unat (PTX va)), k)"
proof (cases "mem k pd (unat (PDX va)) = 0")
  case False
  then have "hay_tabla D k pd (unat (PDX va))" using pd va by (simp add: hay_tabla_def)
  from estructuraD(7) [OF e this] have "marco (mem k pd (unat (PDX va))) < npages k"
    by (simp add: tabla_def)
  with False show ?thesis by (simp add: pgdir_walk_def Let_def KADDR_marco tabla_def)
qed (simp add: pgdir_walk_def Let_def)

lemmas walk_busca = walk_busca_e [OF vm_okD(1)]

text \<open>
  With \<open>create\<close>: the entry of an existing table; \<open>NULL\<close> when there is neither table nor
  free page; otherwise a new table, taken from the free list, all of whose entries are 0.
\<close>

lemma nueva_tabla_vm:
  assumes vm: "vm_ok D extra ys k" and pd: "pd \<in> D" "i < NPDU" and nz: "mem k pd i = 0"
    and p: "p < npages k" "p \<notin> set ys" "p \<notin> D" "p \<notin> tablas D k" "refs D extra k p = 0"
    and cero: "\<And>j. mem k p j = 0"
  defines "k' \<equiv> escribir pd i (page2pa p OR PTE_P OR PTE_W OR PTE_U) (pp_ref_inc p k)"
  shows "vm_ok D extra ys k'" "tabla k' pd i = p" "mem k' pd i \<noteq> 0"
    "\<And>pd' i' j. pd' \<in> D \<Longrightarrow> i' < NPDU \<Longrightarrow> pte_en k' pd' i' j = pte_en k pd' i' j"
proof -
  note e = vm_okD(1) [OF vm] and c = vm_okD(2) [OF vm]
  note E = estructuraD [OF e] and C = conteoD [OF c]
  let ?v = "page2pa p OR PTE_P OR PTE_W OR PTE_U"
  have p20: "p < 2 ^ 20" using p(1) E(1) by simp
  have v: "marco ?v = p" using p20 by (simp add: marco_entrada or.assoc)
  have v0: "?v \<noteq> 0"
  proof
    assume "?v = 0"
    then have "PTE_P = 0" by (simp add: or_eq_0_iff)
    then show False by (simp add: PTE_P_def)
  qed
  have mk: "mem k' q j = (if q = pd \<and> j = i then ?v else mem k q j)" for q j
    by (simp add: k'_def pp_ref_inc_def)
  show m': "mem k' pd i \<noteq> 0" using v0 by (simp add: mk)
  show t': "tabla k' pd i = p" by (simp add: tabla_def mk v)
  have tt: "tabla k' pd' i' = (if pd' = pd \<and> i' = i then p else tabla k pd' i')" for pd' i'
    by (simp add: tabla_def mk v)
  have h: "hay_tabla D k' pd' i' \<longleftrightarrow> pd' = pd \<and> i' = i \<or> hay_tabla D k pd' i'" for pd' i'
    using pd v0 by (auto simp: hay_tabla_def mk)
  have pe: "pte_en k' pd' i' j = pte_en k pd' i' j" if "pd' \<in> D" "i' < NPDU" for pd' i' j
  proof (cases "pd' = pd \<and> i' = i")
    case True
    then have "pte_en k' pd' i' j = mem k p j" using m' p(3) pd(1) by (auto simp: pte_en_def tt mk)
    with cero nz True show ?thesis by (simp add: pte_en_def)
  next
    case False
    have "tabla k pd' i' \<noteq> pd" if "mem k pd' i' \<noteq> 0"
      using E(7) [of pd' i'] that \<open>pd' \<in> D\<close> \<open>i' < NPDU\<close> pd(1) by (auto simp: hay_tabla_def)
    with False show ?thesis by (auto simp: pte_en_def tt mk)
  qed
  then show "\<And>pd' i' j. pd' \<in> D \<Longrightarrow> i' < NPDU \<Longrightarrow> pte_en k' pd' i' j = pte_en k pd' i' j" by blast
  have mp: "mapeos D k' = mapeos D k"
    by (auto simp: mapeos_def fun_eq_iff pe)
  have rf: "refs D extra k' = refs D extra k" by (simp add: refs_def fun_eq_iff mp)
  have tb: "tablas D k' = insert p (tablas D k)"
  proof -
    have nh: "\<not> hay_tabla D k pd i" using nz by (simp add: hay_tabla_def)
    show ?thesis
      unfolding tablas_def h tt using nh by auto
  qed
  have n: "npages k' = npages k" by (simp add: k'_def pp_ref_inc_def)
  have lk: "pp_link (pages k' q) = pp_link (pages k q)" for q by (simp add: k'_def pp_ref_inc_def)
  have lib: "pag.libres k' ys"
    using E(3) pag.libres_cong [of k' k ys] lk by (simp add: k'_def pp_ref_inc_def)
  have tp: "tabla k pd' i' \<noteq> p" if "hay_tabla D k pd' i'" for pd' i'
    using that p(4) by (auto simp: tablas_def)
  have nh: "\<not> hay_tabla D k pd i" using nz by (simp add: hay_tabla_def)
  have "estructura D ys k'"
    unfolding estructura_def n
  proof (intro conjI allI impI ballI)
    fix pd1 i1 assume h1: "hay_tabla D k' pd1 i1"
    show "tabla k' pd1 i1 < npages k" "tabla k' pd1 i1 \<notin> set ys" "tabla k' pd1 i1 \<notin> D"
      using h1 E(7) [of pd1 i1] p by (auto simp: h tt)
    fix pd2 i2 assume h2: "hay_tabla D k' pd2 i2" and eq: "tabla k' pd1 i1 = tabla k' pd2 i2"
    have "(pd1, i1) = (pd2, i2)"
    proof (cases "(pd1, i1) = (pd, i)")
      case True
      with eq h2 tp [of pd2 i2] show ?thesis by (auto simp: h tt split: if_splits)
    next
      case False
      with eq h1 h2 tp [of pd1 i1] E(8) [of pd1 i1 pd2 i2] show ?thesis by (auto simp: h tt split: if_splits)
    qed
    then show "pd1 = pd2" "i1 = i2" by simp_all
  qed (use E lib lk in auto)
  moreover have "conteo D extra ys k'"
    unfolding conteo_def rf tb n
  proof (intro conjI ballI allI impI)
    fix q assume "q \<in> set ys"
    then show "pp_ref (pages k' q) = 0" using C(1) p(2) by (auto simp: k'_def pp_ref_inc_def)
  next
    fix pd i j assume "pd \<in> D" "i < NPDU" "j < 1024" "pte_en k' pd i j \<noteq> 0"
    then show "pte_en k' pd i j AND PTE_P = PTE_P" using C(2) pe by metis
  next
    fix f assume f: "0 < refs D extra k f"
    note cf = C(3) [OF f]
    have fp: "f \<noteq> p" using f p(5) by auto
    show "pp_ref (pages k' f) = word_of_nat (refs D extra k f)"
      using cf fp by (simp add: k'_def pp_ref_inc_def)
    show "refs D extra k f < 65536" "f < npages k" "f \<notin> set ys" "f \<notin> D" "f \<notin> insert p (tablas D k)"
      using cf fp by auto
  qed
  ultimately show "vm_ok D extra ys k'" by (simp add: vm_ok_def)
qed

text \<open>The page descriptors and address spaces after a walk.\<close>

lemma walk_crea:
  assumes vm: "vm_ok D extra xs k" and pd: "pd \<in> D" and va: "unat (PDX va) < NPDU"
  shows "\<exists>r xs' k'. pgdir_walk pd va True k = Some (r, k') \<and> vm_ok D extra xs' k' \<and> solo_vm k k'
    \<and> set xs' \<subseteq> set xs \<and> tlb k' = tlb k
    \<and> (\<forall>pd'\<in>D. \<forall>i'<NPDU. \<forall>j. pte_en k' pd' i' j = pte_en k pd' i' j)
    \<and> (\<forall>q. q \<notin> set xs \<longrightarrow> pp_ref (pages k' q) = pp_ref (pages k q))
    \<and> tablas D k' \<subseteq> tablas D k \<union> set xs
    \<and> (if mem k pd (unat (PDX va)) = 0 \<and> xs = [] then r = None \<and> k' = k
       else r = Some (tabla k' pd (unat (PDX va)), unat (PTX va)) \<and> mem k' pd (unat (PDX va)) \<noteq> 0)"
proof -
  let ?i = "unat (PDX va)"
  note e = vm_okD(1) [OF vm]
  consider "mem k pd ?i \<noteq> 0" | "mem k pd ?i = 0" "xs = []" | p ys where "mem k pd ?i = 0" "xs = p # ys"
    by (cases xs) auto
  then show ?thesis
  proof cases
    case 1
    then have "hay_tabla D k pd ?i" using pd va by (simp add: hay_tabla_def)
    from estructuraD(7) [OF e this] have "marco (mem k pd ?i) < npages k" by (simp add: tabla_def)
    with 1 have "pgdir_walk pd va True k = Some (Some (tabla k pd ?i, unat (PTX va)), k)"
      by (simp add: pgdir_walk_def Let_def KADDR_marco tabla_def)
    with 1 vm show ?thesis by (intro exI [of _ "Some (tabla k pd ?i, unat (PTX va))"] exI [of _ xs] exI [of _ k]) auto
  next
    case 2
    then have "page_free_list k = None"
      using estructuraD(3) [OF e] by (simp add: pag.libres_vacia)
    with 2 have "pgdir_walk pd va True k = Some (None, k)"
      by (simp add: pgdir_walk_def Let_def page_alloc_vacia)
    with 2 vm show ?thesis by (intro exI [of _ None] exI [of _ "[]"] exI [of _ k]) auto
  next
    case 3
    note vm' = vm [unfolded 3(2)]
    note a = page_alloc_vm(1,2,9-13) [OF vm', where zero = True] and a' = page_alloc_vm(3-7) [OF vm']
    let ?k1 = "k\<lparr>page_free_list := pp_link (pages k p), pages := (pages k)(p := (pages k p)\<lparr>pp_link := None\<rparr>),
      mem := (if True then (mem k)(p := (\<lambda>_. 0)) else mem k)\<rparr>"
    let ?k' = "escribir pd ?i (page2pa p OR PTE_P OR PTE_W OR PTE_U) (pp_ref_inc p ?k1)"
    have pp: "p < npages ?k1" "p \<notin> set ys" "p \<notin> D" "p \<notin> tablas D ?k1" "refs D extra ?k1 p = 0"
      using a' a(5,6) by (simp_all add: refs_def)
    have z: "mem ?k1 pd ?i = 0" using a(7) [OF pd va] 3(1) by simp
    note n = nueva_tabla_vm [OF a(2) pd va z pp]
    have n': "vm_ok D extra ys ?k'" "tabla ?k' pd ?i = p" "mem ?k' pd ?i \<noteq> 0"
      "\<forall>pd'\<in>D. \<forall>i'<NPDU. \<forall>j. pte_en ?k' pd' i' j = pte_en k pd' i' j"
      using n a(3) by auto
    have "marco (mem ?k' pd ?i) < npages ?k'" using n'(2) pp(1) by (simp add: tabla_def pp_ref_inc_def)
    then have "KADDR ?k' (PTE_ADDR (mem ?k' pd ?i)) = Some (tabla ?k' pd ?i)"
      by (simp add: KADDR_marco tabla_def)
    moreover have "page_alloc True k = Some (Some p, ?k1)" using a(1) .
    ultimately have w: "pgdir_walk pd va True k = Some (Some (tabla ?k' pd ?i, unat (PTX va)), ?k')"
      using 3(1) n'(3) by (simp add: pgdir_walk_def Let_def)
    have tb: "tablas D ?k' \<subseteq> tablas D k \<union> set xs"
    proof
      fix t assume "t \<in> tablas D ?k'"
      then obtain pd' i' where h: "hay_tabla D ?k' pd' i'" "t = tabla ?k' pd' i'" by (auto simp: tablas_def)
      show "t \<in> tablas D k \<union> set xs"
      proof (cases "(pd', i') = (pd, ?i)")
        case True
        with h n'(2) 3(2) show ?thesis by simp
      next
        case False
        then have "mem ?k' pd' i' = mem ?k1 pd' i'" by (auto simp: pp_ref_inc_def)
        with h(1) have "hay_tabla D ?k1 pd' i'" "tabla ?k' pd' i' = tabla ?k1 pd' i'"
          by (auto simp: hay_tabla_def tabla_def)
        then have "t \<in> tablas D ?k1" using h(2) by (auto simp: tablas_def)
        then show ?thesis using a(5) by simp
      qed
    qed
    have "solo_vm k ?k1" by (simp add: solo_vm_def)
    then have "solo_vm k ?k'" by simp
    moreover have "\<forall>q. q \<notin> set xs \<longrightarrow> pp_ref (pages ?k' q) = pp_ref (pages k q)"
      using 3(2) by (simp add: pp_ref_inc_def)
    moreover have "tlb ?k' = tlb k" by (simp add: pp_ref_inc_def)
    ultimately show ?thesis
      using w n' tb 3 by (intro exI [of _ "Some (tabla ?k' pd ?i, unat (PTX va))"] exI [of _ ys] exI [of _ ?k']) auto
  qed
qed

section \<open>Writing an entry\<close>

lemma escribir_entrada:
  fixes v :: uint32
  assumes e: "estructura D xs k" and h: "hay_tabla D k pd i" and j: "j < 1024"
  defines "k' \<equiv> escribir (tabla k pd i) j v k"
  shows "estructura D xs k'"
    "\<And>a b c. a \<in> D \<Longrightarrow> b < NPDU \<Longrightarrow> pte_en k' a b c = (if (a, b, c) = (pd, i, j) then v else pte_en k a b c)"
    "tablas D k' = tablas D k"
    "mapeos D k' f = (if v \<noteq> 0 \<and> marco v = f then insert (pd, i, j) (mapeos D k f) else mapeos D k f - {(pd, i, j)})"
proof -
  note E = estructuraD [OF e]
  let ?t = "tabla k pd i"
  have tD: "?t \<notin> D" using E(7) [OF h] by blast
  have mD: "mem k' a b = mem k a b" if "a \<in> D" for a b
    using that tD by (auto simp: k'_def)
  have tt: "tabla k' a b = tabla k a b" if "a \<in> D" for a b by (simp add: tabla_def mD [OF that])
  have hh: "hay_tabla D k' = hay_tabla D k" by (auto simp: hay_tabla_def fun_eq_iff mD)
  have pe: "pte_en k' a b c = (if (a, b, c) = (pd, i, j) then v else pte_en k a b c)"
    if "a \<in> D" "b < NPDU" for a b c
  proof (cases "mem k a b = 0")
    case True
    then have "(a, b) \<noteq> (pd, i)" using h by (auto simp: hay_tabla_def)
    with True mD [OF that(1)] show ?thesis by (auto simp: pte_en_def)
  next
    case False
    then have "hay_tabla D k a b" using that by (simp add: hay_tabla_def)
    with E(8) [OF this h] have "tabla k a b = ?t \<longleftrightarrow> (a, b) = (pd, i)" by auto
    with False mD [OF that(1)] tt [OF that(1)] show ?thesis
      by (auto simp: pte_en_def k'_def)
  qed
  then show "\<And>a b c. a \<in> D \<Longrightarrow> b < NPDU \<Longrightarrow> pte_en k' a b c = (if (a, b, c) = (pd, i, j) then v else pte_en k a b c)"
    by blast
  have tt': "hay_tabla D k a b \<Longrightarrow> tabla k' a b = tabla k a b" for a b using tt by (simp add: hay_tabla_def)
  show "tablas D k' = tablas D k"
    unfolding tablas_def hh by (intro Collect_cong ex_cong1) (auto simp: tt')
  have "pag.libres k' xs = pag.libres k xs" by (rule pag.libres_cong) (simp_all add: k'_def)
  then show "estructura D xs k'"
    unfolding estructura_def hh
    using E tt' by (auto simp: k'_def)
  show "mapeos D k' f = (if v \<noteq> 0 \<and> marco v = f then insert (pd, i, j) (mapeos D k f) else mapeos D k f - {(pd, i, j)})"
    using h j by (auto simp: mapeos_def pe hay_tabla_def split: if_splits)
qed

text \<open>A held reference becomes a mapping: writing a new entry for \<open>pp\<close> where there was none.\<close>

lemma poner_entrada_vm:
  assumes vm: "vm_ok D (extra(pp := Suc (extra pp))) xs k" and h: "hay_tabla D k pd i" and j: "j < 1024"
    and vacia: "pte_en k pd i j = 0" and v: "marco v = pp" "v AND PTE_P = PTE_P"
  shows "vm_ok D extra xs (escribir (tabla k pd i) j v k)"
proof -
  let ?k' = "escribir (tabla k pd i) j v k"
  let ?ex = "extra(pp := Suc (extra pp))"
  note e = vm_okD(1) [OF vm] and C = conteoD [OF vm_okD(2) [OF vm]]
  note W = escribir_entrada [OF e h j, where v = v]
  have v0: "v \<noteq> 0" using v(2) by (auto simp: PTE_P_def)
  have fin: "finite (mapeos D k f)" for f using finite_mapeos [OF estructuraD(2) [OF e]] .
  have no: "(pd, i, j) \<notin> mapeos D k f" for f using vacia by (simp add: mapeos_def)
  have rf: "refs D extra ?k' f = refs D ?ex k f" for f
    using fin no v v0 by (auto simp: refs_def W(4))
  have "conteo D extra xs ?k'"
    unfolding conteo_def rf W(3)
  proof (intro conjI ballI allI impI)
    fix a b c assume abc: "a \<in> D" "b < NPDU" "c < 1024" "pte_en ?k' a b c \<noteq> 0"
    with C(2) [of a b c] v(2) show "pte_en ?k' a b c AND PTE_P = PTE_P"
      by (simp only: W(2) [OF abc(1,2)]) (auto split: if_splits)
  qed (use C in auto)
  with W(1) show ?thesis by (simp add: vm_ok_def)
qed

text \<open>Taking a reference to a page that is neither free nor a table.\<close>

definition contada :: "nat set \<Rightarrow> (nat \<Rightarrow> nat) \<Rightarrow> nat list \<Rightarrow> kernel \<Rightarrow> nat \<Rightarrow> bool" where
  "contada D extra xs k pp \<longleftrightarrow> pp < npages k \<and> pp \<notin> set xs \<and> pp \<notin> D \<and> pp \<notin> tablas D k
     \<and> pp_ref (pages k pp) = word_of_nat (refs D extra k pp) \<and> refs D extra k pp + 1 < 65536"

lemma sumar_ref_vm:
  assumes vm: "vm_ok D extra xs k" and pp: "contada D extra xs k pp"
  shows "vm_ok D (extra(pp := Suc (extra pp))) xs (pp_ref_inc pp k)"
proof -
  let ?k' = "pp_ref_inc pp k"
  note e = vm_okD(1) [OF vm] and C = conteoD [OF vm_okD(2) [OF vm]]
  have m: "\<forall>f\<in>D \<union> tablas D k. mem ?k' f = mem k f" by (simp add: pp_ref_inc_def)
  note S = misma_estructura [OF e m] and P = pte_en_otra_pagina [OF e m]
  have tt: "hay_tabla D k a b \<Longrightarrow> tabla ?k' a b = tabla k a b" for a b using P(2) by (auto simp: hay_tabla_def)
  have "pag.libres ?k' xs = pag.libres k xs" by (rule pag.libres_cong) (simp_all add: pp_ref_inc_def)
  then have "estructura D xs ?k'"
    unfolding estructura_def S(1) using estructuraD [OF e] tt by (auto simp: pp_ref_inc_def)
  moreover have rf: "refs D (extra(pp := Suc (extra pp))) ?k' f = (if f = pp then Suc (refs D extra k f) else refs D extra k f)" for f
    by (simp add: refs_def S(3))
  have "conteo D (extra(pp := Suc (extra pp))) xs ?k'"
    unfolding conteo_def rf S(2)
  proof (intro conjI ballI allI impI)
    fix a b c assume abc: "a \<in> D" "b < NPDU" "c < 1024" "pte_en ?k' a b c \<noteq> 0"
    with C(2) [of a b c] show "pte_en ?k' a b c AND PTE_P = PTE_P" by (simp add: P(1) [OF abc(1,2)])
  qed (use C(1,3) pp in \<open>auto simp: contada_def pp_ref_inc_def split: if_splits\<close>)
  ultimately show ?thesis by (simp add: vm_ok_def)
qed

section \<open>Removing a mapping\<close>

text \<open>\<open>page_decref\<close> on a page with \<open>n + 1\<close> counted references.\<close>

lemma decref_forma:
  assumes "pp_ref (pages k f) = word_of_nat n" "0 < n" "n < 65536" "pp_link (pages k f) = None"
  shows "page_decref f k = Some (if n = 1
    then k\<lparr>pages := (pages k)(f := (pages k f)\<lparr>pp_ref := 0, pp_link := page_free_list k\<rparr>), page_free_list := Some f\<rparr>
    else k\<lparr>pages := (pages k)(f := (pages k f)\<lparr>pp_ref := word_of_nat (n - 1)\<rparr>)\<rparr>)"
proof -
  have m1: "(word_of_nat n :: 16 word) - 1 = word_of_nat (n - 1)"
    using assms(2) by (cases n) simp_all
  have z: "(word_of_nat (n - 1) :: 16 word) = 0 \<longleftrightarrow> n = 1"
  proof -
    have "unat (word_of_nat (n - 1) :: 16 word) = n - 1"
      using assms(3) by (simp only: unat_of_nat) (simp add: take_bit_nat_eq_self)
    with assms(2) show ?thesis by (auto simp flip: unat_eq_zero)
  qed
  show ?thesis
    using assms(1,4) by (simp add: page_decref_def page_free_def Let_def m1 [unfolded One_nat_def] z [unfolded One_nat_def] con_page_def)
qed

text \<open>Dropping the reference of an entry: the count goes down, the page is freed at 0, the entry is cleared.\<close>

lemma quitar_entrada_vm:
  assumes vm: "vm_ok D extra xs k" and h: "hay_tabla D k pd i" and j: "j < 1024"
    and ne: "pte_en k pd i j \<noteq> 0"
  defines "f \<equiv> marco (pte_en k pd i j)"
  shows "\<exists>k1. page_decref f k = Some k1
    \<and> vm_ok D extra (if refs D extra k f = 1 then f # xs else xs) (escribir (tabla k pd i) j 0 k1)
    \<and> mem k1 = mem k \<and> tlb k1 = tlb k \<and> solo_vm k k1
    \<and> (\<forall>q. q \<noteq> f \<longrightarrow> pp_ref (pages k1 q) = pp_ref (pages k q))"
proof -
  have pd: "pd \<in> D" "i < NPDU" using h by (auto simp: hay_tabla_def)
  note e = vm_okD(1) [OF vm] and C = conteoD [OF vm_okD(2) [OF vm]]
  note E = estructuraD [OF e]
  note F = entrada_contada [OF vm pd j ne, folded f_def]
  let ?n = "refs D extra k f"
  let ?xs' = "if ?n = 1 then f # xs else xs"
  have lk: "pp_link (pages k f) = None" using E(5) [OF F(4,5)] .
  obtain k1 where k1: "page_decref f k = Some k1" "k1 = (if ?n = 1
    then k\<lparr>pages := (pages k)(f := (pages k f)\<lparr>pp_ref := 0, pp_link := page_free_list k\<rparr>), page_free_list := Some f\<rparr>
    else k\<lparr>pages := (pages k)(f := (pages k f)\<lparr>pp_ref := word_of_nat (?n - 1)\<rparr>)\<rparr>)"
    using decref_forma [OF F(2,1,3) lk] by blast
  have m1: "mem k1 = mem k" "tlb k1 = tlb k" "npages k1 = npages k" by (simp_all add: k1(2))
  have sv: "solo_vm k k1" by (simp add: k1(2) solo_vm_def)
  have pr: "pp_ref (pages k1 q) = (if q = f then word_of_nat (?n - 1) else pp_ref (pages k q))" for q
    by (simp add: k1(2))
  have mm: "\<forall>g\<in>D \<union> tablas D k. mem k1 g = mem k g" by (simp add: m1)
  note S = misma_estructura [OF e mm] and P = pte_en_otra_pagina [OF e mm]
  have tt: "tabla k1 a b = tabla k a b" for a b by (simp add: tabla_def m1)
  have lib: "pag.libres k1 ?xs'"
  proof (cases "?n = 1")
    case True
    let ?kz = "k\<lparr>pages := (pages k)(f := (pages k f)\<lparr>pp_ref := 0\<rparr>)\<rparr>"
    have "pag.libres ?kz xs = pag.libres k xs" by (rule pag.libres_cong) simp_all
    with E(3) have "pag.libres ?kz xs" by simp
    moreover have "page_free f ?kz = Some k1"
      using True lk by (simp add: page_free_def k1(2) con_page_def)
    ultimately have "pag.libres k1 (f # xs)" using F(5) by (intro pag.meter_libres)
    with True show ?thesis by simp
  next
    case False
    then have "pag.libres k1 xs = pag.libres k xs" by (intro pag.libres_cong) (simp_all add: k1(2))
    with E(3) False show ?thesis by simp
  qed
  have fnt: "hay_tabla D k a b \<Longrightarrow> tabla k a b \<noteq> f" for a b using F(7) by (auto simp: tablas_def)
  have e1: "estructura D ?xs' k1"
    unfolding estructura_def S(1) tt m1
  proof (intro conjI)
    show "\<forall>p<npages k. p \<notin> set ?xs' \<longrightarrow> pp_link (pages k1 p) = None"
      using E(5) lk by (auto simp: k1(2))
    show "\<forall>pd i. hay_tabla D k pd i \<longrightarrow> tabla k pd i < npages k \<and> tabla k pd i \<notin> set ?xs' \<and> tabla k pd i \<notin> D"
      using E(7) fnt by auto
  qed (use E F(4,6) lib in auto)
  have h1: "hay_tabla D k1 pd i" using h by (simp add: S(1))
  note W = escribir_entrada [OF e1 h1 j, where v = 0]
  let ?k2 = "escribir (tabla k pd i) j 0 k1"
  have W': "estructura D ?xs' ?k2" "tablas D ?k2 = tablas D k"
    "\<And>a b c. a \<in> D \<Longrightarrow> b < NPDU \<Longrightarrow> pte_en ?k2 a b c = (if (a, b, c) = (pd, i, j) then 0 else pte_en k a b c)"
    "\<And>g. mapeos D ?k2 g = mapeos D k g - {(pd, i, j)}"
    using W by (simp_all add: tt S P(1))
  have fin: "finite (mapeos D k g)" for g using finite_mapeos [OF E(2)] .
  have im: "(pd, i, j) \<in> mapeos D k g \<longleftrightarrow> g = f" for g
    using pd j ne by (auto simp: mapeos_def f_def)
  have rf: "refs D extra ?k2 g = (if g = f then ?n - 1 else refs D extra k g)" for g
  proof (cases "g = f")
    case True
    with im [of f] fin [of f] have "card (mapeos D k f) > 0" by (auto simp: card_gt_0_iff)
    with True im [of f] fin show ?thesis by (simp add: refs_def W'(4) card_Diff_singleton)
  next
    case False
    with im [of g] show ?thesis by (simp add: refs_def W'(4))
  qed
  have "conteo D extra ?xs' ?k2"
    unfolding conteo_def rf W'(2)
  proof (intro conjI ballI allI impI)
    fix p assume "p \<in> set ?xs'"
    then show "pp_ref (pages ?k2 p) = 0" using C(1) F(1,5) by (auto simp: pr split: if_splits)
  next
    fix a b c assume abc: "a \<in> D" "b < NPDU" "c < 1024" "pte_en ?k2 a b c \<noteq> 0"
    with C(2) [of a b c] show "pte_en ?k2 a b c AND PTE_P = PTE_P"
      unfolding W'(3) [OF abc(1,2)] by (cases "(a, b, c) = (pd, i, j)") auto
  next
    fix g assume g: "0 < (if g = f then ?n - 1 else refs D extra k g)"
    then have g0: "refs D extra k g > 0" by (auto split: if_splits)
    note cg = C(3) [OF g0]
    show "pp_ref (pages ?k2 g) = word_of_nat (if g = f then ?n - 1 else refs D extra k g)"
      using cg by (simp add: pr)
    show "(if g = f then ?n - 1 else refs D extra k g) < 65536" using cg by auto
    show "g < npages ?k2" "g \<notin> D" "g \<notin> tablas D k" using cg by (simp_all add: m1)
    show "g \<notin> set ?xs'" using cg g by auto
  qed
  with W'(1) have "vm_ok D extra ?xs' ?k2" by (simp add: vm_ok_def)
  with k1(1) m1(1,2) sv pr show ?thesis by (intro exI [of _ k1]) simp
qed

section \<open>The operations as updates of one entry\<close>

text \<open>The slot of a virtual address.\<close>

abbreviation ranura :: "kernel \<Rightarrow> nat \<Rightarrow> uint32 \<Rightarrow> uint32" where
  "ranura k pd va \<equiv> pte_en k pd (unat (PDX va)) (unat (PTX va))"

definition mismas_entradas :: "nat set \<Rightarrow> kernel \<Rightarrow> kernel \<Rightarrow> bool" where
  "mismas_entradas D k k' \<longleftrightarrow> (\<forall>pd\<in>D. \<forall>i<NPDU. \<forall>j. pte_en k' pd i j = pte_en k pd i j)"

definition entrada_cambiada :: "nat set \<Rightarrow> nat \<Rightarrow> uint32 \<Rightarrow> uint32 \<Rightarrow> kernel \<Rightarrow> kernel \<Rightarrow> bool" where
  "entrada_cambiada D pd va v k k' \<longleftrightarrow> (\<forall>a\<in>D. \<forall>b<NPDU. \<forall>c.
     pte_en k' a b c = (if (a, b, c) = (pd, unat (PDX va), unat (PTX va)) then v else pte_en k a b c))"

text \<open>\<open>page_lookup\<close> reads the entry.\<close>

lemma lookup_vm:
  assumes vm: "vm_ok D extra xs k" and pd: "pd \<in> D" and va: "unat (PDX va) < NPDU"
  shows "page_lookup pd va k = Some (if ranura k pd va = 0 then None
    else Some (marco (ranura k pd va), tabla k pd (unat (PDX va)), unat (PTX va)))"
proof (cases "ranura k pd va = 0")
  case True
  then show ?thesis
    by (simp add: page_lookup_def walk_busca [OF vm pd va] leer_def pte_en_def split: if_splits)
next
  case False
  then have "mem k pd (unat (PDX va)) \<noteq> 0" by (auto simp: pte_en_def)
  moreover have "marco (ranura k pd va) < npages k"
    using entrada_contada(4) [OF vm pd va _ False] by simp
  ultimately show ?thesis
    using False by (simp add: page_lookup_def walk_busca [OF vm pd va] leer_def pte_en_def pa2page_marco PTE_P_def)
qed

lemma remove_vm:
  assumes vm: "vm_ok D extra xs k" and pd: "pd \<in> D" and va: "unat (PDX va) < NPDU"
  shows "\<exists>k' xs'. page_remove pd va k = Some k' \<and> vm_ok D extra xs' k' \<and> solo_vm k k'
    \<and> entrada_cambiada D pd va 0 k k'
    \<and> (if ranura k pd va = 0 then k' = k \<and> xs' = xs
       else xs' = (if refs D extra k (marco (ranura k pd va)) = 1 then marco (ranura k pd va) # xs else xs)
         \<and> tlb k' = tlb (tlb_invalidate pd va k)
         \<and> (\<forall>d\<in>D. mem k' d = mem k d) \<and> tablas D k' = tablas D k
         \<and> (\<forall>q. q \<noteq> marco (ranura k pd va) \<longrightarrow> pp_ref (pages k' q) = pp_ref (pages k q)))"
proof (cases "ranura k pd va = 0")
  case True
  have "page_remove pd va k = Some k"
    using True by (simp add: page_remove_def walk_busca [OF vm pd va] lookup_vm [OF vm pd va] leer_def pte_en_def
        split: if_splits)
  with True vm show ?thesis
    by (intro exI [of _ k] exI [of _ xs]) (auto simp: entrada_cambiada_def)
next
  case False
  let ?i = "unat (PDX va)" and ?j = "unat (PTX va)"
  have m: "mem k pd ?i \<noteq> 0" using False by (auto simp: pte_en_def)
  then have h: "hay_tabla D k pd ?i" using pd va by (simp add: hay_tabla_def)
  have j: "?j < 1024" by simp
  obtain k1 where k1: "page_decref (marco (ranura k pd va)) k = Some k1"
    "vm_ok D extra (if refs D extra k (marco (ranura k pd va)) = 1 then marco (ranura k pd va) # xs else xs)
       (escribir (tabla k pd ?i) ?j 0 k1)"
    "mem k1 = mem k" "tlb k1 = tlb k" "solo_vm k k1"
    "\<forall>q. q \<noteq> marco (ranura k pd va) \<longrightarrow> pp_ref (pages k1 q) = pp_ref (pages k q)"
    using quitar_entrada_vm [OF vm h j False] by blast
  let ?k2 = "escribir (tabla k pd ?i) ?j 0 k1"
  let ?k' = "tlb_invalidate pd va ?k2"
  have r: "ranura k pd va = mem k (tabla k pd ?i) ?j" using m by (simp add: pte_en_def)
  have rm: "page_remove pd va k = Some ?k'"
    using False m k1(1) unfolding r
    by (simp add: page_remove_def walk_busca [OF vm pd va] lookup_vm [OF vm pd va] leer_def r PTE_P_def)
  have fr: "npages ?k' = npages ?k2" "pages ?k' = pages ?k2" "page_free_list ?k' = page_free_list ?k2"
    "mem ?k' = mem ?k2"
    by (simp_all add: tlb_invalidate_def split: option.splits)
  note W = escribir_entrada [OF vm_okD(1) [OF vm] h j, where v = 0]
  have mm: "mem ?k' = mem (escribir (tabla k pd ?i) ?j 0 k)"
    unfolding fr(4) by (simp add: escribir_def k1(3))
  have pe: "pte_en ?k' = pte_en (escribir (tabla k pd ?i) ?j 0 k)" "tablas D ?k' = tablas D (escribir (tabla k pd ?i) ?j 0 k)"
    using mm by (rule pte_en_mem, rule tablas_mem)
  have "entrada_cambiada D pd va 0 k ?k'"
    unfolding entrada_cambiada_def pe using W(2) by simp
  moreover have "solo_vm k ?k'" using k1(5) by simp
  moreover have "tlb ?k' = tlb (tlb_invalidate pd va k)"
    using solo_vmD(2,3) [OF k1(5)] by (simp add: tlb_invalidate_def k1(4) split: option.splits)
  moreover have "tablas D ?k' = tablas D k" unfolding pe by (rule W(3))
  moreover have "\<forall>d\<in>D. mem ?k' d = mem k d"
    unfolding mm using estructuraD(7) [OF vm_okD(1) [OF vm] h] by (auto simp: escribir_def)
  moreover have "\<forall>q. q \<noteq> marco (ranura k pd va) \<longrightarrow> pp_ref (pages ?k' q) = pp_ref (pages k q)"
    using k1(6) by (simp add: fr(2))
  moreover have "vm_ok D extra (if refs D extra k (marco (ranura k pd va)) = 1 then marco (ranura k pd va) # xs else xs) ?k'"
    using k1(2) vm_ok_cong [OF fr] by simp
  ultimately show ?thesis using rm False by (intro exI [of _ ?k']) auto
qed

text \<open>
  \<open>page_insert\<close>: either there is no table and no free page, and nothing changes, or the
  entry becomes the address of the page and the bits of \<open>perm\<close>, whatever they are. The
  conditions say that the page is one the reference count describes and that the count does
  not overflow; the invariant is kept when \<open>perm\<close> has no bits of the frame number.
\<close>

lemma insert_bits:
  assumes vm: "vm_ok D extra xs k" and pd: "pd \<in> D" and va: "unat (PDX va) < NPDU"
    and pp: "contada D extra xs k pp"
  shows "\<exists>k' xs'. (if mem k pd (unat (PDX va)) = 0 \<and> xs = []
      then page_insert pd pp va perm k = Some (- E_NO_MEM, k) \<and> k' = k
      else page_insert pd pp va perm k = Some (0, k')
        \<and> entrada_cambiada D pd va (page2pa pp OR perm OR PTE_P) k k')
    \<and> (es_perm perm \<longrightarrow> vm_ok D extra xs' k') \<and> solo_vm k k'"
proof -
  let ?i = "unat (PDX va)" and ?j = "unat (PTX va)" and ?v = "page2pa pp OR perm OR PTE_P"
  obtain r xs1 k1 where w: "pgdir_walk pd va True k = Some (r, k1)" "vm_ok D extra xs1 k1" "solo_vm k k1"
    "set xs1 \<subseteq> set xs" "\<forall>pd'\<in>D. \<forall>i'<NPDU. \<forall>j. pte_en k1 pd' i' j = pte_en k pd' i' j"
    "\<forall>q. q \<notin> set xs \<longrightarrow> pp_ref (pages k1 q) = pp_ref (pages k q)"
    "tablas D k1 \<subseteq> tablas D k \<union> set xs"
    "if mem k pd ?i = 0 \<and> xs = [] then r = None \<and> k1 = k
       else r = Some (tabla k1 pd ?i, ?j) \<and> mem k1 pd ?i \<noteq> 0"
    using walk_crea [OF vm pd va] by blast
  show ?thesis
  proof (cases "mem k pd ?i = 0 \<and> xs = []")
    case True
    with w vm show ?thesis by (intro exI [of _ k] exI [of _ xs]) (simp add: page_insert_def)
  next
    case False
    with w(8) have r: "r = Some (tabla k1 pd ?i, ?j)" "mem k1 pd ?i \<noteq> 0" by simp_all
    have ppD: "pp < npages k" "pp \<notin> set xs" "pp \<notin> D" "pp \<notin> tablas D k"
      "pp_ref (pages k pp) = word_of_nat (refs D extra k pp)" "refs D extra k pp + 1 < 65536"
      using pp by (auto simp: contada_def)
    have mp: "mapeos D k1 = mapeos D k" by (auto simp: mapeos_def fun_eq_iff w(5))
    have "contada D extra xs1 k1 pp"
      using ppD w(4,6,7) solo_vmD(1) [OF w(3)] by (auto simp: contada_def refs_def mp)
    note vm2 = sumar_ref_vm [OF w(2) this]
    let ?k2 = "pp_ref_inc pp k1"
    obtain k3 xs3 where rm: "page_remove pd va ?k2 = Some k3" "vm_ok D (extra(pp := Suc (extra pp))) xs3 k3"
      "solo_vm ?k2 k3" "entrada_cambiada D pd va 0 ?k2 k3"
      "ranura ?k2 pd va = 0 \<or> (\<forall>d\<in>D. mem k3 d = mem ?k2 d)" "ranura ?k2 pd va = 0 \<longrightarrow> k3 = ?k2"
      using remove_vm [OF vm2 pd va] by (metis (lifting))
    have m3: "mem k3 pd ?i = mem k1 pd ?i"
      using rm(5,6) pd by (auto simp: pp_ref_inc_def)
    have h3: "hay_tabla D k3 pd ?i" using r(2) pd va by (simp add: hay_tabla_def m3)
    have t3: "tabla k3 pd ?i = tabla k1 pd ?i" by (simp add: tabla_def m3)
    have z3: "ranura k3 pd va = 0" using rm(4) pd va by (simp add: entrada_cambiada_def)
    have p20: "pp < 2 ^ 20" using ppD(1) estructuraD(1) [OF vm_okD(1) [OF vm]] by simp
    let ?k' = "escribir (tabla k1 pd ?i) ?j ?v k3"
    have vm': "vm_ok D extra xs3 ?k'" if perm: "es_perm perm"
    proof -
      have "marco ?v = pp" "?v AND PTE_P = PTE_P"
        using p20 perm by (simp_all add: marco_entrada or.assoc) (simp flip: or.assoc)
      from poner_entrada_vm [OF rm(2) h3 _ z3 this] t3 show ?thesis by simp
    qed
    note W = escribir_entrada [OF vm_okD(1) [OF rm(2)] h3, where j = ?j and v = ?v]
    have "entrada_cambiada D pd va ?v k ?k'"
      unfolding entrada_cambiada_def
    proof (intro ballI allI impI)
      fix a b c assume ab: "a \<in> D" "b < NPDU"
      have "pte_en ?k' a b c = (if (a, b, c) = (pd, ?i, ?j) then ?v else pte_en k3 a b c)"
        using W(2) [OF _ ab] t3 by simp
      moreover have "pte_en k3 a b c = (if (a, b, c) = (pd, ?i, ?j) then 0 else pte_en ?k2 a b c)"
        using rm(4) ab by (simp add: entrada_cambiada_def)
      moreover have "pte_en ?k2 a b c = pte_en k1 a b c"
        by (simp add: pte_en_def tabla_def pp_ref_inc_def)
      moreover have "pte_en k1 a b c = pte_en k a b c" using w(5) ab by blast
      ultimately show "pte_en ?k' a b c = (if (a, b, c) = (pd, ?i, ?j) then ?v else pte_en k a b c)" by simp
    qed
    moreover have "page_insert pd pp va perm k = Some (0, ?k')"
      using w(1) r rm(1) by (simp add: page_insert_def)
    moreover have "solo_vm k ?k'"
      using solo_vm_trans [OF w(3)] rm(3) solo_vm_trans [of k1 ?k2 k3] by simp
    ultimately show ?thesis
      using vm' by (intro exI [of _ ?k'] exI [of _ xs3]) (subst if_not_P [OF False], simp)
  qed
qed

lemma insert_vm:
  assumes vm: "vm_ok D extra xs k" and pd: "pd \<in> D" and va: "unat (PDX va) < NPDU"
    and pp: "contada D extra xs k pp" and perm: "es_perm perm"
  shows "\<exists>k' xs'. (if mem k pd (unat (PDX va)) = 0 \<and> xs = []
      then page_insert pd pp va perm k = Some (- E_NO_MEM, k) \<and> k' = k
      else page_insert pd pp va perm k = Some (0, k')
        \<and> entrada_cambiada D pd va (page2pa pp OR perm OR PTE_P) k k')
    \<and> vm_ok D extra xs' k' \<and> solo_vm k k'"
  using insert_bits [OF vm pd va pp, of perm] perm by blast

text \<open>A page just taken from the free list can be inserted.\<close>

lemma contada_nueva:
  assumes vm: "vm_ok D extra (p # ys) k"
  shows "\<exists>k1. page_alloc zero k = Some (Some p, k1) \<and> vm_ok D extra ys k1 \<and> contada D extra ys k1 p
    \<and> solo_vm k k1 \<and> mismas_entradas D k k1 \<and> (zero \<longrightarrow> mem k1 p = (\<lambda>_. 0))
    \<and> (\<forall>d\<in>D. \<forall>i<NPDU. mem k1 d i = mem k d i) \<and> refs D extra k1 p = 0"
proof -
  note a = page_alloc_vm(1,2,9-13) [OF vm, where zero = zero] and a' = page_alloc_vm(3-8) [OF vm]
  let ?k1 = "k\<lparr>page_free_list := pp_link (pages k p), pages := (pages k)(p := (pages k p)\<lparr>pp_link := None\<rparr>),
      mem := (if zero then (mem k)(p := (\<lambda>_. 0)) else mem k)\<rparr>"
  have "refs D extra ?k1 p = 0" using a'(5) a(6) by (simp add: refs_def)
  moreover have "contada D extra ys ?k1 p"
    using a' a(5) \<open>refs D extra ?k1 p = 0\<close> by (simp add: contada_def)
  moreover have "mismas_entradas D k ?k1" using a(3) by (simp add: mismas_entradas_def)
  moreover have "solo_vm k ?k1" by (simp add: solo_vm_def)
  moreover have "\<forall>d\<in>D. \<forall>i<NPDU. mem ?k1 d i = mem k d i" using a(7) by blast
  ultimately show ?thesis
    using a(1,2) by (intro exI [of _ ?k1]) auto
qed

end
