(* ===== verification/Pmap_Frame.thy ===== *)
theory Pmap_Frame
  imports Pmap_Inv
begin

text \<open>
  What \<open>page_insert\<close> and \<open>page_remove\<close> leave alone besides the entries: the contents of
  every page that is neither free nor part of a table, the directory slots in use, and the
  number of free pages. \<open>cambio\<close> collects it; the memory that programs see
  (\<open>palabra\<close>) changes only where the entry does.
\<close>

section \<open>One update of an address space\<close>

definition PTE_UWP :: uint32 where "PTE_UWP = PTE_P OR PTE_W OR PTE_U"

definition cambio :: "nat set \<Rightarrow> nat \<Rightarrow> uint32 \<Rightarrow> uint32 \<Rightarrow> kernel \<Rightarrow> nat list \<Rightarrow> kernel \<Rightarrow> nat list \<Rightarrow> bool" where
  "cambio D pd va v k xs k' xs' \<longleftrightarrow> solo_vm k k' \<and> entrada_cambiada D pd va v k k'
     \<and> (\<forall>f. f \<notin> D \<union> tablas D k \<union> set xs \<longrightarrow> mem k' f = mem k f)
     \<and> (\<forall>d\<in>D. \<forall>n. mem k' d n = mem k d n
          \<or> d = pd \<and> n = unat (PDX va) \<and> mem k d n = 0 \<and> mem k' d n AND PTE_UWP = PTE_UWP)
     \<and> length xs \<le> length xs' + (if mem k pd (unat (PDX va)) = 0 then 1 else 0)"

lemma cambioD:
  assumes "cambio D pd va v k xs k' xs'"
  shows "solo_vm k k'" "entrada_cambiada D pd va v k k'"
    "\<And>f. f \<notin> D \<Longrightarrow> f \<notin> tablas D k \<Longrightarrow> f \<notin> set xs \<Longrightarrow> mem k' f = mem k f"
    "\<And>d n. d \<in> D \<Longrightarrow> mem k' d n = mem k d n
          \<or> d = pd \<and> n = unat (PDX va) \<and> mem k d n = 0 \<and> mem k' d n AND PTE_UWP = PTE_UWP"
    "length xs \<le> length xs' + (if mem k pd (unat (PDX va)) = 0 then 1 else 0)"
  using assms unfolding cambio_def by blast+

lemma page_decref_mem: "page_decref p k = Some k' \<Longrightarrow> mem k' = mem k"
  by (auto simp: page_decref_def page_free_def Let_def split: if_splits)

lemma tlb_invalidate_mem [simp]: "mem (tlb_invalidate pd va k) = mem k"
  by (simp add: tlb_invalidate_def split: option.splits)

lemma vm_libres: "vm_ok D extra xs k \<Longrightarrow> pag.libres k xs"
  by (rule estructuraD(3) [OF vm_okD(1)])

section \<open>Removing\<close>

lemma remove_mem:
  assumes vm: "vm_ok D extra xs k" and pd: "pd \<in> D" and va: "unat (PDX va) < NPDU"
    and r: "page_remove pd va k = Some k'"
  shows "\<forall>f. f \<notin> tablas D k \<longrightarrow> mem k' f = mem k f"
proof (cases "ranura k pd va = 0")
  case True
  have "page_remove pd va k = Some k"
    using True by (simp add: page_remove_def walk_busca [OF vm pd va] lookup_vm [OF vm pd va] leer_def pte_en_def
        split: if_splits)
  with r show ?thesis by simp
next
  case False
  then have m: "mem k pd (unat (PDX va)) \<noteq> 0" by (auto simp: pte_en_def)
  then have t: "tabla k pd (unat (PDX va)) \<in> tablas D k" using pd va by (auto simp: tablas_def hay_tabla_def)
  have rn: "ranura k pd va = mem k (tabla k pd (unat (PDX va))) (unat (PTX va))" using m by (simp add: pte_en_def)
  from r m False obtain k1 where k1: "page_decref (marco (ranura k pd va)) k = Some k1"
    "k' = tlb_invalidate pd va (escribir (tabla k pd (unat (PDX va))) (unat (PTX va)) 0 k1)"
    unfolding rn by (auto simp: page_remove_def walk_busca [OF vm pd va] lookup_vm [OF vm pd va] leer_def rn PTE_P_def
        split: bind_splits)
  show ?thesis
  proof (intro allI impI)
    fix f assume "f \<notin> tablas D k"
    with t have "f \<noteq> tabla k pd (unat (PDX va))" by auto
    with k1(2) page_decref_mem [OF k1(1)] show "mem k' f = mem k f" by (auto simp: escribir_def)
  qed
qed

lemma remove_cambio:
  assumes vm: "vm_ok D extra xs k" and pd: "pd \<in> D" and va: "unat (PDX va) < NPDU"
  shows "\<exists>k' xs'. page_remove pd va k = Some k' \<and> vm_ok D extra xs' k' \<and> cambio D pd va 0 k xs k' xs'
    \<and> length xs \<le> length xs'"
proof -
  obtain k' xs' where r: "page_remove pd va k = Some k'" "vm_ok D extra xs' k'" "solo_vm k k'"
    "entrada_cambiada D pd va 0 k k'"
    "if ranura k pd va = 0 then k' = k \<and> xs' = xs
       else xs' = (if refs D extra k (marco (ranura k pd va)) = 1 then marco (ranura k pd va) # xs else xs)
         \<and> tlb k' = tlb (tlb_invalidate pd va k)
         \<and> (\<forall>d\<in>D. mem k' d = mem k d) \<and> tablas D k' = tablas D k
         \<and> (\<forall>q. q \<noteq> marco (ranura k pd va) \<longrightarrow> pp_ref (pages k' q) = pp_ref (pages k q))"
    using remove_vm [OF vm pd va] by (elim exE conjE) (rule that)
  have l: "length xs \<le> length xs'" and d: "\<forall>d\<in>D. mem k' d = mem k d" using r(5) by (auto split: if_splits)
  have i: "\<forall>f. f \<notin> D \<union> tablas D k \<union> set xs \<longrightarrow> mem k' f = mem k f"
    using remove_mem [OF vm pd va r(1)] by blast
  have "cambio D pd va 0 k xs k' xs'"
    unfolding cambio_def
  proof (intro conjI)
    show "\<forall>d\<in>D. \<forall>n. mem k' d n = mem k d n
        \<or> d = pd \<and> n = unat (PDX va) \<and> mem k d n = 0 \<and> mem k' d n AND PTE_UWP = PTE_UWP"
      using d by simp
  qed (use r(3,4) i l in simp_all)
  with r(1,2) l show ?thesis by blast
qed
section \<open>Inserting\<close>

lemma walk_marco:
  assumes vm: "vm_ok D extra xs k" and pd: "pd \<in> D" and va: "unat (PDX va) < NPDU"
    and w: "pgdir_walk pd va True k = Some (r, k')" and vm': "vm_ok D extra xs' k'"
  shows "\<forall>f. f \<notin> D \<union> set xs \<longrightarrow> mem k' f = mem k f"
    "\<forall>d\<in>D. \<forall>n. mem k' d n = mem k d n
        \<or> d = pd \<and> n = unat (PDX va) \<and> mem k d n = 0 \<and> mem k' d n AND PTE_UWP = PTE_UWP"
    "xs' = (if mem k pd (unat (PDX va)) = 0 then tl xs else xs)"
proof -
  let ?i = "unat (PDX va)"
  note e = vm_okD(1) [OF vm]
  have igual: "(\<forall>f. f \<notin> D \<union> set xs \<longrightarrow> mem k' f = mem k f)
      \<and> (\<forall>d\<in>D. \<forall>n. mem k' d n = mem k d n
        \<or> d = pd \<and> n = ?i \<and> mem k d n = 0 \<and> mem k' d n AND PTE_UWP = PTE_UWP) \<and> xs' = xs" if "k' = k"
    using that pag.libres_unica [OF vm_libres [OF vm'] ] vm_libres [OF vm] by simp
  consider "mem k pd ?i \<noteq> 0" | "mem k pd ?i = 0" "xs = []" | p ys where "mem k pd ?i = 0" "xs = p # ys"
    by (cases xs) auto
  then have "(\<forall>f. f \<notin> D \<union> set xs \<longrightarrow> mem k' f = mem k f)
      \<and> (\<forall>d\<in>D. \<forall>n. mem k' d n = mem k d n
        \<or> d = pd \<and> n = ?i \<and> mem k d n = 0 \<and> mem k' d n AND PTE_UWP = PTE_UWP)
      \<and> xs' = (if mem k pd ?i = 0 then tl xs else xs)"
  proof cases
    case 1
    then have "k' = k" using w by (auto simp: pgdir_walk_def Let_def split: bind_splits)
    with igual 1 show ?thesis by simp
  next
    case 2
    then have "page_free_list k = None" using estructuraD(3) [OF e] by (simp add: pag.libres_vacia)
    with 2 w have "k' = k" by (auto simp: pgdir_walk_def Let_def page_alloc_vacia)
    with igual 2 show ?thesis by simp
  next
    case 3
    note vm'' = vm [unfolded 3(2)]
    note a = page_alloc_vm(1,2) [OF vm'', where zero = True] page_alloc_vm(5) [OF vm'']
    let ?k1 = "k\<lparr>page_free_list := pp_link (pages k p), pages := (pages k)(p := (pages k p)\<lparr>pp_link := None\<rparr>),
      mem := (if True then (mem k)(p := (\<lambda>_. 0)) else mem k)\<rparr>"
    let ?v = "page2pa p OR PTE_P OR PTE_W OR PTE_U"
    have k': "k' = escribir pd ?i ?v (pp_ref_inc p ?k1)"
      using w 3(1) a(1) by (auto simp: pgdir_walk_def Let_def split: bind_splits if_splits)
    have m: "mem k' f n = (if f = pd \<and> n = ?i then ?v else if f = p then 0 else mem k f n)" for f n
      by (simp add: k' pp_ref_inc_def)
    have "pag.libres k' ys = pag.libres ?k1 ys"
      by (rule pag.libres_cong) (simp_all add: k' pp_ref_inc_def)
    then have "xs' = ys" using vm_libres [OF a(2)] vm_libres [OF vm'] pag.libres_unica by blast
    moreover have "?v AND PTE_UWP = PTE_UWP"
      unfolding PTE_UWP_def by (rule bit_word_eqI) (auto simp: bit_simps)
    ultimately show ?thesis using 3 a(3) pd by (auto simp: m fun_eq_iff)
  qed
  then show "\<forall>f. f \<notin> D \<union> set xs \<longrightarrow> mem k' f = mem k f"
    "\<forall>d\<in>D. \<forall>n. mem k' d n = mem k d n
        \<or> d = pd \<and> n = ?i \<and> mem k d n = 0 \<and> mem k' d n AND PTE_UWP = PTE_UWP"
    "xs' = (if mem k pd ?i = 0 then tl xs else xs)" by blast+
qed

lemma contada_walk:
  assumes "contada D extra xs k pp" "solo_vm k k1" "set xs1 \<subseteq> set xs"
    and "\<forall>pd'\<in>D. \<forall>i'<NPDU. \<forall>j. pte_en k1 pd' i' j = pte_en k pd' i' j"
    and "\<forall>q. q \<notin> set xs \<longrightarrow> pp_ref (pages k1 q) = pp_ref (pages k q)" "tablas D k1 \<subseteq> tablas D k \<union> set xs"
  shows "contada D extra xs1 k1 pp"
proof -
  have "mapeos D k1 = mapeos D k" by (auto simp: mapeos_def fun_eq_iff assms(4))
  with assms solo_vmD(1) [OF assms(2)] show ?thesis by (auto simp: contada_def refs_def)
qed

lemma insert_cambio:
  assumes vm: "vm_ok D extra xs k" and pd: "pd \<in> D" and va: "unat (PDX va) < NPDU"
    and pp: "contada D extra xs k pp" and perm: "es_perm perm"
    and m: "\<not> (mem k pd (unat (PDX va)) = 0 \<and> xs = [])"
  shows "\<exists>k' xs'. page_insert pd pp va perm k = Some (0, k') \<and> vm_ok D extra xs' k'
    \<and> cambio D pd va (page2pa pp OR perm OR PTE_P) k xs k' xs'
    \<and> mem k' pd (unat (PDX va)) \<noteq> 0"
proof -
  let ?i = "unat (PDX va)" and ?j = "unat (PTX va)" and ?v = "page2pa pp OR perm OR PTE_P"
  obtain k' xs' where ins: "page_insert pd pp va perm k = Some (0, k')" "entrada_cambiada D pd va ?v k k'"
    "vm_ok D extra xs' k'" "solo_vm k k'"
    using insert_vm [OF vm pd va pp perm] unfolding if_not_P [OF m] by blast
  obtain r xs1 k1 where w: "pgdir_walk pd va True k = Some (r, k1)" "vm_ok D extra xs1 k1" "solo_vm k k1"
    "set xs1 \<subseteq> set xs" "\<forall>pd'\<in>D. \<forall>i'<NPDU. \<forall>j. pte_en k1 pd' i' j = pte_en k pd' i' j"
    "\<forall>q. q \<notin> set xs \<longrightarrow> pp_ref (pages k1 q) = pp_ref (pages k q)"
    "tablas D k1 \<subseteq> tablas D k \<union> set xs" "r = Some (tabla k1 pd ?i, ?j)" "mem k1 pd ?i \<noteq> 0"
    using walk_crea [OF vm pd va] unfolding if_not_P [OF m] by blast
  note W = walk_marco [OF vm pd va w(1,2)]
  let ?k2 = "pp_ref_inc pp k1"
  note vm2 = sumar_ref_vm [OF w(2) contada_walk [OF pp w(3-7)]]
  obtain k3 xs3 where rm: "page_remove pd va ?k2 = Some k3" "vm_ok D (extra(pp := Suc (extra pp))) xs3 k3"
    "cambio D pd va 0 ?k2 xs1 k3 xs3" "length xs1 \<le> length xs3"
    using remove_cambio [OF vm2 pd va] by (elim exE conjE) (rule that)
  have k': "k' = escribir (tabla k1 pd ?i) ?j ?v k3"
    using ins(1) w(1,8) rm(1) by (simp add: page_insert_def)
  have m2: "mem ?k2 = mem k1" by (simp add: pp_ref_inc_def)
  note m2 = m2 tablas_mem [OF m2, of D]
  have h: "hay_tabla D k1 pd ?i" using w(9) pd va by (simp add: hay_tabla_def)
  then have t: "tabla k1 pd ?i \<in> tablas D k1" "tabla k1 pd ?i \<notin> D"
    using estructuraD(7) [OF vm_okD(1) [OF w(2)]] by (auto simp: tablas_def)
  have "pag.libres k' xs3 = pag.libres k3 xs3" by (rule pag.libres_cong) (simp_all add: k')
  then have x3: "xs' = xs3" using vm_libres [OF rm(2)] vm_libres [OF ins(3)] pag.libres_unica by blast
  have d3: "mem k3 d n = mem k1 d n" if "d \<in> D" for d n
    using cambioD(4) [OF rm(3) that, of n] w(9) by (auto simp: m2)
  have dk: "mem k' d n = mem k1 d n" if "d \<in> D" for d n
    using d3 [OF that] that t(2) by (auto simp: k')
  have c3: "mem k' f = mem k f" if f: "f \<notin> D" "f \<notin> tablas D k" "f \<notin> set xs" for f
  proof -
    have g: "f \<notin> tablas D k1" "f \<notin> set xs1" using f w(4,7) by auto
    then have "mem k3 f = mem k1 f" using cambioD(3) [OF rm(3) f(1)] by (simp add: m2)
    moreover have "mem k1 f = mem k f" using W(1) f by blast
    ultimately show ?thesis using g t(1) by (auto simp: k' escribir_def)
  qed
  have "cambio D pd va ?v k xs k' xs'"
    unfolding cambio_def
  proof (intro conjI)
    show "\<forall>d\<in>D. \<forall>n. mem k' d n = mem k d n
        \<or> d = pd \<and> n = ?i \<and> mem k d n = 0 \<and> mem k' d n AND PTE_UWP = PTE_UWP"
      using W(2) by (simp add: dk)
    show "length xs \<le> length xs' + (if mem k pd ?i = 0 then 1 else 0)"
      using rm(4) W(3) by (auto simp: x3)
  qed (use ins(2,4) c3 in blast)+
  with ins(1,3) dk [OF pd] w(9) show ?thesis by auto
qed

section \<open>The memory of an address space\<close>

text \<open>
  Below \<open>UTOP\<close> there are \<open>NPAG\<close> pages. \<open>entrada\<close> is the entry of a page and \<open>palabra\<close> the
  word a program finds at an offset of it, \<^term>\<open>None\<close> when nothing is mapped.
\<close>

definition NPAG :: nat where "NPAG = 977920"

definition entrada :: "kernel \<Rightarrow> nat \<Rightarrow> nat \<Rightarrow> uint32" where
  "entrada k pd q = pte_en k pd (q div 1024) (q mod 1024)"

definition palabra :: "kernel \<Rightarrow> nat \<Rightarrow> nat \<Rightarrow> nat \<Rightarrow> uint32 option" where
  "palabra k pd q w = (if entrada k pd q = 0 then None else Some (mem k (marco (entrada k pd q)) w))"

lemma NPAG_indices: "q < NPAG \<Longrightarrow> q div 1024 < NPDU" "q mod 1024 < 1024"
  by (simp_all add: NPAG_def NPDU_def div_less_iff_less_mult)

lemma pagina_bajo_UTOP: "va < UTOP \<longleftrightarrow> unat (PGNUM va) < NPAG"
  unfolding word_less_nat_alt unat_PGNUM by (simp add: UTOP_valor NPAG_def div_less_iff_less_mult)

lemma entrada_ranura: "entrada k pd (unat (PGNUM va)) = ranura k pd va"
  by (simp add: entrada_def PDX_de_PGNUM PTX_de_PGNUM)

lemma mismo_indice: "q div 1024 = p div 1024 \<and> q mod 1024 = p mod 1024 \<longleftrightarrow> q = (p :: nat)"
  by (metis mult_div_mod_eq)

lemma entrada_cambio:
  assumes "cambio D pd va v k xs k' xs'" "d \<in> D" "q < NPAG"
  shows "entrada k' d q = (if d = pd \<and> q = unat (PGNUM va) then v else entrada k d q)"
proof -
  have "pte_en k' d (q div 1024) (q mod 1024) =
      (if (d, q div 1024, q mod 1024) = (pd, unat (PDX va), unat (PTX va)) then v
       else pte_en k d (q div 1024) (q mod 1024))"
    using cambioD(2) [OF assms(1)] assms(2) NPAG_indices(1) [OF assms(3)] by (simp add: entrada_cambiada_def)
  then show ?thesis
    unfolding PDX_de_PGNUM PTX_de_PGNUM prod.inject mismo_indice by (simp only: entrada_def)
qed

lemma entrada_marco:
  assumes "vm_ok D extra xs k" "d \<in> D" "q < NPAG" "entrada k d q \<noteq> 0"
  shows "marco (entrada k d q) \<notin> D" "marco (entrada k d q) \<notin> tablas D k" "marco (entrada k d q) \<notin> set xs"
    "marco (entrada k d q) < npages k"
  using entrada_contada(4-7) [OF assms(1,2) NPAG_indices(1) [OF assms(3)] NPAG_indices(2)] assms(4)
  by (simp_all add: entrada_def)

lemma palabra_cambio:
  assumes "vm_ok D extra xs k" "cambio D pd va v k xs k' xs'" "d \<in> D" "q < NPAG"
    and "\<not> (d = pd \<and> q = unat (PGNUM va))"
  shows "palabra k' d q = palabra k d q"
proof -
  have e: "entrada k' d q = entrada k d q" using entrada_cambio [OF assms(2-4)] assms(5) by auto
  have "mem k' (marco (entrada k d q)) = mem k (marco (entrada k d q))" if "entrada k d q \<noteq> 0"
    using entrada_marco [OF assms(1,3,4) that] cambioD(3) [OF assms(2)] by blast
  then show ?thesis by (auto simp: palabra_def e fun_eq_iff)
qed

lemma palabra_cambio_propia:
  assumes "cambio D pd va v k xs k' xs'" "pd \<in> D" "unat (PGNUM va) < NPAG" "v \<noteq> 0"
    and "marco v \<notin> D" "marco v \<notin> tablas D k" "marco v \<notin> set xs"
  shows "palabra k' pd (unat (PGNUM va)) w = Some (mem k (marco v) w)"
  using assms(4) cambioD(3) [OF assms(1,5-7)] entrada_cambio [OF assms(1-3)] by (simp add: palabra_def)

section \<open>Directories\<close>

text \<open>Every directory maps itself at \<open>UVPT\<close>, and its tables are open to the user.\<close>

definition espacio_ok :: "nat set \<Rightarrow> kernel \<Rightarrow> bool" where
  "espacio_ok D k \<longleftrightarrow> (\<forall>d\<in>D. mem k d (unat (PDX UVPT)) = page2pa d OR PTE_P OR PTE_U
     \<and> (\<forall>i<NPDU. mem k d i \<noteq> 0 \<longrightarrow> mem k d i AND PTE_UWP = PTE_UWP))"

lemma PDX_UVPT: "unat (PDX UVPT) = 957"
  by (simp add: unat_PDX UTOP_valor)

lemma espacio_cambio:
  assumes "espacio_ok D k" "cambio D pd va v k xs k' xs'" "unat (PDX va) < NPDU"
  shows "espacio_ok D k'"
  unfolding espacio_ok_def
proof (intro ballI conjI allI impI)
  fix d assume d: "d \<in> D"
  note c = cambioD(4) [OF assms(2) d] and o = assms(1) [unfolded espacio_ok_def, rule_format, OF d]
  show "mem k' d (unat (PDX UVPT)) = page2pa d OR PTE_P OR PTE_U"
    using c [of 957] o assms(3) by (auto simp: PDX_UVPT NPDU_def)
  fix i assume i: "i < NPDU" "mem k' d i \<noteq> 0"
  then show "mem k' d i AND PTE_UWP = PTE_UWP" using c [of i] o by auto
qed

section \<open>Pages needed\<close>

text \<open>How many of the tables \<open>I\<close> an address space has yet to get.\<close>

definition faltan :: "nat set \<Rightarrow> kernel \<Rightarrow> nat \<Rightarrow> nat" where
  "faltan I k d = card {i\<in>I. mem k d i = 0}"

lemma faltan_cambio:
  assumes "cambio D pd va v k xs k' xs'" "d \<in> D" "finite I"
    and "mem k' pd (unat (PDX va)) \<noteq> 0" "mem k pd (unat (PDX va)) \<noteq> 0 \<or> pd = d \<and> unat (PDX va) \<in> I"
    and "faltan I k d + r \<le> length xs"
  shows "faltan I k' d + r \<le> length xs'"
proof -
  let ?S = "\<lambda>k. {i\<in>I. mem k d i = 0}"
  note c = cambioD(4) [OF assms(1,2)] and l = cambioD(5) [OF assms(1)]
  have "(0 :: uint32) AND PTE_UWP \<noteq> PTE_UWP" by (simp add: PTE_UWP_def pte_flags)
  then have sub: "?S k' \<subseteq> ?S k" using c by auto metis
  show ?thesis
  proof (cases "mem k pd (unat (PDX va)) = 0")
    case True
    then have "unat (PDX va) \<in> ?S k - ?S k'" using assms(4,5) by auto
    with sub have "card (?S k') < card (?S k)" using assms(3) by (intro psubset_card_mono) auto
    with l True assms(6) show ?thesis by (simp add: faltan_def)
  next
    case False
    have "card (?S k') \<le> card (?S k)" using sub assms(3) by (intro card_mono) auto
    with l False assms(6) show ?thesis by (simp add: faltan_def)
  qed
qed

end
