(* ===== verification/Pmap_Claims.thy ===== *)
theory Pmap_Claims
  imports Pmap_Inv
begin

text \<open>
  The properties of physical pages and page tables: the free list, insertion, removal and
  lookup as updates of one entry, the checks on user memory, and what a reference count of
  sixteen bits and an unchecked sum allow. The example kernel has sixteen pages, page 1 a
  page directory and pages 2, 3 and 4 free.
\<close>

section \<open>An example kernel\<close>

definition env_cero :: env where
  "env_cero = \<lparr>env_tf = tf_cero, env_link = None, env_id = 0, env_parent_id = 0, env_type = 0,
     env_status = ENV_FREE, env_runs = 0, env_cpunum = 0, env_pgdir = None, env_pgfault_upcall = 0,
     env_ipc_recving = False, env_ipc_dstva = 0, env_ipc_value = 0, env_ipc_from = 0, env_ipc_perm = 0,
     env_priority = 0, env_start_time = 0, env_finish_time = 0, env_count = 0\<rparr>"

definition k_base :: kernel where
  "k_base = \<lparr>npages = 16, pages = (\<lambda>_. \<lparr>pp_link = None, pp_ref = 0\<rparr>), page_free_list = None,
     mem = (\<lambda>_ _. 0), kern_pgdir = 0, cr3 = 0, tlb = [], user_mem_check_addr = 0,
     envs = (\<lambda>_. env_cero), env_free_list = None, curenv = None, cpu_id = 0, cpu_halted = False,
     last_env = None, sched_calls = 0, env_executed = 0, sched_time = 0\<rparr>"

definition k_ej :: kernel where
  "k_ej = k_base\<lparr>pages := (\<lambda>p. \<lparr>pp_link = (if p = 2 \<or> p = 3 then Some (p + 1) else None), pp_ref = 0\<rparr>),
     page_free_list := Some 2\<rparr>"

lemma k_ej_simps [simp]:
  "npages k_ej = 16" "mem k_ej p i = 0" "page_free_list k_ej = Some 2" "pp_ref (pages k_ej p) = 0"
  "pp_link (pages k_ej p) = (if p = 2 \<or> p = 3 then Some (p + 1) else None)"
  by (simp_all add: k_ej_def k_base_def)

lemma k_ej_libres: "pag.libres k_ej [2, 3, 4]"
  by (simp add: pag.libres_def)

lemma sin_tablas:
  assumes "\<forall>d\<in>D. \<forall>i<NPDU. mem k d i = 0"
  shows "hay_tabla D k pd i = False" "tablas D k = {}" "mapeos D k f = {}" "refs D (\<lambda>_. 0) k f = 0"
proof -
  show h: "hay_tabla D k pd i = False" for pd i using assms by (auto simp: hay_tabla_def)
  show "tablas D k = {}" by (simp add: tablas_def h)
  show m: "mapeos D k f = {}" using assms by (auto simp: mapeos_def pte_en_def)
  show "refs D (\<lambda>_. 0) k f = 0" by (simp add: refs_def m)
qed

lemma k_ej_vm: "vm_ok {1} (\<lambda>_. 0) [2, 3, 4] k_ej"
proof -
  have z: "\<forall>d\<in>{1}. \<forall>i<NPDU. mem k_ej d i = 0" by simp
  show ?thesis
    unfolding vm_ok_def estructura_def conteo_def sin_tablas [OF z]
    by (simp add: k_ej_libres pte_en_def)
qed

lemma k_ej_contada: "contada {1} (\<lambda>_. 0) [2, 3, 4] k_ej 5"
proof -
  have z: "\<forall>d\<in>{1}. \<forall>i<NPDU. mem k_ej d i = 0" by simp
  show ?thesis unfolding contada_def sin_tablas [OF z] by simp
qed

lemma PDX_PTX_ej: "unat (PDX 0x803000) = 2" "unat (PTX 0x803000) = 3"
  by (simp_all add: unat_PDX unat_PTX)

section \<open>The free list\<close>

text \<open>
  \<open>page_free\<close> and \<open>page_alloc\<close> are the two ends of one list. A page that is not free
  and has no references, given back, is the next page taken, its bytes are zeros, and the
  rest of the list is as before.
\<close>

theorem page_free_alloc:
  assumes "pag.libres k xs" "p \<notin> set xs" "p < npages k" "npages k \<le> 2 ^ 20"
    and "page_free p k = Some k1"
  shows "\<exists>k2. page_alloc True k1 = Some (Some p, k2) \<and> pag.libres k2 xs \<and> mem k2 p = (\<lambda>_. 0)
    \<and> pp_link (pages k2 p) = None"
proof -
  have n: "npages k1 = npages k" using solo_vmD(1) [OF page_free_solo [OF assms(5)]] .
  note f = pag.meter_cabeza [OF assms(5)]
  note a = page_alloc_forma [OF f, of True, unfolded n, OF assms(3,4)]
  let ?k2 = "k1\<lparr>page_free_list := pp_link (pages k1 p), pages := (pages k1)(p := (pages k1 p)\<lparr>pp_link := None\<rparr>),
     mem := (mem k1)(p := (\<lambda>_. 0))\<rparr>"
  have "sacar_pagina k1 = Some (p, ?k2)" using a by (simp add: sacar_pagina_def)
  from pag.meter_sacar(2) [OF assms(1,2,5) this] a show ?thesis
    by (intro exI [of _ ?k2]) simp
qed

lemma page_free_alloc_witness:
  "\<exists>k1 k2. page_free 5 k_ej = Some k1 \<and> page_alloc True k1 = Some (Some 5, k2) \<and> pag.libres k2 [2, 3, 4]"
proof -
  obtain k1 where "page_free 5 k_ej = Some k1" by (simp add: page_free_def)
  with page_free_alloc [OF k_ej_libres _ _ _ this] show ?thesis by auto
qed

text \<open>The pages \<open>page_init\<close> leaves free.\<close>

definition pagina_usable :: "nat \<Rightarrow> nat \<Rightarrow> bool" where
  "pagina_usable primera i \<longleftrightarrow> i \<noteq> 0 \<and> i \<noteq> 7 \<and> \<not> (160 \<le> i \<and> i < 256) \<and> \<not> (256 \<le> i \<and> i < primera)"

lemma paginas_fijas: "unat (PGNUM MPENTRY_PADDR) = 7" "unat (PGNUM IOPHYSMEM) = 160"
  "unat (PGNUM EXTPHYSMEM) = 256"
  by (simp_all add: unat_PGNUM memlayout)

lemma pi_orden: "(r :: page_info)\<lparr>pp_link := a, pp_ref := b\<rparr> = r\<lparr>pp_ref := b, pp_link := a\<rparr>"
  by (cases r) simp

lemma page_init_fold:
  assumes "page_free_list k = None"
  shows "pag.libres (fold (page_init_paso primera) [0..<n] k) (rev (filter (pagina_usable primera) [0..<n]))
    \<and> npages (fold (page_init_paso primera) [0..<n] k) = npages k
    \<and> (\<forall>i<n. pagina_usable primera i \<longrightarrow> pp_ref (pages (fold (page_init_paso primera) [0..<n] k) i) = 0)
    \<and> (\<forall>i<n. \<not> pagina_usable primera i \<longrightarrow> pp_link (pages (fold (page_init_paso primera) [0..<n] k) i) = None)"
proof (induction n)
  case 0
  with assms show ?case by (simp add: pag.libres_def)
next
  case (Suc n)
  let ?k = "fold (page_init_paso primera) [0..<n] k"
  let ?xs = "rev (filter (pagina_usable primera) [0..<n])"
  have nx: "n \<notin> set ?xs" by simp
  show ?case
  proof (cases "pagina_usable primera n")
    case False
    then have st: "page_init_paso primera n ?k = con_page n (\<lambda>p. p\<lparr>pp_link := None\<rparr>) ?k"
      by (auto simp: page_init_paso_def Let_def paginas_fijas pagina_usable_def)
    have "pag.libres (con_page n (\<lambda>p. p\<lparr>pp_link := None\<rparr>) ?k) ?xs = pag.libres ?k ?xs"
      by (rule pag.libres_cong) auto
    with Suc False show ?thesis by (auto simp: st less_Suc_eq)
  next
    case True
    then have st: "page_init_paso primera n ?k =
      (con_page n (\<lambda>p. p\<lparr>pp_link := page_free_list ?k, pp_ref := 0\<rparr>) (con_page n (\<lambda>p. p\<lparr>pp_link := None\<rparr>) ?k))
        \<lparr>page_free_list := Some n\<rparr>"
      by (auto simp: page_init_paso_def Let_def paginas_fijas pagina_usable_def)
    let ?kz = "con_page n (\<lambda>p. p\<lparr>pp_link := None, pp_ref := 0\<rparr>) ?k"
    have "pag.libres ?kz ?xs = pag.libres ?k ?xs" by (rule pag.libres_cong) auto
    moreover have "pag.libres ?k ?xs" using Suc by blast
    ultimately have "pag.libres ?kz ?xs" by (simp only:)
    moreover have "page_free n ?kz = Some (page_init_paso primera n ?k)"
      by (simp add: page_free_def st con_page_def pi_orden)
    ultimately have "pag.libres (page_init_paso primera n ?k) (n # ?xs)"
      using nx by (intro pag.meter_libres)
    with Suc True show ?thesis by (auto simp: st less_Suc_eq)
  qed
qed

text \<open>
  \<open>page_init\<close> puts on the free list, each once and last page first, exactly the pages
  of memory other than page 0, the start-up page of the other CPUs, the I/O hole and the
  pages from 1 MB to the first free one, and leaves their reference counts at 0.
\<close>

theorem page_init_libres:
  assumes "page_free_list k = None"
  shows "pag.libres (page_init primera k) (rev (filter (pagina_usable primera) [0..<npages k]))
    \<and> (\<forall>i<npages k. pagina_usable primera i \<longrightarrow> pp_ref (pages (page_init primera k) i) = 0)
    \<and> (\<forall>i<npages k. \<not> pagina_usable primera i \<longrightarrow> pp_link (pages (page_init primera k) i) = None)"
  using page_init_fold [OF assms, of primera "npages k"] by (simp add: page_init_def)

lemma page_init_libres_witness:
  "pag.libres (page_init 300 k_base) [15, 14, 13, 12, 11, 10, 9, 8, 6, 5, 4, 3, 2, 1]
    \<and> pp_ref (pages (page_init 300 k_base) 5) = 0 \<and> pp_link (pages (page_init 300 k_base) 7) = None"
proof -
  have u: "pagina_usable 300 5" "\<not> pagina_usable 300 7" "npages k_base = 16"
    by (simp_all add: pagina_usable_def k_base_def)
  have f: "rev (filter (pagina_usable 300) [0..<16]) = [15, 14, 13, 12, 11, 10, 9, 8, 6, 5, 4, 3, 2, 1]"
    by (simp add: pagina_usable_def upt_rec)
  have "page_free_list k_base = None" by (simp add: k_base_def)
  from page_init_libres [OF this, of 300] u f show ?thesis by simp
qed

section \<open>Page tables\<close>

text \<open>
  C11: \<open>page_insert\<close> is an update of one entry. For a well-formed set of address spaces and
  a page whose count is right and not about to overflow, inserting it below \<open>UTOP\<close> either
  fails with \<open>-E_NO_MEM\<close>, when a table is missing and no page is free, and changes
  nothing; or makes the entry of \<open>va\<close> the page with \<open>perm | PTE_P\<close>, leaves every other
  entry of every address space as it was, and keeps counts and tables well formed.
\<close>

theorem page_insert_refina:
  assumes "vm_ok D extra xs k" "pd \<in> D" "va < UTOP" "contada D extra xs k pp" "es_perm perm"
  shows "\<exists>k' xs'. (if mem k pd (unat (PDX va)) = 0 \<and> xs = []
      then page_insert pd pp va perm k = Some (- E_NO_MEM, k) \<and> k' = k
      else page_insert pd pp va perm k = Some (0, k')
        \<and> entrada_cambiada D pd va (page2pa pp OR perm OR PTE_P) k k')
    \<and> vm_ok D extra xs' k'"
  using insert_vm [OF assms(1,2) _ assms(4,5)] PDX_bajo_UTOP [OF assms(3)] by blast

lemma page_insert_refina_witness:
  "\<exists>k' xs'. (if mem k_ej 1 (unat (PDX 0x803000)) = 0 \<and> [2, 3, 4] = ([] :: nat list)
      then page_insert 1 5 0x803000 PTE_W k_ej = Some (- E_NO_MEM, k_ej) \<and> k' = k_ej
      else page_insert 1 5 0x803000 PTE_W k_ej = Some (0, k')
        \<and> entrada_cambiada {1} 1 0x803000 (page2pa 5 OR PTE_W OR PTE_P) k_ej k')
    \<and> vm_ok {1} (\<lambda>_. 0) xs' k'"
  by (rule page_insert_refina [OF k_ej_vm _ _ k_ej_contada]) (simp_all add: UTOP_valor)

text \<open>The example kernel after a \<open>page_insert\<close>.\<close>

lemma k_ej_mapeado:
  obtains k' xs' where "page_insert 1 5 0x803000 PTE_W k_ej = Some (0, k')" "vm_ok {1} (\<lambda>_. 0) xs' k'"
    "ranura k' 1 0x803000 = page2pa 5 OR PTE_W OR PTE_P" "solo_vm k_ej k'"
    "entrada_cambiada {1} 1 0x803000 (page2pa 5 OR PTE_W OR PTE_P) k_ej k'"
proof -
  have "unat (PDX 0x803000) < NPDU" by (simp add: PDX_PTX_ej NPDU_def)
  from insert_vm [OF k_ej_vm _ this k_ej_contada es_perm_flags(2)] obtain k' xs' where
    k': "page_insert 1 5 0x803000 PTE_W k_ej = Some (0, k')" "vm_ok {1} (\<lambda>_. 0) xs' k'" "solo_vm k_ej k'"
      "entrada_cambiada {1} 1 0x803000 (page2pa 5 OR PTE_W OR PTE_P) k_ej k'" by auto
  then have "ranura k' 1 0x803000 = page2pa 5 OR PTE_W OR PTE_P"
    by (simp add: entrada_cambiada_def PDX_PTX_ej NPDU_def)
  with k' that show thesis by blast
qed

text \<open>
  \<open>page_remove\<close> clears the entry of \<open>va\<close> and no other. The page that was mapped loses
  one reference and goes to the free list exactly when that was its last; the TLB entry is
  invalidated when the address space is the current one; where nothing was mapped nothing
  changes.
\<close>

theorem page_remove_refina:
  assumes "vm_ok D extra xs k" "pd \<in> D" "va < UTOP"
  shows "\<exists>k' xs'. page_remove pd va k = Some k' \<and> vm_ok D extra xs' k'
    \<and> entrada_cambiada D pd va 0 k k'
    \<and> (if ranura k pd va = 0 then k' = k
       else xs' = (if refs D extra k (marco (ranura k pd va)) = 1 then marco (ranura k pd va) # xs else xs)
         \<and> tlb k' = tlb (tlb_invalidate pd va k))"
  using remove_vm [OF assms(1,2) PDX_bajo_UTOP [OF assms(3)]] by (metis (lifting))

lemma page_remove_refina_witness:
  "\<exists>k k' xs'. page_insert 1 5 0x803000 PTE_W k_ej = Some (0, k) \<and> page_remove 1 0x803000 k = Some k'
    \<and> vm_ok {1} (\<lambda>_. 0) xs' k' \<and> entrada_cambiada {1} 1 0x803000 0 k k'"
proof -
  obtain k xs where "page_insert 1 5 0x803000 PTE_W k_ej = Some (0, k)" "vm_ok {1} (\<lambda>_. 0) xs k"
    by (rule k_ej_mapeado)
  with page_remove_refina [of "{1}" "\<lambda>_. 0" xs k 1 "0x803000"] show ?thesis
    by (auto simp: UTOP_valor)
qed

text \<open>
  Insertion and lookup. After a successful \<open>page_insert\<close>, \<open>page_lookup\<close> at the same
  address finds that page, with an entry that holds the permissions, and at every other
  page below \<open>UTOP\<close> of every address space it finds what it found before.
\<close>

theorem page_insert_lookup:
  assumes "vm_ok D extra xs k" "pd \<in> D" "va < UTOP" "contada D extra xs k pp" "es_perm perm"
    and "page_insert pd pp va perm k = Some (0, k')"
  shows "(\<exists>pte. page_lookup pd va k' = Some (Some (pp, pte)) \<and> leer k' pte = (page2pa pp OR perm OR PTE_P))
    \<and> (\<forall>pd'\<in>D. \<forall>va'<UTOP. (pd', PGNUM va') \<noteq> (pd, PGNUM va) \<longrightarrow>
         map_option (map_option fst) (page_lookup pd' va' k') = map_option (map_option fst) (page_lookup pd' va' k))"
proof -
  let ?v = "page2pa pp OR perm OR PTE_P"
  have va: "unat (PDX va) < NPDU" using PDX_bajo_UTOP [OF assms(3)] .
  obtain xs' where i: "vm_ok D extra xs' k'" "entrada_cambiada D pd va ?v k k'"
    using insert_vm [OF assms(1,2) va assms(4,5)] assms(6) by (auto simp: E_NO_MEM_def split: if_splits)
  have e: "ranura k' pd' va' = (if (pd', PGNUM va') = (pd, PGNUM va) then ?v else ranura k pd' va')"
    if "pd' \<in> D" "unat (PDX va') < NPDU" for pd' va'
  proof -
    have "(PGNUM va' = PGNUM va) = (unat (PDX va') = unat (PDX va) \<and> unat (PTX va') = unat (PTX va))"
      using PGNUM_iff [of va' va] .
    with i(2) that show ?thesis by (auto simp: entrada_cambiada_def)
  qed
  have v0: "?v \<noteq> 0" by (simp flip: or.assoc)
  have p20: "pp < 2 ^ 20"
    using assms(4) estructuraD(1) [OF vm_okD(1) [OF assms(1)]] by (auto simp: contada_def)
  have v: "marco ?v = pp" using p20 assms(5) by (simp add: marco_entrada or.assoc)
  have "ranura k' pd va = ?v" using e [OF assms(2) va] by simp
  moreover from this v0 have "leer k' (tabla k' pd (unat (PDX va)), unat (PTX va)) = ?v"
    by (auto simp: leer_def pte_en_def split: if_splits)
  ultimately have "\<exists>pte. page_lookup pd va k' = Some (Some (pp, pte)) \<and> leer k' pte = ?v"
    using lookup_vm [OF i(1) assms(2) va] v v0 by auto
  moreover have "map_option (map_option fst) (page_lookup pd' va' k') = map_option (map_option fst) (page_lookup pd' va' k)"
    if "pd' \<in> D" "va' < UTOP" "(pd', PGNUM va') \<noteq> (pd, PGNUM va)" for pd' va'
  proof -
    have va': "unat (PDX va') < NPDU" using PDX_bajo_UTOP [OF that(2)] .
    have "ranura k' pd' va' = ranura k pd' va'" using e [OF that(1) va'] unfolding if_not_P [OF that(3)] .
    with lookup_vm [OF i(1) that(1) va'] lookup_vm [OF assms(1) that(1) va'] show ?thesis by simp
  qed
  ultimately show ?thesis by blast
qed

lemma page_insert_lookup_witness:
  "\<exists>k'. page_insert 1 5 0x803000 PTE_W k_ej = Some (0, k')
    \<and> (\<exists>pte. page_lookup 1 0x803000 k' = Some (Some (5, pte)) \<and> leer k' pte = (page2pa 5 OR PTE_W OR PTE_P))"
proof -
  obtain k' where k': "page_insert 1 5 0x803000 PTE_W k_ej = Some (0, k')" by (rule k_ej_mapeado)
  have "(0x803000 :: uint32) < UTOP" by (simp add: UTOP_valor)
  from page_insert_lookup [OF k_ej_vm _ this k_ej_contada es_perm_flags(2) k'] k' show ?thesis by auto
qed

section \<open>Checking user memory\<close>

text \<open>An address the entry of its page lets the user reach with permissions \<open>perm\<close>.\<close>

definition accesible :: "kernel \<Rightarrow> nat \<Rightarrow> uint32 \<Rightarrow> uint32 \<Rightarrow> bool" where
  "accesible k pd perm a \<longleftrightarrow> ranura k pd a AND (perm OR PTE_P) = (perm OR PTE_P)"

lemma accesible_pagina: "accesible k pd perm (pagina_va (unat a div 4096)) = accesible k pd perm a"
  using PGNUM_pagina_va [of a] by (simp add: accesible_def PGNUM_iff)

lemma cero_inaccesible: "(0 :: uint32) AND (perm OR PTE_P) \<noteq> (perm OR PTE_P)"
proof
  assume "(0 :: uint32) AND (perm OR PTE_P) = (perm OR PTE_P)"
  then have "perm OR PTE_P = 0" by simp
  then show False using entrada_presente(2) by blast
qed

lemma user_mem_bucle_find:
  assumes vm: "vm_ok D extra xs k" and pd: "pd \<in> D" and M: "M \<le> 977920" and m: "m \<le> M" and n: "M - m < n"
  shows "user_mem_bucle pd va_lo (pagina_va M) perm k (pagina_va m) n
    = (case find (\<lambda>q. \<not> accesible k pd perm (pagina_va q)) [m..<M] of
         None \<Rightarrow> Some (0, k)
       | Some q \<Rightarrow> Some (- E_FAULT, k\<lparr>user_mem_check_addr :=
            (if pagina_va q > va_lo then pagina_va q else va_lo)\<rparr>))"
  using m n
proof (induction n arbitrary: m)
  case (Suc n)
  have less: "pagina_va m < pagina_va M \<longleftrightarrow> m < M"
    using M Suc.prems by (intro pagina_va_less) auto
  show ?case
  proof (cases "m < M")
    case False
    with less show ?thesis by simp
  next
    case True
    have va: "unat (PDX (pagina_va m)) < NPDU"
      using True M by (simp add: unat_PDX unat_pagina_va NPDU_def div_less_iff_less_mult)
    note w = walk_busca [OF vm pd va]
    have up: "[m..<M] = m # [Suc m..<M]" using True by (rule upt_conv_Cons)
    have ih: "user_mem_bucle pd va_lo (pagina_va M) perm k (pagina_va (Suc m)) n
      = (case find (\<lambda>q. \<not> accesible k pd perm (pagina_va q)) [Suc m..<M] of
           None \<Rightarrow> Some (0, k)
         | Some q \<Rightarrow> Some (- E_FAULT, k\<lparr>user_mem_check_addr :=
              (if pagina_va q > va_lo then pagina_va q else va_lo)\<rparr>))"
      using Suc.IH [of "Suc m"] True Suc.prems by simp
    show ?thesis
    proof (cases "accesible k pd perm (pagina_va m)")
      case ac: True
      then have nz: "mem k pd (unat (PDX (pagina_va m))) \<noteq> 0"
        using cero_inaccesible [of perm] by (auto simp: accesible_def pte_en_def)
      with ac have "leer k (tabla k pd (unat (PDX (pagina_va m))), unat (PTX (pagina_va m))) AND (perm OR PTE_P) = (perm OR PTE_P)"
        by (simp add: accesible_def pte_en_def leer_def)
      with nz ac less True ih show ?thesis by (simp add: w up pagina_va_suma)
    next
      case na: False
      then have "mem k pd (unat (PDX (pagina_va m))) \<noteq> 0 \<Longrightarrow>
        leer k (tabla k pd (unat (PDX (pagina_va m))), unat (PTX (pagina_va m))) AND (perm OR PTE_P) \<noteq> (perm OR PTE_P)"
        by (simp add: accesible_def pte_en_def leer_def)
      with na less True show ?thesis by (simp add: w up)
    qed
  qed
qed simp

text \<open>A range of addresses and the pages it touches.\<close>

lemma accesible_palabra:
  "b < 4294967296 \<Longrightarrow> accesible k pd perm (word_of_nat b) = accesible k pd perm (pagina_va (b div 4096))"
  using accesible_pagina [of k pd perm "word_of_nat b"] by (simp add: unat_de_nat32)

lemma rango_paginas:
  assumes "a < hi" "hi + 4095 < 4294967296"
  shows "(\<forall>b. a \<le> b \<longrightarrow> b < hi \<longrightarrow> accesible k pd perm (word_of_nat b))
    \<longleftrightarrow> (\<forall>q. a div 4096 \<le> q \<longrightarrow> q < (hi + 4095) div 4096 \<longrightarrow> accesible k pd perm (pagina_va q))"
    (is "?R \<longleftrightarrow> ?P")
proof
  assume R: ?R
  show ?P
  proof (intro allI impI)
    fix q assume q: "a div 4096 \<le> q" "q < (hi + 4095) div 4096"
    define b where "b = max (4096 * q) a"
    have "b div 4096 = q" "a \<le> b" "b < hi" using q assms(1) by (auto simp: b_def max_def)
    with R accesible_palabra [of b] assms(2) show "accesible k pd perm (pagina_va q)" by auto
  qed
next
  assume P: ?P
  show ?R
  proof (intro allI impI)
    fix b assume b: "a \<le> b" "b < hi"
    have "a div 4096 \<le> b div 4096" "b div 4096 < (hi + 4095) div 4096" using b by auto
    with P accesible_palabra [of b] b(2) assms(2) show "accesible k pd perm (word_of_nat b)" by auto
  qed
qed

lemma primera_mala:
  assumes "find (\<lambda>q. \<not> accesible k pd perm (pagina_va q)) [unat va div 4096..<(hi + 4095) div 4096] = Some q"
    and hi: "unat va < hi" "hi + 4095 < 4294967296"
  defines "b \<equiv> max (4096 * q) (unat va)"
  shows "unat va \<le> b" "b < hi" "(if pagina_va q > va then pagina_va q else va) = word_of_nat b"
    "\<not> accesible k pd perm (word_of_nat b)"
    "\<forall>c. unat va \<le> c \<longrightarrow> c < b \<longrightarrow> accesible k pd perm (word_of_nat c)"
proof -
  let ?lo = "unat va div 4096" and ?M = "(hi + 4095) div 4096"
  obtain i where i: "i < ?M - ?lo" "q = ?lo + i" "\<not> accesible k pd perm (pagina_va q)"
    "\<forall>j<i. accesible k pd perm (pagina_va (?lo + j))"
    using assms(1) by (auto simp: find_Some_iff)
  have q: "?lo \<le> q" "q < ?M" using i(1,2) by auto
  have ant: "accesible k pd perm (pagina_va j)" if "?lo \<le> j" "j < q" for j
    using i(4) [rule_format, of "j - ?lo"] that i(2) by simp
  have q20: "q < 1048576" using q(2) hi(2) by simp
  have bq: "b div 4096 = q" using q by (auto simp: b_def max_def)
  show ab: "unat va \<le> b" "b < hi" using q(2) hi(1) by (auto simp: b_def max_def)
  show "(if pagina_va q > va then pagina_va q else va) = word_of_nat b"
  proof (cases "pagina_va q > va")
    case True
    then have "unat va < 4096 * q" by (simp add: word_less_nat_alt unat_pagina_va [OF q20])
    then have "b = 4096 * q" by (simp add: b_def)
    with True show ?thesis by (simp only: pagina_va_def if_True)
  next
    case False
    then have "\<not> unat va < 4096 * q" by (simp add: word_less_nat_alt unat_pagina_va [OF q20])
    then have "b = unat va" by (simp add: b_def)
    with False show ?thesis by simp
  qed
  show "\<not> accesible k pd perm (word_of_nat b)" using accesible_palabra [of b] ab(2) hi(2) bq i(3) by simp
  show "\<forall>c. unat va \<le> c \<longrightarrow> c < b \<longrightarrow> accesible k pd perm (word_of_nat c)"
  proof (intro allI impI)
    fix c assume c: "unat va \<le> c" "c < b"
    have "?lo \<le> c div 4096" using c(1) by (simp add: div_le_mono)
    moreover have "c div 4096 < q" using c by (auto simp: b_def max_def split: if_splits)
    ultimately show "accesible k pd perm (word_of_nat c)"
      using accesible_palabra [of c] ant c(2) ab(2) hi(2) by simp
  qed
qed

text \<open>The page where a check ends, with the sum in 32 bits as the code makes it.\<close>

definition pagina_fin :: "uint32 \<Rightarrow> uint32 \<Rightarrow> nat" where
  "pagina_fin va len = (unat va + unat len + 4095) mod 4294967296 div 4096"

lemma ROUNDUP_fin: "ROUNDUP (va + len) PGSIZE = pagina_va (pagina_fin va len)"
proof -
  have "unat (va + len + PGSIZE - 1) = unat (va + len + 4095)" by (simp add: PGSIZE_def algebra_simps)
  also have "\<dots> = (unat va + unat len + 4095) mod 4294967296" by (simp add: unat_word_ariths mod_simps)
  finally show ?thesis by (simp add: ROUNDUP_def ROUNDDOWN_pagina pagina_fin_def)
qed

lemma pagina_fin_cota: "pagina_fin va len < 1048576"
proof -
  have "(unat va + unat len + 4095) mod 4294967296 < 1048576 * 4096" by simp
  then show ?thesis unfolding pagina_fin_def by (simp only: div_less_iff_less_mult zero_less_numeral)
qed

lemma user_mem_check_forma:
  assumes vm: "vm_ok D extra xs k" and e: "env_pgdir (envs k e) = Some pd" and pd: "pd \<in> D"
  shows "user_mem_check e va len perm k =
    (if pagina_fin va len > 977920 then Some (- E_FAULT, k\<lparr>user_mem_check_addr := va\<rparr>)
     else case find (\<lambda>q. \<not> accesible k pd perm (pagina_va q)) [unat va div 4096..<pagina_fin va len] of
         None \<Rightarrow> Some (0, k)
       | Some q \<Rightarrow> Some (- E_FAULT, k\<lparr>user_mem_check_addr :=
            (if pagina_va q > va then pagina_va q else va)\<rparr>))"
proof -
  let ?lo = "unat va div 4096" and ?M = "pagina_fin va len"
  have UT: "UTOP = pagina_va 977920" by (rule pagina_va_eq) (simp add: UTOP_valor)
  have lo20: "?lo < 1048576" using unat_cota [of va] by (simp add: div_less_iff_less_mult)
  note M20 = pagina_fin_cota [of va len]
  have lt: "pagina_va ?lo < pagina_va ?M \<longleftrightarrow> ?lo < ?M" using lo20 M20 by (simp add: pagina_va_less)
  have gt: "pagina_va 977920 < pagina_va ?M \<longleftrightarrow> 977920 < ?M" using M20 by (simp add: pagina_va_less)
  show ?thesis
  proof (cases "?M > 977920 \<or> \<not> ?lo < ?M")
    case True
    then show ?thesis using gt lt by (auto simp: user_mem_check_def ROUNDUP_fin ROUNDDOWN_pagina UT)
  next
    case False
    have "user_mem_check e va len perm k
      = user_mem_bucle pd va (pagina_va ?M) perm k (pagina_va ?lo) (2 ^ 20)"
      using gt False lt e by (simp add: user_mem_check_def ROUNDUP_fin ROUNDDOWN_pagina UT)
    also have "\<dots> = (case find (\<lambda>q. \<not> accesible k pd perm (pagina_va q)) [?lo..<?M] of
         None \<Rightarrow> Some (0, k)
       | Some q \<Rightarrow> Some (- E_FAULT, k\<lparr>user_mem_check_addr :=
            (if pagina_va q > va then pagina_va q else va)\<rparr>))"
      using False M20 by (intro user_mem_bucle_find [OF vm pd]) auto
    finally show ?thesis using False by simp
  qed
qed

lemma pagina_fin_recta: "unat va + unat len + 4095 < 4294967296 \<Longrightarrow> pagina_fin va len = (unat va + unat len + 4095) div 4096"
  by (simp add: pagina_fin_def)

text \<open>
  C12: \<open>user_mem_check\<close>, for every range. It returns 0 exactly when the end of the range,
  rounded up in 32 bits, is not above \<open>UTOP\<close> and every page from that of \<open>va\<close> up to that
  end is mapped with all the permissions asked for and \<open>PTE_P\<close>, and then changes nothing;
  otherwise it returns \<open>-E_FAULT\<close>. For a range that is not empty and does not reach the end
  of the address space this says that every address of it is below \<open>UTOP\<close> and accessible,
  and the address recorded is the first that is not, or \<open>va\<close> when the range goes past
  \<open>UTOP\<close>. For one that does, the end wraps around and the pages in between are not checked.
\<close>

theorem user_mem_check_correcto:
  assumes vm: "vm_ok D extra xs k" and e: "env_pgdir (envs k e) = Some pd" and pd: "pd \<in> D"
  shows "\<exists>r k'. user_mem_check e va len perm k = Some (r, k') \<and> r \<in> {0, - E_FAULT} \<and> (r = 0 \<longrightarrow> k' = k)
    \<and> (r = 0 \<longleftrightarrow> 4096 * pagina_fin va len \<le> unat UTOP
        \<and> (\<forall>q. unat va div 4096 \<le> q \<longrightarrow> q < pagina_fin va len \<longrightarrow> accesible k pd perm (pagina_va q)))
    \<and> (4096 * pagina_fin va len > unat UTOP \<longrightarrow> user_mem_check_addr k' = va)
    \<and> (0 < len \<longrightarrow> unat va + unat len + 4095 < 4294967296 \<longrightarrow>
        (4096 * pagina_fin va len \<le> unat UTOP \<longleftrightarrow> unat va + unat len \<le> unat UTOP)
        \<and> (r = 0 \<longleftrightarrow> unat va + unat len \<le> unat UTOP
            \<and> (\<forall>b. unat va \<le> b \<longrightarrow> b < unat va + unat len \<longrightarrow> accesible k pd perm (word_of_nat b)))
        \<and> (r \<noteq> 0 \<longrightarrow> unat va + unat len \<le> unat UTOP \<longrightarrow>
             (\<exists>b. user_mem_check_addr k' = word_of_nat b \<and> unat va \<le> b \<and> b < unat va + unat len
                \<and> \<not> accesible k pd perm (word_of_nat b)
                \<and> (\<forall>c. unat va \<le> c \<longrightarrow> c < b \<longrightarrow> accesible k pd perm (word_of_nat c)))))"
proof -
  let ?M = "pagina_fin va len" and ?hi = "unat va + unat len"
  let ?f = "find (\<lambda>q. \<not> accesible k pd perm (pagina_va q)) [unat va div 4096..<?M]"
  note f = user_mem_check_forma [OF vm e pd, of va len perm]
  have u: "4096 * ?M \<le> unat UTOP \<longleftrightarrow> \<not> ?M > 977920" by (auto simp: UTOP_valor)
  have ef: "- E_FAULT \<noteq> 0" by (simp add: kern_errors)
  have N: "?f = None \<longleftrightarrow> (\<forall>q. unat va div 4096 \<le> q \<longrightarrow> q < ?M \<longrightarrow> accesible k pd perm (pagina_va q))"
    by (auto simp: find_None_iff)
  obtain r k' where rk: "user_mem_check e va len perm k = Some (r, k')" "r \<in> {0, - E_FAULT}" "r = 0 \<Longrightarrow> k' = k"
    "r = 0 \<longleftrightarrow> \<not> ?M > 977920 \<and> ?f = None" "?M > 977920 \<Longrightarrow> user_mem_check_addr k' = va"
    "\<And>q. \<not> ?M > 977920 \<Longrightarrow> ?f = Some q \<Longrightarrow> user_mem_check_addr k' = (if pagina_va q > va then pagina_va q else va)"
  proof (cases "?M > 977920")
    case True
    with f ef show thesis by (intro that [of "- E_FAULT" "k\<lparr>user_mem_check_addr := va\<rparr>"]) auto
  next
    case False
    show thesis
    proof (cases ?f)
      case None
      show thesis by (rule that [of 0 k]) (use f False None in auto)
    next
      case (Some q)
      with f ef False show thesis
        by (intro that [of "- E_FAULT" "k\<lparr>user_mem_check_addr := (if pagina_va q > va then pagina_va q else va)\<rparr>"]) auto
    qed
  qed
  have fit: "(4096 * ?M \<le> unat UTOP \<longleftrightarrow> ?hi \<le> unat UTOP)
      \<and> (r = 0 \<longleftrightarrow> ?hi \<le> unat UTOP \<and> (\<forall>b. unat va \<le> b \<longrightarrow> b < ?hi \<longrightarrow> accesible k pd perm (word_of_nat b)))
      \<and> (r \<noteq> 0 \<longrightarrow> ?hi \<le> unat UTOP \<longrightarrow>
           (\<exists>b. user_mem_check_addr k' = word_of_nat b \<and> unat va \<le> b \<and> b < ?hi \<and> \<not> accesible k pd perm (word_of_nat b)
              \<and> (\<forall>c. unat va \<le> c \<longrightarrow> c < b \<longrightarrow> accesible k pd perm (word_of_nat c))))"
    if l: "0 < len" "?hi + 4095 < 4294967296"
  proof -
    have h: "unat va < ?hi" using l(1) by (simp add: word_less_nat_alt)
    have M: "?M = (?hi + 4095) div 4096" using l(2) by (simp add: pagina_fin_def)
    have c: "4096 * ?M \<le> unat UTOP \<longleftrightarrow> ?hi \<le> unat UTOP" unfolding u M by (auto simp: UTOP_valor)
    have z: "r = 0 \<longleftrightarrow> ?hi \<le> unat UTOP \<and> (\<forall>b. unat va \<le> b \<longrightarrow> b < ?hi \<longrightarrow> accesible k pd perm (word_of_nat b))"
      using rk(4) N rango_paginas [OF h l(2), of k pd perm] c u M by simp
    have "\<exists>b. user_mem_check_addr k' = word_of_nat b \<and> unat va \<le> b \<and> b < ?hi \<and> \<not> accesible k pd perm (word_of_nat b)
        \<and> (\<forall>c. unat va \<le> c \<longrightarrow> c < b \<longrightarrow> accesible k pd perm (word_of_nat c))" if nz: "r \<noteq> 0" "?hi \<le> unat UTOP"
    proof -
      have m: "\<not> ?M > 977920" using nz(2) c u by simp
      have "?f \<noteq> None" using rk(4) nz(1) m by simp
      then obtain q where q: "?f = Some q" by blast
      note p = primera_mala [OF q [unfolded M] h l(2)]
      show ?thesis using rk(6) [OF m q] p by metis
    qed
    with c z show ?thesis by blast
  qed
  have "r = 0 \<longleftrightarrow> 4096 * ?M \<le> unat UTOP \<and> (\<forall>q. unat va div 4096 \<le> q \<longrightarrow> q < ?M \<longrightarrow> accesible k pd perm (pagina_va q))"
    using rk(4) N u by simp
  moreover have "4096 * ?M > unat UTOP \<Longrightarrow> user_mem_check_addr k' = va" using rk(5) u by simp
  ultimately show ?thesis using rk(1-3) fit by blast
qed

text \<open>The example kernel with an environment on page directory 1 and a page at \<open>0x803000\<close>.\<close>

lemma k_ej_env:
  obtains k xs where "vm_ok {1} (\<lambda>_. 0) xs k" "env_pgdir (envs k 0) = Some 1"
    "ranura k 1 0x803000 = page2pa 5 OR PTE_W OR PTE_P"
proof -
  obtain k xs where k: "vm_ok {1} (\<lambda>_. 0) xs k" "ranura k 1 0x803000 = page2pa 5 OR PTE_W OR PTE_P"
    by (rule k_ej_mapeado)
  let ?k = "con_env 0 (\<lambda>r. r\<lparr>env_pgdir := Some 1\<rparr>) k"
  have m: "mem ?k = mem k" by simp
  have "vm_ok {1} (\<lambda>_. 0) xs ?k" using vm_ok_cong [of ?k k] k(1) by (simp add: con_env_def)
  moreover have "ranura ?k 1 0x803000 = page2pa 5 OR PTE_W OR PTE_P" using k(2) pte_en_mem [OF m] by simp
  ultimately show thesis using that [of xs ?k] by simp
qed

lemma user_mem_check_correcto_witness:
  "\<exists>k. ranura k 1 0x803000 = page2pa 5 OR PTE_W OR PTE_P \<and> user_mem_check 0 0x803010 32 PTE_W k = Some (0, k)
    \<and> (\<exists>k'. user_mem_check 0 0xEEBFFFF0 32 PTE_W k = Some (- E_FAULT, k') \<and> user_mem_check_addr k' = 0xEEBFFFF0)"
proof -
  obtain k xs where k: "vm_ok {1} (\<lambda>_. 0) xs k" "env_pgdir (envs k 0) = Some 1"
    "ranura k 1 0x803000 = page2pa 5 OR PTE_W OR PTE_P" by (rule k_ej_env)
  have i: "1 \<in> {1 :: nat}" by simp
  note c = user_mem_check_correcto [OF k(1,2) i, of _ _ PTE_W]
  have M: "pagina_fin 0x803010 32 = 2052" "pagina_fin 0xEEBFFFF0 32 = 977921" by (simp_all add: pagina_fin_def)
  have "accesible k 1 PTE_W (pagina_va 2051)"
  proof -
    have "pagina_va 2051 = 0x803000" by (simp add: pagina_va_def)
    then show ?thesis using k(3) by (simp add: accesible_def bit.conj_disj_distrib2 pte_flags page2pa_def)
  qed
  moreover have "q = 2051" if "unat (0x803010 :: uint32) div 4096 \<le> q" "q < pagina_fin 0x803010 32" for q
    using that by (simp add: M)
  ultimately have "accesible k 1 PTE_W (pagina_va q)" if "unat (0x803010 :: uint32) div 4096 \<le> q" "q < pagina_fin 0x803010 32" for q
    using that by metis
  then have "user_mem_check 0 0x803010 32 PTE_W k = Some (0, k)" using c [of "0x803010" 32] by (auto simp: M UTOP_valor)
  moreover have "\<exists>k'. user_mem_check 0 0xEEBFFFF0 32 PTE_W k = Some (- E_FAULT, k') \<and> user_mem_check_addr k' = 0xEEBFFFF0"
    using c [of "0xEEBFFFF0" 32] by (auto simp: M UTOP_valor)
  ultimately show ?thesis using k(3) by blast
qed

section \<open>Where the code does not hold\<close>

text \<open>
  A range that ends at address 0, past the end of the address space, passes every
  check: the sum wraps around, the loop does not run and \<open>user_mem_check\<close> returns 0,
  whatever the page tables hold and whatever the permissions, even for kernel addresses.
\<close>

theorem user_mem_check_envuelve:
  assumes "va + len = 0"
  shows "user_mem_check e va len perm k = Some (0, k)"
proof -
  have "ROUNDUP (va + len) PGSIZE = 0" by (simp add: assms ROUNDUP_def ROUNDDOWN_def PGSIZE_def)
  then show ?thesis by (simp add: user_mem_check_def)
qed

lemma user_mem_check_envuelve_witness:
  "KERNBASE > UTOP \<and> user_mem_check 0 KERNBASE 0x10000000 (PTE_W OR PTE_U) k_ej = Some (0, k_ej)"
  using user_mem_check_envuelve [of KERNBASE "0x10000000" 0 "PTE_W OR PTE_U" k_ej] by (simp add: memlayout)

text \<open>
  The 16-bit reference count wraps around. With 65537 mappings of one page, its count
  reads 1; removing one of them puts the page on the free list while 65536 mappings of it
  remain.
\<close>

theorem pp_ref_desborda:
  assumes e: "estructura D xs k" and pd: "pd \<in> D" and va: "va < UTOP"
    and ne: "ranura k pd va \<noteq> 0" and f: "f = marco (ranura k pd va)" "f < npages k" "f \<notin> set xs" "f \<notin> tablas D k"
    and cnt: "pp_ref (pages k f) = word_of_nat (card (mapeos D k f))" "card (mapeos D k f) = 65537"
  shows "\<exists>k'. page_remove pd va k = Some k' \<and> page_free_list k' = Some f \<and> card (mapeos D k' f) = 65536"
proof -
  let ?i = "unat (PDX va)" and ?j = "unat (PTX va)"
  have i: "?i < NPDU" using PDX_bajo_UTOP [OF va] .
  have m: "mem k pd ?i \<noteq> 0" using ne by (auto simp: pte_en_def)
  have h: "hay_tabla D k pd ?i" using m pd i by (simp add: hay_tabla_def)
  have r: "ranura k pd va = mem k (tabla k pd ?i) ?j" using m by (simp add: pte_en_def)
  note w = walk_busca_e [OF e pd i]
  have "pp_link (pages k f) = None" using estructuraD(5) [OF e] f(2,3) by blast
  moreover have "pp_ref (pages k f) = word_of_nat 1" using cnt by simp
  ultimately have dc: "page_decref f k = Some (k\<lparr>pages := (pages k)(f := (pages k f)\<lparr>pp_ref := 0, pp_link := page_free_list k\<rparr>),
      page_free_list := Some f\<rparr>)" (is "_ = Some ?k1")
    using decref_forma [of k f 1] by simp
  let ?k' = "tlb_invalidate pd va (escribir (tabla k pd ?i) ?j 0 ?k1)"
  have lk: "page_lookup pd va k = Some (Some (f, tabla k pd ?i, ?j))"
    using ne m f(1,2) by (simp add: page_lookup_def w leer_def r pa2page_marco PTE_P_def)
  have rm: "page_remove pd va k = Some ?k'"
    using ne m dc by (simp add: page_remove_def w lk leer_def r PTE_P_def)
  have fl: "page_free_list ?k' = Some f" by (simp add: tlb_invalidate_def split: option.splits)
  have "mem ?k' = mem (escribir (tabla k pd ?i) ?j 0 ?k1)" by (simp add: tlb_invalidate_def split: option.splits)
  then have mm: "mem ?k' = mem (escribir (tabla k pd ?i) ?j 0 k)" by (simp add: escribir_def)
  have "mapeos D ?k' f = mapeos D k f - {(pd, ?i, ?j)}"
    unfolding mapeos_mem [OF mm] using escribir_entrada(4) [OF e h, of ?j 0 f] by simp
  moreover have "(pd, ?i, ?j) \<in> mapeos D k f" using en_mapeos [OF pd i _ ne] f(1) by simp
  ultimately have "card (mapeos D ?k' f) = 65536"
    using cnt(2) finite_mapeos [OF estructuraD(2) [OF e]] by (simp add: card_Diff_singleton)
  with rm fl show ?thesis by blast
qed

text \<open>A page mapped 65537 times: 64 full tables and the first entry of one more.\<close>

definition pte_100 :: uint32 where "pte_100 = page2pa 100 OR (PTE_U OR PTE_P)"

definition k_lleno :: kernel where
  "k_lleno = k_base\<lparr>npages := 128, pages := (\<lambda>_. \<lparr>pp_link = None, pp_ref = 1\<rparr>),
     mem := (\<lambda>p i. if p = 70 then (if i \<le> 64 then page2pa (2 + i) OR (PTE_W OR PTE_U OR PTE_P) else 0)
       else if (2 \<le> p \<and> p < 66 \<and> i < 1024) \<or> p = 66 \<and> i = 0 then pte_100 else 0)\<rparr>"

lemma k_lleno_dir: "mem k_lleno 70 i \<noteq> 0 \<longleftrightarrow> i \<le> 64" "i \<le> 64 \<Longrightarrow> tabla k_lleno 70 i = 2 + i"
proof -
  show "mem k_lleno 70 i \<noteq> 0 \<longleftrightarrow> i \<le> 64" by (simp add: k_lleno_def flip: or.assoc)
  assume i: "i \<le> 64"
  then have "marco (page2pa (2 + i) OR (PTE_W OR PTE_U OR PTE_P)) = 2 + i" by (intro marco_entrada) simp_all
  with i show "tabla k_lleno 70 i = 2 + i" by (simp add: tabla_def k_lleno_def)
qed

lemma k_lleno_pte: "pte_en k_lleno 70 i j =
  (if i < 64 \<and> j < 1024 \<or> i = 64 \<and> j = 0 then pte_100 else 0)"
proof (cases "i \<le> 64")
  case True
  then have "pte_en k_lleno 70 i j = mem k_lleno (2 + i) j" using k_lleno_dir [of i] by (simp add: pte_en_def)
  with True show ?thesis by (simp add: k_lleno_def)
next
  case False
  then show ?thesis using k_lleno_dir(1) [of i] by (simp add: pte_en_def)
qed

lemma marco_lleno: "marco pte_100 = 100" "pte_100 \<noteq> 0"
proof -
  show "marco pte_100 = 100" unfolding pte_100_def by (rule marco_entrada) simp_all
  show "pte_100 \<noteq> 0" by (simp add: pte_100_def flip: or.assoc)
qed

lemma k_lleno_mapeos: "mapeos {70} k_lleno 100 = {70} \<times> (({..<64} \<times> {..<1024}) \<union> {(64, 0)})"
  using marco_lleno by (auto simp: mapeos_def k_lleno_pte NPDU_def split: if_splits)

lemma k_lleno_estructura: "estructura {70} [] k_lleno"
proof -
  have h: "pd = 70 \<and> i \<le> 64 \<and> tabla k_lleno pd i = 2 + i" if "hay_tabla {70} k_lleno pd i" for pd i
    using that k_lleno_dir [of i] by (auto simp: hay_tabla_def)
  have l: "pag.libres k_lleno []" by (simp add: pag.libres_def k_lleno_def k_base_def)
  have n: "npages k_lleno = 128" "pp_link (pages k_lleno p) = None" for p by (simp_all add: k_lleno_def)
  show ?thesis unfolding estructura_def
  proof (intro conjI allI impI)
    fix pd i assume "hay_tabla {70} k_lleno pd i"
    from h [OF this] show "tabla k_lleno pd i < npages k_lleno" "tabla k_lleno pd i \<notin> set []"
      "tabla k_lleno pd i \<notin> {70}" by (auto simp: n)
  next
    fix pd i pd' i' assume "hay_tabla {70} k_lleno pd i" "hay_tabla {70} k_lleno pd' i'"
      "tabla k_lleno pd i = tabla k_lleno pd' i'"
    then show "pd = pd'" "i = i'" using h [of pd i] h [of pd' i'] by auto
  qed (simp_all add: l n)
qed

lemma pp_ref_desborda_witness:
  "\<exists>k'. page_remove 70 0x10000000 k_lleno = Some k' \<and> page_free_list k' = Some 100
    \<and> card (mapeos {70} k' 100) = 65536"
proof -
  have "unat (PDX 0x10000000) = 64" "unat (PTX 0x10000000) = 0" by (simp_all add: unat_PDX unat_PTX)
  then have r: "ranura k_lleno 70 0x10000000 = pte_100" by (simp add: k_lleno_pte)
  have t: "100 \<notin> tablas {70} k_lleno" using k_lleno_dir by (auto simp: tablas_def hay_tabla_def)
  have c: "card (mapeos {70} k_lleno 100) = 65537"
    unfolding k_lleno_mapeos by (subst card_cartesian_product, subst card_Un_disjoint) auto
  have "pp_ref (pages k_lleno 100) = word_of_nat (card (mapeos {70} k_lleno 100))"
    unfolding c by (simp add: k_lleno_def)
  moreover have "100 < npages k_lleno" by (simp add: k_lleno_def)
  ultimately show ?thesis
    using r t c marco_lleno
    by (intro pp_ref_desborda [OF k_lleno_estructura, of 70 "0x10000000" 100]) (simp_all add: UTOP_valor)
qed

end
