(* ===== verification/Env_Claims.thy ===== *)
theory Env_Claims
  imports Env Pmap_Claims
begin

text \<open>
  The properties of the table of environments: identifiers name one environment and go
  stale when it is freed, the list of free environments, and who may act on whom.
\<close>

section \<open>Identifiers\<close>

text \<open>Every environment in use has an identifier of its own slot, positive as a signed word.\<close>

definition tabla_ok :: "kernel \<Rightarrow> bool" where
  "tabla_ok k \<longleftrightarrow> (\<forall>i<NENV. env_status (envs k i) \<noteq> ENV_FREE
     \<longrightarrow> ENVX (env_id (envs k i)) = i \<and> 0 < sint (env_id (envs k i)))"

lemma tabla_ok_cong:
  assumes "\<And>i. env_status (envs k' i) = env_status (envs k i)" "\<And>i. env_id (envs k' i) = env_id (envs k i)"
  shows "tabla_ok k' = tabla_ok k"
  by (simp add: tabla_ok_def assms)

lemma ENVX_mod: "ENVX w = unat w mod 1024"
  by (simp add: ENVX_def mascaras unat_and_mask)

lemma ENVX_lt: "ENVX w < NENV"
  by (simp add: ENVX_mod NENV_def)

lemma unat_generacion:
  assumes "i < 1024"
  shows "unat ((w AND NOT 0x3FF) OR word_of_nat i :: uint32) = 1024 * (unat w div 1024) + i"
proof -
  have i: "(word_of_nat i :: uint32) AND mask 10 = word_of_nat i"
    using assms by (simp add: take_bit_of_nat take_bit_nat_eq_self flip: take_bit_eq_mask)
  have d: "(w AND NOT (mask 10)) AND (word_of_nat i :: uint32) = 0"
    by (subst i [symmetric]) (auto intro: bit_word_eqI simp: bit_simps)
  have "unat (w AND NOT (mask 10)) = 1024 * (unat w div 1024)"
  proof -
    have "w AND NOT (mask 10) = push_bit 10 (drop_bit 10 w)"
      by (rule bit_word_eqI) (auto simp: bit_simps)
    moreover have "unat (drop_bit 10 w) = unat w div 1024" by (simp add: unat_drop)
    moreover have "unat w div 1024 * 1024 < 4294967296" using unat_cota [of w] by linarith
    ultimately show ?thesis
      by (simp add: push_bit_eq_mult unat_word_ariths(2) mult.commute)
  qed
  moreover have "(w AND NOT (mask 10)) OR word_of_nat i = (w AND NOT (mask 10)) + word_of_nat i"
    using word_plus_and_or [of "w AND NOT (mask 10)" "word_of_nat i"] d by simp
  moreover have "1024 * (unat w div 1024) + i < 4294967296"
  proof -
    have "unat w div 1024 < 4194304" using unat_cota [of w] by linarith
    with assms show ?thesis by linarith
  qed
  ultimately show ?thesis
    using assms by (simp add: mascaras unat_word_ariths unat_de_nat32)
qed

text \<open>The identifier \<open>env_alloc\<close> makes: of slot \<open>i\<close>, positive, and not the previous one.\<close>

lemma nuevo_env_id_valor:
  fixes previo :: uint32
  assumes "i < 1024"
  defines "g \<equiv> (previo + push_bit 12 1) AND NOT 0x3FF"
  shows "nuevo_env_id previo i = (if sint g \<le> 0 then 0x1000 OR word_of_nat i else g OR word_of_nat i)"
  by (simp add: nuevo_env_id_def g_def NENV_def Let_def)

lemma unat_or_1000: "i < 1024 \<Longrightarrow> unat (0x1000 OR word_of_nat i :: uint32) = 4096 + i"
  using unat_generacion [of i "0x1000"] by simp

lemma sint_unat: "0 < sint (w :: uint32) \<longleftrightarrow> 0 < unat w \<and> unat w < 2147483648"
proof
  assume p: "0 < sint w"
  then have s: "sint w = int (unat w)" by (simp add: sint_nonneg_unat)
  have "sint w < 2147483648" using sint_lt [of w] by simp
  with p s show "0 < unat w \<and> unat w < 2147483648" by linarith
next
  assume "0 < unat w \<and> unat w < 2147483648"
  moreover from this have "sint w = int (unat w)" using sint_word_of_nat_small [of "unat w"] by simp
  ultimately show "0 < sint w" by linarith
qed

lemma nuevo_env_id_props:
  assumes "i < NENV"
  shows "ENVX (nuevo_env_id previo i) = i" "0 < sint (nuevo_env_id previo i)" "nuevo_env_id previo i \<noteq> previo"
proof -
  have i: "i < 1024" using assms by (simp add: NENV_def)
  define g :: uint32 where "g = (previo + push_bit 12 1) AND NOT 0x3FF"
  let ?n = "nuevo_env_id previo i"
  have ug: "unat g = 1024 * (unat (previo + 4096) div 1024)"
    using unat_generacion [of 0 "previo + 4096"] by (simp add: g_def)
  have u: "unat ?n = (if sint g \<le> 0 then 4096 + i else 1024 * (unat (previo + 4096) div 1024) + i)"
    using nuevo_env_id_valor [OF i, of previo, folded g_def] unat_or_1000 [OF i] unat_generacion [OF i, of "previo + 4096"]
    by (simp add: g_def)
  have "(4096 + i) mod 1024 = i" using i mod_mult_self2 [of i 1024 4] by (simp add: add.commute)
  then show "ENVX ?n = i" using u i by (simp add: ENVX_mod split: if_splits)
  show "0 < sint ?n"
  proof (cases "sint g \<le> 0")
    case True
    then show ?thesis using u i by (simp add: sint_unat)
  next
    case False
    then have "0 < unat g" "unat g < 2147483648" using sint_unat [of g] by auto
    with ug have "unat (previo + 4096) div 1024 < 2097152" "0 < unat (previo + 4096) div 1024" by auto
    with u i False show ?thesis by (simp add: sint_unat)
  qed
  show "?n \<noteq> previo"
  proof
    assume eq: "?n = previo"
    show False
    proof (cases "sint g \<le> 0")
      case True
      with u eq have p: "unat previo = 4096 + i" by simp
      then have "unat (previo + 4096) = 8192 + i" using i by (simp add: unat_word_ariths)
      with ug i have "unat g = 8192" by simp
      with True show False using sint_unat [of g] by simp
    next
      case False
      with u eq have p: "unat previo = 1024 * (unat (previo + 4096) div 1024) + i" by simp
      have "unat (previo + 4096) = unat previo + 4096 \<or> unat (previo + 4096) + 4294967296 = unat previo + 4096"
        using unat_cota [of previo] by (auto simp: unat_word_ariths mod_if)
      moreover have "unat (previo + 4096) mod 1024 < 1024" by simp
      ultimately show False
        using p i div_mult_mod_eq [of "unat (previo + 4096)" 1024] by linarith
    qed
  qed
qed

section \<open>Finding an environment\<close>

text \<open>The caller may act on an environment: it is the caller itself or one of its children.\<close>

definition autorizado :: "kernel \<Rightarrow> nat \<Rightarrow> bool" where
  "autorizado k e \<longleftrightarrow> curenv k = Some e
     \<or> (\<exists>c. curenv k = Some c \<and> env_parent_id (envs k e) = env_id (envs k c))"

text \<open>
  \<open>envid2env\<close> searches the table. With an environment running and the identifiers in
  use well formed, a non-zero identifier gives environment \<open>e\<close> exactly when \<open>e\<close> is in use
  with that identifier and, if permission is to be checked, is the caller or its
  child; in every other case the result is \<open>-E_BAD_ENV\<close>. The
  identifier 0 is the caller itself.
\<close>

theorem envid2env_correcto:
  assumes "tabla_ok k" "curenv k = Some c"
  shows "envid2env 0 checkperm k = Some (0, Some c)
    \<and> (envid \<noteq> 0 \<longrightarrow> (\<forall>e. envid2env envid checkperm k = Some (0, Some e)
      \<longleftrightarrow> e < NENV \<and> env_status (envs k e) \<noteq> ENV_FREE \<and> env_id (envs k e) = envid
          \<and> (checkperm \<longrightarrow> autorizado k e)))
    \<and> (envid2env envid checkperm k = Some (- E_BAD_ENV, None) \<or> (\<exists>e. envid2env envid checkperm k = Some (0, Some e)))"
proof (intro conjI impI allI)
  let ?x = "ENVX envid"
  have d: "envid2env envid checkperm k = (if env_status (envs k ?x) \<noteq> ENV_FREE \<and> env_id (envs k ?x) = envid
      \<and> (checkperm \<longrightarrow> autorizado k ?x) then Some (0, Some ?x) else Some (- E_BAD_ENV, None))" if "envid \<noteq> 0"
    using that assms(2) by (simp add: envid2env_def Let_def autorizado_def)
  have uniq: "e = ?x" if "e < NENV" "env_status (envs k e) \<noteq> ENV_FREE" "env_id (envs k e) = envid" for e
  proof -
    have "ENVX (env_id (envs k e)) = e" using assms(1) that(1,2) by (simp add: tabla_ok_def)
    then show ?thesis unfolding that(3) by (rule sym)
  qed
  show z: "envid2env 0 checkperm k = Some (0, Some c)" by (simp add: envid2env_def assms(2))
  show "envid2env envid checkperm k = Some (0, Some e)
      \<longleftrightarrow> e < NENV \<and> env_status (envs k e) \<noteq> ENV_FREE \<and> env_id (envs k e) = envid
          \<and> (checkperm \<longrightarrow> autorizado k e)" if "envid \<noteq> 0" for e
  proof (cases "e = ?x")
    case True
    show ?thesis unfolding d [OF that] True by (simp add: ENVX_lt kern_errors)
  next
    case False
    with uniq [of e] d [OF that] show ?thesis by auto
  qed
  show "envid2env envid checkperm k = Some (- E_BAD_ENV, None) \<or> (\<exists>e. envid2env envid checkperm k = Some (0, Some e))"
    using d z by (cases "envid = 0") auto
qed

text \<open>The example kernel with two environments: 1, running, and its child 2.\<close>

definition k_dos :: kernel where
  "k_dos = k_ej\<lparr>envs := (\<lambda>i. env_cero\<lparr>
       env_id := (if i = 1 then 0x1001 else if i = 2 then 0x1002 else 0),
       env_parent_id := (if i = 2 then 0x1001 else 0),
       env_link := (if i = 3 then Some 4 else None),
       env_status := (if i = 1 then ENV_RUNNING else if i = 2 then ENV_RUNNABLE else ENV_FREE),
       env_pgdir := (if i = 1 then Some 1 else None)\<rparr>),
     env_free_list := Some 3, curenv := Some 1\<rparr>"

lemma k_dos_simps [simp]:
  "npages k_dos = 16" "page_free_list k_dos = Some 2" "curenv k_dos = Some 1"
  "env_status (envs k_dos i) = (if i = 1 then ENV_RUNNING else if i = 2 then ENV_RUNNABLE else ENV_FREE)"
  "env_id (envs k_dos i) = (if i = 1 then 0x1001 else if i = 2 then 0x1002 else 0)"
  "env_parent_id (envs k_dos i) = (if i = 2 then 0x1001 else 0)"
  "kern_pgdir k_dos = 0" "mem k_dos p j = 0"
  by (simp_all add: k_dos_def k_ej_def k_base_def)

lemma k_dos_tabla: "tabla_ok k_dos"
proof -
  have "sint (0x1001 :: uint32) = 0x1001" "sint (0x1002 :: uint32) = 0x1002"
    by (simp_all add: sint_uint signed_take_bit_int_eq_self)
  then show ?thesis by (auto simp: tabla_ok_def ENVX_mod NENV_def)
qed

lemma k_dos_libres: "amb.libres k_dos [3, 4]"
  by (simp add: amb.libres_def k_dos_def)

lemma envid2env_correcto_witness:
  "envid2env 0x1002 True k_dos = Some (0, Some 2)"
  using envid2env_correcto [OF k_dos_tabla, of 1 True "0x1002"]
  by (simp add: autorizado_def NENV_def)

section \<open>Taking and giving back an environment\<close>

lemma env_init_cadena: "n \<le> NENV \<Longrightarrow> m \<le> n \<Longrightarrow> n = NENV \<Longrightarrow>
  amb.cadena (env_init k) (if m = n then None else Some m) [m..<n]"
proof (induction "n - m" arbitrary: m)
  case (Suc d)
  then have m: "m < n" by simp
  moreover have "env_link (envs (env_init k) m) = (if Suc m = n then None else Some (Suc m))"
    using m Suc.prems by (auto simp: env_init_def NENV_def)
  moreover have "amb.cadena (env_init k) (if Suc m = n then None else Some (Suc m)) [Suc m..<n]"
    using Suc m by (intro Suc.hyps) auto
  ultimately show ?case by (simp add: upt_conv_Cons)
qed simp

text \<open>
  \<open>env_init\<close> leaves every environment free with identifier 0, and the list of free
  environments is the whole table in order, so the first \<open>env_alloc\<close> returns \<open>envs[0]\<close>.
\<close>

theorem env_init_libres:
  "amb.libres (env_init k) [0..<NENV] \<and> tabla_ok (env_init k)
    \<and> (\<forall>i<NENV. env_id (envs (env_init k) i) = 0 \<and> env_status (envs (env_init k) i) = ENV_FREE)"
proof -
  have "amb.cadena (env_init k) (Some 0) [0..<NENV]"
    using env_init_cadena [of NENV 0 k] by (simp add: NENV_def)
  then show ?thesis by (simp add: amb.libres_def env_init_def tabla_ok_def)
qed

lemma env_init_libres_witness:
  "amb.libres (env_init k_dos) [0..<NENV] \<and> env_id (envs (env_init k_dos) 1) = 0
    \<and> env_status (envs (env_init k_dos) 1) = ENV_FREE"
  using env_init_libres [of k_dos] by (simp add: NENV_def)

text \<open>What \<open>env_setup_vm\<close> does with the page \<open>p\<close>.\<close>

lemma env_setup_vm_forma:
  assumes "page_free_list k = Some p" "p < npages k" "npages k \<le> 2 ^ 20" "p \<noteq> kern_pgdir k"
  shows "\<exists>k'. env_setup_vm e k = Some (0, k') \<and> env_pgdir (envs k' e) = Some p
    \<and> (\<forall>i. mem k' p i = (if i = unat (PDX UVPT) then page2pa p OR PTE_P OR PTE_U else mem k (kern_pgdir k) i))
    \<and> pp_ref (pages k' p) = pp_ref (pages k p) + 1 \<and> (\<forall>q. q \<noteq> p \<longrightarrow> mem k' q = mem k q \<and> pages k' q = pages k q)"
proof -
  have "p < 2 ^ 20" using assms(2,3) by simp
  then have u: "unat (PGNUM (page2pa p)) = p"
    by (simp add: PGNUM_page2pa unat_of_nat take_bit_nat_eq_self)
  show ?thesis
    using assms(2,4) u
    by (simp add: env_setup_vm_def page_alloc_forma [OF assms(1-3)] page2kva_def KADDR_def pp_ref_inc_def
        con_env_def con_page_def escribir_def)
qed

text \<open>An identifier whose slot holds another one is stale.\<close>

lemma envid2env_viejo:
  assumes "viejo \<noteq> 0" "env_status (envs k (ENVX viejo)) = ENV_FREE \<or> env_id (envs k (ENVX viejo)) \<noteq> viejo"
  shows "envid2env viejo checkperm k = Some (- E_BAD_ENV, None)"
  using assms by (simp add: envid2env_def Let_def)

lemma envid2env_sin_permiso:
  assumes "x \<noteq> 0" "env_status (envs k (ENVX x)) \<noteq> ENV_FREE" "env_id (envs k (ENVX x)) = x"
  shows "envid2env x False k = Some (0, Some (ENVX x))"
  using assms by (simp add: envid2env_def Let_def)

lemma sint_pos_no_cero: "0 < sint (w :: uint32) \<Longrightarrow> w \<noteq> 0"
  by auto

text \<open>
  \<open>env_alloc\<close>. With no free environment it returns \<open>-E_NO_FREE_ENV\<close>; with no page for
  the directory, \<open>-E_NO_MEM\<close>; both change nothing. Otherwise it takes the first free
  environment and gives it an identifier that finds it, that is positive and that differs
  from the last one of the slot, so the last one is now rejected. The environment is
  runnable, its directory is the kernel's with \<open>UVPT\<close> mapping the directory itself
  read-only, and no other environment changes.
\<close>

theorem env_alloc_correcto:
  assumes t: "tabla_ok k" and es: "amb.libres k es" "\<forall>e\<in>set es. e < NENV"
    and pg: "\<forall>p. page_free_list k = Some p \<longrightarrow> p < npages k \<and> p \<noteq> kern_pgdir k" "npages k \<le> 2 ^ 20"
  shows "case es of
      [] \<Rightarrow> env_alloc parent k = Some (- E_NO_FREE_ENV, None, k)
    | e # es' \<Rightarrow>
        (case page_free_list k of
           None \<Rightarrow> env_alloc parent k = Some (- E_NO_MEM, None, k)
         | Some p \<Rightarrow> \<exists>k'. env_alloc parent k = Some (0, Some e, k') \<and> amb.libres k' es' \<and> tabla_ok k'
             \<and> 0 < sint (env_id (envs k' e)) \<and> envid2env (env_id (envs k' e)) False k' = Some (0, Some e)
             \<and> (\<forall>viejo. viejo = env_id (envs k e) \<longrightarrow> viejo \<noteq> 0 \<longrightarrow> ENVX viejo = e
                  \<longrightarrow> envid2env viejo False k' = Some (- E_BAD_ENV, None))
             \<and> env_status (envs k' e) = ENV_RUNNABLE \<and> env_parent_id (envs k' e) = parent
             \<and> env_pgdir (envs k' e) = Some p
             \<and> (\<forall>i. mem k' p i = (if i = unat (PDX UVPT) then page2pa p OR PTE_P OR PTE_U
                                  else mem k (kern_pgdir k) i))
             \<and> (\<forall>d. d \<noteq> e \<longrightarrow> envs k' d = envs k d))"
proof (cases es)
  case Nil
  with es(1) have "env_free_list k = None" by (simp add: amb.libres_vacia)
  with Nil show ?thesis by (simp add: env_alloc_def)
next
  case (Cons e es')
  then have fl: "env_free_list k = Some e" using es(1) by (simp add: amb.libres_def)
  have eN: "e < NENV" using es(2) Cons by simp
  show ?thesis
  proof (cases "page_free_list k")
    case None
    then have "env_setup_vm e k = Some (- E_NO_MEM, k)" by (simp add: env_setup_vm_def page_alloc_vacia)
    with Cons None fl show ?thesis by (simp add: env_alloc_def kern_errors)
  next
    case (Some p)
    obtain k1 where k1: "env_setup_vm e k = Some (0, k1)" "env_pgdir (envs k1 e) = Some p"
      "\<forall>i. mem k1 p i = (if i = unat (PDX UVPT) then page2pa p OR PTE_P OR PTE_U else mem k (kern_pgdir k) i)"
      using env_setup_vm_forma [OF Some _ pg(2)] pg(1) Some by blast
    note s = env_setup_vm_envs [OF k1(1)]
    obtain d where d: "envs k1 = (envs k)(e := (envs k e)\<lparr>env_pgdir := d\<rparr>)" using s(3) by blast
    define k2 where "k2 = con_env e (\<lambda>x. x\<lparr>env_id := nuevo_env_id (env_id x) e, env_parent_id := parent,
                         env_type := 0, env_status := ENV_RUNNABLE, env_runs := 0, env_priority := 0,
                         env_tf := tf_inicial, env_pgfault_upcall := 0, env_ipc_recving := False\<rparr>) k1"
    define k' where "k' = k2\<lparr>env_free_list := env_link (envs k2 e)\<rparr>"
    have call: "env_alloc parent k = Some (0, Some e, k')"
      by (simp add: env_alloc_def fl k1(1) k'_def k2_def Let_def)
    have id: "env_id (envs k' e) = nuevo_env_id (env_id (envs k e)) e"
      "env_status (envs k' e) = ENV_RUNNABLE" "env_parent_id (envs k' e) = parent"
      "env_pgdir (envs k' e) = Some p" "mem k' = mem k1"
      using k1(2) by (simp_all add: k'_def k2_def d)
    have otros: "\<forall>d. d \<noteq> e \<longrightarrow> envs k' d = envs k d" by (simp add: k'_def k2_def d)
    note n = nuevo_env_id_props [OF eN, of "env_id (envs k e)", folded id(1)]
    have "tabla_ok k'"
      unfolding tabla_ok_def
    proof (intro allI impI)
      fix i assume "i < NENV" "env_status (envs k' i) \<noteq> ENV_FREE"
      with n otros t show "ENVX (env_id (envs k' i)) = i \<and> 0 < sint (env_id (envs k' i))"
        by (cases "i = e") (auto simp: tabla_ok_def)
    qed
    moreover have "amb.libres k' es'"
    proof -
      have "env_free_list k' = env_link (envs k e)" by (simp add: k'_def k2_def d)
      moreover have "env_link (envs k' y) = env_link (envs k y)" for y
        by (cases "y = e") (simp_all add: otros, simp add: k'_def k2_def d)
      moreover have "amb.cadena k (env_link (envs k e)) es'" "distinct es'"
        using es(1) Cons by (simp_all add: amb.libres_def)
      ultimately show ?thesis
        using amb.cadena_cong [of es' k' k] by (simp add: amb.libres_def)
    qed
    moreover have "envid2env (env_id (envs k' e)) False k' = Some (0, Some e)"
      using envid2env_sin_permiso [of "env_id (envs k' e)" k'] n sint_pos_no_cero [OF n(2)] id(2) by simp
    moreover have "\<forall>viejo. viejo = env_id (envs k e) \<longrightarrow> viejo \<noteq> 0 \<longrightarrow> ENVX viejo = e
        \<longrightarrow> envid2env viejo False k' = Some (- E_BAD_ENV, None)"
      using envid2env_viejo [of "env_id (envs k e)" k' False] n(3) by simp
    ultimately show ?thesis
      using Cons Some call n(2) id k1(3) otros by simp
  qed
qed

lemma env_alloc_correcto_witness:
  "\<exists>k'. env_alloc 0x1001 k_dos = Some (0, Some 3, k') \<and> amb.libres k' [4] \<and> tabla_ok k'
    \<and> envid2env (env_id (envs k' 3)) False k' = Some (0, Some 3)"
proof -
  have "\<forall>p. page_free_list k_dos = Some p \<longrightarrow> p < npages k_dos \<and> p \<noteq> kern_pgdir k_dos"
    "npages k_dos \<le> 2 ^ 20" "\<forall>e\<in>set [3, 4]. e < NENV" by (simp_all add: NENV_def)
  from env_alloc_correcto [OF k_dos_tabla k_dos_libres this(3,1,2), of "0x1001"]
  show ?thesis by (simp only: list.case k_dos_simps option.case) blast
qed

section \<open>How long an identifier stays dead\<close>

text \<open>
  The generation of a slot goes up by \<open>0x1000\<close> at each allocation and starts again at 1
  when it would turn negative: \<open>2 ^ 19 - 1\<close> values in all.
\<close>

lemma nuevo_env_id_suma:
  assumes "i < NENV" "ENVX previo = i" "0 < sint previo"
  shows "unat (nuevo_env_id previo i) = (if unat previo + 4096 < 2147483648 then unat previo + 4096 else 4096 + i)"
proof -
  have i: "i < 1024" "unat previo mod 1024 = i" using assms(1,2) by (simp_all add: NENV_def ENVX_mod)
  have p: "unat previo < 2147483648" using assms(3) by (simp add: sint_unat)
  then have s: "unat (previo + 4096) = unat previo + 4096" by (simp add: unat_word_ariths)
  define g :: uint32 where "g = (previo + push_bit 12 1) AND NOT 0x3FF"
  have ug: "unat g = 1024 * (unat (previo + 4096) div 1024)"
    using unat_generacion [of 0 "previo + 4096"] by (simp add: g_def)
  have u: "unat (nuevo_env_id previo i) = (if sint g \<le> 0 then 4096 + i else 1024 * (unat (previo + 4096) div 1024) + i)"
    using nuevo_env_id_valor [OF i(1), of previo, folded g_def] unat_or_1000 [OF i(1)] unat_generacion [OF i(1), of "previo + 4096"]
    by (simp add: g_def)
  have "(unat previo + 4096) div 1024 = unat previo div 1024 + 4" by simp
  then have d: "1024 * ((unat previo + 4096) div 1024) + i = unat previo + 4096"
    using i(2) mult_div_mod_eq [of 1024 "unat previo"] by linarith
  have "(unat previo + 4096) div 1024 < 2097152 \<longleftrightarrow> unat previo + 4096 < 2147483648" "4 \<le> (unat previo + 4096) div 1024"
    using d i(1) by linarith+
  then have "0 < sint g \<longleftrightarrow> unat previo + 4096 < 2147483648"
    unfolding sint_unat ug s by simp
  with u s d show ?thesis by (auto simp: not_less)
qed

lemma generaciones:
  assumes "i < NENV" "ENVX v = i" "0 < sint v" "n \<le> 524287"
  defines "w \<equiv> ((\<lambda>x. nuevo_env_id x i) ^^ n) v"
  shows "ENVX w = i \<and> 0 < sint w \<and> unat w = (if unat v + 4096 * n < 2147483648 then unat v + 4096 * n
           else 4096 * (unat v div 4096 + n - 524287) + i)"
  using assms(4) unfolding w_def
proof (induction n)
  case 0
  have "unat v < 2147483648" using assms(3) by (simp add: sint_unat)
  then show ?case by (simp add: assms(2,3))
next
  case (Suc n)
  let ?w = "((\<lambda>x. nuevo_env_id x i) ^^ n) v"
  have v: "unat v < 2147483648" using assms(3) by (simp add: sint_unat)
  have w: "ENVX ?w = i" "0 < sint ?w" "unat ?w = (if unat v + 4096 * n < 2147483648 then unat v + 4096 * n
           else 4096 * (unat v div 4096 + n - 524287) + i)" using Suc by auto
  have i: "i < 1024" using assms(1) by (simp add: NENV_def)
  have "unat (nuevo_env_id ?w i) = (if unat v + 4096 * Suc n < 2147483648 then unat v + 4096 * Suc n
           else 4096 * (unat v div 4096 + Suc n - 524287) + i)"
  proof -
    define g r where gr: "g = unat v div 4096" "r = unat v mod 4096"
    have vg: "unat v = 4096 * g + r" "r < 4096" "g \<le> 524287"
      using v mult_div_mod_eq [of 4096 "unat v"] by (simp_all add: gr)
    show ?thesis
    proof (cases "g + n \<le> 524287")
      case True
      then have "unat ?w = unat v + 4096 * n" using w(3) vg by (simp split: if_splits)
      with nuevo_env_id_suma [OF assms(1) w(1,2)] True vg show ?thesis
        unfolding gr(1) [symmetric] by (cases "g + n = 524287") (auto simp: vg(1))
    next
      case False
      then obtain m where m: "g + n = 524287 + Suc m" using Suc.prems by (auto dest!: less_imp_Suc_add simp: not_le)
      then have "unat ?w = 4096 * Suc m + i" using w(3) vg unfolding gr(1) [symmetric] by (simp split: if_splits)
      moreover have "m \<le> 524285" using m vg(3) Suc.prems by linarith
      ultimately show ?thesis using nuevo_env_id_suma [OF assms(1) w(1,2)] m vg i unfolding gr(1) [symmetric] by simp
    qed
  qed
  with nuevo_env_id_props [OF assms(1), of ?w] show ?case by simp
qed

lemma generacion_distinta:
  assumes "i < NENV" "ENVX v = i" "0 < sint v" "0 < n" "n < 524287"
  shows "((\<lambda>x. nuevo_env_id x i) ^^ n) v \<noteq> v"
proof
  assume "((\<lambda>x. nuevo_env_id x i) ^^ n) v = v"
  then have "unat v = (if unat v + 4096 * n < 2147483648 then unat v + 4096 * n
      else 4096 * (unat v div 4096 + n - 524287) + i)"
    using generaciones [OF assms(1-3), of n] assms(5) by simp
  then show False using assms(1,4,5) by (auto simp: NENV_def split: if_splits)
qed

text \<open>The bound is exact: the identifiers \<open>env_alloc\<close> makes come back with the allocation \<open>2 ^ 19 - 1\<close>.\<close>

lemma generacion_vuelve:
  assumes "i < NENV" "v = word_of_nat (4096 * g + i)" "0 < g" "g < 524288"
  shows "((\<lambda>x. nuevo_env_id x i) ^^ 524287) v = v"
proof -
  have i: "i < 1024" using assms(1) by (simp add: NENV_def)
  have u: "unat v = 4096 * g + i" unfolding assms(2) using assms(4) i by (intro unat_de_nat32) simp
  have m: "(4096 * g + i) mod 1024 = i" using i mod_mult_self2 [of i 1024 "4 * g"] by (simp add: add.commute)
  have "unat (((\<lambda>x. nuevo_env_id x i) ^^ 524287) v) = unat v"
    using generaciones [OF assms(1), of v 524287] assms(3,4) i m by (simp add: u ENVX_mod sint_unat)
  then show ?thesis by (simp only: word_unat_eq_iff)
qed

text \<open>
  What may happen later: calls to \<open>env_alloc\<close> and \<open>env_free\<close> on any environments, in any
  order, and anything else of the kernel, none of which writes an identifier or takes an
  environment out of \<open>ENV_FREE\<close>. The list records the slots that were allocated.
\<close>

inductive siguen :: "kernel \<Rightarrow> nat list \<Rightarrow> kernel \<Rightarrow> bool" for k0 where
  inicio: "siguen k0 [] k0"
| ocupa: "siguen k0 es k \<Longrightarrow> env_alloc parent k = Some (r, Some d, k') \<Longrightarrow> siguen k0 (es @ [d]) k'"
| falla: "siguen k0 es k \<Longrightarrow> env_alloc parent k = Some (r, None, k') \<Longrightarrow> siguen k0 es k'"
| libera: "siguen k0 es k \<Longrightarrow> env_free d k = Some k' \<Longrightarrow> siguen k0 es k'"
| otra: "siguen k0 es k \<Longrightarrow> (\<And>i. env_id (envs k' i) = env_id (envs k i)) \<Longrightarrow>
     (\<And>i. env_status (envs k i) = ENV_FREE \<Longrightarrow> env_status (envs k' i) = ENV_FREE) \<Longrightarrow> siguen k0 es k'"

lemma env_alloc_sin_lugar:
  assumes "env_alloc parent k = Some (r, None, k')"
  shows "env_id (envs k' i) = env_id (envs k i)" "env_status (envs k' i) = env_status (envs k i)"
  using assms by (auto simp: env_alloc_def Let_def split: option.splits bind_splits if_splits dest!: env_setup_vm_envs(3))

text \<open>A slot that was free holds the identifier of as many generations later as it was allocated.\<close>

lemma siguen_generacion:
  assumes "siguen k0 es k" "env_status (envs k0 e) = ENV_FREE"
  shows "env_id (envs k e) = ((\<lambda>x. nuevo_env_id x e) ^^ count_list es e) (env_id (envs k0 e))
    \<and> (count_list es e = 0 \<longrightarrow> env_status (envs k e) = ENV_FREE)"
  using assms
proof (induction rule: siguen.induct)
  case (ocupa es k parent r d k')
  obtain q where q: "envs k' = (envs k)(d := (envs k d)\<lparr>env_pgdir := q,
       env_id := nuevo_env_id (env_id (envs k d)) d, env_parent_id := parent,
       env_type := 0, env_status := ENV_RUNNABLE, env_runs := 0, env_priority := 0,
       env_tf := tf_inicial, env_pgfault_upcall := 0, env_ipc_recving := False\<rparr>)"
    using env_alloc_envs(5) [OF ocupa(2)] by blast
  show ?case using ocupa.IH [OF ocupa.prems] by (cases "d = e") (auto simp: q)
next
  case (falla es k parent r k')
  then show ?case by (simp add: env_alloc_sin_lugar [OF falla(2)])
next
  case (libera es k d k')
  show ?case using libera.IH [OF libera.prems] by (cases "d = e") (auto simp: env_free_envs(3) [OF libera(2)])
qed auto

text \<open>
  C15: the identifier of a freed environment is dead. After \<open>env_free\<close> the environment is
  first of the free list, its identifier is rejected, no other environment changes, and
  the next \<open>env_alloc\<close> that succeeds takes the same slot. The identifier is still rejected
  after any sequence of later steps, however often the slot is taken and freed again, as
  long as it is allocated fewer than \<open>2 ^ 19 - 1\<close> times, which is when the generation comes
  round and the same identifier is made again (\<open>generacion_vuelve\<close>).
\<close>

theorem env_free_caduca:
  assumes t: "tabla_ok k" and e: "e < NENV" "env_status (envs k e) \<noteq> ENV_FREE"
    and es: "amb.libres k es" "e \<notin> set es" and fr: "env_free e k = Some k1"
  shows "amb.libres k1 (e # es) \<and> tabla_ok k1 \<and> (\<forall>d. d \<noteq> e \<longrightarrow> envs k1 d = envs k d)
    \<and> (\<forall>parent r e' k2. env_alloc parent k1 = Some (r, Some e', k2) \<longrightarrow> e' = e)
    \<and> (\<forall>ocupados k2 checkperm. siguen k1 ocupados k2 \<longrightarrow> count_list ocupados e < 2 ^ 19 - 1 \<longrightarrow>
         envid2env (env_id (envs k e)) checkperm k2 = Some (- E_BAD_ENV, None))"
proof -
  note f = env_free_envs [OF fr]
  have id: "ENVX (env_id (envs k e)) = e" "0 < sint (env_id (envs k e))"
    using t e by (simp_all add: tabla_ok_def)
  have l: "env_status (envs k1 e) = ENV_FREE" "env_id (envs k1 e) = env_id (envs k e)" by (simp_all add: f(3))
  have "envid2env (env_id (envs k e)) checkperm k2 = Some (- E_BAD_ENV, None)"
    if s: "siguen k1 ocupados k2" "count_list ocupados e < 2 ^ 19 - 1" for ocupados k2 checkperm
    using siguen_generacion [OF s(1) l(1)] generacion_distinta [OF e(1) id, of "count_list ocupados e"] s(2)
    by (intro envid2env_viejo) (use sint_pos_no_cero [OF id(2)] in \<open>auto simp: id(1) l(2)\<close>)
  moreover have "amb.libres k1 (e # es)" using es fr by (rule amb.meter_libres)
  moreover have "tabla_ok k1" using t by (simp add: tabla_ok_def f(3))
  moreover have "\<forall>d. d \<noteq> e \<longrightarrow> envs k1 d = envs k d" by (simp add: f(3))
  moreover have "\<forall>parent r e' k2. env_alloc parent k1 = Some (r, Some e', k2) \<longrightarrow> e' = e"
    using f(1) by (auto dest: env_alloc_envs(2))
  ultimately show ?thesis by blast
qed

lemma env_free_tablas_vacias:
  "\<forall>i\<in>set is. mem k pd i = 0 \<Longrightarrow> env_free_tablas pd is k = Some k"
  by (induction "is") auto

lemma env_free_caduca_witness:
  "\<exists>k k1. env_free 1 k = Some k1 \<and> envid2env 0x1001 False k = Some (0, Some 1)
    \<and> envid2env 0x1001 False k1 = Some (- E_BAD_ENV, None) \<and> amb.libres k1 [1, 3, 4]"
proof -
  let ?k = "con_page 1 (\<lambda>r. r\<lparr>pp_ref := 1\<rparr>) k_dos"
  have m: "env_pgdir (envs ?k 1) = Some 1" "mem ?k p i = 0" for p i by (simp_all add: k_dos_def)
  have p: "unat (PGNUM (page2pa 1)) = 1" "pp_link (pages ?k 1) = None"
    by (simp_all add: PGNUM_page2pa) (simp add: k_dos_def)
  have "env_free_tablas 1 [0..<unat (PDX UTOP)] (?k\<lparr>cr3 := kern_pgdir ?k\<rparr>) = Some (?k\<lparr>cr3 := kern_pgdir ?k\<rparr>)"
    by (rule env_free_tablas_vacias) simp
  then obtain k1 where f: "env_free 1 ?k = Some k1"
    using m(1) p by (simp add: env_free_def Let_def pa2page_def page_decref_def page_free_def)
  have t: "tabla_ok ?k" using k_dos_tabla by (simp add: tabla_ok_def)
  have l: "amb.libres ?k [3, 4]" using k_dos_libres amb.libres_cong [of ?k k_dos "[3, 4]"] by simp
  have i: "envid2env 0x1001 False ?k = Some (0, Some 1)" by (simp add: envid2env_def ENVX_mod)
  have n: "1 < NENV" "env_status (envs ?k 1) \<noteq> ENV_FREE" "1 \<notin> set [3, 4 :: nat]" by (simp_all add: NENV_def)
  have c: "amb.libres k1 [1, 3, 4] \<and> (\<forall>ocupados k2 checkperm. siguen k1 ocupados k2 \<longrightarrow> count_list ocupados 1 < 2 ^ 19 - 1 \<longrightarrow>
      envid2env (env_id (envs ?k 1)) checkperm k2 = Some (- E_BAD_ENV, None))"
    using env_free_caduca [OF t n(1,2) l n(3) f] by blast
  have "env_id (envs ?k 1) = 0x1001" "count_list [] (1 :: nat) < 2 ^ 19 - 1" by simp_all
  with c siguen.inicio [of k1] have "envid2env 0x1001 False k1 = Some (- E_BAD_ENV, None)" by metis
  with c f i show ?thesis by blast
qed

end
