(* ===== verification/Sched_Claims.thy ===== *)
theory Sched_Claims
  imports Sched Env_Claims
begin

text \<open>
  The properties of the scheduler: which environment each policy chooses, how long a
  runnable environment can wait under round robin, and where the policies fall short.
\<close>

section \<open>Circular order\<close>

text \<open>How many places after \<open>c\<close>, going around the table, \<open>w\<close> is.\<close>

definition distancia :: "nat \<Rightarrow> nat \<Rightarrow> nat" where
  "distancia c w = (w + (NENV - c mod NENV)) mod NENV"

lemma distancia_lt: "distancia c w < NENV"
  by (simp add: distancia_def NENV_def)

lemma suma_circular:
  assumes "a < NENV" "b < NENV"
  shows "(a + b) mod NENV = (if a + b < NENV then a + b else a + b - NENV)"
  using assms by (simp add: mod_if [of "a + b"])

lemma distancia_if:
  assumes "w < NENV"
  shows "distancia c w = (if c mod NENV \<le> w then w - c mod NENV else w + NENV - c mod NENV)"
proof -
  have c: "c mod NENV < NENV" by (simp add: NENV_def)
  show ?thesis
  proof (cases "c mod NENV = 0")
    case True
    with assms show ?thesis by (simp add: distancia_def)
  next
    case False
    then have "NENV - c mod NENV < NENV" using c by simp
    from suma_circular [OF assms this] False c assms show ?thesis by (auto simp: distancia_def)
  qed
qed

lemma suma_mod: "(c + d) mod NENV = (c mod NENV + d) mod NENV"
  by (simp add: mod_add_left_eq)

lemma c_mod: "c mod NENV < NENV"
  by (simp add: NENV_def)

lemma distancia_llega:
  assumes "w < NENV"
  shows "(c + distancia c w) mod NENV = w"
proof -
  have "(c + distancia c w) mod NENV = (if c mod NENV + distancia c w < NENV then c mod NENV + distancia c w
      else c mod NENV + distancia c w - NENV)"
    using suma_circular [OF c_mod distancia_lt] suma_mod [of c] by simp
  moreover obtain r where r: "c mod NENV = r" by blast
  ultimately show ?thesis using assms c_mod [of c] by (auto simp: distancia_if r)
qed

lemma distancia_suma:
  assumes "i < NENV"
  shows "distancia c ((c + i) mod NENV) = i"
proof -
  let ?w = "(c + i) mod NENV"
  have w: "?w = (if c mod NENV + i < NENV then c mod NENV + i else c mod NENV + i - NENV)"
    using suma_circular [OF c_mod assms] suma_mod [of c] by simp
  have "distancia c ?w = (if c mod NENV \<le> ?w then ?w - c mod NENV else ?w + NENV - c mod NENV)"
    by (rule distancia_if [OF c_mod])
  with w assms c_mod [of c] show ?thesis by (simp split: if_splits)
qed

lemma distancia_cero: "c < NENV \<Longrightarrow> w < NENV \<Longrightarrow> distancia c w = 0 \<longleftrightarrow> w = c"
  by (auto simp: distancia_if)

text \<open>Moving to a place on the way to \<open>w\<close> shortens the distance by what was travelled.\<close>

lemma distancia_resta:
  assumes "c < NENV" "e < NENV" "w < NENV" "distancia c e \<le> distancia c w"
  shows "distancia e w = distancia c w - distancia c e"
  using assms by (auto simp: distancia_if split: if_splits)

abbreviation listo :: "kernel \<Rightarrow> nat \<Rightarrow> bool" where
  "listo k e \<equiv> e < NENV \<and> env_status (envs k e) = ENV_RUNNABLE"

abbreviation prio :: "kernel \<Rightarrow> nat \<Rightarrow> int" where
  "prio k e \<equiv> sint (env_priority (envs k e))"

section \<open>Round robin\<close>

lemma siguiente_rr_Some:
  "siguiente_rr k c = Some e \<longleftrightarrow> listo k e \<and> (\<forall>w. listo k w \<longrightarrow> distancia c e \<le> distancia c w)"
proof
  assume "siguiente_rr k c = Some e"
  then obtain i where i: "i < NENV" "e = (c + i) mod NENV" "env_status (envs k e) = ENV_RUNNABLE"
    "\<forall>j<i. env_status (envs k ((c + j) mod NENV)) \<noteq> ENV_RUNNABLE"
    by (auto simp: siguiente_rr_def primer_indice_Some)
  have "distancia c e \<le> distancia c w" if w: "listo k w" for w
  proof (rule ccontr)
    assume "\<not> distancia c e \<le> distancia c w"
    then have "distancia c w < i" using i(1,2) distancia_suma by simp
    with i(4) distancia_llega [of w c] w show False by auto
  qed
  with i show "listo k e \<and> (\<forall>w. listo k w \<longrightarrow> distancia c e \<le> distancia c w)" by (simp add: NENV_def)
next
  assume e: "listo k e \<and> (\<forall>w. listo k w \<longrightarrow> distancia c e \<le> distancia c w)"
  have "primer_indice (\<lambda>i. env_status (envs k ((c + i) mod NENV)) = ENV_RUNNABLE) NENV = Some (distancia c e)"
    unfolding primer_indice_Some
  proof (intro conjI allI impI)
    show "distancia c e < NENV" by (rule distancia_lt)
    show "env_status (envs k ((c + distancia c e) mod NENV)) = ENV_RUNNABLE"
      using e distancia_llega [of e c] by simp
    fix j assume j: "j < distancia c e"
    then have jN: "j < NENV" using distancia_lt [of c e] by simp
    show "env_status (envs k ((c + j) mod NENV)) \<noteq> ENV_RUNNABLE"
    proof
      assume "env_status (envs k ((c + j) mod NENV)) = ENV_RUNNABLE"
      then have "listo k ((c + j) mod NENV)" by (simp add: NENV_def)
      with e j distancia_suma [OF jN, of c] show False by fastforce
    qed
  qed
  with e distancia_llega [of e c] show "siguiente_rr k c = Some e" by (simp add: siguiente_rr_def)
qed

lemma siguiente_rr_None: "siguiente_rr k c = None \<longleftrightarrow> \<not> (\<exists>e. listo k e)"
proof
  assume n: "siguiente_rr k c = None"
  show "\<not> (\<exists>e. listo k e)"
  proof
    assume "\<exists>e. listo k e"
    then obtain e where e: "listo k e" by blast
    from n have "\<not> env_status (envs k ((c + distancia c e) mod NENV)) = ENV_RUNNABLE"
      using distancia_lt [of c e] by (simp add: siguiente_rr_def primer_indice_None)
    with e distancia_llega [of e c] show False by simp
  qed
next
  assume "\<not> (\<exists>e. listo k e)"
  then show "siguiente_rr k c = None"
    by (auto simp: siguiente_rr_def primer_indice_None NENV_def)
qed

lemma anotar_fin_simps [simp]:
  "env_status (envs (anotar_fin k) e) = env_status (envs k e)"
  "env_priority (envs (anotar_fin k) e) = env_priority (envs k e)"
  "env_runs (envs (anotar_fin k) e) = env_runs (envs k e)"
  "env_pgdir (envs (anotar_fin k) e) = env_pgdir (envs k e)"
  "env_id (envs (anotar_fin k) e) = env_id (envs k e)"
  "env_cpunum (envs (anotar_fin k) e) = env_cpunum (envs k e)"
  "curenv (anotar_fin k) = curenv k" "cpu_id (anotar_fin k) = cpu_id k"
  "kern_pgdir (anotar_fin k) = kern_pgdir k"
  by (auto simp: anotar_fin_def con_env_def split: option.splits)

lemma siguiente_rr_cong:
  "(\<And>e. env_status (envs k' e) = env_status (envs k e)) \<Longrightarrow> siguiente_rr k' c = siguiente_rr k c"
  by (simp add: siguiente_rr_def)

lemma env_run_Some:
  assumes "env_run e k = Some (d, k')"
  shows "d = Usuario e" "curenv k' = Some e" "env_status (envs k' e) = ENV_RUNNING"
    "env_pgdir (envs k' e) = Some (cr3 k')"
    "\<And>i. i \<noteq> e \<Longrightarrow> envs k' i = (if curenv k = Some i \<and> env_status (envs k i) = ENV_RUNNING
        then (envs k i)\<lparr>env_status := ENV_RUNNABLE\<rparr> else envs k i)"
    "env_priority (envs k' e) = env_priority (envs k e)" "env_id (envs k' e) = env_id (envs k e)"
    "env_pgdir (envs k' e) = env_pgdir (envs k e)"
  using assms by (auto simp: env_run_def Let_def con_env_def split: option.splits bind_splits if_splits)

lemma env_run_ex: "env_pgdir (envs k e) \<noteq> None \<Longrightarrow> \<exists>k'. env_run e k = Some (Usuario e, k')"
  by (auto simp: env_run_def Let_def con_env_def split: option.splits)

text \<open>What \<open>sched_yield\<close> does under round robin, with an environment running or not.\<close>

lemma rr_forma:
  assumes "curenv k = Some c" "c < NENV"
  defines "k1 \<equiv> anotar_fin (k\<lparr>sched_calls := sched_calls k + 1, sched_time := sched_time k + 1\<rparr>)"
  shows "sched_yield SCHED_ROUND_ROBIN k = (case siguiente_rr k c of
      Some e \<Rightarrow> env_run e (k1\<lparr>last_env := Some e\<rparr>)
    | None \<Rightarrow> if env_status (envs k c) = ENV_RUNNING then env_run c (k1\<lparr>last_env := Some c\<rparr>)
        else Some (sched_halt (k1\<lparr>last_env := None\<rparr>)))"
proof -
  have "siguiente_rr k1 c = siguiente_rr k c" by (rule siguiente_rr_cong) (simp add: k1_def)
  moreover have "curenv k1 = Some c" "env_status (envs k1 c) = env_status (envs k c)"
    by (simp_all add: k1_def assms(1))
  ultimately show ?thesis
    using assms(1,2) by (simp add: sched_yield_def sched_round_robin_def Let_def k1_def [symmetric] split: option.split)
qed

text \<open>
  Round robin in circular order. With environment \<open>c\<close> current, \<open>sched_yield\<close> runs the
  first runnable environment found going around the table from \<open>c\<close>; with none runnable it
  goes on with \<open>c\<close> if \<open>c\<close> is still running, and otherwise it does not go to user mode.
\<close>

theorem rr_orden_circular:
  assumes "curenv k = Some c" "c < NENV" "\<forall>e. listo k e \<or> e = c \<longrightarrow> env_pgdir (envs k e) \<noteq> None"
  shows "\<exists>d k'. sched_yield SCHED_ROUND_ROBIN k = Some (d, k')
    \<and> (if \<exists>e. listo k e
       then \<exists>e. d = Usuario e \<and> listo k e \<and> (\<forall>w. listo k w \<longrightarrow> distancia c e \<le> distancia c w)
       else if env_status (envs k c) = ENV_RUNNING then d = Usuario c else d \<in> {Detenido, Monitor_kernel})"
proof -
  let ?k1 = "anotar_fin (k\<lparr>sched_calls := sched_calls k + 1, sched_time := sched_time k + 1\<rparr>)"
  note f = rr_forma [OF assms(1,2)]
  have run: "\<exists>k'. env_run e (?k1\<lparr>last_env := x\<rparr>) = Some (Usuario e, k')" if "env_pgdir (envs k e) \<noteq> None" for e x
    using that by (intro env_run_ex) simp
  show ?thesis
  proof (cases "siguiente_rr k c")
    case None
    then have n: "\<not> (\<exists>e. listo k e)" by (simp add: siguiente_rr_None)
    show ?thesis
    proof (cases "env_status (envs k c) = ENV_RUNNING")
      case True
      with f None run [of c] assms(3) n show ?thesis by auto
    next
      case False
      obtain d k' where h: "sched_halt (?k1\<lparr>last_env := None\<rparr>) = (d, k')" by fastforce
      then have "d \<in> {Detenido, Monitor_kernel}" by (auto simp: sched_halt_def split: if_splits)
      with f None False h n show ?thesis by auto
    qed
  next
    case (Some e)
    note e = Some [unfolded siguiente_rr_Some]
    then have "env_pgdir (envs k e) \<noteq> None" using assms(3) by blast
    with run [of e "Some e"] f Some e show ?thesis by auto
  qed
qed

lemma rr_orden_circular_witness:
  "\<exists>d k'. sched_yield SCHED_ROUND_ROBIN (con_env 2 (\<lambda>r. r\<lparr>env_pgdir := Some 9\<rparr>) k_dos) = Some (d, k') \<and> d = Usuario 2"
proof -
  let ?k = "con_env 2 (\<lambda>r. r\<lparr>env_pgdir := Some 9\<rparr>) k_dos"
  have l: "listo ?k e \<longleftrightarrow> e = 2" for e by (simp add: NENV_def)
  have "curenv ?k = Some 1" "1 < NENV" "\<forall>e. listo ?k e \<or> e = 1 \<longrightarrow> env_pgdir (envs ?k e) \<noteq> None"
    unfolding l by (simp_all add: NENV_def) (simp add: k_dos_def)
  from rr_orden_circular [OF this] show ?thesis unfolding l by auto
qed

section \<open>How long an environment waits\<close>

text \<open>The first place of the search: the current environment, or the first of the table.\<close>

definition inicio_rr :: "kernel \<Rightarrow> nat" where
  "inicio_rr k = (case curenv k of None \<Rightarrow> 0 | Some c \<Rightarrow> c)"

lemma rr_sin_actual:
  assumes "curenv k = None"
  defines "k1 \<equiv> anotar_fin (k\<lparr>sched_calls := sched_calls k + 1, sched_time := sched_time k + 1\<rparr>)"
  shows "sched_yield SCHED_ROUND_ROBIN k = (case siguiente_rr k 0 of
      Some e \<Rightarrow> env_run e (k1\<lparr>last_env := Some e\<rparr>)
    | None \<Rightarrow> Some (sched_halt (k1\<lparr>last_env := None\<rparr>)))"
proof -
  have "siguiente_rr k1 0 = siguiente_rr k 0" by (rule siguiente_rr_cong) (simp add: k1_def)
  moreover have "curenv k1 = None" by (simp add: k1_def assms(1))
  ultimately show ?thesis
    using assms(1) by (simp add: sched_yield_def sched_round_robin_def Let_def k1_def [symmetric] split: option.split)
qed

lemma rr_elige:
  assumes "sched_yield SCHED_ROUND_ROBIN k = Some (Usuario e, k')" "listo k w" "inicio_rr k < NENV"
  shows "listo k e" "distancia (inicio_rr k) e \<le> distancia (inicio_rr k) w"
proof -
  obtain a where a: "siguiente_rr k (inicio_rr k) = Some a"
    using siguiente_rr_None [of k "inicio_rr k"] assms(2) by (cases "siguiente_rr k (inicio_rr k)") auto
  have "e = a"
  proof (cases "curenv k")
    case None
    with a assms(1) rr_sin_actual [OF None] show ?thesis by (auto simp: inicio_rr_def dest: env_run_Some(1))
  next
    case (Some c)
    then have c: "inicio_rr k = c" by (simp add: inicio_rr_def)
    then have "env_run a (anotar_fin (k\<lparr>sched_calls := sched_calls k + 1, sched_time := sched_time k + 1\<rparr>)\<lparr>last_env := Some a\<rparr>)
        = Some (Usuario e, k')" using a assms(1,3) rr_forma [OF Some] by simp
    from env_run_Some(1) [OF this] show ?thesis by simp
  qed
  with a assms(2) show "listo k e" "distancia (inicio_rr k) e \<le> distancia (inicio_rr k) w"
    by (auto simp: siguiente_rr_Some)
qed

lemma distancia_desde_0: "w < NENV \<Longrightarrow> distancia 0 w = w"
  by (simp add: distancia_if)

text \<open>
  C16: how long a runnable environment waits under round robin. Take any run of
  consecutive calls of \<open>sched_yield\<close> of one CPU: the environment that a call ran is the
  current one at the next, or there is none because it was destroyed or the CPU halted.
  If \<open>w\<close> is runnable at every call and is passed over \<open>n\<close> times, then \<open>n\<close> is less than
  its distance from the first current environment, plus \<open>w\<close> for every call with no current
  environment, because the search starts there at the head of the table, plus one for
  every call whose current environment is itself runnable, because the search starts at
  the current one and so runs it again. With neither it waits at most 1023 calls.
\<close>

theorem rr_espera_acotada:
  fixes ks :: "nat \<Rightarrow> kernel"
  assumes w: "\<forall>i<n. listo (ks i) w"
    and cur: "\<forall>i<n. curenv (ks i) = Some (cs i) \<or> curenv (ks i) = None" "curenv (ks 0) = None \<longrightarrow> cs 0 = 0"
    and cN: "\<forall>i\<le>n. cs i < NENV"
    and paso: "\<forall>i<n. \<exists>k'. sched_yield SCHED_ROUND_ROBIN (ks i) = Some (Usuario (cs (Suc i)), k')"
    and pasado: "\<forall>i<n. cs (Suc i) \<noteq> w"
  shows "n = 0 \<or> n < distancia (cs 0) w
      + w * length (filter (\<lambda>i. curenv (ks i) = None) [0..<n])
      + length (filter (\<lambda>i. curenv (ks i) = Some (cs i) \<and> listo (ks i) (cs i)) [0..<n])"
proof -
  let ?r = "\<lambda>n. length (filter (\<lambda>i. curenv (ks i) = None) [0..<n])"
  let ?s = "\<lambda>n. length (filter (\<lambda>i. curenv (ks i) = Some (cs i) \<and> listo (ks i) (cs i)) [0..<n])"
  have uno: "1 \<le> distancia (cs m) w" if m: "m \<le> n" "0 < m" "w < NENV" for m
  proof -
    have "cs m \<noteq> w" using pasado [rule_format, of "m - 1"] m(1,2) by simp
    then show ?thesis using distancia_cero [of "cs m" w] cN m by (simp add: Suc_le_eq)
  qed
  have "m + distancia (cs m) w \<le> distancia (cs 0) w + w * ?r m + ?s m" if "m \<le> n" for m
    using that
  proof (induction m)
    case (Suc m)
    then have m: "m < n" by simp
    let ?e = "cs (Suc m)"
    obtain k' where y: "sched_yield SCHED_ROUND_ROBIN (ks m) = Some (Usuario ?e, k')" using paso m by blast
    have N: "cs m < NENV" "?e < NENV" "?e \<noteq> w" using cN pasado m by auto
    have lw: "listo (ks m) w" using w m by blast
    have IH: "m + distancia (cs m) w \<le> distancia (cs 0) w + w * ?r m + ?s m" using Suc m by simp
    show ?case
    proof (cases "curenv (ks m)")
      case None
      then have z: "inicio_rr (ks m) = 0" by (simp add: inicio_rr_def)
      have "?e \<le> w" using rr_elige(2) [OF y lw] N lw z by (simp add: distancia_desde_0)
      then have q: "?e < w" "distancia ?e w \<le> w" using N lw by (simp_all add: distancia_if)
      have "1 \<le> distancia (cs m) w"
      proof (cases m)
        case 0
        with None cur(2) q lw show ?thesis by (simp add: distancia_desde_0)
      next
        case (Suc j)
        with uno [of m] m lw show ?thesis by simp
      qed
      with IH None q(2) show ?thesis by simp
    next
      case (Some c)
      with cur(1) m have c: "curenv (ks m) = Some (cs m)" by fastforce
      then have z: "inicio_rr (ks m) = cs m" by (simp add: inicio_rr_def)
      have el: "listo (ks m) ?e" "distancia (cs m) ?e \<le> distancia (cs m) w"
        using rr_elige [OF y lw] N(1) z by simp_all
      have r: "distancia ?e w = distancia (cs m) w - distancia (cs m) ?e"
        using distancia_resta [OF N(1,2) _ el(2)] lw by blast
      show ?thesis
      proof (cases "?e = cs m")
        case True
        with el(1) c IH show ?thesis by simp
      next
        case False
        then have "0 < distancia (cs m) ?e" using distancia_cero [OF N(1,2)] by simp
        with IH r el(2) c show ?thesis by simp
      qed
    qed
  qed simp
  from this [of n] have n: "n + distancia (cs n) w \<le> distancia (cs 0) w + w * ?r n + ?s n" by simp
  show ?thesis
  proof (cases "n = 0")
    case False
    then have "w < NENV" using w by blast
    with n uno [of n] False show ?thesis by simp
  qed simp
qed

lemma rr_espera_acotada_witness:
  "\<exists>k k'. sched_yield SCHED_ROUND_ROBIN k = Some (Usuario 2, k') \<and> listo k 5
    \<and> (1 = (0::nat) \<or> 1 < distancia 1 5)"
proof -
  let ?k = "con_env 5 (\<lambda>r. r\<lparr>env_status := ENV_RUNNABLE\<rparr>) (con_env 2 (\<lambda>r. r\<lparr>env_pgdir := Some 9\<rparr>) k_dos)"
  let ?ks = "\<lambda>i::nat. if i = 0 then ?k else ?k\<lparr>curenv := Some 2\<rparr>" and ?cs = "\<lambda>i::nat. if i = 0 then 1 else 2 :: nat"
  have "siguiente_rr ?k 1 = Some 2"
    unfolding siguiente_rr_Some by (auto simp: NENV_def distancia_def)
  then obtain k' where y: "sched_yield SCHED_ROUND_ROBIN ?k = Some (Usuario 2, k')"
    using rr_forma [of ?k 1] by (simp add: NENV_def env_run_def Let_def con_env_def split: option.splits)
  have "1 = (0::nat) \<or> 1 < distancia (?cs 0) 5 + 5 * length (filter (\<lambda>i. curenv (?ks i) = None) [0..<1])
      + length (filter (\<lambda>i. curenv (?ks i) = Some (?cs i) \<and> listo (?ks i) (?cs i)) [0..<1])"
    by (rule rr_espera_acotada [where ks = ?ks and cs = ?cs]) (use y in \<open>auto simp: NENV_def\<close>)
  then have "1 = (0::nat) \<or> 1 < distancia 1 5" by simp
  with y show ?thesis by (intro exI [of _ ?k] exI [of _ k']) (simp add: NENV_def)
qed

text \<open>
  The two cases in which the wait has no bound. A current environment that is runnable
  (it set its own status with \<open>sys_env_set_status\<close>) is run again, whatever else is
  runnable; and with no current environment the first of the table is run, so environments
  that keep being destroyed and created at the head of the table keep the rest waiting.
\<close>

lemma rr_repite:
  assumes "curenv k = Some c" "listo k c" "env_pgdir (envs k c) \<noteq> None"
  shows "\<exists>k'. sched_yield SCHED_ROUND_ROBIN k = Some (Usuario c, k')"
proof -
  have c: "c < NENV" using assms(2) by blast
  then have "siguiente_rr k c = Some c" using assms(2) distancia_cero [OF c c] by (simp add: siguiente_rr_Some)
  then show ?thesis using rr_forma [OF assms(1) c] assms(3) env_run_ex by simp
qed

lemma rr_desde_0:
  assumes "curenv k = None" "listo k 0" "env_pgdir (envs k 0) \<noteq> None"
  shows "\<exists>k'. sched_yield SCHED_ROUND_ROBIN k = Some (Usuario 0, k')"
proof -
  have "siguiente_rr k 0 = Some 0" using assms(2) by (simp add: siguiente_rr_Some distancia_desde_0)
  then show ?thesis using rr_sin_actual [OF assms(1)] assms(3) env_run_ex by simp
qed

section \<open>Priorities\<close>

text \<open>The search keeps the first of the candidates of least priority.\<close>

lemma elegir_fold:
  fixes k :: kernel and inicio :: nat and B :: int
  defines "f \<equiv> \<lambda>i. (i + inicio) mod NENV"
  defines "cand \<equiv> \<lambda>i. env_status (envs k (f i)) = ENV_RUNNABLE \<and> prio k (f i) < B"
  shows "case fold (elegir_paso k inicio) [0..<n] (None, B) of
      (None, b) \<Rightarrow> b = B \<and> (\<forall>i<n. \<not> cand i)
    | (Some e, b) \<Rightarrow> \<exists>i<n. e = f i \<and> b = prio k e \<and> cand i
        \<and> (\<forall>j<n. cand j \<longrightarrow> b < prio k (f j) \<or> b = prio k (f j) \<and> i \<le> j)"
proof (induction n)
  case (Suc n)
  obtain r b where rb: "fold (elegir_paso k inicio) [0..<n] (None, B) = (r, b)" by fastforce
  have st: "fold (elegir_paso k inicio) [0..<Suc n] (None, B) =
    (if env_status (envs k (f n)) = ENV_RUNNABLE \<and> prio k (f n) < b then (Some (f n), prio k (f n)) else (r, b))"
    by (simp add: rb elegir_paso_def Let_def f_def)
  show ?case
  proof (cases r)
    case None
    with Suc rb have h: "b = B" "\<forall>i<n. \<not> cand i" by simp_all
    show ?thesis unfolding st using None h by (auto simp: cand_def less_Suc_eq)
  next
    case (Some e)
    with Suc rb obtain i where i: "i < n" "e = f i" "b = prio k e" "cand i"
      "\<forall>j<n. cand j \<longrightarrow> b < prio k (f j) \<or> b = prio k (f j) \<and> i \<le> j" by auto
    show ?thesis
    proof (cases "env_status (envs k (f n)) = ENV_RUNNABLE \<and> prio k (f n) < b")
      case True
      with i have "cand n" by (auto simp: cand_def)
      with True i(5) show ?thesis unfolding st by (auto simp: less_Suc_eq intro!: exI [of _ n])
    next
      case False
      then have "cand n \<longrightarrow> b < prio k (f n) \<or> b = prio k (f n) \<and> i \<le> n"
        using i(1) by (auto simp: cand_def)
      with False Some i show ?thesis unfolding st by (auto simp: less_Suc_eq intro!: exI [of _ i])
    qed
  qed
qed simp

lemma lugar_distancia: "e < NENV \<Longrightarrow> (distancia c e + c) mod NENV = e" "i < NENV \<Longrightarrow> distancia c ((i + c) mod NENV) = i"
  using distancia_llega [of e c] distancia_suma [of i c] by (simp_all add: add.commute)

text \<open>\<open>mejor k inicio e\<close>: of the runnable environments with priority at most 10, \<open>e\<close> has the
  least, and is the first of those from \<open>inicio\<close>.\<close>

definition mejor :: "kernel \<Rightarrow> nat \<Rightarrow> nat \<Rightarrow> bool" where
  "mejor k inicio e \<longleftrightarrow> listo k e \<and> prio k e \<le> PRIORIDAD_MAX
     \<and> (\<forall>w. listo k w \<longrightarrow> prio k e < prio k w
          \<or> prio k e = prio k w \<and> distancia inicio e \<le> distancia inicio w)"

lemma elegir_mejor:
  "elegir k inicio = Some e \<Longrightarrow> mejor k inicio e"
  "elegir k inicio = None \<longleftrightarrow> (\<forall>w. listo k w \<longrightarrow> PRIORIDAD_MAX < prio k w)"
proof -
  let ?f = "\<lambda>i. (i + inicio) mod NENV"
  let ?c = "\<lambda>i. env_status (envs k (?f i)) = ENV_RUNNABLE \<and> prio k (?f i) < PRIORIDAD_MAX + 1"
  note F = elegir_fold [where k = k and inicio = inicio and B = "PRIORIDAD_MAX + 1" and n = NENV]
  have fN: "?f i < NENV" for i by (simp add: NENV_def)
  have Some: "mejor k inicio e" if "elegir k inicio = Some e" for e
  proof -
    from that F obtain i where i: "i < NENV" "e = ?f i" "?c i"
      "\<forall>j<NENV. ?c j \<longrightarrow> prio k e < prio k (?f j) \<or> prio k e = prio k (?f j) \<and> i \<le> j"
      by (auto simp: elegir_def split: prod.splits option.splits)
    have "prio k e < prio k w \<or> prio k e = prio k w \<and> distancia inicio e \<le> distancia inicio w"
      if w: "listo k w" for w
    proof (cases "prio k w < PRIORIDAD_MAX + 1")
      case True
      have "?f (distancia inicio w) = w" using lugar_distancia(1) w by blast
      with i(4) [rule_format, OF distancia_lt [of inicio w]] True w
      have "prio k e < prio k w \<or> prio k e = prio k w \<and> i \<le> distancia inicio w" by simp
      with i(1,2) lugar_distancia(2) show ?thesis by simp
    next
      case False
      with i(2,3) show ?thesis by simp
    qed
    with i(2,3) fN show ?thesis by (simp add: mejor_def)
  qed
  show "elegir k inicio = Some e \<Longrightarrow> mejor k inicio e" by (rule Some)
  show "elegir k inicio = None \<longleftrightarrow> (\<forall>w. listo k w \<longrightarrow> PRIORIDAD_MAX < prio k w)"
  proof
    assume "elegir k inicio = None"
    with F have n: "\<forall>i<NENV. \<not> ?c i" by (auto simp: elegir_def split: prod.splits option.splits)
    show "\<forall>w. listo k w \<longrightarrow> PRIORIDAD_MAX < prio k w"
    proof (intro allI impI)
      fix w assume w: "listo k w"
      have "?f (distancia inicio w) = w" using lugar_distancia(1) w by blast
      with n [rule_format, OF distancia_lt [of inicio w]] w show "PRIORIDAD_MAX < prio k w" by auto
    qed
  next
    assume a: "\<forall>w. listo k w \<longrightarrow> PRIORIDAD_MAX < prio k w"
    show "elegir k inicio = None"
    proof (cases "elegir k inicio")
      case (Some e)
      with \<open>\<And>e. elegir k inicio = Some e \<Longrightarrow> mejor k inicio e\<close> a show ?thesis by (force simp: mejor_def)
    qed simp
  qed
qed

text \<open>The parts of a kernel that \<open>subir_prioridad\<close> and the statistics do not change.\<close>

lemma subir_prioridad_simps [simp]:
  "env_status (envs (subir_prioridad e k) i) = env_status (envs k i)"
  "env_pgdir (envs (subir_prioridad e k) i) = env_pgdir (envs k i)"
  "env_id (envs (subir_prioridad e k) i) = env_id (envs k i)"
  "curenv (subir_prioridad e k) = curenv k"
  by (auto simp: subir_prioridad_def)

lemma actualizar_stats_simps [simp]:
  "env_status (envs (actualizar_stats_proceso e k) i) = env_status (envs k i)"
  "env_pgdir (envs (actualizar_stats_proceso e k) i) = env_pgdir (envs k i)"
  "env_id (envs (actualizar_stats_proceso e k) i) = env_id (envs k i)"
  "env_priority (envs (actualizar_stats_proceso e k) i) = env_priority (envs k i)"
  "curenv (actualizar_stats_proceso e k) = curenv k"
  by (auto simp: actualizar_stats_proceso_def Let_def con_env_def)

lemma elegir_cong:
  assumes "\<And>e. env_status (envs k' e) = env_status (envs k e)" "\<And>e. env_priority (envs k' e) = env_priority (envs k e)"
  shows "elegir k' c = elegir k c"
proof -
  have "elegir_paso k' c = elegir_paso k c" by (simp add: elegir_paso_def assms fun_eq_iff Let_def)
  then show ?thesis by (simp add: elegir_def)
qed

lemma env_run_prioridad:
  "env_run e k = Some (d, k') \<Longrightarrow> env_priority (envs k' i) = env_priority (envs k i)"
  using env_run_Some(5) [of e k d k' i] env_run_Some(6) [of e k d k'] by (cases "i = e") auto

lemma prioridades_forma:
  fixes k :: kernel
  defines "kz \<equiv> k\<lparr>sched_calls := sched_calls k + 1, sched_time := sched_time k + 1\<rparr>"
  defines "k1 \<equiv> anotar_fin (kz\<lparr>sched_time := sched_time kz + 1\<rparr>)"
    and "inicio \<equiv> (case curenv k of None \<Rightarrow> 0 | Some c \<Rightarrow> ENVX (env_id (envs k c)) + 1)"
  shows "sched_yield SCHED_PRIORITIES k = (case elegir k inicio of
      Some e \<Rightarrow> env_run e ((actualizar_stats_proceso e (subir_prioridad e k1))\<lparr>last_env := Some e\<rparr>)
    | None \<Rightarrow> (case curenv k of
          Some c \<Rightarrow> if env_status (envs k c) = ENV_RUNNING \<and> env_cpunum (envs k c) = cpu_id k
            then env_run c (k1\<lparr>last_env := Some c\<rparr>) else Some (sched_halt k1)
        | None \<Rightarrow> Some (sched_halt k1)))"
proof -
  have k: "elegir k1 i = elegir k i" for i by (rule elegir_cong) (simp_all add: k1_def kz_def)
  have i: "inicio = (case curenv kz of None \<Rightarrow> 0 | Some c \<Rightarrow> ENVX (env_id (envs kz c)) + 1)"
    by (cases "curenv k") (simp_all add: inicio_def kz_def)
  have c: "curenv k1 = curenv k" "env_status (envs k1 x) = env_status (envs k x)"
    "env_cpunum (envs k1 x) = env_cpunum (envs k x)" "cpu_id k1 = cpu_id k" for x
    by (simp_all add: k1_def kz_def)
  have "sched_yield SCHED_PRIORITIES k = sched_prioridades kz" by (simp add: sched_yield_def kz_def)
  then show ?thesis
    unfolding sched_prioridades_def i [symmetric] k1_def [symmetric] Let_def k c .
qed

lemma mas_uno_prioridad: "prio k e < 10 \<Longrightarrow> 0 \<le> prio k e \<Longrightarrow> sint (env_priority (envs k e) + 1) = prio k e + 1"
proof -
  assume a: "prio k e < 10" "0 \<le> prio k e"
  then have s: "prio k e = int (unat (env_priority (envs k e)))" by (simp add: sint_nonneg_unat)
  then have u: "unat (env_priority (envs k e)) < 10" using a(1) by linarith
  then have "unat (env_priority (envs k e) + 1) = unat (env_priority (envs k e)) + 1"
    by (simp add: unat_word_ariths)
  moreover from this u have "sint (env_priority (envs k e) + 1) = int (unat (env_priority (envs k e) + 1))"
    using sint_word_of_nat_small [of "unat (env_priority (envs k e) + 1)"] by (simp add: add.commute)
  ultimately show ?thesis by (simp only: s of_nat_add of_nat_1)
qed

text \<open>
  C17: the priority policy. When some runnable environment has priority at most 10,
  \<open>sched_yield\<close> runs a runnable environment of least priority, the first of them after the
  current one. If its priority was 10, it and every other runnable one go back to 1;
  otherwise it alone goes up by one, once it has run before; no other priority changes.
\<close>

theorem prioridades_elige:
  assumes t: "tabla_ok k" and c: "curenv k = Some c" "c < NENV" "env_status (envs k c) \<noteq> ENV_FREE"
    and ex: "\<exists>e. listo k e \<and> prio k e \<le> PRIORIDAD_MAX"
    and pd: "\<forall>e. listo k e \<longrightarrow> env_pgdir (envs k e) \<noteq> None \<and> 0 \<le> prio k e"
  shows "\<exists>e k'. sched_yield SCHED_PRIORITIES k = Some (Usuario e, k') \<and> mejor k (c + 1) e
    \<and> (\<forall>i<NENV. prio k' i =
        (if prio k e = PRIORIDAD_MAX then (if listo k i then PRIORIDAD_MIN else prio k i)
         else if i = e \<and> env_runs (envs k e) > 0 then prio k i + 1 else prio k i))"
proof -
  let ?kz = "k\<lparr>sched_calls := sched_calls k + 1, sched_time := sched_time k + 1\<rparr>"
  let ?k1 = "anotar_fin (?kz\<lparr>sched_time := sched_time ?kz + 1\<rparr>)"
  have "(case curenv k of None \<Rightarrow> 0 | Some c \<Rightarrow> ENVX (env_id (envs k c)) + 1) = c + 1"
    using t c by (simp add: tabla_ok_def)
  note f = prioridades_forma [of k, unfolded this]
  obtain e where e: "elegir k (c + 1) = Some e"
  proof (cases "elegir k (c + 1)")
    case None
    with ex show ?thesis unfolding elegir_mejor(2) by force
  qed (rule that)
  note m = elegir_mejor(1) [OF e]
  then have le: "listo k e" "prio k e \<le> 10" "0 \<le> prio k e" "env_pgdir (envs k e) \<noteq> None"
    using pd by (auto simp: mejor_def PRIORIDAD_MAX_def)
  let ?k2 = "(actualizar_stats_proceso e (subir_prioridad e ?k1))\<lparr>last_env := Some e\<rparr>"
  have "env_pgdir (envs ?k2 e) \<noteq> None" using le(4) by simp
  then obtain k' where k': "env_run e ?k2 = Some (Usuario e, k')"
    using env_run_ex by blast
  have y: "sched_yield SCHED_PRIORITIES k = Some (Usuario e, k')" using f e k' by simp
  have p: "prio k' i = prio (subir_prioridad e ?k1) i" for i
    using env_run_prioridad [OF k'] by simp
  have "prio k' i = (if prio k e = PRIORIDAD_MAX then (if listo k i then PRIORIDAD_MIN else prio k i)
         else if i = e \<and> env_runs (envs k e) > 0 then prio k i + 1 else prio k i)" if i: "i < NENV" for i
  proof (cases "prio k e = PRIORIDAD_MAX")
    case True
    then show ?thesis using i by (simp add: p subir_prioridad_def PRIORIDAD_MIN_def)
  next
    case False
    with le(2) have "prio k e < 10" by (simp add: PRIORIDAD_MAX_def)
    with mas_uno_prioridad [of k e] le(3) False show ?thesis by (simp add: p subir_prioridad_def)
  qed
  with y m show ?thesis by blast
qed

lemma prioridades_elige_witness:
  "\<exists>k k'. sched_yield SCHED_PRIORITIES k = Some (Usuario 2, k') \<and> prio k 2 = 10 \<and> prio k' 2 = 1"
proof -
  let ?k = "con_env 2 (\<lambda>r. r\<lparr>env_pgdir := Some 9, env_priority := 10\<rparr>) k_dos"
  have s10: "prio ?k 2 = 10" by simp
  have l: "listo ?k e \<longleftrightarrow> e = 2" for e by (simp add: NENV_def)
  have t: "tabla_ok ?k" using k_dos_tabla tabla_ok_cong [of ?k k_dos] by simp
  have c: "curenv ?k = Some 1" "1 < NENV" "env_status (envs ?k 1) \<noteq> ENV_FREE" by (simp_all add: NENV_def)
  have ex: "\<exists>e. listo ?k e \<and> prio ?k e \<le> PRIORIDAD_MAX"
    by (rule exI [of _ 2]) (simp add: NENV_def PRIORIDAD_MAX_def)
  have pd: "\<forall>e. listo ?k e \<longrightarrow> env_pgdir (envs ?k e) \<noteq> None \<and> 0 \<le> prio ?k e"
    unfolding l by simp
  obtain e k' where y: "sched_yield SCHED_PRIORITIES ?k = Some (Usuario e, k')" "mejor ?k (1 + 1) e"
    "\<forall>i<NENV. prio k' i = (if prio ?k e = PRIORIDAD_MAX then (if listo ?k i then PRIORIDAD_MIN else prio ?k i)
         else if i = e \<and> env_runs (envs ?k e) > 0 then prio ?k i + 1 else prio ?k i)"
    using prioridades_elige [OF t c ex pd] by blast
  have e2: "e = 2" using y(2) l unfolding mejor_def by blast
  have "prio k' 2 = 1"
    using y(3) [rule_format, of 2] s10 unfolding e2 l by (simp add: NENV_def PRIORIDAD_MAX_def PRIORIDAD_MIN_def)
  with y(1) s10 e2 show ?thesis by blast
qed

section \<open>Both policies\<close>

lemma sched_halt_no_usuario: "sched_halt k = (d, k') \<Longrightarrow> d \<noteq> Usuario e"
  by (auto simp: sched_halt_def split: if_splits)

text \<open>What both policies run, and from which kernel.\<close>

lemma sched_yield_corre:
  assumes y: "sched_yield plan k = Some (Usuario e, k')" "plan \<noteq> SIN_PLANIFICADOR"
    and c: "\<forall>c. curenv k = Some c \<longrightarrow> c < NENV"
  shows "\<exists>k2. env_run e k2 = Some (Usuario e, k') \<and> curenv k2 = curenv k
    \<and> (\<forall>i. env_status (envs k2 i) = env_status (envs k i) \<and> env_pgdir (envs k2 i) = env_pgdir (envs k i))
    \<and> (listo k e \<or> curenv k = Some e \<and> env_status (envs k e) = ENV_RUNNING)"
proof (cases plan)
  case SCHED_ROUND_ROBIN
  let ?k1 = "anotar_fin (k\<lparr>sched_calls := sched_calls k + 1, sched_time := sched_time k + 1\<rparr>)"
  have "env_run e (?k1\<lparr>last_env := Some e\<rparr>) = Some (Usuario e, k')
    \<and> (listo k e \<or> curenv k = Some e \<and> env_status (envs k e) = ENV_RUNNING)"
  proof (cases "curenv k")
    case None
    with y SCHED_ROUND_ROBIN rr_sin_actual [OF None] show ?thesis
      by (auto simp: siguiente_rr_Some split: option.splits dest: env_run_Some(1) sched_halt_no_usuario)
  next
    case (Some a)
    with c have "a < NENV" by simp
    from y SCHED_ROUND_ROBIN rr_forma [OF Some this] Some show ?thesis
      by (auto simp: siguiente_rr_Some split: option.splits if_splits dest: env_run_Some(1) sched_halt_no_usuario)
  qed
  then show ?thesis by (intro exI [of _ "?k1\<lparr>last_env := Some e\<rparr>"]) simp
next
  case SCHED_PRIORITIES
  let ?kz = "k\<lparr>sched_calls := sched_calls k + 1, sched_time := sched_time k + 1\<rparr>"
  let ?k1 = "anotar_fin (?kz\<lparr>sched_time := sched_time ?kz + 1\<rparr>)"
  let ?i = "case curenv k of None \<Rightarrow> 0 | Some c \<Rightarrow> ENVX (env_id (envs k c)) + 1"
  note f = prioridades_forma [of k]
  show ?thesis
  proof (cases "elegir k ?i")
    case None
    with y SCHED_PRIORITIES f have "env_run e (?k1\<lparr>last_env := Some e\<rparr>) = Some (Usuario e, k')
      \<and> curenv k = Some e \<and> env_status (envs k e) = ENV_RUNNING"
      by (auto split: option.splits if_splits dest: env_run_Some(1) sched_halt_no_usuario)
    then show ?thesis by (intro exI [of _ "?k1\<lparr>last_env := Some e\<rparr>"]) simp
  next
    case (Some a)
    let ?k2 = "(actualizar_stats_proceso a (subir_prioridad a ?k1))\<lparr>last_env := Some a\<rparr>"
    from f Some y SCHED_PRIORITIES have r: "env_run a ?k2 = Some (Usuario e, k')" by simp
    then have "e = a" by (auto dest: env_run_Some(1))
    moreover from elegir_mejor(1) [OF Some] have "listo k a" by (simp add: mejor_def)
    ultimately show ?thesis using r by (intro exI [of _ ?k2]) simp
  qed
qed (use y in simp)

text \<open>
  Whatever the policy, the environment that \<open>sched_yield\<close> runs was runnable, or was the
  current one and running: never one that is blocked, dying, free or running on another
  CPU. It becomes the current one, running, on its own page directory; the environment
  that was current is runnable again if it was running, and no other status changes.
\<close>

theorem sched_yield_seguro:
  assumes y: "sched_yield plan k = Some (Usuario e, k')" "plan \<noteq> SIN_PLANIFICADOR"
    and c: "\<forall>c. curenv k = Some c \<longrightarrow> c < NENV"
  shows "(listo k e \<or> curenv k = Some e \<and> env_status (envs k e) = ENV_RUNNING)
    \<and> curenv k' = Some e \<and> env_status (envs k' e) = ENV_RUNNING \<and> env_pgdir (envs k' e) = Some (cr3 k')
    \<and> (\<forall>i. i \<noteq> e \<longrightarrow> env_status (envs k' i) =
        (if curenv k = Some i \<and> env_status (envs k i) = ENV_RUNNING then ENV_RUNNABLE else env_status (envs k i)))"
proof -
  obtain k2 where k2: "env_run e k2 = Some (Usuario e, k')" "curenv k2 = curenv k"
    "\<forall>i. env_status (envs k2 i) = env_status (envs k i) \<and> env_pgdir (envs k2 i) = env_pgdir (envs k i)"
    "listo k e \<or> curenv k = Some e \<and> env_status (envs k e) = ENV_RUNNING"
    using sched_yield_corre [OF y c] by blast
  note r = env_run_Some [OF k2(1)]
  have "env_status (envs k' i) =
        (if curenv k = Some i \<and> env_status (envs k i) = ENV_RUNNING then ENV_RUNNABLE else env_status (envs k i))"
    if "i \<noteq> e" for i
    using r(5) [OF that] k2(2,3) by simp
  with r(2-4) k2(4) show ?thesis by blast
qed

lemma sched_yield_seguro_witness:
  "\<exists>k k'. sched_yield SCHED_PRIORITIES k = Some (Usuario 2, k') \<and> curenv k = Some 1
    \<and> env_status (envs k' 1) = ENV_RUNNABLE \<and> cr3 k' = 9"
proof -
  let ?k = "con_env 2 (\<lambda>r. r\<lparr>env_pgdir := Some 9\<rparr>) k_dos"
  have l: "listo ?k e \<longleftrightarrow> e = 2" for e by (simp add: NENV_def)
  have "prio ?k 2 = 0" by (simp add: k_dos_def env_cero_def)
  then have "elegir ?k 2 \<noteq> None" unfolding elegir_mejor(2) l by (simp add: PRIORIDAD_MAX_def)
  then obtain e where e: "elegir ?k 2 = Some e" by blast
  from elegir_mejor(1) [OF e] have "listo ?k e" unfolding mejor_def by (rule conjunct1)
  with e have e2: "elegir ?k 2 = Some 2" unfolding l by (simp only:)
  have i: "(case curenv ?k of None \<Rightarrow> 0 | Some c \<Rightarrow> ENVX (env_id (envs ?k c)) + 1) = 2" by (simp add: ENVX_mod)
  obtain k' where y: "sched_yield SCHED_PRIORITIES ?k = Some (Usuario 2, k')"
  proof -
    let ?kz = "?k\<lparr>sched_calls := sched_calls ?k + 1, sched_time := sched_time ?k + 1\<rparr>"
    let ?k1 = "anotar_fin (?kz\<lparr>sched_time := sched_time ?kz + 1\<rparr>)"
    have "env_pgdir (envs ((actualizar_stats_proceso 2 (subir_prioridad 2 ?k1))\<lparr>last_env := Some 2\<rparr>) 2) \<noteq> None"
      by simp
    from env_run_ex [OF this] that show thesis
      unfolding prioridades_forma [of ?k, unfolded i e2] option.case by blast
  qed
  have c: "\<forall>c. curenv ?k = Some c \<longrightarrow> c < NENV" by (simp add: NENV_def)
  note s = sched_yield_seguro [OF y _ c, simplified]
  have "env_pgdir (envs k' 2) = Some 9"
    using sched_yield_corre [OF y _ c] by (auto dest: env_run_Some(8))
  with s y show ?thesis by (intro exI [of _ ?k] exI [of _ k']) auto
qed

end
