(* ===== verification/Sys_Claims.thy ===== *)
theory Sys_Claims
  imports Syscall Sched_Claims
begin

text \<open>
  The properties of the system calls: the calls on memory as updates of one entry of one
  address space, the invariant they keep, who may call them on whom, messages between
  environments, and where the code does not do what its comments say.
\<close>

section \<open>Memory\<close>

lemma check_perm_es_perm: "perm AND NOT PTE_SYSCALL = 0 \<Longrightarrow> es_perm perm"
proof -
  assume "perm AND NOT PTE_SYSCALL = 0"
  moreover have "perm AND NOT 0xFFF = (perm AND NOT PTE_SYSCALL) AND NOT 0xFFF"
    unfolding and.assoc by (simp add: pte_flags)
  ultimately show ?thesis by (simp add: es_perm_def)
qed

lemma check_perm_None: "check_perm perm None = 0 \<or> check_perm perm None = - E_INVAL"
  by (simp add: check_perm_def)

lemma check_perm_0: "check_perm perm pte = 0 \<Longrightarrow> es_perm perm"
  by (auto simp: check_perm_def kern_errors intro: check_perm_es_perm split: if_splits)

lemma bit_PTE_W: "bit PTE_W n \<longleftrightarrow> n = 1"
proof -
  have "PTE_W = push_bit 1 1" by (simp add: PTE_W_def)
  then have "bit PTE_W n = bit (push_bit 1 (1 :: uint32)) n" by (rule arg_cong)
  also have "\<dots> = (n = 1)" unfolding bit_push_bit_iff bit_1_iff by auto
  finally show ?thesis .
qed

lemma and_PTE_W: "x AND PTE_W = (if bit x 1 then PTE_W else 0)" "PTE_W AND x = (if bit x 1 then PTE_W else 0)"
  by (auto intro!: bit_word_eqI simp: bit_simps bit_PTE_W)

lemma pide_escritura:
  "(perm AND PTE_W) AND (NOT PTE_W OR NOT v) \<noteq> 0 \<longleftrightarrow> perm AND PTE_W \<noteq> 0 \<and> v AND PTE_W = 0"
proof -
  have "bit (NOT PTE_W OR NOT v) 1 = (\<not> bit v 1)" by (simp add: bit_or_iff bit_not_iff bit_PTE_W)
  then show ?thesis by (simp add: and_PTE_W)
qed

lemma env_page_alloc_vm:
  assumes vm: "vm_ok D extra xs k" and e: "env_pgdir (envs k e) = Some pd" and pd: "pd \<in> D"
    and va: "va < UTOP" and perm: "check_perm perm None = 0"
  shows "case xs of
      [] \<Rightarrow> env_page_alloc e va perm k = Some (- E_NO_MEM, k)
    | p # ys \<Rightarrow>
        if mem k pd (unat (PDX va)) = 0 \<and> ys = []
        then \<exists>k'. env_page_alloc e va perm k = Some (- E_NO_MEM, k') \<and> vm_ok D extra [] k' \<and> solo_vm k k'
          \<and> mismas_entradas D k k' \<and> refs D extra k' p = 0
        else \<exists>k' xs'. env_page_alloc e va perm k = Some (0, k') \<and> vm_ok D extra xs' k' \<and> solo_vm k k'
          \<and> entrada_cambiada D pd va (page2pa p OR perm OR PTE_P) k k'"
proof (cases xs)
  case Nil
  then have "page_free_list k = None" using estructuraD(3) [OF vm_okD(1) [OF vm]] by (simp add: pag.libres_vacia)
  with Nil perm show ?thesis by (simp add: env_page_alloc_def page_alloc_vacia)
next
  case (Cons p ys)
  have i: "unat (PDX va) < NPDU" using PDX_bajo_UTOP [OF va] .
  obtain k1 where k1: "page_alloc True k = Some (Some p, k1)" "vm_ok D extra ys k1" "contada D extra ys k1 p"
    "solo_vm k k1" "mismas_entradas D k k1" "\<forall>d\<in>D. \<forall>i<NPDU. mem k1 d i = mem k d i" "refs D extra k1 p = 0"
    using contada_nueva [OF vm [unfolded Cons], of True] by blast
  have e1: "env_pgdir (envs k1 e) = Some pd" using e solo_vmD(2) [OF k1(4)] by simp
  have call: "env_page_alloc e va perm k = page_insert pd p va perm k1"
    by (simp add: env_page_alloc_def perm k1(1) e1)
  have m: "mem k1 pd (unat (PDX va)) = mem k pd (unat (PDX va))" using k1(6) pd i by blast
  obtain k' xs' where ins: "if mem k1 pd (unat (PDX va)) = 0 \<and> ys = []
      then page_insert pd p va perm k1 = Some (- E_NO_MEM, k1) \<and> k' = k1
      else page_insert pd p va perm k1 = Some (0, k')
        \<and> entrada_cambiada D pd va (page2pa p OR perm OR PTE_P) k1 k'"
    "vm_ok D extra xs' k'" "solo_vm k1 k'"
    using insert_vm [OF k1(2) pd i k1(3) check_perm_0 [OF perm]] by blast
  show ?thesis
  proof (cases "mem k pd (unat (PDX va)) = 0 \<and> ys = []")
    case True
    with ins(1) m k1 call Cons show ?thesis by auto
  next
    case False
    have "entrada_cambiada D pd va (page2pa p OR perm OR PTE_P) k k'"
      using ins(1) False m k1(5) by (simp add: entrada_cambiada_def mismas_entradas_def)
    with ins False m k1(4) call Cons solo_vm_trans [OF k1(4) ins(3)] show ?thesis by auto
  qed
qed

text \<open>Whatever the bits of \<open>perm\<close>; the invariant is kept when they are permission bits.\<close>

lemma env_page_map_bits:
  assumes vm: "vm_ok D extra xs k" and s: "env_pgdir (envs k se) = Some sd" "sd \<in> D"
    and d: "env_pgdir (envs k de) = Some dd" "dd \<in> D" and va: "srcva < UTOP" "dstva < UTOP"
    and cnt: "refs D extra k (marco (ranura k sd srcva)) + 1 < 65536"
  shows "if ranura k sd srcva = 0 \<or> perm AND PTE_W \<noteq> 0 \<and> ranura k sd srcva AND PTE_W = 0
    then env_page_map se srcva de dstva perm k = Some (- E_INVAL, k)
    else \<exists>k' xs'. (if mem k dd (unat (PDX dstva)) = 0 \<and> xs = []
        then env_page_map se srcva de dstva perm k = Some (- E_NO_MEM, k) \<and> k' = k
        else env_page_map se srcva de dstva perm k = Some (0, k')
          \<and> entrada_cambiada D dd dstva (page2pa (marco (ranura k sd srcva)) OR perm OR PTE_P) k k')
      \<and> (es_perm perm \<longrightarrow> vm_ok D extra xs' k') \<and> solo_vm k k'"
proof -
  have i: "unat (PDX srcva) < NPDU" "unat (PDX dstva) < NPDU" using PDX_bajo_UTOP va by blast+
  let ?v = "ranura k sd srcva"
  note lk = lookup_vm [OF vm s(2) i(1)]
  show ?thesis
  proof (cases "?v = 0")
    case True
    then show ?thesis by (simp add: env_page_map_def s lk)
  next
    case False
    then have lv: "leer k (tabla k sd (unat (PDX srcva)), unat (PTX srcva)) = ?v"
      by (auto simp: leer_def pte_en_def split: if_splits)
    have call: "env_page_map se srcva de dstva perm k =
      (if perm AND PTE_W \<noteq> 0 \<and> ?v AND PTE_W = 0 then Some (- E_INVAL, k) else page_insert dd (marco ?v) dstva perm k)"
      using False by (simp add: env_page_map_def s d lk lv pide_escritura)
    note F = entrada_contada [OF vm s(2) i(1) _ False]
    have "contada D extra xs k (marco ?v)" using F cnt by (simp add: contada_def)
    from insert_bits [OF vm d(2) i(2) this, of perm] False show ?thesis unfolding call by auto
  qed
qed

lemma env_page_map_vm:
  assumes vm: "vm_ok D extra xs k" and s: "env_pgdir (envs k se) = Some sd" "sd \<in> D"
    and d: "env_pgdir (envs k de) = Some dd" "dd \<in> D" and va: "srcva < UTOP" "dstva < UTOP"
    and perm: "es_perm perm" and cnt: "refs D extra k (marco (ranura k sd srcva)) + 1 < 65536"
  shows "if ranura k sd srcva = 0 \<or> perm AND PTE_W \<noteq> 0 \<and> ranura k sd srcva AND PTE_W = 0
    then env_page_map se srcva de dstva perm k = Some (- E_INVAL, k)
    else \<exists>k' xs'. (if mem k dd (unat (PDX dstva)) = 0 \<and> xs = []
        then env_page_map se srcva de dstva perm k = Some (- E_NO_MEM, k) \<and> k' = k
        else env_page_map se srcva de dstva perm k = Some (0, k')
          \<and> entrada_cambiada D dd dstva (page2pa (marco (ranura k sd srcva)) OR perm OR PTE_P) k k')
      \<and> vm_ok D extra xs' k' \<and> solo_vm k k'"
  using env_page_map_bits [OF vm s d va cnt, of perm] perm by (simp only: simp_thms)

lemma con_envid_ok: "envid2env envid chk k = Some (0, Some e) \<Longrightarrow> con_envid envid chk k f = f e"
  by (simp add: con_envid_def)

lemma perm_PU: "es_perm perm \<Longrightarrow> es_perm (PTE_P OR PTE_U OR perm)"
  by simp

lemma check_perm_alloc:
  "check_perm (perm OR PTE_U OR PTE_P) None = (if perm AND NOT PTE_SYSCALL \<noteq> 0 then - E_INVAL else 0)"
proof -
  have n: "(perm OR PTE_U OR PTE_P) AND NOT PTE_SYSCALL = perm AND NOT PTE_SYSCALL"
    by (rule bit_word_eqI) (auto simp: bit_simps PTE_SYSCALL_def)
  have "(perm OR PTE_U OR PTE_P) AND PTE_P = PTE_P" "(perm OR PTE_U OR PTE_P) AND PTE_U = PTE_U"
    by (rule bit_word_eqI; auto simp: bit_simps)+
  moreover have "PTE_P \<noteq> 0" "PTE_U \<noteq> 0" by (simp_all add: pte_flags)
  ultimately show ?thesis by (simp add: check_perm_def n)
qed

lemma mala_va_UTOP: "\<not> mala_va va \<Longrightarrow> va < UTOP"
  by (simp add: mala_va_def not_le)

text \<open>
  \<open>sys_page_alloc\<close> on an environment the caller may change always returns. An address
  that is not page-aligned or not below \<open>UTOP\<close>, or a permission the user may not set, gives
  \<open>-E_INVAL\<close> and no change. With no free page it gives \<open>-E_NO_MEM\<close> and no change; with one
  free page and no table for the address, \<open>-E_NO_MEM\<close> and no entry of any address space
  changes, but the page is lost: it is neither free nor mapped. Otherwise the entry of the
  address becomes the first free page, with the permissions, and no other entry changes.
\<close>

theorem sys_page_alloc_refina:
  assumes vm: "vm_ok D extra xs k" and id: "envid2env envid True k = Some (0, Some e)"
    and pd: "env_pgdir (envs k e) = Some pd" "pd \<in> D"
  shows "if mala_va va \<or> perm AND NOT PTE_SYSCALL \<noteq> 0 then sys_page_alloc envid va perm k = Ret (- E_INVAL) k
    else case xs of
      [] \<Rightarrow> sys_page_alloc envid va perm k = Ret (- E_NO_MEM) k
    | p # ys \<Rightarrow>
        if mem k pd (unat (PDX va)) = 0 \<and> ys = []
        then \<exists>k'. sys_page_alloc envid va perm k = Ret (- E_NO_MEM) k' \<and> vm_ok D extra [] k'
          \<and> mismas_entradas D k k' \<and> refs D extra k' p = 0
        else \<exists>k' xs'. sys_page_alloc envid va perm k = Ret 0 k' \<and> vm_ok D extra xs' k'
          \<and> entrada_cambiada D pd va (page2pa p OR (perm OR PTE_U OR PTE_P) OR PTE_P) k k'"
proof (cases "mala_va va")
  case True
  then show ?thesis by (simp add: sys_page_alloc_def)
next
  case False
  have call: "sys_page_alloc envid va perm k = de_opcion (env_page_alloc e va (perm OR PTE_U OR PTE_P) k)"
    using False by (simp add: sys_page_alloc_def con_envid_ok [OF id])
  show ?thesis
  proof (cases "perm AND NOT PTE_SYSCALL \<noteq> 0")
    case True
    then have "env_page_alloc e va (perm OR PTE_U OR PTE_P) k = Some (- E_INVAL, k)"
      by (simp add: env_page_alloc_def check_perm_alloc kern_errors)
    with True show ?thesis by (simp add: call de_opcion_def)
  next
    case p: False
    then have "check_perm (perm OR PTE_U OR PTE_P) None = 0" by (simp add: check_perm_alloc)
    note A = env_page_alloc_vm [OF vm pd mala_va_UTOP [OF False] this]
    show ?thesis
    proof (cases xs)
      case Nil
      with A show ?thesis by (simp add: call de_opcion_def False p)
    next
      case (Cons q ys)
      show ?thesis
      proof (cases "mem k pd (unat (PDX va)) = 0 \<and> ys = []")
        case True
        with A Cons obtain k' where "env_page_alloc e va (perm OR PTE_U OR PTE_P) k = Some (- E_NO_MEM, k')"
          "vm_ok D extra [] k'" "mismas_entradas D k k'" "refs D extra k' q = 0" by auto
        with True Cons False p show ?thesis by (simp add: call de_opcion_def)
      next
        case m: False
        with A Cons obtain k' xs' where "env_page_alloc e va (perm OR PTE_U OR PTE_P) k = Some (0, k')"
          "vm_ok D extra xs' k'" "entrada_cambiada D pd va (page2pa q OR (perm OR PTE_U OR PTE_P) OR PTE_P) k k'"
          by auto
        then have "\<exists>k' xs'. sys_page_alloc envid va perm k = Ret 0 k' \<and> vm_ok D extra xs' k'
          \<and> entrada_cambiada D pd va (page2pa q OR (perm OR PTE_U OR PTE_P) OR PTE_P) k k'"
          unfolding call by (intro exI [of _ k'] exI [of _ xs']) (simp add: de_opcion_def)
        then show ?thesis using m Cons False p by (simp only: list.case if_False simp_thms)
      qed
    qed
  qed
qed

lemma k_dos_vm: "vm_ok {1} (\<lambda>_. 0) [2, 3, 4] k_dos"
  and k_dos_pgdir: "env_pgdir (envs k_dos 1) = Some 1"
  and k_dos_yo: "envid2env 0 True k_dos = Some (0, Some 1)"
proof -
  show "vm_ok {1} (\<lambda>_. 0) [2, 3, 4] k_dos"
    using k_ej_vm vm_ok_cong [of k_dos k_ej] by (simp add: k_dos_def)
  show "env_pgdir (envs k_dos 1) = Some 1" by (simp add: k_dos_def)
  show "envid2env 0 True k_dos = Some (0, Some 1)" by (simp add: envid2env_def)
qed

lemma va_ej: "\<not> mala_va 0x803000"
  by (simp add: mala_va_def UTOP_valor PGSIZE_def)

lemma sys_page_alloc_refina_witness:
  "\<exists>k' xs'. sys_page_alloc 0 0x803000 PTE_W k_dos = Ret 0 k' \<and> vm_ok {1} (\<lambda>_. 0) xs' k'
    \<and> entrada_cambiada {1} 1 0x803000 (page2pa 2 OR (PTE_W OR PTE_U OR PTE_P) OR PTE_P) k_dos k'"
proof -
  have "PTE_W AND NOT PTE_SYSCALL = 0" by (simp add: pte_flags)
  with sys_page_alloc_refina [OF k_dos_vm k_dos_yo k_dos_pgdir, of "0x803000" PTE_W] va_ej show ?thesis
    by simp
qed

lemma W_sin_cambio: "(PTE_P OR PTE_U OR perm) AND PTE_W = perm AND PTE_W"
  by (simp add: and_PTE_W bit_simps) (simp add: pte_flags)

lemma marco_or: "marco (a OR b) = marco a OR marco b"
  by (simp add: marco_def PGNUM_or unsigned_or_eq)

lemma marco_perm: "es_perm perm \<Longrightarrow> marco perm = 0"
  by (simp add: marco_def PGNUM_perm)

text \<open>
  C18: \<open>sys_page_map\<close>, for any permission argument. It always returns; it returns
  \<open>-E_INVAL\<close> and changes nothing when an address is bad, when nothing is mapped at the
  source address, or when it is asked for a writable mapping of a page the source cannot
  write, and in no other case; \<open>-E_NO_MEM\<close> when a table is needed and no page is free; and
  otherwise the entry of the destination becomes the address of the page of the source and
  the bits of \<open>perm\<close>, and no other entry changes. The destination is writable only if the
  source was. It is the page of the source when \<open>perm\<close> has no bits above the low 12;
  other bits are not rejected: they are added to the number of the frame.
\<close>

theorem sys_page_map_refina:
  assumes vm: "vm_ok D extra xs k" and id: "envid2env sid True k = Some (0, Some s)" "envid2env did True k = Some (0, Some d)"
    and pd: "env_pgdir (envs k s) = Some sd" "sd \<in> D" "env_pgdir (envs k d) = Some dd" "dd \<in> D"
    and cnt: "refs D extra k (marco (ranura k sd srcva)) + 1 < 65536"
  shows "if mala_va srcva \<or> mala_va dstva \<or> ranura k sd srcva = 0 \<or> perm AND PTE_W \<noteq> 0 \<and> ranura k sd srcva AND PTE_W = 0
    then sys_page_map sid srcva did dstva perm k = Ret (- E_INVAL) k
    else if mem k dd (unat (PDX dstva)) = 0 \<and> xs = []
    then sys_page_map sid srcva did dstva perm k = Ret (- E_NO_MEM) k
    else \<exists>k'. sys_page_map sid srcva did dstva perm k = Ret 0 k'
      \<and> entrada_cambiada D dd dstva (page2pa (marco (ranura k sd srcva)) OR (PTE_P OR PTE_U OR perm) OR PTE_P) k k'
      \<and> marco (ranura k' dd dstva) = marco (ranura k sd srcva) OR marco perm
      \<and> (ranura k' dd dstva AND PTE_W \<noteq> 0 \<longrightarrow> ranura k sd srcva AND PTE_W \<noteq> 0)
      \<and> (es_perm perm \<longrightarrow> marco (ranura k' dd dstva) = marco (ranura k sd srcva) \<and> (\<exists>xs'. vm_ok D extra xs' k'))"
proof (cases "mala_va srcva \<or> mala_va dstva")
  case True
  then show ?thesis by (auto simp: sys_page_map_def)
next
  case False
  let ?p = "PTE_P OR PTE_U OR perm" and ?f = "marco (ranura k sd srcva)"
  let ?v = "page2pa ?f OR ?p OR PTE_P"
  have va: "srcva < UTOP" "dstva < UTOP" using False mala_va_UTOP by blast+
  have call: "sys_page_map sid srcva did dstva perm k = de_opcion (env_page_map s srcva d dstva ?p k)"
    using False by (simp add: sys_page_map_def con_envid_ok [OF id(1)] con_envid_ok [OF id(2)])
  note A = env_page_map_bits [OF vm pd va cnt, of ?p, unfolded W_sin_cambio]
  show ?thesis
  proof (cases "ranura k sd srcva = 0 \<or> perm AND PTE_W \<noteq> 0 \<and> ranura k sd srcva AND PTE_W = 0")
    case True
    with A False show ?thesis by (auto simp: call de_opcion_def)
  next
    case ok: False
    show ?thesis
    proof (cases "mem k dd (unat (PDX dstva)) = 0 \<and> xs = []")
      case True
      with A ok False show ?thesis by (auto simp: call de_opcion_def)
    next
      case m: False
      obtain k' xs' where k': "env_page_map s srcva d dstva ?p k = Some (0, k')"
        "entrada_cambiada D dd dstva ?v k k'" "es_perm ?p \<longrightarrow> vm_ok D extra xs' k'"
        using A unfolding if_not_P [OF ok] if_not_P [OF m] by blast
      have r: "ranura k' dd dstva = ?v"
        using k'(2) pd(4) PDX_bajo_UTOP [OF va(2)] by (simp add: entrada_cambiada_def)
      have f20: "?f < 2 ^ 20" by (rule marco_lt)
      have mv: "marco ?v = ?f OR marco perm"
        using marco_entrada [OF f20, of 0] by (simp add: marco_or marco_perm)
      have w: "?v AND PTE_W = perm AND PTE_W"
      proof -
        have "\<not> bit (page2pa ?f) 1" by (simp add: page2pa_def bit_simps)
        then show ?thesis by (simp add: and_PTE_W bit_simps) (simp add: pte_flags)
      qed
      have "ranura k' dd dstva AND PTE_W \<noteq> 0 \<longrightarrow> ranura k sd srcva AND PTE_W \<noteq> 0"
        unfolding r w using ok by blast
      moreover have "sys_page_map sid srcva did dstva perm k = Ret 0 k'" by (simp add: call de_opcion_def k'(1))
      moreover have "marco (ranura k' dd dstva) = ?f OR marco perm" unfolding r by (rule mv)
      moreover have "es_perm perm \<longrightarrow> marco (ranura k' dd dstva) = ?f \<and> (\<exists>xs'. vm_ok D extra xs' k')"
        using k'(3) unfolding r mv by (auto simp: marco_perm)
      ultimately show ?thesis using k'(2) ok False unfolding if_not_P [OF m] by (subst if_not_P) blast+
    qed
  qed
qed

text \<open>The example kernel after the running environment allocates a page at \<open>0x803000\<close>.\<close>

lemma k_dos_con_pagina:
  obtains k xs where "vm_ok {1} (\<lambda>_. 0) xs k" "solo_vm k_dos k" "envid2env 0 True k = Some (0, Some 1)"
    "env_pgdir (envs k 1) = Some 1" "ranura k 1 0x803000 = page2pa 2 OR (PTE_W OR PTE_U OR PTE_P) OR PTE_P"
    "refs {1} (\<lambda>_. 0) k 2 \<le> 1" "marco (ranura k 1 0x803000) = 2"
    "page_free_list k_dos \<noteq> None" "mem k 1 (unat (PDX 0x803000)) \<noteq> 0"
proof -
  let ?v = "page2pa 2 OR (PTE_W OR PTE_U OR PTE_P) OR PTE_P"
  have cp: "check_perm (PTE_W OR PTE_U OR PTE_P) None = 0"
    unfolding check_perm_alloc by (simp add: pte_flags)
  have u: "(0x803000 :: uint32) < UTOP" by (simp add: UTOP_valor)
  from env_page_alloc_vm [OF k_dos_vm k_dos_pgdir _ u cp] obtain k xs where
    k: "vm_ok {1} (\<lambda>_. 0) xs k" "solo_vm k_dos k" "entrada_cambiada {1} 1 0x803000 ?v k_dos k" by auto
  have z: "pte_en k_dos a b c = 0" for a b c by (simp add: pte_en_def)
  have p: "pte_en k 1 b c = (if b = 2 \<and> c = 3 then ?v else 0)" if "b < NPDU" for b c
    using k(3) that by (auto simp: entrada_cambiada_def PDX_PTX_ej z)
  have "mapeos {1} k 2 \<subseteq> {(1, 2, 3)}" by (auto simp: mapeos_def p [unfolded One_nat_def] split: if_splits)
  then have "card (mapeos {1} k 2) \<le> 1" using card_mono [of "{(1 :: nat, 2 :: nat, 3 :: nat)}"] by fastforce
  then have rf: "refs {1} (\<lambda>_. 0) k 2 \<le> 1" by (simp add: refs_def)
  have r: "ranura k 1 0x803000 = ?v" unfolding PDX_PTX_ej by (subst p) (simp_all add: NPDU_def)
  have m: "marco ?v = 2" by (simp add: marco_entrada or.assoc)
  note e = solo_vmD [OF k(2)]
  have id: "envid2env 0 True k = Some (0, Some 1)" by (simp add: envid2env_def e)
  have pd: "env_pgdir (envs k 1) = Some 1" using k_dos_pgdir e by simp
  have "?v \<noteq> 0" by (simp flip: or.assoc)
  then have "mem k 1 (unat (PDX 0x803000)) \<noteq> 0" using r by (auto simp: pte_en_def split: if_splits)
  with k r rf m id pd that show thesis by simp
qed

lemma sys_page_map_refina_witness:
  "\<exists>k k'. ranura k 1 0x803000 = page2pa 2 OR (PTE_W OR PTE_U OR PTE_P) OR PTE_P
    \<and> sys_page_map 0 0x803000 0 0x804000 0 k = Ret 0 k' \<and> marco (ranura k' 1 0x804000) = 2"
proof -
  obtain k xs where k: "vm_ok {1} (\<lambda>_. 0) xs k" "solo_vm k_dos k" "envid2env 0 True k = Some (0, Some 1)"
    "env_pgdir (envs k 1) = Some 1" "ranura k 1 0x803000 = page2pa 2 OR (PTE_W OR PTE_U OR PTE_P) OR PTE_P"
    "refs {1} (\<lambda>_. 0) k 2 \<le> 1" "marco (ranura k 1 0x803000) = 2"
    "mem k 1 (unat (PDX 0x803000)) \<noteq> 0" by (rule k_dos_con_pagina)
  have c: "refs {1} (\<lambda>_. 0) k (marco (ranura k 1 0x803000)) + 1 < 65536" unfolding k(7) using k(6) by simp
  have d: "unat (PDX 0x804000) = unat (PDX 0x803000)" by (simp add: unat_PDX)
  have n: "ranura k 1 0x803000 \<noteq> 0" unfolding k(5) by (simp flip: or.assoc)
  have v: "\<not> mala_va 0x804000" by (simp add: mala_va_def UTOP_valor PGSIZE_def)
  have no: "\<not> (mala_va 0x803000 \<or> mala_va 0x804000 \<or> ranura k 1 0x803000 = 0
      \<or> (0 :: uint32) AND PTE_W \<noteq> 0 \<and> ranura k 1 0x803000 AND PTE_W = 0)"
    using va_ej v n by simp
  have m: "\<not> (mem k 1 (unat (PDX 0x804000)) = 0 \<and> xs = [])" using k(8) by (simp add: d)
  have i: "1 \<in> {1 :: nat}" by simp
  from sys_page_map_refina [OF k(1,3,3,4) i k(4) i c, of "0x804000" 0,
      unfolded if_not_P [OF no] if_not_P [OF m]]
  show ?thesis using k(5,7) by (auto simp: marco_perm)
qed

text \<open>
  Bits of \<open>perm\<close> above the low 12 reach other memory: with the number of any frame \<open>g\<close> that
  contains the bits of the frame of the source, the destination maps \<open>g\<close>, whoever uses it.
\<close>

lemma sys_page_map_otro_marco:
  assumes vm: "vm_ok D extra xs k" and id: "envid2env sid True k = Some (0, Some s)" "envid2env did True k = Some (0, Some d)"
    and pd: "env_pgdir (envs k s) = Some sd" "sd \<in> D" "env_pgdir (envs k d) = Some dd" "dd \<in> D"
    and cnt: "refs D extra k (marco (ranura k sd srcva)) + 1 < 65536"
    and va: "\<not> mala_va srcva" "\<not> mala_va dstva" "ranura k sd srcva \<noteq> 0" "mem k dd (unat (PDX dstva)) \<noteq> 0"
    and g: "g < 2 ^ 20" "marco (ranura k sd srcva) OR g = g"
  shows "\<exists>k'. sys_page_map sid srcva did dstva (page2pa g) k = Ret 0 k' \<and> marco (ranura k' dd dstva) = g"
proof -
  let ?p = "PTE_P OR PTE_U OR page2pa g" and ?f = "marco (ranura k sd srcva)"
  have u: "srcva < UTOP" "dstva < UTOP" using va(1,2) mala_va_UTOP by blast+
  have w: "?p AND PTE_W = 0" unfolding W_sin_cambio by (simp add: page2pa_and_perm)
  obtain k' where k': "env_page_map s srcva d dstva ?p k = Some (0, k')"
    "entrada_cambiada D dd dstva (page2pa ?f OR ?p OR PTE_P) k k'"
    using env_page_map_bits [OF vm pd u cnt, of ?p] va(3,4) w by auto
  have "ranura k' dd dstva = page2pa ?f OR ?p OR PTE_P"
    using k'(2) pd(4) PDX_bajo_UTOP [OF u(2)] by (simp add: entrada_cambiada_def)
  moreover have "marco (page2pa p) = p" if "p < 2 ^ 20" for p using marco_entrada [OF that, of 0] by simp
  ultimately have "marco (ranura k' dd dstva) = g"
    using g marco_lt [of "ranura k sd srcva"] by (simp add: marco_or marco_perm)
  moreover have "sys_page_map sid srcva did dstva (page2pa g) k = Ret 0 k'"
    using va(1,2) k'(1) by (simp add: sys_page_map_def con_envid_ok [OF id(1)] con_envid_ok [OF id(2)] de_opcion_def)
  ultimately show ?thesis by blast
qed

section \<open>Sequences of calls on memory\<close>

text \<open>
  One call on memory by the environment that runs, that returned. Permissions are permission
  bits only, and no page is mapped so often that its count could wrap around.
\<close>

inductive paso_mem :: "nat set \<Rightarrow> (nat \<Rightarrow> nat) \<Rightarrow> kernel \<Rightarrow> kernel \<Rightarrow> bool" for D extra where
  paso_alloc: "sys_page_alloc envid va perm k = Ret r k' \<Longrightarrow> paso_mem D extra k k'"
| paso_map: "sys_page_map sid srcva did dstva perm k = Ret r k' \<Longrightarrow> es_perm perm
    \<Longrightarrow> \<forall>f. refs D extra k f < 65535 \<Longrightarrow> paso_mem D extra k k'"
| paso_unmap: "sys_page_unmap envid va k = Ret r k' \<Longrightarrow> paso_mem D extra k k'"

text \<open>What a call by the current environment may change: entries of the spaces it is allowed to.\<close>

definition solo_permitidas :: "nat set \<Rightarrow> kernel \<Rightarrow> kernel \<Rightarrow> bool" where
  "solo_permitidas D k k' \<longleftrightarrow> (\<forall>pd\<in>D. (\<forall>e. autorizado k e \<longrightarrow> env_pgdir (envs k e) \<noteq> Some pd)
     \<longrightarrow> (\<forall>i<NPDU. \<forall>j. pte_en k' pd i j = pte_en k pd i j))"

lemma solo_permitidas_cambiada:
  "entrada_cambiada D pd va v k k' \<Longrightarrow> autorizado k e \<Longrightarrow> env_pgdir (envs k e) = Some pd \<Longrightarrow> solo_permitidas D k k'"
  by (auto simp: solo_permitidas_def entrada_cambiada_def)

lemma solo_permitidas_mismas: "mismas_entradas D k k' \<Longrightarrow> solo_permitidas D k k'"
  by (simp add: solo_permitidas_def mismas_entradas_def)

lemma mismas_refl [simp]: "mismas_entradas D k k"
  by (simp add: mismas_entradas_def)

abbreviation conserva :: "nat set \<Rightarrow> (nat \<Rightarrow> nat) \<Rightarrow> kernel \<Rightarrow> kernel \<Rightarrow> bool" where
  "conserva D extra k k' \<equiv> (\<exists>xs'. vm_ok D extra xs' k') \<and> solo_vm k k' \<and> solo_permitidas D k k'"

lemma conserva_igual: "vm_ok D extra xs k \<Longrightarrow> k' = k \<Longrightarrow> conserva D extra k k'"
  by (auto intro: solo_permitidas_mismas)

lemma con_envid_Ret:
  assumes "con_envid envid True k f = Ret r k'" "curenv k = Some c"
  shows "k' = k \<or> (\<exists>e. autorizado k e \<and> f e = Ret r k')"
  using assms by (auto simp: con_envid_def envid2env_def Let_def autorizado_def split: option.splits if_splits)

lemma de_opcion_Ret: "de_opcion x = Ret r k' \<longleftrightarrow> x = Some (r, k')"
  by (auto simp: de_opcion_def split: option.splits)

lemma env_page_alloc_paso:
  assumes vm: "vm_ok D extra xs k" and pd: "\<forall>e pd. env_pgdir (envs k e) = Some pd \<longrightarrow> pd \<in> D"
    and au: "autorizado k e" and va: "va < UTOP" and r: "env_page_alloc e va perm k = Some (r, k')"
  shows "conserva D extra k k'"
proof (cases "check_perm perm None = 0")
  case False
  then have "k' = k" using r check_perm_None [of perm] by (auto simp: env_page_alloc_def kern_errors)
  with vm show ?thesis by (auto intro: solo_permitidas_mismas)
next
  case True
  show ?thesis
  proof (cases "env_pgdir (envs k e)")
    case None': None
    have "k' = k"
    proof (cases "page_free_list k")
      case None
      with r True show ?thesis by (simp add: env_page_alloc_def page_alloc_vacia)
    next
      case (Some p)
      obtain pg k1 where a: "page_alloc True k = Some (pg, k1)"
        using r True by (auto simp: env_page_alloc_def split: bind_splits)
      then have "pg = Some p"
        using Some by (auto simp: page_alloc_def Let_def split: option.splits)
      moreover have "env_pgdir (envs k1 e) = None"
        using solo_vmD(2) [OF page_alloc_solo [OF a]] None' by simp
      ultimately have "env_page_alloc e va perm k = None" using True a by (simp add: env_page_alloc_def)
      with r show ?thesis by simp
    qed
    with vm show ?thesis by (auto intro: solo_permitidas_mismas)
  next
    case (Some p)
    note A = env_page_alloc_vm [OF vm Some _ va True]
    have pD: "p \<in> D" using pd Some by blast
    show ?thesis
    proof (cases xs)
      case Nil
      with A [OF pD] r have "k' = k" by simp
      with vm show ?thesis by (auto intro: solo_permitidas_mismas)
    next
      case (Cons q ys)
      show ?thesis
      proof (cases "mem k p (unat (PDX va)) = 0 \<and> ys = []")
        case c: True
        with A [OF pD] Cons r show ?thesis by (auto intro: solo_permitidas_mismas)
      next
        case False
        with A [OF pD] Cons r obtain xs' where "vm_ok D extra xs' k'" "solo_vm k k'"
          "entrada_cambiada D p va (page2pa q OR perm OR PTE_P) k k'" by auto
        with solo_permitidas_cambiada [OF _ au Some] show ?thesis by blast
      qed
    qed
  qed
qed


lemma sys_page_alloc_conserva:
  assumes vm: "vm_ok D extra xs k" and pd: "\<forall>e pd. env_pgdir (envs k e) = Some pd \<longrightarrow> pd \<in> D"
    and c: "curenv k = Some c" and p: "sys_page_alloc envid va perm k = Ret r k'"
  shows "conserva D extra k k'"
proof (cases "mala_va va")
  case True
  with p conserva_igual [OF vm] show ?thesis by (simp add: sys_page_alloc_def)
next
  case False
  with p have "con_envid envid True k (\<lambda>e. de_opcion (env_page_alloc e va (perm OR PTE_U OR PTE_P) k)) = Ret r k'"
    by (simp add: sys_page_alloc_def)
  from con_envid_Ret [OF this c] show ?thesis
  proof
    assume "\<exists>e. autorizado k e \<and> de_opcion (env_page_alloc e va (perm OR PTE_U OR PTE_P) k) = Ret r k'"
    then obtain e where "autorizado k e" "env_page_alloc e va (perm OR PTE_U OR PTE_P) k = Some (r, k')"
      by (auto simp: de_opcion_Ret)
    from env_page_alloc_paso [OF vm pd this(1) mala_va_UTOP [OF False] this(2)] show ?thesis .
  qed (rule conserva_igual [OF vm])
qed

lemma env_page_map_conserva:
  assumes vm: "vm_ok D extra xs k" and pd: "\<forall>e pd. env_pgdir (envs k e) = Some pd \<longrightarrow> pd \<in> D"
    and c: "curenv k = Some c" and a: "autorizado k s" "autorizado k d" and m: "env_page_map s srcva d dstva perm k = Some (r, k')"
    and va: "srcva < UTOP" "dstva < UTOP" and perm: "es_perm perm" and cnt: "\<forall>f. refs D extra k f < 65535"
  shows "conserva D extra k k'"
proof -
  obtain sd where sd: "env_pgdir (envs k s) = Some sd" using m by (auto simp: env_page_map_def split: bind_splits)
  have cnt': "refs D extra k (marco (ranura k sd srcva)) + 1 < 65536"
    using cnt [rule_format, of "marco (ranura k sd srcva)"] by simp
  show ?thesis
  proof (cases "env_pgdir (envs k d)")
    case None
    then have "k' = k" using m by (auto simp: env_page_map_def split: bind_splits option.splits if_splits)
    then show ?thesis by (rule conserva_igual [OF vm])
  next
    case (Some dd)
    have D: "sd \<in> D" "dd \<in> D" using pd sd Some by blast+
    note A = env_page_map_vm [OF vm sd D(1) Some D(2) va perm cnt']
    then consider "k' = k" | xs' where "vm_ok D extra xs' k'" "solo_vm k k'"
      "entrada_cambiada D dd dstva (page2pa (marco (ranura k sd srcva)) OR perm OR PTE_P) k k'"
      using m by (auto split: if_splits)
    then show ?thesis
    proof cases
      case 2
      with solo_permitidas_cambiada [OF 2(3) a(2) Some] show ?thesis by blast
    qed (rule conserva_igual [OF vm])
  qed
qed

lemma sys_page_map_conserva:
  assumes vm: "vm_ok D extra xs k" and pd: "\<forall>e pd. env_pgdir (envs k e) = Some pd \<longrightarrow> pd \<in> D"
    and c: "curenv k = Some c" and p: "sys_page_map sid srcva did dstva perm k = Ret r k'"
    and perm: "es_perm perm" and cnt: "\<forall>f. refs D extra k f < 65535"
  shows "conserva D extra k k'"
proof (cases "mala_va srcva \<or> mala_va dstva")
  case True
  with p have "k' = k" by (auto simp: sys_page_map_def split: if_splits)
  then show ?thesis by (rule conserva_igual [OF vm])
next
  case False
  let ?p = "PTE_P OR PTE_U OR perm"
  have va: "srcva < UTOP" "dstva < UTOP" using False mala_va_UTOP by blast+
  have "con_envid sid True k (\<lambda>src. con_envid did True k (\<lambda>dst.
         de_opcion (env_page_map src srcva dst dstva ?p k))) = Ret r k'"
    using p False by (simp add: sys_page_map_def)
  from con_envid_Ret [OF this c] show ?thesis
  proof
    assume "\<exists>e. autorizado k e \<and> con_envid did True k (\<lambda>dst. de_opcion (env_page_map e srcva dst dstva ?p k)) = Ret r k'"
    then obtain s where s: "autorizado k s"
      "con_envid did True k (\<lambda>dst. de_opcion (env_page_map s srcva dst dstva ?p k)) = Ret r k'" by blast
    from con_envid_Ret [OF s(2) c] show ?thesis
    proof
      assume "\<exists>e. autorizado k e \<and> de_opcion (env_page_map s srcva e dstva ?p k) = Ret r k'"
      then obtain d where d: "autorizado k d" "env_page_map s srcva d dstva ?p k = Some (r, k')"
        by (auto simp: de_opcion_Ret)
      show ?thesis by (rule env_page_map_conserva [OF vm pd c s(1) d va perm_PU [OF perm] cnt])
    qed (rule conserva_igual [OF vm])
  qed (rule conserva_igual [OF vm])
qed

lemma sys_page_unmap_conserva:
  assumes vm: "vm_ok D extra xs k" and pd: "\<forall>e pd. env_pgdir (envs k e) = Some pd \<longrightarrow> pd \<in> D"
    and c: "curenv k = Some c" and p: "sys_page_unmap envid va k = Ret r k'"
  shows "conserva D extra k k'"
proof (cases "mala_va va")
  case True
  with p conserva_igual [OF vm] show ?thesis by (simp add: sys_page_unmap_def)
next
  case False
  let ?f = "\<lambda>e. case env_pgdir (envs k e) of None \<Rightarrow> Panico
      | Some pgdir \<Rightarrow> (case page_remove pgdir va k of None \<Rightarrow> Panico | Some k' \<Rightarrow> Ret 0 k')"
  have "con_envid envid True k ?f = Ret r k'" using p False by (simp add: sys_page_unmap_def)
  from con_envid_Ret [OF this c] show ?thesis
  proof
    assume "\<exists>e. autorizado k e \<and> ?f e = Ret r k'"
    then obtain e d where e: "autorizado k e" "env_pgdir (envs k e) = Some d" "page_remove d va k = Some k'"
      by (auto split: option.splits)
    have dD: "d \<in> D" using pd e(2) by blast
    from remove_vm [OF vm dD PDX_bajo_UTOP [OF mala_va_UTOP [OF False]]] e(3) obtain xs' where
      "vm_ok D extra xs' k'" "solo_vm k k'" "entrada_cambiada D d va 0 k k'" by auto
    with solo_permitidas_cambiada [OF this(3) e(1,2)] show ?thesis by blast
  qed (rule conserva_igual [OF vm])
qed

lemma paso_mem_conserva:
  assumes vm: "vm_ok D extra xs k" and pd: "\<forall>e pd. env_pgdir (envs k e) = Some pd \<longrightarrow> pd \<in> D"
    and c: "curenv k = Some c" and p: "paso_mem D extra k k'"
  shows "conserva D extra k k'"
  using p
proof cases
  case paso_alloc
  then show ?thesis by (rule sys_page_alloc_conserva [OF vm pd c])
next
  case paso_map
  then show ?thesis by (rule sys_page_map_conserva [OF vm pd c])
next
  case paso_unmap
  then show ?thesis by (rule sys_page_unmap_conserva [OF vm pd c])
qed

text \<open>
  C19: memory isolation. Whatever calls on memory the running environment makes, in any
  number and order, counts and page tables stay well formed, so no page on the free list is
  mapped anywhere; the table of environments does not change; and the entries of every
  address space that belongs neither to the caller nor to one of its children are as
  they were. This is for calls of \<open>sys_page_map\<close> whose permission argument has only the low
  12 bits, in states where no page is mapped 65535 times: \<open>sys_page_map_otro_marco\<close> and
  \<open>pp_ref_desborda\<close> show what the code does outside them.
\<close>

theorem memoria_aislada:
  assumes "(paso_mem D extra)\<^sup>*\<^sup>* k k'" "vm_ok D extra xs k" "curenv k = Some c"
    and "\<forall>e pd. env_pgdir (envs k e) = Some pd \<longrightarrow> pd \<in> D"
  shows "(\<exists>xs'. vm_ok D extra xs' k'
      \<and> (\<forall>pd\<in>D. \<forall>i<NPDU. \<forall>j<1024. pte_en k' pd i j \<noteq> 0 \<longrightarrow> marco (pte_en k' pd i j) \<notin> set xs'))
    \<and> envs k' = envs k
    \<and> (\<forall>pd\<in>D. (\<forall>e. autorizado k e \<longrightarrow> env_pgdir (envs k e) \<noteq> Some pd)
         \<longrightarrow> (\<forall>i<NPDU. \<forall>j. pte_en k' pd i j = pte_en k pd i j))"
proof -
  from assms(1) have "conserva D extra k k'"
  proof (induction rule: rtranclp_induct)
    case base
    from assms(2) show ?case by (rule conserva_igual) simp
  next
    case (step y z)
    then obtain ys where ys: "vm_ok D extra ys y" and s: "solo_vm k y" "solo_permitidas D k y" by blast
    note e = solo_vmD(2,3) [OF s(1)]
    have "conserva D extra y z"
      using assms(3,4) step(2) by (intro paso_mem_conserva [OF ys]) (simp_all add: e)
    moreover have "autorizado y = autorizado k" by (simp add: autorizado_def e fun_eq_iff)
    ultimately show ?case using s solo_vm_trans [OF s(1)] e by (auto simp: solo_permitidas_def)
  qed
  then obtain xs' where x: "vm_ok D extra xs' k'" "solo_vm k k'" "solo_permitidas D k k'" by blast
  have "\<forall>pd\<in>D. \<forall>i<NPDU. \<forall>j<1024. pte_en k' pd i j \<noteq> 0 \<longrightarrow> marco (pte_en k' pd i j) \<notin> set xs'"
    using entrada_contada(5) [OF x(1)] by blast
  with x solo_vmD(2) [OF x(2)] show ?thesis unfolding solo_permitidas_def by blast
qed

lemma memoria_aislada_witness:
  "\<exists>k' r. sys_page_alloc 0 0x803000 PTE_W k_dos = Ret r k' \<and> (\<exists>xs'. vm_ok {1} (\<lambda>_. 0) xs' k') \<and> envs k' = envs k_dos"
proof -
  have c: "check_perm (PTE_W OR PTE_U OR PTE_P) None = 0"
    unfolding check_perm_alloc by (simp add: pte_flags)
  obtain k' where k': "env_page_alloc 1 0x803000 (PTE_W OR PTE_U OR PTE_P) k_dos = Some (0, k')"
    using env_page_alloc_vm [OF k_dos_vm k_dos_pgdir _ mala_va_UTOP [OF va_ej] c] by auto
  then have y: "sys_page_alloc 0 0x803000 PTE_W k_dos = Ret 0 k'"
    by (simp add: sys_page_alloc_def va_ej con_envid_ok [OF k_dos_yo] de_opcion_def)
  have "(paso_mem {1} (\<lambda>_. 0))\<^sup>*\<^sup>* k_dos k'" using paso_alloc [OF y] by blast
  moreover have "\<forall>e pd. env_pgdir (envs k_dos e) = Some pd \<longrightarrow> pd \<in> {1}" by (simp add: k_dos_def)
  ultimately show ?thesis
    using memoria_aislada [of "{1}" "\<lambda>_. 0" k_dos k' "[2, 3, 4]" 1] k_dos_vm y k_dos_simps(3) by blast
qed

end
