(* ===== verification/User_Mem.thy ===== *)
theory User_Mem
  imports User_Lib Pmap_Frame Sys_Claims
begin

text \<open>
  Lemmas on the library of user programs: what it reads through \<open>uvpt\<close> and \<open>uvpd\<close>, its
  system calls as updates of one entry, and the two operations built from them that touch
  one page: resolving a write fault and duplicating a page for a child.
\<close>

section \<open>Reading the page tables\<close>

lemma marco_directorio: "pd < 2 ^ 20 \<Longrightarrow> marco (page2pa pd OR PTE_P OR PTE_U) = pd"
  by (simp add: marco_entrada or.assoc)

lemma bits_directorio: "(page2pa pd OR PTE_P OR PTE_U) AND (PTE_P OR PTE_U) = PTE_P OR PTE_U"
  by (rule bit_word_eqI) (auto simp: bit_simps)

lemma UWP_PU: "x AND PTE_UWP = PTE_UWP \<Longrightarrow> x AND (PTE_P OR PTE_U) = PTE_P OR PTE_U"
proof -
  assume a: "x AND PTE_UWP = PTE_UWP"
  have "(PTE_P OR PTE_U) = PTE_UWP AND (PTE_P OR PTE_U)" by (simp add: PTE_UWP_def pte_flags)
  then have "x AND (PTE_P OR PTE_U) = (x AND PTE_UWP) AND (PTE_P OR PTE_U)" by (simp only: and.assoc)
  with a show ?thesis by (simp add: PTE_UWP_def pte_flags)
qed

lemma resto_957: "i < 1024 \<Longrightarrow> (979968 + i) mod 1024 = (i :: nat)"
  using mod_mult_self3 [of 957 1024 i] by simp

lemma UVPT_partes:
  assumes "q < 1048576"
  defines "va \<equiv> UVPT + 4 * word_of_nat q"
  shows "unat (PDX va) = 957" "unat (PTX va) = q div 1024" "unat (PGOFF va) div 4 = q mod 1024"
proof -
  have "unat (4 * word_of_nat q :: uint32) = 4 * q"
    using assms(1) by (simp add: unat_word_ariths unat_of_nat take_bit_nat_eq_self)
  then have u: "unat va = 4013948928 + 4 * q"
    using assms(1) by (simp add: va_def unat_word_ariths UTOP_valor)
  show "unat (PDX va) = 957" unfolding unat_PDX u using assms(1) by simp
  have c: "(4 * q) div 4096 = q div 1024" "q div 1024 < 1024"
    using assms(1) div_mult_mult1 [of 4 q 1024] by (simp_all add: div_less_iff_less_mult)
  have "(979968 * 4096 + 4 * q) div 4096 = 979968 + q div 1024"
    by (simp only: div_mult_self3 c)
  then show "unat (PTX va) = q div 1024" unfolding unat_PTX u using c(2) by (simp add: resto_957)
  have "(979968 * 4096 + 4 * q) mod 4096 = 4 * (q mod 1024)"
    using mod_mult_mult1 [of 4 q 1024] by (simp only: mod_mult_self3) simp
  then show "unat (PGOFF va) div 4 = q mod 1024"
    unfolding PGOFF_def mascaras unat_and_mask u by simp
qed

lemma leer_uvpt:
  assumes e: "espacio_ok D k" and pd: "espacio k = Some pd" "pd \<in> D" "pd < 2 ^ 20" and q: "q < 1048576"
  shows "leer_usuario k (UVPT + 4 * word_of_nat q) =
    (if mem k pd (q div 1024) AND (PTE_P OR PTE_U) = PTE_P OR PTE_U
     then Some (mem k (marco (mem k pd (q div 1024))) (q mod 1024)) else None)"
proof -
  have d: "mem k pd 957 = page2pa pd OR PTE_P OR PTE_U"
    using e pd(2) by (simp add: espacio_ok_def PDX_UVPT)
  show ?thesis
    unfolding leer_usuario_def traducir_def Let_def UVPT_partes [OF q]
    by (simp add: pd(1) d marco_directorio [OF pd(3)] bits_directorio)
qed

lemma uvpt_entrada:
  assumes e: "espacio_ok D k" and pd: "espacio k = Some pd" "pd \<in> D" "pd < 2 ^ 20" and q: "q < NPAG"
  shows "uvpt k (word_of_nat q) = (if mem k pd (q div 1024) = 0 then None else Some (entrada k pd q))"
proof -
  have q20: "q < 1048576" using q by (simp add: NPAG_def)
  have "mem k pd (q div 1024) \<noteq> 0 \<Longrightarrow> mem k pd (q div 1024) AND (PTE_P OR PTE_U) = PTE_P OR PTE_U"
    using e pd(2) NPAG_indices(1) [OF q] by (intro UWP_PU) (simp add: espacio_ok_def)
  moreover have "(0 :: uint32) \<noteq> PTE_P OR PTE_U" by (simp add: pte_flags)
  ultimately show ?thesis
    unfolding uvpt_def leer_uvpt [OF e pd q20] by (auto simp: entrada_def pte_en_def tabla_def)
qed

lemma uvpd_entrada:
  assumes e: "espacio_ok D k" and pd: "espacio k = Some pd" "pd \<in> D" "pd < 2 ^ 20" and i: "i < 1024"
  shows "uvpd k (word_of_nat i) = Some (mem k pd i)"
proof -
  have q: "957 * 1024 + i < 1048576" using i by simp
  have "unat (drop_bit 12 UVPT) = 979968" by (simp add: unat_drop UTOP_valor)
  then have dr: "drop_bit 12 UVPT = 979968" by (simp add: word_unat_eq_iff)
  have v: "UVPT + drop_bit 12 UVPT * 4 + 4 * word_of_nat i = UVPT + 4 * word_of_nat (957 * 1024 + i)"
    unfolding dr by (simp add: algebra_simps)
  have d: "(957 * 1024 + i) div 1024 = 957" "(957 * 1024 + i) mod 1024 = i" using i by (auto simp: resto_957)
  have m: "mem k pd 957 = page2pa pd OR PTE_P OR PTE_U"
    using e pd(2) by (simp add: espacio_ok_def PDX_UVPT)
  show ?thesis
    unfolding uvpd_def v leer_uvpt [OF e pd q] d m by (simp add: bits_directorio marco_directorio [OF pd(3)])
qed

section \<open>System calls as updates\<close>

lemma unat_PDX_bajo: "\<not> mala_va va \<Longrightarrow> unat (PDX va) < NPDU"
  by (rule PDX_bajo_UTOP [OF mala_va_UTOP])

text \<open>
  A new page: the free list loses \<open>p\<close>, and the tables needed come from the rest, so the
  length in \<open>cambio\<close> counts \<open>p\<close> once more.
\<close>

lemma env_page_alloc_cambio:
  assumes vm: "vm_ok D extra (p # ys) k" and e: "env_pgdir (envs k e) = Some pd" "pd \<in> D"
    and va: "unat (PDX va) < NPDU" and perm: "check_perm perm None = 0"
    and m: "\<not> (mem k pd (unat (PDX va)) = 0 \<and> ys = [])"
  shows "\<exists>k' xs'. env_page_alloc e va perm k = Some (0, k') \<and> vm_ok D extra xs' k'
    \<and> cambio D pd va (page2pa p OR perm OR PTE_P) k (p # ys) k' (p # xs')
    \<and> mem k' pd (unat (PDX va)) \<noteq> 0 \<and> mem k' p = (\<lambda>_. 0)"
proof -
  let ?v = "page2pa p OR perm OR PTE_P" and ?i = "unat (PDX va)"
  let ?k1 = "k\<lparr>page_free_list := pp_link (pages k p), pages := (pages k)(p := (pages k p)\<lparr>pp_link := None\<rparr>),
      mem := (if True then (mem k)(p := (\<lambda>_. 0)) else mem k)\<rparr>"
  note a = page_alloc_vm(1,2,9-13) [OF vm, where zero = True] and a' = page_alloc_vm(3-8) [OF vm]
  have "refs D extra ?k1 p = 0" using a'(5) a(6) by (simp add: refs_def)
  then have ct: "contada D extra ys ?k1 p" using a' a(5) by (simp add: contada_def)
  have md: "mem ?k1 d = mem k d" if "d \<in> D" for d using a'(3) that by auto
  have mi: "\<not> (mem ?k1 pd ?i = 0 \<and> ys = [])" using m unfolding md [OF e(2)] .
  obtain k' xs' where ins: "page_insert pd p va perm ?k1 = Some (0, k')" "vm_ok D extra xs' k'"
    "cambio D pd va ?v ?k1 ys k' xs'" "mem k' pd ?i \<noteq> 0"
    using insert_cambio [OF a(2) e(2) va ct check_perm_0 [OF perm] mi] by (elim exE conjE) (rule that)
  note c = cambioD [OF ins(3)]
  have "env_page_alloc e va perm k = Some (0, k')"
    using a(1) ins(1) e(1) by (simp add: env_page_alloc_def perm)
  moreover have p0: "mem k' p = (\<lambda>_. 0)"
    using c(3) [of p] a'(2-4) a(5) by simp
  moreover have "cambio D pd va ?v k (p # ys) k' (p # xs')"
    unfolding cambio_def
  proof (intro conjI)
    have "solo_vm k ?k1" by (simp add: solo_vm_def)
    then show "solo_vm k k'" using c(1) by (rule solo_vm_trans)
    show "entrada_cambiada D pd va ?v k k'"
      using c(2) a(3) by (simp add: entrada_cambiada_def)
    show "\<forall>f. f \<notin> D \<union> tablas D k \<union> set (p # ys) \<longrightarrow> mem k' f = mem k f"
      using c(3) a(5) by auto
    show "\<forall>d\<in>D. \<forall>n. mem k' d n = mem k d n
        \<or> d = pd \<and> n = ?i \<and> mem k d n = 0 \<and> mem k' d n AND PTE_UWP = PTE_UWP"
    proof (intro ballI allI)
      fix d n assume d: "d \<in> D"
      from c(4) [OF d, of n] show "mem k' d n = mem k d n
        \<or> d = pd \<and> n = ?i \<and> mem k d n = 0 \<and> mem k' d n AND PTE_UWP = PTE_UWP"
        unfolding md [OF d] .
    qed
    show "length (p # ys) \<le> length (p # xs') + (if mem k pd ?i = 0 then 1 else 0)"
      using c(5) unfolding md [OF e(2)] by simp
  qed
  ultimately show ?thesis using ins(2,4) by blast
qed

lemma env_page_map_cambio:
  assumes vm: "vm_ok D extra xs k" and s: "env_pgdir (envs k se) = Some sd" "sd \<in> D"
    and d: "env_pgdir (envs k de) = Some dd" "dd \<in> D" and va: "unat (PDX srcva) < NPDU" "unat (PDX dstva) < NPDU"
    and perm: "es_perm perm" and cnt: "refs D extra k (marco (ranura k sd srcva)) + 1 < 65536"
    and ok: "ranura k sd srcva \<noteq> 0" "perm AND PTE_W = 0 \<or> ranura k sd srcva AND PTE_W \<noteq> 0"
    and m: "\<not> (mem k dd (unat (PDX dstva)) = 0 \<and> xs = [])"
  shows "\<exists>k' xs'. env_page_map se srcva de dstva perm k = Some (0, k') \<and> vm_ok D extra xs' k'
    \<and> cambio D dd dstva (page2pa (marco (ranura k sd srcva)) OR perm OR PTE_P) k xs k' xs'
    \<and> mem k' dd (unat (PDX dstva)) \<noteq> 0"
proof -
  let ?v = "ranura k sd srcva"
  have lv: "leer k (tabla k sd (unat (PDX srcva)), unat (PTX srcva)) = ?v"
    using ok(1) by (auto simp: leer_def pte_en_def split: if_splits)
  have call: "env_page_map se srcva de dstva perm k = page_insert dd (marco ?v) dstva perm k"
    using ok by (auto simp: env_page_map_def s d lookup_vm [OF vm s(2) va(1)] lv pide_escritura)
  note F = entrada_contada [OF vm s(2) va(1) _ ok(1)]
  have "contada D extra xs k (marco ?v)" using F cnt by (simp add: contada_def)
  from insert_cambio [OF vm d(2) va(2) this perm m] show ?thesis unfolding call .
qed

text \<open>The stubs.\<close>

lemma u_page_alloc_eq: "u_page_alloc plan envid va perm k =
    (case sys_page_alloc envid va perm k of Ret r k' \<Rightarrow> if r > 0 then None else Some (r, k') | _ \<Rightarrow> None)"
  and u_page_map_eq: "u_page_map plan sid sva did dva perm k =
    (case sys_page_map sid sva did dva perm k of Ret r k' \<Rightarrow> if r > 0 then None else Some (r, k') | _ \<Rightarrow> None)"
  and u_page_unmap_eq: "u_page_unmap plan envid va k =
    (case sys_page_unmap envid va k of Ret r k' \<Rightarrow> if r > 0 then None else Some (r, k') | _ \<Rightarrow> None)"
  by (simp_all add: u_page_alloc_def u_page_map_def u_page_unmap_def int_syscall_def syscall_def split: res.splits)

lemma u_alloc_cambio:
  assumes vm: "vm_ok D extra (p # ys) k" and id: "envid2env envid True k = Some (0, Some e)"
    and e: "env_pgdir (envs k e) = Some pd" "pd \<in> D"
    and va: "\<not> mala_va va" and perm: "perm AND NOT PTE_SYSCALL = 0"
    and m: "\<not> (mem k pd (unat (PDX va)) = 0 \<and> ys = [])"
  shows "\<exists>k' xs'. exigir (u_page_alloc plan envid va perm k) = Some k' \<and> vm_ok D extra xs' k'
    \<and> cambio D pd va (page2pa p OR (perm OR PTE_U OR PTE_P) OR PTE_P) k (p # ys) k' (p # xs')
    \<and> mem k' pd (unat (PDX va)) \<noteq> 0 \<and> mem k' p = (\<lambda>_. 0)"
proof -
  have c: "check_perm (perm OR PTE_U OR PTE_P) None = 0" using perm by (simp add: check_perm_alloc)
  obtain k' xs' where k': "env_page_alloc e va (perm OR PTE_U OR PTE_P) k = Some (0, k')" "vm_ok D extra xs' k'"
    "cambio D pd va (page2pa p OR (perm OR PTE_U OR PTE_P) OR PTE_P) k (p # ys) k' (p # xs')"
    "mem k' pd (unat (PDX va)) \<noteq> 0" "mem k' p = (\<lambda>_. 0)"
    using env_page_alloc_cambio [OF vm e unat_PDX_bajo [OF va] c m] by (elim exE conjE) (rule that)
  have "exigir (u_page_alloc plan envid va perm k) = Some k'"
    using va k'(1) by (simp add: exigir_def u_page_alloc_eq sys_page_alloc_def con_envid_ok [OF id] de_opcion_def)
  with k'(2-5) show ?thesis by blast
qed

lemma u_map_cambio:
  assumes vm: "vm_ok D extra xs k" and id: "envid2env sid True k = Some (0, Some s)" "envid2env did True k = Some (0, Some d)"
    and pd: "env_pgdir (envs k s) = Some sd" "sd \<in> D" "env_pgdir (envs k d) = Some dd" "dd \<in> D"
    and va: "\<not> mala_va srcva" "\<not> mala_va dstva"
    and perm: "es_perm perm" and cnt: "refs D extra k (marco (ranura k sd srcva)) + 1 < 65536"
    and ok: "ranura k sd srcva \<noteq> 0" "perm AND PTE_W = 0 \<or> ranura k sd srcva AND PTE_W \<noteq> 0"
    and m: "\<not> (mem k dd (unat (PDX dstva)) = 0 \<and> xs = [])"
  shows "\<exists>k' xs'. exigir (u_page_map plan sid srcva did dstva perm k) = Some k' \<and> vm_ok D extra xs' k'
    \<and> cambio D dd dstva (page2pa (marco (ranura k sd srcva)) OR (PTE_P OR PTE_U OR perm) OR PTE_P) k xs k' xs'
    \<and> mem k' dd (unat (PDX dstva)) \<noteq> 0"
proof -
  let ?p = "PTE_P OR PTE_U OR perm"
  have w: "?p AND PTE_W = 0 \<or> ranura k sd srcva AND PTE_W \<noteq> 0" using ok(2) by (simp add: W_sin_cambio)
  obtain k' xs' where k': "env_page_map s srcva d dstva ?p k = Some (0, k')" "vm_ok D extra xs' k'"
    "cambio D dd dstva (page2pa (marco (ranura k sd srcva)) OR ?p OR PTE_P) k xs k' xs'"
    "mem k' dd (unat (PDX dstva)) \<noteq> 0"
    using env_page_map_cambio [OF vm pd unat_PDX_bajo [OF va(1)] unat_PDX_bajo [OF va(2)] perm_PU [OF perm]
      cnt ok(1) w m] by (elim exE conjE) (rule that)
  have "exigir (u_page_map plan sid srcva did dstva perm k) = Some k'"
    using va k'(1) by (simp add: exigir_def u_page_map_eq sys_page_map_def con_envid_ok [OF id(1)]
        con_envid_ok [OF id(2)] de_opcion_def)
  with k'(2-4) show ?thesis by blast
qed

lemma u_unmap_cambio:
  assumes vm: "vm_ok D extra xs k" and id: "envid2env envid True k = Some (0, Some e)"
    and pd: "env_pgdir (envs k e) = Some pd" "pd \<in> D" and va: "\<not> mala_va va"
  shows "\<exists>k' xs'. exigir (u_page_unmap plan envid va k) = Some k' \<and> vm_ok D extra xs' k'
    \<and> cambio D pd va 0 k xs k' xs' \<and> length xs \<le> length xs'"
proof -
  obtain k' xs' where k': "page_remove pd va k = Some k'" "vm_ok D extra xs' k'" "cambio D pd va 0 k xs k' xs'"
    "length xs \<le> length xs'"
    using remove_cambio [OF vm pd(2) unat_PDX_bajo [OF va]] by (elim exE conjE) (rule that)
  have "exigir (u_page_unmap plan envid va k) = Some k'"
    using va k'(1) by (simp add: exigir_def u_page_unmap_eq sys_page_unmap_def con_envid_ok [OF id] pd(1))
  with k'(2-4) show ?thesis by blast
qed

section \<open>Contents\<close>

text \<open>Writing in a page that is no table does not show in the tables.\<close>

lemma contenido:
  fixes g :: "nat \<Rightarrow> uint32"
  assumes vm: "vm_ok D extra xs k" and f: "f \<notin> D" "f \<notin> tablas D k"
  defines "k' \<equiv> k\<lparr>mem := (mem k)(f := g)\<rparr>"
  shows "vm_ok D extra xs k'" "\<And>d q. d \<in> D \<Longrightarrow> q < NPAG \<Longrightarrow> entrada k' d q = entrada k d q"
    "espacio_ok D k' = espacio_ok D k" "tablas D k' = tablas D k" "\<And>d. d \<in> D \<Longrightarrow> mem k' d = mem k d" "solo_vm k k'"
    "\<And>h. mapeos D k' h = mapeos D k h"
proof -
  note e = vm_okD(1) [OF vm]
  have mm: "\<forall>h\<in>D \<union> tablas D k. mem k' h = mem k h" using f by (auto simp: k'_def)
  note S = misma_estructura [OF e mm] and P = pte_en_otra_pagina [OF e mm]
  show d: "\<And>d. d \<in> D \<Longrightarrow> mem k' d = mem k d" using mm by blast
  show "tablas D k' = tablas D k" "\<And>h. mapeos D k' h = mapeos D k h" using S by simp_all
  show "\<And>d q. d \<in> D \<Longrightarrow> q < NPAG \<Longrightarrow> entrada k' d q = entrada k d q"
    unfolding entrada_def using P(1) NPAG_indices(1) by blast
  show "espacio_ok D k' = espacio_ok D k" by (simp add: espacio_ok_def d)
  show "solo_vm k k'" by (simp add: solo_vm_def k'_def)
  have n: "npages k' = npages k" "pages k' = pages k" "page_free_list k' = page_free_list k" by (simp_all add: k'_def)
  have l: "pag.libres k' xs = pag.libres k xs" by (rule pag.libres_cong) (simp_all add: n)
  have t: "hay_tabla D k pd i \<Longrightarrow> tabla k' pd i = tabla k pd i" for pd i using P(2) by (auto simp: hay_tabla_def)
  have "estructura D xs k'" using e unfolding estructura_def n l S(1) using t by auto
  moreover have "conteo D extra xs k'"
    using vm_okD(2) [OF vm] P(1) unfolding conteo_def n S by (auto simp: P(1))
  ultimately show "vm_ok D extra xs k'" by (simp add: vm_ok_def)
qed

lemma bits_PU: "e AND PTE_P = PTE_P \<Longrightarrow> e AND PTE_U = PTE_U \<Longrightarrow> e AND (PTE_P OR PTE_U) = PTE_P OR PTE_U"
  by (simp add: bit.conj_disj_distrib)

lemma bits_W: "e AND PTE_W \<noteq> 0 \<Longrightarrow> e AND PTE_W = PTE_W"
  by (simp add: and_PTE_W split: if_splits)

text \<open>The hardware allows what the entry allows.\<close>

definition abiertas :: "nat set \<Rightarrow> kernel \<Rightarrow> bool" where
  "abiertas D k \<longleftrightarrow> (\<forall>d\<in>D. \<forall>q<NPAG. entrada k d q \<noteq> 0 \<longrightarrow> entrada k d q AND PTE_U = PTE_U)"

lemma traducir_entrada:
  assumes vm: "vm_ok D extra xs k" and es: "espacio_ok D k" and d: "d \<in> D" and q: "unat (PGNUM va) < NPAG"
    and u: "entrada k d (unat (PGNUM va)) \<noteq> 0 \<longrightarrow> entrada k d (unat (PGNUM va)) AND PTE_U = PTE_U"
  shows "traducir k d w va =
    (if entrada k d (unat (PGNUM va)) \<noteq> 0 \<and> (w \<longrightarrow> entrada k d (unat (PGNUM va)) AND PTE_W \<noteq> 0)
     then Some (marco (entrada k d (unat (PGNUM va)))) else None)"
proof -
  let ?e = "entrada k d (unat (PGNUM va))" and ?i = "unat (PDX va)" and ?j = "unat (PTX va)"
  let ?pide = "(PTE_P OR PTE_U) OR (if w then PTE_W else 0)"
  have i: "?i < NPDU" using NPAG_indices(1) [OF q] by (simp add: PDX_de_PGNUM)
  have r: "?e = (if mem k d ?i = 0 then 0 else mem k (marco (mem k d ?i)) ?j)"
    by (simp add: entrada_ranura pte_en_def tabla_def)
  have no: "(0 :: uint32) AND ?pide \<noteq> ?pide" by (simp add: pte_flags)
  have uwp: "mem k d ?i \<noteq> 0 \<Longrightarrow> mem k d ?i AND ?pide = ?pide"
  proof -
    assume "mem k d ?i \<noteq> 0"
    then have a: "mem k d ?i AND PTE_UWP = PTE_UWP" using es d i by (simp add: espacio_ok_def)
    have p: "?pide = PTE_UWP AND ?pide" by (simp add: PTE_UWP_def pte_flags)
    have "mem k d ?i AND ?pide = (mem k d ?i AND PTE_UWP) AND ?pide" unfolding and.assoc p [symmetric] ..
    with a p show ?thesis by simp
  qed
  have pu: "?e \<noteq> 0 \<Longrightarrow> ?e AND (PTE_P OR PTE_U) = PTE_P OR PTE_U"
    using conteoD(2) [OF vm_okD(2) [OF vm] d i PDX_PTX_lt(2)] u by (intro bits_PU) (simp_all add: entrada_ranura)
  have ew: "?e AND ?pide = ?pide \<longleftrightarrow> ?e \<noteq> 0 \<and> (w \<longrightarrow> ?e AND PTE_W \<noteq> 0)"
  proof (cases "?e = 0")
    case True
    with no show ?thesis by simp
  next
    case False
    have "?e AND PTE_W = PTE_W \<longleftrightarrow> ?e AND PTE_W \<noteq> 0" using bits_W by (auto simp: PTE_W_def)
    moreover have "(PTE_P OR PTE_U) OR (?e AND PTE_W) = (PTE_P OR PTE_U) OR PTE_W \<longleftrightarrow> ?e AND PTE_W = PTE_W"
      unfolding and_PTE_W by (auto simp: pte_flags)
    ultimately show ?thesis using pu [OF False] False by (simp add: bit.conj_disj_distrib)
  qed
  show ?thesis
  proof (cases "mem k d ?i = 0")
    case True
    with no have "traducir k d w va = None" by (simp add: traducir_def)
    with True r show ?thesis by simp
  next
    case False
    then have "mem k (marco (mem k d ?i)) ?j = ?e" using r by simp
    then show ?thesis unfolding traducir_def Let_def using uwp [OF False] ew by simp
  qed
qed

section \<open>Resolving a write fault\<close>

lemma PFTEMP_valor: "PFTEMP = 0x7FF000" "unat (PGNUM PFTEMP) = 2047" "\<not> mala_va PFTEMP" "unat (PDX PFTEMP) = 1"
  by (simp_all add: PFTEMP_def UTEMP_def memlayout unat_PGNUM unat_PDX mala_va_def)

lemma envid_propio: "curenv k = Some c \<Longrightarrow> envid2env 0 True k = Some (0, Some c)"
  by (simp add: envid2env_def)

lemma ROUNDDOWN_bajo:
  assumes "unat (PGNUM va) < NPAG"
  shows "\<not> mala_va (ROUNDDOWN va PGSIZE)" "PGNUM (ROUNDDOWN va PGSIZE) = PGNUM va"
proof -
  have v: "ROUNDDOWN va PGSIZE = pagina_va (unat va div 4096)" by (rule ROUNDDOWN_pagina)
  show p: "PGNUM (ROUNDDOWN va PGSIZE) = PGNUM va" unfolding v by (rule PGNUM_pagina_va)
  have "ROUNDDOWN va PGSIZE < UTOP" unfolding pagina_bajo_UTOP p by (rule assms)
  moreover have "ROUNDDOWN va PGSIZE mod PGSIZE = 0"
    by (simp add: word_unat_eq_iff unat_mod unat_ROUNDDOWN) (simp add: PGSIZE_def)
  ultimately show "\<not> mala_va (ROUNDDOWN va PGSIZE)" by (simp add: mala_va_def not_le)
qed

lemma marco_valor: "p < 2 ^ 20 \<Longrightarrow> es_perm perm \<Longrightarrow> marco (page2pa p OR perm OR PTE_P) = p"
  by (simp add: marco_entrada or.assoc)

lemma valor_presente: "page2pa p OR perm OR PTE_P \<noteq> 0" "(page2pa p OR perm OR PTE_P) AND PTE_P = PTE_P"
  by (simp_all flip: or.assoc)

lemma valor_and: "es_perm m \<Longrightarrow> (page2pa p OR perm OR PTE_P) AND m = (perm OR PTE_P) AND m"
  by (simp only: or.assoc bit.conj_disj_distrib2 page2pa_and_perm) simp

text \<open>A new entry adds at most one reference to its page.\<close>

lemma mapeos_cambio:
  assumes "cambio D pd va v k xs k' xs'"
  shows "mapeos D k' f \<subseteq> insert (pd, unat (PDX va), unat (PTX va)) (mapeos D k f)"
    "f \<noteq> marco v \<or> v = 0 \<Longrightarrow> mapeos D k' f \<subseteq> mapeos D k f"
proof -
  have e: "pte_en k' a b c = (if (a, b, c) = (pd, unat (PDX va), unat (PTX va)) then v else pte_en k a b c)"
    if "a \<in> D" "b < NPDU" for a b c
    using cambioD(2) [OF assms] that unfolding entrada_cambiada_def by blast
  show "mapeos D k' f \<subseteq> insert (pd, unat (PDX va), unat (PTX va)) (mapeos D k f)"
    unfolding mapeos_def by (auto simp: e split: if_splits)
  show "f \<noteq> marco v \<or> v = 0 \<Longrightarrow> mapeos D k' f \<subseteq> mapeos D k f"
    unfolding mapeos_def by (auto simp: e split: if_splits)
qed

lemma refs_nueva:
  assumes vm: "vm_ok D extra (p # ys) k" and c: "cambio D pd va v k (p # ys) k' zs"
  shows "refs D extra k' p + 1 < 65536"
proof -
  have "refs D extra k p = 0" by (rule page_alloc_vm(7) [OF vm])
  then have z: "extra p = 0" "mapeos D k p = {}"
    using finite_mapeos estructuraD(2) [OF vm_okD(1) [OF vm]] by (auto simp: refs_def)
  have "card (mapeos D k' p) \<le> card {(pd, unat (PDX va), unat (PTX va))}"
    using mapeos_cambio(1) [OF c, of p] z(2) by (intro card_mono) auto
  with z(1) show ?thesis by (simp add: refs_def)
qed

text \<open>The test of \<open>pgfault\<close> is never true: \<open>FEC_WR\<close> has bit 1 and the negation bit 0.\<close>

lemma prueba_vacia: "(err AND FEC_WR) AND (if b then 1 else 0) = 0"
  by (cases b) (simp_all add: and.assoc FEC_WR_def)

definition perm_privada :: uint32 where "perm_privada = PTE_P OR PTE_U OR PTE_W"

lemma perm_privada_ok: "es_perm perm_privada" "perm_privada AND NOT PTE_SYSCALL = 0"
  by (simp add: perm_privada_def) (simp add: perm_privada_def pte_flags)

definition entrada_privada :: "nat \<Rightarrow> uint32" where
  "entrada_privada p = page2pa p OR (PTE_P OR PTE_U OR perm_privada) OR PTE_P"

lemma entrada_privada_marco: "p < 2 ^ 20 \<Longrightarrow> marco (entrada_privada p) = p"
  unfolding entrada_privada_def by (rule marco_valor) (simp_all add: perm_privada_ok)

lemma entrada_privada_bits: "entrada_privada p \<noteq> 0" "entrada_privada p AND PTE_U = PTE_U"
  "entrada_privada p AND PTE_W = PTE_W"
  unfolding entrada_privada_def by (simp_all add: valor_presente valor_and) (simp_all add: perm_privada_def pte_flags)

lemma palabra_cong:
  "entrada k' d r = entrada k d r \<Longrightarrow> (entrada k d r \<noteq> 0 \<Longrightarrow> mem k' (marco (entrada k d r)) = mem k (marco (entrada k d r)))
    \<Longrightarrow> palabra k' d r = palabra k d r"
  by (auto simp: palabra_def fun_eq_iff)

lemma espacio_solo: "solo_vm k k' \<Longrightarrow> espacio k' = espacio k"
  by (simp add: espacio_def solo_vmD)

text \<open>The first two steps: a copy of the page, mapped at \<open>PFTEMP\<close>.\<close>

lemma copia_en_PFTEMP:
  assumes vm: "vm_ok D extra (p # ys) k" and es: "espacio_ok D k"
    and c: "curenv k = Some c" "env_pgdir (envs k c) = Some pd" "pd \<in> D"
    and q: "unat (PGNUM va) < NPAG" "unat (PGNUM va) \<noteq> 2047"
    and e: "entrada k pd (unat (PGNUM va)) \<noteq> 0" "entrada k pd (unat (PGNUM va)) AND PTE_U = PTE_U"
    and m: "\<not> (mem k pd 1 = 0 \<and> ys = [])"
  shows "\<exists>k1 k2 xs. exigir (u_page_alloc plan 0 PFTEMP perm_privada k) = Some k1 \<and> copiar_pagina PFTEMP (ROUNDDOWN va PGSIZE) k1 = Some k2
    \<and> vm_ok D extra xs k2 \<and> espacio_ok D k2 \<and> solo_vm k k2 \<and> length ys \<le> Suc (length xs)
    \<and> (\<forall>d\<in>D. \<forall>r<NPAG. entrada k2 d r = (if d = pd \<and> r = 2047 then entrada_privada p else entrada k d r))
    \<and> (\<forall>d\<in>D. \<forall>r<NPAG. \<not> (d = pd \<and> r = 2047) \<longrightarrow> palabra k2 d r = palabra k d r)
    \<and> mem k2 p = mem k (marco (entrada k pd (unat (PGNUM va)))) \<and> refs D extra k2 p + 1 < 65536 \<and> p < npages k"
proof -
  let ?q = "unat (PGNUM va)" and ?a = "ROUNDDOWN va PGSIZE"
  let ?f = "marco (entrada k pd ?q)"
  note pf = PFTEMP_valor and id = envid_propio [OF c(1)]
  note P = page_alloc_vm(3-8) [OF vm]
  have p20: "p < 2 ^ 20" using P(1) estructuraD(1) [OF vm_okD(1) [OF vm]] by simp
  have v: "page2pa p OR (perm_privada OR PTE_U OR PTE_P) OR PTE_P = entrada_privada p"
    unfolding entrada_privada_def perm_privada_def by (simp add: or.commute or.left_commute)
  obtain k1 xs where k1: "exigir (u_page_alloc plan 0 PFTEMP perm_privada k) = Some k1" "vm_ok D extra xs k1"
    "cambio D pd PFTEMP (entrada_privada p) k (p # ys) k1 (p # xs)" "mem k1 pd (unat (PDX PFTEMP)) \<noteq> 0"
    "mem k1 p = (\<lambda>_. 0)"
    using u_alloc_cambio [OF vm id c(2,3) pf(3) perm_privada_ok(2) m [folded pf(4)], where plan = plan] unfolding v
    by (elim exE conjE) (rule that)
  note C = cambioD [OF k1(3)] and S = solo_vmD [OF cambioD(1) [OF k1(3)]]
  have en1: "entrada k1 d r = (if d = pd \<and> r = 2047 then entrada_privada p else entrada k d r)" if "d \<in> D" "r < NPAG" for d r
    using entrada_cambio [OF k1(3) that] by (simp add: pf(2))
  have es1: "espacio_ok D k1" using espacio_cambio [OF es k1(3)] by (simp add: pf(4) NPDU_def)
  have N: "2047 < NPAG" by (simp add: NPAG_def)
  have eq: "entrada k1 pd ?q = entrada k pd ?q" using en1 [OF c(3) q(1)] q(2) by simp
  have ep: "entrada k1 pd 2047 = entrada_privada p" using en1 [OF c(3) N] by simp
  note F = entrada_marco [OF vm c(3) q(1) e(1)]
  have mf: "mem k1 ?f = mem k ?f" using C(3) F by simp
  have ra: "PGNUM ?a = PGNUM va" by (rule ROUNDDOWN_bajo(2) [OF q(1)])
  have ts: "traducir k1 pd False ?a = Some ?f"
    using traducir_entrada [OF k1(2) es1 c(3), of ?a False] q(1) e eq by (simp add: ra)
  have td: "traducir k1 pd True PFTEMP = Some p"
    using traducir_entrada [OF k1(2) es1 c(3), of PFTEMP True] N
    by (simp add: pf(2) ep entrada_privada_bits entrada_privada_marco [OF p20]) (simp add: PTE_W_def)
  have ec: "espacio k1 = Some pd" using c by (simp add: espacio_def S)
  let ?k2 = "k1\<lparr>mem := (mem k1)(p := mem k1 ?f)\<rparr>"
  have cp: "copiar_pagina PFTEMP ?a k1 = Some ?k2" by (simp add: copiar_pagina_def ec ts td)
  have np: "p \<notin> D" "p \<notin> tablas D k1"
    using entrada_marco(1,2) [OF k1(2) c(3) N] by (simp_all add: ep entrada_privada_bits entrada_privada_marco [OF p20])
  note K = contenido [OF k1(2) np, where g = "mem k1 ?f"]
  have en2: "entrada ?k2 d r = (if d = pd \<and> r = 2047 then entrada_privada p else entrada k d r)" if "d \<in> D" "r < NPAG" for d r
    using K(2) [OF that] en1 [OF that] by simp
  have pa: "palabra ?k2 d r = palabra k d r" if "d \<in> D" "r < NPAG" "\<not> (d = pd \<and> r = 2047)" for d r
  proof (rule palabra_cong)
    show "entrada ?k2 d r = entrada k d r" using en2 [OF that(1,2)] that(3) by simp
    assume "entrada k d r \<noteq> 0"
    from entrada_marco [OF vm that(1,2) this] C(3) show "mem ?k2 (marco (entrada k d r)) = mem k (marco (entrada k d r))" by auto
  qed
  have rf: "refs D extra ?k2 p + 1 < 65536" using refs_nueva [OF vm k1(3)] by (simp add: refs_def K(7))
  have le: "length ys \<le> Suc (length xs)" using C(5) by (auto split: if_splits)
  have so: "solo_vm k ?k2" using C(1) K(6) by (rule solo_vm_trans)
  show ?thesis
    using k1(1) cp K(1,3) es1 so le en2 pa mf rf P(1)
    by (intro exI [of _ k1] exI [of _ ?k2] exI [of _ xs]) auto
qed

lemma entrada_dir: "entrada k pd (unat (PGNUM va)) \<noteq> 0 \<Longrightarrow> mem k pd (unat (PDX va)) \<noteq> 0"
  by (auto simp: entrada_ranura pte_en_def split: if_splits)

text \<open>
  \<open>pgfault\<close> on a page that is mapped, whatever its permissions: the page becomes a private
  writable copy on the first free page; no contents change, there or anywhere else.
\<close>

lemma pgfault_copia:
  assumes vm: "vm_ok D extra (p # ys) k" and es: "espacio_ok D k"
    and c: "curenv k = Some c" "env_pgdir (envs k c) = Some pd" "pd \<in> D"
    and q: "unat (PGNUM va) < NPAG" "unat (PGNUM va) \<noteq> 2047"
    and e: "entrada k pd (unat (PGNUM va)) \<noteq> 0" "entrada k pd (unat (PGNUM va)) AND PTE_U = PTE_U"
    and m: "\<not> (mem k pd 1 = 0 \<and> ys = [])"
  shows "\<exists>k' xs. pgfault plan va err k = Some k' \<and> vm_ok D extra xs k' \<and> espacio_ok D k' \<and> solo_vm k k'
    \<and> length ys \<le> Suc (length xs)
    \<and> (\<forall>d\<in>D. \<forall>r<NPAG. entrada k' d r = (if d = pd \<and> r = unat (PGNUM va) then entrada_privada p
          else if d = pd \<and> r = 2047 then 0 else entrada k d r))
    \<and> (\<forall>d\<in>D. \<forall>r<NPAG. \<not> (d = pd \<and> r = 2047) \<longrightarrow> palabra k' d r = palabra k d r)"
proof -
  let ?q = "unat (PGNUM va)" and ?a = "ROUNDDOWN va PGSIZE"
  let ?f = "marco (entrada k pd ?q)"
  note pf = PFTEMP_valor
  obtain k1 k2 xs where k2: "exigir (u_page_alloc plan 0 PFTEMP perm_privada k) = Some k1"
    "copiar_pagina PFTEMP ?a k1 = Some k2"
    "vm_ok D extra xs k2" "espacio_ok D k2" "solo_vm k k2" "length ys \<le> Suc (length xs)"
    "\<forall>d\<in>D. \<forall>r<NPAG. entrada k2 d r = (if d = pd \<and> r = 2047 then entrada_privada p else entrada k d r)"
    "\<forall>d\<in>D. \<forall>r<NPAG. \<not> (d = pd \<and> r = 2047) \<longrightarrow> palabra k2 d r = palabra k d r"
    "mem k2 p = mem k ?f" "refs D extra k2 p + 1 < 65536" "p < npages k"
    using copia_en_PFTEMP [OF vm es c q e m, where plan = plan] by (elim exE conjE) (rule that)
  note S2 = solo_vmD [OF k2(5)]
  have p20: "p < 2 ^ 20" using k2(11) estructuraD(1) [OF vm_okD(1) [OF vm]] by simp
  note EM = entrada_privada_marco [OF p20]
  have N: "2047 < NPAG" by (simp add: NPAG_def)
  have e2: "entrada k2 pd 2047 = entrada_privada p" "entrada k2 pd ?q = entrada k pd ?q"
    using k2(7) c(3) N q by auto
  have rp: "ranura k2 pd PFTEMP = entrada_privada p" unfolding entrada_ranura [symmetric] pf(2) by (rule e2(1))
  have c2: "curenv k2 = Some c" "env_pgdir (envs k2 c) = Some pd" using c by (simp_all add: S2)
  note id = envid_propio [OF c2(1)] and ra = ROUNDDOWN_bajo [OF q(1)]
  have v: "page2pa (marco (ranura k2 pd PFTEMP)) OR (PTE_P OR PTE_U OR perm_privada) OR PTE_P = entrada_privada p"
    unfolding rp EM by (simp only: entrada_privada_def)
  have m2: "\<not> (mem k2 pd (unat (PDX ?a)) = 0 \<and> xs = [])"
    using entrada_dir [of k2 pd ?a] e(1) e2(2) by (simp add: ra(2))
  have cnt: "refs D extra k2 (marco (ranura k2 pd PFTEMP)) + 1 < 65536" unfolding rp EM by (rule k2(10))
  have ok: "ranura k2 pd PFTEMP \<noteq> 0" "perm_privada AND PTE_W = 0 \<or> ranura k2 pd PFTEMP AND PTE_W \<noteq> 0"
    unfolding rp entrada_privada_bits by (simp_all add: entrada_privada_bits) (simp add: PTE_W_def)
  obtain k3 xs3 where k3: "exigir (u_page_map plan 0 PFTEMP 0 ?a perm_privada k2) = Some k3" "vm_ok D extra xs3 k3"
    "cambio D pd ?a (entrada_privada p) k2 xs k3 xs3" "mem k3 pd (unat (PDX ?a)) \<noteq> 0"
    using u_map_cambio [OF k2(3) id id c2(2) c(3) c2(2) c(3) pf(3) ra(1) perm_privada_ok(1) cnt ok m2, where plan = plan]
    unfolding v by (elim exE conjE) (rule that)
  note S3 = solo_vmD [OF cambioD(1) [OF k3(3)]]
  have c3: "curenv k3 = Some c" "env_pgdir (envs k3 c) = Some pd" using c2 by (simp_all add: S3)
  obtain k4 xs4 where k4: "exigir (u_page_unmap plan 0 PFTEMP k3) = Some k4" "vm_ok D extra xs4 k4"
    "cambio D pd PFTEMP 0 k3 xs3 k4 xs4" "length xs3 \<le> length xs4"
    using u_unmap_cambio [OF k3(2) envid_propio [OF c3(1)] c3(2) c(3) pf(3), where plan = plan]
    by (elim exE conjE) (rule that)
  have uv: "uvpt k (drop_bit 12 va) = Some (entrada k pd ?q)"
  proof -
    have w: "drop_bit 12 va = word_of_nat ?q" by (simp add: PGNUM_def)
    have "mem k pd (?q div 1024) \<noteq> 0" using entrada_dir [OF e(1)] by (simp add: PDX_de_PGNUM)
    moreover have "pd < 2 ^ 20" using estructuraD(1,6) [OF vm_okD(1) [OF vm]] c(3) by fastforce
    ultimately show ?thesis unfolding w using uvpt_entrada [OF es _ c(3) _ q(1)] c by (simp add: espacio_def)
  qed
  have call: "pgfault plan va err k = Some k4"
    unfolding pgfault_def Let_def perm_privada_def [symmetric]
    using uv k2(1,2) k3(1) k4(1) by (simp add: prueba_vacia)
  have en4: "entrada k4 d r = (if d = pd \<and> r = ?q then entrada_privada p
          else if d = pd \<and> r = 2047 then 0 else entrada k d r)" if "d \<in> D" "r < NPAG" for d r
    unfolding entrada_cambio [OF k4(3) that] entrada_cambio [OF k3(3) that] pf(2) ra(2)
    using k2(7) that q(2) by auto
  have pa4: "palabra k4 d r = palabra k d r" if d: "d \<in> D" "r < NPAG" "\<not> (d = pd \<and> r = 2047)" for d r
  proof -
    have "palabra k4 d r = palabra k3 d r" using palabra_cambio [OF k3(2) k4(3) d(1,2)] d(3) by (simp add: pf(2))
    also have "\<dots> = palabra k2 d r"
    proof (cases "d = pd \<and> r = ?q")
      case True
      have fr: "p \<notin> D" "p \<notin> tablas D k2" "p \<notin> set xs"
        using entrada_marco(1-3) [OF k2(3) c(3) N] by (simp_all add: e2 entrada_privada_bits EM)
      have "palabra k3 pd ?q w = Some (mem k2 p w)" for w
        using palabra_cambio_propia [OF k3(3) c(3), of w] q(1) fr by (simp add: ra(2) EM entrada_privada_bits)
      moreover have "palabra k2 pd ?q w = Some (mem k2 p w)" for w
      proof -
        have "palabra k2 pd ?q = palabra k pd ?q" using k2(8) c(3) q by blast
        with e(1) k2(9) show ?thesis by (simp add: palabra_def)
      qed
      ultimately show ?thesis using True by (simp add: fun_eq_iff)
    next
      case False
      then show ?thesis using palabra_cambio [OF k2(3) k3(3) d(1,2)] by (simp add: ra(2))
    qed
    finally show ?thesis using k2(8) d by simp
  qed
  have es4: "espacio_ok D k4"
    using espacio_cambio [OF espacio_cambio [OF k2(4) k3(3)] k4(3)] unat_PDX_bajo [OF ra(1)]
    by (simp add: pf(4) NPDU_def)
  have so: "solo_vm k k4" using solo_vm_trans [OF solo_vm_trans [OF k2(5) cambioD(1) [OF k3(3)]] cambioD(1) [OF k4(3)]] .
  have le: "length ys \<le> Suc (length xs4)"
    using k2(6) k4(4) cambioD(5) [OF k3(3)] entrada_dir [of k2 pd ?a] e(1) e2(2) by (simp add: ra(2))
  show ?thesis
    using call k4(2) es4 so le en4 pa4 by blast
qed

end
