(* ===== verification/User_Claims.thy ===== *)
theory User_Claims
  imports User_Mem
begin

text \<open>
  The properties of the user library over the memory that programs see (\<open>palabra\<close>):
  reading the page tables, private pages, and what \<open>pgfault\<close> does to a page.
\<close>

section \<open>Stores\<close>

text \<open>No page that some program can write is mapped anywhere else.\<close>

definition privada :: "nat set \<Rightarrow> kernel \<Rightarrow> nat \<Rightarrow> nat \<Rightarrow> bool" where
  "privada D k d q \<longleftrightarrow> (\<forall>d'\<in>D. \<forall>q'<NPAG. entrada k d' q' \<noteq> 0
     \<longrightarrow> marco (entrada k d' q') = marco (entrada k d q) \<longrightarrow> d' = d \<and> q' = q)"

definition privadas :: "nat set \<Rightarrow> kernel \<Rightarrow> bool" where
  "privadas D k \<longleftrightarrow> (\<forall>d\<in>D. \<forall>q<NPAG. entrada k d q AND PTE_W \<noteq> 0 \<longrightarrow> privada D k d q)"

definition memorias_ok :: "nat set \<Rightarrow> (nat \<Rightarrow> nat) \<Rightarrow> nat list \<Rightarrow> kernel \<Rightarrow> bool" where
  "memorias_ok D extra xs k \<longleftrightarrow> vm_ok D extra xs k \<and> espacio_ok D k \<and> abiertas D k \<and> privadas D k"

lemma memorias_okD:
  assumes "memorias_ok D extra xs k"
  shows "vm_ok D extra xs k" "espacio_ok D k" "abiertas D k" "privadas D k"
  using assms by (simp_all add: memorias_ok_def)

lemma entradas_cong:
  assumes "\<And>d q. d \<in> D \<Longrightarrow> q < NPAG \<Longrightarrow> entrada k' d q = entrada k d q"
  shows "abiertas D k' = abiertas D k" "privadas D k' = privadas D k"
  using assms by (simp_all add: abiertas_def privadas_def privada_def)

lemma escritura_directa:
  fixes v :: uint32
  assumes ok: "memorias_ok D extra xs k" and pd: "pd \<in> D" and q: "unat (PGNUM va) < NPAG"
    and e: "entrada k pd (unat (PGNUM va)) \<noteq> 0" "privada D k pd (unat (PGNUM va))"
  defines "f \<equiv> marco (entrada k pd (unat (PGNUM va)))"
  defines "k' \<equiv> escribir f (unat (PGOFF va) div 4) v k"
  shows "memorias_ok D extra xs k'"
    "\<And>d r w. d \<in> D \<Longrightarrow> r < NPAG \<Longrightarrow> palabra k' d r w =
       (if d = pd \<and> r = unat (PGNUM va) \<and> w = unat (PGOFF va) div 4 then Some v else palabra k d r w)"
proof -
  note M = memorias_okD [OF ok]
  note F = entrada_marco [OF M(1) pd q e(1), folded f_def]
  have k': "k' = k\<lparr>mem := (mem k)(f := (mem k f)(unat (PGOFF va) div 4 := v))\<rparr>"
    by (simp add: k'_def escribir_def)
  note K = contenido [OF M(1) F(1,2), where g = "(mem k f)(unat (PGOFF va) div 4 := v)", folded k']
  show "memorias_ok D extra xs k'"
    using K(1,3) M entradas_cong [of D k' k] K(2) by (simp add: memorias_ok_def)
  fix d r w assume d: "d \<in> D" "r < NPAG"
  have "marco (entrada k d r) = f \<Longrightarrow> entrada k d r \<noteq> 0 \<Longrightarrow> d = pd \<and> r = unat (PGNUM va)"
    using e(2) d unfolding privada_def f_def by blast
  then show "palabra k' d r w =
       (if d = pd \<and> r = unat (PGNUM va) \<and> w = unat (PGOFF va) div 4 then Some v else palabra k d r w)"
    using e(1) unfolding palabra_def K(2) [OF d] by (auto simp: k' f_def)
qed

text \<open>A new private page, and perhaps entries removed, leave the pages that can be written private.\<close>

lemma nueva_privada:
  assumes ok: "memorias_ok D extra xs k" and p: "p \<in> set xs"
    and pd: "pd \<in> D" "q < NPAG" "p < 2 ^ 20"
    and en: "\<forall>d\<in>D. \<forall>r<NPAG. entrada k' d r = (if d = pd \<and> r = q then entrada_privada p
          else if B d r then 0 else entrada k d r)"
  shows "abiertas D k'" "privadas D k'" "privada D k' pd q"
proof -
  note M = memorias_okD [OF ok]
  have ep: "entrada k' pd q = entrada_privada p" using en pd by simp
  have otra: "d = pd \<and> r = q \<or> entrada k' d r = entrada k d r \<and> marco (entrada k d r) \<noteq> p"
    if "d \<in> D" "r < NPAG" "entrada k' d r \<noteq> 0" for d r
    using en that entrada_marco(3) [OF M(1) that(1,2)] p by (auto split: if_splits)
  show ab: "abiertas D k'"
    unfolding abiertas_def
  proof (intro ballI allI impI)
    fix d r assume "d \<in> D" "r < NPAG" "entrada k' d r \<noteq> 0"
    with otra [OF this] ep M(3) show "entrada k' d r AND PTE_U = PTE_U"
      by (auto simp: abiertas_def entrada_privada_bits)
  qed
  show pq: "privada D k' pd q"
    unfolding privada_def ep entrada_privada_marco [OF pd(3)] using otra by metis
  show "privadas D k'"
    unfolding privadas_def
  proof (intro ballI allI impI)
    fix d r assume d: "d \<in> D" "r < NPAG" and w: "entrada k' d r AND PTE_W \<noteq> 0"
    then have n: "entrada k' d r \<noteq> 0" by auto
    show "privada D k' d r"
    proof (cases "d = pd \<and> r = q")
      case True
      with pq show ?thesis by simp
    next
      case False
      with otra [OF d n] have o: "entrada k' d r = entrada k d r" "marco (entrada k d r) \<noteq> p" by auto
      with M(4) d w have pr: "privada D k d r" by (simp add: privadas_def)
      show ?thesis
        unfolding privada_def o(1)
      proof (intro ballI allI impI)
        fix d' r' assume d': "d' \<in> D" "r' < NPAG" "entrada k' d' r' \<noteq> 0"
          "marco (entrada k' d' r') = marco (entrada k d r)"
        have "\<not> (d' = pd \<and> r' = q)" using d'(4) o(2) ep entrada_privada_marco [OF pd(3)] by auto
        with otra [OF d'(1-3)] d' pr show "d' = d \<and> r' = r" by (auto simp: privada_def)
      qed
    qed
  qed
qed

text \<open>
  \<open>pgfault\<close> on a page that is mapped, whatever its permissions, with two free pages and
  nothing mapped at \<open>PFTEMP\<close>: the page can be written afterwards, no other entry and no word
  of any program's memory changes, and pages that can be written stay private.
\<close>

lemma pgfault_privado:
  assumes ok: "memorias_ok D extra xs k" and c: "curenv k = Some c" "env_pgdir (envs k c) = Some pd" "pd \<in> D"
    and q: "unat (PGNUM va) < NPAG" "unat (PGNUM va) \<noteq> 2047" "entrada k pd (unat (PGNUM va)) \<noteq> 0"
    and t: "entrada k pd 2047 = 0" and xs: "2 \<le> length xs"
  shows "\<exists>k' xs'. pgfault plan va err k = Some k' \<and> memorias_ok D extra xs' k' \<and> solo_vm k k'
    \<and> (\<forall>d\<in>D. \<forall>r<NPAG. \<not> (d = pd \<and> r = unat (PGNUM va)) \<longrightarrow> entrada k' d r = entrada k d r)
    \<and> entrada k' pd (unat (PGNUM va)) AND PTE_W \<noteq> 0
    \<and> (\<forall>d\<in>D. \<forall>r<NPAG. palabra k' d r = palabra k d r)"
proof -
  let ?q = "unat (PGNUM va)"
  note M = memorias_okD [OF ok]
  have u: "entrada k pd ?q AND PTE_U = PTE_U" using M(3) c(3) q by (simp add: abiertas_def)
  obtain p ys where x: "xs = p # ys" "ys \<noteq> []" using xs by (cases xs) (auto simp: Suc_le_eq)
  have m: "\<not> (mem k pd 1 = 0 \<and> ys = [])" using x(2) by simp
  obtain k1 xs1 where k1: "pgfault plan va err k = Some k1" "vm_ok D extra xs1 k1" "espacio_ok D k1"
    "solo_vm k k1" "length ys \<le> Suc (length xs1)"
    "\<forall>d\<in>D. \<forall>r<NPAG. entrada k1 d r = (if d = pd \<and> r = ?q then entrada_privada p
        else if d = pd \<and> r = 2047 then 0 else entrada k d r)"
    "\<forall>d\<in>D. \<forall>r<NPAG. \<not> (d = pd \<and> r = 2047) \<longrightarrow> palabra k1 d r = palabra k d r"
    using pgfault_copia [OF M(1) [unfolded x(1)] M(2) c q(1,2,3) u m, of plan err] by (elim exE conjE) (rule that)
  have p20: "p < 2 ^ 20" using page_alloc_vm(3) [OF M(1) [unfolded x(1)]] estructuraD(1) [OF vm_okD(1) [OF M(1)]] by simp
  have px: "p \<in> set xs" using x(1) by simp
  note N = nueva_privada [OF ok px c(3) q(1) p20 k1(6)]
  have "memorias_ok D extra xs1 k1" using k1(2,3) N by (simp add: memorias_ok_def)
  moreover have "entrada k1 pd ?q AND PTE_W \<noteq> 0"
    using k1(6) c(3) q(1) by (simp add: entrada_privada_bits) (simp add: PTE_W_def)
  moreover have "palabra k1 d r = palabra k d r" if "d \<in> D" "r < NPAG" for d r
  proof (cases "d = pd \<and> r = 2047")
    case True
    have "entrada k1 d r = 0" using k1(6) that True q(2) by simp
    with True t show ?thesis by (simp add: palabra_def fun_eq_iff)
  next
    case False
    show ?thesis by (rule k1(7) [rule_format, OF that False])
  qed
  moreover have "entrada k1 d r = entrada k d r" if "d \<in> D" "r < NPAG" "\<not> (d = pd \<and> r = ?q)" for d r
    using k1(6) that t by auto
  ultimately show ?thesis using k1(1,4) by blast
qed

section \<open>An example program\<close>

text \<open>Environment 1 runs with page 6 mapped copy-on-write at \<open>0x803000\<close>.\<close>

definition pte_usr :: uint32 where "pte_usr = page2pa 6 OR (PTE_COW OR PTE_U OR PTE_P)"

definition k_usr :: kernel where
  "k_usr = k_dos\<lparr>
     mem := (\<lambda>f i. if f = 8 \<and> i = 957 then page2pa 8 OR PTE_P OR PTE_U
       else if f = 8 \<and> i = 2 then page2pa 5 OR PTE_P OR PTE_W OR PTE_U
       else if f = 5 \<and> i = 3 then pte_usr else if f = 6 \<and> i = 0 then 42 else 0),
     pages := (\<lambda>p. \<lparr>pp_link = (if p = 2 \<or> p = 3 then Some (p + 1) else if p = 4 then Some 7 else None),
       pp_ref = (if p = 6 then 1 else 0)\<rparr>),
     envs := (envs k_dos)(1 := (envs k_dos 1)\<lparr>env_pgdir := Some 8, env_pgfault_upcall := 0x803000\<rparr>)\<rparr>"

lemma k_usr_simps [simp]:
  "npages k_usr = 16" "page_free_list k_usr = Some 2" "curenv k_usr = Some 1" "kern_pgdir k_usr = 0"
  "pp_link (pages k_usr p) = (if p = 2 \<or> p = 3 then Some (p + 1) else if p = 4 then Some 7 else None)"
  "pp_ref (pages k_usr p) = (if p = 6 then 1 else 0)" "env_pgdir (envs k_usr i) = (if i = 1 then Some 8 else None)"
  "env_pgfault_upcall (envs k_usr i) = (if i = 1 then 0x803000 else 0)" "env_free_list k_usr = Some 3"
  by (simp_all add: k_usr_def) (simp_all add: k_dos_def env_cero_def)

lemma k_usr_mem: "mem k_usr f i = (if f = 8 \<and> i = 957 then page2pa 8 OR PTE_P OR PTE_U
       else if f = 8 \<and> i = 2 then page2pa 5 OR PTE_P OR PTE_W OR PTE_U
       else if f = 5 \<and> i = 3 then pte_usr else if f = 6 \<and> i = 0 then 42 else 0)"
  by (simp add: k_usr_def)

lemma pte_usr_props: "marco pte_usr = 6" "pte_usr \<noteq> 0" "pte_usr AND PTE_P = PTE_P" "pte_usr AND PTE_U = PTE_U" "pte_usr AND PTE_W = 0"
  by (simp_all add: pte_usr_def page2pa_def marco_unat pte_flags user_flags)

lemma k_usr_dir: "i < NPDU \<Longrightarrow> mem k_usr 8 i \<noteq> 0 \<longleftrightarrow> i = 2" "tabla k_usr 8 2 = 5"
  by (simp_all add: k_usr_mem tabla_def NPDU_def marco_entrada page2pa_def pte_flags) (simp_all add: marco_unat)

lemma k_usr_pte: "i < NPDU \<Longrightarrow> pte_en k_usr 8 i j = (if i = 2 \<and> j = 3 then pte_usr else 0)"
  using k_usr_dir by (auto simp: pte_en_def) (simp_all add: k_usr_mem)

lemma k_usr_hay: "hay_tabla {8} k_usr pd i \<longleftrightarrow> pd = 8 \<and> i = 2"
  using k_usr_dir(1) [of i] by (auto simp: hay_tabla_def NPDU_def)

lemma k_usr_entrada: "q < NPAG \<Longrightarrow> entrada k_usr 8 q = (if q = 2051 then pte_usr else 0)"
  using NPAG_indices(1) [of q] k_usr_pte [of "q div 1024" "q mod 1024"] mismo_indice [of q 2051]
  by (auto simp: entrada_def)

lemma k_usr_mapeos: "mapeos {8} k_usr f = (if f = 6 then {(8, 2, 3)} else {})"
  by (auto simp: mapeos_def k_usr_pte pte_usr_props NPDU_def split: if_splits)

lemma k_usr_ok: "memorias_ok {8} (\<lambda>_. 0) [2, 3, 4, 7] k_usr"
proof -
  have "tablas {8} k_usr = {5}" by (auto simp: tablas_def k_usr_hay k_usr_dir)
  moreover have "refs {8} (\<lambda>_. 0) k_usr f = (if f = 6 then 1 else 0)" for f by (simp add: refs_def k_usr_mapeos)
  ultimately have "conteo {8} (\<lambda>_. 0) [2, 3, 4, 7] k_usr"
    by (simp add: conteo_def k_usr_pte pte_usr_props)
  moreover have "estructura {8} [2, 3, 4, 7] k_usr"
    by (auto simp: estructura_def k_usr_hay k_usr_dir pag.libres_def)
  moreover have "espacio_ok {8} k_usr"
    using k_usr_dir(1) by (simp add: espacio_ok_def PDX_UVPT) (simp add: k_usr_mem page2pa_def pte_flags PTE_UWP_def)
  moreover have "abiertas {8} k_usr" "privadas {8} k_usr"
    by (auto simp: abiertas_def privadas_def k_usr_entrada pte_usr_props)
  ultimately show ?thesis by (simp add: memorias_ok_def vm_ok_def)
qed

text \<open>
  \<open>uvpt\<close> and \<open>uvpd\<close> are the page tables. Through the entry that maps the directory onto
  itself, \<open>uvpd[i]\<close> reads the slot \<open>i\<close> of the program's own directory, and \<open>uvpt[q]\<close> the
  entry of its page \<open>q\<close>, or faults when there is no table for it.
\<close>

theorem uvpt_autorreferencia:
  assumes "espacio_ok D k" "espacio k = Some pd" "pd \<in> D" "pd < 2 ^ 20" "q < NPAG"
  shows "uvpt k (word_of_nat q) = (if mem k pd (q div 1024) = 0 then None else Some (entrada k pd q))
    \<and> uvpd k (word_of_nat (q div 1024)) = Some (mem k pd (q div 1024))"
proof -
  have "q div 1024 < 1024" using NPAG_indices(1) [OF assms(5)] by (simp add: NPDU_def)
  then show ?thesis using uvpt_entrada [OF assms] uvpd_entrada [OF assms(1-4)] by blast
qed

lemma uvpt_autorreferencia_witness: "uvpt k_usr (word_of_nat 2051) = Some pte_usr"
proof -
  have "espacio k_usr = Some 8" by (simp add: espacio_def)
  moreover have "2051 < NPAG" by (simp add: NPAG_def)
  ultimately show ?thesis
    using uvpt_autorreferencia [OF memorias_okD(2) [OF k_usr_ok], of 8 2051] k_usr_dir(1) [of 2]
    by (simp add: k_usr_entrada NPDU_def)
qed

end
