(* ===== verification/Fork_Cow.thy ===== *)
theory Fork_Cow
  imports User_Claims
begin

text \<open>
  \<open>fork\<close>: what duplicating a page does to the entries of parent and child, the loop over
  the address space, and the calls around it.
\<close>

section \<open>The entry of a duplicated page\<close>

definition compartida :: "uint32 \<Rightarrow> bool" where
  "compartida e \<longleftrightarrow> e AND PTE_W \<noteq> 0 \<or> e AND PTE_COW \<noteq> 0"

definition perm_dup :: "uint32 \<Rightarrow> uint32" where
  "perm_dup e = (PTE_U OR PTE_P OR (if e AND (PTE_PCD OR PTE_PWT) \<noteq> 0 then PTE_PCD OR PTE_PWT else 0))
     OR (if compartida e then PTE_COW else 0)"

definition entrada_dup :: "uint32 \<Rightarrow> uint32" where
  "entrada_dup e = page2pa (marco e) OR (PTE_P OR PTE_U OR perm_dup e) OR PTE_P"

lemma es_perm_user [simp]: "es_perm PTE_COW" "es_perm PTE_PCD" "es_perm PTE_PWT"
  by (simp_all add: es_perm_def user_flags)

lemma perm_dup_ok: "es_perm (perm_dup e)" "perm_dup e AND PTE_W = 0"
proof -
  show "es_perm (perm_dup e)" by (auto simp: perm_dup_def)
  show "perm_dup e AND PTE_W = 0" by (auto simp: perm_dup_def pte_flags user_flags)
qed

lemma entrada_dup_marco: "marco (entrada_dup e) = marco e"
  using marco_lt [of e] unfolding entrada_dup_def by (intro marco_valor) (simp_all add: perm_dup_ok)

lemma entrada_dup_bits: "entrada_dup e \<noteq> 0" "entrada_dup e AND PTE_P = PTE_P" "entrada_dup e AND PTE_U = PTE_U"
  "entrada_dup e AND PTE_W = 0"
proof -
  show "entrada_dup e \<noteq> 0" "entrada_dup e AND PTE_P = PTE_P" unfolding entrada_dup_def by (rule valor_presente)+
  have v: "entrada_dup e AND m = ((PTE_P OR PTE_U OR perm_dup e) OR PTE_P) AND m" if "es_perm m" for m
    unfolding entrada_dup_def by (rule valor_and [OF that])
  show "entrada_dup e AND PTE_U = PTE_U"
    unfolding v [OF es_perm_flags(3)] by (rule bit_word_eqI) (auto simp: bit_simps)
  show "entrada_dup e AND PTE_W = 0"
    unfolding v [OF es_perm_flags(2)] using perm_dup_ok(2) [of e]
    by (simp add: bit.conj_disj_distrib2) (simp add: pte_flags)
qed

section \<open>Addresses of pages\<close>

lemma dir_pagina:
  assumes "n < NPAG"
  shows "PGNUM (push_bit 12 (word_of_nat n)) = word_of_nat n" "unat (PGNUM (push_bit 12 (word_of_nat n))) = n"
    "\<not> mala_va (push_bit 12 (word_of_nat n))"
    "unat (PDX (push_bit 12 (word_of_nat n))) = n div 1024" "unat (PTX (push_bit 12 (word_of_nat n))) = n mod 1024"
proof -
  let ?a = "push_bit 12 (word_of_nat n) :: uint32"
  have n20: "n < 2 ^ 20" using assms by (simp add: NPAG_def)
  have a: "?a = page2pa n" by (simp add: page2pa_def)
  show g: "PGNUM ?a = word_of_nat n" unfolding a by (rule PGNUM_page2pa [OF n20])
  show u: "unat (PGNUM ?a) = n" unfolding g using n20 by (simp add: unat_of_nat take_bit_nat_eq_self)
  show "unat (PDX ?a) = n div 1024" "unat (PTX ?a) = n mod 1024" by (simp_all add: PDX_de_PGNUM PTX_de_PGNUM u)
  have "?a < UTOP" unfolding pagina_bajo_UTOP u by (rule assms)
  moreover have "unat ?a = 4096 * n"
    using n20 by (simp add: unat_word_ariths push_bit_eq_mult unat_of_nat take_bit_nat_eq_self)
  then have "?a mod PGSIZE = 0" by (simp add: word_unat_eq_iff unat_mod PGSIZE_def)
  ultimately show "\<not> mala_va ?a" by (simp add: mala_va_def not_le)
qed

lemma pte_entrada: "j < 1024 \<Longrightarrow> pte_en k d i j = entrada k d (i * 1024 + j)"
  by (simp add: entrada_def)

lemma NPAG_pos: "i < NPDU \<Longrightarrow> j < 1024 \<Longrightarrow> i * 1024 + j < NPAG"
  by (simp add: NPDU_def NPAG_def)

section \<open>Counting\<close>

text \<open>If the only new entries are copies of the parent's in the child, counts at most double.\<close>

lemma refs_doble:
  assumes fin: "finite D" and cd: "cd \<in> D" and pd: "pd \<in> D"
    and new: "\<And>d q. d \<in> D \<Longrightarrow> q < NPAG \<Longrightarrow> entrada k d q \<noteq> 0 \<Longrightarrow>
      entrada k0 d q \<noteq> 0 \<and> marco (entrada k d q) = marco (entrada k0 d q)
      \<or> d = cd \<and> entrada k0 pd q \<noteq> 0 \<and> marco (entrada k d q) = marco (entrada k0 pd q)"
  shows "refs D extra k f \<le> 2 * refs D extra k0 f"
proof -
  let ?M = "mapeos D k0 f"
  have "mapeos D k f \<subseteq> ?M \<union> (\<lambda>(d, i, j). (cd, i, j)) ` ?M"
  proof
    fix x assume x: "x \<in> mapeos D k f"
    obtain d i j where dij: "x = (d, i, j)" by (cases x)
    with x have m: "d \<in> D" "i < NPDU" "j < 1024" "entrada k d (i * 1024 + j) \<noteq> 0" "marco (entrada k d (i * 1024 + j)) = f"
      by (auto simp: mapeos_def pte_entrada)
    from new [OF m(1) NPAG_pos [OF m(2,3)] m(4)] show "x \<in> ?M \<union> (\<lambda>(d, i, j). (cd, i, j)) ` ?M"
    proof
      assume "entrada k0 d (i * 1024 + j) \<noteq> 0 \<and> marco (entrada k d (i * 1024 + j)) = marco (entrada k0 d (i * 1024 + j))"
      with m dij have "x \<in> ?M" by (auto simp: mapeos_def pte_entrada)
      then show ?thesis ..
    next
      assume "d = cd \<and> entrada k0 pd (i * 1024 + j) \<noteq> 0
        \<and> marco (entrada k d (i * 1024 + j)) = marco (entrada k0 pd (i * 1024 + j))"
      with m dij pd have "(pd, i, j) \<in> ?M" "x = (\<lambda>(d, i, j). (cd, i, j)) (pd, i, j)"
        by (auto simp: mapeos_def pte_entrada)
      then show ?thesis by blast
    qed
  qed
  moreover have fm: "finite ?M" using fin by (rule finite_mapeos)
  ultimately have "card (mapeos D k f) \<le> card (?M \<union> (\<lambda>(d, i, j). (cd, i, j)) ` ?M)" by (intro card_mono) auto
  also have "\<dots> \<le> card ?M + card ((\<lambda>(d, i, j). (cd, i, j)) ` ?M)" by (rule card_Un_le)
  also have "\<dots> \<le> 2 * card ?M" using card_image_le [OF fm, of "\<lambda>(d, i, j). (cd, i, j)"] by simp
  finally show ?thesis by (simp add: refs_def)
qed

section \<open>Mapping a page of the parent\<close>

lemma faltan_libre: "finite I \<Longrightarrow> i \<in> I \<Longrightarrow> mem k cd i = 0 \<Longrightarrow> faltan I k cd + r \<le> length xs \<Longrightarrow> xs \<noteq> []"
  unfolding faltan_def by (cases xs) (auto simp: card_eq_0_iff)

lemma mapear_copia:
  assumes vm: "vm_ok D extra xs k" and es: "espacio_ok D k" and n: "n < NPAG"
    and c: "curenv k = Some c" "env_pgdir (envs k c) = Some pd" "pd \<in> D"
    and t: "envid2env tid True k = Some (0, Some th)" "env_pgdir (envs k th) = Some td" "td \<in> D"
    and e: "entrada k pd n \<noteq> 0" and perm: "es_perm perm" "perm AND PTE_W = 0"
    and cnt: "refs D extra k (marco (entrada k pd n)) + 1 < 65536"
    and I: "finite I" "cd \<in> D" "faltan I k cd + r \<le> length xs" "mem k td (n div 1024) \<noteq> 0 \<or> td = cd \<and> n div 1024 \<in> I"
  defines "a \<equiv> push_bit 12 (word_of_nat n) :: uint32"
  shows "\<exists>k' xs'. exigir (u_page_map plan 0 a tid a perm k) = Some k' \<and> vm_ok D extra xs' k' \<and> espacio_ok D k'
    \<and> solo_vm k k' \<and> faltan I k' cd + r \<le> length xs'
    \<and> (\<forall>d\<in>D. \<forall>q<NPAG. entrada k' d q = (if d = td \<and> q = n
          then page2pa (marco (entrada k pd n)) OR (PTE_P OR PTE_U OR perm) OR PTE_P else entrada k d q))
    \<and> (\<forall>d\<in>D. \<forall>q<NPAG. palabra k' d q = (if d = td \<and> q = n then palabra k pd n else palabra k d q))"
proof -
  let ?e = "entrada k pd n"
  let ?v = "page2pa (marco ?e) OR (PTE_P OR PTE_U OR perm) OR PTE_P"
  note A = dir_pagina [OF n, folded a_def]
  have ra: "ranura k pd a = ?e" unfolding entrada_ranura [symmetric] A(2) ..
  have m: "\<not> (mem k td (unat (PDX a)) = 0 \<and> xs = [])"
    unfolding A(4) using I(4) faltan_libre [OF I(1) _ _ I(3)] by blast
  have cnt': "refs D extra k (marco (ranura k pd a)) + 1 < 65536" unfolding ra by (rule cnt)
  have ok: "ranura k pd a \<noteq> 0" "perm AND PTE_W = 0 \<or> ranura k pd a AND PTE_W \<noteq> 0"
    unfolding ra using e perm(2) by simp_all
  obtain k' xs' where k': "exigir (u_page_map plan 0 a tid a perm k) = Some k'" "vm_ok D extra xs' k'"
    "cambio D td a ?v k xs k' xs'" "mem k' td (unat (PDX a)) \<noteq> 0"
    using u_map_cambio [OF vm envid_propio [OF c(1)] t(1) c(2,3) t(2,3) A(3) A(3) perm(1) cnt' ok m, where plan = plan]
    unfolding ra by (elim exE conjE) (rule that)
  have en: "entrada k' d q = (if d = td \<and> q = n then ?v else entrada k d q)" if "d \<in> D" "q < NPAG" for d q
    using entrada_cambio [OF k'(3) that] by (simp add: A(2))
  have mv: "marco ?v = marco ?e" using marco_lt [of ?e] perm(1) by (intro marco_valor) simp_all
  note F = entrada_marco [OF vm c(3) n e]
  have v0: "?v \<noteq> 0" by (rule valor_presente)
  have pa: "palabra k' d q = (if d = td \<and> q = n then palabra k pd n else palabra k d q)" if "d \<in> D" "q < NPAG" for d q
  proof (cases "d = td \<and> q = n")
    case True
    have "palabra k' td n w = Some (mem k (marco ?e) w)" for w
      using palabra_cambio_propia [OF k'(3) t(3) _ v0, of w] n F(1-3) unfolding mv A(2) by blast
    with True e show ?thesis by (auto simp: palabra_def fun_eq_iff)
  next
    case False
    then show ?thesis using palabra_cambio [OF vm k'(3) that] unfolding A(2) if_not_P [OF False] by blast
  qed
  have "espacio_ok D k'" using espacio_cambio [OF es k'(3)] NPAG_indices(1) [OF n] by (simp add: A(4))
  moreover have "faltan I k' cd + r \<le> length xs'"
    using faltan_cambio [OF k'(3) I(2,1) k'(4) _ I(3)] I(4) by (simp add: A(4))
  ultimately show ?thesis using k'(1,2) cambioD(1) [OF k'(3)] en pa by blast
qed

section \<open>The loop\<close>

definition pagina_pila :: nat where "pagina_pila = 977919"

text \<open>The entries after the first \<open>n\<close> pages, and when the loop copies a page.\<close>

definition copiada :: "kernel \<Rightarrow> nat \<Rightarrow> nat \<Rightarrow> bool" where
  "copiada k0 pd q \<longleftrightarrow> entrada k0 pd q \<noteq> 0 \<and> q \<noteq> pagina_pila"

definition tras_fork :: "kernel \<Rightarrow> nat \<Rightarrow> nat \<Rightarrow> nat \<Rightarrow> nat \<Rightarrow> nat \<Rightarrow> uint32" where
  "tras_fork k0 pd cd n d q =
     (if q < n \<and> copiada k0 pd q \<and> (d = cd \<or> d = pd \<and> compartida (entrada k0 pd q))
      then entrada_dup (entrada k0 pd q) else entrada k0 d q)"

definition fork_inv :: "nat set \<Rightarrow> (nat \<Rightarrow> nat) \<Rightarrow> kernel \<Rightarrow> nat \<Rightarrow> nat \<Rightarrow> nat \<Rightarrow> nat list \<Rightarrow> kernel \<Rightarrow> bool" where
  "fork_inv D extra k0 pd cd n xs k \<longleftrightarrow> vm_ok D extra xs k \<and> espacio_ok D k \<and> solo_vm k0 k
     \<and> (\<forall>d\<in>D. \<forall>q<NPAG. entrada k d q = tras_fork k0 pd cd n d q)
     \<and> (\<forall>d\<in>D. \<forall>q<NPAG. palabra k d q = (if d = cd \<and> q < n \<and> copiada k0 pd q then palabra k0 pd q else palabra k0 d q))"

text \<open>What holds when the loop begins: \<open>hid\<close> names a new environment with nothing mapped.\<close>

definition padre_hijo :: "nat set \<Rightarrow> (nat \<Rightarrow> nat) \<Rightarrow> kernel \<Rightarrow> uint32 \<Rightarrow> nat \<Rightarrow> nat \<Rightarrow> nat \<Rightarrow> nat \<Rightarrow> bool" where
  "padre_hijo D extra k0 hid c pd h cd \<longleftrightarrow> curenv k0 = Some c \<and> env_pgdir (envs k0 c) = Some pd
     \<and> envid2env hid True k0 = Some (0, Some h) \<and> env_pgdir (envs k0 h) = Some cd
     \<and> pd \<in> D \<and> cd \<in> D \<and> pd \<noteq> cd \<and> abiertas D k0 \<and> (\<forall>q<NPAG. entrada k0 cd q = 0)
     \<and> (\<forall>f. refs D extra k0 f < 32767)"

lemma padre_hijoD:
  assumes "padre_hijo D extra k0 hid c pd h cd"
  shows "curenv k0 = Some c" "env_pgdir (envs k0 c) = Some pd" "envid2env hid True k0 = Some (0, Some h)"
    "env_pgdir (envs k0 h) = Some cd" "pd \<in> D" "cd \<in> D" "pd \<noteq> cd" "abiertas D k0"
    "\<And>q. q < NPAG \<Longrightarrow> entrada k0 cd q = 0" "\<And>f. refs D extra k0 f < 32767"
  using assms by (simp_all add: padre_hijo_def)

lemma fork_invD:
  assumes "fork_inv D extra k0 pd cd n xs k"
  shows "vm_ok D extra xs k" "espacio_ok D k" "solo_vm k0 k"
    "\<And>d q. d \<in> D \<Longrightarrow> q < NPAG \<Longrightarrow> entrada k d q = tras_fork k0 pd cd n d q"
    "\<And>d q. d \<in> D \<Longrightarrow> q < NPAG \<Longrightarrow> palabra k d q = (if d = cd \<and> q < n \<and> copiada k0 pd q then palabra k0 pd q else palabra k0 d q)"
  using assms unfolding fork_inv_def by blast+

lemma envid2env_solo: "solo_vm k k' \<Longrightarrow> envid2env hid chk k' = envid2env hid chk k"
  unfolding envid2env_def by (simp add: solo_vmD cong: if_cong option.case_cong)

lemma tras_fork_suc:
  "tras_fork k0 pd cd (Suc n) d q =
     (if q = n \<and> copiada k0 pd n \<and> (d = cd \<or> d = pd \<and> compartida (entrada k0 pd n))
      then entrada_dup (entrada k0 pd n) else tras_fork k0 pd cd n d q)"
  by (auto simp: tras_fork_def less_Suc_eq)

text \<open>Nothing to do: the page is not copied.\<close>

lemma fork_inv_salta:
  assumes "fork_inv D extra k0 pd cd n xs k" "\<not> copiada k0 pd n"
  shows "fork_inv D extra k0 pd cd (Suc n) xs k"
proof -
  note F = fork_invD [OF assms(1)]
  have "q < Suc n \<and> copiada k0 pd q \<longleftrightarrow> q < n \<and> copiada k0 pd q" for q
    using assms(2) by (auto simp: less_Suc_eq)
  then show ?thesis
    unfolding fork_inv_def using F assms(2) by (simp add: tras_fork_suc)
qed

lemma fork_refs:
  assumes ph: "padre_hijo D extra k0 hid c pd h cd" and vm: "vm_ok D extra xs k"
    and en: "\<And>d q. d \<in> D \<Longrightarrow> q < NPAG \<Longrightarrow> entrada k d q = tras_fork k0 pd cd n d q
        \<or> d = cd \<and> entrada k d q = entrada_dup (entrada k0 pd q) \<and> entrada k0 pd q \<noteq> 0"
  shows "refs D extra k f + 1 < 65536"
proof -
  note P = padre_hijoD [OF ph]
  have "refs D extra k f \<le> 2 * refs D extra k0 f"
  proof (rule refs_doble [OF estructuraD(2) [OF vm_okD(1) [OF vm]] P(6,5)])
    fix d q assume d: "d \<in> D" "q < NPAG" "entrada k d q \<noteq> 0"
    from en [OF d(1,2)] d(3) show "entrada k0 d q \<noteq> 0 \<and> marco (entrada k d q) = marco (entrada k0 d q)
      \<or> d = cd \<and> entrada k0 pd q \<noteq> 0 \<and> marco (entrada k d q) = marco (entrada k0 pd q)"
      by (auto simp: tras_fork_def copiada_def entrada_dup_marco split: if_splits)
  qed
  with P(10) [of f] show ?thesis by simp
qed

text \<open>The entry of a page not yet reached, as \<open>uvpd\<close> and \<open>uvpt\<close> show it.\<close>

lemma fork_lee:
  assumes ph: "padre_hijo D extra k0 hid c pd h cd" and iv: "fork_inv D extra k0 pd cd n xs k" and n: "n < NPAG"
  shows "tabla_cerrada k (word_of_nat n) = Some (mem k pd (n div 1024) = 0)"
    "mem k pd (n div 1024) \<noteq> 0 \<Longrightarrow> uvpt k (word_of_nat n) = Some (entrada k0 pd n)"
    "entrada k pd n = entrada k0 pd n"
    "mem k pd (n div 1024) = 0 \<Longrightarrow> entrada k0 pd n = 0"
    "entrada k0 pd n AND PTE_P = 0 \<or> entrada k0 pd n AND PTE_U = 0 \<longleftrightarrow> entrada k0 pd n = 0"
proof -
  note P = padre_hijoD [OF ph] and F = fork_invD [OF iv]
  note S = solo_vmD [OF F(3)]
  have es: "espacio k = Some pd" using P(1,2) by (simp add: espacio_def S)
  have pd: "pd < 2 ^ 20" using estructuraD(1,6) [OF vm_okD(1) [OF F(1)]] P(5) by fastforce
  show en: "entrada k pd n = entrada k0 pd n" using F(4) [OF P(5) n] by (simp add: tras_fork_def)
  have n20: "n < 2 ^ 20" using n by (simp add: NPAG_def)
  have dv: "drop_bit 10 (word_of_nat n :: uint32) = word_of_nat (n div 1024)"
    using n20 by (simp add: word_unat_eq_iff unat_drop unat_of_nat take_bit_nat_eq_self)
  have i: "n div 1024 < NPDU" by (rule NPAG_indices(1) [OF n])
  then have i': "n div 1024 < 1024" by (simp add: NPDU_def)
  have pu: "mem k pd (n div 1024) \<noteq> 0 \<Longrightarrow> mem k pd (n div 1024) AND PTE_P \<noteq> 0 \<and> mem k pd (n div 1024) AND PTE_U \<noteq> 0"
  proof -
    assume "mem k pd (n div 1024) \<noteq> 0"
    then have "mem k pd (n div 1024) AND PTE_UWP = PTE_UWP" using F(2) P(5) i by (simp add: espacio_ok_def)
    from UWP_PU [OF this] have b: "(mem k pd (n div 1024) AND (PTE_P OR PTE_U)) AND m = (PTE_P OR PTE_U) AND m" for m
      by simp
    have "(PTE_P OR PTE_U) AND PTE_P = PTE_P" "(PTE_P OR PTE_U) AND PTE_U = PTE_U" by (simp_all add: pte_flags)
    with b [of PTE_P] b [of PTE_U] show ?thesis by (auto simp: and.assoc pte_flags)
  qed
  show "tabla_cerrada k (word_of_nat n) = Some (mem k pd (n div 1024) = 0)"
    unfolding tabla_cerrada_def dv uvpd_entrada [OF F(2) es P(5) pd i'] using pu by auto
  show "mem k pd (n div 1024) \<noteq> 0 \<Longrightarrow> uvpt k (word_of_nat n) = Some (entrada k0 pd n)"
    using uvpt_entrada [OF F(2) es P(5) pd n] by (simp add: en)
  show "mem k pd (n div 1024) = 0 \<Longrightarrow> entrada k0 pd n = 0"
    unfolding en [symmetric] by (simp add: entrada_def pte_en_def)
  have "entrada k pd n \<noteq> 0 \<Longrightarrow> entrada k pd n AND PTE_P = PTE_P"
    using conteoD(2) [OF vm_okD(2) [OF F(1)] P(5) i NPAG_indices(2)] by (simp add: entrada_def)
  moreover have "entrada k0 pd n \<noteq> 0 \<Longrightarrow> entrada k0 pd n AND PTE_U = PTE_U"
    using P(8,5) n by (simp add: abiertas_def)
  ultimately show "entrada k0 pd n AND PTE_P = 0 \<or> entrada k0 pd n AND PTE_U = 0 \<longleftrightarrow> entrada k0 pd n = 0"
    unfolding en by (cases "entrada k0 pd n = 0") (simp_all add: pte_flags)
qed

lemma perm_pasada:
  "(if compartida e then (PTE_U OR PTE_P OR (if e AND (PTE_PCD OR PTE_PWT) \<noteq> 0 then PTE_PCD OR PTE_PWT else 0)) OR PTE_COW
    else PTE_U OR PTE_P OR (if e AND (PTE_PCD OR PTE_PWT) \<noteq> 0 then PTE_PCD OR PTE_PWT else 0)) = perm_dup e"
  by (simp add: perm_dup_def)

text \<open>\<open>duppage\<close> as one or two mappings.\<close>

lemma duppage_forma:
  assumes "uvpt k pn = Some e" "e AND PTE_P \<noteq> 0" "e AND PTE_U \<noteq> 0"
  defines "a \<equiv> push_bit 12 pn :: uint32"
  shows "duppage plan hid pn k =
    (if compartida e then do {
        k1 \<leftarrow> exigir (u_page_map plan 0 a hid a (perm_dup e) k);
        exigir (u_page_map plan 0 a 0 a (perm_dup e) k1) }
     else exigir (u_page_map plan 0 a hid a (perm_dup e) k))"
  using assms perm_pasada [of e] unfolding duppage_def Let_def a_def
  by (auto simp: compartida_def)

lemma fork_pagina_copia:
  assumes ph: "padre_hijo D extra k0 hid c pd h cd" and iv: "fork_inv D extra k0 pd cd n xs k" and n: "n < NPAG"
    and cp: "copiada k0 pd n" and I: "finite I" "n div 1024 \<in> I" "faltan I k cd + r \<le> length xs"
  shows "\<exists>k' xs'. duppage plan hid (word_of_nat n) k = Some k' \<and> fork_inv D extra k0 pd cd (Suc n) xs' k'
    \<and> faltan I k' cd + r \<le> length xs'"
proof -
  let ?e = "entrada k0 pd n" and ?a = "push_bit 12 (word_of_nat n) :: uint32"
  note P = padre_hijoD [OF ph] and F = fork_invD [OF iv] and L = fork_lee [OF ph iv n]
  note S = solo_vmD [OF F(3)]
  have e0: "?e \<noteq> 0" using cp by (simp add: copiada_def)
  have md: "mem k pd (n div 1024) \<noteq> 0" using L(4) e0 by blast
  have pu: "?e AND PTE_P \<noteq> 0" "?e AND PTE_U \<noteq> 0" using L(5) e0 by auto
  note D = duppage_forma [OF L(2) [OF md] pu, of plan hid]
  have c: "curenv k = Some c" "env_pgdir (envs k c) = Some pd" using P(1,2) by (simp_all add: S)
  have t: "envid2env hid True k = Some (0, Some h)" "env_pgdir (envs k h) = Some cd"
    using P(3,4) envid2env_solo [OF F(3)] by (simp_all add: S)
  have ek: "entrada k pd n \<noteq> 0" using e0 L(3) by simp
  have cnt: "refs D extra k (marco (entrada k pd n)) + 1 < 65536"
    using F(4) by (intro fork_refs [OF ph F(1)]) blast
  obtain k1 xs1 where k1: "exigir (u_page_map plan 0 ?a hid ?a (perm_dup ?e) k) = Some k1" "vm_ok D extra xs1 k1"
    "espacio_ok D k1" "solo_vm k k1" "faltan I k1 cd + r \<le> length xs1"
    "\<forall>d\<in>D. \<forall>q<NPAG. entrada k1 d q = (if d = cd \<and> q = n then entrada_dup ?e else entrada k d q)"
    "\<forall>d\<in>D. \<forall>q<NPAG. palabra k1 d q = (if d = cd \<and> q = n then palabra k pd n else palabra k d q)"
    using mapear_copia [OF F(1,2) n c P(5) t P(6) ek perm_dup_ok [of ?e] cnt I(1) P(6) I(3)
      disjI2 [OF conjI [OF refl I(2)]], of plan]
    unfolding L(3) entrada_dup_def [symmetric] by (elim exE conjE) (rule that)
  have pal: "palabra k pd n = palabra k0 pd n" using F(5) [OF P(5) n] P(7) by simp
  have en1: "entrada k1 d q = (if d = cd \<and> q = n then entrada_dup ?e else tras_fork k0 pd cd n d q)" if "d \<in> D" "q < NPAG" for d q
    using k1(6) F(4) that by simp
  show ?thesis
  proof (cases "compartida ?e")
    case False
    have "fork_inv D extra k0 pd cd (Suc n) xs1 k1"
      unfolding fork_inv_def
    proof (intro conjI)
      show "\<forall>d\<in>D. \<forall>q<NPAG. entrada k1 d q = tras_fork k0 pd cd (Suc n) d q"
        using en1 False cp by (auto simp: tras_fork_suc)
      show "\<forall>d\<in>D. \<forall>q<NPAG. palabra k1 d q =
          (if d = cd \<and> q < Suc n \<and> copiada k0 pd q then palabra k0 pd q else palabra k0 d q)"
        using k1(7) F(5) pal cp by (auto simp: less_Suc_eq)
    qed (use k1 solo_vm_trans [OF F(3) k1(4)] in simp_all)
    moreover have "duppage plan hid (word_of_nat n) k = Some k1" using D False k1(1) by simp
    ultimately show ?thesis using k1(5) by blast
  next
    case True
    note S1 = solo_vmD [OF k1(4)]
    have c1: "curenv k1 = Some c" "env_pgdir (envs k1 c) = Some pd" using c by (simp_all add: S1)
    have e1: "entrada k1 pd n = ?e" using k1(6) P(5,7) n L(3) by simp
    have ek1: "entrada k1 pd n \<noteq> 0" using e0 e1 by simp
    have cnt1: "refs D extra k1 (marco (entrada k1 pd n)) + 1 < 65536"
      using en1 e0 by (intro fork_refs [OF ph k1(2)]) auto
    have md1: "mem k1 pd (n div 1024) \<noteq> 0" using ek1 by (auto simp: entrada_def pte_en_def split: if_splits)
    obtain k2 xs2 where k2: "exigir (u_page_map plan 0 ?a 0 ?a (perm_dup ?e) k1) = Some k2" "vm_ok D extra xs2 k2"
      "espacio_ok D k2" "solo_vm k1 k2" "faltan I k2 cd + r \<le> length xs2"
      "\<forall>d\<in>D. \<forall>q<NPAG. entrada k2 d q = (if d = pd \<and> q = n then entrada_dup ?e else entrada k1 d q)"
      "\<forall>d\<in>D. \<forall>q<NPAG. palabra k2 d q = (if d = pd \<and> q = n then palabra k1 pd n else palabra k1 d q)"
      using mapear_copia [OF k1(2,3) n c1 P(5) envid_propio [OF c1(1)] c1(2) P(5) ek1 perm_dup_ok [of ?e] cnt1 I(1) P(6) k1(5)
        disjI1 [OF md1], of plan]
      unfolding e1 entrada_dup_def [symmetric] by (elim exE conjE) (rule that)
    have "fork_inv D extra k0 pd cd (Suc n) xs2 k2"
      unfolding fork_inv_def
    proof (intro conjI)
      show "solo_vm k0 k2" by (rule solo_vm_trans [OF F(3) solo_vm_trans [OF k1(4) k2(4)]])
      show "\<forall>d\<in>D. \<forall>q<NPAG. entrada k2 d q = tras_fork k0 pd cd (Suc n) d q"
        using k2(6) en1 True cp by (auto simp: tras_fork_suc)
      show "\<forall>d\<in>D. \<forall>q<NPAG. palabra k2 d q =
          (if d = cd \<and> q < Suc n \<and> copiada k0 pd q then palabra k0 pd q else palabra k0 d q)"
        using k2(7) k1(7) F(5) P(5,7) n pal cp by (auto simp: less_Suc_eq)
    qed (use k2 in simp_all)
    moreover have "duppage plan hid (word_of_nat n) k = Some k2" using D True k1(1) k2(1) by simp
    ultimately show ?thesis using k2(5) by blast
  qed
qed

text \<open>One iteration, and the whole loop.\<close>

definition tablas_de :: "kernel \<Rightarrow> nat \<Rightarrow> nat set" where
  "tablas_de k pd = insert 954 {i. i < NPDU \<and> mem k pd i \<noteq> 0}"

lemma finite_tablas_de [simp]: "finite (tablas_de k pd)"
  by (simp add: tablas_de_def)

lemma pila_numero: "n < NPAG \<Longrightarrow> (word_of_nat n :: uint32) = drop_bit 12 UXSTACKTOP - 1 \<longleftrightarrow> n = pagina_pila"
proof -
  assume n: "n < NPAG"
  have "unat (drop_bit 12 UXSTACKTOP) = 977920" by (simp add: unat_drop UXSTACKTOP_def UTOP_valor)
  then have d: "drop_bit 12 UXSTACKTOP = 977920" by (simp add: word_unat_eq_iff)
  have "unat (word_of_nat n :: uint32) = n" using n by (simp add: NPAG_def unat_de_nat32)
  then show ?thesis unfolding d by (simp add: word_unat_eq_iff pagina_pila_def)
qed

lemma fork_pagina_inv:
  assumes ph: "padre_hijo D extra k0 hid c pd h cd" and iv: "fork_inv D extra k0 pd cd n xs k" and n: "n < NPAG"
    and r: "faltan (tablas_de k0 pd) k cd + r \<le> length xs"
  shows "\<exists>k' xs'. fork_pagina plan hid (word_of_nat n) k = Some k' \<and> fork_inv D extra k0 pd cd (Suc n) xs' k'
    \<and> faltan (tablas_de k0 pd) k' cd + r \<le> length xs'"
proof (cases "copiada k0 pd n")
  case False
  have "fork_pagina plan hid (word_of_nat n) k = Some k"
  proof (cases "n = pagina_pila")
    case True
    with n show ?thesis by (simp add: fork_pagina_def pila_numero)
  next
    case np: False
    with False have e0: "entrada k0 pd n = 0" by (simp add: copiada_def)
    show ?thesis
    proof (cases "mem k pd (n div 1024) = 0")
      case True
      with fork_lee(1) [OF ph iv n] np n show ?thesis by (simp add: fork_pagina_def pila_numero)
    next
      case md: False
      with fork_lee(1,2) [OF ph iv n] e0 np n show ?thesis by (simp add: fork_pagina_def pila_numero)
    qed
  qed
  with fork_inv_salta [OF iv False] r show ?thesis by blast
next
  case True
  then have e0: "entrada k0 pd n \<noteq> 0" "n \<noteq> pagina_pila" by (simp_all add: copiada_def)
  have md: "mem k pd (n div 1024) \<noteq> 0" using fork_lee(4) [OF ph iv n] e0(1) by blast
  have i: "n div 1024 \<in> tablas_de k0 pd"
    using e0(1) NPAG_indices(1) [OF n] by (auto simp: tablas_de_def entrada_def pte_en_def split: if_splits)
  have "fork_pagina plan hid (word_of_nat n) k = duppage plan hid (word_of_nat n) k"
    using fork_lee(1,2,5) [OF ph iv n] md e0 n by (simp add: fork_pagina_def pila_numero)
  with fork_pagina_copia [OF ph iv n True finite_tablas_de i r] show ?thesis by simp
qed

lemma fork_paginas_inv:
  assumes ph: "padre_hijo D extra k0 hid c pd h cd"
  shows "fork_inv D extra k0 pd cd n xs k \<Longrightarrow> n + m = NPAG \<Longrightarrow> faltan (tablas_de k0 pd) k cd + r \<le> length xs
    \<Longrightarrow> \<exists>k' xs'. fork_paginas plan hid [n..<NPAG] k = Some k' \<and> fork_inv D extra k0 pd cd NPAG xs' k'
      \<and> faltan (tablas_de k0 pd) k' cd + r \<le> length xs'"
proof (induction m arbitrary: n xs k)
  case 0
  then show ?case by auto
next
  case (Suc m)
  then have n: "n < NPAG" by simp
  from fork_pagina_inv [OF ph Suc.prems(1) n Suc.prems(3), of plan] obtain k1 xs1 where
    k1: "fork_pagina plan hid (word_of_nat n) k = Some k1" "fork_inv D extra k0 pd cd (Suc n) xs1 k1"
    "faltan (tablas_de k0 pd) k1 cd + r \<le> length xs1" by blast
  have u: "[n..<NPAG] = n # [Suc n..<NPAG]" using n by (rule upt_conv_Cons)
  from Suc.IH [OF k1(2) _ k1(3)] Suc.prems(2) k1(1) show ?case unfolding u by simp
qed

lemma fork_inv_inicio:
  assumes "vm_ok D extra xs k0" "espacio_ok D k0"
  shows "fork_inv D extra k0 pd cd 0 xs k0"
  using assms by (simp add: fork_inv_def tras_fork_def)

section \<open>After the loop\<close>

lemma entrada_final:
  assumes ph: "padre_hijo D extra k0 hid c pd h cd" and pr: "privadas D k0" and p: "p < 2 ^ 20"
    and nueva: "\<And>d q. d \<in> D \<Longrightarrow> q < NPAG \<Longrightarrow> entrada k0 d q \<noteq> 0 \<Longrightarrow> marco (entrada k0 d q) \<noteq> p"
    and en: "\<And>d q. d \<in> D \<Longrightarrow> q < NPAG \<Longrightarrow> entrada k' d q =
      (if d = cd \<and> q = pagina_pila then entrada_privada p else tras_fork k0 pd cd NPAG d q)"
  shows "abiertas D k'" "privadas D k'"
proof -
  note P = padre_hijoD [OF ph]
  text \<open>Every entry comes from one of the parent or of the same space, or is the new one.\<close>
  have caso: "d = cd \<and> q = pagina_pila \<and> entrada k' d q = entrada_privada p
      \<or> d = cd \<and> q \<noteq> pagina_pila \<and> entrada k0 pd q \<noteq> 0 \<and> entrada k' d q = entrada_dup (entrada k0 pd q)
      \<or> d = pd \<and> q \<noteq> pagina_pila \<and> entrada k0 pd q \<noteq> 0 \<and> entrada k' d q = entrada_dup (entrada k0 pd q)
      \<or> d \<noteq> cd \<and> entrada k0 d q \<noteq> 0 \<and> entrada k' d q = entrada k0 d q
        \<and> (d = pd \<longrightarrow> q = pagina_pila \<or> \<not> compartida (entrada k0 pd q))"
    if "d \<in> D" "q < NPAG" "entrada k' d q \<noteq> 0" for d q
    using en [OF that(1,2)] that P(7,9) by (auto simp: tras_fork_def copiada_def split: if_splits)
  show "abiertas D k'"
    unfolding abiertas_def
  proof (intro ballI allI impI)
    fix d q assume d: "d \<in> D" "q < NPAG" "entrada k' d q \<noteq> 0"
    from caso [OF this] P(8) d(1,2) show "entrada k' d q AND PTE_U = PTE_U"
      by (auto simp: abiertas_def entrada_privada_bits entrada_dup_bits)
  qed
  text \<open>Where the page of an entry was mapped before.\<close>
  have origen: "marco (entrada k' d q) = p \<and> d = cd \<and> q = pagina_pila
      \<or> marco (entrada k' d q) \<noteq> p \<and> (d = cd \<and> q \<noteq> pagina_pila \<and> entrada k0 pd q \<noteq> 0 \<and> marco (entrada k' d q) = marco (entrada k0 pd q)
        \<or> d \<noteq> cd \<and> entrada k0 d q \<noteq> 0 \<and> marco (entrada k' d q) = marco (entrada k0 d q))"
    if "d \<in> D" "q < NPAG" "entrada k' d q \<noteq> 0" for d q
    using caso [OF that] nueva [OF that(1,2)] nueva [OF P(5) that(2)] P(7) p
    by (auto simp: entrada_privada_marco entrada_dup_marco)
  show "privadas D k'"
    unfolding privadas_def privada_def
  proof (intro ballI allI impI)
    fix d q d' q'
    assume d: "d \<in> D" "q < NPAG" "entrada k' d q AND PTE_W \<noteq> 0"
      and d': "d' \<in> D" "q' < NPAG" "entrada k' d' q' \<noteq> 0" "marco (entrada k' d' q') = marco (entrada k' d q)"
    have n: "entrada k' d q \<noteq> 0" using d(3) by auto
    show "d' = d \<and> q' = q"
    proof (cases "marco (entrada k' d q) = p")
      case True
      with origen [OF d(1,2) n] origen [OF d'(1-3)] d'(4) show ?thesis by auto
    next
      case False
      from caso [OF d(1,2) n] d(3) False have o: "d \<noteq> cd" "entrada k0 d q \<noteq> 0" "entrada k' d q = entrada k0 d q"
        "d = pd \<longrightarrow> q = pagina_pila"
        by (auto simp: entrada_dup_bits entrada_privada_marco [OF p] compartida_def)
      have pv: "privada D k0 d q" using pr d o(3) by (simp add: privadas_def)
      from origen [OF d'(1-3)] False d'(4) consider
        "q' \<noteq> pagina_pila" "entrada k0 pd q' \<noteq> 0" "marco (entrada k0 pd q') = marco (entrada k0 d q)"
        | "entrada k0 d' q' \<noteq> 0" "marco (entrada k0 d' q') = marco (entrada k0 d q)"
        using o(3) by auto
      then show ?thesis
      proof cases
        case 1
        with pv P(5) d'(2) have "pd = d \<and> q' = q" by (simp add: privada_def)
        with 1(1) o(4) show ?thesis by simp
      next
        case 2
        with pv d'(1,2) show ?thesis by (simp add: privada_def)
      qed
    qed
  qed
qed

text \<open>Changing an environment's own fields does not touch memory.\<close>

lemma con_env_memoria:
  "vm_ok D extra xs (con_env e g k) = vm_ok D extra xs k" "espacio_ok D (con_env e g k) = espacio_ok D k"
  "entrada (con_env e g k) = entrada k" "palabra (con_env e g k) = palabra k"
proof -
  show "vm_ok D extra xs (con_env e g k) = vm_ok D extra xs k" by (rule vm_ok_cong) simp_all
  show "espacio_ok D (con_env e g k) = espacio_ok D k" by (simp add: espacio_ok_def)
  show en: "entrada (con_env e g k) = entrada k" by (simp add: entrada_def pte_en_def tabla_def fun_eq_iff)
  show "palabra (con_env e g k) = palabra k" by (simp add: palabra_def en fun_eq_iff)
qed

text \<open>The page that holds the upcall is mapped, and so is the next one when it reaches it.\<close>

definition funcion_mapeada :: "kernel \<Rightarrow> nat \<Rightarrow> uint32 \<Rightarrow> bool" where
  "funcion_mapeada k pd func \<longleftrightarrow> (unat func + 8191) div 4096 \<le> pagina_pila
     \<and> (\<forall>q. unat func div 4096 \<le> q \<longrightarrow> q < (unat func + 8191) div 4096 \<longrightarrow> entrada k pd q \<noteq> 0)"

lemma upcall_hijo:
  assumes vm: "vm_ok D extra xs k" and t: "envid2env hid True k = Some (0, Some h)" "env_pgdir (envs k h) = Some cd" "cd \<in> D"
    and f: "(unat func + 8191) div 4096 \<le> pagina_pila"
    and ab: "\<And>q. unat func div 4096 \<le> q \<Longrightarrow> q < (unat func + 8191) div 4096 \<Longrightarrow>
      entrada k cd q \<noteq> 0 \<and> entrada k cd q AND PTE_U = PTE_U"
  shows "exigir (u_env_set_pgfault_upcall plan hid func k) = Some (con_env h (\<lambda>r. r\<lparr>env_pgfault_upcall := func\<rparr>) k)"
proof -
  have M: "(unat func + 8191) div 4096 \<le> 977919" using f by (simp add: pagina_pila_def)
  then have u: "unat func + 8191 < 4096 * 977920" by (simp add: less_eq_div_iff_mult_less_eq div_less_iff_less_mult flip: less_Suc_eq_le)
  have fit: "unat func + unat PGSIZE + 4095 < 4294967296" using u by (simp add: PGSIZE_def)
  have S: "unat func + unat PGSIZE + 4095 = unat func + 8191" by (simp add: PGSIZE_def)
  have ac: "accesible k cd ((PTE_P OR PTE_U) OR PTE_U) (pagina_va q)"
    if q: "unat func div 4096 \<le> q" "q < (unat func + 8191) div 4096" for q
  proof -
    have qN: "q < 977920" using q(2) M by simp
    then have g: "unat (PGNUM (pagina_va q)) = q" by (simp add: unat_PGNUM unat_pagina_va)
    have e: "entrada k cd q \<noteq> 0" "entrada k cd q AND PTE_U = PTE_U" using ab [OF q] by simp_all
    have "entrada k cd q AND PTE_P = PTE_P"
      using conteoD(2) [OF vm_okD(2) [OF vm] t(3) _ NPAG_indices(2)] NPAG_indices(1) [of q] qN e(1)
      by (simp add: entrada_def NPAG_def)
    then have "entrada k cd q AND (PTE_P OR PTE_U) = PTE_P OR PTE_U" using e(2) by (rule bits_PU)
    moreover have "((PTE_P OR PTE_U) OR PTE_U) OR PTE_P = PTE_P OR PTE_U" by (simp add: pte_flags)
    ultimately show ?thesis unfolding accesible_def entrada_ranura [symmetric] g by simp
  qed
  have "find (\<lambda>q. \<not> accesible k cd ((PTE_P OR PTE_U) OR PTE_U) (pagina_va q))
      [unat func div 4096..<(unat func + 8191) div 4096] = None"
    using ac by (auto simp: find_None_iff)
  then have "user_mem_check h func PGSIZE ((PTE_P OR PTE_U) OR PTE_U) k = Some (0, k)"
    unfolding user_mem_check_forma [OF vm t(2,3)] pagina_fin_recta [OF fit] S using M by simp
  then have "user_mem_assert plan h func PGSIZE (PTE_P OR PTE_U) k = Ret () k" by (simp add: user_mem_assert_def)
  then show ?thesis
    by (simp add: exigir_def u_env_set_pgfault_upcall_def int_syscall_def syscall_def
        sys_env_set_pgfault_upcall_def con_envid_ok [OF t(1)])
qed

lemma status_hijo:
  assumes "envid2env hid True k = Some (0, Some h)"
  shows "exigir (u_env_set_status plan hid 2 k) = Some (con_env h (\<lambda>r. r\<lparr>env_status := ENV_RUNNABLE\<rparr>) k)"
  using assms by (simp add: exigir_def u_env_set_status_def int_syscall_def syscall_def sys_env_set_status_def con_envid_ok)

lemma pila_valor: "\<not> mala_va (UXSTACKTOP - PGSIZE)" "unat (PGNUM (UXSTACKTOP - PGSIZE)) = pagina_pila"
  "unat (PDX (UXSTACKTOP - PGSIZE)) = 954"
  by (simp_all add: memlayout unat_PGNUM unat_PDX mala_va_def pagina_pila_def)

lemma pila_hijo:
  assumes ph: "padre_hijo D extra k0 hid c pd h cd" and iv: "fork_inv D extra k0 pd cd NPAG xs k"
    and r: "faltan (tablas_de k0 pd) k cd + 1 \<le> length xs"
  shows "\<exists>p k' xs'. exigir (u_page_alloc plan hid (UXSTACKTOP - PGSIZE) (PTE_U OR PTE_P OR PTE_W) k) = Some k'
    \<and> vm_ok D extra xs' k' \<and> espacio_ok D k' \<and> solo_vm k0 k' \<and> p \<in> set xs \<and> p < 2 ^ 20
    \<and> (\<forall>d\<in>D. \<forall>q<NPAG. entrada k' d q =
          (if d = cd \<and> q = pagina_pila then entrada_privada p else tras_fork k0 pd cd NPAG d q))
    \<and> (\<forall>d\<in>D. \<forall>q<NPAG. palabra k' d q =
          (if d = cd then (if q = pagina_pila then (\<lambda>_. Some 0) else palabra k0 pd q) else palabra k0 d q))"
proof -
  let ?x = "UXSTACKTOP - PGSIZE" and ?perm = "PTE_U OR PTE_P OR PTE_W"
  note P = padre_hijoD [OF ph] and F = fork_invD [OF iv] and S = solo_vmD [OF fork_invD(3) [OF iv]]
  obtain p ys where xs: "xs = p # ys" using r by (cases xs) auto
  note vm = F(1) [unfolded xs]
  have p20: "p < 2 ^ 20" using page_alloc_vm(3) [OF vm] estructuraD(1) [OF vm_okD(1) [OF vm]] by simp
  have t: "envid2env hid True k = Some (0, Some h)" "env_pgdir (envs k h) = Some cd"
    using P(3,4) envid2env_solo [OF F(3)] by (simp_all add: S)
  have v: "page2pa p OR (?perm OR PTE_U OR PTE_P) OR PTE_P = entrada_privada p"
    unfolding entrada_privada_def perm_privada_def by (simp add: or.commute or.left_commute)
  have pm: "?perm AND NOT PTE_SYSCALL = 0" by (simp add: pte_flags)
  have m: "\<not> (mem k cd (unat (PDX ?x)) = 0 \<and> ys = [])"
  proof
    assume a: "mem k cd (unat (PDX ?x)) = 0 \<and> ys = []"
    have "954 \<in> {i\<in>tablas_de k0 pd. mem k cd i = 0}" using a by (simp add: pila_valor tablas_de_def)
    then have "faltan (tablas_de k0 pd) k cd \<noteq> 0"
      unfolding faltan_def by (subst card_0_eq) auto
    with r a xs show False by simp
  qed
  obtain k' xs' where k': "exigir (u_page_alloc plan hid ?x ?perm k) = Some k'" "vm_ok D extra xs' k'"
    "cambio D cd ?x (entrada_privada p) k (p # ys) k' (p # xs')" "mem k' cd (unat (PDX ?x)) \<noteq> 0" "mem k' p = (\<lambda>_. 0)"
    using u_alloc_cambio [OF vm t P(6) pila_valor(1) pm m, where plan = plan] unfolding v
    by (elim exE conjE) (rule that)
  have en: "entrada k' d q = (if d = cd \<and> q = pagina_pila then entrada_privada p else tras_fork k0 pd cd NPAG d q)"
    if "d \<in> D" "q < NPAG" for d q
    unfolding entrada_cambio [OF k'(3) that] pila_valor F(4) [OF that] ..
  have N: "pagina_pila < NPAG" by (simp add: pagina_pila_def NPAG_def)
  have pa: "palabra k' d q = (if d = cd then (if q = pagina_pila then (\<lambda>_. Some 0) else palabra k0 pd q) else palabra k0 d q)"
    if d: "d \<in> D" "q < NPAG" for d q
  proof (cases "d = cd \<and> q = pagina_pila")
    case True
    then show ?thesis
      using en [OF d] k'(5) by (simp add: palabra_def fun_eq_iff entrada_privada_bits entrada_privada_marco [OF p20])
  next
    case False
    have vac: "palabra k0 cd q = (\<lambda>_. None)" using P(9) [OF d(2)] by (simp add: palabra_def fun_eq_iff)
    have vac': "\<not> copiada k0 pd q \<Longrightarrow> q \<noteq> pagina_pila \<Longrightarrow> palabra k0 pd q = (\<lambda>_. None)"
      by (simp add: copiada_def palabra_def fun_eq_iff)
    have "palabra k' d q = palabra k d q"
      by (rule palabra_cambio [OF vm k'(3) d]) (use False in \<open>simp add: pila_valor\<close>)
    with F(5) [OF d] False vac vac' d(2) show ?thesis by auto
  qed
  have "espacio_ok D k'" using espacio_cambio [OF F(2) k'(3)] by (simp add: pila_valor NPDU_def)
  moreover have "solo_vm k0 k'" by (rule solo_vm_trans [OF F(3) cambioD(1) [OF k'(3)]])
  ultimately show ?thesis using k'(1,2) xs p20 en pa by (intro exI [of _ p] exI [of _ k'] exI [of _ xs']) auto
qed

end
