(* ===== verification/Trap.thy ===== *)
theory Trap
  imports Syscall
begin

text \<open>
  Traps: \<open>TP2-sched/kern/trap.c\<close>. A trap enters with the trap frame that the hardware and
  \<open>trapentry.S\<close> pushed, and does not return: it ends in user mode, with the CPU halted, in
  the kernel monitor for good, or in a panic. The argument \<open>fault_va\<close> is the register
  \<open>cr2\<close>, \<open>tecla\<close> what \<open>cons_getc\<close> returns. The kernel lock, the acknowledgement of the
  interrupt and printing are left out, and so is the halt of a CPU after another panics;
  the monitor, which a breakpoint enters, is taken to return.
\<close>

section \<open>Trap numbers (inc/trap.h)\<close>

definition T_BRKPT :: uint32 where "T_BRKPT = 3"
definition T_PGFLT :: uint32 where "T_PGFLT = 14"
definition T_SYSCALL :: uint32 where "T_SYSCALL = 48"
definition IRQ_OFFSET :: uint32 where "IRQ_OFFSET = 32"
definition IRQ_TIMER :: uint32 where "IRQ_TIMER = 0"
definition IRQ_SPURIOUS :: uint32 where "IRQ_SPURIOUS = 7"
definition GD_KT :: "16 word" where "GD_KT = 0x08"

lemmas trap_nums = T_BRKPT_def T_PGFLT_def T_SYSCALL_def IRQ_OFFSET_def IRQ_TIMER_def IRQ_SPURIOUS_def GD_KT_def

section \<open>Bytes of physical memory\<close>

text \<open>Words are little-endian. Offsets are in bytes and need not be multiples of four.\<close>

definition leer_byte :: "kernel \<Rightarrow> nat \<Rightarrow> nat \<Rightarrow> uint32" where
  "leer_byte k f i = take_bit 8 (drop_bit (8 * (i mod 4)) (mem k f (i div 4)))"

definition poner_byte :: "nat \<Rightarrow> nat \<Rightarrow> uint32 \<Rightarrow> kernel \<Rightarrow> kernel" where
  "poner_byte f i b k =
     escribir f (i div 4)
       ((mem k f (i div 4) AND NOT (push_bit (8 * (i mod 4)) (mask 8)))
        OR push_bit (8 * (i mod 4)) (take_bit 8 b)) k"

definition leer_palabra :: "kernel \<Rightarrow> nat \<Rightarrow> nat \<Rightarrow> uint32" where
  "leer_palabra k f i = leer_byte k f i OR push_bit 8 (leer_byte k f (i + 1))
     OR push_bit 16 (leer_byte k f (i + 2)) OR push_bit 24 (leer_byte k f (i + 3))"

definition poner_palabra :: "nat \<Rightarrow> nat \<Rightarrow> uint32 \<Rightarrow> kernel \<Rightarrow> kernel" where
  "poner_palabra f i v k =
     poner_byte f (i + 3) (drop_bit 24 v) (poner_byte f (i + 2) (drop_bit 16 v)
       (poner_byte f (i + 1) (drop_bit 8 v) (poner_byte f i v k)))"

fun poner_palabras :: "nat \<Rightarrow> nat \<Rightarrow> uint32 list \<Rightarrow> kernel \<Rightarrow> kernel" where
  "poner_palabras f i [] k = k"
| "poner_palabras f i (v # vs) k = poner_palabras f (i + 4) vs (poner_palabra f i v k)"

section \<open>Page faults\<close>

text \<open>The words of a \<open>struct UTrapframe\<close>, in order.\<close>

definition utrapframe :: "uint32 \<Rightarrow> trapframe \<Rightarrow> uint32 list" where
  "utrapframe fault_va tf =
     [fault_va, tf_err tf, reg_edi (tf_regs tf), reg_esi (tf_regs tf), reg_ebp (tf_regs tf),
      reg_oesp (tf_regs tf), reg_ebx (tf_regs tf), reg_edx (tf_regs tf), reg_ecx (tf_regs tf),
      reg_eax (tf_regs tf), tf_eip tf, tf_eflags tf, tf_esp tf]"

definition sizeof_utf :: uint32 where "sizeof_utf = 52"
definition exstk :: uint32 where "exstk = UXSTACKTOP - PGSIZE"
definition exstk_top :: uint32 where "exstk_top = UXSTACKTOP - 1"

text \<open>Where the frame goes: at the top, or below the stack pointer and one word of zeros.\<close>

definition en_exstk :: "uint32 \<Rightarrow> bool" where
  "en_exstk esp \<longleftrightarrow> \<not> (esp < exstk \<or> esp > exstk_top)"

definition lugar_utf :: "uint32 \<Rightarrow> uint32" where
  "lugar_utf esp = (if en_exstk esp then esp - 4 - sizeof_utf else exstk_top - sizeof_utf)"

definition marco_de :: "nat \<Rightarrow> uint32 \<Rightarrow> kernel \<Rightarrow> nat option" where
  "marco_de e va k =
     do { pgdir \<leftarrow> env_pgdir (envs k e);
          (pte, _) \<leftarrow> pgdir_walk pgdir va False k;
          pte \<leftarrow> pte;
          Some (marco (leer k pte)) }"

text \<open>
  The C code writes the frame first and then checks that it fits. A frame that does not fit
  begins below the exception stack, so the outcome is a panic either way: by the check, or
  because the write itself faults in kernel mode.
\<close>

definition page_fault_handler :: "planificador \<Rightarrow> uint32 \<Rightarrow> trapframe \<Rightarrow> kernel \<Rightarrow> unit res" where
  "page_fault_handler plan fault_va tf k =
     (if tf_cs tf AND 3 = 0 then Panico
      else
        case curenv k of
          None \<Rightarrow> Panico
        | Some c \<Rightarrow>
            if env_pgfault_upcall (envs k c) \<noteq> 0 then
              luego (user_mem_assert plan c exstk PGSIZE (PTE_U OR PTE_W) k) (\<lambda>_ k1.
                let tmp = lugar_utf (tf_esp tf) in
                if tmp < exstk \<or> tmp > exstk_top then Panico
                else
                  case marco_de c exstk k1 of
                    None \<Rightarrow> Panico
                  | Some f \<Rightarrow>
                      let k2 = (if en_exstk (tf_esp tf) then poner_palabra f (unat (tf_esp tf - 4 - exstk)) 0 k1 else k1);
                          k3 = poner_palabras f (unat (tmp - exstk)) (utrapframe fault_va tf) k2;
                          k4 = con_env c (\<lambda>e. e\<lparr>env_tf := tf\<lparr>tf_esp := tmp, tf_eip := env_pgfault_upcall e\<rparr>\<rparr>) k3
                      in va_a (env_run c k4))
            else env_destroy plan c k)"

section \<open>Dispatch\<close>

text \<open>\<open>tf\<close> is the frame; it lives in \<open>envs[c].env_tf\<close> when \<open>dueno\<close> is \<open>Some c\<close>, else on the stack.\<close>

definition trap_dispatch :: "planificador \<Rightarrow> int \<Rightarrow> uint32 \<Rightarrow> trapframe \<Rightarrow> nat option \<Rightarrow> kernel \<Rightarrow> unit res" where
  "trap_dispatch plan tecla fault_va tf dueno k =
     (if tf_trapno tf = T_BRKPT then Ret () k
      else if tf_trapno tf = T_PGFLT then page_fault_handler plan fault_va tf k
      else if tf_trapno tf = T_SYSCALL then
        (let r = tf_regs tf in
         luego (syscall plan tecla (reg_eax r) (reg_edx r) (reg_ecx r) (reg_ebx r) (reg_edi r) (reg_esi r) k)
           (\<lambda>v k'. Ret () (case dueno of
                None \<Rightarrow> k'
              | Some c \<Rightarrow> con_env c (\<lambda>e. e\<lparr>env_tf := (env_tf e)\<lparr>tf_regs :=
                   (tf_regs (env_tf e))\<lparr>reg_eax := word_of_int v\<rparr>\<rparr>\<rparr>) k')))
      else if tf_trapno tf = IRQ_OFFSET + IRQ_SPURIOUS then Ret () k
      else if tf_trapno tf - IRQ_OFFSET = IRQ_TIMER then va_a (sched_yield plan k)
      else if tf_cs tf = GD_KT then Panico
      else case curenv k of None \<Rightarrow> Panico | Some c \<Rightarrow> env_destroy plan c k)"

definition trap_salida :: "planificador \<Rightarrow> kernel \<Rightarrow> unit res" where
  "trap_salida plan k =
     (case curenv k of
        Some c \<Rightarrow> if env_status (envs k c) = ENV_RUNNING then va_a (env_run c k) else va_a (sched_yield plan k)
      | None \<Rightarrow> va_a (sched_yield plan k))"

definition trap :: "planificador \<Rightarrow> int \<Rightarrow> uint32 \<Rightarrow> trapframe \<Rightarrow> kernel \<Rightarrow> unit res" where
  "trap plan tecla fault_va tf k =
     (let k1 = k\<lparr>cpu_halted := False\<rparr> in
      if tf_cs tf AND 3 = 3 then
        (case curenv k1 of
           None \<Rightarrow> Panico
         | Some c \<Rightarrow>
             if env_status (envs k1 c) = ENV_DYING then
               (case env_free c k1 of
                  None \<Rightarrow> Panico
                | Some k2 \<Rightarrow> va_a (sched_yield plan (k2\<lparr>curenv := None\<rparr>)))
             else
               luego (trap_dispatch plan tecla fault_va tf (Some c) (con_env c (\<lambda>e. e\<lparr>env_tf := tf\<rparr>) k1))
                 (\<lambda>_ k'. trap_salida plan k'))
      else luego (trap_dispatch plan tecla fault_va tf None k1) (\<lambda>_ k'. trap_salida plan k'))"

section \<open>Names and gates\<close>

definition excnames :: "string list" where
  "excnames = [''Divide error'', ''Debug'', ''Non-Maskable Interrupt'', ''Breakpoint'', ''Overflow'',
     ''BOUND Range Exceeded'', ''Invalid Opcode'', ''Device Not Available'', ''Double Fault'',
     ''Coprocessor Segment Overrun'', ''Invalid TSS'', ''Segment Not Present'', ''Stack Fault'',
     ''General Protection'', ''Page Fault'', ''(unknown trap)'', ''x87 FPU Floating-Point Error'',
     ''Alignment Check'', ''Machine-Check'', ''SIMD Floating-Point Exception'']"

text \<open>The first comparison is unsigned, \<open>ARRAY_SIZE\<close> being a \<open>size_t\<close>.\<close>

definition trapname :: "int \<Rightarrow> string" where
  "trapname trapno =
     (if unat (word_of_int trapno :: uint32) < length excnames then excnames ! unat (word_of_int trapno :: uint32)
      else if trapno = 48 then ''System call''
      else if trapno \<ge> 32 \<and> trapno < 32 + 16 then ''Hardware Interrupt''
      else ''(unknown trap)'')"

text \<open>\<open>trap_init\<close>: which vectors have a gate, and the privilege level that may raise it with \<open>int\<close>.\<close>

definition idt_dpl :: "nat \<Rightarrow> nat option" where
  "idt_dpl v =
     (if v \<in> {0, 1, 2, 4, 5, 6, 7, 8, 10, 11, 12, 13, 14, 16, 17, 18, 19, 32} then Some 0
      else if v \<in> {3, 48} then Some 3 else None)"

end
