(* ===== verification/Trap_Claims.thy ===== *)
theory Trap_Claims
  imports Trap Sys_Claims
begin

text \<open>
  The properties of traps: the frame a page-fault upcall finds on its stack, what happens
  when it does not fit, contexts across a preemption, and that every way back to user mode
  runs the current environment on its own page directory.
\<close>

section \<open>Bytes\<close>

lemma bit_leer_byte: "bit (leer_byte k f i) n \<longleftrightarrow> n < 8 \<and> bit (mem k f (i div 4)) (8 * (i mod 4) + n)"
  by (auto simp: leer_byte_def bit_simps)

lemma bit_poner_byte:
  assumes "n < 32"
  shows "bit (mem (poner_byte f i b k) g w) n =
    (if g = f \<and> w = i div 4 \<and> 8 * (i mod 4) \<le> n \<and> n < 8 * (i mod 4) + 8 then bit b (n - 8 * (i mod 4))
     else bit (mem k g w) n)"
  using assms by (auto simp: poner_byte_def bit_simps)

lemma mismo_byte:
  assumes "n < (8 :: nat)"
  shows "j div 4 = i div 4 \<and> 8 * (i mod 4) \<le> 8 * (j mod 4) + n \<and> 8 * (j mod 4) + n < 8 * (i mod 4) + 8 \<longleftrightarrow> j = i"
proof
  assume a: "j div 4 = i div 4 \<and> 8 * (i mod 4) \<le> 8 * (j mod 4) + n \<and> 8 * (j mod 4) + n < 8 * (i mod 4) + 8"
  then have "j mod 4 = i mod 4" using assms by linarith
  with a show "j = i" by (metis div_mult_mod_eq)
qed (use assms in auto)

lemma leer_poner_byte:
  "leer_byte (poner_byte f i b k) g j = (if g = f \<and> j = i then take_bit 8 b else leer_byte k g j)"
proof (rule bit_word_eqI)
  fix n
  show "bit (leer_byte (poner_byte f i b k) g j) n = bit (if g = f \<and> j = i then take_bit 8 b else leer_byte k g j) n"
  proof (cases "n < 8")
    case True
    have "j mod 4 < 4" by simp
    then have n32: "8 * (j mod 4) + n < 32" using True by linarith
    show ?thesis
      unfolding bit_leer_byte bit_poner_byte [OF n32]
      using True mismo_byte [OF True, of j i] by (auto simp: bit_leer_byte bit_simps)
  qed (simp add: bit_leer_byte bit_simps)
qed

lemma leer_poner_palabra_byte:
  "leer_byte (poner_palabra f i v k) g j =
    (if g = f \<and> i \<le> j \<and> j < i + 4 then take_bit 8 (drop_bit (8 * (j - i)) v) else leer_byte k g j)"
proof -
  consider "j = i" | "j = i + 1" | "j = i + 2" | "j = i + 3" | "\<not> (i \<le> j \<and> j < i + 4)" by linarith
  then show ?thesis
  proof cases
    case 5
    then have "j \<noteq> i" "j \<noteq> i + 1" "j \<noteq> i + 2" "j \<noteq> i + 3" by auto
    with 5 show ?thesis by (auto simp: poner_palabra_def leer_poner_byte)
  qed (simp_all add: poner_palabra_def leer_poner_byte)
qed

lemma palabra_de_bytes:
  "take_bit 8 v OR push_bit 8 (take_bit 8 (drop_bit 8 v)) OR push_bit 16 (take_bit 8 (drop_bit 16 v))
    OR push_bit 24 (take_bit 8 (drop_bit 24 v)) = (v :: uint32)"
proof (rule bit_word_eqI)
  fix n assume "n < LENGTH(32)"
  then consider "n < 8" | "8 \<le> n" "n < 16" | "16 \<le> n" "n < 24" | "24 \<le> n" "n < 32" by fastforce
  then show "bit (take_bit 8 v OR push_bit 8 (take_bit 8 (drop_bit 8 v)) OR push_bit 16 (take_bit 8 (drop_bit 16 v))
    OR push_bit 24 (take_bit 8 (drop_bit 24 v))) n = bit v n"
    by cases (auto simp: bit_simps)
qed

lemma palabra_eqI:
  assumes "\<forall>a<4. leer_byte k f (i + a) = take_bit 8 (drop_bit (8 * a) v)"
  shows "leer_palabra k f i = v"
proof -
  have "leer_palabra k f i = take_bit 8 v OR push_bit 8 (take_bit 8 (drop_bit 8 v)) OR push_bit 16 (take_bit 8 (drop_bit 16 v))
    OR push_bit 24 (take_bit 8 (drop_bit 24 v))"
    unfolding leer_palabra_def
    using assms [rule_format, of 0] assms [rule_format, of 1] assms [rule_format, of 2] assms [rule_format, of 3]
    by simp
  then show ?thesis unfolding palabra_de_bytes .
qed

lemma poner_palabras_byte:
  "leer_byte (poner_palabras f i vs k) g j =
    (if g = f \<and> i \<le> j \<and> j < i + 4 * length vs
     then take_bit 8 (drop_bit (8 * ((j - i) mod 4)) (vs ! ((j - i) div 4))) else leer_byte k g j)"
proof (induction vs arbitrary: i k g j)
  case (Cons v vs)
  show ?case
  proof (cases "g = f \<and> i \<le> j \<and> j < i + 4")
    case True
    then have "(j - i) div 4 = 0" "(j - i) mod 4 = j - i" by auto
    with True show ?thesis by (simp add: Cons.IH leer_poner_palabra_byte)
  next
    case False
    show ?thesis
    proof (cases "g = f \<and> i + 4 \<le> j \<and> j < i + 4 + 4 * length vs")
      case True
      then obtain d where d: "j = i + 4 + d" "d < 4 * length vs" by (metis le_Suc_ex nat_add_left_cancel_less)
      have "leer_byte (poner_palabras f i (v # vs) k) g j = take_bit 8 (drop_bit (8 * (d mod 4)) (vs ! (d div 4)))"
        unfolding poner_palabras.simps Cons.IH using True d by simp
      moreover have "(j - i) mod 4 = d mod 4" "(j - i) div 4 = Suc (d div 4)" using d by simp_all
      ultimately show ?thesis using True d by simp
    next
      case no: False
      have out: "\<not> (g = f \<and> i \<le> j \<and> j < i + 4 * length (v # vs))" using no False by auto
      have "leer_byte (poner_palabras f i (v # vs) k) g j = leer_byte (poner_palabra f i v k) g j"
        unfolding poner_palabras.simps Cons.IH using no by (rule if_not_P)
      also have "\<dots> = leer_byte k g j" unfolding leer_poner_palabra_byte using False by (rule if_not_P)
      finally show ?thesis unfolding if_not_P [OF out] .
    qed
  qed
qed auto

lemma leer_poner_palabras:
  assumes "n < length vs"
  shows "leer_palabra (poner_palabras f i vs k) f (i + 4 * n) = vs ! n"
proof (rule palabra_eqI, intro allI impI)
  fix a :: nat assume a: "a < 4"
  then have "i + 4 * n + a < i + 4 * length vs" using assms by linarith
  with a show "leer_byte (poner_palabras f i vs k) f (i + 4 * n + a) = take_bit 8 (drop_bit (8 * a) (vs ! n))"
    by (simp add: poner_palabras_byte)
qed

section \<open>Page faults in user mode\<close>

lemma exstk_valor: "exstk = 0xEEBFF000" "exstk_top = 0xEEBFFFFF" "sizeof_utf = 52"
  by (simp_all add: exstk_def exstk_top_def sizeof_utf_def PGSIZE_def UXSTACKTOP_def UTOP_valor)

lemma exstk_mem_ok:
  assumes "vm_ok D extra xs k" "env_pgdir (envs k c) = Some pd" "pd \<in> D" "accesible k pd (PTE_U OR PTE_W) exstk"
  shows "user_mem_assert plan c exstk PGSIZE (PTE_U OR PTE_W) k = Ret () k"
proof -
  have p: "(PTE_U OR PTE_W) OR PTE_U = PTE_U OR PTE_W" by (simp add: or.commute or.left_commute)
  have n: "unat exstk div 4096 = 977919" "pagina_fin exstk PGSIZE = 977920" "[977919..<977920] = [977919 :: nat]"
    by (simp_all add: exstk_valor PGSIZE_def upt_rec pagina_fin_def)
  have "accesible k pd (PTE_U OR PTE_W) (pagina_va 977919)"
    using assms(4) accesible_pagina [of k pd "PTE_U OR PTE_W" exstk] by (simp add: n)
  with user_mem_check_forma [OF assms(1-3), of exstk PGSIZE "PTE_U OR PTE_W"]
  have "user_mem_check c exstk PGSIZE (PTE_U OR PTE_W) k = Some (0, k)"
    by (simp add: n)
  then show ?thesis by (simp add: user_mem_assert_def p)
qed

lemma marco_de_exstk:
  assumes "vm_ok D extra xs k" "env_pgdir (envs k c) = Some pd" "pd \<in> D" "ranura k pd va \<noteq> 0" "va < UTOP"
  shows "marco_de c va k = Some (marco (ranura k pd va))"
  using assms(2,4) walk_busca [OF assms(1,3) PDX_bajo_UTOP [OF assms(5)]]
  by (auto simp: marco_de_def pte_en_def leer_def split: if_splits)

text \<open>Where the frame begins in the page of the exception stack.\<close>

definition inicio_utf :: "trapframe \<Rightarrow> nat" where
  "inicio_utf tf = unat (lugar_utf (tf_esp tf) - exstk)"

lemma en_exstk_unat: "en_exstk esp \<longleftrightarrow> 4005556224 \<le> unat esp \<and> unat esp \<le> 4005560319"
  by (auto simp: en_exstk_def exstk_valor word_less_nat_alt)

lemma inicio_utf_valor:
  "inicio_utf tf = (if en_exstk (tf_esp tf) then unat (tf_esp tf - 56 - exstk) else 4043)"
  by (simp add: inicio_utf_def lugar_utf_def exstk_valor)

text \<open>A frame below an address of the exception stack fits when the address leaves room.\<close>

lemma resta_unat: "unat (b :: uint32) \<le> unat a \<Longrightarrow> unat (a - b) = unat a - unat b"
  by (simp add: unat_sub word_le_nat_alt)

lemma lugar_cabe:
  assumes "en_exstk esp"
  shows "(lugar_utf esp < exstk \<or> lugar_utf esp > exstk_top) \<longleftrightarrow> unat esp < unat exstk + 56"
    "\<not> unat esp < unat exstk + 56 \<Longrightarrow> unat (esp - 56 - exstk) = unat esp - 4005556224 - 56"
    "\<not> unat esp < unat exstk + 56 \<Longrightarrow> unat (esp - 4 - exstk) = unat esp - 4005556224 - 4"
proof -
  have e: "4005556224 \<le> unat esp" "unat esp \<le> 4005560319" using assms by (auto simp: en_exstk_unat)
  have u: "unat (esp - 56) = unat esp - 56" "unat (esp - 4) = unat esp - 4"
    using e by (simp_all add: resta_unat)
  have l: "lugar_utf esp = esp - 56" using assms by (simp add: lugar_utf_def exstk_valor)
  show "(lugar_utf esp < exstk \<or> lugar_utf esp > exstk_top) \<longleftrightarrow> unat esp < unat exstk + 56"
    using e by (auto simp: l word_less_nat_alt u exstk_valor)
  show "unat (esp - 56 - exstk) = unat esp - 4005556224 - 56" "unat (esp - 4 - exstk) = unat esp - 4005556224 - 4"
    if "\<not> unat esp < unat exstk + 56"
    using e that by (simp_all add: resta_unat u exstk_valor)
qed


lemma poner_byte_solo: "\<exists>m. poner_byte f i b k = k\<lparr>mem := m\<rparr>"
  by (auto simp: poner_byte_def escribir_def)

lemma poner_palabra_solo: "\<exists>m. poner_palabra f i v k = k\<lparr>mem := m\<rparr>"
proof -
  have t: "\<exists>m. x = k\<lparr>mem := m\<rparr> \<Longrightarrow> \<exists>m. poner_byte f j b x = k\<lparr>mem := m\<rparr>" for x j b
    using poner_byte_solo [of f j b x] by auto
  show ?thesis unfolding poner_palabra_def by (intro t exI [of _ "mem k"]) simp
qed

lemma poner_palabras_solo: "\<exists>m. poner_palabras f i vs k = k\<lparr>mem := m\<rparr>"
proof (induction vs arbitrary: i k)
  case (Cons v vs)
  obtain m where m: "poner_palabra f i v k = k\<lparr>mem := m\<rparr>" using poner_palabra_solo by blast
  with Cons.IH [of "i + 4" "k\<lparr>mem := m\<rparr>"] show ?case by auto
next
  case Nil
  show ?case by (rule exI [of _ "mem k"]) simp
qed

lemma leer_byte_mem: "mem k' = mem k \<Longrightarrow> leer_byte k' g j = leer_byte k g j"
  by (simp add: leer_byte_def)

lemma leer_palabra_mem: "mem k' = mem k \<Longrightarrow> leer_palabra k' g j = leer_palabra k g j"
  by (simp add: leer_palabra_def leer_byte_def)

lemma env_run_mismo:
  assumes "curenv k = Some c" "env_pgdir (envs k c) = Some pd"
  shows "\<exists>k'. env_run c k = Some (Usuario c, k') \<and> curenv k' = Some c \<and> cr3 k' = pd \<and> mem k' = mem k
    \<and> env_tf (envs k' c) = env_tf (envs k c) \<and> (\<forall>i. i \<noteq> c \<longrightarrow> envs k' i = envs k i)"
  using assms by (auto simp: env_run_def Let_def con_env_def)

text \<open>
  The memory the handler leaves: the frame, a word of zeros above it in the recursive
  case, and nothing else.
\<close>

lemma pila_escrita:
  fixes k :: kernel and tf :: trapframe and f :: nat and fault_va :: uint32
  defines "o' \<equiv> inicio_utf tf"
  defines "k1 \<equiv> (if en_exstk (tf_esp tf) then poner_palabra f (unat (tf_esp tf - 4 - exstk)) 0 k else k)"
  defines "k2 \<equiv> poner_palabras f o' (utrapframe fault_va tf) k1"
  assumes cabe: "\<not> (en_exstk (tf_esp tf) \<and> unat (tf_esp tf) < unat exstk + 56)"
  shows "o' + 52 + (if en_exstk (tf_esp tf) then 4 else 0) \<le> 4096"
    "\<And>n. n < 13 \<Longrightarrow> leer_palabra k2 f (o' + 4 * n) = utrapframe fault_va tf ! n"
    "en_exstk (tf_esp tf) \<Longrightarrow> leer_palabra k2 f (o' + 52) = 0"
    "\<And>g j. \<not> (g = f \<and> o' \<le> j \<and> j < o' + 52 + (if en_exstk (tf_esp tf) then 4 else 0))
       \<Longrightarrow> leer_byte k2 g j = leer_byte k g j"
proof -
  have len: "length (utrapframe fault_va tf) = 13" by (simp add: utrapframe_def)
  have of4: "unat (tf_esp tf - 4 - exstk) = o' + 52" "o' + 56 \<le> 4096" if "en_exstk (tf_esp tf)"
    using that cabe lugar_cabe(2,3) [OF that] that [unfolded en_exstk_unat]
    by (simp_all add: o'_def inicio_utf_valor exstk_valor)
  show "o' + 52 + (if en_exstk (tf_esp tf) then 4 else 0) \<le> 4096"
    using of4 by (simp add: o'_def inicio_utf_valor)
  show "leer_palabra k2 f (o' + 4 * n) = utrapframe fault_va tf ! n" if "n < 13" for n
    unfolding k2_def by (rule leer_poner_palabras) (simp add: len that)
  have b: "leer_byte k2 g j = leer_byte k1 g j" if "\<not> (g = f \<and> o' \<le> j \<and> j < o' + 52)" for g j
    unfolding k2_def poner_palabras_byte len using that by (subst if_not_P) auto
  show "leer_palabra k2 f (o' + 52) = 0" if e: "en_exstk (tf_esp tf)"
  proof (rule palabra_eqI, intro allI impI)
    fix a :: nat assume "a < 4"
    then show "leer_byte k2 f (o' + 52 + a) = take_bit 8 (drop_bit (8 * a) 0)"
      using e of4 by (simp add: b k1_def leer_poner_palabra_byte)
  qed
  show "leer_byte k2 g j = leer_byte k g j"
    if "\<not> (g = f \<and> o' \<le> j \<and> j < o' + 52 + (if en_exstk (tf_esp tf) then 4 else 0))" for g j
  proof -
    have "leer_byte k2 g j = leer_byte k1 g j" using that by (intro b) auto
    also have "\<dots> = leer_byte k g j"
      using that of4 by (auto simp: k1_def leer_poner_palabra_byte)
    finally show ?thesis .
  qed
qed

text \<open>
  C22: what a page fault in user mode does when the environment has an upcall and its
  exception stack is mapped for writing. With room for the frame, the environment goes on
  at its upcall with its stack pointer on the frame: the thirteen words of a
  \<open>struct UTrapframe\<close> that hold the faulting address, the error code, the registers,
  \<open>eip\<close>, \<open>eflags\<close> and \<open>esp\<close> of the trap, so that the upcall can put them back; in the
  recursive case a word of zeros follows it; the frame is inside the page and no other
  byte of memory changes. Without room the kernel panics, where the comment of the handler
  asks for the environment to be destroyed.
\<close>

theorem page_fault_entrega:
  assumes vm: "vm_ok D extra xs k" and cur: "curenv k = Some c" and pd: "env_pgdir (envs k c) = Some pd" "pd \<in> D"
    and us: "tf_cs tf AND 3 \<noteq> 0" and up: "env_pgfault_upcall (envs k c) \<noteq> 0"
    and st: "accesible k pd (PTE_U OR PTE_W) exstk"
  shows "if en_exstk (tf_esp tf) \<and> unat (tf_esp tf) < unat exstk + 56
    then page_fault_handler plan fault_va tf k = Panico
    else inicio_utf tf + 52 + (if en_exstk (tf_esp tf) then 4 else 0) \<le> 4096
      \<and> (\<exists>k'. page_fault_handler plan fault_va tf k = Va (Usuario c) k' \<and> curenv k' = Some c \<and> cr3 k' = pd
        \<and> env_tf (envs k' c) = tf\<lparr>tf_esp := lugar_utf (tf_esp tf), tf_eip := env_pgfault_upcall (envs k c)\<rparr>
        \<and> (\<forall>n<13. leer_palabra k' (marco (ranura k pd exstk)) (inicio_utf tf + 4 * n) = utrapframe fault_va tf ! n)
        \<and> (en_exstk (tf_esp tf) \<longrightarrow> leer_palabra k' (marco (ranura k pd exstk)) (inicio_utf tf + 52) = 0)
        \<and> (\<forall>g j. g \<noteq> marco (ranura k pd exstk) \<or> j < inicio_utf tf
              \<or> j \<ge> inicio_utf tf + 52 + (if en_exstk (tf_esp tf) then 4 else 0)
             \<longrightarrow> leer_byte k' g j = leer_byte k g j)
        \<and> (\<forall>i. i \<noteq> c \<longrightarrow> envs k' i = envs k i))"
proof -
  let ?f = "marco (ranura k pd exstk)" and ?e = "en_exstk (tf_esp tf)" and ?t = "lugar_utf (tf_esp tf)"
  have "ranura k pd exstk \<noteq> 0" using st cero_inaccesible by (auto simp: accesible_def)
  then have f: "marco_de c exstk k = Some ?f"
    by (rule marco_de_exstk [OF vm pd]) (simp add: exstk_valor UTOP_valor)
  note ok = exstk_mem_ok [OF vm pd st, of plan]
  define k1 where "k1 = (if ?e then poner_palabra ?f (unat (tf_esp tf - 4 - exstk)) 0 k else k)"
  define k2 where "k2 = poner_palabras ?f (inicio_utf tf) (utrapframe fault_va tf) k1"
  define k3 where "k3 = con_env c (\<lambda>e. e\<lparr>env_tf := tf\<lparr>tf_esp := ?t, tf_eip := env_pgfault_upcall e\<rparr>\<rparr>) k2"
  have h: "page_fault_handler plan fault_va tf k = (if ?t < exstk \<or> ?t > exstk_top then Panico else va_a (env_run c k3))"
    using us up unfolding page_fault_handler_def by (simp add: cur ok f Let_def k1_def k2_def k3_def inicio_utf_def)
  show ?thesis
  proof (cases "?e \<and> unat (tf_esp tf) < unat exstk + 56")
    case True
    with h lugar_cabe(1) show ?thesis by auto
  next
    case False
    have fits: "\<not> (?t < exstk \<or> ?t > exstk_top)"
      using lugar_cabe(1) False by (cases ?e) (auto simp: lugar_utf_def exstk_valor)
    note w = pila_escrita(2-4) [OF False, where f = ?f and k = k and fault_va = fault_va, folded k1_def, folded k2_def]
    have "k = k\<lparr>mem := mem k\<rparr>" by simp
    then obtain m1 where m1: "k1 = k\<lparr>mem := m1\<rparr>" unfolding k1_def using poner_palabra_solo by metis
    obtain m2 where "k2 = k1\<lparr>mem := m2\<rparr>" unfolding k2_def using poner_palabras_solo by blast
    with m1 have k2: "k2 = k\<lparr>mem := m2\<rparr>" by simp
    obtain k' where k': "env_run c k3 = Some (Usuario c, k')" "curenv k' = Some c" "cr3 k' = pd" "mem k' = mem k3"
      "env_tf (envs k' c) = env_tf (envs k3 c)" "\<forall>i. i \<noteq> c \<longrightarrow> envs k' i = envs k3 i"
      using env_run_mismo [of k3 c pd] cur pd(1) by (auto simp: k3_def k2)
    have m: "mem k' = mem k2" using k'(4) by (simp add: k3_def)
    have env: "env_tf (envs k' c) = tf\<lparr>tf_esp := ?t, tf_eip := env_pgfault_upcall (envs k c)\<rparr>"
      "\<forall>i. i \<noteq> c \<longrightarrow> envs k' i = envs k i"
      using k'(5,6) by (simp_all add: k3_def k2)
    have go: "page_fault_handler plan fault_va tf k = Va (Usuario c) k'" using h fits k'(1) by (simp add: va_a_def)
    have rest: "\<forall>n<13. leer_palabra k' ?f (inicio_utf tf + 4 * n) = utrapframe fault_va tf ! n"
      "?e \<longrightarrow> leer_palabra k' ?f (inicio_utf tf + 52) = 0"
      "\<forall>g j. g \<noteq> ?f \<or> j < inicio_utf tf \<or> j \<ge> inicio_utf tf + 52 + (if ?e then 4 else 0)
         \<longrightarrow> leer_byte k' g j = leer_byte k g j"
      unfolding leer_palabra_mem [OF m] leer_byte_mem [OF m] using w by (blast, blast, auto)
    show ?thesis unfolding if_not_P [OF False]
      by (intro conjI pila_escrita(1) [OF False] exI [of _ k'] go k'(2,3) env rest)
  qed
qed


text \<open>The example kernel with an upcall and an exception stack, page 2.\<close>

definition k_pila :: "kernel \<Rightarrow> kernel" where
  "k_pila k = con_env 1 (\<lambda>r. r\<lparr>env_pgfault_upcall := 0x800020\<rparr>) k"

lemma k_dos_con_pila:
  obtains k xs where "vm_ok {1} (\<lambda>_. 0) xs (k_pila k)" "curenv (k_pila k) = Some 1"
    "env_pgdir (envs (k_pila k) 1) = Some 1" "env_pgfault_upcall (envs (k_pila k) 1) = 0x800020"
    "accesible (k_pila k) 1 (PTE_U OR PTE_W) exstk" "marco (ranura (k_pila k) 1 exstk) = 2"
proof -
  let ?v = "page2pa 2 OR (PTE_W OR PTE_U OR PTE_P) OR PTE_P"
  have cp: "check_perm (PTE_W OR PTE_U OR PTE_P) None = 0"
    unfolding check_perm_alloc by (simp add: pte_flags)
  have u: "exstk < UTOP" by (simp add: UTOP_valor exstk_valor)
  from env_page_alloc_vm [OF k_dos_vm k_dos_pgdir _ u cp] obtain k xs where
    k: "vm_ok {1} (\<lambda>_. 0) xs k" "solo_vm k_dos k" "entrada_cambiada {1} 1 exstk ?v k_dos k" by auto
  note e = solo_vmD [OF k(2)]
  have m: "mem (k_pila k) = mem k" by (simp add: k_pila_def)
  have r: "ranura (k_pila k) 1 exstk = ?v"
    using k(3) PDX_bajo_UTOP [OF u] by (simp add: entrada_cambiada_def pte_en_mem [OF m])
  have mk: "marco ?v = 2" by (simp add: marco_entrada or.assoc)
  have "vm_ok {1} (\<lambda>_. 0) xs (k_pila k)" using k(1) vm_ok_cong [of "k_pila k" k] by (simp add: k_pila_def)
  moreover have "accesible (k_pila k) 1 (PTE_U OR PTE_W) exstk"
    unfolding accesible_def r by (simp add: pte_flags page2pa_def bit_eq_iff bit_simps)
  ultimately show thesis
    using that [of xs k] e(2,3) k_dos_pgdir r mk by (simp add: k_pila_def)
qed

lemma page_fault_entrega_witness:
  "\<exists>k k'. page_fault_handler SCHED_ROUND_ROBIN 0x1234 tf_inicial k = Va (Usuario 1) k'
    \<and> tf_eip (env_tf (envs k' 1)) = 0x800020 \<and> leer_palabra k' 2 4043 = 0x1234"
proof -
  obtain k xs where k: "vm_ok {1} (\<lambda>_. 0) xs (k_pila k)" "curenv (k_pila k) = Some 1"
    "env_pgdir (envs (k_pila k) 1) = Some 1" "env_pgfault_upcall (envs (k_pila k) 1) = 0x800020"
    "accesible (k_pila k) 1 (PTE_U OR PTE_W) exstk" "marco (ranura (k_pila k) 1 exstk) = 2"
    by (rule k_dos_con_pila)
  have us: "tf_cs tf_inicial AND 3 \<noteq> 0" and up: "env_pgfault_upcall (envs (k_pila k) 1) \<noteq> 0" by (simp add: tf_inicial_def) (subst k(4), simp)
  have e: "\<not> en_exstk (tf_esp tf_inicial)" by (simp add: tf_inicial_def en_exstk_unat UTOP_valor)
  have i: "inicio_utf tf_inicial = 4043" using e by (simp add: inicio_utf_valor)
  have no: "\<not> (en_exstk (tf_esp tf_inicial) \<and> unat (tf_esp tf_inicial) < unat exstk + 56)" using e by blast
  from page_fault_entrega [OF k(1,2,3) _ us up k(5), of SCHED_ROUND_ROBIN "0x1234", unfolded if_not_P [OF no]] obtain k' where
    "page_fault_handler SCHED_ROUND_ROBIN 0x1234 tf_inicial (k_pila k) = Va (Usuario 1) k'"
    "tf_eip (env_tf (envs k' 1)) = 0x800020" "\<forall>n<13. leer_palabra k' 2 (4043 + 4 * n) = utrapframe 0x1234 tf_inicial ! n"
    by (auto simp: k(4,6) [unfolded One_nat_def] e i)
  moreover from this(3) [rule_format, of 0] have "leer_palabra k' 2 4043 = 0x1234" by (simp add: utrapframe_def)
  ultimately show ?thesis by blast
qed

section \<open>Coming back to user mode\<close>

text \<open>What every way out to user mode leaves, and how it goes through the calls.\<close>

definition en_usuario :: "nat \<Rightarrow> kernel \<Rightarrow> bool" where
  "en_usuario e k \<longleftrightarrow> curenv k = Some e \<and> env_status (envs k e) = ENV_RUNNING \<and> env_pgdir (envs k e) = Some (cr3 k)"

definition salida_ok :: "'a res \<Rightarrow> bool" where
  "salida_ok r \<longleftrightarrow> (\<forall>e k. r = Va (Usuario e) k \<longrightarrow> en_usuario e k)"

named_theorems salida

lemma salida_simple [salida]: "salida_ok (Ret a k)" "salida_ok Panico"
  by (simp_all add: salida_ok_def)

lemma salida_luego [salida]: "salida_ok r \<Longrightarrow> (\<And>a k. salida_ok (f a k)) \<Longrightarrow> salida_ok (luego r f)"
  by (cases r) (auto simp: salida_ok_def)

lemma salida_de_opcion [salida]: "salida_ok (de_opcion x)"
  by (auto simp: salida_ok_def de_opcion_def split: option.splits)

lemma salida_env_run [salida]: "salida_ok (va_a (env_run e k))"
  using env_run_Some [of e k] by (auto simp: salida_ok_def va_a_def en_usuario_def split: option.splits)

lemma salida_halt [salida]: "salida_ok (va_a (Some (sched_halt k)))"
  using sched_halt_no_usuario by (auto simp: salida_ok_def va_a_def split: prod.splits)

lemma salida_yield [salida]: "salida_ok (va_a (sched_yield plan k))"
  unfolding sched_yield_def sched_round_robin_def sched_prioridades_def Let_def
  by (auto intro: salida split: planificador.splits option.splits)

lemma salida_destroy [salida]: "salida_ok (env_destroy plan e k)"
  unfolding env_destroy_def by (auto intro: salida split: option.splits)

lemma salida_mem_assert [salida]: "salida_ok (user_mem_assert plan e va len perm k)"
  unfolding user_mem_assert_def by (auto intro: salida split: option.splits)

lemma salida_con_envid [salida]: "(\<And>e. salida_ok (f e)) \<Longrightarrow> salida_ok (con_envid envid chk k f)"
  unfolding con_envid_def by (auto intro: salida split: option.splits)

lemma salida_entregar [salida]: "salida_ok (ipc_entregar dst value c k)"
  unfolding ipc_entregar_def by (rule salida)

lemma salida_send [salida]: "salida_ok (sys_ipc_try_send envid value srcva perm k)"
  unfolding sys_ipc_try_send_def Let_def by (auto intro!: salida split: option.splits)

lemma salida_llamadas [salida]:
  "salida_ok (sys_cputs plan s len k)"
  "salida_ok (sys_cgetc tecla k)"
  "salida_ok (sys_getenvid k)"
  "salida_ok (sys_env_destroy plan envid k)"
  "salida_ok (sys_yield plan k)"
  "salida_ok (sys_exofork k)"
  "salida_ok (sys_env_set_status envid status k)"
  "salida_ok (sys_env_set_pgfault_upcall plan envid func k)"
  "salida_ok (sys_page_alloc envid va perm k)"
  "salida_ok (sys_page_map sid srcva did dstva perm k)"
  "salida_ok (sys_page_unmap envid va k)"
  "salida_ok (sys_ipc_recv plan dstva k)"
  "salida_ok (sys_obtener_prioridad envid k)"
  "salida_ok (sys_modificar_prioridad k)"
  unfolding sys_cputs_def
    sys_cgetc_def
    sys_getenvid_def
    sys_env_destroy_def
    sys_yield_def
    sys_exofork_def
    sys_env_set_status_def
    sys_env_set_pgfault_upcall_def
    sys_page_alloc_def
    sys_page_map_def
    sys_page_unmap_def
    sys_ipc_recv_def
    sys_obtener_prioridad_def
    sys_modificar_prioridad_def Let_def
  by (auto intro!: salida split: option.splits)

lemma salida_syscall [salida]: "salida_ok (syscall plan tecla n a1 a2 a3 a4 a5 k)"
  unfolding syscall_def by (simp add: salida)

lemma salida_page_fault [salida]: "salida_ok (page_fault_handler plan va tf k)"
  unfolding page_fault_handler_def Let_def by (auto intro!: salida split: option.splits)

lemma salida_dispatch [salida]: "salida_ok (trap_dispatch plan tecla va tf dueno k)"
  unfolding trap_dispatch_def Let_def by (auto intro!: salida split: option.splits)

lemma salida_salida [salida]: "salida_ok (trap_salida plan k)"
  unfolding trap_salida_def by (auto intro: salida split: option.splits)

lemma luego_no_Ret: "(\<And>a k b k'. f a k \<noteq> Ret b k') \<Longrightarrow> luego r f \<noteq> Ret b k'"
  by (cases r) auto

lemma va_a_no_Ret: "va_a r \<noteq> Ret b k'"
  by (auto simp: va_a_def split: option.splits)

lemma trap_salida_no_Ret: "trap_salida plan k \<noteq> Ret b k'"
  by (auto simp: trap_salida_def va_a_no_Ret split: option.splits)

text \<open>
  C23: a trap never returns to the code it interrupted by itself. Whatever the trap, the
  registers it came with and the state of the kernel, \<open>trap\<close> ends in user mode, with the
  CPU halted, in the monitor or in a panic; and whenever it ends in user mode, the
  environment it runs is \<open>curenv\<close>, its status is \<open>ENV_RUNNING\<close>, and the page directory in
  force is its own, so no environment ever runs on the memory of another.
\<close>

theorem trap_a_usuario:
  "(\<forall>b k'. trap plan tecla fault_va tf k \<noteq> Ret b k')
   \<and> (\<forall>e k'. trap plan tecla fault_va tf k = Va (Usuario e) k' \<longrightarrow>
        curenv k' = Some e \<and> env_status (envs k' e) = ENV_RUNNING \<and> env_pgdir (envs k' e) = Some (cr3 k'))"
proof -
  have "salida_ok (trap plan tecla fault_va tf k)"
    unfolding trap_def Let_def by (auto intro!: salida split: option.splits)
  moreover have "trap plan tecla fault_va tf k \<noteq> Ret b k'" for b k'
    unfolding trap_def Let_def
    by (auto simp: va_a_no_Ret luego_no_Ret trap_salida_no_Ret split: option.splits)
  ultimately show ?thesis unfolding salida_ok_def en_usuario_def by blast
qed


section \<open>Preemption\<close>

text \<open>What scheduling leaves alone: memory, the pages and the context of every environment.\<close>

definition solo_planifica :: "kernel \<Rightarrow> kernel \<Rightarrow> bool" where
  "solo_planifica k k' \<longleftrightarrow> npages k' = npages k \<and> kern_pgdir k' = kern_pgdir k \<and> mem k' = mem k \<and> pages k' = pages k \<and> page_free_list k' = page_free_list k
     \<and> env_free_list k' = env_free_list k
     \<and> (\<forall>i. env_tf (envs k' i) = env_tf (envs k i) \<and> env_id (envs k' i) = env_id (envs k i)
          \<and> env_pgdir (envs k' i) = env_pgdir (envs k i))"

lemma solo_planifica_refl [simp]: "solo_planifica k k"
  by (simp add: solo_planifica_def)

lemma solo_planifica_trans: "solo_planifica a b \<Longrightarrow> solo_planifica b c \<Longrightarrow> solo_planifica a c"
  by (simp add: solo_planifica_def)

lemma planifica_pasos:
  "solo_planifica k (anotar_fin k)" "solo_planifica k (subir_prioridad e k)"
  "solo_planifica k (actualizar_stats_proceso e k)" "solo_planifica k (snd (sched_halt k))"
  by (auto simp: solo_planifica_def anotar_fin_def subir_prioridad_def actualizar_stats_proceso_def Let_def
      sched_halt_def con_env_def split: option.splits)

lemma planifica_campos [simp]:
  "solo_planifica k (k'\<lparr>last_env := l\<rparr>) = solo_planifica k k'" "solo_planifica (k\<lparr>last_env := l\<rparr>) k' = solo_planifica k k'"
  "solo_planifica (k\<lparr>sched_time := t\<rparr>) k' = solo_planifica k k'" "solo_planifica (k\<lparr>sched_calls := n\<rparr>) k' = solo_planifica k k'"
  by (simp_all add: solo_planifica_def)

lemma planifica_run: "env_run e k = Some (d, k') \<Longrightarrow> solo_planifica k k'"
  by (auto simp: env_run_def Let_def con_env_def solo_planifica_def split: option.splits bind_splits if_splits)

lemma planifica_halt: "sched_halt k = (d, k') \<Longrightarrow> solo_planifica k k'"
  using planifica_pasos(4) [of k] by simp

lemma planifica_yield:
  assumes "sched_yield plan k = Some (d, k')"
  shows "solo_planifica k k'"
proof (cases plan)
  case SCHED_ROUND_ROBIN
  let ?k1 = "anotar_fin (k\<lparr>sched_calls := sched_calls k + 1, sched_time := sched_time k + 1\<rparr>)"
  have "solo_planifica ?k1 k'"
    using assms SCHED_ROUND_ROBIN planifica_run [of _ "?k1\<lparr>last_env := _\<rparr>"] planifica_halt [of "?k1\<lparr>last_env := None\<rparr>"]
    by (auto simp: sched_yield_def sched_round_robin_def Let_def split: option.splits if_splits)
  moreover have "solo_planifica k ?k1" using planifica_pasos(1) [of "k\<lparr>sched_calls := sched_calls k + 1, sched_time := sched_time k + 1\<rparr>"] by simp
  ultimately show ?thesis using solo_planifica_trans by blast
next
  case SCHED_PRIORITIES
  let ?kz = "k\<lparr>sched_calls := sched_calls k + 1, sched_time := sched_time k + 1 + 1\<rparr>"
  let ?k1 = "anotar_fin ?kz"
  have s: "solo_planifica ?k1 (actualizar_stats_proceso e (subir_prioridad e ?k1))" for e
    using planifica_pasos(2,3) solo_planifica_trans by blast
  have "solo_planifica ?k1 k'"
    using assms SCHED_PRIORITIES planifica_run [of _ "_\<lparr>last_env := _\<rparr>"] planifica_halt [of ?k1] solo_planifica_trans [OF s]
    by (fastforce simp: sched_yield_def sched_prioridades_def Let_def split: option.splits if_splits)
  moreover have "solo_planifica k ?k1" using planifica_pasos(1) [of ?kz] by simp
  ultimately show ?thesis using solo_planifica_trans by blast
next
  case SIN_PLANIFICADOR
  let ?kz = "k\<lparr>sched_calls := sched_calls k + 1, sched_time := sched_time k + 1\<rparr>"
  from assms SIN_PLANIFICADOR have "solo_planifica ?kz k'"
    using planifica_run [of _ "?kz\<lparr>last_env := _\<rparr>"] planifica_halt [of ?kz]
    by (auto simp: sched_yield_def Let_def split: option.splits)
  then show ?thesis by simp
qed


lemma trap_reloj:
  assumes "tf_cs tf AND 3 = 3" "tf_trapno tf = IRQ_OFFSET + IRQ_TIMER" "curenv k = Some c"
    "env_status (envs k c) \<noteq> ENV_DYING"
  shows "trap plan tecla fault_va tf k
    = va_a (sched_yield plan (con_env c (\<lambda>e. e\<lparr>env_tf := tf\<rparr>) (k\<lparr>cpu_halted := False\<rparr>)))"
proof -
  have "luego (va_a r) f = va_a r" for r :: "(destino \<times> kernel) option" and f :: "unit \<Rightarrow> kernel \<Rightarrow> unit res"
    by (auto simp: va_a_def split: option.splits)
  with assms show ?thesis by (simp add: trap_def Let_def trap_dispatch_def trap_nums)
qed

lemma trap_reloj_planifica:
  assumes "tf_cs tf AND 3 = 3" "tf_trapno tf = IRQ_OFFSET + IRQ_TIMER" "curenv k = Some c"
    "env_status (envs k c) \<noteq> ENV_DYING" "trap plan tecla fault_va tf k = Va d k'"
  shows "solo_planifica (con_env c (\<lambda>e. e\<lparr>env_tf := tf\<rparr>) (k\<lparr>cpu_halted := False\<rparr>)) k'"
  using assms(5) trap_reloj [OF assms(1-4), of plan tecla fault_va] planifica_yield
  by (auto simp: va_a_def split: option.splits)

text \<open>An example: environment 1 is interrupted by the timer and round robin runs environment 2.\<close>

definition tf_reloj :: trapframe where
  "tf_reloj = tf_inicial\<lparr>tf_trapno := 32, tf_eip := 0x800100\<rparr>"

definition k_reloj :: kernel where
  "k_reloj = con_env 2 (\<lambda>r. r\<lparr>env_pgdir := Some 9\<rparr>) k_dos"

lemma reloj_campos:
  "tf_cs tf_reloj AND 3 = 3" "tf_trapno tf_reloj = IRQ_OFFSET + IRQ_TIMER" "curenv k_reloj = Some 1"
  "env_status (envs k_reloj 1) \<noteq> ENV_DYING"
  by (simp_all add: tf_reloj_def k_reloj_def tf_inicial_def trap_nums)

lemma reloj_ej:
  obtains k1 where "trap SCHED_ROUND_ROBIN 0 0 tf_reloj k_reloj = Va (Usuario 2) k1"
proof -
  let ?k1 = "con_env 1 (\<lambda>e. e\<lparr>env_tf := tf_reloj\<rparr>) (k_reloj\<lparr>cpu_halted := False\<rparr>)"
  have "siguiente_rr ?k1 1 = Some 2"
    unfolding siguiente_rr_Some by (auto simp: k_reloj_def NENV_def distancia_def)
  then obtain k1 where "sched_yield SCHED_ROUND_ROBIN ?k1 = Some (Usuario 2, k1)"
    using rr_forma [of ?k1 1] by (simp add: k_reloj_def NENV_def env_run_def Let_def con_env_def split: option.splits)
  then have "trap SCHED_ROUND_ROBIN 0 0 tf_reloj k_reloj = Va (Usuario 2) k1"
    unfolding trap_reloj [OF reloj_campos] by (simp add: va_a_def)
  then show thesis by (rule that)
qed

lemma trap_a_usuario_witness:
  "\<exists>k1. trap SCHED_ROUND_ROBIN 0 0 tf_reloj k_reloj = Va (Usuario 2) k1 \<and> curenv k1 = Some 2 \<and> cr3 k1 = 9"
proof -
  obtain k1 where t: "trap SCHED_ROUND_ROBIN 0 0 tf_reloj k_reloj = Va (Usuario 2) k1" by (rule reloj_ej)
  from trap_reloj_planifica [OF reloj_campos t] have "env_pgdir (envs k1 2) = Some 9"
    by (simp add: solo_planifica_def k_reloj_def)
  moreover from trap_a_usuario [of SCHED_ROUND_ROBIN 0 0 tf_reloj k_reloj] t
  have "curenv k1 = Some 2" "env_pgdir (envs k1 2) = Some (cr3 k1)" by blast+
  ultimately show ?thesis using t by simp
qed

text \<open>
  What goes on while an environment waits its turn: other environments write their memory,
  and are interrupted by the timer.
\<close>

inductive paso_ajeno :: "planificador \<Rightarrow> nat \<Rightarrow> kernel \<Rightarrow> kernel \<Rightarrow> bool" for plan c where
  ajeno_memoria: "paso_ajeno plan c k (k\<lparr>mem := m\<rparr>)"
| ajeno_reloj: "tf_cs tf AND 3 = 3 \<Longrightarrow> tf_trapno tf = IRQ_OFFSET + IRQ_TIMER \<Longrightarrow> curenv k = Some i \<Longrightarrow> i \<noteq> c
    \<Longrightarrow> env_status (envs k i) \<noteq> ENV_DYING \<Longrightarrow> trap plan tecla fault_va tf k = Va d k' \<Longrightarrow> paso_ajeno plan c k k'"

inductive_cases paso_ajenoE: "paso_ajeno plan c k k'"

lemma paso_ajeno_tf: "paso_ajeno plan c k k' \<Longrightarrow> env_tf (envs k' c) = env_tf (envs k c) \<and> env_pgdir (envs k' c) = env_pgdir (envs k c)"
  by (erule paso_ajenoE) (auto simp: solo_planifica_def dest!: trap_reloj_planifica)

text \<open>
  C24: a preemption by the timer keeps the context. The frame of the interrupted environment
  is saved, the contexts, identifiers and page directories of the others and all of memory
  stay as they were; and however many other environments are then run and interrupted in
  turn, the saved context of the first and its page directory are still the same, so that
  it goes on where it was when \<open>env_run\<close> pops its frame.
\<close>

theorem contexto_conservado:
  assumes us: "tf_cs tf AND 3 = 3" "tf_trapno tf = IRQ_OFFSET + IRQ_TIMER" and cur: "curenv k = Some c"
    and viva: "env_status (envs k c) \<noteq> ENV_DYING" and t: "trap plan tecla fault_va tf k = Va d k1"
    and otros: "(paso_ajeno plan c)\<^sup>*\<^sup>* k1 k2"
  shows "mem k1 = mem k \<and> (\<forall>i. i \<noteq> c \<longrightarrow> env_tf (envs k1 i) = env_tf (envs k i))
    \<and> (\<forall>i. env_id (envs k1 i) = env_id (envs k i) \<and> env_pgdir (envs k1 i) = env_pgdir (envs k i))
    \<and> env_tf (envs k2 c) = tf \<and> env_pgdir (envs k2 c) = env_pgdir (envs k c)"
proof -
  note s = trap_reloj_planifica [OF us cur viva t, unfolded solo_planifica_def]
  from otros have "env_tf (envs k2 c) = env_tf (envs k1 c) \<and> env_pgdir (envs k2 c) = env_pgdir (envs k1 c)"
    by (induction rule: rtranclp_induct) (auto dest: paso_ajeno_tf)
  with s show ?thesis by auto
qed

lemma contexto_conservado_witness:
  "\<exists>k k1. trap SCHED_ROUND_ROBIN 0 0 (tf_inicial\<lparr>tf_trapno := 32, tf_eip := 0x800100\<rparr>) k = Va (Usuario 2) k1
    \<and> curenv k = Some 1 \<and> tf_eip (env_tf (envs (k1\<lparr>mem := (\<lambda>_ _. 7)\<rparr>) 1)) = 0x800100"
proof -
  obtain k1 where t: "trap SCHED_ROUND_ROBIN 0 0 tf_reloj k_reloj = Va (Usuario 2) k1" by (rule reloj_ej)
  have "(paso_ajeno SCHED_ROUND_ROBIN 1)\<^sup>*\<^sup>* k1 (k1\<lparr>mem := (\<lambda>_ _. 7)\<rparr>)" by (intro r_into_rtranclp ajeno_memoria)
  from contexto_conservado [OF reloj_campos t this] t reloj_campos(3) show ?thesis
    by (intro exI [of _ k_reloj] exI [of _ k1]) (simp add: tf_reloj_def)
qed

lemma sched_halt_estado: "sched_halt k = (d, k') \<Longrightarrow> envs k' = envs k"
  by (auto simp: sched_halt_def split: if_splits)

text \<open>With no current environment, one that is not runnable keeps its status and does not run.\<close>

lemma yield_sin_actual:
  assumes cur: "curenv k = None" and y: "sched_yield plan k = Some (d, k')" and no: "\<not> listo k c"
  shows "env_status (envs k' c) = env_status (envs k c) \<and> d \<noteq> Usuario c"
proof -
  have run: "env_status (envs k' c) = env_status (envs k c) \<and> d \<noteq> Usuario c"
    if "env_run e k2 = Some (d, k')" "curenv k2 = None" "\<forall>i. env_status (envs k2 i) = env_status (envs k i)" "listo k e" for e k2
    using env_run_Some(1,5) [OF that(1)] that(2-4) no by (metis destino.inject option.distinct(1))
  have halt: "env_status (envs k' c) = env_status (envs k c) \<and> d \<noteq> Usuario c"
    if "sched_halt k2 = (d, k')" "\<forall>i. env_status (envs k2 i) = env_status (envs k i)" for k2
    using sched_halt_estado [OF that(1)] sched_halt_no_usuario [OF that(1)] that(2) by simp
  show ?thesis
  proof (cases plan)
    case SCHED_ROUND_ROBIN
    let ?k1 = "anotar_fin (k\<lparr>sched_calls := sched_calls k + 1, sched_time := sched_time k + 1\<rparr>)"
    show ?thesis
    proof (cases "siguiente_rr k 0")
      case None
      with y SCHED_ROUND_ROBIN have "sched_halt (?k1\<lparr>last_env := None\<rparr>) = (d, k')" by (simp add: rr_sin_actual [OF cur])
      from halt [OF this] show ?thesis by simp
    next
      case (Some e)
      with y SCHED_ROUND_ROBIN have "env_run e (?k1\<lparr>last_env := Some e\<rparr>) = Some (d, k')" by (simp add: rr_sin_actual [OF cur])
      from run [OF this] Some cur show ?thesis by (simp add: siguiente_rr_Some)
    qed
  next
    case SCHED_PRIORITIES
    let ?k1 = "anotar_fin (k\<lparr>sched_calls := sched_calls k + 1, sched_time := sched_time k + 1 + 1\<rparr>)"
    show ?thesis
    proof (cases "elegir k 0")
      case None
      with y SCHED_PRIORITIES prioridades_forma [of k] have "sched_halt ?k1 = (d, k')" by (simp add: cur)
      from halt [OF this] show ?thesis by simp
    next
      case (Some e)
      have l: "listo k e" using elegir_mejor(1) [OF Some] by (simp add: mejor_def)
      from y SCHED_PRIORITIES prioridades_forma [of k] Some
      have "env_run e ((actualizar_stats_proceso e (subir_prioridad e ?k1))\<lparr>last_env := Some e\<rparr>) = Some (d, k')"
        by (simp add: cur)
      from run [OF this _ _ l] cur show ?thesis by simp
    qed
  next
    case SIN_PLANIFICADOR
    with y have "sched_halt (k\<lparr>sched_calls := sched_calls k + 1, sched_time := sched_time k + 1\<rparr>) = (d, k')"
      by (simp add: sched_yield_def Let_def cur)
    from halt [OF this] show ?thesis by simp
  qed
qed

text \<open>
  A zombie is collected at its next trap. When the environment that traps was marked
  \<open>ENV_DYING\<close> by another CPU, the trap frees it before anything else, whatever the trap was:
  it ends up free, without page directory and first of the free list, its identifier is
  rejected and it does not go on running.
\<close>

theorem zombi_liberado:
  assumes tab: "tabla_ok k" and us: "tf_cs tf AND 3 = 3" and cur: "curenv k = Some c" "c < NENV"
    and z: "env_status (envs k c) = ENV_DYING"
    and t: "trap plan tecla fault_va tf k = Va d k'"
  shows "env_status (envs k' c) = ENV_FREE \<and> env_pgdir (envs k' c) = None \<and> env_free_list k' = Some c
    \<and> d \<noteq> Usuario c \<and> envid2env (env_id (envs k c)) checkperm k' = Some (- E_BAD_ENV, None)"
proof -
  let ?k1 = "k\<lparr>cpu_halted := False\<rparr>"
  obtain k2 where k2: "env_free c ?k1 = Some k2" and y: "sched_yield plan (k2\<lparr>curenv := None\<rparr>) = Some (d, k')"
    using t us cur z by (auto simp: trap_def Let_def va_a_def split: option.splits)
  note f = env_free_envs [OF k2] and s = planifica_yield [OF y, unfolded solo_planifica_def]
  have "\<not> listo (k2\<lparr>curenv := None\<rparr>) c" by (simp add: f(3))
  from yield_sin_actual [OF _ y this] have st: "env_status (envs k' c) = ENV_FREE" "d \<noteq> Usuario c"
    by (simp_all add: f(3))
  have id: "ENVX (env_id (envs k c)) = c" "env_id (envs k c) \<noteq> 0"
    using tab cur(2) z sint_pos_no_cero [of "env_id (envs k c)"] by (simp_all add: tabla_ok_def)
  have "envid2env (env_id (envs k c)) checkperm k' = Some (- E_BAD_ENV, None)"
    unfolding envid2env_def Let_def id(1) using id(2) st(1) by simp
  then show ?thesis using st s f(1,3) by simp
qed

lemma zombi_liberado_witness:
  "\<exists>k d k'. trap SCHED_ROUND_ROBIN 0 0 (tf_inicial\<lparr>tf_trapno := 48\<rparr>) k = Va d k' \<and> curenv k = Some 1
    \<and> env_status (envs k 1) = ENV_DYING \<and> env_status (envs k' 1) = ENV_FREE \<and> d \<noteq> Usuario 1"
proof -
  let ?kz = "con_env 2 (\<lambda>r. r\<lparr>env_pgdir := Some 9\<rparr>) (con_env 1 (\<lambda>r. r\<lparr>env_status := ENV_DYING\<rparr>) k_dos)"
  let ?k = "con_page 1 (\<lambda>r. r\<lparr>pp_ref := 1\<rparr>) ?kz" and ?t = "tf_inicial\<lparr>tf_trapno := 48\<rparr>"
  let ?k0 = "?k\<lparr>cpu_halted := False\<rparr>"
  have m: "env_pgdir (envs ?k0 1) = Some 1" by (simp add: k_dos_def)
  have p: "unat (PGNUM (page2pa 1)) = 1" "pp_link (pages ?k 1) = None" by (simp_all add: PGNUM_page2pa) (simp add: k_dos_def)
  have "env_free_tablas 1 [0..<unat (PDX UTOP)] (?k0\<lparr>cr3 := kern_pgdir ?k0\<rparr>) = Some (?k0\<lparr>cr3 := kern_pgdir ?k0\<rparr>)"
    by (rule env_free_tablas_vacias) simp
  then obtain k2 where f: "env_free 1 ?k0 = Some k2"
    using m p by (simp add: env_free_def Let_def pa2page_def page_decref_def page_free_def)
  note e = env_free_envs [OF f]
  have cur: "curenv (k2\<lparr>curenv := None\<rparr>) = None" by simp
  have "siguiente_rr (k2\<lparr>curenv := None\<rparr>) 0 = Some 2"
    unfolding siguiente_rr_Some by (auto simp: e NENV_def distancia_def)
  then obtain k' where "sched_yield SCHED_ROUND_ROBIN (k2\<lparr>curenv := None\<rparr>) = Some (Usuario 2, k')"
    using rr_sin_actual [OF cur] by (simp add: env_run_def Let_def con_env_def e split: option.splits)
  then have t: "trap SCHED_ROUND_ROBIN 0 0 ?t ?k = Va (Usuario 2) k'"
    using f by (simp add: trap_def Let_def tf_inicial_def va_a_def)
  have "sint (0x1001 :: uint32) = 0x1001" "sint (0x1002 :: uint32) = 0x1002"
    by (simp_all add: sint_uint signed_take_bit_int_eq_self)
  then have "tabla_ok ?k" by (auto simp: tabla_ok_def ENVX_mod NENV_def)
  then have "env_status (envs k' 1) = ENV_FREE \<and> Usuario 2 \<noteq> Usuario 1"
    using zombi_liberado [of ?k ?t 1 SCHED_ROUND_ROBIN 0 0 "Usuario 2" k' False] t
    by (simp add: tf_inicial_def NENV_def)
  with t show ?thesis by (intro exI [of _ ?k] exI [of _ "Usuario 2"] exI [of _ k']) simp
qed

end
