(* ===== verification/Fork_Claims.thy ===== *)
theory Fork_Claims
  imports Fork_Cow Trap_Claims
begin

text \<open>
  A new address space, the whole of \<open>fork\<close>, and the properties of the user library.
\<close>

section \<open>A new directory\<close>

text \<open>Adding a page as a directory with nothing mapped below \<open>UTOP\<close>.\<close>

lemma nuevo_directorio:
  assumes vm: "vm_ok D extra ys k" and p: "p < npages k" "p \<notin> set ys" "p \<notin> D" "p \<notin> tablas D k" "refs D extra k p = 0"
    and k': "npages k' = npages k" "page_free_list k' = page_free_list k" "\<forall>q. q \<noteq> p \<longrightarrow> pages k' q = pages k q"
      "pp_link (pages k' p) = None" "\<forall>q. q \<noteq> p \<longrightarrow> mem k' q = mem k q" "\<forall>i<NPDU. mem k' p i = 0"
  shows "vm_ok (insert p D) extra ys k'" "\<And>d q. d \<in> D \<Longrightarrow> q < NPAG \<Longrightarrow> entrada k' d q = entrada k d q" "\<And>q. q < NPAG \<Longrightarrow> entrada k' p q = 0"
    "\<And>d q. d \<in> D \<Longrightarrow> q < NPAG \<Longrightarrow> palabra k' d q = palabra k d q" "\<And>f. refs (insert p D) extra k' f = refs D extra k f"
proof -
  note e = vm_okD(1) [OF vm] and C = conteoD [OF vm_okD(2) [OF vm]]
  note E = estructuraD [OF e]
  have mD: "mem k' d = mem k d" if "d \<in> D" for d using that p(3) k'(5) by metis
  have tD: "tabla k' d i = tabla k d i" if "d \<in> D" for d i using mD [OF that] by (simp add: tabla_def)
  have h: "hay_tabla (insert p D) k' d i \<longleftrightarrow> hay_tabla D k d i" for d i
    using mD p(3) k'(6) by (auto simp: hay_tabla_def)
  have hD: "hay_tabla D k d i \<Longrightarrow> d \<in> D" for d i by (simp add: hay_tabla_def)
  have pt: "hay_tabla D k d i \<Longrightarrow> tabla k d i \<noteq> p" for d i using p(4) by (auto simp: tablas_def)
  have pe: "pte_en k' d i j = pte_en k d i j" if "d \<in> D" "i < NPDU" for d i j
  proof (cases "mem k d i = 0")
    case True
    then show ?thesis using mD [OF that(1)] by (simp add: pte_en_def)
  next
    case False
    then have "tabla k d i \<noteq> p" using that by (intro pt) (simp add: hay_tabla_def)
    then show ?thesis using mD [OF that(1)] tD [OF that(1)] k'(5) by (simp add: pte_en_def)
  qed
  have pp: "pte_en k' p i j = 0" if "i < NPDU" for i j using k'(6) that by (simp add: pte_en_def)
  have tb: "tablas (insert p D) k' = tablas D k" unfolding tablas_def h using tD hD by (intro Collect_cong) metis
  have mp: "mapeos (insert p D) k' f = mapeos D k f" for f
    using p(3) by (auto simp: mapeos_def pe pp)
  show rf: "\<And>f. refs (insert p D) extra k' f = refs D extra k f" by (simp add: refs_def mp)
  have "pag.libres k' ys = pag.libres k ys"
    by (rule pag.libres_cong) (use k'(2,3) p(2) in metis)+
  then have "estructura (insert p D) ys k'"
    unfolding estructura_def h k'(1) using E p(1,2) tD hD pt k'(3,4) by (auto; metis)
  moreover have "conteo (insert p D) extra ys k'"
    unfolding conteo_def rf tb k'(1)
  proof (intro conjI ballI allI impI)
    fix q assume "q \<in> set ys"
    then show "pp_ref (pages k' q) = 0" using C(1) k'(3) p(2) by metis
  next
    fix d i j assume "d \<in> insert p D" "i < NPDU" "j < 1024" "pte_en k' d i j \<noteq> 0"
    then show "pte_en k' d i j AND PTE_P = PTE_P" using C(2) pp by (auto simp: pe)
  next
    fix f assume f: "0 < refs D extra k f"
    then have "f \<noteq> p" using p(5) by auto
    with C(3) [OF f] k'(3) show "pp_ref (pages k' f) = word_of_nat (refs D extra k f)" "refs D extra k f < 65536"
      "f < npages k" "f \<notin> set ys" "f \<notin> insert p D" "f \<notin> tablas D k" by auto
  qed
  ultimately show vm': "vm_ok (insert p D) extra ys k'" by (simp add: vm_ok_def)
  show "\<And>q. q < NPAG \<Longrightarrow> entrada k' p q = 0" by (simp add: entrada_def pp NPAG_indices)
  have eD: "entrada k' d q = entrada k d q" if "d \<in> D" "q < NPAG" for d q
    using pe [OF that(1) NPAG_indices(1) [OF that(2)]] by (simp add: entrada_def)
  then show "\<And>d q. d \<in> D \<Longrightarrow> q < NPAG \<Longrightarrow> entrada k' d q = entrada k d q" by blast
  show "\<And>d q. d \<in> D \<Longrightarrow> q < NPAG \<Longrightarrow> palabra k' d q = palabra k d q"
  proof (rule palabra_cong)
    fix d q assume d: "d \<in> D" "q < NPAG"
    show "entrada k' d q = entrada k d q" by (rule eD [OF d])
    assume "entrada k d q \<noteq> 0"
    then have "refs D extra k (marco (entrada k d q)) > 0"
      using entrada_contada(1) [OF vm d(1) NPAG_indices(1) [OF d(2)] NPAG_indices(2)] by (simp add: entrada_def)
    with p(5) have "marco (entrada k d q) \<noteq> p" by auto
    with k'(5) show "mem k' (marco (entrada k d q)) = mem k (marco (entrada k d q))" by simp
  qed
qed

lemma env_setup_vm_mas:
  assumes "page_free_list k = Some p" "p < npages k" "npages k \<le> 2 ^ 20" "p \<noteq> kern_pgdir k" "env_setup_vm e k = Some (r, k')"
  shows "r = 0" "npages k' = npages k" "page_free_list k' = pp_link (pages k p)" "pp_link (pages k' p) = None"
    "envs k' = (envs k)(e := (envs k e)\<lparr>env_pgdir := Some p\<rparr>)" "curenv k' = curenv k"
    "\<And>q. q \<noteq> p \<Longrightarrow> pages k' q = pages k q" "\<And>q. q \<noteq> p \<Longrightarrow> mem k' q = mem k q"
    "\<And>i. mem k' p i = (if i = unat (PDX UVPT) then page2pa p OR PTE_P OR PTE_U else mem k (kern_pgdir k) i)"
proof -
  have "p < 2 ^ 20" using assms(2,3) by simp
  then have u: "unat (PGNUM (page2pa p)) = p"
    by (simp add: PGNUM_page2pa unat_of_nat take_bit_nat_eq_self)
  note f = assms(5) [unfolded env_setup_vm_def page_alloc_forma [OF assms(1-3)]]
  show "r = 0" "npages k' = npages k" "page_free_list k' = pp_link (pages k p)" "pp_link (pages k' p) = None"
    "envs k' = (envs k)(e := (envs k e)\<lparr>env_pgdir := Some p\<rparr>)" "curenv k' = curenv k"
    "\<And>q. q \<noteq> p \<Longrightarrow> pages k' q = pages k q" "\<And>q. q \<noteq> p \<Longrightarrow> mem k' q = mem k q"
    "\<And>i. mem k' p i = (if i = unat (PDX UVPT) then page2pa p OR PTE_P OR PTE_U else mem k (kern_pgdir k) i)"
    using f assms(2,4) u
    by (auto simp: page2kva_def KADDR_def pp_ref_inc_def con_env_def con_page_def escribir_def)
qed

text \<open>The memory of the old spaces and of the new one after \<open>env_setup_vm\<close>.\<close>

lemma env_setup_vm_memorias:
  assumes ok: "memorias_ok D extra (p # ys) k" and kp: "p \<noteq> kern_pgdir k" "\<forall>i<NPDU. mem k (kern_pgdir k) i = 0"
    and s: "env_setup_vm e k = Some (r, k')"
  shows "memorias_ok (insert p D) extra ys k'" "p \<notin> D" "\<And>q. q < NPAG \<Longrightarrow> entrada k' p q = 0"
    "\<And>d q. d \<in> D \<Longrightarrow> q < NPAG \<Longrightarrow> entrada k' d q = entrada k d q \<and> palabra k' d q = palabra k d q"
    "\<And>f. refs (insert p D) extra k' f = refs D extra k f" "\<And>d. d \<in> D \<Longrightarrow> mem k' d = mem k d"
proof -
  note M = memorias_okD [OF ok]
  let ?k1 = "k\<lparr>page_free_list := pp_link (pages k p), pages := (pages k)(p := (pages k p)\<lparr>pp_link := None\<rparr>),
      mem := (if False then (mem k)(p := (\<lambda>_. 0)) else mem k)\<rparr>"
  note a = page_alloc_vm(1,2,9-13) [OF M(1), where zero = False] and a' = page_alloc_vm(3-8) [OF M(1)]
  have fl: "page_free_list k = Some p" using vm_libres [OF M(1)] by (simp add: pag.libres_def)
  note S = env_setup_vm_mas [OF fl a'(1) estructuraD(1) [OF vm_okD(1) [OF M(1)]] kp(1) s]
  have rf: "refs D extra ?k1 f = refs D extra k f" for f using a(6) by (simp add: refs_def)
  have N: "npages k' = npages ?k1" "page_free_list k' = page_free_list ?k1" "\<forall>q. q \<noteq> p \<longrightarrow> pages k' q = pages ?k1 q"
    "pp_link (pages k' p) = None" "\<forall>q. q \<noteq> p \<longrightarrow> mem k' q = mem ?k1 q" "\<forall>i<NPDU. mem k' p i = 0"
    using S kp(2) by (simp_all add: PDX_UVPT NPDU_def)
  have P: "p < npages ?k1" "p \<notin> set ys" "p \<notin> D" "p \<notin> tablas D ?k1" "refs D extra ?k1 p = 0"
    using a' a(5) rf by simp_all
  note R = nuevo_directorio [OF a(2) P N]
  show pD: "p \<notin> D" by (rule a'(3))
  show e0: "\<And>q. q < NPAG \<Longrightarrow> entrada k' p q = 0" by (rule R(3))
  have e1: "entrada ?k1 d q = entrada k d q" if "d \<in> D" "q < NPAG" for d q
    using a(3) [OF that(1) NPAG_indices(1) [OF that(2)]] by (simp add: entrada_def)
  have en: "entrada k' d q = entrada k d q \<and> palabra k' d q = palabra k d q" if "d \<in> D" "q < NPAG" for d q
  proof -
    have "palabra ?k1 d q = palabra k d q" by (rule palabra_cong) (use e1 [OF that] in simp_all)
    then show ?thesis using R(2,4) [OF that] e1 [OF that] by simp
  qed
  then show "\<And>d q. d \<in> D \<Longrightarrow> q < NPAG \<Longrightarrow> entrada k' d q = entrada k d q \<and> palabra k' d q = palabra k d q" .
  show "\<And>f. refs (insert p D) extra k' f = refs D extra k f" using R(5) rf by simp
  show mD: "\<And>d. d \<in> D \<Longrightarrow> mem k' d = mem k d" using S(8) pD by metis
  have "espacio_ok (insert p D) k'"
    using M(2) S(9) mD N(6) by (simp add: espacio_ok_def PDX_UVPT NPDU_def)
  moreover have "abiertas (insert p D) k'" using M(3) en e0 by (auto simp: abiertas_def)
  moreover have "privadas (insert p D) k'"
    unfolding privadas_def privada_def
  proof (intro ballI allI impI)
    fix d q d' q' assume d: "d \<in> insert p D" "q < NPAG" "entrada k' d q AND PTE_W \<noteq> 0"
      and d': "d' \<in> insert p D" "q' < NPAG" "entrada k' d' q' \<noteq> 0" "marco (entrada k' d' q') = marco (entrada k' d q)"
    have "d \<in> D" "d' \<in> D" using d d' e0 by auto
    with M(4) d d' en show "d' = d \<and> q' = q" by (simp add: privadas_def privada_def)
  qed
  ultimately show "memorias_ok (insert p D) extra ys k'" using R(1) by (simp add: memorias_ok_def)
qed

section \<open>The child\<close>

lemma memoria_cong:
  assumes "npages k' = npages k" "pages k' = pages k" "page_free_list k' = page_free_list k" "mem k' = mem k"
  shows "entrada k' = entrada k" "palabra k' = palabra k" "refs D extra k' = refs D extra k"
    "memorias_ok D extra xs k' = memorias_ok D extra xs k"
proof -
  show en: "entrada k' = entrada k" by (simp add: entrada_def pte_en_def tabla_def fun_eq_iff assms(4))
  show "palabra k' = palabra k" by (simp add: palabra_def en fun_eq_iff assms(4))
  show "refs D extra k' = refs D extra k" unfolding refs_def mapeos_mem [OF assms(4)] ..
  have "espacio_ok D k' = espacio_ok D k" by (simp add: espacio_ok_def assms(4))
  then show "memorias_ok D extra xs k' = memorias_ok D extra xs k"
    unfolding memorias_ok_def abiertas_def privadas_def privada_def en vm_ok_cong [OF assms] by simp
qed

text \<open>The child that \<open>sys_exofork\<close> leaves: a copy of the parent's registers that returns 0.\<close>

definition hijo_de :: "env \<Rightarrow> uint32 \<Rightarrow> env \<Rightarrow> bool" where
  "hijo_de padre hid x \<longleftrightarrow> env_id x = hid \<and> env_parent_id x = env_id padre
     \<and> env_tf x = (env_tf padre)\<lparr>tf_regs := (tf_regs (env_tf padre))\<lparr>reg_eax := 0\<rparr>\<rparr>
     \<and> env_priority x = env_priority padre \<and> env_ipc_recving x = False"

lemma exofork_hijo:
  assumes ok: "memorias_ok D extra (p # ys) k" and c: "curenv k = Some c" "env_pgdir (envs k c) = Some pd" "pd \<in> D"
    and h: "env_free_list k = Some h" "h < NENV" "h \<noteq> c"
    and kp: "p \<noteq> kern_pgdir k" "\<forall>i<NPDU. mem k (kern_pgdir k) i = 0" and rf: "\<forall>f. refs D extra k f < 32767"
  shows "\<exists>k' hid. u_exofork plan k = Some (sint hid, k') \<and> 0 < sint hid \<and> memorias_ok (insert p D) extra ys k'
    \<and> padre_hijo (insert p D) extra k' hid c pd h p \<and> p \<notin> D
    \<and> (\<forall>d\<in>D. \<forall>q<NPAG. entrada k' d q = entrada k d q \<and> palabra k' d q = palabra k d q)
    \<and> (\<forall>d\<in>D. mem k' d = mem k d)
    \<and> hijo_de (envs k c) hid (envs k' h) \<and> (\<forall>e. e \<noteq> h \<longrightarrow> envs k' e = envs k e)"
proof -
  note M = memorias_okD [OF ok]
  note a' = page_alloc_vm(3) [OF M(1)] and n20 = estructuraD(1) [OF vm_okD(1) [OF M(1)]]
  have fl: "page_free_list k = Some p" using vm_libres [OF M(1)] by (simp add: pag.libres_def)
  obtain k1 where k1: "env_setup_vm h k = Some (0, k1)"
    using env_setup_vm_forma [OF fl a' n20 kp(1), of h] by blast
  note S = env_setup_vm_mas [OF fl a' n20 kp(1) k1]
  note R = env_setup_vm_memorias [OF ok kp(1) kp(2) k1]
  define hid where "hid = nuevo_env_id (env_id (envs k h)) h"
  note ni = nuevo_env_id_props [OF h(2), of "env_id (envs k h)", folded hid_def]
  define padre where "padre = envs k c"
  define k' where "k' = con_env h (\<lambda>x. x\<lparr>env_id := hid, env_parent_id := env_id padre,
      env_type := 0, env_runs := 0, env_pgfault_upcall := 0, env_ipc_recving := False,
      env_status := ENV_NOT_RUNNABLE, env_tf := (env_tf padre)\<lparr>tf_regs := (tf_regs (env_tf padre))\<lparr>reg_eax := 0\<rparr>\<rparr>,
      env_priority := env_priority padre\<rparr>) (k1\<lparr>env_free_list := env_link (envs k h)\<rparr>)"
  have idh: "env_id (envs k1 h) = env_id (envs k h)" "env_link (envs k1 h) = env_link (envs k h)" "envs k1 c = padre"
    using h(3) by (simp_all add: S(5) padre_def)
  have "sys_exofork k = Ret (sint hid) k'"
    using h(1,3) c(1)
    by (simp add: sys_exofork_def env_alloc_def k1 Let_def k'_def con_env_def idh hid_def padre_def [symmetric] S(5))
  then have call: "u_exofork plan k = Some (sint hid, k')"
    by (simp add: u_exofork_def int_syscall_def syscall_def)
  have mk: "npages k' = npages k1" "pages k' = pages k1" "page_free_list k' = page_free_list k1" "mem k' = mem k1"
    by (simp_all add: k'_def)
  note MC = memoria_cong [OF mk]
  have ek: "envs k' e = envs k e" if "e \<noteq> h" for e using that by (simp add: k'_def S(5))
  have eh: "hijo_de padre hid (envs k' h)" "env_status (envs k' h) = ENV_NOT_RUNNABLE" "env_pgdir (envs k' h) = Some p"
    "env_id (envs k' h) = hid" "env_parent_id (envs k' h) = env_id padre"
    by (simp_all add: k'_def hijo_de_def S(5))
  have cur: "curenv k' = Some c" using c(1) by (simp add: k'_def S(6))
  have nz: "hid \<noteq> 0" using ni(2) sint_pos_no_cero by blast
  have id: "envid2env hid True k' = Some (0, Some h)"
    using nz ni(1) eh cur h(3) ek [of c] by (simp add: envid2env_def padre_def)
  have "padre_hijo (insert p D) extra k' hid c pd h p"
    unfolding padre_hijo_def MC(1,3) R(5)
    using cur c ek [of c] h(3) id eh(3) R(2) R(3) rf memorias_okD(3) [OF R(1)]
    by (auto simp: MC(1) abiertas_def)
  moreover have "memorias_ok (insert p D) extra ys k'" using R(1) by (simp add: MC(4))
  moreover have "\<forall>d\<in>D. \<forall>q<NPAG. entrada k' d q = entrada k d q \<and> palabra k' d q = palabra k d q"
    using R(4) by (simp add: MC(1,2))
  moreover have "\<forall>d\<in>D. mem k' d = mem k d" using R(6) by (simp add: mk(4))
  ultimately show ?thesis
    using call ni(2) R(2) eh(1) ek unfolding padre_def by blast
qed

lemma faltan_todas: "faltan (tablas_de k pd) k' cd \<le> card (tablas_de k pd)"
  unfolding faltan_def by (intro card_mono) auto

lemma upcall_copiado:
  assumes ph: "padre_hijo D extra k0 hid c pd h cd" and f: "funcion_mapeada k0 pd func"
    and en: "\<forall>d\<in>D. \<forall>q<NPAG. entrada k d q =
          (if d = cd \<and> q = pagina_pila then entrada_privada p else tras_fork k0 pd cd NPAG d q)"
    and q: "unat func div 4096 \<le> q" "q < (unat func + 8191) div 4096"
  shows "entrada k cd q \<noteq> 0 \<and> entrada k cd q AND PTE_U = PTE_U"
proof -
  have qp: "q < pagina_pila" "q < NPAG" using f q(2) by (auto simp: funcion_mapeada_def pagina_pila_def NPAG_def)
  have "entrada k0 pd q \<noteq> 0" using f q by (simp add: funcion_mapeada_def)
  then have "entrada k cd q = entrada_dup (entrada k0 pd q)"
    using en padre_hijoD(6) [OF ph] qp by (simp add: tras_fork_def copiada_def)
  then show ?thesis by (simp add: entrada_dup_bits)
qed

text \<open>The parent's part of \<open>fork\<close>, from the state after \<open>sys_exofork\<close>.\<close>

lemma fork_tras_padre:
  assumes ok: "memorias_ok D extra xs k" and ph: "padre_hijo D extra k hid c pd h cd" and n: "0 < sint hid"
    and u: "thisenv u = c" and f: "funcion_mapeada k pd (env_pgfault_upcall (envs k c))"
    and l: "card (tablas_de k pd) + 1 \<le> length xs"
  shows "\<exists>k' xs'. fork_tras plan (sint hid) u k = Some (sint hid, u, k') \<and> memorias_ok D extra xs' k'
    \<and> (\<forall>d\<in>D. \<forall>q<NPAG. palabra k' d q =
          (if d = cd then (if q = pagina_pila then (\<lambda>_. Some 0) else palabra k pd q) else palabra k d q))
    \<and> envs k' = (envs k)(h := (envs k h)\<lparr>env_pgfault_upcall := env_pgfault_upcall (envs k c), env_status := ENV_RUNNABLE\<rparr>)"
proof -
  let ?f = "env_pgfault_upcall (envs k c)"
  note M = memorias_okD [OF ok] and P = padre_hijoD [OF ph]
  have U: "unat (drop_bit 12 UTOP) = NPAG" by (simp add: unat_drop UTOP_valor NPAG_def)
  obtain k1 xs1 where k1: "fork_paginas plan hid [0..<NPAG] k = Some k1" "fork_inv D extra k pd cd NPAG xs1 k1"
    "faltan (tablas_de k pd) k1 cd + 1 \<le> length xs1"
    using fork_paginas_inv [OF ph fork_inv_inicio [OF M(1,2)], of NPAG 1 plan] l faltan_todas [of k pd k cd] by auto
  obtain p k2 xs2 where k2: "exigir (u_page_alloc plan hid (UXSTACKTOP - PGSIZE) (PTE_U OR PTE_P OR PTE_W) k1) = Some k2"
    "vm_ok D extra xs2 k2" "espacio_ok D k2" "solo_vm k k2" "p \<in> set xs1" "p < 2 ^ 20"
    "\<forall>d\<in>D. \<forall>q<NPAG. entrada k2 d q =
          (if d = cd \<and> q = pagina_pila then entrada_privada p else tras_fork k pd cd NPAG d q)"
    "\<forall>d\<in>D. \<forall>q<NPAG. palabra k2 d q =
          (if d = cd then (if q = pagina_pila then (\<lambda>_. Some 0) else palabra k pd q) else palabra k d q)"
    using pila_hijo [OF ph k1(2,3), of plan] by (elim exE conjE) (rule that)
  note S = solo_vmD [OF k2(4)]
  have t: "envid2env hid True k2 = Some (0, Some h)" "env_pgdir (envs k2 h) = Some cd"
    using P(3,4) envid2env_solo [OF k2(4)] by (simp_all add: S)
  have fm: "(unat ?f + 8191) div 4096 \<le> pagina_pila" using f by (simp add: funcion_mapeada_def)
  let ?k3 = "con_env h (\<lambda>r. r\<lparr>env_pgfault_upcall := ?f\<rparr>) k2"
  have k3: "exigir (u_env_set_pgfault_upcall plan hid ?f k2) = Some ?k3"
    by (rule upcall_hijo [OF k2(2) t P(6) fm]) (rule upcall_copiado [OF ph f k2(7)])
  have "envid2env hid True ?k3 = envid2env hid True k2"
    by (auto simp: envid2env_def Let_def split: option.split)
  then have k4: "exigir (u_env_set_status plan hid 2 ?k3) = Some (con_env h (\<lambda>r. r\<lparr>env_status := ENV_RUNNABLE\<rparr>) ?k3)"
    using t(1) by (intro status_hijo) simp
  let ?k4 = "con_env h (\<lambda>r. r\<lparr>env_status := ENV_RUNNABLE\<rparr>) ?k3"
  have nz: "\<not> sint hid < 0" "sint hid \<noteq> 0" using n by simp_all
  have call: "fork_tras plan (sint hid) u k = Some (sint hid, u, ?k4)"
    using nz k1(1) k2(1) k3 k4 by (simp add: fork_tras_def U u S)
  have nueva: "marco (entrada k d q) \<noteq> p" if "d \<in> D" "q < NPAG" "entrada k d q \<noteq> 0" for d q
  proof -
    have "entrada k1 d q \<noteq> 0 \<and> marco (entrada k1 d q) = marco (entrada k d q)"
      using fork_invD(4) [OF k1(2) that(1,2)] that P(7,9) by (auto simp: tras_fork_def entrada_dup_bits entrada_dup_marco)
    with entrada_marco(3) [OF fork_invD(1) [OF k1(2)] that(1,2)] k2(5) show ?thesis by auto
  qed
  have en2: "\<And>d q. d \<in> D \<Longrightarrow> q < NPAG \<Longrightarrow> entrada k2 d q =
      (if d = cd \<and> q = pagina_pila then entrada_privada p else tras_fork k pd cd NPAG d q)"
    using k2(7) by blast
  note A = entrada_final [OF ph M(4) k2(6) nueva en2]
  have "memorias_ok D extra xs2 k2" using k2(2,3) A by (simp add: memorias_ok_def)
  then have "memorias_ok D extra xs2 ?k4" using memoria_cong(4) [of ?k4 k2] by simp
  moreover have "palabra ?k4 = palabra k2" by (simp add: con_env_memoria)
  moreover have "envs ?k4 = (envs k)(h := (envs k h)\<lparr>env_pgfault_upcall := ?f, env_status := ENV_RUNNABLE\<rparr>)"
    by (simp add: con_env_def S)
  ultimately show ?thesis using call k2(8) by (intro exI [of _ ?k4] exI [of _ xs2]) simp
qed

text \<open>What the child computes when it first runs: it returns 0 and knows itself.\<close>

lemma fork_en_el_hijo:
  assumes "curenv k = Some h" "ENVX (env_id (envs k h)) = h"
  shows "fork_tras plan 0 u k = Some (0, u\<lparr>thisenv := h\<rparr>, k)"
  using assms by (simp add: fork_tras_def u_getenvid_def int_syscall_def syscall_def sys_getenvid_def)

section \<open>The property of fork\<close>

text \<open>
  C20: \<open>fork\<close> copies the program's memory. Once the fault handler is in place, with a free
  environment and as many free pages as the program has tables, plus two, it always returns
  the positive identifier of a new environment whose directory is the first free page.
  Every word below \<open>UTOP\<close> reads the same in the child as in the parent, except the child's
  exception stack, which is a page of zeros; no word of the parent or of any other program
  changes; and pages that can be written are private again, so that later stores are not
  seen across. The child is runnable, has the parent's registers with 0 as the result, its
  priority and its upcall, and no other environment changes.
\<close>

theorem fork_copia:
  assumes s: "set_pgfault_handler plan upcall handler u k0 = Some (u1, k)"
    and ok: "memorias_ok D extra (p # ys) k" and c: "curenv k = Some c" "env_pgdir (envs k c) = Some pd" "pd \<in> D"
    and h: "env_free_list k = Some h" "h < NENV" "h \<noteq> c"
    and kp: "p \<noteq> kern_pgdir k" "\<forall>i<NPDU. mem k (kern_pgdir k) i = 0" and rf: "\<forall>f. refs D extra k f < 32767"
    and u: "thisenv u1 = c" and f: "funcion_mapeada k pd (env_pgfault_upcall (envs k c))"
    and l: "card (tablas_de k pd) + 1 \<le> length ys"
  shows "\<exists>k' hid xs. fork plan upcall handler u k0 = Some (sint hid, u1, k') \<and> 0 < sint hid
    \<and> memorias_ok (insert p D) extra xs k' \<and> p \<notin> D \<and> env_pgdir (envs k' h) = Some p
    \<and> (\<forall>q<NPAG. palabra k' p q = (if q = pagina_pila then (\<lambda>_. Some 0) else palabra k pd q))
    \<and> (\<forall>d\<in>D. \<forall>q<NPAG. palabra k' d q = palabra k d q)
    \<and> hijo_de (envs k c) hid (envs k' h) \<and> env_status (envs k' h) = ENV_RUNNABLE
    \<and> env_pgfault_upcall (envs k' h) = env_pgfault_upcall (envs k c) \<and> (\<forall>e. e \<noteq> h \<longrightarrow> envs k' e = envs k e)"
proof -
  obtain k1 hid where k1: "u_exofork plan k = Some (sint hid, k1)" "0 < sint hid" "memorias_ok (insert p D) extra ys k1"
    "padre_hijo (insert p D) extra k1 hid c pd h p" "p \<notin> D"
    "\<forall>d\<in>D. \<forall>q<NPAG. entrada k1 d q = entrada k d q \<and> palabra k1 d q = palabra k d q"
    "\<forall>d\<in>D. mem k1 d = mem k d" "hijo_de (envs k c) hid (envs k1 h)" "\<forall>e. e \<noteq> h \<longrightarrow> envs k1 e = envs k e"
    using exofork_hijo [OF ok c h kp rf, of plan] by (elim exE conjE) (rule that)
  have ec: "envs k1 c = envs k c" using k1(9) h(3) by simp
  have pila: "pagina_pila \<le> NPAG" by (simp add: pagina_pila_def NPAG_def)
  have f1: "funcion_mapeada k1 pd (env_pgfault_upcall (envs k1 c))"
    using f k1(6) c(3) pila unfolding funcion_mapeada_def ec by auto
  have l1: "card (tablas_de k1 pd) + 1 \<le> length ys" using l k1(7) c(3) by (simp add: tablas_de_def)
  obtain k' xs where k': "fork_tras plan (sint hid) u1 k1 = Some (sint hid, u1, k')" "memorias_ok (insert p D) extra xs k'"
    "\<forall>d\<in>insert p D. \<forall>q<NPAG. palabra k' d q =
          (if d = p then (if q = pagina_pila then (\<lambda>_. Some 0) else palabra k1 pd q) else palabra k1 d q)"
    "envs k' = (envs k1)(h := (envs k1 h)\<lparr>env_pgfault_upcall := env_pgfault_upcall (envs k1 c), env_status := ENV_RUNNABLE\<rparr>)"
    using fork_tras_padre [OF k1(3,4,2) u f1 l1, of plan] by (elim exE conjE) (rule that)
  have "fork plan upcall handler u k0 = Some (sint hid, u1, k')" using s k1(1) k'(1) by (simp add: fork_def)
  moreover have "\<forall>q<NPAG. palabra k' p q = (if q = pagina_pila then (\<lambda>_. Some 0) else palabra k pd q)"
    using k'(3) k1(6) c(3) by simp
  moreover have "\<forall>d\<in>D. \<forall>q<NPAG. palabra k' d q = palabra k d q" using k'(3) k1(5,6) by auto
  moreover have "hijo_de (envs k c) hid (envs k' h)" using k1(8) by (simp add: k'(4) hijo_de_def)
  moreover have "env_pgdir (envs k' h) = Some p" using padre_hijoD(4) [OF k1(4)] by (simp add: k'(4))
  moreover have "env_status (envs k' h) = ENV_RUNNABLE" "env_pgfault_upcall (envs k' h) = env_pgfault_upcall (envs k c)"
    "\<forall>e. e \<noteq> h \<longrightarrow> envs k' e = envs k e"
    using ec k1(9) by (simp_all add: k'(4))
  ultimately show ?thesis using k1(2,5) k'(2) by blast
qed

lemma k_usr_fork: "card (tablas_de k_usr 8) = 2" "refs {8} (\<lambda>_. 0) k_usr f < 32767"
  "funcion_mapeada k_usr 8 0x803000"
proof -
  have "i \<in> tablas_de k_usr 8 \<longleftrightarrow> i = 954 \<or> i = 2" for i
    using k_usr_dir(1) [of i] by (auto simp: tablas_de_def NPDU_def)
  then have "tablas_de k_usr 8 = {954, 2}" by blast
  then show "card (tablas_de k_usr 8) = 2" by simp
  show "refs {8} (\<lambda>_. 0) k_usr f < 32767" by (simp add: refs_def k_usr_mapeos)
  have "entrada k_usr 8 q \<noteq> 0" if "2051 \<le> q" "q < 2052" for q
    using that by (simp add: k_usr_entrada pte_usr_props NPAG_def)
  then show "funcion_mapeada k_usr 8 0x803000" by (simp add: funcion_mapeada_def pagina_pila_def)
qed

lemma fork_copia_witness:
  "\<exists>k' (hid :: uint32). fork SCHED_ROUND_ROBIN 0x803000 1 \<lparr>thisenv = 1, pgfault_handler = 1\<rparr> k_usr
      = Some (sint hid, \<lparr>thisenv = 1, pgfault_handler = 1\<rparr>, k') \<and> 0 < sint hid
    \<and> env_pgdir (envs k' 3) = Some 2 \<and> palabra k' 2 2051 0 = Some 42 \<and> palabra k' 8 2051 0 = Some 42"
proof -
  let ?u = "\<lparr>thisenv = 1, pgfault_handler = 1\<rparr>"
  have s: "set_pgfault_handler SCHED_ROUND_ROBIN 0x803000 1 ?u k_usr = Some (?u, k_usr)"
    by (simp add: set_pgfault_handler_def)
  have e: "env_pgdir (envs k_usr 1) = Some 8" "8 \<in> {8 :: nat}" by simp_all
  have h: "3 < NENV" "3 \<noteq> (1 :: nat)" by (simp_all add: NENV_def)
  have kp: "2 \<noteq> kern_pgdir k_usr" "\<forall>i<NPDU. mem k_usr (kern_pgdir k_usr) i = 0" by (simp_all add: k_usr_mem)
  have u: "thisenv ?u = 1" by simp
  have f: "funcion_mapeada k_usr 8 (env_pgfault_upcall (envs k_usr 1))" using k_usr_fork(3) by simp
  have l: "card (tablas_de k_usr 8) + 1 \<le> length [3, 4, 7 :: nat]" by (simp add: k_usr_fork(1))
  have r: "\<forall>f. refs {8} (\<lambda>_. 0) k_usr f < 32767" using k_usr_fork(2) by blast
  have N: "2051 < NPAG" "2051 \<noteq> pagina_pila" by (simp_all add: NPAG_def pagina_pila_def)
  have w: "palabra k_usr 8 2051 0 = Some 42"
    using N by (simp add: palabra_def k_usr_entrada pte_usr_props k_usr_mem)
  obtain k' and hid :: uint32 where F: "fork SCHED_ROUND_ROBIN 0x803000 1 ?u k_usr = Some (sint hid, ?u, k')" "0 < sint hid"
    "env_pgdir (envs k' 3) = Some 2"
    "\<forall>q<NPAG. palabra k' 2 q = (if q = pagina_pila then (\<lambda>_. Some 0) else palabra k_usr 8 q)"
    "\<forall>d\<in>{8}. \<forall>q<NPAG. palabra k' d q = palabra k_usr d q"
    using fork_copia [OF s k_usr_ok k_usr_simps(3) e k_usr_simps(9) h kp r u f l]
    by (elim exE conjE) (rule that)
  have "palabra k' 2 2051 0 = Some 42" using F(4) [rule_format, OF N(1)] N(2) w by simp
  moreover have "palabra k' 8 2051 0 = Some 42" using F(5) [rule_format, OF _ N(1), of 8] w by simp
  ultimately show ?thesis using F(1-3) by blast
qed

end
