(* ===== verification/Upcall.thy ===== *)
theory Upcall
  imports User_Lib Trap
begin

text \<open>
  The way back from a page fault: \<open>_pgfault_upcall\<close> of \<open>TP2-sched/lib/pfentry.S\<close>, which
  the kernel enters with the stack pointer on the \<open>struct UTrapframe\<close> it wrote
  (\<open>page_fault_handler\<close>), run in user mode by the current environment with \<open>pgfault\<close> of
  \<open>lib/fork.c\<close> as its C handler. The words it reads and pushes go through the page tables at
  the addresses of its stacks, which need not be multiples of four; the stack frame of the
  compiled handler, below what is pushed here, is left out.
\<close>

definition leer_pila :: "kernel \<Rightarrow> uint32 \<Rightarrow> uint32 option" where
  "leer_pila k a =
     do { pd \<leftarrow> espacio k; f \<leftarrow> traducir k pd False a; Some (leer_palabra k f (unat (PGOFF a))) }"

definition poner_pila :: "uint32 \<Rightarrow> uint32 \<Rightarrow> kernel \<Rightarrow> kernel option" where
  "poner_pila a v k =
     do { pd \<leftarrow> espacio k; f \<leftarrow> traducir k pd True a; Some (poner_palabra f (unat (PGOFF a)) v k) }"

text \<open>\<open>pushl %esp\<close>, \<open>call *%eax\<close> with the address it returns to, and the handler.\<close>

definition upcall_handler :: "planificador \<Rightarrow> uint32 \<Rightarrow> uint32 \<Rightarrow> kernel \<Rightarrow> kernel option" where
  "upcall_handler plan vuelta utf k =
     do {
       k1 \<leftarrow> poner_pila (utf - 4) utf k;
       k2 \<leftarrow> poner_pila (utf - 8) vuelta k1;
       fault_va \<leftarrow> leer_pila k2 utf;
       err \<leftarrow> leer_pila k2 (utf + 4);
       pgfault plan fault_va err k2
     }"

text \<open>The trap-time \<open>eip\<close> goes on the trap-time stack, and its \<open>esp\<close> in the frame is moved to it.\<close>

definition upcall_eip :: "uint32 \<Rightarrow> kernel \<Rightarrow> kernel option" where
  "upcall_eip utf k =
     do {
       eip \<leftarrow> leer_pila k (utf + 40);
       esp \<leftarrow> leer_pila k (utf + 48);
       k1 \<leftarrow> poner_pila (esp - 4) eip k;
       poner_pila (utf + 48) (esp - 4) k1
     }"

text \<open>\<open>popal\<close>, \<open>popfl\<close>, \<open>popl %esp\<close> and \<open>ret\<close>; \<open>popal\<close> skips the saved \<open>esp\<close>.\<close>

definition upcall_restaurar :: "uint32 \<Rightarrow> trapframe \<Rightarrow> kernel \<Rightarrow> trapframe option" where
  "upcall_restaurar utf r k =
     do {
       edi \<leftarrow> leer_pila k (utf + 8);
       esi \<leftarrow> leer_pila k (utf + 12);
       ebp \<leftarrow> leer_pila k (utf + 16);
       ebx \<leftarrow> leer_pila k (utf + 24);
       edx \<leftarrow> leer_pila k (utf + 28);
       ecx \<leftarrow> leer_pila k (utf + 32);
       eax \<leftarrow> leer_pila k (utf + 36);
       eflags \<leftarrow> leer_pila k (utf + 44);
       esp \<leftarrow> leer_pila k (utf + 48);
       eip \<leftarrow> leer_pila k esp;
       Some (r\<lparr>tf_regs := (tf_regs r)\<lparr>reg_edi := edi, reg_esi := esi, reg_ebp := ebp, reg_ebx := ebx,
                 reg_edx := edx, reg_ecx := ecx, reg_eax := eax\<rparr>,
               tf_eflags := eflags, tf_eip := eip, tf_esp := esp + 4\<rparr>)
     }"

text \<open>All of it, from the registers with which the kernel enters it to those it leaves.\<close>

definition pgfault_upcall :: "planificador \<Rightarrow> uint32 \<Rightarrow> trapframe \<Rightarrow> kernel \<Rightarrow> (trapframe \<times> kernel) option" where
  "pgfault_upcall plan vuelta r k =
     do {
       k1 \<leftarrow> upcall_handler plan vuelta (tf_esp r) k;
       k2 \<leftarrow> upcall_eip (tf_esp r) k1;
       r' \<leftarrow> upcall_restaurar (tf_esp r) r k2;
       Some (r', k2)
     }"

end
