(* ===== verification/Cow_Claims.thy ===== *)
theory Cow_Claims
  imports Upcall User_Claims Trap_Claims
begin

text \<open>
  A store to a page shared copy-on-write, from the trap it causes to the instruction that is
  tried again: the kernel's handler, \<open>_pgfault_upcall\<close> and \<open>pgfault\<close> composed.
\<close>

section \<open>Writing in one page\<close>

lemma poner_byte_mem: "\<exists>g. poner_byte f i b k = k\<lparr>mem := (mem k)(f := g)\<rparr>"
  by (auto simp: poner_byte_def escribir_def)

lemma mem_dos: "\<exists>g. k' = k\<lparr>mem := (mem k)(f := g)\<rparr> \<Longrightarrow> \<exists>g. k'' = k'\<lparr>mem := (mem k')(f := g)\<rparr>
    \<Longrightarrow> \<exists>g. k'' = k\<lparr>mem := (mem k)(f := g)\<rparr>"
  by auto

lemma poner_palabra_mem: "\<exists>g. poner_palabra f i v k = k\<lparr>mem := (mem k)(f := g)\<rparr>"
  unfolding poner_palabra_def by (intro mem_dos [OF _ poner_byte_mem] poner_byte_mem)

lemma poner_palabras_mem: "\<exists>g. poner_palabras f i vs k = k\<lparr>mem := (mem k)(f := g)\<rparr>"
proof (induction vs arbitrary: i k)
  case (Cons v vs)
  show ?case unfolding poner_palabras.simps by (rule mem_dos [OF poner_palabra_mem Cons.IH])
next
  case Nil
  show ?case by (rule exI [of _ "mem k f"]) simp
qed

lemma poner_palabra_alineada:
  assumes "i mod 4 = 0"
  shows "poner_palabra f i v k = escribir f (i div 4) v k"
proof -
  obtain m where m: "i = 4 * m" using assms by auto
  have d: "(4 * m + 1) div 4 = m" "(4 * m + 2) div 4 = m" "(4 * m + 3) div 4 = m"
    "(4 * m + 1) mod 4 = 1" "(4 * m + 2) mod 4 = 2" "(4 * m + 3) mod 4 = 3" by presburger+
  have "mem (poner_palabra f i v k) g w = (if g = f \<and> w = m then v else mem k g w)" for g w
  proof (rule bit_word_eqI)
    fix n assume "n < LENGTH(32)"
    then have n: "n < 32" by simp
    then consider "n < 8" | "8 \<le> n" "n < 16" | "16 \<le> n" "n < 24" | "24 \<le> n" "n < 32" by linarith
    then show "bit (mem (poner_palabra f i v k) g w) n = bit (if g = f \<and> w = m then v else mem k g w) n"
      unfolding poner_palabra_def bit_poner_byte [OF n] m d by cases (auto simp: bit_simps)
  qed
  then have "mem (poner_palabra f i v k) = (mem k)(f := (mem k f)(m := v))" by (auto simp: fun_eq_iff)
  moreover obtain g where "poner_palabra f i v k = k\<lparr>mem := (mem k)(f := g)\<rparr>" using poner_palabra_mem by blast
  ultimately show ?thesis by (simp add: escribir_def m)
qed

lemma leer_poner_otra:
  assumes "g \<noteq> f \<or> j + 4 \<le> i \<or> i + 4 \<le> j"
  shows "leer_palabra (poner_palabra f i v k) g j = leer_palabra k g j"
  using assms by (auto simp: leer_palabra_def leer_poner_palabra_byte)

lemma leer_poner_misma: "leer_palabra (poner_palabra f i v k) f i = v"
  by (rule palabra_eqI) (simp add: leer_poner_palabra_byte)

lemma leer_palabra_marco: "mem k' g = mem k f \<Longrightarrow> leer_palabra k' g j = leer_palabra k f j"
  by (simp add: leer_palabra_def leer_byte_def)

section \<open>The stacks of a program\<close>

lemma memorias_ok_cong:
  assumes "npages k' = npages k" "pages k' = pages k" "page_free_list k' = page_free_list k" "mem k' = mem k"
  shows "memorias_ok D extra xs k' = memorias_ok D extra xs k" "entrada k' d q = entrada k d q"
    "palabra k' d q = palabra k d q"
proof -
  have e: "entrada k' = entrada k" using pte_en_mem [OF assms(4)] by (simp add: entrada_def fun_eq_iff)
  then show "entrada k' d q = entrada k d q" "palabra k' d q = palabra k d q"
    by (simp_all add: palabra_def fun_eq_iff assms(4))
  show "memorias_ok D extra xs k' = memorias_ok D extra xs k"
    using vm_ok_cong [OF assms] e
    by (simp add: memorias_ok_def espacio_ok_def abiertas_def privadas_def privada_def assms(4))
qed

text \<open>Any new contents of the frame of a page that no one else maps.\<close>

lemma contenido_privado:
  assumes ok: "memorias_ok D extra xs k" and x: "pd \<in> D" "x < NPAG" "entrada k pd x \<noteq> 0" "privada D k pd x"
    and k': "k' = k\<lparr>mem := (mem k)(marco (entrada k pd x) := g)\<rparr>"
  shows "memorias_ok D extra xs k'" "\<And>d r. d \<in> D \<Longrightarrow> r < NPAG \<Longrightarrow> entrada k' d r = entrada k d r"
    "\<And>d r. d \<in> D \<Longrightarrow> r < NPAG \<Longrightarrow> \<not> (d = pd \<and> r = x) \<Longrightarrow> palabra k' d r = palabra k d r"
proof -
  note M = memorias_okD [OF ok]
  note F = entrada_marco [OF M(1) x(1-3)]
  note K = contenido [OF M(1) F(1,2), where g = g, folded k']
  show e: "entrada k' d r = entrada k d r" if "d \<in> D" "r < NPAG" for d r by (rule K(2) [OF that])
  show "memorias_ok D extra xs k'"
    using K(1,3) M entradas_cong [of D k' k] e by (simp add: memorias_ok_def)
  show "palabra k' d r = palabra k d r" if "d \<in> D" "r < NPAG" "\<not> (d = pd \<and> r = x)" for d r
  proof (rule palabra_cong [OF e [OF that(1,2)]])
    assume "entrada k d r \<noteq> 0"
    with x(4) that have "marco (entrada k d r) \<noteq> marco (entrada k pd x)" unfolding privada_def by blast
    then show "mem k' (marco (entrada k d r)) = mem k (marco (entrada k d r))" by (simp add: k')
  qed
qed

text \<open>A push to a page that can be written, and what is read from one that is mapped.\<close>

lemma poner_pila_ok:
  fixes v :: uint32 and k :: kernel
  assumes ok: "memorias_ok D extra xs k" and e: "espacio k = Some pd" "pd \<in> D"
    and a: "unat (PGNUM a) < NPAG" "entrada k pd (unat (PGNUM a)) AND PTE_W \<noteq> 0"
  defines "k' \<equiv> poner_palabra (marco (entrada k pd (unat (PGNUM a)))) (unat (PGOFF a)) v k"
  shows "poner_pila a v k = Some k'" "memorias_ok D extra xs k'" "espacio k' = Some pd" "curenv k' = curenv k"
    "envs k' = envs k" "\<And>d r. d \<in> D \<Longrightarrow> r < NPAG \<Longrightarrow> entrada k' d r = entrada k d r"
    "\<And>d r. d \<in> D \<Longrightarrow> r < NPAG \<Longrightarrow> \<not> (d = pd \<and> r = unat (PGNUM a)) \<Longrightarrow> palabra k' d r = palabra k d r"
proof -
  let ?x = "unat (PGNUM a)"
  note M = memorias_okD [OF ok]
  have n: "entrada k pd ?x \<noteq> 0" using a(2) by auto
  have u: "entrada k pd ?x AND PTE_U = PTE_U" using M(3) e(2) a(1) n by (simp add: abiertas_def)
  have p: "privada D k pd ?x" using M(4) e(2) a by (simp add: privadas_def)
  obtain g where g: "k' = k\<lparr>mem := (mem k)(marco (entrada k pd ?x) := g)\<rparr>"
    unfolding k'_def using poner_palabra_mem by blast
  note C = contenido_privado [OF ok e(2) a(1) n p g]
  show "memorias_ok D extra xs k'" by (rule C(1))
  show "entrada k' d r = entrada k d r" if "d \<in> D" "r < NPAG" for d r by (rule C(2) [OF that])
  show "palabra k' d r = palabra k d r" if "d \<in> D" "r < NPAG" "\<not> (d = pd \<and> r = ?x)" for d r
    by (rule C(3) [OF that])
  show "curenv k' = curenv k" "envs k' = envs k" by (simp_all add: g)
  then show "espacio k' = Some pd" using e(1) by (simp add: espacio_def)
  have "traducir k pd True a = Some (marco (entrada k pd ?x))"
    using traducir_entrada [OF M(1,2) e(2) a(1), of True] n u a(2) by simp
  then show "poner_pila a v k = Some k'" by (simp add: poner_pila_def e(1) k'_def)
qed

lemma leer_pila_ok:
  assumes ok: "memorias_ok D extra xs k" and e: "espacio k = Some pd" "pd \<in> D"
    and a: "unat (PGNUM a) < NPAG" "entrada k pd (unat (PGNUM a)) \<noteq> 0"
  shows "leer_pila k a = Some (leer_palabra k (marco (entrada k pd (unat (PGNUM a)))) (unat (PGOFF a)))"
proof -
  note M = memorias_okD [OF ok]
  have "entrada k pd (unat (PGNUM a)) AND PTE_U = PTE_U" using M(3) e(2) a by (simp add: abiertas_def)
  then have "traducir k pd False a = Some (marco (entrada k pd (unat (PGNUM a))))"
    using traducir_entrada [OF M(1,2) e(2) a(1), of False] a(2) by simp
  then show ?thesis by (simp add: leer_pila_def e(1))
qed

section \<open>The trap\<close>

text \<open>The page of the exception stack and where the frame of a first fault goes.\<close>

definition pag_exstk :: nat where "pag_exstk = 977919"

lemma exstk_pagina: "unat (PGNUM exstk) = pag_exstk" "pag_exstk < NPAG" "pag_exstk \<noteq> 2047" "exstk < UTOP"
  by (simp_all add: unat_PGNUM exstk_valor pag_exstk_def NPAG_def UTOP_valor)

text \<open>The addresses of the words around the frame.\<close>

lemma utf_direcciones:
  "unat (PGNUM (0xEEBFFFCB - 4)) = pag_exstk" "unat (PGOFF (0xEEBFFFCB - 4)) = 4039"
  "unat (PGNUM (0xEEBFFFCB - 8)) = pag_exstk" "unat (PGOFF (0xEEBFFFCB - 8)) = 4035"
  "n \<le> 48 \<Longrightarrow> unat (PGNUM (0xEEBFFFCB + word_of_nat n)) = pag_exstk"
  "n \<le> 48 \<Longrightarrow> unat (PGOFF (0xEEBFFFCB + word_of_nat n)) = 4043 + n"
proof -
  show "unat (PGNUM (0xEEBFFFCB - 4)) = pag_exstk" "unat (PGOFF (0xEEBFFFCB - 4)) = 4039"
    "unat (PGNUM (0xEEBFFFCB - 8)) = pag_exstk" "unat (PGOFF (0xEEBFFFCB - 8)) = 4035"
    by (simp_all add: unat_PGNUM PGOFF_def pag_exstk_def)
  assume n: "n \<le> 48"
  have wn: "unat (word_of_nat n :: uint32) = n" using n by (intro unat_de_nat32) simp
  have u: "unat (0xEEBFFFCB + word_of_nat n :: uint32) = 4005560267 + n"
    unfolding unat_word_ariths(1) wn using n by simp
  then show "unat (PGNUM (0xEEBFFFCB + word_of_nat n)) = pag_exstk"
    using n by (simp add: unat_PGNUM pag_exstk_def)
  have "unat (PGOFF (0xEEBFFFCB + word_of_nat n)) = unat (0xEEBFFFCB + word_of_nat n :: uint32) mod 4096"
    unfolding PGOFF_def mascaras by (simp add: unat_and_mask)
  also have "\<dots> = (4096 * 977919 + (4043 + n)) mod 4096" unfolding u by simp
  also have "\<dots> = 4043 + n" unfolding mod_mult_self4 using n by simp
  finally show "unat (PGOFF (0xEEBFFFCB + word_of_nat n)) = 4043 + n" .
qed

lemma accesible_exstk:
  assumes ok: "memorias_ok D extra xs k" and pd: "pd \<in> D" and w: "entrada k pd pag_exstk AND PTE_W \<noteq> 0"
  shows "accesible k pd (PTE_U OR PTE_W) exstk"
proof -
  note M = memorias_okD [OF ok]
  let ?e = "entrada k pd pag_exstk"
  have n: "?e \<noteq> 0" using w by auto
  have u: "?e AND PTE_U = PTE_U" using M(3) pd n exstk_pagina(2) by (simp add: abiertas_def)
  have p: "?e AND PTE_P = PTE_P"
    using conteoD(2) [OF vm_okD(2) [OF M(1)] pd NPAG_indices(1) [OF exstk_pagina(2)] NPAG_indices(2)] n
    by (simp add: entrada_def)
  have w': "?e AND PTE_W = PTE_W" using w by (auto simp: and_PTE_W split: if_splits)
  have "?e AND ((PTE_U OR PTE_W) OR PTE_P) = (PTE_U OR PTE_W) OR PTE_P"
    unfolding bit.conj_disj_distrib u w' p ..
  then show ?thesis using entrada_ranura [of k pd exstk] by (simp add: accesible_def exstk_pagina(1))
qed

lemma env_run_campos:
  "env_run e k = Some (d, k') \<Longrightarrow> npages k' = npages k \<and> pages k' = pages k \<and> page_free_list k' = page_free_list k \<and> mem k' = mem k"
  by (auto simp: env_run_def Let_def con_env_def split: option.splits bind_splits if_splits)

lemma trap_a_upcall:
  assumes ok: "memorias_ok D extra xs k" and c: "curenv k = Some c" "env_pgdir (envs k c) = Some pd" "pd \<in> D"
    and vivo: "env_status (envs k c) \<noteq> ENV_DYING" and up: "env_pgfault_upcall (envs k c) \<noteq> 0"
    and tf: "tf_trapno tf = T_PGFLT" "tf_cs tf AND 3 = 3" "\<not> en_exstk (tf_esp tf)"
    and w: "entrada k pd pag_exstk AND PTE_W \<noteq> 0"
  shows "\<exists>k1. trap plan tecla va tf k = Va (Usuario c) k1 \<and> memorias_ok D extra xs k1 \<and> curenv k1 = Some c
    \<and> espacio k1 = Some pd \<and> env_pgdir (envs k1 c) = Some pd
    \<and> env_tf (envs k1 c) = tf\<lparr>tf_esp := 0xEEBFFFCB, tf_eip := env_pgfault_upcall (envs k c)\<rparr>
    \<and> (\<forall>d\<in>D. \<forall>r<NPAG. entrada k1 d r = entrada k d r)
    \<and> (\<forall>d\<in>D. \<forall>r<NPAG. \<not> (d = pd \<and> r = pag_exstk) \<longrightarrow> palabra k1 d r = palabra k d r)
    \<and> (\<forall>n<13. leer_palabra k1 (marco (entrada k pd pag_exstk)) (4043 + 4 * n) = utrapframe va tf ! n)"
proof -
  let ?f = "marco (entrada k pd pag_exstk)"
  define kz where "kz = con_env c (\<lambda>e. e\<lparr>env_tf := tf\<rparr>) (k\<lparr>cpu_halted := False\<rparr>)"
  have z: "npages kz = npages k" "pages kz = pages k" "page_free_list kz = page_free_list k" "mem kz = mem k"
    "curenv kz = Some c" "env_pgdir (envs kz c) = Some pd" "env_pgfault_upcall (envs kz c) = env_pgfault_upcall (envs k c)"
    using c by (simp_all add: kz_def con_env_def)
  note Z = memorias_ok_cong [OF z(1-4)]
  have okz: "memorias_ok D extra xs kz" using ok Z(1) by simp
  note M = memorias_okD [OF okz]
  have wz: "entrada kz pd pag_exstk AND PTE_W \<noteq> 0" using w Z(2) by simp
  have st: "accesible kz pd (PTE_U OR PTE_W) exstk" by (rule accesible_exstk [OF okz c(3) wz])
  have rz: "ranura kz pd exstk = entrada kz pd pag_exstk" using entrada_ranura [of kz pd exstk] by (simp add: exstk_pagina(1))
  have n: "entrada kz pd pag_exstk \<noteq> 0" using wz by auto
  have mz: "marco_de c exstk kz = Some ?f"
    using marco_de_exstk [OF M(1) z(6) c(3) _ exstk_pagina(4)] n rz Z(2) by simp
  define k2 where "k2 = poner_palabras ?f 4043 (utrapframe va tf) kz"
  define k3 where "k3 = con_env c (\<lambda>e. e\<lparr>env_tf := tf\<lparr>tf_esp := 0xEEBFFFCB, tf_eip := env_pgfault_upcall e\<rparr>\<rparr>) k2"
  obtain g where k2: "k2 = kz\<lparr>mem := (mem kz)(?f := g)\<rparr>" unfolding k2_def using poner_palabras_mem by blast
  have e3: "curenv k3 = Some c" "env_pgdir (envs k3 c) = Some pd"
    "env_tf (envs k3 c) = tf\<lparr>tf_esp := 0xEEBFFFCB, tf_eip := env_pgfault_upcall (envs k c)\<rparr>"
    using z by (simp_all add: k3_def k2)
  obtain k1 where run: "env_run c k3 = Some (Usuario c, k1)" "curenv k1 = Some c" "env_tf (envs k1 c) = env_tf (envs k3 c)"
    using env_run_mismo [OF e3(1,2)] by blast
  have t: "lugar_utf (tf_esp tf) = 0xEEBFFFCB" using tf(3) by (simp add: lugar_utf_def exstk_valor)
  have u: "\<not> (0xEEBFFFCB < exstk \<or> 0xEEBFFFCB > exstk_top)" "unat (0xEEBFFFCB - exstk) = 4043" by (simp_all add: exstk_valor)
  have "page_fault_handler plan va tf kz = Va (Usuario c) k1"
    using tf(2,3) up run(1) u exstk_mem_ok [OF M(1) z(6) c(3) st, of plan]
    by (simp add: page_fault_handler_def z mz t Let_def k2_def k3_def va_a_def)
  then have go: "trap plan tecla va tf k = Va (Usuario c) k1"
    using c(1) vivo tf(1,2) by (simp add: trap_def trap_dispatch_def Let_def kz_def T_BRKPT_def T_PGFLT_def)
  note C = env_run_campos [OF run(1)]
  have m1: "npages k1 = npages k2" "pages k1 = pages k2" "page_free_list k1 = page_free_list k2" "mem k1 = mem k2"
    using C by (simp_all add: k3_def con_env_def)
  note N = memorias_ok_cong [OF m1]
  have pz: "privada D kz pd pag_exstk" using M(4) c(3) wz exstk_pagina(2) by (simp add: privadas_def)
  have k2': "k2 = kz\<lparr>mem := (mem kz)(marco (entrada kz pd pag_exstk) := g)\<rparr>" by (simp add: k2 Z(2))
  note P = contenido_privado [OF okz c(3) exstk_pagina(2) n pz k2']
  have pg: "env_pgdir (envs k1 c) = Some pd" using env_run_Some(8) [OF run(1)] e3(2) by simp
  have rd: "leer_palabra k1 ?f (4043 + 4 * n) = utrapframe va tf ! n" if "n < 13" for n
    unfolding leer_palabra_mem [OF m1(4)] k2_def
    by (rule leer_poner_palabras) (use that in \<open>simp add: utrapframe_def\<close>)
  have "memorias_ok D extra xs k1" using P(1) N(1) by simp
  moreover have "espacio k1 = Some pd" using run(2) pg by (simp add: espacio_def)
  moreover have "\<forall>d\<in>D. \<forall>r<NPAG. entrada k1 d r = entrada k d r" using P(2) N(2) Z(2) by simp
  moreover have "\<forall>d\<in>D. \<forall>r<NPAG. \<not> (d = pd \<and> r = pag_exstk) \<longrightarrow> palabra k1 d r = palabra k d r"
    using P(3) N(3) Z(3) by simp
  ultimately show ?thesis using go run(2) run(3) [unfolded e3(3)] pg rd by blast
qed

section \<open>The handler and the way back\<close>

text \<open>
  The frame that the kernel wrote is in the page of the exception stack, private to the
  program; this is what every step keeps.
\<close>

definition con_utf :: "nat \<Rightarrow> nat \<Rightarrow> nat \<Rightarrow> (nat \<Rightarrow> uint32) \<Rightarrow> kernel \<Rightarrow> bool" where
  "con_utf c pd f u k \<longleftrightarrow> curenv k = Some c \<and> env_pgdir (envs k c) = Some pd
    \<and> entrada k pd pag_exstk AND PTE_W \<noteq> 0 \<and> marco (entrada k pd pag_exstk) = f
    \<and> (\<forall>n<13. leer_palabra k f (4043 + 4 * n) = u n)"

lemma con_utf_espacio: "con_utf c pd f u k \<Longrightarrow> espacio k = Some pd"
  by (simp add: con_utf_def espacio_def)

lemma leer_utf:
  assumes "memorias_ok D extra xs k" "con_utf c pd f u k" "pd \<in> D" "n < 13"
  shows "leer_pila k (0xEEBFFFCB + word_of_nat (4 * n)) = Some (u n)"
proof -
  have n: "4 * n \<le> 48" using assms(4) by simp
  note U = utf_direcciones(5,6) [OF n]
  have e: "entrada k pd pag_exstk \<noteq> 0" "marco (entrada k pd pag_exstk) = f" using assms(2) by (auto simp: con_utf_def)
  show ?thesis
    using leer_pila_ok [OF assms(1) con_utf_espacio [OF assms(2)] assms(3), of "0xEEBFFFCB + word_of_nat (4 * n)", unfolded U]
      e exstk_pagina(2) assms(2,4) by (simp add: con_utf_def)
qed

text \<open>A push in the page of the exception stack, off the frame.\<close>

lemma poner_exstk:
  assumes ok: "memorias_ok D extra xs k" and u: "con_utf c pd f u k" "pd \<in> D"
    and a: "unat (PGNUM a) = pag_exstk" "unat (PGOFF a) = i"
    and v: "\<forall>n<13. (if 4043 + 4 * n = i then v = u' n
                      else u' n = u n \<and> (4043 + 4 * n + 4 \<le> i \<or> i + 4 \<le> 4043 + 4 * n))"
  shows "\<exists>k'. poner_pila a v k = Some k' \<and> memorias_ok D extra xs k' \<and> con_utf c pd f u' k'
    \<and> (\<forall>d\<in>D. \<forall>r<NPAG. entrada k' d r = entrada k d r)
    \<and> (\<forall>d\<in>D. \<forall>r<NPAG. \<not> (d = pd \<and> r = pag_exstk) \<longrightarrow> palabra k' d r = palabra k d r)"
proof -
  have e: "entrada k pd pag_exstk AND PTE_W \<noteq> 0" "marco (entrada k pd pag_exstk) = f"
    using u(1) by (simp_all add: con_utf_def)
  let ?k = "poner_palabra f i v k"
  note P = poner_pila_ok [OF ok con_utf_espacio [OF u(1)] u(2), where a = a and v = v, unfolded a e(2), OF exstk_pagina(2) e(1)]
  have "leer_palabra ?k f (4043 + 4 * n) = u' n" if n: "n < 13" for n
  proof (cases "4043 + 4 * n = i")
    case True
    then show ?thesis using v n leer_poner_misma [of f i v k] by auto
  next
    case False
    then have "u' n = u n" "4043 + 4 * n + 4 \<le> i \<or> i + 4 \<le> 4043 + 4 * n" using v n by auto
    with leer_poner_otra [of f f "4043 + 4 * n" i v k] u(1) n show ?thesis by (simp add: con_utf_def)
  qed
  then have "con_utf c pd f u' ?k"
    using u(1) P(4,5) P(6) [OF u(2) exstk_pagina(2)] by (simp add: con_utf_def)
  with P(1,2,6,7) show ?thesis by blast
qed

lemma upcall_handler_ok:
  assumes ok: "memorias_ok D extra xs k" and u: "con_utf c pd f u k" "pd \<in> D" "u 0 = va"
    and q: "unat (PGNUM va) < NPAG" "unat (PGNUM va) \<noteq> 2047" "entrada k pd (unat (PGNUM va)) \<noteq> 0" "unat (PGNUM va) \<noteq> pag_exstk"
    and t: "entrada k pd 2047 = 0" and xs: "2 \<le> length xs"
  shows "\<exists>k' xs'. upcall_handler plan vuelta 0xEEBFFFCB k = Some k' \<and> memorias_ok D extra xs' k'
    \<and> con_utf c pd f u k'
    \<and> (\<forall>d\<in>D. \<forall>r<NPAG. \<not> (d = pd \<and> r = unat (PGNUM va)) \<longrightarrow> entrada k' d r = entrada k d r)
    \<and> entrada k' pd (unat (PGNUM va)) AND PTE_W \<noteq> 0
    \<and> (\<forall>d\<in>D. \<forall>r<NPAG. \<not> (d = pd \<and> r = pag_exstk) \<longrightarrow> palabra k' d r = palabra k d r)"
proof -
  obtain k1 where k1: "poner_pila (0xEEBFFFCB - 4) 0xEEBFFFCB k = Some k1" "memorias_ok D extra xs k1"
    "con_utf c pd f u k1" "\<forall>d\<in>D. \<forall>r<NPAG. entrada k1 d r = entrada k d r"
    "\<forall>d\<in>D. \<forall>r<NPAG. \<not> (d = pd \<and> r = pag_exstk) \<longrightarrow> palabra k1 d r = palabra k d r"
    using poner_exstk [OF ok u(1,2) utf_direcciones(1,2), of "0xEEBFFFCB" u] by auto
  obtain k2 where k2: "poner_pila (0xEEBFFFCB - 8) vuelta k1 = Some k2" "memorias_ok D extra xs k2"
    "con_utf c pd f u k2" "\<forall>d\<in>D. \<forall>r<NPAG. entrada k2 d r = entrada k1 d r"
    "\<forall>d\<in>D. \<forall>r<NPAG. \<not> (d = pd \<and> r = pag_exstk) \<longrightarrow> palabra k2 d r = palabra k1 d r"
    using poner_exstk [OF k1(2,3) u(2) utf_direcciones(3,4), of vuelta u] by auto
  have l: "leer_pila k2 0xEEBFFFCB = Some va" "leer_pila k2 (0xEEBFFFCB + 4) = Some (u 1)"
    using leer_utf [OF k2(2,3) u(2), of 0] leer_utf [OF k2(2,3) u(2), of 1] by (simp_all add: u(3))
  have e2: "entrada k2 d r = entrada k d r" if "d \<in> D" "r < NPAG" for d r using k1(4) k2(4) that by simp
  have c2: "curenv k2 = Some c" "env_pgdir (envs k2 c) = Some pd" using k2(3) by (simp_all add: con_utf_def)
  have q2: "entrada k2 pd (unat (PGNUM va)) \<noteq> 0" "entrada k2 pd 2047 = 0"
    using e2 [OF u(2)] q t by (simp_all add: NPAG_def)
  obtain k3 xs3 where k3: "pgfault plan va (u 1) k2 = Some k3" "memorias_ok D extra xs3 k3" "solo_vm k2 k3"
    "\<forall>d\<in>D. \<forall>r<NPAG. \<not> (d = pd \<and> r = unat (PGNUM va)) \<longrightarrow> entrada k3 d r = entrada k2 d r"
    "entrada k3 pd (unat (PGNUM va)) AND PTE_W \<noteq> 0" "\<forall>d\<in>D. \<forall>r<NPAG. palabra k3 d r = palabra k2 d r"
    using pgfault_privado [OF k2(2) c2 u(2) q(1,2) q2 xs] by blast
  note S = solo_vmD [OF k3(3)]
  have ex: "entrada k3 pd pag_exstk = entrada k2 pd pag_exstk" using k3(4) u(2) exstk_pagina(2) q(4) by metis
  have n0: "entrada k2 pd pag_exstk \<noteq> 0" using k2(3) by (auto simp: con_utf_def)
  have m: "mem k3 f = mem k2 f"
  proof
    fix w
    have "palabra k3 pd pag_exstk w = palabra k2 pd pag_exstk w" using k3(6) u(2) exstk_pagina(2) by simp
    then show "mem k3 f w = mem k2 f w" using n0 k2(3) by (simp add: palabra_def ex con_utf_def)
  qed
  have "con_utf c pd f u k3"
    using k2(3) S ex leer_palabra_marco [OF m] by (simp add: con_utf_def)
  moreover have "upcall_handler plan vuelta 0xEEBFFFCB k = Some k3"
    using k1(1) k2(1) l k3(1) by (simp add: upcall_handler_def)
  moreover have "entrada k3 d r = entrada k d r" if "d \<in> D" "r < NPAG" "\<not> (d = pd \<and> r = unat (PGNUM va))" for d r
    using k3(4) e2 that by auto
  moreover have "palabra k3 d r = palabra k d r" if "d \<in> D" "r < NPAG" "\<not> (d = pd \<and> r = pag_exstk)" for d r
    using k3(6) k2(5) k1(5) that by auto
  ultimately show ?thesis using k3(2,5) by blast
qed

lemma upcall_eip_ok:
  assumes ok: "memorias_ok D extra xs k" and u: "con_utf c pd f u k" "pd \<in> D" "u 12 = esp"
    and s: "unat (PGNUM (esp - 4)) < NPAG" "unat (PGNUM (esp - 4)) \<noteq> pag_exstk"
      "entrada k pd (unat (PGNUM (esp - 4))) AND PTE_W \<noteq> 0" "unat (PGOFF (esp - 4)) mod 4 = 0"
  shows "\<exists>k'. upcall_eip 0xEEBFFFCB k = Some k' \<and> memorias_ok D extra xs k' \<and> con_utf c pd f (u(12 := esp - 4)) k'
    \<and> (\<forall>d\<in>D. \<forall>r<NPAG. entrada k' d r = entrada k d r) \<and> leer_pila k' (esp - 4) = Some (u 10)
    \<and> (\<forall>d\<in>D. \<forall>r<NPAG. \<not> (d = pd \<and> r = pag_exstk) \<longrightarrow> (\<forall>w. palabra k' d r w =
         (if d = pd \<and> r = unat (PGNUM (esp - 4)) \<and> w = unat (PGOFF (esp - 4)) div 4 then Some (u 10) else palabra k d r w)))"
proof -
  let ?s = "unat (PGNUM (esp - 4))" and ?o = "unat (PGOFF (esp - 4))"
  let ?fs = "marco (entrada k pd ?s)"
  note M = memorias_okD [OF ok]
  have x: "entrada k pd pag_exstk AND PTE_W \<noteq> 0" "marco (entrada k pd pag_exstk) = f"
    using u(1) by (simp_all add: con_utf_def)
  have n: "entrada k pd ?s \<noteq> 0" using s(3) by auto
  have "privada D k pd pag_exstk" using M(4) u(2) x(1) exstk_pagina(2) by (simp add: privadas_def)
  then have fs: "?fs \<noteq> f" using n s(1,2) u(2) x(2) unfolding privada_def by metis
  have ps: "privada D k pd ?s" using M(4) u(2) s(1,3) by (simp add: privadas_def)
  have l: "leer_pila k (0xEEBFFFCB + 40) = Some (u 10)" "leer_pila k (0xEEBFFFCB + 48) = Some esp"
    using leer_utf [OF ok u(1,2), of 10] leer_utf [OF ok u(1,2), of 12] by (simp_all add: u(3))
  let ?k1 = "escribir ?fs (?o div 4) (u 10) k"
  note P = poner_pila_ok [OF ok con_utf_espacio [OF u(1)] u(2) s(1,3), where v = "u 10", unfolded poner_palabra_alineada [OF s(4)]]
  note E = escritura_directa(2) [OF ok u(2) s(1) n ps, where v = "u 10"]
  have e1: "entrada ?k1 pd pag_exstk = entrada k pd pag_exstk" by (rule P(6) [OF u(2) exstk_pagina(2)])
  have "mem ?k1 f = mem k f" using fs by (simp add: escribir_def)
  then have u1: "con_utf c pd f u ?k1"
    using u(1) P(4,5) e1 leer_palabra_marco [of ?k1 f k f] by (simp add: con_utf_def)
  obtain k2 where k2: "poner_pila (0xEEBFFFCB + 48) (esp - 4) ?k1 = Some k2" "memorias_ok D extra xs k2"
    "con_utf c pd f (u(12 := esp - 4)) k2" "\<forall>d\<in>D. \<forall>r<NPAG. entrada k2 d r = entrada ?k1 d r"
    "\<forall>d\<in>D. \<forall>r<NPAG. \<not> (d = pd \<and> r = pag_exstk) \<longrightarrow> palabra k2 d r = palabra ?k1 d r"
  proof -
    have a: "unat (PGNUM (0xEEBFFFCB + 48)) = pag_exstk" "unat (PGOFF (0xEEBFFFCB + 48)) = 4091"
      using utf_direcciones(5,6) [of 48] by simp_all
    have "\<forall>n<13. (if 4043 + 4 * n = (4091 :: nat) then esp - 4 = (u(12 := esp - 4)) n
                      else (u(12 := esp - 4)) n = u n \<and> (4043 + 4 * n + 4 \<le> 4091 \<or> 4091 + 4 \<le> 4043 + 4 * n))" by auto
    from poner_exstk [OF P(2) u1 u(2) a this] that show thesis by blast
  qed
  have e2: "entrada k2 d r = entrada k d r" if "d \<in> D" "r < NPAG" for d r using k2(4) P(6) that by simp
  have pal: "palabra k2 d r w = (if d = pd \<and> r = ?s \<and> w = ?o div 4 then Some (u 10) else palabra k d r w)"
    if "d \<in> D" "r < NPAG" "\<not> (d = pd \<and> r = pag_exstk)" for d r w
    using k2(5) that E [OF that(1,2)] by auto
  have m: "mem k2 ?fs = mem ?k1 ?fs"
  proof
    fix w
    have "palabra k2 pd ?s w = palabra ?k1 pd ?s w" using k2(5) u(2) s(1,2) by simp
    then show "mem k2 ?fs w = mem ?k1 ?fs w" using n by (simp add: palabra_def e2 [OF u(2) s(1)] P(6) [OF u(2) s(1)])
  qed
  have "leer_pila k2 (esp - 4) = Some (leer_palabra k2 ?fs ?o)"
    using leer_pila_ok [OF k2(2) con_utf_espacio [OF k2(3)] u(2) s(1)] n by (simp add: e2 [OF u(2) s(1)])
  also have "leer_palabra k2 ?fs ?o = u 10"
    unfolding leer_palabra_marco [OF m] poner_palabra_alineada [OF s(4), symmetric] by (rule leer_poner_misma)
  finally have "leer_pila k2 (esp - 4) = Some (u 10)" .
  moreover have "upcall_eip 0xEEBFFFCB k = Some k2" unfolding upcall_eip_def using l P(1) k2(1) by simp
  ultimately show ?thesis using k2(2,3) e2 pal by blast
qed

lemma upcall_restaurar_ok:
  assumes "memorias_ok D extra xs k" "con_utf c pd f u k" "pd \<in> D" "leer_pila k (u 12) = Some eip"
  shows "upcall_restaurar 0xEEBFFFCB r k = Some (r\<lparr>tf_regs := (tf_regs r)\<lparr>reg_edi := u 2, reg_esi := u 3,
      reg_ebp := u 4, reg_ebx := u 6, reg_edx := u 7, reg_ecx := u 8, reg_eax := u 9\<rparr>,
    tf_eflags := u 11, tf_eip := eip, tf_esp := u 12 + 4\<rparr>)"
proof -
  note l = leer_utf [OF assms(1-3)]
  show ?thesis
    using l [of 2] l [of 3] l [of 4] l [of 6] l [of 7] l [of 8] l [of 9] l [of 11] l [of 12] assms(4)
    by (simp add: upcall_restaurar_def)
qed

section \<open>The whole store\<close>

lemma utf_restaurado:
  "tf\<lparr>tf_esp := a, tf_eip := b, tf_regs := (tf_regs (tf\<lparr>tf_esp := a, tf_eip := b\<rparr>))\<lparr>reg_edi := reg_edi (tf_regs tf),
      reg_esi := reg_esi (tf_regs tf), reg_ebp := reg_ebp (tf_regs tf), reg_ebx := reg_ebx (tf_regs tf),
      reg_edx := reg_edx (tf_regs tf), reg_ecx := reg_ecx (tf_regs tf), reg_eax := reg_eax (tf_regs tf)\<rparr>,
    tf_eflags := tf_eflags tf, tf_eip := tf_eip tf, tf_esp := tf_esp tf\<rparr> = tf"
  by (cases tf; cases "tf_regs tf") simp

text \<open>
  C21: a store to a page that is mapped read-only, copy-on-write or not, by a program with
  \<open>pgfault\<close> as its handler, from the trap to the instruction tried again. With the exception
  stack mapped for writing, two free pages, nothing mapped at \<open>PFTEMP\<close> and the trap-time stack
  writable or in the page of the fault, the kernel enters the upcall, the upcall leaves every
  register as it was at the trap, and the store is done: the word is in the program's
  memory, the word under its stack pointer holds the \<open>eip\<close> that \<open>_pgfault_upcall\<close> pushed there,
  and outside its exception stack no other word of its memory or of any other program's
  changes, whatever pages they share. Page tables and counts stay well formed and pages that
  can be written stay private.
\<close>

theorem escritura_cow:
  assumes ok: "memorias_ok D extra xs k" and c: "curenv k = Some c" "env_pgdir (envs k c) = Some pd" "pd \<in> D"
    and vivo: "env_status (envs k c) \<noteq> ENV_DYING" and up: "env_pgfault_upcall (envs k c) \<noteq> 0"
    and tf: "tf_trapno tf = T_PGFLT" "tf_cs tf AND 3 = 3" "\<not> en_exstk (tf_esp tf)"
    and q: "unat (PGNUM va) < NPAG" "unat (PGNUM va) \<noteq> 2047" "entrada k pd (unat (PGNUM va)) \<noteq> 0"
      "entrada k pd (unat (PGNUM va)) AND PTE_W = 0"
    and x: "entrada k pd pag_exstk AND PTE_W \<noteq> 0"
    and s: "unat (PGNUM (tf_esp tf - 4)) < NPAG" "unat (PGNUM (tf_esp tf - 4)) \<noteq> pag_exstk" "unat (PGOFF (tf_esp tf - 4)) mod 4 = 0"
      "entrada k pd (unat (PGNUM (tf_esp tf - 4))) AND PTE_W \<noteq> 0 \<or> unat (PGNUM (tf_esp tf - 4)) = unat (PGNUM va)"
    and t: "entrada k pd 2047 = 0" and xs: "2 \<le> length xs"
  shows "\<exists>k1 k2 f xs'. traducir k pd True va = None \<and> trap plan tecla va tf k = Va (Usuario c) k1
    \<and> pgfault_upcall plan vuelta (env_tf (envs k1 c)) k1 = Some (tf, k2)
    \<and> espacio k2 = Some pd \<and> traducir k2 pd True va = Some f
    \<and> memorias_ok D extra xs' (escribir f (unat (PGOFF va) div 4) v k2)
    \<and> (\<forall>d\<in>D. \<forall>r<NPAG. \<not> (d = pd \<and> r = pag_exstk) \<longrightarrow> (\<forall>w. palabra (escribir f (unat (PGOFF va) div 4) v k2) d r w =
         (if d = pd \<and> r = unat (PGNUM va) \<and> w = unat (PGOFF va) div 4 then Some v
          else if d = pd \<and> r = unat (PGNUM (tf_esp tf - 4)) \<and> w = unat (PGOFF (tf_esp tf - 4)) div 4 then Some (tf_eip tf)
          else palabra k d r w)))"
proof -
  let ?q = "unat (PGNUM va)" and ?s = "unat (PGNUM (tf_esp tf - 4))" and ?u = "\<lambda>n. utrapframe va tf ! n"
  let ?f = "marco (entrada k pd pag_exstk)"
  note M = memorias_okD [OF ok]
  have qx: "?q \<noteq> pag_exstk" using q(4) x by auto
  have tn: "traducir k pd True va = None"
    using traducir_entrada [OF M(1,2) c(3) q(1), of True] M(3) c(3) q by (simp add: abiertas_def)
  obtain k1 where k1: "trap plan tecla va tf k = Va (Usuario c) k1" "memorias_ok D extra xs k1" "curenv k1 = Some c"
    "espacio k1 = Some pd" "env_pgdir (envs k1 c) = Some pd"
    "env_tf (envs k1 c) = tf\<lparr>tf_esp := 0xEEBFFFCB, tf_eip := env_pgfault_upcall (envs k c)\<rparr>"
    "\<forall>d\<in>D. \<forall>r<NPAG. entrada k1 d r = entrada k d r"
    "\<forall>d\<in>D. \<forall>r<NPAG. \<not> (d = pd \<and> r = pag_exstk) \<longrightarrow> palabra k1 d r = palabra k d r"
    "\<forall>n<13. leer_palabra k1 ?f (4043 + 4 * n) = ?u n"
    using trap_a_upcall [OF ok c vivo up tf x] by blast
  have e1: "entrada k1 pd r = entrada k pd r" if "r < NPAG" for r using k1(7) c(3) that by blast
  have u1: "con_utf c pd ?f ?u k1" using k1(3,5,9) x e1 [OF exstk_pagina(2)] by (simp add: con_utf_def)
  have u0: "?u 0 = va" by (simp add: utrapframe_def)
  have n1: "entrada k1 pd ?q \<noteq> 0" "entrada k1 pd 2047 = 0" using e1 q(1,3) t by (simp_all add: NPAG_def)
  obtain k2 xs2 where k2: "upcall_handler plan vuelta 0xEEBFFFCB k1 = Some k2" "memorias_ok D extra xs2 k2"
    "con_utf c pd ?f ?u k2"
    "\<forall>d\<in>D. \<forall>r<NPAG. \<not> (d = pd \<and> r = ?q) \<longrightarrow> entrada k2 d r = entrada k1 d r"
    "entrada k2 pd ?q AND PTE_W \<noteq> 0"
    "\<forall>d\<in>D. \<forall>r<NPAG. \<not> (d = pd \<and> r = pag_exstk) \<longrightarrow> palabra k2 d r = palabra k1 d r"
    using upcall_handler_ok [OF k1(2) u1 c(3) u0 q(1,2) n1(1) qx n1(2) xs, where plan = plan and vuelta = vuelta]
    by (elim exE conjE) (rule that)
  have s2: "entrada k2 pd ?s AND PTE_W \<noteq> 0"
    using s(4) k2(4,5) c(3) s(1) e1 by (cases "?s = ?q") auto
  have u12: "?u 12 = tf_esp tf" "?u 10 = tf_eip tf" by (simp_all add: utrapframe_def)
  obtain k3 where k3: "upcall_eip 0xEEBFFFCB k2 = Some k3" "memorias_ok D extra xs2 k3"
    "con_utf c pd ?f (?u(12 := tf_esp tf - 4)) k3" "\<forall>d\<in>D. \<forall>r<NPAG. entrada k3 d r = entrada k2 d r"
    "leer_pila k3 (tf_esp tf - 4) = Some (tf_eip tf)"
    "\<forall>d\<in>D. \<forall>r<NPAG. \<not> (d = pd \<and> r = pag_exstk) \<longrightarrow> (\<forall>w. palabra k3 d r w =
       (if d = pd \<and> r = ?s \<and> w = unat (PGOFF (tf_esp tf - 4)) div 4 then Some (tf_eip tf) else palabra k2 d r w))"
    using upcall_eip_ok [OF k2(2,3) c(3) u12(1) s(1,2) s2 s(3)] unfolding u12(2) by (elim exE conjE) (rule that)
  have "upcall_restaurar 0xEEBFFFCB (env_tf (envs k1 c)) k3 = Some tf"
    using upcall_restaurar_ok [OF k3(2,3) c(3), of "tf_eip tf" "env_tf (envs k1 c)"] k3(5)
      utf_restaurado [of tf "0xEEBFFFCB" "env_pgfault_upcall (envs k c)"]
    by (simp add: k1(6) utrapframe_def)
  then have up: "pgfault_upcall plan vuelta (env_tf (envs k1 c)) k1 = Some (tf, k3)"
    using k2(1) k3(1) by (simp add: pgfault_upcall_def k1(6))
  note M3 = memorias_okD [OF k3(2)]
  have e3: "entrada k3 pd ?q AND PTE_W \<noteq> 0" using k3(4) k2(5) c(3) q(1) by simp
  then have n3: "entrada k3 pd ?q \<noteq> 0" by auto
  have p3: "privada D k3 pd ?q" using M3(4) c(3) q(1) e3 by (simp add: privadas_def)
  note E = escritura_directa [OF k3(2) c(3) q(1) n3 p3, where v = v]
  have t3: "traducir k3 pd True va = Some (marco (entrada k3 pd ?q))"
    using traducir_entrada [OF M3(1,2) c(3) q(1), of True] M3(3) c(3) q(1) n3 e3 by (simp add: abiertas_def)
  have "palabra (escribir (marco (entrada k3 pd ?q)) (unat (PGOFF va) div 4) v k3) d r w =
         (if d = pd \<and> r = ?q \<and> w = unat (PGOFF va) div 4 then Some v
          else if d = pd \<and> r = ?s \<and> w = unat (PGOFF (tf_esp tf - 4)) div 4 then Some (tf_eip tf)
          else palabra k d r w)" if "d \<in> D" "r < NPAG" "\<not> (d = pd \<and> r = pag_exstk)" for d r w
  proof -
    have "palabra k3 d r w = (if d = pd \<and> r = ?s \<and> w = unat (PGOFF (tf_esp tf - 4)) div 4 then Some (tf_eip tf) else palabra k d r w)"
      using k3(6) [rule_format, OF that, of w] unfolding k2(6) [rule_format, OF that] k1(8) [rule_format, OF that] .
    then show ?thesis unfolding E(2) [OF that(1,2)] by (rule arg_cong)
  qed
  with tn k1(1) up t3 E(1) con_utf_espacio [OF k3(3)] show ?thesis by blast
qed

text \<open>The example program with its exception stack, page 2.\<close>

lemma k_usr_con_pila:
  obtains k xs where "memorias_ok {8} (\<lambda>_. 0) xs k" "2 \<le> length xs" "solo_vm k_usr k"
    "\<forall>r<NPAG. entrada k 8 r = (if r = pag_exstk then entrada_privada 2 else entrada k_usr 8 r)"
    "\<forall>r<NPAG. r \<noteq> pag_exstk \<longrightarrow> palabra k 8 r = palabra k_usr 8 r"
proof -
  note M = memorias_okD [OF k_usr_ok]
  have x: "\<not> mala_va exstk" by (simp add: mala_va_def exstk_valor UTOP_valor PGSIZE_def)
  have m: "\<not> (mem k_usr 8 (unat (PDX exstk)) = 0 \<and> [3, 4, 7 :: nat] = [])" by simp
  have i8: "8 \<in> {8 :: nat}" by simp
  have ep: "page2pa 2 OR (perm_privada OR PTE_U OR PTE_P) OR PTE_P = entrada_privada 2"
    unfolding entrada_privada_def by (simp add: ac_simps)
  have e8: "env_pgdir (envs k_usr 1) = Some 8" by simp
  obtain k xs where k: "vm_ok {8} (\<lambda>_. 0) xs k" "cambio {8} 8 exstk (entrada_privada 2) k_usr [2, 3, 4, 7] k (2 # xs)"
    using u_alloc_cambio [OF M(1) envid_propio [OF k_usr_simps(3)] e8 i8 x perm_privada_ok(2) m, where plan = SCHED_ROUND_ROBIN] unfolding ep
    by (elim exE conjE) (rule that)
  note C = cambioD [OF k(2)]
  have en: "entrada k d r = (if d = 8 \<and> r = pag_exstk then entrada_privada 2 else if False then 0 else entrada k_usr d r)"
    if "d \<in> {8}" "r < NPAG" for d r
    using entrada_cambio [OF k(2) that] by (simp add: exstk_pagina(1))
  have N: "abiertas {8} k" "privadas {8} k"
    using nueva_privada(1,2) [OF k_usr_ok _ i8 exstk_pagina(2), of 2 k "\<lambda>_ _. False"] en by auto
  have "espacio_ok {8} k" using espacio_cambio [OF M(2) k(2)] unat_PDX_bajo [OF x] by simp
  then have "memorias_ok {8} (\<lambda>_. 0) xs k" using k(1) N by (simp add: memorias_ok_def)
  moreover have "2 \<le> length xs" using C(5) by (simp split: if_splits)
  moreover have "\<forall>r<NPAG. r \<noteq> pag_exstk \<longrightarrow> palabra k 8 r = palabra k_usr 8 r"
    using palabra_cambio [OF M(1) k(2)] by (simp add: exstk_pagina(1))
  ultimately show thesis using that [of xs k] C(1) en by simp
qed

lemma escritura_cow_witness:
  "\<exists>k k1 k2 f. trap SCHED_ROUND_ROBIN 0 0x803004 (tf_inicial\<lparr>tf_trapno := T_PGFLT, tf_esp := 0x803800\<rparr>) k = Va (Usuario 1) k1
    \<and> pgfault_upcall SCHED_ROUND_ROBIN 0x800030 (env_tf (envs k1 1)) k1
        = Some (tf_inicial\<lparr>tf_trapno := T_PGFLT, tf_esp := 0x803800\<rparr>, k2)
    \<and> palabra (escribir f 1 7 k2) 8 2051 1 = Some 7 \<and> palabra (escribir f 1 7 k2) 8 2051 0 = Some 42"
proof -
  let ?tf = "tf_inicial\<lparr>tf_trapno := T_PGFLT, tf_esp := 0x803800\<rparr>"
  obtain k xs where k: "memorias_ok {8} (\<lambda>_. 0) xs k" "2 \<le> length xs" "solo_vm k_usr k"
    "\<forall>r<NPAG. entrada k 8 r = (if r = pag_exstk then entrada_privada 2 else entrada k_usr 8 r)"
    "\<forall>r<NPAG. r \<noteq> pag_exstk \<longrightarrow> palabra k 8 r = palabra k_usr 8 r" by (rule k_usr_con_pila)
  note S = solo_vmD [OF k(3)]
  have N: "2051 < NPAG" "2047 < NPAG" "2051 \<noteq> pag_exstk" "2047 \<noteq> pag_exstk" by (simp_all add: NPAG_def pag_exstk_def)
  have q: "unat (PGNUM (0x803004 :: uint32)) = 2051" "unat (PGOFF (0x803004 :: uint32)) div 4 = 1"
    "unat (PGNUM (tf_esp ?tf - 4)) = 2051" "unat (PGOFF (tf_esp ?tf - 4)) = 2044"
    by (simp_all add: unat_PGNUM PGOFF_def)
  have d: "2044 div 4 = (511 :: nat)" by simp
  have st: "env_status (envs k_usr 1) = ENV_RUNNING" by (simp add: k_usr_def)
  have e: "curenv k = Some 1" "env_pgdir (envs k 1) = Some 8" "8 \<in> {8 :: nat}" "env_status (envs k 1) \<noteq> ENV_DYING"
    "env_pgfault_upcall (envs k 1) \<noteq> 0" by (simp_all add: S(2,3) st [unfolded One_nat_def])
  have t: "tf_trapno ?tf = T_PGFLT" "tf_cs ?tf AND 3 = 3" "\<not> en_exstk (tf_esp ?tf)"
    by (simp_all add: tf_inicial_def en_exstk_unat)
  have en: "entrada k 8 2051 = pte_usr" "entrada k 8 2047 = 0" "entrada k 8 pag_exstk AND PTE_W \<noteq> 0"
    using k(4) N exstk_pagina(2) by (simp_all add: k_usr_entrada entrada_privada_bits) (simp add: PTE_W_def)
  have h: "unat (PGNUM (0x803004 :: uint32)) < NPAG" "unat (PGNUM (0x803004 :: uint32)) \<noteq> 2047"
    "entrada k 8 (unat (PGNUM 0x803004)) \<noteq> 0" "entrada k 8 (unat (PGNUM 0x803004)) AND PTE_W = 0"
    unfolding q(1) using N en(1) pte_usr_props(2,5) by simp_all
  have s: "unat (PGNUM (tf_esp ?tf - 4)) < NPAG" "unat (PGNUM (tf_esp ?tf - 4)) \<noteq> pag_exstk"
    "unat (PGOFF (tf_esp ?tf - 4)) mod 4 = 0"
    "entrada k 8 (unat (PGNUM (tf_esp ?tf - 4))) AND PTE_W \<noteq> 0 \<or> unat (PGNUM (tf_esp ?tf - 4)) = unat (PGNUM (0x803004 :: uint32))"
    unfolding q using N by simp_all
  obtain k1 k2 f where K: "trap SCHED_ROUND_ROBIN 0 0x803004 ?tf k = Va (Usuario 1) k1"
    "pgfault_upcall SCHED_ROUND_ROBIN 0x800030 (env_tf (envs k1 1)) k1 = Some (?tf, k2)"
    "\<forall>d\<in>{8}. \<forall>r<NPAG. \<not> (d = 8 \<and> r = pag_exstk) \<longrightarrow> (\<forall>w. palabra (escribir f 1 7 k2) d r w =
         (if d = 8 \<and> r = 2051 \<and> w = 1 then Some 7
          else if d = 8 \<and> r = 2051 \<and> w = 511 then Some (tf_eip ?tf) else palabra k d r w))"
    using escritura_cow [OF k(1) e t h en(3) s en(2) k(2), where plan = SCHED_ROUND_ROBIN and tecla = 0 and vuelta = "0x800030" and v = 7]
    unfolding q d by (elim exE conjE) (rule that)
  have "palabra k 8 2051 0 = Some 42"
    using k(5) N by (simp add: palabra_def k_usr_entrada pte_usr_props k_usr_mem)
  with K N show ?thesis by (intro exI [of _ k] exI [of _ k1] exI [of _ k2] exI [of _ f]) simp
qed

end
