(* ===== verification/Fs_Model.thy ===== *)
theory Fs_Model
  imports Prelude
begin

text \<open>
  The inode layer of the FUSE file system: \<open>TP3-fisopfs/fs.h\<close> and \<open>TP3-fisopfs/fs.c\<close>.

  The super block is a table of \<open>MAX_INODES\<close> inodes with an occupancy table. An inode
  holds its content in \<open>char content[MAX_CONTENT]\<close>; a directory stores its entries in
  those same bytes, as an array of \<open>entrada_directorio_t\<close> (a 4-byte \<open>int\<close> and a
  256-byte name, 260 bytes in all, little endian as on the machines it is built for).
  The model keeps the bytes and reads and writes entries through them. The other
  \<open>char\<close> arrays of an inode are only used through string functions and are strings here.
  \<open>time_t\<close> values are integers; \<open>size_t\<close> is \<^typ>\<open>64 word\<close>.
\<close>

section \<open>Constants and data (fs.h)\<close>

definition LIBRE :: int where "LIBRE = 0"
definition OCUPADO :: int where "OCUPADO = 1"
definition DIR_T :: int where "DIR_T = 0"
definition REG_T :: int where "REG_T = 1"
definition MAX_PATH :: nat where "MAX_PATH = 256"
definition MAX_CONTENT :: nat where "MAX_CONTENT = 4096"
definition MAX_INODES :: nat where "MAX_INODES = 1024"
definition sizeof_entrada :: nat where "sizeof_entrada = 4 + MAX_PATH"
definition MAX_DIR_ENTRIES :: nat where "MAX_DIR_ENTRIES = MAX_CONTENT div sizeof_entrada"
definition ROOT_PATH :: string where "ROOT_PATH = ''/''"
definition S_IFREG :: "32 word" where "S_IFREG = 0x8000"
definition S_IFDIR :: "32 word" where "S_IFDIR = 0x4000"
definition MODE_DIR :: "32 word" where "MODE_DIR = 0x1ED"
definition MODE_FILE :: "32 word" where "MODE_FILE = 0x1A4"

lemma MAX_DIR_ENTRIES_15: "MAX_DIR_ENTRIES = 15"
  by (simp add: MAX_DIR_ENTRIES_def MAX_CONTENT_def sizeof_entrada_def MAX_PATH_def)

lemma sizeof_entrada_260: "sizeof_entrada = 260"
  by (simp add: sizeof_entrada_def MAX_PATH_def)

lemmas fs_consts = LIBRE_def OCUPADO_def DIR_T_def REG_T_def MAX_PATH_def MAX_CONTENT_def
  sizeof_entrada_260 MAX_DIR_ENTRIES_15

lemma tipos_distintos [simp]: "DIR_T \<noteq> REG_T" "REG_T \<noteq> DIR_T" "OCUPADO \<noteq> LIBRE" "LIBRE \<noteq> OCUPADO"
  by (simp_all add: DIR_T_def REG_T_def LIBRE_def OCUPADO_def)

type_synonym contenido = "nat \<Rightarrow> char"

record inodo =
  inumero :: int
  id_user :: "32 word"
  id_gid :: "32 word"
  link_num :: "64 word"
  tam :: "64 word"
  permisos :: "32 word"
  fecha_de_creacion :: int
  fecha_de_modificacion :: int
  fecha_de_acceso :: int
  path :: string
  content :: contenido
  directory_path :: string
  tipo_archivo :: int
  nombre :: string

record superbloque =
  inodos :: "nat \<Rightarrow> inodo"
  bitmap_inodes :: "nat \<Rightarrow> int"

text \<open>
  What a call reads from its process and the clock: \<open>geteuid()\<close>, \<open>getegid()\<close> and the
  value of the \<open>k\<close>-th call of \<open>time(NULL)\<close> made while it runs.
\<close>

record entorno =
  euid :: "32 word"
  egid :: "32 word"
  reloj :: "nat \<Rightarrow> int"

text \<open>\<open>memset(inode, 0, sizeof(inodo_t))\<close>.\<close>

definition inodo_cero :: inodo where
  "inodo_cero = \<lparr>inumero = 0, id_user = 0, id_gid = 0, link_num = 0, tam = 0, permisos = 0,
     fecha_de_creacion = 0, fecha_de_modificacion = 0, fecha_de_acceso = 0, path = [],
     content = (\<lambda>_. CHR 0x00), directory_path = [], tipo_archivo = 0, nombre = []\<rparr>"

text \<open>One inode rewritten in place; the C code does this through a pointer into the table.\<close>

definition con_inodo :: "nat \<Rightarrow> (inodo \<Rightarrow> inodo) \<Rightarrow> superbloque \<Rightarrow> superbloque" where
  "con_inodo i f sb = sb\<lparr>inodos := (inodos sb)(i := f (inodos sb i))\<rparr>"

lemma con_inodo_simps [simp]:
  "bitmap_inodes (con_inodo i f sb) = bitmap_inodes sb"
  "inodos (con_inodo i f sb) i = f (inodos sb i)"
  "j \<noteq> i \<Longrightarrow> inodos (con_inodo i f sb) j = inodos sb j"
  by (simp_all add: con_inodo_def)

lemma inodos_con_inodo: "inodos (con_inodo i f sb) j = (if j = i then f (inodos sb i) else inodos sb j)"
  by (simp add: con_inodo_def)

section \<open>Directory entries in the bytes of a directory\<close>

text \<open>The four bytes of \<open>entradas[i].inodo\<close>, read as a 32-bit little-endian word.\<close>

definition ent_inodo :: "contenido \<Rightarrow> nat \<Rightarrow> 32 word" where
  "ent_inodo c i = (let b = sizeof_entrada * i in
     word_of_nat (of_char (c b) + 256 * (of_char (c (b + 1))
       + 256 * (of_char (c (b + 2)) + 256 * of_char (c (b + 3))))))"

definition ent_nombre :: "contenido \<Rightarrow> nat \<Rightarrow> string" where
  "ent_nombre c i = cstr_en c (sizeof_entrada * i + 4) MAX_PATH"

text \<open>\<open>entradas[i].inodo = v\<close>\<close>

definition poner_inodo :: "contenido \<Rightarrow> nat \<Rightarrow> 32 word \<Rightarrow> contenido" where
  "poner_inodo c i v = (let b = sizeof_entrada * i; n = unat v in
     c(b := char_of (n mod 256), b + 1 := char_of (n div 256 mod 256),
       b + 2 := char_of (n div 65536 mod 256), b + 3 := char_of (n div 16777216 mod 256)))"

text \<open>
  \<open>strncpy(entradas[i].nombre, s, MAX_PATH - 1)\<close> copies at most 255 characters of \<open>s\<close> and
  fills the rest of the 255 with NULs; \<open>strcpy\<close> copies the string and one NUL.
\<close>

definition strncpy_en :: "contenido \<Rightarrow> nat \<Rightarrow> string \<Rightarrow> nat \<Rightarrow> contenido" where
  "strncpy_en c b s n =
     (\<lambda>k. if b \<le> k \<and> k < b + n then (if k - b < length s then s ! (k - b) else CHR 0x00) else c k)"

definition strcpy_en :: "contenido \<Rightarrow> nat \<Rightarrow> string \<Rightarrow> contenido" where
  "strcpy_en c b s =
     (\<lambda>k. if b \<le> k \<and> k \<le> b + length s then (if k - b < length s then s ! (k - b) else CHR 0x00) else c k)"

text \<open>\<open>entradas[i].nombre[0] = '\0'\<close> and the structure assignment \<open>entradas[i] = entradas[j]\<close>.\<close>

definition borrar_nombre :: "contenido \<Rightarrow> nat \<Rightarrow> contenido" where
  "borrar_nombre c i = c(sizeof_entrada * i + 4 := CHR 0x00)"

definition copiar_entrada :: "contenido \<Rightarrow> nat \<Rightarrow> nat \<Rightarrow> contenido" where
  "copiar_entrada c i j =
     (\<lambda>k. if sizeof_entrada * i \<le> k \<and> k < sizeof_entrada * (i + 1)
          then c (k - sizeof_entrada * i + sizeof_entrada * j) else c k)"

section \<open>Error codes (errno.h, Linux)\<close>

definition ENOENT :: int where "ENOENT = 2"
definition EIO :: int where "EIO = 5"
definition EBUSY :: int where "EBUSY = 16"
definition EEXIST :: int where "EEXIST = 17"
definition ENOTDIR :: int where "ENOTDIR = 20"
definition EISDIR :: int where "EISDIR = 21"
definition EFBIG :: int where "EFBIG = 27"
definition ENOSPC :: int where "ENOSPC = 28"
definition ENOTEMPTY :: int where "ENOTEMPTY = 39"

lemmas errno_defs = ENOENT_def EIO_def EBUSY_def EEXIST_def ENOTDIR_def EISDIR_def EFBIG_def
  ENOSPC_def ENOTEMPTY_def

section \<open>Operations (fs.c)\<close>

definition inicializar_inodos :: "superbloque \<Rightarrow> superbloque" where
  "inicializar_inodos sb =
     \<lparr>inodos = (\<lambda>i. if i < MAX_INODES then inodo_cero else inodos sb i),
      bitmap_inodes = (\<lambda>i. if i < MAX_INODES then LIBRE else bitmap_inodes sb i)\<rparr>"

definition inicializar_filesystem :: "entorno \<Rightarrow> superbloque \<Rightarrow> superbloque" where
  "inicializar_filesystem e sb =
     (let sb1 = inicializar_inodos sb;
          sb2 = con_inodo 0 (\<lambda>r. r\<lparr>inumero := 0, tam := 0, id_user := euid e, id_gid := egid e,
                  permisos := MODE_DIR, link_num := 2, fecha_de_creacion := reloj e 0,
                  fecha_de_modificacion := reloj e 1, fecha_de_acceso := reloj e 2,
                  path := ROOT_PATH, content := (\<lambda>k. if k < MAX_CONTENT then CHR 0x00 else content r k),
                  tipo_archivo := DIR_T, directory_path := []\<rparr>) sb1
      in sb2\<lparr>bitmap_inodes := (bitmap_inodes sb2)(0 := OCUPADO)\<rparr>)"

definition buscar_inodo :: "string \<Rightarrow> superbloque \<Rightarrow> int" where
  "buscar_inodo p sb =
     (case primer_indice (\<lambda>i. bitmap_inodes sb i = OCUPADO \<and> path (inodos sb i) = p) MAX_INODES of
        Some i \<Rightarrow> int i | None \<Rightarrow> - 1)"

definition obtener_inodo_libre :: "superbloque \<Rightarrow> int" where
  "obtener_inodo_libre sb =
     (case primer_indice (\<lambda>i. bitmap_inodes sb i = LIBRE) MAX_INODES of
        Some i \<Rightarrow> int i | None \<Rightarrow> - 1)"

text \<open>\<open>strrchr\<close>: the position of the last occurrence of a character.\<close>

definition strrchr :: "string \<Rightarrow> char \<Rightarrow> nat option" where
  "strrchr s ch = (let is = filter (\<lambda>i. s ! i = ch) [0..<length s]
                   in if is = [] then None else Some (last is))"

text \<open>The results are the two output buffers \<open>directory_path\<close> and \<open>nombre\<close>.\<close>

definition separar_path :: "string \<Rightarrow> string \<times> string" where
  "separar_path p =
     (case strrchr p (CHR ''/'') of
        None \<Rightarrow> (ROOT_PATH, take (MAX_PATH - 1) p)
      | Some last_slash \<Rightarrow>
          if last_slash = 0 then (ROOT_PATH, take (MAX_PATH - 1) (drop 1 p))
          else (let dir_len = (if last_slash \<ge> MAX_PATH then MAX_PATH - 1 else last_slash)
                in (take dir_len p, take (MAX_PATH - 1) (drop (last_slash + 1) p))))"

definition crear_inodo :: "entorno \<Rightarrow> superbloque \<Rightarrow> string \<Rightarrow> int \<Rightarrow> int \<times> superbloque" where
  "crear_inodo e sb p tipo =
     (let i = obtener_inodo_libre sb in
      if i = - 1 then (- 1, sb)
      else
        let k = nat i;
            sb1 = sb\<lparr>bitmap_inodes := (bitmap_inodes sb)(k := OCUPADO)\<rparr>;
            (d, n) = separar_path p
        in (i, con_inodo k (\<lambda>r. r\<lparr>inumero := i, tam := 0, id_user := euid e, id_gid := egid e,
                 link_num := 1, tipo_archivo := tipo,
                 permisos := (if tipo = DIR_T then MODE_DIR else MODE_FILE),
                 fecha_de_creacion := reloj e 0, fecha_de_modificacion := reloj e 0,
                 fecha_de_acceso := reloj e 0,
                 content := (\<lambda>j. if j < MAX_CONTENT then CHR 0x00 else content r j),
                 path := take (MAX_PATH - 1) p, directory_path := d, nombre := n\<rparr>) sb1))"

text \<open>
  \<open>eliminar_entrada_directorio\<close>. The search reads \<open>entradas[i]\<close> for every \<open>i\<close> below
  \<open>padre->tam / sizeof(entrada_directorio_t)\<close> (converted to \<open>int\<close>), and the removal
  shifts the later entries down. \<^term>\<open>None\<close>: an access outside \<open>content\<close>, which is
  possible because the bound comes from \<open>tam\<close> and not from \<open>MAX_DIR_ENTRIES\<close>.
\<close>

definition cant_entradas :: "64 word \<Rightarrow> nat" where
  "cant_entradas t = nat (sint (word_of_nat (unat t div sizeof_entrada) :: 32 word))"

function eliminar_buscar :: "contenido \<Rightarrow> string \<Rightarrow> nat \<Rightarrow> nat \<Rightarrow> nat option option" where
  "eliminar_buscar c s n i =
     (if i \<ge> n then Some None
      else if sizeof_entrada * i + 4 > MAX_CONTENT then None
      else if ent_inodo c i \<noteq> 0 then
        (if i \<ge> MAX_DIR_ENTRIES then None
         else if ent_nombre c i = s then Some (Some i)
         else eliminar_buscar c s n (i + 1))
      else eliminar_buscar c s n (i + 1))"
  by pat_completeness auto
termination
  by (relation "measure (\<lambda>(c, s, n, i). n - i)") auto

declare eliminar_buscar.simps [simp del]

text \<open>The shifting loop \<open>for (j = i; j < n - 1; j++) entradas[j] = entradas[j + 1]\<close>.\<close>

definition correr_entradas :: "contenido \<Rightarrow> nat \<Rightarrow> nat \<Rightarrow> contenido" where
  "correr_entradas c i n = fold (\<lambda>j d. copiar_entrada d j (j + 1)) [i..<n - 1] c"

definition eliminar_entrada_directorio ::
    "superbloque \<Rightarrow> nat \<Rightarrow> string \<Rightarrow> (int \<times> superbloque) option" where
  "eliminar_entrada_directorio sb padre s =
     (let r = inodos sb padre; n = cant_entradas (tam r) in
      case eliminar_buscar (content r) s n 0 of
        None \<Rightarrow> None
      | Some None \<Rightarrow> Some (- 1, sb)
      | Some (Some i) \<Rightarrow>
          if i < n - 1 \<and> n - 1 \<ge> MAX_DIR_ENTRIES then None
          else
            let c1 = correr_entradas (content r) i n;
                c2 = poner_inodo c1 (n - 1) 0;
                c3 = borrar_nombre c2 (n - 1)
            in Some (0, con_inodo padre
                 (\<lambda>r. r\<lparr>content := c3, tam := tam r - word_of_nat sizeof_entrada\<rparr>) sb))"

definition directorio_esta_vacio :: "inodo \<Rightarrow> bool" where
  "directorio_esta_vacio d =
     (primer_indice (\<lambda>i. ent_inodo (content d) i \<noteq> 0 \<and> ent_nombre (content d) i \<noteq> ''.''
        \<and> ent_nombre (content d) i \<noteq> ''..'') MAX_DIR_ENTRIES = None)"

definition agregar_entrada_directorio ::
    "superbloque \<Rightarrow> nat \<Rightarrow> nat \<Rightarrow> int \<times> superbloque" where
  "agregar_entrada_directorio sb parent child =
     (let c = content (inodos sb parent); num = inumero (inodos sb child) in
      case primer_indice (\<lambda>i. ent_inodo c i = 0) MAX_DIR_ENTRIES of
        None \<Rightarrow> (- 1, sb)
      | Some i \<Rightarrow>
          let c1 = poner_inodo c i (word_of_int num);
              c2 = strncpy_en c1 (sizeof_entrada * i + 4) (nombre (inodos sb (nat num))) (MAX_PATH - 1);
              c3 = c2(sizeof_entrada * i + 4 + (MAX_PATH - 1) := CHR 0x00)
          in (0, con_inodo parent
                (\<lambda>r. r\<lparr>content := c3, tam := tam r + word_of_nat sizeof_entrada\<rparr>) sb))"

definition crear_entrada :: "contenido \<Rightarrow> nat \<Rightarrow> string \<Rightarrow> nat \<Rightarrow> contenido" where
  "crear_entrada c i s num =
     poner_inodo (strcpy_en c (sizeof_entrada * i + 4) s) i (word_of_nat num)"

definition inicializar_entradas_directorio ::
    "superbloque \<Rightarrow> nat \<Rightarrow> nat \<Rightarrow> nat \<Rightarrow> superbloque" where
  "inicializar_entradas_directorio sb dir nuevo_inodo inodo_padre =
     con_inodo dir (\<lambda>r. r\<lparr>content := crear_entrada (crear_entrada (content r) 0 ''.'' nuevo_inodo)
                                      1 ''..'' inodo_padre,
                          tam := word_of_nat (2 * sizeof_entrada)\<rparr>) sb"

definition buscar_entrada_en_directorio :: "superbloque \<Rightarrow> nat \<Rightarrow> string \<Rightarrow> int" where
  "buscar_entrada_en_directorio sb padre s =
     (let c = content (inodos sb padre) in
      case primer_indice (\<lambda>i. ent_inodo c i \<noteq> 0 \<and> ent_nombre c i = s) MAX_DIR_ENTRIES of
        Some i \<Rightarrow> sint (ent_inodo c i) | None \<Rightarrow> - 1)"

text \<open>\<open>obtener_dir_padre\<close>: \<open>Inl\<close> the negated error code, or \<open>Inr (idx_padre, nombre_nuevo)\<close>.\<close>

definition obtener_dir_padre :: "string \<Rightarrow> superbloque \<Rightarrow> int + (nat \<times> string)" where
  "obtener_dir_padre p sb =
     (let (path_padre, nombre_nuevo) = separar_path p;
          padre = buscar_inodo path_padre sb
      in if padre < 0 then Inl (- ENOENT)
         else if tipo_archivo (inodos sb (nat padre)) \<noteq> DIR_T then Inl (- ENOTDIR)
         else Inr (nat padre, nombre_nuevo))"

end
