(* ===== verification/Fs_Ops.thy ===== *)
theory Fs_Ops
  imports Fs_Model
begin

text \<open>
  The FUSE callbacks of \<open>TP3-fisopfs/fisopfs.c\<close> over the global super block. A callback
  returns the \<open>int\<close> the C function returns and the new super block; \<^term>\<open>None\<close> is an
  access outside an array. \<open>size_t\<close> and \<open>off_t\<close> arguments are \<^typ>\<open>64 word\<close>: comparisons
  between the two are unsigned in C, and \<open>size > MAX_CONTENT\<close> in \<open>truncate\<close> is a signed one.
  Messages to the terminal are left out.
\<close>

type_synonym resultado = "(int \<times> superbloque) option"

record stat_buf =
  st_uid :: "32 word"
  st_gid :: "32 word"
  st_size :: "64 word"
  st_atime :: int
  st_mtime :: int
  st_ctime :: int
  st_nlink :: "64 word"
  st_mode :: "32 word"

definition stat_cero :: stat_buf where
  "stat_cero = \<lparr>st_uid = 0, st_gid = 0, st_size = 0, st_atime = 0, st_mtime = 0, st_ctime = 0,
     st_nlink = 0, st_mode = 0\<rparr>"

unbundle bit_operations_syntax

text \<open>\<open>return size;\<close> in a function that returns \<open>int\<close>.\<close>

definition int_de_size :: "64 word \<Rightarrow> int" where
  "int_de_size n = sint (ucast n :: 32 word)"

section \<open>Callbacks that do not change the super block\<close>

definition fisopfs_getattr :: "string \<Rightarrow> stat_buf \<Rightarrow> superbloque \<Rightarrow> int \<times> stat_buf" where
  "fisopfs_getattr p st sb =
     (let i = buscar_inodo p sb in
      if i = - 1 then (- ENOENT, st)
      else
        let r = inodos sb (nat i);
            st1 = st\<lparr>st_uid := id_user r, st_gid := id_gid r, st_size := tam r,
                     st_atime := fecha_de_acceso r, st_mtime := fecha_de_modificacion r,
                     st_ctime := fecha_de_creacion r, st_nlink := link_num r\<rparr>
        in (0, if tipo_archivo r = REG_T then st1\<lparr>st_mode := S_IFREG OR permisos r\<rparr>
               else if tipo_archivo r = DIR_T then st1\<lparr>st_mode := S_IFDIR OR permisos r\<rparr>
               else st1))"

text \<open>
  The second component is the list of names given to \<open>filler\<close>, in order. The entries are
  read up to \<open>tam / sizeof(entrada_directorio_t)\<close>.
\<close>

fun listar_entradas :: "contenido \<Rightarrow> nat \<Rightarrow> nat \<Rightarrow> string list option" where
  "listar_entradas c i 0 = Some []"
| "listar_entradas c i (Suc k) =
     (if sizeof_entrada * i + 4 > MAX_CONTENT then None
      else if ent_inodo c i \<noteq> 0 then
        (if i \<ge> MAX_DIR_ENTRIES then None
         else map_option ((#) (ent_nombre c i)) (listar_entradas c (i + 1) k))
      else listar_entradas c (i + 1) k)"

definition fisopfs_readdir :: "string \<Rightarrow> superbloque \<Rightarrow> (int \<times> string list) option" where
  "fisopfs_readdir p sb =
     (let indice = buscar_inodo p sb in
      if indice < 0 then Some (- ENOENT, [])
      else
        let r = inodos sb (nat indice) in
        if tipo_archivo r \<noteq> DIR_T then Some (- ENOTDIR, [])
        else map_option (\<lambda>ns. (0, ''.'' # ''..'' # ns))
               (listar_entradas (content r) 0 (cant_entradas (tam r))))"

section \<open>Reading and writing files\<close>

definition fisopfs_read ::
    "entorno \<Rightarrow> string \<Rightarrow> 64 word \<Rightarrow> 64 word \<Rightarrow> superbloque \<Rightarrow> (int \<times> string \<times> superbloque) option" where
  "fisopfs_read e p sz offset sb =
     (let indice = buscar_inodo p sb in
      if indice < 0 then Some (- ENOENT, [], sb)
      else
        let k = nat indice; r = inodos sb k in
        if tipo_archivo r \<noteq> REG_T then Some (- EISDIR, [], sb)
        else
          let file_size = tam r in
          if offset \<ge> file_size then Some (0, [], sb)
          else
            let n = (if offset + sz > file_size then file_size - offset else sz) in
            if unat offset + unat n > MAX_CONTENT then None
            else Some (int_de_size n,
                       map (\<lambda>j. content r (unat offset + j)) [0..<unat n],
                       con_inodo k (\<lambda>r. r\<lparr>fecha_de_acceso := reloj e 0\<rparr>) sb))"

definition memcpy_en :: "contenido \<Rightarrow> nat \<Rightarrow> string \<Rightarrow> nat \<Rightarrow> contenido" where
  "memcpy_en c b s n = (\<lambda>k. if b \<le> k \<and> k < b + n then s ! (k - b) else c k)"

definition fisopfs_write ::
    "entorno \<Rightarrow> string \<Rightarrow> string \<Rightarrow> 64 word \<Rightarrow> 64 word \<Rightarrow> superbloque \<Rightarrow> resultado" where
  "fisopfs_write e p buffer sz offset sb =
     (let indice = buscar_inodo p sb in
      if indice < 0 then Some (- ENOENT, sb)
      else
        let k = nat indice; r = inodos sb k in
        if tipo_archivo r \<noteq> REG_T then Some (- EISDIR, sb)
        else if offset + sz > word_of_nat MAX_CONTENT then Some (- EFBIG, sb)
        else if unat offset + unat sz > MAX_CONTENT \<or> length buffer < unat sz then None
        else
          let nuevo_tam = offset + sz in
          Some (int_de_size sz,
                con_inodo k (\<lambda>r. r\<lparr>content := memcpy_en (content r) (unat offset) buffer (unat sz),
                                   tam := (if nuevo_tam > tam r then nuevo_tam else tam r),
                                   fecha_de_modificacion := reloj e 0\<rparr>) sb))"

definition memset_cero :: "contenido \<Rightarrow> nat \<Rightarrow> nat \<Rightarrow> contenido" where
  "memset_cero c b n = (\<lambda>k. if b \<le> k \<and> k < b + n then CHR 0x00 else c k)"

definition fisopfs_truncate :: "entorno \<Rightarrow> string \<Rightarrow> 64 word \<Rightarrow> superbloque \<Rightarrow> resultado" where
  "fisopfs_truncate e p sz sb =
     (let idx = buscar_inodo p sb in
      if idx < 0 then Some (- ENOENT, sb)
      else
        let k = nat idx; r = inodos sb k in
        if tipo_archivo r \<noteq> REG_T then Some (- EISDIR, sb)
        else if sint sz > int MAX_CONTENT then Some (- EFBIG, sb)
        else if sz < tam r \<and> unat (tam r) > MAX_CONTENT then None
        else
          let c = (if sz < tam r then memset_cero (content r) (unat sz) (unat (tam r - sz))
                   else content r)
          in Some (0, con_inodo k (\<lambda>r. r\<lparr>content := c, tam := sz,
                                         fecha_de_modificacion := reloj e 0\<rparr>) sb))"

definition fisopfs_utimens :: "string \<Rightarrow> int \<Rightarrow> int \<Rightarrow> superbloque \<Rightarrow> int \<times> superbloque" where
  "fisopfs_utimens p tv0 tv1 sb =
     (let indice = buscar_inodo p sb in
      if indice < 0 then (- ENOENT, sb)
      else (0, con_inodo (nat indice)
                 (\<lambda>r. r\<lparr>fecha_de_acceso := tv0, fecha_de_modificacion := tv1\<rparr>) sb))"

section \<open>Creating and removing\<close>

definition fisopfs_create :: "entorno \<Rightarrow> string \<Rightarrow> 32 word \<Rightarrow> superbloque \<Rightarrow> int \<times> superbloque" where
  "fisopfs_create e p mode sb =
     (case obtener_dir_padre p sb of
        Inl err \<Rightarrow> (err, sb)
      | Inr (idx_padre, nombre_archivo) \<Rightarrow>
          if buscar_entrada_en_directorio sb idx_padre nombre_archivo \<ge> 0 then (- EEXIST, sb)
          else
            let (idx, sb1) = crear_inodo e sb p REG_T in
            if idx < 0 then (- ENOSPC, sb1)
            else
              let sb2 = con_inodo (nat idx) (\<lambda>r. r\<lparr>permisos := mode\<rparr>) sb1;
                  (ok, sb3) = agregar_entrada_directorio sb2 idx_padre (nat idx)
              in if ok < 0 then (- ENOSPC, sb3) else (0, sb3))"

definition liberar_inodo :: "nat \<Rightarrow> superbloque \<Rightarrow> superbloque" where
  "liberar_inodo i sb =
     con_inodo i (\<lambda>_. inodo_cero) (sb\<lparr>bitmap_inodes := (bitmap_inodes sb)(i := LIBRE)\<rparr>)"

definition fisopfs_unlink :: "string \<Rightarrow> superbloque \<Rightarrow> resultado" where
  "fisopfs_unlink p sb =
     (case obtener_dir_padre p sb of
        Inl err \<Rightarrow> Some (err, sb)
      | Inr (idx_padre, nombre_archivo) \<Rightarrow>
          let idx = buscar_inodo p sb in
          if idx < 0 then Some (- ENOENT, sb)
          else if tipo_archivo (inodos sb (nat idx)) \<noteq> REG_T then Some (- EISDIR, sb)
          else map_option (\<lambda>(_, sb2). (0, sb2))
                 (eliminar_entrada_directorio (liberar_inodo (nat idx) sb) idx_padre nombre_archivo))"

definition fisopfs_mkdir :: "entorno \<Rightarrow> string \<Rightarrow> 32 word \<Rightarrow> superbloque \<Rightarrow> int \<times> superbloque" where
  "fisopfs_mkdir e p mode sb =
     (case obtener_dir_padre p sb of
        Inl err \<Rightarrow> (err, sb)
      | Inr (padre, nombre_dir) \<Rightarrow>
          if buscar_entrada_en_directorio sb padre nombre_dir \<ge> 0 then (- EEXIST, sb)
          else
            let (idx_hijo, sb1) = crear_inodo e sb p DIR_T in
            if idx_hijo < 0 then (- ENOSPC, sb1)
            else
              let sb2 = con_inodo (nat idx_hijo)
                          (\<lambda>r. r\<lparr>permisos := mode, tam := 0, link_num := 2\<rparr>) sb1;
                  (resp, sb3) = agregar_entrada_directorio sb2 padre (nat idx_hijo)
              in if resp < 0 then (resp, sb3)
                 else (0, inicializar_entradas_directorio sb3 (nat idx_hijo) (nat idx_hijo) padre))"

definition fisopfs_rmdir :: "string \<Rightarrow> superbloque \<Rightarrow> resultado" where
  "fisopfs_rmdir p sb =
     (if p = ''/'' then Some (- EBUSY, sb)
      else
        let inodo_a_eliminar = buscar_inodo p sb in
        if inodo_a_eliminar < 0 then Some (- ENOENT, sb)
        else
          let d = nat inodo_a_eliminar in
          if tipo_archivo (inodos sb d) \<noteq> DIR_T then Some (- ENOTDIR, sb)
          else if \<not> directorio_esta_vacio (inodos sb d) then Some (- ENOTEMPTY, sb)
          else
            case obtener_dir_padre p sb of
              Inl err \<Rightarrow> Some (err, sb)
            | Inr (padre, nombre_dir) \<Rightarrow>
                (case eliminar_entrada_directorio sb padre nombre_dir of
                   None \<Rightarrow> None
                 | Some (r, sb1) \<Rightarrow>
                     if r < 0 then Some (- EIO, sb1) else Some (0, liberar_inodo d sb1)))"

section \<open>The disk image\<close>

text \<open>
  The file named by \<open>filedisk\<close>: absent, a full image of the super block, or shorter than
  one (then \<open>fread\<close> fails and leaves in memory what the bytes of the file say).
  \<open>fopen_ok\<close> and \<open>fwrite_ok\<close> say whether the two library calls of \<open>destroy\<close> succeed;
  opening with \<open>"wb"\<close> empties the file first.
\<close>

datatype disco = Ausente | Trunco superbloque | Imagen superbloque

definition fisopfs_init :: "entorno \<Rightarrow> disco \<Rightarrow> superbloque \<Rightarrow> superbloque" where
  "fisopfs_init e d sb =
     (case d of Ausente \<Rightarrow> inicializar_filesystem e sb | Trunco parcial \<Rightarrow> parcial | Imagen img \<Rightarrow> img)"

definition fisopfs_destroy :: "bool \<Rightarrow> bool \<Rightarrow> superbloque \<Rightarrow> superbloque \<Rightarrow> disco \<Rightarrow> disco" where
  "fisopfs_destroy fopen_ok fwrite_ok parcial sb d =
     (if \<not> fopen_ok then d else if \<not> fwrite_ok then Trunco parcial else Imagen sb)"

definition fisopfs_flush :: "bool \<Rightarrow> bool \<Rightarrow> superbloque \<Rightarrow> superbloque \<Rightarrow> disco \<Rightarrow> int \<times> disco" where
  "fisopfs_flush fopen_ok fwrite_ok parcial sb d =
     (0, fisopfs_destroy fopen_ok fwrite_ok parcial sb d)"

section \<open>The callback table\<close>

text \<open>
  \<open>struct fuse_operations operations\<close>: one constructor per callback that FUSE can call on a
  mounted file system. \<open>ejecutar\<close> is the effect of a call on the super block.
\<close>

datatype fuse_op =
    Getattr string
  | Readdir string
  | Read string "64 word" "64 word"
  | Write string string "64 word"
  | Truncate string "64 word"
  | Create string "32 word"
  | Unlink string
  | Mkdir string "32 word"
  | Rmdir string
  | Utimens string int int

fun ejecutar :: "entorno \<Rightarrow> fuse_op \<Rightarrow> superbloque \<Rightarrow> (int \<times> superbloque) option" where
  "ejecutar e (Getattr p) sb = Some (fst (fisopfs_getattr p stat_cero sb), sb)"
| "ejecutar e (Readdir p) sb = map_option (\<lambda>(r, _). (r, sb)) (fisopfs_readdir p sb)"
| "ejecutar e (Read p n off) sb = map_option (\<lambda>(r, _, sb'). (r, sb')) (fisopfs_read e p n off sb)"
| "ejecutar e (Write p buf off) sb = fisopfs_write e p buf (word_of_nat (length buf)) off sb"
| "ejecutar e (Truncate p n) sb = fisopfs_truncate e p n sb"
| "ejecutar e (Create p m) sb = Some (fisopfs_create e p m sb)"
| "ejecutar e (Unlink p) sb = fisopfs_unlink p sb"
| "ejecutar e (Mkdir p m) sb = Some (fisopfs_mkdir e p m sb)"
| "ejecutar e (Rmdir p) sb = fisopfs_rmdir p sb"
| "ejecutar e (Utimens p a m) sb = Some (fisopfs_utimens p a m sb)"

end
