(* ===== verification/Fs_Dir.thy ===== *)
theory Fs_Dir
  imports Fs_Ops
begin

text \<open>
  Directory entries over the bytes of a directory. First the byte level: what each write
  of \<open>fs.c\<close> does to the entries read back (field disjointness inside a 260-byte entry,
  disjointness of entries). Then the interface \<open>tabla_entradas\<close> states these laws once;
  the shifting loop of \<open>eliminar_entrada_directorio\<close> and the prefix invariant of a
  directory are proved inside it, and it is interpreted on the byte operations.
\<close>

section \<open>The byte level\<close>

lemma pos_ent:
  assumes "a < 260" "b < 260" "260 * i + a = 260 * j + (b::nat)"
  shows "i = j \<and> a = b"
proof -
  have "(260 * i + a) div 260 = (260 * j + b) div 260" using assms(3) by simp
  then have "i = j" using assms(1,2) by simp
  with assms(3) show ?thesis by simp
qed

lemma pos_ent_neq:
  "a < 260 \<Longrightarrow> b < 260 \<Longrightarrow> i \<noteq> j \<Longrightarrow> 260 * i + a \<noteq> 260 * j + (b::nat)"
  using pos_ent by blast

text \<open>An entry depends on its own 260 bytes only.\<close>

lemma ent_inodo_cong:
  assumes "\<And>a. a < 4 \<Longrightarrow> c (260 * i + a) = d (260 * j + a)"
  shows "ent_inodo c i = ent_inodo d j"
  using assms [of 0] assms [of 1] assms [of 2] assms [of 3]
  by (simp add: ent_inodo_def Let_def fs_consts)

lemma ent_nombre_cong:
  assumes "\<And>a. 4 \<le> a \<Longrightarrow> a < 260 \<Longrightarrow> c (260 * i + a) = d (260 * j + a)"
  shows "ent_nombre c i = ent_nombre d j"
  unfolding ent_nombre_def
proof (rule cstr_en_cong)
  fix k assume "k < MAX_PATH"
  then have "c (260 * i + (k + 4)) = d (260 * j + (k + 4))"
    by (intro assms) (simp_all add: MAX_PATH_def)
  then show "c (sizeof_entrada * i + 4 + k) = d (sizeof_entrada * j + 4 + k)"
    by (simp add: fs_consts algebra_simps)
qed

lemma poner_inodo_fuera:
  "a < 260 \<Longrightarrow> i \<noteq> j \<Longrightarrow> poner_inodo c i v (260 * j + a) = c (260 * j + a)"
  "4 \<le> a \<Longrightarrow> a < 260 \<Longrightarrow> poner_inodo c i v (260 * j + a) = c (260 * j + a)"
  using pos_ent [of a 0 j i] pos_ent [of a 1 j i] pos_ent [of a 2 j i] pos_ent [of a 3 j i]
  by (auto simp: poner_inodo_def Let_def fs_consts)

lemma bytes_de_32:
  assumes "n < 2 ^ 32"
  shows "n mod 256 + 256 * (n div 256 mod 256 + 256 * (n div 65536 mod 256
           + 256 * (n div 16777216 mod 256))) = (n::nat)"
proof -
  have a: "n div 65536 = n div 256 div 256" "n div 16777216 = n div 256 div 256 div 256"
    by (simp_all add: div_mult2_eq [symmetric])
  have lt: "n div 256 div 256 div 256 < 256"
    using assms by (simp add: div_mult2_eq [symmetric] less_mult_imp_div_less)
  show ?thesis
    using lt mod_mult_div_eq [of n 256] mod_mult_div_eq [of "n div 256" 256]
      mod_mult_div_eq [of "n div 256 div 256" 256]
    by (simp add: a)
qed

lemma ent_inodo_poner [simp]:
  "ent_inodo (poner_inodo c i v) j = (if j = i then v else ent_inodo c j)"
proof (cases "j = i")
  case True
  have "unat v < 2 ^ 32" using unsigned_less [of v] by simp
  from arg_cong [OF bytes_de_32 [OF this], of "word_of_nat :: nat \<Rightarrow> 32 word"] True show ?thesis
    by (simp add: ent_inodo_def poner_inodo_def Let_def fs_consts of_char_of)
next
  case False
  then show ?thesis by (auto intro: ent_inodo_cong simp: poner_inodo_fuera)
qed

lemma ent_nombre_poner [simp]: "ent_nombre (poner_inodo c i v) j = ent_nombre c j"
  by (rule ent_nombre_cong) (simp add: poner_inodo_fuera)

text \<open>A write into the name field of entry \<open>i\<close> at byte \<open>a\<close> of the field.\<close>

lemma ent_inodo_nombre_upd [simp]:
  assumes "a < 256"
  shows "ent_inodo (c(sizeof_entrada * i + 4 + a := x)) j = ent_inodo c j"
proof (rule ent_inodo_cong)
  fix b :: nat assume "b < 4"
  then show "(c(sizeof_entrada * i + 4 + a := x)) (260 * j + b) = c (260 * j + b)"
    using assms pos_ent [of b "4 + a" j i] by (auto simp: fs_consts)
qed

lemma ent_nombre_otro_upd:
  assumes "a < 256" "j \<noteq> i"
  shows "ent_nombre (c(sizeof_entrada * i + 4 + a := x)) j = ent_nombre c j"
proof (rule ent_nombre_cong)
  fix b :: nat assume "4 \<le> b" "b < 260"
  then show "(c(sizeof_entrada * i + 4 + a := x)) (260 * j + b) = c (260 * j + b)"
    using assms pos_ent [of b "4 + a" j i] by (auto simp: fs_consts)
qed

lemma ent_inodo_borrar_nombre [simp]: "ent_inodo (borrar_nombre c i) j = ent_inodo c j"
  using ent_inodo_nombre_upd [of 0] by (simp add: borrar_nombre_def)

lemma ent_nombre_borrar_nombre [simp]:
  "ent_nombre (borrar_nombre c i) j = (if j = i then [] else ent_nombre c j)"
proof (cases "j = i")
  case True
  then show ?thesis
    unfolding ent_nombre_def borrar_nombre_def
    by (auto intro!: cstr_en_eqI simp: MAX_PATH_def)
next
  case False
  then show ?thesis
    using ent_nombre_otro_upd [of 0] by (simp add: borrar_nombre_def)
qed

lemma strncpy_en_fuera:
  assumes "n \<le> 256" "a < 260" "j \<noteq> i \<or> a < 4"
  shows "strncpy_en c (260 * i + 4) s n (260 * j + a) = c (260 * j + a)"
proof -
  have "\<not> (260 * i + 4 \<le> 260 * j + a \<and> 260 * j + a < 260 * i + 4 + n)"
  proof
    assume h: "260 * i + 4 \<le> 260 * j + a \<and> 260 * j + a < 260 * i + 4 + n"
    then obtain d where d: "260 * j + a = 260 * i + (4 + d)" "d < n"
      by (metis add.assoc le_Suc_ex nat_add_left_cancel_less)
    with assms(1,2) pos_ent [of a "4 + d" j i] have "j = i" "a = 4 + d" by auto
    with assms(3) show False by simp
  qed
  then show ?thesis by (auto simp: strncpy_en_def)
qed

lemma ultimo_del_nombre: "MAX_PATH - 1 < 256"
  by (simp add: MAX_PATH_def)

text \<open>The name written by \<open>agregar_entrada_directorio\<close>.\<close>

definition poner_nombre :: "contenido \<Rightarrow> nat \<Rightarrow> string \<Rightarrow> contenido" where
  "poner_nombre c i s =
     (strncpy_en c (sizeof_entrada * i + 4) s (MAX_PATH - 1))
       (sizeof_entrada * i + 4 + (MAX_PATH - 1) := CHR 0x00)"

lemma ent_inodo_poner_nombre [simp]: "ent_inodo (poner_nombre c i s) j = ent_inodo c j"
proof -
  have "ent_inodo (strncpy_en c (sizeof_entrada * i + 4) s (MAX_PATH - 1)) j = ent_inodo c j"
    by (rule ent_inodo_cong) (simp add: fs_consts strncpy_en_fuera)
  then show ?thesis by (simp add: poner_nombre_def ultimo_del_nombre del: diff_Suc_eq_diff_pred One_nat_def)
qed

lemma ent_nombre_poner_nombre:
  assumes "cstring s"
  shows "ent_nombre (poner_nombre c i s) j
    = (if j = i then take (MAX_PATH - 1) s else ent_nombre c j)"
proof (cases "j = i")
  case True
  have "cstr_en (poner_nombre c i s) (sizeof_entrada * i + 4) MAX_PATH = take (MAX_PATH - 1) s"
    using assms by (intro cstr_en_eqI) (auto simp: poner_nombre_def strncpy_en_def MAX_PATH_def)
  with True show ?thesis by (simp add: ent_nombre_def)
next
  case False
  have "ent_nombre (strncpy_en c (sizeof_entrada * i + 4) s (MAX_PATH - 1)) j = ent_nombre c j"
    using False by (intro ent_nombre_cong) (simp add: fs_consts strncpy_en_fuera)
  with False show ?thesis
    by (simp add: poner_nombre_def ent_nombre_otro_upd ultimo_del_nombre del: One_nat_def)
qed

lemma strcpy_en_fuera:
  assumes "length s < 256" "a < 260" "j \<noteq> i \<or> a < 4"
  shows "strcpy_en c (260 * i + 4) s (260 * j + a) = c (260 * j + a)"
proof -
  have "strcpy_en c (260 * i + 4) s (260 * j + a)
      = strncpy_en c (260 * i + 4) s (length s + 1) (260 * j + a)"
    by (simp add: strcpy_en_def strncpy_en_def less_Suc_eq_le)
  with strncpy_en_fuera [of "length s + 1" a j i] assms show ?thesis by simp
qed

lemma ent_inodo_crear_entrada:
  "length s < 256 \<Longrightarrow> ent_inodo (crear_entrada c i s n) j
     = (if j = i then word_of_nat n else ent_inodo c j)"
  by (auto simp: crear_entrada_def fs_consts strcpy_en_fuera intro: ent_inodo_cong)

lemma ent_nombre_crear_entrada:
  assumes "cstring s" "length s < 256"
  shows "ent_nombre (crear_entrada c i s n) j = (if j = i then s else ent_nombre c j)"
proof (cases "j = i")
  case True
  have "cstr_en (strcpy_en c (sizeof_entrada * i + 4) s) (sizeof_entrada * i + 4) MAX_PATH = s"
    using assms by (intro cstr_en_eqI) (auto simp: strcpy_en_def MAX_PATH_def)
  with True show ?thesis by (simp add: crear_entrada_def) (simp add: ent_nombre_def)
next
  case False
  have "ent_nombre (strcpy_en c (sizeof_entrada * i + 4) s) j = ent_nombre c j"
    using False assms by (intro ent_nombre_cong) (simp add: fs_consts strcpy_en_fuera)
  with False show ?thesis by (simp add: crear_entrada_def)
qed

lemma copiar_entrada_byte:
  assumes "a < 260"
  shows "copiar_entrada c i j (260 * k + a) = (if k = i then c (260 * j + a) else c (260 * k + a))"
proof (cases "k = i")
  case False
  have "\<not> (260 * i \<le> 260 * k + a \<and> 260 * k + a < 260 * (i + 1))"
  proof
    assume h: "260 * i \<le> 260 * k + a \<and> 260 * k + a < 260 * (i + 1)"
    have "i \<le> k" using h assms by linarith
    moreover have "260 * k < 260 * (i + 1)"
      using le_less_trans [OF le_add1 conjunct2 [OF h]] .
    then have "k \<le> i" by simp
    ultimately have "k = i" by simp
    with False show False by simp
  qed
  with False show ?thesis by (auto simp: copiar_entrada_def sizeof_entrada_260)
qed (use assms in \<open>simp add: copiar_entrada_def sizeof_entrada_260 algebra_simps\<close>)

lemma ent_copiar [simp]:
  "ent_inodo (copiar_entrada c i j) k = (if k = i then ent_inodo c j else ent_inodo c k)"
  "ent_nombre (copiar_entrada c i j) k = (if k = i then ent_nombre c j else ent_nombre c k)"
  by (auto intro!: ent_inodo_cong ent_nombre_cong simp: copiar_entrada_byte)

section \<open>The interface of a table of entries\<close>

text \<open>
  What \<open>fs.c\<close> does with the array of entries of a directory: read a number and a name,
  copy one entry over another, empty an entry. \<open>correr\<close> is the shifting loop.
\<close>

locale tabla_entradas =
  fixes num :: "'c \<Rightarrow> nat \<Rightarrow> 32 word"
    and nom :: "'c \<Rightarrow> nat \<Rightarrow> string"
    and mover :: "'c \<Rightarrow> nat \<Rightarrow> nat \<Rightarrow> 'c"
    and vaciar :: "'c \<Rightarrow> nat \<Rightarrow> 'c"
  assumes num_mover: "num (mover c i j) k = (if k = i then num c j else num c k)"
    and nom_mover: "nom (mover c i j) k = (if k = i then nom c j else nom c k)"
    and num_vaciar: "num (vaciar c i) k = (if k = i then 0 else num c k)"
    and nom_vaciar: "nom (vaciar c i) k = (if k = i then [] else nom c k)"
begin

definition correr :: "'c \<Rightarrow> nat \<Rightarrow> nat \<Rightarrow> 'c" where
  "correr c i n = fold (\<lambda>j d. mover d j (j + 1)) [i..<n - 1] c"

lemma fold_mover:
  "num (fold (\<lambda>j d. mover d j (j + 1)) [i..<i + m] c) k
     = (if i \<le> k \<and> k < i + m then num c (k + 1) else num c k)"
  "nom (fold (\<lambda>j d. mover d j (j + 1)) [i..<i + m] c) k
     = (if i \<le> k \<and> k < i + m then nom c (k + 1) else nom c k)"
  by (induction m arbitrary: k) (auto simp: num_mover nom_mover)

lemma num_correr: "num (correr c i n) k = (if i \<le> k \<and> k < n - 1 then num c (k + 1) else num c k)"
  and nom_correr: "nom (correr c i n) k = (if i \<le> k \<and> k < n - 1 then nom c (k + 1) else nom c k)"
proof -
  have "num (correr c i n) k = (if i \<le> k \<and> k < n - 1 then num c (k + 1) else num c k)
      \<and> nom (correr c i n) k = (if i \<le> k \<and> k < n - 1 then nom c (k + 1) else nom c k)"
  proof (cases "i \<le> n - 1")
    case True
    then have eq: "i + (n - 1 - i) = n - 1" by simp
    show ?thesis
      using fold_mover [where i = i and m = "n - 1 - i" and c = c and k = k]
      unfolding eq correr_def by blast
  next
    case False
    then show ?thesis by (auto simp: correr_def)
  qed
  then show "num (correr c i n) k = (if i \<le> k \<and> k < n - 1 then num c (k + 1) else num c k)"
    and "nom (correr c i n) k = (if i \<le> k \<and> k < n - 1 then nom c (k + 1) else nom c k)"
    by auto
qed

text \<open>
  The used entries (number different from 0) are the first \<open>m\<close>, and no name is used twice.
\<close>

definition compacta :: "'c \<Rightarrow> nat \<Rightarrow> bool" where
  "compacta c m \<longleftrightarrow> m \<le> 15 \<and> (\<forall>i<16. num c i \<noteq> 0 \<longleftrightarrow> i < m)"

definition nombres_distintos :: "'c \<Rightarrow> nat \<Rightarrow> bool" where
  "nombres_distintos c m \<longleftrightarrow> (\<forall>i<m. \<forall>j<m. nom c i = nom c j \<longrightarrow> i = j)"

text \<open>Removing entry \<open>i\<close> of the first \<open>n\<close> as the code does it: shift, then empty the last.\<close>

definition quitar :: "'c \<Rightarrow> nat \<Rightarrow> nat \<Rightarrow> 'c" where
  "quitar c i n = vaciar (correr c i n) (n - 1)"

lemma num_quitar:
  "num (quitar c i n) k = (if k = n - 1 then 0
     else if i \<le> k \<and> k < n - 1 then num c (k + 1) else num c k)"
  and nom_quitar:
  "nom (quitar c i n) k = (if k = n - 1 then []
     else if i \<le> k \<and> k < n - 1 then nom c (k + 1) else nom c k)"
  by (simp_all add: quitar_def num_vaciar nom_vaciar num_correr nom_correr)

lemma compacta_quitar:
  assumes "compacta c m" "i < m" "m \<le> n" "n \<le> m + 1" "n \<le> 15"
  shows "compacta (quitar c i n) (m - 1)"
  unfolding compacta_def
proof (intro conjI allI impI)
  show "m - 1 \<le> 15" using assms by (simp add: compacta_def)
  fix k :: nat assume k: "k < 16"
  have used: "\<And>j. j < 16 \<Longrightarrow> num c j \<noteq> 0 \<longleftrightarrow> j < m" and m: "m \<le> 15"
    using assms(1) by (auto simp: compacta_def)
  consider "k = n - 1" | "k < n - 1" | "n - 1 < k" by linarith
  then show "num (quitar c i n) k \<noteq> 0 \<longleftrightarrow> k < m - 1"
  proof cases
    case 1
    then show ?thesis using assms by (simp add: num_quitar)
  next
    case 2
    then show ?thesis
      using assms used [of k] used [of "k + 1"] by (auto simp: num_quitar)
  next
    case 3
    then show ?thesis using assms used [of k] k by (auto simp: num_quitar)
  qed
qed

text \<open>The used entries after a removal are those before without the removed one.\<close>

lemma usadas_quitar:
  assumes "i < m" "m \<le> n" "n \<le> m + 1"
  shows "(\<lambda>k. (num (quitar c i n) k, nom (quitar c i n) k)) ` {..<m - 1}
    = (\<lambda>k. (num c k, nom c k)) ` ({..<m} - {i})" (is "?f ` _ = ?g ` _")
proof (intro equalityI image_subsetI)
  fix k assume "k \<in> {..<m - 1}"
  then have k: "k < m - 1" by simp
  let ?j = "if i \<le> k then k + 1 else k"
  have "?f k = ?g ?j" and "?j \<in> {..<m} - {i}"
    using k assms by (auto simp: num_quitar nom_quitar)
  then show "?f k \<in> ?g ` ({..<m} - {i})" by blast
next
  fix j assume "j \<in> {..<m} - {i}"
  then have j: "j < m" "j \<noteq> i" by auto
  let ?k = "if i < j then j - 1 else j"
  have "?g j = ?f ?k" and "?k \<in> {..<m - 1}"
    using j assms by (auto simp: num_quitar nom_quitar)
  then show "?g j \<in> ?f ` {..<m - 1}" by blast
qed

lemma nombres_quitar:
  assumes "nombres_distintos c m" "i < m" "m \<le> n" "n \<le> m + 1"
  shows "nombres_distintos (quitar c i n) (m - 1)"
  unfolding nombres_distintos_def
proof (intro allI impI)
  let ?pos = "\<lambda>k. if i \<le> k then k + 1 else k"
  have pos: "nom (quitar c i n) k = nom c (?pos k) \<and> ?pos k < m" if "k < m - 1" for k
    using that assms(2-4) by (auto simp: nom_quitar)
  fix a b assume ab: "a < m - 1" "b < m - 1" and eq: "nom (quitar c i n) a = nom (quitar c i n) b"
  have "nom c (?pos a) = nom c (?pos b)"
    using eq pos [OF ab(1)] pos [OF ab(2)] by presburger
  then have "?pos a = ?pos b"
    using assms(1) [unfolded nombres_distintos_def, rule_format, of "?pos a" "?pos b"]
      pos [OF ab(1)] pos [OF ab(2)] by blast
  then show "a = b" by (cases "i \<le> a"; cases "i \<le> b") simp_all
qed

end

text \<open>The bytes of a directory are such a table.\<close>

definition vaciar_entrada :: "contenido \<Rightarrow> nat \<Rightarrow> contenido" where
  "vaciar_entrada c i = borrar_nombre (poner_inodo c i 0) i"

interpretation dir: tabla_entradas ent_inodo ent_nombre copiar_entrada vaciar_entrada
  by unfold_locales (simp_all add: vaciar_entrada_def)

lemma correr_entradas_dir: "correr_entradas c i n = dir.correr c i n"
  by (simp add: correr_entradas_def dir.correr_def)

end
