(* ===== verification/Fs_Inv.thy ===== *)
theory Fs_Inv
  imports Fs_Dir
begin

text \<open>
  The invariant of a mounted file system and its preservation by every callback: paths
  identify inodes, a directory is a compact table of distinct names, every named entry
  leads to an occupied inode that knows its parent and its name, and the bytes of a
  regular file past its size are zero.
\<close>

section \<open>Searching the inode table\<close>

definition ocupado :: "superbloque \<Rightarrow> nat \<Rightarrow> bool" where
  "ocupado sb i \<longleftrightarrow> i < MAX_INODES \<and> bitmap_inodes sb i = OCUPADO"

lemma ocupado_con_inodo [simp]: "ocupado (con_inodo i f sb) = ocupado sb"
  by (simp add: ocupado_def fun_eq_iff)

lemma buscar_inodo_cases:
  obtains (no) "buscar_inodo p sb = - 1" "\<And>i. ocupado sb i \<Longrightarrow> path (inodos sb i) \<noteq> p"
  | (si) i where "buscar_inodo p sb = int i" "ocupado sb i" "path (inodos sb i) = p"
proof (cases "primer_indice (\<lambda>i. bitmap_inodes sb i = OCUPADO \<and> path (inodos sb i) = p) MAX_INODES")
  case None
  then have "\<And>i. ocupado sb i \<Longrightarrow> path (inodos sb i) \<noteq> p"
    by (auto simp: primer_indice_None ocupado_def)
  with None show ?thesis by (intro no) (auto simp: buscar_inodo_def)
next
  case (Some i)
  then have "ocupado sb i" "path (inodos sb i) = p"
    by (auto simp: primer_indice_Some ocupado_def)
  with Some show ?thesis by (intro si [of i]) (auto simp: buscar_inodo_def)
qed

lemma buscar_inodo_neg: "buscar_inodo p sb < 0 \<longleftrightarrow> (\<forall>i. ocupado sb i \<longrightarrow> path (inodos sb i) \<noteq> p)"
  by (rule buscar_inodo_cases [of p sb]) auto

lemma buscar_inodo_m1: "buscar_inodo p sb = - 1 \<longleftrightarrow> buscar_inodo p sb < 0"
  by (rule buscar_inodo_cases [of p sb]) auto

lemma buscar_inodoD:
  assumes "\<not> buscar_inodo p sb < 0"
  shows "ocupado sb (nat (buscar_inodo p sb))" "path (inodos sb (nat (buscar_inodo p sb))) = p"
  using assms by (cases rule: buscar_inodo_cases [of p sb]; simp)+

definition caminos_unicos :: "superbloque \<Rightarrow> bool" where
  "caminos_unicos sb \<longleftrightarrow> (\<forall>i j. ocupado sb i \<longrightarrow> ocupado sb j
     \<longrightarrow> path (inodos sb i) = path (inodos sb j) \<longrightarrow> i = j)"

lemma caminos_unicosD:
  "caminos_unicos sb \<Longrightarrow> ocupado sb i \<Longrightarrow> ocupado sb j
     \<Longrightarrow> path (inodos sb i) = path (inodos sb j) \<Longrightarrow> i = j"
  by (simp add: caminos_unicos_def)

lemma buscar_inodo_unico:
  assumes "caminos_unicos sb" "ocupado sb i"
  shows "buscar_inodo (path (inodos sb i)) sb = int i"
proof (cases rule: buscar_inodo_cases [of "path (inodos sb i)" sb])
  case no
  with assms show ?thesis by blast
next
  case (si j)
  from caminos_unicosD [OF assms(1) si(2) assms(2) si(3)] have "j = i" .
  with si show ?thesis by simp
qed

lemma obtener_inodo_libre_cases:
  obtains (no) "obtener_inodo_libre sb = - 1" "\<And>i. i < MAX_INODES \<Longrightarrow> bitmap_inodes sb i \<noteq> LIBRE"
  | (si) i where "obtener_inodo_libre sb = int i" "i < MAX_INODES" "bitmap_inodes sb i = LIBRE"
proof (cases "primer_indice (\<lambda>i. bitmap_inodes sb i = LIBRE) MAX_INODES")
  case None
  then have "obtener_inodo_libre sb = - 1" by (simp add: obtener_inodo_libre_def)
  moreover have "\<And>i. i < MAX_INODES \<Longrightarrow> bitmap_inodes sb i \<noteq> LIBRE"
    using None by (simp add: primer_indice_None)
  ultimately show ?thesis by (rule no)
next
  case (Some i)
  then have "obtener_inodo_libre sb = int i" by (simp add: obtener_inodo_libre_def)
  moreover have "i < MAX_INODES" "bitmap_inodes sb i = LIBRE"
    using Some by (simp_all add: primer_indice_Some)
  ultimately show ?thesis by (rule si)
qed

section \<open>Splitting a path\<close>

lemma strrchr_Some:
  assumes "strrchr s ch = Some k"
  shows "k < length s" "s ! k = ch" "\<And>j. k < j \<Longrightarrow> j < length s \<Longrightarrow> s ! j \<noteq> ch"
proof -
  define ks where "ks = filter (\<lambda>i. s ! i = ch) [0..<length s]"
  have ne: "ks \<noteq> []" and k: "k = last ks"
    using assms by (auto simp: strrchr_def ks_def Let_def split: if_splits)
  then have "k \<in> set ks" by simp
  then show "k < length s" "s ! k = ch" by (auto simp: ks_def)
  fix j assume "k < j" "j < length s"
  show "s ! j \<noteq> ch"
  proof
    assume "s ! j = ch"
    with \<open>j < length s\<close> have "j \<in> set ks" by (simp add: ks_def)
    moreover have "sorted ks" unfolding ks_def by (rule sorted_wrt_filter) simp
    ultimately have "j \<le> last ks"
      by (metis ne in_set_conv_nth last_conv_nth length_greater_0_conv less_Suc_eq_le
          sorted_nth_mono Suc_pred' diff_less zero_less_one)
    with k \<open>k < j\<close> show False by simp
  qed
qed

lemma strrchr_None: "strrchr s ch = None \<longleftrightarrow> ch \<notin> set s"
  by (auto simp: strrchr_def Let_def filter_empty_conv in_set_conv_nth)

lemma separar_path_distinto: "fst (separar_path p) = p \<Longrightarrow> p = ''/''"
  by (auto simp: separar_path_def ROOT_PATH_def strrchr_None Let_def take_Cons'
      split: option.splits if_splits dest!: arg_cong [of _ _ length] strrchr_Some(1))

lemma separar_path_cstring:
  "cstring p \<Longrightarrow> cstring (snd (separar_path p))"
  by (auto simp: separar_path_def Let_def split: option.splits)

lemma length_separar_nombre: "length (snd (separar_path p)) < MAX_PATH"
  by (auto simp: separar_path_def Let_def MAX_PATH_def split: option.splits)

text \<open>The path is its two parts joined with a slash, for absolute paths that fit.\<close>

definition unir_path :: "string \<Rightarrow> string \<Rightarrow> string" where
  "unir_path d n = (if d = ROOT_PATH then d @ n else d @ ''/'' @ n)"

definition ruta_absoluta :: "string \<Rightarrow> bool" where
  "ruta_absoluta p \<longleftrightarrow> p \<noteq> [] \<and> p ! 0 = CHR ''/'' \<and> (length p = 1 \<or> p ! 1 \<noteq> CHR ''/'')"

lemma separar_unir:
  assumes ra: "ruta_absoluta p" and len: "length p < MAX_PATH"
    and sep: "separar_path p = (d, n)"
  shows "unir_path d n = p" "CHR ''/'' \<notin> set n"
proof -
  have abs: "p \<noteq> []" "p ! 0 = CHR ''/''" and nd: "p ! 1 \<noteq> CHR ''/'' \<or> length p = 1"
    using ra by (auto simp: ruta_absoluta_def)
  have "CHR ''/'' \<in> set p" using abs by (metis length_greater_0_conv nth_mem)
  then obtain k where k: "strrchr p (CHR ''/'') = Some k"
    using strrchr_None by (cases "strrchr p (CHR ''/'')") auto
  note kk = strrchr_Some [OF k]
  have n: "n = drop (k + 1) p"
    using sep k kk(1) len by (auto simp: separar_path_def Let_def split: if_splits)
  show "CHR ''/'' \<notin> set n"
  proof
    assume "CHR ''/'' \<in> set n"
    then obtain j where "j < length p - (k + 1)" "p ! (k + 1 + j) = CHR ''/''"
      unfolding n by (auto simp: in_set_conv_nth)
    with kk(3) [of "k + 1 + j"] show False by simp
  qed
  have split: "p = take k p @ CHR ''/'' # drop (k + 1) p"
    using kk(1,2) by (metis Suc_eq_plus1 id_take_nth_drop)
  show "unir_path d n = p"
  proof (cases "k = 0")
    case True
    with sep k n split show ?thesis
      by (auto simp: separar_path_def unir_path_def ROOT_PATH_def)
  next
    case False
    then have d: "d = take k p"
      using sep k kk(1) len by (auto simp: separar_path_def Let_def split: if_splits)
    have "d \<noteq> ROOT_PATH"
    proof
      assume "d = ROOT_PATH"
      then have "length (take k p) = 1" by (simp add: d ROOT_PATH_def)
      with kk(1) have "k = 1" by simp
      with kk(2) nd kk(1) show False by simp
    qed
    with split show ?thesis by (simp add: unir_path_def d n)
  qed
qed

section \<open>The invariant\<close>

text \<open>
  A directory: its used entries are a prefix of \<open>m\<close> entries with distinct names, and its
  size counts \<open>m\<close> entries or one more (the entry \<open>..\<close> of a directory of the root holds
  number 0 and so counts as a free one).
\<close>

definition dir_ok :: "inodo \<Rightarrow> bool" where
  "dir_ok r \<longleftrightarrow> (\<exists>m. dir.compacta (content r) m \<and> dir.nombres_distintos (content r) m
     \<and> (tam r = word_of_nat (260 * m) \<or> tam r = word_of_nat (260 * (m + 1))))"

definition fichero_ok :: "inodo \<Rightarrow> bool" where
  "fichero_ok r \<longleftrightarrow> unat (tam r) \<le> MAX_CONTENT
     \<and> (\<forall>k. unat (tam r) \<le> k \<longrightarrow> k < MAX_CONTENT \<longrightarrow> content r k = CHR 0x00)"

definition inodo_ok :: "nat \<Rightarrow> inodo \<Rightarrow> bool" where
  "inodo_ok i r \<longleftrightarrow> inumero r = int i \<and> cstring (path r) \<and> length (path r) < MAX_PATH
     \<and> ruta_absoluta (path r)
     \<and> (i \<noteq> 0 \<longrightarrow> separar_path (path r) = (directory_path r, nombre r))
     \<and> (tipo_archivo r = DIR_T \<and> dir_ok r \<or> tipo_archivo r = REG_T \<and> fichero_ok r)"

text \<open>Every used entry of a directory: its number and, unless it is \<open>.\<close> or \<open>..\<close>, its target.\<close>

definition entrada_ok :: "superbloque \<Rightarrow> inodo \<Rightarrow> nat \<Rightarrow> bool" where
  "entrada_ok sb d k \<longleftrightarrow> (let v = unat (ent_inodo (content d) k); n = ent_nombre (content d) k in
     v = 0 \<or> v < MAX_INODES \<and> (n \<noteq> ''.'' \<longrightarrow> n \<noteq> ''..'' \<longrightarrow>
       ocupado sb v \<and> nombre (inodos sb v) = n \<and> directory_path (inodos sb v) = path d))"

definition entradas_ok :: "superbloque \<Rightarrow> bool" where
  "entradas_ok sb \<longleftrightarrow> (\<forall>d. ocupado sb d \<longrightarrow> tipo_archivo (inodos sb d) = DIR_T \<longrightarrow>
     (\<forall>k<MAX_DIR_ENTRIES. entrada_ok sb (inodos sb d) k))"

definition raiz_ok :: "superbloque \<Rightarrow> bool" where
  "raiz_ok sb \<longleftrightarrow> ocupado sb 0 \<and> path (inodos sb 0) = ROOT_PATH
     \<and> tipo_archivo (inodos sb 0) = DIR_T"

definition fs_inv :: "superbloque \<Rightarrow> bool" where
  "fs_inv sb \<longleftrightarrow> raiz_ok sb \<and> caminos_unicos sb
     \<and> (\<forall>i<MAX_INODES. bitmap_inodes sb i \<in> {LIBRE, OCUPADO})
     \<and> (\<forall>i. ocupado sb i \<longrightarrow> inodo_ok i (inodos sb i)) \<and> entradas_ok sb"

lemma fs_invD:
  assumes "fs_inv sb"
  shows "raiz_ok sb" "caminos_unicos sb" "entradas_ok sb"
    "\<And>i. ocupado sb i \<Longrightarrow> inodo_ok i (inodos sb i)"
    "\<And>i. i < MAX_INODES \<Longrightarrow> bitmap_inodes sb i = LIBRE \<or> bitmap_inodes sb i = OCUPADO"
  using assms by (auto simp: fs_inv_def)

lemma libre_no_ocupado: "bitmap_inodes sb i = LIBRE \<Longrightarrow> \<not> ocupado sb i"
  by (simp add: ocupado_def)

lemma fs_inv_entrada:
  assumes "fs_inv sb" "ocupado sb d" "tipo_archivo (inodos sb d) = DIR_T" "k < MAX_DIR_ENTRIES"
  shows "entrada_ok sb (inodos sb d) k"
  using fs_invD(3) [OF assms(1)] assms(2-4) by (auto simp: entradas_ok_def)

lemma fs_inv_dir:
  assumes "fs_inv sb" "ocupado sb d" "tipo_archivo (inodos sb d) = DIR_T"
  shows "dir_ok (inodos sb d)"
  using fs_invD(4) [OF assms(1,2)] assms(3) by (auto simp: inodo_ok_def)

lemma inodo_tipo:
  "fs_inv sb \<Longrightarrow> ocupado sb i \<Longrightarrow> tipo_archivo (inodos sb i) = DIR_T \<or> tipo_archivo (inodos sb i) = REG_T"
  by (auto dest: fs_invD(4) simp: inodo_ok_def)

subsection \<open>The initial state\<close>

lemma ocupado_inicial: "ocupado (inicializar_filesystem e sb) i \<longleftrightarrow> i = 0"
  by (auto simp: ocupado_def inicializar_filesystem_def inicializar_inodos_def Let_def MAX_INODES_def)

lemma inodo_inicial:
  "path (inodos (inicializar_filesystem e sb) 0) = ROOT_PATH"
  "tipo_archivo (inodos (inicializar_filesystem e sb) 0) = DIR_T"
  "inumero (inodos (inicializar_filesystem e sb) 0) = 0"
  "tam (inodos (inicializar_filesystem e sb) 0) = 0"
  "content (inodos (inicializar_filesystem e sb) 0) = (\<lambda>_. CHR 0x00)"
  by (auto simp: inicializar_filesystem_def inicializar_inodos_def Let_def inodo_cero_def MAX_INODES_def)

lemma ent_inodo_cero: "ent_inodo (\<lambda>_. CHR 0x00) k = 0"
  by (simp add: ent_inodo_def Let_def)

lemma dir_ok_cero: "content r = (\<lambda>_. CHR 0x00) \<Longrightarrow> tam r = 0 \<Longrightarrow> dir_ok r"
  unfolding dir_ok_def
  by (intro exI [of _ 0]) (simp add: dir.compacta_def dir.nombres_distintos_def ent_inodo_cero)

lemma fs_inv_inicial: "fs_inv (inicializar_filesystem e sb)"
proof -
  let ?s = "inicializar_filesystem e sb"
  have bm: "\<forall>i<MAX_INODES. bitmap_inodes ?s i \<in> {LIBRE, OCUPADO}"
    by (simp add: inicializar_filesystem_def inicializar_inodos_def Let_def)
  have "inodo_ok 0 (inodos ?s 0)"
    by (simp add: inodo_ok_def inodo_inicial dir_ok_cero ROOT_PATH_def cstring_def MAX_PATH_def
        ruta_absoluta_def)
  moreover have "entradas_ok ?s"
    by (simp add: entradas_ok_def ocupado_inicial entrada_ok_def inodo_inicial ent_inodo_cero)
  ultimately show ?thesis
    using bm by (simp add: fs_inv_def raiz_ok_def ocupado_inicial inodo_inicial caminos_unicos_def)
qed

subsection \<open>Changing one inode in place\<close>

text \<open>A rewrite of inode \<open>i\<close> that keeps its identity and its own well-formedness.\<close>

lemma fs_inv_con_inodo:
  assumes inv: "fs_inv sb" and oc: "ocupado sb i"
    and id: "path (f (inodos sb i)) = path (inodos sb i)"
      "nombre (f (inodos sb i)) = nombre (inodos sb i)"
      "directory_path (f (inodos sb i)) = directory_path (inodos sb i)"
      "tipo_archivo (f (inodos sb i)) = tipo_archivo (inodos sb i)"
    and ok: "inodo_ok i (f (inodos sb i))"
    and ents: "tipo_archivo (inodos sb i) = DIR_T \<Longrightarrow>
      (\<And>k. k < MAX_DIR_ENTRIES \<Longrightarrow> entrada_ok sb (f (inodos sb i)) k)"
  shows "fs_inv (con_inodo i f sb)"
proof -
  let ?s = "con_inodo i f sb"
  have same: "path (inodos ?s j) = path (inodos sb j)" "nombre (inodos ?s j) = nombre (inodos sb j)"
    "directory_path (inodos ?s j) = directory_path (inodos sb j)"
    "tipo_archivo (inodos ?s j) = tipo_archivo (inodos sb j)" for j
    using id by (simp_all add: inodos_con_inodo)
  have ent: "entrada_ok ?s r k = entrada_ok sb r k" for r k
    by (simp add: entrada_ok_def same)
  have "entradas_ok ?s"
    unfolding entradas_ok_def
  proof (intro allI impI)
    fix d k assume d: "ocupado ?s d" "tipo_archivo (inodos ?s d) = DIR_T" "k < MAX_DIR_ENTRIES"
    show "entrada_ok ?s (inodos ?s d) k"
    proof (cases "d = i")
      case True
      with d ents show ?thesis by (simp add: ent id(4))
    next
      case False
      with d fs_inv_entrada [OF inv, of d k] show ?thesis by (simp add: ent)
    qed
  qed
  moreover have "\<forall>j. ocupado ?s j \<longrightarrow> inodo_ok j (inodos ?s j)"
    using fs_invD(4) [OF inv] ok by (simp add: inodos_con_inodo)
  ultimately show ?thesis
    using inv by (simp add: fs_inv_def raiz_ok_def caminos_unicos_def same)
qed

end
