(* ===== verification/Fs_Safe.thy ===== *)
theory Fs_Safe
  imports Fs_Inv
begin

text \<open>
  Every callback keeps the invariant of \<open>Fs_Inv\<close>, one lemma per callback, then the
  step relation of a mounted file system and its reachable states.
\<close>

section \<open>Callbacks that rewrite one regular file or only dates\<close>

lemma inodo_ok_acceso [simp]: "inodo_ok i (r\<lparr>fecha_de_acceso := t\<rparr>) = inodo_ok i r"
  by (simp add: inodo_ok_def dir_ok_def fichero_ok_def)

lemma inodo_ok_modif [simp]: "inodo_ok i (r\<lparr>fecha_de_modificacion := t\<rparr>) = inodo_ok i r"
  by (simp add: inodo_ok_def dir_ok_def fichero_ok_def)

lemma entrada_ok_fechas [simp]:
  "entrada_ok sb (r\<lparr>fecha_de_acceso := t\<rparr>) k = entrada_ok sb r k"
  "entrada_ok sb (r\<lparr>fecha_de_modificacion := t\<rparr>) k = entrada_ok sb r k"
  by (simp_all add: entrada_ok_def)

lemma fs_inv_fechas:
  assumes "fs_inv sb" "ocupado sb i"
  shows "fs_inv (con_inodo i (\<lambda>r. r\<lparr>fecha_de_acceso := t\<rparr>) sb)"
    "fs_inv (con_inodo i (\<lambda>r. r\<lparr>fecha_de_acceso := t, fecha_de_modificacion := u\<rparr>) sb)"
  using assms fs_invD(4) [OF assms] fs_inv_entrada [OF assms]
  by (auto intro!: fs_inv_con_inodo)

lemma fisopfs_utimens_inv: "fs_inv sb \<Longrightarrow> fs_inv (snd (fisopfs_utimens p a m sb))"
  using buscar_inodoD [of p sb] by (auto simp: fisopfs_utimens_def Let_def fs_inv_fechas)

lemma fisopfs_read_inv:
  "fs_inv sb \<Longrightarrow> fisopfs_read e p n off sb = Some (r, b, sb') \<Longrightarrow> fs_inv sb'"
  using buscar_inodoD [of p sb]
  by (auto simp: fisopfs_read_def Let_def fs_inv_fechas split: if_splits)

text \<open>A rewrite of the content and size of a regular file.\<close>

lemma fs_inv_fichero:
  assumes inv: "fs_inv sb" and oc: "ocupado sb i" and reg: "tipo_archivo (inodos sb i) = REG_T"
    and ok: "fichero_ok (inodos sb i\<lparr>content := c, tam := t\<rparr>)"
    and f: "f (inodos sb i) = inodos sb i\<lparr>content := c, tam := t, fecha_de_modificacion := u\<rparr>"
  shows "fs_inv (con_inodo i f sb)"
proof (rule fs_inv_con_inodo [OF inv oc])
  show "inodo_ok i (f (inodos sb i))"
    using fs_invD(4) [OF inv oc] ok reg by (simp add: f inodo_ok_def fichero_ok_def)
  show "entrada_ok sb (f (inodos sb i)) k" if "tipo_archivo (inodos sb i) = DIR_T" for k
    using that reg by simp
qed (simp_all add: f)

lemma fichero_ok_inodo:
  "fs_inv sb \<Longrightarrow> ocupado sb i \<Longrightarrow> tipo_archivo (inodos sb i) = REG_T \<Longrightarrow> fichero_ok (inodos sb i)"
  by (auto dest: fs_invD(4) simp: inodo_ok_def)

lemma fichero_ok_write:
  fixes off sz :: "64 word"
  assumes "fichero_ok r" "unat off + unat sz \<le> MAX_CONTENT"
  shows "fichero_ok (r\<lparr>content := memcpy_en (content r) (unat off) s (unat sz),
      tam := (if off + sz > tam r then off + sz else tam r)\<rparr>)"
proof -
  have sum: "unat (off + sz) = unat off + unat sz"
    using assms(2) by (simp add: unat_word_ariths MAX_CONTENT_def)
  show ?thesis
    using assms by (auto simp: fichero_ok_def memcpy_en_def sum word_less_nat_alt)
qed

lemma fisopfs_write_cases:
  assumes "fisopfs_write e p buf sz off sb = Some (r, sb')"
  obtains (error) "r \<in> {- ENOENT, - EISDIR, - EFBIG}" "sb' = sb"
  | (escrito) k where "ocupado sb k" "path (inodos sb k) = p" "buscar_inodo p sb = int k"
      "tipo_archivo (inodos sb k) = REG_T" "unat off + unat sz \<le> MAX_CONTENT" "unat sz \<le> length buf"
      "r = int_de_size sz"
      "sb' = con_inodo k (\<lambda>r. r\<lparr>content := memcpy_en (content r) (unat off) buf (unat sz),
               tam := (if off + sz > tam r then off + sz else tam r),
               fecha_de_modificacion := reloj e 0\<rparr>) sb"
proof (cases "buscar_inodo p sb < 0")
  case False
  then have k: "buscar_inodo p sb = int (nat (buscar_inodo p sb))" by simp
  show ?thesis
    using assms False error escrito [OF buscar_inodoD [OF False] k]
    by (auto simp: fisopfs_write_def Let_def not_less split: if_splits)
qed (use assms error in \<open>auto simp: fisopfs_write_def Let_def\<close>)

lemma fisopfs_write_inv:
  assumes "fs_inv sb" "fisopfs_write e p buf sz off sb = Some (r, sb')"
  shows "fs_inv sb'"
  using assms(2)
proof (cases rule: fisopfs_write_cases)
  case (escrito k)
  have "fichero_ok (inodos sb k)"
    using escrito assms(1) by (simp add: fichero_ok_inodo)
  from fs_inv_fichero [OF assms(1) escrito(1,4) fichero_ok_write [OF this escrito(5)]]
  show ?thesis by (simp add: escrito(8))
qed (simp add: assms(1))

text \<open>A length given by the kernel is not negative; then it fits in the buffer or is refused.\<close>

lemma fichero_ok_truncate:
  fixes n :: "64 word"
  assumes "fichero_ok r" "unat n \<le> MAX_CONTENT"
  shows "fichero_ok (r\<lparr>content := (if n < tam r then memset_cero (content r) (unat n) (unat (tam r - n))
                                 else content r), tam := n\<rparr>)"
proof -
  have "unat (tam r - n) = unat (tam r) - unat n" if "n < tam r"
    using that by (simp add: unat_sub less_imp_le)
  then show ?thesis
    using assms by (auto simp: fichero_ok_def memset_cero_def word_less_nat_alt)
qed

lemma fisopfs_truncate_cases:
  assumes "fisopfs_truncate e p n sb = Some (r, sb')"
  obtains (error) "r \<in> {- ENOENT, - EISDIR, - EFBIG}" "sb' = sb"
  | (hecho) k where "ocupado sb k" "path (inodos sb k) = p" "buscar_inodo p sb = int k"
      "tipo_archivo (inodos sb k) = REG_T" "sint n \<le> int MAX_CONTENT" "r = 0"
      "sb' = con_inodo k (\<lambda>r. r\<lparr>content := (if n < tam (inodos sb k)
                 then memset_cero (content (inodos sb k)) (unat n) (unat (tam (inodos sb k) - n))
                 else content (inodos sb k)),
               tam := n, fecha_de_modificacion := reloj e 0\<rparr>) sb"
proof (cases "buscar_inodo p sb < 0")
  case False
  then have k: "buscar_inodo p sb = int (nat (buscar_inodo p sb))" by simp
  show ?thesis
    using assms False error hecho [OF buscar_inodoD [OF False] k]
    by (auto simp: fisopfs_truncate_def Let_def not_less split: if_splits)
qed (use assms error in \<open>auto simp: fisopfs_truncate_def Let_def\<close>)

lemma fisopfs_truncate_inv:
  assumes "fs_inv sb" "0 \<le> sint n" "fisopfs_truncate e p n sb = Some (r, sb')"
  shows "fs_inv sb'"
  using assms(3)
proof (cases rule: fisopfs_truncate_cases)
  case (hecho k)
  have f: "fichero_ok (inodos sb k)"
    using hecho assms(1) by (simp add: fichero_ok_inodo)
  have n: "unat n \<le> MAX_CONTENT"
    using hecho(5) unfolding sint_nonneg_unat [OF assms(2)] by (simp only: of_nat_le_iff)
  from fs_inv_fichero [OF assms(1) hecho(1,4) fichero_ok_truncate [OF f n]]
  show ?thesis by (simp add: hecho(7))
qed (simp add: assms(1))

section \<open>Adding an entry to a directory\<close>

lemma agregar_content:
  "agregar_entrada_directorio sb parent child =
     (let c = content (inodos sb parent); num = inumero (inodos sb child) in
      case primer_indice (\<lambda>i. ent_inodo c i = 0) MAX_DIR_ENTRIES of
        None \<Rightarrow> (- 1, sb)
      | Some i \<Rightarrow> (0, con_inodo parent
          (\<lambda>r. r\<lparr>content := poner_nombre (poner_inodo c i (word_of_int num)) i (nombre (inodos sb (nat num))),
                 tam := tam r + word_of_nat sizeof_entrada\<rparr>) sb))"
  unfolding agregar_entrada_directorio_def poner_nombre_def Let_def ..

lemma compacta_ent:
  "dir.compacta c m \<Longrightarrow> k < 16 \<Longrightarrow> ent_inodo c k = 0 \<longleftrightarrow> m \<le> k"
  by (auto simp: dir.compacta_def not_less [symmetric])

lemma compacta_le: "dir.compacta c m \<Longrightarrow> m \<le> 15"
  by (simp add: dir.compacta_def)

lemma compacta_libre:
  assumes "dir.compacta c m"
  shows "primer_indice (\<lambda>i. ent_inodo c i = 0) MAX_DIR_ENTRIES = (if m < 15 then Some m else None)"
  using compacta_le [OF assms] compacta_ent [OF assms]
  by (auto simp: MAX_DIR_ENTRIES_15 primer_indice_None intro!: primer_indiceI)

lemma compacta_buscar:
  assumes "dir.compacta c m"
  shows "primer_indice (\<lambda>i. ent_inodo c i \<noteq> 0 \<and> ent_nombre c i = s) MAX_DIR_ENTRIES = None
    \<longleftrightarrow> (\<forall>k<m. ent_nombre c k \<noteq> s)"
proof -
  have m15: "\<And>k. k < m \<Longrightarrow> k < 15" using compacta_le [OF assms] by simp
  have "ent_inodo c k \<noteq> 0 \<longleftrightarrow> k < m" if "k < 15" for k
    using compacta_ent [OF assms, of k] that by auto
  then show ?thesis
    unfolding primer_indice_None MAX_DIR_ENTRIES_15 using m15 by blast
qed

text \<open>The directory after \<open>agregar\<close> put number \<open>v\<close> and name \<open>s\<close> in the free entry \<open>m\<close>.\<close>

lemma dir_tras_agregar:
  assumes c: "dir.compacta c m" and nd: "dir.nombres_distintos c m" and m: "m < 15"
    and v: "v \<noteq> 0" and s: "cstring s" "length s < MAX_PATH" and fresh: "\<forall>k<m. ent_nombre c k \<noteq> s"
  defines "c' \<equiv> poner_nombre (poner_inodo c m v) m s"
  shows "dir.compacta c' (m + 1)" "dir.nombres_distintos c' (m + 1)"
    "ent_inodo c' k = (if k = m then v else ent_inodo c k)"
    "ent_nombre c' k = (if k = m then s else ent_nombre c k)"
proof -
  have i: "ent_inodo c' k = (if k = m then v else ent_inodo c k)" for k
    by (simp add: c'_def)
  have n: "ent_nombre c' k = (if k = m then s else ent_nombre c k)" for k
    using s by (simp add: c'_def ent_nombre_poner_nombre)
  show "dir.compacta c' (m + 1)"
    using c m v by (auto simp: dir.compacta_def i)
  show "dir.nombres_distintos c' (m + 1)"
    using nd fresh by (auto simp: dir.nombres_distintos_def n less_Suc_eq)
  show "ent_inodo c' k = (if k = m then v else ent_inodo c k)"
    "ent_nombre c' k = (if k = m then s else ent_nombre c k)" by (fact i n)+
qed

lemma unat_nat_chico: "n < 2 ^ 32 \<Longrightarrow> unat (word_of_nat n :: 32 word) = n"
  by (simp add: unat_of_nat take_bit_nat_eq_self)

lemma word_nat_cero: "n < 2 ^ 32 \<Longrightarrow> (word_of_nat n :: 32 word) = 0 \<longleftrightarrow> n = 0"
  by (simp add: unat_nat_chico flip: unat_eq_zero)

lemma dir_okE:
  assumes "dir_ok r"
  obtains m t where "dir.compacta (content r) m" "dir.nombres_distintos (content r) m"
    "tam r = word_of_nat (260 * t)" "t = m \<or> t = m + 1" "m \<le> 15"
proof -
  from assms obtain m where m: "dir.compacta (content r) m" "dir.nombres_distintos (content r) m"
    and t: "tam r = word_of_nat (260 * m) \<or> tam r = word_of_nat (260 * (m + 1))"
    unfolding dir_ok_def by blast
  from t show thesis
  proof
    assume "tam r = word_of_nat (260 * m)"
    from that [OF m this] compacta_le [OF m(1)] show thesis by simp
  next
    assume "tam r = word_of_nat (260 * (m + 1))"
    from that [OF m this] compacta_le [OF m(1)] show thesis by simp
  qed
qed

lemma dir_okI:
  "dir.compacta (content r) m \<Longrightarrow> dir.nombres_distintos (content r) m
    \<Longrightarrow> tam r = word_of_nat (260 * t) \<Longrightarrow> t = m \<or> t = m + 1 \<Longrightarrow> dir_ok r"
  unfolding dir_ok_def by blast

lemma buscar_entrada_neg:
  assumes inv: "fs_inv sb" and d: "ocupado sb d" "tipo_archivo (inodos sb d) = DIR_T"
    and m: "dir.compacta (content (inodos sb d)) m"
  shows "buscar_entrada_en_directorio sb d s < 0 \<longleftrightarrow> (\<forall>k<m. ent_nombre (content (inodos sb d)) k \<noteq> s)"
proof (cases "primer_indice (\<lambda>k. ent_inodo (content (inodos sb d)) k \<noteq> 0
    \<and> ent_nombre (content (inodos sb d)) k = s) MAX_DIR_ENTRIES")
  case None
  then have "buscar_entrada_en_directorio sb d s < 0"
    by (simp add: buscar_entrada_en_directorio_def)
  with compacta_buscar [OF m] None show ?thesis by simp
next
  case (Some k)
  let ?v = "ent_inodo (content (inodos sb d)) k"
  have k: "k < MAX_DIR_ENTRIES" "?v \<noteq> 0" using Some by (auto simp: primer_indice_Some)
  with fs_inv_entrada [OF inv d k(1)] have "unat ?v < MAX_INODES"
    by (auto simp: entrada_ok_def Let_def unat_eq_zero)
  then have "sint ?v \<ge> 0"
    using sint_word_of_nat_small [of "unat ?v"] by (simp add: MAX_INODES_def)
  with Some have "\<not> buscar_entrada_en_directorio sb d s < 0"
    by (simp add: buscar_entrada_en_directorio_def)
  with compacta_buscar [OF m, of s] Some show ?thesis by simp
qed

lemma fs_inv_agregar:
  assumes inv: "fs_inv sb" and d: "ocupado sb d" "tipo_archivo (inodos sb d) = DIR_T"
    and i: "ocupado sb i" "i \<noteq> 0" "directory_path (inodos sb i) = path (inodos sb d)"
    and fresh: "buscar_entrada_en_directorio sb d (nombre (inodos sb i)) < 0"
  shows "fs_inv (snd (agregar_entrada_directorio sb d i))"
proof -
  obtain m t where c: "dir.compacta (content (inodos sb d)) m"
      "dir.nombres_distintos (content (inodos sb d)) m"
      "tam (inodos sb d) = word_of_nat (260 * t)" "t = m \<or> t = m + 1"
    using fs_inv_dir [OF inv d] by (rule dir_okE)
  note ok = fs_invD(4) [OF inv i(1)]
  have num: "inumero (inodos sb i) = int i" and s: "cstring (nombre (inodos sb i))"
    "length (nombre (inodos sb i)) < MAX_PATH"
    using ok i(2) separar_path_cstring [of "path (inodos sb i)"]
      length_separar_nombre [of "path (inodos sb i)"] by (auto simp: inodo_ok_def)
  have i1024: "i < MAX_INODES" using i(1) by (simp add: ocupado_def)
  have vu: "unat (word_of_nat i :: 32 word) = i"
    using i1024 by (intro unat_nat_chico) (simp add: MAX_INODES_def)
  have v: "(word_of_nat i :: 32 word) \<noteq> 0"
    using vu i(2) by (metis unat_0)
  show ?thesis
  proof (cases "m < 15")
    case True
    have fr: "\<forall>k<m. ent_nombre (content (inodos sb d)) k \<noteq> nombre (inodos sb i)"
      using fresh buscar_entrada_neg [OF inv d c(1)] by simp
    note nuevo = dir_tras_agregar [OF c(1,2) True v s fr]
    let ?f = "\<lambda>r. r\<lparr>content := poner_nombre (poner_inodo (content (inodos sb d)) m (word_of_nat i)) m
                  (nombre (inodos sb i)), tam := tam r + word_of_nat sizeof_entrada\<rparr>"
    have eq: "snd (agregar_entrada_directorio sb d i) = con_inodo d ?f sb"
      by (simp add: agregar_content Let_def compacta_libre [OF c(1)] True num)
    have "fs_inv (con_inodo d ?f sb)"
    proof (rule fs_inv_con_inodo [OF inv d(1)])
      have "tam (?f (inodos sb d)) = word_of_nat (260 * (t + 1))"
        by (simp add: c(3) sizeof_entrada_260 algebra_simps)
      then have "dir_ok (?f (inodos sb d))"
        using nuevo(1,2) c(4) by (intro dir_okI [where m = "m + 1" and t = "t + 1"]) auto
      then show "inodo_ok d (?f (inodos sb d))"
        using fs_invD(4) [OF inv d(1)] d(2) by (simp add: inodo_ok_def)
      fix k assume k: "k < MAX_DIR_ENTRIES"
      show "entrada_ok sb (?f (inodos sb d)) k"
        using fs_inv_entrada [OF inv d k] i i1024 vu
        by (auto simp: entrada_ok_def Let_def nuevo(3,4))
    qed simp_all
    with eq show ?thesis by simp
  next
    case False
    with inv show ?thesis by (simp add: agregar_content Let_def compacta_libre [OF c(1)])
  qed
qed

section \<open>Creating inodes\<close>

definition nuevo_inodo :: "nat \<Rightarrow> inodo \<Rightarrow> superbloque \<Rightarrow> superbloque" where
  "nuevo_inodo i r sb = sb\<lparr>bitmap_inodes := (bitmap_inodes sb)(i := OCUPADO),
     inodos := (inodos sb)(i := r)\<rparr>"

lemma nuevo_inodo_simps [simp]:
  "inodos (nuevo_inodo i r sb) j = (if j = i then r else inodos sb j)"
  "i < MAX_INODES \<Longrightarrow> ocupado (nuevo_inodo i r sb) j \<longleftrightarrow> j = i \<or> ocupado sb j"
  "con_inodo i f (nuevo_inodo i r sb) = nuevo_inodo i (f r) sb"
  "bitmap_inodes (nuevo_inodo i r sb) = (bitmap_inodes sb)(i := OCUPADO)"
  by (auto simp: nuevo_inodo_def ocupado_def con_inodo_def)

lemma fs_inv_nuevo:
  assumes inv: "fs_inv sb" and i: "i < MAX_INODES" "bitmap_inodes sb i = LIBRE"
    and p: "\<And>j. ocupado sb j \<Longrightarrow> path (inodos sb j) \<noteq> path r"
    and ok: "inodo_ok i r" and vacio: "\<And>k. k < MAX_DIR_ENTRIES \<Longrightarrow> ent_inodo (content r) k = 0"
  shows "fs_inv (nuevo_inodo i r sb)"
proof -
  let ?s = "nuevo_inodo i r sb"
  have no: "\<not> ocupado sb i" using i(2) by (rule libre_no_ocupado)
  have "entradas_ok ?s"
    unfolding entradas_ok_def
  proof (intro allI impI)
    fix d k assume d: "ocupado ?s d" "tipo_archivo (inodos ?s d) = DIR_T" "k < MAX_DIR_ENTRIES"
    show "entrada_ok ?s (inodos ?s d) k"
    proof (cases "d = i")
      case True
      with d(3) show ?thesis by (simp add: entrada_ok_def vacio)
    next
      case False
      with d i have d': "ocupado sb d" "tipo_archivo (inodos sb d) = DIR_T" by auto
      from fs_inv_entrada [OF inv d' d(3)] no show ?thesis
        using False i(1) by (auto simp: entrada_ok_def Let_def)
    qed
  qed
  moreover have "caminos_unicos ?s"
    using fs_invD(2) [OF inv] p i(1) no by (auto simp: caminos_unicos_def) metis+
  moreover have "0 \<noteq> i" using fs_invD(1) [OF inv] no by (cases "i = 0") (auto simp: raiz_ok_def)
  ultimately show ?thesis
    using inv ok i(1) by (auto simp: fs_inv_def raiz_ok_def)
qed

text \<open>What \<open>crear_inodo\<close> and the callbacks that use it leave in the new inode.\<close>

lemma crear_inodo_cases:
  assumes "crear_inodo e sb p tipo = (idx, sb1)"
  obtains (lleno) "idx = - 1" "sb1 = sb" "\<And>i. i < MAX_INODES \<Longrightarrow> bitmap_inodes sb i \<noteq> LIBRE"
  | (nuevo) i r where "idx = int i" "i < MAX_INODES" "bitmap_inodes sb i = LIBRE"
      "sb1 = nuevo_inodo i r sb" "inumero r = int i" "tam r = 0" "tipo_archivo r = tipo"
      "content r = (\<lambda>j. if j < MAX_CONTENT then CHR 0x00 else content (inodos sb i) j)"
      "path r = take (MAX_PATH - 1) p" "(directory_path r, nombre r) = separar_path p"
      "link_num r = 1" "id_user r = euid e" "id_gid r = egid e"
      "fecha_de_creacion r = reloj e 0" "fecha_de_modificacion r = reloj e 0"
      "fecha_de_acceso r = reloj e 0"
proof (cases rule: obtener_inodo_libre_cases [of sb])
  case no
  then show ?thesis using assms lleno by (auto simp: crear_inodo_def Let_def)
next
  case (si i)
  obtain d n where dn: "separar_path p = (d, n)" by fastforce
  show ?thesis
  proof (rule nuevo)
    show "sb1 = nuevo_inodo i (inodos sb1 i) sb"
      using assms si dn by (auto simp: crear_inodo_def nuevo_inodo_def con_inodo_def Let_def)
  qed (use assms si dn in \<open>auto simp: crear_inodo_def Let_def\<close>)
qed

lemma ent_inodo_ceros:
  assumes "\<And>j. j < MAX_CONTENT \<Longrightarrow> c j = CHR 0x00" "k < 16"
  shows "ent_inodo c k = 0"
proof -
  have "ent_inodo c k = ent_inodo (\<lambda>_. CHR 0x00) k"
    by (rule ent_inodo_cong) (use assms in \<open>simp add: MAX_CONTENT_def\<close>)
  then show ?thesis by (simp add: ent_inodo_cero)
qed

lemma inodo_ok_nuevo:
  assumes "inumero r = int i" "tam r = 0" "tipo_archivo r = DIR_T \<or> tipo_archivo r = REG_T"
    "content r = (\<lambda>j. if j < MAX_CONTENT then CHR 0x00 else content q j)"
    "path r = take (MAX_PATH - 1) p" "(directory_path r, nombre r) = separar_path p"
    "cstring p" "length p < MAX_PATH" "ruta_absoluta p"
  shows "inodo_ok i r"
proof -
  have z: "ent_inodo (content r) k = 0" if "k < 16" for k
    using that by (intro ent_inodo_ceros) (simp add: assms(4))
  have "dir_ok r"
    using z assms(2) by (intro dir_okI [where m = 0 and t = 0])
      (auto simp: dir.compacta_def dir.nombres_distintos_def)
  moreover have "fichero_ok r"
    by (simp add: fichero_ok_def assms(2,4))
  moreover have "path r = p"
    using assms(5,8) by simp
  ultimately show ?thesis
    using assms by (auto simp: inodo_ok_def)
qed

text \<open>\<open>obtener_dir_padre\<close> returns an occupied directory whose path is the first part.\<close>

lemma obtener_dir_padre_Inr:
  assumes "obtener_dir_padre p sb = Inr (d, n)"
  shows "ocupado sb d" "path (inodos sb d) = fst (separar_path p)" "n = snd (separar_path p)"
    "tipo_archivo (inodos sb d) = DIR_T"
  using assms buscar_inodoD [of "fst (separar_path p)" sb]
  by (auto simp: obtener_dir_padre_def Let_def split: prod.splits if_splits)

lemma obtener_dir_padre_Inl:
  "obtener_dir_padre p sb = Inl err \<Longrightarrow> err = - ENOENT \<or> err = - ENOTDIR"
  by (auto simp: obtener_dir_padre_def Let_def split: prod.splits if_splits)

text \<open>What the three stages of a creation leave, for both kinds of file.\<close>

lemma fs_inv_crear:
  assumes inv: "fs_inv sb" and p: "cstring p" "length p < MAX_PATH" "ruta_absoluta p"
    and libre: "\<And>j. ocupado sb j \<Longrightarrow> path (inodos sb j) \<noteq> p"
    and padre: "obtener_dir_padre p sb = Inr (d, n)"
    and fresh: "buscar_entrada_en_directorio sb d n < 0"
    and crear: "crear_inodo e sb p tipo = (int i, sb1)" and tipo: "tipo = DIR_T \<or> tipo = REG_T"
    and f: "\<And>r. inumero (f r) = inumero r" "\<And>r. tam r = 0 \<Longrightarrow> tam (f r) = 0"
      "\<And>r. content (f r) = content r" "\<And>r. path (f r) = path r" "\<And>r. nombre (f r) = nombre r"
      "\<And>r. directory_path (f r) = directory_path r" "\<And>r. tipo_archivo (f r) = tipo_archivo r"
  shows "fs_inv (con_inodo i f sb1)"
    "fs_inv (snd (agregar_entrada_directorio (con_inodo i f sb1) d i))"
    "ocupado (con_inodo i f sb1) i" "i \<noteq> d" "i \<noteq> 0"
proof -
  from crear obtain r where r: "i < MAX_INODES" "bitmap_inodes sb i = LIBRE"
      "sb1 = nuevo_inodo i r sb" "inumero r = int i" "tam r = 0" "tipo_archivo r = tipo"
      "content r = (\<lambda>j. if j < MAX_CONTENT then CHR 0x00 else content (inodos sb i) j)"
      "path r = take (MAX_PATH - 1) p" "(directory_path r, nombre r) = separar_path p"
    by (cases rule: crear_inodo_cases) auto
  have no: "\<not> ocupado sb i" using r(2) by (rule libre_no_ocupado)
  have pr: "path r = p" using r(8) p(2) by simp
  note d = obtener_dir_padre_Inr [OF padre]
  show id: "i \<noteq> d" using d(1) no by auto
  show i0: "i \<noteq> 0" using fs_invD(1) [OF inv] no by (cases "i = 0") (auto simp: raiz_ok_def)
  have eq: "con_inodo i f sb1 = nuevo_inodo i (f r) sb"
    using r(1,3) by simp
  have "inodo_ok i (f r)"
    using r tipo p by (intro inodo_ok_nuevo [where p = p]) (auto simp: f)
  moreover have "ent_inodo (content (f r)) k = 0" if "k < MAX_DIR_ENTRIES" for k
    using that r(7) by (intro ent_inodo_ceros) (auto simp: f(3) MAX_DIR_ENTRIES_15)
  ultimately show inv2: "fs_inv (con_inodo i f sb1)"
    unfolding eq using libre pr r(1,2) by (intro fs_inv_nuevo [OF inv]) (auto simp: f(4))
  show oc: "ocupado (con_inodo i f sb1) i" using r(1) by (simp add: eq)
  have sep: "directory_path r = fst (separar_path p)" "nombre r = snd (separar_path p)"
    using r(9) by (metis fst_conv, metis snd_conv)
  show "fs_inv (snd (agregar_entrada_directorio (con_inodo i f sb1) d i))"
  proof (rule fs_inv_agregar [OF inv2 _ _ oc i0])
    show "buscar_entrada_en_directorio (con_inodo i f sb1) d (nombre (inodos (con_inodo i f sb1) i)) < 0"
      using fresh id sep(2) d(3) by (simp add: eq f buscar_entrada_en_directorio_def)
  qed (use d id r(1) sep(1) in \<open>auto simp: eq f\<close>)
qed

lemma fisopfs_create_inv:
  assumes inv: "fs_inv sb" and p: "cstring p" "length p < MAX_PATH" "ruta_absoluta p" "buscar_inodo p sb < 0"
  shows "fs_inv (snd (fisopfs_create e p mode sb))"
proof (cases "obtener_dir_padre p sb")
  case (Inl err)
  with inv show ?thesis by (simp add: fisopfs_create_def)
next
  case (Inr dn)
  obtain d n where dn: "dn = (d, n)" by fastforce
  obtain idx sb1 where cr: "crear_inodo e sb p REG_T = (idx, sb1)" by fastforce
  show ?thesis
  proof (cases "buscar_entrada_en_directorio sb d n \<ge> 0 \<or> idx < 0")
    case True
    with inv cr Inr dn show ?thesis
      by (cases rule: crear_inodo_cases [OF cr]) (auto simp: fisopfs_create_def Let_def)
  next
    case False
    then obtain i where i: "idx = int i" by (metis nonneg_int_cases not_less)
    have "fs_inv (snd (agregar_entrada_directorio (con_inodo i (\<lambda>r. r\<lparr>permisos := mode\<rparr>) sb1) d i))"
      using False p(4) cr i Inr dn
      by (intro fs_inv_crear(2) [OF inv p(1-3), where tipo = REG_T]) (auto simp: buscar_inodo_neg)
    with False cr Inr dn i show ?thesis
      by (auto simp: fisopfs_create_def Let_def split: prod.splits)
  qed
qed

text \<open>The entries \<open>.\<close> and \<open>..\<close> of a new directory.\<close>

lemma punto_cstring: "cstring ''.''" "cstring ''..''"
  by (simp_all add: cstring_def)

lemma fs_inv_inicializar_entradas:
  assumes inv: "fs_inv sb" and i: "ocupado sb i" "i \<noteq> 0" "tipo_archivo (inodos sb i) = DIR_T"
    and vacio: "\<And>k. k < 16 \<Longrightarrow> ent_inodo (content (inodos sb i)) k = 0" and pd: "d < MAX_INODES"
  shows "fs_inv (inicializar_entradas_directorio sb i i d)"
proof -
  define c where "c = crear_entrada (crear_entrada (content (inodos sb i)) 0 ''.'' i) 1 ''..'' d"
  have i1024: "i < MAX_INODES" using i(1) by (simp add: ocupado_def)
  have num: "ent_inodo c k = (if k = 1 then word_of_nat d else if k = 0 then word_of_nat i
      else ent_inodo (content (inodos sb i)) k)" for k
    by (simp add: c_def ent_inodo_crear_entrada)
  have nom: "ent_nombre c k = (if k = 1 then ''..'' else if k = 0 then ''.''
      else ent_nombre (content (inodos sb i)) k)" for k
    by (simp add: c_def ent_nombre_crear_entrada punto_cstring)
  have un: "unat (word_of_nat i :: 32 word) = i" "unat (word_of_nat d :: 32 word) = d"
    using i1024 pd by (simp_all add: unat_nat_chico MAX_INODES_def)
  have nz: "(word_of_nat i :: 32 word) \<noteq> 0" "(word_of_nat d :: 32 word) = 0 \<longleftrightarrow> d = 0"
    using i1024 pd i(2) by (simp_all add: word_nat_cero MAX_INODES_def)
  let ?m = "if d = 0 then 1 else 2"
  have comp: "dir.compacta c ?m"
    using vacio nz by (auto simp: dir.compacta_def num)
  have dist: "dir.nombres_distintos c ?m"
    by (auto simp: dir.nombres_distintos_def nom less_Suc_eq numeral_2_eq_2)
  show ?thesis
    unfolding inicializar_entradas_directorio_def
  proof (rule fs_inv_con_inodo [OF inv i(1)])
    let ?f = "\<lambda>r. r\<lparr>content := crear_entrada (crear_entrada (content r) 0 ''.'' i) 1 ''..'' d,
                    tam := word_of_nat (2 * sizeof_entrada)\<rparr>"
    have fc: "content (?f (inodos sb i)) = c" by (simp add: c_def)
    have "dir_ok (?f (inodos sb i))"
      using comp dist by (intro dir_okI [where m = ?m and t = 2]) (auto simp: sizeof_entrada_260 simp flip: c_def One_nat_def)
    then show "inodo_ok i (?f (inodos sb i))"
      using fs_invD(4) [OF inv i(1)] i(3) by (simp add: inodo_ok_def)
    have "entrada_ok sb r k" if "content r = c" "k < MAX_DIR_ENTRIES" for r k
      using that vacio [of k] un i1024 pd
      by (auto simp: entrada_ok_def Let_def num nom MAX_DIR_ENTRIES_15)
    from this [OF fc] show "entrada_ok sb (?f (inodos sb i)) k" if "k < MAX_DIR_ENTRIES" for k
      using that by blast
  qed simp_all
qed

lemma fisopfs_mkdir_inv:
  assumes inv: "fs_inv sb" and p: "cstring p" "length p < MAX_PATH" "ruta_absoluta p" "buscar_inodo p sb < 0"
  shows "fs_inv (snd (fisopfs_mkdir e p mode sb))"
proof (cases "obtener_dir_padre p sb")
  case (Inl err)
  with inv show ?thesis by (simp add: fisopfs_mkdir_def)
next
  case (Inr dn)
  obtain d n where dn: "dn = (d, n)" by fastforce
  obtain idx sb1 where cr: "crear_inodo e sb p DIR_T = (idx, sb1)" by fastforce
  show ?thesis
  proof (cases "buscar_entrada_en_directorio sb d n \<ge> 0 \<or> idx < 0")
    case True
    with inv cr Inr dn show ?thesis
      by (cases rule: crear_inodo_cases [OF cr]) (auto simp: fisopfs_mkdir_def Let_def)
  next
    case False
    then obtain i where i: "idx = int i" by (metis nonneg_int_cases not_less)
    let ?f = "\<lambda>r. r\<lparr>permisos := mode, tam := 0, link_num := 2\<rparr>"
    let ?sb2 = "con_inodo i ?f sb1"
    obtain resp sb3 where ag: "agregar_entrada_directorio ?sb2 d i = (resp, sb3)" by fastforce
    note st = fs_inv_crear [OF inv p(1-3) _ Inr [unfolded dn] _ cr [unfolded i], where f = ?f]
    have inv3: "fs_inv sb3" and oc: "ocupado ?sb2 i" and ne: "i \<noteq> d" "i \<noteq> 0"
      using False p(4) st(2-5) ag by (simp_all add: buscar_inodo_neg)
    have d: "d < MAX_INODES"
      using obtener_dir_padre_Inr(1) [OF Inr [unfolded dn]] by (simp add: ocupado_def)
    have same: "inodos sb3 i = inodos ?sb2 i" "ocupado sb3 i"
      using ag oc ne(1) by (auto simp: agregar_content Let_def split: option.splits)
    have fresh: "tipo_archivo (inodos sb3 i) = DIR_T"
      "\<And>k. k < 16 \<Longrightarrow> ent_inodo (content (inodos sb3 i)) k = 0"
      unfolding same(1)
      by (cases rule: crear_inodo_cases [OF cr]; use i in \<open>auto intro: ent_inodo_ceros\<close>)+
    have "fs_inv (inicializar_entradas_directorio sb3 i i d)"
      by (rule fs_inv_inicializar_entradas [OF inv3 same(2) ne(2) fresh d])
    with inv3 False cr Inr dn i ag show ?thesis
      by (auto simp: fisopfs_mkdir_def Let_def)
  qed
qed

section \<open>Removing entries and inodes\<close>

lemma cant_entradas_mult: "t \<le> 16 \<Longrightarrow> cant_entradas (word_of_nat (260 * t)) = t"
proof -
  assume t: "t \<le> 16"
  have "unat (word_of_nat (260 * t) :: 64 word) = 260 * t"
    using t by (simp only: unat_of_nat) (simp add: take_bit_nat_eq_self)
  with t sint_word_of_nat_small [of t] show ?thesis
    by (simp add: cant_entradas_def sizeof_entrada_260)
qed

lemma eliminar_buscar_find:
  assumes "n \<le> 16" "ent_inodo c 15 = 0"
  shows "eliminar_buscar c s n i = Some (find (\<lambda>k. ent_inodo c k \<noteq> 0 \<and> ent_nombre c k = s) [i..<n])"
  using assms
proof (induction c s n i rule: eliminar_buscar.induct)
  case (1 c s n i)
  show ?case
  proof (cases "n \<le> i")
    case True
    then show ?thesis by (simp add: eliminar_buscar.simps [of c s n i])
  next
    case False
    then have i: "i < n" "i \<le> 15" using "1.prems" by auto
    then have b: "\<not> sizeof_entrada * i + 4 > MAX_CONTENT" by (simp add: fs_consts)
    have e: "ent_inodo c i \<noteq> 0 \<Longrightarrow> \<not> MAX_DIR_ENTRIES \<le> i"
      using "1.prems" i by (cases "i = 15") (auto simp: MAX_DIR_ENTRIES_15)
    show ?thesis
      using "1.IH" False b e "1.prems" upt_conv_Cons [OF i(1)]
      by (subst eliminar_buscar.simps) auto
  qed
qed

lemma eliminar_cases:
  assumes d: "dir.compacta (content (inodos sb d)) m" "tam (inodos sb d) = word_of_nat (260 * t)"
    "t = m \<or> t = m + 1"
  obtains (no) "eliminar_entrada_directorio sb d s = Some (- 1, sb)"
      "\<forall>k<m. ent_nombre (content (inodos sb d)) k \<noteq> s"
  | (fuera) "eliminar_entrada_directorio sb d s = None" "t = 16"
      "\<exists>k<m. ent_nombre (content (inodos sb d)) k = s"
  | (si) k where "k < m" "ent_nombre (content (inodos sb d)) k = s" "t \<le> 15"
      "eliminar_entrada_directorio sb d s = Some (0, con_inodo d
         (\<lambda>r. r\<lparr>content := dir.quitar (content r) k t, tam := word_of_nat (260 * (t - 1))\<rparr>) sb)"
proof -
  let ?c = "content (inodos sb d)"
  have t: "t \<le> 16" "m \<le> 15" using d(3) compacta_le [OF d(1)] by auto
  have n: "cant_entradas (tam (inodos sb d)) = t"
    using t by (simp only: d(2) cant_entradas_mult)
  have ent: "ent_inodo ?c k \<noteq> 0 \<longleftrightarrow> k < m" if "k < 16" for k
    using compacta_ent [OF d(1) that] by auto
  have bus: "eliminar_buscar ?c s t 0 = Some (primer_indice (\<lambda>k. ent_inodo ?c k \<noteq> 0 \<and> ent_nombre ?c k = s) t)"
    unfolding primer_indice_def
    by (rule eliminar_buscar_find [OF t(1)]) (use ent [of 15] t(2) in auto)
  show ?thesis
  proof (cases "primer_indice (\<lambda>k. ent_inodo ?c k \<noteq> 0 \<and> ent_nombre ?c k = s) t")
    case None
    have "\<forall>k<m. ent_nombre ?c k \<noteq> s"
    proof (intro allI impI)
      fix k assume "k < m"
      with d(3) t have "k < t" "k < 16" by auto
      with None ent [of k] \<open>k < m\<close> show "ent_nombre ?c k \<noteq> s" by (auto simp: primer_indice_None)
    qed
    with None bus n show ?thesis
      by (intro no) (simp_all add: eliminar_entrada_directorio_def Let_def)
  next
    case (Some k)
    then have k: "k < t" "ent_inodo ?c k \<noteq> 0" "ent_nombre ?c k = s"
      by (auto simp: primer_indice_Some)
    then have km: "k < m" using ent [of k] t by auto
    show ?thesis
    proof (cases "t = 16")
      case True
      with Some bus n km t k(3) show ?thesis
        by (intro fuera) (auto simp: eliminar_entrada_directorio_def Let_def MAX_DIR_ENTRIES_15)
    next
      case False
      have tt: "(word_of_nat (260 * t) :: 64 word) - 260 = word_of_nat (260 * (t - 1))"
        using k(1) by (cases t) (simp_all add: algebra_simps)
      show ?thesis
        using Some bus n km t k(3) False tt d(2)
        by (intro si [of k])
          (auto simp: eliminar_entrada_directorio_def Let_def MAX_DIR_ENTRIES_15 sizeof_entrada_260
            dir.quitar_def vaciar_entrada_def correr_entradas_dir con_inodo_def)
    qed
  qed
qed

text \<open>Removing an entry keeps the invariant and leaves no entry of that name.\<close>

lemma fs_inv_eliminar:
  assumes inv: "fs_inv sb" and d: "ocupado sb d" "tipo_archivo (inodos sb d) = DIR_T"
    and el: "eliminar_entrada_directorio sb d s = Some (r, sb')"
  shows "fs_inv sb'"
    and "\<And>k. k < MAX_DIR_ENTRIES \<Longrightarrow> ent_inodo (content (inodos sb' d)) k \<noteq> 0
           \<Longrightarrow> ent_nombre (content (inodos sb' d)) k \<noteq> s"
    and "\<And>i. i \<noteq> d \<Longrightarrow> inodos sb' i = inodos sb i" "bitmap_inodes sb' = bitmap_inodes sb"
      "path (inodos sb' d) = path (inodos sb d)" "tipo_archivo (inodos sb' d) = DIR_T"
proof -
  let ?c = "content (inodos sb d)"
  obtain m t where c: "dir.compacta ?c m" "dir.nombres_distintos ?c m"
      "tam (inodos sb d) = word_of_nat (260 * t)" "t = m \<or> t = m + 1" "m \<le> 15"
    using fs_inv_dir [OF inv d] by (rule dir_okE)
  have goal: "fs_inv sb' \<and> (\<forall>k<MAX_DIR_ENTRIES. ent_inodo (content (inodos sb' d)) k \<noteq> 0
           \<longrightarrow> ent_nombre (content (inodos sb' d)) k \<noteq> s)
      \<and> (\<forall>i. i \<noteq> d \<longrightarrow> inodos sb' i = inodos sb i) \<and> bitmap_inodes sb' = bitmap_inodes sb
      \<and> path (inodos sb' d) = path (inodos sb d) \<and> tipo_archivo (inodos sb' d) = DIR_T"
    using c(1,3,4)
  proof (cases rule: eliminar_cases [where s = s])
    case no
    have used: "k < m" if "k < 15" "ent_inodo ?c k \<noteq> 0" for k
      using compacta_ent [OF c(1), of k] that by auto
    have "sb' = sb" using no(1) el by simp
    with inv d(2) no(2) used show ?thesis by (auto simp: MAX_DIR_ENTRIES_15)
  next
    case fuera
    with el show ?thesis by simp
  next
    case (si k)
    let ?q = "dir.quitar ?c k t"
    let ?f = "\<lambda>r. r\<lparr>content := dir.quitar (content r) k t, tam := word_of_nat (260 * (t - 1))\<rparr>"
    have mt: "m \<le> t" "t \<le> m + 1" using c(4) by auto
    have eq: "sb' = con_inodo d ?f sb" using si(4) el by simp
    have comp: "dir.compacta ?q (m - 1)" and dist: "dir.nombres_distintos ?q (m - 1)"
      using dir.compacta_quitar [OF c(1) si(1) mt si(3)]
        dir.nombres_quitar [OF c(2) si(1) mt] by auto
    have img: "\<exists>j<m. j \<noteq> k \<and> ent_inodo ?q l = ent_inodo ?c j \<and> ent_nombre ?q l = ent_nombre ?c j"
      if l: "l < 15" "ent_inodo ?q l \<noteq> 0" for l
    proof -
      have "l < m - 1" using l compacta_ent [OF comp, of l] by auto
      then have "(ent_inodo ?q l, ent_nombre ?q l)
          \<in> (\<lambda>k. (ent_inodo ?c k, ent_nombre ?c k)) ` ({..<m} - {k})"
        using dir.usadas_quitar [OF si(1) mt, of ?c] by blast
      then show ?thesis by auto
    qed
    have "fs_inv sb'"
      unfolding eq
    proof (rule fs_inv_con_inodo [OF inv d(1)])
      have "dir_ok (?f (inodos sb d))"
        using comp dist c(4) si(1) by (intro dir_okI [where m = "m - 1" and t = "t - 1"]) auto
      then show "inodo_ok d (?f (inodos sb d))"
        using fs_invD(4) [OF inv d(1)] d(2) by (simp add: inodo_ok_def)
      fix l assume l: "l < MAX_DIR_ENTRIES"
      show "entrada_ok sb (?f (inodos sb d)) l"
      proof (cases "ent_inodo ?q l = 0")
        case True
        then show ?thesis by (simp add: entrada_ok_def)
      next
        case False
        then obtain j where "j < m" "ent_inodo ?q l = ent_inodo ?c j" "ent_nombre ?q l = ent_nombre ?c j"
          using img [of l] l by (auto simp: MAX_DIR_ENTRIES_15)
        with fs_inv_entrada [OF inv d, of j] c(5) show ?thesis
          by (simp add: entrada_ok_def MAX_DIR_ENTRIES_15)
      qed
    qed simp_all
    moreover have "ent_nombre ?q l \<noteq> s" if l: "l < 15" "ent_inodo ?q l \<noteq> 0" for l
      using img [OF l] c(2) si(1,2) unfolding dir.nombres_distintos_def by metis
    ultimately show ?thesis
      using d(2) by (simp add: eq MAX_DIR_ENTRIES_15)
  qed
  from goal show "fs_inv sb'" "bitmap_inodes sb' = bitmap_inodes sb"
    "path (inodos sb' d) = path (inodos sb d)" "tipo_archivo (inodos sb' d) = DIR_T"
    "\<And>i. i \<noteq> d \<Longrightarrow> inodos sb' i = inodos sb i"
    "\<And>k. k < MAX_DIR_ENTRIES \<Longrightarrow> ent_inodo (content (inodos sb' d)) k \<noteq> 0
           \<Longrightarrow> ent_nombre (content (inodos sb' d)) k \<noteq> s" by blast+
qed

lemma liberar_inodo_simps [simp]:
  "inodos (liberar_inodo i sb) j = (if j = i then inodo_cero else inodos sb j)"
  "bitmap_inodes (liberar_inodo i sb) j = (if j = i then LIBRE else bitmap_inodes sb j)"
  "ocupado (liberar_inodo i sb) j \<longleftrightarrow> j \<noteq> i \<and> ocupado sb j"
  by (auto simp: liberar_inodo_def con_inodo_def ocupado_def)

text \<open>Freeing an inode to which no entry leads.\<close>

lemma fs_inv_liberar:
  assumes inv: "fs_inv sb" and i: "i \<noteq> 0"
    and sin: "\<And>d k. ocupado sb d \<Longrightarrow> tipo_archivo (inodos sb d) = DIR_T \<Longrightarrow> d \<noteq> i
      \<Longrightarrow> k < MAX_DIR_ENTRIES \<Longrightarrow> ent_nombre (content (inodos sb d)) k \<noteq> ''.''
      \<Longrightarrow> ent_nombre (content (inodos sb d)) k \<noteq> ''..''
      \<Longrightarrow> unat (ent_inodo (content (inodos sb d)) k) \<noteq> i"
  shows "fs_inv (liberar_inodo i sb)"
proof -
  let ?s = "liberar_inodo i sb"
  have "entradas_ok ?s"
    unfolding entradas_ok_def
  proof (intro allI impI)
    fix d k assume d: "ocupado ?s d" "tipo_archivo (inodos ?s d) = DIR_T" "k < MAX_DIR_ENTRIES"
    then have d': "d \<noteq> i" "ocupado sb d" "tipo_archivo (inodos sb d) = DIR_T" by auto
    from fs_inv_entrada [OF inv d'(2,3) d(3)] sin [OF d'(2,3,1) d(3)] d'(1)
    show "entrada_ok ?s (inodos ?s d) k" by (auto simp: entrada_ok_def Let_def)
  qed
  moreover have "caminos_unicos ?s"
    using fs_invD(2) [OF inv] by (auto simp: caminos_unicos_def)
  ultimately show ?thesis
    using inv i by (auto simp: fs_inv_def raiz_ok_def)
qed

lemma eliminar_liberar:
  assumes "i \<noteq> d"
  shows "eliminar_entrada_directorio (liberar_inodo i sb) d s
    = map_option (\<lambda>(r, sb'). (r, liberar_inodo i sb')) (eliminar_entrada_directorio sb d s)"
  using assms
  by (auto simp: eliminar_entrada_directorio_def Let_def liberar_inodo_def con_inodo_def fun_upd_twist
      split: option.splits)

text \<open>After its entry is gone, no entry leads to the inode found at a path.\<close>

lemma fs_inv_quitar_inodo:
  assumes inv: "fs_inv sb" and pd: "obtener_dir_padre p sb = Inr (d, n)"
    and i: "ocupado sb i" "path (inodos sb i) = p" "i \<noteq> 0" "i \<noteq> d"
    and el: "eliminar_entrada_directorio sb d n = Some (r, sb1)"
  shows "fs_inv (liberar_inodo i sb1)"
proof (rule fs_inv_liberar [OF _ i(3)])
  note d = obtener_dir_padre_Inr [OF pd]
  note e = fs_inv_eliminar [OF inv d(1,4) el]
  show inv1: "fs_inv sb1" by (rule e(1))
  have oc: "ocupado sb1 j = ocupado sb j" for j by (simp add: ocupado_def e(4))
  have sep: "separar_path p = (directory_path (inodos sb i), nombre (inodos sb i))"
    using fs_invD(4) [OF inv i(1)] i(2,3) by (simp add: inodo_ok_def)
  have same: "inodos sb1 i = inodos sb i" using e(3) i(4) by simp
  fix d' k assume d': "ocupado sb1 d'" "tipo_archivo (inodos sb1 d') = DIR_T" "d' \<noteq> i"
    "k < MAX_DIR_ENTRIES" "ent_nombre (content (inodos sb1 d')) k \<noteq> ''.''"
    "ent_nombre (content (inodos sb1 d')) k \<noteq> ''..''"
  show "unat (ent_inodo (content (inodos sb1 d')) k) \<noteq> i"
  proof
    assume v: "unat (ent_inodo (content (inodos sb1 d')) k) = i"
    with fs_inv_entrada [OF inv1 d'(1,2,4)] d'(5,6) i(3) same
    have nm: "nombre (inodos sb i) = ent_nombre (content (inodos sb1 d')) k"
      and dp: "directory_path (inodos sb i) = path (inodos sb1 d')"
      by (auto simp: entrada_ok_def Let_def)
    have "path (inodos sb1 d') = path (inodos sb1 d)"
      using dp d(2) sep e(5) by simp
    then have "d' = d"
      using caminos_unicosD [OF fs_invD(2) [OF inv1] d'(1)] d(1) oc by blast
    moreover have "ent_nombre (content (inodos sb1 d')) k = n"
      using nm d(3) sep by simp
    ultimately show False
      using e(2) [OF d'(4)] v i(3) by (auto simp flip: unat_eq_zero)
  qed
qed

lemma fisopfs_unlink_inv:
  assumes inv: "fs_inv sb" and u: "fisopfs_unlink p sb = Some (r, sb')"
  shows "fs_inv sb'"
proof (cases "obtener_dir_padre p sb")
  case (Inl err)
  with assms show ?thesis by (simp add: fisopfs_unlink_def)
next
  case (Inr dn)
  obtain d n where dn: "dn = (d, n)" by fastforce
  note pd = Inr [unfolded dn]
  let ?i = "nat (buscar_inodo p sb)"
  show ?thesis
  proof (cases "buscar_inodo p sb < 0 \<or> tipo_archivo (inodos sb ?i) \<noteq> REG_T")
    case True
    with assms pd show ?thesis
      by (cases "buscar_inodo p sb < 0") (auto simp: fisopfs_unlink_def Let_def)
  next
    case False
    then have neg: "\<not> buscar_inodo p sb < 0" and reg: "tipo_archivo (inodos sb ?i) = REG_T" by auto
    note oc = buscar_inodoD [OF neg]
    have ne: "?i \<noteq> d" "?i \<noteq> 0"
      using reg obtener_dir_padre_Inr(4) [OF pd] fs_invD(1) [OF inv]
      by (auto simp: raiz_ok_def intro: ccontr)
    from u obtain r1 sb1 where "eliminar_entrada_directorio sb d n = Some (r1, sb1)"
        "sb' = liberar_inodo ?i sb1"
      using pd neg reg ne(1) by (auto simp: fisopfs_unlink_def Let_def eliminar_liberar)
    with fs_inv_quitar_inodo [OF inv pd oc ne(2,1)] show ?thesis by simp
  qed
qed

lemma fisopfs_rmdir_inv:
  assumes inv: "fs_inv sb" and u: "fisopfs_rmdir p sb = Some (r, sb')"
  shows "fs_inv sb'"
proof (cases "p = ''/'' \<or> buscar_inodo p sb < 0")
  case True
  with assms show ?thesis by (auto simp: fisopfs_rmdir_def Let_def split: if_splits)
next
  case False
  then have neg: "\<not> buscar_inodo p sb < 0" and p: "p \<noteq> ''/''" by auto
  let ?i = "nat (buscar_inodo p sb)"
  note oc = buscar_inodoD [OF neg]
  show ?thesis
  proof (cases "tipo_archivo (inodos sb ?i) = DIR_T \<and> directorio_esta_vacio (inodos sb ?i)")
    case bad: False
    with assms neg p show ?thesis
      by (auto simp: fisopfs_rmdir_def Let_def split: if_splits)
  next
    case ok: True
    show ?thesis
    proof (cases "obtener_dir_padre p sb")
      case (Inl err)
      with assms neg p ok show ?thesis by (simp add: fisopfs_rmdir_def Let_def)
    next
      case (Inr dn)
      obtain d n where dn: "dn = (d, n)" by fastforce
      note pd = Inr [unfolded dn]
      have "?i \<noteq> d"
        using obtener_dir_padre_Inr(2) [OF pd] oc(2) separar_path_distinto [of p] p by auto
      moreover have "?i \<noteq> 0"
        using fs_invD(1) [OF inv] oc(2) p by (auto simp: raiz_ok_def ROOT_PATH_def)
      moreover obtain r1 sb1 where el: "eliminar_entrada_directorio sb d n = Some (r1, sb1)"
        using u pd neg p ok by (auto simp: fisopfs_rmdir_def Let_def split: option.splits)
      ultimately have "fs_inv (liberar_inodo ?i sb1)" and "fs_inv sb1"
        using fs_inv_quitar_inodo [OF inv pd oc] fs_inv_eliminar(1) [OF inv _ _ el]
          obtener_dir_padre_Inr(1,4) [OF pd] by auto
      with u pd neg p ok el show ?thesis
        by (auto simp: fisopfs_rmdir_def Let_def split: if_splits)
    qed
  qed
qed

section \<open>Steps of a mounted file system\<close>

text \<open>
  What the kernel and FUSE guarantee about a call: paths are C strings that start
  with one slash; \<open>create\<close> and
  \<open>mkdir\<close> come after a lookup that failed; lengths given to \<open>truncate\<close> are not negative.
  \<open>vfs_ok\<close> also asks that the path of a new file fits in the \<open>path\<close> field, which the code
  does not check.
\<close>

fun vfs_ok :: "fuse_op \<Rightarrow> superbloque \<Rightarrow> bool" where
  "vfs_ok (Create p m) sb \<longleftrightarrow> cstring p \<and> length p < MAX_PATH \<and> ruta_absoluta p \<and> buscar_inodo p sb < 0"
| "vfs_ok (Mkdir p m) sb \<longleftrightarrow> cstring p \<and> length p < MAX_PATH \<and> ruta_absoluta p \<and> buscar_inodo p sb < 0"
| "vfs_ok (Truncate p n) sb \<longleftrightarrow> 0 \<le> sint n"
| "vfs_ok _ sb \<longleftrightarrow> True"

lemma ejecutar_inv:
  assumes "fs_inv sb" "vfs_ok op sb" "ejecutar e op sb = Some (r, sb')"
  shows "fs_inv sb'"
proof (cases op)
  case (Create p m)
  with assms fisopfs_create_inv [of sb p e m] show ?thesis by simp
next
  case (Mkdir p m)
  with assms fisopfs_mkdir_inv [of sb p e m] show ?thesis by simp
next
  case (Utimens p a m)
  with assms fisopfs_utimens_inv [of sb p a m] show ?thesis by simp
qed (use assms in \<open>auto intro: fisopfs_read_inv fisopfs_write_inv fisopfs_truncate_inv
        fisopfs_unlink_inv fisopfs_rmdir_inv\<close>)

inductive fs_alcanzable :: "superbloque \<Rightarrow> bool" where
  montar: "fs_alcanzable (inicializar_filesystem e sb0)"
| llamada: "fs_alcanzable sb \<Longrightarrow> vfs_ok op sb \<Longrightarrow> ejecutar e op sb = Some (r, sb')
     \<Longrightarrow> fs_alcanzable sb'"
| remontar: "fs_alcanzable sb \<Longrightarrow> fisopfs_destroy True True parcial sb d = d'
     \<Longrightarrow> fs_alcanzable (fisopfs_init e d' sb1)"

lemma fs_alcanzable_inv: "fs_alcanzable sb \<Longrightarrow> fs_inv sb"
proof (induction rule: fs_alcanzable.induct)
  case (montar e sb0)
  show ?case by (rule fs_inv_inicial)
next
  case (llamada sb op e r sb')
  then show ?case by (blast intro: ejecutar_inv)
next
  case (remontar sb parcial d d' e sb1)
  then show ?case by (auto simp: fisopfs_destroy_def fisopfs_init_def)
qed

end
