(* ===== verification/Fs_Props.thy ===== *)
theory Fs_Props
  imports Fs_Safe
begin

text \<open>
  What a user of the file system sees. A regular file is its bytes up to its size
  (\<open>datos\<close>), and \<open>read\<close>, \<open>write\<close> and \<open>truncate\<close> are described on that string; a
  directory is the list of names \<open>readdir\<close> gives. Then creation and removal, the
  capacity and path-length limits the code does not guard, and the disk image.
\<close>

section \<open>Regular files as strings\<close>

definition datos :: "inodo \<Rightarrow> string" where
  "datos r = map (content r) [0..<unat (tam r)]"

text \<open>Writing \<open>s\<close> at \<open>off\<close>: a gap past the end is filled with zeros.\<close>

definition escribir_abs :: "string \<Rightarrow> nat \<Rightarrow> string \<Rightarrow> string" where
  "escribir_abs xs off s =
     take off (xs @ replicate (off - length xs) (CHR 0x00)) @ s @ drop (off + length s) xs"

definition truncar_abs :: "string \<Rightarrow> nat \<Rightarrow> string" where
  "truncar_abs xs n = take n (xs @ replicate (n - length xs) (CHR 0x00))"

lemma length_datos [simp]: "length (datos r) = unat (tam r)"
  by (simp add: datos_def)

lemma datos_nth: "i < unat (tam r) \<Longrightarrow> datos r ! i = content r i"
  by (simp add: datos_def)

lemma length_escribir: "length (escribir_abs xs off s) = max (length xs) (off + length s)"
  by (auto simp: escribir_abs_def)

lemma escribir_nth:
  "i < max (length xs) (off + length s) \<Longrightarrow> escribir_abs xs off s ! i =
     (if i < off then (if i < length xs then xs ! i else CHR 0x00)
      else if i < off + length s then s ! (i - off) else xs ! i)"
  by (auto simp: escribir_abs_def nth_append min_def)

lemma take_drop_escribir: "take (length s) (drop off (escribir_abs xs off s)) = s"
  by (simp add: escribir_abs_def)

lemma int_de_size_chico: "unat n \<le> MAX_CONTENT \<Longrightarrow> int_de_size n = int (unat n)"
  using sint_word_of_nat_small [of "unat n"]
  by (simp add: int_de_size_def MAX_CONTENT_def)

lemma datos_write:
  fixes off sz :: "64 word"
  assumes ok: "fichero_ok r" and fit: "unat off + unat sz \<le> MAX_CONTENT" and len: "unat sz = length s"
  shows "datos (r\<lparr>content := memcpy_en (content r) (unat off) s (unat sz),
      tam := (if off + sz > tam r then off + sz else tam r), fecha_de_modificacion := u\<rparr>)
    = escribir_abs (datos r) (unat off) s"
proof -
  have sum: "unat (off + sz) = unat off + unat sz"
    using fit by (simp add: unat_word_ariths MAX_CONTENT_def)
  have tam: "unat (if off + sz > tam r then off + sz else tam r) = max (unat (tam r)) (unat off + length s)"
    by (auto simp: sum word_less_nat_alt len)
  have cero: "content r i = CHR 0x00" if "unat (tam r) \<le> i" "i < unat off" for i
    using ok fit that by (auto simp: fichero_ok_def)
  show ?thesis
  proof (rule nth_equalityI)
    fix i assume "i < length (datos (r\<lparr>content := memcpy_en (content r) (unat off) s (unat sz),
      tam := (if off + sz > tam r then off + sz else tam r), fecha_de_modificacion := u\<rparr>))"
    then have i: "i < max (unat (tam r)) (unat off + length s)" by (simp add: tam del: max_less_iff_conj)
    then show "datos (r\<lparr>content := memcpy_en (content r) (unat off) s (unat sz),
        tam := (if off + sz > tam r then off + sz else tam r), fecha_de_modificacion := u\<rparr>) ! i
      = escribir_abs (datos r) (unat off) s ! i"
      using cero [of i] by (auto simp: datos_nth tam escribir_nth memcpy_en_def len)
  qed (simp add: tam length_escribir)
qed

lemma read_exito:
  assumes inv: "fs_inv sb" and k: "buscar_inodo p sb = int k" "tipo_archivo (inodos sb k) = REG_T"
    and nw: "unat off + unat n < 2 ^ 64"
  defines "bs \<equiv> take (unat n) (drop (unat off) (datos (inodos sb k)))"
  shows "\<exists>sb'. fisopfs_read e p n off sb = Some (int (length bs), bs, sb')
    \<and> (sb' = sb \<or> sb' = con_inodo k (\<lambda>r. r\<lparr>fecha_de_acceso := reloj e 0\<rparr>) sb)"
proof -
  let ?r = "inodos sb k"
  have "ocupado sb k" using k(1) buscar_inodoD(1) [of p sb] by simp
  then have ok: "fichero_ok ?r" using inv k(2) by (simp add: fichero_ok_inodo)
  then have t: "unat (tam ?r) \<le> MAX_CONTENT" by (simp add: fichero_ok_def)
  show ?thesis
  proof (cases "off \<ge> tam ?r")
    case True
    then have "bs = []" by (simp add: bs_def word_le_nat_alt)
    with True k show ?thesis by (simp add: fisopfs_read_def Let_def)
  next
    case False
    then have lt: "unat off < unat (tam ?r)" by (simp add: word_le_nat_alt)
    have sum: "unat (off + n) = unat off + unat n"
      using nw by (simp add: unat_word_ariths)
    define m where "m = (if off + n > tam ?r then tam ?r - off else n)"
    have m: "unat m = min (unat n) (unat (tam ?r) - unat off)"
      using lt by (auto simp: m_def word_less_nat_alt sum unat_sub less_imp_le)
    have fit: "unat off + unat m \<le> MAX_CONTENT" using m lt t by simp
    have bs: "map (\<lambda>j. content ?r (unat off + j)) [0..<unat m] = bs"
      by (rule nth_equalityI) (use lt in \<open>auto simp: bs_def m datos_nth\<close>)
    have len: "int (length bs) = int_de_size m"
      using fit by (simp add: int_de_size_chico m bs_def)
    have "fisopfs_read e p n off sb = Some (int_de_size m,
        map (\<lambda>j. content ?r (unat off + j)) [0..<unat m],
        con_inodo k (\<lambda>r. r\<lparr>fecha_de_acceso := reloj e 0\<rparr>) sb)"
      using k False fit by (simp add: fisopfs_read_def Let_def m_def)
    then show ?thesis unfolding bs len by blast
  qed
qed

lemma write_exito:
  assumes inv: "fs_inv sb" and k: "buscar_inodo p sb = int k" "tipo_archivo (inodos sb k) = REG_T"
    and fit: "unat off + length buf \<le> MAX_CONTENT"
  shows "\<exists>sb'. fisopfs_write e p buf (word_of_nat (length buf)) off sb = Some (int (length buf), sb')
    \<and> datos (inodos sb' k) = escribir_abs (datos (inodos sb k)) (unat off) buf
    \<and> fecha_de_modificacion (inodos sb' k) = reloj e 0
    \<and> (\<forall>j. j \<noteq> k \<longrightarrow> inodos sb' j = inodos sb j) \<and> bitmap_inodes sb' = bitmap_inodes sb
    \<and> path (inodos sb' k) = p \<and> tipo_archivo (inodos sb' k) = REG_T"
proof -
  let ?sz = "word_of_nat (length buf) :: 64 word"
  have oc: "ocupado sb k" "path (inodos sb k) = p" using k(1) buscar_inodoD [of p sb] by auto
  then have ok: "fichero_ok (inodos sb k)" using inv k(2) by (simp add: fichero_ok_inodo)
  have sz: "unat ?sz = length buf"
    using fit by (simp only: unat_of_nat) (simp add: MAX_CONTENT_def take_bit_nat_eq_self)
  have fit': "unat off + unat ?sz \<le> MAX_CONTENT" using fit sz by simp
  have "unat (off + ?sz) = unat off + unat ?sz"
    using fit' by (simp add: unat_word_ariths MAX_CONTENT_def)
  then have le: "off + ?sz \<le> word_of_nat MAX_CONTENT"
    using fit' by (simp add: word_le_nat_alt MAX_CONTENT_def)
  then have nl: "\<not> word_of_nat MAX_CONTENT < off + ?sz" by (simp add: not_less)
  let ?f = "\<lambda>r. r\<lparr>content := memcpy_en (content r) (unat off) buf (unat ?sz),
               tam := (if off + ?sz > tam r then off + ?sz else tam r),
               fecha_de_modificacion := reloj e 0\<rparr>"
  have "fisopfs_write e p buf ?sz off sb = Some (int_de_size ?sz, con_inodo k ?f sb)"
    using k nl fit' sz by (simp add: fisopfs_write_def Let_def)
  moreover have "int_de_size ?sz = int (length buf)"
    using fit sz by (simp add: int_de_size_chico)
  ultimately show ?thesis
    using datos_write [OF ok fit' sz] k(2) oc(2)
    by (intro exI [of _ "con_inodo k ?f sb"]) simp
qed

lemma truncate_exito:
  assumes inv: "fs_inv sb" and k: "buscar_inodo p sb = int k" "tipo_archivo (inodos sb k) = REG_T"
    and n: "unat n \<le> MAX_CONTENT"
  shows "\<exists>sb'. fisopfs_truncate e p n sb = Some (0, sb')
    \<and> datos (inodos sb' k) = truncar_abs (datos (inodos sb k)) (unat n)
    \<and> (\<forall>j. j \<noteq> k \<longrightarrow> inodos sb' j = inodos sb j) \<and> bitmap_inodes sb' = bitmap_inodes sb
    \<and> path (inodos sb' k) = p \<and> tipo_archivo (inodos sb' k) = REG_T"
proof -
  let ?r = "inodos sb k"
  have oc: "ocupado sb k" "path ?r = p" using k(1) buscar_inodoD [of p sb] by auto
  then have ok: "fichero_ok ?r" using inv k(2) by (simp add: fichero_ok_inodo)
  have "sint n = int (unat n)"
    using n by (intro sint_de_unat) (simp add: MAX_CONTENT_def)
  moreover have "int (unat n) \<le> int MAX_CONTENT" using n by (simp only: of_nat_le_iff)
  ultimately have s: "\<not> sint n > int MAX_CONTENT" by (simp only: not_less)
  have t: "\<not> unat (tam ?r) > MAX_CONTENT" using ok by (simp add: fichero_ok_def)
  define c where "c = (if n < tam ?r then memset_cero (content ?r) (unat n) (unat (tam ?r - n))
      else content ?r)"
  let ?f = "\<lambda>r. r\<lparr>content := c, tam := n, fecha_de_modificacion := reloj e 0\<rparr>"
  have "fisopfs_truncate e p n sb = Some (0, con_inodo k ?f sb)"
    using k s t by (simp add: fisopfs_truncate_def Let_def c_def)
  moreover have "datos (?f ?r) = truncar_abs (datos ?r) (unat n)"
  proof (rule nth_equalityI)
    show "length (datos (?f ?r)) = length (truncar_abs (datos ?r) (unat n))"
      by (simp add: truncar_abs_def)
    fix i assume "i < length (datos (?f ?r))"
    then have i: "i < unat n" by simp
    have cero: "content ?r i = CHR 0x00" if "unat (tam ?r) \<le> i"
      using ok that i n by (auto simp: fichero_ok_def)
    show "datos (?f ?r) ! i = truncar_abs (datos ?r) (unat n) ! i"
      using i cero by (auto simp: datos_nth truncar_abs_def nth_append c_def memset_cero_def)
  qed
  ultimately show ?thesis
    using oc(2) k(2) by (intro exI [of _ "con_inodo k ?f sb"]) simp
qed

section \<open>Directories as lists of names\<close>

lemma listar_filter:
  assumes "i + k \<le> 16" "ent_inodo c 15 = 0"
  shows "listar_entradas c i k
    = Some (map (ent_nombre c) (filter (\<lambda>j. ent_inodo c j \<noteq> 0) [i..<i + k]))"
  using assms
proof (induction k arbitrary: i)
  case (Suc k)
  have b: "\<not> sizeof_entrada * i + 4 > MAX_CONTENT" using Suc.prems(1) by (simp add: fs_consts)
  have e: "ent_inodo c i \<noteq> 0 \<Longrightarrow> \<not> MAX_DIR_ENTRIES \<le> i"
    using Suc.prems by (cases "i = 15") (auto simp: MAX_DIR_ENTRIES_15)
  have "[i..<i + Suc k] = i # [i + 1..<i + 1 + k]" by (simp add: upt_conv_Cons)
  with Suc.IH [of "i + 1"] Suc.prems b e show ?case by simp
qed simp

lemma listar_compacta:
  assumes c: "dir.compacta c m" and t: "t = m \<or> t = m + 1"
  shows "listar_entradas c 0 t = Some (map (ent_nombre c) [0..<m])"
proof -
  have m: "m \<le> 15" and ent: "\<And>k. k < 16 \<Longrightarrow> ent_inodo c k \<noteq> 0 \<longleftrightarrow> k < m"
    using compacta_le [OF c] compacta_ent [OF c] by (auto simp: not_le)
  have "filter (\<lambda>j. ent_inodo c j \<noteq> 0) [0..<m] = [0..<m]"
    using m ent by (intro filter_True) simp
  moreover have "ent_inodo c m = 0" using ent [of m] m by simp
  ultimately have "filter (\<lambda>j. ent_inodo c j \<noteq> 0) [0..<t] = [0..<m]"
    using t by auto
  with listar_filter [of 0 t c] ent [of 15] m t show ?thesis by auto
qed

definition entradas_de :: "inodo \<Rightarrow> string list" where
  "entradas_de r = map (ent_nombre (content r)) (filter (\<lambda>k. ent_inodo (content r) k \<noteq> 0) [0..<15])"

lemma entradas_compacta:
  assumes "dir.compacta (content r) m"
  shows "entradas_de r = map (ent_nombre (content r)) [0..<m]"
proof -
  have m: "m \<le> 15" and ent: "\<And>k. k < 16 \<Longrightarrow> ent_inodo (content r) k \<noteq> 0 \<longleftrightarrow> k < m"
    using compacta_le [OF assms] compacta_ent [OF assms] by (auto simp: not_le)
  have "[0..<15] = [0..<m] @ [m..<15]" using m upt_add_eq_append [of 0 m "15 - m"] by simp
  moreover have "filter (\<lambda>k. ent_inodo (content r) k \<noteq> 0) [0..<m] = [0..<m]"
    using m ent by (intro filter_True) simp
  moreover have "filter (\<lambda>k. ent_inodo (content r) k \<noteq> 0) [m..<15] = []"
    using ent by (auto simp: filter_empty_conv)
  ultimately show ?thesis unfolding entradas_de_def by simp
qed

lemma readdir_exito:
  assumes inv: "fs_inv sb" and d: "buscar_inodo p sb = int d" "tipo_archivo (inodos sb d) = DIR_T"
  shows "fisopfs_readdir p sb = Some (0, ''.'' # ''..'' # entradas_de (inodos sb d))"
proof -
  have oc: "ocupado sb d" using d(1) buscar_inodoD [of p sb] by auto
  obtain m t where c: "dir.compacta (content (inodos sb d)) m"
      "tam (inodos sb d) = word_of_nat (260 * t)" "t = m \<or> t = m + 1" "m \<le> 15"
    using fs_inv_dir [OF inv oc d(2)] by (rule dir_okE)
  have "cant_entradas (tam (inodos sb d)) = t"
    unfolding c(2) using c(3,4) by (intro cant_entradas_mult) auto
  with listar_compacta [OF c(1,3)] entradas_compacta [OF c(1)] d show ?thesis
    by (simp add: fisopfs_readdir_def Let_def)
qed

end
