(* ===== verification/Fs_Names.thy ===== *)
theory Fs_Names
  imports Fs_Props
begin

text \<open>
  Creation and removal seen through names: which paths resolve and what the parent
  directory lists before and after \<open>create\<close>, \<open>mkdir\<close>, \<open>unlink\<close> and \<open>rmdir\<close>.
\<close>

section \<open>Adding a name\<close>

definition mismos_salvo :: "nat set \<Rightarrow> superbloque \<Rightarrow> superbloque \<Rightarrow> bool" where
  "mismos_salvo I sb sb' \<longleftrightarrow> (\<forall>j. j \<notin> I \<longrightarrow> inodos sb' j = inodos sb j)"

lemma entradas_lleno:
  "dir.compacta (content r) m \<Longrightarrow> length (entradas_de r) = m"
  by (simp add: entradas_compacta)

text \<open>\<open>agregar\<close> puts the name of the new inode after the others, unless the table is full.\<close>

lemma agregar_entradas:
  assumes inv: "fs_inv sb" and d: "ocupado sb d" "tipo_archivo (inodos sb d) = DIR_T"
    and i: "i < MAX_INODES" "i \<noteq> 0" "inumero (inodos sb i) = int i"
      "cstring (nombre (inodos sb i))" "length (nombre (inodos sb i)) < MAX_PATH"
    and fresh: "nombre (inodos sb i) \<notin> set (entradas_de (inodos sb d))"
    and ag: "agregar_entrada_directorio sb d i = (r, sb')"
  shows "if length (entradas_de (inodos sb d)) < 15
    then r = 0 \<and> bitmap_inodes sb' = bitmap_inodes sb \<and> mismos_salvo {d} sb sb'
      \<and> path (inodos sb' d) = path (inodos sb d) \<and> tipo_archivo (inodos sb' d) = DIR_T
      \<and> (\<exists>c. inodos sb' d = inodos sb d\<lparr>content := c, tam := tam (inodos sb d) + 260\<rparr>)
      \<and> entradas_de (inodos sb' d) = entradas_de (inodos sb d) @ [nombre (inodos sb i)]
    else r = - 1 \<and> sb' = sb"
proof -
  let ?c = "content (inodos sb d)"
  obtain m t where c: "dir.compacta ?c m" "dir.nombres_distintos ?c m"
      "tam (inodos sb d) = word_of_nat (260 * t)" "t = m \<or> t = m + 1" "m \<le> 15"
    using fs_inv_dir [OF inv d] by (rule dir_okE)
  note es = entradas_compacta [OF c(1)]
  have v: "(word_of_nat i :: 32 word) \<noteq> 0"
    using i(1,2) by (simp add: word_nat_cero MAX_INODES_def)
  show ?thesis
  proof (cases "m < 15")
    case True
    have fr: "\<forall>k<m. ent_nombre ?c k \<noteq> nombre (inodos sb i)"
      using fresh unfolding es set_map set_upt by force
    note nuevo = dir_tras_agregar [OF c(1,2) True v i(4,5) fr]
    let ?f = "\<lambda>r. r\<lparr>content := poner_nombre (poner_inodo ?c m (word_of_nat i)) m (nombre (inodos sb i)),
                  tam := tam r + word_of_nat sizeof_entrada\<rparr>"
    have eq: "(r, sb') = (0, con_inodo d ?f sb)"
      using ag by (simp add: agregar_content Let_def compacta_libre [OF c(1)] True i(3))
    have "entradas_de (?f (inodos sb d)) = map (ent_nombre (content (?f (inodos sb d)))) [0..<m + 1]"
      using nuevo(1) by (intro entradas_compacta) simp
    also have "\<dots> = entradas_de (inodos sb d) @ [nombre (inodos sb i)]"
      by (simp add: es nuevo(4))
    finally show ?thesis
      using eq True d(2) by (auto simp: es mismos_salvo_def sizeof_entrada_260)
  next
    case False
    then show ?thesis
      using ag entradas_lleno [OF c(1)]
      by (auto simp: agregar_content Let_def compacta_libre [OF c(1)])
  qed
qed

text \<open>A name is listed in a directory exactly when the lookup in it finds it.\<close>

lemma buscar_entrada_lista:
  assumes "fs_inv sb" "ocupado sb d" "tipo_archivo (inodos sb d) = DIR_T"
  shows "buscar_entrada_en_directorio sb d s < 0 \<longleftrightarrow> s \<notin> set (entradas_de (inodos sb d))"
proof -
  obtain m where c: "dir.compacta (content (inodos sb d)) m"
    using fs_inv_dir [OF assms] by (rule dir_okE)
  show ?thesis
    unfolding buscar_entrada_neg [OF assms c] entradas_compacta [OF c] by auto
qed

text \<open>
  The common part of \<open>create\<close> and \<open>mkdir\<close>: a new inode, adjusted in place by \<open>f\<close>, then
  its entry in the parent.
\<close>

lemma crear_agregar_exito:
  assumes inv: "fs_inv sb" and p: "cstring p" "length p < MAX_PATH" "ruta_absoluta p"
    and libre: "buscar_inodo p sb < 0" and padre: "obtener_dir_padre p sb = Inr (d, n)"
    and fresh: "n \<notin> set (entradas_de (inodos sb d))"
    and hay: "i0 < MAX_INODES" "bitmap_inodes sb i0 = LIBRE"
    and tipo: "tipo = DIR_T \<or> tipo = REG_T"
    and f: "\<And>r. inumero (f r) = inumero r" "\<And>r. tam r = 0 \<Longrightarrow> tam (f r) = 0"
      "\<And>r. content (f r) = content r" "\<And>r. path (f r) = path r" "\<And>r. nombre (f r) = nombre r"
      "\<And>r. directory_path (f r) = directory_path r" "\<And>r. tipo_archivo (f r) = tipo_archivo r"
  shows "\<exists>i r sb1 ok sb3. crear_inodo e sb p tipo = (int i, sb1)
    \<and> agregar_entrada_directorio (con_inodo i f sb1) d i = (ok, sb3) \<and> fs_inv sb3
    \<and> inodos sb3 i = f r \<and> \<not> ocupado sb i \<and> i < MAX_INODES \<and> i \<noteq> d \<and> i \<noteq> 0
    \<and> bitmap_inodes sb3 = (bitmap_inodes sb)(i := OCUPADO) \<and> mismos_salvo {d, i} sb sb3
    \<and> inumero r = int i \<and> path r = p \<and> tam r = 0 \<and> tipo_archivo r = tipo \<and> link_num r = 1
    \<and> id_user r = euid e \<and> id_gid r = egid e \<and> fecha_de_creacion r = reloj e 0
    \<and> fecha_de_modificacion r = reloj e 0 \<and> fecha_de_acceso r = reloj e 0
    \<and> (\<forall>j<MAX_CONTENT. content r j = CHR 0x00)
    \<and> (if length (entradas_de (inodos sb d)) < 15
       then ok = 0 \<and> entradas_de (inodos sb3 d) = entradas_de (inodos sb d) @ [n]
         \<and> (\<exists>c. inodos sb3 d = inodos sb d\<lparr>content := c, tam := tam (inodos sb d) + 260\<rparr>)
       else ok = - 1 \<and> inodos sb3 d = inodos sb d)"
proof -
  note d = obtener_dir_padre_Inr [OF padre]
  have be: "buscar_entrada_en_directorio sb d n < 0"
    using fresh buscar_entrada_lista [OF inv d(1,4)] by blast
  obtain idx sb1 where cr: "crear_inodo e sb p tipo = (idx, sb1)" by fastforce
  then obtain i r where r: "idx = int i" "i < MAX_INODES" "bitmap_inodes sb i = LIBRE"
      "sb1 = nuevo_inodo i r sb" "inumero r = int i" "tam r = 0" "tipo_archivo r = tipo"
      "path r = take (MAX_PATH - 1) p" "(directory_path r, nombre r) = separar_path p"
      "link_num r = 1" "id_user r = euid e" "id_gid r = egid e"
      "fecha_de_creacion r = reloj e 0" "fecha_de_modificacion r = reloj e 0"
      "fecha_de_acceso r = reloj e 0"
      "content r = (\<lambda>j. if j < MAX_CONTENT then CHR 0x00 else content (inodos sb i) j)"
    using hay by (cases rule: crear_inodo_cases) auto
  have pr: "path r = p" using r(8) p(2) by simp
  have nm: "nombre r = n" using r(9) d(3) by (metis snd_conv)
  define sb2 where "sb2 = con_inodo i f sb1"
  have eq: "sb2 = nuevo_inodo i (f r) sb" using r(2,4) by (simp add: sb2_def)
  have st: "fs_inv sb2" "fs_inv (snd (agregar_entrada_directorio sb2 d i))" "ocupado sb2 i"
      "i \<noteq> d" "i \<noteq> 0"
    unfolding sb2_def
    using libre tipo fs_inv_crear [OF inv p _ padre be cr [unfolded r(1)], where f = f] f
    by (simp_all add: buscar_inodo_neg)
  obtain ok sb3 where ag: "agregar_entrada_directorio sb2 d i = (ok, sb3)" by fastforce
  have same: "inodos sb2 d = inodos sb d" "ocupado sb2 d" "nombre (inodos sb2 i) = n"
      "inumero (inodos sb2 i) = int i"
    using st(4) r(2,5) d(1) nm by (auto simp: eq f)
  have n: "cstring n" "length n < MAX_PATH"
    using d(3) p(1) separar_path_cstring length_separar_nombre by auto
  have agr: "if length (entradas_de (inodos sb d)) < 15
    then ok = 0 \<and> bitmap_inodes sb3 = bitmap_inodes sb2 \<and> mismos_salvo {d} sb2 sb3
      \<and> path (inodos sb3 d) = path (inodos sb d) \<and> tipo_archivo (inodos sb3 d) = DIR_T
      \<and> (\<exists>c. inodos sb3 d = inodos sb d\<lparr>content := c, tam := tam (inodos sb d) + 260\<rparr>)
      \<and> entradas_de (inodos sb3 d) = entradas_de (inodos sb d) @ [n]
    else ok = - 1 \<and> sb3 = sb2"
    using agregar_entradas [OF st(1) same(2) _ r(2) st(5) same(4) _ _ _ ag] d(4) n fresh
    unfolding same by blast
  have "inodos sb3 i = f r"
    using agr st(4) by (auto simp: mismos_salvo_def eq split: if_splits)
  moreover have "bitmap_inodes sb3 = (bitmap_inodes sb)(i := OCUPADO)"
    using agr by (auto simp: eq split: if_splits)
  moreover have "mismos_salvo {d, i} sb sb3"
    using agr by (auto simp: mismos_salvo_def eq split: if_splits)
  moreover have "if length (entradas_de (inodos sb d)) < 15
       then ok = 0 \<and> entradas_de (inodos sb3 d) = entradas_de (inodos sb d) @ [n]
         \<and> (\<exists>c. inodos sb3 d = inodos sb d\<lparr>content := c, tam := tam (inodos sb d) + 260\<rparr>)
       else ok = - 1 \<and> inodos sb3 d = inodos sb d"
    using agr same(1) by (simp split: if_splits)
  moreover have "fs_inv sb3" using st(2) ag by simp
  moreover have "\<forall>j<MAX_CONTENT. content r j = CHR 0x00" by (simp add: r(16))
  moreover have "agregar_entrada_directorio (con_inodo i f sb1) d i = (ok, sb3)"
    using ag by (simp add: sb2_def)
  ultimately show ?thesis
    using cr r(1,2,5-7,10-15) pr st(4,5) libre_no_ocupado [OF r(3)] by blast
qed

text \<open>What \<open>create\<close> and \<open>mkdir\<close> leave, when the parent exists, the name is new and an inode is free.\<close>

lemma create_exito:
  assumes inv: "fs_inv sb" and p: "cstring p" "length p < MAX_PATH" "ruta_absoluta p"
    and libre: "buscar_inodo p sb < 0" and padre: "obtener_dir_padre p sb = Inr (d, n)"
    and fresh: "n \<notin> set (entradas_de (inodos sb d))"
    and hay: "i0 < MAX_INODES" "bitmap_inodes sb i0 = LIBRE"
  shows "\<exists>i r sb'. fisopfs_create e p mode sb = (r, sb') \<and> \<not> ocupado sb i \<and> i < MAX_INODES \<and> i \<noteq> d
    \<and> i \<noteq> 0 \<and> bitmap_inodes sb' = (bitmap_inodes sb)(i := OCUPADO) \<and> mismos_salvo {d, i} sb sb'
    \<and> path (inodos sb' i) = p \<and> tam (inodos sb' i) = 0 \<and> permisos (inodos sb' i) = mode
    \<and> tipo_archivo (inodos sb' i) = REG_T \<and> link_num (inodos sb' i) = 1
    \<and> id_user (inodos sb' i) = euid e \<and> id_gid (inodos sb' i) = egid e
    \<and> fecha_de_creacion (inodos sb' i) = reloj e 0 \<and> fecha_de_modificacion (inodos sb' i) = reloj e 0
    \<and> fecha_de_acceso (inodos sb' i) = reloj e 0
    \<and> (if length (entradas_de (inodos sb d)) < 15
       then r = 0 \<and> entradas_de (inodos sb' d) = entradas_de (inodos sb d) @ [n]
         \<and> (\<exists>c. inodos sb' d = inodos sb d\<lparr>content := c, tam := tam (inodos sb d) + 260\<rparr>)
       else r = - ENOSPC \<and> inodos sb' d = inodos sb d)"
proof -
  note d = obtener_dir_padre_Inr [OF padre]
  have be: "\<not> 0 \<le> buscar_entrada_en_directorio sb d n"
    using fresh buscar_entrada_lista [OF inv d(1,4)] by (simp add: not_le)
  obtain i r sb1 ok sb3 where c: "crear_inodo e sb p REG_T = (int i, sb1)"
    "agregar_entrada_directorio (con_inodo i (\<lambda>r. r\<lparr>permisos := mode\<rparr>) sb1) d i = (ok, sb3)"
    "inodos sb3 i = r\<lparr>permisos := mode\<rparr>" "\<not> ocupado sb i" "i < MAX_INODES" "i \<noteq> d" "i \<noteq> 0"
    "bitmap_inodes sb3 = (bitmap_inodes sb)(i := OCUPADO)" "mismos_salvo {d, i} sb sb3"
    "inumero r = int i" "path r = p" "tam r = 0" "tipo_archivo r = REG_T" "link_num r = 1"
    "id_user r = euid e" "id_gid r = egid e" "fecha_de_creacion r = reloj e 0"
    "fecha_de_modificacion r = reloj e 0" "fecha_de_acceso r = reloj e 0"
    "if length (entradas_de (inodos sb d)) < 15
       then ok = 0 \<and> entradas_de (inodos sb3 d) = entradas_de (inodos sb d) @ [n]
         \<and> (\<exists>c. inodos sb3 d = inodos sb d\<lparr>content := c, tam := tam (inodos sb d) + 260\<rparr>)
       else ok = - 1 \<and> inodos sb3 d = inodos sb d"
    using crear_agregar_exito [OF inv p libre padre fresh hay, where tipo = REG_T
        and f = "\<lambda>r. r\<lparr>permisos := mode\<rparr>" and e = e] by auto
  have "fisopfs_create e p mode sb = (if ok < 0 then - ENOSPC else 0, sb3)"
    using padre be c(1,2) by (simp add: fisopfs_create_def Let_def)
  with c show ?thesis
    by (intro exI [of _ i] exI [of _ "if ok < 0 then - ENOSPC else 0"] exI [of _ sb3])
      (auto split: if_splits)
qed

text \<open>
  The entries of a new directory. The entry \<open>..\<close> of a directory of the root holds the
  number 0 of the root, which marks a free entry.
\<close>

lemma entradas_iniciales:
  assumes "\<And>k. k < 16 \<Longrightarrow> ent_inodo (content r) k = 0"
    and i: "i < MAX_INODES" "i \<noteq> 0" and d: "d < MAX_INODES"
  shows "entradas_de (r\<lparr>content := crear_entrada (crear_entrada (content r) 0 ''.'' i) 1 ''..'' d, tam := t\<rparr>)
    = (if d = 0 then [''.''] else [''.'', ''..''])"
proof -
  define c where "c = crear_entrada (crear_entrada (content r) 0 ''.'' i) 1 ''..'' d"
  have num: "ent_inodo c k = (if k = 1 then word_of_nat d else if k = 0 then word_of_nat i
      else ent_inodo (content r) k)" for k
    by (simp add: c_def ent_inodo_crear_entrada)
  have nom: "ent_nombre c k = (if k = 1 then ''..'' else if k = 0 then ''.''
      else ent_nombre (content r) k)" for k
    by (simp add: c_def ent_nombre_crear_entrada punto_cstring)
  have nz: "(word_of_nat i :: 32 word) \<noteq> 0" "(word_of_nat d :: 32 word) = 0 \<longleftrightarrow> d = 0"
    using i d by (simp_all add: word_nat_cero MAX_INODES_def)
  have "dir.compacta c (if d = 0 then 1 else 2)"
    using assms(1) nz by (auto simp: dir.compacta_def num)
  from entradas_compacta [of "r\<lparr>content := c, tam := t\<rparr>", simplified, OF this]
  show ?thesis
    unfolding c_def [symmetric] by (auto simp: nom numeral_2_eq_2)
qed

lemma mkdir_exito:
  assumes inv: "fs_inv sb" and p: "cstring p" "length p < MAX_PATH" "ruta_absoluta p"
    and libre: "buscar_inodo p sb < 0" and padre: "obtener_dir_padre p sb = Inr (d, n)"
    and fresh: "n \<notin> set (entradas_de (inodos sb d))"
    and hay: "i0 < MAX_INODES" "bitmap_inodes sb i0 = LIBRE"
  shows "\<exists>i r sb'. fisopfs_mkdir e p mode sb = (r, sb') \<and> \<not> ocupado sb i \<and> i < MAX_INODES \<and> i \<noteq> d
    \<and> i \<noteq> 0 \<and> bitmap_inodes sb' = (bitmap_inodes sb)(i := OCUPADO) \<and> mismos_salvo {d, i} sb sb'
    \<and> path (inodos sb' i) = p \<and> tipo_archivo (inodos sb' i) = DIR_T \<and> permisos (inodos sb' i) = mode
    \<and> link_num (inodos sb' i) = 2
    \<and> (if length (entradas_de (inodos sb d)) < 15
       then r = 0 \<and> entradas_de (inodos sb' d) = entradas_de (inodos sb d) @ [n]
         \<and> (\<exists>c. inodos sb' d = inodos sb d\<lparr>content := c, tam := tam (inodos sb d) + 260\<rparr>)
         \<and> tam (inodos sb' i) = 520
         \<and> entradas_de (inodos sb' i) = (if d = 0 then [''.''] else [''.'', ''..''])
       else r = - 1 \<and> inodos sb' d = inodos sb d)"
proof -
  note d = obtener_dir_padre_Inr [OF padre]
  let ?f = "\<lambda>r. r\<lparr>permisos := mode, tam := 0, link_num := 2\<rparr>"
  have be: "\<not> 0 \<le> buscar_entrada_en_directorio sb d n"
    using fresh buscar_entrada_lista [OF inv d(1,4)] by (simp add: not_le)
  obtain i r sb1 ok sb3 where c: "crear_inodo e sb p DIR_T = (int i, sb1)"
    "agregar_entrada_directorio (con_inodo i ?f sb1) d i = (ok, sb3)"
    "inodos sb3 i = ?f r" "\<not> ocupado sb i" "i < MAX_INODES" "i \<noteq> d" "i \<noteq> 0"
    "bitmap_inodes sb3 = (bitmap_inodes sb)(i := OCUPADO)" "mismos_salvo {d, i} sb sb3"
    "path r = p" "tipo_archivo r = DIR_T" "\<forall>j<MAX_CONTENT. content r j = CHR 0x00"
    "if length (entradas_de (inodos sb d)) < 15
       then ok = 0 \<and> entradas_de (inodos sb3 d) = entradas_de (inodos sb d) @ [n]
         \<and> (\<exists>c. inodos sb3 d = inodos sb d\<lparr>content := c, tam := tam (inodos sb d) + 260\<rparr>)
       else ok = - 1 \<and> inodos sb3 d = inodos sb d"
    using crear_agregar_exito [OF inv p libre padre fresh hay, where tipo = DIR_T
        and f = ?f and e = e] by auto
  have call: "fisopfs_mkdir e p mode sb = (if ok < 0 then (ok, sb3)
      else (0, inicializar_entradas_directorio sb3 i i d))"
    using padre be c(1,2) by (simp add: fisopfs_mkdir_def Let_def)
  have z: "ent_inodo (content (inodos sb3 i)) k = 0" if "k < 16" for k
    using that c(12) by (intro ent_inodo_ceros) (auto simp: c(3))
  have dm: "d < MAX_INODES" using d(1) by (simp add: ocupado_def)
  show ?thesis
  proof (cases "length (entradas_de (inodos sb d)) < 15")
    case True
    let ?sb' = "inicializar_entradas_directorio sb3 i i d"
    have "mismos_salvo {d, i} sb ?sb'"
      using c(9) by (auto simp: mismos_salvo_def inicializar_entradas_directorio_def)
    moreover have "tam (inodos ?sb' i) = 520"
      by (simp add: inicializar_entradas_directorio_def sizeof_entrada_260)
    moreover have "entradas_de (inodos ?sb' i) = (if d = 0 then [''.''] else [''.'', ''..''])"
      using entradas_iniciales [OF z c(5,7) dm] by (simp add: inicializar_entradas_directorio_def)
    moreover have "inodos ?sb' d = inodos sb3 d" using c(6)
      by (simp add: inicializar_entradas_directorio_def)
    moreover have "path (inodos ?sb' i) = p" "tipo_archivo (inodos ?sb' i) = DIR_T"
      "permisos (inodos ?sb' i) = mode" "link_num (inodos ?sb' i) = 2"
      "bitmap_inodes ?sb' = (bitmap_inodes sb)(i := OCUPADO)"
      using c(3,8,10,11) by (simp_all add: inicializar_entradas_directorio_def)
    moreover have "fisopfs_mkdir e p mode sb = (0, ?sb')" using call c(13) True by simp
    ultimately show ?thesis using c(4-7,13) True by (intro exI [of _ i] exI [of _ 0] exI [of _ ?sb']) simp
  next
    case False
    with call c show ?thesis
      by (intro exI [of _ i] exI [of _ "- 1"] exI [of _ sb3]) auto
  qed
qed

section \<open>Removing a name\<close>

text \<open>
  \<open>num_entradas\<close> is the bound the removal loop computes from the size of the directory;
  with 16 it reads one entry past the table.
\<close>

lemma quitar_lista:
  assumes "dir.compacta c m" "dir.nombres_distintos c m" "k < m" "m \<le> t" "t \<le> m + 1"
  shows "map (ent_nombre (dir.quitar c k t)) [0..<m - 1]
    = filter (\<lambda>x. x \<noteq> ent_nombre c k) (map (ent_nombre c) [0..<m])"
proof -
  have split: "[0..<m] = [0..<k] @ k # [k + 1..<m]"
    using assms(3) upt_add_eq_append [of 0 k "m - k"] upt_conv_Cons [of k m] by simp
  have dist: "\<And>j. j < m \<Longrightarrow> j \<noteq> k \<Longrightarrow> ent_nombre c j \<noteq> ent_nombre c k"
    using assms(2,3) unfolding dir.nombres_distintos_def by blast
  have "filter (\<lambda>x. x \<noteq> ent_nombre c k) (map (ent_nombre c) [0..<k]) = map (ent_nombre c) [0..<k]"
    using dist assms(3) by (intro filter_True) auto
  moreover have "filter (\<lambda>x. x \<noteq> ent_nombre c k) (map (ent_nombre c) [k + 1..<m])
      = map (ent_nombre c) [k + 1..<m]"
    using dist by (intro filter_True) auto
  ultimately have "filter (\<lambda>x. x \<noteq> ent_nombre c k) (map (ent_nombre c) [0..<m])
      = map (ent_nombre c) [0..<k] @ map (ent_nombre c) [k + 1..<m]"
    unfolding split by simp
  moreover have "map (ent_nombre (dir.quitar c k t)) [0..<m - 1]
      = map (ent_nombre c) [0..<k] @ map (ent_nombre c) [k + 1..<m]"
  proof (rule nth_equalityI)
    fix j assume "j < length (map (ent_nombre (dir.quitar c k t)) [0..<m - 1])"
    then have "j < m - 1" by simp
    with assms(3-5) show "map (ent_nombre (dir.quitar c k t)) [0..<m - 1] ! j
        = (map (ent_nombre c) [0..<k] @ map (ent_nombre c) [k + 1..<m]) ! j"
      by (auto simp: dir.nom_quitar nth_append)
  qed (use assms(3) in simp)
  ultimately show ?thesis by simp
qed

lemma eliminar_entradas:
  assumes inv: "fs_inv sb" and d: "ocupado sb d" "tipo_archivo (inodos sb d) = DIR_T"
    and cabe: "s \<in> set (entradas_de (inodos sb d)) \<Longrightarrow> cant_entradas (tam (inodos sb d)) < 16"
  shows "\<exists>r sb'. eliminar_entrada_directorio sb d s = Some (r, sb')
    \<and> (if s \<in> set (entradas_de (inodos sb d))
       then r = 0 \<and> entradas_de (inodos sb' d) = filter (\<lambda>x. x \<noteq> s) (entradas_de (inodos sb d))
         \<and> (\<exists>c. inodos sb' d = inodos sb d\<lparr>content := c, tam := tam (inodos sb d) - 260\<rparr>)
         \<and> mismos_salvo {d} sb sb' \<and> bitmap_inodes sb' = bitmap_inodes sb
       else r = - 1 \<and> sb' = sb)"
proof -
  let ?c = "content (inodos sb d)"
  obtain m t where c: "dir.compacta ?c m" "dir.nombres_distintos ?c m"
      "tam (inodos sb d) = word_of_nat (260 * t)" "t = m \<or> t = m + 1" "m \<le> 15"
    using fs_inv_dir [OF inv d] by (rule dir_okE)
  have t: "t < 16" if "s \<in> set (entradas_de (inodos sb d))" using cabe [OF that] c(3-5) cant_entradas_mult [of t] by auto
  have es: "set (entradas_de (inodos sb d)) = ent_nombre ?c ` {..<m}"
    by (simp add: entradas_compacta [OF c(1)] atLeast0LessThan)
  show ?thesis
    using c(1,3,4)
  proof (cases rule: eliminar_cases [where s = s])
    case no
    then have "s \<notin> set (entradas_de (inodos sb d))" by (auto simp: es)
    with no show ?thesis by simp
  next
    case fuera
    then have "s \<in> set (entradas_de (inodos sb d))" by (auto simp: es)
    with t fuera show ?thesis by simp
  next
    case (si k)
    have mt: "m \<le> t" "t \<le> m + 1" using c(4) by auto
    have "s \<in> set (entradas_de (inodos sb d))" using si(1,2) by (auto simp: es)
    moreover have "entradas_de (inodos sb d\<lparr>content := dir.quitar ?c k t, tam := word_of_nat (260 * (t - 1))\<rparr>)
        = filter (\<lambda>x. x \<noteq> s) (entradas_de (inodos sb d))"
      using entradas_compacta [of "inodos sb d\<lparr>content := dir.quitar ?c k t, tam := word_of_nat (260 * (t - 1))\<rparr>" "m - 1"]
        dir.compacta_quitar [OF c(1) si(1) mt si(3)] quitar_lista [OF c(1,2) si(1) mt] si(2)
      by (simp add: entradas_compacta [OF c(1)])
    moreover have "(word_of_nat (260 * t) :: 64 word) - 260 = word_of_nat (260 * (t - 1))"
      using si(1) mt by (cases t) (simp_all add: algebra_simps)
    ultimately show ?thesis
      using si(4) c(3) by (auto simp: mismos_salvo_def)
  qed
qed

text \<open>A size that counts sixteen entries makes the removal read past \<open>content\<close>.\<close>

lemma eliminar_llena:
  assumes inv: "fs_inv sb" and d: "ocupado sb d" "tipo_archivo (inodos sb d) = DIR_T"
  shows "cant_entradas (tam (inodos sb d)) \<le> 16"
    "cant_entradas (tam (inodos sb d)) = 16 \<Longrightarrow> s \<in> set (entradas_de (inodos sb d))
      \<Longrightarrow> eliminar_entrada_directorio sb d s = None"
proof -
  obtain m t where c: "dir.compacta (content (inodos sb d)) m"
      "tam (inodos sb d) = word_of_nat (260 * t)" "t = m \<or> t = m + 1" "m \<le> 15"
    using fs_inv_dir [OF inv d] by (rule dir_okE)
  have t: "cant_entradas (tam (inodos sb d)) = t" unfolding c(2) using c(3,4) by (intro cant_entradas_mult) auto
  with c(3,4) show "cant_entradas (tam (inodos sb d)) \<le> 16" by auto
  assume a: "cant_entradas (tam (inodos sb d)) = 16" "s \<in> set (entradas_de (inodos sb d))"
  show "eliminar_entrada_directorio sb d s = None"
    using c(1-3)
  proof (cases rule: eliminar_cases [where s = s])
    case no
    with a(2) show ?thesis by (auto simp: entradas_compacta [OF c(1)])
  next
    case (si k)
    with a(1) t show ?thesis by simp
  qed
qed

text \<open>What \<open>unlink\<close> of a regular file leaves.\<close>

lemma unlink_exito:
  assumes inv: "fs_inv sb" and i: "buscar_inodo p sb = int i" "tipo_archivo (inodos sb i) = REG_T"
    and padre: "obtener_dir_padre p sb = Inr (d, n)"
    and cabe: "n \<in> set (entradas_de (inodos sb d)) \<Longrightarrow> cant_entradas (tam (inodos sb d)) < 16"
  shows "\<exists>sb'. fisopfs_unlink p sb = Some (0, sb') \<and> i \<noteq> d
    \<and> bitmap_inodes sb' = (bitmap_inodes sb)(i := LIBRE) \<and> mismos_salvo {d, i} sb sb'
    \<and> entradas_de (inodos sb' d) = filter (\<lambda>x. x \<noteq> n) (entradas_de (inodos sb d))
    \<and> (if n \<in> set (entradas_de (inodos sb d))
       then \<exists>c. inodos sb' d = inodos sb d\<lparr>content := c, tam := tam (inodos sb d) - 260\<rparr>
       else inodos sb' d = inodos sb d)"
proof -
  note d = obtener_dir_padre_Inr [OF padre]
  have ne: "i \<noteq> d" using i(2) d(4) by auto
  obtain r sb1 where el: "eliminar_entrada_directorio sb d n = Some (r, sb1)"
    "if n \<in> set (entradas_de (inodos sb d))
       then r = 0 \<and> entradas_de (inodos sb1 d) = filter (\<lambda>x. x \<noteq> n) (entradas_de (inodos sb d))
         \<and> (\<exists>c. inodos sb1 d = inodos sb d\<lparr>content := c, tam := tam (inodos sb d) - 260\<rparr>)
         \<and> mismos_salvo {d} sb sb1 \<and> bitmap_inodes sb1 = bitmap_inodes sb
       else r = - 1 \<and> sb1 = sb"
    using eliminar_entradas [OF inv d(1,4) cabe, of n] by blast
  have "fisopfs_unlink p sb = Some (0, liberar_inodo i sb1)"
    using padre i ne by (simp add: fisopfs_unlink_def Let_def eliminar_liberar el(1))
  moreover have "bitmap_inodes (liberar_inodo i sb1) = (bitmap_inodes sb)(i := LIBRE)"
    using el(2) by (auto split: if_splits)
  moreover have "mismos_salvo {d, i} sb (liberar_inodo i sb1)"
    using el(2) by (auto simp: mismos_salvo_def split: if_splits)
  moreover have "entradas_de (inodos sb1 d) = filter (\<lambda>x. x \<noteq> n) (entradas_de (inodos sb d))"
    using el(2) by (auto intro!: filter_True [symmetric] split: if_splits)
  ultimately show ?thesis
    using ne el(2) by (intro exI [of _ "liberar_inodo i sb1"]) (auto split: if_splits)
qed

lemma rmdir_exito:
  assumes inv: "fs_inv sb" and p: "p \<noteq> ''/''"
    and i: "buscar_inodo p sb = int i" "tipo_archivo (inodos sb i) = DIR_T"
    and padre: "obtener_dir_padre p sb = Inr (d, n)"
    and cabe: "n \<in> set (entradas_de (inodos sb d)) \<Longrightarrow> cant_entradas (tam (inodos sb d)) < 16"
  shows "\<exists>r sb'. fisopfs_rmdir p sb = Some (r, sb') \<and>
    (if \<not> set (entradas_de (inodos sb i)) \<subseteq> {''.'', ''..''} then r = - ENOTEMPTY \<and> sb' = sb
     else if n \<notin> set (entradas_de (inodos sb d)) then r = - EIO \<and> sb' = sb
     else r = 0 \<and> i \<noteq> d \<and> i \<noteq> 0 \<and> bitmap_inodes sb' = (bitmap_inodes sb)(i := LIBRE)
       \<and> mismos_salvo {d, i} sb sb'
       \<and> entradas_de (inodos sb' d) = filter (\<lambda>x. x \<noteq> n) (entradas_de (inodos sb d))
       \<and> (\<exists>c. inodos sb' d = inodos sb d\<lparr>content := c, tam := tam (inodos sb d) - 260\<rparr>))"
proof -
  note d = obtener_dir_padre_Inr [OF padre]
  have oc: "ocupado sb i" "path (inodos sb i) = p" using i(1) buscar_inodoD [of p sb] by auto
  have ne: "i \<noteq> d" using d(2) oc(2) separar_path_distinto [of p] p by auto
  have i0: "i \<noteq> 0"
    using fs_invD(1) [OF inv] oc(2) p by (cases "i = 0") (auto simp: raiz_ok_def ROOT_PATH_def)
  have vacio: "directorio_esta_vacio (inodos sb i) \<longleftrightarrow> set (entradas_de (inodos sb i)) \<subseteq> {''.'', ''..''}"
    unfolding directorio_esta_vacio_def primer_indice_None entradas_de_def MAX_DIR_ENTRIES_15 by auto
  obtain r sb1 where el: "eliminar_entrada_directorio sb d n = Some (r, sb1)"
    "if n \<in> set (entradas_de (inodos sb d))
       then r = 0 \<and> entradas_de (inodos sb1 d) = filter (\<lambda>x. x \<noteq> n) (entradas_de (inodos sb d))
         \<and> (\<exists>c. inodos sb1 d = inodos sb d\<lparr>content := c, tam := tam (inodos sb d) - 260\<rparr>)
         \<and> mismos_salvo {d} sb sb1 \<and> bitmap_inodes sb1 = bitmap_inodes sb
       else r = - 1 \<and> sb1 = sb"
    using eliminar_entradas [OF inv d(1,4) cabe, of n] by blast
  have call: "fisopfs_rmdir p sb =
      (if \<not> set (entradas_de (inodos sb i)) \<subseteq> {''.'', ''..''} then Some (- ENOTEMPTY, sb)
       else if r < 0 then Some (- EIO, sb1) else Some (0, liberar_inodo i sb1))"
    using p i padre el(1) by (simp add: fisopfs_rmdir_def Let_def vacio)
  have "bitmap_inodes (liberar_inodo i sb1) = (bitmap_inodes sb1)(i := LIBRE)" by auto
  moreover have "mismos_salvo {d} sb sb1 \<Longrightarrow> mismos_salvo {d, i} sb (liberar_inodo i sb1)"
    by (auto simp: mismos_salvo_def)
  ultimately show ?thesis
    using call el(2) ne i0 by (cases "n \<in> set (entradas_de (inodos sb d))") auto
qed

section \<open>The tree a user sees\<close>

text \<open>
  The abstract state: what every path leads to. A regular file is its bytes, a directory
  the list of its names.
\<close>

datatype nodo = Fichero string | Directorio "string list"

definition nodo_de :: "inodo \<Rightarrow> nodo" where
  "nodo_de r = (if tipo_archivo r = REG_T then Fichero (datos r) else Directorio (entradas_de r))"

definition vista :: "superbloque \<Rightarrow> string \<rightharpoonup> nodo" where
  "vista sb p = (let i = buscar_inodo p sb in
     if i < 0 then None else Some (nodo_de (inodos sb (nat i))))"

lemma vista_None: "vista sb p = None \<longleftrightarrow> buscar_inodo p sb < 0"
  by (simp add: vista_def Let_def)

lemma vista_ocupado:
  "caminos_unicos sb \<Longrightarrow> ocupado sb i \<Longrightarrow> path (inodos sb i) = p \<Longrightarrow> vista sb p = Some (nodo_de (inodos sb i))"
  using buscar_inodo_unico [of sb i] by (simp add: vista_def Let_def)

lemma vistaE:
  assumes "vista sb p = Some x"
  obtains i where "buscar_inodo p sb = int i" "ocupado sb i" "path (inodos sb i) = p"
    "nodo_de (inodos sb i) = x"
proof (cases rule: buscar_inodo_cases [of p sb])
  case no
  with assms show thesis by (simp add: vista_def)
next
  case (si i)
  with assms that [of i] show thesis by (simp add: vista_def)
qed

lemma nodo_de_eq:
  "nodo_de r = Fichero xs \<longleftrightarrow> tipo_archivo r = REG_T \<and> datos r = xs"
  "nodo_de r = Directorio ns \<longleftrightarrow> tipo_archivo r \<noteq> REG_T \<and> entradas_de r = ns"
  by (auto simp: nodo_de_def)

text \<open>Paths whose inode is untouched keep what they lead to.\<close>

lemma vista_igual:
  assumes "caminos_unicos sb" "caminos_unicos sb'" "mismos_salvo I sb sb'"
    and "\<And>j. j \<notin> I \<Longrightarrow> ocupado sb' j = ocupado sb j"
    and "\<And>j. j \<in> I \<Longrightarrow> ocupado sb j \<Longrightarrow> path (inodos sb j) \<noteq> q"
    and "\<And>j. j \<in> I \<Longrightarrow> ocupado sb' j \<Longrightarrow> path (inodos sb' j) \<noteq> q"
  shows "vista sb' q = vista sb q"
proof (cases "\<exists>j. ocupado sb j \<and> path (inodos sb j) = q")
  case True
  then obtain j where j: "ocupado sb j" "path (inodos sb j) = q" by blast
  with assms(5) have I: "j \<notin> I" by blast
  then have "inodos sb' j = inodos sb j" "ocupado sb' j"
    using assms(3,4) j(1) by (auto simp: mismos_salvo_def)
  with vista_ocupado [OF assms(1) j] vista_ocupado [OF assms(2), of j q] j(2) show ?thesis by simp
next
  case False
  then have "buscar_inodo q sb < 0" by (auto simp: buscar_inodo_neg)
  moreover have "buscar_inodo q sb' < 0"
    using False assms(3,4,6) unfolding buscar_inodo_neg mismos_salvo_def by metis
  ultimately show ?thesis by (simp add: vista_def)
qed

lemma vista_de_inodo:
  assumes "fs_inv sb" "fs_inv sb'" "buscar_inodo p sb = int i" "mismos_salvo {i} sb sb'"
    and "bitmap_inodes sb' = bitmap_inodes sb" "path (inodos sb' i) = p"
  shows "vista sb' = (vista sb)(p \<mapsto> nodo_de (inodos sb' i))"
proof
  fix q
  have oc: "ocupado sb i" "path (inodos sb i) = p" using assms(3) buscar_inodoD [of p sb] by auto
  have same: "ocupado sb' j = ocupado sb j" for j by (simp add: ocupado_def assms(5))
  note u = fs_invD(2) [OF assms(1)] fs_invD(2) [OF assms(2)]
  show "vista sb' q = ((vista sb)(p \<mapsto> nodo_de (inodos sb' i))) q"
  proof (cases "q = p")
    case True
    with vista_ocupado [OF u(2), of i p] oc same assms(6) show ?thesis by simp
  next
    case False
    with vista_igual [OF u assms(4) same, of q] oc(2) assms(6) show ?thesis by auto
  qed
qed

lemma vista_con_padre:
  assumes inv: "fs_inv sb" "fs_inv sb'" and d: "ocupado sb d" "tipo_archivo (inodos sb d) = DIR_T"
    and m: "mismos_salvo {d, i} sb sb'" and id: "i \<noteq> d"
    and pd: "path (inodos sb' d) = path (inodos sb d)" "tipo_archivo (inodos sb' d) = DIR_T"
    and b: "\<And>j. j \<noteq> i \<Longrightarrow> bitmap_inodes sb' j = bitmap_inodes sb j"
    and pi: "ocupado sb i \<Longrightarrow> path (inodos sb i) = p" "ocupado sb' i \<Longrightarrow> path (inodos sb' i) = p"
    and io: "ocupado sb i \<or> ocupado sb' i"
  shows "vista sb' = (vista sb)(p := (if ocupado sb' i then Some (nodo_de (inodos sb' i)) else None),
    path (inodos sb d) \<mapsto> Directorio (entradas_de (inodos sb' d)))"
proof
  fix q
  have same: "ocupado sb' j = ocupado sb j" if "j \<noteq> i" for j using b that by (simp add: ocupado_def)
  note u = fs_invD(2) [OF inv(1)] fs_invD(2) [OF inv(2)]
  have od: "ocupado sb' d" using same id d(1) by simp
  have ne: "p \<noteq> path (inodos sb d)"
    using io
  proof
    assume "ocupado sb i"
    with pi(1) caminos_unicosD [OF u(1) this d(1)] id show ?thesis by auto
  next
    assume "ocupado sb' i"
    with pi(2) caminos_unicosD [OF u(2) this od] id pd(1) show ?thesis by auto
  qed
  consider "q = path (inodos sb d)" | "q = p" "q \<noteq> path (inodos sb d)"
    | "q \<noteq> p" "q \<noteq> path (inodos sb d)" by blast
  then show "vista sb' q = ((vista sb)(p := (if ocupado sb' i then Some (nodo_de (inodos sb' i)) else None),
    path (inodos sb d) \<mapsto> Directorio (entradas_de (inodos sb' d)))) q"
  proof cases
    case 1
    with vista_ocupado [OF u(2) od] pd show ?thesis by (simp add: nodo_de_def)
  next
    case 2
    show ?thesis
    proof (cases "ocupado sb' i")
      case True
      with vista_ocupado [OF u(2) True pi(2)] 2 show ?thesis by simp
    next
      case False
      have "path (inodos sb' j) \<noteq> p" if j: "ocupado sb' j" for j
      proof
        assume pj: "path (inodos sb' j) = p"
        from j False have ji: "j \<noteq> i" by auto
        have jd: "j \<noteq> d" using pj pd(1) ne by auto
        have "ocupado sb j" "inodos sb j = inodos sb' j"
          using same [OF ji] j m ji jd by (auto simp: mismos_salvo_def)
        with caminos_unicosD [OF u(1) this(1), of i] pi(1) io False pj ji show False by auto
      qed
      then show ?thesis using 2 False by (simp add: vista_None buscar_inodo_neg)
    qed
  next
    case 3
    have "vista sb' q = vista sb q"
      using 3 same pi pd(1) by (intro vista_igual [OF u m]) auto
    with 3 show ?thesis by simp
  qed
qed

end
