(* ===== verification/Fs_Claims.thy ===== *)
theory Fs_Claims
  imports Fs_Names
begin

text \<open>
  The properties of the file system: what each callback does to the tree a user sees
  (\<open>vista\<close>), memory safety in every reachable state, and the cases the code does not
  guard. The two example states are a freshly formatted file system and the same one
  with a regular file \<open>/a\<close>.
\<close>

section \<open>Example states\<close>

definition e_ej :: entorno where
  "e_ej = \<lparr>euid = 1000, egid = 1000, reloj = (\<lambda>k. 5)\<rparr>"

definition sb_ej0 :: superbloque where
  "sb_ej0 = inicializar_filesystem e_ej \<lparr>inodos = (\<lambda>_. inodo_cero), bitmap_inodes = (\<lambda>_. 0)\<rparr>"

definition sb_ej1 :: superbloque where
  "sb_ej1 = snd (fisopfs_create e_ej ''/a'' 0x1A4 sb_ej0)"

lemma ej0_inv: "fs_inv sb_ej0"
  by (simp add: sb_ej0_def fs_inv_inicial)

lemma ej0_alcanzable: "fs_alcanzable sb_ej0"
  by (simp add: sb_ej0_def fs_alcanzable.montar)

lemma ej_a: "cstring ''/a''" "length ''/a'' < MAX_PATH" "ruta_absoluta ''/a''"
  "separar_path ''/a'' = (''/'', ''a'')"
  by (simp_all add: cstring_def MAX_PATH_def ruta_absoluta_def separar_path_def strrchr_def ROOT_PATH_def)

lemma ej0_buscar: "buscar_inodo ''/'' sb_ej0 = 0" "buscar_inodo ''/a'' sb_ej0 < 0"
  using buscar_inodo_unico [OF fs_invD(2) [OF ej0_inv], of 0]
  by (simp_all add: buscar_inodo_neg sb_ej0_def ocupado_inicial inodo_inicial ROOT_PATH_def)

lemma ej0_raiz: "tipo_archivo (inodos sb_ej0 0) = DIR_T" "entradas_de (inodos sb_ej0 0) = []"
  "bitmap_inodes sb_ej0 1 = LIBRE" "tam (inodos sb_ej0 0) = 0" "content (inodos sb_ej0 0) k = CHR 0x00"
  by (simp_all add: sb_ej0_def inodo_inicial entradas_de_def ent_inodo_cero)
    (simp add: inicializar_filesystem_def inicializar_inodos_def Let_def MAX_INODES_def)

lemma ej0_padre: "obtener_dir_padre ''/a'' sb_ej0 = Inr (0, ''a'')"
  by (simp add: obtener_dir_padre_def ej_a(4) ej0_buscar ej0_raiz Let_def)

lemma ej1_estado:
  "fisopfs_create e_ej ''/a'' 0x1A4 sb_ej0 = (0, sb_ej1)"
  "\<exists>i. buscar_inodo ''/a'' sb_ej1 = int i \<and> tipo_archivo (inodos sb_ej1 i) = REG_T \<and> tam (inodos sb_ej1 i) = 0"
  "entradas_de (inodos sb_ej1 0) = [''a'']" "buscar_inodo ''/'' sb_ej1 = 0"
  "tipo_archivo (inodos sb_ej1 0) = DIR_T" "tam (inodos sb_ej1 0) = 260" "fs_inv sb_ej1"
proof -
  obtain i r sb' where c: "fisopfs_create e_ej ''/a'' 0x1A4 sb_ej0 = (r, sb')" "i < MAX_INODES" "i \<noteq> 0"
    "bitmap_inodes sb' = (bitmap_inodes sb_ej0)(i := OCUPADO)" "path (inodos sb' i) = ''/a''"
    "tam (inodos sb' i) = 0" "tipo_archivo (inodos sb' i) = REG_T" "r = 0"
    "entradas_de (inodos sb' 0) = [''a'']"
    "\<exists>c. inodos sb' 0 = inodos sb_ej0 0\<lparr>content := c, tam := 260\<rparr>"
    using create_exito [OF ej0_inv ej_a(1-3) ej0_buscar(2) ej0_padre _ _ ej0_raiz(3), where e = e_ej and mode = "0x1A4"]
    by (auto simp: ej0_raiz MAX_INODES_def)
  have sb': "sb' = sb_ej1" using c(1) by (simp add: sb_ej1_def)
  show inv: "fs_inv sb_ej1"
    unfolding sb_ej1_def by (rule fisopfs_create_inv [OF ej0_inv ej_a(1-3) ej0_buscar(2)])
  have oc: "ocupado sb_ej1 i" "ocupado sb_ej1 0"
    using c(2-4) fs_invD(1) [OF ej0_inv] by (auto simp: ocupado_def raiz_ok_def simp flip: sb')
  show "fisopfs_create e_ej ''/a'' 0x1A4 sb_ej0 = (0, sb_ej1)" using c(1,8) sb' by simp
  show "\<exists>i. buscar_inodo ''/a'' sb_ej1 = int i \<and> tipo_archivo (inodos sb_ej1 i) = REG_T \<and> tam (inodos sb_ej1 i) = 0"
    using buscar_inodo_unico [OF fs_invD(2) [OF inv] oc(1)] c(5-7) by (auto simp: sb')
  show "entradas_de (inodos sb_ej1 0) = [''a'']" using c(9) sb' by simp
  show "tipo_archivo (inodos sb_ej1 0) = DIR_T" "tam (inodos sb_ej1 0) = 260"
    using c(10) ej0_raiz(1) by (auto simp flip: sb')
  have "path (inodos sb_ej1 0) = ''/''"
    using fs_invD(1) [OF inv] by (simp add: raiz_ok_def ROOT_PATH_def)
  then show "buscar_inodo ''/'' sb_ej1 = 0"
    using buscar_inodo_unico [OF fs_invD(2) [OF inv] oc(2)] by simp
qed

lemma ej1_padre: "obtener_dir_padre ''/a'' sb_ej1 = Inr (0, ''a'')"
  by (simp add: obtener_dir_padre_def ej_a(4) ej1_estado Let_def)

lemma ej1_alcanzable: "fs_alcanzable sb_ej1"
  using fs_alcanzable.llamada [OF ej0_alcanzable, of "Create ''/a'' 0x1A4" e_ej] ej1_estado(1) ej_a ej0_buscar(2)
  by simp

lemma ej1_vista: "vista sb_ej1 ''/a'' = Some (Fichero [])" "vista sb_ej1 ''/'' = Some (Directorio [''a''])"
proof -
  obtain i where "buscar_inodo ''/a'' sb_ej1 = int i" "tipo_archivo (inodos sb_ej1 i) = REG_T"
    "tam (inodos sb_ej1 i) = 0" using ej1_estado(2) by blast
  then show "vista sb_ej1 ''/a'' = Some (Fichero [])"
    by (simp add: vista_def nodo_de_def datos_def)
qed (simp add: vista_def nodo_de_def ej1_estado)

section \<open>Every reachable state\<close>

text \<open>
  C1: from a formatted disk, after any sequence of callbacks and remounts in which the paths
  of new files fit in the 256 bytes of the \<open>path\<close> field and the rest is what the kernel
  ensures (\<open>create\<close> and \<open>mkdir\<close> follow a lookup that failed, \<open>truncate\<close> has no negative
  length), the table is well formed: paths identify inodes, the root is a directory,
  directories are compact tables of distinct names, every entry leads to an occupied inode
  with that name in that directory, and the bytes of a file past its size are zero. The
  code does not check the length of a path, and a longer one breaks this.
\<close>

theorem alcanzable_invariante: "fs_alcanzable sb \<Longrightarrow> fs_inv sb"
  by (rule fs_alcanzable_inv)

lemma alcanzable_invariante_witness: "fs_inv sb_ej1"
  by (rule alcanzable_invariante [OF ej1_alcanzable])

section \<open>The callbacks on the tree\<close>

lemma vista_cases:
  obtains "vista sb p = None" | xs where "vista sb p = Some (Fichero xs)" | ns where "vista sb p = Some (Directorio ns)"
  by (metis nodo.exhaust option.exhaust)

lemma vista_fichero:
  assumes "vista sb p = Some (Fichero xs)"
  obtains i where "buscar_inodo p sb = int i" "tipo_archivo (inodos sb i) = REG_T"
    "datos (inodos sb i) = xs" "ocupado sb i" "path (inodos sb i) = p"
  using assms by (elim vistaE) (auto simp: nodo_de_eq)

lemma vista_directorio:
  assumes "fs_inv sb" "vista sb p = Some (Directorio ns)"
  obtains i where "buscar_inodo p sb = int i" "tipo_archivo (inodos sb i) = DIR_T"
    "entradas_de (inodos sb i) = ns" "ocupado sb i" "path (inodos sb i) = p"
proof -
  obtain i where i: "buscar_inodo p sb = int i" "ocupado sb i" "path (inodos sb i) = p"
    "nodo_de (inodos sb i) = Directorio ns" using assms(2) by (rule vistaE)
  with inodo_tipo [OF assms(1) i(2)] that [of i] show thesis by (auto simp: nodo_de_eq)
qed

lemma vista_read:
  assumes inv: "fs_inv sb" and f: "vista sb p = Some (Fichero xs)" and nw: "unat off + unat n < 2 ^ 64"
  shows "\<exists>sb'. fisopfs_read e p n off sb
      = Some (int (length (take (unat n) (drop (unat off) xs))), take (unat n) (drop (unat off) xs), sb')
    \<and> vista sb' = vista sb \<and> fs_inv sb'"
proof -
  from f obtain i where i: "buscar_inodo p sb = int i" "tipo_archivo (inodos sb i) = REG_T"
    "datos (inodos sb i) = xs" "ocupado sb i" "path (inodos sb i) = p" by (rule vista_fichero)
  from read_exito [OF inv i(1,2) nw, of e] i(3) obtain sb' where r:
    "fisopfs_read e p n off sb
      = Some (int (length (take (unat n) (drop (unat off) xs))), take (unat n) (drop (unat off) xs), sb')"
    "sb' = sb \<or> sb' = con_inodo i (\<lambda>r. r\<lparr>fecha_de_acceso := reloj e 0\<rparr>) sb" by auto
  note inv' = fisopfs_read_inv [OF inv r(1)]
  have "vista sb' = vista sb"
    using r(2)
  proof
    assume sb': "sb' = con_inodo i (\<lambda>r. r\<lparr>fecha_de_acceso := reloj e 0\<rparr>) sb"
    have "vista sb' = (vista sb)(p \<mapsto> nodo_de (inodos sb' i))"
      by (rule vista_de_inodo [OF inv inv' i(1)]) (simp_all add: sb' mismos_salvo_def i(5))
    moreover have "nodo_de (inodos sb' i) = Fichero xs"
      using i(2,3) by (simp add: sb' nodo_de_def datos_def)
    ultimately show ?thesis using f by (simp add: fun_upd_idem)
  qed simp
  with r(1) inv' show ?thesis by blast
qed

lemma vista_write:
  assumes inv: "fs_inv sb" and f: "vista sb p = Some (Fichero xs)"
    and fit: "unat off + length buf \<le> MAX_CONTENT"
  shows "\<exists>sb'. fisopfs_write e p buf (word_of_nat (length buf)) off sb = Some (int (length buf), sb')
    \<and> vista sb' = (vista sb)(p \<mapsto> Fichero (escribir_abs xs (unat off) buf)) \<and> fs_inv sb'"
proof -
  from f obtain i where i: "buscar_inodo p sb = int i" "tipo_archivo (inodos sb i) = REG_T"
    "datos (inodos sb i) = xs" "ocupado sb i" "path (inodos sb i) = p" by (rule vista_fichero)
  from write_exito [OF inv i(1,2) fit, of e] obtain sb' where w:
    "fisopfs_write e p buf (word_of_nat (length buf)) off sb = Some (int (length buf), sb')"
    "datos (inodos sb' i) = escribir_abs xs (unat off) buf" "mismos_salvo {i} sb sb'"
    "bitmap_inodes sb' = bitmap_inodes sb" "path (inodos sb' i) = p" "tipo_archivo (inodos sb' i) = REG_T"
    unfolding mismos_salvo_def i(3) by blast
  note inv' = fisopfs_write_inv [OF inv w(1)]
  from vista_de_inodo [OF inv inv' i(1) w(3,4,5)] w(1,2,6) inv' show ?thesis
    by (auto simp: nodo_de_def)
qed

lemma vista_truncate:
  assumes inv: "fs_inv sb" and f: "vista sb p = Some (Fichero xs)" and n: "unat n \<le> MAX_CONTENT"
  shows "\<exists>sb'. fisopfs_truncate e p n sb = Some (0, sb')
    \<and> vista sb' = (vista sb)(p \<mapsto> Fichero (truncar_abs xs (unat n))) \<and> fs_inv sb'"
proof -
  from f obtain i where i: "buscar_inodo p sb = int i" "tipo_archivo (inodos sb i) = REG_T"
    "datos (inodos sb i) = xs" "ocupado sb i" "path (inodos sb i) = p" by (rule vista_fichero)
  from truncate_exito [OF inv i(1,2) n, of e] obtain sb' where w:
    "fisopfs_truncate e p n sb = Some (0, sb')"
    "datos (inodos sb' i) = truncar_abs xs (unat n)" "mismos_salvo {i} sb sb'"
    "bitmap_inodes sb' = bitmap_inodes sb" "path (inodos sb' i) = p" "tipo_archivo (inodos sb' i) = REG_T"
    unfolding mismos_salvo_def i(3) by blast
  have inv': "fs_inv sb'"
    by (rule fisopfs_truncate_inv [OF inv _ w(1)])
      (use sint_de_unat [of n] n in \<open>simp add: MAX_CONTENT_def\<close>)
  from vista_de_inodo [OF inv inv' i(1) w(3,4,5)] w(1,2,6) inv' show ?thesis
    by (auto simp: nodo_de_def)
qed

lemma write_total:
  assumes inv: "fs_inv sb" and l: "length buf < 2 ^ 64"
  shows "case vista sb p of
      None \<Rightarrow> fisopfs_write e p buf (word_of_nat (length buf)) off sb = Some (- ENOENT, sb)
    | Some (Directorio ns) \<Rightarrow> fisopfs_write e p buf (word_of_nat (length buf)) off sb = Some (- EISDIR, sb)
    | Some (Fichero xs) \<Rightarrow>
        if unat (off + word_of_nat (length buf)) > MAX_CONTENT
        then fisopfs_write e p buf (word_of_nat (length buf)) off sb = Some (- EFBIG, sb)
        else if unat off + length buf > MAX_CONTENT
        then fisopfs_write e p buf (word_of_nat (length buf)) off sb = None
        else \<exists>sb'. fisopfs_write e p buf (word_of_nat (length buf)) off sb = Some (int (length buf), sb')
          \<and> vista sb' = (vista sb)(p \<mapsto> Fichero (escribir_abs xs (unat off) buf))"
proof -
  have sz: "unat (word_of_nat (length buf) :: 64 word) = length buf"
    using l by (simp add: unat_of_nat take_bit_nat_eq_self)
  have big: "off + word_of_nat (length buf) > word_of_nat MAX_CONTENT \<longleftrightarrow> unat (off + word_of_nat (length buf)) > MAX_CONTENT"
    by (simp add: word_less_nat_alt MAX_CONTENT_def)
  show ?thesis
  proof (cases "vista sb p")
    case None
    then have "buscar_inodo p sb < 0" by (simp add: vista_None)
    then show ?thesis by (simp add: None fisopfs_write_def)
  next
    case (Some x)
    show ?thesis
    proof (cases x)
      case (Directorio ns)
      from inv Some [unfolded Directorio] obtain i where "buscar_inodo p sb = int i" "tipo_archivo (inodos sb i) = DIR_T"
        by (rule vista_directorio)
      then show ?thesis by (simp add: Some Directorio fisopfs_write_def Let_def)
    next
      case (Fichero xs)
      note f = Some [unfolded Fichero]
      from f obtain i where i: "buscar_inodo p sb = int i" "tipo_archivo (inodos sb i) = REG_T" by (rule vista_fichero)
      show ?thesis
        using i sz big vista_write [OF inv f, of off buf e] by (auto simp: f fisopfs_write_def Let_def)
    qed
  qed
qed

text \<open>
  C3: \<open>write\<close> refines the string operation, with every outcome. In a reachable state and
  for a buffer of any length and any offset: without a file the result is \<open>-ENOENT\<close>, on a
  directory \<open>-EISDIR\<close>, and when the 64-bit sum of offset and length is past 4096 \<open>-EFBIG\<close>,
  with nothing changed. When the sum wraps around to at most 4096 the check passes and the
  copy leaves the array. Otherwise the result is the length, the file becomes the old
  string overwritten there (zeros in a gap) and nothing else in the tree changes.
\<close>

theorem write_refina:
  assumes "fs_alcanzable sb" "length buf < 2 ^ 64"
  shows "case vista sb p of
      None \<Rightarrow> fisopfs_write e p buf (word_of_nat (length buf)) off sb = Some (- ENOENT, sb)
    | Some (Directorio ns) \<Rightarrow> fisopfs_write e p buf (word_of_nat (length buf)) off sb = Some (- EISDIR, sb)
    | Some (Fichero xs) \<Rightarrow>
        if unat (off + word_of_nat (length buf)) > MAX_CONTENT
        then fisopfs_write e p buf (word_of_nat (length buf)) off sb = Some (- EFBIG, sb)
        else if unat off + length buf > MAX_CONTENT
        then fisopfs_write e p buf (word_of_nat (length buf)) off sb = None
        else \<exists>sb'. fisopfs_write e p buf (word_of_nat (length buf)) off sb = Some (int (length buf), sb')
          \<and> vista sb' = (vista sb)(p \<mapsto> Fichero (escribir_abs xs (unat off) buf))"
  using write_total [OF fs_alcanzable_inv [OF assms(1)] assms(2)] .

lemma write_refina_witness:
  "(\<exists>sb'. fisopfs_write e_ej ''/a'' ''hola'' 4 2 sb_ej1 = Some (4, sb')
      \<and> vista sb' = (vista sb_ej1)(''/a'' \<mapsto> Fichero (escribir_abs [] 2 ''hola'')))
    \<and> fisopfs_write e_ej ''/'' ''hola'' 4 2 sb_ej1 = Some (- EISDIR, sb_ej1)
    \<and> fisopfs_write e_ej ''/a'' ''hola'' 4 4093 sb_ej1 = Some (- EFBIG, sb_ej1)
    \<and> fisopfs_write e_ej ''/a'' ''hola'' 4 (- 1) sb_ej1 = None"
proof -
  have l: "length ''hola'' < 2 ^ 64" and m: "unat (- 1 :: 64 word) = 18446744073709551615"
    by (simp, simp add: unsigned_minus_1_eq_mask mask_eq_exp_minus_1)
  note w = write_refina [OF ej1_alcanzable l, where e = e_ej]
  show ?thesis
    using w [of "''/a''" 2] w [of "''/''" 2] w [of "''/a''" 4093] w [of "''/a''" "- 1"]
    by (simp add: ej1_vista MAX_CONTENT_def m)
qed

text \<open>
  C4: \<open>read\<close> returns exactly the bytes of the file between \<open>off\<close> and \<open>off + n\<close>, cut at
  the end of the file, with their number, and changes nothing in the tree, for every
  offset and length whose sum does not wrap around.
\<close>

theorem read_refina:
  assumes "fs_alcanzable sb" "vista sb p = Some (Fichero xs)" "unat off + unat n < 2 ^ 64"
  shows "\<exists>sb'. fisopfs_read e p n off sb
      = Some (int (length (take (unat n) (drop (unat off) xs))), take (unat n) (drop (unat off) xs), sb')
    \<and> vista sb' = vista sb"
  using vista_read [OF fs_alcanzable_inv [OF assms(1)] assms(2,3), of e] by blast

lemma read_refina_witness:
  "\<exists>sb'. fisopfs_read e_ej ''/a'' 10 3 sb_ej1
      = Some (int (length (take (unat (10 :: 64 word)) (drop (unat (3 :: 64 word)) ([] :: string)))),
          take (unat (10 :: 64 word)) (drop (unat (3 :: 64 word)) ([] :: string)), sb') \<and> vista sb' = vista sb_ej1"
  by (rule read_refina [OF ej1_alcanzable ej1_vista(1)]) simp

text \<open>
  \<open>truncate\<close> to at most 4096 bytes cuts the file or extends it with zeros and leaves
  the rest of the tree alone; in particular the bytes dropped by an earlier \<open>truncate\<close>
  do not come back.
\<close>

theorem truncate_refina:
  assumes "fs_alcanzable sb" "vista sb p = Some (Fichero xs)" "unat n \<le> MAX_CONTENT"
  shows "\<exists>sb'. fisopfs_truncate e p n sb = Some (0, sb')
    \<and> vista sb' = (vista sb)(p \<mapsto> Fichero (truncar_abs xs (unat n)))"
  using vista_truncate [OF fs_alcanzable_inv [OF assms(1)] assms(2,3), of e] by blast

lemma truncate_refina_witness:
  "\<exists>sb'. fisopfs_truncate e_ej ''/a'' 7 sb_ej1 = Some (0, sb')
    \<and> vista sb' = (vista sb_ej1)(''/a'' \<mapsto> Fichero (truncar_abs [] (unat (7 :: 64 word))))"
  by (rule truncate_refina [OF ej1_alcanzable ej1_vista(1)]) (simp add: MAX_CONTENT_def)

text \<open>
  C5: reading back what was written. After a successful \<open>write\<close>, \<open>read\<close> at the same
  offset and length returns the written bytes.
\<close>

theorem write_read:
  assumes "fs_alcanzable sb" "vista sb p = Some (Fichero xs)" "unat off + length buf \<le> MAX_CONTENT"
  shows "\<exists>sb1 sb2. fisopfs_write e p buf (word_of_nat (length buf)) off sb = Some (int (length buf), sb1)
    \<and> fisopfs_read e' p (word_of_nat (length buf)) off sb1 = Some (int (length buf), buf, sb2)"
proof -
  obtain sb1 where w: "fisopfs_write e p buf (word_of_nat (length buf)) off sb = Some (int (length buf), sb1)"
    "vista sb1 p = Some (Fichero (escribir_abs xs (unat off) buf))" "fs_inv sb1"
    using vista_write [OF fs_alcanzable_inv [OF assms(1)] assms(2,3), of e] by auto
  have l: "unat (word_of_nat (length buf) :: 64 word) = length buf"
    using assms(3) by (simp add: unat_of_nat take_bit_nat_eq_self MAX_CONTENT_def)
  have "unat off + unat (word_of_nat (length buf) :: 64 word) < 2 ^ 64"
    using assms(3) l by (simp add: MAX_CONTENT_def)
  from vista_read [OF w(3,2) this, of e'] w(1) show ?thesis
    by (auto simp: l take_drop_escribir)
qed

lemma write_read_witness:
  "\<exists>sb1 sb2. fisopfs_write e_ej ''/a'' ''hola'' (word_of_nat (length ''hola'')) 2 sb_ej1
      = Some (int (length ''hola''), sb1)
    \<and> fisopfs_read e_ej ''/a'' (word_of_nat (length ''hola'')) 2 sb1 = Some (int (length ''hola''), ''hola'', sb2)"
  by (rule write_read [OF ej1_alcanzable ej1_vista(1)]) (simp add: MAX_CONTENT_def)

section \<open>Names\<close>

text \<open>The parent of a new path, and the entry \<open>create\<close> and \<open>mkdir\<close> add to it.\<close>

lemma padre_de_vista:
  assumes inv: "fs_inv sb" and v: "vista sb dp = Some (Directorio ns)" and sep: "separar_path p = (dp, n)"
  obtains d where "obtener_dir_padre p sb = Inr (d, n)" "ocupado sb d" "path (inodos sb d) = dp"
    "tipo_archivo (inodos sb d) = DIR_T" "entradas_de (inodos sb d) = ns" "buscar_inodo dp sb = int d"
proof -
  obtain d where d: "buscar_inodo dp sb = int d" "tipo_archivo (inodos sb d) = DIR_T"
    "entradas_de (inodos sb d) = ns" "ocupado sb d" "path (inodos sb d) = dp"
    using inv v by (rule vista_directorio)
  then have "obtener_dir_padre p sb = Inr (d, n)"
    by (simp add: obtener_dir_padre_def sep Let_def)
  with d that show thesis by blast
qed

lemma ocupado_tras:
  assumes "bitmap_inodes sb' = (bitmap_inodes sb)(i := v)" "i < MAX_INODES"
  shows "ocupado sb' i \<longleftrightarrow> v = OCUPADO" "j \<noteq> i \<Longrightarrow> bitmap_inodes sb' j = bitmap_inodes sb j"
  using assms by (auto simp: ocupado_def)

lemma vista_create:
  assumes inv: "fs_inv sb" and p: "cstring p" "length p < MAX_PATH" "ruta_absoluta p"
    and sep: "separar_path p = (dp, n)" and np: "vista sb p = None"
    and dp: "vista sb dp = Some (Directorio ns)" "n \<notin> set ns" "length ns < 15"
    and hay: "i0 < MAX_INODES" "bitmap_inodes sb i0 = LIBRE"
  shows "\<exists>sb'. fisopfs_create e p mode sb = (0, sb')
    \<and> vista sb' = (vista sb)(p \<mapsto> Fichero [], dp \<mapsto> Directorio (ns @ [n])) \<and> fs_inv sb'
    \<and> (\<forall>st. fisopfs_getattr p st sb' = (0, st\<lparr>st_uid := euid e, st_gid := egid e, st_size := 0,
         st_atime := reloj e 0, st_mtime := reloj e 0, st_ctime := reloj e 0, st_nlink := 1,
         st_mode := S_IFREG OR mode\<rparr>))
    \<and> (\<forall>d. buscar_inodo dp sb = int d \<longrightarrow>
         buscar_inodo dp sb' = int d \<and> tam (inodos sb' d) = tam (inodos sb d) + 260)"
proof -
  obtain d where d: "obtener_dir_padre p sb = Inr (d, n)" "ocupado sb d" "path (inodos sb d) = dp"
    "tipo_archivo (inodos sb d) = DIR_T" "entradas_de (inodos sb d) = ns"
    "buscar_inodo dp sb = int d"
    using inv dp(1) sep by (rule padre_de_vista)
  have lib: "buscar_inodo p sb < 0" using np by (simp add: vista_None)
  have nn: "n \<notin> set (entradas_de (inodos sb d))" using dp(2) d(5) by simp
  from create_exito [OF inv p lib d(1) nn hay, where e = e and mode = mode] dp(3) d(5)
  obtain i sb' c where k: "fisopfs_create e p mode sb = (0, sb')" "\<not> ocupado sb i" "i < MAX_INODES"
    "i \<noteq> d" "bitmap_inodes sb' = (bitmap_inodes sb)(i := OCUPADO)" "mismos_salvo {d, i} sb sb'"
    "path (inodos sb' i) = p" "tam (inodos sb' i) = 0" "permisos (inodos sb' i) = mode"
    "tipo_archivo (inodos sb' i) = REG_T" "link_num (inodos sb' i) = 1"
    "id_user (inodos sb' i) = euid e" "id_gid (inodos sb' i) = egid e"
    "fecha_de_creacion (inodos sb' i) = reloj e 0" "fecha_de_modificacion (inodos sb' i) = reloj e 0"
    "fecha_de_acceso (inodos sb' i) = reloj e 0" "entradas_de (inodos sb' d) = ns @ [n]"
    "inodos sb' d = inodos sb d\<lparr>content := c, tam := tam (inodos sb d) + 260\<rparr>"
    by auto
  have inv': "fs_inv sb'" using fisopfs_create_inv [OF inv p lib, of e mode] k(1) by simp
  have oc: "ocupado sb' i" using ocupado_tras(1) [OF k(5,3)] by simp
  have "vista sb' = (vista sb)(p := (if ocupado sb' i then Some (nodo_de (inodos sb' i)) else None),
      path (inodos sb d) \<mapsto> Directorio (entradas_de (inodos sb' d)))"
    using k(2,7,18) d(4) oc ocupado_tras(2) [OF k(5,3)]
    by (intro vista_con_padre [OF inv inv' d(2,4) k(6,4)]) auto
  then have "vista sb' = (vista sb)(p \<mapsto> Fichero [], dp \<mapsto> Directorio (ns @ [n]))"
    using oc k(8,10,17) d(3) by (simp add: nodo_de_def datos_def)
  moreover have "buscar_inodo p sb' = int i"
    using buscar_inodo_unico [OF fs_invD(2) [OF inv'] oc] k(7) by simp
  moreover have "buscar_inodo dp sb' = int d"
    using buscar_inodo_unico [OF fs_invD(2) [OF inv'], of d] d(2,3) k(4,18) ocupado_tras(2) [OF k(5,3), of d]
    by (simp add: ocupado_def)
  ultimately show ?thesis
    using k inv' d(6) by (intro exI [of _ sb']) (simp add: fisopfs_getattr_def Let_def)
qed

text \<open>The two errors of \<open>obtener_dir_padre\<close>.\<close>

lemma padre_falta:
  assumes "separar_path p = (dp, n)"
  shows "vista sb dp = None \<Longrightarrow> obtener_dir_padre p sb = Inl (- ENOENT)"
    "vista sb dp = Some (Fichero xs) \<Longrightarrow> obtener_dir_padre p sb = Inl (- ENOTDIR)"
  using assms by (auto simp: obtener_dir_padre_def vista_None Let_def elim!: vista_fichero)

lemma vista_create_lleno:
  assumes inv: "fs_inv sb" and p: "cstring p" "length p < MAX_PATH" "ruta_absoluta p"
    and sep: "separar_path p = (dp, n)" and np: "vista sb p = None"
    and dp: "vista sb dp = Some (Directorio ns)" "n \<notin> set ns" "length ns = 15"
    and hay: "i0 < MAX_INODES" "bitmap_inodes sb i0 = LIBRE"
  shows "fst (fisopfs_create e p mode sb) = - ENOSPC
    \<and> vista (snd (fisopfs_create e p mode sb)) = (vista sb)(p \<mapsto> Fichero [])"
proof -
  obtain d where d: "obtener_dir_padre p sb = Inr (d, n)" "ocupado sb d" "path (inodos sb d) = dp"
    "tipo_archivo (inodos sb d) = DIR_T" "entradas_de (inodos sb d) = ns"
    using inv dp(1) sep by (rule padre_de_vista)
  have lib: "buscar_inodo p sb < 0" using np by (simp add: vista_None)
  have nn: "n \<notin> set (entradas_de (inodos sb d))" using dp(2) d(5) by simp
  obtain i sb' where k: "fisopfs_create e p mode sb = (- ENOSPC, sb')" "\<not> ocupado sb i" "i < MAX_INODES"
    "i \<noteq> d" "bitmap_inodes sb' = (bitmap_inodes sb)(i := OCUPADO)" "mismos_salvo {d, i} sb sb'"
    "path (inodos sb' i) = p" "tam (inodos sb' i) = 0" "tipo_archivo (inodos sb' i) = REG_T"
    "inodos sb' d = inodos sb d"
    using create_exito [OF inv p lib d(1) nn hay, where e = e and mode = mode] dp(3) d(5) by auto
  have inv': "fs_inv sb'" using fisopfs_create_inv [OF inv p lib, of e mode] k(1) by simp
  have oc: "ocupado sb' i" using ocupado_tras(1) [OF k(5,3)] by simp
  have "vista sb' = (vista sb)(p := (if ocupado sb' i then Some (nodo_de (inodos sb' i)) else None),
      path (inodos sb d) \<mapsto> Directorio (entradas_de (inodos sb' d)))"
    using k(2,7,10) d(4) oc ocupado_tras(2) [OF k(5,3)]
    by (intro vista_con_padre [OF inv inv' d(2,4) k(6,4)]) auto
  then have "vista sb' = (vista sb)(p \<mapsto> Fichero [])"
    using oc k(8,9,10) d(3,5) np dp(1) by (auto simp: nodo_de_def datos_def fun_eq_iff)
  with k(1) show ?thesis by simp
qed

lemma entradas_15:
  assumes "fs_inv sb" "ocupado sb d" "tipo_archivo (inodos sb d) = DIR_T"
  shows "length (entradas_de (inodos sb d)) \<le> 15"
proof -
  obtain m t where c: "dir.compacta (content (inodos sb d)) m" "m \<le> 15"
    using fs_inv_dir [OF assms] by (rule dir_okE)
  then show ?thesis by (simp add: entradas_compacta [OF c(1)])
qed

lemma create_total:
  assumes inv: "fs_inv sb" and p: "cstring p" "length p < MAX_PATH" "ruta_absoluta p" and sep: "separar_path p = (dp, n)"
    and np: "vista sb p = None \<or> (\<exists>ns. vista sb dp = Some (Directorio ns) \<and> n \<in> set ns)"
  shows "\<exists>r sb'. fisopfs_create e p mode sb = (r, sb') \<and>
    (case vista sb dp of
       None \<Rightarrow> r = - ENOENT \<and> sb' = sb
     | Some (Fichero xs) \<Rightarrow> r = - ENOTDIR \<and> sb' = sb
     | Some (Directorio ns) \<Rightarrow>
         if n \<in> set ns then r = - EEXIST \<and> sb' = sb
         else if \<forall>i<MAX_INODES. bitmap_inodes sb i \<noteq> LIBRE then r = - ENOSPC \<and> sb' = sb
         else if length ns = 15 then r = - ENOSPC \<and> vista sb' = (vista sb)(p \<mapsto> Fichero [])
         else r = 0 \<and> vista sb' = (vista sb)(p \<mapsto> Fichero [], dp \<mapsto> Directorio (ns @ [n]))
           \<and> (\<forall>st. fisopfs_getattr p st sb' = (0, st\<lparr>st_uid := euid e, st_gid := egid e, st_size := 0,
                st_atime := reloj e 0, st_mtime := reloj e 0, st_ctime := reloj e 0, st_nlink := 1,
                st_mode := S_IFREG OR mode\<rparr>)))"
proof -
  obtain r sb' where c: "fisopfs_create e p mode sb = (r, sb')" by fastforce
  show ?thesis
  proof (cases rule: vista_cases [of sb dp])
    case (3 ns)
    obtain d where d: "obtener_dir_padre p sb = Inr (d, n)" "ocupado sb d" "path (inodos sb d) = dp"
      "tipo_archivo (inodos sb d) = DIR_T" "entradas_de (inodos sb d) = ns"
      using inv 3 sep by (rule padre_de_vista)
    have len: "length ns \<le> 15" using entradas_15 [OF inv d(2,4)] d(5) by simp
    show ?thesis
    proof (cases "n \<in> set ns")
      case True
      then have "fisopfs_create e p mode sb = (- EEXIST, sb)"
        using d(1,5) buscar_entrada_lista [OF inv d(2,4), of n] by (simp add: fisopfs_create_def not_less)
      then show ?thesis using True by (simp add: 3)
    next
      case fresh: False
      then have np': "vista sb p = None" using np 3 by auto
      show ?thesis
      proof (cases "\<forall>i<MAX_INODES. bitmap_inodes sb i \<noteq> LIBRE")
        case True
        obtain idx sb1 where cr: "crear_inodo e sb p REG_T = (idx, sb1)" by fastforce
        then have "idx = - 1 \<and> sb1 = sb" by (cases rule: crear_inodo_cases) (use True in auto)
        then have "fisopfs_create e p mode sb = (- ENOSPC, sb)"
          using d(1,5) cr fresh buscar_entrada_lista [OF inv d(2,4), of n] by (simp add: fisopfs_create_def not_le)
        then show ?thesis using True fresh by (simp add: 3)
      next
        case False
        then obtain i0 where i0: "i0 < MAX_INODES" "bitmap_inodes sb i0 = LIBRE" by blast
        show ?thesis
        proof (cases "length ns = 15")
          case True
          with vista_create_lleno [OF inv p sep np' 3 fresh True i0, of e mode] fresh i0 True c show ?thesis by (auto simp: 3)
        next
          case l: False
          with len have "length ns < 15" by simp
          from vista_create [OF inv p sep np' 3 fresh this i0, of e mode] fresh False l show ?thesis by (auto simp: 3)
        qed
      qed
    qed
  qed (use padre_falta [OF sep] in \<open>simp_all add: fisopfs_create_def\<close>)
qed

text \<open>
  C6: \<open>create\<close>, with every outcome, in a reachable state and for a path that is not in use or
  whose name its parent lists: without the parent \<open>-ENOENT\<close>, under a regular file \<open>-ENOTDIR\<close>,
  when the parent lists the name \<open>-EEXIST\<close>, without a free inode \<open>-ENOSPC\<close>, with nothing
  changed. When the parent has no room the result is \<open>-ENOSPC\<close> too, but the path leads to
  an empty file from then on. Otherwise one empty regular file appears and its name at the
  end of the listing of its parent, no other path changes, and \<open>getattr\<close> then reports the
  mode asked for, the owner, one link and size 0.
\<close>

theorem create_refina:
  assumes "fs_alcanzable sb" "cstring p" "length p < MAX_PATH" "ruta_absoluta p" "separar_path p = (dp, n)"
    and "vista sb p = None \<or> (\<exists>ns. vista sb dp = Some (Directorio ns) \<and> n \<in> set ns)"
  shows "\<exists>r sb'. fisopfs_create e p mode sb = (r, sb') \<and>
    (case vista sb dp of
       None \<Rightarrow> r = - ENOENT \<and> sb' = sb
     | Some (Fichero xs) \<Rightarrow> r = - ENOTDIR \<and> sb' = sb
     | Some (Directorio ns) \<Rightarrow>
         if n \<in> set ns then r = - EEXIST \<and> sb' = sb
         else if \<forall>i<MAX_INODES. bitmap_inodes sb i \<noteq> LIBRE then r = - ENOSPC \<and> sb' = sb
         else if length ns = 15 then r = - ENOSPC \<and> vista sb' = (vista sb)(p \<mapsto> Fichero [])
         else r = 0 \<and> vista sb' = (vista sb)(p \<mapsto> Fichero [], dp \<mapsto> Directorio (ns @ [n]))
           \<and> (\<forall>st. fisopfs_getattr p st sb' = (0, st\<lparr>st_uid := euid e, st_gid := egid e, st_size := 0,
                st_atime := reloj e 0, st_mtime := reloj e 0, st_ctime := reloj e 0, st_nlink := 1,
                st_mode := S_IFREG OR mode\<rparr>)))"
  using create_total [OF fs_alcanzable_inv [OF assms(1)] assms(2-6), of e mode] .

lemma ej0_vista: "vista sb_ej0 ''/a'' = None" "vista sb_ej0 ''/'' = Some (Directorio [])"
  using ej0_buscar by (simp_all add: vista_def nodo_de_def ej0_raiz)

lemma create_refina_witness:
  "(\<exists>sb'. fisopfs_create e_ej ''/a'' 0x180 sb_ej0 = (0, sb')
      \<and> vista sb' = (vista sb_ej0)(''/a'' \<mapsto> Fichero [], ''/'' \<mapsto> Directorio [''a'']))
    \<and> fisopfs_create e_ej ''/a'' 0x180 sb_ej1 = (- EEXIST, sb_ej1)"
proof -
  have h: "(\<forall>i<MAX_INODES. bitmap_inodes sb_ej0 i \<noteq> LIBRE) = False" using ej0_raiz(3) by (auto simp: MAX_INODES_def intro!: exI [of _ "1 :: nat"])
  have "vista sb_ej0 ''/a'' = None \<or> (\<exists>ns. vista sb_ej0 ''/'' = Some (Directorio ns) \<and> ''a'' \<in> set ns)"
    "vista sb_ej1 ''/a'' = None \<or> (\<exists>ns. vista sb_ej1 ''/'' = Some (Directorio ns) \<and> ''a'' \<in> set ns)"
    by (simp_all add: ej0_vista ej1_vista)
  note c = create_refina [OF ej0_alcanzable ej_a this(1), of e_ej "0x180"] create_refina [OF ej1_alcanzable ej_a this(2), of e_ej "0x180"]
  show ?thesis using c(1) [unfolded ej0_vista h] c(2) by (auto simp: ej1_vista)
qed

lemma vista_mkdir:
  assumes inv: "fs_inv sb" and p: "cstring p" "length p < MAX_PATH" "ruta_absoluta p"
    and sep: "separar_path p = (dp, n)" and np: "vista sb p = None"
    and dp: "vista sb dp = Some (Directorio ns)" "n \<notin> set ns" "length ns < 15"
    and hay: "i0 < MAX_INODES" "bitmap_inodes sb i0 = LIBRE"
  shows "\<exists>sb'. fisopfs_mkdir e p mode sb = (0, sb')
    \<and> vista sb' = (vista sb)(p \<mapsto> Directorio (if dp = ''/'' then [''.''] else [''.'', ''..'']),
        dp \<mapsto> Directorio (ns @ [n])) \<and> fs_inv sb'"
proof -
  obtain d where d: "obtener_dir_padre p sb = Inr (d, n)" "ocupado sb d" "path (inodos sb d) = dp"
    "tipo_archivo (inodos sb d) = DIR_T" "entradas_de (inodos sb d) = ns"
    using inv dp(1) sep by (rule padre_de_vista)
  have lib: "buscar_inodo p sb < 0" using np by (simp add: vista_None)
  have nn: "n \<notin> set (entradas_de (inodos sb d))" using dp(2) d(5) by simp
  from mkdir_exito [OF inv p lib d(1) nn hay, where e = e and mode = mode] dp(3) d(5)
  obtain i sb' c where k: "fisopfs_mkdir e p mode sb = (0, sb')" "\<not> ocupado sb i" "i < MAX_INODES"
    "i \<noteq> d" "bitmap_inodes sb' = (bitmap_inodes sb)(i := OCUPADO)" "mismos_salvo {d, i} sb sb'"
    "path (inodos sb' i) = p" "tipo_archivo (inodos sb' i) = DIR_T"
    "entradas_de (inodos sb' i) = (if d = 0 then [''.''] else [''.'', ''..''])"
    "entradas_de (inodos sb' d) = ns @ [n]"
    "inodos sb' d = inodos sb d\<lparr>content := c, tam := tam (inodos sb d) + 260\<rparr>"
    by auto
  have inv': "fs_inv sb'" using fisopfs_mkdir_inv [OF inv p lib, of e mode] k(1) by simp
  have oc: "ocupado sb' i" using ocupado_tras(1) [OF k(5,3)] by simp
  have d0: "d = 0 \<longleftrightarrow> dp = ''/''"
    using fs_invD(1) [OF inv] d(3) caminos_unicosD [OF fs_invD(2) [OF inv] d(2), of 0]
    by (auto simp: raiz_ok_def ROOT_PATH_def)
  have "vista sb' = (vista sb)(p := (if ocupado sb' i then Some (nodo_de (inodos sb' i)) else None),
      path (inodos sb d) \<mapsto> Directorio (entradas_de (inodos sb' d)))"
    using k(2,7,11) d(4) oc ocupado_tras(2) [OF k(5,3)]
    by (intro vista_con_padre [OF inv inv' d(2,4) k(6,4)]) auto
  then have "vista sb' = (vista sb)(p \<mapsto> Directorio (if dp = ''/'' then [''.''] else [''.'', ''..'']),
      dp \<mapsto> Directorio (ns @ [n]))"
    using oc k(8,9,10) d(3) d0 by (simp add: nodo_de_def)
  with k(1) inv' show ?thesis by blast
qed

text \<open>
  \<open>mkdir\<close> of a new name in an existing directory with room adds one directory and one
  name at the end of the listing of its parent and changes no other path. The stored
  entries of the new directory are \<open>.\<close> and \<open>..\<close>, except under the root, where the entry
  \<open>..\<close> carries the root's number 0 and so counts as free.
\<close>

theorem mkdir_refina:
  assumes "fs_alcanzable sb" "cstring p" "length p < MAX_PATH" "ruta_absoluta p"
    and "separar_path p = (dp, n)" "vista sb p = None"
    and "vista sb dp = Some (Directorio ns)" "n \<notin> set ns" "length ns < 15"
    and "i0 < MAX_INODES" "bitmap_inodes sb i0 = LIBRE"
  shows "\<exists>sb'. fisopfs_mkdir e p mode sb = (0, sb')
    \<and> vista sb' = (vista sb)(p \<mapsto> Directorio (if dp = ''/'' then [''.''] else [''.'', ''..'']),
        dp \<mapsto> Directorio (ns @ [n]))"
  using vista_mkdir [OF fs_alcanzable_inv [OF assms(1)] assms(2-11), of e mode] by blast

lemma mkdir_refina_witness:
  "\<exists>sb'. fisopfs_mkdir e_ej ''/a'' 0x1C0 sb_ej0 = (0, sb')
    \<and> vista sb' = (vista sb_ej0)(''/a'' \<mapsto> Directorio (if ''/'' = ''/'' then [''.''] else [''.'', ''..'']),
        ''/'' \<mapsto> Directorio ([] @ [''a'']))"
  by (rule mkdir_refina [OF ej0_alcanzable ej_a(1-4) ej0_vista _ _ _ ej0_raiz(3)])
    (simp_all add: MAX_INODES_def)

text \<open>How many entries the size of a directory counts, the bound of the loops that remove a name.\<close>

definition cuenta :: "string \<Rightarrow> superbloque \<Rightarrow> nat" where
  "cuenta dp sb = cant_entradas (tam (inodos sb (nat (buscar_inodo dp sb))))"

lemma vista_unlink:
  assumes inv: "fs_inv sb" and f: "vista sb p = Some (Fichero xs)"
    and sep: "separar_path p = (dp, n)" and dp: "vista sb dp = Some (Directorio ns)"
    and cabe: "n \<in> set ns \<Longrightarrow> cuenta dp sb < 16"
  shows "\<exists>sb'. fisopfs_unlink p sb = Some (0, sb')
    \<and> vista sb' = (vista sb)(p := None, dp \<mapsto> Directorio (filter (\<lambda>x. x \<noteq> n) ns)) \<and> fs_inv sb'"
proof -
  obtain d where d: "obtener_dir_padre p sb = Inr (d, n)" "ocupado sb d" "path (inodos sb d) = dp"
    "tipo_archivo (inodos sb d) = DIR_T" "entradas_de (inodos sb d) = ns" "buscar_inodo dp sb = int d"
    using inv dp sep by (rule padre_de_vista)
  obtain i where i: "buscar_inodo p sb = int i" "tipo_archivo (inodos sb i) = REG_T" "ocupado sb i"
    "path (inodos sb i) = p" using f by (rule vista_fichero)
  have c16: "n \<in> set (entradas_de (inodos sb d)) \<Longrightarrow> cant_entradas (tam (inodos sb d)) < 16"
    using cabe d(5,6) by (simp add: cuenta_def)
  obtain sb' where k: "fisopfs_unlink p sb = Some (0, sb')" "i \<noteq> d"
    "bitmap_inodes sb' = (bitmap_inodes sb)(i := LIBRE)" "mismos_salvo {d, i} sb sb'"
    "entradas_de (inodos sb' d) = filter (\<lambda>x. x \<noteq> n) ns"
    and kd: "if n \<in> set (entradas_de (inodos sb d))
       then \<exists>c. inodos sb' d = inodos sb d\<lparr>content := c, tam := tam (inodos sb d) - 260\<rparr>
       else inodos sb' d = inodos sb d"
    using unlink_exito [OF inv i(1,2) d(1) c16] unfolding d(5) by blast
  have kp: "path (inodos sb' d) = dp" "tipo_archivo (inodos sb' d) = DIR_T"
    using kd d(3,4) by (cases "n \<in> set (entradas_de (inodos sb d))"; auto)+
  have inv': "fs_inv sb'" by (rule fisopfs_unlink_inv [OF inv k(1)])
  have im: "i < MAX_INODES" using i(3) by (simp add: ocupado_def)
  have oc: "\<not> ocupado sb' i" using ocupado_tras(1) [OF k(3) im] by simp
  have "vista sb' = (vista sb)(p := (if ocupado sb' i then Some (nodo_de (inodos sb' i)) else None),
      path (inodos sb d) \<mapsto> Directorio (entradas_de (inodos sb' d)))"
    using kp d(3) oc i(3,4) ocupado_tras(2) [OF k(3) im]
    by (intro vista_con_padre [OF inv inv' d(2,4) k(4,2)]) auto
  with k(1,5) oc d(3) inv' show ?thesis by auto
qed

lemma unlink_total:
  assumes inv: "fs_inv sb" and sep: "separar_path p = (dp, n)"
  shows "case vista sb dp of
      None \<Rightarrow> fisopfs_unlink p sb = Some (- ENOENT, sb)
    | Some (Fichero ys) \<Rightarrow> fisopfs_unlink p sb = Some (- ENOTDIR, sb)
    | Some (Directorio ns) \<Rightarrow>
        (case vista sb p of
           None \<Rightarrow> fisopfs_unlink p sb = Some (- ENOENT, sb)
         | Some (Directorio ms) \<Rightarrow> fisopfs_unlink p sb = Some (- EISDIR, sb)
         | Some (Fichero xs) \<Rightarrow>
             if n \<in> set ns \<and> cuenta dp sb = 16 then fisopfs_unlink p sb = None
             else \<exists>sb'. fisopfs_unlink p sb = Some (0, sb')
               \<and> vista sb' = (vista sb)(p := None, dp \<mapsto> Directorio (filter (\<lambda>x. x \<noteq> n) ns)))"
proof -
  show ?thesis
  proof (cases rule: vista_cases [of sb dp])
    case (3 ns)
    obtain d where d: "obtener_dir_padre p sb = Inr (d, n)" "ocupado sb d" "path (inodos sb d) = dp"
      "tipo_archivo (inodos sb d) = DIR_T" "entradas_de (inodos sb d) = ns" "buscar_inodo dp sb = int d"
      using inv 3 sep by (rule padre_de_vista)
    show ?thesis
    proof (cases rule: vista_cases [of sb p])
      case f: (2 xs)
      obtain i where i: "buscar_inodo p sb = int i" "tipo_archivo (inodos sb i) = REG_T" using f by (rule vista_fichero)
      have ne: "i \<noteq> d" using i(2) d(4) by auto
      show ?thesis
      proof (cases "n \<in> set ns \<and> cuenta dp sb = 16")
        case True
        then have "eliminar_entrada_directorio sb d n = None"
          using eliminar_llena(2) [OF inv d(2,4)] d(5,6) by (simp add: cuenta_def)
        then show ?thesis using True i ne d(1) by (simp add: 3 f fisopfs_unlink_def Let_def eliminar_liberar)
      next
        case False
        have "cuenta dp sb \<le> 16" using eliminar_llena(1) [OF inv d(2,4)] d(6) by (simp add: cuenta_def)
        with False have "n \<in> set ns \<Longrightarrow> cuenta dp sb < 16" by auto
        from vista_unlink [OF inv f sep 3 this] False show ?thesis by (auto simp: 3 f)
      qed
    next
      case f: (3 ms)
      obtain i where "buscar_inodo p sb = int i" "tipo_archivo (inodos sb i) = DIR_T"
        using inv f by (rule vista_directorio)
      then show ?thesis using d(1) by (simp add: 3 f fisopfs_unlink_def Let_def)
    next
      case f: 1
      then have "buscar_inodo p sb < 0" by (simp add: vista_None)
      then show ?thesis using d(1) by (simp add: 3 f fisopfs_unlink_def)
    qed
  qed (use padre_falta [OF sep] in \<open>simp_all add: fisopfs_unlink_def\<close>)
qed

text \<open>
  C7: \<open>unlink\<close>, with every outcome, in a reachable state: without the parent or the path
  \<open>-ENOENT\<close>, under a regular file \<open>-ENOTDIR\<close>, of a directory \<open>-EISDIR\<close>, with nothing changed.
  Of a regular file it makes the path lead nowhere, takes its name out of the listing of its
  parent, keeping the order of the others, and changes no other path; but when the size of
  the parent counts sixteen entries and it lists the name, the call reads past an array.
\<close>

theorem unlink_refina:
  assumes "fs_alcanzable sb" "separar_path p = (dp, n)"
  shows "case vista sb dp of
      None \<Rightarrow> fisopfs_unlink p sb = Some (- ENOENT, sb)
    | Some (Fichero ys) \<Rightarrow> fisopfs_unlink p sb = Some (- ENOTDIR, sb)
    | Some (Directorio ns) \<Rightarrow>
        (case vista sb p of
           None \<Rightarrow> fisopfs_unlink p sb = Some (- ENOENT, sb)
         | Some (Directorio ms) \<Rightarrow> fisopfs_unlink p sb = Some (- EISDIR, sb)
         | Some (Fichero xs) \<Rightarrow>
             if n \<in> set ns \<and> cuenta dp sb = 16 then fisopfs_unlink p sb = None
             else \<exists>sb'. fisopfs_unlink p sb = Some (0, sb')
               \<and> vista sb' = (vista sb)(p := None, dp \<mapsto> Directorio (filter (\<lambda>x. x \<noteq> n) ns)))"
  using unlink_total [OF fs_alcanzable_inv [OF assms(1)] assms(2)] .

lemma ej1_cuenta: "cuenta ''/'' sb_ej1 = 1"
  using cant_entradas_mult [of 1] by (simp add: cuenta_def ej1_estado)

lemma unlink_refina_witness:
  "(\<exists>sb'. fisopfs_unlink ''/a'' sb_ej1 = Some (0, sb') \<and> vista sb' = (vista sb_ej1)(''/a'' := None, ''/'' \<mapsto> Directorio []))
    \<and> fisopfs_unlink ''/a'' sb_ej0 = Some (- ENOENT, sb_ej0)"
  using unlink_refina [OF ej1_alcanzable ej_a(4)] unlink_refina [OF ej0_alcanzable ej_a(4)]
  by (simp add: ej1_vista ej0_vista ej1_cuenta)

text \<open>The size of a directory counts at most one entry more than it lists.\<close>

lemma cant_entradas_lista:
  assumes "fs_inv sb" "ocupado sb d" "tipo_archivo (inodos sb d) = DIR_T"
  shows "cant_entradas (tam (inodos sb d)) \<le> length (entradas_de (inodos sb d)) + 1"
proof -
  obtain m t where c: "dir.compacta (content (inodos sb d)) m"
      "tam (inodos sb d) = word_of_nat (260 * t)" "t = m \<or> t = m + 1" "m \<le> 15"
    using fs_inv_dir [OF assms] by (rule dir_okE)
  then have "cant_entradas (tam (inodos sb d)) = t"
    unfolding c(2) by (intro cant_entradas_mult) auto
  with c(3) entradas_lleno [OF c(1)] show ?thesis by auto
qed

text \<open>
  \<open>unlink\<close> undoes \<open>create\<close>. Creating a new name in a directory that lists fewer than
  fourteen and removing it again leaves every path leading to what it led to before.
\<close>

theorem create_unlink:
  assumes "fs_alcanzable sb" "cstring p" "length p < MAX_PATH" "ruta_absoluta p"
    and "separar_path p = (dp, n)" "vista sb p = None"
    and "vista sb dp = Some (Directorio ns)" "n \<notin> set ns" "length ns < 14"
    and "i0 < MAX_INODES" "bitmap_inodes sb i0 = LIBRE"
  shows "\<exists>sb1 sb2. fisopfs_create e p mode sb = (0, sb1) \<and> fisopfs_unlink p sb1 = Some (0, sb2)
    \<and> vista sb2 = vista sb"
proof -
  have "length ns < 15" using assms(9) by simp
  then obtain sb1 where c: "fisopfs_create e p mode sb = (0, sb1)" "fs_inv sb1"
    "vista sb1 = (vista sb)(p \<mapsto> Fichero [], dp \<mapsto> Directorio (ns @ [n]))"
    using vista_create [OF fs_alcanzable_inv [OF assms(1)] assms(2-8) _ assms(10,11), of e mode] by blast
  have ne: "p \<noteq> dp" using assms(6,7) by auto
  have v1: "vista sb1 p = Some (Fichero [])" "vista sb1 dp = Some (Directorio (ns @ [n]))"
    using c(3) ne by simp_all
  obtain d where d: "obtener_dir_padre p sb1 = Inr (d, n)" "ocupado sb1 d"
    "tipo_archivo (inodos sb1 d) = DIR_T" "entradas_de (inodos sb1 d) = ns @ [n]" "buscar_inodo dp sb1 = int d"
    using c(2) v1(2) assms(5) by (rule padre_de_vista)
  have "cuenta dp sb1 < 16"
    using cant_entradas_lista [OF c(2) d(2,3)] d(4,5) assms(9) by (simp add: cuenta_def)
  from vista_unlink [OF c(2) v1(1) assms(5) v1(2) this] obtain sb2 where
    u: "fisopfs_unlink p sb1 = Some (0, sb2)"
      "vista sb2 = (vista sb1)(p := None, dp \<mapsto> Directorio (filter (\<lambda>x. x \<noteq> n) (ns @ [n])))" by blast
  have "filter (\<lambda>x. x \<noteq> n) (ns @ [n]) = ns"
    using assms(8) by (auto intro!: filter_True)
  then have "vista sb2 = vista sb"
    using u(2) c(3) ne assms(6,7) by (auto simp: fun_eq_iff)
  with c(1) u(1) show ?thesis by blast
qed

lemma create_unlink_witness:
  "\<exists>sb1 sb2. fisopfs_create e_ej ''/a'' 0x1A4 sb_ej0 = (0, sb1) \<and> fisopfs_unlink ''/a'' sb1 = Some (0, sb2)
    \<and> vista sb2 = vista sb_ej0"
  by (rule create_unlink [OF ej0_alcanzable ej_a(1-4) ej0_vista _ _ _ ej0_raiz(3)])
    (simp_all add: MAX_INODES_def)

lemma vista_rmdir:
  assumes inv: "fs_inv sb" and p: "p \<noteq> ''/''" and f: "vista sb p = Some (Directorio xs)"
    and sep: "separar_path p = (dp, n)" and dp: "vista sb dp = Some (Directorio ns)"
    and cabe: "n \<in> set ns \<Longrightarrow> cuenta dp sb < 16" and vacio: "set xs \<subseteq> {''.'', ''..''}" and lista: "n \<in> set ns"
  shows "\<exists>sb'. fisopfs_rmdir p sb = Some (0, sb')
    \<and> vista sb' = (vista sb)(p := None, dp \<mapsto> Directorio (filter (\<lambda>x. x \<noteq> n) ns))"
proof -
  obtain d where d: "obtener_dir_padre p sb = Inr (d, n)" "ocupado sb d" "path (inodos sb d) = dp"
    "tipo_archivo (inodos sb d) = DIR_T" "entradas_de (inodos sb d) = ns" "buscar_inodo dp sb = int d"
    using inv dp sep by (rule padre_de_vista)
  obtain i where i: "buscar_inodo p sb = int i" "tipo_archivo (inodos sb i) = DIR_T"
    "entradas_de (inodos sb i) = xs" "ocupado sb i" "path (inodos sb i) = p"
    using inv f by (rule vista_directorio)
  have c16: "n \<in> set (entradas_de (inodos sb d)) \<Longrightarrow> cant_entradas (tam (inodos sb d)) < 16"
    using cabe d(5,6) by (simp add: cuenta_def)
  obtain sb' where k: "fisopfs_rmdir p sb = Some (0, sb')" "i \<noteq> d" "bitmap_inodes sb' = (bitmap_inodes sb)(i := LIBRE)"
    "mismos_salvo {d, i} sb sb'" "entradas_de (inodos sb' d) = filter (\<lambda>x. x \<noteq> n) ns"
    "\<exists>c. inodos sb' d = inodos sb d\<lparr>content := c, tam := tam (inodos sb d) - 260\<rparr>"
    using rmdir_exito [OF inv p i(1,2) d(1) c16] vacio lista unfolding i(3) d(5) by auto
  have kp: "path (inodos sb' d) = dp" "tipo_archivo (inodos sb' d) = DIR_T" using k(6) d(3,4) by auto
  note inv' = fisopfs_rmdir_inv [OF inv k(1)]
  have im: "i < MAX_INODES" using i(4) by (simp add: ocupado_def)
  have oc: "\<not> ocupado sb' i" using ocupado_tras(1) [OF k(3) im] by simp
  have "vista sb' = (vista sb)(p := (if ocupado sb' i then Some (nodo_de (inodos sb' i)) else None),
      path (inodos sb d) \<mapsto> Directorio (entradas_de (inodos sb' d)))"
    using kp d(3) oc i(4,5) ocupado_tras(2) [OF k(3) im]
    by (intro vista_con_padre [OF inv inv' d(2,4) k(4,2)]) auto
  with k(1,5) oc d(3) show ?thesis by auto
qed

lemma vacio_entradas: "directorio_esta_vacio r \<longleftrightarrow> set (entradas_de r) \<subseteq> {''.'', ''..''}"
  unfolding directorio_esta_vacio_def primer_indice_None entradas_de_def MAX_DIR_ENTRIES_15 by auto

lemma rmdir_total:
  assumes inv: "fs_inv sb" and sep: "separar_path p = (dp, n)" and p: "p \<noteq> ''/''"
  shows "case vista sb p of
      None \<Rightarrow> fisopfs_rmdir p sb = Some (- ENOENT, sb)
    | Some (Fichero ys) \<Rightarrow> fisopfs_rmdir p sb = Some (- ENOTDIR, sb)
    | Some (Directorio xs) \<Rightarrow>
        if \<not> set xs \<subseteq> {''.'', ''..''} then fisopfs_rmdir p sb = Some (- ENOTEMPTY, sb)
        else (case vista sb dp of
           None \<Rightarrow> fisopfs_rmdir p sb = Some (- ENOENT, sb)
         | Some (Fichero ys) \<Rightarrow> fisopfs_rmdir p sb = Some (- ENOTDIR, sb)
         | Some (Directorio ns) \<Rightarrow>
             if n \<notin> set ns then fisopfs_rmdir p sb = Some (- EIO, sb)
             else if cuenta dp sb = 16 then fisopfs_rmdir p sb = None
             else \<exists>sb'. fisopfs_rmdir p sb = Some (0, sb')
               \<and> vista sb' = (vista sb)(p := None, dp \<mapsto> Directorio (filter (\<lambda>x. x \<noteq> n) ns)))"
proof -
  show ?thesis
  proof (cases rule: vista_cases [of sb p])
    case 1
    then have "buscar_inodo p sb < 0" by (simp add: vista_None)
    then show ?thesis using p by (simp add: 1 fisopfs_rmdir_def)
  next
    case 2
    from 2 obtain i where "buscar_inodo p sb = int i" "tipo_archivo (inodos sb i) = REG_T" by (rule vista_fichero)
    then show ?thesis using p by (simp add: 2 fisopfs_rmdir_def Let_def)
  next
    case f: (3 xs)
    obtain i where i: "buscar_inodo p sb = int i" "tipo_archivo (inodos sb i) = DIR_T" "entradas_de (inodos sb i) = xs"
      using inv f by (rule vista_directorio)
    have call: "fisopfs_rmdir p sb = (if \<not> set xs \<subseteq> {''.'', ''..''} then Some (- ENOTEMPTY, sb)
        else case obtener_dir_padre p sb of Inl err \<Rightarrow> Some (err, sb)
          | Inr (padre, nombre_dir) \<Rightarrow>
              (case eliminar_entrada_directorio sb padre nombre_dir of None \<Rightarrow> None
               | Some (r, sb1) \<Rightarrow> if r < 0 then Some (- EIO, sb1) else Some (0, liberar_inodo i sb1)))"
      using p i by (simp add: fisopfs_rmdir_def Let_def vacio_entradas)
    show ?thesis
    proof (cases rule: vista_cases [of sb dp])
      case (3 ns)
      obtain d where d: "obtener_dir_padre p sb = Inr (d, n)" "ocupado sb d" "tipo_archivo (inodos sb d) = DIR_T"
        "entradas_de (inodos sb d) = ns" "buscar_inodo dp sb = int d"
        using inv 3 sep by (rule padre_de_vista)
      have c: "cuenta dp sb = cant_entradas (tam (inodos sb d))" using d(5) by (simp add: cuenta_def)
      note E = eliminar_entradas [OF inv d(2,3), of n, unfolded d(4)] and L = eliminar_llena(1) [OF inv d(2,3)] eliminar_llena(2) [OF inv d(2,3), of n, unfolded d(4)]
      show ?thesis
      proof (cases "set xs \<subseteq> {''.'', ''..''} \<and> n \<in> set ns")
        case True
        show ?thesis
        proof (cases "cuenta dp sb = 16")
          case full: True
          then show ?thesis using L(2) True c d(1) by (simp add: f 3 call)
        next
          case False
          then have "cuenta dp sb < 16" using L(1) c by simp
          with vista_rmdir [OF inv p f sep 3] True False show ?thesis by (simp add: f 3)
        qed
      next
        case False
        then show ?thesis using E d(1) by (auto simp: f 3 call)
      qed
    qed (use padre_falta [OF sep] in \<open>simp_all add: f call\<close>)
  qed
qed

text \<open>
  C8: \<open>rmdir\<close>, with every outcome, in a reachable state: of the root \<open>-EBUSY\<close>, of no path
  \<open>-ENOENT\<close>, of a regular file \<open>-ENOTDIR\<close>, of a directory with a name other than \<open>.\<close> and
  \<open>..\<close> \<open>-ENOTEMPTY\<close>, then the errors of the parent and \<open>-EIO\<close> when the parent does not list
  the name, all with nothing changed. Of an empty directory it removes the path and the name
  and changes no other path; but when the size of the parent counts sixteen entries the call
  reads past an array.
\<close>

theorem rmdir_refina:
  assumes "fs_alcanzable sb" "separar_path p = (dp, n)"
  shows "if p = ''/'' then fisopfs_rmdir p sb = Some (- EBUSY, sb)
    else case vista sb p of
      None \<Rightarrow> fisopfs_rmdir p sb = Some (- ENOENT, sb)
    | Some (Fichero ys) \<Rightarrow> fisopfs_rmdir p sb = Some (- ENOTDIR, sb)
    | Some (Directorio xs) \<Rightarrow>
        if \<not> set xs \<subseteq> {''.'', ''..''} then fisopfs_rmdir p sb = Some (- ENOTEMPTY, sb)
        else (case vista sb dp of
           None \<Rightarrow> fisopfs_rmdir p sb = Some (- ENOENT, sb)
         | Some (Fichero ys) \<Rightarrow> fisopfs_rmdir p sb = Some (- ENOTDIR, sb)
         | Some (Directorio ns) \<Rightarrow>
             if n \<notin> set ns then fisopfs_rmdir p sb = Some (- EIO, sb)
             else if cuenta dp sb = 16 then fisopfs_rmdir p sb = None
             else \<exists>sb'. fisopfs_rmdir p sb = Some (0, sb')
               \<and> vista sb' = (vista sb)(p := None, dp \<mapsto> Directorio (filter (\<lambda>x. x \<noteq> n) ns)))"
proof (cases "p = ''/''")
  case True
  then show ?thesis by (simp add: fisopfs_rmdir_def)
next
  case False
  with rmdir_total [OF fs_alcanzable_inv [OF assms(1)] assms(2) False] show ?thesis by simp
qed

text \<open>The freshly formatted file system after \<open>mkdir("/a")\<close>.\<close>

definition sb_ej2 :: superbloque where
  "sb_ej2 = snd (fisopfs_mkdir e_ej ''/a'' 0x1C0 sb_ej0)"

lemma ej2_estado:
  "fs_alcanzable sb_ej2" "vista sb_ej2 ''/a'' = Some (Directorio [''.''])"
  "vista sb_ej2 ''/'' = Some (Directorio [''a''])" "cuenta ''/'' sb_ej2 < 16"
proof -
  obtain sb' where k: "fisopfs_mkdir e_ej ''/a'' 0x1C0 sb_ej0 = (0, sb')" "fs_inv sb'"
    "vista sb' = (vista sb_ej0)(''/a'' \<mapsto> Directorio [''.''], ''/'' \<mapsto> Directorio [''a''])"
    using vista_mkdir [OF ej0_inv ej_a(1-4) ej0_vista _ _ _ ej0_raiz(3), of e_ej "0x1C0"]
    by (auto simp: MAX_INODES_def)
  then have eq: "sb_ej2 = sb'" by (simp add: sb_ej2_def)
  show "fs_alcanzable sb_ej2"
    using fs_alcanzable.llamada [OF ej0_alcanzable, of "Mkdir ''/a'' 0x1C0" e_ej] k(1) ej_a ej0_buscar(2)
    by (simp add: eq)
  show v: "vista sb_ej2 ''/a'' = Some (Directorio [''.''])" "vista sb_ej2 ''/'' = Some (Directorio [''a''])"
    using k(3) by (simp_all add: eq)
  have inv: "fs_inv sb_ej2" using k(2) eq by simp
  obtain d where "obtener_dir_padre ''/a'' sb_ej2 = Inr (d, ''a'')" "ocupado sb_ej2 d"
    "tipo_archivo (inodos sb_ej2 d) = DIR_T" "entradas_de (inodos sb_ej2 d) = [''a'']" "buscar_inodo ''/'' sb_ej2 = int d"
    using inv v(2) ej_a(4) by (rule padre_de_vista)
  with cant_entradas_lista [OF inv, of d] show "cuenta ''/'' sb_ej2 < 16" by (simp add: cuenta_def)
qed

lemma rmdir_refina_witness:
  "(\<exists>sb'. fisopfs_rmdir ''/a'' sb_ej2 = Some (0, sb') \<and> vista sb' = (vista sb_ej2)(''/a'' := None, ''/'' \<mapsto> Directorio []))
    \<and> fisopfs_rmdir ''/a'' sb_ej1 = Some (- ENOTDIR, sb_ej1)"
  using rmdir_refina [OF ej2_estado(1) ej_a(4)] rmdir_refina [OF ej1_alcanzable ej_a(4)] ej2_estado(4)
  by (simp add: ej2_estado(2,3) ej1_vista)

section \<open>Which calls leave an array\<close>

fun fuera_de_los_arreglos :: "fuse_op \<Rightarrow> superbloque \<Rightarrow> bool" where
  "fuera_de_los_arreglos (Read p n off) sb \<longleftrightarrow>
     (\<exists>xs. vista sb p = Some (Fichero xs) \<and> unat off < length xs) \<and> 2 ^ 64 \<le> unat off + unat n"
| "fuera_de_los_arreglos (Write p buf off) sb \<longleftrightarrow>
     (\<exists>xs. vista sb p = Some (Fichero xs)) \<and> 2 ^ 64 \<le> unat off + length buf
     \<and> unat (off + word_of_nat (length buf)) \<le> MAX_CONTENT"
| "fuera_de_los_arreglos (Unlink p) sb \<longleftrightarrow>
     (\<exists>xs ns. vista sb p = Some (Fichero xs) \<and> vista sb (fst (separar_path p)) = Some (Directorio ns)
       \<and> snd (separar_path p) \<in> set ns \<and> cuenta (fst (separar_path p)) sb = 16)"
| "fuera_de_los_arreglos (Rmdir p) sb \<longleftrightarrow> p \<noteq> ''/'' \<and>
     (\<exists>xs ns. vista sb p = Some (Directorio xs) \<and> set xs \<subseteq> {''.'', ''..''}
       \<and> vista sb (fst (separar_path p)) = Some (Directorio ns)
       \<and> snd (separar_path p) \<in> set ns \<and> cuenta (fst (separar_path p)) sb = 16)"
| "fuera_de_los_arreglos _ sb \<longleftrightarrow> False"

text \<open>The buffer of a \<open>write\<close> is in memory.\<close>

fun en_memoria :: "fuse_op \<Rightarrow> bool" where
  "en_memoria (Write p buf off) \<longleftrightarrow> length buf < 2 ^ 64"
| "en_memoria _ \<longleftrightarrow> True"

lemma truncate_definido:
  assumes inv: "fs_inv sb"
  shows "fisopfs_truncate e p n sb \<noteq> None"
proof (cases "buscar_inodo p sb < 0 \<or> tipo_archivo (inodos sb (nat (buscar_inodo p sb))) \<noteq> REG_T")
  case True
  then show ?thesis by (auto simp: fisopfs_truncate_def Let_def)
next
  case False
  then have "fichero_ok (inodos sb (nat (buscar_inodo p sb)))"
    using fichero_ok_inodo [OF inv] buscar_inodoD [of p sb] by blast
  with False show ?thesis by (auto simp: fisopfs_truncate_def Let_def fichero_ok_def)
qed

lemma readdir_definido:
  assumes inv: "fs_inv sb"
  shows "fisopfs_readdir p sb \<noteq> None"
proof (cases "buscar_inodo p sb < 0 \<or> tipo_archivo (inodos sb (nat (buscar_inodo p sb))) \<noteq> DIR_T")
  case True
  then show ?thesis by (auto simp: fisopfs_readdir_def Let_def)
next
  case False
  then have "buscar_inodo p sb = int (nat (buscar_inodo p sb))" by simp
  from readdir_exito [OF inv this] False show ?thesis by auto
qed

lemma read_None:
  assumes inv: "fs_inv sb"
  shows "fisopfs_read e p n off sb = None \<longleftrightarrow> fuera_de_los_arreglos (Read p n off) sb"
proof (cases "\<exists>xs. vista sb p = Some (Fichero xs)")
  case False
  then have "buscar_inodo p sb < 0 \<or> tipo_archivo (inodos sb (nat (buscar_inodo p sb))) \<noteq> REG_T"
    by (auto simp: vista_def nodo_de_def Let_def split: if_splits)
  with False show ?thesis by (auto simp: fisopfs_read_def Let_def)
next
  case True
  then obtain xs where f: "vista sb p = Some (Fichero xs)" by blast
  from f obtain i where i: "buscar_inodo p sb = int i" "tipo_archivo (inodos sb i) = REG_T"
    "datos (inodos sb i) = xs" "ocupado sb i" by (rule vista_fichero)
  have t: "unat (tam (inodos sb i)) = length xs" using i(3) by auto
  have t4: "unat (tam (inodos sb i)) \<le> MAX_CONTENT" using fichero_ok_inodo [OF inv i(4,2)] by (simp add: fichero_ok_def)
  show ?thesis
  proof (cases "unat off + unat n < 2 ^ 64")
    case True
    with vista_read [OF inv f True, of e] show ?thesis by auto
  next
    case wrap: False
    show ?thesis
    proof (cases "off \<ge> tam (inodos sb i)")
      case True
      then show ?thesis using i f t by (auto simp: fisopfs_read_def Let_def word_le_nat_alt)
    next
      case False
      then have lt: "unat off < length xs" using t by (simp add: word_le_nat_alt)
      have "unat (off + n) = unat off + unat n - 2 ^ 64"
        using wrap unsigned_less [of off, where ?'a = nat] unsigned_less [of n, where ?'a = nat] by (simp add: unat_word_ariths mod_if)
      then have "\<not> off + n > tam (inodos sb i)" using lt t unsigned_less [of n, where ?'a = nat] by (simp add: word_less_nat_alt)
      then show ?thesis using i f lt wrap False by (auto simp: fisopfs_read_def Let_def MAX_CONTENT_def)
    qed
  qed
qed

lemma write_None:
  assumes inv: "fs_inv sb" and l: "length buf < 2 ^ 64"
  shows "fisopfs_write e p buf (word_of_nat (length buf)) off sb = None \<longleftrightarrow> fuera_de_los_arreglos (Write p buf off) sb"
proof -
  have "unat (word_of_nat (length buf) :: 64 word) = length buf" using l by (simp add: unat_of_nat take_bit_nat_eq_self)
  then have s: "unat (off + word_of_nat (length buf)) = (unat off + length buf) mod 2 ^ 64" by (simp add: unat_word_ariths)
  then have "unat (off + word_of_nat (length buf)) \<le> MAX_CONTENT \<Longrightarrow> unat off + length buf > MAX_CONTENT \<longleftrightarrow> 2 ^ 64 \<le> unat off + length buf"
    by (cases "unat off + length buf < 2 ^ 64") (auto simp: MAX_CONTENT_def)
  then show ?thesis using write_total [OF inv l, where p = p and e = e and off = off]
    by (cases rule: vista_cases [of sb p]) (auto simp: not_less split: if_splits)
qed

lemma unlink_None:
  assumes inv: "fs_inv sb"
  shows "fisopfs_unlink p sb = None \<longleftrightarrow> fuera_de_los_arreglos (Unlink p) sb"
  using unlink_total [OF inv surjective_pairing, of p]
  by (cases rule: vista_cases [of sb p]; cases rule: vista_cases [of sb "fst (separar_path p)"]) (auto split: if_splits)

lemma rmdir_None:
  assumes inv: "fs_inv sb"
  shows "fisopfs_rmdir p sb = None \<longleftrightarrow> fuera_de_los_arreglos (Rmdir p) sb"
proof (cases "p = ''/''")
  case True
  then show ?thesis by (simp add: fisopfs_rmdir_def)
next
  case False
  then show ?thesis using rmdir_total [OF inv surjective_pairing, of p]
    by (cases rule: vista_cases [of sb p]; cases rule: vista_cases [of sb "fst (separar_path p)"]) (auto split: if_splits)
qed

text \<open>
  C2: memory safety, exactly. In a reachable state a callback reads or writes outside an
  array if and only if it is one of four: a \<open>read\<close> that begins inside the file or a \<open>write\<close>
  to a file, with an offset and a length whose sum wraps around (to at most 4096 for
  \<open>write\<close>), and the \<open>unlink\<close> of a file or the \<open>rmdir\<close> of an empty directory whose name is in
  a directory whose size counts sixteen entries. Every other call returns, and the new state
  is well formed again when the call is one the kernel can make.
\<close>

theorem llamada_segura:
  assumes "fs_alcanzable sb" "en_memoria op"
  shows "(ejecutar e op sb = None \<longleftrightarrow> fuera_de_los_arreglos op sb)
    \<and> (\<forall>r sb'. ejecutar e op sb = Some (r, sb') \<longrightarrow> vfs_ok op sb \<longrightarrow> fs_inv sb')"
proof -
  note inv = fs_alcanzable_inv [OF assms(1)]
  have "ejecutar e op sb = None \<longleftrightarrow> fuera_de_los_arreglos op sb"
  proof (cases op)
    case (Read p n off)
    then show ?thesis using read_None [OF inv, of e p n off] by (simp del: fuera_de_los_arreglos.simps)
  next
    case (Write p buf off)
    then show ?thesis using write_None [OF inv, of buf e p off] assms(2) by (simp del: fuera_de_los_arreglos.simps)
  next
    case (Unlink p)
    then show ?thesis using unlink_None [OF inv, of p] by (simp del: fuera_de_los_arreglos.simps)
  next
    case (Rmdir p)
    then show ?thesis using rmdir_None [OF inv, of p] by (simp del: fuera_de_los_arreglos.simps)
  qed (simp_all add: truncate_definido [OF inv] readdir_definido [OF inv])
  then show ?thesis using ejecutar_inv [OF inv] by blast
qed

lemma llamada_segura_witness:
  "(\<exists>r sb'. ejecutar e_ej (Unlink ''/a'') sb_ej1 = Some (r, sb') \<and> fs_inv sb')
    \<and> ejecutar e_ej (Write ''/a'' ''hola'' (- 1)) sb_ej1 = None"
proof -
  have "\<not> fuera_de_los_arreglos (Unlink ''/a'') sb_ej1" by (simp add: ej_a(4) ej1_cuenta)
  then have "\<exists>r sb'. ejecutar e_ej (Unlink ''/a'') sb_ej1 = Some (r, sb') \<and> fs_inv sb'"
    using llamada_segura [OF ej1_alcanzable, of "Unlink ''/a''" e_ej] by (cases "ejecutar e_ej (Unlink ''/a'') sb_ej1") auto
  moreover have "unat (- 1 :: 64 word) = 18446744073709551615" by (simp add: unsigned_minus_1_eq_mask mask_eq_exp_minus_1)
  then have "fuera_de_los_arreglos (Write ''/a'' ''hola'' (- 1)) sb_ej1" by (simp add: ej1_vista MAX_CONTENT_def)
  then have "ejecutar e_ej (Write ''/a'' ''hola'' (- 1)) sb_ej1 = None"
    using llamada_segura [OF ej1_alcanzable, of "Write ''/a'' ''hola'' (- 1)" e_ej] by simp
  ultimately show ?thesis by blast
qed

text \<open>
  A listing never lies. In a reachable state, \<open>readdir\<close> of a directory succeeds, gives
  \<open>.\<close>, \<open>..\<close> and then the stored names, without repetition, and each of these except the
  two dots, joined to the path of the directory, is a path \<open>getattr\<close> finds.
\<close>

theorem readdir_resuelve:
  assumes "fs_alcanzable sb" "vista sb p = Some (Directorio ns)"
  shows "fisopfs_readdir p sb = Some (0, ''.'' # ''..'' # ns) \<and> distinct ns
    \<and> (\<forall>n\<in>set ns - {''.'', ''..''}. fst (fisopfs_getattr (unir_path p n) st sb) = 0)"
proof -
  note inv = fs_alcanzable_inv [OF assms(1)]
  obtain d where d: "buscar_inodo p sb = int d" "tipo_archivo (inodos sb d) = DIR_T"
    "entradas_de (inodos sb d) = ns" "ocupado sb d" "path (inodos sb d) = p"
    using inv assms(2) by (rule vista_directorio)
  obtain m t where c: "dir.compacta (content (inodos sb d)) m"
      "dir.nombres_distintos (content (inodos sb d)) m" "m \<le> 15"
    using fs_inv_dir [OF inv d(4,2)] by (rule dir_okE)
  have ns: "ns = map (ent_nombre (content (inodos sb d))) [0..<m]"
    using d(3) entradas_compacta [OF c(1)] by simp
  have "distinct ns"
    using c(2) by (auto simp: ns distinct_map inj_on_def dir.nombres_distintos_def)
  moreover have "fst (fisopfs_getattr (unir_path p n) st sb) = 0"
    if n: "n \<in> set ns" "n \<noteq> ''.''" "n \<noteq> ''..''" for n
  proof -
    obtain k where k: "k < m" "n = ent_nombre (content (inodos sb d)) k" using n(1) by (auto simp: ns)
    define v where "v = unat (ent_inodo (content (inodos sb d)) k)"
    have "ent_inodo (content (inodos sb d)) k \<noteq> 0" using compacta_ent [OF c(1), of k] k c(3) by simp
    then have v0: "v \<noteq> 0" by (simp add: v_def unat_eq_zero)
    have "entrada_ok sb (inodos sb d) k"
      using fs_inv_entrada [OF inv d(4,2)] k(1) c(3) by (simp add: MAX_DIR_ENTRIES_15)
    then have v: "ocupado sb v" "nombre (inodos sb v) = n" "directory_path (inodos sb v) = p"
      using n(2,3) v0 d(5) by (simp_all add: entrada_ok_def Let_def k(2) flip: v_def)
    have "separar_path (path (inodos sb v)) = (p, n)" "ruta_absoluta (path (inodos sb v))"
      "length (path (inodos sb v)) < MAX_PATH"
      using fs_invD(4) [OF inv v(1)] v0 v(2,3) by (auto simp: inodo_ok_def)
    from separar_unir(1) [OF this(2,3,1)] have "unir_path p n = path (inodos sb v)" by simp
    with buscar_inodo_unico [OF fs_invD(2) [OF inv] v(1)] show ?thesis
      by (simp add: fisopfs_getattr_def Let_def)
  qed
  ultimately show ?thesis using readdir_exito [OF inv d(1,2)] d(3) by auto
qed

lemma readdir_resuelve_witness:
  "fisopfs_readdir ''/'' sb_ej1 = Some (0, ''.'' # ''..'' # [''a''])
    \<and> fst (fisopfs_getattr (unir_path ''/'' ''a'') stat_cero sb_ej1) = 0"
  using readdir_resuelve [OF ej1_alcanzable ej1_vista(2)] by simp

end
