(* ===== verification/Fs_Limits.thy ===== *)
theory Fs_Limits
  imports Fs_Claims
begin

text \<open>
  What the file system does at the limits its code does not guard: a full directory, the
  sixteenth entry a size can count, a path longer than the \<open>path\<close> field. Each has a
  reachable state where it happens, built by filling a directory one \<open>create\<close> at a time.
\<close>

section \<open>Filling a directory\<close>

lemma hay_libre:
  assumes inv: "fs_inv sb" and fin: "finite (dom (vista sb))" "card (dom (vista sb)) < MAX_INODES"
  shows "\<exists>i<MAX_INODES. bitmap_inodes sb i = LIBRE"
proof (rule ccontr)
  assume "\<not> ?thesis"
  then have oc: "ocupado sb i" if "i < MAX_INODES" for i
    using fs_invD(5) [OF inv that] that by (auto simp: ocupado_def)
  let ?f = "\<lambda>i. path (inodos sb i)"
  have "inj_on ?f {..<MAX_INODES}"
    using caminos_unicosD [OF fs_invD(2) [OF inv]] oc by (auto intro!: inj_onI)
  moreover have "?f ` {..<MAX_INODES} \<subseteq> dom (vista sb)"
    using vista_ocupado [OF fs_invD(2) [OF inv]] oc by auto
  ultimately have "card {..<MAX_INODES} \<le> card (dom (vista sb))"
    using fin(1) by (meson card_inj_on_le)
  with fin(2) show False by simp
qed

text \<open>Distinct one-letter names and their paths in a directory.\<close>

definition letra :: "nat \<Rightarrow> string" where
  "letra k = [char_of (98 + k)]"

lemma byte_letra: "k < 20 \<Longrightarrow> take_bit 8 (98 + k) = (98 + k :: nat)"
  by (simp add: take_bit_nat_eq_self)

lemma letra_inj: "j < 20 \<Longrightarrow> k < 20 \<Longrightarrow> letra j = letra k \<Longrightarrow> j = k"
  by (simp add: letra_def char_of_eq_iff byte_letra)

lemma letra_no: "k < 20 \<Longrightarrow> letra k \<noteq> ''.''" "k < 20 \<Longrightarrow> letra k \<noteq> ''a''"
  "k < 20 \<Longrightarrow> char_of (98 + k) \<noteq> CHR 0x00" "k < 20 \<Longrightarrow> char_of (98 + k) \<noteq> CHR ''/''"
  by (simp_all add: letra_def char_of_eq_iff byte_letra)

lemma llenar:
  assumes a: "fs_alcanzable sb0" "vista sb0 dp = Some (Directorio ns0)" "buscar_inodo dp sb0 = int d"
    and fin: "finite (dom (vista sb0))" "card (dom (vista sb0)) < 1000"
    and p: "\<And>k. k < 16 \<Longrightarrow> cstring (p k) \<and> length (p k) < MAX_PATH \<and> ruta_absoluta (p k)
      \<and> separar_path (p k) = (dp, letra k) \<and> vista sb0 (p k) = None \<and> letra k \<notin> set ns0 \<and> p k \<noteq> dp"
    and j: "length ns0 + j \<le> 15"
  shows "\<exists>sb. fs_alcanzable sb \<and> vista sb dp = Some (Directorio (ns0 @ map letra [0..<j]))
    \<and> (\<forall>k<16. vista sb (p k) = (if k < j then Some (Fichero []) else None))
    \<and> buscar_inodo dp sb = int d \<and> tam (inodos sb d) = tam (inodos sb0 d) + word_of_nat (260 * j)
    \<and> finite (dom (vista sb)) \<and> card (dom (vista sb)) \<le> card (dom (vista sb0)) + j"
  using j
proof (induction j)
  case 0
  with a fin p show ?case by (intro exI [of _ sb0]) auto
next
  case (Suc j)
  then obtain sb where h: "fs_alcanzable sb" "vista sb dp = Some (Directorio (ns0 @ map letra [0..<j]))"
    "\<forall>k<16. vista sb (p k) = (if k < j then Some (Fichero []) else None)"
    "buscar_inodo dp sb = int d" "tam (inodos sb d) = tam (inodos sb0 d) + word_of_nat (260 * j)"
    "finite (dom (vista sb))" "card (dom (vista sb)) \<le> card (dom (vista sb0)) + j" by auto
  have j16: "j < 16" using Suc.prems by simp
  note inv = fs_alcanzable_inv [OF h(1)]
  have "card (dom (vista sb)) < MAX_INODES" using h(7) fin(2) j16 by (simp add: MAX_INODES_def)
  then obtain i0 where i0: "i0 < MAX_INODES" "bitmap_inodes sb i0 = LIBRE"
    using hay_libre [OF inv h(6)] by blast
  have pj: "cstring (p j)" "length (p j) < MAX_PATH" "ruta_absoluta (p j)"
    "separar_path (p j) = (dp, letra j)" "p j \<noteq> dp" using p [OF j16] by auto
  have np: "vista sb (p j) = None" using h(3) j16 by simp
  have nn: "letra j \<notin> set (ns0 @ map letra [0..<j])"
    using p [OF j16] j16 by (auto dest!: letra_inj [rotated 2])
  have len: "length (ns0 @ map letra [0..<j]) < 15" using Suc.prems by simp
  from vista_create [OF inv pj(1-4) np h(2) nn len i0, of e_ej 0] h(4) obtain sb' where
    c: "fisopfs_create e_ej (p j) 0 sb = (0, sb')"
      "vista sb' = (vista sb)(p j \<mapsto> Fichero [], dp \<mapsto> Directorio ((ns0 @ map letra [0..<j]) @ [letra j]))"
      "buscar_inodo dp sb' = int d" "tam (inodos sb' d) = tam (inodos sb d) + 260" by blast
  have "fs_alcanzable sb'"
    using fs_alcanzable.llamada [OF h(1), of "Create (p j) 0" e_ej] c(1) pj np by (simp add: vista_None)
  moreover have "vista sb' dp = Some (Directorio (ns0 @ map letra [0..<Suc j]))" by (simp add: c(2))
  moreover have "vista sb' (p k) = (if k < Suc j then Some (Fichero []) else None)" if k: "k < 16" for k
  proof (cases "k = j")
    case True
    with pj(5) show ?thesis by (simp add: c(2))
  next
    case False
    then have "letra k \<noteq> letra j" using letra_inj [of k j] k j16 by auto
    then have "p k \<noteq> p j" using p [OF k] pj(4) by auto
    with h(3) k False p [OF k] show ?thesis by (auto simp: c(2))
  qed
  moreover have "tam (inodos sb' d) = tam (inodos sb0 d) + word_of_nat (260 * Suc j)"
    by (simp add: c(4) h(5))
  moreover have "dom (vista sb') = insert (p j) (dom (vista sb))"
    using h(2) by (auto simp: c(2) split: if_splits)
  ultimately show ?case
    using c(3) h(6,7) by (intro exI [of _ sb']) (auto simp: card_insert_if)
qed

lemma dom_vista_ej: "dom (vista sb_ej0) = {''/''}"
proof -
  have "vista sb_ej0 p = None" if "p \<noteq> ''/''" for p
    using that by (auto simp: vista_None buscar_inodo_neg sb_ej0_def ocupado_inicial inodo_inicial ROOT_PATH_def)
  with ej0_vista(2) show ?thesis by (force simp: dom_def)
qed

lemma raiz_llena:
  obtains sb where "fs_alcanzable sb" "vista sb ''/'' = Some (Directorio (map letra [0..<15]))"
    "vista sb (''/'' @ letra 15) = None" "finite (dom (vista sb))" "card (dom (vista sb)) < MAX_INODES"
proof -
  have p: "cstring (''/'' @ letra k) \<and> length (''/'' @ letra k) < MAX_PATH \<and> ruta_absoluta (''/'' @ letra k)
      \<and> separar_path (''/'' @ letra k) = (''/'', letra k) \<and> vista sb_ej0 (''/'' @ letra k) = None
      \<and> letra k \<notin> set [] \<and> ''/'' @ letra k \<noteq> ''/''" if "k < 16" for k
  proof -
    have "(''/'' @ letra k) \<notin> dom (vista sb_ej0)" by (simp add: dom_vista_ej letra_def)
    with letra_no(3,4) [of k] that show ?thesis
      by (auto simp: letra_def cstring_def ruta_absoluta_def MAX_PATH_def separar_path_def strrchr_def
          ROOT_PATH_def dom_def nth_Cons')
  qed
  have b: "buscar_inodo ''/'' sb_ej0 = int 0" by (simp add: ej0_buscar)
  obtain sb where "fs_alcanzable sb" "vista sb ''/'' = Some (Directorio ([] @ map letra [0..<15]))"
    "\<forall>k<16. vista sb (''/'' @ letra k) = (if k < 15 then Some (Fichero []) else None)"
    "finite (dom (vista sb))" "card (dom (vista sb)) \<le> card (dom (vista sb_ej0)) + 15"
    using llenar [OF ej0_alcanzable ej0_vista(2) b _ _ p, where j = 15] by (auto simp: dom_vista_ej)
  with that [of sb] show thesis by (auto simp: dom_vista_ej MAX_INODES_def)
qed

lemma strrchr_cabeza: "ch \<notin> set s \<Longrightarrow> strrchr (ch # s) ch = Some 0"
proof -
  assume "ch \<notin> set s"
  moreover have "[0..<length (ch # s)] = 0 # map Suc [0..<length s]" by (simp add: map_Suc_upt upt_conv_Cons del: upt_Suc)
  ultimately show ?thesis
    by (auto simp: strrchr_def Let_def filter_map o_def filter_empty_conv simp del: upt_Suc)
qed

lemma ej2_tam: "\<exists>d. buscar_inodo ''/a'' sb_ej2 = int d \<and> tam (inodos sb_ej2 d) = 520"
  and ej2_dom: "dom (vista sb_ej2) = {''/'', ''/a''}"
proof -
  obtain sb' where v: "fisopfs_mkdir e_ej ''/a'' 0x1C0 sb_ej0 = (0, sb')"
    "vista sb' = (vista sb_ej0)(''/a'' \<mapsto> Directorio [''.''], ''/'' \<mapsto> Directorio [''a''])" "fs_inv sb'"
    using vista_mkdir [OF ej0_inv ej_a(1-4) ej0_vista _ _ _ ej0_raiz(3), of e_ej "0x1C0"]
    by (auto simp: MAX_INODES_def)
  then have eq: "sb_ej2 = sb'" by (simp add: sb_ej2_def)
  show "dom (vista sb_ej2) = {''/'', ''/a''}"
    unfolding eq v(2) using dom_vista_ej by auto
  obtain i where i: "i < MAX_INODES" "bitmap_inodes sb_ej2 = (bitmap_inodes sb_ej0)(i := OCUPADO)"
    "path (inodos sb_ej2 i) = ''/a''" "tam (inodos sb_ej2 i) = 520"
    using mkdir_exito [OF ej0_inv ej_a(1-3) ej0_buscar(2) ej0_padre _ _ ej0_raiz(3), where e = e_ej and mode = "0x1C0"]
    by (auto simp: ej0_raiz MAX_INODES_def sb_ej2_def)
  have "ocupado sb_ej2 i" using ocupado_tras(1) [OF i(2,1)] by simp
  from buscar_inodo_unico [OF fs_invD(2) this] v(3) i(3,4)
  show "\<exists>d. buscar_inodo ''/a'' sb_ej2 = int d \<and> tam (inodos sb_ej2 d) = 520"
    by (auto simp: eq)
qed

section \<open>A full directory\<close>

text \<open>
  In a directory that lists fifteen names, \<open>create\<close> of a new name returns
  \<open>-ENOSPC\<close>, but the path it was asked for leads to an empty regular file afterwards,
  in no listing: the inode taken before the directory was found full is not given back.
  \<open>mkdir\<close> returns \<open>-1\<close> (that is, \<open>-EPERM\<close>), not \<open>-ENOSPC\<close>, and leaves its inode too.
\<close>

theorem directorio_lleno:
  assumes "fs_alcanzable sb" "cstring p" "length p < MAX_PATH" "ruta_absoluta p"
    and "separar_path p = (dp, n)" "vista sb p = None"
    and "vista sb dp = Some (Directorio ns)" "n \<notin> set ns" "length ns = 15"
    and "i0 < MAX_INODES" "bitmap_inodes sb i0 = LIBRE"
  shows "fst (fisopfs_create e p mode sb) = - ENOSPC
    \<and> vista (snd (fisopfs_create e p mode sb)) = (vista sb)(p \<mapsto> Fichero [])
    \<and> fst (fisopfs_mkdir e p mode sb) = - 1
    \<and> vista (snd (fisopfs_mkdir e p mode sb)) p \<noteq> None"
proof -
  note inv = fs_alcanzable_inv [OF assms(1)]
  obtain d where d: "obtener_dir_padre p sb = Inr (d, n)" "entradas_de (inodos sb d) = ns"
    using inv assms(7,5) by (rule padre_de_vista)
  have lib: "buscar_inodo p sb < 0" using assms(6) by (simp add: vista_None)
  have nn: "n \<notin> set (entradas_de (inodos sb d))" using assms(8) d(2) by simp
  note c = vista_create_lleno [OF inv assms(2-11), of e mode]
  obtain i sb' where m: "fisopfs_mkdir e p mode sb = (- 1, sb')" "i < MAX_INODES"
    "bitmap_inodes sb' = (bitmap_inodes sb)(i := OCUPADO)" "path (inodos sb' i) = p"
    using mkdir_exito [OF inv assms(2-4) lib d(1) nn assms(10,11), where e = e and mode = mode] assms(9) d(2)
    by auto
  have "fs_inv sb'" using fisopfs_mkdir_inv [OF inv assms(2-4) lib, of e mode] m(1) by simp
  then have "vista sb' p \<noteq> None"
    using vista_ocupado [OF fs_invD(2) _ m(4)] ocupado_tras(1) [OF m(3,2)] by simp
  with m(1) c show ?thesis by simp
qed

lemma directorio_lleno_witness:
  "\<exists>sb. fs_alcanzable sb
    \<and> fst (fisopfs_create e_ej (''/'' @ letra 15) 0x1A4 sb) = - ENOSPC
    \<and> vista (snd (fisopfs_create e_ej (''/'' @ letra 15) 0x1A4 sb)) = (vista sb)(''/'' @ letra 15 \<mapsto> Fichero [])
    \<and> fst (fisopfs_mkdir e_ej (''/'' @ letra 15) 0x1A4 sb) = - 1
    \<and> vista (snd (fisopfs_mkdir e_ej (''/'' @ letra 15) 0x1A4 sb)) (''/'' @ letra 15) \<noteq> None"
proof -
  obtain sb where sb: "fs_alcanzable sb" "vista sb ''/'' = Some (Directorio (map letra [0..<15]))"
    "vista sb (''/'' @ letra 15) = None" "finite (dom (vista sb))" "card (dom (vista sb)) < MAX_INODES"
    by (rule raiz_llena)
  obtain i0 where i0: "i0 < MAX_INODES" "bitmap_inodes sb i0 = LIBRE"
    using hay_libre [OF fs_alcanzable_inv [OF sb(1)] sb(4,5)] by blast
  have p: "cstring (''/'' @ letra 15)" "length (''/'' @ letra 15) < MAX_PATH"
    "ruta_absoluta (''/'' @ letra 15)" "separar_path (''/'' @ letra 15) = (''/'', letra 15)"
    using letra_no(3,4) [of 15]
    by (auto simp: letra_def cstring_def ruta_absoluta_def MAX_PATH_def separar_path_def strrchr_def ROOT_PATH_def)
  have "letra 15 \<notin> set (map letra [0..<15])" by (auto dest!: letra_inj [rotated 2])
  from directorio_lleno [OF sb(1) p sb(3,2) this _ i0, of e_ej "0x1A4"] sb(1) show ?thesis by auto
qed

text \<open>
  A directory that is not under the root and one under the root differ: the size of
  the second counts one entry more than it lists, so with fifteen names it counts
  sixteen, and then removing any of its files reads past the end of \<open>content\<close>.
\<close>

theorem unlink_desborda:
  assumes "fs_alcanzable sb" "vista sb p = Some (Fichero xs)" "separar_path p = (dp, n)"
    and "vista sb dp = Some (Directorio ns)" "n \<in> set ns"
    and "buscar_inodo dp sb = int d" "cant_entradas (tam (inodos sb d)) = 16"
  shows "fisopfs_unlink p sb = None"
  using unlink_total [OF fs_alcanzable_inv [OF assms(1)] assms(3)] assms by (simp add: cuenta_def)

lemma unlink_desborda_witness:
  "\<exists>sb. fs_alcanzable sb \<and> fisopfs_unlink (''/a/'' @ letra 0) sb = None"
proof -
  have inv2: "fs_inv sb_ej2" by (rule fs_alcanzable_inv [OF ej2_estado(1)])
  have dom2: "dom (vista sb_ej2) = {''/'', ''/a''}"
    unfolding ej2_dom ..
  obtain d where d: "buscar_inodo ''/a'' sb_ej2 = int d" "tam (inodos sb_ej2 d) = 520"
    using ej2_tam by blast
  have p: "cstring (''/a/'' @ letra k) \<and> length (''/a/'' @ letra k) < MAX_PATH \<and> ruta_absoluta (''/a/'' @ letra k)
      \<and> separar_path (''/a/'' @ letra k) = (''/a'', letra k) \<and> vista sb_ej2 (''/a/'' @ letra k) = None
      \<and> letra k \<notin> set [''.''] \<and> ''/a/'' @ letra k \<noteq> ''/a''" if "k < 16" for k
  proof -
    have "(''/a/'' @ letra k) \<notin> dom (vista sb_ej2)" by (simp add: dom2 letra_def)
    with letra_no [of k] that show ?thesis
      by (auto simp: letra_def cstring_def ruta_absoluta_def MAX_PATH_def separar_path_def strrchr_def
          ROOT_PATH_def dom_def nth_Cons')
  qed
  obtain sb where sb: "fs_alcanzable sb" "vista sb ''/a'' = Some (Directorio ([''.''] @ map letra [0..<14]))"
    "vista sb (''/a/'' @ letra 0) = Some (Fichero [])" "buscar_inodo ''/a'' sb = int d"
    "tam (inodos sb d) = 520 + word_of_nat (260 * 14)"
    using llenar [OF ej2_estado(1,2) d(1) _ _ p, where j = 14] d(2) by (auto simp: dom2)
  have "cant_entradas (tam (inodos sb d)) = 16"
    using cant_entradas_mult [of 16] by (simp add: sb(5))
  moreover have "letra 0 \<in> set ([''.''] @ map letra [0..<14])" by simp
  ultimately have "fisopfs_unlink (''/a/'' @ letra 0) sb = None"
    using unlink_desborda [OF sb(1,3) _ sb(2) _ sb(4)] p [of 0] by simp
  with sb(1) show ?thesis by blast
qed

section \<open>A path longer than its field\<close>

text \<open>
  \<open>create\<close> copies at most 255 characters of the path. When the path is longer and the
  call returns 0, no \<open>getattr\<close> of the same path finds the new file.
\<close>

theorem ruta_larga:
  assumes "fs_alcanzable sb" "MAX_PATH \<le> length p" "fisopfs_create e p mode sb = (0, sb')"
  shows "fst (fisopfs_getattr p st sb') = - ENOENT"
proof -
  note inv = fs_alcanzable_inv [OF assms(1)]
  obtain d n where dn: "obtener_dir_padre p sb = Inr (d, n)"
    using assms(3) by (cases "obtener_dir_padre p sb")
      (auto simp: fisopfs_create_def dest: obtener_dir_padre_Inl simp: errno_defs)
  note d = obtener_dir_padre_Inr [OF dn]
  have be: "\<not> buscar_entrada_en_directorio sb d n \<ge> 0"
    using assms(3) dn by (auto simp: fisopfs_create_def errno_defs)
  obtain idx sb1 where cr: "crear_inodo e sb p REG_T = (idx, sb1)" by fastforce
  then obtain i r where r: "idx = int i" "i < MAX_INODES" "bitmap_inodes sb i = LIBRE"
      "sb1 = nuevo_inodo i r sb" "path r = take (MAX_PATH - 1) p"
  proof (cases rule: crear_inodo_cases)
    case lleno
    with assms(3) dn be cr show ?thesis by (simp add: fisopfs_create_def errno_defs)
  next
    case (nuevo i r)
    with that show ?thesis by blast
  qed
  obtain ok sb3 where ag: "agregar_entrada_directorio (con_inodo i (\<lambda>r. r\<lparr>permisos := mode\<rparr>) sb1) d i = (ok, sb3)"
    by fastforce
  have sb': "sb' = sb3"
    using assms(3) dn be cr r(1) ag by (simp add: fisopfs_create_def Let_def split: if_splits)
  have same: "path (inodos sb3 j) = path (inodos (con_inodo i (\<lambda>r. r\<lparr>permisos := mode\<rparr>) sb1) j)
      \<and> bitmap_inodes sb3 j = bitmap_inodes sb1 j" for j
    using ag by (auto simp: agregar_content Let_def inodos_con_inodo split: option.splits)
  have "path (inodos sb3 j) \<noteq> p" if j: "ocupado sb3 j" for j
  proof (cases "j = i")
    case True
    then have "length (path (inodos sb3 j)) < MAX_PATH" using same [of j] r(4,5) by (simp add: MAX_PATH_def)
    with assms(2) show ?thesis by auto
  next
    case False
    then have "ocupado sb j" "path (inodos sb3 j) = path (inodos sb j)"
      using same [of j] j r(4) by (auto simp: ocupado_def inodos_con_inodo)
    with fs_invD(4) [OF inv, of j] assms(2) show ?thesis by (auto simp: inodo_ok_def)
  qed
  then have "buscar_inodo p sb3 = - 1" by (simp add: buscar_inodo_m1 buscar_inodo_neg)
  then show ?thesis by (simp add: sb' fisopfs_getattr_def)
qed

lemma ruta_larga_witness:
  "\<exists>sb'. fisopfs_create e_ej (CHR ''/'' # replicate 255 (CHR ''a'')) 0x1A4 sb_ej0 = (0, sb')
    \<and> fst (fisopfs_getattr (CHR ''/'' # replicate 255 (CHR ''a'')) stat_cero sb') = - ENOENT"
proof -
  define n where "n = replicate 255 (CHR ''a'')"
  let ?p = "CHR ''/'' # n"
  have n: "CHR ''/'' \<notin> set n" "length n = 255" by (simp_all add: n_def)
  have sep: "separar_path ?p = (''/'', n)"
    using n by (simp add: separar_path_def strrchr_cabeza ROOT_PATH_def MAX_PATH_def)
  have pd: "obtener_dir_padre ?p sb_ej0 = Inr (0, n)"
    by (simp add: obtener_dir_padre_def sep ej0_buscar ej0_raiz Let_def)
  have be: "\<not> 0 \<le> buscar_entrada_en_directorio sb_ej0 0 n"
    using buscar_entrada_lista [OF ej0_inv, of 0 n] fs_invD(1) [OF ej0_inv] ej0_raiz(1,2)
    by (simp add: raiz_ok_def)
  obtain idx sb1 where cr: "crear_inodo e_ej sb_ej0 ?p REG_T = (idx, sb1)" by fastforce
  then obtain i r where r: "idx = int i" "i < MAX_INODES" "bitmap_inodes sb_ej0 i = LIBRE"
      "sb1 = nuevo_inodo i r sb_ej0"
    using ej0_raiz(3) by (cases rule: crear_inodo_cases) (auto simp: MAX_INODES_def)
  have i0: "i \<noteq> 0" using r(3) fs_invD(1) [OF ej0_inv] by (cases "i = 0") (auto simp: raiz_ok_def ocupado_def)
  have "content (inodos (con_inodo i (\<lambda>r. r\<lparr>permisos := 0x1A4\<rparr>) sb1) 0) = (\<lambda>_. CHR 0x00)"
    using i0 r(2,4) ej0_raiz(5) by (auto simp: fun_eq_iff)
  moreover have "primer_indice (\<lambda>k. ent_inodo (\<lambda>_. CHR 0x00) k = 0) MAX_DIR_ENTRIES = Some 0"
    by (rule primer_indiceI) (simp_all add: ent_inodo_cero MAX_DIR_ENTRIES_15)
  ultimately have "fst (agregar_entrada_directorio (con_inodo i (\<lambda>r. r\<lparr>permisos := 0x1A4\<rparr>) sb1) 0 i) = 0"
    by (simp add: agregar_content Let_def)
  then obtain sb3 where "agregar_entrada_directorio (con_inodo i (\<lambda>r. r\<lparr>permisos := 0x1A4\<rparr>) sb1) 0 i = (0, sb3)"
    by (cases "agregar_entrada_directorio (con_inodo i (\<lambda>r. r\<lparr>permisos := 0x1A4\<rparr>) sb1) 0 i") simp
  then have c: "fisopfs_create e_ej ?p 0x1A4 sb_ej0 = (0, sb3)"
    using pd be cr r(1) by (simp add: fisopfs_create_def Let_def)
  from ruta_larga [OF ej0_alcanzable _ this] n(2) c show ?thesis
    by (auto simp: MAX_PATH_def n_def)
qed

end
