(* ===== verification/Strings.thy ===== *)
theory Strings
  imports Prelude
begin

text \<open>
  The string and memory routines of the kernel and its user library:
  \<open>TP2-sched/lib/string.c\<close>, as built (with \<open>ASM\<close>). Memory is a function from addresses to
  bytes; an address is a natural number, since an object does not wrap around the end of
  memory. A loop that looks for the end of a string may not end: its value is then
  \<^term>\<open>None\<close>. Lengths are natural numbers. \<open>long\<close> has 32 bits.
\<close>

unbundle bit_operations_syntax

type_synonym memoria = "nat \<Rightarrow> char"

definition NUL :: char where "NUL = CHR 0x00"

section \<open>Lengths\<close>

partial_function (option) strlen_bucle :: "memoria \<Rightarrow> nat \<Rightarrow> nat \<Rightarrow> nat option" where
  "strlen_bucle m s n = (if m s = NUL then Some n else strlen_bucle m (s + 1) (n + 1))"

definition strlen :: "memoria \<Rightarrow> nat \<Rightarrow> nat option" where
  "strlen m s = strlen_bucle m s 0"

fun strnlen :: "memoria \<Rightarrow> nat \<Rightarrow> nat \<Rightarrow> nat" where
  "strnlen m s 0 = 0"
| "strnlen m s (Suc sz) = (if m s \<noteq> NUL then Suc (strnlen m (s + 1) sz) else 0)"

section \<open>Copying strings\<close>

text \<open>Each returns the memory; the pointer returned is the destination.\<close>

partial_function (option) strcpy :: "nat \<Rightarrow> nat \<Rightarrow> memoria \<Rightarrow> memoria option" where
  "strcpy dst src m =
     (if m src \<noteq> NUL then strcpy (dst + 1) (src + 1) (m(dst := m src)) else Some (m(dst := m src)))"

definition strcat :: "nat \<Rightarrow> nat \<Rightarrow> memoria \<Rightarrow> memoria option" where
  "strcat dst src m = do { len \<leftarrow> strlen m dst; strcpy (dst + len) src m }"

fun strncpy :: "nat \<Rightarrow> nat \<Rightarrow> nat \<Rightarrow> memoria \<Rightarrow> memoria" where
  "strncpy dst src 0 m = m"
| "strncpy dst src (Suc sz) m =
     (let m' = m(dst := m src) in strncpy (dst + 1) (if m' src \<noteq> NUL then src + 1 else src) sz m')"

text \<open>The loop of \<open>strlcpy\<close>, on \<open>size - 1\<close>: where the copy ends and the memory.\<close>

fun strlcpy_bucle :: "nat \<Rightarrow> nat \<Rightarrow> nat \<Rightarrow> memoria \<Rightarrow> nat \<times> memoria" where
  "strlcpy_bucle dst src 0 m = (dst, m)"
| "strlcpy_bucle dst src (Suc sz) m =
     (if m src \<noteq> NUL then strlcpy_bucle (dst + 1) (src + 1) sz (m(dst := m src)) else (dst, m))"

definition strlcpy :: "nat \<Rightarrow> nat \<Rightarrow> nat \<Rightarrow> memoria \<Rightarrow> nat \<times> memoria" where
  "strlcpy dst src sz m =
     (if sz > 0 then (let (d, m') = strlcpy_bucle dst src (sz - 1) m in (d - dst, m'(d := NUL)))
      else (0, m))"

section \<open>Comparing and searching\<close>

definition uchar :: "char \<Rightarrow> int" where
  "uchar c = of_char c"

partial_function (option) strcmp :: "memoria \<Rightarrow> nat \<Rightarrow> nat \<Rightarrow> int option" where
  "strcmp m p q = (if m p \<noteq> NUL \<and> m p = m q then strcmp m (p + 1) (q + 1) else Some (uchar (m p) - uchar (m q)))"

fun strncmp :: "memoria \<Rightarrow> nat \<Rightarrow> nat \<Rightarrow> nat \<Rightarrow> int" where
  "strncmp m p q 0 = 0"
| "strncmp m p q (Suc n) =
     (if m p \<noteq> NUL \<and> m p = m q then strncmp m (p + 1) (q + 1) n else uchar (m p) - uchar (m q))"

text \<open>The pointer found, 0 being the null pointer.\<close>

partial_function (option) strchr :: "memoria \<Rightarrow> nat \<Rightarrow> char \<Rightarrow> nat option" where
  "strchr m s c = (if m s = NUL then Some 0 else if m s = c then Some s else strchr m (s + 1) c)"

partial_function (option) strfind :: "memoria \<Rightarrow> nat \<Rightarrow> char \<Rightarrow> nat option" where
  "strfind m s c = (if m s = NUL \<or> m s = c then Some s else strfind m (s + 1) c)"

fun memcmp :: "memoria \<Rightarrow> nat \<Rightarrow> nat \<Rightarrow> nat \<Rightarrow> int" where
  "memcmp m s1 s2 0 = 0"
| "memcmp m s1 s2 (Suc n) = (if m s1 \<noteq> m s2 then uchar (m s1) - uchar (m s2) else memcmp m (s1 + 1) (s2 + 1) n)"

fun memfind :: "memoria \<Rightarrow> nat \<Rightarrow> int \<Rightarrow> nat \<Rightarrow> nat" where
  "memfind m s c 0 = s"
| "memfind m s c (Suc n) = (if uchar (m s) = c mod 256 then s else memfind m (s + 1) c n)"

section \<open>Filling and moving\<close>

text \<open>
  The string instructions with \<open>rep\<close>: \<open>stosb\<close> and \<open>stosl\<close> store the low byte or the whole
  of \<open>eax\<close>; \<open>movsb\<close> and \<open>movsl\<close> move \<open>w\<close> bytes at a time, up or (with \<open>std\<close>) down.
\<close>

definition byte_n :: "32 word \<Rightarrow> nat \<Rightarrow> char" where
  "byte_n a i = char_of (unat (drop_bit (8 * i) a))"

fun rep_stosb :: "nat \<Rightarrow> nat \<Rightarrow> 32 word \<Rightarrow> memoria \<Rightarrow> memoria" where
  "rep_stosb 0 p a m = m"
| "rep_stosb (Suc n) p a m = rep_stosb n (p + 1) a (m(p := byte_n a 0))"

fun rep_stosl :: "nat \<Rightarrow> nat \<Rightarrow> 32 word \<Rightarrow> memoria \<Rightarrow> memoria" where
  "rep_stosl 0 p a m = m"
| "rep_stosl (Suc n) p a m =
     rep_stosl n (p + 4) a (m(p := byte_n a 0, p + 1 := byte_n a 1, p + 2 := byte_n a 2, p + 3 := byte_n a 3))"

definition memset :: "nat \<Rightarrow> 32 word \<Rightarrow> nat \<Rightarrow> memoria \<Rightarrow> memoria" where
  "memset v c n m =
     (if n = 0 then m
      else if v mod 4 = 0 \<and> n mod 4 = 0 then
        (let c = take_bit 8 c; c = push_bit 24 c OR push_bit 16 c OR push_bit 8 c OR c
         in rep_stosl (n div 4) v c m)
      else rep_stosb n v c m)"

definition mover :: "nat \<Rightarrow> nat \<Rightarrow> nat \<Rightarrow> memoria \<Rightarrow> memoria" where
  "mover w d s m = (\<lambda>a. if d \<le> a \<and> a < d + w then m (s + (a - d)) else m a)"

fun rep_movs_cld :: "nat \<Rightarrow> nat \<Rightarrow> nat \<Rightarrow> nat \<Rightarrow> memoria \<Rightarrow> memoria" where
  "rep_movs_cld w 0 d s m = m"
| "rep_movs_cld w (Suc n) d s m = rep_movs_cld w n (d + w) (s + w) (mover w d s m)"

fun rep_movs_std :: "nat \<Rightarrow> nat \<Rightarrow> nat \<Rightarrow> nat \<Rightarrow> memoria \<Rightarrow> memoria" where
  "rep_movs_std w 0 d s m = m"
| "rep_movs_std w (Suc n) d s m = rep_movs_std w n (d - w) (s - w) (mover w d s m)"

definition memmove :: "nat \<Rightarrow> nat \<Rightarrow> nat \<Rightarrow> memoria \<Rightarrow> memoria" where
  "memmove dst src n m =
     (if src < dst \<and> src + n > dst then
        (let s = src + n; d = dst + n in
         if s mod 4 = 0 \<and> d mod 4 = 0 \<and> n mod 4 = 0 then rep_movs_std 4 (n div 4) (d - 4) (s - 4) m
         else rep_movs_std 1 n (d - 1) (s - 1) m)
      else if src mod 4 = 0 \<and> dst mod 4 = 0 \<and> n mod 4 = 0 then rep_movs_cld 4 (n div 4) dst src m
      else rep_movs_cld 1 n dst src m)"

definition memcpy :: "nat \<Rightarrow> nat \<Rightarrow> nat \<Rightarrow> memoria \<Rightarrow> memoria" where
  "memcpy dst src n m = memmove dst src n m"

section \<open>Reading numbers\<close>

definition es_blanco :: "char \<Rightarrow> bool" where
  "es_blanco c \<longleftrightarrow> c = CHR 0x20 \<or> c = CHR 0x09"

partial_function (option) saltar_blancos :: "memoria \<Rightarrow> nat \<Rightarrow> nat option" where
  "saltar_blancos m s = (if es_blanco (m s) then saltar_blancos m (s + 1) else Some s)"

definition valor_digito :: "char \<Rightarrow> int option" where
  "valor_digito c =
     (if uchar c \<ge> 48 \<and> uchar c \<le> 57 then Some (uchar c - 48)
      else if uchar c \<ge> 97 \<and> uchar c \<le> 122 then Some (uchar c - 97 + 10)
      else if uchar c \<ge> 65 \<and> uchar c \<le> 90 then Some (uchar c - 65 + 10)
      else None)"

partial_function (option) strtol_digitos :: "memoria \<Rightarrow> nat \<Rightarrow> int \<Rightarrow> 32 word \<Rightarrow> (32 word \<times> nat) option" where
  "strtol_digitos m s base val =
     (case valor_digito (m s) of
        None \<Rightarrow> Some (val, s)
      | Some dig \<Rightarrow>
          if dig \<ge> base then Some (val, s)
          else strtol_digitos m (s + 1) base (val * word_of_int base + word_of_int dig))"

text \<open>The value and \<open>*endptr\<close>.\<close>

definition strtol :: "memoria \<Rightarrow> nat \<Rightarrow> int \<Rightarrow> (int \<times> nat) option" where
  "strtol m s base =
     do {
       s \<leftarrow> saltar_blancos m s;
       let (s, neg) = (if m s = CHR 0x2B then (s + 1, False)
                       else if m s = CHR 0x2D then (s + 1, True) else (s, False));
       let (s, base) = (if (base = 0 \<or> base = 16) \<and> m s = CHR 0x30 \<and> m (s + 1) = CHR 0x78 then (s + 2, 16)
                        else if base = 0 \<and> m s = CHR 0x30 then (s + 1, 8)
                        else if base = 0 then (s, 10) else (s, base));
       (val, fin) \<leftarrow> strtol_digitos m s base 0;
       Some (if neg then sint (- val) else sint val, fin)
     }"

end
