(* ===== verification/Printfmt.thy ===== *)
theory Printfmt
  imports Strings Kern_State
begin

text \<open>
  Formatted output: \<open>TP2-sched/lib/printfmt.c\<close> and \<open>lib/printf.c\<close>. A format is a string, the
  variable arguments are the 32-bit words on the stack, and what is printed is the list
  of the integers given to \<open>putch\<close>. \<^term>\<open>None\<close> is a missing argument, an index outside a
  table or a string without end. Memory does not change while a format is printed: the
  buffer of \<open>vsnprintf\<close> overlaps none of the strings it prints. Widths are taken not to
  overflow an \<open>int\<close>.
\<close>

section \<open>Numbers\<close>

definition putc :: "char \<Rightarrow> 32 word" where
  "putc c = word_of_int (uchar c)"

definition digitos_hex :: string where
  "digitos_hex = ''0123456789abcdef''"

text \<open>\<open>printnum\<close>; the base is 8, 10 or 16.\<close>

fun printnum :: "nat \<Rightarrow> nat \<Rightarrow> int \<Rightarrow> char \<Rightarrow> 32 word list" where
  "printnum num base width padc =
     (if num \<ge> base \<and> base > 1 then printnum (num div base) base (width - 1) padc
      else replicate (nat (width - 1)) (putc padc))
     @ [putc (digitos_hex ! (num mod base))]"

declare printnum.simps [simp del]

type_synonym va_list = "32 word list"

definition va_int :: "va_list \<Rightarrow> (int \<times> va_list) option" where
  "va_int ap = (case ap of [] \<Rightarrow> None | w # ws \<Rightarrow> Some (sint w, ws))"

definition va_largo :: "va_list \<Rightarrow> (64 word \<times> va_list) option" where
  "va_largo ap = (case ap of lo # hi # ws \<Rightarrow> Some (word_cat hi lo, ws) | _ \<Rightarrow> None)"

definition getuint :: "va_list \<Rightarrow> nat \<Rightarrow> (nat \<times> va_list) option" where
  "getuint ap lflag =
     (if lflag \<ge> 2 then do { (w, ap) \<leftarrow> va_largo ap; Some (unat w, ap) }
      else case ap of [] \<Rightarrow> None | w # ws \<Rightarrow> Some (unat w, ws))"

definition getint :: "va_list \<Rightarrow> nat \<Rightarrow> (int \<times> va_list) option" where
  "getint ap lflag =
     (if lflag \<ge> 2 then do { (w, ap) \<leftarrow> va_largo ap; Some (sint w, ap) } else va_int ap)"

section \<open>Error names\<close>

definition MAXERROR :: int where "MAXERROR = 9"

definition error_string :: "string option list" where
  "error_string = [None, Some ''unspecified error'', Some ''bad environment'', Some ''invalid parameter'',
     Some ''out of memory'', Some ''out of environments'', Some ''segmentation fault'',
     Some ''env is not recving'', Some ''unexpected end of file'']"

text \<open>\<open>%e\<close>. The negation of the least \<open>int\<close> is itself, an index before the table.\<close>

definition imprimir_error :: "int \<Rightarrow> 32 word list option" where
  "imprimir_error arg =
     (let err = (if arg < 0 then sint (word_of_int (- arg) :: 32 word) else arg) in
      if err \<ge> MAXERROR then Some (map putc ''error '' @ printnum (nat err) 10 (-1) CHR 0x20)
      else if err < 0 then None
      else case error_string ! nat err of
             None \<Rightarrow> Some (map putc ''error '' @ printnum (nat err) 10 (-1) CHR 0x20)
           | Some p \<Rightarrow> Some (map putc p))"

section \<open>Strings\<close>

definition schar :: "char \<Rightarrow> int" where
  "schar c = (if uchar c \<ge> 128 then uchar c - 256 else uchar c)"

text \<open>The loop that prints the characters: what it prints and the width that is left.\<close>

partial_function (option) cadena_bucle :: "memoria \<Rightarrow> nat \<Rightarrow> int \<Rightarrow> int \<Rightarrow> bool \<Rightarrow> (32 word list \<times> int) option" where
  "cadena_bucle m p precision width alt =
     (if m p = NUL then Some ([], width)
      else if precision < 0 \<or> precision - 1 \<ge> 0 then
        do {
          (o', w) \<leftarrow> cadena_bucle m (p + 1) (if precision < 0 then precision else precision - 1) (width - 1) alt;
          Some ((if alt \<and> (schar (m p) < 32 \<or> schar (m p) > 126) then putc CHR 0x3F else word_of_int (schar (m p))) # o', w)
        }
      else Some ([], width))"

definition imprimir_cadena :: "memoria \<Rightarrow> nat \<Rightarrow> char \<Rightarrow> int \<Rightarrow> int \<Rightarrow> bool \<Rightarrow> 32 word list option" where
  "imprimir_cadena m p padc width precision alt =
     (let relleno = (if width > 0 \<and> padc \<noteq> CHR 0x2D
                     then width - int (strnlen m p (unat (word_of_int precision :: 32 word))) else 0);
          w1 = (if width > 0 \<and> padc \<noteq> CHR 0x2D then min relleno 0 else width)
      in do {
        (o', w2) \<leftarrow> cadena_bucle m p precision w1 alt;
        Some (replicate (nat relleno) (putc padc) @ o' @ replicate (nat w2) (putc CHR 0x20))
      })"

definition memoria_null :: memoria where
  "memoria_null a = (if a < 6 then ''(null)'' ! a else NUL)"

section \<open>Directives\<close>

record spec =
  padc :: char
  width :: int
  precision :: int
  lflag :: nat
  altflag :: bool

definition spec_inicial :: spec where
  "spec_inicial = \<lparr>padc = CHR 0x20, width = -1, precision = -1, lflag = 0, altflag = False\<rparr>"

definition process_precision :: "spec \<Rightarrow> spec" where
  "process_precision s = (if width s < 0 then s\<lparr>width := precision s, precision := -1\<rparr> else s)"

definition es_digito :: "char \<Rightarrow> bool" where
  "es_digito c \<longleftrightarrow> 48 \<le> uchar c \<and> uchar c \<le> 57"

definition leer_numero :: "string \<Rightarrow> int" where
  "leer_numero ds = foldl (\<lambda>p c. p * 10 + uchar c - 48) 0 ds"

text \<open>
  The conversions: what is printed and the arguments left; the outer \<^term>\<open>None\<close> for a
  character that is no conversion.
\<close>

definition conversion :: "memoria \<Rightarrow> char \<Rightarrow> spec \<Rightarrow> va_list \<Rightarrow> (32 word list \<times> va_list) option option" where
  "conversion m ch s ap =
     (if ch = CHR ''c'' then Some (case ap of [] \<Rightarrow> None | a # ap \<Rightarrow> Some ([a], ap))
      else if ch = CHR ''e'' then Some (do { (a, ap) \<leftarrow> va_int ap; o' \<leftarrow> imprimir_error a; Some (o', ap) })
      else if ch = CHR ''s'' then
        Some (case ap of
            [] \<Rightarrow> None
          | a # ap \<Rightarrow> do {
              o' \<leftarrow> (if a = 0 then imprimir_cadena memoria_null 0 (padc s) (width s) (precision s) (altflag s)
                     else imprimir_cadena m (unat a) (padc s) (width s) (precision s) (altflag s));
              Some (o', ap)
            })
      else if ch = CHR ''d'' then
        Some (do {
          (n, ap) \<leftarrow> getint ap (lflag s);
          Some (if n < 0 then putc CHR 0x2D # printnum (nat (- n)) 10 (width s) (padc s)
                else printnum (nat n) 10 (width s) (padc s), ap)
        })
      else if ch = CHR ''u'' then
        Some (do { (n, ap) \<leftarrow> getuint ap (lflag s); Some (printnum n 10 (width s) (padc s), ap) })
      else if ch = CHR ''o'' then
        Some (do { (n, ap) \<leftarrow> getuint ap (lflag s); Some (printnum n 8 (width s) (padc s), ap) })
      else if ch = CHR ''p'' then
        Some (case ap of [] \<Rightarrow> None
          | a # ap \<Rightarrow> Some (map putc ''0x'' @ printnum (unat a) 16 (width s) (padc s), ap))
      else if ch = CHR ''x'' then
        Some (do { (n, ap) \<leftarrow> getuint ap (lflag s); Some (printnum n 16 (width s) (padc s), ap) })
      else if ch = CHR 0x25 then Some (Some ([putc ch], ap))
      else None)"

text \<open>
  From after the \<open>%\<close>, where the format is \<open>orig\<close>: flags, width and precision, then the
  conversion. An unknown one, or the end of the format, prints the \<open>%\<close> and goes back to
  \<open>orig\<close>. The result is what is printed, the rest of the format and of the arguments.
\<close>

function directiva :: "memoria \<Rightarrow> string \<Rightarrow> string \<Rightarrow> spec \<Rightarrow> va_list \<Rightarrow> (32 word list \<times> string \<times> va_list) option" where
  "directiva m orig [] s ap = Some ([putc CHR 0x25], orig, ap)"
| "directiva m orig (ch # fmt) s ap =
     (if ch = CHR 0x2D then directiva m orig fmt (s\<lparr>padc := CHR 0x2D\<rparr>) ap
      else if ch = CHR 0x30 then directiva m orig fmt (s\<lparr>padc := CHR 0x30\<rparr>) ap
      else if es_digito ch then
        directiva m orig (dropWhile es_digito fmt)
          (process_precision (s\<lparr>precision := leer_numero (ch # takeWhile es_digito fmt)\<rparr>)) ap
      else if ch = CHR 0x2A then
        (case va_int ap of
           None \<Rightarrow> None
         | Some (a, ap) \<Rightarrow> directiva m orig fmt (process_precision (s\<lparr>precision := a\<rparr>)) ap)
      else if ch = CHR 0x2E then directiva m orig fmt (if width s < 0 then s\<lparr>width := 0\<rparr> else s) ap
      else if ch = CHR 0x23 then directiva m orig fmt (s\<lparr>altflag := True\<rparr>) ap
      else if ch = CHR ''l'' then directiva m orig fmt (s\<lparr>lflag := lflag s + 1\<rparr>) ap
      else
        case conversion m ch s ap of
          Some r \<Rightarrow> do { (o', ap) \<leftarrow> r; Some (o', fmt, ap) }
        | None \<Rightarrow> Some ([putc CHR 0x25], orig, ap))"
  by pat_completeness auto

termination
  by (relation "measure (\<lambda>(_, _, fmt, _, _). length fmt)") (auto simp: length_dropWhile_le le_imp_less_Suc)

declare directiva.simps(2) [simp del]

lemma directiva_corta:
  "directiva m orig fmt s ap = Some (o', fmt', ap') \<Longrightarrow> length fmt \<le> length orig \<Longrightarrow> length fmt' \<le> length orig"
proof (induction m orig fmt s ap rule: directiva.induct)
  case (2 m orig ch fmt s ap)
  have "length (dropWhile es_digito fmt) \<le> length orig" using "2.prems"(2) length_dropWhile_le [of es_digito fmt] by simp
  with "2" show ?case
    by (auto simp: directiva.simps(2) split: if_splits option.splits bind_splits)
qed auto

section \<open>Formats\<close>

function vprintfmt :: "memoria \<Rightarrow> string \<Rightarrow> va_list \<Rightarrow> 32 word list option" where
  "vprintfmt m [] ap = Some []"
| "vprintfmt m (ch # fmt) ap =
     (if ch \<noteq> CHR 0x25 then do { o' \<leftarrow> vprintfmt m fmt ap; Some (putc ch # o') }
      else case directiva m fmt fmt spec_inicial ap of
             None \<Rightarrow> None
           | Some (o', fmt', ap') \<Rightarrow> do { os \<leftarrow> vprintfmt m fmt' ap'; Some (o' @ os) })"
  by pat_completeness auto

termination
  by (relation "measure (\<lambda>(_, fmt, _). length fmt)") (auto dest: directiva_corta simp: le_imp_less_Suc)

declare vprintfmt.simps(2) [simp del]

section \<open>Printing to a buffer\<close>

record sprintbuf =
  sb_buf :: nat
  sb_ebuf :: nat
  sb_cnt :: nat

definition sprintputch :: "32 word \<Rightarrow> sprintbuf \<times> memoria \<Rightarrow> sprintbuf \<times> memoria" where
  "sprintputch ch bm =
     (let b = (fst bm)\<lparr>sb_cnt := sb_cnt (fst bm) + 1\<rparr> in
      if sb_buf b < sb_ebuf b then (b\<lparr>sb_buf := sb_buf b + 1\<rparr>, (snd bm)(sb_buf b := byte_n ch 0)) else (b, snd bm))"

definition vsnprintf :: "nat \<Rightarrow> int \<Rightarrow> string \<Rightarrow> va_list \<Rightarrow> memoria \<Rightarrow> (int \<times> memoria) option" where
  "vsnprintf buf n fmt ap m =
     (if buf = 0 \<or> n < 1 then Some (- E_INVAL, m)
      else do {
        os \<leftarrow> vprintfmt m fmt ap;
        let (b, m') = fold sprintputch os (\<lparr>sb_buf = buf, sb_ebuf = buf + nat n - 1, sb_cnt = 0\<rparr>, m);
        Some (int (sb_cnt b), m'(sb_buf b := NUL))
      })"

section \<open>Printing to the console (lib/printf.c)\<close>

record printbuf =
  pb_buf :: string
  pb_cnt :: nat

text \<open>\<open>putch\<close>: the state and the strings given to \<open>sys_cputs\<close> so far.\<close>

definition putch_cons :: "32 word \<Rightarrow> printbuf \<times> string list \<Rightarrow> printbuf \<times> string list" where
  "putch_cons ch bs =
     (let b = (fst bs)\<lparr>pb_buf := pb_buf (fst bs) @ [byte_n ch 0]\<rparr>;
          (b, ss) = (if length (pb_buf b) = 256 - 1 then (b\<lparr>pb_buf := []\<rparr>, snd bs @ [pb_buf b]) else (b, snd bs))
      in (b\<lparr>pb_cnt := pb_cnt b + 1\<rparr>, ss))"

definition vcprintf :: "memoria \<Rightarrow> string \<Rightarrow> va_list \<Rightarrow> (nat \<times> string list) option" where
  "vcprintf m fmt ap =
     do {
       os \<leftarrow> vprintfmt m fmt ap;
       let (b, ss) = fold putch_cons os (\<lparr>pb_buf = [], pb_cnt = 0\<rparr>, []);
       Some (pb_cnt b, ss @ [pb_buf b])
     }"

end
