(* ===== verification/Print_Claims.thy ===== *)
theory Print_Claims
  imports Printfmt
begin

text \<open>
  The properties of the memory, string and formatting routines: moving and filling memory,
  reading back a printed number, and the bounds of \<open>vsnprintf\<close>.
\<close>

section \<open>Moving memory\<close>

text \<open>A whole copy made of blocks of \<open>w\<close> bytes, upwards and downwards.\<close>

lemma rep_movs_cld_copia:
  assumes "d \<le> s \<or> s + w * n \<le> d"
  shows "rep_movs_cld w n d s m = mover (w * n) d s m"
  using assms
proof (induction n arbitrary: d s m)
  case (Suc n)
  let ?m = "mover w d s m"
  have "d + w \<le> s + w \<or> s + w + w * n \<le> d + w" using Suc.prems by auto
  from Suc.IH [OF this] have "rep_movs_cld w (Suc n) d s m = mover (w * n) (d + w) (s + w) ?m" by simp
  also have "\<dots> = mover (w * Suc n) d s m"
  proof
    fix a
    consider "a < d" | "d \<le> a" "a < d + w" | "d + w \<le> a" "a < d + w + w * n" | "d + w + w * n \<le> a" by linarith
    then show "mover (w * n) (d + w) (s + w) ?m a = mover (w * Suc n) d s m a"
    proof cases
      case 3
      then obtain j where a: "a = d + w + j" "j < w * n" by (metis le_Suc_ex nat_add_left_cancel_less)
      then have "\<not> (d \<le> s + w + j \<and> s + w + j < d + w)" using Suc.prems by auto
      then have "?m (s + w + j) = m (s + w + j)" by (auto simp: mover_def)
      moreover have "mover (w * n) (d + w) (s + w) ?m a = ?m (s + w + j)" using a by (simp add: mover_def [of "w * n"])
      moreover have "mover (w * Suc n) d s m a = m (s + w + j)" using a by (simp add: mover_def add.assoc)
      ultimately show ?thesis by simp
    qed (auto simp: mover_def)
  qed
  finally show ?case .
qed (auto simp: mover_def fun_eq_iff)

lemma rep_movs_std_copia:
  assumes "s + w \<le> d"
  shows "rep_movs_std w n (d + w * n - w) (s + w * n - w) m = mover (w * n) d s m"
proof (induction n arbitrary: m)
  case (Suc n)
  let ?m = "mover w (d + w * n) (s + w * n) m"
  have "rep_movs_std w (Suc n) (d + w * Suc n - w) (s + w * Suc n - w) m = rep_movs_std w n (d + w * n - w) (s + w * n - w) ?m"
    by simp
  also have "\<dots> = mover (w * n) d s ?m" by (rule Suc.IH)
  also have "\<dots> = mover (w * Suc n) d s m"
  proof
    fix a
    consider "a < d" | "d \<le> a" "a < d + w * n" | "d + w * n \<le> a" "a < d + w * n + w" | "d + w * n + w \<le> a" by linarith
    then show "mover (w * n) d s ?m a = mover (w * Suc n) d s m a"
    proof cases
      case 2
      then have "s + (a - d) < d + w * n" using assms by linarith
      with 2 show ?thesis by (simp add: mover_def)
    next
      case 3
      then have "s + w * n + (a - (d + w * n)) = s + (a - d)" by simp
      with 3 show ?thesis by (simp add: mover_def)
    qed (auto simp: mover_def)
  qed
  finally show ?case .
qed (auto simp: mover_def fun_eq_iff)

text \<open>
  C28: \<open>memmove\<close> moves a block of memory, whatever the overlap and the alignment: the \<open>n\<close>
  bytes from \<open>dst\<close> are the \<open>n\<close> bytes that were at \<open>src\<close>, and no other byte changes. The code
  goes up or down and by words or bytes according to the addresses.
\<close>

theorem memmove_correcto:
  "memmove dst src n m a = (if dst \<le> a \<and> a < dst + n then m (src + (a - dst)) else m a)"
proof -
  have "memmove dst src n m = mover n dst src m"
  proof (cases "src < dst \<and> src + n > dst")
    case True
    have al: "n mod 4 = 0 \<Longrightarrow> 4 * (n div 4) = n" by (simp add: mult.commute mod_0_imp_dvd)
    show ?thesis
    proof (cases "(src + n) mod 4 = 0 \<and> (dst + n) mod 4 = 0 \<and> n mod 4 = 0")
      case w: True
      then have "src mod 4 = 0" "dst mod 4 = 0" by presburger+
      with True have "src + 4 \<le> dst" by presburger
      from rep_movs_std_copia [OF this, of "n div 4" m] al w True show ?thesis
        by (simp add: memmove_def Let_def)
    next
      case False
      have "src + 1 \<le> dst" using True by simp
      from rep_movs_std_copia [OF this, of n m] True False show ?thesis by (auto simp: memmove_def Let_def)
    qed
  next
    case False
    then have o': "dst \<le> src \<or> src + k \<le> dst" if "k \<le> n" for k using that by linarith
    show ?thesis
    proof (cases "src mod 4 = 0 \<and> dst mod 4 = 0 \<and> n mod 4 = 0")
      case True
      then have n: "4 * (n div 4) = n" by (simp add: mult.commute mod_0_imp_dvd)
      have "dst \<le> src \<or> src + 4 * (n div 4) \<le> dst" unfolding n by (rule o') simp
      from rep_movs_cld_copia [OF this, of m] True False n show ?thesis by (auto simp: memmove_def)
    next
      case no: False
      have "dst \<le> src \<or> src + 1 * n \<le> dst" using o' by simp
      from rep_movs_cld_copia [OF this, of m] no False show ?thesis by (auto simp: memmove_def)
    qed
  qed
  then show ?thesis by (simp add: mover_def)
qed

section \<open>Printing to a buffer\<close>

lemma byte_putc [simp]: "byte_n (putc c) 0 = c"
proof -
  have n: "of_char c < (256 :: nat)" by (rule nat_of_char_less_256)
  have "word_of_int (uchar c) = (word_of_nat (of_char c) :: 32 word)"
    by (simp add: uchar_def flip: of_nat_of_char [where 'a = int])
  then have "unat (word_of_int (uchar c) :: 32 word) = of_char c"
    using unat_de_nat32 [of "of_char c"] less_trans [OF n, of 4294967296] by simp
  then show ?thesis by (simp add: byte_n_def putc_def)
qed

lemma fold_sprintputch:
  assumes "buf \<le> e"
  shows "fold sprintputch os (\<lparr>sb_buf = buf, sb_ebuf = e, sb_cnt = c\<rparr>, m)
    = (\<lparr>sb_buf = buf + min (length os) (e - buf), sb_ebuf = e, sb_cnt = c + length os\<rparr>,
       \<lambda>a. if buf \<le> a \<and> a < buf + min (length os) (e - buf) then byte_n (os ! (a - buf)) 0 else m a)"
  using assms
proof (induction os arbitrary: buf c m)
  case (Cons ch os)
  show ?case
  proof (cases "buf < e")
    case True
    then have "Suc buf \<le> e" by simp
    note ih = Cons.IH [OF this, of "c + 1" "m(buf := byte_n ch 0)"]
    have k: "min (length (ch # os)) (e - buf) = Suc (min (length os) (e - Suc buf))" using True by simp
    have step: "sprintputch ch (\<lparr>sb_buf = buf, sb_ebuf = e, sb_cnt = c\<rparr>, m)
      = (\<lparr>sb_buf = Suc buf, sb_ebuf = e, sb_cnt = c + 1\<rparr>, m(buf := byte_n ch 0))"
      using True by (simp add: sprintputch_def Let_def)
    have f: "(if Suc buf \<le> a \<and> a < Suc buf + min (length os) (e - Suc buf) then byte_n (os ! (a - Suc buf)) 0
        else (m(buf := byte_n ch 0)) a)
      = (if buf \<le> a \<and> a < buf + Suc (min (length os) (e - Suc buf)) then byte_n ((ch # os) ! (a - buf)) 0 else m a)" for a
    proof (cases "a = buf")
      case False
      then show ?thesis
      proof (cases "a - buf")
        case (Suc j)
        then have "a - Suc buf = j" by simp
        with Suc False show ?thesis by auto
      qed auto
    qed simp
    show ?thesis unfolding fold_simps step ih k f by simp
  next
    case False
    then have e: "e = buf" using Cons.prems by simp
    have step: "sprintputch ch (\<lparr>sb_buf = buf, sb_ebuf = e, sb_cnt = c\<rparr>, m)
      = (\<lparr>sb_buf = buf, sb_ebuf = e, sb_cnt = c + 1\<rparr>, m)" by (simp add: sprintputch_def Let_def e)
    show ?thesis using Cons.IH [OF Cons.prems, of "c + 1" m] unfolding fold_simps step by (auto simp: e fun_eq_iff)
  qed
qed (auto simp: fun_eq_iff)

lemma vsnprintf_forma:
  assumes "buf \<noteq> 0" "1 \<le> n" "vprintfmt m fmt ap = Some os"
  defines "k \<equiv> min (length os) (nat n - 1)"
  shows "vsnprintf buf n fmt ap m = Some (int (length os),
    (\<lambda>a. if buf \<le> a \<and> a < buf + k then byte_n (os ! (a - buf)) 0 else m a)(buf + k := NUL))"
proof -
  have "\<not> (buf = 0 \<or> n < 1)" "buf \<le> buf + nat n - 1" "buf + nat n - 1 - buf = nat n - 1"
    using assms(1,2) by simp_all
  then show ?thesis
    unfolding vsnprintf_def using assms(3) fold_sprintputch [of buf "buf + nat n - 1" os 0 m]
    by (simp add: Let_def k_def)
qed

text \<open>
  C29: \<open>vsnprintf\<close> never writes outside its buffer. For a buffer of \<open>n\<close> bytes and a format
  that prints, it returns the number of characters of the whole text, stores as many of
  them as fit in \<open>n - 1\<close> bytes, ends them with a NUL, and changes no byte before the
  buffer, after that NUL or beyond the \<open>n\<close> bytes; with a null buffer or no room it returns
  \<open>-E_INVAL\<close> and writes nothing.
\<close>

theorem vsnprintf_acotado:
  assumes "vprintfmt m fmt ap = Some os"
  shows "\<exists>r m'. vsnprintf buf n fmt ap m = Some (r, m')
    \<and> (if buf = 0 \<or> n < 1 then r = - E_INVAL \<and> m' = m
       else r = int (length os)
        \<and> (\<forall>i. i < length os \<and> int i < n - 1 \<longrightarrow> m' (buf + i) = byte_n (os ! i) 0)
        \<and> m' (buf + min (length os) (nat n - 1)) = NUL
        \<and> (\<forall>a. a < buf \<or> a > buf + min (length os) (nat n - 1) \<or> a \<ge> buf + nat n \<longrightarrow> m' a = m a))"
proof (cases "buf = 0 \<or> n < 1")
  case True
  then show ?thesis by (simp add: vsnprintf_def)
next
  case False
  then have b: "buf \<noteq> 0" "1 \<le> n" by simp_all
  define N where "N = nat n - 1"
  have n: "nat n = Suc N" "n = int (Suc N)" using b(2) by (simp_all add: N_def)
  define k where "k = min (length os) (nat n - 1)"
  define m' where "m' = (\<lambda>a. if buf \<le> a \<and> a < buf + k then byte_n (os ! (a - buf)) 0 else m a)(buf + k := NUL)"
  have v: "vsnprintf buf n fmt ap m = Some (int (length os), m')"
    using vsnprintf_forma [OF b assms] by (simp add: m'_def k_def)
  have i: "m' (buf + i) = byte_n (os ! i) 0" if "i < length os" "int i < n - 1" for i
    using that n by (auto simp: m'_def k_def min_def)
  have a: "m' a = m a" if "a < buf \<or> a > buf + k \<or> a \<ge> buf + nat n" for a
    using that n(1) by (auto simp: m'_def k_def)
  have z: "m' (buf + k) = NUL" by (simp add: m'_def)
  show ?thesis unfolding if_not_P [OF False] k_def [symmetric]
    by (intro exI conjI allI impI, rule v) (use i a z in auto)
qed

section \<open>Printed numbers\<close>

fun digitos :: "nat \<Rightarrow> nat \<Rightarrow> string" where
  "digitos num base = (if num \<ge> base \<and> base > 1 then digitos (num div base) base else []) @ [digitos_hex ! (num mod base)]"

declare digitos.simps [simp del]

lemma printnum_digitos: "w \<le> 1 \<Longrightarrow> printnum num base w p = map putc (digitos num base)"
proof (induction num base w p rule: printnum.induct)
  case (1 num base w p)
  then show ?case by (subst printnum.simps, subst digitos.simps) simp
qed

lemma valor_hex: "k < 16 \<Longrightarrow> valor_digito (digitos_hex ! k) = Some (int k)"
proof -
  have "\<forall>k\<in>set [0..<16]. valor_digito (digitos_hex ! k) = Some (int k)" by code_simp
  then show "k < 16 \<Longrightarrow> ?thesis" by simp
qed

definition texto_en :: "memoria \<Rightarrow> nat \<Rightarrow> string \<Rightarrow> bool" where
  "texto_en m s cs \<longleftrightarrow> (\<forall>i<length cs. m (s + i) = cs ! i) \<and> m (s + length cs) = NUL"

lemma texto_Cons: "texto_en m s (c # cs) \<longleftrightarrow> m s = c \<and> texto_en m (s + 1) cs"
  by (auto simp: texto_en_def nth_Cons split: nat.splits dest: spec [of _ 0] spec [of _ "Suc _"])

lemma strtol_digitos_texto:
  assumes "\<forall>c\<in>set cs. \<exists>k. valor_digito c = Some (int k) \<and> k < base" "texto_en m s cs"
  shows "strtol_digitos m s (int base) v
    = Some (foldl (\<lambda>v c. v * word_of_nat base + word_of_int (the (valor_digito c))) v cs, s + length cs)"
  using assms
proof (induction cs arbitrary: s v)
  case Nil
  have "valor_digito NUL = None" by code_simp
  with Nil show ?case by (subst strtol_digitos.simps) (simp add: texto_en_def)
next
  case (Cons c cs)
  obtain k where k: "valor_digito c = Some (int k)" "k < base" using Cons.prems(1) by auto
  have t: "m s = c" "texto_en m (s + 1) cs" using Cons.prems(2) by (simp_all add: texto_Cons)
  show ?case
    using Cons.IH [OF _ t(2)] Cons.prems(1) k(2) by (subst strtol_digitos.simps) (simp add: k(1) t(1))
qed

lemma digitos_validos:
  "2 \<le> base \<Longrightarrow> base \<le> 16 \<Longrightarrow> \<forall>c\<in>set (digitos num base). \<exists>k. valor_digito c = Some (int k) \<and> k < base"
proof (induction num base rule: digitos.induct)
  case (1 num base)
  have "num mod base < base" using "1.prems" by simp
  then have "valor_digito (digitos_hex ! (num mod base)) = Some (int (num mod base))" using "1.prems" \<open>num mod base < base\<close> by (intro valor_hex) linarith
  with 1 \<open>num mod base < base\<close> show ?case by (subst digitos.simps) auto
qed

lemma valor_digitos:
  "2 \<le> base \<Longrightarrow> base \<le> 16 \<Longrightarrow>
   foldl (\<lambda>v c. v * word_of_nat base + word_of_int (the (valor_digito c))) 0 (digitos num base) = (word_of_nat num :: 32 word)"
proof (induction num base rule: digitos.induct)
  case (1 num base)
  let ?f = "\<lambda>v c. v * word_of_nat base + word_of_int (the (valor_digito c)) :: 32 word"
  have d: "valor_digito (digitos_hex ! (num mod base)) = Some (int (num mod base))" using "1.prems" by (intro valor_hex) (simp add: less_le_trans [of _ base])
  have hi: "foldl ?f 0 (if num \<ge> base \<and> base > 1 then digitos (num div base) base else []) = word_of_nat (num div base)"
  proof (cases "num \<ge> base \<and> base > 1")
    case True
    with 1 show ?thesis by simp
  next
    case False
    with "1.prems" have "num div base = 0" by auto
    with False show ?thesis by auto
  qed
  have "foldl ?f 0 (digitos num base) = word_of_nat (num div base) * word_of_nat base + word_of_nat (num mod base)"
    by (subst digitos.simps) (simp only: foldl_append hi, simp add: d)
  also have "\<dots> = word_of_nat (num div base * base + num mod base)" unfolding of_nat_add of_nat_mult ..
  finally show ?case by simp
qed


lemma digitos_no_vacio [simp]: "digitos num base \<noteq> []"
  by (subst digitos.simps) simp

text \<open>The first characters of a printed number are neither blanks, signs nor a prefix.\<close>

lemma texto_digitos:
  assumes "2 \<le> base" "base \<le> 16" "texto_en m s (digitos num base)"
  shows "valor_digito (m s) \<noteq> None" "m (s + 1) \<noteq> CHR 0x78"
proof -
  note v = digitos_validos [OF assms(1,2), of num]
  obtain c cs where c: "digitos num base = c # cs" by (cases "digitos num base") auto
  have t: "m s = c" "texto_en m (s + 1) cs" using assms(3) by (simp_all add: c texto_Cons)
  show "valor_digito (m s) \<noteq> None" using v by (auto simp: c t(1))
  have x: "valor_digito CHR 0x78 = Some 33" by code_simp
  show "m (s + 1) \<noteq> CHR 0x78"
  proof (cases cs)
    case Nil
    with t(2) show ?thesis by (simp add: texto_en_def NUL_def)
  next
    case (Cons d ds)
    with t(2) have "m (s + 1) = d" by (simp add: texto_Cons)
    with v assms(2) x show ?thesis by (auto simp: c Cons)
  qed
qed

lemma no_digitos: "valor_digito CHR 0x20 = None" "valor_digito CHR 0x09 = None" "valor_digito CHR 0x2B = None"
  "valor_digito CHR 0x2D = None"
  by code_simp+

lemma strtol_digitos_leidos:
  assumes "2 \<le> base" "base \<le> 16" "texto_en m s (digitos num base)"
  shows "strtol_digitos m s (int base) 0 = Some (word_of_nat num, s + length (digitos num base))"
  using strtol_digitos_texto [OF digitos_validos [OF assms(1,2)] assms(3), of 0] valor_digitos [OF assms(1,2)] by simp

lemma strtol_sin_signo:
  assumes "2 \<le> base" "base \<le> 16" "texto_en m s (digitos num base)"
  shows "strtol m s (int base) = Some (sint (word_of_nat num :: 32 word), s + length (digitos num base))"
proof -
  note f = texto_digitos [OF assms]
  have "\<not> es_blanco (m s)" "m s \<noteq> CHR 0x2B" "m s \<noteq> CHR 0x2D" using f(1) no_digitos by (auto simp: es_blanco_def)
  then show ?thesis
    using f(2) assms(1) strtol_digitos_leidos [OF assms]
    by (simp add: strtol_def saltar_blancos.simps [of m s])
qed

lemma strtol_negativo:
  assumes "texto_en m s (CHR 0x2D # digitos num 10)"
  shows "strtol m s 10 = Some (sint (- word_of_nat num :: 32 word), s + length (digitos num 10) + 1)"
proof -
  have t: "m s = CHR 0x2D" "texto_en m (s + 1) (digitos num 10)" using assms by (simp_all add: texto_Cons)
  have "\<not> es_blanco (m s)" "(2 :: nat) \<le> 10" "(10 :: nat) \<le> 16" by (simp_all add: t(1) es_blanco_def)
  with strtol_digitos_leidos [OF _ _ t(2)] show ?thesis
    by (simp add: strtol_def saltar_blancos.simps [of m s] t(1))
qed

text \<open>What \<open>%d\<close>, \<open>%u\<close>, \<open>%o\<close> and \<open>%x\<close> print for one argument.\<close>

definition numero_impreso :: "char \<Rightarrow> 32 word \<Rightarrow> string" where
  "numero_impreso conv w =
     (if conv = CHR ''d'' \<and> sint w < 0 then CHR 0x2D # digitos (nat (- sint w)) 10
      else digitos (unat w) (if conv = CHR ''o'' then 8 else if conv = CHR ''x'' then 16 else 10))"

lemma vprintfmt_numero:
  assumes "conv \<in> {CHR ''d'', CHR ''u'', CHR ''o'', CHR ''x''}"
  shows "vprintfmt m [CHR 0x25, conv] [w] = Some (map putc (numero_impreso conv w))"
proof -
  have d: "\<not> es_digito conv" using assms by (auto simp: es_digito_def uchar_def)
  have n: "\<not> sint w < 0 \<Longrightarrow> nat (sint w) = unat w" using sint_nonneg_unat [of w] by simp
  show ?thesis
    using assms d n
    by (auto simp: vprintfmt.simps(2) directiva.simps(2) conversion_def spec_inicial_def getint_def getuint_def
        va_int_def printnum_digitos numero_impreso_def)
qed

text \<open>
  C30: a number printed by \<open>vsnprintf\<close> is read back by \<open>strtol\<close>. For every 32-bit argument,
  printed with \<open>%d\<close>, \<open>%u\<close>, \<open>%o\<close> or \<open>%x\<close> into a buffer where it fits, \<open>strtol\<close> with the base of
  the conversion returns the argument as a \<open>long\<close> and leaves \<open>*endptr\<close> at the end of the
  text; the least negative number is included.
\<close>

theorem imprimir_leer:
  assumes "(conv, base) \<in> {(CHR ''d'', 10), (CHR ''u'', 10), (CHR ''o'', 8), (CHR ''x'', 16)}"
    and "buf \<noteq> 0" "vsnprintf buf n [CHR 0x25, conv] [w] m = Some (r, m')" "r < n" "0 < n"
  shows "strtol m' buf base = Some (sint w, buf + nat r)"
proof -
  let ?cs = "numero_impreso conv w"
  have c: "conv \<in> {CHR ''d'', CHR ''u'', CHR ''o'', CHR ''x''}" using assms(1) by auto
  have n: "1 \<le> n" using assms(5) by simp
  note f = vsnprintf_forma [OF assms(2) n vprintfmt_numero [OF c, of m w]]
  have r: "r = int (length ?cs)" using f assms(3) by simp
  then have k: "min (length ?cs) (nat n - 1) = length ?cs" using assms(4) by simp
  have t: "texto_en m' buf ?cs"
    using f assms(3) k by (auto simp: texto_en_def)
  show ?thesis
  proof (cases "conv = CHR ''d'' \<and> sint w < 0")
    case True
    then have cs: "?cs = CHR 0x2D # digitos (nat (- sint w)) 10" by (simp add: numero_impreso_def)
    have "word_of_nat (nat (- sint w)) = (word_of_int (- sint w) :: 32 word)"
      using True by (subst of_nat_nat) simp_all
    then have "- word_of_nat (nat (- sint w)) = w" by simp
    moreover have "base = 10" using True assms(1) by auto
    ultimately show ?thesis using strtol_negativo [OF t [unfolded cs]] by (simp add: r cs)
  next
    case False
    then have cs: "?cs = digitos (unat w) (if conv = CHR ''o'' then 8 else if conv = CHR ''x'' then 16 else 10)"
      unfolding numero_impreso_def by (rule if_not_P)
    show ?thesis
      using assms(1) t strtol_sin_signo [of 10 m' buf "unat w"] strtol_sin_signo [of 8 m' buf "unat w"]
        strtol_sin_signo [of 16 m' buf "unat w"]
      by (auto simp: cs r)
  qed
qed

lemma imprimir_leer_witness:
  "\<exists>r m'. vsnprintf 100 16 ''%d'' [- 42] (\<lambda>_. NUL) = Some (r, m') \<and> strtol m' 100 10 = Some (-42, 103)"
proof -
  let ?w = "- 42 :: 32 word"
  have s: "sint ?w = -42" by (simp add: signed_take_bit_int_eq_self)
  have d: "digitos 42 10 = ''42''" by (simp add: digitos.simps digitos_hex_def)
  have cs: "numero_impreso CHR ''d'' ?w = ''-42''" unfolding numero_impreso_def s by (simp add: d)
  obtain m' where v: "vsnprintf 100 16 [CHR 0x25, CHR ''d''] [?w] (\<lambda>_. NUL) = Some (3, m')"
    using vsnprintf_forma [OF _ _ vprintfmt_numero [of "CHR ''d''" "\<lambda>_. NUL" ?w], of 100 16] unfolding cs by auto
  from imprimir_leer [OF _ _ v, of 10] s v show ?thesis by auto
qed

lemma vsnprintf_acotado_witness:
  "\<exists>m'. vsnprintf 100 3 ''%d'' [- 42] (\<lambda>_. NUL) = Some (3, m') \<and> m' 100 = CHR 0x2D \<and> m' 102 = NUL"
proof -
  let ?w = "- 42 :: 32 word"
  have s: "sint ?w = -42" by (simp add: signed_take_bit_int_eq_self)
  have d: "digitos 42 10 = ''42''" by (simp add: digitos.simps digitos_hex_def)
  have cs: "numero_impreso CHR ''d'' ?w = ''-42''" unfolding numero_impreso_def s by (simp add: d)
  have o': "vprintfmt (\<lambda>_. NUL) [CHR 0x25, CHR ''d''] [?w] = Some (map putc ''-42'')"
    using vprintfmt_numero [of "CHR ''d''" "\<lambda>_. NUL" ?w] by (simp add: cs)
  from vsnprintf_acotado [OF o', of 100 3] show ?thesis by (auto dest: spec [of _ "0 :: nat"])
qed

end
