(* ===== verification/Shell_Parse.thy ===== *)
theory Shell_Parse
  imports Prelude
begin

text \<open>
  The command-line parser of the shell: \<open>TP1-shell/readline.c\<close>, \<open>utils.c\<close>, \<open>createcmd.c\<close>,
  \<open>parsing.c\<close> and \<open>freecmd.c\<close>. A \<open>char\<close> array is the string it holds; a write past the end
  of one, or a read outside the line buffer, is \<^term>\<open>None\<close>. \<open>read_line\<close> clears its buffer,
  so the bytes after the line are zeros. A \<open>struct cmd *\<close> is a tree, \<open>Nulo\<close> being the null
  pointer; \<open>argc\<close> and \<open>eargc\<close> are the lengths of the lists and \<open>pid\<close>, which is only
  printed, is left out. Allocation is taken to succeed.
\<close>

section \<open>Constants and data (defs.h, types.h)\<close>

definition END_STRING :: char where "END_STRING = CHR 0x00"
definition END_LINE :: char where "END_LINE = CHR 0x0A"
definition SPACE :: char where "SPACE = CHR 0x20"
definition BUFLEN :: nat where "BUFLEN = 1024"
definition MAXARGS :: nat where "MAXARGS = 20"
definition ARGSIZE :: nat where "ARGSIZE = 1024"
definition FNAMESIZE :: nat where "FNAMESIZE = 1024"
definition EXEC :: nat where "EXEC = 1"
definition BACK :: nat where "BACK = 2"
definition REDIR :: nat where "REDIR = 3"
definition PIPE :: nat where "PIPE = 4"

lemmas shell_consts = END_STRING_def END_LINE_def SPACE_def BUFLEN_def MAXARGS_def ARGSIZE_def FNAMESIZE_def
lemmas cmd_types = EXEC_def BACK_def REDIR_def PIPE_def

record execcmd =
  ctype :: nat
  scmd :: string
  argv :: "string list"
  eargv :: "string list"
  out_file :: string
  in_file :: string
  err_file :: string

datatype cmd = Nulo | Exec execcmd | Back execcmd | Pipe cmd cmd

fun cmd_type :: "cmd \<Rightarrow> nat option" where
  "cmd_type Nulo = None"
| "cmd_type (Exec e) = Some (ctype e)"
| "cmd_type (Back e) = Some BACK"
| "cmd_type (Pipe l r) = Some PIPE"

fun cmd_scmd :: "cmd \<Rightarrow> string" where
  "cmd_scmd (Exec e) = scmd e"
| "cmd_scmd (Back e) = scmd e"
| "cmd_scmd _ = []"

section \<open>Reading a line (readline.c)\<close>

text \<open>
  \<open>read_line\<close> on the characters that standard input has left: None when the line does not
  fit the buffer; otherwise the line, which is \<^term>\<open>None\<close> (\<open>NULL\<close>) at the end of the
  input, and what is left to read. The input is text, without NUL bytes.
\<close>

definition read_line :: "string \<Rightarrow> (string option \<times> string) option" where
  "read_line entrada =
     (let l = takeWhile (\<lambda>c. c \<noteq> END_LINE) entrada;
          resto = drop (length l) entrada
      in if resto = [] then (if length l \<le> BUFLEN then Some (None, []) else None)
         else if length l < BUFLEN then Some (Some l, tl resto) else None)"

section \<open>Searching a string (utils.c)\<close>

definition block_contains :: "string \<Rightarrow> char \<Rightarrow> int" where
  "block_contains buf c =
     (case primer_indice (\<lambda>i. buf ! i = c) (length buf) of None \<Rightarrow> -1 | Some i \<Rightarrow> int i)"

text \<open>
  \<open>split_line\<close> on a buffer of \<open>cap\<close> bytes: the left part, the right part, and the bytes
  there are from the start of the right part. Without the splitter the code goes on after
  the end of the string.
\<close>

definition split_line :: "nat \<Rightarrow> string \<Rightarrow> char \<Rightarrow> (string \<times> string \<times> nat) option" where
  "split_line cap buf splitter =
     (let izq = takeWhile (\<lambda>c. c \<noteq> splitter) buf;
          resto = drop (length izq) buf
      in if resto = [] then
           (if length buf + 1 < cap then Some (izq, [], cap - (length buf + 1)) else None)
         else
           let der = dropWhile (\<lambda>c. c = SPACE) (tl resto)
           in Some (izq, der, cap - (length buf - length der)))"

section \<open>Creating and freeing commands (createcmd.c, freecmd.c)\<close>

definition exec_cmd_create :: "string \<Rightarrow> execcmd option" where
  "exec_cmd_create buf_cmd =
     (if length buf_cmd < BUFLEN
      then Some \<lparr>ctype = EXEC, scmd = buf_cmd, argv = [], eargv = [], out_file = [], in_file = [], err_file = []\<rparr>
      else None)"

definition back_cmd_create :: "execcmd \<Rightarrow> cmd" where
  "back_cmd_create c = Back c"

definition pipe_cmd_create :: "cmd \<Rightarrow> cmd \<Rightarrow> cmd" where
  "pipe_cmd_create left right = (if right = Nulo then left else Pipe left right)"

text \<open>\<open>free_command\<close>: how many blocks it frees; None when it follows a null pointer.\<close>

fun free_command :: "cmd \<Rightarrow> nat option" where
  "free_command Nulo = None"
| "free_command (Exec e) = Some (length (argv e) + length (eargv e) + 1)"
| "free_command (Back e) = Some (length (argv e) + length (eargv e) + 1 + 1)"
| "free_command (Pipe l r) = do { a \<leftarrow> free_command l; b \<leftarrow> free_command r; Some (a + b + 1) }"

section \<open>Words (parsing.c)\<close>

definition get_token :: "string \<Rightarrow> nat \<Rightarrow> string option" where
  "get_token buf idx =
     (let tok = takeWhile (\<lambda>c. c \<noteq> SPACE) (drop idx buf)
      in if length tok < ARGSIZE then Some tok else None)"

definition copiar_nombre :: "string \<Rightarrow> string option" where
  "copiar_nombre s = (if length s < FNAMESIZE then Some s else None)"

definition parse_redir_flow :: "execcmd \<Rightarrow> string \<Rightarrow> (bool \<times> execcmd) option" where
  "parse_redir_flow c arg =
     (let outIdx = block_contains arg CHR 0x3E in
      if outIdx \<ge> 0 then
        do {
          c1 \<leftarrow> (if outIdx = 0 then do { f \<leftarrow> copiar_nombre (drop 1 arg); Some (c\<lparr>out_file := f\<rparr>) }
                 else if outIdx = 1 then do { f \<leftarrow> copiar_nombre (drop (nat outIdx + 1) arg); Some (c\<lparr>err_file := f\<rparr>) }
                 else Some c);
          Some (True, c1\<lparr>ctype := REDIR\<rparr>)
        }
      else if block_contains arg CHR 0x3C \<ge> 0 then
        do { f \<leftarrow> copiar_nombre (drop 1 arg); Some (True, c\<lparr>in_file := f, ctype := REDIR\<rparr>) }
      else Some (False, c))"

definition parse_environ_var :: "execcmd \<Rightarrow> string \<Rightarrow> (bool \<times> execcmd) option" where
  "parse_environ_var c arg =
     (if block_contains arg CHR 0x3D > 0 \<and> block_contains arg CHR 0x2D < 0 then
        (if length (eargv c) < MAXARGS then Some (True, c\<lparr>eargv := eargv c @ [arg]\<rparr>) else None)
      else Some (False, c))"

text \<open>\<open>status\<close> and the environment of the process are arguments.\<close>

definition expand_environ_var :: "int \<Rightarrow> (string \<Rightarrow> string option) \<Rightarrow> string \<Rightarrow> string" where
  "expand_environ_var status getenv arg =
     (if arg = [] \<or> hd arg \<noteq> CHR 0x24 then arg
      else if tl arg \<noteq> [] \<and> hd (tl arg) = CHR 0x3F then decimal status
      else case getenv (tl arg) of None \<Rightarrow> [] | Some path \<Rightarrow> path)"

section \<open>Commands (parsing.c)\<close>

text \<open>The loop of \<open>parse_exec\<close> from \<open>idx\<close> on, where the rest of the string is \<open>resto\<close>.\<close>

fun parse_exec_bucle :: "int \<Rightarrow> (string \<Rightarrow> string option) \<Rightarrow> string \<Rightarrow> execcmd \<Rightarrow> execcmd option" where
  "parse_exec_bucle status getenv [] c = (if length (argv c) < MAXARGS then Some c else None)"
| "parse_exec_bucle status getenv (x # xs) c =
     do {
       tok \<leftarrow> get_token (x # xs) 0;
       let resto = drop (length tok + 1) (x # xs);
       (redir, c1) \<leftarrow> parse_redir_flow c tok;
       if redir then parse_exec_bucle status getenv resto c1
       else do {
         (var, c2) \<leftarrow> parse_environ_var c1 tok;
         if var then parse_exec_bucle status getenv resto c2
         else
           let t = expand_environ_var status getenv tok in
           if length t > 0 then
             (if length (argv c2) < MAXARGS
              then parse_exec_bucle status getenv resto (c2\<lparr>argv := argv c2 @ [t]\<rparr>) else None)
           else parse_exec_bucle status getenv resto c2
       }
     }"

declare parse_exec_bucle.simps(2) [simp del]

definition parse_exec :: "int \<Rightarrow> (string \<Rightarrow> string option) \<Rightarrow> string \<Rightarrow> execcmd option" where
  "parse_exec status getenv buf_cmd =
     do { c \<leftarrow> exec_cmd_create buf_cmd; parse_exec_bucle status getenv buf_cmd c }"

definition parse_back :: "int \<Rightarrow> (string \<Rightarrow> string option) \<Rightarrow> string \<Rightarrow> cmd option" where
  "parse_back status getenv buf_cmd =
     do { e \<leftarrow> parse_exec status getenv (takeWhile (\<lambda>c. c \<noteq> CHR 0x26) buf_cmd); Some (back_cmd_create e) }"

text \<open>
  \<open>parse_cmd\<close>; \<open>previo\<close> is the byte before the string, which the code reads when the string
  begins with \<open>&\<close>. Before the line buffer there is none.
\<close>

definition parse_cmd :: "int \<Rightarrow> (string \<Rightarrow> string option) \<Rightarrow> char option \<Rightarrow> string \<Rightarrow> cmd option" where
  "parse_cmd status getenv previo buf_cmd =
     (if length buf_cmd = 0 then Some Nulo
      else
        let idx = block_contains buf_cmd CHR 0x26 in
        if idx \<ge> 0 then
          do {
            ant \<leftarrow> (if idx = 0 then previo else Some (buf_cmd ! (nat idx - 1)));
            if ant \<noteq> CHR 0x3E then parse_back status getenv buf_cmd
            else do { e \<leftarrow> parse_exec status getenv buf_cmd; Some (Exec e) }
          }
        else do { e \<leftarrow> parse_exec status getenv buf_cmd; Some (Exec e) })"

text \<open>The byte before the right part: the end of the left part, or a space.\<close>

definition previo_de :: "string \<Rightarrow> string \<Rightarrow> char" where
  "previo_de buf izq = (if drop (length izq + 1) buf \<noteq> [] \<and> buf ! (length izq + 1) = SPACE then SPACE else END_STRING)"

lemma split_line_corta:
  assumes "split_line cap buf s = Some (izq, der, cap')" "block_contains der s \<ge> 0"
  shows "length der < length buf"
proof -
  have "der \<noteq> []" using assms(2) by (auto simp: block_contains_def primer_indice_def)
  then have "drop (length (takeWhile (\<lambda>c. c \<noteq> s) buf)) buf \<noteq> []"
    and d: "der = dropWhile (\<lambda>c. c = SPACE) (tl (drop (length (takeWhile (\<lambda>c. c \<noteq> s) buf)) buf))"
    using assms(1) by (auto simp: split_line_def Let_def split: if_splits)
  then have "length (tl (drop (length (takeWhile (\<lambda>c. c \<noteq> s) buf)) buf)) < length buf" by simp
  then show ?thesis unfolding d using length_dropWhile_le le_less_trans by blast
qed

function parse_line :: "int \<Rightarrow> (string \<Rightarrow> string option) \<Rightarrow> nat \<Rightarrow> char option \<Rightarrow> string \<Rightarrow> cmd option" where
  "parse_line status getenv cap previo buf =
     (case split_line cap buf CHR 0x7C of
        None \<Rightarrow> None
      | Some (izq, right, cap') \<Rightarrow>
          do {
            r \<leftarrow> (if block_contains right CHR 0x7C \<ge> 0
                   then parse_line status getenv cap' (Some (previo_de buf izq)) right
                   else parse_cmd status getenv (Some (previo_de buf izq)) right);
            l \<leftarrow> parse_cmd status getenv previo izq;
            Some (pipe_cmd_create l r)
          })"
  by pat_completeness auto

termination
  by (relation "measure (\<lambda>(_, _, _, _, buf). length buf)") (auto dest: split_line_corta)

declare parse_line.simps [simp del]

text \<open>The whole parse of a line that \<open>read_line\<close> returned.\<close>

definition parse_buffer :: "int \<Rightarrow> (string \<Rightarrow> string option) \<Rightarrow> string \<Rightarrow> cmd option" where
  "parse_buffer status getenv linea = parse_line status getenv BUFLEN None linea"

end
