(* ===== verification/Shell_Claims.thy ===== *)
theory Shell_Claims
  imports Shell_Parse
begin

text \<open>
  The properties of the parser of the shell: what a simple command is in terms of its
  words, that a printed pipeline parses back, and which lines stay inside the arrays.
\<close>

section \<open>Searching a string\<close>

lemma block_contains_lt: "block_contains buf c < 0 \<longleftrightarrow> c \<notin> set buf"
proof (cases "primer_indice (\<lambda>i. buf ! i = c) (length buf)")
  case None
  then have "c \<notin> set buf" by (auto simp: primer_indice_None in_set_conv_nth)
  with None show ?thesis by (simp add: block_contains_def)
next
  case (Some i)
  then have "c \<in> set buf" by (auto simp: primer_indice_Some)
  with Some show ?thesis by (simp add: block_contains_def)
qed

lemma block_contains_ge: "0 \<le> block_contains buf c \<longleftrightarrow> c \<in> set buf"
  using block_contains_lt [of buf c] by linarith

lemma block_contains_eq: "block_contains buf c = int i \<longleftrightarrow> i < length buf \<and> buf ! i = c \<and> (\<forall>j<i. buf ! j \<noteq> c)"
  unfolding block_contains_def primer_indice_Some [of "\<lambda>i. buf ! i = c", symmetric]
  by (simp split: option.splits)

lemma block_contains_0: "block_contains buf c = 0 \<longleftrightarrow> buf \<noteq> [] \<and> hd buf = c"
  using block_contains_eq [of buf c 0] by (cases buf) auto

lemma block_contains_pos: "0 < block_contains buf c \<longleftrightarrow> c \<in> set buf \<and> hd buf \<noteq> c"
proof -
  have "0 < block_contains buf c \<longleftrightarrow> 0 \<le> block_contains buf c \<and> block_contains buf c \<noteq> 0" by linarith
  then show ?thesis unfolding block_contains_ge block_contains_0 by (cases buf) auto
qed

lemma block_contains_1: "block_contains buf c = 1 \<longleftrightarrow> length buf > 1 \<and> hd buf \<noteq> c \<and> buf ! 1 = c"
  using block_contains_eq [of buf c 1] by (cases buf) auto

lemmas busqueda = block_contains_lt block_contains_ge block_contains_0 block_contains_pos block_contains_1

section \<open>A simple command by its words\<close>

text \<open>The words of a string: what is between single spaces, without an empty last one.\<close>

fun palabras :: "string \<Rightarrow> string list" where
  "palabras [] = []"
| "palabras (x # xs) = takeWhile (\<lambda>c. c \<noteq> SPACE) (x # xs)
     # palabras (drop (length (takeWhile (\<lambda>c. c \<noteq> SPACE) (x # xs)) + 1) (x # xs))"

definition es_redir :: "string \<Rightarrow> bool" where
  "es_redir w \<longleftrightarrow> CHR 0x3E \<in> set w \<or> CHR 0x3C \<in> set w"

definition es_var :: "string \<Rightarrow> bool" where
  "es_var w \<longleftrightarrow> CHR 0x3D \<in> set w \<and> hd w \<noteq> CHR 0x3D \<and> CHR 0x2D \<notin> set w"

definition ultimo :: "string list \<Rightarrow> string \<Rightarrow> string" where
  "ultimo ns d = (if ns = [] then d else last ns)"

definition salidas :: "string list \<Rightarrow> string list" where
  "salidas ws = map tl (filter (\<lambda>w. w \<noteq> [] \<and> hd w = CHR 0x3E) ws)"

definition errores :: "string list \<Rightarrow> string list" where
  "errores ws = map (drop 2) (filter (\<lambda>w. length w > 1 \<and> hd w \<noteq> CHR 0x3E \<and> w ! 1 = CHR 0x3E) ws)"

definition archivos_in :: "string list \<Rightarrow> string list" where
  "archivos_in ws = map tl (filter (\<lambda>w. CHR 0x3E \<notin> set w \<and> CHR 0x3C \<in> set w) ws)"

definition variables :: "string list \<Rightarrow> string list" where
  "variables ws = filter (\<lambda>w. \<not> es_redir w \<and> es_var w) ws"

definition argumentos :: "int \<Rightarrow> (string \<Rightarrow> string option) \<Rightarrow> string list \<Rightarrow> string list" where
  "argumentos status getenv ws =
     filter (\<lambda>w. w \<noteq> []) (map (expand_environ_var status getenv) (filter (\<lambda>w. \<not> es_redir w \<and> \<not> es_var w) ws))"

definition con_palabras :: "int \<Rightarrow> (string \<Rightarrow> string option) \<Rightarrow> string list \<Rightarrow> execcmd \<Rightarrow> execcmd" where
  "con_palabras status getenv ws c =
     c\<lparr>ctype := (if \<exists>w\<in>set ws. es_redir w then REDIR else ctype c),
       argv := argv c @ argumentos status getenv ws, eargv := eargv c @ variables ws,
       out_file := ultimo (salidas ws) (out_file c), in_file := ultimo (archivos_in ws) (in_file c),
       err_file := ultimo (errores ws) (err_file c)\<rparr>"

lemmas palabras_defs = con_palabras_def argumentos_def variables_def salidas_def archivos_in_def errores_def

lemma palabras_corta: "w \<in> set (palabras buf) \<Longrightarrow> length w \<le> length buf"
proof (induction buf rule: palabras.induct)
  case (2 x xs)
  let ?t = "takeWhile (\<lambda>c. c \<noteq> SPACE) (x # xs)"
  from "2.prems" consider "w = ?t" | "w \<in> set (palabras (drop (length ?t + 1) (x # xs)))" by auto
  then show ?case
  proof cases
    case 1
    then show ?thesis using length_takeWhile_le [of "\<lambda>c. c \<noteq> SPACE" "x # xs"] by simp
  next
    case 2
    from "2.IH" [OF this] show ?thesis by simp
  qed
qed simp

text \<open>One word, added to a command.\<close>

lemma ultimo_Nil [simp]: "ultimo [] d = d"
  by (simp add: ultimo_def)

lemma ultimo_append: "ultimo (a @ b) d = ultimo b (ultimo a d)"
  by (simp add: ultimo_def)

lemma palabras_append:
  "argumentos status getenv (us @ ws) = argumentos status getenv us @ argumentos status getenv ws"
  "variables (us @ ws) = variables us @ variables ws" "salidas (us @ ws) = salidas us @ salidas ws"
  "errores (us @ ws) = errores us @ errores ws" "archivos_in (us @ ws) = archivos_in us @ archivos_in ws"
  by (simp_all add: palabras_defs)

lemma con_palabras_append:
  "con_palabras status getenv (us @ ws) c = con_palabras status getenv ws (con_palabras status getenv us c)"
  unfolding con_palabras_def palabras_append ultimo_append by simp blast

lemma con_palabras_Cons:
  "con_palabras status getenv (w # ws) c = con_palabras status getenv ws (con_palabras status getenv [w] c)"
  using con_palabras_append [of status getenv "[w]" ws c] by simp

lemma con_palabras_Nil [simp]: "con_palabras status getenv [] c = c"
  by (cases c) (simp add: palabras_defs ultimo_def)

lemma redir_palabra:
  assumes "length w < FNAMESIZE" "es_redir w"
  shows "parse_redir_flow c w = Some (True, con_palabras status getenv [w] c)"
proof -
  have "length (drop n w) < FNAMESIZE" for n using assms(1) by simp
  then have n: "copiar_nombre (drop n w) = Some (drop n w)" for n by (simp add: copiar_nombre_def)
  have t: "copiar_nombre (tl w) = Some (tl w)" using n [of 1] by (simp add: drop_Suc)
  consider "w \<noteq> []" "hd w = CHR 0x3E" | "length w > 1" "hd w \<noteq> CHR 0x3E" "w ! 1 = CHR 0x3E"
    | "CHR 0x3E \<in> set w" "w = [] \<or> hd w \<noteq> CHR 0x3E" "\<not> (length w > 1 \<and> hd w \<noteq> CHR 0x3E \<and> w ! 1 = CHR 0x3E)" | "CHR 0x3E \<notin> set w" "CHR 0x3C \<in> set w"
    using assms(2) unfolding es_redir_def by blast
  then show ?thesis
  proof cases
    case 1
    then have "CHR 0x3E \<in> set w" by (metis hd_in_set)
    with 1 assms(2) show ?thesis
      by (cases c) (simp add: parse_redir_flow_def busqueda n t palabras_defs ultimo_def drop_Suc)
  next
    case 2
    then have "CHR 0x3E \<in> set w" "block_contains w CHR 0x3E = 1" unfolding block_contains_1 by (metis nth_mem, simp)
    with 2 assms(2) show ?thesis
      by (cases c) (simp add: parse_redir_flow_def Let_def n palabras_defs ultimo_def numeral_2_eq_2)
  next
    case 3
    then show ?thesis using assms(2)
      by (cases c) (auto simp: parse_redir_flow_def Let_def busqueda palabras_defs ultimo_def)
  next
    case 4
    then have ne: "w \<noteq> []" by auto
    with 4 have "hd w \<noteq> CHR 0x3E" "length w > 1 \<longrightarrow> w ! 1 \<noteq> CHR 0x3E" using hd_in_set [of w] by (metis, metis nth_mem)
    with 4 assms(2) show ?thesis
      by (cases c) (auto simp: parse_redir_flow_def Let_def busqueda n t palabras_defs ultimo_def drop_Suc)
  qed
qed

lemma sin_redir:
  assumes "\<not> es_redir w"
  shows "salidas [w] = []" "errores [w] = []" "archivos_in [w] = []" "parse_redir_flow c w = Some (False, c)"
proof -
  have w: "CHR 0x3E \<notin> set w" "CHR 0x3C \<notin> set w" using assms by (simp_all add: es_redir_def)
  have "\<not> (w \<noteq> [] \<and> hd w = CHR 0x3E)" "\<not> (length w > 1 \<and> w ! 1 = CHR 0x3E)"
    using w by (auto dest: hd_in_set nth_mem)
  with w show "salidas [w] = []" "errores [w] = []" "archivos_in [w] = []" "parse_redir_flow c w = Some (False, c)"
    by (auto simp: palabras_defs parse_redir_flow_def block_contains_ge)
qed

lemma var_palabra:
  assumes "\<not> es_redir w" "es_var w" "length (eargv c) < MAXARGS"
  shows "parse_environ_var c w = Some (True, con_palabras status getenv [w] c)"
proof -
  have "variables [w] = [w]" "argumentos status getenv [w] = []" using assms by (simp_all add: palabras_defs)
  with assms show ?thesis
    by (cases c) (simp add: parse_environ_var_def es_var_def busqueda con_palabras_def sin_redir ultimo_def)
qed

lemma var_desborda:
  assumes "\<not> es_redir w" "es_var w" "\<not> length (eargv c) < MAXARGS"
  shows "parse_environ_var c w = None"
  using assms by (simp add: parse_environ_var_def es_var_def busqueda)

lemma arg_palabra:
  assumes "\<not> es_redir w" "\<not> es_var w"
  shows "parse_environ_var c w = Some (False, c)"
    "con_palabras status getenv [w] c
      = (if expand_environ_var status getenv w = [] then c
         else c\<lparr>argv := argv c @ [expand_environ_var status getenv w]\<rparr>)"
proof -
  show "parse_environ_var c w = Some (False, c)"
    using assms(2) by (auto simp: parse_environ_var_def es_var_def busqueda)
  have v: "variables [w] = []" "argumentos status getenv [w]
      = (if expand_environ_var status getenv w = [] then [] else [expand_environ_var status getenv w])"
    using assms by (simp_all add: palabras_defs)
  show "con_palabras status getenv [w] c
      = (if expand_environ_var status getenv w = [] then c
         else c\<lparr>argv := argv c @ [expand_environ_var status getenv w]\<rparr>)"
    unfolding con_palabras_def v sin_redir [OF assms(1)] using assms(1) by (cases c) (simp add: ultimo_def)
qed

lemma con_palabras_listas [simp]:
  "argv (con_palabras status getenv ws c) = argv c @ argumentos status getenv ws"
  "eargv (con_palabras status getenv ws c) = eargv c @ variables ws"
  by (simp_all add: con_palabras_def)

text \<open>One round of the loop, and the whole loop.\<close>

lemma palabras_paso:
  assumes "resto \<noteq> []"
  defines "w \<equiv> takeWhile (\<lambda>c. c \<noteq> SPACE) resto"
  shows "palabras resto = w # palabras (drop (length w + 1) resto)"
  unfolding w_def using assms(1) by (cases resto) simp_all

lemma parse_exec_paso:
  assumes ne: "resto \<noteq> []" and len: "length resto < ARGSIZE"
  defines "w \<equiv> takeWhile (\<lambda>c. c \<noteq> SPACE) resto"
  defines "r \<equiv> drop (length w + 1) resto"
  shows "parse_exec_bucle status getenv resto c
    = (if \<not> es_redir w \<and> es_var w \<and> \<not> length (eargv c) < MAXARGS then None
       else if \<not> es_redir w \<and> \<not> es_var w \<and> expand_environ_var status getenv w \<noteq> [] \<and> \<not> length (argv c) < MAXARGS then None
       else parse_exec_bucle status getenv r (con_palabras status getenv [w] c))"
proof -
  obtain x xs where x: "resto = x # xs" using ne by (cases resto) auto
  have "length w \<le> length resto" unfolding w_def by (rule length_takeWhile_le)
  then have l: "length w < ARGSIZE" "length w < FNAMESIZE" using len by (simp_all add: ARGSIZE_def FNAMESIZE_def)
  have g: "get_token (x # xs) 0 = Some w" using l(1) by (simp add: get_token_def w_def x)
  have rr: "drop (length w) xs = r" by (simp add: r_def x)
  have p: "parse_exec_bucle status getenv resto c =
     do {
       (redir, c1) \<leftarrow> parse_redir_flow c w;
       if redir then parse_exec_bucle status getenv r c1
       else do {
         (var, c2) \<leftarrow> parse_environ_var c1 w;
         if var then parse_exec_bucle status getenv r c2
         else if length (expand_environ_var status getenv w) > 0 then
           (if length (argv c2) < MAXARGS
            then parse_exec_bucle status getenv r (c2\<lparr>argv := argv c2 @ [expand_environ_var status getenv w]\<rparr>) else None)
         else parse_exec_bucle status getenv r c2
       }
     }"
    unfolding x by (simp add: parse_exec_bucle.simps(2) g rr Let_def cong: if_cong)
  consider "es_redir w" | "\<not> es_redir w" "es_var w" "length (eargv c) < MAXARGS"
    | "\<not> es_redir w" "es_var w" "\<not> length (eargv c) < MAXARGS" | "\<not> es_redir w" "\<not> es_var w" by blast
  then show ?thesis
  proof cases
    case 1
    with redir_palabra [OF l(2) 1, of c status getenv] show ?thesis unfolding p by simp
  next
    case 2
    with var_palabra [OF 2, of status getenv] sin_redir(4) [OF 2(1)] show ?thesis unfolding p by simp
  next
    case 3
    with var_desborda [OF 3] sin_redir(4) [OF 3(1)] show ?thesis unfolding p by simp
  next
    case 4
    with arg_palabra(1) [OF 4, of c] arg_palabra(2) [OF 4, of status getenv c] sin_redir(4) [OF 4(1)] show ?thesis
      unfolding p by simp
  qed
qed

lemma listas_Cons:
  "argumentos status getenv (w # ws) = argumentos status getenv [w] @ argumentos status getenv ws"
  "variables (w # ws) = variables [w] @ variables ws"
  using palabras_append(1) [of status getenv "[w]" ws] palabras_append(2) [of "[w]" ws] by simp_all

lemma parse_exec_bucle_palabras:
  assumes "length resto < ARGSIZE" "length (eargv c) \<le> MAXARGS"
  shows "parse_exec_bucle status getenv resto c
    = (if length (argv c @ argumentos status getenv (palabras resto)) < MAXARGS
          \<and> length (eargv c @ variables (palabras resto)) \<le> MAXARGS
       then Some (con_palabras status getenv (palabras resto) c) else None)"
  using assms
proof (induction resto arbitrary: c rule: measure_induct_rule [of length])
  case (less resto)
  show ?case
  proof (cases "resto = []")
    case False
    define w where "w = takeWhile (\<lambda>c. c \<noteq> SPACE) resto"
    define r where "r = drop (length w + 1) resto"
    let ?c = "con_palabras status getenv [w] c"
    have r: "length r < length resto" "length r < ARGSIZE" using False less.prems(1) by (simp_all add: r_def)
    note ih = less.IH [OF r]
    have ps: "palabras resto = w # palabras r" using palabras_paso [OF False] by (simp add: w_def r_def)
    note paso = parse_exec_paso [OF False less.prems(1), folded w_def, folded r_def, of status getenv c]
    have v: "variables [w] = (if \<not> es_redir w \<and> es_var w then [w] else [])" by (simp add: variables_def)
    have a: "argumentos status getenv [w] = (if \<not> es_redir w \<and> \<not> es_var w \<and> expand_environ_var status getenv w \<noteq> []
        then [expand_environ_var status getenv w] else [])" by (simp add: argumentos_def)
    show ?thesis
      unfolding ps con_palabras_Cons [of _ _ w "palabras r"] listas_Cons(1) [of _ _ w "palabras r"] listas_Cons(2) [of w "palabras r"] paso
      using ih [of ?c] less.prems(2) by (auto simp: v a)
  qed (simp add: argumentos_def variables_def less.prems)
qed

text \<open>
  C25: a simple command is the classification of its words. For every string that fits the
  line buffer, \<open>parse_exec\<close> puts the words without redirection symbols and that are not
  assignments, expanded and without the empty ones, in \<open>argv\<close> in order; the assignments in
  \<open>eargv\<close> in order; the last output, error and input names in the three file fields; and
  the type is \<open>REDIR\<close> if some word is a redirection. It stays inside its arrays exactly when
  there are fewer than 20 arguments and at most 20 assignments.
\<close>

theorem parse_exec_correcto:
  assumes "length buf < BUFLEN"
  shows "parse_exec status getenv buf =
    (let ws = palabras buf; as = argumentos status getenv ws; vs = variables ws in
     if length as < MAXARGS \<and> length vs \<le> MAXARGS then
       Some \<lparr>ctype = (if \<exists>w\<in>set ws. es_redir w then REDIR else EXEC), scmd = buf, argv = as, eargv = vs,
         out_file = ultimo (salidas ws) [], in_file = ultimo (archivos_in ws) [], err_file = ultimo (errores ws) []\<rparr>
     else None)"
  using assms parse_exec_bucle_palabras [of buf _ status getenv]
  by (simp add: parse_exec_def exec_cmd_create_def BUFLEN_def ARGSIZE_def MAXARGS_def con_palabras_def Let_def)

lemma parse_exec_correcto_witness:
  "parse_exec 0 (\<lambda>_. None) ''A=1 ls $X -l >o 2>&1''
    = Some \<lparr>ctype = REDIR, scmd = ''A=1 ls $X -l >o 2>&1'', argv = [''ls'', ''-l''], eargv = [''A=1''],
        out_file = ''o'', in_file = [], err_file = ''&1''\<rparr>"
  by (subst parse_exec_correcto)
    (simp_all add: shell_consts cmd_types palabras_defs ultimo_def es_redir_def es_var_def expand_environ_var_def)

section \<open>Pipelines\<close>

text \<open>Words joined with single spaces.\<close>

fun unir :: "string list \<Rightarrow> string" where
  "unir [] = []"
| "unir [w] = w"
| "unir (w # ws) = w @ SPACE # unir ws"

definition palabra_ok :: "string \<Rightarrow> bool" where
  "palabra_ok w \<longleftrightarrow> w \<noteq> [] \<and> SPACE \<notin> set w"

lemma takeWhile_palabra: "SPACE \<notin> set w \<Longrightarrow> takeWhile (\<lambda>c. c \<noteq> SPACE) (w @ SPACE # r) = w"
  by (induction w) auto

lemma palabras_una:
  assumes "palabra_ok w"
  shows "palabras w = [w]"
proof -
  have "takeWhile (\<lambda>c. c \<noteq> SPACE) w = w" using assms by (auto simp: palabra_ok_def takeWhile_eq_all_conv)
  with palabras_paso [of w] assms show ?thesis by (simp add: palabra_ok_def)
qed

lemma palabras_sep: "palabra_ok w \<Longrightarrow> palabras (w @ SPACE # r) = w # palabras r"
  by (subst palabras_paso) (auto simp: palabra_ok_def takeWhile_palabra)

lemma palabras_unir: "\<forall>w\<in>set ws. palabra_ok w \<Longrightarrow> palabras (unir ws) = ws"
  by (induction ws rule: unir.induct) (simp_all add: palabras_una palabras_sep)

lemma palabras_unir_espacio: "\<forall>w\<in>set ws. palabra_ok w \<Longrightarrow> ws \<noteq> [] \<Longrightarrow> palabras (unir ws @ [SPACE]) = ws"
  by (induction ws rule: unir.induct) (simp_all add: palabras_sep)

lemma set_unir: "set (unir ws) \<subseteq> (\<Union>w\<in>set ws. set w) \<union> {SPACE}"
  by (induction ws rule: unir.induct) auto

lemma unir_no_vacia: "ws \<noteq> [] \<Longrightarrow> palabra_ok (hd ws) \<Longrightarrow> unir ws \<noteq> [] \<and> hd (unir ws) \<noteq> SPACE"
  by (cases ws rule: unir.cases) (auto simp: palabra_ok_def dest: hd_in_set)

text \<open>A command as the user thinks of it, and how it is written.\<close>

record orden =
  o_vars :: "string list"
  o_args :: "string list"
  o_in :: "string option"
  o_out :: "string option"
  o_err :: "string option"

definition escrito :: "string \<Rightarrow> string option \<Rightarrow> string list" where
  "escrito marca f = (case f of None \<Rightarrow> [] | Some n \<Rightarrow> [marca @ n])"

definition palabras_orden :: "orden \<Rightarrow> string list" where
  "palabras_orden r = o_vars r @ o_args r @ escrito ''<'' (o_in r) @ escrito ''>'' (o_out r) @ escrito ''2>'' (o_err r)"

fun linea_de :: "orden list \<Rightarrow> string" where
  "linea_de [] = []"
| "linea_de [r] = unir (palabras_orden r)"
| "linea_de (r # rs) = unir (palabras_orden r) @ '' | '' @ linea_de rs"

definition especial :: "char set" where
  "especial = {SPACE, CHR 0x7C, CHR 0x26, CHR 0x3C, CHR 0x3E}"

definition llana :: "string \<Rightarrow> bool" where
  "llana w \<longleftrightarrow> w \<noteq> [] \<and> set w \<inter> especial = {}"

definition orden_ok :: "orden \<Rightarrow> bool" where
  "orden_ok r \<longleftrightarrow> o_args r \<noteq> [] \<and> length (o_args r) < MAXARGS \<and> length (o_vars r) \<le> MAXARGS
     \<and> (\<forall>w\<in>set (o_vars r). llana w \<and> es_var w)
     \<and> (\<forall>w\<in>set (o_args r). llana w \<and> \<not> es_var w \<and> hd w \<noteq> CHR 0x24)
     \<and> (\<forall>f. o_in r = Some f \<or> o_out r = Some f \<longrightarrow> llana f)
     \<and> (\<forall>f. o_err r = Some f \<longrightarrow> llana f \<or> f = ''&1'')"

definition nombre :: "string option \<Rightarrow> string" where
  "nombre f = (case f of None \<Rightarrow> [] | Some n \<Rightarrow> n)"

definition execcmd_de :: "string \<Rightarrow> orden \<Rightarrow> execcmd" where
  "execcmd_de texto r =
     \<lparr>ctype = (if o_in r = None \<and> o_out r = None \<and> o_err r = None then EXEC else REDIR), scmd = texto,
      argv = o_args r, eargv = o_vars r, out_file = nombre (o_out r), in_file = nombre (o_in r), err_file = nombre (o_err r)\<rparr>"

fun arbol :: "orden list \<Rightarrow> cmd" where
  "arbol [] = Nulo"
| "arbol [r] = Exec (execcmd_de (unir (palabras_orden r)) r)"
| "arbol (r # rs) = Pipe (Exec (execcmd_de (unir (palabras_orden r) @ '' '') r)) (arbol rs)"

text \<open>The words of a well-formed command and their classes.\<close>

lemma llana_ok: "llana w \<Longrightarrow> palabra_ok w" "llana w \<Longrightarrow> \<not> es_redir w"
  by (auto simp: llana_def palabra_ok_def es_redir_def especial_def)

lemma llana_cons: "llana f \<Longrightarrow> c \<noteq> SPACE \<Longrightarrow> palabra_ok (c # f)"
  by (auto simp: llana_def palabra_ok_def especial_def)

lemma palabras_orden_ok:
  assumes "orden_ok r"
  shows "\<forall>w\<in>set (palabras_orden r). palabra_ok w" "palabras_orden r \<noteq> []"
proof -
  have e: "palabra_ok ''2>&1''" by (simp add: palabra_ok_def SPACE_def)
  have "palabra_ok (CHR 0x32 # CHR 0x3E # f)" if "llana f" for f
    using that by (auto simp: llana_def palabra_ok_def especial_def SPACE_def)
  then have "\<forall>w\<in>set (escrito ''2>'' (o_err r)). palabra_ok w"
    using assms e by (cases "o_err r") (auto simp: orden_ok_def escrito_def)
  with assms show "\<forall>w\<in>set (palabras_orden r). palabra_ok w"
    by (auto simp: orden_ok_def palabras_orden_def escrito_def llana_ok llana_cons SPACE_def split: option.splits)
  show "palabras_orden r \<noteq> []" using assms by (simp add: orden_ok_def palabras_orden_def)
qed

lemma clases_llanas:
  assumes "\<forall>w\<in>set ws. \<not> es_redir w"
  shows "salidas ws = []" "errores ws = []" "archivos_in ws = []" "variables ws = filter es_var ws"
    "argumentos status getenv ws = filter (\<lambda>w. w \<noteq> []) (map (expand_environ_var status getenv) (filter (\<lambda>w. \<not> es_var w) ws))"
proof -
  have "\<forall>w\<in>set ws. \<not> (w \<noteq> [] \<and> hd w = CHR 0x3E) \<and> \<not> (length w > 1 \<and> hd w \<noteq> CHR 0x3E \<and> w ! 1 = CHR 0x3E)
      \<and> \<not> (CHR 0x3E \<notin> set w \<and> CHR 0x3C \<in> set w)"
    using assms hd_in_set nth_mem unfolding es_redir_def by metis
  then show "salidas ws = []" "errores ws = []" "archivos_in ws = []"
    by (simp_all add: salidas_def errores_def archivos_in_def)
  show "variables ws = filter es_var ws"
    "argumentos status getenv ws = filter (\<lambda>w. w \<noteq> []) (map (expand_environ_var status getenv) (filter (\<lambda>w. \<not> es_var w) ws))"
    using assms by (simp_all add: variables_def argumentos_def cong: filter_cong)
qed

lemma expand_llana: "\<forall>w\<in>set ws. hd w \<noteq> CHR 0x24 \<Longrightarrow> map (expand_environ_var status getenv) ws = ws"
  by (induction ws) (simp_all add: expand_environ_var_def)

lemma clases_escrito:
  assumes "\<forall>n. f = Some n \<longrightarrow> llana n \<or> n = ''&1''"
  shows "argumentos status getenv (escrito ''<'' f) = []" "argumentos status getenv (escrito ''>'' f) = []"
    "argumentos status getenv (escrito ''2>'' f) = []"
    "variables (escrito ''<'' f) = []" "variables (escrito ''>'' f) = []" "variables (escrito ''2>'' f) = []"
    "ultimo (salidas (escrito ''>'' f)) d = (case f of None \<Rightarrow> d | Some n \<Rightarrow> n)" "salidas (escrito ''<'' f) = []" "salidas (escrito ''2>'' f) = []"
    "ultimo (archivos_in (escrito ''<'' f)) d = (case f of None \<Rightarrow> d | Some n \<Rightarrow> n)" "archivos_in (escrito ''>'' f) = []" "archivos_in (escrito ''2>'' f) = []"
    "ultimo (errores (escrito ''2>'' f)) d = (case f of None \<Rightarrow> d | Some n \<Rightarrow> n)" "errores (escrito ''<'' f) = []" "errores (escrito ''>'' f) = []"
    "(\<exists>w\<in>set (escrito ''<'' f). es_redir w) = (f \<noteq> None)" "(\<exists>w\<in>set (escrito ''>'' f). es_redir w) = (f \<noteq> None)"
    "(\<exists>w\<in>set (escrito ''2>'' f). es_redir w) = (f \<noteq> None)"
proof -
  have n: "CHR 0x3E \<notin> set n \<and> n \<noteq> [] \<and> n ! 0 \<noteq> CHR 0x3E" if "f = Some n" for n
    using assms that hd_in_set [of n] by (cases n) (auto simp: llana_def especial_def)
  show "argumentos status getenv (escrito ''<'' f) = []" "argumentos status getenv (escrito ''>'' f) = []"
    "argumentos status getenv (escrito ''2>'' f) = []"
    "variables (escrito ''<'' f) = []" "variables (escrito ''>'' f) = []" "variables (escrito ''2>'' f) = []"
    "ultimo (salidas (escrito ''>'' f)) d = (case f of None \<Rightarrow> d | Some n \<Rightarrow> n)" "salidas (escrito ''<'' f) = []" "salidas (escrito ''2>'' f) = []"
    "ultimo (archivos_in (escrito ''<'' f)) d = (case f of None \<Rightarrow> d | Some n \<Rightarrow> n)" "archivos_in (escrito ''>'' f) = []" "archivos_in (escrito ''2>'' f) = []"
    "ultimo (errores (escrito ''2>'' f)) d = (case f of None \<Rightarrow> d | Some n \<Rightarrow> n)" "errores (escrito ''<'' f) = []" "errores (escrito ''>'' f) = []"
    "(\<exists>w\<in>set (escrito ''<'' f). es_redir w) = (f \<noteq> None)" "(\<exists>w\<in>set (escrito ''>'' f). es_redir w) = (f \<noteq> None)"
    "(\<exists>w\<in>set (escrito ''2>'' f). es_redir w) = (f \<noteq> None)"
    using n by (cases f; simp add: palabras_defs escrito_def es_redir_def ultimo_def numeral_2_eq_2)+
qed

lemma resumen_orden:
  assumes "orden_ok r"
  defines "ws \<equiv> palabras_orden r"
  shows "argumentos status getenv ws = o_args r" "variables ws = o_vars r"
    "ultimo (salidas ws) [] = nombre (o_out r)" "ultimo (archivos_in ws) [] = nombre (o_in r)" "ultimo (errores ws) [] = nombre (o_err r)"
    "(\<exists>w\<in>set ws. es_redir w) = (\<not> (o_in r = None \<and> o_out r = None \<and> o_err r = None))"
proof -
  have v: "\<forall>w\<in>set (o_vars r). \<not> es_redir w" "\<forall>w\<in>set (o_args r). \<not> es_redir w"
    using assms(1) llana_ok by (auto simp: orden_ok_def)
  note c = clases_llanas [OF v(1)] clases_llanas [OF v(2)]
  have i: "\<forall>n. o_in r = Some n \<longrightarrow> llana n \<or> n = ''&1''" "\<forall>n. o_out r = Some n \<longrightarrow> llana n \<or> n = ''&1''"
    "\<forall>n. o_err r = Some n \<longrightarrow> llana n \<or> n = ''&1''"
    using assms(1) by (auto simp: orden_ok_def)
  note e = clases_escrito [OF i(1)] clases_escrito [OF i(2)] clases_escrito [OF i(3)]
  have f: "filter es_var (o_vars r) = o_vars r" "filter es_var (o_args r) = []" "filter (\<lambda>w. \<not> es_var w) (o_vars r) = []"
    "filter (\<lambda>w. \<not> es_var w) (o_args r) = o_args r" "filter (\<lambda>w. w \<noteq> []) (o_args r) = o_args r"
    "map (expand_environ_var status getenv) (o_args r) = o_args r"
    using assms(1) by (auto simp: orden_ok_def llana_def filter_id_conv filter_empty_conv expand_llana)
  note d = ws_def palabras_orden_def palabras_append ultimo_append c e f nombre_def
  show "argumentos status getenv ws = o_args r" "variables ws = o_vars r"
    unfolding d by simp_all
  show "ultimo (salidas ws) [] = nombre (o_out r)" "ultimo (archivos_in ws) [] = nombre (o_in r)" "ultimo (errores ws) [] = nombre (o_err r)"
    unfolding d by (simp_all split: option.split)
  show "(\<exists>w\<in>set ws. es_redir w) = (\<not> (o_in r = None \<and> o_out r = None \<and> o_err r = None))"
    unfolding ws_def palabras_orden_def set_append bex_Un e using v by auto
qed


lemma parse_exec_orden:
  assumes "orden_ok r" "length texto < BUFLEN" "palabras texto = palabras_orden r"
  shows "parse_exec status getenv texto = Some (execcmd_de texto r)"
proof -
  note p = resumen_orden(1) [OF assms(1), of status getenv] resumen_orden(2-6) [OF assms(1)]
  have n: "length (o_args r) < MAXARGS" "length (o_vars r) \<le> MAXARGS" using assms(1) by (simp_all add: orden_ok_def)
  have l: "length texto < ARGSIZE" using assms(2) by (simp add: BUFLEN_def ARGSIZE_def)
  show ?thesis
    unfolding parse_exec_def exec_cmd_create_def if_P [OF assms(2)]
    using parse_exec_bucle_palabras [OF l, of _ status getenv] n
    by (simp add: assms(3) con_palabras_def p execcmd_de_def)
qed

text \<open>Without \<open>&\<close>, or with the first one after a \<open>>\<close>, the command is not sent to the background.\<close>

lemma primera_posicion:
  assumes "c \<notin> set a"
  shows "block_contains (a @ c # b) c = int (length a)"
  unfolding block_contains_eq using assms by (auto simp: nth_append dest: nth_mem)

lemma parse_cmd_exec:
  assumes "buf \<noteq> []" "CHR 0x26 \<notin> set buf \<or> (\<exists>a b. buf = a @ CHR 0x3E # CHR 0x26 # b \<and> CHR 0x26 \<notin> set a)"
    "parse_exec status getenv buf = Some e"
  shows "parse_cmd status getenv previo buf = Some (Exec e)"
proof (cases "CHR 0x26 \<in> set buf")
  case False
  with assms show ?thesis by (simp add: parse_cmd_def Let_def busqueda)
next
  case True
  then obtain a b where b: "buf = a @ CHR 0x3E # CHR 0x26 # b" "CHR 0x26 \<notin> set a" using assms(2) by blast
  then have "block_contains buf CHR 0x26 = int (Suc (length a))"
    using primera_posicion [of "CHR 0x26" "a @ [CHR 0x3E]" b] by simp
  moreover have "nat (int (Suc (length a))) - 1 = length a" "buf ! length a = CHR 0x3E" by (simp_all add: b)
  ultimately show ?thesis using assms(1,3) by (simp add: parse_cmd_def Let_def del: of_nat_Suc)
qed

lemma ampersand_orden:
  assumes "orden_ok r" "s = [] \<or> s = [SPACE]"
  shows "CHR 0x26 \<notin> set (unir (palabras_orden r) @ s)
    \<or> (\<exists>a b. unir (palabras_orden r) @ s = a @ CHR 0x3E # CHR 0x26 # b \<and> CHR 0x26 \<notin> set a)"
proof -
  have sp: "CHR 0x26 \<noteq> SPACE" by (simp add: SPACE_def)
  define ws where "ws = o_vars r @ o_args r @ escrito ''<'' (o_in r) @ escrito ''>'' (o_out r)"
  have "CHR 0x26 \<notin> set w" if "w \<in> set ws" for w
    using assms(1) that by (auto simp: ws_def orden_ok_def llana_def especial_def escrito_def split: option.splits)
  then have ws: "CHR 0x26 \<notin> set (unir ws)" using set_unir [of ws] sp by auto
  have ne: "ws \<noteq> []" using assms(1) by (simp add: ws_def orden_ok_def)
  have p: "palabras_orden r = ws @ escrito ''2>'' (o_err r)" by (simp add: palabras_orden_def ws_def)
  show ?thesis
  proof (cases "o_err r")
    case None
    with ws sp assms(2) show ?thesis by (auto simp: p escrito_def)
  next
    case (Some f)
    have u: "unir (ws @ [w]) = unir ws @ SPACE # w" for w using ne by (induction ws rule: unir.induct) simp_all
    show ?thesis
    proof (cases "llana f")
      case True
      then have "CHR 0x26 \<notin> set f" by (auto simp: llana_def especial_def)
      with Some ws sp assms(2) show ?thesis by (auto simp: p escrito_def u)
    next
      case False
      then have f: "f = ''&1''" using assms(1) Some by (auto simp: orden_ok_def)
      have "unir (palabras_orden r) @ s = (unir ws @ SPACE # ''2'') @ CHR 0x3E # CHR 0x26 # ''1'' @ s"
        by (simp add: p escrito_def Some f u)
      moreover have "CHR 0x26 \<notin> set (unir ws @ SPACE # ''2'')" using ws sp by simp
      ultimately show ?thesis by blast
    qed
  qed
qed


lemma split_encontrada:
  assumes "c \<notin> set izq" "der = [] \<or> hd der \<noteq> SPACE"
  shows "split_line cap (izq @ c # SPACE # der) c = Some (izq, der, cap - (length izq + 2))"
proof -
  have t: "takeWhile (\<lambda>x. x \<noteq> c) (izq @ c # SPACE # der) = izq" using assms(1) by (induction izq) auto
  have d: "dropWhile (\<lambda>x. x = SPACE) der = der" using assms(2) by (cases der) auto
  show ?thesis by (simp add: split_line_def t d)
qed

lemma split_sin:
  assumes "c \<notin> set buf" "length buf + 1 < cap"
  shows "split_line cap buf c = Some (buf, [], cap - (length buf + 1))"
proof -
  have t: "takeWhile (\<lambda>x. x \<noteq> c) buf = buf" using assms(1) by (auto simp: takeWhile_eq_all_conv)
  from assms(2) show ?thesis unfolding split_line_def t Let_def by simp
qed

lemma barra_orden:
  assumes "orden_ok r"
  shows "CHR 0x7C \<notin> set (unir (palabras_orden r))"
proof -
  have "\<forall>f. o_err r = Some f \<longrightarrow> CHR 0x7C \<notin> set f" using assms by (auto simp: orden_ok_def llana_def especial_def)
  then have "\<forall>w\<in>set (escrito ''2>'' (o_err r)). CHR 0x7C \<notin> set w" by (auto simp: escrito_def split: option.splits)
  then have "CHR 0x7C \<notin> set w" if "w \<in> set (palabras_orden r)" for w
    using assms that by (auto simp: palabras_orden_def orden_ok_def llana_def especial_def escrito_def split: option.splits)
  then show ?thesis using set_unir [of "palabras_orden r"] by (auto simp: SPACE_def)
qed

lemma parse_cmd_orden:
  assumes "orden_ok r" "length (unir (palabras_orden r) @ s) < BUFLEN" "s = [] \<or> s = [SPACE]"
  shows "parse_cmd status getenv previo (unir (palabras_orden r) @ s) = Some (Exec (execcmd_de (unir (palabras_orden r) @ s) r))"
proof (rule parse_cmd_exec)
  note w = palabras_orden_ok [OF assms(1)]
  show "unir (palabras_orden r) @ s \<noteq> []" using unir_no_vacia [of "palabras_orden r"] w by simp
  show "CHR 0x26 \<notin> set (unir (palabras_orden r) @ s)
      \<or> (\<exists>a b. unir (palabras_orden r) @ s = a @ CHR 0x3E # CHR 0x26 # b \<and> CHR 0x26 \<notin> set a)"
    by (rule ampersand_orden [OF assms(1,3)])
  have "palabras (unir (palabras_orden r) @ s) = palabras_orden r"
    using palabras_unir [OF w(1)] palabras_unir_espacio [OF w] assms(3) by auto
  then show "parse_exec status getenv (unir (palabras_orden r) @ s) = Some (execcmd_de (unir (palabras_orden r) @ s) r)"
    by (rule parse_exec_orden [OF assms(1,2)])
qed

lemma linea_no_vacia: "rs \<noteq> [] \<Longrightarrow> \<forall>r\<in>set rs. orden_ok r \<Longrightarrow> linea_de rs \<noteq> [] \<and> hd (linea_de rs) \<noteq> SPACE"
proof (induction rs rule: linea_de.induct)
  case (2 r)
  then show ?case using unir_no_vacia [of "palabras_orden r"] palabras_orden_ok [of r] by simp
next
  case (3 r r' rs)
  then show ?case using unir_no_vacia [of "palabras_orden r"] palabras_orden_ok [of r] by simp
qed simp

lemma arbol_no_nulo: "rs \<noteq> [] \<Longrightarrow> arbol rs \<noteq> Nulo"
  by (cases rs rule: arbol.cases) simp_all

lemma parse_line_arbol:
  assumes "rs \<noteq> []" "\<forall>r\<in>set rs. orden_ok r" "length (linea_de rs) + 1 < cap" "length (linea_de rs) < BUFLEN"
  shows "parse_line status getenv cap previo (linea_de rs) = Some (arbol rs)"
  using assms
proof (induction rs arbitrary: cap previo rule: linea_de.induct)
  case (2 r)
  then have r: "orden_ok r" by simp
  have b: "block_contains [] CHR 0x7C < 0" by (simp add: block_contains_lt)
  show ?case
    using split_sin [OF barra_orden [OF r], of cap] 2 parse_cmd_orden [OF r, of "[]" status getenv previo] b
    by (subst parse_line.simps) (simp add: parse_cmd_def pipe_cmd_create_def)
next
  case (3 r r' rs)
  let ?u = "unir (palabras_orden r) @ [SPACE]" and ?L = "linea_de (r' # rs)"
  have r: "orden_ok r" "\<forall>q\<in>set (r' # rs). orden_ok q" "orden_ok r'" using "3.prems" by simp_all
  have l: "linea_de (r # r' # rs) = ?u @ CHR 0x7C # SPACE # ?L" by (simp add: SPACE_def)
  have len: "length (linea_de (r # r' # rs)) = length ?u + 2 + length ?L" unfolding l by simp
  have u: "CHR 0x7C \<notin> set ?u" using barra_orden [OF r(1)] by (simp add: SPACE_def)
  have L: "hd ?L \<noteq> SPACE" using linea_no_vacia [OF _ r(2)] by blast
  have s: "split_line cap (linea_de (r # r' # rs)) CHR 0x7C = Some (?u, ?L, cap - (length ?u + 2))"
    unfolding l using L by (intro split_encontrada [OF u]) blast
  have left: "parse_cmd status getenv previo ?u = Some (Exec (execcmd_de ?u r))"
    using "3.prems"(4) by (intro parse_cmd_orden [OF r(1)]) (simp_all add: len)
  have cap: "length ?L + 1 < cap - (length ?u + 2)" "length ?L < BUFLEN" using "3.prems"(3,4) len by simp_all
  have ih: "parse_line status getenv (cap - (length ?u + 2)) p ?L = Some (arbol (r' # rs))" for p
    using r(2) cap by (intro "3.IH") simp_all
  have right: "(if block_contains ?L CHR 0x7C \<ge> 0 then parse_line status getenv (cap - (length ?u + 2)) p ?L
      else parse_cmd status getenv p ?L) = Some (arbol (r' # rs))" for p
  proof (cases rs)
    case Nil
    with barra_orden [OF r(3)] parse_cmd_orden [OF r(3), of "[]" status getenv p] cap(2) show ?thesis
      by (simp add: block_contains_ge)
  next
    case (Cons q qs)
    then have "CHR 0x7C \<in> set ?L" by simp
    then show ?thesis unfolding block_contains_ge by (simp only: if_True ih)
  qed
  show ?case
    unfolding parse_line.simps [of status getenv cap previo "linea_de (r # r' # rs)"] s option.case prod.case right left
    using arbol_no_nulo [of "r' # rs"] by (simp add: pipe_cmd_create_def SPACE_def)
qed simp

text \<open>
  C26: printing a pipeline and parsing it gives it back. For every pipeline of commands,
  each with assignments, at least one argument, and files for its three streams (or
  \<open>2>&1\<close>), written with single spaces and with \<open> | \<close> between commands, the parse of the
  line is the tree of its commands: nested to the right, with the arguments, assignments
  and file names that were written. The line has at most 1022 characters, the arguments
  of each command are fewer than 20 and do not begin with \<open>$\<close>.
\<close>

theorem parse_imprimir:
  assumes "rs \<noteq> []" "\<forall>r\<in>set rs. orden_ok r" "length (linea_de rs) + 1 < BUFLEN"
  shows "parse_buffer status getenv (linea_de rs) = Some (arbol rs)"
  using parse_line_arbol [OF assms, of status getenv None] assms(3) by (simp add: parse_buffer_def)

definition orden_ej :: "string list \<Rightarrow> string option \<Rightarrow> orden" where
  "orden_ej as err = \<lparr>o_vars = [''A=1''], o_args = as, o_in = None, o_out = Some ''f'', o_err = err\<rparr>"

lemma parse_imprimir_witness:
  "parse_buffer 0 (\<lambda>_. None) ''A=1 ls -l >f 2>&1 | A=1 wc >f''
    = Some (arbol [orden_ej [''ls'', ''-l''] (Some ''&1''), orden_ej [''wc''] None])"
proof -
  let ?rs = "[orden_ej [''ls'', ''-l''] (Some ''&1''), orden_ej [''wc''] None]"
  have l: "linea_de ?rs = ''A=1 ls -l >f 2>&1 | A=1 wc >f''"
    by (simp add: orden_ej_def palabras_orden_def escrito_def SPACE_def)
  have "\<forall>r\<in>set ?rs. orden_ok r"
    by (simp add: orden_ej_def orden_ok_def llana_def especial_def es_var_def MAXARGS_def SPACE_def)
  from parse_imprimir [OF _ this, of 0 "\<lambda>_. None"] show ?thesis unfolding l by (simp add: BUFLEN_def)
qed

end
