(* ===== verification/Shell_Exec.thy ===== *)
theory Shell_Exec
  imports Shell_Parse
begin

text \<open>
  Running a parsed command: \<open>TP1-shell/exec.c\<close>, \<open>builtin.c\<close>, \<open>printstatus.c\<close> and
  \<open>runcmd.c\<close>. A process is its table of open files and its environment; \<open>open\<close>, \<open>pipe\<close>,
  \<open>dup2\<close> and \<open>close\<close> act on the table as POSIX says, \<open>open\<close> and \<open>pipe\<close> taking the lowest
  free numbers. What the system decides is a record of functions: whether a file opens,
  whether a program can be executed, whether \<open>pipe\<close> and \<open>fork\<close> succeed (by the position of
  the pipe in the line) and where \<open>chdir\<close> goes. Process groups, messages and the order in
  which processes run are left out.
\<close>

section \<open>Processes\<close>

datatype descr = Externo nat | ArchivoIn string | ArchivoOut string | LadoLee nat | LadoEscribe nat

record proceso =
  fds :: "nat \<Rightarrow> descr option"
  entorno :: "string \<Rightarrow> string option"

record sistema =
  abrir :: "string \<Rightarrow> bool \<Rightarrow> bool"
  ejecutable :: "string \<Rightarrow> bool"
  pipe_ok :: "nat \<Rightarrow> bool"
  fork_ok :: "nat \<Rightarrow> bool \<times> bool"
  ir_a :: "string \<Rightarrow> string \<Rightarrow> string option"

definition OPEN_MAX :: nat where "OPEN_MAX = 1024"
definition ERROR :: int where "ERROR = -1"
definition MAX_ENV_BUFF :: nat where "MAX_ENV_BUFF = 256"

definition libre_fd :: "proceso \<Rightarrow> nat option" where
  "libre_fd p = primer_indice (\<lambda>i. fds p i = None) OPEN_MAX"

definition close_fd :: "nat \<Rightarrow> proceso \<Rightarrow> proceso" where
  "close_fd fd p = p\<lparr>fds := (fds p)(fd := None)\<rparr>"

definition dup2 :: "nat \<Rightarrow> nat \<Rightarrow> proceso \<Rightarrow> proceso option" where
  "dup2 old new p = (if fds p old = None then None else Some (p\<lparr>fds := (fds p)(new := fds p old)\<rparr>))"

text \<open>
  How a process ends: it becomes another program, it exits, \<open>exec_cmd\<close> returns, it becomes
  the two sides of a pipe (the second, if it could be forked) and the process that waits for them, or it makes an invalid
  access to memory.
\<close>

datatype fin = Execvp "string list" proceso | Sale int | Vuelve proceso | Tubo fin "fin option" fin | Falla

section \<open>Environment variables\<close>

definition get_environ_key :: "string \<Rightarrow> string" where
  "get_environ_key arg = takeWhile (\<lambda>c. c \<noteq> CHR 0x3D) arg"

definition get_environ_value :: "string \<Rightarrow> nat \<Rightarrow> string" where
  "get_environ_value arg idx = drop (idx + 1) arg"

text \<open>None when the key or the value overflows its array.\<close>

fun set_environ_vars :: "string list \<Rightarrow> proceso \<Rightarrow> proceso option" where
  "set_environ_vars [] p = Some p"
| "set_environ_vars (v # vs) p =
     (let indx = block_contains v CHR 0x3D in
      if indx = -1 then set_environ_vars vs p
      else
        let key = get_environ_key v; value = get_environ_value v (nat indx) in
        if length key < MAX_ENV_BUFF \<and> length value < MAX_ENV_BUFF then
          set_environ_vars vs (if key = [] then p else p\<lparr>entorno := (entorno p)(key \<mapsto> value)\<rparr>)
        else None)"

section \<open>Redirections\<close>

definition open_redir_fd :: "sistema \<Rightarrow> string \<Rightarrow> bool \<Rightarrow> proceso \<Rightarrow> (nat \<times> proceso) option" where
  "open_redir_fd sys archivo escritura p =
     (if abrir sys archivo escritura then
        (case libre_fd p of
           None \<Rightarrow> None
         | Some fd \<Rightarrow> Some (fd, p\<lparr>fds := (fds p)(fd \<mapsto> (if escritura then ArchivoOut archivo else ArchivoIn archivo))\<rparr>))
      else None)"

text \<open>\<open>redireccionar\<close> on what \<open>open_redir_fd\<close> returned; the left value is an exit code.\<close>

definition redireccionar :: "(nat \<times> proceso) option \<Rightarrow> nat \<Rightarrow> int + proceso" where
  "redireccionar abierto fileno =
     (case abierto of
        None \<Rightarrow> Inl ERROR
      | Some (fd, p) \<Rightarrow> (case dup2 fd fileno p of None \<Rightarrow> Inl ERROR | Some p' \<Rightarrow> Inr (close_fd fd p')))"

definition seguir :: "int + proceso \<Rightarrow> (proceso \<Rightarrow> int + proceso) \<Rightarrow> int + proceso" where
  "seguir r f = (case r of Inl e \<Rightarrow> Inl e | Inr p \<Rightarrow> f p)"

definition ejecutar_redirecciones :: "sistema \<Rightarrow> execcmd \<Rightarrow> proceso \<Rightarrow> int + proceso" where
  "ejecutar_redirecciones sys r p =
     seguir (if length (in_file r) > 0 then redireccionar (open_redir_fd sys (in_file r) False p) 0 else Inr p) (\<lambda>p.
     seguir (if length (out_file r) > 0 then redireccionar (open_redir_fd sys (out_file r) True p) 1 else Inr p) (\<lambda>p.
       if length (err_file r) > 0 then
         (if err_file r = ''&1'' then (case dup2 1 2 p of None \<Rightarrow> Inl ERROR | Some p' \<Rightarrow> Inr p')
          else redireccionar (open_redir_fd sys (err_file r) True p) 2)
       else Inr p))"

section \<open>Executing\<close>

text \<open>The case \<open>EXEC\<close>, which \<open>BACK\<close> repeats.\<close>

definition ejecutar_programa :: "sistema \<Rightarrow> execcmd \<Rightarrow> proceso \<Rightarrow> fin" where
  "ejecutar_programa sys e p =
     (case set_environ_vars (eargv e) p of
        None \<Rightarrow> Falla
      | Some p' \<Rightarrow> if argv e \<noteq> [] \<and> ejecutable sys (hd (argv e)) then Execvp (argv e) p' else Sale ERROR)"

fun si_vuelve :: "fin \<Rightarrow> fin" where
  "si_vuelve (Vuelve p) = Sale 1"
| "si_vuelve f = f"

text \<open>The process on each side of a pipe, before it executes its command.\<close>

definition lado_izq :: "nat \<Rightarrow> nat \<Rightarrow> proceso \<Rightarrow> proceso option" where
  "lado_izq fd0 fd1 p = map_option (close_fd fd1) (dup2 fd1 1 (close_fd fd0 p))"

definition lado_der :: "nat \<Rightarrow> nat \<Rightarrow> proceso \<Rightarrow> proceso option" where
  "lado_der fd0 fd1 p = map_option (close_fd fd0) (dup2 fd0 0 (close_fd fd1 p))"

text \<open>\<open>pipe\<close>: the two numbers and the process with both ends open.\<close>

definition hacer_pipe :: "sistema \<Rightarrow> nat \<Rightarrow> proceso \<Rightarrow> (nat \<times> nat \<times> proceso) option" where
  "hacer_pipe sys n p =
     (if \<not> pipe_ok sys n then None
      else do {
        fd0 \<leftarrow> libre_fd p;
        let p0 = p\<lparr>fds := (fds p)(fd0 \<mapsto> LadoLee n)\<rparr>;
        fd1 \<leftarrow> libre_fd p0;
        Some (fd0, fd1, p0\<lparr>fds := (fds p0)(fd1 \<mapsto> LadoEscribe n)\<rparr>)
      })"

text \<open>
  \<open>exec_cmd\<close> and \<open>ejecutar_pipe\<close>; \<open>n\<close> is the number of the next pipe of the line. When a
  fork fails, \<open>handle_error\<close> takes the process number for the array of descriptors.
\<close>

fun exec_cmd :: "sistema \<Rightarrow> nat \<Rightarrow> cmd \<Rightarrow> proceso \<Rightarrow> fin" where
  "exec_cmd sys n Nulo p = Falla"
| "exec_cmd sys n (Exec e) p =
     (if ctype e = EXEC then ejecutar_programa sys e p
      else case ejecutar_redirecciones sys e p of
        Inl codigo \<Rightarrow> Sale codigo
      | Inr p' \<Rightarrow> ejecutar_programa sys (e\<lparr>ctype := EXEC\<rparr>) p')"
| "exec_cmd sys n (Back e) p = ejecutar_programa sys e p"
| "exec_cmd sys n (Pipe l r) p =
     (case hacer_pipe sys n p of
        None \<Rightarrow> Vuelve p
      | Some (fd0, fd1, p1) \<Rightarrow>
          if \<not> fst (fork_ok sys n) then Falla
          else
            let izq = (case lado_izq fd0 fd1 p1 of None \<Rightarrow> Sale ERROR | Some q \<Rightarrow> si_vuelve (exec_cmd sys n l q)) in
            if \<not> snd (fork_ok sys n) then Tubo izq None Falla
            else
              Tubo izq
                (Some (case lado_der fd0 fd1 p1 of None \<Rightarrow> Sale ERROR | Some q \<Rightarrow> si_vuelve (exec_cmd sys (n + 1) r q)))
                (if free_command (Pipe l r) = None then Falla else Sale 0))"

section \<open>Builtins (builtin.c)\<close>

record shell =
  cwd :: string
  prompt :: string
  status :: int
  propio :: proceso

definition PRMTLEN :: nat where "PRMTLEN = 1024"

text \<open>\<open>snprintf(prompt, sizeof prompt, "(%s)", getcwd(...))\<close> for a directory that fits.\<close>

definition nuevo_prompt :: "string \<Rightarrow> string" where
  "nuevo_prompt dir = take (PRMTLEN - 1) (CHR 0x28 # dir @ [CHR 0x29])"

definition mudarse :: "sistema \<Rightarrow> string \<Rightarrow> shell \<Rightarrow> (bool \<times> shell) option" where
  "mudarse sys camino sh =
     (case ir_a sys (cwd sh) camino of
        None \<Rightarrow> Some (False, sh)
      | Some dir \<Rightarrow> if length dir < PRMTLEN then Some (True, sh\<lparr>cwd := dir, prompt := nuevo_prompt dir\<rparr>) else None)"

definition cd :: "sistema \<Rightarrow> string \<Rightarrow> shell \<Rightarrow> (bool \<times> shell) option" where
  "cd sys cmd sh =
     (if cmd = ''cd'' then
        (case entorno (propio sh) ''HOME'' of None \<Rightarrow> Some (False, sh) | Some camino \<Rightarrow> mudarse sys camino sh)
      else if take 3 cmd = ''cd '' then mudarse sys (drop 3 cmd) sh
      else Some (False, sh))"

definition exit_shell :: "string \<Rightarrow> bool" where
  "exit_shell cmd \<longleftrightarrow> take 4 cmd = ''exit''"

definition pwd :: "string \<Rightarrow> bool" where
  "pwd cmd \<longleftrightarrow> cmd = ''pwd''"

definition history :: "string \<Rightarrow> bool" where
  "history cmd \<longleftrightarrow> False"

section \<open>One line of the shell (printstatus.c, runcmd.c)\<close>

text \<open>The wait status read as \<open>WIFEXITED\<close> and the other macros do.\<close>

definition print_status_info :: "cmd \<Rightarrow> int \<Rightarrow> int" where
  "print_status_info c st =
     (if cmd_scmd c = [] \<or> cmd_type c = Some PIPE then st
      else if st mod 128 = 0 then st div 256 mod 256
      else if st mod 128 < 127 then - (st mod 128)
      else - (st div 256 mod 256))"

text \<open>
  What a line does to the shell: it goes on, with the process it started if any, it exits,
  or it makes an invalid access. \<open>espera\<close> is the status that \<open>waitpid\<close> stores, if it
  stores one.
\<close>

datatype paso_shell = Sigue shell "fin option" | Termina int | Rompe

definition run_cmd :: "sistema \<Rightarrow> int option \<Rightarrow> string \<Rightarrow> shell \<Rightarrow> paso_shell" where
  "run_cmd sys espera cmd sh =
     (if cmd = [] then Sigue sh None
      else if history cmd then Sigue sh None
      else
        case cd sys cmd sh of
          None \<Rightarrow> Rompe
        | Some (hecho, sh1) \<Rightarrow>
            if hecho then Sigue sh1 None
            else if exit_shell cmd then Termina 1
            else if pwd cmd then Sigue sh1 None
            else
              case parse_buffer (status sh1) (entorno (propio sh1)) cmd of
                None \<Rightarrow> Rompe
              | Some parsed \<Rightarrow>
                  if parsed = Nulo then Rompe
                  else
                    let hijo = exec_cmd sys 0 parsed (propio sh1);
                        sh2 = (if cmd_type parsed = Some BACK then sh1
                               else sh1\<lparr>status := print_status_info parsed
                                      (case espera of None \<Rightarrow> status sh1 | Some s \<Rightarrow> s)\<rparr>)
                    in if free_command parsed = None then Rompe else Sigue sh2 (Some hijo))"

end
