(* ===== verification/Shell_Run.thy ===== *)
theory Shell_Run
  imports Shell_Claims Shell_Exec
begin

text \<open>
  The properties of running commands: how the processes of a pipeline are connected, that
  a command whose files cannot be opened does not run, and what the background loses.
\<close>

section \<open>The table of open files\<close>

definition estandar :: "descr \<Rightarrow> descr \<Rightarrow> descr \<Rightarrow> nat \<Rightarrow> descr option" where
  "estandar a b c = [0 \<mapsto> a, 1 \<mapsto> b, 2 \<mapsto> c]"

lemma estandar_simps [simp]:
  "estandar a b c 0 = Some a" "estandar a b c (Suc 0) = Some b" "estandar a b c 2 = Some c"
  "2 < i \<Longrightarrow> estandar a b c i = None"
  by (auto simp: estandar_def)

lemma estandar_upd:
  "(estandar a b c)(0 \<mapsto> x) = estandar x b c" "(estandar a b c)(Suc 0 \<mapsto> x) = estandar a x c"
  "(estandar a b c)(2 \<mapsto> x) = estandar a b x"
  by (auto simp: estandar_def)

lemma estandar_cierra: "2 < i \<Longrightarrow> (estandar a b c)(i := None) = estandar a b c"
  by (auto simp: estandar_def)

lemma libre_estandar: "fds p = estandar a b c \<Longrightarrow> libre_fd p = Some 3"
  unfolding libre_fd_def by (rule primer_indiceI) (auto simp: OPEN_MAX_def estandar_def numeral_3_eq_3 less_Suc_eq numeral_2_eq_2)

lemma redireccionar_estandar:
  assumes "fds p = estandar a b c" "abrir sys f w" "k < 3"
  shows "redireccionar (open_redir_fd sys f w p) k
    = Inr (p\<lparr>fds := (estandar a b c)(k \<mapsto> (if w then ArchivoOut f else ArchivoIn f))\<rparr>)"
proof -
  have "((estandar a b c)(3 \<mapsto> x, k \<mapsto> x))(3 := None) = (estandar a b c)(k \<mapsto> x)" for x
    using assms(3) by (auto simp: fun_eq_iff)
  with assms show ?thesis
    by (simp add: redireccionar_def open_redir_fd_def libre_estandar dup2_def close_fd_def)
qed

text \<open>What the three redirections of a command do to standard tables.\<close>

definition entrada_de :: "orden \<Rightarrow> descr \<Rightarrow> descr" where
  "entrada_de r a = (case o_in r of None \<Rightarrow> a | Some f \<Rightarrow> ArchivoIn f)"

definition salida_de :: "orden \<Rightarrow> descr \<Rightarrow> descr" where
  "salida_de r b = (case o_out r of None \<Rightarrow> b | Some f \<Rightarrow> ArchivoOut f)"

definition error_de :: "orden \<Rightarrow> descr \<Rightarrow> descr \<Rightarrow> descr" where
  "error_de r b c = (case o_err r of None \<Rightarrow> c | Some f \<Rightarrow> if f = ''&1'' then salida_de r b else ArchivoOut f)"

definition archivos_ok :: "sistema \<Rightarrow> orden \<Rightarrow> bool" where
  "archivos_ok sys r \<longleftrightarrow> (\<forall>f. o_in r = Some f \<longrightarrow> f \<noteq> [] \<and> abrir sys f False)
     \<and> (\<forall>f. o_out r = Some f \<longrightarrow> f \<noteq> [] \<and> abrir sys f True) \<and> (\<forall>f. o_err r = Some f \<longrightarrow> f \<noteq> [] \<and> (f = ''&1'' \<or> abrir sys f True))"

lemma redirecciones_estandar:
  assumes p: "fds p = estandar a b c" and ok: "archivos_ok sys r"
  shows "ejecutar_redirecciones sys (execcmd_de t r) p
    = Inr (p\<lparr>fds := estandar (entrada_de r a) (salida_de r b) (error_de r b c)\<rparr>)"
proof -
  have id: "p\<lparr>fds := estandar a b c\<rparr> = p" using p by simp
  have i: "(if length (nombre (o_in r)) > 0 then redireccionar (open_redir_fd sys (nombre (o_in r)) False p) 0 else Inr p)
    = Inr (p\<lparr>fds := estandar (entrada_de r a) b c\<rparr>)"
    using ok redireccionar_estandar [OF p, of sys _ False 0] id
    by (cases "o_in r") (auto simp: archivos_ok_def entrada_de_def nombre_def estandar_upd)
  have o': "(if length (nombre (o_out r)) > 0 then redireccionar (open_redir_fd sys (nombre (o_out r)) True q) 1 else Inr q)
    = Inr (q\<lparr>fds := estandar x (salida_de r b) c\<rparr>)" if "fds q = estandar x b c" for q x
    using ok redireccionar_estandar [OF that, of sys _ True 1] that
    by (cases "o_out r") (auto simp: archivos_ok_def salida_de_def nombre_def estandar_upd)
  have e: "(if length (nombre (o_err r)) > 0 then
         (if nombre (o_err r) = ''&1'' then (case dup2 1 2 q of None \<Rightarrow> Inl ERROR | Some p' \<Rightarrow> Inr p')
          else redireccionar (open_redir_fd sys (nombre (o_err r)) True q) 2)
       else Inr q) = Inr (q\<lparr>fds := estandar x (salida_de r b) (error_de r b c)\<rparr>)"
    if "fds q = estandar x (salida_de r b) c" for q x
    using ok redireccionar_estandar [OF that, of sys _ True 2] that
    by (cases "o_err r") (auto simp: archivos_ok_def error_de_def nombre_def estandar_upd dup2_def)
  show ?thesis
    unfolding ejecutar_redirecciones_def execcmd_de_def execcmd.simps i seguir_def sum.case
    by (subst o', simp) (use e [of "p\<lparr>fds := estandar (entrada_de r a) (salida_de r b) c\<rparr>" "entrada_de r a"] in simp)
qed

section \<open>Variables\<close>

definition con_vars :: "string list \<Rightarrow> (string \<Rightarrow> string option) \<Rightarrow> string \<Rightarrow> string option" where
  "con_vars vs env = fold (\<lambda>v e. e(takeWhile (\<lambda>c. c \<noteq> CHR 0x3D) v \<mapsto> tl (dropWhile (\<lambda>c. c \<noteq> CHR 0x3D) v))) vs env"

lemma con_vars_simps [simp]: "con_vars [] env = env"
  "con_vars (v # vs) env = con_vars vs (env(takeWhile (\<lambda>c. c \<noteq> CHR 0x3D) v \<mapsto> tl (dropWhile (\<lambda>c. c \<noteq> CHR 0x3D) v)))"
  by (simp_all add: con_vars_def)

lemma set_environ_ok:
  "\<forall>v\<in>set vs. es_var v \<and> length v < MAX_ENV_BUFF \<Longrightarrow> set_environ_vars vs p = Some (p\<lparr>entorno := con_vars vs (entorno p)\<rparr>)"
proof (induction vs arbitrary: p)
  case (Cons v vs)
  let ?k = "takeWhile (\<lambda>c. c \<noteq> CHR 0x3D) v" and ?r = "dropWhile (\<lambda>c. c \<noteq> CHR 0x3D) v"
  have v: "CHR 0x3D \<in> set v" "hd v \<noteq> CHR 0x3D" "length v < MAX_ENV_BUFF" using Cons.prems by (auto simp: es_var_def)
  have r: "?r = CHR 0x3D # tl ?r" using v(1) by (induction v) auto
  have s: "v = ?k @ CHR 0x3D # tl ?r" using r takeWhile_dropWhile_id by metis
  have "CHR 0x3D \<notin> set ?k" by (auto dest: set_takeWhileD)
  then have b: "block_contains v CHR 0x3D = int (length ?k)" using primera_posicion [of "CHR 0x3D" ?k "tl ?r"] s by simp
  have d: "drop (Suc (length ?k)) v = tl ?r" by (subst (2) s) simp
  have "?k \<noteq> []" using v(1,2) by (cases v) auto
  moreover have "length ?k < MAX_ENV_BUFF" using v(3) length_takeWhile_le le_less_trans by blast
  moreover have "length (tl ?r) < MAX_ENV_BUFF" using v(3) unfolding d [symmetric] by simp
  ultimately show ?case using Cons.IH Cons.prems
    by (simp add: b get_environ_key_def get_environ_value_def d)
qed simp


lemma ejecutar_orden:
  assumes "orden_ok r" "\<forall>v\<in>set (o_vars r). length v < MAX_ENV_BUFF" "ejecutable sys (hd (o_args r))" "eargv e = o_vars r" "argv e = o_args r"
  shows "ejecutar_programa sys e p = Execvp (o_args r) (p\<lparr>entorno := con_vars (o_vars r) (entorno p)\<rparr>)"
  using assms set_environ_ok [of "o_vars r" p] by (simp add: ejecutar_programa_def orden_ok_def)

section \<open>Pipelines\<close>

text \<open>
  What the processes of a pipeline should be: each program has standard input from the pipe
  before it, standard output to the pipe after it, files where the command names them, the
  variables of the command, and no other open file; a process waits for each pair.
\<close>

definition programa :: "orden \<Rightarrow> descr \<Rightarrow> descr \<Rightarrow> descr \<Rightarrow> proceso \<Rightarrow> fin" where
  "programa r a b c p = Execvp (o_args r)
     (p\<lparr>fds := estandar (entrada_de r a) (salida_de r b) (error_de r b c), entorno := con_vars (o_vars r) (entorno p)\<rparr>)"

fun tuberia :: "nat \<Rightarrow> orden list \<Rightarrow> descr \<Rightarrow> descr \<Rightarrow> descr \<Rightarrow> proceso \<Rightarrow> fin" where
  "tuberia n [] a b c p = Falla"
| "tuberia n [r] a b c p = programa r a b c p"
| "tuberia n (r # rs) a b c p =
     Tubo (programa r a (LadoEscribe n) c p) (Some (tuberia (n + 1) rs (LadoLee n) b c p)) (Sale 0)"

definition sistema_ok :: "sistema \<Rightarrow> orden list \<Rightarrow> bool" where
  "sistema_ok sys rs \<longleftrightarrow> (\<forall>n. pipe_ok sys n \<and> fork_ok sys n = (True, True))
     \<and> (\<forall>r\<in>set rs. archivos_ok sys r \<and> ejecutable sys (hd (o_args r)) \<and> (\<forall>v\<in>set (o_vars r). length v < MAX_ENV_BUFF))"

lemma exec_orden:
  assumes "orden_ok r" "sistema_ok sys rs" "r \<in> set rs" "fds p = estandar a b c"
  shows "exec_cmd sys n (Exec (execcmd_de t r)) p = programa r a b c p"
proof -
  have ok: "archivos_ok sys r" "ejecutable sys (hd (o_args r))" "\<forall>v\<in>set (o_vars r). length v < MAX_ENV_BUFF"
    using assms(2,3) by (simp_all add: sistema_ok_def)
  note ex = ejecutar_orden [OF assms(1) ok(3,2)]
  have v: "eargv (execcmd_de t r) = o_vars r" "argv (execcmd_de t r) = o_args r" by (simp_all add: execcmd_de_def)
  show ?thesis
  proof (cases "ctype (execcmd_de t r) = EXEC")
    case True
    then have "o_in r = None \<and> o_out r = None \<and> o_err r = None" by (auto simp: execcmd_de_def cmd_types split: if_splits)
    then have "estandar (entrada_de r a) (salida_de r b) (error_de r b c) = fds p"
      by (simp add: entrada_de_def salida_de_def error_de_def assms(4))
    with True ex [OF v, of p] show ?thesis by (simp add: programa_def)
  next
    case False
    have "eargv ((execcmd_de t r)\<lparr>ctype := EXEC\<rparr>) = o_vars r" "argv ((execcmd_de t r)\<lparr>ctype := EXEC\<rparr>) = o_args r"
      using v by simp_all
    from False ex [OF this] redirecciones_estandar [OF assms(4) ok(1), of t] show ?thesis by (simp add: programa_def)
  qed
qed

lemma pipe_estandar:
  assumes p: "fds p = estandar a b c" and ok: "pipe_ok sys n"
  obtains p1 where "hacer_pipe sys n p = Some (3, 4, p1)"
    "lado_izq 3 4 p1 = Some (p\<lparr>fds := estandar a (LadoEscribe n) c\<rparr>)" "lado_der 3 4 p1 = Some (p\<lparr>fds := estandar (LadoLee n) b c\<rparr>)"
proof -
  let ?p0 = "p\<lparr>fds := (estandar a b c)(3 \<mapsto> LadoLee n)\<rparr>"
  let ?p1 = "p\<lparr>fds := (estandar a b c)(3 \<mapsto> LadoLee n, 4 \<mapsto> LadoEscribe n)\<rparr>"
  have l: "libre_fd ?p0 = Some 4"
    unfolding libre_fd_def
    by (rule primer_indiceI) (auto simp: OPEN_MAX_def estandar_def eval_nat_numeral less_Suc_eq)
  have h: "hacer_pipe sys n p = Some (3, 4, ?p1)"
    using ok l by (simp add: hacer_pipe_def libre_estandar [OF p] p Let_def)
  have "lado_izq 3 4 ?p1 = Some (p\<lparr>fds := estandar a (LadoEscribe n) c\<rparr>)"
    "lado_der 3 4 ?p1 = Some (p\<lparr>fds := estandar (LadoLee n) b c\<rparr>)"
    by (simp_all add: lado_izq_def lado_der_def dup2_def close_fd_def estandar_cierra estandar_upd)
  with h that show thesis by blast
qed

lemma si_vuelve_tuberia: "rs \<noteq> [] \<Longrightarrow> si_vuelve (tuberia n rs a b c p) = tuberia n rs a b c p"
  by (cases rs rule: arbol.cases) (simp_all add: programa_def)

lemma free_arbol: "rs \<noteq> [] \<Longrightarrow> \<exists>m. free_command (arbol rs) = Some m"
  by (induction rs rule: arbol.induct) auto

lemma tuberia_entorno: "tuberia n rs a b c (p\<lparr>fds := f\<rparr>) = tuberia n rs a b c p"
  by (induction n rs a b c p rule: tuberia.induct) (simp_all add: programa_def)

lemma exec_arbol:
  assumes "rs \<noteq> []" "\<forall>r\<in>set rs. orden_ok r" "sistema_ok sys rs" "fds p = estandar a b c"
  shows "exec_cmd sys n (arbol rs) p = tuberia n rs a b c p"
  using assms
proof (induction rs arbitrary: n p a rule: arbol.induct)
  case (2 r)
  then show ?case using exec_orden [of r sys "[r]" p] by simp
next
  case (3 r r' rs)
  let ?rs = "r' # rs"
  have ok: "sistema_ok sys ?rs" using "3.prems"(3) by (simp add: sistema_ok_def)
  have fk: "fork_ok sys n = (True, True)" "pipe_ok sys n" using "3.prems"(3) by (simp_all add: sistema_ok_def)
  obtain p1 where p1: "hacer_pipe sys n p = Some (3, 4, p1)"
    "lado_izq 3 4 p1 = Some (p\<lparr>fds := estandar a (LadoEscribe n) c\<rparr>)" "lado_der 3 4 p1 = Some (p\<lparr>fds := estandar (LadoLee n) b c\<rparr>)"
    using pipe_estandar [OF "3.prems"(4) fk(2)] by blast
  have l: "exec_cmd sys n (Exec (execcmd_de t r)) (p\<lparr>fds := estandar a (LadoEscribe n) c\<rparr>)
    = programa r a (LadoEscribe n) c p" for t
    using exec_orden [OF _ "3.prems"(3), of r "p\<lparr>fds := estandar a (LadoEscribe n) c\<rparr>"] "3.prems"(2)
    by (simp add: programa_def)
  have "exec_cmd sys (n + 1) (arbol ?rs) (p\<lparr>fds := estandar (LadoLee n) b c\<rparr>) = tuberia (n + 1) ?rs (LadoLee n) b c p"
    using "3.IH" [OF _ _ ok, of "p\<lparr>fds := estandar (LadoLee n) b c\<rparr>"] "3.prems"(2) by (simp add: tuberia_entorno)
  moreover obtain m where "free_command (arbol ?rs) = Some m" using free_arbol [of ?rs] by auto
  ultimately show ?case using p1 fk l si_vuelve_tuberia [of ?rs] by (simp add: programa_def)
qed simp


text \<open>A line that is not one of the commands the shell runs itself.\<close>

definition externa :: "string \<Rightarrow> bool" where
  "externa cmd \<longleftrightarrow> cmd \<noteq> ''cd'' \<and> take 3 cmd \<noteq> ''cd '' \<and> \<not> exit_shell cmd \<and> \<not> pwd cmd"

lemma arbol_tipo: "rs \<noteq> [] \<Longrightarrow> cmd_type (arbol rs) \<noteq> Some BACK"
  by (cases rs rule: arbol.cases) (auto simp: execcmd_de_def cmd_types)

text \<open>
  C27: a pipeline typed at the shell is connected as it reads. For every printed pipeline
  of well-formed commands that is not a builtin, on a system where files open, programs
  exist and pipes and forks succeed, \<open>run_cmd\<close> starts exactly the processes of the
  pipeline: the program of each command, with its arguments and variables, standard input
  from the command before it (or the input of the shell, or its file), standard output to
  the command after it (or the output of the shell, or its file), standard error as
  written, and no other file open, so that every reader sees the end of its input when the
  writer ends. The shell itself keeps its files, environment and directory.
\<close>

theorem run_cmd_tuberia:
  assumes rs: "rs \<noteq> []" "\<forall>r\<in>set rs. orden_ok r" "length (linea_de rs) + 1 < BUFLEN" "externa (linea_de rs)"
    and ok: "sistema_ok sys rs" and sh: "fds (propio sh) = estandar a b c"
  shows "\<exists>st. run_cmd sys espera (linea_de rs) sh = Sigue (sh\<lparr>status := st\<rparr>) (Some (tuberia 0 rs a b c (propio sh)))"
proof -
  let ?l = "linea_de rs"
  have ne: "?l \<noteq> []" using linea_no_vacia [OF rs(1,2)] by blast
  have cd: "cd sys ?l sh = Some (False, sh)" using rs(4) by (simp add: cd_def externa_def)
  have p: "parse_buffer (status sh) (entorno (propio sh)) ?l = Some (arbol rs)"
    using parse_line_arbol [OF rs(1-3)] rs(3) by (simp add: parse_buffer_def)
  obtain m where "free_command (arbol rs) = Some m" using free_arbol [OF rs(1)] by blast
  with ne cd p rs(4) arbol_no_nulo [OF rs(1)] arbol_tipo [OF rs(1)] exec_arbol [OF rs(1,2) ok sh]
  have "run_cmd sys espera ?l sh = Sigue (sh\<lparr>status := print_status_info (arbol rs)
      (case espera of None \<Rightarrow> status sh | Some s \<Rightarrow> s)\<rparr>) (Some (tuberia 0 rs a b c (propio sh)))"
    by (simp add: run_cmd_def history_def externa_def Let_def)
  then show ?thesis by blast
qed

definition sistema_ej :: sistema where
  "sistema_ej = \<lparr>abrir = (\<lambda>_ _. True), ejecutable = (\<lambda>_. True), pipe_ok = (\<lambda>_. True), fork_ok = (\<lambda>_. (True, True)), ir_a = (\<lambda>_ _. None)\<rparr>"

definition shell_ej :: shell where
  "shell_ej = \<lparr>cwd = ''/'', prompt = ''(/)'', status = 0,
     propio = \<lparr>fds = estandar (Externo 0) (Externo 1) (Externo 2), entorno = (\<lambda>_. None)\<rparr>\<rparr>"

lemma run_cmd_tuberia_witness:
  "\<exists>st t. run_cmd sistema_ej (Some 0) ''A=1 ls -l >f 2>&1 | A=1 wc >f'' shell_ej = Sigue (shell_ej\<lparr>status := st\<rparr>) (Some t)
    \<and> (\<exists>i d. t = Tubo i (Some d) (Sale 0))"
proof -
  let ?rs = "[orden_ej [''ls'', ''-l''] (Some ''&1''), orden_ej [''wc''] None]"
  have l: "linea_de ?rs = ''A=1 ls -l >f 2>&1 | A=1 wc >f''"
    by (simp add: orden_ej_def palabras_orden_def escrito_def SPACE_def)
  have ok: "\<forall>r\<in>set ?rs. orden_ok r"
    by (simp add: orden_ej_def orden_ok_def llana_def especial_def es_var_def MAXARGS_def SPACE_def)
  have s: "sistema_ok sistema_ej ?rs"
    by (simp add: sistema_ok_def sistema_ej_def orden_ej_def archivos_ok_def MAX_ENV_BUFF_def)
  have e: "externa (linea_de ?rs)" unfolding l by (simp add: externa_def exit_shell_def pwd_def)
  have f: "fds (propio shell_ej) = estandar (Externo 0) (Externo 1) (Externo 2)" by (simp add: shell_ej_def)
  have n: "length (linea_de ?rs) + 1 < BUFLEN" unfolding l by (simp add: BUFLEN_def)
  from run_cmd_tuberia [OF _ ok n e s f, of "Some 0"] show ?thesis unfolding l by auto
qed

text \<open>
  A command one of whose files cannot be opened does not run. If standard input and
  output are open, and the file for input cannot be opened for reading, or the one for
  output or errors cannot be opened for writing, the process of a command with
  redirections exits with code -1 and the program is never executed.
\<close>

theorem redireccion_fallida:
  assumes "ctype e = REDIR"
    and "in_file e \<noteq> [] \<and> \<not> abrir sys (in_file e) False \<or> out_file e \<noteq> [] \<and> \<not> abrir sys (out_file e) True
      \<or> err_file e \<noteq> [] \<and> err_file e \<noteq> ''&1'' \<and> \<not> abrir sys (err_file e) True"
  shows "exec_cmd sys n (Exec e) p = Sale ERROR"
proof -
  have no: "redireccionar (open_redir_fd sys f w q) k = Inl ERROR" if "\<not> abrir sys f w" for f w q k
    using that by (simp add: open_redir_fd_def redireccionar_def)
  have er: "redireccionar x k = Inl ERROR \<or> (\<exists>q. redireccionar x k = Inr q)" for x k
    by (simp add: redireccionar_def split: option.splits)
  have s1: "seguir r f = Inl ERROR" if "r = Inl ERROR \<or> (\<exists>q. r = Inr q)" "\<And>q. f q = Inl ERROR" for r f
    using that by (auto simp: seguir_def)
  have e1: "(if b then redireccionar x k else Inr q) = Inl ERROR \<or> (\<exists>q'. (if b then redireccionar x k else Inr q) = Inr q')"
    for b x k q using er by simp
  have s2: "seguir (Inl ERROR) f = Inl ERROR" for f by (simp add: seguir_def)
  have "ejecutar_redirecciones sys e p = Inl ERROR"
    using assms(2)
  proof (elim disjE conjE)
    assume "in_file e \<noteq> []" "\<not> abrir sys (in_file e) False"
    then show ?thesis by (simp add: ejecutar_redirecciones_def no s2)
  next
    assume o: "out_file e \<noteq> []" "\<not> abrir sys (out_file e) True"
    show ?thesis unfolding ejecutar_redirecciones_def by (rule s1 [OF e1]) (simp add: o no s2)
  next
    assume "err_file e \<noteq> []" "err_file e \<noteq> ''&1''" "\<not> abrir sys (err_file e) True"
    then show ?thesis unfolding ejecutar_redirecciones_def by (intro s1 [OF e1]) (simp add: no)
  qed
  with assms(1) show ?thesis by (simp add: cmd_types)
qed

lemma redireccion_fallida_witness:
  "exec_cmd (sistema_ej\<lparr>abrir := (\<lambda>f w. w)\<rparr>) 0 (Exec (execcmd_de ''wc <x'' (orden_ej [''wc''] None\<lparr>o_in := Some ''x''\<rparr>))) (propio shell_ej) = Sale ERROR"
proof -
  let ?e = "execcmd_de ''wc <x'' (orden_ej [''wc''] None\<lparr>o_in := Some ''x''\<rparr>)"
  have "ctype ?e = REDIR" "in_file ?e \<noteq> [] \<and> \<not> abrir (sistema_ej\<lparr>abrir := (\<lambda>f w. w)\<rparr>) (in_file ?e) False"
    by (simp_all add: execcmd_de_def orden_ej_def nombre_def sistema_ej_def)
  with redireccion_fallida [of ?e "sistema_ej\<lparr>abrir := (\<lambda>f w. w)\<rparr>" 0 "propio shell_ej"] show ?thesis by blast
qed

text \<open>
  A command in the background loses its redirections. The process that runs \<open>c &\<close> does
  not look at the file names of the command: whatever they are, its program runs with the
  open files of the shell, although \<open>types.h\<close> says that the command of a \<open>backcmd\<close> may be
  of type \<open>REDIR\<close>.
\<close>

theorem fondo_sin_redirecciones:
  "exec_cmd sys n (Back (e\<lparr>ctype := t, in_file := i, out_file := s, err_file := r\<rparr>)) p = exec_cmd sys n (Back e) p
   \<and> (\<forall>as q. exec_cmd sys n (Back e) p = Execvp as q \<longrightarrow> fds q = fds p)"
proof -
  have "set_environ_vars vs p = Some q \<Longrightarrow> fds q = fds p" for vs q
    by (induction vs arbitrary: p) (auto simp: Let_def split: if_splits)
  then show ?thesis by (auto simp: ejecutar_programa_def split: option.splits)
qed


lemma fondo_sin_redirecciones_witness:
  "\<exists>q. exec_cmd sistema_ej 0 (Back (execcmd_de ''ls >f'' (orden_ej [''ls''] None))) (propio shell_ej) = Execvp [''ls''] q
    \<and> fds q 1 = Some (Externo 1)"
proof -
  let ?e = "execcmd_de ''ls >f'' (orden_ej [''ls''] None)"
  have "orden_ok (orden_ej [''ls''] None)"
    by (simp add: orden_ej_def orden_ok_def llana_def especial_def es_var_def MAXARGS_def SPACE_def)
  from ejecutar_orden [OF this, of sistema_ej ?e "propio shell_ej"] obtain q where
    q: "exec_cmd sistema_ej 0 (Back ?e) (propio shell_ej) = Execvp [''ls''] q"
    by (simp add: execcmd_de_def orden_ej_def sistema_ej_def MAX_ENV_BUFF_def)
  with fondo_sin_redirecciones [where sys = sistema_ej and n = 0 and e = ?e and p = "propio shell_ej"] show ?thesis
    by (simp add: shell_ej_def)
qed

end
