(* ===== verification/Console.thy ===== *)
theory Console
  imports Printfmt
begin

text \<open>
  The console of the kernel, \<open>TP2-sched/kern/console.c\<close>: the circular buffer of input, the
  decoder of the keyboard, and the text screen. The devices are fields of the state: the
  bytes that wait in the serial port and in the keyboard controller, what was sent to the
  serial and parallel ports, the registers of the cursor. The waits for a port to be ready
  to send are left out. An \<open>int\<close> given to \<open>cputchar\<close> is a 32-bit word.
\<close>

text \<open>
  \<open>kbd_rx\<close> pairs each byte that waits in the controller with the status register that is
  read while it is the next one.
\<close>

record consola =
  serial_exists :: bool
  com_rx :: "8 word list"
  com_tx :: "8 word list"
  lpt_tx :: "8 word list"
  kbd_rx :: "(8 word \<times> 8 word) list"
  reinicio :: bool
  addr_6845 :: uint32
  cursor :: "nat \<Rightarrow> 8 word"
  crt_buf :: "nat \<Rightarrow> 16 word"
  crt_pos :: "16 word"
  shift :: uint32
  cons_buf :: "nat \<Rightarrow> 8 word"
  rpos :: uint32
  wpos :: uint32

section \<open>The screen\<close>

definition MONO_BASE :: uint32 where "MONO_BASE = 0x3B4"
definition CGA_BASE :: uint32 where "CGA_BASE = 0x3D4"
definition CRT_ROWS :: nat where "CRT_ROWS = 25"
definition CRT_COLS :: nat where "CRT_COLS = 80"
definition CRT_SIZE :: nat where "CRT_SIZE = CRT_ROWS * CRT_COLS"

text \<open>\<open>color\<close> tells whether the memory of a colour card answers.\<close>

definition cga_init :: "bool \<Rightarrow> consola \<Rightarrow> consola" where
  "cga_init color k =
     k\<lparr>addr_6845 := (if color then CGA_BASE else MONO_BASE),
       crt_pos := ucast (push_bit 8 (ucast (cursor k 14) :: uint32) OR ucast (cursor k 15))\<rparr>"

definition serial_putc :: "uint32 \<Rightarrow> consola \<Rightarrow> consola" where
  "serial_putc c k = k\<lparr>com_tx := com_tx k @ [ucast c]\<rparr>"

definition lpt_putc :: "uint32 \<Rightarrow> consola \<Rightarrow> consola" where
  "lpt_putc c k = k\<lparr>lpt_tx := lpt_tx k @ [ucast c]\<rparr>"

definition atributo :: "uint32 \<Rightarrow> uint32" where
  "atributo c = (if c AND NOT 0xFF = 0 then c OR 0x0700 else c)"

definition poner_celda :: "16 word \<Rightarrow> 16 word \<Rightarrow> consola \<Rightarrow> consola" where
  "poner_celda p x k = k\<lparr>crt_buf := (crt_buf k)(unat p := x)\<rparr>"

text \<open>One row up, and the cursor with it.\<close>

definition desplazar :: "consola \<Rightarrow> consola" where
  "desplazar k =
     (if word_of_nat CRT_SIZE \<le> crt_pos k then
        k\<lparr>crt_buf := (\<lambda>i. if i < CRT_SIZE - CRT_COLS then crt_buf k (i + CRT_COLS)
                            else if i < CRT_SIZE then 0x0720 else crt_buf k i),
          crt_pos := crt_pos k - word_of_nat CRT_COLS\<rparr>
      else k)"

definition mover_cursor :: "consola \<Rightarrow> consola" where
  "mover_cursor k = k\<lparr>cursor := (cursor k)(14 := ucast (drop_bit 8 (crt_pos k)), 15 := ucast (crt_pos k))\<rparr>"

lemma atributo_byte [simp]: "atributo c AND 0xFF = c AND 0xFF"
  unfolding atributo_def by (auto simp: bit.conj_disj_distrib2)

text \<open>A tab is five calls of \<open>cons_putc\<close>, which sends the space to the ports and calls \<open>cga_putc\<close>.\<close>

definition puertos :: "uint32 \<Rightarrow> consola \<Rightarrow> consola" where
  "puertos c k = lpt_putc c (serial_putc c k)"

function cga_putc :: "uint32 \<Rightarrow> consola \<Rightarrow> consola" where
  "cga_putc c k =
     mover_cursor (desplazar
       (if c AND 0xFF = 8 then
          (if crt_pos k > 0 then
             poner_celda (crt_pos k - 1) (ucast ((atributo c AND NOT 0xFF) OR 0x20)) (k\<lparr>crt_pos := crt_pos k - 1\<rparr>)
           else k)
        else if c AND 0xFF = 10 then
          (let p = crt_pos k + word_of_nat CRT_COLS in k\<lparr>crt_pos := p - p mod word_of_nat CRT_COLS\<rparr>)
        else if c AND 0xFF = 13 then k\<lparr>crt_pos := crt_pos k - crt_pos k mod word_of_nat CRT_COLS\<rparr>
        else if c AND 0xFF = 9 then
          cga_putc 0x20 (puertos 0x20 (cga_putc 0x20 (puertos 0x20 (cga_putc 0x20 (puertos 0x20
            (cga_putc 0x20 (puertos 0x20 (cga_putc 0x20 (puertos 0x20 k)))))))))
        else (poner_celda (crt_pos k) (ucast (atributo c)) k)\<lparr>crt_pos := crt_pos k + 1\<rparr>))"
  by pat_completeness auto

termination
  by (relation "measure (\<lambda>(c, k). if c AND 0xFF = 9 then 1 else 0)") auto

declare cga_putc.simps [simp del]

definition cons_putc :: "uint32 \<Rightarrow> consola \<Rightarrow> consola" where
  "cons_putc c k = cga_putc c (puertos c k)"

definition cputchar :: "uint32 \<Rightarrow> consola \<Rightarrow> consola" where
  "cputchar c k = cons_putc c k"

text \<open>The kernel's \<open>cprintf\<close> of a text with no directives.\<close>

definition cprintf_texto :: "string \<Rightarrow> consola \<Rightarrow> consola" where
  "cprintf_texto s k = fold (\<lambda>c. cputchar (putc c)) s k"

section \<open>The keyboard\<close>

definition KBS_DIB :: "8 word" where "KBS_DIB = 0x01"
definition KBS_TERR :: "8 word" where "KBS_TERR = 0x20"

definition SHIFT :: uint32 where "SHIFT = 0x01"
definition CTL :: uint32 where "CTL = 0x02"
definition ALT :: uint32 where "ALT = 0x04"
definition CAPSLOCK :: uint32 where "CAPSLOCK = 0x08"
definition NUMLOCK :: uint32 where "NUMLOCK = 0x10"
definition SCROLLLOCK :: uint32 where "SCROLLLOCK = 0x20"
definition E0ESC :: uint32 where "E0ESC = 0x40"

lemmas shift_defs = SHIFT_def CTL_def ALT_def CAPSLOCK_def NUMLOCK_def SCROLLLOCK_def E0ESC_def

definition KEY_DEL :: int where "KEY_DEL = 0xE9"

definition shiftcode :: "8 word \<Rightarrow> uint32" where
  "shiftcode d =
     (if d = 0x1D then CTL else if d = 0x2A then SHIFT else if d = 0x36 then SHIFT
      else if d = 0x38 then ALT else if d = 0x9D then CTL else if d = 0xB8 then ALT else 0)"

definition togglecode :: "8 word \<Rightarrow> uint32" where
  "togglecode d =
     (if d = 0x3A then CAPSLOCK else if d = 0x45 then NUMLOCK else if d = 0x46 then SCROLLLOCK else 0)"

text \<open>The initialisers that are listed in order, and those with an index.\<close>

definition normal_filas :: string where
  "normal_filas =
     [CHR 0x00, CHR 0x1B] @ ''1234567890-='' @ [CHR 0x08, CHR 0x09] @ ''qwertyuiop[]'' @ [CHR 0x0A, CHR 0x00]
     @ ''asdfghjkl;'' @ [CHR 0x27, CHR 0x60, CHR 0x00, CHR 0x5C] @ ''zxcvbnm,./'' @ [CHR 0x00] @ ''*''
     @ [CHR 0x00] @ '' '' @ replicate 13 (CHR 0x00) @ ''789-456+1230.'' @ replicate 4 (CHR 0x00)"

definition shift_filas :: string where
  "shift_filas =
     [CHR 0x00, CHR 0x1B] @ ''!@#$%^&*()_+'' @ [CHR 0x08, CHR 0x09] @ ''QWERTYUIOP{}'' @ [CHR 0x0A, CHR 0x00]
     @ ''ASDFGHJKL:'' @ [CHR 0x22, CHR 0x7E, CHR 0x00, CHR 0x7C] @ ''ZXCVBNM<>?'' @ [CHR 0x00] @ ''*''
     @ [CHR 0x00] @ '' '' @ replicate 13 (CHR 0x00) @ ''789-456+1230.'' @ replicate 4 (CHR 0x00)"

definition C_ctl :: "char \<Rightarrow> 8 word" where
  "C_ctl x = of_char x - 0x40"

definition ctl_filas :: "8 word list" where
  "ctl_filas =
     replicate 16 0 @ map C_ctl ''QWERTYUIOP'' @ [0, 0, 0x0D, 0] @ map C_ctl ''ASDFGHJKL''
     @ [0, 0, 0, 0, C_ctl (CHR 0x5C)] @ map C_ctl ''ZXCVBNM'' @ [0, 0, C_ctl (CHR 0x2F), 0, 0]"

definition tecla_especial :: "8 word \<Rightarrow> 8 word" where
  "tecla_especial d =
     (if d = 0xC8 then 0xE2 else if d = 0xC9 then 0xE6 else if d = 0xCB then 0xE4 else if d = 0xCD then 0xE5
      else if d = 0xCF then 0xE1 else if d = 0xD0 then 0xE3 else if d = 0xD1 then 0xE7
      else if d = 0xD2 then 0xE8 else if d = 0xD3 then 0xE9 else 0)"

definition normalmap :: "8 word \<Rightarrow> 8 word" where
  "normalmap d =
     (if unat d < length normal_filas then of_char (normal_filas ! unat d)
      else if d = 0xC7 then 0xE0 else if d = 0x9C then 0x0A else if d = 0xB5 then 0x2F else tecla_especial d)"

definition shiftmap :: "8 word \<Rightarrow> 8 word" where
  "shiftmap d =
     (if unat d < length shift_filas then of_char (shift_filas ! unat d)
      else if d = 0xC7 then 0xE0 else if d = 0x9C then 0x0A else if d = 0xB5 then 0x2F else tecla_especial d)"

definition ctlmap :: "8 word \<Rightarrow> 8 word" where
  "ctlmap d =
     (if unat d < length ctl_filas then ctl_filas ! unat d
      else if d = 0x97 then 0xE0 else if d = 0xB5 then C_ctl (CHR 0x2F) else tecla_especial d)"

definition charcode :: "(8 word \<Rightarrow> 8 word) list" where
  "charcode = [normalmap, shiftmap, ctlmap, ctlmap]"

text \<open>
  The decoder: the character, or 0 when there is none, and the new value of the static
  variable \<open>shift\<close>.
\<close>

definition decodificar :: "uint32 \<Rightarrow> 8 word \<Rightarrow> int \<times> uint32" where
  "decodificar sh dat =
     (if dat = 0xE0 then (0, sh OR E0ESC)
      else if dat AND 0x80 \<noteq> 0 then
        (let dat = (if sh AND E0ESC \<noteq> 0 then dat else dat AND 0x7F) in (0, sh AND NOT (shiftcode dat OR E0ESC)))
      else
        let escape = (sh AND E0ESC \<noteq> 0);
            dat = (if escape then dat OR 0x80 else dat);
            sh = (if escape then sh AND NOT E0ESC else sh);
            sh = (sh OR shiftcode dat) XOR togglecode dat;
            c = uint ((charcode ! unat (sh AND (CTL OR SHIFT))) dat)
        in (if sh AND CAPSLOCK \<noteq> 0 then
              (if 97 \<le> c \<and> c \<le> 122 then c + (65 - 97)
               else if 65 \<le> c \<and> c \<le> 90 then c + (97 - 65) else c)
            else c, sh))"

text \<open>A byte read from the controller. Only a key that is pressed gives \<open>KEY_DEL\<close>.\<close>

definition tecla :: "8 word \<Rightarrow> consola \<Rightarrow> int \<times> consola" where
  "tecla dat k =
     (let (c, sh) = decodificar (shift k) dat; k = k\<lparr>shift := sh\<rparr>
      in (c, if NOT sh AND (CTL OR ALT) = 0 \<and> c = KEY_DEL
             then (cprintf_texto (''Rebooting!'' @ [CHR 0x0A]) k)\<lparr>reinicio := True\<rparr> else k))"

definition kbd_proc_data :: "consola \<Rightarrow> int \<times> consola" where
  "kbd_proc_data k =
     (case kbd_rx k of
        [] \<Rightarrow> (-1, k)
      | (stat, dat) # r \<Rightarrow>
          if stat AND KBS_DIB = 0 then (-1, k)
          else if stat AND KBS_TERR \<noteq> 0 then (-1, k)
          else tecla dat (k\<lparr>kbd_rx := r\<rparr>))"

section \<open>The buffer of input\<close>

definition CONSBUFSIZE :: nat where "CONSBUFSIZE = 512"

definition serial_proc_data :: "consola \<Rightarrow> int \<times> consola" where
  "serial_proc_data k = (case com_rx k of [] \<Rightarrow> (-1, k) | b # r \<Rightarrow> (uint b, k\<lparr>com_rx := r\<rparr>))"

definition encolar :: "8 word \<Rightarrow> consola \<Rightarrow> consola" where
  "encolar c k =
     (let k = k\<lparr>cons_buf := (cons_buf k)(unat (wpos k) := c), wpos := wpos k + 1\<rparr>
      in if wpos k = word_of_nat CONSBUFSIZE then k\<lparr>wpos := 0\<rparr> else k)"

text \<open>The loop may not end, for a device that always has data.\<close>

partial_function (option) cons_intr :: "(consola \<Rightarrow> int \<times> consola) \<Rightarrow> consola \<Rightarrow> consola option" where
  "cons_intr proc k =
     (let (c, k') = proc k in
      if c = -1 then Some k'
      else if c = 0 then cons_intr proc k'
      else cons_intr proc (encolar (word_of_int c) k'))"

definition serial_intr :: "consola \<Rightarrow> consola option" where
  "serial_intr k = (if serial_exists k then cons_intr serial_proc_data k else Some k)"

definition kbd_intr :: "consola \<Rightarrow> consola option" where
  "kbd_intr k = cons_intr kbd_proc_data k"

definition desencolar :: "consola \<Rightarrow> int \<times> consola" where
  "desencolar k =
     (if rpos k \<noteq> wpos k then
        (let c = uint (cons_buf k (unat (rpos k))); k = k\<lparr>rpos := rpos k + 1\<rparr>
         in (c, if rpos k = word_of_nat CONSBUFSIZE then k\<lparr>rpos := 0\<rparr> else k))
      else (0, k))"

definition cons_getc :: "consola \<Rightarrow> (int \<times> consola) option" where
  "cons_getc k = do { k1 \<leftarrow> serial_intr k; k2 \<leftarrow> kbd_intr k1; Some (desencolar k2) }"

text \<open>
  \<open>getchar\<close>; each element of the list is what the devices receive before an attempt, and
  \<^term>\<open>Some None\<close> means that it is still waiting.
\<close>

definition llegar :: "8 word list \<times> (8 word \<times> 8 word) list \<Rightarrow> consola \<Rightarrow> consola" where
  "llegar a k = k\<lparr>com_rx := com_rx k @ fst a, kbd_rx := kbd_rx k @ snd a\<rparr>"

fun getchar :: "(8 word list \<times> (8 word \<times> 8 word) list) list \<Rightarrow> consola \<Rightarrow> (int \<times> consola) option option" where
  "getchar [] k = Some None"
| "getchar (a # as) k =
     do { (c, k1) \<leftarrow> cons_getc (llegar a k); if c = 0 then getchar as k1 else Some (Some (c, k1)) }"

definition iscons :: "int \<Rightarrow> int" where
  "iscons fdnum = 1"

end
