(* ===== verification/Console_Claims.thy ===== *)
theory Console_Claims
  imports Console
begin

text \<open>
  The console. The circular buffer is a queue of at most 511 bytes that is emptied when one
  more arrives (\<open>cola\<close>, \<open>vuelta\<close>); the two devices are two instances of what \<open>cons_intr\<close>
  needs of a device (the locale \<open>dispositivo\<close>).
\<close>

section \<open>The buffer as a queue\<close>

definition cola_ok :: "consola \<Rightarrow> bool" where
  "cola_ok k \<longleftrightarrow> unat (rpos k) < CONSBUFSIZE \<and> unat (wpos k) < CONSBUFSIZE"

text \<open>The bytes of the buffer from \<open>r\<close> to \<open>w\<close>, around its end.\<close>

definition ocupados :: "nat \<Rightarrow> nat \<Rightarrow> nat" where
  "ocupados r w = (w + CONSBUFSIZE - r) mod CONSBUFSIZE"

definition anillo :: "(nat \<Rightarrow> 'a) \<Rightarrow> nat \<Rightarrow> nat \<Rightarrow> 'a list" where
  "anillo b r w = map (\<lambda>i. b ((r + i) mod CONSBUFSIZE)) [0..<ocupados r w]"

definition cola :: "consola \<Rightarrow> 8 word list" where
  "cola k = anillo (cons_buf k) (unat (rpos k)) (unat (wpos k))"

text \<open>What is left of \<open>l\<close> when every complete lap of the buffer is lost.\<close>

definition vuelta :: "'a list \<Rightarrow> 'a list" where
  "vuelta l = drop (CONSBUFSIZE * (length l div CONSBUFSIZE)) l"

lemma length_anillo: "length (anillo b r w) = ocupados r w"
  by (simp add: anillo_def)

lemma ocupados_less: "ocupados r w < CONSBUFSIZE"
  by (simp add: ocupados_def CONSBUFSIZE_def)

lemma length_vuelta: "length (vuelta l) = length l mod CONSBUFSIZE"
  by (simp add: vuelta_def minus_mult_div_eq_mod)

lemma vuelta_corta [simp]: "length l < CONSBUFSIZE \<Longrightarrow> vuelta l = l"
  by (simp add: vuelta_def)

lemma vuelta_cola [simp]: "vuelta (cola k) = cola k"
  by (intro vuelta_corta) (simp add: cola_def length_anillo ocupados_less)

lemma vuelta_append: "vuelta (vuelta a @ b) = vuelta (a @ b)"
proof -
  let ?N = CONSBUFSIZE and ?q = "length a div CONSBUFSIZE"
  have N: "0 < ?N" by (simp add: CONSBUFSIZE_def)
  have la: "length a = ?N * ?q + length a mod ?N" by simp
  have "length a + length b = (length a mod ?N + length b) + ?q * ?N" by (subst la) (simp add: ac_simps)
  then have "(length a + length b) div ?N = ?q + (length a mod ?N + length b) div ?N"
    using N by (metis add.commute div_mult_self1 less_not_refl)
  then have "?N * ((length a + length b) div ?N) = ?N * ((length a mod ?N + length b) div ?N) + ?N * ?q"
    by (simp add: distrib_left)
  then have "drop (?N * ((length a + length b) div ?N)) (a @ b)
      = drop (?N * ((length a mod ?N + length b) div ?N)) (drop (?N * ?q) (a @ b))"
    by (simp only: drop_drop)
  moreover have "drop (?N * ?q) (a @ b) = vuelta a @ b" using la by (simp add: vuelta_def)
  ultimately have "drop (?N * ((length a + length b) div ?N)) (a @ b)
      = drop (?N * ((length a mod ?N + length b) div ?N)) (vuelta a @ b)" by (simp only:)
  then show ?thesis unfolding vuelta_def [of "a @ b"] vuelta_def [of "vuelta a @ b"]
    by (simp only: length_append length_vuelta)
qed

lemma ocupados_casos:
  "r < CONSBUFSIZE \<Longrightarrow> w < CONSBUFSIZE \<Longrightarrow> ocupados r w = (if r \<le> w then w - r else w + CONSBUFSIZE - r)"
  by (auto simp: ocupados_def CONSBUFSIZE_def mod_if)

lemma mas_uno: "w < CONSBUFSIZE \<Longrightarrow> (w + 1) mod CONSBUFSIZE = (if w + 1 = CONSBUFSIZE then 0 else w + 1)"
  by (auto simp: CONSBUFSIZE_def)

lemma mas_uno_less: "(w + 1) mod CONSBUFSIZE < CONSBUFSIZE"
  by (simp add: CONSBUFSIZE_def)

lemma vuelta_mod: "r < CONSBUFSIZE \<Longrightarrow> i < CONSBUFSIZE
    \<Longrightarrow> (r + i) mod CONSBUFSIZE = (if r + i < CONSBUFSIZE then r + i else r + i - CONSBUFSIZE)"
  by (auto simp: CONSBUFSIZE_def mod_if)

lemma ocupados_mas:
  assumes "r < CONSBUFSIZE" "w < CONSBUFSIZE"
  shows "ocupados r ((w + 1) mod CONSBUFSIZE) = (if ocupados r w = CONSBUFSIZE - 1 then 0 else Suc (ocupados r w))"
  unfolding ocupados_casos [OF assms] ocupados_casos [OF assms(1) mas_uno_less]
  unfolding mas_uno [OF assms(2)]
  using assms by (auto simp: CONSBUFSIZE_def)

lemma ocupados_menos:
  assumes "r < CONSBUFSIZE" "w < CONSBUFSIZE" "r \<noteq> w"
  shows "ocupados r w = Suc (ocupados ((r + 1) mod CONSBUFSIZE) w)"
  unfolding ocupados_casos [OF assms(1,2)] ocupados_casos [OF mas_uno_less assms(2)]
  unfolding mas_uno [OF assms(1)]
  using assms by (auto simp: CONSBUFSIZE_def)

lemma anillo_poner:
  assumes "r < CONSBUFSIZE" "w < CONSBUFSIZE"
  shows "anillo (b(w := c)) r ((w + 1) mod CONSBUFSIZE) = vuelta (anillo b r w @ [c])"
proof (cases "ocupados r w = CONSBUFSIZE - 1")
  case True
  then have "ocupados r ((w + 1) mod CONSBUFSIZE) = 0" using ocupados_mas [OF assms] by simp
  then show ?thesis using True by (simp add: anillo_def [of "b(w := c)"] vuelta_def length_anillo CONSBUFSIZE_def)
next
  case False
  have n: "ocupados r ((w + 1) mod CONSBUFSIZE) = Suc (ocupados r w)" using False ocupados_mas [OF assms] by simp
  have w: "(r + ocupados r w) mod CONSBUFSIZE = w"
    unfolding vuelta_mod [OF assms(1) ocupados_less] unfolding ocupados_casos [OF assms] using assms by auto
  have d: "(r + i) mod CONSBUFSIZE \<noteq> w" if "i < ocupados r w" for i
    unfolding vuelta_mod [OF assms(1) less_trans [OF that ocupados_less]]
    using that ocupados_casos [OF assms] assms by (auto split: if_splits)
  have "vuelta (anillo b r w @ [c]) = anillo b r w @ [c]"
    using False ocupados_less [of r w] by (intro vuelta_corta) (simp add: length_anillo)
  then show ?thesis unfolding anillo_def n by (simp add: w d)
qed

lemma anillo_sacar:
  assumes "r < CONSBUFSIZE" "w < CONSBUFSIZE" "r \<noteq> w"
  shows "anillo b r w = b r # anillo b ((r + 1) mod CONSBUFSIZE) w"
proof -
  have "ocupados r w = Suc (ocupados ((r + 1) mod CONSBUFSIZE) w)" by (rule ocupados_menos [OF assms])
  then show ?thesis using assms(1) by (simp add: anillo_def map_upt_Suc mod_simps del: upt_Suc)
qed

lemma anillo_vacio [simp]: "anillo b r r = []"
  by (simp add: anillo_def ocupados_def)

text \<open>The two ends of the queue.\<close>

definition siguiente :: "uint32 \<Rightarrow> uint32" where
  "siguiente p = (if p + 1 = word_of_nat CONSBUFSIZE then 0 else p + 1)"

lemma unat_siguiente:
  assumes "unat p < CONSBUFSIZE"
  shows "unat (siguiente p) = (unat p + 1) mod CONSBUFSIZE"
proof -
  have p: "unat (p + 1) = unat p + 1" using assms by (simp add: CONSBUFSIZE_def unat_word_ariths)
  have "p + 1 = word_of_nat CONSBUFSIZE \<longleftrightarrow> unat p + 1 = CONSBUFSIZE"
    unfolding word_unat_eq_iff p by (simp add: CONSBUFSIZE_def)
  then show ?thesis using assms p by (simp add: siguiente_def)
qed

lemma encolar_forma: "encolar c k = k\<lparr>cons_buf := (cons_buf k)(unat (wpos k) := c), wpos := siguiente (wpos k)\<rparr>"
  by (simp add: encolar_def siguiente_def)

lemma desencolar_forma:
  "desencolar k = (if rpos k = wpos k then (0, k) else (uint (cons_buf k (unat (rpos k))), k\<lparr>rpos := siguiente (rpos k)\<rparr>))"
  by (simp add: desencolar_def siguiente_def Let_def)

lemma encolar_cola:
  assumes "cola_ok k"
  shows "cola_ok (encolar c k) \<and> cola (encolar c k) = vuelta (cola k @ [c])"
  using assms anillo_poner [of "unat (rpos k)" "unat (wpos k)" "cons_buf k" c]
  by (auto simp: cola_ok_def cola_def encolar_forma unat_siguiente mas_uno_less)

lemma desencolar_cola:
  assumes "cola_ok k"
  shows "cola_ok (snd (desencolar k)) \<and> cola (snd (desencolar k)) = tl (cola k)
    \<and> fst (desencolar k) = (case cola k of [] \<Rightarrow> 0 | b # _ \<Rightarrow> uint b)"
proof (cases "rpos k = wpos k")
  case True
  then show ?thesis using assms by (simp add: desencolar_forma cola_def)
next
  case False
  then have "cola k = cons_buf k (unat (rpos k)) # anillo (cons_buf k) (unat (siguiente (rpos k))) (unat (wpos k))"
    using assms by (simp add: cola_def cola_ok_def unat_siguiente anillo_sacar word_unat_eq_iff)
  moreover have "unat (siguiente (rpos k)) < CONSBUFSIZE"
    using assms using mas_uno_less by (simp add: cola_ok_def unat_siguiente)
  ultimately show ?thesis using False assms by (simp add: desencolar_forma cola_ok_def cola_def)
qed

section \<open>The devices\<close>

text \<open>
  What \<open>cons_intr\<close> needs of a device: it gives bytes, it ends, and it does not touch the
  buffer. \<open>lee\<close> is the text the device has, \<open>marco\<close> the part of the state it leaves alone.
\<close>

locale dispositivo =
  fixes proc :: "consola \<Rightarrow> int \<times> consola"
    and pendientes :: "consola \<Rightarrow> nat" and lee :: "consola \<Rightarrow> 8 word list" and marco :: "consola \<Rightarrow> 'm"
  assumes avanza: "fst (proc k) \<noteq> -1 \<Longrightarrow> pendientes (snd (proc k)) < pendientes k"
    and fin: "fst (proc k) = -1 \<Longrightarrow> lee k = [] \<and> snd (proc k) = k"
    and da: "fst (proc k) \<noteq> -1
      \<Longrightarrow> lee k = (if fst (proc k) = 0 then [] else [word_of_int (fst (proc k))]) @ lee (snd (proc k))"
    and buffer: "cons_buf (snd (proc k)) = cons_buf k \<and> rpos (snd (proc k)) = rpos k \<and> wpos (snd (proc k)) = wpos k"
    and marco: "marco (snd (proc k)) = marco k"
    and encolar: "pendientes (encolar b k) = pendientes k \<and> lee (encolar b k) = lee k \<and> marco (encolar b k) = marco k"
begin

lemma cola_proc: "cola_ok (snd (proc k)) = cola_ok k \<and> cola (snd (proc k)) = cola k"
  using buffer [of k] by (simp add: cola_ok_def cola_def)

lemma cons_intr_lee:
  "cola_ok k \<Longrightarrow> \<exists>k'. cons_intr proc k = Some k' \<and> cola_ok k' \<and> cola k' = vuelta (cola k @ lee k)
     \<and> fst (proc k') = -1 \<and> lee k' = [] \<and> marco k' = marco k"
proof (induction "pendientes k" arbitrary: k rule: less_induct)
  case less
  obtain c k1 where p: "proc k = (c, k1)" by (cases "proc k")
  have ok: "cola_ok k1" "cola k1 = cola k" using cola_proc [of k] less.prems by (simp_all add: p)
  consider "c = -1" | "c = 0" | "c \<noteq> -1" "c \<noteq> 0" by blast
  then show ?case
  proof cases
    case 1
    then show ?thesis using fin [of k] less.prems cons_intr.simps [of proc k]
      by (simp add: p cola_def) (simp flip: cola_def add: vuelta_cola)
  next
    case 2
    then have "pendientes k1 < pendientes k" "lee k = lee k1" using avanza [of k] da [of k] by (simp_all add: p)
    with less.hyps [of k1] ok 2 marco [of k] cons_intr.simps [of proc k] show ?thesis by (simp add: p)
  next
    case 3
    let ?k = "encolar (word_of_int c) k1"
    have "pendientes ?k < pendientes k" "lee k = word_of_int c # lee ?k"
      using avanza [of k] da [of k] encolar 3 by (simp_all add: p)
    moreover have "cola_ok ?k" "cola ?k = vuelta (cola k @ [word_of_int c])" using encolar_cola [OF ok(1)] ok(2) by simp_all
    moreover have "marco ?k = marco k" using marco [of k] encolar by (simp add: p)
    ultimately show ?thesis using less.hyps [of ?k] 3 cons_intr.simps [of proc k] by (simp add: p vuelta_append)
  qed
qed

end

text \<open>The text of the keyboard: the characters of the bytes that wait, up to one that is not its own.\<close>

fun teclas :: "uint32 \<Rightarrow> (8 word \<times> 8 word) list \<Rightarrow> 8 word list" where
  "teclas sh [] = []"
| "teclas sh ((stat, dat) # r) =
     (if stat AND KBS_DIB = 0 \<or> stat AND KBS_TERR \<noteq> 0 then []
      else (case decodificar sh dat of (c, sh') \<Rightarrow> (if c = 0 then [] else [word_of_int c]) @ teclas sh' r))"

text \<open>The output side changes none of the input side.\<close>

definition entrada_de :: "consola \<Rightarrow> _" where
  "entrada_de k = (com_rx k, serial_exists k, kbd_rx k, shift k, cons_buf k, rpos k, wpos k)"

lemma entrada_salida:
  "entrada_de (serial_putc c k) = entrada_de k" "entrada_de (lpt_putc c k) = entrada_de k"
  "entrada_de (poner_celda p x k) = entrada_de k" "entrada_de (desplazar k) = entrada_de k"
  "entrada_de (mover_cursor k) = entrada_de k" "entrada_de (k\<lparr>crt_pos := q\<rparr>) = entrada_de k"
  by (simp_all add: entrada_de_def serial_putc_def lpt_putc_def poner_celda_def desplazar_def mover_cursor_def)

lemma cga_putc_entrada: "entrada_de (cga_putc c k) = entrada_de k"
proof (induction c k rule: cga_putc.induct)
  case (1 c k)
  then show ?case by (subst cga_putc.simps) (simp add: entrada_salida puertos_def Let_def)
qed

lemma cputchar_entrada: "entrada_de (cputchar c k) = entrada_de k"
  by (simp add: cputchar_def cons_putc_def puertos_def entrada_salida cga_putc_entrada)

lemma cprintf_entrada: "entrada_de (cprintf_texto s k) = entrada_de k"
  unfolding cprintf_texto_def by (induction s arbitrary: k) (simp_all add: cputchar_entrada)

lemma tecla_forma:
  "fst (tecla d k) = fst (decodificar (shift k) d)"
  "entrada_de (snd (tecla d k)) = entrada_de (k\<lparr>shift := snd (decodificar (shift k) d)\<rparr>)"
proof -
  have r: "entrada_de (q\<lparr>reinicio := b\<rparr>) = entrada_de q" for q b by (simp add: entrada_de_def)
  show "fst (tecla d k) = fst (decodificar (shift k) d)" by (simp add: tecla_def Let_def split: prod.split)
  show "entrada_de (snd (tecla d k)) = entrada_de (k\<lparr>shift := snd (decodificar (shift k) d)\<rparr>)"
    by (cases "decodificar (shift k) d") (simp add: tecla_def Let_def r cprintf_entrada)
qed

lemma charcode_indice: "unat (sh AND (CTL OR SHIFT)) < length charcode"
proof -
  have "sh AND 3 \<le> 3" by (rule word_and_le1)
  then have "unat (sh AND 3) \<le> 3" by (simp add: word_le_nat_alt)
  then show ?thesis by (simp add: charcode_def shift_defs)
qed

lemma decodificar_rango: "0 \<le> fst (decodificar sh d) \<and> fst (decodificar sh d) < 256"
proof -
  have "0 \<le> uint (f x) \<and> uint (f x) < 256" for f :: "8 word \<Rightarrow> 8 word" and x using uint_lt2p [of "f x"] by simp
  then show ?thesis unfolding decodificar_def Let_def by auto
qed

section \<open>Reading from the console\<close>

lemma entrada_deD:
  assumes "entrada_de k = entrada_de k'"
  shows "com_rx k = com_rx k'" "serial_exists k = serial_exists k'" "kbd_rx k = kbd_rx k'" "shift k = shift k'"
    "cons_buf k = cons_buf k'" "rpos k = rpos k'" "wpos k = wpos k'"
  using assms by (simp_all add: entrada_de_def)

lemma uint_no_menos_uno: "uint w \<noteq> -1"
  using uint_ge_0 [of w] by linarith

interpretation com: dispositivo serial_proc_data "\<lambda>k. length (com_rx k)" "\<lambda>k. filter (\<lambda>b. b \<noteq> 0) (com_rx k)"
  "\<lambda>k. (serial_exists k, kbd_rx k, shift k)"
  by unfold_locales
    (auto simp: serial_proc_data_def encolar_forma uint_0_iff uint_no_menos_uno split: list.splits)

interpretation kbd: dispositivo kbd_proc_data "\<lambda>k. length (kbd_rx k)" "\<lambda>k. teclas (shift k) (kbd_rx k)"
  "\<lambda>k. (serial_exists k, com_rx k)"
proof unfold_locales
  fix k b
  have t: "entrada_de (snd (tecla d q)) = entrada_de (q\<lparr>shift := snd (decodificar (shift q) d)\<rparr>)" for d q
    by (rule tecla_forma)
  have c: "fst (tecla d q) \<noteq> - 1" for d q using decodificar_rango [of "shift q" d] by (simp add: tecla_forma)
  have p: "kbd_proc_data k = (case kbd_rx k of [] \<Rightarrow> (-1, k) | (stat, d) # r \<Rightarrow>
      if stat AND KBS_DIB = 0 \<or> stat AND KBS_TERR \<noteq> 0 then (-1, k) else tecla d (k\<lparr>kbd_rx := r\<rparr>))"
    by (simp add: kbd_proc_data_def split: list.split)
  show "fst (kbd_proc_data k) \<noteq> -1 \<Longrightarrow> length (kbd_rx (snd (kbd_proc_data k))) < length (kbd_rx k)"
    by (auto simp: p entrada_deD [OF t] split: list.splits)
  show "fst (kbd_proc_data k) = -1 \<Longrightarrow> teclas (shift k) (kbd_rx k) = [] \<and> snd (kbd_proc_data k) = k"
    using c by (auto simp: p split: list.splits if_splits)
  show "fst (kbd_proc_data k) \<noteq> -1 \<Longrightarrow> teclas (shift k) (kbd_rx k)
    = (if fst (kbd_proc_data k) = 0 then [] else [word_of_int (fst (kbd_proc_data k))])
      @ teclas (shift (snd (kbd_proc_data k))) (kbd_rx (snd (kbd_proc_data k)))"
    by (auto simp: p entrada_deD [OF t] tecla_forma(1) split: list.splits prod.splits)
  show "cons_buf (snd (kbd_proc_data k)) = cons_buf k \<and> rpos (snd (kbd_proc_data k)) = rpos k
      \<and> wpos (snd (kbd_proc_data k)) = wpos k"
    by (auto simp: p entrada_deD [OF t] split: list.splits)
  show "(serial_exists (snd (kbd_proc_data k)), com_rx (snd (kbd_proc_data k))) = (serial_exists k, com_rx k)"
    by (auto simp: p entrada_deD [OF t] split: list.splits)
  show "length (kbd_rx (encolar b k)) = length (kbd_rx k) \<and> teclas (shift (encolar b k)) (kbd_rx (encolar b k))
      = teclas (shift k) (kbd_rx k) \<and> (serial_exists (encolar b k), com_rx (encolar b k)) = (serial_exists k, com_rx k)"
    by (simp add: encolar_forma)
qed

text \<open>
  C31: The console is a queue. Reading a character first takes what the two devices have,
  the serial port before the keyboard; the character is the oldest of the queue, or 0 when
  there is none, and the rest stays in order. The queue loses bytes only when 512 are
  waiting, and then it loses all of them. The call always returns.
\<close>

theorem cons_getc_cola:
  assumes "cola_ok k" "serial_exists k"
  shows "\<exists>c k'. cons_getc k = Some (c, k')
    \<and> (let q = vuelta (cola k @ filter (\<lambda>b. b \<noteq> 0) (com_rx k) @ teclas (shift k) (kbd_rx k))
       in c = (case q of [] \<Rightarrow> 0 | b # _ \<Rightarrow> uint b) \<and> cola k' = tl q)
    \<and> cola_ok k' \<and> serial_exists k' \<and> com_rx k' = [] \<and> teclas (shift k') (kbd_rx k') = []"
proof -
  obtain k1 where k1: "cons_intr serial_proc_data k = Some k1" "cola_ok k1"
    "cola k1 = vuelta (cola k @ filter (\<lambda>b. b \<noteq> 0) (com_rx k))" "fst (serial_proc_data k1) = -1"
    "(serial_exists k1, kbd_rx k1, shift k1) = (serial_exists k, kbd_rx k, shift k)"
    using com.cons_intr_lee [OF assms(1)] by blast
  obtain k2 where k2: "cons_intr kbd_proc_data k1 = Some k2" "cola_ok k2"
    "cola k2 = vuelta (cola k1 @ teclas (shift k1) (kbd_rx k1))" "teclas (shift k2) (kbd_rx k2) = []"
    "(serial_exists k2, com_rx k2) = (serial_exists k1, com_rx k1)"
    using kbd.cons_intr_lee [OF k1(2)] by blast
  have m: "com_rx k1 = []" using k1(4) by (auto simp: serial_proc_data_def uint_no_menos_uno split: list.splits)
  obtain c k' where d: "desencolar k2 = (c, k')" by (cases "desencolar k2")
  then have "serial_exists k' = serial_exists k2" "com_rx k' = com_rx k2" "shift k' = shift k2" "kbd_rx k' = kbd_rx k2"
    by (auto simp: desencolar_forma split: if_splits)
  then show ?thesis
    using k1 k2 m assms(2) desencolar_cola [OF k2(2)]
    by (simp add: cons_getc_def serial_intr_def kbd_intr_def vuelta_append Let_def d)
qed

text \<open>An empty buffer at its end, an "h" on the serial port and an "a" on the keyboard.\<close>

definition k_con :: consola where
  "k_con = \<lparr>serial_exists = True, com_rx = [0, 104], com_tx = [], lpt_tx = [], kbd_rx = [(1, 0x1E)], reinicio = False,
     addr_6845 = CGA_BASE, cursor = (\<lambda>_. 0), crt_buf = (\<lambda>_. 0x0720), crt_pos = 0, shift = 0, cons_buf = (\<lambda>_. 0),
     rpos = 511, wpos = 511\<rparr>"

lemma cons_getc_cola_witness: "\<exists>k'. cons_getc k_con = Some (104, k') \<and> cola k' = [97]"
proof -
  have k: "cola_ok k_con" "serial_exists k_con" by (simp_all add: k_con_def cola_ok_def CONSBUFSIZE_def)
  have c: "cola k_con = []" by (simp add: cola_def k_con_def)
  have "teclas (shift k_con) (kbd_rx k_con) = [97]"
    by (simp add: k_con_def KBS_DIB_def KBS_TERR_def decodificar_def shift_defs shiftcode_def togglecode_def charcode_def
        normalmap_def normal_filas_def)
  moreover have "com_rx k_con = [0, 104]" by (simp add: k_con_def)
  ultimately show ?thesis using cons_getc_cola [OF k] by (simp add: c vuelta_def CONSBUFSIZE_def) blast
qed

end
