(* ===== verification/Teclado.thy ===== *)
theory Teclado
  imports Console_Claims
begin

text \<open>
  The keyboard: the modifiers that \<open>kbd_proc_data\<close> keeps in its static variable, and the
  characters of the letters, as functions of the history of the keys.
\<close>

section \<open>Letters\<close>

text \<open>The scan codes of the letters, by rows of the keyboard.\<close>

definition teclas_letras :: "nat list" where
  "teclas_letras = [16..<26] @ [30..<39] @ [44..<51]"

lemma mapas_letras:
  "\<forall>n\<in>set teclas_letras.
     97 \<le> uint (normalmap (word_of_nat n)) \<and> uint (normalmap (word_of_nat n)) \<le> 122
     \<and> uint (shiftmap (word_of_nat n)) = uint (normalmap (word_of_nat n)) - 32
     \<and> uint (ctlmap (word_of_nat n)) = uint (normalmap (word_of_nat n)) - 96"
  unfolding teclas_letras_def
  by (simp add: upt_rec_numeral normalmap_def shiftmap_def ctlmap_def normal_filas_def shift_filas_def ctl_filas_def C_ctl_def
      nth_append)

lemma codigos_letras:
  "\<forall>n\<in>set teclas_letras. shiftcode (word_of_nat n) = 0 \<and> togglecode (word_of_nat n) = 0
     \<and> (word_of_nat n :: 8 word) \<noteq> 0xE0 \<and> (word_of_nat n :: 8 word) AND 0x80 = 0"
  unfolding teclas_letras_def by (simp add: upt_rec_numeral shiftcode_def togglecode_def)

lemma charcode_casos:
  "charcode ! unat (sh AND (CTL OR SHIFT))
     = (if sh AND CTL \<noteq> 0 then ctlmap else if sh AND SHIFT \<noteq> 0 then shiftmap else normalmap)"
proof -
  let ?x = "sh AND (CTL OR SHIFT)"
  have b: "?x AND CTL = sh AND CTL" "?x AND SHIFT = sh AND SHIFT"
    by (simp_all add: shift_defs and.assoc)
  have "unat ?x < 4" using charcode_indice [of sh] by (simp add: charcode_def)
  then consider "unat ?x = unat (0 :: uint32)" | "unat ?x = unat (1 :: uint32)" | "unat ?x = unat (2 :: uint32)"
    | "unat ?x = unat (3 :: uint32)" by fastforce
  then show ?thesis
    unfolding word_unat_eq_iff [symmetric]
    by cases (use b in \<open>simp_all add: charcode_def shift_defs\<close>)
qed

text \<open>
  A letter key gives its letter: capital when exactly one of shift and caps lock is on,
  the control character when control is held, whatever caps lock says; and it leaves the
  modifiers as they were.
\<close>

lemma letra_forma:
  assumes "n \<in> set teclas_letras" "sh AND E0ESC = 0"
  shows "decodificar sh (word_of_nat n) =
     (let l = uint (normalmap (word_of_nat n)) in
      (if sh AND CTL \<noteq> 0 then l - 96 else if (sh AND SHIFT \<noteq> 0) \<noteq> (sh AND CAPSLOCK \<noteq> 0) then l - 32 else l, sh))"
  using mapas_letras [rule_format, OF assms(1)] codigos_letras [rule_format, OF assms(1)] assms(2)
  by (auto simp: decodificar_def charcode_casos Let_def)

section \<open>The history of the keys\<close>

text \<open>
  The keys pressed and released in a sequence of bytes of the controller. A key whose code
  follows the escape \<open>0xE0\<close> is one of its own, written here with bit 7 set.
\<close>

datatype evento = Baja "8 word" | Sube "8 word"

fun clave :: "evento \<Rightarrow> 8 word" where
  "clave (Baja d) = d"
| "clave (Sube d) = d"

fun eventos :: "bool \<Rightarrow> 8 word list \<Rightarrow> evento list" where
  "eventos esc [] = []"
| "eventos esc (b # bs) =
     (if b = 0xE0 then eventos True bs
      else (if bit b 7 then Sube (if esc then b else b AND 0x7F) else Baja (if esc then b OR 0x80 else b))
           # eventos False bs)"

text \<open>A modifier is held when the last thing that happened to one of its keys is that it was pressed.\<close>

definition pulsada :: "8 word set \<Rightarrow> evento list \<Rightarrow> bool" where
  "pulsada S es = (case filter (\<lambda>e. clave e \<in> S) (rev es) of [] \<Rightarrow> False | e # _ \<Rightarrow> e = Baja (clave e))"

text \<open>A lock is on when its key was pressed an odd number of times.\<close>

definition trabada :: "8 word \<Rightarrow> evento list \<Rightarrow> bool" where
  "trabada d es = odd (count_list es (Baja d))"

text \<open>The static variable \<open>shift\<close>, 0 at first, after a sequence of bytes.\<close>

definition modificadores :: "8 word list \<Rightarrow> uint32" where
  "modificadores bs = foldl (\<lambda>sh b. snd (decodificar sh b)) 0 bs"

lemma eventos_snoc:
  "eventos esc (bs @ [b]) = eventos esc bs @ eventos (if bs = [] then esc else last bs = 0xE0) [b]"
  by (induction esc bs rule: eventos.induct) auto

lemma pulsada_snoc: "pulsada S (es @ [e]) = (if clave e \<in> S then e = Baja (clave e) else pulsada S es)"
  by (simp add: pulsada_def)

lemma trabada_snoc: "trabada d (es @ [e]) = (trabada d es \<noteq> (e = Baja d))"
  by (simp add: trabada_def)

lemma historia_vacia [simp]: "\<not> pulsada S []" "\<not> trabada d []"
  by (simp_all add: pulsada_def trabada_def)

section \<open>Bits\<close>

lemma and_un_bit:
  fixes x m :: "'a::len word"
  assumes "\<And>n. bit m n \<longleftrightarrow> n = i"
  shows "x AND m \<noteq> 0 \<longleftrightarrow> bit x i"
proof
  assume "bit x i"
  then have "bit (x AND m) i" by (simp add: bit_and_iff assms)
  then show "x AND m \<noteq> 0" by auto
next
  show "x AND m \<noteq> 0 \<Longrightarrow> bit x i"
    by (rule ccontr, drule notE, rule bit_word_eqI) (auto simp: bit_and_iff assms)
qed

lemma bit_potencia: "bit (2 ^ m :: uint32) n \<longleftrightarrow> n = m \<and> m < 32" "bit (2 ^ m :: 8 word) n \<longleftrightarrow> n = m \<and> m < 8"
  by (auto simp: bit_exp_iff)

lemma bit_mods:
  "bit SHIFT n \<longleftrightarrow> n = 0" "bit CTL n \<longleftrightarrow> n = 1" "bit ALT n \<longleftrightarrow> n = 2" "bit CAPSLOCK n \<longleftrightarrow> n = 3"
  "bit NUMLOCK n \<longleftrightarrow> n = 4" "bit SCROLLLOCK n \<longleftrightarrow> n = 5" "bit E0ESC n \<longleftrightarrow> n = 6"
  using bit_potencia(1) [of 0 n] bit_potencia(1) [of 1 n] bit_potencia(1) [of 2 n] bit_potencia(1) [of 3 n]
    bit_potencia(1) [of 4 n] bit_potencia(1) [of 5 n] bit_potencia(1) [of 6 n]
  by (simp_all add: shift_defs)

lemma and_mods:
  "sh AND SHIFT \<noteq> 0 \<longleftrightarrow> bit sh 0" "sh AND CTL \<noteq> 0 \<longleftrightarrow> bit sh 1" "sh AND ALT \<noteq> 0 \<longleftrightarrow> bit sh 2"
  "sh AND CAPSLOCK \<noteq> 0 \<longleftrightarrow> bit sh 3" "sh AND NUMLOCK \<noteq> 0 \<longleftrightarrow> bit sh 4" "sh AND SCROLLLOCK \<noteq> 0 \<longleftrightarrow> bit sh 5"
  "sh AND E0ESC \<noteq> 0 \<longleftrightarrow> bit sh 6"
  by (rule and_un_bit, rule bit_mods)+

lemma bit_shiftcode:
  "bit (shiftcode d) n \<longleftrightarrow> n = 0 \<and> d \<in> {0x2A, 0x36} \<or> n = 1 \<and> d \<in> {0x1D, 0x9D} \<or> n = 2 \<and> d \<in> {0x38, 0xB8}"
  by (auto simp: shiftcode_def bit_mods)

lemma bit_togglecode:
  "bit (togglecode d) n \<longleftrightarrow> n = 3 \<and> d = 0x3A \<or> n = 4 \<and> d = 0x45 \<or> n = 5 \<and> d = 0x46"
  by (auto simp: togglecode_def bit_mods)

lemma byte_alto: "(b :: 8 word) AND 0x80 \<noteq> 0 \<longleftrightarrow> bit b 7"
  by (rule and_un_bit) (use bit_potencia(2) [of 7] in simp)

text \<open>One byte, bit by bit.\<close>

lemma decodificar_bits:
  assumes "n < 32"
  shows "bit (snd (decodificar sh b)) n =
    (if b = 0xE0 then bit sh n \<or> n = 6
     else if bit b 7 then bit sh n \<and> n \<noteq> 6 \<and> \<not> bit (shiftcode (if bit sh 6 then b else b AND 0x7F)) n
     else (n \<noteq> 6 \<and> bit sh n \<or> bit (shiftcode (if bit sh 6 then b OR 0x80 else b)) n)
       \<noteq> bit (togglecode (if bit sh 6 then b OR 0x80 else b)) n)"
  using assms unfolding decodificar_def Let_def byte_alto and_mods(7)
  by (auto simp: bit_or_iff bit_and_iff bit_xor_iff bit_not_iff bit_mods)

lemma modificadores_snoc: "modificadores (bs @ [b]) = snd (decodificar (modificadores bs) b)"
  by (simp add: modificadores_def)

text \<open>The keys that have a bit, by the code of the event.\<close>

lemma modificadores_bits:
  "(bit (modificadores bs) 6 \<longleftrightarrow> bs \<noteq> [] \<and> last bs = 0xE0)
    \<and> (bit (modificadores bs) 0 \<longleftrightarrow> pulsada {0x2A, 0x36} (eventos False bs))
    \<and> (bit (modificadores bs) 1 \<longleftrightarrow> pulsada {0x1D, 0x9D} (eventos False bs))
    \<and> (bit (modificadores bs) 2 \<longleftrightarrow> pulsada {0x38, 0xB8} (eventos False bs))
    \<and> (bit (modificadores bs) 3 \<longleftrightarrow> trabada 0x3A (eventos False bs))
    \<and> (bit (modificadores bs) 4 \<longleftrightarrow> trabada 0x45 (eventos False bs))
    \<and> (bit (modificadores bs) 5 \<longleftrightarrow> trabada 0x46 (eventos False bs))
    \<and> (\<forall>n. 7 \<le> n \<longrightarrow> \<not> bit (modificadores bs) n)"
proof (induction bs rule: rev_induct)
  case Nil
  show ?case by (simp add: modificadores_def)
next
  case (snoc b bs)
  let ?sh = "modificadores bs" and ?es = "eventos False bs"
  note D = decodificar_bits [of _ ?sh b, folded modificadores_snoc]
  have alto: "\<not> bit (modificadores (bs @ [b])) n" if "7 \<le> n" for n
  proof (cases "n < 32")
    case True
    with D [OF True] snoc that show ?thesis by (auto simp: bit_shiftcode bit_togglecode)
  qed (use bit_imp_le_length in fastforce)
  have esc: "(if bs = [] then False else last bs = 0xE0) = bit ?sh 6" using snoc by simp
  have e: "eventos False (bs @ [b]) = ?es @ eventos (bit ?sh 6) [b]" unfolding eventos_snoc esc ..
  consider "b = 0xE0" | "b \<noteq> 0xE0" "bit b 7" | "b \<noteq> 0xE0" "\<not> bit b 7" by blast
  then show ?case
  proof cases
    case 1
    have "eventos False (bs @ [b]) = ?es" unfolding e using 1 by simp
    moreover have "bit (modificadores (bs @ [b])) n \<longleftrightarrow> bit ?sh n \<or> n = 6" if "n < 32" for n
      using D [OF that] 1 by simp
    ultimately show ?thesis using snoc alto by (simp add: 1)
  next
    case 2
    define d where "d = (if bit ?sh 6 then b else b AND 0x7F)"
    have "eventos False (bs @ [b]) = ?es @ [Sube d]" using 2 by (simp add: e d_def)
    moreover have "bit (modificadores (bs @ [b])) n \<longleftrightarrow> bit ?sh n \<and> n \<noteq> 6 \<and> \<not> bit (shiftcode d) n" if "n < 32" for n
      using D [OF that] 2 by (simp add: d_def)
    ultimately show ?thesis using snoc alto 2 by (simp add: pulsada_snoc trabada_snoc bit_shiftcode)
  next
    case 3
    define d where "d = (if bit ?sh 6 then b OR 0x80 else b)"
    have "eventos False (bs @ [b]) = ?es @ [Baja d]" using 3 by (simp add: e d_def)
    moreover have "bit (modificadores (bs @ [b])) n \<longleftrightarrow> (n \<noteq> 6 \<and> bit ?sh n \<or> bit (shiftcode d) n) \<noteq> bit (togglecode d) n" if "n < 32" for n
      using D [OF that] 3 by (simp add: d_def)
    ultimately show ?thesis using snoc alto 3 by (simp add: pulsada_snoc trabada_snoc bit_shiftcode bit_togglecode)
  qed
qed

text \<open>
  C32: the keyboard decoder, after any sequence of bytes of the controller. A modifier of
  \<open>kbd_proc_data\<close> is on exactly when the last thing that happened to one of its keys is that
  it was pressed, a lock exactly when its key was pressed an odd number of times, the
  escape exactly when the last byte was \<open>0xE0\<close>, and no other bit is ever set. Unless the
  last byte was the escape, a letter pressed next gives its control character when control
  is held, its capital when shift is held or caps lock on and not both, and otherwise the
  letter, and leaves the modifiers as they are.
\<close>

theorem teclado_historia:
  "let sh = modificadores bs; es = eventos False bs in
    (sh AND SHIFT \<noteq> 0 \<longleftrightarrow> pulsada {0x2A, 0x36} es) \<and> (sh AND CTL \<noteq> 0 \<longleftrightarrow> pulsada {0x1D, 0x9D} es)
    \<and> (sh AND ALT \<noteq> 0 \<longleftrightarrow> pulsada {0x38, 0xB8} es)
    \<and> (sh AND CAPSLOCK \<noteq> 0 \<longleftrightarrow> trabada 0x3A es) \<and> (sh AND NUMLOCK \<noteq> 0 \<longleftrightarrow> trabada 0x45 es)
    \<and> (sh AND SCROLLLOCK \<noteq> 0 \<longleftrightarrow> trabada 0x46 es)
    \<and> (sh AND E0ESC \<noteq> 0 \<longleftrightarrow> bs \<noteq> [] \<and> last bs = 0xE0) \<and> unat sh < 128
    \<and> (n \<in> set teclas_letras \<longrightarrow> \<not> (bs \<noteq> [] \<and> last bs = 0xE0) \<longrightarrow>
         decodificar sh (word_of_nat n) =
           (if pulsada {0x1D, 0x9D} es then uint (normalmap (word_of_nat n)) - 96
            else if pulsada {0x2A, 0x36} es \<noteq> trabada 0x3A es then uint (normalmap (word_of_nat n)) - 32
            else uint (normalmap (word_of_nat n)), sh))"
proof -
  let ?sh = "modificadores bs" and ?es = "eventos False bs"
  note B = modificadores_bits [of bs]
  have t: "take_bit 7 ?sh = ?sh"
  proof (rule bit_word_eqI)
    fix n
    have "\<not> n < 7 \<Longrightarrow> \<not> bit ?sh n" using B by (simp only: not_less) blast
    then show "bit (take_bit 7 ?sh) n = bit ?sh n" by (auto simp only: bit_take_bit_iff)
  qed
  have "unat (take_bit 7 ?sh) < 2 ^ 7" by (simp only: unsigned_take_bit_eq take_bit_nat_less_exp)
  then have "unat ?sh < 128" unfolding t by simp
  moreover have "decodificar ?sh (word_of_nat n) =
           (if pulsada {0x1D, 0x9D} ?es then uint (normalmap (word_of_nat n)) - 96
            else if pulsada {0x2A, 0x36} ?es \<noteq> trabada 0x3A ?es then uint (normalmap (word_of_nat n)) - 32
            else uint (normalmap (word_of_nat n)), ?sh)"
    if n: "n \<in> set teclas_letras" and l: "\<not> (bs \<noteq> [] \<and> last bs = 0xE0)"
  proof -
    have z: "?sh AND E0ESC = 0" using and_mods(7) [of ?sh] B l by blast
    have b: "?sh AND CTL \<noteq> 0 \<longleftrightarrow> pulsada {0x1D, 0x9D} ?es" "?sh AND SHIFT \<noteq> 0 \<longleftrightarrow> pulsada {0x2A, 0x36} ?es"
      "?sh AND CAPSLOCK \<noteq> 0 \<longleftrightarrow> trabada 0x3A ?es" unfolding and_mods using B by blast+
    show ?thesis unfolding letra_forma [OF n z] Let_def b ..
  qed
  ultimately show ?thesis using B unfolding Let_def and_mods by blast
qed

lemma teclado_historia_witness:
  "decodificar (modificadores [0x3A, 0xBA, 0x2A]) 0x1E = (97, 0x09)
    \<and> decodificar (modificadores [0xE0, 0x1D, 0x2A]) 0x1E = (1, 0x03)
    \<and> decodificar (modificadores [0x1D, 0x9D, 0x36]) 0x1E = (65, 0x01)"
proof -
  have n: "30 \<in> set teclas_letras" by (simp add: teclas_letras_def)
  have m: "uint (normalmap 0x1E) = 97" by (simp add: normalmap_def normal_filas_def)
  have s: "modificadores [0x3A, 0xBA, 0x2A] = 0x09" "modificadores [0xE0, 0x1D, 0x2A] = 0x03"
    "modificadores [0x1D, 0x9D, 0x36] = 0x01"
    by (simp_all add: modificadores_def decodificar_def Let_def shift_defs shiftcode_def togglecode_def)
  have a: "0xBA AND 0x7F = (0x3A :: 8 word)" "0x9D AND 0x7F = (0x1D :: 8 word)" by simp_all
  have e: "eventos False [0x3A, 0xBA, 0x2A] = [Baja 0x3A, Sube 0x3A, Baja 0x2A]"
    "eventos False [0xE0, 0x1D, 0x2A] = [Baja 0x9D, Baja 0x2A]"
    "eventos False [0x1D, 0x9D, 0x36] = [Baja 0x1D, Sube 0x1D, Baja 0x36]" by (simp_all add: a)
  have p: "pulsada {0x2A, 0x36} [Baja 0x3A, Sube 0x3A, Baja 0x2A]" "\<not> pulsada {0x1D, 0x9D} [Baja 0x3A, Sube 0x3A, Baja 0x2A]"
    "trabada 0x3A [Baja 0x3A, Sube 0x3A, Baja 0x2A]" "pulsada {0x1D, 0x9D} [Baja 0x9D, Baja 0x2A]"
    "pulsada {0x2A, 0x36} [Baja 0x1D, Sube 0x1D, Baja 0x36]" "\<not> pulsada {0x1D, 0x9D} [Baja 0x1D, Sube 0x1D, Baja 0x36]"
    "\<not> trabada 0x3A [Baja 0x1D, Sube 0x1D, Baja 0x36]" by (simp_all add: pulsada_def trabada_def)
  show ?thesis
    using teclado_historia [of "[0x3A, 0xBA, 0x2A]" 30, unfolded Let_def e s] teclado_historia [of "[0xE0, 0x1D, 0x2A]" 30, unfolded Let_def e s]
      teclado_historia [of "[0x1D, 0x9D, 0x36]" 30, unfolded Let_def e s] n m p
    unfolding s by simp
qed

end
