(* ===== verification/Pantalla.thy ===== *)
theory Pantalla
  imports Console
begin

text \<open>
  The text screen of \<open>kern/console.c\<close> as a window on a tape: a tape is written from left to
  right and never scrolls, and the screen is its 25 rows from the row \<open>borde\<close> on.
\<close>

record cinta =
  tinta :: "nat \<Rightarrow> 16 word"
  sitio :: nat
  borde :: nat

definition bajar :: "cinta \<Rightarrow> cinta" where
  "bajar t = (if CRT_COLS * borde t + CRT_SIZE \<le> sitio t then t\<lparr>borde := borde t + 1\<rparr> else t)"

definition estampar :: "16 word \<Rightarrow> cinta \<Rightarrow> cinta" where
  "estampar x t = bajar (t\<lparr>tinta := (tinta t)(sitio t := x), sitio := sitio t + 1\<rparr>)"

text \<open>A back space stops at the first cell of the screen; a tab is five spaces.\<close>

definition teclear :: "uint32 \<Rightarrow> cinta \<Rightarrow> cinta" where
  "teclear c t =
     (if c AND 0xFF = 8 then
        (if CRT_COLS * borde t < sitio t then
           t\<lparr>tinta := (tinta t)(sitio t - 1 := ucast ((atributo c AND NOT 0xFF) OR 0x20)), sitio := sitio t - 1\<rparr>
         else t)
      else if c AND 0xFF = 10 then bajar (t\<lparr>sitio := (sitio t div CRT_COLS + 1) * CRT_COLS\<rparr>)
      else if c AND 0xFF = 13 then t\<lparr>sitio := sitio t div CRT_COLS * CRT_COLS\<rparr>
      else if c AND 0xFF = 9 then (estampar 0x0720 ^^ 5) t
      else estampar (ucast (atributo c)) t)"

text \<open>The screen \<open>k\<close> shows the tape \<open>t\<close>, with the cursor before \<open>n\<close>; what is below is blank.\<close>

definition muestra :: "nat \<Rightarrow> cinta \<Rightarrow> consola \<Rightarrow> bool" where
  "muestra n t k \<longleftrightarrow> unat (crt_pos k) < n \<and> sitio t = CRT_COLS * borde t + unat (crt_pos k)
     \<and> (\<forall>i<CRT_SIZE. crt_buf k i = tinta t (CRT_COLS * borde t + i))
     \<and> (\<forall>i\<ge>CRT_COLS * borde t + CRT_SIZE. tinta t i = 0x0720)"

abbreviation ventana :: "cinta \<Rightarrow> consola \<Rightarrow> bool" where
  "ventana \<equiv> muestra CRT_SIZE"

lemmas crt_defs = CRT_SIZE_def CRT_ROWS_def CRT_COLS_def

lemma pos_mas: "unat p < 2000 \<Longrightarrow> unat (p + 1) = unat p + 1 \<and> unat (p + 80) = unat p + 80" for p :: "16 word"
  by (simp add: unat_word_ariths)

lemma muestra_mover [simp]: "muestra n t (mover_cursor k) = muestra n t k"
  by (simp add: muestra_def mover_cursor_def)

lemma muestra_desplazar:
  assumes "muestra (Suc CRT_SIZE) t k"
  shows "ventana (bajar t) (desplazar k)"
proof (cases "unat (crt_pos k) = CRT_SIZE")
  case True
  then have c: "word_of_nat CRT_SIZE \<le> crt_pos k" by (simp add: word_le_nat_alt crt_defs)
  have "80 \<le> crt_pos k" using True by (simp add: word_le_nat_alt crt_defs)
  then have "unat (crt_pos k - 80) = unat (crt_pos k) - 80" using unat_sub by fastforce
  moreover have "bajar t = t\<lparr>borde := borde t + 1\<rparr>" using True assms by (simp add: bajar_def muestra_def)
  ultimately show ?thesis using assms True c by (simp add: muestra_def desplazar_def) (simp add: crt_defs ac_simps)
next
  case False
  then have "\<not> word_of_nat CRT_SIZE \<le> crt_pos k" using assms by (simp add: word_le_nat_alt muestra_def crt_defs)
  then show ?thesis using assms False by (simp add: desplazar_def bajar_def muestra_def)
qed

lemma muestra_quieta:
  assumes "ventana t k"
  shows "desplazar k = k" "bajar t = t"
proof -
  have "\<not> word_of_nat CRT_SIZE \<le> crt_pos k" using assms by (simp add: word_le_nat_alt muestra_def crt_defs)
  then show "desplazar k = k" by (simp add: desplazar_def)
  show "bajar t = t" using assms by (simp add: bajar_def muestra_def crt_defs)
qed

lemma muestra_serie [simp]: "muestra n t (serial_putc c k) = muestra n t k" "muestra n t (lpt_putc c k) = muestra n t k"
  by (simp_all add: muestra_def serial_putc_def lpt_putc_def)

lemma muestra_poner:
  assumes "ventana t k"
  shows "muestra (Suc CRT_SIZE) (t\<lparr>tinta := (tinta t)(sitio t := x), sitio := sitio t + 1\<rparr>)
    ((poner_celda (crt_pos k) x k)\<lparr>crt_pos := crt_pos k + 1\<rparr>)"
  using assms pos_mas [of "crt_pos k"] by (simp add: muestra_def poner_celda_def) (simp add: crt_defs)

lemma muestra_borrar:
  assumes "ventana t k" "0 < crt_pos k"
  shows "ventana (t\<lparr>tinta := (tinta t)(sitio t - 1 := x), sitio := sitio t - 1\<rparr>)
    (poner_celda (crt_pos k - 1) x (k\<lparr>crt_pos := crt_pos k - 1\<rparr>))"
proof -
  have p: "0 < unat (crt_pos k)" using assms(2) by (simp add: word_less_nat_alt)
  then have "unat (crt_pos k - 1) = unat (crt_pos k) - 1" by (intro unat_minus_one) auto
  then show ?thesis using assms(1) p by (simp add: muestra_def poner_celda_def) (auto simp: crt_defs)
qed

lemma inicio_fila: "unat (p - p mod word_of_nat CRT_COLS) = unat p div CRT_COLS * CRT_COLS" for p :: "16 word"
proof -
  have m: "unat (p mod 80) = unat p mod 80" by (simp add: unat_mod_distrib)
  then have "p mod 80 \<le> p" by (simp add: word_le_nat_alt)
  from unat_sub [OF this] show ?thesis unfolding m by (simp only: crt_defs minus_mod_eq_div_mult of_nat_numeral)
qed

lemma muestra_retorno: "ventana t k \<Longrightarrow> ventana (t\<lparr>sitio := sitio t div CRT_COLS * CRT_COLS\<rparr>)
    (k\<lparr>crt_pos := crt_pos k - crt_pos k mod word_of_nat CRT_COLS\<rparr>)"
  by (simp add: muestra_def inicio_fila) (auto simp: crt_defs)

lemma muestra_linea: "ventana t k \<Longrightarrow> muestra (Suc CRT_SIZE) (t\<lparr>sitio := (sitio t div CRT_COLS + 1) * CRT_COLS\<rparr>)
    (k\<lparr>crt_pos := (crt_pos k + word_of_nat CRT_COLS) - (crt_pos k + word_of_nat CRT_COLS) mod word_of_nat CRT_COLS\<rparr>)"
  using pos_mas [of "crt_pos k"] div_add_self2 [of 80 "unat (crt_pos k)"] less_mult_imp_div_less [of "unat (crt_pos k)" 25 80]
  by (simp add: muestra_def inicio_fila) (auto simp: crt_defs)

lemma cinco: "(f ^^ 5) x = f (f (f (f (f x))))"
  by (simp add: eval_nat_numeral)

lemma putc_normal:
  assumes "ventana t k" "c AND 0xFF \<notin> {8, 9, 10, 13}"
  shows "ventana (estampar (ucast (atributo c)) t) (cga_putc c k)"
  using muestra_desplazar [OF muestra_poner [OF assms(1)]] assms(2) by (subst cga_putc.simps) (simp add: estampar_def)

lemma cons_putc_espacio: "ventana t k \<Longrightarrow> ventana (estampar 0x0720 t) (cons_putc 0x20 k)"
  using putc_normal [where t = t and k = "lpt_putc 0x20 (serial_putc 0x20 k)" and c = "0x20"]
  by (simp add: cons_putc_def puertos_def atributo_def)

lemma cga_putc_ventana:
  assumes "ventana t k"
  shows "ventana (teclear c t) (cga_putc c k)"
proof -
  have r: "0 < crt_pos k \<longleftrightarrow> CRT_COLS * borde t < sitio t"
    using assms by (simp add: muestra_def word_less_nat_alt)
  consider "c AND 0xFF = 8" "0 < crt_pos k" | "c AND 0xFF = 8" "\<not> 0 < crt_pos k" | "c AND 0xFF = 9"
    | "c AND 0xFF = 10" | "c AND 0xFF = 13" | "c AND 0xFF \<notin> {8, 9, 10, 13}" by blast
  then show ?thesis
  proof cases
    case 1
    note b = muestra_borrar [OF assms 1(2), of "ucast ((atributo c AND NOT 0xFF) OR 0x20)"]
    show ?thesis using 1 b muestra_quieta [OF b] r by (subst cga_putc.simps) (simp add: teclear_def)
  next
    case 2
    then show ?thesis using assms muestra_quieta [OF assms] r by (subst cga_putc.simps) (simp add: teclear_def)
  next
    case 3
    have "ventana ((estampar 0x0720 ^^ n) t) ((cons_putc 0x20 ^^ n) k)" for n
      by (induction n) (simp_all add: assms cons_putc_espacio)
    then have b: "ventana ((estampar 0x0720 ^^ 5) t) ((cons_putc 0x20 ^^ 5) k)" .
    show ?thesis using 3 b muestra_quieta [OF b]
      by (subst cga_putc.simps) (simp add: teclear_def cinco cons_putc_def)
  next
    case 4
    show ?thesis using 4 muestra_desplazar [OF muestra_linea [OF assms]]
      by (subst cga_putc.simps) (simp add: teclear_def Let_def)
  next
    case 5
    note b = muestra_retorno [OF assms]
    show ?thesis using 5 b muestra_quieta [OF b] by (subst cga_putc.simps) (simp add: teclear_def)
  next
    case 6
    then show ?thesis using putc_normal [OF assms] by (simp add: teclear_def)
  qed
qed

text \<open>No cell outside the screen is written.\<close>

definition fuera :: "consola \<Rightarrow> nat \<Rightarrow> 16 word" where
  "fuera k = (\<lambda>i. if i < CRT_SIZE then 0 else crt_buf k i)"

lemma fuera_salida [simp]:
  "fuera (serial_putc c k) = fuera k" "fuera (lpt_putc c k) = fuera k" "fuera (mover_cursor k) = fuera k"
  "fuera (desplazar k) = fuera k" "fuera (k\<lparr>crt_pos := p\<rparr>) = fuera k"
  by (auto simp: fuera_def serial_putc_def lpt_putc_def mover_cursor_def desplazar_def fun_eq_iff)

lemma fuera_poner: "unat p < CRT_SIZE \<Longrightarrow> fuera (poner_celda p x k) = fuera k"
  by (auto simp: fuera_def poner_celda_def fun_eq_iff)

lemma cons_putc_espacio_fuera:
  assumes "ventana t k"
  shows "fuera (cons_putc 0x20 k) = fuera k"
proof -
  have "crt_pos (lpt_putc c (serial_putc c k)) = crt_pos k" for c by (simp add: lpt_putc_def serial_putc_def)
  then show ?thesis using assms by (simp add: cons_putc_def puertos_def muestra_def cga_putc.simps fuera_poner)
qed

lemma cga_putc_fuera:
  assumes "ventana t k"
  shows "fuera (cga_putc c k) = fuera k"
proof -
  have p: "unat (crt_pos k) < CRT_SIZE" using assms by (simp add: muestra_def)
  have q: "unat (crt_pos k - 1) < CRT_SIZE" if "0 < crt_pos k"
    using p that by (metis le_less_trans unat_minus_one diff_le_self word_gt_0)
  have "ventana ((estampar 0x0720 ^^ n) t) ((cons_putc 0x20 ^^ n) k) \<and> fuera ((cons_putc 0x20 ^^ n) k) = fuera k" for n
    by (induction n) (auto simp: assms cons_putc_espacio dest: cons_putc_espacio_fuera)
  then have e: "fuera ((cons_putc 0x20 ^^ 5) k) = fuera k" by blast
  show ?thesis using e [unfolded cinco cons_putc_def] by (subst cga_putc.simps) (simp add: fuera_poner p q Let_def)
qed

text \<open>
  C33: The screen scrolls by the book. Whatever characters \<open>cputchar\<close> prints, control
  characters included, the screen goes on showing the last rows of a tape on which they
  were written without ever scrolling, the cursor stays on the screen, and no cell outside
  it is written.
\<close>

theorem cputchar_cinta:
  assumes "ventana t k"
  shows "ventana (fold teclear cs t) (fold cputchar cs k)
    \<and> unat (crt_pos (fold cputchar cs k)) < CRT_SIZE \<and> fuera (fold cputchar cs k) = fuera k"
proof -
  have "ventana (fold teclear cs t) (fold cputchar cs k) \<and> fuera (fold cputchar cs k) = fuera k"
    using assms
  proof (induction cs arbitrary: t k)
    case (Cons c cs)
    let ?k = "lpt_putc c (serial_putc c k)"
    have v: "ventana t ?k" using Cons.prems by simp
    have "ventana (teclear c t) (cputchar c k)" "fuera (cputchar c k) = fuera k"
      using cga_putc_ventana [OF v, of c] cga_putc_fuera [OF v, of c] by (simp_all add: cputchar_def cons_putc_def puertos_def)
    with Cons.IH show ?case by simp
  qed simp
  then show ?thesis by (simp add: muestra_def)
qed

definition k_pantalla :: consola where
  "k_pantalla = \<lparr>serial_exists = True, com_rx = [], com_tx = [], lpt_tx = [], kbd_rx = [], reinicio = False,
     addr_6845 = CGA_BASE, cursor = (\<lambda>_. 0), crt_buf = (\<lambda>_. 0x0720), crt_pos = 1999, shift = 0, cons_buf = (\<lambda>_. 0),
     rpos = 0, wpos = 0\<rparr>"

text \<open>A letter in the last cell, and one more on the new row.\<close>

lemma cputchar_cinta_witness:
  "crt_buf (fold cputchar [0x41, 0x42] k_pantalla) 1919 = 0x0741
   \<and> crt_buf (fold cputchar [0x41, 0x42] k_pantalla) 1920 = 0x0742"
proof -
  let ?t = "\<lparr>tinta = (\<lambda>_. 0x0720), sitio = 1999, borde = 0\<rparr>"
  have v: "ventana ?t k_pantalla" by (simp add: muestra_def k_pantalla_def crt_defs)
  have "fold teclear [0x41, 0x42] ?t = \<lparr>tinta = (\<lambda>_. 0x0720)(1999 := 0x0741, 2000 := 0x0742), sitio = 2001, borde = 1\<rparr>"
    by (simp add: teclear_def estampar_def bajar_def atributo_def crt_defs)
  then show ?thesis using cputchar_cinta [OF v, of "[0x41, 0x42]"] by (simp add: muestra_def crt_defs)
qed

end
