(* ===== verification/Monitor.thy ===== *)
theory Monitor
  imports Pantalla
begin

text \<open>
  The kernel monitor: \<open>TP2-sched/lib/readline.c\<close>, \<open>kern/monitor.c\<close> and the kernel's
  \<open>cprintf\<close> (\<open>kern/printf.c\<close>). The characters that \<open>getchar\<close> returns, one after the other,
  are an argument; a line is read into a memory of bytes that holds the static buffer at
  address 0, and it is split in place. The addresses that the linker gives are a record.
\<close>

section \<open>kern/printf.c\<close>

definition cprintf :: "memoria \<Rightarrow> string \<Rightarrow> va_list \<Rightarrow> consola \<Rightarrow> (int \<times> consola) option" where
  "cprintf m fmt ap k = do { os \<leftarrow> vprintfmt m fmt ap; Some (int (length os), fold cputchar os k) }"

section \<open>lib/readline.c\<close>

definition READ_BUFLEN :: nat where "READ_BUFLEN = 1024"

text \<open>Still waiting for a character with \<open>i\<close> in the buffer, the null pointer, or the line.\<close>

datatype lectura = Espera nat | Nulo | Linea

fun readline_bucle :: "int list \<Rightarrow> nat \<Rightarrow> memoria \<Rightarrow> consola \<Rightarrow> (lectura \<times> memoria \<times> consola) option" where
  "readline_bucle [] i m k = Some (Espera i, m, k)"
| "readline_bucle (c # cs) i m k =
     (if c < 0 then
        do { (_, k1) \<leftarrow> cprintf m (''read error: %e'' @ [CHR 0x0A]) [word_of_int c] k; Some (Nulo, m, k1) }
      else if (c = 8 \<or> c = 0x7F) \<and> i > 0 then readline_bucle cs (i - 1) m (cputchar 8 k)
      else if c \<ge> 32 \<and> i < READ_BUFLEN - 1 then
        readline_bucle cs (i + 1) (m(i := char_of (nat c))) (cputchar (word_of_int c) k)
      else if c = 10 \<or> c = 13 then Some (Linea, m(i := NUL), cputchar 10 k)
      else readline_bucle cs i m k)"

definition readline :: "string option \<Rightarrow> int list \<Rightarrow> memoria \<Rightarrow> consola \<Rightarrow> (lectura \<times> memoria \<times> consola) option" where
  "readline prompt cs m k =
     readline_bucle cs 0 m (case prompt of None \<Rightarrow> k | Some s \<Rightarrow> cprintf_texto s k)"

section \<open>kern/monitor.c\<close>

record enlace =
  ld_start :: uint32
  ld_entry :: uint32
  ld_etext :: uint32
  ld_edata :: uint32
  ld_end :: uint32

definition mon_help :: "consola \<Rightarrow> (int \<times> consola) option" where
  "mon_help k =
     Some (0, cprintf_texto
       (''help - Display this list of commands'' @ [CHR 0x0A]
        @ ''kerninfo - Display information about the kernel'' @ [CHR 0x0A]) k)"

definition mon_kerninfo :: "enlace \<Rightarrow> memoria \<Rightarrow> consola \<Rightarrow> (int \<times> consola) option" where
  "mon_kerninfo l m k =
     do {
       (_, k) \<leftarrow> cprintf m (''Special kernel symbols:'' @ [CHR 0x0A]) [] k;
       (_, k) \<leftarrow> cprintf m (''  _start                  %08x (phys)'' @ [CHR 0x0A]) [ld_start l] k;
       (_, k) \<leftarrow> cprintf m (''  entry  %08x (virt)  %08x (phys)'' @ [CHR 0x0A]) [ld_entry l, ld_entry l - KERNBASE] k;
       (_, k) \<leftarrow> cprintf m (''  etext  %08x (virt)  %08x (phys)'' @ [CHR 0x0A]) [ld_etext l, ld_etext l - KERNBASE] k;
       (_, k) \<leftarrow> cprintf m (''  edata  %08x (virt)  %08x (phys)'' @ [CHR 0x0A]) [ld_edata l, ld_edata l - KERNBASE] k;
       (_, k) \<leftarrow> cprintf m (''  end    %08x (virt)  %08x (phys)'' @ [CHR 0x0A]) [ld_end l, ld_end l - KERNBASE] k;
       (_, k) \<leftarrow> cprintf m (''Kernel executable memory footprint: %dKB'' @ [CHR 0x0A])
         [ROUNDUP (ld_end l - ld_entry l) 1024 div 1024] k;
       Some (0, k)
     }"

definition mon_backtrace :: "consola \<Rightarrow> (int \<times> consola) option" where
  "mon_backtrace k = Some (0, k)"

definition WHITESPACE :: string where
  "WHITESPACE = [CHR 0x09, CHR 0x0D, CHR 0x0A, CHR 0x20]"

definition MON_MAXARGS :: nat where "MON_MAXARGS = 16"

partial_function (option) comer_blancos :: "memoria \<Rightarrow> nat \<Rightarrow> (memoria \<times> nat) option" where
  "comer_blancos m b =
     (if m b \<noteq> NUL \<and> m b \<in> set WHITESPACE then comer_blancos (m(b := NUL)) (b + 1) else Some (m, b))"

partial_function (option) saltar_palabra :: "memoria \<Rightarrow> nat \<Rightarrow> nat option" where
  "saltar_palabra m b = (if m b \<noteq> NUL \<and> m b \<notin> set WHITESPACE then saltar_palabra m (b + 1) else Some b)"

text \<open>The loop that splits the buffer: the arguments, or \<^term>\<open>None\<close> when there are too many.\<close>

partial_function (option) trocear :: "memoria \<Rightarrow> nat \<Rightarrow> nat list \<Rightarrow> (memoria \<times> nat list option) option" where
  "trocear m b argv =
     do {
       (m, b) \<leftarrow> comer_blancos m b;
       if m b = NUL then Some (m, Some argv)
       else if length argv = MON_MAXARGS - 1 then Some (m, None)
       else do { b' \<leftarrow> saltar_palabra m b; trocear m b' (argv @ [b]) }
     }"

text \<open>The string at \<open>p\<close> is \<open>s\<close>, the comparison that \<open>strcmp\<close> makes with a literal.\<close>

definition es_cadena :: "memoria \<Rightarrow> nat \<Rightarrow> string \<Rightarrow> bool" where
  "es_cadena m p s \<longleftrightarrow> (\<forall>i<length s. m (p + i) = s ! i) \<and> m (p + length s) = NUL"

definition runcmd :: "enlace \<Rightarrow> memoria \<Rightarrow> consola \<Rightarrow> (int \<times> memoria \<times> consola) option" where
  "runcmd l m k =
     do {
       (m, argv) \<leftarrow> trocear m 0 [];
       case argv of
         None \<Rightarrow>
           do { (_, k) \<leftarrow> cprintf m (''Too many arguments (max %d)'' @ [CHR 0x0A]) [word_of_nat MON_MAXARGS] k;
                Some (0, m, k) }
       | Some [] \<Rightarrow> Some (0, m, k)
       | Some (a # as) \<Rightarrow>
           do {
             (r, k) \<leftarrow>
               (if es_cadena m a ''help'' then mon_help k
                else if es_cadena m a ''kerninfo'' then mon_kerninfo l m k
                else do {
                  (_, k) \<leftarrow> cprintf m (''Unknown command '' @ [CHR 0x27] @ ''%s'' @ [CHR 0x27, CHR 0x0A]) [word_of_nat a] k;
                  Some (0, k)
                });
             Some (r, m, k)
           }
     }"

text \<open>
  \<open>monitor(NULL)\<close>; each element of the list is what is typed during one turn of the loop.
  \<^term>\<open>True\<close> means that the loop was left.
\<close>

fun monitor_bucle :: "enlace \<Rightarrow> int list list \<Rightarrow> memoria \<Rightarrow> consola \<Rightarrow> (bool \<times> memoria \<times> consola) option" where
  "monitor_bucle l [] m k = Some (False, m, k)"
| "monitor_bucle l (cs # css) m k =
     do {
       (r, m, k) \<leftarrow> readline (Some ''K> '') cs m k;
       case r of
         Espera _ \<Rightarrow> Some (False, m, k)
       | Nulo \<Rightarrow> monitor_bucle l css m k
       | Linea \<Rightarrow> do {
           (r, m, k) \<leftarrow> runcmd l m k;
           if r < 0 then Some (True, m, k) else monitor_bucle l css m k
         }
     }"

definition monitor :: "enlace \<Rightarrow> int list list \<Rightarrow> memoria \<Rightarrow> consola \<Rightarrow> (bool \<times> memoria \<times> consola) option" where
  "monitor l css m k =
     monitor_bucle l css m (cprintf_texto
       (''Welcome to the JOS kernel monitor!'' @ [CHR 0x0A]
        @ ''Type '' @ [CHR 0x27] @ ''help'' @ [CHR 0x27] @ '' for a list of commands.'' @ [CHR 0x0A]) k)"

end
