(* ===== verification/Monitor_Claims.thy ===== *)
theory Monitor_Claims
  imports Monitor
begin

text \<open>
  The kernel monitor. \<open>readline\<close> is a line editor on strings (\<open>editar\<close>), and what it echoes
  keeps the line on the screen; \<open>runcmd\<close> splits a line in place into the words of its text
  (\<open>palabras\<close>).
\<close>

section \<open>The line editor\<close>

definition editar :: "int \<Rightarrow> string \<Rightarrow> string" where
  "editar c l =
     (if (c = 8 \<or> c = 0x7F) \<and> l \<noteq> [] then butlast l
      else if c \<ge> 32 \<and> length l < READ_BUFLEN - 1 then l @ [char_of (nat c)] else l)"

definition celda :: "char \<Rightarrow> 16 word" where
  "celda c = 0x0700 OR word_of_nat (of_char c)"

text \<open>The tape has the line \<open>l\<close> from \<open>P\<close> to the cursor, nothing after it, and \<open>P\<close> is on the screen.\<close>

definition renglon :: "cinta \<Rightarrow> nat \<Rightarrow> string \<Rightarrow> bool" where
  "renglon t P l \<longleftrightarrow> sitio t = P + length l \<and> CRT_COLS * borde t \<le> P
     \<and> (\<forall>i<length l. tinta t (P + i) = celda (l ! i)) \<and> (\<forall>i\<ge>P + length l. tinta t i = 0x0720)"

lemma byte_caracter:
  assumes "32 \<le> c" "c < (256 :: int)"
  shows "(word_of_int c :: uint32) AND 0xFF \<notin> {8, 9, 10, 13}"
    "ucast (atributo (word_of_int c)) = celda (char_of (nat c))"
proof -
  define n where "n = nat c"
  have n: "c = int n" "32 \<le> n" "n < 256" using assms by (simp_all add: n_def)
  let ?x = "word_of_nat n :: uint32"
  have "take_bit 8 n = n" using n by (simp add: take_bit_nat_eq_self)
  then have "take_bit 8 ?x = ?x" by (simp add: take_bit_of_nat)
  then have x: "?x AND 0xFF = ?x" by (simp add: take_bit_eq_mask mask_eq_decr_exp)
  have u: "unat ?x = n" using n by (simp add: unat_of_nat take_bit_nat_eq_self)
  show "(word_of_int c :: uint32) AND 0xFF \<notin> {8, 9, 10, 13}" using u n by (auto simp: x word_unat_eq_iff)
  have "?x AND NOT 0xFF = (?x AND 0xFF) AND NOT 0xFF" by (simp only: x)
  then have z: "?x AND NOT 0xFF = 0" by (simp add: and.assoc)
  have "of_char (char_of n :: char) = n" using n(3) by simp
  moreover have "unat (ucast ?x :: 16 word) = n"
    by (subst unsigned_ucast_eq) (use n u in \<open>simp add: take_bit_nat_eq_self\<close>)
  then have "ucast ?x = (word_of_nat n :: 16 word)"
    using n by (simp add: word_unat_eq_iff unat_of_nat take_bit_nat_eq_self)
  ultimately show "ucast (atributo (word_of_int c)) = celda (char_of (nat c))"
    using z by (simp add: n(1) atributo_def celda_def unsigned_or_eq or.commute)
qed

lemma renglon_borrar:
  assumes "renglon t P l" "l \<noteq> []"
  shows "renglon (teclear 8 t) P (butlast l)"
  using assms by (auto simp: renglon_def teclear_def atributo_def nth_butlast le_Suc_eq neq_Nil_conv)

lemma renglon_poner:
  assumes "renglon t P l" "32 \<le> c" "c < 256" "length l < READ_BUFLEN - 1"
  shows "renglon (teclear (word_of_int c) t) P (l @ [char_of (nat c)])"
proof -
  have "teclear (word_of_int c) t = estampar (celda (char_of (nat c))) t"
    using byte_caracter [OF assms(2,3)] by (simp add: teclear_def)
  then show ?thesis using assms(1,4)
    by (auto simp: renglon_def estampar_def bajar_def nth_append READ_BUFLEN_def crt_defs less_Suc_eq)
qed

text \<open>The loop of \<open>readline\<close>, on keys that do not end the line.\<close>

definition tecla_de_linea :: "int \<Rightarrow> bool" where
  "tecla_de_linea c \<longleftrightarrow> 0 \<le> c \<and> c < 256 \<and> c \<noteq> 10 \<and> c \<noteq> 13"

definition en_buffer :: "memoria \<Rightarrow> string \<Rightarrow> bool" where
  "en_buffer m l \<longleftrightarrow> (\<forall>i<length l. m i = l ! i)"

lemma en_buffer_poner: "en_buffer m l \<Longrightarrow> en_buffer (m(length l := c)) (l @ [c])"
  by (simp add: en_buffer_def nth_append less_Suc_eq)

lemma en_buffer_quitar: "en_buffer m l \<Longrightarrow> en_buffer m (butlast l)"
  by (simp add: en_buffer_def nth_butlast)

lemma length_editar: "length l < READ_BUFLEN \<Longrightarrow> length (editar c l) < READ_BUFLEN"
  by (auto simp: editar_def)

lemma readline_paso:
  assumes "tecla_de_linea c" "en_buffer m l" "length l < READ_BUFLEN" "ventana t k" "renglon t P l"
  shows "\<exists>m' k' t'. readline_bucle (c # cs) (length l) m k = readline_bucle cs (length (editar c l)) m' k'
    \<and> en_buffer m' (editar c l) \<and> (\<forall>i\<ge>READ_BUFLEN. m' i = m i) \<and> ventana t' k' \<and> renglon t' P (editar c l)"
proof -
  have v: "ventana (teclear d t) (cputchar d k)" for d using cputchar_cinta [OF assms(4), of "[d]"] by simp
  consider "c = 8 \<or> c = 0x7F" "l \<noteq> []" | "\<not> ((c = 8 \<or> c = 0x7F) \<and> l \<noteq> [])" "32 \<le> c" "length l < READ_BUFLEN - 1"
    | "\<not> ((c = 8 \<or> c = 0x7F) \<and> l \<noteq> [])" "\<not> (32 \<le> c \<and> length l < READ_BUFLEN - 1)" by blast
  then show ?thesis
  proof cases
    case 1
    show ?thesis
      by (rule exI [of _ m], rule exI [of _ "cputchar 8 k"], rule exI [of _ "teclear 8 t"])
        (use 1 assms(1,2) v renglon_borrar [OF assms(5)] in
          \<open>auto simp: editar_def tecla_de_linea_def en_buffer_quitar\<close>)
  next
    case 2
    have c: "32 \<le> c" "c < 256" using 2 assms(1) by (simp_all add: tecla_de_linea_def)
    show ?thesis
      by (rule exI [of _ "m(length l := char_of (nat c))"], rule exI [of _ "cputchar (word_of_int c) k"],
          rule exI [of _ "teclear (word_of_int c) t"])
        (use 2 assms(1,2) v renglon_poner [OF assms(5) c] in
          \<open>auto simp: editar_def tecla_de_linea_def en_buffer_poner\<close>)
  next
    case 3
    then show ?thesis using assms by (auto simp: editar_def tecla_de_linea_def)
  qed
qed

lemma readline_bucle_edita:
  "\<forall>c\<in>set cs. tecla_de_linea c \<Longrightarrow> en_buffer m l \<Longrightarrow> length l < READ_BUFLEN \<Longrightarrow> ventana t k \<Longrightarrow> renglon t P l
   \<Longrightarrow> \<exists>m' k' t'. readline_bucle (cs @ ds) (length l) m k = readline_bucle ds (length (fold editar cs l)) m' k'
     \<and> en_buffer m' (fold editar cs l) \<and> length (fold editar cs l) < READ_BUFLEN \<and> (\<forall>i\<ge>READ_BUFLEN. m' i = m i)
     \<and> ventana t' k' \<and> renglon t' P (fold editar cs l)"
proof (induction cs arbitrary: l m k t)
  case (Cons c cs)
  obtain m1 k1 t1 where p: "readline_bucle (c # cs @ ds) (length l) m k = readline_bucle (cs @ ds) (length (editar c l)) m1 k1"
    "en_buffer m1 (editar c l)" "\<forall>i\<ge>READ_BUFLEN. m1 i = m i" "ventana t1 k1" "renglon t1 P (editar c l)"
    using readline_paso [of c m l t k P "cs @ ds"] Cons.prems by auto
  show ?case using Cons.IH [OF _ p(2) length_editar [OF Cons.prems(3)] p(4,5)] Cons.prems(1) p(1,3) by auto
qed auto

text \<open>
  C34: \<open>readline\<close> is a line editor: it returns the text that the keys spell, with every rubout
  applied, cut at 1023 characters and terminated; it writes nothing past its buffer; and
  the text it returns is what is left on the screen, from where the cursor was, with
  nothing after it, however many rows the screen scrolled.
\<close>

theorem readline_edita:
  assumes "\<forall>c\<in>set cs. tecla_de_linea c" "fin = 10 \<or> fin = 13" "ventana t k" "\<forall>i\<ge>sitio t. tinta t i = 0x0720"
  shows "\<exists>m' k' t'. readline None (cs @ fin # resto) m k = Some (Linea, m', k')
    \<and> (let l = fold editar cs [] in es_cadena m' 0 l \<and> length l < READ_BUFLEN \<and> (\<forall>i\<ge>READ_BUFLEN. m' i = m i)
       \<and> ventana t' k' \<and> (\<forall>i<length l. tinta t' (sitio t + i) = celda (l ! i))
       \<and> (\<forall>i\<ge>sitio t + length l. tinta t' i = 0x0720) \<and> sitio t' = ((sitio t + length l) div CRT_COLS + 1) * CRT_COLS)"
proof -
  let ?l = "fold editar cs []"
  have r: "renglon t (sitio t) []" using assms(3,4) by (simp add: renglon_def muestra_def)
  obtain m1 k1 t1 where b: "readline_bucle (cs @ fin # resto) 0 m k = readline_bucle (fin # resto) (length ?l) m1 k1"
    "en_buffer m1 ?l" "length ?l < READ_BUFLEN" "\<forall>i\<ge>READ_BUFLEN. m1 i = m i" "ventana t1 k1" "renglon t1 (sitio t) ?l"
    using readline_bucle_edita [OF assms(1) _ _ assms(3) r, of m "fin # resto"]
    by (simp add: en_buffer_def READ_BUFLEN_def) blast
  have e: "readline None (cs @ fin # resto) m k = Some (Linea, m1(length ?l := NUL), cputchar 10 k1)"
    using b(1) assms(2) by (auto simp: readline_def)
  have n: "ventana (teclear 10 t1) (cputchar 10 k1)" using cputchar_cinta [OF b(5), of "[10]"] by simp
  have "es_cadena (m1(length ?l := NUL)) 0 ?l" using b(2) by (simp add: es_cadena_def en_buffer_def)
  moreover have "sitio (teclear 10 t1) = (sitio t1 div CRT_COLS + 1) * CRT_COLS \<and> tinta (teclear 10 t1) = tinta t1"
    by (simp add: teclear_def bajar_def)
  ultimately show ?thesis using e n b(3,4,6) unfolding renglon_def Let_def by (auto simp: fun_upd_apply)
qed

text \<open>An "h", an "x" that is rubbed out, an "i", and the end of the line.\<close>

lemma readline_edita_witness:
  "\<exists>m' k'. readline None [104, 120, 8, 105, 13] (\<lambda>_. NUL) k_pantalla = Some (Linea, m', k') \<and> es_cadena m' 0 ''hi''"
proof -
  let ?t = "\<lparr>tinta = (\<lambda>_. 0x0720), sitio = 1999, borde = 0\<rparr>"
  have v: "ventana ?t k_pantalla" "\<forall>i\<ge>sitio ?t. tinta ?t i = 0x0720" by (simp_all add: muestra_def k_pantalla_def crt_defs)
  have t: "\<forall>c\<in>set [104, 120, 8, 105 :: int]. tecla_de_linea c" by (simp add: tecla_de_linea_def)
  have "fold editar [104, 120, 8, 105] [] = ''hi''" by (simp add: editar_def READ_BUFLEN_def char_of_def bit_0)
  then show ?thesis
    using readline_edita [OF t _ v, of 13 "[]" "\<lambda>_. NUL"] by (simp add: Let_def del: readline_bucle.simps) blast
qed

section \<open>The words of a line\<close>

definition blanco :: "char \<Rightarrow> bool" where
  "blanco c \<longleftrightarrow> c \<in> set WHITESPACE"

function palabras :: "string \<Rightarrow> string list" where
  "palabras s =
     (case dropWhile blanco s of
        [] \<Rightarrow> []
      | c # cs \<Rightarrow> (c # takeWhile (\<lambda>c. \<not> blanco c) cs) # palabras (dropWhile (\<lambda>c. \<not> blanco c) cs))"
  by pat_completeness auto

termination
proof (relation "measure length", simp)
  fix s c cs assume "dropWhile blanco s = c # cs"
  then have "Suc (length cs) \<le> length s" by (metis length_Cons length_dropWhile_le)
  moreover have "length (dropWhile (\<lambda>c. \<not> blanco c) cs) \<le> length cs" by (rule length_dropWhile_le)
  ultimately show "(dropWhile (\<lambda>c. \<not> blanco c) cs, s) \<in> measure length" by simp
qed

declare palabras.simps [simp del]

lemma es_cadena_Nil [simp]: "es_cadena m b [] \<longleftrightarrow> m b = NUL"
  by (simp add: es_cadena_def)

lemma es_cadena_Cons: "es_cadena m b (c # s) \<longleftrightarrow> m b = c \<and> es_cadena m (b + 1) s"
  by (auto simp: es_cadena_def nth_Cons split: nat.splits)

text \<open>Blanks become NUL.\<close>

definition tapar :: "nat \<Rightarrow> nat \<Rightarrow> memoria \<Rightarrow> memoria" where
  "tapar b n m = (\<lambda>i. if b \<le> i \<and> i < b + n then NUL else m i)"

lemma tapar_nada [simp]: "tapar b 0 m = m"
  by (rule ext) (auto simp: tapar_def)

lemma es_cadena_fuera: "es_cadena m b s \<Longrightarrow> (\<forall>i\<ge>b. m' i = m i) \<Longrightarrow> es_cadena m' b s"
  by (simp add: es_cadena_def)

lemma comer_blancos_cadena:
  "es_cadena m b s \<Longrightarrow> cstring s
   \<Longrightarrow> comer_blancos m b = Some (tapar b (length (takeWhile blanco s)) m, b + length (takeWhile blanco s))"
proof (induction s arbitrary: m b)
  case Nil
  then show ?case by (subst comer_blancos.simps) simp
next
  case (Cons c s)
  then have c: "m b = c" "c \<noteq> NUL" "cstring s" "es_cadena m (b + 1) s" by (auto simp: es_cadena_Cons cstring_def NUL_def)
  show ?case
  proof (cases "blanco c")
    case True
    then have w: "c \<in> set WHITESPACE" by (simp add: blanco_def)
    have "es_cadena (m(b := NUL)) (b + 1) s" using c(4) by (rule es_cadena_fuera) simp
    note ih = Cons.IH [OF this c(3)]
    have "comer_blancos m b
        = Some (tapar (b + 1) (length (takeWhile blanco s)) (m(b := NUL)), b + 1 + length (takeWhile blanco s))"
      by (subst comer_blancos.simps) (simp only: c(1,2) w ih if_True simp_thms)
    moreover have "tapar (b + 1) n (m(b := NUL)) = tapar b (Suc n) m" for n by (auto simp: tapar_def)
    ultimately show ?thesis using True by simp
  next
    case False
    then show ?thesis using c by (subst comer_blancos.simps) (simp add: blanco_def)
  qed
qed

lemma es_cadena_resto:
  assumes "es_cadena m b s" "n \<le> length s"
  shows "es_cadena m (b + n) (drop n s)"
  using assms by (auto simp: es_cadena_def add.assoc)

lemma saltar_palabra_cadena:
  "es_cadena m b s \<Longrightarrow> cstring s \<Longrightarrow> saltar_palabra m b = Some (b + length (takeWhile (\<lambda>c. \<not> blanco c) s))"
proof (induction s arbitrary: b)
  case Nil
  then show ?case by (subst saltar_palabra.simps) simp
next
  case (Cons c s)
  then have c: "m b = c" "c \<noteq> NUL" "cstring s" "es_cadena m (b + 1) s" by (auto simp: es_cadena_Cons cstring_def NUL_def)
  from Cons.IH [OF c(4,3)] show ?case using c by (subst saltar_palabra.simps) (auto simp: blanco_def)
qed

text \<open>
  The words found so far, each an address and a text: ended by a NUL before \<open>b\<close>, or by what
  is at \<open>b\<close>, which is the end of the line or a blank that is about to become a NUL.
\<close>

definition hallada :: "memoria \<Rightarrow> nat \<Rightarrow> string \<Rightarrow> nat \<Rightarrow> string \<Rightarrow> bool" where
  "hallada m b s a w \<longleftrightarrow> (\<forall>i<length w. m (a + i) = w ! i) \<and> a + length w \<le> b
     \<and> (if a + length w = b then s = [] \<or> blanco (hd s) else m (a + length w) = NUL)"

lemma hallada_tapar:
  assumes "hallada m b s a w" "es_cadena m b s"
  shows "es_cadena (tapar b (length (takeWhile blanco s)) m) a w"
    "dropWhile blanco s \<noteq> [] \<Longrightarrow> a + length w < b + length (takeWhile blanco s)"
  using assms by (cases s; auto simp: hallada_def es_cadena_def tapar_def split: if_splits)+

lemma tapar_resto:
  assumes "es_cadena m b s" "cstring s"
  shows "es_cadena (tapar b (length (takeWhile blanco s)) m) (b + length (takeWhile blanco s)) (dropWhile blanco s)"
    "cstring (dropWhile blanco s)"
proof -
  show "cstring (dropWhile blanco s)" using assms(2) by (auto simp: cstring_def dest: set_dropWhileD)
  have "es_cadena m (b + length (takeWhile blanco s)) (dropWhile blanco s)"
    using es_cadena_resto [OF assms(1) length_takeWhile_le] by (simp add: dropWhile_eq_drop)
  then show "es_cadena (tapar b (length (takeWhile blanco s)) m) (b + length (takeWhile blanco s)) (dropWhile blanco s)"
    by (rule es_cadena_fuera) (simp add: tapar_def)
qed

text \<open>One word more: \<open>s\<close> is the text at \<open>b\<close>, a word and what follows it.\<close>

lemma hallada_palabra:
  assumes "es_cadena m b s" "cstring s" "w = takeWhile (\<lambda>c. \<not> blanco c) s" "r = dropWhile (\<lambda>c. \<not> blanco c) s"
  shows "es_cadena m (b + length w) r" "cstring r" "hallada m (b + length w) r b w"
proof -
  have n: "length w \<le> length s" using length_takeWhile_le assms(3) by metis
  show "cstring r" using assms(2,4) by (auto simp: cstring_def dest: set_dropWhileD)
  show "es_cadena m (b + length w) r" using es_cadena_resto [OF assms(1) n] assms(3,4) by (simp add: dropWhile_eq_drop)
  have "w ! i = s ! i" if "i < length w" for i using takeWhile_nth that assms(3) by metis
  then have "\<forall>i<length w. m (b + i) = w ! i" using assms(1) n by (simp add: es_cadena_def)
  moreover have "r = [] \<or> blanco (hd r)" using hd_dropWhile [of "\<lambda>c. \<not> blanco c" s] assms(4) by blast
  ultimately show "hallada m (b + length w) r b w" by (simp add: hallada_def)
qed

lemma trocear_cadena:
  "es_cadena m b s \<Longrightarrow> cstring s \<Longrightarrow> list_all2 (hallada m b s) argv ws \<Longrightarrow> length ws \<le> MON_MAXARGS - 1
   \<Longrightarrow> \<exists>m' r. trocear m b argv = Some (m', r)
     \<and> (if MON_MAXARGS - 1 < length (ws @ palabras s) then r = None
        else \<exists>as. r = Some as \<and> list_all2 (es_cadena m') as (ws @ palabras s))"
proof (induction s arbitrary: m b argv ws rule: palabras.induct)
  case (1 s)
  let ?m = "tapar b (length (takeWhile blanco s)) m" and ?b = "b + length (takeWhile blanco s)" and ?s = "dropWhile blanco s"
  note eat = comer_blancos_cadena [OF "1.prems"(1,2)]
  note rest = tapar_resto [OF "1.prems"(1,2)]
  have all: "list_all2 (es_cadena ?m) argv ws"
    using "1.prems"(3) hallada_tapar(1) [OF _ "1.prems"(1)] by (auto elim: list_all2_mono)
  show ?case
  proof (cases ?s)
    case Nil
    have "palabras s = []" by (subst palabras.simps) (simp only: Nil list.case)
    moreover have "?m ?b = NUL" using rest(1) unfolding Nil by simp
    ultimately show ?thesis using eat all "1.prems"(4) by (subst trocear.simps) (auto simp: not_less)
  next
    case (Cons c t)
    let ?w = "c # takeWhile (\<lambda>c. \<not> blanco c) t" and ?r = "dropWhile (\<lambda>c. \<not> blanco c) t"
    have c: "\<not> blanco c" using hd_dropWhile [of blanco s] Cons by simp
    have nn: "?m ?b \<noteq> NUL" using rest Cons by (auto simp: es_cadena_Cons cstring_def NUL_def)
    have pal: "palabras s = ?w # palabras ?r" by (subst palabras.simps) (simp only: Cons list.case)
    show ?thesis
    proof (cases "length argv = MON_MAXARGS - 1")
      case True
      then have "MON_MAXARGS - 1 < length (ws @ palabras s)" using list_all2_lengthD [OF "1.prems"(3)] pal by simp
      then show ?thesis using eat nn True by (subst trocear.simps) auto
    next
      case False
      let ?b' = "?b + length ?w"
      have w: "?w = takeWhile (\<lambda>c. \<not> blanco c) ?s" "?r = dropWhile (\<lambda>c. \<not> blanco c) ?s" using c Cons by simp_all
      note word = hallada_palabra [OF rest w]
      have jump: "saltar_palabra ?m ?b = Some ?b'" using saltar_palabra_cadena [OF rest] unfolding w(1) [symmetric] .
      have "list_all2 (hallada ?m ?b' ?r) argv ws"
        using "1.prems"(3) hallada_tapar [OF _ "1.prems"(1)] Cons
        by (elim list_all2_mono) (force simp: hallada_def es_cadena_def)
      then have new: "list_all2 (hallada ?m ?b' ?r) (argv @ [?b]) (ws @ [?w])" using word(3) by (intro list_all2_appendI) auto
      have len: "length (ws @ [?w]) \<le> MON_MAXARGS - 1"
        using False "1.prems"(4) list_all2_lengthD [OF "1.prems"(3)] by simp
      have "trocear m b argv = trocear ?m ?b' (argv @ [?b])" using eat nn False jump by (subst trocear.simps) simp
      then show ?thesis using "1.IH" [OF Cons word(1,2) new len] unfolding pal append_assoc append_Cons append_Nil
        by (simp only:)
    qed
  qed
qed

text \<open>
  The monitor splits the line into its words. For every line of text the loop of
  \<open>runcmd\<close> ends; with at most 15 words \<open>argv\<close> points at each word in order, and each is a
  terminated string in the buffer; with more it reports too many arguments.
\<close>

theorem runcmd_palabras:
  assumes "es_cadena m 0 s" "cstring s"
  shows "\<exists>m' r. trocear m 0 [] = Some (m', r)
    \<and> (if length (palabras s) < MON_MAXARGS then \<exists>argv. r = Some argv \<and> list_all2 (es_cadena m') argv (palabras s) else r = None)"
  using trocear_cadena [OF assms, of "[]" "[]"] by (auto simp: MON_MAXARGS_def split: if_splits)

lemma runcmd_palabras_witness:
  "\<exists>m' a b. trocear (\<lambda>i. if i < 6 then '' ls -a'' ! i else NUL) 0 [] = Some (m', Some [a, b]) \<and> es_cadena m' a ''ls'' \<and> es_cadena m' b ''-a''"
proof -
  let ?m = "\<lambda>i. if i < 6 then '' ls -a'' ! i else NUL"
  have m: "es_cadena ?m 0 '' ls -a''" "cstring '' ls -a''" by (simp_all add: es_cadena_def cstring_def)
  have p: "palabras '' ls -a'' = [''ls'', ''-a'']" by (simp add: palabras.simps blanco_def WHITESPACE_def)
  show ?thesis using runcmd_palabras [OF m] unfolding p by (auto simp: MON_MAXARGS_def list_all2_Cons2)
qed

end
