(* ===== verification/Kdebug.thy ===== *)
theory Kdebug
  imports Strings Mmu
begin

text \<open>
  The symbol lookup of back traces: \<open>TP2-sched/kern/kdebug.c\<close> over the tables of
  \<open>inc/stab.h\<close>. A table of stabs is a function of the index, the table of strings a memory
  that starts at 0. Loops that may not end are partial functions. Whether the tables of a
  user program can be read, and what they are, is an argument.
\<close>

record stab =
  n_strx :: uint32
  n_type :: "8 word"
  n_other :: "8 word"
  n_desc :: "16 word"
  n_value :: uint32

definition N_FUN :: "8 word" where "N_FUN = 0x24"
definition N_SLINE :: "8 word" where "N_SLINE = 0x44"
definition N_SO :: "8 word" where "N_SO = 0x64"
definition N_SOL :: "8 word" where "N_SOL = 0x84"
definition N_PSYM :: "8 word" where "N_PSYM = 0xA0"

section \<open>stab_binsearch\<close>

text \<open>The two scans towards smaller indices.\<close>

function atras_tipo :: "(int \<Rightarrow> stab) \<Rightarrow> 8 word \<Rightarrow> int \<Rightarrow> int \<Rightarrow> int" where
  "atras_tipo stabs tipo l m =
     (if m \<ge> l \<and> n_type (stabs m) \<noteq> tipo then atras_tipo stabs tipo l (m - 1) else m)"
  by pat_completeness auto

termination
  by (relation "measure (\<lambda>(_, _, l, m). nat (m - l + 1))") auto

function mas_a_la_derecha :: "(int \<Rightarrow> stab) \<Rightarrow> 8 word \<Rightarrow> int \<Rightarrow> int \<Rightarrow> int" where
  "mas_a_la_derecha stabs tipo left l =
     (if l > left \<and> n_type (stabs l) \<noteq> tipo then mas_a_la_derecha stabs tipo left (l - 1) else l)"
  by pat_completeness auto

termination
  by (relation "measure (\<lambda>(_, _, left, l). nat (l - left))") auto

declare atras_tipo.simps [simp del] mas_a_la_derecha.simps [simp del]

text \<open>The search; \<open>left\<close> and \<open>right\<close> are \<open>*region_left\<close> and \<open>*region_right\<close>.\<close>

partial_function (option) binsearch_bucle ::
    "(int \<Rightarrow> stab) \<Rightarrow> 8 word \<Rightarrow> int \<Rightarrow> int \<Rightarrow> uint32 \<Rightarrow> int \<Rightarrow> int \<Rightarrow> bool \<Rightarrow> (int \<times> int \<times> bool) option" where
  "binsearch_bucle stabs tipo l r addr left right any_matches =
     (if l \<le> r then
        (let true_m = (l + r) div 2; m = atras_tipo stabs tipo l true_m in
         if m < l then binsearch_bucle stabs tipo (true_m + 1) r addr left right any_matches
         else if n_value (stabs m) < addr then binsearch_bucle stabs tipo (true_m + 1) r addr m right True
         else if n_value (stabs m) > addr then binsearch_bucle stabs tipo l (m - 1) addr left (m - 1) True
         else binsearch_bucle stabs tipo m r (addr + 1) m right True)
      else Some (left, right, any_matches))"

definition stab_binsearch :: "(int \<Rightarrow> stab) \<Rightarrow> int \<Rightarrow> int \<Rightarrow> 8 word \<Rightarrow> uint32 \<Rightarrow> (int \<times> int) option" where
  "stab_binsearch stabs left right tipo addr =
     do {
       (left, right, any_matches) \<leftarrow> binsearch_bucle stabs tipo left right addr left right False;
       if \<not> any_matches then Some (left, left - 1)
       else Some (mas_a_la_derecha stabs tipo left right, right)
     }"

section \<open>debuginfo_eip\<close>

record tabla_stabs =
  stabs :: "int \<Rightarrow> stab"
  n_stabs :: int
  stabstr :: memoria
  stabstr_len :: nat

text \<open>A name is an index of the table of strings, or none for \<open>"<unknown>"\<close>.\<close>

record eipdebuginfo =
  eip_file :: "nat option"
  eip_line :: int
  eip_fn_name :: "nat option"
  eip_fn_namelen :: nat
  eip_fn_addr :: uint32
  eip_fn_narg :: int

definition info_inicial :: "uint32 \<Rightarrow> eipdebuginfo" where
  "info_inicial addr =
     \<lparr>eip_file = None, eip_line = 0, eip_fn_name = None, eip_fn_namelen = 9, eip_fn_addr = addr, eip_fn_narg = 0\<rparr>"

function atras_archivo :: "(int \<Rightarrow> stab) \<Rightarrow> int \<Rightarrow> int \<Rightarrow> int" where
  "atras_archivo st lfile lline =
     (if lline \<ge> lfile \<and> n_type (st lline) \<noteq> N_SOL \<and> (n_type (st lline) \<noteq> N_SO \<or> n_value (st lline) = 0)
      then atras_archivo st lfile (lline - 1) else lline)"
  by pat_completeness auto

termination
  by (relation "measure (\<lambda>(_, lfile, lline). nat (lline - lfile + 1))") auto

function contar_args :: "(int \<Rightarrow> stab) \<Rightarrow> int \<Rightarrow> int \<Rightarrow> int \<Rightarrow> int" where
  "contar_args st lline rfun n =
     (if lline < rfun \<and> n_type (st lline) = N_PSYM then contar_args st (lline + 1) rfun (n + 1) else n)"
  by pat_completeness auto

termination
  by (relation "measure (\<lambda>(_, lline, rfun, _). nat (rfun - lline))") auto

declare atras_archivo.simps [simp del] contar_args.simps [simp del]

text \<open>\<open>strfind(name, ':') - name\<close>; the text \<open>"<unknown>"\<close> has no colon and nine characters.\<close>

definition largo_nombre :: "memoria \<Rightarrow> nat option \<Rightarrow> nat option" where
  "largo_nombre m nombre =
     (case nombre of None \<Rightarrow> Some 9 | Some p \<Rightarrow> do { q \<leftarrow> strfind m p (CHR 0x3A); Some (q - p) })"

definition debuginfo_eip :: "tabla_stabs \<Rightarrow> tabla_stabs option \<Rightarrow> uint32 \<Rightarrow> (int \<times> eipdebuginfo) option" where
  "debuginfo_eip del_kernel del_usuario addr =
     (let info = info_inicial addr in
      case (if addr \<ge> ULIM then Some del_kernel else del_usuario) of
        None \<Rightarrow> Some (-1, info)
      | Some t \<Rightarrow>
          if stabstr_len t = 0 \<or> stabstr t (stabstr_len t - 1) \<noteq> NUL then Some (-1, info)
          else do {
            (lfile, rfile) \<leftarrow> stab_binsearch (stabs t) 0 (n_stabs t - 1) N_SO addr;
            if lfile = 0 then Some (-1, info)
            else do {
              (lfun, rfun) \<leftarrow> stab_binsearch (stabs t) lfile rfile N_FUN addr;
              let (info, addr, lline, rline) =
                (if lfun \<le> rfun then
                   (info\<lparr>eip_fn_name := (if unat (n_strx (stabs t lfun)) < stabstr_len t
                                         then Some (unat (n_strx (stabs t lfun))) else None),
                         eip_fn_addr := n_value (stabs t lfun)\<rparr>,
                    addr - n_value (stabs t lfun), lfun, rfun)
                 else (info\<lparr>eip_fn_addr := addr\<rparr>, addr, lfile, rfile));
              len \<leftarrow> largo_nombre (stabstr t) (eip_fn_name info);
              (lline, rline) \<leftarrow> stab_binsearch (stabs t) lline rline N_SLINE addr;
              let linea = (if lline \<le> rline then uint (n_desc (stabs t lline)) else 0);
                  arch = atras_archivo (stabs t) lfile lline;
                  nombre = (if arch \<ge> lfile \<and> unat (n_strx (stabs t arch)) < stabstr_len t
                            then Some (unat (n_strx (stabs t arch))) else None);
                  narg = (if lfun < rfun then contar_args (stabs t) (lfun + 1) rfun 0 else 0)
              in Some (0, info\<lparr>eip_fn_namelen := len, eip_line := linea, eip_file := nombre, eip_fn_narg := narg\<rparr>)
            }
          })"

end
