(* ===== verification/Kdebug_Claims.thy ===== *)
theory Kdebug_Claims
  imports Kdebug
begin

text \<open>
  The binary search of \<open>kern/kdebug.c\<close>: it always ends, and on a table whose stabs of the
  type are in order it gives the last one at or before the address and the end of its
  region, provided no stab of the type is exactly one byte after one that is at the address.
\<close>

section \<open>The scans\<close>

lemma atras_tipo:
  "l \<le> m + 1 \<Longrightarrow> l - 1 \<le> atras_tipo st ty l m \<and> atras_tipo st ty l m \<le> m
   \<and> (l \<le> atras_tipo st ty l m \<longrightarrow> n_type (st (atras_tipo st ty l m)) = ty)
   \<and> (\<forall>i. atras_tipo st ty l m < i \<and> i \<le> m \<longrightarrow> n_type (st i) \<noteq> ty)"
proof (induction st ty l m rule: atras_tipo.induct)
  case (1 st ty l m)
  show ?case
  proof (cases "m \<ge> l \<and> n_type (st m) \<noteq> ty")
    case True
    then have e: "atras_tipo st ty l m = atras_tipo st ty l (m - 1)" by (subst atras_tipo.simps) simp
    show ?thesis using "1.IH" [OF True] True unfolding e by (auto simp: order_le_less)
  next
    case False
    then have e: "atras_tipo st ty l m = m" by (subst atras_tipo.simps) (simp only: if_False)
    show ?thesis using False "1.prems" unfolding e by auto
  qed
qed

lemma mas_a_la_derecha:
  "(\<forall>i. left < i \<and> i \<le> r \<longrightarrow> n_type (st i) \<noteq> ty) \<Longrightarrow> mas_a_la_derecha st ty left r = (if r < left then r else left)"
proof (induction st ty left r rule: mas_a_la_derecha.induct)
  case (1 st ty left r)
  show ?case
  proof (cases "r > left")
    case True
    then have "n_type (st r) \<noteq> ty" using "1.prems" by simp
    then have "mas_a_la_derecha st ty left r = (if r - 1 < left then r - 1 else left)"
      using "1.IH" "1.prems" True by (subst mas_a_la_derecha.simps) simp
    then show ?thesis using True by simp
  next
    case False
    then show ?thesis by (subst mas_a_la_derecha.simps) simp
  qed
qed

section \<open>Termination\<close>

text \<open>The stab the search is about to compare is exactly at the address.\<close>

definition exacto :: "(int \<Rightarrow> stab) \<Rightarrow> 8 word \<Rightarrow> int \<Rightarrow> int \<Rightarrow> uint32 \<Rightarrow> bool" where
  "exacto st ty l r addr \<longleftrightarrow> n_value (st (atras_tipo st ty l ((l + r) div 2))) = addr"

definition medida :: "(int \<Rightarrow> stab) \<Rightarrow> 8 word \<Rightarrow> int \<Rightarrow> int \<Rightarrow> uint32 \<Rightarrow> nat" where
  "medida st ty l r addr = 2 * nat (r - l + 1) + (if exacto st ty l r addr then 1 else 0)"

lemma medida_menos: "nat (r' - l' + 1) < nat (r - l + 1) \<Longrightarrow> medida st ty l' r' a' < medida st ty l r a"
  unfolding medida_def by (auto simp del: zless_nat_conj nat_less_eq_zless)

text \<open>One turn of the loop, with the facts of the three cases that compare.\<close>

lemma bucle_casos [consumes 1, case_names nada menor mayor igual]:
  assumes "l \<le> r"
  obtains
    (nada) "\<forall>i. l \<le> i \<and> i \<le> (l + r) div 2 \<longrightarrow> n_type (st i) \<noteq> ty"
      "\<And>left right any. binsearch_bucle st ty l r addr left right any
         = binsearch_bucle st ty ((l + r) div 2 + 1) r addr left right any"
  | (menor) m where "l \<le> m" "m \<le> (l + r) div 2" "n_type (st m) = ty" "\<forall>i. m < i \<and> i \<le> (l + r) div 2 \<longrightarrow> n_type (st i) \<noteq> ty"
      "n_value (st m) < addr"
      "\<And>left right any. binsearch_bucle st ty l r addr left right any
         = binsearch_bucle st ty ((l + r) div 2 + 1) r addr m right True"
  | (mayor) m where "l \<le> m" "m \<le> (l + r) div 2" "n_type (st m) = ty" "addr < n_value (st m)"
      "\<And>left right any. binsearch_bucle st ty l r addr left right any = binsearch_bucle st ty l (m - 1) addr left (m - 1) True"
  | (igual) m where "l \<le> m" "m \<le> (l + r) div 2" "n_type (st m) = ty" "\<forall>i. m < i \<and> i \<le> (l + r) div 2 \<longrightarrow> n_type (st i) \<noteq> ty"
      "n_value (st m) = addr" "m = atras_tipo st ty l ((l + r) div 2)"
      "\<And>left right any. binsearch_bucle st ty l r addr left right any = binsearch_bucle st ty m r (addr + 1) m right True"
proof -
  let ?m = "atras_tipo st ty l ((l + r) div 2)"
  have le: "l \<le> (l + r) div 2 + 1" using assms by simp
  note a = atras_tipo [OF le, of st ty]
  note b = binsearch_bucle.simps [of st ty l r addr]
  show thesis
  proof (cases "?m < l")
    case True
    then show ?thesis using a assms by (intro nada) (auto simp: b Let_def)
  next
    case F: False
    consider "n_value (st ?m) < addr" | "addr < n_value (st ?m)" | "n_value (st ?m) = addr" by fastforce
    then show ?thesis
    proof cases
      case 1
      then show ?thesis using F a assms by (intro menor [of ?m]) (auto simp: b Let_def)
    next
      case 2
      then show ?thesis using F a assms by (intro mayor [of ?m]) (auto simp: b Let_def)
    next
      case 3
      then show ?thesis using F a assms by (intro igual [of ?m]) (auto simp: b Let_def)
    qed
  qed
qed

lemma medida_igual:
  assumes "l \<le> r" "m = atras_tipo st ty l ((l + r) div 2)" "l \<le> m" "m \<le> (l + r) div 2" "n_value (st m) = addr"
  shows "medida st ty m r (addr + 1) < medida st ty l r addr"
proof (cases "m = l")
  case True
  then have "exacto st ty l r addr" "\<not> exacto st ty l r (addr + 1)" using assms by (simp_all add: exacto_def)
  then show ?thesis using True by (simp add: medida_def)
next
  case False
  then show ?thesis using assms by (intro medida_menos) auto
qed

lemma binsearch_bucle_termina: "\<exists>x. binsearch_bucle st ty l r addr left right any = Some x"
proof (induction "medida st ty l r addr" arbitrary: l r addr left right any rule: less_induct)
  case less
  show ?case
  proof (cases "l \<le> r")
    case True
    then show ?thesis
    proof (cases rule: bucle_casos [where st = st and ty = ty and addr = addr])
      case nada
      then show ?thesis using less [of "(l + r) div 2 + 1" r addr] True by (simp add: medida_menos)
    next
      case (menor m)
      then show ?thesis using less [of "(l + r) div 2 + 1" r addr] True by (simp add: medida_menos)
    next
      case (mayor m)
      then show ?thesis using less [of l "m - 1" addr] True by (simp add: medida_menos)
    next
      case (igual m)
      then show ?thesis using less [of m r "addr + 1"] True medida_igual by simp
    qed
  next
    case False
    then show ?thesis by (subst binsearch_bucle.simps) simp
  qed
qed

lemma stab_binsearch_total: "\<exists>x. stab_binsearch st left right ty addr = Some x"
  using binsearch_bucle_termina [of st ty left right addr left right False]
  by (auto simp: stab_binsearch_def split: if_splits)

text \<open>
  C36: \<open>stab_binsearch\<close> always returns, on every table, in order or not, and for every address:
  after an exact match the same stab is compared with the next address, so no turn repeats.
\<close>

theorem stab_binsearch_termina: "\<exists>l r. stab_binsearch st left right ty addr = Some (l, r)"
  using stab_binsearch_total [of st left right ty addr] by auto

section \<open>Correctness\<close>

text \<open>The stabs of the type in the region, and when the search can trust the table.\<close>

definition marca :: "(int \<Rightarrow> stab) \<Rightarrow> 8 word \<Rightarrow> int \<Rightarrow> int \<Rightarrow> int \<Rightarrow> bool" where
  "marca st ty L R i \<longleftrightarrow> L \<le> i \<and> i \<le> R \<and> n_type (st i) = ty"

definition ordenada :: "(int \<Rightarrow> stab) \<Rightarrow> 8 word \<Rightarrow> int \<Rightarrow> int \<Rightarrow> bool" where
  "ordenada st ty L R \<longleftrightarrow>
     (\<forall>i j. marca st ty L R i \<and> marca st ty L R j \<and> i < j \<longrightarrow> n_value (st i) \<le> n_value (st j))"

definition sin_siguiente :: "(int \<Rightarrow> stab) \<Rightarrow> 8 word \<Rightarrow> int \<Rightarrow> int \<Rightarrow> uint32 \<Rightarrow> bool" where
  "sin_siguiente st ty L R a \<longleftrightarrow>
     (\<forall>i j. marca st ty L R i \<and> marca st ty L R j \<and> n_value (st i) = a \<longrightarrow> n_value (st j) \<noteq> a + 1)"

text \<open>What the search knows: on the left of \<open>l\<close>, on the right of \<open>r\<close>, and the best stab so far.\<close>

definition lados where
  "lados st ty L R a l r \<longleftrightarrow> L \<le> l \<and> l \<le> r + 1 \<and> r \<le> R
     \<and> (\<forall>i. marca st ty L R i \<and> i < l \<longrightarrow> n_value (st i) \<le> a)
     \<and> (\<forall>i. marca st ty L R i \<and> r < i \<longrightarrow> a < n_value (st i))"

definition mejor where
  "mejor st ty L R a l r left any \<longleftrightarrow>
     marca st ty L R left \<and> n_value (st left) \<le> a \<and> left \<le> l \<and> (\<forall>i. marca st ty L R i \<and> left < i \<longrightarrow> l \<le> i) \<and> any
     \<or> left = L \<and> (\<forall>i. marca st ty L R i \<longrightarrow> l \<le> i) \<and> (any \<longrightarrow> r < R)"

definition comparado where
  "comparado st ty L R a addr \<longleftrightarrow> addr = a \<or> addr = a + 1 \<and> (\<exists>i. marca st ty L R i \<and> n_value (st i) = a)"

definition busca_inv where
  "busca_inv st ty L R a l r addr left right any \<longleftrightarrow>
     lados st ty L R a l r \<and> mejor st ty L R a l r left any \<and> comparado st ty L R a addr \<and> right = r
     \<and> (r < R \<longrightarrow> marca st ty L R (r + 1) \<and> any)"

text \<open>Comparing with the address, or with the next one after an exact match, is the same.\<close>

lemma comparar:
  assumes "a < a + 1" "sin_siguiente st ty L R a" "marca st ty L R m"
    and "comparado st ty L R a addr"
  shows "n_value (st m) < addr \<Longrightarrow> n_value (st m) \<le> a" "addr < n_value (st m) \<Longrightarrow> a < n_value (st m)"
    "n_value (st m) = addr \<Longrightarrow> n_value (st m) = a \<and> addr = a"
proof -
  have "1 + a \<noteq> 0" using assms(1) by (auto simp: add.commute)
  then have u: "unat (a + 1) = unat a + 1" using unatSuc [of a] by (simp add: add.commute [of 1 a])
  show "n_value (st m) < addr \<Longrightarrow> n_value (st m) \<le> a" "addr < n_value (st m) \<Longrightarrow> a < n_value (st m)"
    using assms(4) u by (auto simp: comparado_def word_less_nat_alt word_le_nat_alt)
  show "n_value (st m) = addr \<Longrightarrow> n_value (st m) = a \<and> addr = a"
    using assms(2-4) by (auto simp: comparado_def sin_siguiente_def)
qed

lemma binsearch_bucle_inv:
  assumes a: "a < a + 1" "sin_siguiente st ty L R a" and o: "ordenada st ty L R"
  shows "busca_inv st ty L R a l r addr left right any
    \<Longrightarrow> \<exists>l' r' addr' left' right' any'. binsearch_bucle st ty l r addr left right any = Some (left', right', any')
      \<and> r' < l' \<and> busca_inv st ty L R a l' r' addr' left' right' any'"
proof (induction "medida st ty l r addr" arbitrary: l r addr left right any rule: less_induct)
  case less
  have inv: "lados st ty L R a l r" "mejor st ty L R a l r left any" and cmp: "comparado st ty L R a addr"
    and rr: "right = r" "r < R \<longrightarrow> marca st ty L R (r + 1) \<and> any"
    using less.prems by (simp_all add: busca_inv_def)
  have ord: "marca st ty L R i \<Longrightarrow> marca st ty L R j \<Longrightarrow> i \<le> j \<Longrightarrow> n_value (st i) \<le> n_value (st j)" for i j
    using o unfolding ordenada_def by (cases "i = j") auto
  show ?case
  proof (cases "l \<le> r")
    case True
    let ?t = "(l + r) div 2"
    have t: "l \<le> ?t" "?t \<le> r" using True by simp_all
    show ?thesis
      using True
    proof (cases rule: bucle_casos [where st = st and ty = ty and addr = addr])
      case nada
      have k: "marca st ty L R i \<Longrightarrow> l \<le> i \<Longrightarrow> ?t + 1 \<le> i" for i using nada(1) by (force simp: marca_def)
      have "lados st ty L R a (?t + 1) r" using inv(1) k t unfolding lados_def by fastforce
      moreover have "mejor st ty L R a (?t + 1) r left any" using inv(2) k t unfolding mejor_def by fastforce
      ultimately have "busca_inv st ty L R a (?t + 1) r addr left right any" using cmp rr by (simp add: busca_inv_def)
      then show ?thesis using less.hyps [of "?t + 1" r addr] True nada(2) by (simp add: medida_menos)
    next
      case (menor m)
      have m: "marca st ty L R m" using inv(1) menor t by (simp add: marca_def lados_def)
      have le: "n_value (st m) \<le> a" using comparar(1) [OF a m cmp] menor by blast
      have k: "marca st ty L R i \<Longrightarrow> m < i \<Longrightarrow> ?t + 1 \<le> i" for i using menor(4) by (force simp: marca_def)
      have kk: "marca st ty L R i \<Longrightarrow> i \<le> m \<Longrightarrow> n_value (st i) \<le> a" for i using ord [OF _ m] le by (rule order_trans)
      have "lados st ty L R a (?t + 1) r" using inv(1) k kk t unfolding lados_def by fastforce
      moreover have "mejor st ty L R a (?t + 1) r m True" using m le k menor(2) unfolding mejor_def by fastforce
      ultimately have "busca_inv st ty L R a (?t + 1) r addr m right True" using cmp rr by (simp add: busca_inv_def)
      then show ?thesis using less.hyps [of "?t + 1" r addr] True menor(6) by (simp add: medida_menos)
    next
      case (mayor m)
      have m: "marca st ty L R m" using inv(1) mayor t by (simp add: marca_def lados_def)
      have less': "a < n_value (st m)" using comparar(2) [OF a m cmp] mayor by blast
      have kk: "marca st ty L R i \<Longrightarrow> m \<le> i \<Longrightarrow> a < n_value (st i)" for i
        using ord [OF m, of i] less_le_trans [OF less'] by simp
      have "lados st ty L R a l (m - 1)" using inv(1) kk mayor(1,2) t unfolding lados_def by fastforce
      moreover have "mejor st ty L R a l (m - 1) left True" using inv(1,2) mayor(1,2) t unfolding mejor_def lados_def by fastforce
      ultimately have "busca_inv st ty L R a l (m - 1) addr left (m - 1) True" using cmp m by (simp add: busca_inv_def)
      then show ?thesis using less.hyps [of l "m - 1" addr] True mayor(2,5) t by (simp add: medida_menos)
    next
      case (igual m)
      have m: "marca st ty L R m" using inv(1) igual t by (simp add: marca_def lados_def)
      have e: "n_value (st m) = a" "addr = a" using comparar(3) [OF a m cmp] igual by blast+
      have kk: "marca st ty L R i \<Longrightarrow> i \<le> m \<Longrightarrow> n_value (st i) \<le> a" for i using ord [OF _ m] e by auto
      have "lados st ty L R a m r" using inv(1) kk igual(1,2) t unfolding lados_def by fastforce
      moreover have "mejor st ty L R a m r m True" using m e unfolding mejor_def by auto
      moreover have "comparado st ty L R a (addr + 1)" using m e by (auto simp: comparado_def)
      ultimately have "busca_inv st ty L R a m r (addr + 1) m right True" using rr by (simp add: busca_inv_def)
      then show ?thesis using less.hyps [of m r "addr + 1"] medida_igual [OF True igual(6,1,2,5)] igual(7) by simp
    qed
  next
    case False
    then have "binsearch_bucle st ty l r addr left right any = Some (left, right, any)"
      by (subst binsearch_bucle.simps) simp
    then show ?thesis using False less.prems by (meson not_le)
  qed
qed

text \<open>
  C35: \<open>stab_binsearch\<close> brackets the address. On a region whose stabs of the type are in order,
  none of them one byte after one at the address: if some stab is at or before the address,
  it gives the last such stab and the end of its region, just before the next stab of the
  type; if there is none of the type, an empty region; and if all are after the address,
  the region before the first of them, with a left end that is no stab of the type.
\<close>

theorem stab_binsearch_correcto:
  assumes "a < a + 1" "sin_siguiente st ty L R a" "ordenada st ty L R" "L \<le> R + 1"
  shows "\<exists>l r. stab_binsearch st L R ty a = Some (l, r)
    \<and> (if \<exists>i. marca st ty L R i \<and> n_value (st i) \<le> a
       then marca st ty L R l \<and> n_value (st l) \<le> a \<and> l \<le> r \<and> r \<le> R \<and> (r < R \<longrightarrow> marca st ty L R (r + 1))
         \<and> (\<forall>i. marca st ty L R i \<and> l < i \<longrightarrow> r < i \<and> a < n_value (st i))
       else if \<exists>i. marca st ty L R i
       then marca st ty L R (r + 1) \<and> (\<forall>i. marca st ty L R i \<longrightarrow> r < i) \<and> l = (if r < L then r else L)
       else l = L \<and> r = L - 1)"
proof -
  have "busca_inv st ty L R a L R a L R False"
    using assms(4) by (auto simp: busca_inv_def lados_def mejor_def comparado_def marca_def)
  from binsearch_bucle_inv [OF assms(1-3) this] obtain l r addr left right any
    where b: "binsearch_bucle st ty L R a L R False = Some (left, right, any)" "r < l"
      and inv: "lados st ty L R a l r" "mejor st ty L R a l r left any" "right = r" "r < R \<longrightarrow> marca st ty L R (r + 1) \<and> any"
    unfolding busca_inv_def by blast
  have l: "l = r + 1" and L: "L \<le> r + 1" "r \<le> R" using inv(1) b(2) by (simp_all add: lados_def)
  have mas: "marca st ty L R i \<Longrightarrow> r < i \<Longrightarrow> a < n_value (st i)" for i using inv(1) by (simp add: lados_def)
  show ?thesis
  proof (cases "\<exists>i. marca st ty L R i \<and> n_value (st i) \<le> a")
    case True
    then obtain j where j: "marca st ty L R j" "n_value (st j) \<le> a" by blast
    have "j \<le> r" using mas [OF j(1)] j(2) by (meson leD not_le)
    then have m: "marca st ty L R left" "n_value (st left) \<le> a" "\<forall>i. marca st ty L R i \<and> left < i \<longrightarrow> r < i" any
      using inv(2) j l unfolding mejor_def by fastforce+
    have "left \<le> r" using mas [OF m(1)] m(2) by (meson leD not_le)
    moreover have "n_type (st i) \<noteq> ty" if "left < i" "i \<le> r" for i
    proof
      assume "n_type (st i) = ty"
      then have "marca st ty L R i" using m(1) that L(2) by (simp add: marca_def)
      then show False using m(3) that by fastforce
    qed
    ultimately have "stab_binsearch st L R ty a = Some (left, r)"
      using b(1) inv(3) m(4) by (simp add: stab_binsearch_def mas_a_la_derecha)
    then show ?thesis using True m mas \<open>left \<le> r\<close> L(2) inv(4) by auto
  next
    case F: False
    then have n: "left = L" "\<forall>i. marca st ty L R i \<longrightarrow> r < i" "any \<longrightarrow> r < R" using inv(2) l unfolding mejor_def by auto
    show ?thesis
    proof (cases "\<exists>i. marca st ty L R i")
      case True
      then have "r < R" using n(2) by (fastforce simp: marca_def)
      moreover have "n_type (st i) \<noteq> ty" if "L < i" "i \<le> r" for i
        using n(2) [rule_format, of i] that L(2) by (auto simp: marca_def)
      ultimately have "stab_binsearch st L R ty a = Some (if r < L then r else L, r)"
        using b(1) inv(3,4) n(1) by (simp add: stab_binsearch_def mas_a_la_derecha)
      then show ?thesis using F True n(2) inv(4) \<open>r < R\<close> by auto
    next
      case False
      then have "\<not> any" using inv(4) n(3) by blast
      then show ?thesis using b(1) n(1) F False by (simp add: stab_binsearch_def)
    qed
  qed
qed

text \<open>The table of the comment of the function, by its addresses.\<close>

definition st_ejemplo :: "int \<Rightarrow> stab" where
  "st_ejemplo i =
     \<lparr>n_strx = 0, n_type = (if i \<in> {0, 13, 117, 118, 555, 556, 657} then N_SO else N_SLINE), n_other = 0, n_desc = 0,
      n_value = (if i < 13 then 0xF0100000 else if i < 117 then 0xF0100040 else if i < 118 then 0xF0100176
                 else if i < 555 then 0xF0100178 else if i < 556 then 0xF0100652 else if i < 657 then 0xF0100654
                 else 0xF0100849)\<rparr>"

lemma stab_binsearch_correcto_witness: "stab_binsearch st_ejemplo 0 657 N_SO 0xF0100184 = Some (118, 554)"
proof -
  have m: "marca st_ejemplo N_SO 0 657 i \<longleftrightarrow> i \<in> {0, 13, 117, 118, 555, 556, 657}" for i
    by (auto simp: marca_def st_ejemplo_def N_SO_def N_SLINE_def)
  have v: "n_value (st_ejemplo i) \<le> 0xF0100184 \<longleftrightarrow> i < 555" for i by (simp add: st_ejemplo_def)
  have o: "ordenada st_ejemplo N_SO 0 657" unfolding ordenada_def m by (auto simp: st_ejemplo_def)
  have s: "sin_siguiente st_ejemplo N_SO 0 657 0xF0100184" unfolding sin_siguiente_def m by (auto simp: st_ejemplo_def)
  have a: "(0xF0100184 :: uint32) < 0xF0100184 + 1" by simp
  have z: "\<exists>i. marca st_ejemplo N_SO 0 657 i \<and> n_value (st_ejemplo i) \<le> 0xF0100184"
    unfolding m v by (rule exI [of _ 0]) simp
  have w: "0xF0100184 < n_value (st_ejemplo i) \<longleftrightarrow> 555 \<le> i" for i using v [of i] by (metis leD linorder_not_le)
  obtain l r where r: "stab_binsearch st_ejemplo 0 657 N_SO 0xF0100184 = Some (l, r)" "marca st_ejemplo N_SO 0 657 l"
    "n_value (st_ejemplo l) \<le> 0xF0100184" "l \<le> r" "r \<le> 657" "r < 657 \<longrightarrow> marca st_ejemplo N_SO 0 657 (r + 1)"
    "\<forall>i. marca st_ejemplo N_SO 0 657 i \<and> l < i \<longrightarrow> r < i \<and> 0xF0100184 < n_value (st_ejemplo i)"
    using stab_binsearch_correcto [OF a s o] unfolding if_P [OF z] by auto
  note f = r(7) [unfolded m w, rule_format]
  have "l = 118" using r(2,3) f [of 118] unfolding m v by auto
  moreover have "r < 555" using f [of 555] calculation by simp
  moreover have "r = 554" using r(4,6) calculation unfolding m by auto
  ultimately show ?thesis using r(1) by simp
qed

text \<open>
  Without the hypothesis on the next byte the search is wrong: with lines at 10 and 11, the
  address 10 is taken to be in the line at 11, because the exact match adds one to the
  address and the next stab then matches exactly too.
\<close>

definition st_lineas :: "int \<Rightarrow> stab" where
  "st_lineas i = \<lparr>n_strx = 0, n_type = N_SLINE, n_other = 0, n_desc = 0, n_value = (if i = 0 then 10 else 11)\<rparr>"

lemma stab_binsearch_siguiente: "stab_binsearch st_lineas 0 1 N_SLINE 10 = Some (1, 1)"
  by (simp add: stab_binsearch_def binsearch_bucle.simps atras_tipo.simps mas_a_la_derecha.simps st_lineas_def)

section \<open>The description of an address\<close>

lemma strfind_termina:
  assumes "m q = NUL" "p \<le> q"
  shows "\<exists>x. strfind m p c = Some x"
  using assms(2)
proof (induction "q - p" arbitrary: p)
  case 0
  then show ?case using assms(1) by (subst strfind.simps) simp
next
  case (Suc n)
  then show ?case by (subst strfind.simps) auto
qed

lemma largo_nombre_total:
  assumes "m (n - 1) = NUL" "nombre = (if p < n then Some p else None)"
  shows "\<exists>x. largo_nombre m nombre = Some x"
proof (cases "p < n")
  case True
  then obtain x where "strfind m p (CHR 0x3A) = Some x"
    using strfind_termina [where m = m and q = "n - 1" and p = p and c = "CHR 0x3A"] assms(1) by fastforce
  then show ?thesis using True assms(2) by (simp add: largo_nombre_def)
qed (simp add: assms(2) largo_nombre_def)

text \<open>
  The back trace never hangs: \<open>debuginfo_eip\<close> returns for every address and every table of
  stabs, as long as the table of strings ends with a NUL, which it checks itself.
\<close>

theorem debuginfo_eip_termina: "\<exists>r info. debuginfo_eip kt ut addr = Some (r, info) \<and> (r = 0 \<or> r = -1)"
proof (cases "if addr \<ge> ULIM then Some kt else ut")
  case None
  then show ?thesis by (simp add: debuginfo_eip_def Let_def)
next
  case (Some t)
  note d = debuginfo_eip_def [of kt ut addr, unfolded Some option.case Let_def]
  show ?thesis
  proof (cases "stabstr_len t = 0 \<or> stabstr t (stabstr_len t - 1) \<noteq> NUL")
    case True
    then show ?thesis unfolding d by simp
  next
    case False
    note largo = largo_nombre_total [of "stabstr t" "stabstr_len t"]
    obtain lfile rfile where f: "stab_binsearch (stabs t) 0 (n_stabs t - 1) N_SO addr = Some (lfile, rfile)"
      using stab_binsearch_total by fast
    obtain lfun rfun where g: "stab_binsearch (stabs t) lfile rfile N_FUN addr = Some (lfun, rfun)"
      using stab_binsearch_total by fast
    have l: "\<exists>l r. stab_binsearch (stabs t) a b N_SLINE c = Some (l, r)" for a b c using stab_binsearch_total by fast
    show ?thesis
    proof (cases "lfun \<le> rfun")
      case True
      let ?p = "unat (n_strx (stabs t lfun))"
      obtain n where "largo_nombre (stabstr t) (if ?p < stabstr_len t then Some ?p else None) = Some n"
        using largo [OF _ refl, of ?p] False by auto
      then show ?thesis using False f g True l [of lfun rfun "addr - n_value (stabs t lfun)"] unfolding d by auto
    next
      case F: False
      then show ?thesis using False f g l [of lfile rfile addr] unfolding d
        by (auto simp: largo_nombre_def info_inicial_def)
    qed
  qed
qed

end
