(* ===== verification/Spinlock.thy ===== *)
theory Spinlock
  imports Mmu
begin

text \<open>
  The kernel lock of \<open>TP2-sched/kern/spinlock.c\<close>, built with \<open>DEBUG_SPINLOCK\<close>, on any
  number of CPUs. Each access to the lock is a step of its own, and the steps of the CPUs
  interleave in any order; \<open>xchg\<close> is one step. A CPU is outside the lock, inside it, or at
  a point of \<open>spin_lock\<close> or \<open>spin_unlock\<close>; the flag of a point tells whether the call was
  made from inside. The CPU that has a lock is the index of its \<open>struct CpuInfo\<close>.
\<close>

unbundle bit_operations_syntax

section \<open>Accesses\<close>

text \<open>\<open>xchg\<close>: what was there, and what is there now.\<close>

definition xchg :: "uint32 \<Rightarrow> uint32 \<Rightarrow> uint32 \<times> uint32" where
  "xchg x newval = (x, newval)"

text \<open>\<open>get_caller_pcs\<close>, over the memory of the stack: at most \<open>n\<close> frames, then zeros.\<close>

fun seguir_ebp :: "(uint32 \<Rightarrow> uint32) \<Rightarrow> uint32 \<Rightarrow> nat \<Rightarrow> uint32 list" where
  "seguir_ebp m ebp 0 = []"
| "seguir_ebp m ebp (Suc n) =
     (if ebp = 0 \<or> ebp < ULIM then replicate (Suc n) 0 else m (ebp + 4) # seguir_ebp m (m ebp) n)"

definition get_caller_pcs :: "(uint32 \<Rightarrow> uint32) \<Rightarrow> uint32 \<Rightarrow> uint32 list" where
  "get_caller_pcs m ebp = seguir_ebp m ebp 10"

datatype punto =
    Fuera | Dentro
  | Mira bool | Gira bool | Anota bool
  | MiraU bool | Borra bool | Suelta bool
  | Muerto bool

record cerrojo =
  locked :: uint32
  lk_cpu :: "nat option"
  lk_pcs :: "uint32 list"
  pto :: "nat \<Rightarrow> punto"

definition ir :: "nat \<Rightarrow> punto \<Rightarrow> cerrojo \<Rightarrow> cerrojo" where
  "ir c p e = e\<lparr>pto := (pto e)(c := p)\<rparr>"

definition spin_initlock :: "cerrojo \<Rightarrow> cerrojo" where
  "spin_initlock e = e\<lparr>locked := 0, lk_cpu := None\<rparr>"

section \<open>spin_lock and spin_unlock\<close>

text \<open>
  One step of CPU \<open>c\<close> in \<open>spin_lock\<close>: the two reads of \<open>holding\<close>, the loop, and the record
  of who has the lock; \<open>m\<close> and \<open>ebp\<close> are the stack of the caller.
\<close>

definition lock_paso :: "(uint32 \<Rightarrow> uint32) \<Rightarrow> uint32 \<Rightarrow> nat \<Rightarrow> cerrojo \<Rightarrow> cerrojo" where
  "lock_paso m ebp c e =
     (case pto e c of
        Fuera \<Rightarrow> ir c (if locked e \<noteq> 0 then Mira False else Gira False) e
      | Dentro \<Rightarrow> ir c (if locked e \<noteq> 0 then Mira True else Gira True) e
      | Mira d \<Rightarrow> ir c (if lk_cpu e = Some c then Muerto d else Gira d) e
      | Gira d \<Rightarrow>
          (let (old, new) = xchg (locked e) 1 in ir c (if old \<noteq> 0 then Gira d else Anota d) (e\<lparr>locked := new\<rparr>))
      | Anota d \<Rightarrow> ir c Dentro (e\<lparr>lk_cpu := Some c, lk_pcs := get_caller_pcs m ebp\<rparr>)
      | _ \<Rightarrow> e)"

text \<open>One step of CPU \<open>c\<close> in \<open>spin_unlock\<close>; the report before the panic is left out.\<close>

definition unlock_paso :: "nat \<Rightarrow> cerrojo \<Rightarrow> cerrojo" where
  "unlock_paso c e =
     (case pto e c of
        Fuera \<Rightarrow> ir c (if locked e \<noteq> 0 then MiraU False else Muerto False) e
      | Dentro \<Rightarrow> ir c (if locked e \<noteq> 0 then MiraU True else Muerto True) e
      | MiraU d \<Rightarrow> ir c (if lk_cpu e = Some c then Borra d else Muerto d) e
      | Borra d \<Rightarrow> ir c (Suelta d) (e\<lparr>lk_pcs := (lk_pcs e)[0 := 0], lk_cpu := None\<rparr>)
      | Suelta d \<Rightarrow> (let (old, new) = xchg (locked e) 0 in ir c Fuera (e\<lparr>locked := new\<rparr>))
      | _ \<Rightarrow> e)"

definition kernel_lock :: cerrojo where
  "kernel_lock = spin_initlock \<lparr>locked = 0, lk_cpu = None, lk_pcs = replicate 10 0, pto = (\<lambda>_. Fuera)\<rparr>"

text \<open>
  The states that any use of the lock reaches, and those of a program that asks for it from
  outside only and gives it back from inside only.
\<close>

inductive alcanza :: "cerrojo \<Rightarrow> bool" where
  inicio: "alcanza kernel_lock"
| lock: "alcanza e \<Longrightarrow> alcanza (lock_paso m ebp c e)"
| unlock: "alcanza e \<Longrightarrow> alcanza (unlock_paso c e)"

inductive alcanza_bien :: "cerrojo \<Rightarrow> bool" where
  inicio: "alcanza_bien kernel_lock"
| lock: "alcanza_bien e \<Longrightarrow> pto e c \<noteq> Dentro \<Longrightarrow> alcanza_bien (lock_paso m ebp c e)"
| unlock: "alcanza_bien e \<Longrightarrow> pto e c \<noteq> Fuera \<Longrightarrow> alcanza_bien (unlock_paso c e)"

section \<open>The invariant\<close>

text \<open>Where a CPU has the lock, and where the lock says so.\<close>

definition tiene :: "punto \<Rightarrow> bool" where
  "tiene p \<longleftrightarrow> p \<in> {Anota False, Dentro, Mira True, MiraU True, Borra True, Suelta True, Muerto True}"

definition anotado :: "punto \<Rightarrow> bool" where
  "anotado p \<longleftrightarrow> p \<in> {Dentro, Mira True, MiraU True, Borra True, Muerto True}"

definition cerrojo_inv :: "cerrojo \<Rightarrow> bool" where
  "cerrojo_inv e \<longleftrightarrow>
     (\<forall>c d. tiene (pto e c) \<longrightarrow> tiene (pto e d) \<longrightarrow> c = d)
     \<and> (locked e \<noteq> 0 \<longleftrightarrow> (\<exists>c. tiene (pto e c)))
     \<and> (\<forall>c. lk_cpu e = Some c \<longleftrightarrow> anotado (pto e c))
     \<and> (\<forall>c. pto e c \<notin> {Gira True, Anota True, Borra False, Suelta False})"

lemma anotado_tiene: "anotado p \<Longrightarrow> tiene p"
  by (auto simp: anotado_def tiene_def)

lemmas pto_simps = ir_def tiene_def anotado_def xchg_def

lemma inv_inicio: "cerrojo_inv kernel_lock"
  by (simp add: cerrojo_inv_def kernel_lock_def spin_initlock_def tiene_def anotado_def)

lemma cerrojo_invD:
  assumes "cerrojo_inv e"
  shows "tiene (pto e c) \<Longrightarrow> tiene (pto e d) \<Longrightarrow> c = d" "locked e \<noteq> 0 \<longleftrightarrow> (\<exists>c. tiene (pto e c))"
    "lk_cpu e = Some c \<longleftrightarrow> anotado (pto e c)" "pto e c \<notin> {Gira True, Anota True, Borra False, Suelta False}"
  using assms unfolding cerrojo_inv_def by blast+

text \<open>A step that neither takes nor gives the lock, and the four that do part of it.\<close>

lemma inv_quieto:
  assumes "cerrojo_inv e" "tiene p = tiene (pto e c)" "anotado p = anotado (pto e c)"
    "p \<notin> {Gira True, Anota True, Borra False, Suelta False}"
  shows "cerrojo_inv (ir c p e)" "locked e \<noteq> 0 \<Longrightarrow> l \<noteq> 0 \<Longrightarrow> cerrojo_inv (ir c p (e\<lparr>locked := l\<rparr>))"
  using assms unfolding cerrojo_inv_def ir_def by (auto split: if_splits)

lemma inv_tomar:
  assumes "cerrojo_inv e" "locked e = 0"
  shows "cerrojo_inv (ir c (Anota False) (e\<lparr>locked := 1\<rparr>))"
proof -
  have n: "\<not> tiene (pto e d)" for d using cerrojo_invD(2) [OF assms(1)] assms(2) by blast
  have "\<not> anotado (pto e d)" for d using n anotado_tiene by blast
  moreover have "tiene (Anota False)" "\<not> anotado (Anota False)" by (simp_all add: tiene_def anotado_def)
  ultimately show ?thesis using assms n unfolding cerrojo_inv_def ir_def by auto
qed

lemma inv_anotar:
  assumes "cerrojo_inv e" "pto e c = Anota False"
  shows "cerrojo_inv (ir c Dentro (e\<lparr>lk_cpu := Some c, lk_pcs := ps\<rparr>))"
proof -
  have t: "tiene (pto e c)" "tiene Dentro" "anotado Dentro" using assms(2) by (simp_all add: tiene_def anotado_def)
  have "\<not> anotado (pto e d)" for d
    using cerrojo_invD(1) [OF assms(1) t(1), of d] anotado_tiene [of "pto e d"] assms(2) by (auto simp: anotado_def)
  then show ?thesis using assms(1) t unfolding cerrojo_inv_def ir_def by auto
qed

lemma inv_borrar:
  assumes "cerrojo_inv e" "pto e c = Borra True"
  shows "cerrojo_inv (ir c (Suelta True) (e\<lparr>lk_pcs := ps, lk_cpu := None\<rparr>))"
proof -
  have t: "tiene (pto e c)" "tiene (Suelta True)" "\<not> anotado (Suelta True)" using assms(2) by (simp_all add: tiene_def anotado_def)
  have "\<not> anotado (pto e d)" if "d \<noteq> c" for d
    using cerrojo_invD(1) [OF assms(1) t(1), of d] anotado_tiene [of "pto e d"] that by blast
  then show ?thesis using assms(1) t unfolding cerrojo_inv_def ir_def by auto
qed

lemma inv_soltar:
  assumes "cerrojo_inv e" "pto e c = Suelta True"
  shows "cerrojo_inv (ir c Fuera (e\<lparr>locked := 0\<rparr>))"
proof -
  have t: "tiene (pto e c)" "\<not> anotado (pto e c)" "\<not> tiene Fuera" "\<not> anotado Fuera"
    using assms(2) by (simp_all add: tiene_def anotado_def)
  have "\<not> tiene (pto e d)" if "d \<noteq> c" for d using cerrojo_invD(1) [OF assms(1) t(1), of d] that by blast
  then show ?thesis using assms(1) t unfolding cerrojo_inv_def ir_def by auto
qed

lemma inv_lock:
  assumes "cerrojo_inv e"
  shows "cerrojo_inv (lock_paso m ebp c e)"
proof (cases "pto e c")
  case (Gira d)
  then have "d = False" using cerrojo_invD(4) [OF assms, of c] by (cases d) simp_all
  then show ?thesis using Gira inv_quieto(2) [OF assms, where p = "Gira False" and c = c and l = 1] inv_tomar [OF assms]
    by (simp add: lock_paso_def xchg_def tiene_def anotado_def)
next
  case (Anota d)
  then have "d = False" using cerrojo_invD(4) [OF assms, of c] by (cases d) simp_all
  then show ?thesis using Anota inv_anotar [OF assms] by (simp add: lock_paso_def)
next
  case Dentro
  then have "locked e \<noteq> 0" using cerrojo_invD(2) [OF assms] by (auto simp: tiene_def)
  then show ?thesis using Dentro inv_quieto(1) [OF assms, where p = "Mira True" and c = c]
    by (simp add: lock_paso_def tiene_def anotado_def)
next
  case (Mira d)
  then have "lk_cpu e = Some c \<longleftrightarrow> d" using cerrojo_invD(3) [OF assms, of c] by (cases d) (simp_all add: anotado_def)
  then show ?thesis using Mira inv_quieto(1) [OF assms, where c = c and p = "if d then Muerto True else Gira False"]
    by (cases d) (simp_all add: lock_paso_def tiene_def anotado_def)
qed (use assms inv_quieto(1) [OF assms, where c = c] in \<open>auto simp: lock_paso_def tiene_def anotado_def\<close>)

lemma inv_unlock:
  assumes "cerrojo_inv e"
  shows "cerrojo_inv (unlock_paso c e)"
proof (cases "pto e c")
  case Dentro
  then have "locked e \<noteq> 0" using cerrojo_invD(2) [OF assms] by (auto simp: tiene_def)
  then show ?thesis using Dentro inv_quieto(1) [OF assms, where p = "MiraU True" and c = c]
    by (simp add: unlock_paso_def tiene_def anotado_def)
next
  case (MiraU d)
  then have "lk_cpu e = Some c \<longleftrightarrow> d" using cerrojo_invD(3) [OF assms, of c] by (cases d) (simp_all add: anotado_def)
  then show ?thesis using MiraU inv_quieto(1) [OF assms, where c = c and p = "if d then Borra True else Muerto False"]
    by (cases d) (simp_all add: unlock_paso_def tiene_def anotado_def)
next
  case (Borra d)
  then have "d" using cerrojo_invD(4) [OF assms, of c] by (cases d) simp_all
  then show ?thesis using Borra inv_borrar [OF assms] by (simp add: unlock_paso_def)
next
  case (Suelta d)
  then have "d" using cerrojo_invD(4) [OF assms, of c] by (cases d) simp_all
  then show ?thesis using Suelta inv_soltar [OF assms] by (simp add: unlock_paso_def xchg_def)
qed (use assms inv_quieto(1) [OF assms, where c = c] in \<open>auto simp: unlock_paso_def tiene_def anotado_def\<close>)

lemma alcanza_inv: "alcanza e \<Longrightarrow> cerrojo_inv e"
  by (induction rule: alcanza.induct) (simp_all add: inv_inicio inv_lock inv_unlock)

lemma alcanza_bien_alcanza: "alcanza_bien e \<Longrightarrow> alcanza e"
  by (induction rule: alcanza_bien.induct) (auto intro: alcanza.intros)

section \<open>Properties\<close>

text \<open>
  C37: Mutual exclusion. However the steps of the CPUs interleave, and whatever calls they make,
  at most one CPU has the lock, from the \<open>xchg\<close> that takes it to the \<open>xchg\<close> that gives it
  back; the word is not 0 exactly then; and a CPU that spins takes the lock in its next step
  if and only if no CPU has it.
\<close>

theorem exclusion_mutua:
  assumes "alcanza e"
  shows "(\<forall>c d. tiene (pto e c) \<and> tiene (pto e d) \<longrightarrow> c = d) \<and> (locked e \<noteq> 0 \<longleftrightarrow> (\<exists>c. tiene (pto e c)))
    \<and> (\<forall>c d m ebp. pto e c = Gira d \<longrightarrow> (tiene (pto (lock_paso m ebp c e) c) \<longleftrightarrow> (\<forall>x. \<not> tiene (pto e x))))"
proof -
  note i = alcanza_inv [OF assms]
  have "tiene (pto (lock_paso m ebp c e) c) \<longleftrightarrow> (\<forall>x. \<not> tiene (pto e x))" if "pto e c = Gira d" for c d m ebp
  proof -
    have "d = False" using cerrojo_invD(4) [OF i, of c] that by (cases d) simp_all
    then show ?thesis using that cerrojo_invD(2) [OF i] by (auto simp: lock_paso_def xchg_def ir_def) (simp_all add: tiene_def)
  qed
  then show ?thesis using cerrojo_invD(1,2) [OF i] by blast
qed

text \<open>Two CPUs: the first takes the lock, the second spins.\<close>

lemma exclusion_mutua_witness:
  "\<exists>e. alcanza e \<and> pto e 0 = Dentro \<and> pto e 1 = Gira False \<and> pto (lock_paso (\<lambda>_. 0) 0 1 e) 1 = Gira False"
proof -
  let ?p = "lock_paso (\<lambda>_. 0) 0"
  let ?e = "?p 1 (?p 1 (?p 0 (?p 0 (?p 0 kernel_lock))))"
  have r: "alcanza ?e" by (intro alcanza.intros)
  have p: "pto ?e 0 = Dentro" "pto ?e 1 = Gira False"
    by (simp_all add: lock_paso_def kernel_lock_def spin_initlock_def ir_def xchg_def)
  have "locked ?e \<noteq> 0" using exclusion_mutua [OF r] p(1) by (auto simp: tiene_def)
  then have "pto (?p 1 ?e) 1 = Gira False"
    unfolding lock_paso_def [of _ _ _ ?e] p(2) by (simp add: xchg_def ir_def)
  with r p show ?thesis by blast
qed

lemma bien_inv:
  "alcanza_bien e \<Longrightarrow> \<forall>c d. pto e c \<noteq> Muerto d \<and> pto e c \<noteq> Mira True \<and> pto e c \<noteq> MiraU False"
proof (induction rule: alcanza_bien.induct)
  case inicio
  then show ?case by (simp add: kernel_lock_def spin_initlock_def)
next
  case (lock e c m ebp)
  note i = alcanza_inv [OF alcanza_bien_alcanza [OF lock.hyps(1)]]
  have "pto e c = Mira d \<Longrightarrow> lk_cpu e \<noteq> Some c" for d using lock.IH cerrojo_invD(3) [OF i, of c] by (cases d) (auto simp: anotado_def)
  then show ?case using lock by (auto simp: lock_paso_def ir_def Let_def split: punto.split prod.split)
next
  case (unlock e c)
  note i = alcanza_inv [OF alcanza_bien_alcanza [OF unlock.hyps(1)]]
  have "pto e c = MiraU d \<Longrightarrow> d \<and> lk_cpu e = Some c" for d using unlock.IH cerrojo_invD(3) [OF i, of c] by (cases d) (auto simp: anotado_def)
  moreover have "pto e c = Dentro \<Longrightarrow> locked e \<noteq> 0" using cerrojo_invD(2) [OF i] by (auto simp: tiene_def)
  ultimately show ?case using unlock by (auto simp: unlock_paso_def ir_def Let_def split: punto.split prod.split)
qed

text \<open>
  C38: The debugging checks are right under every interleaving: a program that uses the lock well
  never panics, although \<open>holding\<close> reads the two fields at different times while other CPUs
  change them; taking the lock from inside, or giving it back from outside, always ends in
  a panic, at the next step or the one after.
\<close>

theorem comprobaciones_exactas:
  assumes "alcanza e"
  shows "(alcanza_bien e \<longrightarrow> (\<forall>c d. pto e c \<noteq> Muerto d))
    \<and> (pto e c = Dentro \<longrightarrow> pto (lock_paso m ebp c e) c = Mira True)
    \<and> (pto e c = Mira True \<longrightarrow> pto (lock_paso m ebp c e) c = Muerto True)
    \<and> (pto e c = Fuera \<longrightarrow> pto (unlock_paso c e) c \<in> {MiraU False, Muerto False})
    \<and> (pto e c = MiraU False \<longrightarrow> pto (unlock_paso c e) c = Muerto False)"
proof -
  note i = alcanza_inv [OF assms]
  have "pto e c = Dentro \<Longrightarrow> locked e \<noteq> 0" using cerrojo_invD(2) [OF i] by (auto simp: tiene_def)
  moreover have "pto e c = Mira True \<Longrightarrow> lk_cpu e = Some c" "pto e c = MiraU False \<Longrightarrow> lk_cpu e \<noteq> Some c"
    using cerrojo_invD(3) [OF i, of c] by (auto simp: anotado_def)
  ultimately show ?thesis using bien_inv [of e] by (auto simp: lock_paso_def unlock_paso_def ir_def)
qed

lemma comprobaciones_exactas_witness:
  "pto (lock_paso (\<lambda>_. 0) 0 0 (lock_paso (\<lambda>_. 0) 0 0 (lock_paso (\<lambda>_. 0) 0 0 (lock_paso (\<lambda>_. 0) 0 0
     (lock_paso (\<lambda>_. 0) 0 0 kernel_lock))))) 0 = Muerto True"
proof -
  let ?p = "lock_paso (\<lambda>_. 0) 0 0"
  let ?e = "?p (?p (?p kernel_lock))"
  have r: "alcanza ?e" "alcanza (?p ?e)" by (intro alcanza.intros)+
  have "pto ?e 0 = Dentro" by (simp add: lock_paso_def kernel_lock_def spin_initlock_def ir_def xchg_def)
  then have "pto (?p ?e) 0 = Mira True" using comprobaciones_exactas [OF r(1)] by blast
  then show ?thesis using comprobaciones_exactas [OF r(2)] by blast
qed

end
