(* ===== verification/Primos.thy ===== *)
theory Primos
  imports Prelude
begin

text \<open>
  The sieve of processes, \<open>TP0-fork/primes.c\<close>: the program writes 2, 3, ..., \<open>n\<close> to a pipe,
  and each process prints the first number it reads and passes on those that it does not
  divide to the next process. A state of the whole is the number the first process writes
  next and, from left to right, the processes with what waits in their pipes; a step is
  one read or write of one process, in any order. System calls are taken to succeed, the
  output to be a terminal, where each line is printed at once, and the numbers to fit.
\<close>

section \<open>The processes\<close>

text \<open>A process that runs \<open>filtro\<close>: before its first read, filtering by a number, or returned.\<close>

datatype fase = Espera | Filtra int | Fin

record etapa =
  fase :: fase
  tubo :: "int list"
  cerrado :: bool

record red =
  prox :: "int option"
  hasta :: int
  etapas :: "etapa list"
  salida :: "int list"

definition etapa_nueva :: etapa where
  "etapa_nueva = \<lparr>fase = Espera, tubo = [], cerrado = False\<rparr>"

definition poner :: "int \<Rightarrow> etapa \<Rightarrow> etapa" where
  "poner x e = e\<lparr>tubo := tubo e @ [x]\<rparr>"

definition cerrar :: "etapa \<Rightarrow> etapa" where
  "cerrar e = e\<lparr>cerrado := True\<rparr>"

text \<open>The step of the first process: one turn of its loop, or closing the pipe after it.\<close>

definition main_paso :: "red \<Rightarrow> red option" where
  "main_paso r =
     (case (prox r, etapas r) of
        (Some i, e # es) \<Rightarrow>
          (if i \<le> hasta r then Some (r\<lparr>prox := Some (i + 1), etapas := poner i e # es\<rparr>)
           else Some (r\<lparr>prox := None, etapas := cerrar e # es\<rparr>))
      | _ \<Rightarrow> None)"

text \<open>
  The step of a process, given the ones on its right: its new state, theirs, and what it
  prints; none when it has to wait or has returned. The remainder is that of C.
\<close>

definition filtro_paso :: "etapa \<Rightarrow> etapa list \<Rightarrow> (etapa \<times> etapa list \<times> int list) option" where
  "filtro_paso e es =
     (case (fase e, tubo e) of
        (Espera, x # xs) \<Rightarrow> Some (e\<lparr>fase := Filtra x, tubo := xs\<rparr>, es @ [etapa_nueva], [x])
      | (Espera, []) \<Rightarrow> (if cerrado e then Some (e\<lparr>fase := Fin\<rparr>, es, []) else None)
      | (Filtra p, x # xs) \<Rightarrow>
          Some (e\<lparr>tubo := xs\<rparr>, (if x mod p \<noteq> 0 then (case es of [] \<Rightarrow> [] | d # ds \<Rightarrow> poner x d # ds) else es), [])
      | (Filtra p, []) \<Rightarrow>
          (if cerrado e then Some (e\<lparr>fase := Fin\<rparr>, (case es of [] \<Rightarrow> [] | d # ds \<Rightarrow> cerrar d # ds), []) else None)
      | (Fin, _) \<Rightarrow> None)"

text \<open>The step of the process at a position of the line.\<close>

fun paso_en :: "nat \<Rightarrow> etapa list \<Rightarrow> (etapa list \<times> int list) option" where
  "paso_en j [] = None"
| "paso_en 0 (e # es) = do { (e', es', out) \<leftarrow> filtro_paso e es; Some (e' # es', out) }"
| "paso_en (Suc j) (e # es) = do { (es', out) \<leftarrow> paso_en j es; Some (e # es', out) }"

definition red_inicial :: "int \<Rightarrow> red" where
  "red_inicial n = \<lparr>prox = Some 2, hasta = n, etapas = [etapa_nueva], salida = []\<rparr>"

inductive paso_red :: "red \<Rightarrow> red \<Rightarrow> bool" where
  escribe: "main_paso r = Some r' \<Longrightarrow> paso_red r r'"
| filtra: "paso_en j (etapas r) = Some (es, out) \<Longrightarrow> paso_red r (r\<lparr>etapas := es, salida := salida r @ out\<rparr>)"

section \<open>The sieve\<close>

function criba :: "int list \<Rightarrow> int list" where
  "criba [] = []"
| "criba (p # xs) = p # criba (filter (\<lambda>x. x mod p \<noteq> 0) xs)"
  by pat_completeness auto

termination
  by (relation "measure length") (auto simp: le_imp_less_Suc)

definition primo :: "int \<Rightarrow> bool" where
  "primo p \<longleftrightarrow> 2 \<le> p \<and> (\<forall>d. 2 \<le> d \<and> d < p \<longrightarrow> \<not> d dvd p)"

lemma criba_desde:
  assumes "2 \<le> m"
  shows "criba (filter (\<lambda>x. \<forall>d. 2 \<le> d \<and> d < m \<longrightarrow> \<not> d dvd x) [m..n]) = filter primo [m..n]"
  using assms
proof (induction "nat (n - m + 1)" arbitrary: m)
  case 0
  then show ?case by simp
next
  case (Suc k)
  let ?P = "\<lambda>m x. \<forall>d. 2 \<le> d \<and> d < m \<longrightarrow> \<not> d dvd x"
  have l: "[m..n] = m # [m + 1..n]" using Suc.hyps(2) by (intro upto_rec1) linarith
  have IH: "criba (filter (?P (m + 1)) [m + 1..n]) = filter primo [m + 1..n]"
    using Suc.hyps(1) [of "m + 1"] Suc.hyps(2) Suc.prems by simp
  have split: "?P (m + 1) x \<longleftrightarrow> ?P m x \<and> \<not> m dvd x" for x
    unfolding zless_add1_eq using Suc.prems by blast
  show ?case
  proof (cases "primo m")
    case True
    then have "?P m m" by (simp add: primo_def)
    moreover have "filter (\<lambda>x. x mod m \<noteq> 0) (filter (?P m) [m + 1..n]) = filter (?P (m + 1)) [m + 1..n]"
      unfolding filter_filter split by (rule filter_cong) (auto simp: dvd_eq_mod_eq_0)
    ultimately show ?thesis using IH True by (simp add: l)
  next
    case False
    then obtain d where d: "2 \<le> d" "d < m" "d dvd m" using Suc.prems by (auto simp: primo_def)
    then have "\<not> ?P m m" by blast
    moreover have "filter (?P m) [m + 1..n] = filter (?P (m + 1)) [m + 1..n]"
      unfolding split using d by (intro filter_cong refl) (meson dvd_trans)
    ultimately have "filter (?P m) [m..n] = filter (?P (m + 1)) [m + 1..n]" by (simp only: l filter.simps if_False)
    then show ?thesis using IH False by (simp only: l filter.simps if_False)
  qed
qed

lemma criba_primos: "criba [2..n] = filter primo [2..n]"
proof -
  have "filter (\<lambda>x. \<forall>d. 2 \<le> d \<and> d < 2 \<longrightarrow> \<not> d dvd x) [2..n] = [2..n]" by (rule filter_True) auto
  then show ?thesis using criba_desde [of 2 n] by simp
qed

section \<open>What is still to come\<close>

text \<open>The numbers that leave the last process when \<open>s\<close> is still to enter the first.\<close>

definition pasa :: "fase \<Rightarrow> int list \<Rightarrow> int list" where
  "pasa f l = (case f of Filtra p \<Rightarrow> filter (\<lambda>x. x mod p \<noteq> 0) l | _ \<Rightarrow> l)"

fun flujo :: "int list \<Rightarrow> etapa list \<Rightarrow> int list" where
  "flujo s [] = s"
| "flujo s (e # es) = flujo (pasa (fase e) (tubo e @ s)) es"

text \<open>
  The shape of the line, when \<open>c\<close> tells whether the pipe on its left is closed: only the
  last process has not read, and a pipe is closed when the process before it has returned.
\<close>

fun linea_ok :: "bool \<Rightarrow> etapa list \<Rightarrow> bool" where
  "linea_ok c [] = False"
| "linea_ok c (e # es) \<longleftrightarrow> cerrado e = c \<and> (fase e = Fin \<longrightarrow> tubo e = [] \<and> c)
     \<and> (if es = [] then fase e = Espera \<or> fase e = Fin else fase e \<noteq> Espera \<and> linea_ok (fase e = Fin) es)"

text \<open>The number of steps left, by the processes in turn; \<open>vida\<close> is that of one that has not read.\<close>

function vida :: "int list \<Rightarrow> nat" where
  "vida [] = 1"
| "vida (p # xs) = 1 + (length xs + 1) + vida (filter (\<lambda>x. x mod p \<noteq> 0) xs)"
  by pat_completeness auto

termination
  by (relation "measure length") (auto simp: le_imp_less_Suc)

definition propios :: "fase \<Rightarrow> int list \<Rightarrow> nat" where
  "propios f l = (case f of Fin \<Rightarrow> 0 | Espera \<Rightarrow> vida l | Filtra p \<Rightarrow> length l + 1)"

lemma propios_simps [simp]:
  "propios Fin l = 0" "propios Espera l = vida l" "propios (Filtra p) l = length l + 1"
  by (simp_all add: propios_def)

fun pasos :: "int list \<Rightarrow> etapa list \<Rightarrow> nat" where
  "pasos s [] = 0"
| "pasos s (e # es) = propios (fase e) (tubo e @ s) + pasos (pasa (fase e) (tubo e @ s)) es"

lemma poner_simps [simp]: "fase (poner x e) = fase e" "tubo (poner x e) = tubo e @ [x]" "cerrado (poner x e) = cerrado e"
  by (simp_all add: poner_def)

lemma cerrar_simps [simp]: "fase (cerrar e) = fase e" "tubo (cerrar e) = tubo e" "cerrado (cerrar e)"
  by (simp_all add: cerrar_def)

lemma linea_ok_poner: "linea_ok False (d # ds) \<Longrightarrow> linea_ok False (poner x d # ds)"
  by auto

lemma linea_ok_cerrar: "linea_ok False (d # ds) \<Longrightarrow> linea_ok True (cerrar d # ds)"
  by auto

lemma flujo_poner: "flujo (x # s) (d # ds) = flujo s (poner x d # ds)" "pasos (x # s) (d # ds) = pasos s (poner x d # ds)"
  by simp_all

lemma flujo_cerrar: "flujo s (cerrar d # ds) = flujo s (d # ds)" "pasos s (cerrar d # ds) = pasos s (d # ds)"
  by simp_all

text \<open>A step keeps what will be printed, with what it prints, and the shape, and takes one from the steps left.\<close>

definition buen_paso :: "bool \<Rightarrow> int list \<Rightarrow> etapa list \<Rightarrow> etapa list \<Rightarrow> int list \<Rightarrow> bool" where
  "buen_paso c s es es' out \<longleftrightarrow>
     linea_ok c es' \<and> criba (flujo s es) = out @ criba (flujo s es') \<and> pasos s es = Suc (pasos s es')"

lemma filtro_paso_bueno:
  assumes "linea_ok c (e # es)" "c \<longrightarrow> s = []" "filtro_paso e es = Some (e', es', out)"
  shows "buen_paso c s (e # es) (e' # es') out"
proof (cases "fase e")
  case Espera
  then have "es = []" using assms(1) by (simp split: if_splits)
  then show ?thesis using assms Espera
    by (cases "tubo e") (auto simp: filtro_paso_def buen_paso_def pasa_def etapa_nueva_def split: if_splits)
next
  case (Filtra p)
  then obtain d ds where d: "es = d # ds" "linea_ok False (d # ds)" using assms(1) by (cases es) auto
  show ?thesis
  proof (cases "tubo e")
    case Nil
    then have v: "cerrado e" "e' = e\<lparr>fase := Fin\<rparr>" "es' = cerrar d # ds" "out = []"
      using assms(3) Filtra d(1) by (simp_all add: filtro_paso_def split: if_splits)
    then have "c" "s = []" using assms(1,2) by simp_all
    then show ?thesis using v Filtra Nil linea_ok_cerrar [OF d(2)] assms(1)
      unfolding d(1) buen_paso_def by (simp add: pasa_def)
  next
    case (Cons x xs)
    let ?q = "if x mod p \<noteq> 0 then poner x d else d" and ?s = "filter (\<lambda>x. x mod p \<noteq> 0) (xs @ s)"
    have v: "e' = e\<lparr>tubo := xs\<rparr>" "es' = ?q # ds" "out = []"
      using assms(3) Filtra Cons d(1) by (simp_all add: filtro_paso_def split: if_splits)
    have "pasa (Filtra p) (x # xs @ s) = (if x mod p \<noteq> 0 then x # ?s else ?s)" "pasa (Filtra p) (xs @ s) = ?s"
      by (simp_all add: pasa_def)
    then have "flujo s (e # es) = flujo s (e' # es')" "pasos s (e # es) = Suc (pasos s (e' # es'))"
      using Filtra Cons v d(1) flujo_poner [of x ?s d ds] by (simp_all del: filter_append)
    moreover have "linea_ok c (e' # es')" using assms(1) Filtra v d by (cases "ds = []") auto
    ultimately show ?thesis using v by (simp add: buen_paso_def)
  qed
next
  case Fin
  then show ?thesis using assms(3) by (simp add: filtro_paso_def)
qed

lemma paso_en_bueno:
  "paso_en j es = Some (es', out) \<Longrightarrow> linea_ok c es \<Longrightarrow> (c \<longrightarrow> s = []) \<Longrightarrow> buen_paso c s es es' out"
proof (induction j es arbitrary: es' out c s rule: paso_en.induct)
  case (2 e es)
  then obtain e' ds where p: "filtro_paso e es = Some (e', ds, out)" "es' = e' # ds"
    by (auto split: bind_splits)
  show ?case unfolding p(2) by (rule filtro_paso_bueno [OF "2.prems"(2,3) p(1)])
next
  case (3 j e es)
  then obtain ds where p: "paso_en j es = Some (ds, out)" "es' = e # ds" by (auto split: bind_splits)
  have ne: "es \<noteq> []" using p(1) by (cases es) auto
  have l: "linea_ok (fase e = Fin) es" "fase e = Fin \<longrightarrow> pasa (fase e) (tubo e @ s) = []"
    using "3.prems"(2,3) ne by (auto simp: pasa_def)
  have b: "buen_paso (fase e = Fin) (pasa (fase e) (tubo e @ s)) es ds out" by (rule "3.IH" [OF p(1) l])
  then have "ds \<noteq> []" by (auto simp: buen_paso_def)
  then show ?case using b "3.prems"(2) ne unfolding p(2) buen_paso_def by simp
qed simp

section \<open>Every run of the program\<close>

definition por_escribir :: "red \<Rightarrow> int list" where
  "por_escribir r = (case prox r of None \<Rightarrow> [] | Some i \<Rightarrow> [i..hasta r])"

definition red_inv :: "int \<Rightarrow> red \<Rightarrow> bool" where
  "red_inv n r \<longleftrightarrow> hasta r = n \<and> linea_ok (prox r = None) (etapas r)
     \<and> salida r @ criba (flujo (por_escribir r) (etapas r)) = filter primo [2..n]"

definition faltan_pasos :: "red \<Rightarrow> nat" where
  "faltan_pasos r = (if prox r = None then 0 else length (por_escribir r) + 1) + pasos (por_escribir r) (etapas r)"

lemma red_inicial_inv: "red_inv n (red_inicial n)"
  by (simp add: red_inv_def red_inicial_def por_escribir_def etapa_nueva_def pasa_def criba_primos)

lemma main_paso_inv:
  assumes "red_inv n r" "main_paso r = Some r'"
  shows "red_inv n r' \<and> faltan_pasos r = Suc (faltan_pasos r')"
proof -
  obtain i e es where r: "prox r = Some i" "etapas r = e # es" "linea_ok False (e # es)" "hasta r = n"
    using assms by (auto simp: main_paso_def red_inv_def split: option.splits list.splits)
  show ?thesis
  proof (cases "i \<le> n")
    case True
    then have v: "r' = r\<lparr>prox := Some (i + 1), etapas := poner i e # es\<rparr>" using assms(2) r by (simp add: main_paso_def)
    have l: "[i..n] = i # [i + 1..n]" using True by (rule upto_rec1)
    show ?thesis using assms(1) r flujo_poner [of i "[i + 1..n]" e es] linea_ok_poner [OF r(3), of i]
      unfolding red_inv_def faltan_pasos_def por_escribir_def v by (simp add: l)
  next
    case False
    then have v: "r' = r\<lparr>prox := None, etapas := cerrar e # es\<rparr>" using assms(2) r by (simp add: main_paso_def)
    have "[i..n] = []" using False by simp
    then show ?thesis using assms(1) r flujo_cerrar [of "[]" e es] linea_ok_cerrar [OF r(3)]
      unfolding red_inv_def faltan_pasos_def por_escribir_def v by simp
  qed
qed

lemma paso_red_inv: "paso_red r r' \<Longrightarrow> red_inv n r \<Longrightarrow> red_inv n r' \<and> faltan_pasos r = Suc (faltan_pasos r')"
proof (induction rule: paso_red.induct)
  case (filtra j r es out)
  have "prox r = None \<longrightarrow> por_escribir r = []" by (simp add: por_escribir_def)
  then have "buen_paso (prox r = None) (por_escribir r) (etapas r) es out"
    using paso_en_bueno [OF filtra.hyps] filtra.prems by (simp add: red_inv_def)
  moreover have "por_escribir (r\<lparr>etapas := es, salida := salida r @ out\<rparr>) = por_escribir r"
    by (simp add: por_escribir_def cong: option.case_cong)
  ultimately show ?case using filtra.prems by (simp add: red_inv_def faltan_pasos_def buen_paso_def)
qed (rule main_paso_inv)

text \<open>A line where no process can move has finished.\<close>

lemma linea_parada:
  "linea_ok c es \<Longrightarrow> c \<Longrightarrow> (\<forall>j. paso_en j es = None) \<Longrightarrow> (\<forall>e\<in>set es. fase e = Fin) \<and> flujo [] es = []"
proof (induction es arbitrary: c)
  case (Cons e es)
  have "filtro_paso e es = None" using Cons.prems(3) [rule_format, of 0] by (auto split: bind_splits prod.splits)
  moreover have "cerrado e" using Cons.prems(1,2) by simp
  ultimately have f: "fase e = Fin" by (auto simp: filtro_paso_def split: fase.splits list.splits)
  show ?case
  proof (cases "es = []")
    case True
    then show ?thesis using f Cons.prems(1) by (simp add: pasa_def)
  next
    case False
    have "paso_en j es = None" for j using Cons.prems(3) [rule_format, of "Suc j"] by (auto split: bind_splits prod.splits)
    then show ?thesis using Cons.IH [of True] False f Cons.prems(1) by (simp add: pasa_def)
  qed
qed simp

lemma red_parada:
  assumes "red_inv n r" "\<forall>r'. \<not> paso_red r r'"
  shows "salida r = filter primo [2..n] \<and> (\<forall>e\<in>set (etapas r). fase e = Fin)"
proof -
  have "main_paso r = None" using assms(2) escribe [of r] by (cases "main_paso r") auto
  moreover obtain e es where e: "etapas r = e # es" using assms(1) by (cases "etapas r") (auto simp: red_inv_def)
  ultimately have p: "prox r = None" by (auto simp: main_paso_def split: option.splits if_splits)
  have "paso_en j (etapas r) = None" for j
    using assms(2) filtra [of j r] by (cases "paso_en j (etapas r)") auto
  then have "(\<forall>e\<in>set (etapas r). fase e = Fin) \<and> flujo [] (etapas r) = []"
    using linea_parada [of True "etapas r"] assms(1) p by (simp add: red_inv_def)
  then show ?thesis using assms(1) p by (simp add: red_inv_def por_escribir_def)
qed

lemma alcanzada_inv: "(paso_red ^^ k) (red_inicial n) r \<Longrightarrow> red_inv n r \<and> faltan_pasos (red_inicial n) = k + faltan_pasos r"
proof (induction k arbitrary: r)
  case 0
  then show ?case using red_inicial_inv [of n] by auto
next
  case (Suc k)
  then obtain q where "(paso_red ^^ k) (red_inicial n) q" "paso_red q r" by auto
  then show ?case using Suc.IH [of q] paso_red_inv [of q r n] by auto
qed

text \<open>
  C39: The sieve of processes prints the primes. For every \<open>n\<close> and every order in which the
  processes run, what has been printed is always a beginning of the list of the primes up
  to \<open>n\<close>, in order; no run has more steps than a bound that depends on \<open>n\<close> only; and when no
  process can go on, all of them have returned and the whole list has been printed.
\<close>

theorem criba_de_procesos:
  assumes "(paso_red ^^ k) (red_inicial n) r"
  shows "(\<exists>resto. filter primo [2..n] = salida r @ resto) \<and> k \<le> faltan_pasos (red_inicial n)
    \<and> ((\<forall>r'. \<not> paso_red r r') \<longrightarrow> salida r = filter primo [2..n] \<and> (\<forall>e\<in>set (etapas r). fase e = Fin))"
  using alcanzada_inv [OF assms] red_parada [of n r] by (auto simp: red_inv_def dest: sym)

text \<open>A whole run for 2: write, read and print, close, and the two processes return.\<close>

lemma criba_de_procesos_witness:
  "\<exists>r. (paso_red ^^ 5) (red_inicial 2) r \<and> salida r = filter primo [2..2] \<and> (\<forall>e\<in>set (etapas r). fase e = Fin)"
proof -
  let ?e = "\<lambda>f c. \<lparr>fase = f, tubo = [], cerrado = c\<rparr>"
  let ?r1 = "\<lparr>prox = Some 3, hasta = 2, etapas = [\<lparr>fase = Espera, tubo = [2], cerrado = False\<rparr>], salida = []\<rparr>"
  let ?r2 = "\<lparr>prox = Some 3, hasta = 2, etapas = [?e (Filtra 2) False, ?e Espera False], salida = [2]\<rparr>"
  let ?r3 = "\<lparr>prox = None, hasta = 2, etapas = [?e (Filtra 2) True, ?e Espera False], salida = [2]\<rparr>"
  let ?r4 = "\<lparr>prox = None, hasta = 2, etapas = [?e Fin True, ?e Espera True], salida = [2]\<rparr>"
  let ?r5 = "\<lparr>prox = None, hasta = 2, etapas = [?e Fin True, ?e Fin True], salida = [2]\<rparr>"
  have "paso_red (red_inicial 2) ?r1"
    by (rule escribe) (simp add: main_paso_def red_inicial_def etapa_nueva_def poner_def)
  moreover have "paso_red ?r1 ?r2"
    using filtra [of 0 ?r1 "[?e (Filtra 2) False, ?e Espera False]" "[2]"] by (simp add: filtro_paso_def etapa_nueva_def)
  moreover have "paso_red ?r2 ?r3" by (rule escribe) (simp add: main_paso_def cerrar_def)
  moreover have "paso_red ?r3 ?r4"
    using filtra [of 0 ?r3 "[?e Fin True, ?e Espera True]" "[]"] by (simp add: filtro_paso_def cerrar_def)
  moreover have "paso_red ?r4 ?r5"
    using filtra [of "Suc 0" ?r4 "[?e Fin True, ?e Fin True]" "[]"] by (simp add: filtro_paso_def)
  ultimately have run: "(paso_red ^^ 5) (red_inicial 2) ?r5" by (simp add: eval_nat_numeral) (blast intro: relcomppI)
  have "paso_en j (etapas ?r5) = None" for j
    by (cases j; cases "j - 1") (auto simp: filtro_paso_def)
  then have "\<forall>r'. \<not> paso_red ?r5 r'" by (auto simp: main_paso_def elim!: paso_red.cases)
  then show ?thesis using run criba_de_procesos [OF run] by blast
qed

end
