(* ===== verification/Xargs.thy ===== *)
theory Xargs
  imports Prelude
begin

text \<open>
  \<open>TP0-fork/xargs.c\<close>: the lines of the input are given to a command as arguments, \<open>NARGS\<close>
  at a time. The input is a string; what the program does is the list of the argument
  vectors that it executes, one after the other. \<open>fork\<close> and the allocations succeed.
\<close>

definition NARGS :: nat where "NARGS = 4"

definition NL :: char where "NL = CHR 0x0A"

text \<open>\<open>getline\<close>: up to the end of the line, and that; none at the end of the file.\<close>

definition getline :: "string \<Rightarrow> (string \<times> string) option" where
  "getline s =
     (if s = [] then None
      else let l = takeWhile (\<lambda>c. c \<noteq> NL) s
           in if length l < length s then Some (l @ [NL], drop (length l + 1) s) else Some (l, []))"

text \<open>\<open>linea[lineas - 1] = 0; strdup(linea)\<close>: the last character goes, and what follows a NUL.\<close>

definition copiar_linea :: "string \<Rightarrow> string" where
  "copiar_linea l = takeWhile (\<lambda>c. c \<noteq> CHR 0x00) (butlast l)"

definition xargs_auxiliar :: "string \<Rightarrow> string list \<Rightarrow> string list" where
  "xargs_auxiliar comando buffer = comando # buffer"

lemma getline_corta: "getline s = Some (l, r) \<Longrightarrow> length r < length s"
  by (auto simp: getline_def Let_def split: if_splits)

text \<open>The loop; the second list is \<open>buffer[1..i]\<close>.\<close>

function xargs_bucle :: "string \<Rightarrow> string \<Rightarrow> string list \<Rightarrow> string list list" where
  "xargs_bucle comando s buffer =
     (case getline s of
        None \<Rightarrow> (if length buffer > 0 then [xargs_auxiliar comando buffer] else [])
      | Some (l, r) \<Rightarrow>
          (let buffer = buffer @ [copiar_linea l] in
           if length buffer = NARGS then xargs_auxiliar comando buffer # xargs_bucle comando r []
           else xargs_bucle comando r buffer))"
  by pat_completeness auto

termination
  by (relation "measure (\<lambda>(_, s, _). length s)") (auto dest: getline_corta)

declare xargs_bucle.simps [simp del]

definition xargs :: "string \<Rightarrow> string \<Rightarrow> string list list" where
  "xargs comando entrada = xargs_bucle comando entrada []"

section \<open>Groups of arguments\<close>

function trozos :: "nat \<Rightarrow> 'a list \<Rightarrow> 'a list list" where
  "trozos n xs = (if xs = [] \<or> n = 0 then [] else take n xs # trozos n (drop n xs))"
  by pat_completeness auto

termination
  by (relation "measure (\<lambda>(_, xs). length xs)") auto

declare trozos.simps [simp del]

text \<open>The lines of a text; the last one may have no end.\<close>

definition texto :: "string list \<Rightarrow> string \<Rightarrow> string" where
  "texto ls resto = concat (map (\<lambda>l. l @ [NL]) ls) @ resto"

definition linea_limpia :: "string \<Rightarrow> bool" where
  "linea_limpia l \<longleftrightarrow> NL \<notin> set l \<and> cstring l"

lemma copiar_linea_limpia: "cstring l \<Longrightarrow> copiar_linea (l @ [c]) = l"
  by (auto simp: copiar_linea_def cstring_def takeWhile_eq_all_conv)

lemma copiar_linea_sin_fin: "cstring l \<Longrightarrow> copiar_linea l = butlast l"
  by (auto simp: copiar_linea_def cstring_def takeWhile_eq_all_conv dest: in_set_butlastD)

lemma getline_texto: "linea_limpia l \<Longrightarrow> getline (texto (l # ls) resto) = Some (l @ [NL], texto ls resto)"
proof -
  assume "linea_limpia l"
  then have "takeWhile (\<lambda>c. c \<noteq> NL) (l @ NL # t) = l" for t by (subst takeWhile_append2) (auto simp: linea_limpia_def)
  then show ?thesis by (simp add: getline_def texto_def Let_def)
qed

lemma getline_resto: "linea_limpia r \<Longrightarrow> r \<noteq> [] \<Longrightarrow> getline (texto [] r) = Some (r, [])"
proof -
  assume r: "linea_limpia r" "r \<noteq> []"
  then have t: "takeWhile (\<lambda>c. c \<noteq> NL) r = r" by (auto simp: linea_limpia_def intro!: takeWhile_eq_all_conv [THEN iffD2])
  show ?thesis using r(2) unfolding getline_def texto_def list.map concat.simps append_Nil t Let_def by simp
qed

lemma trozos_lleno: "length b = NARGS \<Longrightarrow> trozos NARGS (b @ xs) = b # trozos NARGS xs"
  by (subst trozos.simps) (auto simp: NARGS_def)

lemma trozos_corto: "b \<noteq> [] \<Longrightarrow> length b \<le> NARGS \<Longrightarrow> trozos NARGS b = [b]"
  by (subst trozos.simps) (simp add: trozos.simps [of _ "[]"] NARGS_def)

lemma xargs_bucle_fin: "length b < NARGS \<Longrightarrow> xargs_bucle c [] b = map (xargs_auxiliar c) (trozos NARGS b)"
  by (cases "b = []") (simp_all add: xargs_bucle.simps [of _ "[]"] getline_def trozos_corto trozos.simps [of _ "[]"])

lemma xargs_bucle_texto:
  "\<forall>l\<in>set ls. linea_limpia l \<Longrightarrow> linea_limpia r \<Longrightarrow> length b < NARGS
   \<Longrightarrow> xargs_bucle c (texto ls r) b = map (xargs_auxiliar c) (trozos NARGS (b @ ls @ (if r = [] then [] else [butlast r])))"
proof (induction ls arbitrary: b)
  case Nil
  show ?case
  proof (cases "r = []")
    case True
    then show ?thesis using xargs_bucle_fin [OF Nil.prems(3)] by (simp add: texto_def)
  next
    case False
    have c: "copiar_linea r = butlast r" using Nil.prems(2) by (simp add: copiar_linea_sin_fin linea_limpia_def)
    have e: "xargs_bucle c [] (b @ [butlast r]) = map (xargs_auxiliar c) (trozos NARGS (b @ [butlast r]))"
      if "length b + 1 \<noteq> NARGS" using xargs_bucle_fin [of "b @ [butlast r]"] that Nil.prems(3) by simp
    show ?thesis using e False Nil.prems trozos_corto [of "b @ [butlast r]"] xargs_bucle_fin [of "[]" c]
      by (subst xargs_bucle.simps) (auto simp: getline_resto c trozos.simps [of _ "[]"] NARGS_def Let_def)
  qed
next
  case (Cons l ls)
  have c: "copiar_linea (l @ [NL]) = l" using Cons.prems(1) by (simp add: copiar_linea_limpia linea_limpia_def)
  have g: "getline (texto (l # ls) r) = Some (l @ [NL], texto ls r)" using Cons.prems(1) by (simp add: getline_texto)
  show ?case
  proof (cases "length b + 1 = NARGS")
    case True
    then show ?thesis using Cons.IH [of "[]"] Cons.prems trozos_lleno [of "b @ [l]"]
      by (subst xargs_bucle.simps) (simp add: g c NARGS_def)
  next
    case False
    then show ?thesis using Cons.IH [of "b @ [l]"] Cons.prems
      by (subst xargs_bucle.simps) (simp add: g c)
  qed
qed

text \<open>
  C40: \<open>xargs\<close> runs the command on its lines, four by four and in order, the last group with what
  is left. A last line that has no end of line is used too, but without its last character,
  which the program takes for one.
\<close>

theorem xargs_trozos:
  assumes "\<forall>l\<in>set ls. linea_limpia l" "linea_limpia resto"
  shows "xargs c (texto ls resto) = map (\<lambda>b. c # b) (trozos NARGS (ls @ (if resto = [] then [] else [butlast resto])))"
  using xargs_bucle_texto [OF assms, of "[]" c] by (simp add: xargs_def xargs_auxiliar_def NARGS_def)

lemma xargs_trozos_witness:
  "xargs ''echo'' (texto [''a'', ''b'', ''c'', ''d'', ''e''] ''fgh'')
     = [[''echo'', ''a'', ''b'', ''c'', ''d''], [''echo'', ''e'', ''fg'']]"
proof -
  have l: "\<forall>l\<in>set [''a'', ''b'', ''c'', ''d'', ''e'']. linea_limpia l" "linea_limpia ''fgh''"
    by (simp_all add: linea_limpia_def cstring_def NL_def)
  show ?thesis unfolding xargs_trozos [OF l] by (simp add: trozos.simps NARGS_def)
qed

end
