(* ===== verification/Checks.thy ===== *)
theory Checks
  imports Pmap
begin

text \<open>
  The self tests that \<open>mem_init\<close> of \<open>TP2-sched/kern/pmap.c\<close> runs. They are part of the start
  of the kernel: \<open>check_page_free_list\<close> puts the pages that the first page directory maps at
  the head of the free list, and the others move pages of the list and make the page table
  of the region of devices. An assertion that does not hold is a panic.
\<close>

unbundle bit_operations_syntax

definition NPDENTRIES :: uint32 where "NPDENTRIES = 1024"
definition NPTENTRIES :: nat where "NPTENTRIES = 1024"
definition NCPU :: nat where "NCPU = 8"
definition KSTKSIZE :: uint32 where "KSTKSIZE = 8 * PGSIZE"
definition KSTKGAP :: uint32 where "KSTKGAP = 8 * PGSIZE"
definition sizeof_PageInfo :: uint32 where "sizeof_PageInfo = 8"
definition sizeof_Env :: uint32 where "sizeof_Env = 140"

text \<open>\<open>PADDR\<close>: a kernel address as a physical one; it panics on any other address.\<close>

definition PADDR :: "uint32 \<Rightarrow> uint32 option" where
  "PADDR kva = (if kva < KERNBASE then None else Some (kva - KERNBASE))"

definition afirmar :: "bool \<Rightarrow> unit option" where
  "afirmar b = (if b then Some () else None)"

text \<open>\<open>memset\<close> of a whole page, by words.\<close>

definition memset_pagina :: "nat \<Rightarrow> uint32 \<Rightarrow> kernel \<Rightarrow> kernel option" where
  "memset_pagina pp c k = do { f \<leftarrow> page2kva k pp; Some (k\<lparr>mem := (mem k)(f := (\<lambda>_. c * 0x01010101))\<rparr>) }"

section \<open>check_page_free_list\<close>

text \<open>
  The pages from \<open>pp\<close> on, by their links. A list of more pages than there are goes round
  for ever.
\<close>

fun paginas_desde :: "kernel \<Rightarrow> nat option \<Rightarrow> nat \<Rightarrow> nat list option" where
  "paginas_desde k None n = Some []"
| "paginas_desde k (Some pp) 0 = None"
| "paginas_desde k (Some pp) (Suc n) = map_option ((#) pp) (paginas_desde k (pp_link (pages k pp)) n)"

text \<open>
  One of the two lists while they are made: its head (\<open>pp1\<close> or \<open>pp2\<close>) and \<open>tp\<close>, which
  points to the head when it is None and else to a field \<open>pp_link\<close>.
\<close>

type_synonym cola_tp = "nat option \<times> nat option"

definition poner_tp :: "cola_tp \<Rightarrow> nat option \<Rightarrow> kernel \<Rightarrow> cola_tp \<times> kernel" where
  "poner_tp q v k =
     (case snd q of
        None \<Rightarrow> ((v, None), k)
      | Some p \<Rightarrow> (q, con_page p (\<lambda>r. r\<lparr>pp_link := v\<rparr>) k))"

fun separar_bucle :: "uint32 \<Rightarrow> nat option \<Rightarrow> cola_tp \<Rightarrow> cola_tp \<Rightarrow> kernel \<Rightarrow> nat \<Rightarrow> (cola_tp \<times> cola_tp \<times> kernel) option" where
  "separar_bucle pdx_limit None q0 q1 k n = Some (q0, q1, k)"
| "separar_bucle pdx_limit (Some pp) q0 q1 k 0 = None"
| "separar_bucle pdx_limit (Some pp) q0 q1 k (Suc n) =
     (if PDX (page2pa pp) \<ge> pdx_limit then
        let (q, k1) = poner_tp q1 (Some pp) k
        in separar_bucle pdx_limit (pp_link (pages k1 pp)) q0 (fst q, Some pp) k1 n
      else
        let (q, k1) = poner_tp q0 (Some pp) k
        in separar_bucle pdx_limit (pp_link (pages k1 pp)) (fst q, Some pp) q1 k1 n)"

text \<open>The heads have no value before the loop, and are not read before they have one.\<close>

definition separar_libres :: "uint32 \<Rightarrow> kernel \<Rightarrow> kernel option" where
  "separar_libres pdx_limit k =
     do {
       (q0, q1, k1) \<leftarrow> separar_bucle pdx_limit (page_free_list k) (None, None) (None, None) k (npages k);
       let (q1, k2) = poner_tp q1 None k1;
       let (q0, k3) = poner_tp q0 (fst q1) k2;
       Some (k3\<lparr>page_free_list := fst q0\<rparr>)
     }"

fun ensuciar :: "uint32 \<Rightarrow> nat list \<Rightarrow> kernel \<Rightarrow> kernel option" where
  "ensuciar pdx_limit [] k = Some k"
| "ensuciar pdx_limit (pp # ps) k =
     (if PDX (page2pa pp) < pdx_limit then
        do {
          f \<leftarrow> page2kva k pp;
          ensuciar pdx_limit ps (k\<lparr>mem := (mem k)(f := (\<lambda>i. if i < 32 then 0x97979797 else mem k f i))\<rparr>)
        }
      else ensuciar pdx_limit ps k)"

definition pagina_libre_ok :: "uint32 \<Rightarrow> kernel \<Rightarrow> nat \<Rightarrow> bool" where
  "pagina_libre_ok first_free_page k pp \<longleftrightarrow>
     pp < npages k \<and> page2pa pp \<noteq> 0 \<and> page2pa pp \<noteq> IOPHYSMEM \<and> page2pa pp \<noteq> EXTPHYSMEM - PGSIZE
     \<and> page2pa pp \<noteq> EXTPHYSMEM
     \<and> (page2pa pp < EXTPHYSMEM \<or> page2kva k pp \<noteq> None \<and> page2pa pp + KERNBASE \<ge> first_free_page)
     \<and> page2pa pp \<noteq> MPENTRY_PADDR"

definition check_page_free_list :: "bool \<Rightarrow> uint32 \<Rightarrow> uint32 \<Rightarrow> uint32 \<Rightarrow> kernel \<Rightarrow> kernel option" where
  "check_page_free_list only_low_memory np fin nextfree k =
     (let pdx_limit = (if only_low_memory then 1 else NPDENTRIES) in
      do {
        afirmar (page_free_list k \<noteq> None);
        k \<leftarrow> (if only_low_memory then separar_libres pdx_limit k else Some k);
        ps \<leftarrow> paginas_desde k (page_free_list k) (npages k);
        k \<leftarrow> ensuciar pdx_limit ps k;
        (first_free_page, _) \<leftarrow> boot_alloc np fin nextfree 0;
        afirmar (list_all (pagina_libre_ok first_free_page k) ps);
        afirmar (0 < length (filter (\<lambda>pp. page2pa pp < EXTPHYSMEM) ps));
        afirmar (0 < length (filter (\<lambda>pp. \<not> page2pa pp < EXTPHYSMEM) ps));
        Some k
      })"

section \<open>check_page_alloc\<close>

definition check_page_alloc :: "kernel \<Rightarrow> kernel option" where
  "check_page_alloc k =
     do {
       ps \<leftarrow> paginas_desde k (page_free_list k) (npages k);
       let nfree = length ps;
       (pp0, k) \<leftarrow> page_alloc False k; pp0 \<leftarrow> pp0;
       (pp1, k) \<leftarrow> page_alloc False k; pp1 \<leftarrow> pp1;
       (pp2, k) \<leftarrow> page_alloc False k; pp2 \<leftarrow> pp2;
       afirmar (pp1 \<noteq> pp0);
       afirmar (pp2 \<noteq> pp1 \<and> pp2 \<noteq> pp0);
       afirmar (page2pa pp0 < word_of_nat (npages k) * PGSIZE);
       afirmar (page2pa pp1 < word_of_nat (npages k) * PGSIZE);
       afirmar (page2pa pp2 < word_of_nat (npages k) * PGSIZE);
       let fl = page_free_list k;
       let k = k\<lparr>page_free_list := None\<rparr>;
       (pp, k) \<leftarrow> page_alloc False k; afirmar (pp = None);
       k \<leftarrow> page_free pp0 k;
       k \<leftarrow> page_free pp1 k;
       k \<leftarrow> page_free pp2 k;
       (pp0, k) \<leftarrow> page_alloc False k; pp0 \<leftarrow> pp0;
       (pp1, k) \<leftarrow> page_alloc False k; pp1 \<leftarrow> pp1;
       (pp2, k) \<leftarrow> page_alloc False k; pp2 \<leftarrow> pp2;
       afirmar (pp1 \<noteq> pp0);
       afirmar (pp2 \<noteq> pp1 \<and> pp2 \<noteq> pp0);
       (pp, k) \<leftarrow> page_alloc False k; afirmar (pp = None);
       k \<leftarrow> memset_pagina pp0 1 k;
       k \<leftarrow> page_free pp0 k;
       (pp, k) \<leftarrow> page_alloc True k; pp \<leftarrow> pp;
       afirmar (pp0 = pp);
       c \<leftarrow> page2kva k pp;
       afirmar (list_all (\<lambda>i. mem k c i = 0) [0..<1024]);
       let k = k\<lparr>page_free_list := fl\<rparr>;
       k \<leftarrow> page_free pp0 k;
       k \<leftarrow> page_free pp1 k;
       k \<leftarrow> page_free pp2 k;
       ps \<leftarrow> paginas_desde k (page_free_list k) (npages k);
       afirmar (length ps = nfree);
       Some k
     }"

section \<open>check_page\<close>

text \<open>\<open>*pgdir_walk(kern_pgdir, va, 0)\<close>, and the assignment to it.\<close>

definition pte_de :: "uint32 \<Rightarrow> kernel \<Rightarrow> uint32 option" where
  "pte_de va k = do { (pte, _) \<leftarrow> pgdir_walk (kern_pgdir k) va False k; e \<leftarrow> pte; Some (leer k e) }"

definition borrar_pte :: "uint32 \<Rightarrow> kernel \<Rightarrow> kernel option" where
  "borrar_pte va k =
     do { (pte, _) \<leftarrow> pgdir_walk (kern_pgdir k) va False k; e \<leftarrow> pte; Some (escribir (fst e) (snd e) 0 k) }"

text \<open>The part with three pages, until one of them has a page table and two entries.\<close>

definition check_page_insert :: "nat \<Rightarrow> nat \<Rightarrow> nat \<Rightarrow> kernel \<Rightarrow> kernel option" where
  "check_page_insert pp0 pp1 pp2 k =
     do {
       (pp, k) \<leftarrow> page_alloc False k; afirmar (pp = None);
       l \<leftarrow> page_lookup (kern_pgdir k) 0 k; afirmar (l = None);
       (r, k) \<leftarrow> page_insert (kern_pgdir k) pp1 0 PTE_W k; afirmar (r < 0);
       k \<leftarrow> page_free pp0 k;
       (r, k) \<leftarrow> page_insert (kern_pgdir k) pp1 0 PTE_W k; afirmar (r = 0);
       afirmar (PTE_ADDR (mem k (kern_pgdir k) 0) = page2pa pp0);
       pa \<leftarrow> check_va2pa (kern_pgdir k) 0 k; afirmar (pa = page2pa pp1);
       afirmar (pp_ref (pages k pp1) = 1);
       afirmar (pp_ref (pages k pp0) = 1);
       (r, k) \<leftarrow> page_insert (kern_pgdir k) pp2 PGSIZE PTE_W k; afirmar (r = 0);
       pa \<leftarrow> check_va2pa (kern_pgdir k) PGSIZE k; afirmar (pa = page2pa pp2);
       afirmar (pp_ref (pages k pp2) = 1);
       (pp, k) \<leftarrow> page_alloc False k; afirmar (pp = None);
       (r, k) \<leftarrow> page_insert (kern_pgdir k) pp2 PGSIZE PTE_W k; afirmar (r = 0);
       pa \<leftarrow> check_va2pa (kern_pgdir k) PGSIZE k; afirmar (pa = page2pa pp2);
       afirmar (pp_ref (pages k pp2) = 1);
       (pp, k) \<leftarrow> page_alloc False k; afirmar (pp = None);
       ptep \<leftarrow> KADDR k (PTE_ADDR (mem k (kern_pgdir k) (unat (PDX PGSIZE))));
       (p, k) \<leftarrow> pgdir_walk (kern_pgdir k) PGSIZE False k; afirmar (p = Some (ptep, unat (PTX PGSIZE)));
       (r, k) \<leftarrow> page_insert (kern_pgdir k) pp2 PGSIZE (PTE_W OR PTE_U) k; afirmar (r = 0);
       pa \<leftarrow> check_va2pa (kern_pgdir k) PGSIZE k; afirmar (pa = page2pa pp2);
       afirmar (pp_ref (pages k pp2) = 1);
       e \<leftarrow> pte_de PGSIZE k; afirmar (e AND PTE_U \<noteq> 0);
       afirmar (mem k (kern_pgdir k) 0 AND PTE_U \<noteq> 0);
       (r, k) \<leftarrow> page_insert (kern_pgdir k) pp2 PGSIZE PTE_W k; afirmar (r = 0);
       e \<leftarrow> pte_de PGSIZE k; afirmar (e AND PTE_W \<noteq> 0);
       e \<leftarrow> pte_de PGSIZE k; afirmar (e AND PTE_U = 0);
       Some k
     }"

text \<open>Until both entries are gone and the page table is taken back.\<close>

definition check_page_remove :: "nat \<Rightarrow> nat \<Rightarrow> nat \<Rightarrow> kernel \<Rightarrow> kernel option" where
  "check_page_remove pp0 pp1 pp2 k =
     do {
       (r, k) \<leftarrow> page_insert (kern_pgdir k) pp0 PTSIZE PTE_W k; afirmar (r < 0);
       (r, k) \<leftarrow> page_insert (kern_pgdir k) pp1 PGSIZE PTE_W k; afirmar (r = 0);
       e \<leftarrow> pte_de PGSIZE k; afirmar (e AND PTE_U = 0);
       pa \<leftarrow> check_va2pa (kern_pgdir k) 0 k; afirmar (pa = page2pa pp1);
       pa \<leftarrow> check_va2pa (kern_pgdir k) PGSIZE k; afirmar (pa = page2pa pp1);
       afirmar (pp_ref (pages k pp1) = 2);
       afirmar (pp_ref (pages k pp2) = 0);
       (pp, k) \<leftarrow> page_alloc False k; afirmar (pp = Some pp2);
       k \<leftarrow> page_remove (kern_pgdir k) 0 k;
       pa \<leftarrow> check_va2pa (kern_pgdir k) 0 k; afirmar (pa = NOT 0);
       pa \<leftarrow> check_va2pa (kern_pgdir k) PGSIZE k; afirmar (pa = page2pa pp1);
       afirmar (pp_ref (pages k pp1) = 1);
       afirmar (pp_ref (pages k pp2) = 0);
       (r, k) \<leftarrow> page_insert (kern_pgdir k) pp1 PGSIZE 0 k; afirmar (r = 0);
       afirmar (pp_ref (pages k pp1) \<noteq> 0);
       afirmar (pp_link (pages k pp1) = None);
       k \<leftarrow> page_remove (kern_pgdir k) PGSIZE k;
       pa \<leftarrow> check_va2pa (kern_pgdir k) 0 k; afirmar (pa = NOT 0);
       pa \<leftarrow> check_va2pa (kern_pgdir k) PGSIZE k; afirmar (pa = NOT 0);
       afirmar (pp_ref (pages k pp1) = 0);
       afirmar (pp_ref (pages k pp2) = 0);
       (pp, k) \<leftarrow> page_alloc False k; afirmar (pp = Some pp1);
       (pp, k) \<leftarrow> page_alloc False k; afirmar (pp = None);
       afirmar (PTE_ADDR (mem k (kern_pgdir k) 0) = page2pa pp0);
       let k = escribir (kern_pgdir k) 0 0 k;
       afirmar (pp_ref (pages k pp0) = 1);
       Some (con_page pp0 (\<lambda>r. r\<lparr>pp_ref := 0\<rparr>) k)
     }"

text \<open>The arithmetic of \<open>pgdir_walk\<close>, and that a new page table is clear.\<close>

definition check_page_walk :: "nat \<Rightarrow> kernel \<Rightarrow> kernel option" where
  "check_page_walk pp0 k =
     do {
       k \<leftarrow> page_free pp0 k;
       let va = PGSIZE * NPDENTRIES + PGSIZE;
       (ptep, k) \<leftarrow> pgdir_walk (kern_pgdir k) va True k;
       ptep1 \<leftarrow> KADDR k (PTE_ADDR (mem k (kern_pgdir k) (unat (PDX va))));
       afirmar (ptep = Some (ptep1, unat (PTX va)));
       let k = escribir (kern_pgdir k) (unat (PDX va)) 0 k;
       let k = con_page pp0 (\<lambda>r. r\<lparr>pp_ref := 0\<rparr>) k;
       k \<leftarrow> memset_pagina pp0 0xFF k;
       k \<leftarrow> page_free pp0 k;
       (_, k) \<leftarrow> pgdir_walk (kern_pgdir k) 0 True k;
       ptep \<leftarrow> page2kva k pp0;
       afirmar (list_all (\<lambda>i. mem k ptep i AND PTE_P = 0) [0..<NPTENTRIES]);
       let k = escribir (kern_pgdir k) 0 0 k;
       Some (con_page pp0 (\<lambda>r. r\<lparr>pp_ref := 0\<rparr>) k)
     }"

text \<open>The region of devices; the static variable \<open>base\<close> is returned updated.\<close>

definition check_page_mmio :: "uint32 \<Rightarrow> kernel \<Rightarrow> (uint32 \<times> kernel) option" where
  "check_page_mmio base k =
     do {
       (mm1, base, k) \<leftarrow> mmio_map_region base 0 4097 k;
       (mm2, base, k) \<leftarrow> mmio_map_region base 0 4096 k;
       afirmar (mm1 \<ge> MMIOBASE \<and> mm1 + 8096 < MMIOLIM);
       afirmar (mm2 \<ge> MMIOBASE \<and> mm2 + 8096 < MMIOLIM);
       afirmar (mm1 mod PGSIZE = 0 \<and> mm2 mod PGSIZE = 0);
       afirmar (mm1 + 8096 \<le> mm2);
       pa \<leftarrow> check_va2pa (kern_pgdir k) mm1 k; afirmar (pa = 0);
       pa \<leftarrow> check_va2pa (kern_pgdir k) (mm1 + PGSIZE) k; afirmar (pa = PGSIZE);
       pa \<leftarrow> check_va2pa (kern_pgdir k) mm2 k; afirmar (pa = 0);
       pa \<leftarrow> check_va2pa (kern_pgdir k) (mm2 + PGSIZE) k; afirmar (pa = NOT 0);
       e \<leftarrow> pte_de mm1 k; afirmar (e AND (PTE_W OR 0x008 OR 0x010) \<noteq> 0);
       e \<leftarrow> pte_de mm1 k; afirmar (e AND PTE_U = 0);
       k \<leftarrow> borrar_pte mm1 k;
       k \<leftarrow> borrar_pte (mm1 + PGSIZE) k;
       k \<leftarrow> borrar_pte mm2 k;
       Some (base, k)
     }"

definition check_page :: "uint32 \<Rightarrow> kernel \<Rightarrow> (uint32 \<times> kernel) option" where
  "check_page base k =
     do {
       (pp0, k) \<leftarrow> page_alloc False k; pp0 \<leftarrow> pp0;
       (pp1, k) \<leftarrow> page_alloc False k; pp1 \<leftarrow> pp1;
       (pp2, k) \<leftarrow> page_alloc False k; pp2 \<leftarrow> pp2;
       afirmar (pp1 \<noteq> pp0);
       afirmar (pp2 \<noteq> pp1 \<and> pp2 \<noteq> pp0);
       let fl = page_free_list k;
       k \<leftarrow> check_page_insert pp0 pp1 pp2 (k\<lparr>page_free_list := None\<rparr>);
       k \<leftarrow> check_page_remove pp0 pp1 pp2 k;
       k \<leftarrow> check_page_walk pp0 k;
       let k = k\<lparr>page_free_list := fl\<rparr>;
       k \<leftarrow> page_free pp0 k;
       k \<leftarrow> page_free pp1 k;
       k \<leftarrow> page_free pp2 k;
       check_page_mmio base k
     }"

section \<open>check_kern_pgdir and check_page_installed_pgdir\<close>

text \<open>The pages of \<open>n\<close> bytes from \<open>va\<close> on are those from the physical address \<open>pa\<close> on.\<close>

definition check_rango :: "uint32 \<Rightarrow> uint32 \<Rightarrow> uint32 \<Rightarrow> kernel \<Rightarrow> bool" where
  "check_rango n va pa k \<longleftrightarrow>
     list_all (\<lambda>j. let i = word_of_nat j * PGSIZE in check_va2pa (kern_pgdir k) (va + i) k = Some (pa + i))
       [0..<(unat n + 4095) div 4096]"

definition check_pila :: "(nat \<Rightarrow> uint32) \<Rightarrow> nat \<Rightarrow> kernel \<Rightarrow> bool" where
  "check_pila kstacks n k \<longleftrightarrow>
     (let base = KSTACKTOP - (KSTKSIZE + KSTKGAP) * (word_of_nat n + 1) in
      (case PADDR (kstacks n) of None \<Rightarrow> False | Some pa \<Rightarrow> check_rango KSTKSIZE (base + KSTKGAP) pa k)
      \<and> list_all (\<lambda>j. check_va2pa (kern_pgdir k) (base + word_of_nat j * PGSIZE) k = Some (NOT 0)) [0..<8])"

definition check_pde :: "kernel \<Rightarrow> nat \<Rightarrow> bool" where
  "check_pde k i \<longleftrightarrow>
     (let pde = mem k (kern_pgdir k) i in
      if i \<in> {unat (PDX UVPT), unat (PDX (KSTACKTOP - 1)), unat (PDX UPAGES), unat (PDX UENVS), unat (PDX MMIOBASE)}
      then pde AND PTE_P \<noteq> 0
      else if i \<ge> unat (PDX KERNBASE) then pde AND PTE_P \<noteq> 0 \<and> pde AND PTE_W \<noteq> 0
      else pde = 0)"

text \<open>\<open>pags\<close> and \<open>es\<close> are the physical addresses of \<open>pages\<close> and \<open>envs\<close>.\<close>

definition check_kern_pgdir :: "(nat \<Rightarrow> uint32) \<Rightarrow> uint32 \<Rightarrow> uint32 \<Rightarrow> kernel \<Rightarrow> bool" where
  "check_kern_pgdir kstacks pags es k \<longleftrightarrow>
     check_rango (ROUNDUP (word_of_nat (npages k) * sizeof_PageInfo) PGSIZE) UPAGES pags k
     \<and> check_rango (ROUNDUP (word_of_nat NENV * sizeof_Env) PGSIZE) UENVS es k
     \<and> check_rango (word_of_nat (npages k) * PGSIZE) KERNBASE 0 k
     \<and> list_all (\<lambda>n. check_pila kstacks n k) [0..<NCPU]
     \<and> list_all (check_pde k) [0..<unat NPDENTRIES]"

text \<open>The page the kernel reaches at \<open>va\<close> through the page directory in \<open>cr3\<close>.\<close>

definition pagina_cr3 :: "uint32 \<Rightarrow> uint32 \<Rightarrow> kernel \<Rightarrow> nat option" where
  "pagina_cr3 permiso va k =
     (let pde = mem k (cr3 k) (unat (PDX va)); pte = mem k (marco pde) (unat (PTX va))
      in if pde AND permiso = permiso \<and> pte AND permiso = permiso then Some (marco pte) else None)"

definition check_page_installed_pgdir :: "kernel \<Rightarrow> kernel option" where
  "check_page_installed_pgdir k =
     do {
       (pp0, k) \<leftarrow> page_alloc False k; pp0 \<leftarrow> pp0;
       (pp1, k) \<leftarrow> page_alloc False k; pp1 \<leftarrow> pp1;
       (pp2, k) \<leftarrow> page_alloc False k; pp2 \<leftarrow> pp2;
       k \<leftarrow> page_free pp0 k;
       k \<leftarrow> memset_pagina pp1 1 k;
       k \<leftarrow> memset_pagina pp2 2 k;
       (_, k) \<leftarrow> page_insert (kern_pgdir k) pp1 PGSIZE PTE_W k;
       afirmar (pp_ref (pages k pp1) = 1);
       f \<leftarrow> pagina_cr3 PTE_P PGSIZE k; afirmar (mem k f 0 = 0x01010101);
       (_, k) \<leftarrow> page_insert (kern_pgdir k) pp2 PGSIZE PTE_W k;
       f \<leftarrow> pagina_cr3 PTE_P PGSIZE k; afirmar (mem k f 0 = 0x02020202);
       afirmar (pp_ref (pages k pp2) = 1);
       afirmar (pp_ref (pages k pp1) = 0);
       f \<leftarrow> pagina_cr3 (PTE_P OR PTE_W) PGSIZE k;
       let k = escribir f 0 0x03030303 k;
       c \<leftarrow> page2kva k pp2; afirmar (mem k c 0 = 0x03030303);
       k \<leftarrow> page_remove (kern_pgdir k) PGSIZE k;
       afirmar (pp_ref (pages k pp2) = 0);
       afirmar (PTE_ADDR (mem k (kern_pgdir k) 0) = page2pa pp0);
       let k = escribir (kern_pgdir k) 0 0 k;
       afirmar (pp_ref (pages k pp0) = 1);
       page_free pp0 (con_page pp0 (\<lambda>r. r\<lparr>pp_ref := 0\<rparr>) k)
     }"

end
