(* ===== verification/Boot.thy ===== *)
theory Boot
  imports Checks
begin

text \<open>
  The memory set-up of \<open>TP2-sched/kern/pmap.c\<close> (\<open>mem_init\<close>, \<open>mem_init_mp\<close>,
  \<open>i386_detect_memory\<close>) with \<open>kern/kclock.c\<close> and the first page directory, of
  \<open>kern/entrypgdir.c\<close>. The registers of the clock chip, the linker's \<open>end\<close> and the addresses
  of the kernel stacks are arguments. The control registers other than \<open>cr3\<close> are left out.
  The arrays \<open>pages\<close> and \<open>envs\<close> are fields of the state; only their place in memory is
  computed here.
\<close>

unbundle bit_operations_syntax

section \<open>How much memory there is\<close>

definition mc146818_read :: "(uint32 \<Rightarrow> 8 word) \<Rightarrow> uint32 \<Rightarrow> uint32" where
  "mc146818_read rtc reg = ucast (rtc reg)"

definition nvram_read :: "(uint32 \<Rightarrow> 8 word) \<Rightarrow> uint32 \<Rightarrow> uint32" where
  "nvram_read rtc r = mc146818_read rtc r OR push_bit 8 (mc146818_read rtc (r + 1))"

definition MC_NVRAM_START :: uint32 where "MC_NVRAM_START = 0xE"
definition NVRAM_BASELO :: uint32 where "NVRAM_BASELO = MC_NVRAM_START + 7"
definition NVRAM_EXTLO :: uint32 where "NVRAM_EXTLO = MC_NVRAM_START + 9"
definition NVRAM_EXT16LO :: uint32 where "NVRAM_EXT16LO = MC_NVRAM_START + 38"

text \<open>The pages of memory, and those of base memory, which nothing uses.\<close>

definition i386_detect_memory :: "(uint32 \<Rightarrow> 8 word) \<Rightarrow> uint32 \<times> uint32" where
  "i386_detect_memory rtc =
     (let basemem = nvram_read rtc NVRAM_BASELO;
          extmem = nvram_read rtc NVRAM_EXTLO;
          ext16mem = nvram_read rtc NVRAM_EXT16LO * 64;
          totalmem = (if ext16mem \<noteq> 0 then 16 * 1024 + ext16mem
                      else if extmem \<noteq> 0 then 1 * 1024 + extmem
                      else basemem)
      in (totalmem div (PGSIZE div 1024), basemem div (PGSIZE div 1024)))"

section \<open>The address space of the kernel\<close>

fun mem_init_mp_bucle :: "(nat \<Rightarrow> uint32) \<Rightarrow> nat \<Rightarrow> nat \<Rightarrow> kernel \<Rightarrow> kernel option" where
  "mem_init_mp_bucle kstacks i 0 k = Some k"
| "mem_init_mp_bucle kstacks i (Suc n) k =
     do {
       let stack_start = KSTACKTOP - word_of_nat i * (KSTKSIZE + KSTKGAP) - KSTKSIZE;
       pa \<leftarrow> PADDR (kstacks i);
       k1 \<leftarrow> boot_map_region (kern_pgdir k) stack_start KSTKSIZE pa (PTE_W OR PTE_P) k;
       mem_init_mp_bucle kstacks (i + 1) n k1
     }"

definition mem_init_mp :: "(nat \<Rightarrow> uint32) \<Rightarrow> kernel \<Rightarrow> kernel option" where
  "mem_init_mp kstacks k = mem_init_mp_bucle kstacks 0 NCPU k"

definition pagina_cero :: page_info where
  "pagina_cero = \<lparr>pp_link = None, pp_ref = 0\<rparr>"

definition env_cero_todo :: env where
  "env_cero_todo = \<lparr>env_tf = tf_cero, env_link = None, env_id = 0, env_parent_id = 0, env_type = 0,
     env_status = ENV_FREE, env_runs = 0, env_cpunum = 0, env_pgdir = None, env_pgfault_upcall = 0,
     env_ipc_recving = False, env_ipc_dstva = 0, env_ipc_value = 0, env_ipc_from = 0, env_ipc_perm = 0,
     env_priority = 0, env_start_time = 0, env_finish_time = 0, env_count = 0\<rparr>"

text \<open>
  The part of \<open>mem_init\<close> before the mappings: the page directory and the arrays, each taken
  with \<open>boot_alloc\<close>, and the list of free pages. The result has the physical addresses of
  \<open>pages\<close> and \<open>envs\<close> and the static variable of \<open>boot_alloc\<close>. \<open>page_init\<close> calls \<open>boot_alloc(0)\<close> when there are pages past 1 MB.
\<close>

definition mem_init_arreglos :: "(uint32 \<Rightarrow> 8 word) \<Rightarrow> uint32 \<Rightarrow> kernel \<Rightarrow> (uint32 \<times> uint32 \<times> uint32 \<times> kernel) option" where
  "mem_init_arreglos rtc fin k =
     (let np = fst (i386_detect_memory rtc);
          k = k\<lparr>npages := unat np\<rparr>
      in do {
        (dir, nextfree) \<leftarrow> boot_alloc np fin 0 PGSIZE;
        dir_pa \<leftarrow> PADDR dir;
        let p = unat (PGNUM dir_pa);
        let k = k\<lparr>kern_pgdir := p, mem := (mem k)(p := (\<lambda>_. 0))\<rparr>;
        let k = escribir p (unat (PDX UVPT)) (dir_pa OR PTE_U OR PTE_P) k;
        (pags, nextfree) \<leftarrow> boot_alloc np fin nextfree (np * sizeof_PageInfo);
        let k = k\<lparr>pages := (\<lambda>i. if i < npages k then pagina_cero else pages k i)\<rparr>;
        (es, nextfree) \<leftarrow> boot_alloc np fin nextfree (word_of_nat NENV * sizeof_Env);
        let k = k\<lparr>envs := (\<lambda>i. if i < NENV then env_cero_todo else envs k i)\<rparr>;
        primera \<leftarrow> (if npages k > unat (PGNUM EXTPHYSMEM)
                    then do { (r, _) \<leftarrow> boot_alloc np fin nextfree 0; PADDR r } else Some 0);
        pags_pa \<leftarrow> PADDR pags;
        es_pa \<leftarrow> PADDR es;
        Some (pags_pa, es_pa, nextfree, page_init (unat (PGNUM primera)) k)
      })"

text \<open>
  The part with the first page directory in force, self tests included; the static variable
  of \<open>mmio_map_region\<close>, which nothing modelled reads later, is dropped.
\<close>

definition mem_init_mapas :: "(uint32 \<Rightarrow> 8 word) \<Rightarrow> uint32 \<Rightarrow> (nat \<Rightarrow> uint32) \<Rightarrow> kernel \<Rightarrow> (uint32 \<times> kernel) option" where
  "mem_init_mapas rtc fin kstacks k =
     do {
       let np = fst (i386_detect_memory rtc);
       (pags, es, nextfree, k) \<leftarrow> mem_init_arreglos rtc fin k;
       k \<leftarrow> check_page_free_list True np fin nextfree k;
       k \<leftarrow> check_page_alloc k;
       (_, k) \<leftarrow> check_page MMIOBASE k;
       let pages_size = np * sizeof_PageInfo;
       let envs_size = word_of_nat NENV * sizeof_Env;
       k \<leftarrow> boot_map_region (kern_pgdir k) UPAGES (ROUNDUP pages_size PGSIZE) pags (PTE_U OR PTE_P) k;
       k \<leftarrow> boot_map_region (kern_pgdir k) UENVS (ROUNDUP envs_size PGSIZE) es (PTE_U OR PTE_P) k;
       k \<leftarrow> boot_map_region (kern_pgdir k) KERNBASE (push_bit 28 1) 0 (PTE_W OR PTE_P) k;
       k \<leftarrow> mem_init_mp kstacks k;
       afirmar (check_kern_pgdir kstacks pags es k);
       Some (nextfree, k)
     }"

definition mem_init :: "(uint32 \<Rightarrow> 8 word) \<Rightarrow> uint32 \<Rightarrow> (nat \<Rightarrow> uint32) \<Rightarrow> kernel \<Rightarrow> kernel option" where
  "mem_init rtc fin kstacks k =
     do {
       (nextfree, k) \<leftarrow> mem_init_mapas rtc fin kstacks k;
       k \<leftarrow> check_page_free_list False (fst (i386_detect_memory rtc)) fin nextfree (k\<lparr>cr3 := kern_pgdir k\<rparr>);
       check_page_installed_pgdir k
     }"

section \<open>The first page directory (kern/entrypgdir.c)\<close>

definition entry_pgdir :: "nat \<Rightarrow> uint32" where
  "entry_pgdir i =
     (if i = 0 then 0x00000 + PTE_P + PTE_PS
      else if i = unat (PDX KERNBASE) then 0x00000 + PTE_P + PTE_W + PTE_PS
      else 0)"

end
