(* ===== verification/Elf.thy ===== *)
theory Elf
  imports Trap
begin

text \<open>
  Loading a program: \<open>load_icode\<close> and \<open>env_create\<close> of \<open>TP2-sched/kern/env.c\<close> with the
  headers of \<open>inc/elf.h\<close>. The image is a function from offsets to bytes. The kernel writes
  the segments at the addresses of the program, byte by byte, through the page directory in
  \<open>cr3\<close>; an address it cannot write is a page fault in the kernel, which panics. Offsets in
  the image are numbers, not pointers, so they do not wrap around.
\<close>

unbundle bit_operations_syntax

type_synonym imagen = "nat \<Rightarrow> 8 word"

section \<open>Headers (inc/elf.h)\<close>

definition ELF_MAGIC :: uint32 where "ELF_MAGIC = 0x464C457F"
definition ELF_PROG_LOAD :: uint32 where "ELF_PROG_LOAD = 1"

record elf =
  e_magic :: uint32
  e_elf :: "8 word list"
  e_type :: "16 word"
  e_machine :: "16 word"
  e_version :: uint32
  e_entry :: uint32
  e_phoff :: uint32
  e_shoff :: uint32
  e_flags :: uint32
  e_ehsize :: "16 word"
  e_phentsize :: "16 word"
  e_phnum :: "16 word"
  e_shentsize :: "16 word"
  e_shnum :: "16 word"
  e_shstrndx :: "16 word"

record proghdr =
  p_type :: uint32
  p_offset :: uint32
  p_va :: uint32
  p_pa :: uint32
  p_filesz :: uint32
  p_memsz :: uint32
  p_flags :: uint32
  p_align :: uint32

text \<open>Fields in the image, little-endian.\<close>

definition img16 :: "imagen \<Rightarrow> nat \<Rightarrow> 16 word" where
  "img16 b i = ucast (b i) OR push_bit 8 (ucast (b (i + 1)))"

definition img32 :: "imagen \<Rightarrow> nat \<Rightarrow> uint32" where
  "img32 b i = ucast (img16 b i) OR push_bit 16 (ucast (img16 b (i + 2)))"

definition leer_elf :: "imagen \<Rightarrow> elf" where
  "leer_elf b = \<lparr>e_magic = img32 b 0, e_elf = map b [4..<16], e_type = img16 b 16, e_machine = img16 b 18,
     e_version = img32 b 20, e_entry = img32 b 24, e_phoff = img32 b 28, e_shoff = img32 b 32,
     e_flags = img32 b 36, e_ehsize = img16 b 40, e_phentsize = img16 b 42, e_phnum = img16 b 44,
     e_shentsize = img16 b 46, e_shnum = img16 b 48, e_shstrndx = img16 b 50\<rparr>"

definition leer_proghdr :: "imagen \<Rightarrow> nat \<Rightarrow> proghdr" where
  "leer_proghdr b i = \<lparr>p_type = img32 b i, p_offset = img32 b (i + 4), p_va = img32 b (i + 8),
     p_pa = img32 b (i + 12), p_filesz = img32 b (i + 16), p_memsz = img32 b (i + 20),
     p_flags = img32 b (i + 24), p_align = img32 b (i + 28)\<rparr>"

text \<open>The headers from \<open>ph\<close> to \<open>ph_last\<close>, 32 bytes each.\<close>

definition proghdrs :: "imagen \<Rightarrow> proghdr list" where
  "proghdrs b = map (\<lambda>n. leer_proghdr b (unat (e_phoff (leer_elf b)) + 32 * n)) [0..<unat (e_phnum (leer_elf b))]"

section \<open>Writing through the page tables\<close>

definition marco_kernel :: "kernel \<Rightarrow> nat \<Rightarrow> uint32 \<Rightarrow> nat option" where
  "marco_kernel k pd va =
     (let pide = PTE_P OR PTE_W; pde = mem k pd (unat (PDX va)); pte = mem k (marco pde) (unat (PTX va))
      in if pde AND pide = pide \<and> pte AND pide = pide then Some (marco pte) else None)"

definition guardar_byte :: "uint32 \<Rightarrow> 8 word \<Rightarrow> kernel \<Rightarrow> kernel option" where
  "guardar_byte va b k =
     do { f \<leftarrow> marco_kernel k (cr3 k) va; Some (poner_byte f (unat (PGOFF va)) (ucast b) k) }"

fun copiar_va :: "uint32 \<Rightarrow> 8 word list \<Rightarrow> kernel \<Rightarrow> kernel option" where
  "copiar_va va [] k = Some k"
| "copiar_va va (b # bs) k = do { k1 \<leftarrow> guardar_byte va b k; copiar_va (va + 1) bs k1 }"

definition memset_va :: "uint32 \<Rightarrow> 8 word \<Rightarrow> uint32 \<Rightarrow> kernel \<Rightarrow> kernel option" where
  "memset_va va c n k = copiar_va va (replicate (unat n) c) k"

definition memcpy_va :: "uint32 \<Rightarrow> imagen \<Rightarrow> uint32 \<Rightarrow> uint32 \<Rightarrow> kernel \<Rightarrow> kernel option" where
  "memcpy_va va b off n k = copiar_va va (map b [unat off..<unat off + unat n]) k"

section \<open>load_icode and env_create\<close>

definition load_segmento :: "nat \<Rightarrow> imagen \<Rightarrow> proghdr \<Rightarrow> kernel \<Rightarrow> kernel option" where
  "load_segmento e b ph k =
     (if p_type ph \<noteq> ELF_PROG_LOAD then Some k
      else do {
        k1 \<leftarrow> region_alloc e (p_va ph) (p_memsz ph) k;
        k2 \<leftarrow> memset_va (p_va ph) 0 (p_memsz ph) k1;
        memcpy_va (p_va ph) b (p_offset ph) (p_filesz ph) k2
      })"

fun load_segmentos :: "nat \<Rightarrow> imagen \<Rightarrow> proghdr list \<Rightarrow> kernel \<Rightarrow> kernel option" where
  "load_segmentos e b [] k = Some k"
| "load_segmentos e b (ph # phs) k = do { k1 \<leftarrow> load_segmento e b ph k; load_segmentos e b phs k1 }"

definition load_icode :: "nat \<Rightarrow> imagen \<Rightarrow> kernel \<Rightarrow> kernel option" where
  "load_icode e b k =
     (if e_magic (leer_elf b) \<noteq> ELF_MAGIC then None
      else do {
        pd \<leftarrow> env_pgdir (envs k e);
        k1 \<leftarrow> load_segmentos e b (proghdrs b) (k\<lparr>cr3 := pd\<rparr>);
        k2 \<leftarrow> region_alloc e (USTACKTOP - PGSIZE) PGSIZE k1;
        let k3 = con_env e (\<lambda>r. r\<lparr>env_tf := (env_tf r)\<lparr>tf_eip := e_entry (leer_elf b)\<rparr>\<rparr>) k2;
        Some (k3\<lparr>cr3 := kern_pgdir k3\<rparr>)
      })"

definition env_create :: "imagen \<Rightarrow> nat \<Rightarrow> kernel \<Rightarrow> kernel option" where
  "env_create b tipo k =
     do {
       (err, env, k1) \<leftarrow> env_alloc 0 k;
       if err < 0 then None
       else do {
         e \<leftarrow> env;
         k2 \<leftarrow> load_icode e b k1;
         Some (con_env e (\<lambda>r. r\<lparr>env_type := tipo\<rparr>) k2)
       }
     }"

end
