(* ===== verification/Init.thy ===== *)
theory Init
  imports Boot Elf
begin

text \<open>
  \<open>i386_init\<close> of \<open>TP2-sched/kern/init.c\<close> as built without \<open>TEST\<close>: memory, the table of
  environments, two programs, and the scheduler. Left out, since nothing of the modelled
  state depends on it: the console and the traps, the interrupt controllers, the table of
  processors, the other processors (\<open>boot_aps\<close>) and the kernel lock.
\<close>

definition i386_init :: "planificador \<Rightarrow> (uint32 \<Rightarrow> 8 word) \<Rightarrow> uint32 \<Rightarrow> (nat \<Rightarrow> uint32)
    \<Rightarrow> imagen \<Rightarrow> imagen \<Rightarrow> kernel \<Rightarrow> (destino \<times> kernel) option" where
  "i386_init plan rtc fin kstacks prioridadunica prioridadesfork k =
     do {
       k1 \<leftarrow> mem_init rtc fin kstacks k;
       let k2 = env_init k1;
       k3 \<leftarrow> env_create prioridadunica 0 k2;
       k4 \<leftarrow> env_create prioridadesfork 0 k3;
       sched_yield plan k4
     }"

end
