(* ===== verification/Elf_Mem.thy ===== *)
theory Elf_Mem
  imports Elf User_Claims Trap_Claims
begin

text \<open>
  The memory of a program by bytes, and what \<open>region_alloc\<close> and the writes of the loader do
  to it.
\<close>

unbundle bit_operations_syntax

section \<open>Bytes of an address space\<close>

definition byte_en :: "kernel \<Rightarrow> nat \<Rightarrow> nat \<Rightarrow> uint32 option" where
  "byte_en k pd a =
     (if entrada k pd (a div 4096) = 0 then None
      else Some (leer_byte k (marco (entrada k pd (a div 4096))) (a mod 4096)))"

lemma byte_palabra:
  assumes "palabra k' d (a div 4096) = palabra k d (a div 4096)"
  shows "byte_en k' d a = byte_en k d a"
proof -
  have w: "palabra k' d (a div 4096) (a mod 4096 div 4) = palabra k d (a div 4096) (a mod 4096 div 4)" using assms by simp
  then show ?thesis by (auto simp: byte_en_def palabra_def leer_byte_def split: if_splits)
qed

lemma NPAG_byte: "a < 4096 * NPAG \<longleftrightarrow> a div 4096 < NPAG"
  by (simp add: div_less_iff_less_mult mult.commute)

section \<open>One page of a region\<close>

lemma perm_region: "page2pa p OR (PTE_U OR PTE_W) OR PTE_P = entrada_privada p"
proof -
  have "(PTE_U OR PTE_W) OR PTE_P = (PTE_P OR PTE_U OR perm_privada) OR PTE_P"
    by (simp add: perm_privada_def pte_flags)
  then show ?thesis unfolding entrada_privada_def by (simp only: or.assoc)
qed

definition region_hecha :: "nat set \<Rightarrow> nat \<Rightarrow> nat set \<Rightarrow> kernel \<Rightarrow> kernel \<Rightarrow> bool" where
  "region_hecha D pd Q k k' \<longleftrightarrow> solo_vm k k' \<and> (\<forall>d\<in>D - {pd}. mem k' d = mem k d)
     \<and> (\<forall>q\<in>Q. entrada k' pd q AND PTE_W \<noteq> 0)
     \<and> (\<forall>d\<in>D. \<forall>r<NPAG. \<not> (d = pd \<and> r \<in> Q) \<longrightarrow> entrada k' d r = entrada k d r \<and> palabra k' d r = palabra k d r)"

lemma region_pagina:
  assumes ok: "memorias_ok D extra (p # y # ys) k" and pd: "pd \<in> D" and q: "q < NPAG"
  shows "\<exists>k1 k' xs'. page_alloc False k = Some (Some p, k1) \<and> page_insert pd p (pagina_va q) (PTE_U OR PTE_W) k1 = Some (0, k')
    \<and> memorias_ok D extra xs' k' \<and> length ys \<le> length xs' \<and> region_hecha D pd {q} k k'"
proof -
  note M = memorias_okD [OF ok]
  let ?va = "pagina_va q" and ?xs = "y # ys"
  have q20: "q < 1048576" using q by (simp add: NPAG_def)
  have g: "unat (PGNUM ?va) = q" using q20 by (simp add: unat_PGNUM unat_pagina_va)
  have va: "unat (PDX ?va) < NPDU" using NPAG_indices(1) [OF q] by (simp add: PDX_de_PGNUM g)
  let ?k1 = "k\<lparr>page_free_list := pp_link (pages k p), pages := (pages k)(p := (pages k p)\<lparr>pp_link := None\<rparr>),
    mem := (if False then (mem k)(p := (\<lambda>_. 0)) else mem k)\<rparr>"
  note a = page_alloc_vm(1,2,9-13) [OF M(1), where zero = False] and a' = page_alloc_vm(3-8) [OF M(1)]
  have "refs D extra ?k1 p = 0" using a'(5) a(6) by (simp add: refs_def)
  then have ct: "contada D extra ?xs ?k1 p" using a' a(5) by (simp add: contada_def)
  have pe: "es_perm (PTE_U OR PTE_W)" by simp
  have nv: "\<not> (mem ?k1 pd (unat (PDX ?va)) = 0 \<and> ?xs = [])" by simp
  obtain k' xs' where i: "page_insert pd p ?va (PTE_U OR PTE_W) ?k1 = Some (0, k')" "vm_ok D extra xs' k'"
    "cambio D pd ?va (page2pa p OR (PTE_U OR PTE_W) OR PTE_P) ?k1 ?xs k' xs'"
    using insert_cambio [OF a(2) pd va ct pe nv] by (elim exE conjE) (rule that)
  note c = i(3) [unfolded perm_region]
  have p20: "p < 2 ^ 20" using a'(1) estructuraD(1) [OF vm_okD(1) [OF M(1)]] by simp
  have e1: "entrada ?k1 d r = entrada k d r \<and> palabra ?k1 d r = palabra k d r" if "d \<in> D" "r < NPAG" for d r
  proof -
    have "entrada ?k1 d r = entrada k d r" using a(3) [OF that(1) NPAG_indices(1) [OF that(2)]] by (simp add: entrada_def)
    then show ?thesis using palabra_cong [of ?k1 d r k] by simp
  qed
  have en: "\<forall>d\<in>D. \<forall>r<NPAG. entrada k' d r = (if d = pd \<and> r = q then entrada_privada p else if False then 0 else entrada k d r)"
    using entrada_cambio [OF c] e1 by (auto simp: g)
  have pa: "palabra k' d r = palabra k d r" if "d \<in> D" "r < NPAG" "\<not> (d = pd \<and> r = q)" for d r
    using palabra_cambio [OF a(2) c that(1,2)] that(3) e1 [OF that(1,2)] by (simp add: g)
  have "espacio_ok D ?k1" using M(2) by (simp add: espacio_ok_def)
  then have "espacio_ok D k'" by (rule espacio_cambio [OF _ c va])
  moreover note nueva_privada(1,2) [OF ok _ pd q p20 en]
  ultimately have mo: "memorias_ok D extra xs' k'" using i(2) by (simp add: memorias_ok_def)
  have l: "length ys \<le> length xs'" using cambioD(5) [OF c] by (simp split: if_splits)
  have "solo_vm k k'" using cambioD(1) [OF c] by (rule solo_vm_trans [rotated]) (simp add: solo_vm_def)
  moreover have "mem k' d = mem k d" if "d \<in> D - {pd}" for d
    using cambioD(4) [OF c, of d] a'(3) that by (auto simp: fun_eq_iff)
  ultimately have "region_hecha D pd {q} k k'"
    using en pa pd q by (auto simp: region_hecha_def entrada_privada_bits) (simp add: PTE_W_def)
  with mo l a(1) i(1) show ?thesis by blast
qed

lemma region_hecha_refl: "region_hecha D pd {} k k"
  by (simp add: region_hecha_def)

lemma region_hecha_trans:
  assumes "region_hecha D pd Q k k1" "region_hecha D pd R k1 k'" "pd \<in> D" "\<forall>q\<in>Q \<union> R. q < NPAG" "Q \<inter> R = {}"
  shows "region_hecha D pd (Q \<union> R) k k'"
  unfolding region_hecha_def
proof (intro conjI ballI allI impI)
  show "solo_vm k k'" using assms(1,2) solo_vm_trans by (auto simp: region_hecha_def)
  show "mem k' d = mem k d" if "d \<in> D - {pd}" for d using assms(1,2) that by (simp add: region_hecha_def)
  fix d r assume d: "d \<in> D" "r < NPAG" "\<not> (d = pd \<and> r \<in> Q \<union> R)"
  then have "entrada k1 d r = entrada k d r \<and> palabra k1 d r = palabra k d r"
    "entrada k' d r = entrada k1 d r \<and> palabra k' d r = palabra k1 d r"
    using assms(1,2) by (auto simp: region_hecha_def)
  then show "entrada k' d r = entrada k d r" "palabra k' d r = palabra k d r" by simp_all
next
  fix q assume q: "q \<in> Q \<union> R"
  show "entrada k' pd q AND PTE_W \<noteq> 0"
  proof (cases "q \<in> R")
    case True
    then show ?thesis using assms(2) by (simp add: region_hecha_def)
  next
    case False
    then have "entrada k' pd q = entrada k1 pd q" "q \<in> Q" using assms(2,3,4) q by (auto simp: region_hecha_def)
    then show ?thesis using assms(1) by (simp add: region_hecha_def)
  qed
qed

section \<open>region_alloc\<close>

lemma region_bucle_vm:
  assumes "memorias_ok D extra xs k" "pd \<in> D" "q + n \<le> NPAG" "2 * n \<le> length xs" "n < fuel"
  shows "\<exists>k' xs'. region_bucle pd (pagina_va q) (pagina_va (q + n)) k fuel = Some k' \<and> memorias_ok D extra xs' k'
    \<and> length xs \<le> length xs' + 2 * n \<and> region_hecha D pd {q..<q + n} k k'"
  using assms
proof (induction n arbitrary: q k xs fuel)
  case 0
  then show ?case using region_hecha_refl by (cases fuel) auto
next
  case (Suc n)
  obtain f where f: "fuel = Suc f" "n < f" using Suc.prems(5) by (cases fuel) auto
  obtain p y ys where xs: "xs = p # y # ys" using Suc.prems(4) by (cases xs; cases "tl xs") auto
  have q: "q < NPAG" "q < 1048576" "q + Suc n < 1048576" using Suc.prems(3) by (auto simp: NPAG_def)
  obtain k1 k2 xs2 where s: "page_alloc False k = Some (Some p, k1)"
      "page_insert pd p (pagina_va q) (PTE_U OR PTE_W) k1 = Some (0, k2)" "memorias_ok D extra xs2 k2" "length ys \<le> length xs2"
      "region_hecha D pd {q} k k2"
    using region_pagina [OF Suc.prems(1) [unfolded xs] Suc.prems(2) q(1)] by (elim exE conjE) (rule that)
  obtain k' xs' where r: "region_bucle pd (pagina_va (Suc q)) (pagina_va (Suc q + n)) k2 f = Some k'" "memorias_ok D extra xs' k'"
      "length xs2 \<le> length xs' + 2 * n" "region_hecha D pd {Suc q..<Suc q + n} k2 k'"
    using Suc.IH [OF s(3) Suc.prems(2) _ _ f(2), of "Suc q"] Suc.prems(3,4) s(4) xs by auto
  have "{q} \<union> {Suc q..<Suc q + n} = {q..<q + Suc n}" by auto
  moreover have "region_hecha D pd ({q} \<union> {Suc q..<Suc q + n}) k k'"
    by (rule region_hecha_trans [OF s(5) r(4) Suc.prems(2)]) (use Suc.prems(3) in auto)
  ultimately have "region_hecha D pd {q..<q + Suc n} k k'" by simp
  moreover have "pagina_va q < pagina_va (q + Suc n)" using q by (subst pagina_va_less) simp_all
  ultimately show ?case using r s f(1) xs by (auto simp: pagina_va_suma)
qed

text \<open>The pages of a range of bytes.\<close>

definition paginas_de :: "uint32 \<Rightarrow> uint32 \<Rightarrow> nat set" where
  "paginas_de va len = {unat va div 4096..<(unat va + unat len + 4095) div 4096}"

lemma region_alloc_vm:
  assumes ok: "memorias_ok D extra xs k" and e: "env_pgdir (envs k e) = Some pd" "pd \<in> D"
    and r: "unat va + unat len \<le> 4096 * NPAG" and xs: "2 * card (paginas_de va len) \<le> length xs"
  shows "\<exists>k' xs'. region_alloc e va len k = Some k' \<and> memorias_ok D extra xs' k'
    \<and> length xs \<le> length xs' + 2 * card (paginas_de va len) \<and> region_hecha D pd (paginas_de va len) k k'"
proof -
  let ?lo = "unat va div 4096" and ?hi = "(unat va + unat len + 4095) div 4096"
  have b: "unat va + unat len + 4095 < 4294967296" using r by (simp add: NPAG_def)
  then have s: "unat (va + len) = unat va + unat len" by (intro unat_add_lem [THEN iffD1]) simp
  have hi: "ROUNDUP (va + len) PGSIZE = pagina_va ?hi" using ROUNDUP_pagina [of "va + len"] b by (simp add: s)
  have "?hi \<le> (4096 * NPAG + 4095) div 4096" using r by (intro div_le_mono) simp
  then have h: "?hi \<le> NPAG" by (simp add: NPAG_def)
  have U: "UTOP = pagina_va NPAG" by (simp add: pagina_va_def UTOP_valor NPAG_def)
  have nu: "\<not> pagina_va ?hi > UTOP" using h unfolding U by (subst pagina_va_less) (simp_all add: NPAG_def)
  have lo: "?lo \<le> ?hi" by (intro div_le_mono) simp
  have lt: "pagina_va ?lo < pagina_va ?hi \<longleftrightarrow> ?lo < ?hi" using lo h by (intro pagina_va_less) (simp_all add: NPAG_def)
  have c: "card (paginas_de va len) = ?hi - ?lo" by (simp add: paginas_de_def)
  show ?thesis
  proof (cases "?lo < ?hi")
    case False
    then have "region_alloc e va len k = Some k" using nu lt by (simp add: region_alloc_def hi ROUNDDOWN_pagina)
    moreover have "paginas_de va len = {}" using False by (simp add: paginas_de_def)
    ultimately show ?thesis using ok region_hecha_refl by auto
  next
    case True
    have "region_alloc e va len k = region_bucle pd (pagina_va ?lo) (pagina_va ?hi) k (2 ^ 20)"
      using nu lt True e(1) by (simp add: region_alloc_def hi ROUNDDOWN_pagina)
    moreover have l: "?lo + (?hi - ?lo) \<le> NPAG" "?hi - ?lo < 2 ^ 20" using lo h by (simp_all add: NPAG_def)
    moreover note region_bucle_vm [OF ok e(2) l(1) xs [unfolded c] l(2)]
    ultimately show ?thesis using lo by (simp add: c paginas_de_def)
  qed
qed

section \<open>Writing\<close>

text \<open>What the loader writes is a map from addresses to bytes.\<close>

definition escrita :: "nat set \<Rightarrow> nat \<Rightarrow> (nat \<rightharpoonup> 8 word) \<Rightarrow> kernel \<Rightarrow> kernel \<Rightarrow> bool" where
  "escrita D pd f k k' \<longleftrightarrow> (\<exists>m. k' = k\<lparr>mem := m\<rparr>) \<and> (\<forall>d\<in>D. mem k' d = mem k d) \<and> (\<forall>d\<in>D. \<forall>r<NPAG. entrada k' d r = entrada k d r)
     \<and> (\<forall>d\<in>D. \<forall>a<4096 * NPAG. byte_en k' d a =
          (case (if d = pd then f a else None) of None \<Rightarrow> byte_en k d a | Some b \<Rightarrow> Some (ucast b)))"

lemma escrita_refl: "escrita D pd Map.empty k k"
  by (simp add: escrita_def) (rule exI [of _ "mem k"], simp)

lemma escrita_trans:
  assumes "escrita D pd f k k1" "escrita D pd g k1 k'"
  shows "escrita D pd (f ++ g) k k'"
proof -
  have "byte_en k' d a = (case (if d = pd then (f ++ g) a else None) of None \<Rightarrow> byte_en k d a | Some b \<Rightarrow> Some (ucast b))"
    if "d \<in> D" "a < 4096 * NPAG" for d a
  proof -
    have "byte_en k1 d a = (case (if d = pd then f a else None) of None \<Rightarrow> byte_en k d a | Some b \<Rightarrow> Some (ucast b))"
      "byte_en k' d a = (case (if d = pd then g a else None) of None \<Rightarrow> byte_en k1 d a | Some b \<Rightarrow> Some (ucast b))"
      using assms that unfolding escrita_def by blast+
    then show ?thesis by (cases "d = pd"; cases "g a") (simp_all add: map_add_def)
  qed
  moreover have "\<exists>m. k' = k\<lparr>mem := m\<rparr>" using assms by (auto simp: escrita_def)
  ultimately show ?thesis using assms by (simp add: escrita_def)
qed

lemma marco_kernel_entrada:
  assumes vm: "vm_ok D extra xs k" and es: "espacio_ok D k" and d: "pd \<in> D" and q: "unat (PGNUM va) < NPAG"
    and w: "entrada k pd (unat (PGNUM va)) AND PTE_W \<noteq> 0"
  shows "marco_kernel k pd va = Some (marco (entrada k pd (unat (PGNUM va))))"
proof -
  let ?e = "entrada k pd (unat (PGNUM va))" and ?i = "unat (PDX va)"
  have i: "?i < NPDU" using NPAG_indices(1) [OF q] by (simp add: PDX_de_PGNUM)
  have e0: "?e \<noteq> 0" using w by auto
  then have m: "mem k pd ?i \<noteq> 0" and r: "?e = mem k (marco (mem k pd ?i)) (unat (PTX va))"
    by (auto simp: entrada_ranura pte_en_def tabla_def split: if_splits)
  have "mem k pd ?i AND PTE_UWP = PTE_UWP" using es d i m by (simp add: espacio_ok_def)
  then have "(mem k pd ?i AND PTE_UWP) AND (PTE_P OR PTE_W) = PTE_UWP AND (PTE_P OR PTE_W)" by simp
  then have p: "mem k pd ?i AND (PTE_P OR PTE_W) = PTE_P OR PTE_W"
    unfolding and.assoc by (simp add: PTE_UWP_def pte_flags)
  have "?e AND PTE_P = PTE_P" using conteoD(2) [OF vm_okD(2) [OF vm] d i PDX_PTX_lt(2)] e0 by (simp add: entrada_ranura)
  then have "?e AND (PTE_P OR PTE_W) = PTE_P OR PTE_W" using bits_W [OF w] by (simp add: bit.conj_disj_distrib)
  with p r show ?thesis by (simp add: marco_kernel_def Let_def)
qed

lemma guardar_byte_vm:
  assumes ok: "memorias_ok D extra xs k" and pd: "cr3 k = pd" "pd \<in> D" and q: "unat va < 4096 * NPAG"
    and w: "entrada k pd (unat va div 4096) AND PTE_W \<noteq> 0"
  shows "\<exists>k'. guardar_byte va b k = Some k' \<and> memorias_ok D extra xs k' \<and> escrita D pd [unat va \<mapsto> b] k k'"
proof -
  note M = memorias_okD [OF ok]
  have g: "unat (PGNUM va) = unat va div 4096" by (rule unat_PGNUM)
  have q': "unat (PGNUM va) < NPAG" using q by (simp add: g NPAG_byte)
  have w': "entrada k pd (unat (PGNUM va)) AND PTE_W \<noteq> 0" using w by (simp add: g)
  then have e0: "entrada k pd (unat (PGNUM va)) \<noteq> 0" by auto
  have pr: "privada D k pd (unat (PGNUM va))" using M(4) pd(2) q' w' by (simp add: privadas_def)
  let ?f = "marco (entrada k pd (unat (PGNUM va)))" and ?o = "unat (PGOFF va)"
  have o: "?o = unat va mod 4096" unfolding PGOFF_def mascaras by (simp add: unat_and_mask)
  let ?k = "poner_byte ?f ?o (ucast b) k"
  have E: "memorias_ok D extra xs ?k"
    unfolding poner_byte_def by (rule escritura_directa(1) [OF ok pd(2) q' e0 pr])
  note F = entrada_marco [OF M(1) pd(2) q' e0]
  have m: "?k = k\<lparr>mem := (mem k)(?f := mem ?k ?f)\<rparr>" by (simp add: poner_byte_def escribir_def)
  have en: "entrada ?k d r = entrada k d r" if "d \<in> D" "r < NPAG" for d r
    using contenido(2) [OF M(1) F(1,2) that, of "mem ?k ?f"] unfolding m [symmetric] .
  have bt: "byte_en ?k d a = (case (if d = pd then [unat va \<mapsto> b] a else None) of None \<Rightarrow> byte_en k d a | Some b \<Rightarrow> Some (ucast b))"
    if d: "d \<in> D" "a < 4096 * NPAG" for d a
  proof -
    have r: "a div 4096 < NPAG" using d(2) NPAG_byte by blast
    have t: "take_bit 8 (ucast b :: uint32) = ucast b" by (rule bit_word_eqI) (auto simp: bit_simps dest: bit_imp_le_length)
    have i: "marco (entrada k d (a div 4096)) = ?f \<and> a mod 4096 = ?o \<longleftrightarrow> d = pd \<and> a = unat va" if "entrada k d (a div 4096) \<noteq> 0"
    proof
      assume "marco (entrada k d (a div 4096)) = ?f \<and> a mod 4096 = ?o"
      moreover from this have "d = pd \<and> a div 4096 = unat va div 4096" using pr d(1) r that unfolding privada_def g by blast
      ultimately show "d = pd \<and> a = unat va" using o by (metis div_mod_decomp)
    qed (simp add: g o)
    show ?thesis
    proof (cases "entrada k d (a div 4096) = 0")
      case True
      with e0 have "\<not> (d = pd \<and> a = unat va)" unfolding g by blast
      with True show ?thesis by (auto simp: byte_en_def en [OF d(1) r])
    next
      case False
      then have "byte_en ?k d a = Some (if d = pd \<and> a = unat va then ucast b else leer_byte k (marco (entrada k d (a div 4096))) (a mod 4096))"
        unfolding byte_en_def en [OF d(1) r] leer_poner_byte i [OF False] t by simp
      moreover have "byte_en k d a = Some (leer_byte k (marco (entrada k d (a div 4096))) (a mod 4096))"
        using False by (simp add: byte_en_def)
      ultimately show ?thesis by (cases "d = pd"; cases "a = unat va") simp_all
    qed
  qed
  have "guardar_byte va b k = Some ?k"
    using marco_kernel_entrada [OF M(1,2) pd(2) q' w'] by (simp add: guardar_byte_def pd(1))
  moreover have "escrita D pd [unat va \<mapsto> b] k ?k"
    unfolding escrita_def using en bt m contenido(5) [OF M(1) F(1,2), of _ "mem ?k ?f", folded m] by blast
  ultimately show ?thesis using E by blast
qed

definition bytes_desde :: "nat \<Rightarrow> 8 word list \<Rightarrow> nat \<rightharpoonup> 8 word" where
  "bytes_desde n bs a = (if n \<le> a \<and> a < n + length bs then Some (bs ! (a - n)) else None)"

lemma bytes_desde_Cons: "[n \<mapsto> b] ++ bytes_desde (Suc n) bs = bytes_desde n (b # bs)"
proof
  fix a
  consider "a < n" | "a = n" | "Suc n \<le> a" by linarith
  then show "([n \<mapsto> b] ++ bytes_desde (Suc n) bs) a = bytes_desde n (b # bs) a"
  proof cases
    case 3
    then have "a - n = Suc (a - Suc n)" by simp
    with 3 show ?thesis by (simp add: bytes_desde_def map_add_def)
  qed (simp_all add: bytes_desde_def map_add_def)
qed

lemma copiar_va_vm:
  assumes "memorias_ok D extra xs k" "cr3 k = pd" "pd \<in> D" "unat va + length bs \<le> 4096 * NPAG"
    and "\<And>a. unat va \<le> a \<Longrightarrow> a < unat va + length bs \<Longrightarrow> entrada k pd (a div 4096) AND PTE_W \<noteq> 0"
  shows "\<exists>k'. copiar_va va bs k = Some k' \<and> memorias_ok D extra xs k' \<and> escrita D pd (bytes_desde (unat va) bs) k k'"
  using assms
proof (induction bs arbitrary: va k)
  case Nil
  moreover have "bytes_desde (unat va) [] = Map.empty" by (auto simp: bytes_desde_def)
  ultimately show ?case using escrita_refl by simp
next
  case (Cons b bs)
  have q: "unat va < 4096 * NPAG" using Cons.prems(4) by simp
  have w: "entrada k pd (unat va div 4096) AND PTE_W \<noteq> 0" using Cons.prems(5) [of "unat va"] by simp
  obtain k1 where k1: "guardar_byte va b k = Some k1" "memorias_ok D extra xs k1" "escrita D pd [unat va \<mapsto> b] k k1"
    using guardar_byte_vm [OF Cons.prems(1,2,3) q w] by blast
  have s: "unat (va + 1) = Suc (unat va)"
    using Cons.prems(4) by (subst unat_add_lem [THEN iffD1]) (simp_all add: NPAG_def)
  have c: "cr3 k1 = pd" using k1(3) Cons.prems(2) by (auto simp: escrita_def)
  have "entrada k1 pd (a div 4096) AND PTE_W \<noteq> 0" if "unat (va + 1) \<le> a" "a < unat (va + 1) + length bs" for a
  proof -
    have "a div 4096 < NPAG" using that Cons.prems(4) by (simp add: s NPAG_byte [symmetric])
    then show ?thesis using Cons.prems(5) [of a] that k1(3) Cons.prems(3) by (simp add: s escrita_def)
  qed
  moreover have "unat (va + 1) + length bs \<le> 4096 * NPAG" using Cons.prems(4) by (simp add: s)
  ultimately obtain k' where
    "copiar_va (va + 1) bs k1 = Some k'" "memorias_ok D extra xs k'" "escrita D pd (bytes_desde (Suc (unat va)) bs) k1 k'"
    using Cons.IH [OF k1(2) c Cons.prems(3), of "va + 1", unfolded s] s by metis
  with k1(1) escrita_trans [OF k1(3), of "bytes_desde (Suc (unat va)) bs" k', unfolded bytes_desde_Cons] show ?case by simp
qed

end
