(* ===== verification/Elf_Claims.thy ===== *)
theory Elf_Claims
  imports Elf_Mem Fork_Claims
begin

text \<open>What \<open>env_create\<close> makes of an image: the environment and its memory.\<close>

unbundle bit_operations_syntax

section \<open>What a segment asks for\<close>

definition cargable :: "proghdr \<Rightarrow> bool" where
  "cargable ph \<longleftrightarrow> p_type ph = ELF_PROG_LOAD"

definition paginas_seg :: "proghdr \<Rightarrow> nat set" where
  "paginas_seg ph = (if cargable ph then paginas_de (p_va ph) (p_memsz ph) else {})"

definition bytes_seg :: "imagen \<Rightarrow> proghdr \<Rightarrow> nat \<rightharpoonup> 8 word" where
  "bytes_seg b ph a =
     (if cargable ph \<and> unat (p_va ph) \<le> a \<and> a < unat (p_va ph) + unat (p_memsz ph)
      then Some (let i = a - unat (p_va ph) in if i < unat (p_filesz ph) then b (unat (p_offset ph) + i) else 0)
      else None)"

definition seg_ok :: "proghdr \<Rightarrow> bool" where
  "seg_ok ph \<longleftrightarrow> cargable ph \<longrightarrow> unat (p_filesz ph) \<le> unat (p_memsz ph)
     \<and> unat (p_va ph) + unat (p_memsz ph) \<le> 4096 * NPAG"

section \<open>Loading\<close>

text \<open>The pages \<open>Q\<close> of \<open>pd\<close> are there and hold \<open>f\<close>; nothing else changes.\<close>

definition cargado :: "nat set \<Rightarrow> nat \<Rightarrow> nat set \<Rightarrow> (nat \<rightharpoonup> 8 word) \<Rightarrow> kernel \<Rightarrow> kernel \<Rightarrow> bool" where
  "cargado D pd Q f k k' \<longleftrightarrow> solo_vm k k' \<and> (\<forall>d\<in>D - {pd}. mem k' d = mem k d)
     \<and> (\<forall>q\<in>Q. entrada k' pd q AND PTE_W \<noteq> 0)
     \<and> (\<forall>d\<in>D. \<forall>r<NPAG. \<not> (d = pd \<and> r \<in> Q) \<longrightarrow> entrada k' d r = entrada k d r)
     \<and> (\<forall>d\<in>D. \<forall>a<4096 * NPAG. \<not> (d = pd \<and> a div 4096 \<in> Q) \<longrightarrow> byte_en k' d a = byte_en k d a)
     \<and> (\<forall>a b. f a = Some b \<longrightarrow> a div 4096 \<in> Q \<and> byte_en k' pd a = Some (ucast b))"

lemma cargado_nada: "cargado D pd {} Map.empty k k"
  by (simp add: cargado_def)

lemma cargado_region:
  assumes r: "region_hecha D pd Q k k1" and e: "escrita D pd f k1 k'" and pd: "pd \<in> D"
    and Q: "\<forall>q\<in>Q. q < NPAG" "\<And>a b. f a = Some b \<Longrightarrow> a div 4096 \<in> Q"
  shows "cargado D pd Q f k k'"
  unfolding cargado_def
proof (intro conjI ballI allI impI)
  have "solo_vm k1 k'" using e by (auto simp: escrita_def solo_vm_def)
  with r show "solo_vm k k'" using solo_vm_trans by (auto simp: region_hecha_def)
  show "mem k' d = mem k d" if "d \<in> D - {pd}" for d using that r e by (simp add: region_hecha_def escrita_def)
  show "entrada k' pd q AND PTE_W \<noteq> 0" if "q \<in> Q" for q using that r e pd Q(1) by (simp add: region_hecha_def escrita_def)
  show "entrada k' d r = entrada k d r" if "d \<in> D" "r < NPAG" "\<not> (d = pd \<and> r \<in> Q)" for d r
    using that r e by (simp add: region_hecha_def escrita_def)
  show "a div 4096 \<in> Q" if "f a = Some b" for a b using Q(2) that .
  show "byte_en k' pd a = Some (ucast b)" if "f a = Some b" for a b
    using Q that e pd by (auto simp: escrita_def NPAG_byte)
  fix d a assume d: "d \<in> D" "a < 4096 * NPAG" "\<not> (d = pd \<and> a div 4096 \<in> Q)"
  have n: "(if d = pd then f a else None) = None" using d(3) Q(2) [of a] by (cases "f a") auto
  have "byte_en k' d a = (case (if d = pd then f a else None) of None \<Rightarrow> byte_en k1 d a | Some b \<Rightarrow> Some (ucast b))"
    using e d(1,2) unfolding escrita_def by blast
  then have "byte_en k' d a = byte_en k1 d a" unfolding n by simp
  also have "\<dots> = byte_en k d a" using r d by (intro byte_palabra) (simp add: region_hecha_def NPAG_byte)
  finally show "byte_en k' d a = byte_en k d a" .
qed

lemma cargado_trans:
  assumes a: "cargado D pd Q f k k1" and b: "cargado D pd R g k1 k'" and pd: "pd \<in> D"
    and Q: "\<forall>q\<in>Q \<union> R. q < NPAG" "Q \<inter> R = {}"
  shows "cargado D pd (Q \<union> R) (f ++ g) k k'"
  unfolding cargado_def
proof (intro conjI ballI allI impI)
  show "solo_vm k k'" using a b solo_vm_trans by (auto simp: cargado_def)
  show "mem k' d = mem k d" if "d \<in> D - {pd}" for d using that a b by (simp add: cargado_def)
  show "entrada k' d r = entrada k d r" if "d \<in> D" "r < NPAG" "\<not> (d = pd \<and> r \<in> Q \<union> R)" for d r
  proof -
    have "entrada k1 d r = entrada k d r" "entrada k' d r = entrada k1 d r" using a b that by (auto simp: cargado_def)
    then show ?thesis by simp
  qed
  show "byte_en k' d x = byte_en k d x" if "d \<in> D" "x < 4096 * NPAG" "\<not> (d = pd \<and> x div 4096 \<in> Q \<union> R)" for d x
  proof -
    have "byte_en k1 d x = byte_en k d x" "byte_en k' d x = byte_en k1 d x" using a b that by (auto simp: cargado_def)
    then show ?thesis by simp
  qed
  show "entrada k' pd q AND PTE_W \<noteq> 0" if "q \<in> Q \<union> R" for q
  proof (cases "q \<in> R")
    case True
    then show ?thesis using b by (simp add: cargado_def)
  next
    case False
    then have "entrada k' pd q = entrada k1 pd q" "q \<in> Q" using b pd Q(1) that by (auto simp: cargado_def)
    then show ?thesis using a by (simp add: cargado_def)
  qed
  fix x c assume "(f ++ g) x = Some c"
  then consider "g x = Some c" | "g x = None" "f x = Some c" by (auto simp: map_add_Some_iff)
  then have "x div 4096 \<in> Q \<union> R \<and> byte_en k' pd x = Some (ucast c)"
  proof cases
    case 1
    then show ?thesis using b by (simp add: cargado_def)
  next
    case 2
    then have x: "x div 4096 \<in> Q" "byte_en k1 pd x = Some (ucast c)" using a by (simp_all add: cargado_def)
    then have "x < 4096 * NPAG" "\<not> x div 4096 \<in> R" using Q by (auto simp: NPAG_byte)
    then have "byte_en k' pd x = byte_en k1 pd x" using b pd by (simp add: cargado_def)
    with x show ?thesis by simp
  qed
  then show "x div 4096 \<in> Q \<union> R" "byte_en k' pd x = Some (ucast c)" by blast+
qed

lemma paginas_seg_NPAG: "seg_ok ph \<Longrightarrow> q \<in> paginas_seg ph \<Longrightarrow> q < NPAG"
proof -
  assume s: "seg_ok ph" and q: "q \<in> paginas_seg ph"
  then have "unat (p_va ph) + unat (p_memsz ph) \<le> 4096 * NPAG" "q < (unat (p_va ph) + unat (p_memsz ph) + 4095) div 4096"
    by (auto simp: seg_ok_def paginas_seg_def paginas_de_def split: if_splits)
  moreover from this(1) have "(unat (p_va ph) + unat (p_memsz ph) + 4095) div 4096 \<le> (4096 * NPAG + 4095) div 4096"
    by (intro div_le_mono) simp
  moreover have "(4096 * NPAG + 4095) div 4096 = NPAG" by simp
  ultimately show "q < NPAG" by linarith
qed

lemma en_paginas: "unat va \<le> a \<Longrightarrow> a < unat va + unat len \<Longrightarrow> a div 4096 \<in> paginas_de va len"
proof -
  assume a: "unat va \<le> a" "a < unat va + unat len"
  have "a div 4096 < (unat va + unat len + 4095) div 4096"
  proof -
    have "(a + 4096) div 4096 \<le> (unat va + unat len + 4095) div 4096" using a(2) by (intro div_le_mono) simp
    then show ?thesis by simp
  qed
  with a(1) show ?thesis by (simp add: paginas_de_def div_le_mono)
qed

lemma bytes_seg_copias:
  assumes "cargable ph" "seg_ok ph"
  shows "bytes_desde (unat (p_va ph)) (replicate (unat (p_memsz ph)) 0)
      ++ bytes_desde (unat (p_va ph)) (map b [unat (p_offset ph)..<unat (p_offset ph) + unat (p_filesz ph)]) = bytes_seg b ph"
proof
  fix a
  let ?va = "unat (p_va ph)" and ?o = "unat (p_offset ph)" and ?f = "unat (p_filesz ph)" and ?n = "unat (p_memsz ph)"
  have f: "?f \<le> ?n" using assms by (simp add: seg_ok_def)
  consider "a < ?va" | i where "a = ?va + i" by (metis le_iff_add not_less)
  then show "(bytes_desde ?va (replicate ?n 0) ++ bytes_desde ?va (map b [?o..<?o + ?f])) a = bytes_seg b ph a"
  proof cases
    case 1
    then have "\<not> ?va \<le> a" by simp
    then show ?thesis unfolding bytes_desde_def bytes_seg_def map_add_def by (simp only: simp_thms if_False option.case)
  next
    case 2
    consider "i < ?f" | "\<not> i < ?f" "i < ?n" | "\<not> i < ?n" by blast
    then show ?thesis
      by cases (use f assms(1) in \<open>simp_all add: 2 bytes_desde_def bytes_seg_def map_add_def Let_def\<close>)
  qed
qed

lemma load_segmento_vm:
  assumes ok: "memorias_ok D extra xs k" and c: "cr3 k = pd" "env_pgdir (envs k e) = Some pd" "pd \<in> D"
    and s: "seg_ok ph" "2 * card (paginas_seg ph) \<le> length xs"
  shows "\<exists>k' xs'. load_segmento e b ph k = Some k' \<and> memorias_ok D extra xs' k'
    \<and> length xs \<le> length xs' + 2 * card (paginas_seg ph) \<and> cargado D pd (paginas_seg ph) (bytes_seg b ph) k k'"
proof (cases "cargable ph")
  case False
  then have "bytes_seg b ph = Map.empty" by (auto simp: bytes_seg_def)
  with False ok show ?thesis using cargado_nada
    by (intro exI [of _ k] exI [of _ xs]) (simp add: load_segmento_def cargable_def paginas_seg_def)
next
  case True
  let ?va = "p_va ph" and ?n = "p_memsz ph"
  have r: "unat ?va + unat ?n \<le> 4096 * NPAG" "unat (p_filesz ph) \<le> unat ?n" using True s(1) by (simp_all add: seg_ok_def)
  have pg: "paginas_seg ph = paginas_de ?va ?n" using True by (simp add: paginas_seg_def)
  obtain k1 xs1 where k1: "region_alloc e ?va ?n k = Some k1" "memorias_ok D extra xs1 k1"
      "length xs \<le> length xs1 + 2 * card (paginas_de ?va ?n)" "region_hecha D pd (paginas_de ?va ?n) k k1"
    using region_alloc_vm [OF ok c(2,3) r(1) s(2) [unfolded pg]] by blast
  have c1: "cr3 k1 = pd" using k1(4) c(1) solo_vmD(6) by (auto simp: region_hecha_def)
  have w1: "entrada k1 pd (a div 4096) AND PTE_W \<noteq> 0" if "unat ?va \<le> a" "a < unat ?va + unat ?n" for a
    using k1(4) en_paginas [OF that] by (simp add: region_hecha_def)
  obtain k2 where k2: "memset_va ?va 0 ?n k1 = Some k2" "memorias_ok D extra xs1 k2"
      "escrita D pd (bytes_desde (unat ?va) (replicate (unat ?n) 0)) k1 k2"
    using copiar_va_vm [OF k1(2) c1 c(3), of ?va "replicate (unat ?n) 0"] r(1) w1 by (auto simp: memset_va_def)
  have c2: "cr3 k2 = pd" using k2(3) c1 by (auto simp: escrita_def)
  have w2: "entrada k2 pd (a div 4096) AND PTE_W \<noteq> 0" if "unat ?va \<le> a" "a < unat ?va + unat (p_filesz ph)" for a
  proof -
    have "a div 4096 < NPAG" using that r by (simp add: NPAG_byte [symmetric])
    then show ?thesis using w1 [of a] that r(2) k2(3) c(3) by (simp add: escrita_def)
  qed
  obtain k3 where k3: "memcpy_va ?va b (p_offset ph) (p_filesz ph) k2 = Some k3" "memorias_ok D extra xs1 k3"
      "escrita D pd (bytes_desde (unat ?va) (map b [unat (p_offset ph)..<unat (p_offset ph) + unat (p_filesz ph)])) k2 k3"
    using copiar_va_vm [OF k2(2) c2 c(3), of ?va "map b [unat (p_offset ph)..<unat (p_offset ph) + unat (p_filesz ph)]"] r w2
    by (auto simp: memcpy_va_def)
  note e = escrita_trans [OF k2(3) k3(3), unfolded bytes_seg_copias [OF True s(1)]]
  have "cargado D pd (paginas_de ?va ?n) (bytes_seg b ph) k k3"
    by (rule cargado_region [OF k1(4) e c(3)])
      (use paginas_seg_NPAG [OF s(1)] en_paginas in \<open>auto simp: pg bytes_seg_def split: if_splits\<close>)
  then show ?thesis using k1(1,3) k2(1) k3(1,2) True by (auto simp: load_segmento_def cargable_def pg)
qed

section \<open>All segments\<close>

fun separados :: "nat set list \<Rightarrow> bool" where
  "separados [] \<longleftrightarrow> True"
| "separados (Q # Qs) \<longleftrightarrow> (\<forall>R\<in>set Qs. Q \<inter> R = {}) \<and> separados Qs"

fun bytes_segs :: "imagen \<Rightarrow> proghdr list \<Rightarrow> nat \<rightharpoonup> 8 word" where
  "bytes_segs b [] = Map.empty"
| "bytes_segs b (ph # phs) = bytes_seg b ph ++ bytes_segs b phs"

definition paginas_segs :: "proghdr list \<Rightarrow> nat set" where
  "paginas_segs phs = \<Union> (set (map paginas_seg phs))"

definition cuantas :: "proghdr list \<Rightarrow> nat" where
  "cuantas phs = sum_list (map (card \<circ> paginas_seg) phs)"

lemma bytes_seg_pagina: "bytes_seg b ph a = Some c \<Longrightarrow> a div 4096 \<in> paginas_seg ph"
  using en_paginas [of "p_va ph" a "p_memsz ph"] by (auto simp: bytes_seg_def paginas_seg_def split: if_splits)

lemma bytes_segs_pagina: "bytes_segs b phs a = Some c \<Longrightarrow> a div 4096 \<in> paginas_segs phs"
  by (induction phs) (auto simp: paginas_segs_def map_add_Some_iff dest: bytes_seg_pagina)

text \<open>Since the pages of the segments are apart, each segment is there whole.\<close>

lemma bytes_segs_todos:
  assumes "separados (map paginas_seg phs)" "ph \<in> set phs" "bytes_seg b ph a = Some c"
  shows "bytes_segs b phs a = Some c"
  using assms
proof (induction phs)
  case (Cons h phs)
  show ?case
  proof (cases "ph \<in> set phs")
    case True
    with Cons show ?thesis by (simp add: map_add_Some_iff)
  next
    case False
    then have h: "ph = h" using Cons.prems(2) by simp
    have "paginas_seg h \<inter> paginas_segs phs = {}" using Cons.prems(1) by (auto simp: paginas_segs_def)
    with bytes_seg_pagina [OF Cons.prems(3)] h have "bytes_segs b phs a = None"
      using bytes_segs_pagina [of b phs a] by (cases "bytes_segs b phs a") auto
    with Cons.prems(3) h show ?thesis by (simp add: map_add_def)
  qed
qed simp

lemma load_segmentos_vm:
  assumes "memorias_ok D extra xs k" "cr3 k = pd" "env_pgdir (envs k e) = Some pd" "pd \<in> D"
    and "\<forall>ph\<in>set phs. seg_ok ph" "separados (map paginas_seg phs)" "2 * cuantas phs \<le> length xs"
  shows "\<exists>k' xs'. load_segmentos e b phs k = Some k' \<and> memorias_ok D extra xs' k'
    \<and> length xs \<le> length xs' + 2 * cuantas phs \<and> cargado D pd (paginas_segs phs) (bytes_segs b phs) k k'"
  using assms
proof (induction phs arbitrary: k xs)
  case Nil
  then show ?case using cargado_nada by (auto simp: paginas_segs_def cuantas_def)
next
  case (Cons ph phs)
  have c: "cuantas (ph # phs) = card (paginas_seg ph) + cuantas phs" by (simp add: cuantas_def)
  obtain k1 xs1 where k1: "load_segmento e b ph k = Some k1" "memorias_ok D extra xs1 k1"
      "length xs \<le> length xs1 + 2 * card (paginas_seg ph)" "cargado D pd (paginas_seg ph) (bytes_seg b ph) k k1"
    using load_segmento_vm [OF Cons.prems(1-4), of ph b] Cons.prems(5,7) c by auto
  have s: "cr3 k1 = pd" "env_pgdir (envs k1 e) = Some pd" using k1(4) Cons.prems(2,3) solo_vmD(2,6) by (auto simp: cargado_def)
  obtain k' xs' where k': "load_segmentos e b phs k1 = Some k'" "memorias_ok D extra xs' k'"
      "length xs1 \<le> length xs' + 2 * cuantas phs" "cargado D pd (paginas_segs phs) (bytes_segs b phs) k1 k'"
    using Cons.IH [OF k1(2) s Cons.prems(4)] Cons.prems(5-7) k1(3) c by auto
  have Q: "\<forall>q\<in>paginas_seg ph \<union> paginas_segs phs. q < NPAG"
    using Cons.prems(5) paginas_seg_NPAG by (auto simp: paginas_segs_def)
  have "paginas_seg ph \<inter> paginas_segs phs = {}" using Cons.prems(6) by (auto simp: paginas_segs_def)
  from cargado_trans [OF k1(4) k'(4) Cons.prems(4) Q this]
  have "cargado D pd (paginas_segs (ph # phs)) (bytes_segs b (ph # phs)) k k'" by (simp add: paginas_segs_def)
  with k1(1,3) k'(1-3) c show ?case by auto
qed

section \<open>env_create\<close>

text \<open>
  An image that can be loaded: the magic number, segments below \<open>UTOP\<close> that share no page
  with each other nor with the stack, and no more bytes in the file than in memory.
\<close>

definition pila_inicial :: nat where "pila_inicial = 977917"

definition imagen_ok :: "imagen \<Rightarrow> bool" where
  "imagen_ok b \<longleftrightarrow> e_magic (leer_elf b) = ELF_MAGIC \<and> (\<forall>ph\<in>set (proghdrs b). seg_ok ph)
     \<and> separados (map paginas_seg (proghdrs b)) \<and> pila_inicial \<notin> paginas_segs (proghdrs b)"

lemma pila_paginas: "paginas_de (USTACKTOP - PGSIZE) PGSIZE = {pila_inicial}"
  by (auto simp: paginas_de_def UTOP_valor PGSIZE_def pila_inicial_def)

definition env_inicial :: "env \<Rightarrow> nat \<Rightarrow> nat \<Rightarrow> env" where
  "env_inicial x e pd = x\<lparr>env_pgdir := Some pd, env_id := nuevo_env_id (env_id x) e, env_parent_id := 0,
     env_type := 0, env_status := ENV_RUNNABLE, env_runs := 0, env_priority := 0,
     env_tf := tf_inicial, env_pgfault_upcall := 0, env_ipc_recving := False\<rparr>"

lemma load_icode_vm:
  assumes ok: "memorias_ok D extra xs k" and e: "env_pgdir (envs k e) = Some pd" "pd \<in> D"
    and b: "imagen_ok b" and xs: "2 * (cuantas (proghdrs b) + 1) \<le> length xs"
  shows "\<exists>k' xs'. load_icode e b k = Some k' \<and> memorias_ok D extra xs' k'
    \<and> length xs \<le> length xs' + 2 * (cuantas (proghdrs b) + 1) \<and> cr3 k' = kern_pgdir k'
    \<and> envs k' = (envs k)(e := (envs k e)\<lparr>env_tf := (env_tf (envs k e))\<lparr>tf_eip := e_entry (leer_elf b)\<rparr>\<rparr>)
    \<and> (\<exists>k1. cargado D pd (paginas_segs (proghdrs b) \<union> {pila_inicial}) (bytes_segs b (proghdrs b)) (k\<lparr>cr3 := pd\<rparr>) k1
         \<and> (\<exists>f. k' = con_env e f k1\<lparr>cr3 := kern_pgdir k1\<rparr>))"
proof -
  let ?phs = "proghdrs b" and ?k = "k\<lparr>cr3 := pd\<rparr>"
  note B = b [unfolded imagen_ok_def]
  have ok': "memorias_ok D extra xs ?k" "cr3 ?k = pd" "env_pgdir (envs ?k e) = Some pd"
    using ok e memoria_cong(4) [of ?k k] by simp_all
  obtain k1 xs1 where k1: "load_segmentos e b ?phs ?k = Some k1" "memorias_ok D extra xs1 k1"
      "length xs \<le> length xs1 + 2 * cuantas ?phs" "cargado D pd (paginas_segs ?phs) (bytes_segs b ?phs) ?k k1"
    using load_segmentos_vm [OF ok' e(2), of ?phs b] B xs by auto
  have s1: "solo_vm ?k k1" using k1(4) by (simp add: cargado_def)
  have e1: "env_pgdir (envs k1 e) = Some pd" using solo_vmD(2) [OF s1] e(1) by simp
  have r: "unat (USTACKTOP - PGSIZE) + unat PGSIZE \<le> 4096 * NPAG" "2 * card (paginas_de (USTACKTOP - PGSIZE) PGSIZE) \<le> length xs1"
    using xs k1(3) by (simp_all add: pila_paginas) (simp add: UTOP_valor PGSIZE_def NPAG_def)
  obtain k2 xs2 where k2: "region_alloc e (USTACKTOP - PGSIZE) PGSIZE k1 = Some k2" "memorias_ok D extra xs2 k2"
      "length xs1 \<le> length xs2 + 2" "region_hecha D pd {pila_inicial} k1 k2"
    using region_alloc_vm [OF k1(2) e1 e(2) r] by (auto simp: pila_paginas)
  have c2: "cargado D pd {pila_inicial} Map.empty k1 k2"
    by (rule cargado_region [OF k2(4) escrita_refl e(2)]) (simp_all add: pila_inicial_def NPAG_def)
  have "cargado D pd (paginas_segs ?phs \<union> {pila_inicial}) (bytes_segs b ?phs ++ Map.empty) ?k k2"
    by (rule cargado_trans [OF k1(4) c2 e(2)])
      (use B paginas_seg_NPAG in \<open>auto simp: paginas_segs_def pila_inicial_def NPAG_def\<close>)
  then have c: "cargado D pd (paginas_segs ?phs \<union> {pila_inicial}) (bytes_segs b ?phs) ?k k2" by simp
  then have "solo_vm ?k k2" by (simp add: cargado_def)
  then have n2: "envs k2 = envs k" by (simp add: solo_vmD)
  let ?f = "\<lambda>r. r\<lparr>env_tf := (env_tf r)\<lparr>tf_eip := e_entry (leer_elf b)\<rparr>\<rparr>"
  let ?r = "con_env e ?f k2\<lparr>cr3 := kern_pgdir k2\<rparr>"
  have "load_icode e b k = Some ?r"
    using B e(1) k1(1) k2(1) by (simp add: load_icode_def Let_def)
  moreover have "memorias_ok D extra xs2 ?r" using k2(2) memoria_cong(4) [of ?r k2] by simp
  moreover have "envs ?r = (envs k)(e := ?f (envs k e))" by (simp add: con_env_def n2)
  ultimately show ?thesis using c k1(3) k2(3)
    by (intro exI [of _ ?r] exI [of _ xs2]) (auto intro!: exI [of _ k2])
qed

lemma env_alloc_vm:
  assumes ok: "memorias_ok D extra (p # ys) k" and e: "env_free_list k = Some e"
    and kp: "p \<noteq> kern_pgdir k" "\<forall>i<NPDU. mem k (kern_pgdir k) i = 0"
  shows "\<exists>k'. env_alloc 0 k = Some (0, Some e, k') \<and> memorias_ok (insert p D) extra ys k' \<and> p \<notin> D
    \<and> envs k' = (envs k)(e := env_inicial (envs k e) e p) \<and> env_free_list k' = env_link (envs k e)
    \<and> curenv k' = curenv k \<and> kern_pgdir k' = kern_pgdir k \<and> npages k' = npages k
    \<and> (\<forall>q<NPAG. entrada k' p q = 0) \<and> (\<forall>d\<in>D. mem k' d = mem k d)
    \<and> (\<forall>d\<in>D. \<forall>q<NPAG. entrada k' d q = entrada k d q \<and> palabra k' d q = palabra k d q)
    \<and> (\<forall>q. q \<noteq> p \<longrightarrow> mem k' q = mem k q)"
proof -
  note M = memorias_okD [OF ok]
  note a' = page_alloc_vm(3) [OF M(1)] and n20 = estructuraD(1) [OF vm_okD(1) [OF M(1)]]
  have fl: "page_free_list k = Some p" using vm_libres [OF M(1)] by (simp add: pag.libres_def)
  obtain k1 where k1: "env_setup_vm e k = Some (0, k1)" using env_setup_vm_forma [OF fl a' n20 kp(1), of e] by blast
  note S = env_setup_vm_mas [OF fl a' n20 kp(1) k1]
  note R = env_setup_vm_memorias [OF ok kp(1) kp(2) k1]
  have kd: "kern_pgdir k1 = kern_pgdir k"
    using k1 page_alloc_forma [OF fl a' n20] by (auto simp: env_setup_vm_def Let_def pp_ref_inc_def split: bind_splits)
  let ?k2 = "con_env e (\<lambda>x. x\<lparr>env_id := nuevo_env_id (env_id x) e, env_parent_id := 0,
                         env_type := 0, env_status := ENV_RUNNABLE, env_runs := 0, env_priority := 0,
                         env_tf := tf_inicial, env_pgfault_upcall := 0, env_ipc_recving := False\<rparr>) k1"
  let ?k' = "?k2\<lparr>env_free_list := env_link (envs ?k2 e)\<rparr>"
  have mk: "npages ?k' = npages k1" "pages ?k' = pages k1" "page_free_list ?k' = page_free_list k1" "mem ?k' = mem k1" by simp_all
  note MC = memoria_cong [OF mk]
  have "env_alloc 0 k = Some (0, Some e, ?k')" by (simp add: env_alloc_def e k1 Let_def)
  moreover have "memorias_ok (insert p D) extra ys ?k'" using R(1) by (simp only: MC(4))
  moreover have "envs ?k' = (envs k)(e := env_inicial (envs k e) e p)"
    by (simp add: con_env_def S(5) env_inicial_def)
  moreover have "env_free_list ?k' = env_link (envs k e)" by (simp add: S(5))
  moreover have "\<forall>q<NPAG. entrada ?k' p q = 0" "\<forall>d\<in>D. mem ?k' d = mem k d" "\<forall>q. q \<noteq> p \<longrightarrow> mem ?k' q = mem k q"
    "\<forall>d\<in>D. \<forall>q<NPAG. entrada ?k' d q = entrada k d q \<and> palabra ?k' d q = palabra k d q"
    using R(3,4,6) S(8) by (simp_all only: MC(1,2) mk(4)) blast+
  moreover have "curenv ?k' = curenv k" "kern_pgdir ?k' = kern_pgdir k" "npages ?k' = npages k" using S(2,6) kd by simp_all
  ultimately show ?thesis using R(2) by blast
qed

text \<open>The program of an image is in an address space: its segments, and no other page but the stack.\<close>

definition programa_en :: "kernel \<Rightarrow> nat \<Rightarrow> imagen \<Rightarrow> bool" where
  "programa_en k p b \<longleftrightarrow>
     (\<forall>ph\<in>set (proghdrs b). cargable ph \<longrightarrow> (\<forall>i<unat (p_memsz ph). byte_en k p (unat (p_va ph) + i)
        = Some (if i < unat (p_filesz ph) then ucast (b (unat (p_offset ph) + i)) else 0)))
     \<and> (\<forall>q<NPAG. entrada k p q \<noteq> 0 \<longleftrightarrow> q \<in> paginas_segs (proghdrs b) \<union> {pila_inicial})"

lemma env_create_forma:
  assumes "memorias_ok D extra (p # ys) k" "env_free_list k = Some e"
    and "p \<noteq> kern_pgdir k" "\<forall>i<NPDU. mem k (kern_pgdir k) i = 0"
    and "imagen_ok b" "2 * (cuantas (proghdrs b) + 1) \<le> length ys"
  shows "\<exists>k' xs'. env_create b tipo k = Some k' \<and> memorias_ok (insert p D) extra xs' k' \<and> p \<notin> D
    \<and> length ys \<le> length xs' + 2 * (cuantas (proghdrs b) + 1)
    \<and> envs k' = (envs k)(e := (env_inicial (envs k e) e p)
        \<lparr>env_tf := tf_inicial\<lparr>tf_eip := e_entry (leer_elf b)\<rparr>, env_type := tipo\<rparr>)
    \<and> env_free_list k' = env_link (envs k e) \<and> curenv k' = curenv k
    \<and> kern_pgdir k' = kern_pgdir k \<and> cr3 k' = kern_pgdir k \<and> npages k' = npages k
    \<and> programa_en k' p b
    \<and> (\<forall>d\<in>D. mem k' d = mem k d) \<and> (\<forall>d\<in>D. \<forall>a<4096 * NPAG. byte_en k' d a = byte_en k d a)"
proof -
  let ?Q = "paginas_segs (proghdrs b) \<union> {pila_inicial}" and ?F = "bytes_segs b (proghdrs b)"
  obtain k1 where a: "env_alloc 0 k = Some (0, Some e, k1)" "memorias_ok (insert p D) extra ys k1" "p \<notin> D"
      "envs k1 = (envs k)(e := env_inicial (envs k e) e p)" "env_free_list k1 = env_link (envs k e)"
      "curenv k1 = curenv k" "kern_pgdir k1 = kern_pgdir k" "npages k1 = npages k" "\<forall>q<NPAG. entrada k1 p q = 0"
      "\<forall>d\<in>D. mem k1 d = mem k d" "\<forall>d\<in>D. \<forall>q<NPAG. entrada k1 d q = entrada k d q \<and> palabra k1 d q = palabra k d q"
    using env_alloc_vm [OF assms(1-4)] by (elim exE conjE) (rule that)
  have e1: "env_pgdir (envs k1 e) = Some p" by (simp add: a(4) env_inicial_def)
  obtain k2 xs' k3 f where l: "load_icode e b k1 = Some k2" "memorias_ok (insert p D) extra xs' k2"
      "length ys \<le> length xs' + 2 * (cuantas (proghdrs b) + 1)" "cr3 k2 = kern_pgdir k2"
      "envs k2 = (envs k1)(e := (envs k1 e)\<lparr>env_tf := (env_tf (envs k1 e))\<lparr>tf_eip := e_entry (leer_elf b)\<rparr>\<rparr>)"
      "cargado (insert p D) p ?Q ?F (k1\<lparr>cr3 := p\<rparr>) k3" "k2 = con_env e f k3\<lparr>cr3 := kern_pgdir k3\<rparr>"
    using load_icode_vm [OF a(2) e1 _ assms(5,6)] by blast
  have so: "solo_vm (k1\<lparr>cr3 := p\<rparr>) k3" using l(6) by (simp add: cargado_def)
  let ?k' = "con_env e (\<lambda>r. r\<lparr>env_type := tipo\<rparr>) k2"
  have mk: "npages ?k' = npages k3" "pages ?k' = pages k3" "page_free_list ?k' = page_free_list k3" "mem ?k' = mem k3"
    by (simp_all add: l(7))
  have m1: "entrada (k1\<lparr>cr3 := p\<rparr>) = entrada k1" using memoria_cong(1) [of "k1\<lparr>cr3 := p\<rparr>" k1] by simp
  have b1: "byte_en (k1\<lparr>cr3 := p\<rparr>) = byte_en k1" by (simp add: byte_en_def m1 leer_byte_def fun_eq_iff)
  have eq: "entrada ?k' = entrada k3" "byte_en ?k' = byte_en k3"
    unfolding byte_en_def fun_eq_iff using memoria_cong(1) [OF mk] leer_byte_mem [OF mk(4)] by simp_all
  have pa: "\<forall>ph\<in>set (proghdrs b). cargable ph \<longrightarrow> (\<forall>i<unat (p_memsz ph). byte_en ?k' p (unat (p_va ph) + i)
        = Some (if i < unat (p_filesz ph) then ucast (b (unat (p_offset ph) + i)) else 0))"
  proof (intro ballI impI allI)
    fix ph i assume ph: "ph \<in> set (proghdrs b)" "cargable ph" "i < unat (p_memsz ph)"
    let ?c = "if i < unat (p_filesz ph) then b (unat (p_offset ph) + i) else 0"
    have "bytes_seg b ph (unat (p_va ph) + i) = Some ?c" using ph by (simp add: bytes_seg_def Let_def)
    then have "?F (unat (p_va ph) + i) = Some ?c" using assms(5) ph(1) by (intro bytes_segs_todos) (simp_all add: imagen_ok_def)
    then have "byte_en k3 p (unat (p_va ph) + i) = Some (ucast ?c)" using l(6) unfolding cargado_def by blast
    then show "byte_en ?k' p (unat (p_va ph) + i) = Some (if i < unat (p_filesz ph) then ucast (b (unat (p_offset ph) + i)) else 0)"
      by (simp add: eq)
  qed
  have pb: "\<forall>q<NPAG. entrada ?k' p q \<noteq> 0 \<longleftrightarrow> q \<in> ?Q"
    using l(6) a(9) unfolding cargado_def m1 eq by (metis and_zero_eq bit.conj_zero_left insertI1)
  have "env_create b tipo k = Some ?k'" by (simp add: env_create_def a(1) l(1))
  moreover have "memorias_ok (insert p D) extra xs' ?k'" using l(2) memoria_cong(4) [of ?k' k2] by simp
  moreover have "envs ?k' = (envs k)(e := (env_inicial (envs k e) e p)
      \<lparr>env_tf := tf_inicial\<lparr>tf_eip := e_entry (leer_elf b)\<rparr>, env_type := tipo\<rparr>)"
    by (simp add: con_env_def l(5) a(4) env_inicial_def)
  moreover have "env_free_list ?k' = env_link (envs k e)" "curenv ?k' = curenv k" "kern_pgdir ?k' = kern_pgdir k"
    "cr3 ?k' = kern_pgdir k" "npages ?k' = npages k" using solo_vmD [OF so] a(5-8) by (simp_all add: l(7))
  moreover have "programa_en ?k' p b" using pa pb by (simp only: programa_en_def)
  moreover have "\<forall>d\<in>D. mem ?k' d = mem k d" unfolding mk(4) using l(6) a(3,10) by (auto simp: cargado_def)
  moreover have "\<forall>d\<in>D. \<forall>x<4096 * NPAG. byte_en ?k' d x = byte_en k d x"
  proof (intro ballI allI impI)
    fix d x assume d: "d \<in> D" "x < 4096 * NPAG"
    then have "byte_en k3 d x = byte_en k1 d x" using l(6) a(3) by (auto simp: cargado_def b1)
    also have "\<dots> = byte_en k d x" using a(11) d by (intro byte_palabra) (simp add: NPAG_byte)
    finally show "byte_en ?k' d x = byte_en k d x" by (simp add: eq)
  qed
  ultimately show ?thesis using l(3) a(3) by blast
qed

end
