(* ===== verification/Boot_Inv.thy ===== *)
theory Boot_Inv
  imports Boot Pmap_Frame
begin

text \<open>
  The kernel's own page directory while it is being built: \<open>boot_map_region\<close> as the
  update of a range of entries, over tables taken from the free list.
\<close>

unbundle bit_operations_syntax

section \<open>The invariant of a directory under construction\<close>

text \<open>
  Directory \<open>pd\<close> has tables of its own, none of them free; entry 957 is the directory
  itself. \<open>T\<close> are the tables that may be needed, and there are free pages for the missing.
\<close>

definition presentes :: "kernel \<Rightarrow> nat \<Rightarrow> nat set" where
  "presentes k pd = {i. i < 1024 \<and> mem k pd i \<noteq> 0}"

definition nucleo_ok :: "nat \<Rightarrow> nat set \<Rightarrow> nat list \<Rightarrow> kernel \<Rightarrow> bool" where
  "nucleo_ok pd T xs k \<longleftrightarrow> npages k \<le> 2 ^ 20 \<and> pag.libres k xs \<and> pd < npages k \<and> pd \<notin> set xs
     \<and> (\<forall>p\<in>set xs. p < npages k \<and> pp_ref (pages k p) = 0)
     \<and> (\<forall>p<npages k. p \<notin> set xs \<longrightarrow> pp_link (pages k p) = None)
     \<and> (\<forall>i\<in>presentes k pd - {957}. tabla k pd i < npages k \<and> tabla k pd i \<notin> set xs \<and> tabla k pd i \<noteq> pd)
     \<and> inj_on (tabla k pd) (presentes k pd - {957})
     \<and> finite T \<and> 957 \<in> presentes k pd \<and> presentes k pd \<subseteq> T \<and> card (T - presentes k pd) \<le> length xs
     \<and> (\<forall>i\<in>presentes k pd - {957}. mem k pd i = page2pa (tabla k pd i) OR PTE_P OR PTE_W OR PTE_U)"

lemma nucleo_okD:
  assumes "nucleo_ok pd T xs k"
  shows "npages k \<le> 2 ^ 20" "pag.libres k xs" "pd < npages k" "pd \<notin> set xs"
    "\<And>p. p \<in> set xs \<Longrightarrow> p < npages k \<and> pp_ref (pages k p) = 0"
    "\<And>p. p < npages k \<Longrightarrow> p \<notin> set xs \<Longrightarrow> pp_link (pages k p) = None"
    "\<And>i. i \<in> presentes k pd - {957} \<Longrightarrow> tabla k pd i < npages k \<and> tabla k pd i \<notin> set xs \<and> tabla k pd i \<noteq> pd"
    "inj_on (tabla k pd) (presentes k pd - {957})"
    "finite T" "957 \<in> presentes k pd" "presentes k pd \<subseteq> T" "card (T - presentes k pd) \<le> length xs"
    "\<And>i. i \<in> presentes k pd - {957} \<Longrightarrow> mem k pd i = page2pa (tabla k pd i) OR PTE_P OR PTE_W OR PTE_U"
  using assms unfolding nucleo_ok_def by blast+

definition pagina_nucleo :: "nat \<Rightarrow> bool" where
  "pagina_nucleo q \<longleftrightarrow> q < 1048576 \<and> q div 1024 \<noteq> 957"

lemma pagina_indices:
  assumes "pagina_nucleo q"
  shows "unat (PDX (pagina_va q)) = q div 1024" "unat (PTX (pagina_va q)) = q mod 1024" "q div 1024 < 1024"
  using assms by (simp_all add: pagina_nucleo_def unat_PDX unat_PTX unat_pagina_va div_less_iff_less_mult)

lemma entrada_sin_tabla: "i \<notin> presentes k pd \<Longrightarrow> i < 1024 \<Longrightarrow> pte_en k pd i j = 0"
  by (simp add: presentes_def pte_en_def)

text \<open>
  The pages that became tables are the first of the list, and no other page was written but
  the directory and the tables it had.
\<close>

definition tablas_de :: "kernel \<Rightarrow> nat \<Rightarrow> nat set" where
  "tablas_de k pd = tabla k pd ` (presentes k pd - {957})"

definition usa :: "nat \<Rightarrow> nat list \<Rightarrow> kernel \<Rightarrow> nat list \<Rightarrow> kernel \<Rightarrow> bool" where
  "usa pd xs k xs' k' \<longleftrightarrow> (\<exists>ys. xs = ys @ xs' \<and> tablas_de k' pd \<subseteq> tablas_de k pd \<union> set ys
     \<and> (\<forall>p. p \<noteq> pd \<and> p \<notin> set ys \<and> p \<notin> tablas_de k pd \<longrightarrow> mem k' p = mem k p))
     \<and> presentes k pd \<subseteq> presentes k' pd"

lemma usa_refl: "usa pd xs k xs k"
  by (simp add: usa_def)

lemma usa_trans:
  assumes "usa pd xs k xs1 k1" "usa pd xs1 k1 xs2 k2"
  shows "usa pd xs k xs2 k2"
proof -
  obtain ys zs where y: "xs = ys @ xs1" "tablas_de k1 pd \<subseteq> tablas_de k pd \<union> set ys" "xs1 = zs @ xs2" "tablas_de k2 pd \<subseteq> tablas_de k1 pd \<union> set zs"
      "\<forall>p. p \<noteq> pd \<and> p \<notin> set ys \<and> p \<notin> tablas_de k pd \<longrightarrow> mem k1 p = mem k p"
      "\<forall>p. p \<noteq> pd \<and> p \<notin> set zs \<and> p \<notin> tablas_de k1 pd \<longrightarrow> mem k2 p = mem k1 p"
    using assms unfolding usa_def by blast
  have "mem k2 p = mem k p" if "p \<noteq> pd" "p \<notin> set (ys @ zs)" "p \<notin> tablas_de k pd" for p
    using y(2,5,6) that by (metis UnE in_mono set_append UnI1 UnI2)
  moreover have "presentes k pd \<subseteq> presentes k2 pd" using assms unfolding usa_def by blast
  moreover have "tablas_de k2 pd \<subseteq> tablas_de k pd \<union> set (ys @ zs)" using y(2,4) by auto
  ultimately show ?thesis unfolding usa_def using y(1,3) by (intro conjI exI [of _ "ys @ zs"]) auto
qed

section \<open>One page\<close>

text \<open>A new table for page \<open>q\<close>, from the head of the free list.\<close>

definition con_tabla :: "nat \<Rightarrow> nat \<Rightarrow> nat \<Rightarrow> kernel \<Rightarrow> kernel" where
  "con_tabla pd i p k = escribir pd i (page2pa p OR PTE_P OR PTE_W OR PTE_U) (pp_ref_inc p
     (k\<lparr>page_free_list := pp_link (pages k p), pages := (pages k)(p := (pages k p)\<lparr>pp_link := None\<rparr>),
        mem := (mem k)(p := (\<lambda>_. 0))\<rparr>))"

lemma con_tabla_simps:
  "mem (con_tabla pd i p k) f j = (if f = pd \<and> j = i then page2pa p OR PTE_P OR PTE_W OR PTE_U else if f = p then 0 else mem k f j)"
  "npages (con_tabla pd i p k) = npages k" "page_free_list (con_tabla pd i p k) = pp_link (pages k p)"
  "pages (con_tabla pd i p k) q = (if q = p then \<lparr>pp_link = None, pp_ref = pp_ref (pages k p) + 1\<rparr> else pages k q)"
  "solo_vm k (con_tabla pd i p k)" "tlb (con_tabla pd i p k) = tlb k"
proof -
  have "solo_vm k (k\<lparr>page_free_list := pp_link (pages k p), pages := (pages k)(p := (pages k p)\<lparr>pp_link := None\<rparr>),
        mem := (mem k)(p := (\<lambda>_. 0))\<rparr>)" by (simp add: solo_vm_def)
  then show "solo_vm k (con_tabla pd i p k)" by (simp add: con_tabla_def)
qed (simp_all add: con_tabla_def pp_ref_inc_def)

lemma con_tabla_libres:
  assumes "nucleo_ok pd T (p # ys) k"
  shows "pag.libres (con_tabla pd i p k) ys" "p \<notin> set ys"
proof -
  note K = nucleo_okD [OF assms]
  have hd: "page_free_list k = Some p" using K(2) by (simp add: pag.libres_def)
  let ?k1 = "k\<lparr>page_free_list := pp_link (pages k p), pages := (pages k)(p := (pages k p)\<lparr>pp_link := None\<rparr>),
    mem := (mem k)(p := (\<lambda>_. 0))\<rparr>"
  have "sacar_pagina k = Some (p, ?k1)"
    using page_alloc_forma [OF hd _ K(1), of True] K(5) [of p] by (simp add: sacar_pagina_def)
  with K(2) obtain zs where z: "p # ys = p # zs" "pag.libres ?k1 zs" "p \<notin> set zs" by (rule pag.sacar_libres)
  then show "p \<notin> set ys" by simp
  with z show "pag.libres (con_tabla pd i p k) ys"
    using pag.libres_cong [of "con_tabla pd i p k" ?k1 ys] by (simp add: con_tabla_simps)
qed

lemma marco_nueva: "p < 2 ^ 20 \<Longrightarrow> marco (page2pa p OR PTE_P OR PTE_W OR PTE_U) = p"
  using marco_entrada [of p "PTE_P OR PTE_W OR PTE_U"] by (simp add: or.assoc)

lemma nueva_no_cero: "page2pa p OR PTE_P OR PTE_W OR PTE_U \<noteq> 0"
  by (simp add: or_eq_0_iff pte_flags)

lemma con_tabla_ok:
  assumes "nucleo_ok pd T (p # ys) k" "i < 1024" "i \<noteq> 957" "mem k pd i = 0" "i \<in> T"
  shows "nucleo_ok pd T ys (con_tabla pd i p k)" "presentes (con_tabla pd i p k) pd = insert i (presentes k pd)"
    "tabla (con_tabla pd i p k) pd i = p" "mem (con_tabla pd i p k) pd 957 = mem k pd 957"
    "\<And>i' j. i' < 1024 \<Longrightarrow> i' \<noteq> 957 \<Longrightarrow> pte_en (con_tabla pd i p k) pd i' j = pte_en k pd i' j"
proof -
  note K = nucleo_okD [OF assms(1)] and l = con_tabla_libres(1) [OF assms(1), of i] con_tabla_libres(2) [OF assms(1)]
  let ?k = "con_tabla pd i p k"
  have p: "p < npages k" "p \<noteq> pd" "p < 2 ^ 20" using K(1,4) K(5) [of p] by auto
  have m: "mem ?k pd j = (if j = i then page2pa p OR PTE_P OR PTE_W OR PTE_U else mem k pd j)" for j
    using p(2) by (simp add: con_tabla_simps)
  have i: "i \<notin> presentes k pd" using assms(4) by (simp add: presentes_def)
  show pr: "presentes ?k pd = insert i (presentes k pd)"
    using assms(2) nueva_no_cero by (auto simp: presentes_def m)
  have t: "tabla ?k pd j = (if j = i then p else tabla k pd j)" for j
    using marco_nueva [OF p(3)] by (simp add: tabla_def m)
  then show "tabla ?k pd i = p" by simp
  show "mem ?k pd 957 = mem k pd 957" using assms(3) by (simp add: m)
  have tp: "tabla k pd j \<noteq> p" if "j \<in> presentes k pd - {957}" for j using K(7) [OF that] by auto
  show "pte_en ?k pd i' j = pte_en k pd i' j" if "i' < 1024" "i' \<noteq> 957" for i' j
  proof (cases "i' = i")
    case True
    then show ?thesis using assms(4) p(2) nueva_no_cero by (simp add: pte_en_def t m con_tabla_simps)
  next
    case False
    have "tabla k pd i' \<noteq> p" "tabla k pd i' \<noteq> pd" if "mem k pd i' \<noteq> 0"
      using K(7) [of i'] tp [of i'] that \<open>i' < 1024\<close> \<open>i' \<noteq> 957\<close> by (auto simp: presentes_def)
    with False p(2) show ?thesis by (simp add: pte_en_def t m con_tabla_simps)
  qed
  have d: "presentes ?k pd - {957} = insert i (presentes k pd - {957})" using assms(3) by (auto simp: pr)
  have c: "card (T - presentes ?k pd) = card (T - presentes k pd) - 1"
  proof -
    have "T - insert i (presentes k pd) = (T - presentes k pd) - {i}" by blast
    moreover have "i \<in> T - presentes k pd" using i assms(5) by blast
    ultimately show ?thesis unfolding pr by (simp only: card_Diff_singleton)
  qed
  have inj: "inj_on (tabla ?k pd) (presentes ?k pd - {957})"
  proof -
    let ?S = "presentes k pd - {957}"
    have e: "tabla ?k pd j = tabla k pd j" if "j \<in> ?S" for j using that i by (auto simp: t)
    have "inj_on (tabla ?k pd) ?S" using K(8) inj_on_cong [of ?S "tabla ?k pd" "tabla k pd", OF e] by blast
    moreover have "tabla ?k pd i \<notin> tabla ?k pd ` (?S - {i})" using tp e by (auto simp: t)
    ultimately show ?thesis unfolding d inj_on_insert by blast
  qed
  have tb: "\<forall>j\<in>presentes ?k pd - {957}. tabla ?k pd j < npages k \<and> tabla ?k pd j \<notin> set ys \<and> tabla ?k pd j \<noteq> pd"
    unfolding d using K(7) p l by (auto simp: t)
  have lk: "\<forall>q<npages k. q \<notin> set ys \<longrightarrow> pp_link (pages ?k q) = None"
    using K(6) by (auto simp: con_tabla_simps)
  have rf: "\<forall>q\<in>set ys. q < npages k \<and> pp_ref (pages ?k q) = 0"
    using K(5) l(2) by (auto simp: con_tabla_simps)
  have "pd \<notin> set ys" "957 \<in> presentes ?k pd" "presentes ?k pd \<subseteq> T" "card (T - presentes ?k pd) \<le> length ys"
    using K(4) K(10) K(11) assms(5) c K(12) by (simp_all add: pr)
  moreover have "\<forall>j\<in>presentes ?k pd - {957}. mem ?k pd j = page2pa (tabla ?k pd j) OR PTE_P OR PTE_W OR PTE_U"
    unfolding d using K(13) i by (auto simp: t m)
  ultimately show "nucleo_ok pd T ys ?k"
    unfolding nucleo_ok_def con_tabla_simps(2) using K(1) l(1) K(3) rf lk tb inj K(9) by (intro conjI)
qed

lemma con_tabla_usa:
  assumes "nucleo_ok pd T (p # ys) k" "i < 1024" "i \<noteq> 957" "mem k pd i = 0" "i \<in> T"
  shows "tablas_de (con_tabla pd i p k) pd \<subseteq> insert p (tablas_de k pd)" "q \<noteq> pd \<Longrightarrow> q \<noteq> p \<Longrightarrow> mem (con_tabla pd i p k) q = mem k q"
proof -
  note C = con_tabla_ok [OF assms]
  show "mem (con_tabla pd i p k) q = mem k q" if "q \<noteq> pd" "q \<noteq> p" using that by (simp add: fun_eq_iff con_tabla_simps)
  have "tabla (con_tabla pd i p k) pd j = tabla k pd j" if "j \<noteq> i" for j
    using that nucleo_okD(4) [OF assms(1)] by (simp add: tabla_def con_tabla_simps)
  then show "tablas_de (con_tabla pd i p k) pd \<subseteq> insert p (tablas_de k pd)"
    unfolding tablas_de_def C(2) using C(3) by fastforce
qed

text \<open>\<open>pgdir_walk\<close> with \<open>create\<close> finds a table: there is one, or a page for it.\<close>

lemma walk_nucleo:
  assumes ok: "nucleo_ok pd T xs k" and q: "pagina_nucleo q" "q div 1024 \<in> T"
  shows "\<exists>xs' k'. pgdir_walk pd (pagina_va q) True k = Some (Some (tabla k' pd (q div 1024), q mod 1024), k')
    \<and> nucleo_ok pd T xs' k' \<and> solo_vm k k' \<and> q div 1024 \<in> presentes k' pd
    \<and> presentes k' pd \<subseteq> insert (q div 1024) (presentes k pd) \<and> mem k' pd 957 = mem k pd 957
    \<and> set xs' \<subseteq> set xs \<and> length xs \<le> length xs' + (card (presentes k' pd) - card (presentes k pd))
    \<and> card (presentes k pd) \<le> card (presentes k' pd) \<and> tlb k' = tlb k
    \<and> (\<forall>i j. i < 1024 \<longrightarrow> i \<noteq> 957 \<longrightarrow> pte_en k' pd i j = pte_en k pd i j) \<and> usa pd xs k xs' k'"
proof -
  note K = nucleo_okD [OF ok] and I = pagina_indices [OF q(1)]
  let ?i = "q div 1024"
  have i: "?i \<noteq> 957" using q(1) by (simp add: pagina_nucleo_def)
  show ?thesis
  proof (cases "mem k pd ?i = 0")
    case False
    then have pr: "?i \<in> presentes k pd" using I(3) by (simp add: presentes_def)
    then have "marco (mem k pd ?i) < npages k" using K(7) [of ?i] i by (simp add: tabla_def)
    with False have "pgdir_walk pd (pagina_va q) True k = Some (Some (tabla k pd ?i, q mod 1024), k)"
      by (simp add: pgdir_walk_def Let_def KADDR_marco tabla_def I)
    with ok pr show ?thesis using usa_refl [of pd xs k] by (intro exI [of _ xs] exI [of _ k]) auto
  next
    case True
    then have np: "?i \<notin> presentes k pd" by (simp add: presentes_def)
    have "T - presentes k pd \<noteq> {}" using np q(2) by blast
    then have "card (T - presentes k pd) \<noteq> 0" using K(9) by simp
    then obtain p ys where xs: "xs = p # ys" using K(12) by (cases xs) auto
    note ok' = ok [unfolded xs]
    note c = con_tabla_ok [OF ok' I(3) i True q(2)]
    have hd: "page_free_list k = Some p" using K(2) by (simp add: pag.libres_def xs)
    have p: "p < npages k" using K(5) by (simp add: xs)
    have "marco (mem (con_tabla pd ?i p k) pd ?i) = p" using c(3) by (simp add: tabla_def)
    moreover have "mem (con_tabla pd ?i p k) pd ?i \<noteq> 0" using c(2) by (auto simp: presentes_def)
    ultimately have "pgdir_walk pd (pagina_va q) True k = Some (Some (p, q mod 1024), con_tabla pd ?i p k)"
      using True p page_alloc_forma [OF hd p K(1), of True] KADDR_marco [of "mem (con_tabla pd ?i p k) pd ?i" "con_tabla pd ?i p k"]
      by (simp add: pgdir_walk_def I Let_def con_tabla_def [symmetric] con_tabla_simps(2))
    moreover have "finite (presentes k pd)" by (simp add: presentes_def)
    moreover have "usa pd xs k ys (con_tabla pd ?i p k)"
      unfolding usa_def using con_tabla_usa [OF ok' I(3) i True q(2)] c(2) by (intro conjI exI [of _ "[p]"]) (auto simp: xs)
    ultimately show ?thesis
      using c np by (intro exI [of _ ys] exI [of _ "con_tabla pd ?i p k"]) (auto simp: con_tabla_simps xs)
  qed
qed


lemma escribir_nucleo:
  fixes v :: uint32 and j :: nat
  assumes ok: "nucleo_ok pd T xs k" and i: "i \<in> presentes k pd - {957}"
  defines "k' \<equiv> escribir (tabla k pd i) j v k"
  shows "nucleo_ok pd T xs k'" "presentes k' pd = presentes k pd" "mem k' pd = mem k pd"
    "\<And>i' j'. i' < 1024 \<Longrightarrow> i' \<noteq> 957 \<Longrightarrow> pte_en k' pd i' j' = (if i' = i \<and> j' = j then v else pte_en k pd i' j')"
    "usa pd xs k xs k'"
proof -
  note K = nucleo_okD [OF ok]
  have t: "tabla k pd i \<noteq> pd" using K(7) [OF i] by blast
  then show m: "mem k' pd = mem k pd" by (auto simp: k'_def fun_eq_iff)
  then have tb: "tabla k' pd = tabla k pd" and pr: "presentes k' pd = presentes k pd"
    by (simp_all add: tabla_def presentes_def fun_eq_iff)
  then show "presentes k' pd = presentes k pd" by blast
  have "pag.libres k' xs = pag.libres k xs" by (rule pag.libres_cong) (simp_all add: k'_def)
  then show "nucleo_ok pd T xs k'"
    using ok unfolding nucleo_ok_def tb pr m by (simp add: k'_def)
  have "mem k' p = mem k p" if "p \<notin> tablas_de k pd" for p using that i by (auto simp: k'_def tablas_de_def fun_eq_iff)
  then show "usa pd xs k xs k'" by (simp add: usa_def tablas_de_def tb pr)
  fix i' j' :: nat assume i': "i' < 1024" "i' \<noteq> 957"
  have "i' = i \<longleftrightarrow> tabla k pd i' = tabla k pd i" if "mem k pd i' \<noteq> 0"
    using K(8) i i' that by (auto simp: inj_on_def presentes_def)
  moreover have "mem k pd i \<noteq> 0" using i by (simp add: presentes_def)
  ultimately show "pte_en k' pd i' j' = (if i' = i \<and> j' = j then v else pte_en k pd i' j')"
    by (auto simp: pte_en_def m tb) (auto simp: k'_def)
qed

text \<open>
  What mapping pages does: the entries of the kernel's pages become those of \<open>f\<close>, and
  nothing else changes but the tables.
\<close>

definition mapeado :: "nat \<Rightarrow> nat set \<Rightarrow> nat list \<Rightarrow> kernel \<Rightarrow> (nat \<Rightarrow> uint32) \<Rightarrow> nat list \<Rightarrow> kernel \<Rightarrow> bool" where
  "mapeado pd T xs k f xs' k' \<longleftrightarrow> nucleo_ok pd T xs' k' \<and> solo_vm k k' \<and> tlb k' = tlb k \<and> set xs' \<subseteq> set xs
     \<and> mem k' pd 957 = mem k pd 957 \<and> (\<forall>q. pagina_nucleo q \<longrightarrow> entrada k' pd q = f q)
     \<and> usa pd xs k xs' k'"

lemma mapeado_refl: "nucleo_ok pd T xs k \<Longrightarrow> (\<And>q. pagina_nucleo q \<Longrightarrow> f q = entrada k pd q) \<Longrightarrow> mapeado pd T xs k f xs k"
  by (simp add: mapeado_def usa_refl)

lemma mapeado_trans:
  "mapeado pd T xs k f xs1 k1 \<Longrightarrow> mapeado pd T xs1 k1 g xs2 k2 \<Longrightarrow> mapeado pd T xs k g xs2 k2"
  unfolding mapeado_def using solo_vm_trans usa_trans by (metis (no_types, lifting) subset_trans)

lemma pagina_en_boot:
  assumes ok: "nucleo_ok pd T xs k" and q: "pagina_nucleo q" "q div 1024 \<in> T" and z: "entrada k pd q = 0"
  shows "\<exists>xs' k' k1 e. pgdir_walk pd (pagina_va q) True k = Some (Some e, k1)
    \<and> page_remove pd (pagina_va q) k1 = Some k1 \<and> k' = escribir (fst e) (snd e) v k1
    \<and> mapeado pd T xs k (\<lambda>r. if r = q then v else entrada k pd r) xs' k'"
proof -
  note I = pagina_indices [OF q(1)]
  have i: "q div 1024 \<noteq> 957" using q(1) by (simp add: pagina_nucleo_def)
  obtain xs' k1 where w: "pgdir_walk pd (pagina_va q) True k = Some (Some (tabla k1 pd (q div 1024), q mod 1024), k1)"
      "nucleo_ok pd T xs' k1" "solo_vm k k1" "q div 1024 \<in> presentes k1 pd" "mem k1 pd 957 = mem k pd 957"
      "set xs' \<subseteq> set xs" "tlb k1 = tlb k"
      "\<forall>i j. i < 1024 \<longrightarrow> i \<noteq> 957 \<longrightarrow> pte_en k1 pd i j = pte_en k pd i j"
      "usa pd xs k xs' k1"
    using walk_nucleo [OF ok q] by (elim exE conjE) (rule that)
  have m: "mem k1 pd (q div 1024) \<noteq> 0" using w(4) by (simp add: presentes_def)
  have "marco (mem k1 pd (q div 1024)) < npages k1" using nucleo_okD(7) [OF w(2), of "q div 1024"] w(4) i by (simp add: tabla_def)
  with m have "pgdir_walk pd (pagina_va q) False k1 = Some (Some (tabla k1 pd (q div 1024), q mod 1024), k1)"
    by (simp add: pgdir_walk_def Let_def KADDR_marco tabla_def I)
  moreover have "mem k1 (tabla k1 pd (q div 1024)) (q mod 1024) = 0"
    using w(8) [rule_format, OF I(3) i, of "q mod 1024"] z m by (simp add: entrada_def pte_en_def split: if_splits)
  ultimately have rm: "page_remove pd (pagina_va q) k1 = Some k1"
    by (simp add: page_remove_def page_lookup_def leer_def)
  have "q div 1024 \<in> presentes k1 pd - {957}" using w(4) i by blast
  note s = escribir_nucleo [OF w(2) this, where j = "q mod 1024" and v = v]
  have "entrada (escribir (tabla k1 pd (q div 1024)) (q mod 1024) v k1) pd r = (if r = q then v else entrada k pd r)"
    if "pagina_nucleo r" for r
    using s(4) [OF pagina_indices(3) [OF that]] that w(8) pagina_indices(3) [OF that] mismo_indice [of r q]
    by (simp add: entrada_def pagina_nucleo_def)
  then have "mapeado pd T xs k (\<lambda>r. if r = q then v else entrada k pd r) xs'
      (escribir (tabla k1 pd (q div 1024)) (q mod 1024) v k1)"
    using s w usa_trans [OF w(9) s(5)] by (simp add: mapeado_def)
  with w(1) rm show ?thesis by auto
qed

section \<open>A range of pages\<close>

text \<open>The entries after mapping \<open>n\<close> pages from page \<open>q\<close> on to the memory from \<open>pa\<close> on.\<close>

definition con_rango :: "nat \<Rightarrow> nat \<Rightarrow> uint32 \<Rightarrow> uint32 \<Rightarrow> (nat \<Rightarrow> uint32) \<Rightarrow> nat \<Rightarrow> uint32" where
  "con_rango q n pa perm f r = (if q \<le> r \<and> r < q + n then (pa + pagina_va (r - q)) OR perm OR PTE_P else f r)"

lemma boot_map_paginas_rango:
  assumes "nucleo_ok pd T xs k" "\<And>r. q \<le> r \<Longrightarrow> r < q + n \<Longrightarrow> pagina_nucleo r \<and> r div 1024 \<in> T \<and> entrada k pd r = 0"
  shows "\<exists>xs' k'. boot_map_paginas pd (pagina_va q) pa perm n k = Some k'
    \<and> mapeado pd T xs k (con_rango q n pa perm (entrada k pd)) xs' k'"
  using assms
proof (induction n arbitrary: q pa k xs)
  case 0
  have "con_rango q 0 pa perm (entrada k pd) = entrada k pd" by (auto simp: con_rango_def fun_eq_iff)
  with mapeado_refl [OF 0(1), of "entrada k pd"] show ?case by auto
next
  case (Suc n)
  let ?v = "pa OR perm OR PTE_P"
  have q: "pagina_nucleo q" "q div 1024 \<in> T" "entrada k pd q = 0" using Suc.prems(2) [of q] by simp_all
  obtain xs1 k2 k1 e where p: "pgdir_walk pd (pagina_va q) True k = Some (Some e, k1)"
      "page_remove pd (pagina_va q) k1 = Some k1" "k2 = escribir (fst e) (snd e) ?v k1"
      "mapeado pd T xs k (\<lambda>r. if r = q then ?v else entrada k pd r) xs1 k2"
    using pagina_en_boot [OF Suc.prems(1) q, of ?v] by (elim exE conjE) (rule that)
  have ok: "nucleo_ok pd T xs1 k2" and e2: "pagina_nucleo r \<Longrightarrow> entrada k2 pd r = (if r = q then ?v else entrada k pd r)" for r
    using p(4) by (simp_all add: mapeado_def)
  have "pagina_nucleo r \<and> r div 1024 \<in> T \<and> entrada k2 pd r = 0" if "Suc q \<le> r" "r < Suc q + n" for r
    using Suc.prems(2) [of r] that e2 [of r] by simp
  from Suc.IH [OF ok this, where pa = "pa + PGSIZE"] obtain xs' k'
    where r: "boot_map_paginas pd (pagina_va (Suc q)) (pa + PGSIZE) perm n k2 = Some k'"
      "mapeado pd T xs1 k2 (con_rango (Suc q) n (pa + PGSIZE) perm (entrada k2 pd)) xs' k'" by blast
  have "con_rango (Suc q) n (pa + PGSIZE) perm (entrada k2 pd) t = con_rango q (Suc n) pa perm (entrada k pd) t"
    if "pagina_nucleo t" for t
  proof -
    have s: "pa + PGSIZE + pagina_va (t - Suc q) = pa + pagina_va (t - q)" if "Suc q \<le> t"
      using that pagina_va_suma [of "t - Suc q"] by (simp add: Suc_diff_Suc algebra_simps)
    consider "t < q" | "t = q" | "Suc q \<le> t" by linarith
    then show ?thesis
      by cases (use e2 [OF that] s in \<open>simp_all add: con_rango_def pagina_va_def [of 0] add.assoc\<close>)
  qed
  with r(2) have "mapeado pd T xs1 k2 (con_rango q (Suc n) pa perm (entrada k pd)) xs' k'" by (simp add: mapeado_def)
  with mapeado_trans [OF p(4)] r(1) show ?case by (auto simp: p pagina_va_suma)
qed

lemma boot_map_rango:
  assumes "nucleo_ok pd T xs k" "unat sz = 4096 * n" "n \<le> 65536" "va = pagina_va q"
    "\<And>r. q \<le> r \<Longrightarrow> r < q + n \<Longrightarrow> pagina_nucleo r \<and> r div 1024 \<in> T \<and> entrada k pd r = 0"
  shows "\<exists>xs' k'. boot_map_region pd va sz pa perm k = Some k'
    \<and> mapeado pd T xs k (con_rango q n pa perm (entrada k pd)) xs' k'"
proof -
  have "\<not> sz > 0xFFFFF000" using assms(2,3) by (simp add: word_less_nat_alt)
  moreover have "(unat sz + 4095) div 4096 = n" unfolding assms(2) by simp
  ultimately have "boot_map_region pd va sz pa perm k = boot_map_paginas pd (pagina_va q) pa perm n k"
    by (simp add: boot_map_region_def assms(4))
  with boot_map_paginas_rango [OF assms(1,5)] show ?thesis by simp
qed

text \<open>One more region.\<close>

lemma boot_map_sigue:
  assumes m: "mapeado pd T xs0 k0 f xs k" and d: "kern_pgdir k0 = pd"
    and r: "unat sz = 4096 * n" "n \<le> 65536" "va = pagina_va q"
    and z: "\<And>r. q \<le> r \<Longrightarrow> r < q + n \<Longrightarrow> pagina_nucleo r \<and> r div 1024 \<in> T \<and> f r = 0"
  shows "\<exists>xs' k'. boot_map_region (kern_pgdir k) va sz pa perm k = Some k' \<and> mapeado pd T xs0 k0 (con_rango q n pa perm f) xs' k'"
proof -
  have ok: "nucleo_ok pd T xs k" and s: "solo_vm k0 k" and e: "\<And>r. pagina_nucleo r \<Longrightarrow> entrada k pd r = f r"
    using m by (simp_all add: mapeado_def)
  have "pagina_nucleo r \<and> r div 1024 \<in> T \<and> entrada k pd r = 0" if "q \<le> r" "r < q + n" for r
    using z [OF that] e by simp
  from boot_map_rango [OF ok r this, of pa perm] obtain xs' k' where
    b: "boot_map_region pd va sz pa perm k = Some k'" "mapeado pd T xs k (con_rango q n pa perm (entrada k pd)) xs' k'" by blast
  have "con_rango q n pa perm (entrada k pd) t = con_rango q n pa perm f t" if "pagina_nucleo t" for t
    using e [OF that] by (simp add: con_rango_def)
  with b(2) have "mapeado pd T xs k (con_rango q n pa perm f) xs' k'" by (simp add: mapeado_def)
  with mapeado_trans [OF m] b(1) solo_vmD(4) [OF s] d show ?thesis by auto
qed

end
