(* ===== verification/Checks_Alloc.thy ===== *)
theory Checks_Alloc
  imports Checks Boot_Inv
begin

text \<open>
  The self tests of \<open>kern/pmap.c\<close> on three pages, executed symbolically: \<open>est\<close> is a kernel
  that differs from another in the descriptors and contents of those pages, two entries of
  the page directory, the head of the free list and the TLB.
\<close>

unbundle bit_operations_syntax

section \<open>Executing\<close>

lemma bind_debil: "x = y \<Longrightarrow> Option.bind x f = Option.bind y f"
  by simp

lemma afirmar_simps [simp]: "b \<Longrightarrow> afirmar b = Some ()"
  by (simp add: afirmar_def)

definition est :: "kernel \<Rightarrow> nat \<Rightarrow> nat \<Rightarrow> nat \<Rightarrow> nat \<Rightarrow> nat option \<Rightarrow> page_info \<Rightarrow> page_info \<Rightarrow> page_info \<Rightarrow> uint32 \<Rightarrow> uint32
    \<Rightarrow> (nat \<Rightarrow> uint32) \<Rightarrow> (nat \<Rightarrow> uint32) \<Rightarrow> (nat \<Rightarrow> uint32) \<Rightarrow> uint32 list \<Rightarrow> kernel" where
  "est k s a b c F pa pb pc e0 e1 ta tb tc t =
     k\<lparr>page_free_list := F, pages := (pages k)(a := pa, b := pb, c := pc),
       mem := (mem k)(s := (mem k s)(0 := e0, 1 := e1), a := ta, b := tb, c := tc), tlb := t\<rparr>"

definition mesa :: "kernel \<Rightarrow> nat \<Rightarrow> nat \<Rightarrow> nat \<Rightarrow> nat \<Rightarrow> bool" where
  "mesa k s a b c \<longleftrightarrow> distinct [s, a, b, c] \<and> s < npages k \<and> a < npages k \<and> b < npages k \<and> c < npages k
     \<and> npages k \<le> 65536 \<and> curenv k = None \<and> kern_pgdir k = s"

lemma est_campos:
  assumes "mesa k s a b c"
  shows "page_free_list (est k s a b c F pa pb pc e0 e1 ta tb tc t) = F" "pages (est k s a b c F pa pb pc e0 e1 ta tb tc t) a = pa" "pages (est k s a b c F pa pb pc e0 e1 ta tb tc t) b = pb" "pages (est k s a b c F pa pb pc e0 e1 ta tb tc t) c = pc" "npages (est k s a b c F pa pb pc e0 e1 ta tb tc t) = npages k" "kern_pgdir (est k s a b c F pa pb pc e0 e1 ta tb tc t) = s"
    "curenv (est k s a b c F pa pb pc e0 e1 ta tb tc t) = None" "cr3 (est k s a b c F pa pb pc e0 e1 ta tb tc t) = cr3 k" "tlb (est k s a b c F pa pb pc e0 e1 ta tb tc t) = t" "mem (est k s a b c F pa pb pc e0 e1 ta tb tc t) s 0 = e0" "mem (est k s a b c F pa pb pc e0 e1 ta tb tc t) s (Suc 0) = e1" "mem (est k s a b c F pa pb pc e0 e1 ta tb tc t) a = ta" "mem (est k s a b c F pa pb pc e0 e1 ta tb tc t) b = tb" "mem (est k s a b c F pa pb pc e0 e1 ta tb tc t) c = tc"
  using assms by (auto simp: est_def mesa_def)

lemma est_cambios:
  assumes "mesa k s a b c"
  shows
    "con_page a f (est k s a b c F pa pb pc e0 e1 ta tb tc t) = est k s a b c F (f pa) pb pc e0 e1 ta tb tc t"
    "con_page b f (est k s a b c F pa pb pc e0 e1 ta tb tc t) = est k s a b c F pa (f pb) pc e0 e1 ta tb tc t"
    "con_page c f (est k s a b c F pa pb pc e0 e1 ta tb tc t) = est k s a b c F pa pb (f pc) e0 e1 ta tb tc t"
    "escribir s 0 v (est k s a b c F pa pb pc e0 e1 ta tb tc t) = est k s a b c F pa pb pc v e1 ta tb tc t"
    "escribir s (Suc 0) v (est k s a b c F pa pb pc e0 e1 ta tb tc t) = est k s a b c F pa pb pc e0 v ta tb tc t"
    "escribir a j v (est k s a b c F pa pb pc e0 e1 ta tb tc t) = est k s a b c F pa pb pc e0 e1 (ta(j := v)) tb tc t"
    "escribir b j v (est k s a b c F pa pb pc e0 e1 ta tb tc t) = est k s a b c F pa pb pc e0 e1 ta (tb(j := v)) tc t"
    "escribir c j v (est k s a b c F pa pb pc e0 e1 ta tb tc t) = est k s a b c F pa pb pc e0 e1 ta tb (tc(j := v)) t"
    "est k s a b c F pa pb pc e0 e1 ta tb tc t\<lparr>page_free_list := G\<rparr> = est k s a b c G pa pb pc e0 e1 ta tb tc t"
    "est k s a b c F pa pb pc e0 e1 ta tb tc t\<lparr>tlb := u\<rparr> = est k s a b c F pa pb pc e0 e1 ta tb tc u"
    "est k s a b c F pa pb pc e0 e1 ta tb tc t\<lparr>mem := (mem (est k s a b c F pa pb pc e0 e1 ta tb tc t))(a := g)\<rparr>
       = est k s a b c F pa pb pc e0 e1 g tb tc t"
    "est k s a b c F pa pb pc e0 e1 ta tb tc t\<lparr>mem := (mem (est k s a b c F pa pb pc e0 e1 ta tb tc t))(b := g)\<rparr>
       = est k s a b c F pa pb pc e0 e1 ta g tc t"
    "est k s a b c F pa pb pc e0 e1 ta tb tc t\<lparr>mem := (mem (est k s a b c F pa pb pc e0 e1 ta tb tc t))(c := g)\<rparr>
       = est k s a b c F pa pb pc e0 e1 ta tb g t"
  using assms by (simp_all add: est_def mesa_def con_page_def escribir_def fun_upd_twist fun_upd_def fun_eq_iff cong: if_cong)

lemma mesaD:
  assumes "mesa k s a b c"
  shows "a \<noteq> b" "a \<noteq> c" "b \<noteq> c" "b \<noteq> a" "c \<noteq> a" "c \<noteq> b" "s \<noteq> a" "s \<noteq> b" "s \<noteq> c" "a < npages k" "b < npages k" "c < npages k"
    "a < 1048576" "b < 1048576" "c < 1048576" "\<not> npages k \<le> a" "\<not> npages k \<le> b" "\<not> npages k \<le> c" "s < npages k" "npages k \<le> 65536"
  using assms by (auto simp: mesa_def)

lemma page2kva_pagina: "p < npages k \<Longrightarrow> npages k \<le> 65536 \<Longrightarrow> page2kva k p = Some p"
  by (simp add: page2kva_def KADDR_def PGNUM_page2pa unat_of_nat take_bit_nat_eq_self)

text \<open>Taking and giving back the pages, at the head of the list.\<close>

lemma est_alloc:
  assumes m: "mesa k s a b c"
  shows "page_alloc z (est k s a b c None pa pb pc e0 e1 ta tb tc t) = Some (None, est k s a b c None pa pb pc e0 e1 ta tb tc t)"
    "page_alloc z (est k s a b c (Some a) \<lparr>pp_link = G, pp_ref = r\<rparr> pb pc e0 e1 ta tb tc t)
      = Some (Some a, est k s a b c G \<lparr>pp_link = None, pp_ref = r\<rparr> pb pc e0 e1 (if z then (\<lambda>_. 0) else ta) tb tc t)"
    "page_alloc z (est k s a b c (Some b) pa \<lparr>pp_link = G, pp_ref = r\<rparr> pc e0 e1 ta tb tc t)
      = Some (Some b, est k s a b c G pa \<lparr>pp_link = None, pp_ref = r\<rparr> pc e0 e1 ta (if z then (\<lambda>_. 0) else tb) tc t)"
    "page_alloc z (est k s a b c (Some c) pa pb \<lparr>pp_link = G, pp_ref = r\<rparr> e0 e1 ta tb tc t)
      = Some (Some c, est k s a b c G pa pb \<lparr>pp_link = None, pp_ref = r\<rparr> e0 e1 ta tb (if z then (\<lambda>_. 0) else tc) t)"
  by (simp_all add: page_alloc_def est_campos [OF m] est_cambios [OF m] Let_def page2kva_pagina mesaD [OF m])

lemma est_free:
  assumes m: "mesa k s a b c"
  shows "page_free a (est k s a b c F \<lparr>pp_link = None, pp_ref = 0\<rparr> pb pc e0 e1 ta tb tc t)
      = Some (est k s a b c (Some a) \<lparr>pp_link = F, pp_ref = 0\<rparr> pb pc e0 e1 ta tb tc t)"
    "page_free b (est k s a b c F pa \<lparr>pp_link = None, pp_ref = 0\<rparr> pc e0 e1 ta tb tc t)
      = Some (est k s a b c (Some b) pa \<lparr>pp_link = F, pp_ref = 0\<rparr> pc e0 e1 ta tb tc t)"
    "page_free c (est k s a b c F pa pb \<lparr>pp_link = None, pp_ref = 0\<rparr> e0 e1 ta tb tc t)
      = Some (est k s a b c (Some c) pa pb \<lparr>pp_link = F, pp_ref = 0\<rparr> e0 e1 ta tb tc t)"
  by (simp_all add: page_free_def est_campos [OF m] est_cambios [OF m])

lemma est_memset:
  assumes m: "mesa k s a b c"
  shows "memset_pagina a v (est k s a b c F pa pb pc e0 e1 ta tb tc t) = Some (est k s a b c F pa pb pc e0 e1 (\<lambda>_. v * 0x01010101) tb tc t)"
    "memset_pagina b v (est k s a b c F pa pb pc e0 e1 ta tb tc t) = Some (est k s a b c F pa pb pc e0 e1 ta (\<lambda>_. v * 0x01010101) tc t)"
    "memset_pagina c v (est k s a b c F pa pb pc e0 e1 ta tb tc t) = Some (est k s a b c F pa pb pc e0 e1 ta tb (\<lambda>_. v * 0x01010101) t)"
  by (simp_all add: memset_pagina_def est_campos [OF m] est_cambios [OF m] page2kva_pagina mesaD [OF m])

lemma page2pa_menor: "p < n \<Longrightarrow> n \<le> 65536 \<Longrightarrow> page2pa p < word_of_nat n * PGSIZE"
proof -
  assume p: "p < n" "n \<le> 65536"
  have "unat (page2pa p) = 4096 * p"
    using p by (simp add: page2pa_def unat_word_ariths push_bit_eq_mult unat_of_nat take_bit_nat_eq_self)
  moreover have "unat (word_of_nat n * PGSIZE) = 4096 * n"
    using p by (simp add: PGSIZE_def unat_word_ariths unat_of_nat take_bit_nat_eq_self)
  ultimately show ?thesis using p by (simp add: word_less_nat_alt)
qed

section \<open>check_page_alloc\<close>

lemma check_page_alloc_est:
  assumes m: "mesa k s a b c"
    and l: "paginas_desde (est k s a b c (Some a) \<lparr>pp_link = Some b, pp_ref = 0\<rparr> \<lparr>pp_link = Some c, pp_ref = 0\<rparr> \<lparr>pp_link = fl, pp_ref = 0\<rparr>
        e0 e1 ta tb tc t) (Some a) (npages k) = Some ps"
      "paginas_desde (est k s a b c (Some a) \<lparr>pp_link = Some b, pp_ref = 0\<rparr> \<lparr>pp_link = Some c, pp_ref = 0\<rparr> \<lparr>pp_link = fl, pp_ref = 0\<rparr>
        e0 e1 ta tb (\<lambda>_. 0) t) (Some a) (npages k) = Some ps"
  shows "check_page_alloc (est k s a b c (Some a) \<lparr>pp_link = Some b, pp_ref = 0\<rparr> \<lparr>pp_link = Some c, pp_ref = 0\<rparr> \<lparr>pp_link = fl, pp_ref = 0\<rparr> e0 e1 ta tb tc t)
    = Some (est k s a b c (Some a) \<lparr>pp_link = Some b, pp_ref = 0\<rparr> \<lparr>pp_link = Some c, pp_ref = 0\<rparr> \<lparr>pp_link = fl, pp_ref = 0\<rparr> e0 e1 ta tb (\<lambda>_. 0) t)"
  by (simp add: check_page_alloc_def l est_alloc [OF m] est_free [OF m] est_memset [OF m] est_campos [OF m] est_cambios [OF m] mesaD [OF m]
      page2pa_menor page2kva_pagina list_all_iff Let_def cong: bind_debil)

section \<open>The table of the first pages\<close>

abbreviation (input) ent_tabla :: "nat \<Rightarrow> uint32" where
  "ent_tabla p \<equiv> page2pa p OR PTE_P OR PTE_W OR PTE_U"

lemma PTE_ADDR_page2pa: "p < 2 ^ 20 \<Longrightarrow> es_perm perm \<Longrightarrow> PTE_ADDR (page2pa p OR perm) = page2pa p"
proof -
  assume p: "p < 2 ^ 20" "es_perm perm"
  have "page2pa p AND NOT 0xFFF = page2pa p"
    by (rule bit_word_eqI) (auto simp: page2pa_def mascaras bit_simps)
  with p(2) show ?thesis by (simp add: PTE_ADDR_def es_perm_def bit.conj_disj_distrib2)
qed

lemma page2pa_bandera: "page2pa p AND PTE_P = 0" "page2pa p AND PTE_W = 0" "page2pa p AND PTE_U = 0" "page2pa p AND PTE_PS = 0"
proof -
  have "page2pa p AND f = 0" if "f AND NOT 0xFFF = 0" for f
  proof -
    have "page2pa p AND NOT 0xFFF = page2pa p"
      by (rule bit_word_eqI) (auto simp: page2pa_def mascaras bit_simps)
    then have "page2pa p AND f = (page2pa p AND NOT 0xFFF) AND f" by simp
    also have "\<dots> = page2pa p AND (f AND NOT 0xFFF)" by (simp only: ac_simps)
    also have "\<dots> = 0" using that by simp
    finally show ?thesis .
  qed
  from this show "page2pa p AND PTE_P = 0" "page2pa p AND PTE_W = 0" "page2pa p AND PTE_U = 0" "page2pa p AND PTE_PS = 0"
    by (simp_all add: pte_flags)
qed

lemma banderas_y: "PTE_W AND PTE_P = 0" "PTE_U AND PTE_P = 0" "PTE_P AND PTE_W = 0" "PTE_U AND PTE_W = 0" "PTE_P AND PTE_U = 0" "PTE_W AND PTE_U = 0"
  "PTE_P AND PTE_PS = 0" "PTE_W AND PTE_PS = 0" "PTE_U AND PTE_PS = 0" "PTE_P \<noteq> 0" "PTE_W \<noteq> 0" "PTE_U \<noteq> 0"
  by (simp_all add: pte_flags)

lemma ent_tabla_simps:
  "ent_tabla p \<noteq> 0" "ent_tabla p AND PTE_P = PTE_P" "ent_tabla p AND PTE_W = PTE_W" "ent_tabla p AND PTE_U = PTE_U"
  "ent_tabla p AND PTE_PS = 0"
  "p < npages k \<Longrightarrow> npages k \<le> 65536 \<Longrightarrow> KADDR k (page2pa p) = Some p"
  "p < 1048576 \<Longrightarrow> PTE_ADDR (ent_tabla p) = page2pa p" "p < 1048576 \<Longrightarrow> marco (ent_tabla p) = p"
proof -
  show "ent_tabla p \<noteq> 0" by (rule nueva_no_cero)
  show m: "marco (ent_tabla p) = p" if "p < 1048576" for p using that by (intro marco_nueva) simp
  show "KADDR k (page2pa p) = Some p" if "p < npages k" "npages k \<le> 65536"
    using that page2kva_pagina [of p k] by (simp add: page2kva_def)
  show "PTE_ADDR (ent_tabla p) = page2pa p" if "p < 1048576"
    using PTE_ADDR_page2pa [of p "PTE_P OR PTE_W OR PTE_U"] that by (simp add: or.assoc)
  show "ent_tabla p AND PTE_P = PTE_P" "ent_tabla p AND PTE_W = PTE_W" "ent_tabla p AND PTE_U = PTE_U" "ent_tabla p AND PTE_PS = 0"
    by (simp_all add: bit.conj_disj_distrib2 page2pa_bandera banderas_y)
qed

lemma ent_pagina_simps:
  "page2pa p OR perm OR PTE_P \<noteq> 0" "(page2pa p OR perm OR PTE_P) AND PTE_P = PTE_P"
  "(page2pa p OR perm OR PTE_P) AND PTE_U = perm AND PTE_U" "(page2pa p OR perm OR PTE_P) AND PTE_W = perm AND PTE_W"
  "p < npages k \<Longrightarrow> npages k \<le> 65536 \<Longrightarrow> pa2page k (page2pa p) = Some p"
  "p < 1048576 \<Longrightarrow> es_perm perm \<Longrightarrow> PTE_ADDR (page2pa p OR perm OR PTE_P) = page2pa p"
proof -
  show "page2pa p OR perm OR PTE_P \<noteq> 0" by (simp add: or_eq_0_iff banderas_y)
  show "pa2page k (page2pa p) = Some p" if "p < npages k" "npages k \<le> 65536"
    using that page2kva_pagina [of p k] by (simp add: page2kva_def KADDR_def pa2page_def)
  show "PTE_ADDR (page2pa p OR perm OR PTE_P) = page2pa p" if "p < 1048576" "es_perm perm"
    using PTE_ADDR_page2pa [of p "perm OR PTE_P"] that by (simp add: or.assoc)
qed (simp_all add: bit.conj_disj_distrib2 page2pa_bandera banderas_y)

text \<open>The addresses the tests use.\<close>

lemma indices: "unat (PDX 0) = 0" "unat (PTX 0) = 0" "unat (PDX PGSIZE) = 0" "unat (PTX PGSIZE) = Suc 0"
  "unat (PDX PTSIZE) = Suc 0" "unat (PDX (PGSIZE * NPDENTRIES + PGSIZE)) = Suc 0" "unat (PTX (PGSIZE * NPDENTRIES + PGSIZE)) = Suc 0"
  by (simp_all add: unat_PDX unat_PTX PGSIZE_def PTSIZE_def NPDENTRIES_def)

text \<open>\<open>pgdir_walk\<close> at the entries 0 and 1 of the directory.\<close>

lemma est_walk:
  assumes m: "mesa k s a b c"
  shows "unat (PDX va) = 0 \<Longrightarrow> pgdir_walk s va cr (est k s a b c F pa pb pc (ent_tabla a) e1 ta tb tc t)
      = Some (Some (a, unat (PTX va)), est k s a b c F pa pb pc (ent_tabla a) e1 ta tb tc t)"
    "unat (PDX va) = 0 \<Longrightarrow> pgdir_walk s va False (est k s a b c F pa pb pc 0 e1 ta tb tc t)
      = Some (None, est k s a b c F pa pb pc 0 e1 ta tb tc t)"
    "unat (PDX va) = 0 \<Longrightarrow> pgdir_walk s va True (est k s a b c None pa pb pc 0 e1 ta tb tc t)
      = Some (None, est k s a b c None pa pb pc 0 e1 ta tb tc t)"
    "unat (PDX va) = 0 \<Longrightarrow> pgdir_walk s va True (est k s a b c (Some a) \<lparr>pp_link = G, pp_ref = r\<rparr> pb pc 0 e1 ta tb tc t)
      = Some (Some (a, unat (PTX va)), est k s a b c G \<lparr>pp_link = None, pp_ref = r + 1\<rparr> pb pc (ent_tabla a) e1 (\<lambda>_. 0) tb tc t)"
    "unat (PDX va) = Suc 0 \<Longrightarrow> pgdir_walk s va True (est k s a b c None pa pb pc e0 0 ta tb tc t)
      = Some (None, est k s a b c None pa pb pc e0 0 ta tb tc t)"
    "unat (PDX va) = Suc 0 \<Longrightarrow> pgdir_walk s va True (est k s a b c (Some a) \<lparr>pp_link = G, pp_ref = r\<rparr> pb pc e0 0 ta tb tc t)
      = Some (Some (a, unat (PTX va)), est k s a b c G \<lparr>pp_link = None, pp_ref = r + 1\<rparr> pb pc e0 (ent_tabla a) (\<lambda>_. 0) tb tc t)"
  by (simp_all add: pgdir_walk_def Let_def est_campos [OF m] est_alloc [OF m] est_cambios [OF m] pp_ref_inc_def
      ent_tabla_simps mesaD [OF m] cong: bind_debil)

lemma ent_solo_presente: "p < 1048576 \<Longrightarrow> PTE_ADDR (page2pa p OR PTE_P) = page2pa p"
  using PTE_ADDR_page2pa [of p PTE_P] by simp

lemma ent_marco: "p < 1048576 \<Longrightarrow> es_perm perm \<Longrightarrow> marco (page2pa p OR perm OR PTE_P) = p"
  using marco_entrada [of p "perm OR PTE_P"] by simp

lemma ent_escritura: "ent_tabla p AND (PTE_P OR PTE_W) = PTE_P OR PTE_W"
  "(page2pa p OR PTE_W OR PTE_P) AND (PTE_P OR PTE_W) = PTE_P OR PTE_W"
  unfolding bit.conj_disj_distrib [of _ PTE_P PTE_W]
  by (simp_all add: bit.conj_disj_distrib2 page2pa_bandera banderas_y)

lemma est_tlb:
  "mesa k s a b c \<Longrightarrow> tlb_invalidate s va (est k s a b c F pa pb pc e0 e1 ta tb tc t) = est k s a b c F pa pb pc e0 e1 ta tb tc (va # t)"
  by (simp add: tlb_invalidate_def est_campos est_cambios)

section \<open>check_page\<close>

abbreviation (input) pg :: "nat option \<Rightarrow> 16 word \<Rightarrow> page_info" where
  "pg l r \<equiv> \<lparr>pp_link = l, pp_ref = r\<rparr>"

abbreviation (input) ent :: "nat \<Rightarrow> uint32 \<Rightarrow> uint32" where
  "ent p perm \<equiv> page2pa p OR perm OR PTE_P"

lemma upd_constante: "(\<lambda>_. x)(i := x) = (\<lambda>_. x)"
  by auto

lemmas ejecutar_defs = page_insert_def page_remove_def page_lookup_def page_decref_def pp_ref_inc_def pte_de_def leer_def
  check_va2pa_def Let_def

lemmas entradas = indices ent_tabla_simps ent_pagina_simps ent_solo_presente ent_marco ent_escritura entrada_presente page2pa_bandera banderas_y kern_errors upd_constante

lemmas est_reglas = est_walk est_alloc est_free est_memset est_tlb est_campos est_cambios mesaD

lemma check_page_insert_est:
  assumes m: "mesa k s a b c"
  shows "check_page_insert a b c (est k s a b c None (pg None 0) (pg None 0) (pg None 0) 0 e1 ta tb tc t)
    = Some (est k s a b c None (pg None 1) (pg None 1) (pg None 1) (ent_tabla a) e1
        ((\<lambda>_. 0)(0 := ent b PTE_W, Suc 0 := ent c PTE_W)) tb tc (PGSIZE # PGSIZE # PGSIZE # t))"
  by (simp add: check_page_insert_def ejecutar_defs est_reglas [OF m] entradas bit.conj_disj_distrib2 cong: bind_debil)

lemma check_page_remove_est:
  assumes m: "mesa k s a b c"
  shows "check_page_remove a b c (est k s a b c None (pg None 1) (pg None 1) (pg None 1) (ent_tabla a) 0
      ((\<lambda>_. 0)(0 := ent b PTE_W, Suc 0 := ent c PTE_W)) tb tc t)
    = Some (est k s a b c None (pg None 0) (pg None 0) (pg None 0) 0 0 (\<lambda>_. 0) tb tc (PGSIZE # PGSIZE # 0 # PGSIZE # t))"
  by (simp add: check_page_remove_def ejecutar_defs est_reglas [OF m] entradas cong: bind_debil)

lemma check_page_walk_est:
  assumes m: "mesa k s a b c"
  shows "check_page_walk a (est k s a b c None (pg None 0) pb pc 0 0 ta tb tc t)
    = Some (est k s a b c None (pg None 0) pb pc 0 0 (\<lambda>_. 0) tb tc t)"
  by (simp add: check_page_walk_def ejecutar_defs est_reglas [OF m] entradas page2kva_pagina list_all_iff cong: bind_debil)

text \<open>The part of \<open>check_page\<close> before the region of devices.\<close>

lemma check_page_est:
  assumes m: "mesa k s a b c"
  shows "check_page base (est k s a b c (Some a) (pg (Some b) 0) (pg (Some c) 0) (pg fl 0) 0 0 ta tb tc t)
    = check_page_mmio base (est k s a b c (Some c) (pg fl 0) (pg (Some a) 0) (pg (Some b) 0) 0 0 (\<lambda>_. 0) tb tc
        (PGSIZE # PGSIZE # 0 # PGSIZE # PGSIZE # PGSIZE # PGSIZE # t))"
  by (simp add: check_page_def est_reglas [OF m] check_page_insert_est [OF m] check_page_remove_est [OF m]
      check_page_walk_est [OF m] Let_def cong: bind_debil)

section \<open>check_page_installed_pgdir\<close>

lemma check_page_installed_est:
  assumes m: "mesa k s a b c" and "cr3 k = s"
  shows "check_page_installed_pgdir (est k s a b c (Some a) (pg (Some b) 0) (pg (Some c) 0) (pg fl 0) 0 e1 ta tb tc t)
    = Some (est k s a b c (Some a) (pg (Some c) 0) (pg fl 0) (pg (Some b) 0) 0 e1 (\<lambda>_. 0) (\<lambda>_. 0x01010101)
        ((\<lambda>_. 0x02020202)(0 := 0x03030303)) (PGSIZE # PGSIZE # t))"
  by (simp add: check_page_installed_pgdir_def ejecutar_defs est_reglas [OF m] entradas page2kva_pagina pagina_cr3_def assms(2)
    cong: bind_debil)

section \<open>From a kernel under construction\<close>

lemma paginas_desde_cadena: "pag.cadena k h xs \<Longrightarrow> length xs \<le> n \<Longrightarrow> paginas_desde k h n = Some xs"
proof (induction xs arbitrary: h n)
  case (Cons x xs)
  then obtain m where "n = Suc m" by (cases n) auto
  with Cons show ?case by auto
qed simp

text \<open>
  The pages of the list, and the list itself, may have changed: it has the same pages, in
  another order, with no references. Nothing else changed.
\<close>

definition revuelto :: "kernel \<Rightarrow> nat list \<Rightarrow> kernel \<Rightarrow> nat list \<Rightarrow> bool" where
  "revuelto k xs k' xs' \<longleftrightarrow> solo_vm k k' \<and> pag.libres k' xs' \<and> set xs' = set xs \<and> length xs' = length xs
     \<and> (\<forall>p. p \<notin> set xs \<longrightarrow> pages k' p = pages k p \<and> mem k' p = mem k p) \<and> (\<forall>p\<in>set xs. pp_ref (pages k' p) = 0)"

lemma revuelto_trans: "revuelto k xs k1 ys \<Longrightarrow> revuelto k1 ys k2 zs \<Longrightarrow> revuelto k xs k2 zs"
  unfolding revuelto_def using solo_vm_trans by (metis (no_types))

lemma nucleo_revuelto:
  assumes n: "nucleo_ok pd T xs k" and r: "revuelto k xs k' xs'"
  shows "nucleo_ok pd T xs' k'" "mem k' pd = mem k pd" "\<And>q. pagina_nucleo q \<Longrightarrow> entrada k' pd q = entrada k pd q"
proof -
  note N = nucleo_okD [OF n]
  have R: "npages k' = npages k" "pag.libres k' xs'" "set xs' = set xs" "length xs' = length xs"
    "\<And>p. p \<notin> set xs \<Longrightarrow> pages k' p = pages k p \<and> mem k' p = mem k p" "\<And>p. p \<in> set xs \<Longrightarrow> pp_ref (pages k' p) = 0"
    using r solo_vmD(1) by (auto simp: revuelto_def)
  show m: "mem k' pd = mem k pd" using R(5) N(4) by blast
  have t: "tabla k' pd = tabla k pd" "presentes k' pd = presentes k pd" by (simp_all add: tabla_def presentes_def m fun_eq_iff)
  have lk: "pp_link (pages k' p) = None" if "p < npages k" "p \<notin> set xs" for p using R(5) [OF that(2)] N(6) [OF that] by simp
  show "nucleo_ok pd T xs' k'"
    unfolding nucleo_ok_def R(1,3,4) t
    by (intro conjI ballI allI impI N(1,3,4,8-12) R(2) lk) (use N(13) m N(5,7) R(6) in \<open>simp_all\<close>)
  fix q assume q: "pagina_nucleo q"
  then have i: "q div 1024 \<noteq> 957" "q div 1024 < 1024" using pagina_indices(3) [OF q] by (simp_all add: pagina_nucleo_def)
  show "entrada k' pd q = entrada k pd q"
  proof (cases "mem k pd (q div 1024) = 0")
    case False
    then have "tabla k pd (q div 1024) \<notin> set xs" using N(7) [of "q div 1024"] i by (simp add: presentes_def)
    then show ?thesis using R(5) by (simp add: entrada_def pte_en_def m t)
  qed (simp add: entrada_def pte_en_def m)
qed

lemma est_cadena: "a \<notin> set xs \<Longrightarrow> b \<notin> set xs \<Longrightarrow> c \<notin> set xs \<Longrightarrow>
    pag.cadena (est k s a b c F pa pb pc e0 e1 ta tb tc t) h xs = pag.cadena k h xs"
  by (rule pag.cadena_cong) (auto simp: est_def)

lemma est_revuelto:
  assumes m: "mesa k s a b c" and n: "nucleo_ok s T (a # b # c # xs) k" "mem k s 0 = 0" "mem k s (Suc 0) = e1"
    and l: "pag.libres (est k s a b c F pa pb pc 0 e1 ta tb tc t) ys" "set ys = {a, b, c} \<union> set xs" "length ys = length xs + 3"
    and r: "pp_ref pa = 0" "pp_ref pb = 0" "pp_ref pc = 0"
  shows "revuelto k (a # b # c # xs) (est k s a b c F pa pb pc 0 e1 ta tb tc t) ys"
proof -
  let ?k = "est k s a b c F pa pb pc 0 e1 ta tb tc t"
  have "solo_vm k ?k" by (simp add: est_def solo_vm_def)
  moreover have "mem ?k p = mem k p" if "p \<notin> set (a # b # c # xs)" for p
    using that n(2,3) by (auto simp: est_def fun_eq_iff)
  moreover have "pages ?k p = pages k p" if "p \<notin> set (a # b # c # xs)" for p using that by (simp add: est_def)
  moreover have "pp_ref (pages ?k p) = 0" if "p \<in> set (a # b # c # xs)" for p
    using that r nucleo_okD(5) [OF n(1)] by (auto simp: est_def)
  ultimately show ?thesis using l by (auto simp: revuelto_def)
qed

text \<open>The kernel itself, seen through the first three pages of its list.\<close>

lemma est_mismo:
  assumes n: "nucleo_ok s T (a # b # c # xs) k" "kern_pgdir k = s" "curenv k = None" "npages k \<le> 65536" and z: "mem k s 0 = 0"
  defines "fl \<equiv> pp_link (pages k c)"
  shows "mesa k s a b c" "pag.cadena k fl xs" "a \<notin> set xs" "b \<notin> set xs" "c \<notin> set xs" "distinct xs"
    "k = est k s a b c (Some a) (pg (Some b) 0) (pg (Some c) 0) (pg fl 0) 0 (mem k s (Suc 0)) (mem k a) (mem k b) (mem k c) (tlb k)"
proof -
  note N = nucleo_okD [OF n(1)]
  have L: "page_free_list k = Some a" "pp_link (pages k a) = Some b" "pp_link (pages k b) = Some c" "pag.cadena k fl xs"
    "distinct (a # b # c # xs)" using N(2) by (auto simp: pag.libres_def fl_def)
  then show "pag.cadena k fl xs" "a \<notin> set xs" "b \<notin> set xs" "c \<notin> set xs" "distinct xs" by simp_all
  show m: "mesa k s a b c" using n N(3,4) N(5) [of a] N(5) [of b] N(5) [of c] L(5) by (auto simp: mesa_def)
  have "pages k a = pg (Some b) 0" "pages k b = pg (Some c) 0" "pages k c = pg fl 0"
    using N(5) [of a] N(5) [of b] N(5) [of c] L by (auto simp: fl_def intro!: page_info.equality)
  then have "pages k = (pages k)(a := pg (Some b) 0, b := pg (Some c) 0, c := pg fl 0)" by (auto simp: fun_eq_iff)
  moreover have "mem k = (mem k)(s := (mem k s)(0 := 0, Suc 0 := mem k s (Suc 0)), a := mem k a, b := mem k b, c := mem k c)"
    using z mesaD [OF m] by (auto simp: fun_eq_iff)
  ultimately show "k = est k s a b c (Some a) (pg (Some b) 0) (pg (Some c) 0) (pg fl 0) 0 (mem k s (Suc 0)) (mem k a) (mem k b) (mem k c) (tlb k)"
    using L(1) by (simp add: est_def)
qed

end
