(* ===== verification/Checks_List.thy ===== *)
theory Checks_List
  imports Checks_Alloc Pmap_Claims
begin

text \<open>
  \<open>check_page_free_list\<close>: the two lists that its loop makes of the free list, joined, are
  the low pages and then the others, and its assertions hold.
\<close>

unbundle bit_operations_syntax

section \<open>Splitting the list\<close>

text \<open>The links from \<open>h\<close> go through \<open>xs\<close> to \<open>z\<close>.\<close>

fun camino :: "kernel \<Rightarrow> nat option \<Rightarrow> nat list \<Rightarrow> nat option \<Rightarrow> bool" where
  "camino k h [] z \<longleftrightarrow> h = z"
| "camino k h (x # xs) z \<longleftrightarrow> h = Some x \<and> camino k (pp_link (pages k x)) xs z"

lemma camino_cong: "(\<And>x. x \<in> set xs \<Longrightarrow> pp_link (pages k' x) = pp_link (pages k x)) \<Longrightarrow> camino k' h xs z = camino k h xs z"
  by (induction xs arbitrary: h) auto

lemma camino_mas: "camino k h (xs @ [x]) z \<longleftrightarrow> camino k h xs (Some x) \<and> pp_link (pages k x) = z"
  by (induction xs arbitrary: h) auto

lemma camino_cadena: "camino k h xs z \<Longrightarrow> pag.cadena k z ys \<Longrightarrow> pag.cadena k h (xs @ ys)"
  by (induction xs arbitrary: h) auto

text \<open>The list \<open>L\<close> while it is made: its last link is still to be written.\<close>

definition cola_ok :: "kernel \<Rightarrow> cola_tp \<Rightarrow> nat list \<Rightarrow> bool" where
  "cola_ok k q L \<longleftrightarrow> (if L = [] then snd q = None else snd q = Some (last L) \<and> camino k (fst q) (butlast L) (Some (last L)))"

lemma cola_ok_cong: "(\<And>x. x \<in> set (butlast L) \<Longrightarrow> pp_link (pages k' x) = pp_link (pages k x)) \<Longrightarrow> cola_ok k' q L = cola_ok k q L"
  using camino_cong [of "butlast L" k' k] by (simp add: cola_ok_def)

text \<open>Only links of the pages of \<open>S\<close> differ.\<close>

definition solo_enlaces :: "nat set \<Rightarrow> kernel \<Rightarrow> kernel \<Rightarrow> bool" where
  "solo_enlaces S k k' \<longleftrightarrow> k' = k\<lparr>pages := pages k'\<rparr> \<and> (\<forall>p. pp_ref (pages k' p) = pp_ref (pages k p))
     \<and> (\<forall>p. p \<notin> S \<longrightarrow> pages k' p = pages k p)"

lemma solo_enlaces_refl: "solo_enlaces S k k"
  by (simp add: solo_enlaces_def)

lemma solo_enlaces_trans: "solo_enlaces S k k1 \<Longrightarrow> solo_enlaces S k1 k2 \<Longrightarrow> solo_enlaces S k k2"
  unfolding solo_enlaces_def by (cases k; cases k1; cases k2) simp

lemma poner_tp_forma:
  assumes "cola_ok k q L" "distinct L" "poner_tp q v k = (q', k')" "set L \<subseteq> S"
  shows "solo_enlaces S k k'" "\<And>p. L = [] \<or> p \<noteq> last L \<Longrightarrow> pages k' p = pages k p" "camino k' (fst q') L v"
proof -
  have k': "L = [] \<and> k' = k \<and> fst q' = v \<or> L \<noteq> [] \<and> q' = q \<and> k' = con_page (last L) (\<lambda>r. r\<lparr>pp_link := v\<rparr>) k"
    using assms(1,3) by (auto simp: poner_tp_def cola_ok_def split: if_splits)
  moreover have "L \<noteq> [] \<Longrightarrow> last L \<in> S" using assms(4) last_in_set by blast
  ultimately show "solo_enlaces S k k'" by (auto simp: solo_enlaces_def con_page_def)
  show "pages k' p = pages k p" if "L = [] \<or> p \<noteq> last L" for p using k' that by auto
  show "camino k' (fst q') L v"
  proof (cases "L = []")
    case False
    then have L: "L = butlast L @ [last L]" by simp
    then have "last L \<notin> set (butlast L)" using assms(2) distinct_append [of "butlast L" "[last L]"] by (metis disjoint_insert(1) list.set(2))
    then have "camino k' (fst q) (butlast L) (Some (last L)) = camino k (fst q) (butlast L) (Some (last L))"
      using k' False by (intro camino_cong) auto
    then have "camino k' (fst q') (butlast L @ [last L]) v" unfolding camino_mas using k' False assms(1) by (auto simp: cola_ok_def)
    then show ?thesis using L by simp
  qed (use k' in auto)
qed

lemma cola_crece:
  assumes "camino k' (fst q') L (Some p)"
  shows "cola_ok k' (fst q', Some p) (L @ [p])"
  using assms by (simp add: cola_ok_def)

lemma separar_bucle_forma:
  assumes "pag.cadena k h xs" "length xs \<le> n" "cola_ok k q0 L0" "cola_ok k q1 L1" "distinct (L0 @ L1 @ xs)"
  shows "\<exists>q0' q1' k'. separar_bucle lim h q0 q1 k n = Some (q0', q1', k')
    \<and> cola_ok k' q0' (L0 @ filter (\<lambda>p. \<not> PDX (page2pa p) \<ge> lim) xs) \<and> cola_ok k' q1' (L1 @ filter (\<lambda>p. PDX (page2pa p) \<ge> lim) xs)
    \<and> solo_enlaces (set (L0 @ L1 @ xs)) k k'"
  using assms
proof (induction xs arbitrary: k h q0 q1 L0 L1 n)
  case Nil
  then show ?case using solo_enlaces_refl by auto
next
  case (Cons x xs)
  obtain m where n: "n = Suc m" "length xs \<le> m" using Cons.prems(2) by (cases n) auto
  have h: "h = Some x" "pag.cadena k (pp_link (pages k x)) xs" using Cons.prems(1) by auto
  have d: "distinct L0" "distinct L1" "x \<notin> set xs" "x \<notin> set L0" "x \<notin> set L1" "set L0 \<inter> set L1 = {}" "set L0 \<inter> set xs = {}" "set L1 \<inter> set xs = {}"
    using Cons.prems(5) by auto
  let ?S = "set (L0 @ L1 @ x # xs)"
  define Q where "Q = (if PDX (page2pa x) \<ge> lim then q1 else q0)"
  define L where "L = (if PDX (page2pa x) \<ge> lim then L1 else L0)"
  obtain q k1 where q: "poner_tp Q (Some x) k = (q, k1)" by fastforce
  have "cola_ok k Q L" "distinct L" "set L \<subseteq> ?S" using Cons.prems(3,4) d by (auto simp: Q_def L_def)
  note F = poner_tp_forma [OF this(1,2) q this(3)]
  have nl: "pages k1 p = pages k p" if "p \<notin> set L" for p using F(2) that last_in_set by metis
  have xL: "x \<notin> set L" using d by (simp add: L_def)
  have c1: "pag.cadena k1 (pp_link (pages k1 x)) xs"
  proof -
    have "pages k1 y = pages k y" if "y \<in> set xs" for y
    proof (rule nl)
      show "y \<notin> set L" using that d(7,8) by (auto simp: L_def split: if_splits)
    qed
    then show ?thesis using h(2) nl [OF xL] pag.cadena_cong [of xs k1 k] by simp
  qed
  have sub: "solo_enlaces ?S k1 k' \<Longrightarrow> solo_enlaces ?S k k'" for k' using solo_enlaces_trans [OF F(1)] .
  show ?case
  proof (cases "PDX (page2pa x) \<ge> lim")
    case True
    have "pages k1 y = pages k y" if "y \<in> set L0" for y using nl [of y] that d(6) True by (auto simp: L_def)
    then have o: "cola_ok k1 q0 L0" using Cons.prems(3) cola_ok_cong [of L0 k1 k q0] in_set_butlastD [of _ L0] by simp
    have p: "cola_ok k1 (fst q, Some x) (L1 @ [x])" using cola_crece F(3) True by (simp add: L_def)
    have dd: "distinct (L0 @ (L1 @ [x]) @ xs)" using Cons.prems(5) by auto
    have e: "set (L0 @ (L1 @ [x]) @ xs) = ?S" by auto
    from Cons.IH [OF c1 n(2) o p dd] show ?thesis
      using True q sub unfolding e by (fastforce simp: n(1) h(1) Q_def)
  next
    case False
    have "pages k1 y = pages k y" if "y \<in> set L1" for y using nl [of y] that d(6) False by (auto simp: L_def)
    then have o: "cola_ok k1 q1 L1" using Cons.prems(4) cola_ok_cong [of L1 k1 k q1] in_set_butlastD [of _ L1] by simp
    have p: "cola_ok k1 (fst q, Some x) (L0 @ [x])" using cola_crece F(3) False by (simp add: L_def)
    have dd: "distinct ((L0 @ [x]) @ L1 @ xs)" using Cons.prems(5) by auto
    have e: "set ((L0 @ [x]) @ L1 @ xs) = ?S" by auto
    from Cons.IH [OF c1 n(2) p o dd] show ?thesis
      using False q sub unfolding e by (fastforce simp: n(1) h(1) Q_def)
  qed
qed

text \<open>The low pages first, each part in the order it had.\<close>

definition separada :: "uint32 \<Rightarrow> nat list \<Rightarrow> nat list" where
  "separada lim xs = filter (\<lambda>p. \<not> PDX (page2pa p) \<ge> lim) xs @ filter (\<lambda>p. PDX (page2pa p) \<ge> lim) xs"

lemma separada_simps: "set (separada lim xs) = set xs" "length (separada lim xs) = length xs"
  "distinct xs \<Longrightarrow> distinct (separada lim xs)"
  by (auto simp: separada_def sum_length_filter_compl [of "\<lambda>p. \<not> PDX (page2pa p) \<ge> lim", simplified])

lemma separar_libres_forma:
  assumes "pag.libres k xs" "length xs \<le> npages k"
  shows "\<exists>k'. separar_libres lim k = Some k' \<and> pag.libres k' (separada lim xs)
    \<and> solo_enlaces (set xs) (k\<lparr>page_free_list := page_free_list k'\<rparr>) k'"
proof -
  let ?L = "filter (\<lambda>p. \<not> PDX (page2pa p) \<ge> lim) xs" and ?H = "filter (\<lambda>p. PDX (page2pa p) \<ge> lim) xs"
  have c: "pag.cadena k (page_free_list k) xs" "distinct xs" using assms(1) by (auto simp: pag.libres_def)
  have "cola_ok k (None, None) []" by (simp add: cola_ok_def)
  from separar_bucle_forma [OF c(1) assms(2) this this, of lim] c(2)
  obtain q0 q1 k1 where b: "separar_bucle lim (page_free_list k) (None, None) (None, None) k (npages k) = Some (q0, q1, k1)"
      "cola_ok k1 q0 ?L" "cola_ok k1 q1 ?H" "solo_enlaces (set xs) k k1" by auto
  obtain r1 k2 where t1: "poner_tp q1 None k1 = (r1, k2)" by fastforce
  have d: "distinct ?L" "distinct ?H" "set ?L \<subseteq> set xs" "set ?H \<subseteq> set xs" "set ?L \<inter> set ?H = {}" using c(2) by auto
  note P = poner_tp_forma [OF b(3) d(2) t1 d(4)]
  have p2: "pages k2 p = pages k1 p" if "p \<notin> set ?H" for p using P(2) that last_in_set by metis
  have o: "cola_ok k2 q0 ?L" using b(2) p2 d(5) in_set_butlastD [of _ ?L] cola_ok_cong [of ?L k2 k1 q0] by (metis disjoint_iff)
  obtain r0 k3 where t0: "poner_tp q0 (fst r1) k2 = (r0, k3)" by fastforce
  note R = poner_tp_forma [OF o d(1) t0 d(3)]
  have p3: "pages k3 p = pages k2 p" if "p \<notin> set ?L" for p using R(2) that last_in_set by metis
  have "camino k3 (fst r1) ?H None" using P(3) p3 d(5) camino_cong [of ?H k3 k2] by (metis disjoint_iff)
  then have "pag.cadena k3 (fst r1) (?H @ [])" by (rule camino_cadena) simp
  with camino_cadena [OF R(3)] have "pag.cadena k3 (fst r0) (separada lim xs)" by (simp add: separada_def)
  moreover have "pag.cadena (k3\<lparr>page_free_list := fst r0\<rparr>) h ys = pag.cadena k3 h ys" for h ys by (rule pag.cadena_cong) simp
  ultimately have "pag.libres (k3\<lparr>page_free_list := fst r0\<rparr>) (separada lim xs)"
    using separada_simps(3) [OF c(2)] by (simp add: pag.libres_def)
  moreover have "solo_enlaces (set xs) k k3" using b(4) P(1) R(1) solo_enlaces_trans by blast
  then have "solo_enlaces (set xs) (k\<lparr>page_free_list := fst r0\<rparr>) (k3\<lparr>page_free_list := fst r0\<rparr>)"
    by (cases k; cases k3) (simp add: solo_enlaces_def)
  ultimately show ?thesis by (simp add: separar_libres_def b(1) t1 t0)
qed

section \<open>check_page_free_list\<close>

lemma ensuciar_forma:
  assumes "\<forall>p\<in>set ps. p < npages k" "npages k \<le> 65536"
  shows "\<exists>k'. ensuciar lim ps k = Some k' \<and> k' = k\<lparr>mem := mem k'\<rparr> \<and> (\<forall>p. p \<notin> set ps \<or> PDX (page2pa p) \<ge> lim \<longrightarrow> mem k' p = mem k p)"
  using assms
proof (induction ps arbitrary: k)
  case Nil
  then show ?case by simp
next
  case (Cons p ps)
  let ?k = "if PDX (page2pa p) < lim then k\<lparr>mem := (mem k)(p := (\<lambda>i. if i < 32 then 0x97979797 else mem k p i))\<rparr> else k"
  have n: "npages ?k = npages k" by simp
  from Cons.IH [of ?k] Cons.prems n obtain k' where k': "ensuciar lim ps ?k = Some k'" "k' = ?k\<lparr>mem := mem k'\<rparr>"
      "\<forall>p. p \<notin> set ps \<or> PDX (page2pa p) \<ge> lim \<longrightarrow> mem k' p = mem ?k p" by auto
  have "ensuciar lim (p # ps) k = Some k'" using k'(1) Cons.prems by (auto simp: page2kva_pagina)
  moreover have "k' = k\<lparr>mem := mem k'\<rparr>" using k'(2) by (cases k; cases k') (simp split: if_splits)
  moreover have "mem k' q = mem k q" if "q \<notin> set (p # ps) \<or> PDX (page2pa q) \<ge> lim" for q
    using k'(3) [rule_format, of q] that by (auto simp: not_less split: if_splits)
  ultimately show ?case by blast
qed

lemma unat_page2pa: "p < 65536 \<Longrightarrow> unat (page2pa p) = 4096 * p"
  by (simp add: page2pa_def unat_word_ariths push_bit_eq_mult unat_of_nat take_bit_nat_eq_self)

lemma PDX_pagina: "p < 65536 \<Longrightarrow> PDX (page2pa p) \<ge> 1 \<longleftrightarrow> 1024 \<le> p"
  by (simp add: word_le_nat_alt unat_PDX unat_page2pa) linarith

lemma usable_ok:
  assumes p: "p < npages k" "pagina_usable primera p" "npages k \<le> 65536" "256 < primera" "primera \<le> 65535"
  shows "pagina_libre_ok (pagina_va (983040 + primera)) k p"
proof -
  have u: "unat (page2pa p) = 4096 * p" using p by (intro unat_page2pa) simp
  have ne: "page2pa p \<noteq> x" if "unat x \<noteq> 4096 * p" for x using that u by auto
  have P: "p \<noteq> 0" "p \<noteq> 160" "p \<noteq> 255" "p \<noteq> 256" "p \<noteq> 7" using p(2,4) by (auto simp: pagina_usable_def)
  have "page2pa p \<noteq> 0" "page2pa p \<noteq> IOPHYSMEM" "page2pa p \<noteq> EXTPHYSMEM - PGSIZE" "page2pa p \<noteq> EXTPHYSMEM" "page2pa p \<noteq> MPENTRY_PADDR"
    using P by (intro ne; simp add: memlayout; presburger)+
  moreover have "page2pa p + KERNBASE \<ge> pagina_va (983040 + primera)" if "\<not> page2pa p < EXTPHYSMEM"
  proof -
    have "256 \<le> p" using that u by (simp add: word_less_nat_alt memlayout)
    then have pr: "primera \<le> p" using p(2) by (auto simp: pagina_usable_def)
    have "page2pa p + KERNBASE = pagina_va (983040 + p)" by (simp add: page2pa_def pagina_va_def push_bit_eq_mult KERNBASE_def algebra_simps)
    then show ?thesis using pr p by (simp add: word_le_nat_alt unat_pagina_va)
  qed
  ultimately show ?thesis using p(1) page2kva_pagina [OF p(1,3)] by (auto simp: pagina_libre_ok_def)
qed

lemma check_page_free_list_forma:
  assumes l: "pag.libres k xs" and xs: "\<forall>p\<in>set xs. p < npages k \<and> pagina_usable primera p \<and> pp_ref (pages k p) = 0"
    and n: "npages k \<le> 65536" "256 < primera" "primera \<le> 65535"
    and b: "boot_alloc np fin nextfree 0 = Some (pagina_va (983040 + primera), nf)"
    and ex: "\<exists>p\<in>set xs. p < 256" "\<exists>p\<in>set xs. 256 \<le> p"
  shows "\<exists>k'. check_page_free_list low np fin nextfree k = Some k' \<and> revuelto k xs k' (if low then separada 1 xs else xs)
    \<and> (low \<longrightarrow> (\<forall>p<65536. 1024 \<le> p \<longrightarrow> mem k' p = mem k p)) \<and> tlb k' = tlb k"
proof -
  let ?ys = "if low then separada 1 xs else xs" and ?lim = "if low then 1 else NPDENTRIES"
  have d: "distinct xs" "page_free_list k \<noteq> None" using l ex(1) by (cases xs; auto simp: pag.libres_def)+
  have "set xs \<subseteq> {..<npages k}" using xs by auto
  from card_mono [OF _ this] d(1) have len: "length xs \<le> npages k" by (simp add: distinct_card)
  have ys: "set ?ys = set xs" "length ?ys = length xs" by (simp_all add: separada_simps)
  obtain k1 where k1: "(if low then separar_libres ?lim k else Some k) = Some k1" "pag.libres k1 ?ys"
      "solo_enlaces (set xs) (k\<lparr>page_free_list := page_free_list k1\<rparr>) k1"
  proof (cases low)
    case True
    with separar_libres_forma [OF l len, of 1] that show thesis by auto
  next
    case False
    then show thesis using that [of k] l solo_enlaces_refl by simp
  qed
  have E: "npages k1 = npages k" "mem k1 = mem k" "tlb k1 = tlb k" "solo_vm k k1" "\<And>p. pp_ref (pages k1 p) = pp_ref (pages k p)"
    "\<And>p. p \<notin> set xs \<Longrightarrow> pages k1 p = pages k p"
    using k1(3) unfolding solo_enlaces_def solo_vm_def by (cases k; cases k1; simp)+
  have "\<forall>p\<in>set ?ys. p < npages k1" "npages k1 \<le> 65536" using xs n(1) unfolding ys E(1) by simp_all
  from ensuciar_forma [OF this, of ?lim] obtain k2 where k2: "ensuciar ?lim ?ys k1 = Some k2" "k2 = k1\<lparr>mem := mem k2\<rparr>"
      "\<forall>p. p \<notin> set ?ys \<or> PDX (page2pa p) \<ge> ?lim \<longrightarrow> mem k2 p = mem k1 p" by blast
  have F: "npages k2 = npages k1" "pages k2 = pages k1" "page_free_list k2 = page_free_list k1" "tlb k2 = tlb k1"
    using k2(2) by (cases k1; cases k2; simp)+
  have p1: "paginas_desde k1 (page_free_list k1) (npages k1) = Some ?ys"
    by (rule paginas_desde_cadena) (use k1(2) len in \<open>simp_all only: pag.libres_def ys E(1)\<close>)
  have ok: "list_all (pagina_libre_ok (pagina_va (983040 + primera)) k2) ?ys"
    unfolding list_all_iff ys using xs n by (auto intro!: usable_ok simp: F E)
  have pa: "p < 65536 \<Longrightarrow> page2pa p < EXTPHYSMEM \<longleftrightarrow> p < 256" for p by (simp add: word_less_nat_alt unat_page2pa memlayout)
  have f1: "filter (\<lambda>pp. page2pa pp < EXTPHYSMEM) ?ys \<noteq> []" "filter (\<lambda>pp. \<not> page2pa pp < EXTPHYSMEM) ?ys \<noteq> []"
    unfolding filter_empty_conv ys using ex xs n(1) pa by (meson not_less less_le_trans)+
  have "check_page_free_list low np fin nextfree k = Some k2"
    unfolding check_page_free_list_def Let_def using d(2) k1(1) p1 k2(1) b ok f1 by (simp cong: bind_debil)
  moreover have "revuelto k xs k2 ?ys"
  proof -
    have "solo_vm k1 k2" using k2(2) by (cases k1; cases k2) (simp add: solo_vm_def)
    with E(4) have "solo_vm k k2" using solo_vm_trans by blast
    moreover have "pag.libres k2 ?ys" using k1(2) pag.libres_cong [of k2 k1 ?ys] by (simp only: F)
    ultimately show ?thesis using xs k2(3) unfolding revuelto_def ys F(2) by (auto simp: E)
  qed
  moreover have "mem k2 p = mem k p" if low "p < 65536" "1024 \<le> p" for p
    using k2(3) [rule_format, of p] that PDX_pagina [of p] by (simp add: E)
  ultimately show ?thesis by (auto simp: F E)
qed

end
