(* ===== verification/Checks_Kern.thy ===== *)
theory Checks_Kern
  imports Checks_List
begin

text \<open>
  The rest of the self tests, on a kernel directory under construction: \<open>check_page\<close> leaves
  the table of the region of devices and no entry, and \<open>check_kern_pgdir\<close> as a statement on
  the entries.
\<close>

unbundle bit_operations_syntax

section \<open>Entries through the functions of the code\<close>

lemma PTE_ADDR_y: "PTE_ADDR x = x AND NOT 0xFFF"
  by (simp add: PTE_ADDR_def)

lemma nucleo_va2pa:
  assumes n: "nucleo_ok pd T xs k" and q: "pagina_nucleo q"
  shows "check_va2pa pd (pagina_va q) k
    = Some (if entrada k pd q AND PTE_P = 0 then NOT 0 else PTE_ADDR (entrada k pd q))"
proof -
  note I = pagina_indices [OF q]
  let ?i = "q div 1024"
  have i: "?i \<noteq> 957" using q by (simp add: pagina_nucleo_def)
  show ?thesis
  proof (cases "mem k pd ?i = 0")
    case True
    then show ?thesis by (simp add: check_va2pa_def Let_def I entrada_def pte_en_def)
  next
    case False
    then have p: "?i \<in> presentes k pd - {957}" using I(3) i by (simp add: presentes_def)
    have e: "mem k pd ?i = ent_tabla (tabla k pd ?i)" by (rule nucleo_okD(13) [OF n p])
    have t: "tabla k pd ?i < npages k" using nucleo_okD(7) [OF n p] by blast
    then have "KADDR k (PTE_ADDR (mem k pd ?i)) = Some (tabla k pd ?i)" using KADDR_marco [of "mem k pd ?i" k] by (simp add: tabla_def)
    moreover have "mem k pd ?i AND PTE_P \<noteq> 0" "mem k pd ?i AND PTE_PS = 0" unfolding e by (simp_all add: ent_tabla_simps banderas_y)
    ultimately show ?thesis using False by (simp add: check_va2pa_def Let_def I entrada_def pte_en_def)
  qed
qed

lemma nucleo_pte:
  assumes n: "nucleo_ok pd T xs k" "kern_pgdir k = pd" and q: "pagina_nucleo q" "q div 1024 \<in> presentes k pd"
  shows "pte_de (pagina_va q) k = Some (entrada k pd q)"
    "borrar_pte (pagina_va q) k = Some (escribir (tabla k pd (q div 1024)) (q mod 1024) 0 k)"
proof -
  note I = pagina_indices [OF q(1)]
  have i: "q div 1024 \<noteq> 957" using q by (simp add: pagina_nucleo_def)
  have m: "mem k pd (q div 1024) \<noteq> 0" using q(2) by (simp add: presentes_def)
  have "marco (mem k pd (q div 1024)) < npages k" using nucleo_okD(7) [OF n(1), of "q div 1024"] q(2) i by (simp add: tabla_def)
  with m have "pgdir_walk pd (pagina_va q) False k = Some (Some (tabla k pd (q div 1024), q mod 1024), k)"
    by (simp add: pgdir_walk_def Let_def KADDR_marco tabla_def I)
  then show "pte_de (pagina_va q) k = Some (entrada k pd q)"
    "borrar_pte (pagina_va q) k = Some (escribir (tabla k pd (q div 1024)) (q mod 1024) 0 k)"
    using m by (simp_all add: pte_de_def borrar_pte_def n(2) leer_def entrada_def pte_en_def)
qed

lemma nucleo_borrar:
  assumes n: "nucleo_ok pd T xs k" "kern_pgdir k = pd" and q: "pagina_nucleo q" "q div 1024 \<in> presentes k pd"
  shows "\<exists>k'. borrar_pte (pagina_va q) k = Some k' \<and> presentes k' pd = presentes k pd \<and> kern_pgdir k' = pd
    \<and> mapeado pd T xs k (\<lambda>r. if r = q then 0 else entrada k pd r) xs k'"
proof -
  let ?k = "escribir (tabla k pd (q div 1024)) (q mod 1024) 0 k"
  have "q div 1024 \<in> presentes k pd - {957}" using q by (simp add: pagina_nucleo_def)
  note E = escribir_nucleo [OF n(1) this, where j = "q mod 1024" and v = 0]
  have "entrada ?k pd r = (if r = q then 0 else entrada k pd r)" if "pagina_nucleo r" for r
    using E(4) [OF pagina_indices(3) [OF that]] that mismo_indice [of r q] by (simp add: entrada_def pagina_nucleo_def)
  then have "mapeado pd T xs k (\<lambda>r. if r = q then 0 else entrada k pd r) xs ?k" using E by (simp add: mapeado_def)
  then show ?thesis using nucleo_pte(2) [OF n q] E(2) n(2) by auto
qed

section \<open>The region of devices\<close>

lemma mmio_valores:
  "MMIOBASE = pagina_va 980992" "MMIOBASE + 8192 = pagina_va 980994" "MMIOBASE + 12288 = pagina_va 980995" "MMIOBASE + PGSIZE = pagina_va 980993"
  "ROUNDUP 4097 PGSIZE = 8192" "ROUNDUP 4096 PGSIZE = 4096" "ROUNDDOWN 0 PGSIZE = 0"
  "\<not> MMIOLIM \<le> MMIOBASE + 8192" "\<not> MMIOLIM \<le> MMIOBASE + 12288"
  by (simp_all add: memlayout pagina_va_def ROUNDUP_def ROUNDDOWN_def)

abbreviation (input) perm_mmio :: uint32 where
  "perm_mmio \<equiv> PTE_W OR PTE_P OR 0x010 OR 0x008"

lemma mmio_entrada:
  "(perm_mmio OR PTE_P) AND PTE_P \<noteq> 0" "PTE_ADDR (perm_mmio OR PTE_P) = 0"
  "(4096 OR perm_mmio OR PTE_P) AND PTE_P \<noteq> 0" "PTE_ADDR (4096 OR perm_mmio OR PTE_P) = 4096"
  "(perm_mmio OR PTE_P) AND (PTE_W OR 0x008 OR 0x010) \<noteq> 0" "(perm_mmio OR PTE_P) AND PTE_U = 0"
  by (simp_all add: pte_flags PTE_ADDR_def)

lemma mapeado_presentes: "mapeado pd T xs k f xs' k' \<Longrightarrow> presentes k pd \<subseteq> presentes k' pd"
  by (simp add: mapeado_def usa_def)

lemma mmio_una:
  assumes m: "mapeado pd T xs0 k0 f xs k" and d: "kern_pgdir k0 = pd" and T: "958 \<in> T"
    and sz: "ROUNDUP sz PGSIZE = word_of_nat (4096 * n)" "n \<le> 2" "0 < n" and b: "base = pagina_va q" "980992 \<le> q" "q + n \<le> 980995"
    and z: "\<And>r. q \<le> r \<Longrightarrow> r < q + n \<Longrightarrow> f r = 0"
  shows "\<exists>xs' k'. mmio_map_region base 0 sz k = Some (base, pagina_va (q + n), k')
    \<and> mapeado pd T xs0 k0 (con_rango q n 0 perm_mmio f) xs' k' \<and> 958 \<in> presentes k' pd"
proof -
  have pg: "pagina_nucleo r \<and> r div 1024 = 958" if "q \<le> r" "r < q + n" for r
  proof -
    have "980992 \<le> r" "r < 980995" using that b by linarith+
    then have "r div 1024 = 958" by simp
    with \<open>r < 980995\<close> show ?thesis by (simp add: pagina_nucleo_def)
  qed
  have u: "unat (ROUNDUP sz PGSIZE) = 4096 * n" unfolding sz(1) using sz(2) by (intro unat_de_nat32) simp
  have su: "base + ROUNDUP sz PGSIZE = pagina_va (q + n)" by (simp add: b(1) sz(1) pagina_va_def algebra_simps)
  have su': "pagina_va (q + n) - ROUNDUP sz PGSIZE = base" using su by (metis add_diff_cancel_right')
  have nl: "\<not> MMIOLIM \<le> base + ROUNDUP sz PGSIZE" unfolding su
    using b(3) by (simp add: word_le_nat_alt unat_pagina_va memlayout)
  have "pagina_nucleo r \<and> r div 1024 \<in> T \<and> f r = 0" if "q \<le> r" "r < q + n" for r using pg [OF that] z [OF that] T by simp
  from boot_map_sigue [OF m d u _ b(1) this, of 0 perm_mmio] sz(2) obtain xs' k' where
    k': "boot_map_region (kern_pgdir k) base (ROUNDUP sz PGSIZE) 0 perm_mmio k = Some k'" "mapeado pd T xs0 k0 (con_rango q n 0 perm_mmio f) xs' k'" by auto
  have "entrada k' pd q \<noteq> 0"
    using k'(2) pg [of q] sz(3) by (simp add: mapeado_def con_rango_def or_eq_0_iff banderas_y)
  then have "958 \<in> presentes k' pd" using pg [of q] sz(3) by (auto simp: entrada_def pte_en_def presentes_def)
  moreover have "mmio_map_region base 0 sz k = Some (base, pagina_va (q + n), k')"
    using k'(1) nl su su' by (simp add: mmio_map_region_def Let_def mmio_valores)
  ultimately show ?thesis using k'(2) by blast
qed

lemma check_page_mmio_forma:
  assumes n: "nucleo_ok pd T xs k" "kern_pgdir k = pd" "958 \<in> T" and z: "\<And>q. pagina_nucleo q \<Longrightarrow> entrada k pd q = 0"
  shows "\<exists>xs' k'. check_page_mmio MMIOBASE k = Some (pagina_va 980995, k') \<and> mapeado pd T xs k (\<lambda>_. 0) xs' k'
    \<and> 958 \<in> presentes k' pd \<and> kern_pgdir k' = pd"
proof -
  have m0: "mapeado pd T xs k (\<lambda>_. 0) xs k" using n z by (intro mapeado_refl) simp_all
  have s1: "ROUNDUP 4097 PGSIZE = word_of_nat (4096 * 2)" "ROUNDUP 4096 PGSIZE = word_of_nat (4096 * 1)" by (simp_all add: mmio_valores)
  let ?f1 = "con_rango 980992 2 0 perm_mmio (\<lambda>_. 0)"
  obtain xs1 k1 where 1: "mmio_map_region MMIOBASE 0 4097 k = Some (MMIOBASE, pagina_va 980994, k1)" "mapeado pd T xs k ?f1 xs1 k1"
    using mmio_una [OF m0 n(2,3) s1(1) _ _ mmio_valores(1)] by auto
  let ?f2 = "con_rango 980994 1 0 perm_mmio ?f1"
  obtain xs2 k2 where 2: "mmio_map_region (pagina_va 980994) 0 4096 k1 = Some (pagina_va 980994, pagina_va 980995, k2)"
      "mapeado pd T xs k ?f2 xs2 k2" "958 \<in> presentes k2 pd"
    using mmio_una [OF 1(2) n(2,3) s1(2) _ _ refl, of 980994] by (auto simp: con_rango_def)
  have n2: "nucleo_ok pd T xs2 k2" "kern_pgdir k2 = pd" using 2(2) n(2) by (auto simp: mapeado_def solo_vmD)
  have e2: "entrada k2 pd q = ?f2 q" if "pagina_nucleo q" for q using 2(2) that by (simp add: mapeado_def)
  have pg: "pagina_nucleo 980992" "pagina_nucleo 980993" "pagina_nucleo 980994" "pagina_nucleo 980995" by (simp_all add: pagina_nucleo_def)
  have f: "?f2 980992 = perm_mmio OR PTE_P" "?f2 980993 = 4096 OR perm_mmio OR PTE_P" "?f2 980994 = perm_mmio OR PTE_P" "?f2 980995 = 0"
    by (simp_all add: con_rango_def pagina_va_def)
  have cv: "check_va2pa pd (pagina_va 980992) k2 = Some 0" "check_va2pa pd (pagina_va 980993) k2 = Some PGSIZE"
    "check_va2pa pd (pagina_va 980994) k2 = Some 0" "check_va2pa pd (pagina_va 980995) k2 = Some (NOT 0)"
    unfolding nucleo_va2pa [OF n2(1) pg(1)] nucleo_va2pa [OF n2(1) pg(2)] nucleo_va2pa [OF n2(1) pg(3)] nucleo_va2pa [OF n2(1) pg(4)]
      e2 [OF pg(1)] e2 [OF pg(2)] e2 [OF pg(3)] e2 [OF pg(4)] f by (simp_all only: mmio_entrada PGSIZE_def if_False bit.conj_zero_left if_True simp_thms)
  obtain v where pt: "pte_de (pagina_va 980992) k2 = Some v" "v AND (PTE_W OR 0x008 OR 0x010) \<noteq> 0" "v AND PTE_U = 0"
    using nucleo_pte(1) [OF n2 pg(1)] 2(3) e2 [OF pg(1)] f(1) mmio_entrada(5,6) by auto
  obtain k3 where 3: "borrar_pte (pagina_va 980992) k2 = Some k3" "presentes k3 pd = presentes k2 pd" "kern_pgdir k3 = pd"
      "mapeado pd T xs2 k2 (\<lambda>r. if r = 980992 then 0 else entrada k2 pd r) xs2 k3"
    using nucleo_borrar [OF n2 pg(1)] 2(3) by auto
  have n3: "nucleo_ok pd T xs2 k3" using 3(4) by (simp add: mapeado_def)
  obtain k4 where 4: "borrar_pte (pagina_va 980993) k3 = Some k4" "presentes k4 pd = presentes k3 pd" "kern_pgdir k4 = pd"
      "mapeado pd T xs2 k3 (\<lambda>r. if r = 980993 then 0 else entrada k3 pd r) xs2 k4"
    using nucleo_borrar [OF n3 3(3) pg(2)] 2(3) 3(2) by auto
  have n4: "nucleo_ok pd T xs2 k4" using 4(4) by (simp add: mapeado_def)
  obtain k5 where 5: "borrar_pte (pagina_va 980994) k4 = Some k5" "presentes k5 pd = presentes k4 pd" "kern_pgdir k5 = pd"
      "mapeado pd T xs2 k4 (\<lambda>r. if r = 980994 then 0 else entrada k4 pd r) xs2 k5"
    using nucleo_borrar [OF n4 4(3) pg(3)] 2(3) 3(2) 4(2) by auto
  have "entrada k5 pd q = 0" if "pagina_nucleo q" for q
    using that e2 [OF that] 3(4) 4(4) 5(4) by (simp add: mapeado_def con_rango_def)
  moreover have "mapeado pd T xs k (\<lambda>r. if r = 980994 then 0 else entrada k4 pd r) xs2 k5"
    using mapeado_trans [OF mapeado_trans [OF mapeado_trans [OF 2(2) 3(4)] 4(4)] 5(4)] .
  ultimately have M: "mapeado pd T xs k (\<lambda>_. 0) xs2 k5" by (simp add: mapeado_def)
  have as: "pagina_va 980992 \<ge> MMIOBASE \<and> pagina_va 980992 + 8096 < MMIOLIM" "pagina_va 980994 \<ge> MMIOBASE \<and> pagina_va 980994 + 8096 < MMIOLIM"
    "pagina_va 980992 mod PGSIZE = 0 \<and> pagina_va 980994 mod PGSIZE = 0" "pagina_va 980992 + 8096 \<le> pagina_va 980994"
    "pagina_va 980992 + PGSIZE = pagina_va 980993" "pagina_va 980994 + PGSIZE = pagina_va 980995"
    "pagina_va 980992 \<le> pagina_va 980994"
    by (simp_all add: memlayout pagina_va_def)
  have "check_page_mmio MMIOBASE k = Some (pagina_va 980995, k5)"
    unfolding check_page_mmio_def
    by (simp add: 1(1) [unfolded mmio_valores(1)] 2(1) as cv pt 3(1) 4(1) 5(1) n2(2) pt(2) [simplified] mmio_valores(1) cong: bind_debil)
  then show ?thesis using M 5(2,3) 4(2) 3(2) 2(3) by auto
qed

section \<open>The tests on three pages\<close>

definition listo_prueba :: "nat \<Rightarrow> nat set \<Rightarrow> nat list \<Rightarrow> kernel \<Rightarrow> bool" where
  "listo_prueba s T xs k \<longleftrightarrow> nucleo_ok s T xs k \<and> kern_pgdir k = s \<and> curenv k = None \<and> npages k \<le> 65536 \<and> 0 \<notin> T \<and> 1 \<notin> T"

lemma est_mem: "p \<noteq> s \<Longrightarrow> p \<notin> {a, b, c} \<Longrightarrow> mem (est k s a b c F pa pb pc e0 e1 ta tb tc t) p = mem k p"
  "mem k s 0 = 0 \<Longrightarrow> s \<notin> {a, b, c} \<Longrightarrow> mem (est k s a b c F pa pb pc 0 (mem k s (Suc 0)) ta tb tc t) s = mem k s"
  by (auto simp: est_def fun_eq_iff)

lemma tres_paginas:
  assumes "listo_prueba s T (a # b # c # xs) k"
  defines "fl \<equiv> pp_link (pages k c)"
  shows "mesa k s a b c" "mem k s 0 = 0" "mem k s (Suc 0) = 0"
    "k = est k s a b c (Some a) (pg (Some b) 0) (pg (Some c) 0) (pg fl 0) 0 0 (mem k a) (mem k b) (mem k c) (tlb k)"
    "\<And>ta tb tc t. pag.libres (est k s a b c (Some a) (pg (Some b) 0) (pg (Some c) 0) (pg fl 0) 0 0 ta tb tc t) (a # b # c # xs)"
    "\<And>ta tb tc t. pag.libres (est k s a b c (Some c) (pg fl 0) (pg (Some a) 0) (pg (Some b) 0) 0 0 ta tb tc t) (c # b # a # xs)"
    "\<And>ta tb tc t. pag.libres (est k s a b c (Some a) (pg (Some c) 0) (pg fl 0) (pg (Some b) 0) 0 0 ta tb tc t) (a # c # b # xs)"
    "length (a # b # c # xs) \<le> npages k"
proof -
  note P = assms(1) [unfolded listo_prueba_def]
  then have n: "nucleo_ok s T (a # b # c # xs) k" "kern_pgdir k = s" "curenv k = None" "npages k \<le> 65536" by blast+
  note N = nucleo_okD [OF n(1)]
  have "0 \<notin> presentes k s" "Suc 0 \<notin> presentes k s" using P N(11) by auto
  then show z: "mem k s 0 = 0" "mem k s (Suc 0) = 0" by (simp_all add: presentes_def)
  note E = est_mismo [OF n z(1), folded fl_def]
  show "mesa k s a b c" by (rule E(1))
  show "k = est k s a b c (Some a) (pg (Some b) 0) (pg (Some c) 0) (pg fl 0) 0 0 (mem k a) (mem k b) (mem k c) (tlb k)"
    using E(7) unfolding z(2) .
  note M = mesaD [OF E(1)] and C = est_cadena [OF E(3-5)] and F = est_campos [OF E(1)]
  show "pag.libres (est k s a b c (Some a) (pg (Some b) 0) (pg (Some c) 0) (pg fl 0) 0 0 ta tb tc t) (a # b # c # xs)"
    "pag.libres (est k s a b c (Some c) (pg fl 0) (pg (Some a) 0) (pg (Some b) 0) 0 0 ta tb tc t) (c # b # a # xs)"
    "pag.libres (est k s a b c (Some a) (pg (Some c) 0) (pg fl 0) (pg (Some b) 0) 0 0 ta tb tc t) (a # c # b # xs)" for ta tb tc t
    using E(2-6) M by (auto simp: pag.libres_def F C)
  have "set (a # b # c # xs) \<subseteq> {..<npages k}" using N(5) by blast
  from card_mono [OF _ this] show "length (a # b # c # xs) \<le> npages k"
    using N(2) distinct_card [of "a # b # c # xs"] by (simp add: pag.libres_def)
qed

lemma check_page_alloc_forma:
  assumes l: "listo_prueba s T (a # b # c # xs) k"
  shows "\<exists>k'. check_page_alloc k = Some k' \<and> revuelto k (a # b # c # xs) k' (a # b # c # xs)
    \<and> (\<forall>p. p \<notin> {a, b, c} \<longrightarrow> mem k' p = mem k p)"
proof -
  note E = tres_paginas [OF l] and n = l [unfolded listo_prueba_def, THEN conjunct1]
  let ?e = "\<lambda>tc. est k s a b c (Some a) (pg (Some b) 0) (pg (Some c) 0) (pg (pp_link (pages k c)) 0) 0 0 (mem k a) (mem k b) tc (tlb k)"
  have pd: "paginas_desde (?e tc) (Some a) (npages k) = Some (a # b # c # xs)" for tc
    using paginas_desde_cadena [of "?e tc" "Some a"] E(5) [of "mem k a" "mem k b" tc "tlb k"] E(8) by (simp add: pag.libres_def est_campos [OF E(1)])
  have "check_page_alloc (?e (mem k c)) = Some (?e (\<lambda>_. 0))" by (rule check_page_alloc_est [OF E(1) pd pd])
  then have "check_page_alloc k = Some (?e (\<lambda>_. 0))" using E(4) by simp
  moreover have "revuelto k (a # b # c # xs) (?e (\<lambda>_. 0)) (a # b # c # xs)"
    by (rule est_revuelto [OF E(1) n E(2,3) E(5)]) auto
  moreover have "mem (?e (\<lambda>_. 0)) p = mem k p" if "p \<notin> {a, b, c}" for p
    using est_mem(1) [of p s] est_mem(2) [OF E(2)] E(3) that mesaD [OF E(1)] by (cases "p = s") auto
  ultimately show ?thesis by blast
qed

lemma check_page_forma:
  assumes l: "listo_prueba s T (a # b # c # xs) k" and T: "958 \<in> T" and z: "\<And>q. pagina_nucleo q \<Longrightarrow> entrada k s q = 0"
  shows "\<exists>k1 k' ys. check_page MMIOBASE k = Some (pagina_va 980995, k') \<and> revuelto k (a # b # c # xs) k1 (c # b # a # xs)
    \<and> (\<forall>p. p \<notin> {a, b, c} \<longrightarrow> mem k1 p = mem k p) \<and> mapeado s T (c # b # a # xs) k1 (\<lambda>_. 0) ys k' \<and> 958 \<in> presentes k' s"
proof -
  note E = tres_paginas [OF l] and n = l [unfolded listo_prueba_def, THEN conjunct1]
  let ?k = "est k s a b c (Some c) (pg (pp_link (pages k c)) 0) (pg (Some a) 0) (pg (Some b) 0) 0 0 (\<lambda>_. 0) (mem k b) (mem k c)
        (PGSIZE # PGSIZE # 0 # PGSIZE # PGSIZE # PGSIZE # PGSIZE # tlb k)"
  have c: "check_page MMIOBASE k = check_page_mmio MMIOBASE ?k" using check_page_est [OF E(1)] E(4) by metis
  have r: "revuelto k (a # b # c # xs) ?k (c # b # a # xs)" by (rule est_revuelto [OF E(1) n E(2,3) E(6)]) auto
  note R = nucleo_revuelto [OF n r]
  have kp: "kern_pgdir ?k = s" using mesaD [OF E(1)] est_campos(6) [OF E(1)] by blast
  obtain ys k' where "check_page_mmio MMIOBASE ?k = Some (pagina_va 980995, k')" "mapeado s T (c # b # a # xs) ?k (\<lambda>_. 0) ys k'" "958 \<in> presentes k' s"
    using check_page_mmio_forma [OF R(1) kp T] R(3) z by auto
  moreover have "mem ?k p = mem k p" if "p \<notin> {a, b, c}" for p
    using est_mem(1) [of p s] est_mem(2) [OF E(2)] E(3) that mesaD [OF E(1)] by (cases "p = s") auto
  ultimately show ?thesis using c r by auto
qed

lemma check_page_installed_forma:
  assumes l: "listo_prueba s T (a # b # c # xs) k" and cr: "cr3 k = s"
  shows "\<exists>k'. check_page_installed_pgdir k = Some k' \<and> revuelto k (a # b # c # xs) k' (a # c # b # xs)"
proof -
  note E = tres_paginas [OF l] and n = l [unfolded listo_prueba_def, THEN conjunct1]
  have "check_page_installed_pgdir k = Some (est k s a b c (Some a) (pg (Some c) 0) (pg (pp_link (pages k c)) 0) (pg (Some b) 0) 0 0
      (\<lambda>_. 0) (\<lambda>_. 0x01010101) ((\<lambda>_. 0x02020202)(0 := 0x03030303)) (PGSIZE # PGSIZE # tlb k))" (is "_ = Some ?k")
    using check_page_installed_est [OF E(1) cr] E(4) by metis
  moreover have "revuelto k (a # b # c # xs) ?k (a # c # b # xs)" by (rule est_revuelto [OF E(1) n E(2,3) E(7)]) auto
  ultimately show ?thesis by blast
qed

end
