(* ===== verification/Boot_Claims.thy ===== *)
theory Boot_Claims
  imports Checks_Kern
begin

text \<open>
  What \<open>mem_init\<close> leaves: the map of the kernel, the list of free pages and the invariant
  of address spaces with which the other kernel theories start.
\<close>

unbundle bit_operations_syntax

section \<open>Taking memory at boot\<close>

lemma page2pa_pagina: "page2pa p = pagina_va p"
  by (simp add: page2pa_def pagina_va_def push_bit_eq_mult)

text \<open>The kernel's addresses begin at page 983040.\<close>

lemma PADDR_pagina: "p < 65536 \<Longrightarrow> PADDR (pagina_va (983040 + p)) = Some (pagina_va p)"
proof -
  assume p: "p < 65536"
  have "pagina_va (983040 + p) - KERNBASE = pagina_va p" by (simp add: pagina_va_def KERNBASE_def algebra_simps)
  moreover have "\<not> pagina_va (983040 + p) < KERNBASE"
    using p by (simp add: word_less_nat_alt unat_pagina_va KERNBASE_def)
  ultimately show ?thesis by (simp add: PADDR_def)
qed

lemma PGNUM_va: "p < 1048576 \<Longrightarrow> unat (PGNUM (pagina_va p)) = p"
  by (simp add: unat_PGNUM unat_pagina_va)

lemma boot_alloc_paginas:
  assumes nf: "(if nextfree = 0 then ROUNDUP fin PGSIZE else nextfree) = pagina_va (983040 + p)"
    and cabe: "4096 * p + unat n + 4096 \<le> 4096 * unat np" "unat np \<le> 65536"
  shows "boot_alloc np fin nextfree n
    = Some (pagina_va (983040 + p), pagina_va (983040 + p + (unat n + 4095) div 4096))"
proof -
  let ?u = "pagina_va (983040 + p) + n"
  have p: "p < 65536" using cabe by linarith
  have u: "unat ?u = 4026531840 + (4096 * p + unat n)"
    using cabe p by (subst unat_add_lem [THEN iffD1]) (simp_all add: unat_pagina_va)
  have k: "unat KERNBASE = 4026531840" by (simp add: KERNBASE_def)
  have nl: "\<not> ?u < KERNBASE" by (simp add: word_less_nat_alt u k)
  have d: "unat (?u - KERNBASE) = 4096 * p + unat n" using nl u k by (simp add: unat_sub word_le_nat_alt word_less_nat_alt)
  have m: "unat (PGSIZE * np) = 4096 * unat np"
    using cabe by (subst unat_mult_lem [THEN iffD1]) (simp_all add: PGSIZE_def)
  have "\<not> ?u - KERNBASE \<ge> PGSIZE * np" using cabe by (simp add: word_le_nat_alt d m)
  moreover have "unat (PGNUM (?u - KERNBASE)) < unat np"
    unfolding unat_PGNUM d using cabe by (simp add: div_less_iff_less_mult)
  then have "\<not> PGNUM (?u - KERNBASE) \<ge> np" by (simp add: word_le_nat_alt)
  moreover have "ROUNDUP (?u - KERNBASE + KERNBASE) PGSIZE = pagina_va (983040 + p + (unat n + 4095) div 4096)"
  proof -
    have "unat ?u + 4095 < 4294967296" using cabe u by simp
    then have "ROUNDUP ?u PGSIZE = pagina_va ((unat ?u + 4095) div 4096)" by (rule ROUNDUP_pagina)
    moreover have "(unat ?u + 4095) div 4096 = 983040 + p + (unat n + 4095) div 4096"
    proof -
      have "unat ?u + 4095 = (unat n + 4095) + 4096 * (983040 + p)" using u by simp
      then show ?thesis by (simp only: div_mult_self2)
    qed
    ultimately show ?thesis by simp
  qed
  ultimately show ?thesis using nl unfolding boot_alloc_def nf by (simp add: Let_def)
qed

lemma inicio_no_cero: "p < 65536 \<Longrightarrow> pagina_va (983040 + p) \<noteq> 0"
proof -
  assume "p < 65536"
  then have "unat (pagina_va (983040 + p)) = 4096 * (983040 + p)" by (intro unat_pagina_va) simp
  then have "unat (pagina_va (983040 + p)) \<noteq> 0" by simp
  then show ?thesis by (metis unat_0)
qed

lemma boot_alloc_sigue:
  assumes "unat n = b" "(b + 4095) div 4096 = c" "4096 * p + b + 4096 \<le> 4096 * unat np" "unat np \<le> 65536" "q = p + c"
  shows "boot_alloc np fin (pagina_va (983040 + p)) n = Some (pagina_va (983040 + p), pagina_va (983040 + q))"
proof -
  have "p < 65536" using assms(3,4) by linarith
  then have "(if pagina_va (983040 + p) = 0 then ROUNDUP fin PGSIZE else pagina_va (983040 + p)) = pagina_va (983040 + p)"
    using inicio_no_cero by simp
  from boot_alloc_paginas [OF this, of n np] assms show ?thesis by (simp only: add.assoc)
qed

section \<open>The list of free pages\<close>

lemma page_init_solo: "solo_vm k (page_init primera k)" "mem (page_init primera k) = mem k"
  "tlb (page_init primera k) = tlb k"
proof -
  have "solo_vm k (fold (page_init_paso primera) xs k') \<and> mem (fold (page_init_paso primera) xs k') = mem k
      \<and> tlb (fold (page_init_paso primera) xs k') = tlb k"
    if "solo_vm k k'" "mem k' = mem k" "tlb k' = tlb k" for xs k'
    using that by (induction xs arbitrary: k') (auto simp: page_init_paso_def Let_def)
  from this [of k] show "solo_vm k (page_init primera k)" "mem (page_init primera k) = mem k"
    "tlb (page_init primera k) = tlb k"
    by (simp_all add: page_init_def)
qed

definition libres_inicio :: "nat \<Rightarrow> nat \<Rightarrow> nat list" where
  "libres_inicio primera n = rev (filter (pagina_usable primera) [0..<n])"

lemma libres_bastan: "160 \<le> n \<Longrightarrow> 152 \<le> length (libres_inicio primera n)"
proof -
  assume n: "160 \<le> n"
  have "card {8..<160 :: nat} \<le> card (set (libres_inicio primera n))"
    using n by (intro card_mono) (auto simp: libres_inicio_def pagina_usable_def)
  also have "\<dots> \<le> length (libres_inicio primera n)" by (rule card_length)
  finally show ?thesis by simp
qed

section \<open>The arrays\<close>

text \<open>
  The layout of physical memory: the kernel ends before page \<open>ini fin\<close>, which is its page
  directory; then come the pages of \<open>pages\<close>, those of \<open>envs\<close>, and the free ones.
\<close>

definition ini :: "uint32 \<Rightarrow> nat" where "ini fin = (unat fin - 4026531840 + 4095) div 4096"
definition pags_n :: "nat \<Rightarrow> nat" where "pags_n np = (8 * np + 4095) div 4096"
definition primera_libre :: "uint32 \<Rightarrow> nat \<Rightarrow> nat" where "primera_libre fin np = ini fin + 36 + pags_n np"

text \<open>A machine with enough memory for the kernel, and not more than the kernel can map.\<close>

definition memoria_ok :: "uint32 \<Rightarrow> nat \<Rightarrow> bool" where
  "memoria_ok fin np \<longleftrightarrow> 4026531840 + 1048576 \<le> unat fin \<and> np \<le> 65536 \<and> primera_libre fin np + 68 < np"

lemma memoria_okD:
  assumes "memoria_ok fin np"
  shows "256 \<le> ini fin" "np \<le> 65536" "ini fin + 36 + pags_n np + 68 < np" "pags_n np \<le> 128" "0 < pags_n np"
proof -
  have "4026531840 + 1048576 \<le> unat fin" using assms by (simp add: memoria_ok_def)
  then have "256 * 4096 \<le> unat fin - 4026531840 + 4095" by linarith
  then have "256 * 4096 div 4096 \<le> (unat fin - 4026531840 + 4095) div 4096" by (rule div_le_mono)
  then show "256 \<le> ini fin" by (simp add: ini_def)
  show n: "np \<le> 65536" "ini fin + 36 + pags_n np + 68 < np" using assms by (simp_all add: memoria_ok_def primera_libre_def)
  have "(8 * np + 4095) div 4096 \<le> (8 * 65536 + 4095) div 4096" using n(1) by (intro div_le_mono) simp
  then show "pags_n np \<le> 128" by (simp add: pags_n_def)
  have "(8 * 1 + 4095) div 4096 \<le> (8 * np + 4095) div 4096" using n(2) by (intro div_le_mono) simp
  then show "0 < pags_n np" by (simp add: pags_n_def)
qed

lemma arreglos_forma:
  assumes ok: "memoria_ok fin (unat np)" and np: "np = fst (i386_detect_memory rtc)" and l: "page_free_list k = None"
  defines "s \<equiv> ini fin" and "a \<equiv> pags_n (unat np)"
  shows "\<exists>k'. mem_init_arreglos rtc fin k = Some (pagina_va (s + 1), pagina_va (s + 1 + a), pagina_va (983040 + (s + 36 + a)), k')
    \<and> npages k' = unat np \<and> kern_pgdir k' = s \<and> curenv k' = curenv k \<and> tlb k' = tlb k
    \<and> mem k' = (mem k)(s := (\<lambda>_. 0)(957 := page2pa s OR PTE_U OR PTE_P))
    \<and> pag.libres k' (libres_inicio (primera_libre fin (unat np)) (unat np))
    \<and> (\<forall>i<unat np. if pagina_usable (primera_libre fin (unat np)) i then pp_ref (pages k' i) = 0 else pp_link (pages k' i) = None)
    \<and> (\<forall>i. envs k' i = (if i < NENV then env_cero_todo else envs k i))"
proof -
  have b: "4026531840 + 1048576 \<le> unat fin" "unat np \<le> 65536" "s + 36 + a + 68 < unat np"
    using ok by (simp_all add: memoria_ok_def primera_libre_def s_def a_def)
  have ff: "unat fin + 4095 < 4294967296"
    using b unfolding s_def ini_def by linarith
  have "(unat fin + 4095) div 4096 = 983040 + s"
  proof -
    have "unat fin + 4095 = (unat fin - 4026531840 + 4095) + 4096 * 983040" using b(1) by simp
    then show ?thesis unfolding s_def ini_def by (simp only: div_mult_self2)
  qed
  then have r: "ROUNDUP fin PGSIZE = pagina_va (983040 + s)" using ROUNDUP_pagina [OF ff] by simp
  have pz: "unat PGSIZE = 4096" "unat (np * sizeof_PageInfo) = 8 * unat np"
    "unat (word_of_nat NENV * sizeof_Env) = 143360"
    using b(2) unat_mult_lem [of np sizeof_PageInfo] by (simp_all add: PGSIZE_def NENV_def sizeof_Env_def sizeof_PageInfo_def)
  have an: "8 * unat np \<le> 4096 * a" "(8 * unat np + 4095) div 4096 = a" unfolding a_def pags_n_def by (linarith, rule refl)
  have 1: "boot_alloc np fin 0 PGSIZE = Some (pagina_va (983040 + s), pagina_va (983040 + (s + 1)))"
    using boot_alloc_paginas [of 0 fin s PGSIZE np] r b pz by (simp add: add.assoc)
  have 2: "boot_alloc np fin (pagina_va (983040 + (s + 1))) (np * sizeof_PageInfo)
      = Some (pagina_va (983040 + (s + 1)), pagina_va (983040 + (s + 1 + a)))"
    using b an(1) by (intro boot_alloc_sigue [OF pz(2) an(2)]) simp_all
  have 3: "boot_alloc np fin (pagina_va (983040 + (s + 1 + a))) (word_of_nat NENV * sizeof_Env)
      = Some (pagina_va (983040 + (s + 1 + a)), pagina_va (983040 + (s + 36 + a)))"
    by (rule boot_alloc_sigue [OF pz(3), of 35]) (use b in simp_all)
  have 4: "boot_alloc np fin (pagina_va (983040 + (s + 36 + a))) 0
      = Some (pagina_va (983040 + (s + 36 + a)), pagina_va (983040 + (s + 36 + a)))"
    by (rule boot_alloc_sigue [of 0 0 0]) (use b in simp_all)
  have P: "PADDR (pagina_va (983040 + s)) = Some (pagina_va s)" "PADDR (pagina_va (983040 + (s + 1))) = Some (pagina_va (s + 1))"
    "PADDR (pagina_va (983040 + (s + 1 + a))) = Some (pagina_va (s + 1 + a))"
    "PADDR (pagina_va (983040 + (s + 36 + a))) = Some (pagina_va (s + 36 + a))"
    using b by (intro PADDR_pagina; simp)+
  have G: "unat (PGNUM (pagina_va s)) = s" "unat (PGNUM (pagina_va (s + 36 + a))) = s + 36 + a" "unat np > unat (PGNUM EXTPHYSMEM)"
    using b by (simp_all add: PGNUM_va paginas_fijas s_def ini_def)
  let ?k1 = "k\<lparr>npages := unat np\<rparr>"
  let ?k2 = "?k1\<lparr>kern_pgdir := s, mem := (mem ?k1)(s := (\<lambda>_. 0))\<rparr>"
  let ?k3 = "escribir s (unat (PDX UVPT)) (pagina_va s OR PTE_U OR PTE_P) ?k2"
  let ?k4 = "?k3\<lparr>pages := (\<lambda>i. if i < npages ?k3 then pagina_cero else pages ?k3 i)\<rparr>"
  let ?k = "?k4\<lparr>envs := (\<lambda>i. if i < NENV then env_cero_todo else envs ?k4 i)\<rparr>"
  have n4: "npages ?k = unat np" by (simp add: escribir_def)
  have e: "mem_init_arreglos rtc fin k = Some (pagina_va (s + 1), pagina_va (s + 1 + a), pagina_va (983040 + (s + 36 + a)), page_init (s + 36 + a) ?k)"
    unfolding mem_init_arreglos_def np [symmetric] Let_def 1 2 3 4
    by (simp only: Option.bind.bind_lunit prod.case P G 1 2 3 4 n4 if_True)
  have k: "page_free_list ?k = None" "npages ?k = unat np" using l by (simp_all add: escribir_def)
  have i: "page_init (s + 36 + a) ?k = fold (page_init_paso (s + 36 + a)) [0..<unat np] ?k"
    unfolding page_init_def k(2) ..
  note f = page_init_fold [OF k(1), of "s + 36 + a" "unat np", folded i]
  note so = page_init_solo [where k = "?k" and primera = "s + 36 + a"] and d = solo_vmD [OF page_init_solo(1) [where k = "?k" and primera = "s + 36 + a"]]
  have p: "primera_libre fin (unat np) = s + 36 + a" by (simp add: primera_libre_def s_def a_def)
  let ?r = "page_init (s + 36 + a) ?k"
  have "npages ?r = unat np" "kern_pgdir ?r = s" "curenv ?r = curenv k" "tlb ?r = tlb k"
    "mem ?r = (mem k)(s := (\<lambda>_. 0)(957 := page2pa s OR PTE_U OR PTE_P))"
    "\<forall>i. envs ?r i = (if i < NENV then env_cero_todo else envs k i)"
    unfolding d so(2,3) k(2) by (simp_all add: escribir_def page2pa_pagina PDX_UVPT)
  moreover have "pag.libres ?r (libres_inicio (s + 36 + a) (unat np))" using f by (simp only: libres_inicio_def)
  moreover have "\<forall>i<unat np. if pagina_usable (s + 36 + a) i then pp_ref (pages ?r i) = 0 else pp_link (pages ?r i) = None"
    using f by (simp only: if_split) blast
  ultimately show ?thesis using e unfolding p by blast
qed

section \<open>The map of the kernel\<close>

text \<open>
  The entry of each page from \<open>UTOP\<close> on, outside the table of tables: \<open>pages\<close> and \<open>envs\<close>,
  open to the user for reading, the stack of each CPU with a gap below it, and all memory.
\<close>

definition mapa_nucleo :: "nat \<Rightarrow> nat \<Rightarrow> (nat \<Rightarrow> uint32) \<Rightarrow> nat \<Rightarrow> uint32" where
  "mapa_nucleo s a kstacks q =
     (if 983040 \<le> q then page2pa (q - 983040) OR (PTE_W OR PTE_P)
      else if 982912 \<le> q \<and> (983039 - q) mod 16 < 8 then
        (kstacks ((983039 - q) div 16) - KERNBASE + page2pa (7 - (983039 - q) mod 16)) OR (PTE_W OR PTE_P)
      else if 978944 \<le> q \<and> q < 978944 + a then page2pa (s + 1 + (q - 978944)) OR (PTE_U OR PTE_P)
      else if 977920 \<le> q \<and> q < 977920 + 35 then page2pa (s + 1 + a + (q - 977920)) OR (PTE_U OR PTE_P)
      else 0)"

text \<open>The tables it needs, and as many more numbers as pages are to be left free.\<close>

definition tablas_nucleo :: "nat \<Rightarrow> nat set" where
  "tablas_nucleo n = {955, 956, 957, 958, 959} \<union> {960..<1024 + n}"

lemma regiones: "UPAGES = pagina_va 978944" "UENVS = pagina_va 977920" "KERNBASE = pagina_va 983040"
  "i < 8 \<Longrightarrow> KSTACKTOP - word_of_nat i * (KSTKSIZE + KSTKGAP) - KSTKSIZE = pagina_va (983040 - 16 * i - 8)"
proof -
  show "UPAGES = pagina_va 978944" "UENVS = pagina_va 977920" "KERNBASE = pagina_va 983040"
    by (simp_all add: pagina_va_def memlayout)
  assume i: "i < 8"
  then have "pagina_va (983040 - 16 * i - 8) = word_of_nat (4096 * (983040 - 16 * i - 8))" by (simp only: pagina_va_def)
  also have "\<dots> = word_of_int (int (4096 * (983040 - 16 * i - 8)))" by simp
  also have "int (4096 * (983040 - 16 * i - 8)) = 4096 * 983040 - 4096 * 16 * int i - 4096 * 8" using i by simp
  also have "(word_of_int \<dots> :: uint32) = KSTACKTOP - word_of_nat i * (KSTKSIZE + KSTKGAP) - KSTKSIZE"
    by (simp add: KSTKSIZE_def KSTKGAP_def KSTACKTOP_def KERNBASE_def PGSIZE_def algebra_simps)
  finally show "KSTACKTOP - word_of_nat i * (KSTKSIZE + KSTKGAP) - KSTKSIZE = pagina_va (983040 - 16 * i - 8)" ..
qed

text \<open>The state with which the mappings start.\<close>

lemma arreglos_nucleo:
  assumes ok: "memoria_ok fin (unat np)" and np: "np = fst (i386_detect_memory rtc)" and l: "page_free_list k = None"
  shows "\<exists>k' xs. mem_init_arreglos rtc fin k = Some (pagina_va (ini fin + 1), pagina_va (ini fin + 1 + pags_n (unat np)),
        pagina_va (983040 + primera_libre fin (unat np)), k')
    \<and> kern_pgdir k' = ini fin \<and> npages k' = unat np \<and> xs = libres_inicio (primera_libre fin (unat np)) (unat np)
    \<and> curenv k' = curenv k \<and> tlb k' = tlb k \<and> (\<forall>i. envs k' i = (if i < NENV then env_cero_todo else envs k i))
    \<and> nucleo_ok (ini fin) (tablas_nucleo (length xs - 68)) xs k' \<and> mem k' (ini fin) 957 = page2pa (ini fin) OR PTE_U OR PTE_P
    \<and> (\<forall>q. pagina_nucleo q \<longrightarrow> entrada k' (ini fin) q = 0) \<and> presentes k' (ini fin) = {957}
    \<and> (\<forall>p. p \<noteq> ini fin \<longrightarrow> mem k' p = mem k p)"
proof -
  let ?s = "ini fin" and ?xs = "libres_inicio (primera_libre fin (unat np)) (unat np)"
  let ?n = "length ?xs - 68"
  note b = memoria_okD [OF ok]
  obtain k' where f: "mem_init_arreglos rtc fin k = Some (pagina_va (?s + 1), pagina_va (?s + 1 + pags_n (unat np)), pagina_va (983040 + primera_libre fin (unat np)), k')"
      "npages k' = unat np" "kern_pgdir k' = ?s" "curenv k' = curenv k" "tlb k' = tlb k"
      "mem k' = (mem k)(?s := (\<lambda>_. 0)(957 := page2pa ?s OR PTE_U OR PTE_P))" "pag.libres k' ?xs"
      "\<forall>i<unat np. if pagina_usable (primera_libre fin (unat np)) i then pp_ref (pages k' i) = 0 else pp_link (pages k' i) = None"
      "\<forall>i. envs k' i = (if i < NENV then env_cero_todo else envs k i)"
    using arreglos_forma [OF ok np l, folded primera_libre_def] by (elim exE conjE) (rule that)
  have nz: "page2pa ?s OR PTE_U OR PTE_P \<noteq> 0" by (simp add: or_eq_0_iff pte_flags)
  have pr: "presentes k' ?s = {957}" using nz by (auto simp: presentes_def f(6))
  have us: "p \<in> set ?xs \<longleftrightarrow> p < unat np \<and> pagina_usable (primera_libre fin (unat np)) p" for p
    by (auto simp: libres_inicio_def)
  have sx: "?s \<notin> set ?xs" unfolding us unfolding pagina_usable_def primera_libre_def using b by auto
  have c: "card (tablas_nucleo ?n - {957}) = 68 + ?n"
  proof -
    have "tablas_nucleo ?n - {957} = {955, 956, 958, 959} \<union> {960..<1024 + ?n}" by (auto simp: tablas_nucleo_def)
    moreover have "card ({955, 956, 958, 959} \<union> {960..<1024 + ?n}) = card {955, 956, 958, 959 :: nat} + card {960..<1024 + ?n}"
      by (rule card_Un_disjoint) auto
    ultimately show ?thesis by simp
  qed
  have "nucleo_ok ?s (tablas_nucleo ?n) ?xs k'"
    unfolding nucleo_ok_def pr f(2)
    using b f(7,8) sx c libres_bastan [of "unat np" "primera_libre fin (unat np)"] us
    by (auto simp: tablas_nucleo_def)
  moreover have "entrada k' ?s q = 0" if "pagina_nucleo q" for q
    unfolding entrada_def using that pagina_indices(3) [OF that] by (intro entrada_sin_tabla) (auto simp: pr pagina_nucleo_def)
  ultimately show ?thesis using f by (intro exI [of _ k'] exI [of _ ?xs]) (simp add: f(6) pr)
qed

text \<open>The stacks.\<close>

definition con_pilas :: "(nat \<Rightarrow> uint32) \<Rightarrow> nat \<Rightarrow> (nat \<Rightarrow> uint32) \<Rightarrow> nat \<Rightarrow> uint32" where
  "con_pilas kstacks i f q =
     (if 982912 \<le> q \<and> q < 983040 - 16 * i \<and> (983039 - q) mod 16 < 8 then
        (kstacks ((983039 - q) div 16) - KERNBASE + page2pa (7 - (983039 - q) mod 16)) OR (PTE_W OR PTE_P)
      else f q)"

lemma en_pila:
  "983040 - 16 * i - 8 \<le> q \<Longrightarrow> q < 983040 - 16 * i - 8 + 8 \<Longrightarrow> i < 8
    \<Longrightarrow> (983039 - q) div 16 = i \<and> (983039 - q) mod 16 = 983039 - q - 16 * i \<and> 983039 - q - 16 * i < 8
      \<and> q - (983040 - 16 * i - 8) = 7 - (983039 - q - 16 * i)"
  for i q :: nat
proof -
  assume a: "983040 - 16 * i - 8 \<le> q" "q < 983040 - 16 * i - 8 + 8" "i < 8"
  then obtain j where j: "983039 - q = 16 * i + j" "j < 8" "983039 - q - 16 * i = j" "q - (983040 - 16 * i - 8) = 7 - j"
    by (intro that [of "983039 - q - 16 * i"]) linarith+
  then show ?thesis by simp
qed

lemma con_pilas_paso:
  assumes "i < 8"
  shows "con_pilas kstacks (Suc i) (con_rango (983040 - 16 * i - 8) 8 (kstacks i - KERNBASE) (PTE_W OR PTE_P) f) q
    = con_pilas kstacks i f q"
proof -
  let ?q = "983040 - 16 * i - 8"
  have s: "16 * Suc i = 16 * i + 16" by simp
  have l: "q < 983040 - 16 * Suc i \<Longrightarrow> q < 983040 - 16 * i" "q < 983040 - 16 * Suc i \<Longrightarrow> \<not> ?q \<le> q"
    using s by linarith+
  show ?thesis
  proof (cases "?q \<le> q \<and> q < ?q + 8")
    case True
    have v: "(kstacks i - KERNBASE + x) OR (PTE_W OR PTE_P) OR PTE_P = (kstacks i - KERNBASE + x) OR (PTE_W OR PTE_P)" for x
      by (simp add: or.assoc)
    note e = en_pila [OF conjunct1 [OF True] conjunct2 [OF True] assms]
    have n: "\<not> q < 983040 - 16 * Suc i" "982912 \<le> q" "q < 983040 - 16 * i" using True assms s by linarith+
    have c: "(983039 - q) mod 16 < 8" "(983039 - q) div 16 = i" "q - ?q = 7 - (983039 - q) mod 16" using e by simp_all
    have "con_pilas kstacks (Suc i) (con_rango ?q 8 (kstacks i - KERNBASE) (PTE_W OR PTE_P) f) q
        = (kstacks i - KERNBASE + pagina_va (q - ?q)) OR (PTE_W OR PTE_P) OR PTE_P"
      unfolding con_pilas_def con_rango_def using n(1) True by (simp only: simp_thms if_True if_False)
    also have "\<dots> = con_pilas kstacks i f q"
      unfolding con_pilas_def v c(2,3) page2pa_pagina using n c(1) by (simp only: simp_thms if_True)
    finally show ?thesis .
  next
    case False
    then have r: "con_rango ?q 8 (kstacks i - KERNBASE) (PTE_W OR PTE_P) f q = f q"
      unfolding con_rango_def by (simp only: if_False)
    have "q < 983040 - 16 * Suc i \<longleftrightarrow> q < 983040 - 16 * i" if m: "982912 \<le> q" "(983039 - q) mod 16 < 8"
    proof
      assume a: "q < 983040 - 16 * i"
      show "q < 983040 - 16 * Suc i"
      proof (rule ccontr)
        assume "\<not> q < 983040 - 16 * Suc i"
        with a False obtain j where "983039 - q = 16 * i + j" "8 \<le> j" "j < 16"
          using assms s by (intro that [of "983039 - q - 16 * i"]) linarith+
        with m(2) show False by simp
      qed
    qed (rule l(1))
    then show ?thesis unfolding con_pilas_def r by (metis (no_types))
  qed
qed

lemma mem_init_mp_pilas:
  assumes m: "mapeado pd T xs0 k0 f xs k" and d: "kern_pgdir k0 = pd" and i: "i + n = 8"
    and T: "959 \<in> T" and ks: "\<And>j. j < 8 \<Longrightarrow> KERNBASE \<le> kstacks j"
    and z: "\<And>r. 982912 \<le> r \<Longrightarrow> r < 983040 - 16 * i \<Longrightarrow> f r = 0"
  shows "\<exists>xs' k'. mem_init_mp_bucle kstacks i n k = Some k' \<and> mapeado pd T xs0 k0 (con_pilas kstacks i f) xs' k'"
  using m i z
proof (induction n arbitrary: i f xs k)
  case 0
  then have "con_pilas kstacks i f = f" by (auto simp: con_pilas_def fun_eq_iff)
  with 0 show ?case by auto
next
  case (Suc n)
  let ?q = "983040 - 16 * i - 8" and ?f = "con_rango (983040 - 16 * i - 8) 8 (kstacks i - KERNBASE) (PTE_W OR PTE_P) f"
  have i: "i < 8" using Suc.prems(2) by simp
  have sz: "unat KSTKSIZE = 4096 * 8" by (simp add: KSTKSIZE_def PGSIZE_def)
  have "pagina_nucleo r \<and> r div 1024 \<in> T \<and> f r = 0" if "?q \<le> r" "r < ?q + 8" for r
  proof -
    have "982912 \<le> r" "r < 983040" "r < 983040 - 16 * i" using that i by linarith+
    moreover from this(1,2) have "r div 1024 = 959" by simp
    ultimately show ?thesis using Suc.prems(3) [of r] T by (simp add: pagina_nucleo_def)
  qed
  from boot_map_sigue [OF Suc.prems(1) d sz _ regiones(4) [OF i] this, of "kstacks i - KERNBASE" "PTE_W OR PTE_P"]
  obtain xs1 k1 where b: "boot_map_region (kern_pgdir k) (KSTACKTOP - word_of_nat i * (KSTKSIZE + KSTKGAP) - KSTKSIZE) KSTKSIZE
      (kstacks i - KERNBASE) (PTE_W OR PTE_P) k = Some k1" "mapeado pd T xs0 k0 ?f xs1 k1" by auto
  have p: "PADDR (kstacks i) = Some (kstacks i - KERNBASE)" using ks [OF i] by (simp add: PADDR_def not_less)
  have "?f r = 0" if "982912 \<le> r" "r < 983040 - 16 * Suc i" for r
  proof -
    have "16 * Suc i = 16 * i + 16" by simp
    then have "\<not> 983040 - 16 * i - 8 \<le> r" "r < 983040 - 16 * i" using that i by linarith+
    then show ?thesis using Suc.prems(3) [OF that(1)] by (simp add: con_rango_def)
  qed
  moreover have "Suc i + n = 8" using Suc.prems(2) by simp
  ultimately obtain xs' k' where
    "mem_init_mp_bucle kstacks (Suc i) n k1 = Some k'" "mapeado pd T xs0 k0 (con_pilas kstacks (Suc i) ?f) xs' k'"
    using Suc.IH [OF b(2), of "Suc i"] by blast
  moreover have "con_pilas kstacks (Suc i) ?f = con_pilas kstacks i f" using con_pilas_paso [OF i] by (rule ext)
  ultimately show ?case using b(1) p by (auto simp: Let_def)
qed

section \<open>What the initial map is\<close>

lemma nucleo_vm:
  assumes "nucleo_ok pd (tablas_nucleo n) xs k"
  shows "vm_ok {pd} (\<lambda>_. 0) xs k" "n \<le> length xs"
proof -
  note K = nucleo_okD [OF assms]
  have h: "\<not> hay_tabla {pd} k d i" for d i
  proof
    assume "hay_tabla {pd} k d i"
    then have i: "i < 955" "i \<in> presentes k pd" by (auto simp: hay_tabla_def NPDU_def presentes_def)
    then have "i \<in> tablas_nucleo n" using K(11) by blast
    with i(1) show False by (auto simp: tablas_nucleo_def)
  qed
  have "pte_en k pd i j = 0" if "i < NPDU" for i j using h [of pd i] that by (simp add: hay_tabla_def pte_en_def)
  then have m: "mapeos {pd} k f = {}" for f by (auto simp: mapeos_def)
  have "estructura {pd} xs k" unfolding estructura_def using K(1-6) h by auto
  moreover have "conteo {pd} (\<lambda>_. 0) xs k" unfolding conteo_def refs_def m using K(5) h
    by (auto simp: hay_tabla_def pte_en_def)
  ultimately show "vm_ok {pd} (\<lambda>_. 0) xs k" by (simp add: vm_ok_def)
  have "{1024..<1024 + n} \<subseteq> tablas_nucleo n - presentes k pd" by (auto simp: tablas_nucleo_def presentes_def)
  from card_mono [OF _ this] K(9,12) show "n \<le> length xs" by simp
qed

text \<open>The regions, mapped one after the other, make up the map.\<close>

lemma mapa_capas:
  "con_pilas kstacks 0 (con_rango 983040 65536 0 (PTE_W OR PTE_P)
     (con_rango 977920 35 (page2pa (s + 1 + a)) (PTE_U OR PTE_P)
       (con_rango 978944 a (page2pa (s + 1)) (PTE_U OR PTE_P) (\<lambda>_. 0)))) q
   = mapa_nucleo s a kstacks q" if "a \<le> 1024" "q < 1048576"
proof -
  have v: "page2pa x + page2pa y = page2pa (x + y)" "(0 :: uint32) + page2pa y = page2pa y" for x y
    by (simp_all add: page2pa_pagina pagina_va_def algebra_simps)
  have o: "x OR (y OR PTE_P) OR PTE_P = x OR (y OR PTE_P)" for x y :: uint32 by (simp add: or.assoc)
  consider "983040 \<le> q" | "q < 983040" "982912 \<le> q \<and> (983039 - q) mod 16 < 8"
    | "q < 983040" "\<not> (982912 \<le> q \<and> (983039 - q) mod 16 < 8)" "978944 \<le> q" "q < 978944 + a"
    | "q < 983040" "\<not> (982912 \<le> q \<and> (983039 - q) mod 16 < 8)" "\<not> (978944 \<le> q \<and> q < 978944 + a)" by linarith
  then show ?thesis
  proof cases
    case 1
    then have "\<not> (982912 \<le> q \<and> q < 983040 - 16 * 0 \<and> (983039 - q) mod 16 < 8)" "983040 \<le> q \<and> q < 983040 + 65536"
      using that by linarith+
    with 1 show ?thesis unfolding con_pilas_def con_rango_def mapa_nucleo_def page2pa_pagina [symmetric] v o by (simp only: simp_thms if_True if_False)
  next
    case 2
    then have "982912 \<le> q \<and> q < 983040 - 16 * 0 \<and> (983039 - q) mod 16 < 8" "\<not> 983040 \<le> q" by simp_all
    with 2 show ?thesis unfolding con_pilas_def mapa_nucleo_def by (simp only: simp_thms if_True if_False)
  next
    case 3
    then have "\<not> (982912 \<le> q \<and> q < 983040 - 16 * 0 \<and> (983039 - q) mod 16 < 8)" "\<not> (983040 \<le> q \<and> q < 983040 + 65536)"
      "\<not> 983040 \<le> q" "\<not> (977920 \<le> q \<and> q < 977920 + 35)" "978944 \<le> q \<and> q < 978944 + a" by auto
    with 3(2) show ?thesis unfolding con_pilas_def con_rango_def mapa_nucleo_def page2pa_pagina [symmetric] v o by (simp only: simp_thms if_True if_False)
  next
    case 4
    then have "\<not> (982912 \<le> q \<and> q < 983040 - 16 * 0 \<and> (983039 - q) mod 16 < 8)" "\<not> (983040 \<le> q \<and> q < 983040 + 65536)"
      "\<not> 983040 \<le> q" by auto
    with 4(2,3) show ?thesis unfolding con_pilas_def con_rango_def mapa_nucleo_def page2pa_pagina [symmetric] v o by (simp only: simp_thms if_True if_False)
  qed
qed

lemma tamanos:
  assumes "unat np \<le> 65536"
  shows "unat (ROUNDUP (np * sizeof_PageInfo) PGSIZE) = 4096 * pags_n (unat np)"
    "unat (ROUNDUP (word_of_nat NENV * sizeof_Env) PGSIZE) = 4096 * 35" "unat (push_bit 28 1 :: uint32) = 4096 * 65536"
proof -
  have "unat (np * sizeof_PageInfo) = 8 * unat np"
    using assms unat_mult_lem [of np sizeof_PageInfo] by (simp add: sizeof_PageInfo_def)
  with assms show "unat (ROUNDUP (np * sizeof_PageInfo) PGSIZE) = 4096 * pags_n (unat np)"
    using unat_ROUNDUP [of "np * sizeof_PageInfo"] by (simp add: pags_n_def)
  show "unat (ROUNDUP (word_of_nat NENV * sizeof_Env) PGSIZE) = 4096 * 35"
    by (subst unat_ROUNDUP) (simp_all add: NENV_def sizeof_Env_def)
  show "unat (push_bit 28 1 :: uint32) = 4096 * 65536" by simp
qed

lemma regiones_tablas:
  "978944 \<le> r \<Longrightarrow> r < 978944 + a \<Longrightarrow> a \<le> 128 \<Longrightarrow> pagina_nucleo r \<and> r div 1024 \<in> tablas_nucleo n"
  "977920 \<le> r \<Longrightarrow> r < 977920 + 35 \<Longrightarrow> pagina_nucleo r \<and> r div 1024 \<in> tablas_nucleo n"
  "983040 \<le> r \<Longrightarrow> r < 983040 + 65536 \<Longrightarrow> pagina_nucleo r \<and> r div 1024 \<in> tablas_nucleo n"
proof -
  show "pagina_nucleo r \<and> r div 1024 \<in> tablas_nucleo n" if "978944 \<le> r" "r < 978944 + a" "a \<le> 128"
  proof -
    have "r div 1024 = 956" "r < 1048576" using that by simp_all
    then show ?thesis by (simp add: pagina_nucleo_def tablas_nucleo_def)
  qed
  show "pagina_nucleo r \<and> r div 1024 \<in> tablas_nucleo n" if "977920 \<le> r" "r < 977920 + 35"
  proof -
    have "r div 1024 = 955" "r < 978944" using that by simp_all
    then show ?thesis by (simp add: pagina_nucleo_def tablas_nucleo_def)
  qed
  show "pagina_nucleo r \<and> r div 1024 \<in> tablas_nucleo n" if "983040 \<le> r" "r < 983040 + 65536"
  proof -
    have "960 \<le> r div 1024" using that(1) div_le_mono [of 983040 r 1024] by simp
    moreover have "r div 1024 < 1024" "r < 1048576" using that by (simp_all add: div_less_iff_less_mult)
    ultimately show ?thesis by (simp add: pagina_nucleo_def tablas_nucleo_def)
  qed
qed

section \<open>check_kern_pgdir\<close>

lemma page2pa_suma: "page2pa p + page2pa q = page2pa (p + q)"
  by (simp add: page2pa_pagina pagina_va_def algebra_simps)

lemma por_PGSIZE: "word_of_nat j * PGSIZE = page2pa j"
  by (simp add: page2pa_pagina pagina_va_def PGSIZE_def algebra_simps)

lemma pagina_va_suma_n: "pagina_va q + page2pa j = pagina_va (q + j)"
  by (simp add: page2pa_pagina pagina_va_def algebra_simps)

lemma check_rango_nucleo:
  assumes n: "nucleo_ok pd T xs k" "kern_pgdir k = pd" and c: "(unat n + 4095) div 4096 = c" "va = pagina_va q" "pa = page2pa p" "p + c \<le> 2 ^ 20"
    and e: "\<And>j. j < c \<Longrightarrow> pagina_nucleo (q + j) \<and> entrada k pd (q + j) = page2pa (p + j) OR perm" and perm: "es_perm perm" "PTE_P AND perm = PTE_P"
  shows "check_rango n va pa k"
proof -
  have "check_va2pa pd (va + word_of_nat j * PGSIZE) k = Some (pa + word_of_nat j * PGSIZE)" if "j < c" for j
  proof -
    have "(page2pa (p + j) OR perm) AND PTE_P = PTE_P"
      using perm(2) by (simp add: bit.conj_disj_distrib2 page2pa_bandera and.commute [of perm])
    moreover have "PTE_ADDR (page2pa (p + j) OR perm) = page2pa (p + j)" using c(4) that perm(1) by (intro PTE_ADDR_page2pa) simp_all
    ultimately show ?thesis
      using nucleo_va2pa [OF n(1) conjunct1 [OF e [OF that]]] e [OF that]
      by (simp add: c(2,3) por_PGSIZE pagina_va_suma_n page2pa_suma banderas_y)
  qed
  then show ?thesis by (simp add: check_rango_def list_all_iff c(1) n(2) Let_def)
qed

lemma perm_mapa: "es_perm (PTE_W OR PTE_P)" "PTE_P AND (PTE_W OR PTE_P) = PTE_P" "es_perm (PTE_U OR PTE_P)" "PTE_P AND (PTE_U OR PTE_P) = PTE_P"
  by (simp_all only: es_perm_or es_perm_flags simp_thms) (simp_all add: pte_flags)

text \<open>A kernel with the map in place.\<close>

definition con_mapa :: "uint32 \<Rightarrow> nat \<Rightarrow> (nat \<Rightarrow> uint32) \<Rightarrow> nat \<Rightarrow> nat list \<Rightarrow> kernel \<Rightarrow> bool" where
  "con_mapa fin np kstacks n xs k \<longleftrightarrow> nucleo_ok (ini fin) (tablas_nucleo n) xs k \<and> kern_pgdir k = ini fin \<and> npages k = np
     \<and> mem k (ini fin) 957 = page2pa (ini fin) OR PTE_U OR PTE_P \<and> 958 \<in> presentes k (ini fin)
     \<and> (\<forall>q. pagina_nucleo q \<longrightarrow> entrada k (ini fin) q = mapa_nucleo (ini fin) (pags_n np) kstacks q)"

definition pilas_ok :: "(nat \<Rightarrow> uint32) \<Rightarrow> bool" where
  "pilas_ok kstacks \<longleftrightarrow> (\<forall>i<8. \<exists>m<65528. kstacks i = pagina_va (983040 + m))"

lemma pilas_okD:
  assumes "pilas_ok kstacks" "i < 8"
  obtains m where "m < 65528" "kstacks i = pagina_va (983040 + m)" "PADDR (kstacks i) = Some (page2pa m)" "kstacks i - KERNBASE = page2pa m"
proof -
  obtain m where m: "m < 65528" "kstacks i = pagina_va (983040 + m)" using assms by (auto simp: pilas_ok_def)
  have "PADDR (kstacks i) = Some (page2pa m)" unfolding m(2) page2pa_pagina by (rule PADDR_pagina) (use m(1) in simp)
  moreover from this have "kstacks i - KERNBASE = page2pa m" by (simp add: PADDR_def split: if_splits)
  ultimately show thesis using that m by blast
qed

lemma pilas_ok_KERNBASE: "pilas_ok kstacks \<Longrightarrow> i < 8 \<Longrightarrow> KERNBASE \<le> kstacks i"
  by (erule (1) pilas_okD) (auto simp: PADDR_def split: if_splits)

lemma mapa_valores:
  assumes "a \<le> 128"
  shows "j < a \<Longrightarrow> mapa_nucleo s a kstacks (978944 + j) = page2pa (s + 1 + j) OR (PTE_U OR PTE_P)"
    "j < 35 \<Longrightarrow> mapa_nucleo s a kstacks (977920 + j) = page2pa (s + 1 + a + j) OR (PTE_U OR PTE_P)"
    "mapa_nucleo s a kstacks (983040 + j) = page2pa j OR (PTE_W OR PTE_P)"
  using assms by (simp_all add: mapa_nucleo_def)

lemma mapa_alto:
  assumes "982912 \<le> q" "\<not> 983040 \<le> q" "a \<le> 128"
  shows "(983039 - q) mod 16 < 8 \<Longrightarrow> mapa_nucleo s a kstacks q
      = (kstacks ((983039 - q) div 16) - KERNBASE + page2pa (7 - (983039 - q) mod 16)) OR (PTE_W OR PTE_P)"
    "\<not> (983039 - q) mod 16 < 8 \<Longrightarrow> mapa_nucleo s a kstacks q = 0"
  using assms by (simp_all add: mapa_nucleo_def)

lemma mapa_pila:
  assumes "n < 8" "j < 8" "a \<le> 128"
  shows "mapa_nucleo s a kstacks (983040 - 16 * n - 8 + j) = (kstacks n - KERNBASE + page2pa j) OR (PTE_W OR PTE_P)"
    "mapa_nucleo s a kstacks (983040 - 16 * n - 16 + j) = 0"
proof -
  let ?q = "983040 - 16 * n - 8 + j" and ?r = "983040 - 16 * n - 16 + j"
  have q: "983039 - ?q = 16 * n + (7 - j)" "982912 \<le> ?q" "\<not> 983040 \<le> ?q" using assms by linarith+
  have e: "(983039 - ?q) mod 16 = 7 - j" "(983039 - ?q) div 16 = n" unfolding q(1) by simp_all
  have lt: "(983039 - ?q) mod 16 < 8" unfolding e by simp
  have "7 - (7 - j) = j" using assms(2) by simp
  then show "mapa_nucleo s a kstacks ?q = (kstacks n - KERNBASE + page2pa j) OR (PTE_W OR PTE_P)"
    unfolding mapa_alto(1) [OF q(2,3) assms(3) lt] e by (simp only:)
  have r: "983039 - ?r = 16 * n + (15 - j)" "982912 \<le> ?r" "\<not> 983040 \<le> ?r" using assms by linarith+
  obtain i where i: "15 - j = i" "8 \<le> i" "i < 16" using assms(2) by (intro that [of "15 - j"]) simp_all
  have "\<not> (983039 - ?r) mod 16 < 8" unfolding r(1) i(1) using i(2,3) by simp
  with mapa_alto(2) [OF r(2,3) assms(3)] show "mapa_nucleo s a kstacks ?r = 0" .
qed

lemma pila_base: "n < 8 \<Longrightarrow> KSTACKTOP - (KSTKSIZE + KSTKGAP) * (word_of_nat n + 1) = pagina_va (983040 - 16 * n - 16)"
proof -
  assume n: "n < 8"
  have "KSTACKTOP - (KSTKSIZE + KSTKGAP) * (word_of_nat n + 1) = (KSTACKTOP - word_of_nat n * (KSTKSIZE + KSTKGAP) - KSTKSIZE) - page2pa 8"
    by (simp add: KSTKSIZE_def KSTKGAP_def PGSIZE_def page2pa_def push_bit_eq_mult algebra_simps)
  also have "\<dots> = pagina_va (983040 - 16 * n - 16 + 8) - page2pa 8" unfolding regiones(4) [OF n] using n by (intro arg_cong2 [of _ _ _ _ minus] arg_cong [of _ _ pagina_va]) simp_all
  also have "\<dots> = pagina_va (983040 - 16 * n - 16)" unfolding pagina_va_suma_n [symmetric] by simp
  finally show ?thesis .
qed

lemma check_pila_mapa:
  assumes m: "con_mapa fin np kstacks t xs k" "pags_n np \<le> 128" and p: "pilas_ok kstacks" "n < 8"
  shows "check_pila kstacks n k"
proof -
  obtain x where x: "x < 65528" "PADDR (kstacks n) = Some (page2pa x)" "kstacks n - KERNBASE = page2pa x" using pilas_okD [OF p] by metis
  note M = m(1) [unfolded con_mapa_def]
  then have N: "nucleo_ok (ini fin) (tablas_nucleo t) xs k" "kern_pgdir k = ini fin" by blast+
  let ?b = "983040 - 16 * n - 16"
  have pg: "pagina_nucleo (?b + j)" if "j < 16" for j
  proof -
    have "982912 \<le> ?b + j" "?b + j < 983040" using that p(2) by linarith+
    moreover from this have "(?b + j) div 1024 = 959" by simp
    ultimately show ?thesis by (simp add: pagina_nucleo_def)
  qed
  have b8: "?b + 8 + j = 983040 - 16 * n - 8 + j" for j using p(2) by linarith
  have gap: "pagina_va ?b + KSTKGAP = pagina_va (?b + 8)" using pagina_va_suma_n [of ?b 8] by (simp add: KSTKGAP_def PGSIZE_def page2pa_def push_bit_eq_mult)
  have st: "pagina_nucleo (?b + 8 + j) \<and> entrada k (ini fin) (?b + 8 + j) = page2pa (x + j) OR (PTE_W OR PTE_P)" if "j < 8" for j
    using pg [of "8 + j"] M that mapa_pila(1) [OF p(2) that m(2)] by (simp only: b8 [symmetric] add.assoc [symmetric] x(3) page2pa_suma simp_thms)
  have "check_rango KSTKSIZE (pagina_va ?b + KSTKGAP) (page2pa x) k"
    by (rule check_rango_nucleo [where n = KSTKSIZE and c = 8, OF N _ gap refl _ st perm_mapa(1,2)])
      (use x(1) in \<open>simp_all add: KSTKSIZE_def PGSIZE_def\<close>)
  moreover have "check_va2pa (ini fin) (pagina_va ?b + word_of_nat j * PGSIZE) k = Some (NOT 0)" if "j < 8" for j
    using nucleo_va2pa [OF N(1) pg [of j]] M pg [of j] that mapa_pila(2) [OF p(2) that m(2)] by (simp add: por_PGSIZE pagina_va_suma_n)
  ultimately show ?thesis by (simp add: check_pila_def Let_def pila_base [OF p(2)] x(2) N(2) list_all_iff)
qed

lemma no_cero: "x OR (y OR PTE_P) \<noteq> 0"
  by (simp add: or_eq_0_iff banderas_y)

lemma mapa_presentes:
  assumes m: "con_mapa fin np kstacks t xs k" "pags_n np \<le> 128" "0 < pags_n np"
  shows "presentes k (ini fin) = {955..<1024}"
proof -
  note M = m(1) [unfolded con_mapa_def]
  then have n: "nucleo_ok (ini fin) (tablas_nucleo t) xs k" by blast
  note N = nucleo_okD [OF n]
  have pr: "q div 1024 \<in> presentes k (ini fin)" if "pagina_nucleo q" "mapa_nucleo (ini fin) (pags_n np) kstacks q \<noteq> 0" for q
    using that M pagina_indices(3) [OF that(1)] by (auto simp: entrada_def pte_en_def presentes_def)
  have "i \<in> presentes k (ini fin)" if i: "955 \<le> i" "i < 1024" for i
  proof -
    consider "i = 955" | "i = 956" | "i = 957" | "i = 958" | "i = 959" | "960 \<le> i" using i by linarith
    then show ?thesis
    proof cases
      case 1
      then show ?thesis using pr [of 977920] mapa_valores(2) [OF m(2), of 0] by (simp add: no_cero pagina_nucleo_def)
    next
      case 2
      then show ?thesis using pr [of 978944] mapa_valores(1) [OF m(2,3)] by (simp add: no_cero pagina_nucleo_def)
    next
      case 5
      then show ?thesis using pr [of 983039] mapa_pila(1) [of 0 7, OF _ _ m(2)] by (simp add: no_cero pagina_nucleo_def)
    next
      case 6
      have "983040 + (1024 * i - 983040) = 1024 * i" using 6 by linarith
      then show ?thesis using 6 i pr [of "1024 * i"] mapa_valores(3) [OF m(2), of "ini fin" kstacks "1024 * i - 983040"]
        by (simp add: no_cero pagina_nucleo_def)
    qed (use M N(10) in auto)
  qed
  moreover have "presentes k (ini fin) \<subseteq> {955..<1024}" using N(11) by (auto simp: tablas_nucleo_def presentes_def)
  ultimately show ?thesis by auto
qed

lemma check_pde_mapa:
  assumes m: "con_mapa fin np kstacks t xs k" "pags_n np \<le> 128" "0 < pags_n np" and i: "i < 1024"
  shows "check_pde k i"
proof -
  note M = m(1) [unfolded con_mapa_def] and P = mapa_presentes [OF m]
  then have N: "nucleo_ok (ini fin) (tablas_nucleo t) xs k" by blast
  have u: "unat (PDX UVPT) = 957" "unat (PDX (KSTACKTOP - 1)) = 959" "unat (PDX UPAGES) = 956" "unat (PDX UENVS) = 955"
    "unat (PDX MMIOBASE) = 958" "unat (PDX KERNBASE) = 960" by (simp_all add: unat_PDX memlayout)
  have e: "mem k (ini fin) i AND PTE_P = PTE_P \<and> mem k (ini fin) i AND PTE_W = PTE_W" if "955 \<le> i" "i \<noteq> 957"
    using nucleo_okD(13) [OF N, of i] P that i by (simp add: ent_tabla_simps)
  have "mem k (ini fin) 957 AND PTE_P \<noteq> 0"
    using M by (simp add: bit.conj_disj_distrib2 page2pa_bandera banderas_y)
  moreover have "mem k (ini fin) i = 0" if "i < 955"
  proof -
    have "i \<notin> presentes k (ini fin)" unfolding P using that by simp
    then show ?thesis using i by (simp add: presentes_def)
  qed
  ultimately show ?thesis using e M i banderas_y unfolding check_pde_def u Let_def by (cases "i = 957"; cases "i < 955") auto
qed

lemma check_kern_pgdir_mapa:
  assumes m: "con_mapa fin np kstacks t xs k" "memoria_ok fin np" and p: "pilas_ok kstacks"
  shows "check_kern_pgdir kstacks (page2pa (ini fin + 1)) (page2pa (ini fin + 1 + pags_n np)) k"
proof -
  note M = m(1) [unfolded con_mapa_def] and b = memoria_okD [OF m(2)]
  then have N: "nucleo_ok (ini fin) (tablas_nucleo t) xs k" "kern_pgdir k = ini fin" and np: "npages k = np" by blast+
  let ?n = "word_of_nat (npages k) :: uint32"
  have un: "unat ?n = np" using b(2) unfolding np by (intro unat_de_nat32) simp
  have s1: "(unat (ROUNDUP (?n * sizeof_PageInfo) PGSIZE) + 4095) div 4096 = pags_n np"
    using tamanos(1) [of ?n] b(2) un by simp
  have s2: "(unat (ROUNDUP (word_of_nat NENV * sizeof_Env) PGSIZE) + 4095) div 4096 = 35" using tamanos(2) [of ?n] b(2) un by simp
  have s3: "(unat (?n * PGSIZE) + 4095) div 4096 = np"
  proof -
    have "unat (?n * PGSIZE) = 4096 * np" using un b(2) unat_mult_lem [of ?n PGSIZE] by (simp add: PGSIZE_def)
    then show ?thesis by simp
  qed
  have K: "entrada k (ini fin) q = mapa_nucleo (ini fin) (pags_n np) kstacks q" if "pagina_nucleo q" for q using M that by blast
  have r1: "pagina_nucleo (978944 + j) \<and> entrada k (ini fin) (978944 + j) = page2pa (ini fin + 1 + j) OR (PTE_U OR PTE_P)" if "j < pags_n np" for j
    using regiones_tablas(1) [of "978944 + j" "pags_n np"] that b(4) K mapa_valores(1) [OF b(4) that] by simp
  have r2: "pagina_nucleo (977920 + j) \<and> entrada k (ini fin) (977920 + j) = page2pa (ini fin + 1 + pags_n np + j) OR (PTE_U OR PTE_P)" if "j < 35" for j
    using regiones_tablas(2) [of "977920 + j"] that K mapa_valores(2) [OF b(4) that] by simp
  have r3: "pagina_nucleo (983040 + j) \<and> entrada k (ini fin) (983040 + j) = page2pa (0 + j) OR (PTE_W OR PTE_P)" if "j < np" for j
    using regiones_tablas(3) [of "983040 + j"] that b(2) K mapa_valores(3) [OF b(4)] by simp
  have "check_rango (ROUNDUP (?n * sizeof_PageInfo) PGSIZE) UPAGES (page2pa (ini fin + 1)) k"
    by (rule check_rango_nucleo [OF N s1 regiones(1) refl _ r1 perm_mapa(3,4)]) (use b in simp)
  moreover have "check_rango (ROUNDUP (word_of_nat NENV * sizeof_Env) PGSIZE) UENVS (page2pa (ini fin + 1 + pags_n np)) k"
    by (rule check_rango_nucleo [OF N s2 regiones(2) refl _ r2 perm_mapa(3,4)]) (use b in simp)
  moreover have "check_rango (?n * PGSIZE) KERNBASE (page2pa 0) k"
    by (rule check_rango_nucleo [OF N s3 regiones(3) refl _ r3 perm_mapa(1,2)]) (use b in simp)
  moreover have "check_pila kstacks n k" if "n < 8" for n by (rule check_pila_mapa [OF m(1) b(4) p that])
  moreover have "check_pde k i" if "i < 1024" for i by (rule check_pde_mapa [OF m(1) b(4,5) that])
  moreover have "page2pa 0 = 0" by (simp add: page2pa_def)
  ultimately show ?thesis by (simp add: check_kern_pgdir_def list_all_iff NCPU_def NPDENTRIES_def)
qed

section \<open>mem_init\<close>

lemma regiones_mapeadas:
  assumes b: "unat np \<le> 65536" "pags_n (unat np) \<le> 128" and A: "mapeado s (tablas_nucleo n) xs0 k0 (\<lambda>_. 0) xs k1" "kern_pgdir k0 = s"
    and ks: "\<forall>i<8. KERNBASE \<le> kstacks i"
  defines "a \<equiv> pags_n (unat np)"
  shows "\<exists>k2 k3 k4 k5 xs5.
      boot_map_region (kern_pgdir k1) UPAGES (ROUNDUP (np * sizeof_PageInfo) PGSIZE) (page2pa (s + 1)) (PTE_U OR PTE_P) k1 = Some k2
    \<and> boot_map_region (kern_pgdir k2) UENVS (ROUNDUP (word_of_nat NENV * sizeof_Env) PGSIZE) (page2pa (s + 1 + a)) (PTE_U OR PTE_P) k2 = Some k3
    \<and> boot_map_region (kern_pgdir k3) KERNBASE (push_bit 28 1) 0 (PTE_W OR PTE_P) k3 = Some k4
    \<and> mem_init_mp kstacks k4 = Some k5 \<and> mapeado s (tablas_nucleo n) xs0 k0 (mapa_nucleo s a kstacks) xs5 k5"
proof -
  let ?T = "tablas_nucleo n"
  have T: "959 \<in> ?T" by (simp add: tablas_nucleo_def)
  let ?f1 = "con_rango 978944 a (page2pa (s + 1)) (PTE_U OR PTE_P) (\<lambda>_. 0)"
  have r1: "pagina_nucleo r \<and> r div 1024 \<in> ?T \<and> (0 :: uint32) = 0" if "978944 \<le> r" "r < 978944 + a" for r
    using regiones_tablas(1) [OF that b(2) [folded a_def]] by blast
  obtain xs2 k2 where 2: "boot_map_region (kern_pgdir k1) UPAGES (ROUNDUP (np * sizeof_PageInfo) PGSIZE) (page2pa (s + 1)) (PTE_U OR PTE_P) k1 = Some k2"
      "mapeado s ?T xs0 k0 ?f1 xs2 k2"
    using boot_map_sigue [OF A tamanos(1) [OF b(1), folded a_def] _ regiones(1) r1, of "page2pa (s + 1)" "PTE_U OR PTE_P"] b(2) by (auto simp: a_def)
  let ?f2 = "con_rango 977920 35 (page2pa (s + 1 + a)) (PTE_U OR PTE_P) ?f1"
  have r2: "pagina_nucleo r \<and> r div 1024 \<in> ?T \<and> ?f1 r = 0" if "977920 \<le> r" "r < 977920 + 35" for r
    using regiones_tablas(2) [OF that] that by (simp add: con_rango_def)
  obtain xs3 k3 where 3: "boot_map_region (kern_pgdir k2) UENVS (ROUNDUP (word_of_nat NENV * sizeof_Env) PGSIZE) (page2pa (s + 1 + a)) (PTE_U OR PTE_P) k2 = Some k3"
      "mapeado s ?T xs0 k0 ?f2 xs3 k3"
    using boot_map_sigue [OF 2(2) A(2) tamanos(2) [OF b(1)] _ regiones(2) r2, of "page2pa (s + 1 + a)" "PTE_U OR PTE_P"] by auto
  let ?f3 = "con_rango 983040 65536 0 (PTE_W OR PTE_P) ?f2"
  have r3: "pagina_nucleo r \<and> r div 1024 \<in> ?T \<and> ?f2 r = 0" if "983040 \<le> r" "r < 983040 + 65536" for r
    using regiones_tablas(3) [OF that] that b(2) by (simp add: con_rango_def a_def)
  obtain xs4 k4 where 4: "boot_map_region (kern_pgdir k3) KERNBASE (push_bit 28 1) 0 (PTE_W OR PTE_P) k3 = Some k4"
      "mapeado s ?T xs0 k0 ?f3 xs4 k4"
    using boot_map_sigue [OF 3(2) A(2) tamanos(3) [OF b(1)] _ regiones(3) r3, of 0 "PTE_W OR PTE_P"] by auto
  have z: "?f3 r = 0" if "982912 \<le> r" "r < 983040 - 16 * 0" for r using that b(2) by (simp add: con_rango_def a_def)
  obtain xs5 k5 where 5: "mem_init_mp_bucle kstacks 0 8 k4 = Some k5" "mapeado s ?T xs0 k0 (con_pilas kstacks 0 ?f3) xs5 k5"
    using mem_init_mp_pilas [where i = 0 and n = 8 and kstacks = kstacks, OF 4(2) A(2) _ T _ z] ks by auto
  have "mapeado s ?T xs0 k0 (mapa_nucleo s a kstacks) xs5 k5"
    using 5(2) mapa_capas [of a] b(2) by (simp add: mapeado_def pagina_nucleo_def a_def)
  moreover have "mem_init_mp kstacks k4 = Some k5" using 5(1) by (simp add: mem_init_mp_def NCPU_def)
  ultimately show ?thesis using 2(1) 3(1) 4(1) by blast
qed

text \<open>The pages at the head of the list, once it is split, are below 4 MB.\<close>

lemma cabeza_baja:
  assumes "160 \<le> n" "n \<le> 65536" "p \<in> set (take 152 (separada 1 (libres_inicio primera n)))"
  shows "p < 1024"
proof -
  let ?xs = "libres_inicio primera n" and ?L = "filter (\<lambda>p. \<not> PDX (page2pa p) \<ge> 1) (libres_inicio primera n)"
  have low: "q \<in> set ?L \<longleftrightarrow> q \<in> set ?xs \<and> q < 1024" for q
    using assms(2) PDX_pagina [of q] by (auto simp: libres_inicio_def)
  have "{8..<160} \<subseteq> set ?L" unfolding low subset_iff using assms(1) by (auto simp: libres_inicio_def pagina_usable_def)
  from card_mono [OF _ this] have "152 \<le> card (set ?L)" by simp
  also have "\<dots> \<le> length ?L" by (rule card_length)
  finally have "take 152 (separada 1 ?xs) = take 152 ?L" by (simp add: separada_def)
  with assms(3) have "p \<in> set ?L" using in_set_takeD by metis
  with low show ?thesis by blast
qed

text \<open>The self tests before the mappings.\<close>

lemma pruebas_forma:
  assumes ok: "memoria_ok fin (unat np)" and n: "nucleo_ok s T xs k" "kern_pgdir k = s" "curenv k = None" "npages k = unat np" "s = ini fin"
    and xs: "xs = libres_inicio (primera_libre fin (unat np)) (unat np)" and T: "0 \<notin> T" "1 \<notin> T" "958 \<in> T"
    and z: "\<forall>q. pagina_nucleo q \<longrightarrow> entrada k s q = 0" and pr: "presentes k s = {957}"
  shows "\<exists>k1 k2 k3 k4 a b c ys zs. check_page_free_list True np fin (pagina_va (983040 + primera_libre fin (unat np))) k = Some k1
    \<and> check_page_alloc k1 = Some k2 \<and> check_page MMIOBASE k2 = Some (pagina_va 980995, k4)
    \<and> separada 1 xs = a # b # c # ys \<and> revuelto k xs k3 (c # b # a # ys) \<and> mapeado s T (c # b # a # ys) k3 (\<lambda>_. 0) zs k4
    \<and> 958 \<in> presentes k4 s \<and> presentes k3 s = {957} \<and> mem k3 s = mem k s
    \<and> (\<forall>p<65536. 1024 \<le> p \<longrightarrow> mem k3 p = mem k p)"
proof -
  note b = memoria_okD [OF ok] and N = nucleo_okD [OF n(1)]
  let ?p = "primera_libre fin (unat np)" and ?ys = "separada 1 xs"
  have p: "256 < ?p" "?p \<le> 65535" using b by (simp_all add: primera_libre_def)
  have us: "p \<in> set xs \<longleftrightarrow> p < unat np \<and> pagina_usable ?p p" for p by (auto simp: xs libres_inicio_def)
  have ba: "boot_alloc np fin (pagina_va (983040 + ?p)) 0 = Some (pagina_va (983040 + ?p), pagina_va (983040 + ?p))"
    by (rule boot_alloc_sigue [of 0 0 0]) (use b in \<open>simp_all add: primera_libre_def\<close>)
  have m8: "8 \<in> set xs" unfolding us pagina_usable_def using b(3) by simp
  have g: "256 \<le> unat np - 1" "?p \<le> unat np - 1" "unat np - 1 < unat np" using b(1,3) by (simp_all add: primera_libre_def)
  then have mn: "unat np - 1 \<in> set xs" unfolding us pagina_usable_def by linarith
  have ex: "\<exists>p\<in>set xs. p < 256" "\<exists>p\<in>set xs. 256 \<le> p" using bexI [OF _ m8, of "\<lambda>p. p < 256"] bexI [of "\<lambda>p. 256 \<le> p" "unat np - 1" "set xs"] g(1) mn by simp_all
  have us': "\<forall>p\<in>set xs. p < npages k \<and> pagina_usable ?p p \<and> pp_ref (pages k p) = 0" using N(5) us n(4) by blast
  obtain k1 where 1: "check_page_free_list True np fin (pagina_va (983040 + ?p)) k = Some k1" "revuelto k xs k1 ?ys"
      "\<forall>p<65536. 1024 \<le> p \<longrightarrow> mem k1 p = mem k p"
    using check_page_free_list_forma [OF N(2) us' _ p ba ex, of True] b(2) n(4) by auto
  have n160: "160 \<le> unat np" using b(3) g(1) by linarith
  have "152 \<le> length ?ys" unfolding separada_simps xs using libres_bastan [OF n160] .
  then obtain a ys1 where y1: "?ys = a # ys1" "151 \<le> length ys1" by (cases ?ys) auto
  then obtain b' ys2 where y2: "ys1 = b' # ys2" "150 \<le> length ys2" by (cases ys1) auto
  then obtain c ys where ys: "?ys = a # b' # c # ys" using y1 by (cases ys2) auto
  have "{a, b', c} \<subseteq> set (take 152 ?ys)" unfolding ys by (simp add: numeral_eq_Suc)
  then have low: "p < 1024" if "p \<in> {a, b', c}" for p
    using cabeza_baja [OF n160 b(2), of p ?p] that unfolding xs by blast
  have s1: "listo_prueba s T ?ys k1" and R1: "mem k1 s = mem k s" "\<And>q. pagina_nucleo q \<Longrightarrow> entrada k1 s q = 0"
    using nucleo_revuelto [OF n(1) 1(2)] n(2-4) T z b(2) 1(2) by (auto simp: listo_prueba_def revuelto_def solo_vmD)
  obtain k2 where 2: "check_page_alloc k1 = Some k2" "revuelto k1 ?ys k2 ?ys" "\<forall>p. p \<notin> {a, b', c} \<longrightarrow> mem k2 p = mem k1 p"
    using check_page_alloc_forma [OF s1 [unfolded ys]] unfolding ys by blast
  have s2: "listo_prueba s T ?ys k2" and R2: "mem k2 s = mem k1 s" "\<And>q. pagina_nucleo q \<Longrightarrow> entrada k2 s q = 0"
    using nucleo_revuelto [OF _ 2(2), of s T] s1 R1(2) 2(2) by (auto simp: listo_prueba_def revuelto_def solo_vmD)
  obtain k3 k4 zs where 3: "check_page MMIOBASE k2 = Some (pagina_va 980995, k4)" "revuelto k2 ?ys k3 (c # b' # a # ys)"
      "\<forall>p. p \<notin> {a, b', c} \<longrightarrow> mem k3 p = mem k2 p" "mapeado s T (c # b' # a # ys) k3 (\<lambda>_. 0) zs k4" "958 \<in> presentes k4 s"
    using check_page_forma [OF s2 [unfolded ys] T(3) R2(2)] unfolding ys by blast
  have "mem k3 s = mem k s"
    using nucleo_revuelto(2) [OF _ 3(2), of s T] s2 R1(1) R2(1) by (simp add: listo_prueba_def)
  moreover from this have "presentes k3 s = {957}" using pr by (simp add: presentes_def)
  moreover have "mem k3 p = mem k p" if "p < 65536" "1024 \<le> p" for p
    using 1(3) 2(3) 3(3) low [of p] that by (metis not_less)
  moreover have "revuelto k xs k3 (c # b' # a # ys)" using revuelto_trans [OF revuelto_trans [OF 1(2) 2(2)] 3(2)] .
  ultimately show ?thesis using 1(1) 2(1) 3(1,4,5) ys by blast
qed

lemma mem_init_mapas_forma:
  assumes ok: "memoria_ok fin (unat np)" and np: "np = fst (i386_detect_memory rtc)" and l: "page_free_list k = None" "curenv k = None"
    and ks: "pilas_ok kstacks"
  defines "libres \<equiv> libres_inicio (primera_libre fin (unat np)) (unat np)"
  shows "\<exists>k' xs. mem_init_mapas rtc fin kstacks k = Some (pagina_va (983040 + primera_libre fin (unat np)), k')
    \<and> con_mapa fin (unat np) kstacks (length libres - 68) xs k' \<and> curenv k' = None
    \<and> (\<forall>i. envs k' i = (if i < NENV then env_cero_todo else envs k i)) \<and> set xs \<subseteq> set libres
    \<and> (\<forall>p<65536. 1024 \<le> p \<longrightarrow> p \<noteq> ini fin \<longrightarrow> mem k' p = mem k p)"
proof -
  let ?s = "ini fin" and ?a = "pags_n (unat np)" and ?n = "length libres - 68" and ?p = "primera_libre fin (unat np)"
  let ?T = "tablas_nucleo ?n"
  note b = memoria_okD [OF ok]
  have T: "0 \<notin> ?T" "1 \<notin> ?T" "958 \<in> ?T" by (simp_all add: tablas_nucleo_def)
  obtain k0 where A: "mem_init_arreglos rtc fin k = Some (pagina_va (?s + 1), pagina_va (?s + 1 + ?a), pagina_va (983040 + ?p), k0)"
      "kern_pgdir k0 = ?s" "npages k0 = unat np" "curenv k0 = curenv k" "\<forall>i. envs k0 i = (if i < NENV then env_cero_todo else envs k i)"
      "nucleo_ok ?s ?T libres k0" "mem k0 ?s 957 = page2pa ?s OR PTE_U OR PTE_P" "\<forall>q. pagina_nucleo q \<longrightarrow> entrada k0 ?s q = 0"
      "presentes k0 ?s = {957}" "\<forall>p. p \<noteq> ?s \<longrightarrow> mem k0 p = mem k p"
    using arreglos_nucleo [OF ok np l(1), folded libres_def] by (elim exE conjE) (rule that, simp_all)
  have cu: "curenv k0 = None" using A(4) l(2) by simp
  obtain k1 k2 k3 k4 x y z ys zs where B: "check_page_free_list True np fin (pagina_va (983040 + ?p)) k0 = Some k1" "check_page_alloc k1 = Some k2"
      "check_page MMIOBASE k2 = Some (pagina_va 980995, k4)" "separada 1 libres = x # y # z # ys" "revuelto k0 libres k3 (z # y # x # ys)"
      "mapeado ?s ?T (z # y # x # ys) k3 (\<lambda>_. 0) zs k4" "958 \<in> presentes k4 ?s" "presentes k3 ?s = {957}" "mem k3 ?s = mem k0 ?s"
      "\<forall>p<65536. 1024 \<le> p \<longrightarrow> mem k3 p = mem k0 p"
    using pruebas_forma [OF ok A(6,2) cu A(3) refl libres_def [THEN meta_eq_to_obj_eq] T A(8,9)] by (elim exE conjE) (rule that)
  have s3: "solo_vm k0 k3" using B(5) by (simp add: revuelto_def)
  have s4: "solo_vm k3 k4" "nucleo_ok ?s ?T zs k4" "\<And>q. pagina_nucleo q \<Longrightarrow> entrada k4 ?s q = 0" using B(6) by (simp_all add: mapeado_def)
  have kp: "kern_pgdir k4 = ?s" using solo_vmD(4) [OF s3] solo_vmD(4) [OF s4(1)] A(2) by simp
  have m4: "mapeado ?s ?T zs k4 (\<lambda>_. 0) zs k4" using s4(2,3) by (intro mapeado_refl) simp_all
  obtain k5 k6 k7 k8 xs where C: "boot_map_region (kern_pgdir k4) UPAGES (ROUNDUP (np * sizeof_PageInfo) PGSIZE) (page2pa (?s + 1)) (PTE_U OR PTE_P) k4 = Some k5"
      "boot_map_region (kern_pgdir k5) UENVS (ROUNDUP (word_of_nat NENV * sizeof_Env) PGSIZE) (page2pa (?s + 1 + ?a)) (PTE_U OR PTE_P) k5 = Some k6"
      "boot_map_region (kern_pgdir k6) KERNBASE (push_bit 28 1) 0 (PTE_W OR PTE_P) k6 = Some k7" "mem_init_mp kstacks k7 = Some k8"
      "mapeado ?s ?T zs k4 (mapa_nucleo ?s ?a kstacks) xs k8"
    using regiones_mapeadas [OF b(2,4) m4 kp, of kstacks] pilas_ok_KERNBASE [OF ks] by blast
  have M: "mapeado ?s ?T (z # y # x # ys) k3 (mapa_nucleo ?s ?a kstacks) xs k8" using mapeado_trans [OF B(6) C(5)] .
  have s8: "solo_vm k0 k8" using solo_vm_trans [OF s3] M by (simp add: mapeado_def)
  have cm: "con_mapa fin (unat np) kstacks ?n xs k8"
    using M B(7,9) A(7) mapeado_presentes [OF C(5)] solo_vmD(1,4) [OF s8] A(2,3) by (auto simp: con_mapa_def mapeado_def)
  have ck: "check_kern_pgdir kstacks (page2pa (?s + 1)) (page2pa (?s + 1 + ?a)) k8" by (rule check_kern_pgdir_mapa [OF cm ok ks])
  note va = page2pa_pagina and C' = C(1-4) [unfolded page2pa_pagina]
  have "mem_init_mapas rtc fin kstacks k = Some (pagina_va (983040 + ?p), k8)"
    unfolding mem_init_mapas_def np [symmetric] Let_def A(1)
    by (simp only: Option.bind.bind_lunit prod.case B(1-3) C' afirmar_def ck [unfolded va] if_True)
  moreover have "set xs \<subseteq> set libres" using M B(5) by (auto simp: mapeado_def revuelto_def)
  moreover have "curenv k8 = None" "envs k8 = envs k0" using solo_vmD [OF s8] A(4) l(2) by simp_all
  moreover have "mem k8 p = mem k p" if p: "p < 65536" "1024 \<le> p" "p \<noteq> ?s" for p
  proof -
    obtain us where u: "z # y # x # ys = us @ xs" "\<forall>p. p \<noteq> ?s \<and> p \<notin> set us \<and> p \<notin> tablas_de k3 ?s \<longrightarrow> mem k8 p = mem k3 p"
      using M unfolding mapeado_def usa_def by blast
    have "length libres = length us + length xs"
      using u(1) B(4) separada_simps(2) [of 1 libres] by (metis length_append length_Cons)
    moreover have "?n \<le> length xs" by (rule nucleo_vm(2) [OF M [unfolded mapeado_def, THEN conjunct1]])
    ultimately have "length us \<le> 68" by linarith
    then have "set us \<subseteq> set (take 68 (z # y # x # ys))" unfolding u(1) by (simp add: subset_iff)
    also have "\<dots> \<subseteq> set (take 152 (x # y # z # ys))"
    proof -
      have "set (take 65 ys) \<subseteq> set (take 149 ys)" by (rule set_take_subset_set_take) simp
      moreover have "take 68 (z # y # x # ys) = z # y # x # take 65 ys" "take 152 (x # y # z # ys) = x # y # z # take 149 ys" by simp_all
      ultimately show ?thesis by auto
    qed
    finally have sub: "set us \<subseteq> set (take 152 (separada 1 libres))" unfolding B(4) .
    have n: "160 \<le> unat np" using b by linarith
    have "p \<notin> set us" using cabeza_baja [OF n b(2), of p ?p] sub p(2) unfolding libres_def by auto
    moreover have "tablas_de k3 ?s = {}" by (simp add: tablas_de_def B(8))
    ultimately have "mem k8 p = mem k3 p" using u(2) p(3) by blast
    then show ?thesis using B(10) A(10) p by simp
  qed
  ultimately show ?thesis using A(5) cm by (intro exI [of _ k8] exI [of _ xs]) simp
qed

text \<open>The self tests after the change of page directory.\<close>

lemma queda_una:
  assumes "A \<subseteq> set libres" "m < card A" "distinct libres" "set xs \<subseteq> set libres" "distinct xs" "length libres \<le> length xs + m"
  shows "\<exists>p\<in>set xs. p \<in> A"
proof (rule ccontr)
  assume "\<not> (\<exists>p\<in>set xs. p \<in> A)"
  then have d: "set xs \<inter> A = {}" by blast
  have "finite A" using assms(1) finite_subset by blast
  with d have "card (set xs \<union> A) = length xs + card A" using assms(5) by (simp add: card_Un_disjoint distinct_card)
  moreover have "card (set xs \<union> A) \<le> card (set libres)" using assms(1,4) by (intro card_mono) auto
  ultimately show False using assms(2,3,6) by (simp add: distinct_card)
qed

lemma con_mapa_cr3:
  assumes "con_mapa fin np kstacks n xs k"
  shows "con_mapa fin np kstacks n xs (k\<lparr>cr3 := d\<rparr>)"
proof -
  let ?k = "k\<lparr>cr3 := d\<rparr>"
  have e: "entrada ?k = entrada k" using pte_en_mem [of ?k k] by (simp add: entrada_def fun_eq_iff)
  have p: "presentes ?k = presentes k" "tabla ?k = tabla k" by (simp_all add: presentes_def tabla_def fun_eq_iff)
  have "pag.libres ?k xs = pag.libres k xs" by (rule pag.libres_cong) simp_all
  then have "nucleo_ok (ini fin) (tablas_nucleo n) xs ?k = nucleo_ok (ini fin) (tablas_nucleo n) xs k" by (simp add: nucleo_ok_def p)
  then show ?thesis using assms by (simp add: con_mapa_def e p)
qed

lemma con_mapa_revuelto:
  assumes "con_mapa fin np kstacks n xs k" "revuelto k xs k' xs'"
  shows "con_mapa fin np kstacks n xs' k'"
proof -
  note M = assms(1) [unfolded con_mapa_def]
  note R = nucleo_revuelto [OF conjunct1 [OF M] assms(2)]
  have "solo_vm k k'" using assms(2) by (simp add: revuelto_def)
  then show ?thesis using M R solo_vmD(1,4) [of k k'] by (simp add: con_mapa_def presentes_def)
qed

lemma pruebas_finales:
  assumes ok: "memoria_ok fin (unat np)" and m: "con_mapa fin (unat np) kstacks (length libres - 68) xs k" "curenv k = None" "cr3 k = ini fin"
    and l: "libres = libres_inicio (primera_libre fin (unat np)) (unat np)" "set xs \<subseteq> set libres"
  shows "\<exists>k1 k2 ys. check_page_free_list False np fin (pagina_va (983040 + primera_libre fin (unat np))) k = Some k1
    \<and> check_page_installed_pgdir k1 = Some k2 \<and> revuelto k xs k2 ys"
proof -
  note b = memoria_okD [OF ok] and M = m(1) [unfolded con_mapa_def]
  then have n: "nucleo_ok (ini fin) (tablas_nucleo (length libres - 68)) xs k" "npages k = unat np" by blast+
  note N = nucleo_okD [OF n(1)]
  let ?p = "primera_libre fin (unat np)"
  have us: "p \<in> set libres \<longleftrightarrow> p < unat np \<and> pagina_usable ?p p" for p by (auto simp: l(1) libres_inicio_def)
  have dl: "distinct libres" by (simp add: l(1) libres_inicio_def)
  have dx: "distinct xs" using N(2) by (simp add: pag.libres_def)
  have len: "length libres \<le> length xs + 68" using nucleo_vm(2) [OF n(1)] by linarith
  have "{8..<160} \<subseteq> set libres" unfolding subset_iff us pagina_usable_def using b by auto
  then have lo: "\<exists>p\<in>set xs. p \<in> {8..<160}" by (rule queda_una [OF _ _ dl l(2) dx len]) simp
  have "{unat np - 69..<unat np} \<subseteq> set libres" unfolding subset_iff us pagina_usable_def primera_libre_def using b by auto
  then have hi: "\<exists>p\<in>set xs. p \<in> {unat np - 69..<unat np}" by (rule queda_una [OF _ _ dl l(2) dx len]) (use b in simp)
  have ex: "\<exists>p\<in>set xs. p < 256" "\<exists>p\<in>set xs. 256 \<le> p"
  proof -
    have "p < 256" if "p \<in> {8..<160}" for p :: nat using that by simp
    with lo show "\<exists>p\<in>set xs. p < 256" by blast
    have "256 \<le> p" if "p \<in> {unat np - 69..<unat np}" for p using that b by auto
    with hi show "\<exists>p\<in>set xs. 256 \<le> p" by blast
  qed
  have p: "256 < ?p" "?p \<le> 65535" using b by (simp_all add: primera_libre_def)
  have ba: "boot_alloc np fin (pagina_va (983040 + ?p)) 0 = Some (pagina_va (983040 + ?p), pagina_va (983040 + ?p))"
    by (rule boot_alloc_sigue [of 0 0 0]) (use b in \<open>simp_all add: primera_libre_def\<close>)
  have us': "\<forall>p\<in>set xs. p < npages k \<and> pagina_usable ?p p \<and> pp_ref (pages k p) = 0" using N(5) us l(2) by blast
  obtain k1 where 1: "check_page_free_list False np fin (pagina_va (983040 + ?p)) k = Some k1" "revuelto k xs k1 xs"
    using check_page_free_list_forma [OF N(2) us' _ p ba ex, of False] b(2) n(2) by auto
  have v: "solo_vm k k1" using 1(2) by (simp add: revuelto_def)
  have "listo_prueba (ini fin) (tablas_nucleo (length libres - 68)) xs k1"
    using nucleo_revuelto(1) [OF n(1) 1(2)] solo_vmD(1,3,4) [OF v] m(2) M b(2) by (simp add: listo_prueba_def tablas_nucleo_def)
  moreover have "152 \<le> length libres" unfolding l(1) by (rule libres_bastan) (use b in linarith)
  then have "84 \<le> length xs" using len by linarith
  then obtain x y z zs where "xs = x # y # z # zs" by (auto simp: Suc_le_length_iff numeral_eq_Suc)
  ultimately obtain k2 ys where "check_page_installed_pgdir k1 = Some k2" "revuelto k1 xs k2 ys"
    using check_page_installed_forma [of "ini fin" _ x y z zs k1] solo_vmD(6) [OF v] m(3) by metis
  with 1 revuelto_trans show ?thesis by blast
qed

lemma mem_init_forma:
  assumes "memoria_ok fin np" "np = unat (fst (i386_detect_memory rtc))" "page_free_list k = None" "curenv k = None"
    and "pilas_ok kstacks"
  shows "\<exists>k' xs. mem_init rtc fin kstacks k = Some k' \<and> npages k' = np \<and> kern_pgdir k' = ini fin \<and> cr3 k' = ini fin
    \<and> (\<forall>q. pagina_nucleo q \<longrightarrow> entrada k' (ini fin) q = mapa_nucleo (ini fin) (pags_n np) kstacks q)
    \<and> mem k' (ini fin) (unat (PDX UVPT)) = page2pa (ini fin) OR PTE_U OR PTE_P
    \<and> vm_ok {ini fin} (\<lambda>_. 0) xs k' \<and> set xs \<subseteq> set (libres_inicio (primera_libre fin np) np)
    \<and> length (libres_inicio (primera_libre fin np) np) \<le> length xs + 68
    \<and> (\<forall>i<NPDU. mem k' (ini fin) i = 0) \<and> (\<forall>i<NENV. envs k' i = env_cero_todo) \<and> curenv k' = None"
proof -
  let ?l = "libres_inicio (primera_libre fin np) np" and ?s = "ini fin"
  note ok = assms(1) [unfolded assms(2)]
  obtain k1 xs where 1: "mem_init_mapas rtc fin kstacks k = Some (pagina_va (983040 + primera_libre fin np), k1)"
      "con_mapa fin np kstacks (length ?l - 68) xs k1" "curenv k1 = None"
      "\<forall>i. envs k1 i = (if i < NENV then env_cero_todo else envs k i)" "set xs \<subseteq> set ?l"
    using mem_init_mapas_forma [OF ok refl assms(3-5)] unfolding assms(2) [symmetric] by blast
  let ?k = "k1\<lparr>cr3 := kern_pgdir k1\<rparr>"
  have kp: "kern_pgdir k1 = ?s" using 1(2) by (simp add: con_mapa_def)
  have m: "con_mapa fin np kstacks (length ?l - 68) xs ?k" using con_mapa_cr3 [OF 1(2)] .
  obtain k2 k3 ys where 2: "check_page_free_list False (fst (i386_detect_memory rtc)) fin (pagina_va (983040 + primera_libre fin np)) ?k = Some k2"
      "check_page_installed_pgdir k2 = Some k3" "revuelto ?k xs k3 ys"
    using pruebas_finales [OF ok m [unfolded assms(2)] _ _ refl 1(5) [unfolded assms(2)]] 1(3) kp unfolding assms(2) [symmetric] by auto
  have v: "solo_vm ?k k3" "set ys = set xs" using 2(3) by (simp_all add: revuelto_def)
  have m3: "con_mapa fin np kstacks (length ?l - 68) ys k3" using con_mapa_revuelto [OF m 2(3)] .
  then have n: "nucleo_ok ?s (tablas_nucleo (length ?l - 68)) ys k3" by (simp add: con_mapa_def)
  have "mem_init rtc fin kstacks k = Some k3" using 2(1,2) by (simp add: mem_init_def 1(1))
  moreover have "mem k3 ?s i = 0" if i: "i < NPDU" for i
  proof (rule ccontr)
    assume "mem k3 ?s i \<noteq> 0"
    then have "i \<in> tablas_nucleo (length ?l - 68)" using nucleo_okD(11) [OF n] i by (auto simp: presentes_def NPDU_def)
    with i show False by (auto simp: tablas_nucleo_def NPDU_def)
  qed
  moreover have "length ?l \<le> length ys + 68" using nucleo_vm(2) [OF n] by linarith
  ultimately show ?thesis
    using m3 solo_vmD(2,3,6) [OF v(1)] v(2) 1(3-5) kp nucleo_vm(1) [OF n]
    by (intro exI [of _ k3] exI [of _ ys]) (simp add: con_mapa_def PDX_UVPT)
qed

text \<open>
  C9: \<open>mem_init\<close> on a machine with room for the kernel's arrays and at most 256 MB does not
  panic: every one of its self tests passes, before and after the change of page directory.
  The address space is, on every page, what they look for: \<open>pages\<close> and \<open>envs\<close> read-only for
  the user at \<open>UPAGES\<close> and \<open>UENVS\<close>, the stack of each CPU with nothing mapped below it, all
  of memory at \<open>KERNBASE\<close>, the directory itself at \<open>UVPT\<close>, and nothing else; the tests leave
  no entry behind. The free pages hold none of this nor the kernel, at most 68 of them
  became tables, and the invariant of the address spaces holds.
\<close>

theorem mem_init_correcto:
  assumes "memoria_ok fin np" "np = unat (fst (i386_detect_memory rtc))" "page_free_list k = None" "curenv k = None"
    and "pilas_ok kstacks"
  shows "\<exists>k' xs. mem_init rtc fin kstacks k = Some k' \<and> npages k' = np \<and> kern_pgdir k' = ini fin \<and> cr3 k' = ini fin
    \<and> (\<forall>q. pagina_nucleo q \<longrightarrow> entrada k' (ini fin) q = mapa_nucleo (ini fin) (pags_n np) kstacks q)
    \<and> mem k' (ini fin) (unat (PDX UVPT)) = page2pa (ini fin) OR PTE_U OR PTE_P
    \<and> vm_ok {ini fin} (\<lambda>_. 0) xs k' \<and> set xs \<subseteq> set (libres_inicio (primera_libre fin np) np)
    \<and> length (libres_inicio (primera_libre fin np) np) \<le> length xs + 68
    \<and> (\<forall>i<NPDU. mem k' (ini fin) i = 0) \<and> (\<forall>i<NENV. envs k' i = env_cero_todo) \<and> curenv k' = None"
  using mem_init_forma [OF assms] .

text \<open>A machine of 128 MB.\<close>

definition rtc_ej :: "uint32 \<Rightarrow> 8 word" where "rtc_ej r = (if r = 0x35 then 7 else 0)"

lemma memoria_ej: "fst (i386_detect_memory rtc_ej) = 32768" "ini 0xF0200000 = 512" "pags_n 32768 = 64"
  "memoria_ok 0xF0200000 32768"
proof -
  show "fst (i386_detect_memory rtc_ej) = 32768"
    by (simp add: i386_detect_memory_def rtc_ej_def nvram_read_def mc146818_read_def NVRAM_BASELO_def NVRAM_EXTLO_def
      NVRAM_EXT16LO_def MC_NVRAM_START_def PGSIZE_def Let_def)
  show "ini 0xF0200000 = 512" "pags_n 32768 = 64" by (simp_all add: ini_def pags_n_def)
  then show "memoria_ok 0xF0200000 32768" by (simp add: memoria_ok_def primera_libre_def)
qed

lemma pilas_ej: "pilas_ok (\<lambda>_. 0xF0100000)"
  unfolding pilas_ok_def by (auto intro!: exI [of _ "256 :: nat"] simp: pagina_va_def)

lemma mem_init_correcto_witness:
  "\<exists>k' xs. mem_init rtc_ej 0xF0200000 (\<lambda>_. 0xF0100000) k_base = Some k' \<and> vm_ok {512} (\<lambda>_. 0) xs k'
     \<and> entrada k' 512 983041 = 0x1003 \<and> entrada k' 512 982919 = 0 \<and> entrada k' 512 978945 = 0x202005"
proof -
  have "page_free_list k_base = None" "curenv k_base = None" "32768 = unat (fst (i386_detect_memory rtc_ej))"
    by (simp_all add: k_base_def memoria_ej)
  from mem_init_correcto [OF memoria_ej(4) this(3,1,2) pilas_ej]
  obtain k' xs where "mem_init rtc_ej 0xF0200000 (\<lambda>_. 0xF0100000) k_base = Some k'" "vm_ok {512} (\<lambda>_. 0) xs k'"
    "\<forall>q. pagina_nucleo q \<longrightarrow> entrada k' 512 q = mapa_nucleo 512 64 (\<lambda>_. 0xF0100000) q"
    unfolding memoria_ej by blast
  moreover have "mapa_nucleo 512 64 (\<lambda>_. 0xF0100000) 983041 = 0x1003" "mapa_nucleo 512 64 (\<lambda>_. 0xF0100000) 982919 = 0"
    "mapa_nucleo 512 64 (\<lambda>_. 0xF0100000) 978945 = 0x202005"
    by (simp_all add: mapa_nucleo_def page2pa_def pte_flags push_bit_eq_mult)
  moreover have "pagina_nucleo 983041" "pagina_nucleo 982919" "pagina_nucleo 978945" by (simp_all add: pagina_nucleo_def)
  ultimately show ?thesis by auto
qed

end
