(* ===== verification/Init_Claims.thy ===== *)
theory Init_Claims
  imports Init Elf_Claims Boot_Claims
begin

text \<open>The whole start of the kernel, from the clock chip to the first program.\<close>

unbundle bit_operations_syntax

section \<open>After mem_init\<close>

lemma mapa_bajo: "q < NPAG \<Longrightarrow> mapa_nucleo s a kstacks q = 0"
  by (simp add: mapa_nucleo_def NPAG_def)

lemma memorias_inicio:
  assumes "vm_ok {s} (\<lambda>_. 0) xs k" "mem k s (unat (PDX UVPT)) = page2pa s OR PTE_U OR PTE_P"
    and "\<forall>i<NPDU. mem k s i = 0"
  shows "memorias_ok {s} (\<lambda>_. 0) xs k"
proof -
  have e: "entrada k s q = 0" if "q < NPAG" for q
    using assms(3) NPAG_indices(1) [OF that] by (simp add: entrada_def pte_en_def)
  have "page2pa s OR PTE_U OR PTE_P = page2pa s OR PTE_P OR PTE_U" by (simp only: or.assoc or.commute [of PTE_U])
  then have "espacio_ok {s} k" using assms(2,3) by (simp add: espacio_ok_def)
  moreover have "abiertas {s} k" "privadas {s} k" using e by (auto simp: abiertas_def privadas_def)
  ultimately show ?thesis using assms(1) by (simp add: memorias_ok_def)
qed

section \<open>The first environment to run\<close>

lemma yield_arranca:
  assumes "plan \<noteq> SIN_PLANIFICADOR" "curenv k = None" "listo k e0" "prio k e0 \<le> PRIORIDAD_MAX"
    and pd: "\<And>e. listo k e \<Longrightarrow> env_pgdir (envs k e) \<noteq> None"
  shows "\<exists>e k'. sched_yield plan k = Some (Usuario e, k') \<and> listo k e"
proof (cases plan)
  case SCHED_ROUND_ROBIN
  let ?k1 = "anotar_fin (k\<lparr>sched_calls := sched_calls k + 1, sched_time := sched_time k + 1\<rparr>)"
  obtain e where e: "siguiente_rr k 0 = Some e" using assms(3) siguiente_rr_None [of k 0] by (cases "siguiente_rr k 0") auto
  then have l: "listo k e" by (simp add: siguiente_rr_Some)
  then have "env_pgdir (envs (?k1\<lparr>last_env := Some e\<rparr>) e) \<noteq> None" using pd by simp
  then obtain k' where "env_run e (?k1\<lparr>last_env := Some e\<rparr>) = Some (Usuario e, k')" using env_run_ex by blast
  then have "sched_yield plan k = Some (Usuario e, k')"
    using e unfolding SCHED_ROUND_ROBIN rr_sin_actual [OF assms(2)] by simp
  with l show ?thesis by blast
next
  case SCHED_PRIORITIES
  let ?kz = "k\<lparr>sched_calls := sched_calls k + 1, sched_time := sched_time k + 1\<rparr>"
  let ?k1 = "anotar_fin (?kz\<lparr>sched_time := sched_time ?kz + 1\<rparr>)"
  obtain e where e: "elegir k 0 = Some e" using assms(3,4) elegir_mejor(2) [of k 0] by (cases "elegir k 0") force+
  let ?k2 = "(actualizar_stats_proceso e (subir_prioridad e ?k1))\<lparr>last_env := Some e\<rparr>"
  have l: "listo k e" using elegir_mejor(1) [OF e] by (simp add: mejor_def)
  then have "env_pgdir (envs ?k2 e) \<noteq> None" using pd by simp
  then obtain k' where "env_run e ?k2 = Some (Usuario e, k')" using env_run_ex by blast
  then have "sched_yield plan k = Some (Usuario e, k')"
    using e prioridades_forma [of k] unfolding SCHED_PRIORITIES by (simp add: assms(2))
  with l show ?thesis by blast
qed (use assms(1) in simp)

lemma programa_en_cong:
  assumes "\<forall>a<4096 * NPAG. byte_en k' p a = byte_en k p a" "imagen_ok b"
  shows "programa_en k' p b = programa_en k p b"
proof -
  have "entrada k' p q = 0 \<longleftrightarrow> entrada k p q = 0" if "q < NPAG" for q
    using assms(1) [rule_format, of "4096 * q"] that by (simp add: byte_en_def split: if_splits)
  moreover have "byte_en k' p (unat (p_va ph) + i) = byte_en k p (unat (p_va ph) + i)"
    if "ph \<in> set (proghdrs b)" "cargable ph" "i < unat (p_memsz ph)" for ph i
  proof -
    have "unat (p_va ph) + unat (p_memsz ph) \<le> 4096 * NPAG" using assms(2) that by (auto simp: imagen_ok_def seg_ok_def)
    then show ?thesis using assms(1) that by simp
  qed
  ultimately show ?thesis unfolding programa_en_def by (intro arg_cong2 [of _ _ _ _ conj] ball_cong) auto
qed

section \<open>Two programs\<close>

lemma dos_programas:
  assumes ok: "memorias_ok {s} (\<lambda>_. 0) xs k" and s: "kern_pgdir k = s" "\<forall>i<NPDU. mem k s i = 0"
    and f: "env_free_list k = Some 0" "env_link (envs k 0) = Some 1"
    and b: "imagen_ok b1" "imagen_ok b2"
    and n: "2 + 2 * (cuantas (proghdrs b1) + 1) + 2 * (cuantas (proghdrs b2) + 1) \<le> length xs"
  shows "\<exists>k1 k2 p1 p2 ys. env_create b1 0 k = Some k1 \<and> env_create b2 0 k1 = Some k2
    \<and> memorias_ok {s, p1, p2} (\<lambda>_. 0) ys k2 \<and> p1 \<noteq> s \<and> p2 \<noteq> s \<and> p1 \<noteq> p2
    \<and> envs k2 = (envs k)
        (0 := (env_inicial (envs k 0) 0 p1)\<lparr>env_tf := tf_inicial\<lparr>tf_eip := e_entry (leer_elf b1)\<rparr>, env_type := 0\<rparr>,
         1 := (env_inicial (envs k 1) 1 p2)\<lparr>env_tf := tf_inicial\<lparr>tf_eip := e_entry (leer_elf b2)\<rparr>, env_type := 0\<rparr>)
    \<and> curenv k2 = curenv k \<and> programa_en k2 p1 b1 \<and> programa_en k2 p2 b2"
proof -
  obtain p ys where x: "xs = p # ys" "2 * (cuantas (proghdrs b1) + 1) \<le> length ys" using n by (cases xs) auto
  note E = estructuraD(6) [OF vm_okD(1) [OF memorias_okD(1)]]
  have "p \<noteq> kern_pgdir k" using E [OF ok, of s] s(1) x(1) by auto
  from env_create_forma [OF ok [unfolded x(1)] f(1) this s(2) [folded s(1)] b(1) x(2), of 0]
  obtain k1 xs1 where k1: "env_create b1 0 k = Some k1" "memorias_ok {p, s} (\<lambda>_. 0) xs1 k1" "p \<noteq> s"
      "length ys \<le> length xs1 + 2 * (cuantas (proghdrs b1) + 1)"
      "envs k1 = (envs k)(0 := (env_inicial (envs k 0) 0 p)
        \<lparr>env_tf := tf_inicial\<lparr>tf_eip := e_entry (leer_elf b1)\<rparr>, env_type := 0\<rparr>)"
      "env_free_list k1 = Some 1" "curenv k1 = curenv k" "kern_pgdir k1 = s" "programa_en k1 p b1" "mem k1 s = mem k s"
    using f(2) s(1) by auto
  obtain q zs where z: "xs1 = q # zs" "2 * (cuantas (proghdrs b2) + 1) \<le> length zs" using n x(1) k1(4) by (cases xs1) auto
  have "q \<noteq> kern_pgdir k1" using E [OF k1(2), of s] k1(8) z(1) by auto
  moreover have "\<forall>i<NPDU. mem k1 (kern_pgdir k1) i = 0" using s(2) k1(8,10) by simp
  ultimately obtain k2 xs2 where k2: "env_create b2 0 k1 = Some k2" "memorias_ok {q, p, s} (\<lambda>_. 0) xs2 k2" "q \<notin> {p, s}"
      "envs k2 = (envs k1)(1 := (env_inicial (envs k1 1) 1 q)
        \<lparr>env_tf := tf_inicial\<lparr>tf_eip := e_entry (leer_elf b2)\<rparr>, env_type := 0\<rparr>)"
      "curenv k2 = curenv k1" "programa_en k2 q b2" "\<forall>a<4096 * NPAG. byte_en k2 p a = byte_en k1 p a"
    using env_create_forma [OF k1(2) [unfolded z(1)] k1(6) _ _ b(2) z(2), of 0] by blast
  have "programa_en k2 p b1" using programa_en_cong [OF k2(7) b(1)] k1(9) by simp
  moreover have "{q, p, s} = {s, p, q}" by blast
  ultimately show ?thesis using k1(1,3,5,7) k2(1-6)
    by (intro exI [of _ k1] exI [of _ k2] exI [of _ p] exI [of _ q] exI [of _ xs2]) simp
qed

section \<open>One program\<close>

text \<open>
  C14: \<open>env_create\<close> with an image that can be loaded, a free environment and enough pages does
  not panic: the free environment becomes runnable with a fresh identifier and address
  space, at the entry point with its stack; its memory holds each segment, the bytes of the
  file followed by zeros, and maps nothing but the pages of the segments and of the stack;
  no byte of another program and no other environment changes, and the kernel is back on
  its own page directory.
\<close>

theorem env_create_correcto:
  assumes "memorias_ok D extra (p # ys) k" "env_free_list k = Some e"
    and "p \<noteq> kern_pgdir k" "\<forall>i<NPDU. mem k (kern_pgdir k) i = 0"
    and "imagen_ok b" "2 * (cuantas (proghdrs b) + 1) \<le> length ys"
  shows "\<exists>k' xs'. env_create b tipo k = Some k' \<and> memorias_ok (insert p D) extra xs' k' \<and> p \<notin> D
    \<and> length ys \<le> length xs' + 2 * (cuantas (proghdrs b) + 1)
    \<and> envs k' = (envs k)(e := (env_inicial (envs k e) e p)
        \<lparr>env_tf := tf_inicial\<lparr>tf_eip := e_entry (leer_elf b)\<rparr>, env_type := tipo\<rparr>)
    \<and> env_free_list k' = env_link (envs k e) \<and> curenv k' = curenv k
    \<and> kern_pgdir k' = kern_pgdir k \<and> cr3 k' = kern_pgdir k \<and> npages k' = npages k
    \<and> programa_en k' p b
    \<and> (\<forall>d\<in>D. mem k' d = mem k d) \<and> (\<forall>d\<in>D. \<forall>a<4096 * NPAG. byte_en k' d a = byte_en k d a)"
  using env_create_forma [OF assms] .

section \<open>i386_init\<close>

text \<open>The two programs are in place, in environments 0 and 1 and apart from each other.\<close>

definition arrancado :: "nat \<Rightarrow> imagen \<Rightarrow> imagen \<Rightarrow> nat list \<Rightarrow> nat \<Rightarrow> nat \<Rightarrow> kernel \<Rightarrow> bool" where
  "arrancado s b1 b2 xs p1 p2 k \<longleftrightarrow> memorias_ok {s, p1, p2} (\<lambda>_. 0) xs k \<and> p1 \<noteq> s \<and> p2 \<noteq> s \<and> p1 \<noteq> p2
     \<and> env_pgdir (envs k 0) = Some p1 \<and> env_pgdir (envs k 1) = Some p2
     \<and> programa_en k p1 b1 \<and> programa_en k p2 b2
     \<and> env_tf (envs k 0) = tf_inicial\<lparr>tf_eip := e_entry (leer_elf b1)\<rparr>
     \<and> env_tf (envs k 1) = tf_inicial\<lparr>tf_eip := e_entry (leer_elf b2)\<rparr>"

lemma arrancado_planifica:
  assumes "arrancado s b1 b2 xs p1 p2 k" "solo_planifica k k'"
  shows "arrancado s b1 b2 xs p1 p2 k'"
proof -
  have m: "npages k' = npages k" "pages k' = pages k" "page_free_list k' = page_free_list k" "mem k' = mem k"
    using assms(2) by (simp_all add: solo_planifica_def)
  have "byte_en k' = byte_en k" unfolding byte_en_def fun_eq_iff memoria_cong(1) [OF m] leer_byte_mem [OF m(4)] by simp
  then have "programa_en k' = programa_en k" unfolding programa_en_def fun_eq_iff memoria_cong(1) [OF m] by simp
  then show ?thesis using assms memoria_cong(4) [OF m] by (simp add: arrancado_def solo_planifica_def)
qed

text \<open>After \<open>mem_init\<close> and \<open>env_init\<close>.\<close>

lemma iniciado:
  assumes "memoria_ok fin np" "np = unat (fst (i386_detect_memory rtc))" "page_free_list k = None" "curenv k = None"
    and "pilas_ok kstacks"
  shows "\<exists>k0 xs. mem_init rtc fin kstacks k = Some k0 \<and> memorias_ok {ini fin} (\<lambda>_. 0) xs (env_init k0)
    \<and> kern_pgdir (env_init k0) = ini fin \<and> (\<forall>i<NPDU. mem (env_init k0) (ini fin) i = 0)
    \<and> env_free_list (env_init k0) = Some 0 \<and> env_link (envs (env_init k0) 0) = Some 1 \<and> curenv (env_init k0) = None
    \<and> (\<forall>i<NENV. env_status (envs (env_init k0) i) = ENV_FREE)
    \<and> length (libres_inicio (primera_libre fin np) np) \<le> length xs + 68"
proof -
  obtain k0 xs where m: "mem_init rtc fin kstacks k = Some k0" "kern_pgdir k0 = ini fin"
      "mem k0 (ini fin) (unat (PDX UVPT)) = page2pa (ini fin) OR PTE_U OR PTE_P" "vm_ok {ini fin} (\<lambda>_. 0) xs k0"
      "length (libres_inicio (primera_libre fin np) np) \<le> length xs + 68" "\<forall>i<NPDU. mem k0 (ini fin) i = 0" "curenv k0 = None"
    using mem_init_forma [OF assms] by blast
  let ?k = "env_init k0"
  have mk: "npages ?k = npages k0" "pages ?k = pages k0" "page_free_list ?k = page_free_list k0" "mem ?k = mem k0"
    by (simp_all add: env_init_def)
  have "memorias_ok {ini fin} (\<lambda>_. 0) xs ?k" using memorias_inicio [OF m(4,3,6)] memoria_cong(4) [OF mk] by simp
  moreover have "kern_pgdir ?k = ini fin" "\<forall>i<NPDU. mem ?k (ini fin) i = 0" "env_free_list ?k = Some 0"
    "env_link (envs ?k 0) = Some 1" "curenv ?k = None" "\<forall>i<NENV. env_status (envs ?k i) = ENV_FREE"
    using m(2,6,7) by (simp_all add: env_init_def NENV_def)
  ultimately show ?thesis using m(1,5) by blast
qed

lemma antes_de_planificar:
  assumes "memoria_ok fin np" "np = unat (fst (i386_detect_memory rtc))" "page_free_list k = None" "curenv k = None"
    and "pilas_ok kstacks" and b: "imagen_ok b1" "imagen_ok b2"
    and n: "70 + 2 * (cuantas (proghdrs b1) + 1) + 2 * (cuantas (proghdrs b2) + 1)
      \<le> length (libres_inicio (primera_libre fin np) np)"
  shows "\<exists>k1 xs p1 p2. i386_init plan rtc fin kstacks b1 b2 k = sched_yield plan k1
    \<and> arrancado (ini fin) b1 b2 xs p1 p2 k1 \<and> curenv k1 = None
    \<and> (\<forall>e<NENV. env_status (envs k1 e) = (if e < 2 then ENV_RUNNABLE else ENV_FREE)) \<and> (\<forall>e<2. prio k1 e = 0)"
proof -
  obtain k0 xs where m: "mem_init rtc fin kstacks k = Some k0" "curenv (env_init k0) = None"
      "\<forall>i<NENV. env_status (envs (env_init k0) i) = ENV_FREE"
      "length (libres_inicio (primera_libre fin np) np) \<le> length xs + 68"
    and ok: "memorias_ok {ini fin} (\<lambda>_. 0) xs (env_init k0)"
    and f: "kern_pgdir (env_init k0) = ini fin" "\<forall>i<NPDU. mem (env_init k0) (ini fin) i = 0"
      "env_free_list (env_init k0) = Some 0" "env_link (envs (env_init k0) 0) = Some 1"
    using iniciado [OF assms(1-5)] by blast
  let ?k = "env_init k0"
  have "2 + 2 * (cuantas (proghdrs b1) + 1) + 2 * (cuantas (proghdrs b2) + 1) \<le> length xs" using n m(4) by linarith
  from dos_programas [OF ok f b this]
  obtain k1 k2 p1 p2 ys where k2: "env_create b1 0 ?k = Some k1" "env_create b2 0 k1 = Some k2"
      "memorias_ok {ini fin, p1, p2} (\<lambda>_. 0) ys k2" "p1 \<noteq> ini fin" "p2 \<noteq> ini fin" "p1 \<noteq> p2"
      "envs k2 = (envs ?k)
        (0 := (env_inicial (envs ?k 0) 0 p1)\<lparr>env_tf := tf_inicial\<lparr>tf_eip := e_entry (leer_elf b1)\<rparr>, env_type := 0\<rparr>,
         1 := (env_inicial (envs ?k 1) 1 p2)\<lparr>env_tf := tf_inicial\<lparr>tf_eip := e_entry (leer_elf b2)\<rparr>, env_type := 0\<rparr>)"
      "curenv k2 = curenv ?k" "programa_en k2 p1 b1" "programa_en k2 p2 b2" by (elim exE conjE) (rule that)
  have "i386_init plan rtc fin kstacks b1 b2 k = sched_yield plan k2"
    using m(1) k2(1,2) by (simp add: i386_init_def Let_def)
  moreover have "arrancado (ini fin) b1 b2 ys p1 p2 k2"
    using k2(3-6,9,10) by (simp add: arrancado_def k2(7) env_inicial_def)
  moreover have "curenv k2 = None" using k2(8) m(2) by simp
  moreover have "\<forall>e<NENV. env_status (envs k2 e) = (if e < 2 then ENV_RUNNABLE else ENV_FREE)"
  proof (intro allI impI)
    fix e assume "e < NENV"
    then have "env_status (envs ?k e) = ENV_FREE" using m(3) by simp
    then show "env_status (envs k2 e) = (if e < 2 then ENV_RUNNABLE else ENV_FREE)" by (auto simp: k2(7) env_inicial_def)
  qed
  moreover have "\<forall>e<2. prio k2 e = 0" by (auto simp: k2(7) env_inicial_def less_2_cases_iff)
  ultimately show ?thesis by blast
qed

text \<open>
  C13: From the clock chip to the first program: with memory for both programs and a policy,
  \<open>i386_init\<close> does not panic and leaves the processor to environment 0 or 1, which is
  running, current, at the entry point of its image and on its own page directory. Each of
  the two address spaces holds its own program and nothing else, and the invariant of the
  address spaces holds of the kernel and both of them.
\<close>

theorem arranque:
  assumes "memoria_ok fin np" "np = unat (fst (i386_detect_memory rtc))" "page_free_list k = None" "curenv k = None"
    and "pilas_ok kstacks" and "imagen_ok b1" "imagen_ok b2"
    and "70 + 2 * (cuantas (proghdrs b1) + 1) + 2 * (cuantas (proghdrs b2) + 1)
      \<le> length (libres_inicio (primera_libre fin np) np)"
    and plan: "plan \<noteq> SIN_PLANIFICADOR"
  shows "\<exists>e k' xs p1 p2. i386_init plan rtc fin kstacks b1 b2 k = Some (Usuario e, k') \<and> e < 2
    \<and> arrancado (ini fin) b1 b2 xs p1 p2 k' \<and> curenv k' = Some e \<and> env_status (envs k' e) = ENV_RUNNING
    \<and> env_pgdir (envs k' e) = Some (cr3 k')
    \<and> (\<forall>i<NENV. i \<noteq> e \<longrightarrow> env_status (envs k' i) = (if i < 2 then ENV_RUNNABLE else ENV_FREE))"
proof -
  obtain k1 xs p1 p2 where k1: "i386_init plan rtc fin kstacks b1 b2 k = sched_yield plan k1"
      "arrancado (ini fin) b1 b2 xs p1 p2 k1" "curenv k1 = None" "\<forall>e<2. prio k1 e = 0"
      and st: "\<forall>e<NENV. env_status (envs k1 e) = (if e < 2 then ENV_RUNNABLE else ENV_FREE)"
    using antes_de_planificar [where plan = plan, OF assms(1-8)] by blast
  have l: "listo k1 e \<longleftrightarrow> e < 2" for e using st by (auto simp: NENV_def split: if_splits)
  have "listo k1 0" by (simp add: l)
  moreover have "prio k1 0 \<le> PRIORIDAD_MAX" using k1(4) by (simp add: PRIORIDAD_MAX_def)
  moreover have "env_pgdir (envs k1 e) \<noteq> None" if "listo k1 e" for e
    using k1(2) that [unfolded l] by (auto simp: arrancado_def less_2_cases_iff)
  ultimately obtain e k' where y: "sched_yield plan k1 = Some (Usuario e, k')" "listo k1 e"
    using yield_arranca [OF plan k1(3)] by blast
  have "arrancado (ini fin) b1 b2 xs p1 p2 k'" using arrancado_planifica [OF k1(2) planifica_yield [OF y(1)]] .
  moreover have "e < 2" using y(2) by (simp only: l)
  moreover obtain k2 where k2: "env_run e k2 = Some (Usuario e, k')" "curenv k2 = curenv k1"
      "\<forall>i. env_status (envs k2 i) = env_status (envs k1 i)"
    using sched_yield_corre [OF y(1) plan] k1(3) by auto
  moreover note R = env_run_Some(2-5) [OF k2(1)]
  moreover have "\<forall>i<NENV. i \<noteq> e \<longrightarrow> env_status (envs k' i) = (if i < 2 then ENV_RUNNABLE else ENV_FREE)"
    using R(4) st k2(2,3) k1(3) by simp
  ultimately show ?thesis using k1(1) y(1) by metis
qed

section \<open>An example\<close>

text \<open>A program of two bytes loaded at 0x800020 with three more of zeros.\<close>

definition imagen_ej :: imagen where
  "imagen_ej = (\<lambda>_. 0)(0 := 0x7F, 1 := 0x45, 2 := 0x4C, 3 := 0x46, 24 := 0x20, 26 := 0x80, 28 := 52, 44 := 1,
     52 := 1, 56 := 84, 60 := 0x20, 62 := 0x80, 68 := 2, 72 := 5, 84 := 0xAB, 85 := 0xCD)"

definition segmento_ej :: proghdr where
  "segmento_ej = \<lparr>p_type = 1, p_offset = 84, p_va = 0x800020, p_pa = 0, p_filesz = 2, p_memsz = 5, p_flags = 0, p_align = 0\<rparr>"

lemma imagen_ej_partes:
  "e_magic (leer_elf imagen_ej) = ELF_MAGIC" "e_entry (leer_elf imagen_ej) = 0x800020"
  "proghdrs imagen_ej = [segmento_ej]"
  by (simp_all add: leer_elf_def leer_proghdr_def proghdrs_def img32_def img16_def imagen_ej_def segmento_ej_def ELF_MAGIC_def)

lemma segmento_ej_campos:
  "p_va segmento_ej = 0x800020" "p_offset segmento_ej = 84" "p_filesz segmento_ej = 2" "p_memsz segmento_ej = 5"
  by (simp_all add: segmento_ej_def)

lemma segmento_ej_paginas: "cargable segmento_ej" "seg_ok segmento_ej" "paginas_seg segmento_ej = {2048}"
  by (auto simp: cargable_def seg_ok_def paginas_seg_def paginas_de_def segmento_ej_def ELF_PROG_LOAD_def NPAG_def)

lemma imagen_ej_ok: "imagen_ok imagen_ej" "cuantas (proghdrs imagen_ej) = 1"
  by (simp_all add: imagen_ok_def imagen_ej_partes segmento_ej_paginas paginas_segs_def cuantas_def pila_inicial_def)

lemma iniciado_ej:
  "\<exists>k xs. memorias_ok {512} (\<lambda>_. 0) xs k \<and> kern_pgdir k = 512 \<and> (\<forall>i<NPDU. mem k 512 i = 0)
     \<and> env_free_list k = Some 0 \<and> 84 \<le> length xs"
proof -
  have "page_free_list k_base = None" "curenv k_base = None" "32768 = unat (fst (i386_detect_memory rtc_ej))"
    by (simp_all add: k_base_def memoria_ej)
  from iniciado [OF memoria_ej(4) this(3,1,2) pilas_ej]
  obtain k xs where "memorias_ok {512} (\<lambda>_. 0) xs k" "kern_pgdir k = 512" "\<forall>i<NPDU. mem k 512 i = 0"
      "env_free_list k = Some 0" "length (libres_inicio (primera_libre 0xF0200000 32768) 32768) \<le> length xs + 68"
    unfolding memoria_ej by blast
  moreover have "152 \<le> length (libres_inicio (primera_libre 0xF0200000 32768) 32768)" by (rule libres_bastan) simp
  then have "84 \<le> length xs" using calculation(5) by linarith
  ultimately show ?thesis by blast
qed

lemma env_create_correcto_witness:
  "\<exists>k k' p. env_create imagen_ej 0 k = Some k' \<and> env_pgdir (envs k' 0) = Some p \<and> p \<noteq> 512
     \<and> byte_en k' p 0x800021 = Some 0xCD \<and> byte_en k' p 0x800024 = Some 0 \<and> entrada k' p 2049 = 0"
proof -
  obtain k xs where k: "memorias_ok {512} (\<lambda>_. 0) xs k" "kern_pgdir k = 512" "\<forall>i<NPDU. mem k 512 i = 0"
      "env_free_list k = Some 0" "84 \<le> length xs" using iniciado_ej by blast
  obtain p ys where x: "xs = p # ys" using k(5) by (cases xs) auto
  have "p \<noteq> kern_pgdir k" using estructuraD(6) [OF vm_okD(1) [OF memorias_okD(1) [OF k(1)]], of 512] k(2) x by auto
  moreover have "2 * (cuantas (proghdrs imagen_ej) + 1) \<le> length ys" using k(5) x by (simp add: imagen_ej_ok)
  ultimately obtain k' where k': "env_create imagen_ej 0 k = Some k'" "p \<notin> {512}" "programa_en k' p imagen_ej"
      "envs k' = (envs k)(0 := (env_inicial (envs k 0) 0 p)
        \<lparr>env_tf := tf_inicial\<lparr>tf_eip := e_entry (leer_elf imagen_ej)\<rparr>, env_type := 0\<rparr>)"
    using env_create_correcto [OF k(1) [unfolded x] k(4) _ _ imagen_ej_ok(1), of 0] k(2,3) by auto
  note P = k'(3) [unfolded programa_en_def imagen_ej_partes]
  have B: "byte_en k' p (0x800020 + i) = Some (if i < 2 then ucast (imagen_ej (84 + i)) else 0)" if "i < 5" for i
    using bspec [OF conjunct1 [OF P], of segmento_ej] segmento_ej_paginas(1) that by (simp add: segmento_ej_campos)
  have "entrada k' p 2049 = 0" using conjunct2 [OF P, rule_format, of 2049] by (simp add: paginas_segs_def segmento_ej_paginas pila_inicial_def NPAG_def)
  moreover have "byte_en k' p 0x800021 = Some 0xCD" "byte_en k' p 0x800024 = Some 0"
    using B [of 1] B [of 4] by (simp_all add: imagen_ej_def)
  moreover have "env_pgdir (envs k' 0) = Some p" by (simp add: k'(4) env_inicial_def)
  ultimately show ?thesis using k'(1,2) by blast
qed

lemma arranque_witness:
  "\<exists>e k' xs p1 p2. i386_init SCHED_PRIORITIES rtc_ej 0xF0200000 (\<lambda>_. 0xF0100000) imagen_ej imagen_ej k_base = Some (Usuario e, k')
     \<and> arrancado 512 imagen_ej imagen_ej xs p1 p2 k' \<and> curenv k' = Some e \<and> tf_eip (env_tf (envs k' e)) = 0x800020"
proof -
  have "page_free_list k_base = None" "curenv k_base = None" "32768 = unat (fst (i386_detect_memory rtc_ej))"
    by (simp_all add: k_base_def memoria_ej)
  moreover have "70 + 2 * (cuantas (proghdrs imagen_ej) + 1) + 2 * (cuantas (proghdrs imagen_ej) + 1)
      \<le> length (libres_inicio (primera_libre 0xF0200000 32768) 32768)"
    using libres_bastan [of 32768 "primera_libre 0xF0200000 32768"] by (simp add: imagen_ej_ok)
  ultimately obtain e k' xs p1 p2
    where "i386_init SCHED_PRIORITIES rtc_ej 0xF0200000 (\<lambda>_. 0xF0100000) imagen_ej imagen_ej k_base = Some (Usuario e, k')"
      "e < 2" "arrancado 512 imagen_ej imagen_ej xs p1 p2 k'" "curenv k' = Some e"
    using arranque [OF memoria_ej(4) _ _ _ pilas_ej imagen_ej_ok(1) imagen_ej_ok(1), of rtc_ej k_base SCHED_PRIORITIES]
    unfolding memoria_ej by blast
  moreover from this have "tf_eip (env_tf (envs k' e)) = 0x800020"
    by (auto simp: arrancado_def less_2_cases_iff imagen_ej_partes)
  ultimately show ?thesis by blast
qed

end
