(* ===== verification/Entry_Claims.thy ===== *)
theory Entry_Claims
  imports Boot_Claims
begin

text \<open>
  The first page directory of the kernel, and that \<open>mem_init\<close> stays within what it maps:
  until the change of page directory every frame that is written is below 4 MB, because
  \<open>check_page_free_list(1)\<close> puts those frames at the head of the free list.
\<close>

unbundle bit_operations_syntax

section \<open>What entry_pgdir maps\<close>

text \<open>
  A directory of 4 MB pages as the processor reads it with the flags that \<open>kern/entry.S\<close> sets
  (\<open>CR4_PSE\<close>, \<open>CR0_WP\<close>): the physical address of \<open>va\<close>, for a write when \<open>escribe\<close>.
\<close>

definition traduce_4M :: "(nat \<Rightarrow> uint32) \<Rightarrow> bool \<Rightarrow> uint32 \<Rightarrow> uint32 option" where
  "traduce_4M dir escribe va =
     (let pde = dir (unat (PDX va)) in
      if pde AND PTE_P = 0 \<or> pde AND PTE_PS = 0 \<or> escribe \<and> pde AND PTE_W = 0 then None
      else Some ((pde AND NOT 0x3FFFFF) OR (va AND 0x3FFFFF)))"

lemma entry_pgdir_entradas:
  "entry_pgdir 0 = 0x81" "entry_pgdir 960 = 0x83" "i \<noteq> 0 \<Longrightarrow> i \<noteq> 960 \<Longrightarrow> entry_pgdir i = 0"
  by (simp_all add: entry_pgdir_def unat_PDX memlayout pte_flags)

lemma entrada_0_y_960:
  "(0x81 :: uint32) AND PTE_P \<noteq> 0" "(0x81 :: uint32) AND PTE_PS \<noteq> 0" "(0x81 :: uint32) AND PTE_W = 0" "(0x81 :: uint32) AND NOT 0x3FFFFF = 0"
  "(0x83 :: uint32) AND PTE_P \<noteq> 0" "(0x83 :: uint32) AND PTE_PS \<noteq> 0" "(0x83 :: uint32) AND PTE_W \<noteq> 0" "(0x83 :: uint32) AND NOT 0x3FFFFF = 0"
  by (simp_all add: pte_flags)

lemma entry_pgdir_traduce:
  "traduce_4M entry_pgdir escribe va =
     (if unat (PDX va) = 960 \<or> unat (PDX va) = 0 \<and> \<not> escribe then Some (va AND 0x3FFFFF) else None)"
  by (cases "unat (PDX va) = 0"; cases "unat (PDX va) = 960")
    (simp_all add: traduce_4M_def Let_def entry_pgdir_entradas entrada_0_y_960)

lemma entry_pgdir_nucleo:
  assumes "4026531840 \<le> unat va" "unat va < 4026531840 + 4194304"
  shows "traduce_4M entry_pgdir escribe va = Some (va - KERNBASE)"
proof -
  obtain r where r: "unat va = r + 960 * 4194304" "r < 4194304" using assms by (intro that [of "unat va - 4026531840"]) simp_all
  have "unat (PDX va) = 960" using r by (simp add: unat_PDX)
  moreover have "va AND 0x3FFFFF = va - KERNBASE"
  proof -
    have "va AND 0x3FFFFF = va AND mask 22" by (simp add: mask_eq_exp_minus_1)
    then have "unat (va AND 0x3FFFFF) = unat va mod 2 ^ 22" by (simp only: unat_and_mask)
    also have "\<dots> = r" unfolding r(1) using mod_mult_self1 [of r 960 4194304] r(2) by simp
    also have "\<dots> = unat (va - KERNBASE)" using r by (simp add: unat_sub word_le_nat_alt KERNBASE_def)
    finally show ?thesis by (simp add: word_unat_eq_iff)
  qed
  ultimately show ?thesis by (simp add: entry_pgdir_traduce)
qed

lemma entry_pgdir_rango:
  "traduce_4M entry_pgdir escribe va =
     (if KERNBASE \<le> va \<and> va < KERNBASE + 0x400000 then Some (va - KERNBASE)
      else if va < 0x400000 \<and> \<not> escribe then Some va else None)"
proof -
  have K: "KERNBASE \<le> va \<longleftrightarrow> 4026531840 \<le> unat va" "va < KERNBASE + 0x400000 \<longleftrightarrow> unat va < 4026531840 + 4194304"
    "va < 0x400000 \<longleftrightarrow> unat va < 4194304" by (simp_all add: word_le_nat_alt word_less_nat_alt KERNBASE_def)
  have d: "unat va div 4194304 = 960 \<longleftrightarrow> 4026531840 \<le> unat va \<and> unat va < 4026531840 + 4194304" "unat va div 4194304 = 0 \<longleftrightarrow> unat va < 4194304"
    by linarith+
  have low: "va AND 0x3FFFFF = va" if "unat va < 4194304"
  proof -
    have "va AND 0x3FFFFF = va AND mask 22" by (simp add: mask_eq_exp_minus_1)
    then have "unat (va AND 0x3FFFFF) = unat va mod 2 ^ 22" by (simp only: unat_and_mask)
    then show ?thesis using that by (simp add: word_unat_eq_iff)
  qed
  have x: "unat (PDX va) = unat va div 4194304" by (rule unat_PDX)
  show ?thesis
  proof (cases "KERNBASE \<le> va \<and> va < KERNBASE + 0x400000")
    case True
    then show ?thesis using entry_pgdir_nucleo [of va escribe] K by simp
  next
    case False
    then have "unat (PDX va) \<noteq> 960" using d(1) x K by simp
    then show ?thesis unfolding entry_pgdir_traduce if_not_P [OF False] x d(2) K(3) using low by simp
  qed
qed

lemma entry_pgdir_pagina:
  assumes "p < 1024"
  shows "traduce_4M entry_pgdir escribe (pagina_va (983040 + p)) = Some (page2pa p)"
proof -
  have "unat (pagina_va (983040 + p)) = 4096 * (983040 + p)" using assms by (intro unat_pagina_va) simp
  moreover have "pagina_va (983040 + p) - KERNBASE = page2pa p" by (simp add: page2pa_pagina pagina_va_def KERNBASE_def algebra_simps)
  ultimately show ?thesis using entry_pgdir_nucleo [of "pagina_va (983040 + p)" escribe] assms by simp
qed

section \<open>mem_init before the change of page directory\<close>

text \<open>
  C10: \<open>entry_pgdir\<close> maps the first 4 MB of memory at \<open>KERNBASE\<close> for the kernel and, read-only,
  at 0, and no other address. When the kernel and its arrays end within those 4 MB, all of
  \<open>mem_init\<close> up to the change of page directory, its self tests included, writes only to
  page frames that \<open>entry_pgdir\<close> maps at their kernel address, and all that \<open>boot_alloc\<close>
  gave, up to the address returned, is mapped too.
\<close>

theorem arranque_en_entry_pgdir:
  assumes "memoria_ok fin np" "np = unat (fst (i386_detect_memory rtc))" "page_free_list k = None" "curenv k = None"
    and "pilas_ok kstacks" "primera_libre fin np \<le> 1024"
  shows "\<exists>nf k'. mem_init_mapas rtc fin kstacks k = Some (nf, k')
    \<and> (\<forall>escribe va. traduce_4M entry_pgdir escribe va =
         (if KERNBASE \<le> va \<and> va < KERNBASE + 0x400000 then Some (va - KERNBASE)
          else if va < 0x400000 \<and> \<not> escribe then Some va else None))
    \<and> (\<forall>va. KERNBASE \<le> va \<longrightarrow> va < nf \<longrightarrow> traduce_4M entry_pgdir True va = Some (va - KERNBASE))
    \<and> (\<forall>p<65536. mem k' p \<noteq> mem k p \<longrightarrow> traduce_4M entry_pgdir True (pagina_va (983040 + p)) = Some (page2pa p))"
proof -
  let ?nf = "pagina_va (983040 + primera_libre fin np)"
  obtain k' where k': "mem_init_mapas rtc fin kstacks k = Some (?nf, k')"
      "\<forall>p<65536. 1024 \<le> p \<longrightarrow> p \<noteq> ini fin \<longrightarrow> mem k' p = mem k p"
    using mem_init_mapas_forma [OF assms(1) [unfolded assms(2)] refl assms(3-5)] unfolding assms(2) [symmetric] by blast
  have "ini fin < 1024" using assms(6) by (simp add: primera_libre_def)
  then have "mem k' p \<noteq> mem k p \<Longrightarrow> p < 65536 \<Longrightarrow> p < 1024" for p using k'(2) by (metis not_less)
  moreover have "unat ?nf \<le> 4026531840 + 4194304" using assms(6) by (simp add: unat_pagina_va)
  then have "va < ?nf \<Longrightarrow> KERNBASE \<le> va \<Longrightarrow> traduce_4M entry_pgdir True va = Some (va - KERNBASE)" for va
    by (intro entry_pgdir_nucleo) (simp_all add: word_le_nat_alt word_less_nat_alt KERNBASE_def)
  ultimately show ?thesis using k'(1) entry_pgdir_pagina entry_pgdir_rango by blast
qed

lemma arranque_en_entry_pgdir_witness:
  "\<exists>nf k'. mem_init_mapas rtc_ej 0xF0200000 (\<lambda>_. 0xF0100000) k_base = Some (nf, k') \<and> mem k' 20000 = mem k_base 20000
     \<and> traduce_4M entry_pgdir True 0xF0201008 = Some 0x201008"
proof -
  have h: "page_free_list k_base = None" "curenv k_base = None" "32768 = unat (fst (i386_detect_memory rtc_ej))"
    "primera_libre 0xF0200000 32768 \<le> 1024"
    by (simp_all add: k_base_def memoria_ej primera_libre_def)
  from arranque_en_entry_pgdir [OF memoria_ej(4) h(3,1,2) pilas_ej h(4)]
  obtain nf k' where k': "mem_init_mapas rtc_ej 0xF0200000 (\<lambda>_. 0xF0100000) k_base = Some (nf, k')"
      "\<forall>escribe va. traduce_4M entry_pgdir escribe va =
         (if KERNBASE \<le> va \<and> va < KERNBASE + 0x400000 then Some (va - KERNBASE)
          else if va < 0x400000 \<and> \<not> escribe then Some va else None)"
      "\<forall>p<65536. mem k' p \<noteq> mem k_base p \<longrightarrow> traduce_4M entry_pgdir True (pagina_va (983040 + p)) = Some (page2pa p)" by blast
  have "traduce_4M entry_pgdir True (pagina_va (983040 + 20000)) = None" using k'(2) by (simp add: pagina_va_def KERNBASE_def)
  then have "mem k' 20000 = mem k_base 20000" using k'(3) [rule_format, of 20000] by auto
  moreover have "traduce_4M entry_pgdir True 0xF0201008 = Some 0x201008" using k'(2) by (simp add: KERNBASE_def)
  ultimately show ?thesis using k'(1) by blast
qed

end
