(* ===== verification/Spec2Isabelle.thy ===== *)
theory Spec2Isabelle
  imports Fork_Claims Cow_Claims Fs_Claims Fs_Limits Print_Claims Shell_Run Teclado Monitor_Claims Kdebug_Claims
    Spinlock Primos Xargs Init_Claims Entry_Claims
begin

text \<open>
  Models and proofs for the operating-systems course repository: the FUSE file system of
  \<open>TP3-fisopfs\<close>, the JOS kernel of \<open>TP2-sched\<close> with its library, the shell of
  \<open>TP1-shell\<close>, and two of the programs of \<open>TP0-fork\<close>.

  Shared: \<open>Prelude\<close> (searches of an array, C strings, signed readings of words) and
  \<open>Lista\<close>, the locale of a free list threaded through an array, interpreted for the pages
  of the kernel (\<open>Pmap\<close>) and for its environments (\<open>Env\<close>).

  File system. \<open>Fs_Model\<close> is \<open>fs.c\<close> and \<open>Fs_Ops\<close> is \<open>fisopfs.c\<close>: the super block is a
  record, an inode is a record, the content of an inode is a function from byte offsets,
  and directory entries are read and written in those bytes at 260-byte strides, as the
  casts of the C code do. A callback is a function of the super block that returns the
  result code and the new super block, and None where the C code would access memory
  outside an array. \<open>Fs_Dir\<close> states the laws of directory entries as the locale
  \<open>tabla_entradas\<close> and interprets it on the bytes. \<open>Fs_Inv\<close> is the invariant, \<open>Fs_Safe\<close>
  that every callback keeps it and stays inside the arrays, \<open>Fs_Props\<close> and \<open>Fs_Names\<close>
  the abstract views (a file is a byte string, the tree a map from paths to nodes) and
  what each call does to them. \<open>Fs_Claims\<close> has the properties, \<open>Fs_Limits\<close> the states in
  which the code fails.

  Kernel. \<open>Mmu\<close> is the arithmetic of addresses and entries on 32-bit words, \<open>Kern_State\<close>
  the state: physical memory by words, page descriptors with 16-bit counts, the table of
  environments. \<open>Pmap\<close> is \<open>kern/pmap.c\<close>, \<open>Env\<close> is \<open>kern/env.c\<close>, \<open>Sched\<close> is
  \<open>kern/sched.c\<close> with both policies, \<open>Syscall\<close> is \<open>kern/syscall.c\<close>, \<open>Trap\<close> is
  \<open>kern/trap.c\<close>, with byte-wise writes for the frame of a page-fault upcall; a panic or an
  access through a null pointer is None or \<open>Panico\<close>, and a function that does not return
  gives where control goes. \<open>Pmap_Inv\<close> is the invariant of counts and page tables and the
  operations as updates of one entry, \<open>Pmap_Frame\<close> what they leave alone; \<open>Pmap_Claims\<close>,
  \<open>Env_Claims\<close>, \<open>Sched_Claims\<close>, \<open>Sys_Claims\<close> and \<open>Trap_Claims\<close> have the properties.

  Start of the kernel. \<open>Checks\<close> is the self tests \<open>check_*\<close> of \<open>kern/pmap.c\<close>, which
  \<open>mem_init\<close> runs and which move the free pages, an assertion that fails being a panic.
  \<open>Boot\<close> is \<open>mem_init\<close> with \<open>kern/kclock.c\<close> and the first page directory, \<open>Boot_Inv\<close> the
  kernel's page directory while it is built. \<open>Checks_Alloc\<close> runs the tests that work on three
  pages, on a state with those pages as parameters; \<open>Checks_List\<close> is the splitting of the
  free list by \<open>check_page_free_list\<close>; \<open>Checks_Kern\<close> is the region of devices and the tests
  as operations on the invariant. \<open>Boot_Claims\<close> has the map that \<open>mem_init\<close> ends with and
  that no test fails, \<open>Entry_Claims\<close> that it stays within the memory that \<open>entry_pgdir\<close> maps. \<open>Elf\<close> is
  \<open>load_icode\<close> and \<open>env_create\<close>, the image a function from offsets to bytes; \<open>Elf_Mem\<close> is
  the memory of a program by bytes and \<open>Elf_Claims\<close> what loading does to it. \<open>Init\<close> is
  \<open>i386_init\<close> and \<open>Init_Claims\<close> that it reaches the first program, with each program in
  an address space of its own. \<open>Spinlock\<close> is the kernel lock, one access of one CPU per
  step: its mutual exclusion is why a call of the kernel is one step elsewhere.

  Devices of the kernel. \<open>Console\<close> is \<open>kern/console.c\<close>: the bytes that wait in the serial
  port and in the keyboard are lists, the screen is the memory of the card, the ports of
  output are lists of what was sent. \<open>Console_Claims\<close> has the queue of input, \<open>Teclado\<close> the
  keyboard as a function of the history of its keys, \<open>Pantalla\<close> the screen as a window on
  a tape. \<open>Monitor\<close> is \<open>lib/readline.c\<close>,
  \<open>kern/monitor.c\<close> and \<open>kern/printf.c\<close>, on the list of the characters that \<open>getchar\<close>
  gives; \<open>Monitor_Claims\<close> has the line editor and the splitting of a line. \<open>Kdebug\<close> is
  \<open>kern/kdebug.c\<close> on tables of stabs that are arguments, \<open>Kdebug_Claims\<close> its binary search.

  Library. \<open>Strings\<close> is \<open>lib/string.c\<close> on a memory of bytes, \<open>Printfmt\<close> is
  \<open>lib/printfmt.c\<close> and \<open>lib/printf.c\<close>; a loop that may not end is a partial function.
  \<open>Print_Claims\<close>: moving memory, the bounds of \<open>vsnprintf\<close>, and that a printed number is
  read back. \<open>User_Lib\<close> is \<open>lib/fork.c\<close>, \<open>lib/pgfault.c\<close>, \<open>lib/ipc.c\<close> and the stubs of
  \<open>lib/syscall.c\<close> as functions of the kernel state, a system call being its handler;
  \<open>User_Mem\<close> and \<open>User_Claims\<close> are the memory that programs see and what \<open>pgfault\<close> does to
  it, \<open>Fork_Cow\<close> and \<open>Fork_Claims\<close> the loop of \<open>fork\<close> and the whole of it. \<open>Upcall\<close> is
  \<open>lib/pfentry.S\<close>, and \<open>Cow_Claims\<close> a store under copy on write from the trap, through the
  kernel's handler, the upcall and \<open>pgfault\<close>, to the instruction that is tried again.

  Shell. \<open>Shell_Parse\<close> is the parser: strings as lists of characters, a command as a tree,
  None for an access outside an array. \<open>Shell_Exec\<close> is what a line does: a process is its
  table of open files and its environment, and the result of a command is the tree of
  processes it becomes. \<open>Shell_Claims\<close>: a command as the classification of its words, and
  the parse of a printed pipeline. \<open>Shell_Run\<close>: how the processes of a pipeline are
  connected, from the line that is typed to the programs that are executed.

  Programs. \<open>Primos\<close> is the sieve of \<open>TP0-fork/primes.c\<close>, processes and pipes with one
  read or write per step, in any order; \<open>Xargs\<close> is \<open>TP0-fork/xargs.c\<close>, the commands it
  executes. Their system calls are taken to succeed.

  Bounds. A loop over an address range has the number of pages of the address space,
  \<open>2 ^ 20\<close>, as its fuel; the ranges end at \<open>UTOP\<close> or below, so it is never used up, and
  the theorems on those loops show that they return. Every other bounded loop has the
  bound of the code, and every other loop is a terminating function or is partial.

  Not modelled: how ports and registers of devices are programmed and waited for; the
  local APIC, the interrupt controllers, the tables of the firmware (\<open>kern/mpconfig.c\<close>) and
  the start of the other processors; segment tables and the rest of the assembly; the stores that a user
  program makes to its own stack between its system calls; the page table of
  \<open>kern/entrypgdir.c\<close>, which is under \<open>#if 0\<close>, and the variants under \<open>TP1_PSE\<close>, which are
  not built; the test programs under \<open>user/\<close>, and the challenges and examples, which are
  small uses of Unix calls.
\<close>

end
